(* ===== verification/Prelude.thy ===== *)
theory Prelude
  imports Complex_Main
begin

text \<open>
  The prelude of the development: the model's base types, the result type of fallible code
  and the generic lemmas every component uses.

  A UUID is its 128-bit integer value (\<^verbatim>\<open>uuid.UUID.int\<close>), so equality and the ordering used by
  \<^verbatim>\<open>sorted\<close> are those of Python.  A \<^verbatim>\<open>datetime\<close> is its instant in microseconds together with
  its UTC offset in minutes, \<open>None\<close> for a naive value.  Exceptions are the left summand of
  \<open>'e + 'a\<close>.
\<close>

named_theorems py_simps \<open>equations that evaluate the Python base operations\<close>
named_theorems result_simps \<open>elimination equations of the result type\<close>

section \<open>Identifiers and time\<close>

type_synonym uuid = nat

datatype datetime = Datetime (instant: int) (utcoffset: "int option")

definition tz_aware :: "datetime \<Rightarrow> bool" where
  "tz_aware d \<longleftrightarrow> utcoffset d \<noteq> None"

definition utc :: "int \<Rightarrow> datetime" where
  "utc t = Datetime t (Some 0)"

lemma tz_aware_utc [simp]: "tz_aware (utc t)" and instant_utc [simp]: "instant (utc t) = t"
  by (simp_all add: tz_aware_def utc_def)

text \<open>\<^verbatim>\<open>timedelta.total_seconds()\<close> compared with a whole number of seconds: the difference of two
  instants is counted in microseconds.\<close>

definition usec :: "int \<Rightarrow> int" where
  "usec s = s * 1000000"

section \<open>Strings\<close>

definition is_space :: "char \<Rightarrow> bool" where
  "is_space c \<longleftrightarrow> c \<in> {CHR '' '', CHR 0x09, CHR 0x0A, CHR 0x0B, CHR 0x0C, CHR 0x0D}"

text \<open>\<^verbatim>\<open>not s.strip()\<close>: the string has no character other than white space.\<close>

definition blank :: "string \<Rightarrow> bool" where
  "blank s \<longleftrightarrow> list_all is_space s"

definition upper_char :: "char \<Rightarrow> char" where
  "upper_char c = (let n = of_char c :: nat in
     if 97 \<le> n \<and> n \<le> 122 then char_of (n - 32) else c)"

definition upper :: "string \<Rightarrow> string" where
  "upper s = map upper_char s"

lemma of_char_upper_char:
  "(of_char (upper_char c) :: nat) =
     (if 97 \<le> (of_char c :: nat) \<and> (of_char c :: nat) \<le> 122 then of_char c - 32 else of_char c)"
  by (auto simp: upper_char_def Let_def)

lemma upper_char_idem [simp]: "upper_char (upper_char c) = upper_char c"
  unfolding upper_char_def [of "upper_char c"] by (auto simp: of_char_upper_char Let_def)

lemma upper_upper [simp]: "upper (upper s) = upper s"
  by (simp add: upper_def)

lemma blank_Nil [simp]: "blank []"
  by (simp add: blank_def)

lemma blank_Cons: "blank (c # cs) \<longleftrightarrow> is_space c \<and> blank cs"
  by (simp add: blank_def)

text \<open>\<^verbatim>\<open>str(n)\<close> of a natural number and \<^verbatim>\<open>a or b\<close> on optional strings, where an empty string is
  falsy.\<close>

fun nat_str :: "nat \<Rightarrow> string" where
  "nat_str n = (if n < 10 then [char_of (48 + n)] else nat_str (n div 10) @ [char_of (48 + n mod 10)])"

declare nat_str.simps [simp del]

definition str_or :: "string option \<Rightarrow> string option \<Rightarrow> string option" where
  "str_or a b = (case a of None \<Rightarrow> b | Some s \<Rightarrow> if s = [] then b else Some s)"

text \<open>\<^verbatim>\<open>sep.join(parts)\<close>.\<close>

fun join :: "string \<Rightarrow> string list \<Rightarrow> string" where
  "join sep [] = []"
| "join sep [s] = s"
| "join sep (s # t # ts) = s @ sep @ join sep (t # ts)"

lemma append_sep_inj:
  assumes "a @ c # u = b @ c # v" "c \<notin> set a" "c \<notin> set b"
  shows "a = b \<and> u = v"
  using assms by (induction a arbitrary: b) (auto simp: Cons_eq_append_conv)

lemma join_chars: "x \<in> set (join [c] ps) \<Longrightarrow> x = c \<or> (\<exists>p\<in>set ps. x \<in> set p)"
  by (induction "[c]" ps rule: join.induct) auto

text \<open>Parts without the separator can be read back from the joined text.\<close>

lemma join_inj:
  assumes "join [c] ps = join [c] qs" "ps \<noteq> []" "qs \<noteq> []"
    and "\<forall>p\<in>set ps. c \<notin> set p" "\<forall>q\<in>set qs. c \<notin> set q"
  shows "ps = qs"
  using assms
proof (induction "[c]" ps arbitrary: qs rule: join.induct)
  case (2 s)
  then show ?case by (cases qs rule: remdups_adj.cases) auto
next
  case (3 s t ts)
  from "3.prems" obtain q qs' where qs: "qs = q # qs'" by (cases qs) auto
  from "3.prems" have "qs' \<noteq> []" unfolding qs by (cases qs') auto
  then obtain r rs where qs': "qs' = r # rs" by (cases qs') auto
  have "s = q \<and> join [c] (t # ts) = join [c] (r # rs)"
    using "3.prems" by (intro append_sep_inj) (auto simp: qs qs')
  with "3.hyps" [of "r # rs"] "3.prems" show ?case by (auto simp: qs qs')
qed simp

definition is_digit :: "char \<Rightarrow> bool" where
  "is_digit c \<longleftrightarrow> 48 \<le> (of_char c :: nat) \<and> (of_char c :: nat) \<le> 57"

lemma nat_str_digits: "\<forall>c\<in>set (nat_str n). is_digit c"
proof (induction n rule: nat_str.induct)
  case (1 n)
  have d: "is_digit (char_of (48 + k))" if "k < 10" for k :: nat
    using that by (simp add: is_digit_def of_char_of)
  show ?case
  proof (cases "n < 10")
    case True
    then show ?thesis using d by (simp add: nat_str.simps [of n])
  next
    case False
    then show ?thesis using "1.IH" d [of "n mod 10"] by (auto simp: nat_str.simps [of n])
  qed
qed

section \<open>UUID text\<close>

definition hex_digit :: "nat \<Rightarrow> char" where
  "hex_digit d = (if d < 10 then char_of (48 + d) else char_of (87 + d))"

definition hex_value :: "char \<Rightarrow> nat option" where
  "hex_value c = (let n = of_char c :: nat in
     if 48 \<le> n \<and> n \<le> 57 then Some (n - 48)
     else if 97 \<le> n \<and> n \<le> 102 then Some (n - 87)
     else if 65 \<le> n \<and> n \<le> 70 then Some (n - 55) else None)"

text \<open>\<^verbatim>\<open>"%0kx" % n\<close>, and its reading.\<close>

fun hex_fixed :: "nat \<Rightarrow> nat \<Rightarrow> string" where
  "hex_fixed 0 n = []"
| "hex_fixed (Suc k) n = hex_fixed k (n div 16) @ [hex_digit (n mod 16)]"

definition hex_step :: "nat option \<Rightarrow> char \<Rightarrow> nat option" where
  "hex_step acc c = (case (acc, hex_value c) of (Some a, Some d) \<Rightarrow> Some (16 * a + d) | _ \<Rightarrow> None)"

text \<open>\<^verbatim>\<open>str(uuid)\<close>, and \<^verbatim>\<open>UUID(text)\<close>, which drops \<^verbatim>\<open>urn:\<close>, \<^verbatim>\<open>uuid:\<close>, outer braces and hyphens and reads
  32 hexadecimal digits.\<close>

definition uuid_str :: "uuid \<Rightarrow> string" where
  "uuid_str u =
     (let h = hex_fixed 32 u in
      take 8 h @ ''-'' @ take 4 (drop 8 h) @ ''-'' @ take 4 (drop 12 h) @ ''-'' @ take 4 (drop 16 h)
        @ ''-'' @ drop 20 h)"

function remove_text :: "string \<Rightarrow> string \<Rightarrow> string" where
  "remove_text p [] = []"
| "remove_text p (c # s) =
     (if p \<noteq> [] \<and> take (length p) (c # s) = p then remove_text p (drop (length p) (c # s)) else c # remove_text p s)"
  by pat_completeness auto
termination
  by (relation "measure (\<lambda>(p, s). length s)") auto

definition is_brace :: "char \<Rightarrow> bool" where
  "is_brace c \<longleftrightarrow> c = CHR 0x7B \<or> c = CHR 0x7D"

definition strip_braces :: "string \<Rightarrow> string" where
  "strip_braces s = rev (dropWhile is_brace (rev (dropWhile is_brace s)))"

definition uuid_parse :: "string \<Rightarrow> uuid option" where
  "uuid_parse s =
     (let h = filter (\<lambda>c. c \<noteq> CHR ''-'') (strip_braces (remove_text ''uuid:'' (remove_text ''urn:'' s))) in
      if length h \<noteq> 32 then None else foldl hex_step (Some 0) h)"

lemma hex_value_digit: "d < 16 \<Longrightarrow> hex_value (hex_digit d) = Some d"
  by (auto simp: hex_value_def hex_digit_def Let_def of_char_of)

lemma remove_text_absent: "c \<in> set p \<Longrightarrow> c \<notin> set s \<Longrightarrow> remove_text p s = s"
proof (induction p s rule: remove_text.induct)
  case (2 p d s)
  have "take (length p) (d # s) \<noteq> p" using "2.prems" by (metis in_set_takeD)
  then show ?case using 2 by auto
qed simp

lemma strip_braces_absent: "\<forall>c\<in>set s. \<not> is_brace c \<Longrightarrow> strip_braces s = s"
proof -
  assume none: "\<forall>c\<in>set s. \<not> is_brace c"
  have "dropWhile is_brace t = t" if "set t \<subseteq> set s" for t using that none by (cases t) auto
  then show ?thesis by (simp add: strip_braces_def)
qed

lemma hex_digit_not_hyphen: "d < 16 \<Longrightarrow> hex_digit d \<noteq> CHR ''-''"
  using hex_value_digit [of d] by (auto simp: hex_value_def)

lemma hex_fixed_no_hyphen: "\<forall>c\<in>set (hex_fixed k n). c \<noteq> CHR ''-''"
  by (induction k arbitrary: n) (auto simp: hex_digit_not_hyphen)

lemma length_hex_fixed [simp]: "length (hex_fixed k n) = k"
  by (induction k arbitrary: n) simp_all

lemma foldl_hex_step_fixed: "foldl hex_step (Some 0) (hex_fixed k n) = Some (n mod 16 ^ k)"
proof (induction k arbitrary: n)
  case 0
  then show ?case by simp
next
  case (Suc k)
  have "16 * (n div 16 mod 16 ^ k) + n mod 16 = n mod 16 ^ Suc k"
    using mod_mult2_eq [of n 16 "16 ^ k"] by simp
  then show ?case by (simp add: Suc.IH hex_step_def [of "Some _"] hex_value_digit)
qed

lemma hex_fixed_mod: "hex_fixed k (n mod 16 ^ k) = hex_fixed k n"
proof (induction k arbitrary: n)
  case 0
  then show ?case by simp
next
  case (Suc k)
  have "n mod 16 ^ Suc k div 16 = n div 16 mod 16 ^ k"
    using mod_mult2_eq [of n 16 "16 ^ k"] by simp
  moreover have "n mod 16 ^ Suc k mod 16 = n mod 16" by (simp add: mod_mod_cancel)
  ultimately show ?case using Suc.IH [of "n div 16"] by simp
qed

lemma uuid_groups:
  "take 8 h @ take 4 (drop 8 h) @ take 4 (drop 12 h) @ take 4 (drop 16 h) @ drop 20 h = h"
proof -
  have "take 4 (drop 16 h) @ drop 20 h = drop 16 h" using append_take_drop_id [of 4 "drop 16 h"] by simp
  moreover have "take 4 (drop 12 h) @ drop 16 h = drop 12 h" using append_take_drop_id [of 4 "drop 12 h"] by simp
  moreover have "take 4 (drop 8 h) @ drop 12 h = drop 8 h" using append_take_drop_id [of 4 "drop 8 h"] by simp
  ultimately show ?thesis by (simp only: append_take_drop_id)
qed

lemma uuid_hyphens:
  assumes "\<forall>c\<in>set h. c \<noteq> CHR ''-''"
  shows "filter (\<lambda>c. c \<noteq> CHR ''-'') (take 8 h @ ''-'' @ take 4 (drop 8 h) @ ''-'' @ take 4 (drop 12 h)
    @ ''-'' @ take 4 (drop 16 h) @ ''-'' @ drop 20 h) = h"
proof -
  have f: "filter (\<lambda>c. c \<noteq> CHR ''-'') (drop n h) = drop n h"
    "filter (\<lambda>c. c \<noteq> CHR ''-'') (take m (drop n h)) = take m (drop n h)" for m n
    using assms by (auto intro!: filter_True dest!: in_set_takeD in_set_dropD)
  show ?thesis using f(2) [of 8 0] uuid_groups [of h] by (simp add: f)
qed

lemma hex_fixed_chars: "c \<in> set (hex_fixed k n) \<Longrightarrow> hex_value c \<noteq> None"
  by (induction k arbitrary: n) (auto simp: hex_value_digit)

lemma uuid_str_chars: "c \<in> set (uuid_str u) \<Longrightarrow> c = CHR ''-'' \<or> hex_value c \<noteq> None"
  using hex_fixed_chars [of c 32 u] by (auto simp: uuid_str_def Let_def dest!: in_set_takeD in_set_dropD)

lemma uuid_str_plain: "strip_braces (remove_text ''uuid:'' (remove_text ''urn:'' (uuid_str u))) = uuid_str u"
proof -
  have "CHR '':'' \<notin> set (uuid_str u)" using uuid_str_chars [of "CHR '':''" u] by (auto simp: hex_value_def)
  then have "remove_text ''uuid:'' (remove_text ''urn:'' (uuid_str u)) = uuid_str u"
    using remove_text_absent [of "CHR '':''"] by simp
  moreover have "\<forall>c\<in>set (uuid_str u). \<not> is_brace c"
    using uuid_str_chars [of _ u] by (fastforce simp: is_brace_def hex_value_def)
  ultimately show ?thesis by (simp add: strip_braces_absent)
qed

lemma uuid_parse_str: "uuid_parse (uuid_str u) = Some (u mod 16 ^ 32)"
proof -
  have "filter (\<lambda>c. c \<noteq> CHR ''-'') (uuid_str u) = hex_fixed 32 u"
    unfolding uuid_str_def Let_def by (rule uuid_hyphens) (rule hex_fixed_no_hyphen)
  then show ?thesis by (simp only: uuid_parse_def uuid_str_plain Let_def length_hex_fixed foldl_hex_step_fixed) simp
qed

lemma uuid_str_mod: "uuid_str (u mod 16 ^ 32) = uuid_str u"
  unfolding uuid_str_def hex_fixed_mod ..

lemma uuid_str_eq_iff: "uuid_str a = uuid_str b \<longleftrightarrow> a mod 16 ^ 32 = b mod 16 ^ 32"
  using uuid_parse_str [of a] uuid_parse_str [of b] uuid_str_mod [of a] uuid_str_mod [of b] by auto

lemma uuid_str_not_blank: "\<not> blank (uuid_str u)"
  by (simp add: uuid_str_def blank_def is_space_def Let_def)

section \<open>Results\<close>

type_synonym ('e, 'a) result = "'e + 'a"

definition rbind :: "('e, 'a) result \<Rightarrow> ('a \<Rightarrow> ('e, 'b) result) \<Rightarrow> ('e, 'b) result" where
  "rbind r f = (case r of Inl e \<Rightarrow> Inl e | Inr a \<Rightarrow> f a)"

definition guard :: "bool \<Rightarrow> 'e \<Rightarrow> ('e, unit) result" where
  "guard ok e = (if ok then Inr () else Inl e)"

definition is_ok :: "('e, 'a) result \<Rightarrow> bool" where
  "is_ok r \<longleftrightarrow> (case r of Inl _ \<Rightarrow> False | Inr _ \<Rightarrow> True)"

definition of_opt :: "'e \<Rightarrow> 'a option \<Rightarrow> ('e, 'a) result" where
  "of_opt e v = (case v of None \<Rightarrow> Inl e | Some a \<Rightarrow> Inr a)"

lemma rbind_simps [simp, result_simps]:
  "rbind (Inl e) f = Inl e" "rbind (Inr a) f = f a"
  by (simp_all add: rbind_def)

lemma rbind_eq_Inr [result_simps]: "rbind r f = Inr b \<longleftrightarrow> (\<exists>a. r = Inr a \<and> f a = Inr b)"
  by (cases r) simp_all

lemma guard_simps [simp, result_simps]:
  "guard True e = Inr ()" "guard False e = Inl e"
  by (simp_all add: guard_def)

lemma guard_eq_Inr [result_simps]: "guard b e = Inr u \<longleftrightarrow> b"
  by (simp add: guard_def)

lemma is_ok_simps [simp]: "is_ok (Inr a)" "\<not> is_ok (Inl e)"
  by (simp_all add: is_ok_def)

lemma is_ok_iff: "is_ok r \<longleftrightarrow> (\<exists>a. r = Inr a)"
  by (cases r) simp_all

lemma of_opt_simps [simp]: "of_opt e (Some a) = Inr a" "of_opt e None = Inl e"
  by (simp_all add: of_opt_def)

lemma of_opt_eq_Inr [result_simps]: "of_opt e v = Inr a \<longleftrightarrow> v = Some a"
  by (cases v) simp_all

text \<open>A comprehension whose expression can raise: the first error stops it.\<close>

fun rmap :: "('a \<Rightarrow> ('e, 'b) result) \<Rightarrow> 'a list \<Rightarrow> ('e, 'b list) result" where
  "rmap f [] = Inr []"
| "rmap f (x # xs) = rbind (f x) (\<lambda>y. rbind (rmap f xs) (\<lambda>ys. Inr (y # ys)))"

lemma rmap_eq_Inr: "rmap f xs = Inr ys \<longleftrightarrow> list_all2 (\<lambda>x y. f x = Inr y) xs ys"
  by (induction xs arbitrary: ys) (auto simp: rbind_eq_Inr list_all2_Cons1)

lemma rmap_source: "rmap f xs = Inr ys \<Longrightarrow> y \<in> set ys \<Longrightarrow> \<exists>x\<in>set xs. f x = Inr y"
  by (induction xs arbitrary: ys) (auto simp: rbind_eq_Inr)

lemma rmap_defined: "(\<And>x. x \<in> set xs \<Longrightarrow> \<exists>y. f x = Inr y) \<Longrightarrow> \<exists>ys. rmap f xs = Inr ys"
  by (induction xs) (simp, metis list.set_intros rbind_simps(2) rmap.simps(2))

section \<open>Association lists and tables\<close>

text \<open>\<^verbatim>\<open>scalar_one_or_none\<close> over a table kept as a list of rows: the first row that satisfies
  the condition (the tables queried this way carry a unique constraint on the key).\<close>

definition first_row :: "('r \<Rightarrow> bool) \<Rightarrow> 'r list \<Rightarrow> 'r option" where
  "first_row P rows = List.find P rows"

lemma first_row_None_iff: "first_row P rows = None \<longleftrightarrow> (\<forall>r\<in>set rows. \<not> P r)"
  by (auto simp: first_row_def find_None_iff)

lemma first_row_SomeD: "first_row P rows = Some r \<Longrightarrow> r \<in> set rows \<and> P r"
  by (auto simp: first_row_def find_Some_iff)

lemma first_row_simps [simp]:
  "first_row P [] = None"
  "first_row P (r # rows) = (if P r then Some r else first_row P rows)"
  by (simp_all add: first_row_def)

lemma first_row_append:
  "first_row P (xs @ ys) = (case first_row P xs of None \<Rightarrow> first_row P ys | Some r \<Rightarrow> Some r)"
  by (induction xs) simp_all

text \<open>Update in place of the rows that satisfy a condition.\<close>

definition update_rows :: "('r \<Rightarrow> bool) \<Rightarrow> ('r \<Rightarrow> 'r) \<Rightarrow> 'r list \<Rightarrow> 'r list" where
  "update_rows P f rows = map (\<lambda>r. if P r then f r else r) rows"

lemma length_update_rows [simp]: "length (update_rows P f rows) = length rows"
  by (simp add: update_rows_def)

lemma update_rows_simps [simp]:
  "update_rows P f [] = []"
  "update_rows P f (r # rows) = (if P r then f r else r) # update_rows P f rows"
  by (simp_all add: update_rows_def)

lemma map_update_rows:
  "(\<And>r. g (f r) = g r) \<Longrightarrow> map g (update_rows P f rows) = map g rows"
  by (simp add: update_rows_def)

lemma first_row_update_rows:
  assumes "\<And>r. P (f r) \<longleftrightarrow> P r"
  shows "first_row P (update_rows P f rows) = map_option f (first_row P rows)"
  using assms by (induction rows) simp_all

lemma first_row_update_rows_other:
  assumes "\<And>r. P r \<Longrightarrow> \<not> Q r \<and> \<not> Q (f r)"
  shows "first_row Q (update_rows P f rows) = first_row Q rows"
  using assms by (induction rows) auto

lemma sum_list_map_filter_split:
  fixes f :: "'a \<Rightarrow> int"
  shows "(\<Sum>x\<leftarrow>xs. f x) = (\<Sum>x\<leftarrow>filter P xs. f x) + (\<Sum>x\<leftarrow>filter (\<lambda>x. \<not> P x) xs. f x)"
  by (induction xs) simp_all

section \<open>State machines given by a transition table\<close>

text \<open>Several components are a table from a state to the states it may move to, with the
  terminal states listed beside it.  A run is the list of states visited after the first.\<close>

fun run_ok :: "('s \<Rightarrow> 's list) \<Rightarrow> 's \<Rightarrow> 's list \<Rightarrow> bool" where
  "run_ok allowed s [] = True"
| "run_ok allowed s (t # ts) = (t \<in> set (allowed s) \<and> run_ok allowed t ts)"

lemma run_ok_append:
  "run_ok al s (ts @ us) \<longleftrightarrow> run_ok al s ts \<and> run_ok al (last (s # ts)) us"
  by (induction ts arbitrary: s) auto

locale transition_table =
  fixes allowed :: "'s \<Rightarrow> 's list" and terminal :: "'s list"
  assumes terminal_iff: "s \<in> set terminal \<longleftrightarrow> allowed s = []"
begin

lemma terminal_run: "s \<in> set terminal \<Longrightarrow> run_ok allowed s ts \<longleftrightarrow> ts = []"
  by (cases ts) (simp_all add: terminal_iff)

text \<open>If every entry into \<open>A\<close> from outside comes from the gate \<open>g\<close>, then a run that starts
  outside \<open>A\<close> and ends in it has visited the gate.\<close>

lemma run_through_gate:
  assumes entry: "\<And>s t. t \<in> set (allowed s) \<Longrightarrow> t \<in> A \<Longrightarrow> s \<in> A \<or> s = g"
    and "run_ok allowed s ts" "s \<notin> A" "last (s # ts) \<in> A"
  shows "g \<in> set (s # ts)"
  using assms(2-)
proof (induction ts arbitrary: s)
  case Nil
  then show ?case by simp
next
  case (Cons t ts)
  then show ?case
  proof (cases "t \<in> A")
    case True
    with entry [of t s] Cons.prems have "s = g" by auto
    then show ?thesis by simp
  next
    case False
    with Cons have "g \<in> set (t # ts)" by auto
    then show ?thesis by auto
  qed
qed

end

locale terminating_table = transition_table +
  fixes rank :: "'s \<Rightarrow> nat"
  assumes rank_decreases: "allowed s \<noteq> [] \<Longrightarrow> \<exists>t\<in>set (allowed s). rank t < rank s"
begin

text \<open>No state is a dead end: from every state some run ends in a terminal state.\<close>

lemma reaches_terminal: "\<exists>ts. run_ok allowed s ts \<and> last (s # ts) \<in> set terminal"
proof (induction "rank s" arbitrary: s rule: less_induct)
  case less
  show ?case
  proof (cases "allowed s = []")
    case True
    then show ?thesis by (intro exI [of _ "[]"]) (simp add: terminal_iff)
  next
    case False
    then obtain t where t: "t \<in> set (allowed s)" "rank t < rank s" using rank_decreases by blast
    with less [of t] obtain ts where "run_ok allowed t ts" "last (t # ts) \<in> set terminal" by blast
    with t show ?thesis by (intro exI [of _ "t # ts"]) simp
  qed
qed

end

section \<open>At-least-once delivery\<close>

text \<open>The contract of the components that receive messages which may be delivered again: \<open>obs\<close> is
  the durable part of the state and \<open>seen\<close> says that a message's identity is recorded there.  A
  seen message changes nothing, an accepted one is seen afterwards, and nothing is forgotten.\<close>

locale at_least_once =
  fixes deliver :: "'st \<Rightarrow> 'm \<Rightarrow> ('e, 'r) result \<times> 'st"
    and obs :: "'st \<Rightarrow> 'o"
    and seen :: "'o \<Rightarrow> 'm \<Rightarrow> bool"
  assumes deliver_obs: "obs st = obs st' \<Longrightarrow> obs (snd (deliver st m)) = obs (snd (deliver st' m))"
    and redelivered: "seen (obs st) m \<Longrightarrow> obs (snd (deliver st m)) = obs st"
    and accepted: "is_ok (fst (deliver st m)) \<Longrightarrow> seen (obs (snd (deliver st m))) m"
    and kept: "seen (obs st) m \<Longrightarrow> seen (obs (snd (deliver st m'))) m"
begin

definition deliver_all :: "'st \<Rightarrow> 'm list \<Rightarrow> 'st" where
  "deliver_all = foldl (\<lambda>st m. snd (deliver st m))"

lemma deliver_all_simps [simp]:
  "deliver_all st [] = st" "deliver_all st (m # ms) = deliver_all (snd (deliver st m)) ms"
  by (simp_all add: deliver_all_def)

lemma deliver_all_append: "deliver_all st (ms @ ns) = deliver_all (deliver_all st ms) ns"
  by (simp add: deliver_all_def)

lemma deliver_all_obs: "obs st = obs st' \<Longrightarrow> obs (deliver_all st ms) = obs (deliver_all st' ms)"
proof (induction ms arbitrary: st st')
  case Nil
  then show ?case by simp
next
  case (Cons m ms)
  show ?case unfolding deliver_all_simps by (rule Cons.IH [OF deliver_obs [OF Cons.prems]])
qed

lemma kept_all: "seen (obs st) m \<Longrightarrow> seen (obs (deliver_all st ms)) m"
  by (induction ms arbitrary: st) (auto simp: kept)

text \<open>Redelivering, in any order and multiplicity, messages that were accepted has no effect.\<close>

lemma redelivery_no_effect:
  "\<forall>m\<in>set ns. seen (obs st) m \<Longrightarrow> obs (deliver_all st ns) = obs st"
proof (induction ns arbitrary: st)
  case Nil
  then show ?case by simp
next
  case (Cons m ns)
  then have m: "obs (snd (deliver st m)) = obs st" by (simp add: redelivered)
  then have "obs (deliver_all (snd (deliver st m)) ns) = obs (snd (deliver st m))"
    using Cons.prems by (intro Cons.IH) simp
  with m show ?case by simp
qed

lemma redelivery_interleaved:
  assumes "\<forall>n\<in>set ns. seen (obs (deliver_all st ms)) n"
  shows "obs (deliver_all st (ms @ ns @ ks)) = obs (deliver_all st (ms @ ks))"
  using deliver_all_obs [OF redelivery_no_effect [OF assms], of ks]
  by (simp add: deliver_all_append)

lemma accepted_then_redelivered:
  assumes "is_ok (fst (deliver st m))"
  shows "obs (deliver_all st (m # ms @ [m])) = obs (deliver_all st (m # ms))"
  using kept_all [OF accepted [OF assms]] by (simp add: deliver_all_append redelivered)

end

end
