(* ===== verification/Py_Decimal.thy ===== *)
theory Py_Decimal
  imports Prelude
begin

text \<open>
  Python's \<^verbatim>\<open>decimal.Decimal\<close> under the default context (28 significant digits, ROUND_HALF_EVEN),
  which every money computation of the program uses.  A finite decimal is its signed
  coefficient and exponent; arithmetic is exact and then rounded once to the context, as the
  General Decimal Arithmetic specification prescribes.  Comparison is numeric, so two
  representations of one number compare equal (\<^verbatim>\<open>Decimal("10") == Decimal("10.0")\<close>).
  Signed zero, NaN, infinities and the exponent limits (around 10 to the 999999) are not
  represented.
\<close>

section \<open>Rounding an integer quotient half to even\<close>

definition rdiv :: "int \<Rightarrow> int \<Rightarrow> int" where
  "rdiv a b = (let q = a div b; r = a mod b in
     if 2 * r < b then q else if 2 * r > b then q + 1 else if even q then q else q + 1)"

lemma rdiv_cases:
  assumes "0 < b"
  obtains "rdiv a b = a div b" "2 * (a mod b) \<le> b" | "rdiv a b = a div b + 1" "b \<le> 2 * (a mod b)"
proof -
  have "rdiv a b = a div b \<and> 2 * (a mod b) \<le> b \<or> rdiv a b = a div b + 1 \<and> b \<le> 2 * (a mod b)"
    by (auto simp: rdiv_def Let_def)
  then show thesis using that by blast
qed

lemma rdiv_mult [simp]: "0 < b \<Longrightarrow> rdiv (k * b) b = k"
  by (simp add: rdiv_def)

lemma rdiv_0 [simp]: "0 < b \<Longrightarrow> rdiv 0 b = 0"
  using rdiv_mult [of b 0] by simp

lemma rdiv_ge: "0 < b \<Longrightarrow> k * b \<le> a \<Longrightarrow> k \<le> rdiv a b"
  by (rule rdiv_cases [of b a]) (auto simp: zdiv_mono1 dest: zdiv_mono1 [of "k * b" a b])

lemma rdiv_le: "0 < b \<Longrightarrow> a \<le> k * b \<Longrightarrow> rdiv a b \<le> k"
proof (rule rdiv_cases [of b a])
  assume b: "0 < b" and a: "a \<le> k * b" and r: "rdiv a b = a div b + 1" "b \<le> 2 * (a mod b)"
  from r b have "a mod b > 0" by linarith
  then have "a \<noteq> k * b" by auto
  with a have "a div b < k"
    by (metis b div_mult_mod_eq mult.commute mult_less_cancel_left_pos not_le_imp_less
        le_less_trans le_add_same_cancel1 less_le pos_mod_sign)
  with r show ?thesis by simp
qed (auto dest: zdiv_mono1)

lemma rdiv_error: "0 < b \<Longrightarrow> 2 * \<bar>rdiv a b * b - a\<bar> \<le> b"
proof -
  assume b: "0 < b"
  have a: "a div b * b - a = - (a mod b)"
    using minus_div_mult_eq_mod [of a b] by linarith
  from rdiv_cases [OF b, of a] show ?thesis
  proof cases
    case 1
    have "rdiv a b * b - a = - (a mod b)" unfolding 1(1) by (rule a)
    moreover have "0 \<le> a mod b" using b by simp
    ultimately show ?thesis using 1(2) by simp
  next
    case 2
    have "rdiv a b * b - a = b - a mod b" 
      unfolding 2(1) using a by (simp add: distrib_right)
    moreover have "a mod b < b" using b by simp
    ultimately show ?thesis using 2(2) by simp
  qed
qed

lemma rdiv_mono: "0 < b \<Longrightarrow> a \<le> a' \<Longrightarrow> rdiv a b \<le> rdiv a' b"
proof (cases "a div b = a' div b")
  case True
  assume b: "0 < b" and le: "a \<le> a'"
  have "a mod b \<le> a' mod b"
    using le True by (metis add_le_cancel_left mult_div_mod_eq)
  then show ?thesis using True by (auto simp: rdiv_def Let_def)
next
  case False
  assume b: "0 < b" and le: "a \<le> a'"
  with False have "a div b < a' div b" by (meson zdiv_mono1 order_le_neq_trans)
  moreover have "rdiv a b \<le> a div b + 1" "a' div b \<le> rdiv a' b"
    by (auto simp: rdiv_def Let_def)
  ultimately show ?thesis by linarith
qed

section \<open>Representation and value\<close>

datatype decimal = Dec (coeff: int) (expo: int)

definition dval :: "decimal \<Rightarrow> rat" where
  "dval d = of_int (coeff d) * 10 powi (expo d)"

abbreviation prec_limit :: int where
  "prec_limit \<equiv> 10000000000000000000000000000"

function ndigits :: "int \<Rightarrow> nat" where
  "ndigits n = (if n < 10 then 1 else Suc (ndigits (n div 10)))"
  by pat_completeness auto
termination
  by (relation "measure nat") auto

declare ndigits.simps [simp del]

text \<open>\<^verbatim>\<open>Decimal._fix\<close>: round a coefficient of more than 28 digits, half to even.\<close>

definition dfix :: "decimal \<Rightarrow> decimal" where
  "dfix d =
     (if \<bar>coeff d\<bar> < prec_limit then d
      else let k = ndigits \<bar>coeff d\<bar> - 28;
               c = rdiv (coeff d) (10 ^ k) in
           if \<bar>c\<bar> < prec_limit then Dec c (expo d + int k)
           else Dec (c div 10) (expo d + int k + 1))"

text \<open>The coefficient of \<open>d\<close> rescaled to a smaller exponent.\<close>

definition rescaled :: "decimal \<Rightarrow> int \<Rightarrow> int" where
  "rescaled d e = coeff d * 10 ^ nat (expo d - e)"

definition dadd :: "decimal \<Rightarrow> decimal \<Rightarrow> decimal" where
  "dadd x y = (let e = min (expo x) (expo y) in dfix (Dec (rescaled x e + rescaled y e) e))"

definition dneg :: "decimal \<Rightarrow> decimal" where
  "dneg x = dfix (Dec (- coeff x) (expo x))"

definition dsub :: "decimal \<Rightarrow> decimal \<Rightarrow> decimal" where
  "dsub x y = (let e = min (expo x) (expo y) in dfix (Dec (rescaled x e - rescaled y e) e))"

definition dmul :: "decimal \<Rightarrow> decimal \<Rightarrow> decimal" where
  "dmul x y = dfix (Dec (coeff x * coeff y) (expo x + expo y))"

definition dle :: "decimal \<Rightarrow> decimal \<Rightarrow> bool" where
  "dle x y = (let e = min (expo x) (expo y) in rescaled x e \<le> rescaled y e)"

text \<open>\<^verbatim>\<open>Decimal.__eq__\<close>: numeric equality.\<close>

definition deq :: "decimal \<Rightarrow> decimal \<Rightarrow> bool" where
  "deq x y \<longleftrightarrow> dle x y \<and> dle y x"

definition dabs :: "decimal \<Rightarrow> decimal" where
  "dabs x = (if coeff x < 0 then dneg x else dfix x)"

text \<open>\<^verbatim>\<open>Decimal.quantize\<close> to a power of ten, half to even; \<open>None\<close> is the InvalidOperation raised when
  the result needs more than 28 digits.\<close>

definition quantize :: "int \<Rightarrow> decimal \<Rightarrow> decimal option" where
  "quantize e d =
     (let c = (if e \<le> expo d then rescaled d e else rdiv (coeff d) (10 ^ nat (e - expo d))) in
      if \<bar>c\<bar> < prec_limit then Some (Dec c e) else None)"

text \<open>\<^verbatim>\<open>Decimal.to_integral_value\<close> and \<^verbatim>\<open>int(Decimal)\<close> (truncation).\<close>

definition to_integral :: "decimal \<Rightarrow> decimal" where
  "to_integral d = (if 0 \<le> expo d then d else Dec (rdiv (coeff d) (10 ^ nat (- expo d))) 0)"

definition dec_int :: "decimal \<Rightarrow> int" where
  "dec_int d = (if 0 \<le> expo d then coeff d * 10 ^ nat (expo d)
                else sgn (coeff d) * (\<bar>coeff d\<bar> div 10 ^ nat (- expo d)))"

definition dec_of_int :: "int \<Rightarrow> decimal" where
  "dec_of_int n = Dec n 0"

text \<open>\<^verbatim>\<open>Decimal.__truediv__\<close>: the quotient is computed to at least 29 digits, a nonzero remainder is
  made sticky in the last digit, an exact quotient loses trailing zeros towards the ideal
  exponent, and the result is rounded to the context.  \<open>None\<close> is division by zero.\<close>

function strip_zeros :: "int \<Rightarrow> int \<Rightarrow> int \<Rightarrow> decimal" where
  "strip_zeros ideal c e =
     (if e < ideal \<and> c mod 10 = 0 then strip_zeros ideal (c div 10) (e + 1) else Dec c e)"
  by pat_completeness auto
termination
  by (relation "measure (\<lambda>(ideal, c, e). nat (ideal - e))") auto

definition ddiv_core :: "int \<Rightarrow> int \<Rightarrow> int \<Rightarrow> int \<Rightarrow> decimal" where
  "ddiv_core a ea b eb =
     (let shift = int (ndigits b) - int (ndigits a) + 29;
          n = a * 10 ^ nat shift; m = b * 10 ^ nat (- shift);
          q = n div m; e = ea - eb - shift in
      if n mod m \<noteq> 0 then Dec (if q mod 5 = 0 then q + 1 else q) e
      else strip_zeros (ea - eb) q e)"

definition ddiv :: "decimal \<Rightarrow> decimal \<Rightarrow> decimal option" where
  "ddiv x y =
     (if coeff y = 0 then None
      else if coeff x = 0 then Some (Dec 0 (expo x - expo y))
      else let z = ddiv_core \<bar>coeff x\<bar> (expo x) \<bar>coeff y\<bar> (expo y) in
           Some (dfix (Dec (sgn (coeff x) * sgn (coeff y) * coeff z) (expo z))))"

instantiation decimal :: "{zero, one, plus, minus, times, uminus, preorder}"
begin

definition zero_decimal :: decimal where
  "zero_decimal = Dec 0 0"

definition one_decimal :: decimal where
  "one_decimal = Dec 1 0"

definition plus_decimal :: "decimal \<Rightarrow> decimal \<Rightarrow> decimal" where
  "plus_decimal = dadd"

definition minus_decimal :: "decimal \<Rightarrow> decimal \<Rightarrow> decimal" where
  "minus_decimal = dsub"

definition times_decimal :: "decimal \<Rightarrow> decimal \<Rightarrow> decimal" where
  "times_decimal = dmul"

definition uminus_decimal :: "decimal \<Rightarrow> decimal" where
  "uminus_decimal = dneg"

definition less_eq_decimal :: "decimal \<Rightarrow> decimal \<Rightarrow> bool" where
  "less_eq_decimal = dle"

definition less_decimal :: "decimal \<Rightarrow> decimal \<Rightarrow> bool" where
  "less_decimal x y \<longleftrightarrow> dle x y \<and> \<not> dle y x"

lemma dval_rescaled: "e \<le> expo d \<Longrightarrow> dval d = of_int (rescaled d e) * 10 powi e"
proof -
  assume e: "e \<le> expo d"
  have "(10::rat) powi (expo d) = 10 ^ nat (expo d - e) * 10 powi e"
  proof -
    have "(10::rat) powi (expo d) = 10 powi ((expo d - e) + e)" by simp
    also have "\<dots> = 10 powi (expo d - e) * 10 powi e"
      by (rule power_int_add) simp
    also have "(10::rat) powi (expo d - e) = 10 ^ nat (expo d - e)"
      using e by (simp add: power_int_def)
    finally show ?thesis .
  qed
  then show ?thesis by (simp add: dval_def rescaled_def)
qed

lemma powi_10_pos [simp]: "0 < (10::rat) powi e"
  by (simp add: zero_less_power_int)

lemma powi_10_not_neg [simp]: "\<not> (10::rat) powi e < 0"
  using powi_10_pos [of e] by (simp add: not_less less_imp_le del: powi_10_pos)

lemma dle_iff: "dle x y \<longleftrightarrow> dval x \<le> dval y"
proof -
  let ?e = "min (expo x) (expo y)"
  have "dval x = of_int (rescaled x ?e) * 10 powi ?e" "dval y = of_int (rescaled y ?e) * 10 powi ?e"
    by (simp_all add: dval_rescaled)
  then show ?thesis by (simp add: dle_def Let_def)
qed

instance
  by standard (auto simp: less_eq_decimal_def less_decimal_def dle_iff)

end

declare strip_zeros.simps [simp del]

section \<open>Value lemmas\<close>

lemma rdiv_neg: "0 < b \<Longrightarrow> rdiv (- a) b = - rdiv a b"
proof (cases "b dvd a")
  case True
  assume b: "0 < b"
  from True obtain k where "a = k * b" by (metis dvdE mult.commute)
  then show ?thesis using b rdiv_mult [of b k] rdiv_mult [of b "- k"] by simp
next
  case False
  assume b: "0 < b"
  from False have m: "a mod b \<noteq> 0" by (simp add: dvd_eq_mod_eq_0)
  have "(- a) div b = - (a div b) - 1" "(- a) mod b = b - a mod b"
    using m b by (simp_all add: zdiv_zminus1_eq_if zmod_zminus1_eq_if)
  then show ?thesis by (simp add: rdiv_def Let_def)
qed

lemma less_decimal_iff: "(x::decimal) < y \<longleftrightarrow> dval x < dval y"
  by (auto simp: less_decimal_def dle_iff)

lemma le_decimal_iff: "(x::decimal) \<le> y \<longleftrightarrow> dval x \<le> dval y"
  by (simp add: less_eq_decimal_def dle_iff)

lemma deq_iff: "deq x y \<longleftrightarrow> dval x = dval y"
  by (auto simp: deq_def dle_iff)

lemmas decimal_order = less_decimal_iff le_decimal_iff deq_iff

lemma dval_zero [simp]: "dval 0 = 0" and dval_one [simp]: "dval 1 = 1"
  by (simp_all add: dval_def zero_decimal_def one_decimal_def)

lemma dval_pos_iff: "0 < dval d \<longleftrightarrow> 0 < coeff d"
  and dval_neg_iff: "dval d < 0 \<longleftrightarrow> coeff d < 0"
  and dval_zero_iff: "dval d = 0 \<longleftrightarrow> coeff d = 0"
  by (auto simp: dval_def zero_less_mult_iff mult_less_0_iff)

lemma decimal_le_linear: "(x::decimal) \<le> y \<or> y \<le> x" and decimal_not_le: "\<not> (x::decimal) \<le> y \<longleftrightarrow> y < x"
  and decimal_not_less: "\<not> (x::decimal) < y \<longleftrightarrow> y \<le> x"
  by (auto simp: decimal_order)

lemma powi_split: "a \<le> b \<Longrightarrow> (10::rat) powi b = 10 ^ nat (b - a) * 10 powi a"
  using dval_rescaled [of a "Dec 1 b"] by (simp add: dval_def rescaled_def)

lemma ndigits_bounds: "0 < n \<Longrightarrow> 10 ^ (ndigits n - 1) \<le> n \<and> n < 10 ^ ndigits n"
proof (induction n rule: ndigits.induct)
  case (1 n)
  show ?case
  proof (cases "n < 10")
    case True
    then show ?thesis using "1.prems" by (simp add: ndigits.simps [of n])
  next
    case False
    then have IH: "10 ^ (ndigits (n div 10) - 1) \<le> n div 10" "n div 10 < 10 ^ ndigits (n div 10)"
      using "1.IH" by auto
    have pos: "0 < ndigits (n div 10)" by (simp add: ndigits.simps [of "n div 10"])
    then have "(10::int) ^ ndigits (n div 10) = 10 * 10 ^ (ndigits (n div 10) - 1)"
      by (cases "ndigits (n div 10)") simp_all
    then have lo: "10 ^ ndigits (n div 10) \<le> n" using IH(1) by linarith
    have hi: "n < 10 * 10 ^ ndigits (n div 10)" using IH(2) by linarith
    show ?thesis using False lo hi by (simp add: ndigits.simps [of n])
  qed
qed

lemma ndigits_big:
  assumes "prec_limit \<le> \<bar>c\<bar>"
  defines "k \<equiv> ndigits \<bar>c\<bar> - 28"
  shows "10 ^ 27 * 10 ^ k \<le> \<bar>c\<bar>" and "\<bar>c\<bar> < prec_limit * 10 ^ k"
proof -
  let ?n = "ndigits \<bar>c\<bar>"
  from assms have pos: "0 < \<bar>c\<bar>" by simp
  note b = ndigits_bounds [OF pos]
  have "(10::int) ^ 28 \<le> \<bar>c\<bar>" using assms(1) by simp
  also have "\<dots> < 10 ^ ?n" using b by blast
  finally have n: "28 < ?n" by (rule power_less_imp_less_exp [rotated]) simp
  then have e1: "?n - 1 = 27 + k" and e2: "?n = 28 + k" by (simp_all add: k_def)
  show "10 ^ 27 * 10 ^ k \<le> \<bar>c\<bar>" using b unfolding e1 by (simp add: power_add)
  have "\<bar>c\<bar> < 10 ^ (28 + k)" using b e2 by simp
  then show "\<bar>c\<bar> < prec_limit * 10 ^ k" by (simp add: power_add)
qed

lemma dfix_exact [simp]: "\<bar>coeff d\<bar> < prec_limit \<Longrightarrow> dfix d = d"
  by (simp add: dfix_def)

lemma dval_dfix_big:
  assumes "prec_limit \<le> \<bar>c\<bar>"
  defines "k \<equiv> ndigits \<bar>c\<bar> - 28"
  shows "dval (dfix (Dec c e)) = of_int (rdiv c (10 ^ k)) * 10 powi (e + int k)"
proof -
  let ?r = "rdiv c (10 ^ k)"
  have hi: "\<bar>c\<bar> < prec_limit * 10 ^ k" unfolding k_def by (rule ndigits_big(2) [OF assms(1)])
  have r1: "?r \<le> prec_limit" by (rule rdiv_le) (use hi in auto)
  have r2: "- prec_limit \<le> ?r" by (rule rdiv_ge) (use hi in auto)
  show ?thesis
  proof (cases "\<bar>?r\<bar> < prec_limit")
    case True
    then show ?thesis using assms by (simp add: dfix_def dval_def Let_def)
  next
    case False
    then have "?r = prec_limit \<or> ?r = - prec_limit" using r1 r2 by auto
    then have "of_int (?r div 10) * (10::rat) = of_int ?r" by auto
    moreover have "(10::rat) powi (e + int k + 1) = 10 * 10 powi (e + int k)"
      by (simp add: power_int_add)
    moreover have "dfix (Dec c e) = Dec (?r div 10) (e + int k + 1)"
      using assms False by (simp add: dfix_def Let_def)
    ultimately show ?thesis by (simp add: dval_def mult.assoc [symmetric])
  qed
qed

lemma dfix_ge:
  assumes m: "\<bar>m\<bar> < prec_limit" and le: "of_int m * 10 powi f \<le> dval d"
  shows "of_int m * 10 powi f \<le> dval (dfix d)"
proof (cases "\<bar>coeff d\<bar> < prec_limit")
  case True
  then show ?thesis using le by simp
next
  case False
  obtain c e where d: "d = Dec c e" by (cases d)
  define k where "k = ndigits \<bar>c\<bar> - 28"
  from False d have big: "prec_limit \<le> \<bar>c\<bar>" by simp
  note v = dval_dfix_big [OF big, of e, folded k_def]
  have lo: "10 ^ 27 * 10 ^ k \<le> \<bar>c\<bar>" unfolding k_def by (rule ndigits_big(1) [OF big])
  have ek: "(10::rat) powi (e + int k) = 10 ^ k * 10 powi e"
    using powi_split [of e "e + int k"] by simp
  show ?thesis
  proof (cases "e + int k \<le> f")
    case True
    define M where "M = m * 10 ^ nat (f - (e + int k))"
    have M: "of_int m * (10::rat) powi f = of_int M * 10 powi (e + int k)"
      using powi_split [OF True] by (simp add: M_def)
    from le have "of_int M * (10 ^ k * 10 powi e) \<le> (of_int c :: rat) * 10 powi e"
      unfolding M ek by (simp add: d dval_def)
    then have "(of_int M * 10 ^ k) * (10::rat) powi e \<le> of_int c * 10 powi e"
      by (simp add: mult.assoc)
    then have "(of_int (M * 10 ^ k) :: rat) \<le> of_int c" by simp
    then have "M * 10 ^ k \<le> c" by (simp only: of_int_le_iff)
    then have "M \<le> rdiv c (10 ^ k)" by (rule rdiv_ge [rotated]) simp
    then show ?thesis unfolding M d v by simp
  next
    case False
    then have f1: "f + 1 \<le> e + int k" by simp
    have fe: "(10::rat) powi (e + int k) = 10 ^ nat (e + int k - (f + 1)) * (10 * 10 powi f)"
      using powi_split [OF f1] by (simp add: power_int_add)
    have "(1::rat) \<le> 10 ^ nat (e + int k - (f + 1))" by simp
    then have f2: "10 * (10::rat) powi f \<le> 10 powi (e + int k)"
      unfolding fe using mult_right_mono [of 1 _ "10 * (10::rat) powi f"] by simp
    have m1: "(of_int m :: rat) < 10 ^ 28" "- (10 ^ 28) < (of_int m :: rat)"
      using m of_int_less_iff [of m prec_limit, where 'a = rat] of_int_less_iff [of "- prec_limit" m, where 'a = rat]
      by simp_all
    show ?thesis
    proof (cases "0 < c")
      case True
      then have "10 ^ 27 \<le> rdiv c (10 ^ k)" using lo by (intro rdiv_ge) auto
      then have "(10 ^ 27 :: rat) \<le> of_int (rdiv c (10 ^ k))"
        using of_int_le_iff [of "10 ^ 27" "rdiv c (10 ^ k)", where 'a = rat] by simp
      then have r: "(10 ^ 27 :: rat) * (10 * 10 powi f) \<le> of_int (rdiv c (10 ^ k)) * 10 powi (e + int k)"
        using f2 by (intro mult_mono) auto
      have "(of_int m :: rat) * 10 powi f \<le> 10 ^ 28 * 10 powi f"
        using m1 by (intro mult_right_mono) auto
      also have "\<dots> = 10 ^ 27 * (10 * 10 powi f)" by simp
      also note r
      finally show ?thesis unfolding d v .
    next
      case False
      then have "c \<le> - (10 ^ 27 * 10 ^ k)" using lo by simp
      then have "(of_int c :: rat) \<le> - (10 ^ 27 * 10 ^ k)"
        using of_int_le_iff [of c "- (10 ^ 27 * 10 ^ k)", where 'a = rat] by simp
      then have "(of_int c :: rat) * 10 powi e \<le> - (10 ^ 27 * 10 ^ k) * 10 powi e"
        by (intro mult_right_mono) auto
      also have "\<dots> = - (10 ^ 27) * 10 powi (e + int k)" by (simp add: ek)
      also have "\<dots> \<le> - (10 ^ 27) * (10 * 10 powi f)" using f2 by simp
      also have "\<dots> = - (10 ^ 28) * 10 powi f" by simp
      also have "\<dots> < of_int m * 10 powi f"
        using m1 by (intro mult_strict_right_mono) auto
      finally show ?thesis using le by (simp add: d dval_def)
    qed
  qed
qed

lemma dfix_neg: "dval (dfix (Dec (- c) e)) = - dval (dfix (Dec c e))"
proof (cases "\<bar>c\<bar> < prec_limit")
  case True
  then show ?thesis by (simp add: dval_def)
next
  case False
  then have big: "prec_limit \<le> \<bar>c\<bar>" "prec_limit \<le> \<bar>- c\<bar>" by simp_all
  show ?thesis
    using dval_dfix_big [OF big(1), of e] dval_dfix_big [OF big(2), of e] by (simp add: rdiv_neg)
qed

lemma dfix_le:
  assumes m: "\<bar>m\<bar> < prec_limit" and le: "dval d \<le> of_int m * 10 powi f"
  shows "dval (dfix d) \<le> of_int m * 10 powi f"
proof -
  obtain c e where d: "d = Dec c e" by (cases d)
  have "of_int (- m) * 10 powi f \<le> dval (Dec (- c) e)" using le by (simp add: d dval_def)
  then have "of_int (- m) * 10 powi f \<le> dval (dfix (Dec (- c) e))" by (intro dfix_ge) (use m in auto)
  then show ?thesis by (simp add: dfix_neg d)
qed

text \<open>Rounding keeps the sign.\<close>

lemma dfix_pos: "0 < dval d \<Longrightarrow> 0 < dval (dfix d)"
  and dfix_nonneg: "0 \<le> dval d \<Longrightarrow> 0 \<le> dval (dfix d)"
  and dfix_nonpos: "dval d \<le> 0 \<Longrightarrow> dval (dfix d) \<le> 0"
proof -
  show "0 \<le> dval d \<Longrightarrow> 0 \<le> dval (dfix d)" using dfix_ge [of 0 0 d] by simp
  show "dval d \<le> 0 \<Longrightarrow> dval (dfix d) \<le> 0" using dfix_le [of 0 d 0] by simp
  assume "0 < dval d"
  then have "1 \<le> coeff d" by (simp add: dval_pos_iff)
  then have "(1::rat) * 10 powi (expo d) \<le> of_int (coeff d) * 10 powi (expo d)"
    by (intro mult_right_mono) auto
  then have "of_int 1 * 10 powi (expo d) \<le> dval (dfix d)" by (intro dfix_ge) (simp_all add: dval_def)
  then have "10 powi (expo d) \<le> dval (dfix d)" by simp
  with powi_10_pos show "0 < dval (dfix d)" by (rule less_le_trans)
qed

text \<open>The numbers the context can represent, on which every operation is exact.\<close>

definition rep28 :: "rat \<Rightarrow> bool" where
  "rep28 v \<longleftrightarrow> (\<exists>m f. \<bar>m\<bar> < prec_limit \<and> v = of_int m * 10 powi f)"

lemma dval_dfix_rep: "rep28 (dval d) \<Longrightarrow> dval (dfix d) = dval d"
  unfolding rep28_def by (metis dfix_ge dfix_le order_antisym order_refl)

lemma dfix_ge_rep: "rep28 v \<Longrightarrow> v \<le> dval d \<Longrightarrow> v \<le> dval (dfix d)"
  and dfix_le_rep: "rep28 v \<Longrightarrow> dval d \<le> v \<Longrightarrow> dval (dfix d) \<le> v"
  unfolding rep28_def using dfix_ge dfix_le by auto

lemma coeff_dfix: "\<bar>coeff (dfix d)\<bar> < prec_limit"
proof (cases "\<bar>coeff d\<bar> < prec_limit")
  case False
  define k where "k = ndigits \<bar>coeff d\<bar> - 28"
  have hi: "\<bar>coeff d\<bar> < prec_limit * 10 ^ k"
    unfolding k_def by (rule ndigits_big(2)) (use False in simp)
  have b: "rdiv (coeff d) (10 ^ k) \<le> prec_limit" "- prec_limit \<le> rdiv (coeff d) (10 ^ k)"
    by (rule rdiv_le rdiv_ge; use hi in auto)+
  then show ?thesis using False by (auto simp: dfix_def Let_def k_def [symmetric])
qed simp

lemma rep28_dfix: "rep28 (dval (dfix d))"
  unfolding rep28_def using coeff_dfix [of d] by (auto simp: dval_def)

lemma coeff_plus: "\<bar>coeff (x + y)\<bar> < prec_limit"
  unfolding plus_decimal_def dadd_def Let_def by (rule coeff_dfix)

lemma minus_is_plus_uminus: "\<bar>coeff y\<bar> < prec_limit \<Longrightarrow> x - y = x + (- y :: decimal)"
  by (simp add: minus_decimal_def dsub_def plus_decimal_def dadd_def uminus_decimal_def dneg_def rescaled_def Let_def)

lemma rep28_int: "\<bar>n\<bar> < prec_limit \<Longrightarrow> rep28 (of_int n)"
  unfolding rep28_def by (rule exI [of _ n], rule exI [of _ 0]) simp

lemma rep28_grid: "\<bar>n\<bar> < prec_limit \<Longrightarrow> rep28 (of_int n * 10 powi e)"
  unfolding rep28_def by blast

lemma rep28_0 [simp]: "rep28 0"
  using rep28_int [of 0] by simp

lemma rdiv_cancel: "0 < m \<Longrightarrow> 0 < b \<Longrightarrow> rdiv (a * m) (b * m) = rdiv a b"
proof -
  assume m: "0 < m" "0 < b"
  have "2 * (a * m mod (b * m)) = (2 * (a mod b)) * m" by (simp add: mod_mult_mult2)
  moreover have "b * m < (2 * (a mod b)) * m \<longleftrightarrow> b < 2 * (a mod b)" "(2 * (a mod b)) * m < b * m \<longleftrightarrow> 2 * (a mod b) < b"
    using m by simp_all
  ultimately show ?thesis using m unfolding rdiv_def Let_def by simp
qed

lemma ndigits_shift: "0 < c \<Longrightarrow> ndigits (c * 10 ^ n) = ndigits c + n"
proof (induction n)
  case (Suc n)
  have "1 \<le> c * 10 ^ n" using Suc.prems by (simp add: int_one_le_iff_zero_less)
  then have "10 \<le> c * 10 ^ Suc n" by simp
  then have "ndigits (c * 10 ^ Suc n) = Suc (ndigits (c * 10 ^ Suc n div 10))" by (subst ndigits.simps) simp
  also have "c * 10 ^ Suc n div 10 = c * 10 ^ n" by simp
  finally show ?case using Suc by simp
qed simp

lemma dval_dfix_shift: "dval (dfix (Dec (c * 10 ^ n) (e - int n))) = dval (dfix (Dec c e))"
proof (cases "\<bar>c\<bar> < prec_limit")
  case True
  have "dval (Dec (c * 10 ^ n) (e - int n)) = dval (Dec c e)" by (simp add: dval_def power_int_diff)
  moreover have "rep28 (dval (Dec c e))" using True rep28_grid [of c e] by (simp add: dval_def)
  ultimately show ?thesis using True by (metis dval_dfix_rep dfix_exact decimal.sel(1))
next
  case False
  have c: "0 < \<bar>c\<bar>" using False by auto
  have nd: "ndigits \<bar>c * 10 ^ n\<bar> = ndigits \<bar>c\<bar> + n" using ndigits_shift [OF c] by (simp add: abs_mult)
  have "\<bar>c\<bar> \<le> \<bar>c * 10 ^ n\<bar>" by (simp add: abs_mult mult_le_cancel_left1)
  then have big: "prec_limit \<le> \<bar>c * 10 ^ n\<bar>" "prec_limit \<le> \<bar>c\<bar>" using False by linarith+
  have dg: "28 \<le> ndigits \<bar>c\<bar>"
  proof (rule ccontr)
    assume "\<not> 28 \<le> ndigits \<bar>c\<bar>"
    then have "(10::int) ^ ndigits \<bar>c\<bar> \<le> 10 ^ 28" by (intro power_increasing) simp_all
    then show False using ndigits_bounds [OF c] big(2) by simp
  qed
  define k where "k = ndigits \<bar>c\<bar> - 28"
  have k: "ndigits \<bar>c * 10 ^ n\<bar> - 28 = k + n" using dg by (simp add: nd k_def)
  have "rdiv (c * 10 ^ n) (10 ^ (k + n)) = rdiv c (10 ^ k)" by (simp add: power_add rdiv_cancel)
  then show ?thesis
    unfolding dval_dfix_big [OF big(1)] dval_dfix_big [OF big(2)] k k_def [symmetric] by simp
qed

text \<open>Rounding depends on the value only, not on the representation.\<close>

lemma dval_dfix_cong: "dval x = dval y \<Longrightarrow> dval (dfix x) = dval (dfix y)"
proof -
  have le: "dval (dfix x) = dval (dfix y)" if v: "dval x = dval y" and e: "expo x \<le> expo y" for x y
  proof -
    define n where "n = nat (expo y - expo x)"
    have "dval y = of_int (coeff y * 10 ^ n) * 10 powi expo x"
      using e by (simp add: n_def dval_rescaled [of "expo x" y] rescaled_def)
    then have "of_int (coeff x) * (10::rat) powi expo x = of_int (coeff y * 10 ^ n) * 10 powi expo x" using v by (simp only: dval_def)
    then have "(of_int (coeff x) :: rat) = of_int (coeff y * 10 ^ n)" using powi_10_pos [of "expo x"] by (simp only: mult_cancel_right) auto
    then have "coeff x = coeff y * 10 ^ n" by (simp only: of_int_eq_iff)
    then have "x = Dec (coeff y * 10 ^ n) (expo y - int n)" using e by (cases x) (simp add: n_def)
    then show ?thesis using dval_dfix_shift [of "coeff y" n "expo y"] by simp
  qed
  assume "dval x = dval y"
  then show ?thesis using le [of x y] le [of y x] by (cases "expo x \<le> expo y") simp_all
qed

lemma plus_decimal_fix: "\<exists>z. x + y = dfix z \<and> dval z = dval x + dval y"
  unfolding plus_decimal_def dadd_def Let_def
  by (intro exI conjI, rule refl)
     (simp add: dval_rescaled [of "min (expo x) (expo y)" x] dval_rescaled [of "min (expo x) (expo y)" y]
        dval_def [of "Dec _ _"] distrib_right)

lemma minus_decimal_fix: "\<exists>z. x - y = dfix z \<and> dval z = dval x - dval y"
  unfolding minus_decimal_def dsub_def Let_def
  by (intro exI conjI, rule refl)
     (simp add: dval_rescaled [of "min (expo x) (expo y)" x] dval_rescaled [of "min (expo x) (expo y)" y]
        dval_def [of "Dec _ _"] left_diff_distrib)

lemma times_decimal_fix: "\<exists>z. x * y = dfix z \<and> dval z = dval x * dval y"
  unfolding times_decimal_def dmul_def
  by (intro exI conjI, rule refl) (simp add: dval_def power_int_add algebra_simps)

lemma dval_plus: "rep28 (dval x + dval y) \<Longrightarrow> dval (x + y) = dval x + dval y"
  using plus_decimal_fix [of x y] dval_dfix_rep by metis

lemma dval_minus: "rep28 (dval x - dval y) \<Longrightarrow> dval (x - y) = dval x - dval y"
  using minus_decimal_fix [of x y] dval_dfix_rep by metis

lemma dval_times: "rep28 (dval x * dval y) \<Longrightarrow> dval (x * y) = dval x * dval y"
  using times_decimal_fix [of x y] dval_dfix_rep by metis

lemma decimal_plus_nonneg: "0 \<le> dval x \<Longrightarrow> 0 \<le> dval y \<Longrightarrow> 0 \<le> dval (x + y)"
  using plus_decimal_fix [of x y] dfix_nonneg by (metis add_nonneg_nonneg)

lemma decimal_plus_pos: "0 < dval x \<Longrightarrow> 0 \<le> dval y \<Longrightarrow> 0 < dval (x + y)"
  using plus_decimal_fix [of x y] dfix_pos by (metis add_pos_nonneg)

lemma decimal_times_nonneg: "0 \<le> dval x \<Longrightarrow> 0 \<le> dval y \<Longrightarrow> 0 \<le> dval (x * y)"
  using times_decimal_fix [of x y] dfix_nonneg by (metis mult_nonneg_nonneg)

lemma decimal_times_pos: "0 < dval x \<Longrightarrow> 0 < dval y \<Longrightarrow> 0 < dval (x * y)"
  using times_decimal_fix [of x y] dfix_pos by (metis mult_pos_pos)

lemma decimal_minus_nonneg: "dval y \<le> dval x \<Longrightarrow> 0 \<le> dval (x - y)"
  using minus_decimal_fix [of x y] dfix_nonneg by (metis diff_ge_0_iff_ge)

lemma decimal_minus_nonpos: "dval x \<le> dval y \<Longrightarrow> dval (x - y) \<le> 0"
  using minus_decimal_fix [of x y] dfix_nonpos by (metis diff_le_0_iff_le)

lemma dval_dec_of_int [simp]: "dval (dec_of_int n) = of_int n"
  by (simp add: dval_def dec_of_int_def)

section \<open>Quantisation\<close>

lemma quantize_Some:
  assumes "quantize e d = Some q"
  shows "expo q = e" and "\<bar>coeff q\<bar> < prec_limit"
  using assms by (auto simp: quantize_def Let_def split: if_splits)

lemma rescaled_dval: "e \<le> expo d \<Longrightarrow> dval (Dec (rescaled d e) e) = dval d"
  by (simp add: dval_rescaled dval_def [of "Dec _ _"])

text \<open>Scaling down to a larger exponent: the coefficient in units of \<open>10 powi e\<close>.\<close>

lemma dval_scale_up:
  assumes "expo d < e"
  shows "of_int k * 10 powi e \<le> dval d \<longleftrightarrow> k * 10 ^ nat (e - expo d) \<le> coeff d"
    and "dval d \<le> of_int k * 10 powi e \<longleftrightarrow> coeff d \<le> k * 10 ^ nat (e - expo d)"
proof -
  have p: "(10::rat) powi e = 10 ^ nat (e - expo d) * 10 powi (expo d)"
    using assms by (intro powi_split) simp
  have "(of_int k * 10 powi e \<le> dval d) \<longleftrightarrow>
      (of_int (k * 10 ^ nat (e - expo d)) :: rat) * 10 powi (expo d) \<le> of_int (coeff d) * 10 powi (expo d)"
    unfolding p dval_def by (simp add: mult.assoc)
  also have "\<dots> \<longleftrightarrow> k * 10 ^ nat (e - expo d) \<le> coeff d"
    unfolding mult_le_cancel_right_pos [OF powi_10_pos] of_int_le_iff ..
  finally show "of_int k * 10 powi e \<le> dval d \<longleftrightarrow> k * 10 ^ nat (e - expo d) \<le> coeff d" .
  have "(dval d \<le> of_int k * 10 powi e) \<longleftrightarrow>
      of_int (coeff d) * 10 powi (expo d) \<le> (of_int (k * 10 ^ nat (e - expo d)) :: rat) * 10 powi (expo d)"
    unfolding p dval_def by (simp add: mult.assoc)
  also have "\<dots> \<longleftrightarrow> coeff d \<le> k * 10 ^ nat (e - expo d)"
    unfolding mult_le_cancel_right_pos [OF powi_10_pos] of_int_le_iff ..
  finally show "dval d \<le> of_int k * 10 powi e \<longleftrightarrow> coeff d \<le> k * 10 ^ nat (e - expo d)" .
qed

lemma grid_le_iff: "(of_int k :: rat) * 10 powi e \<le> of_int c * 10 powi e \<longleftrightarrow> k \<le> c"
  unfolding mult_le_cancel_right_pos [OF powi_10_pos] of_int_le_iff ..

definition qcoeff :: "int \<Rightarrow> decimal \<Rightarrow> int" where
  "qcoeff e d = (if e \<le> expo d then rescaled d e else rdiv (coeff d) (10 ^ nat (e - expo d)))"

lemma quantize_qcoeff: "quantize e d = (if \<bar>qcoeff e d\<bar> < prec_limit then Some (Dec (qcoeff e d) e) else None)"
  by (simp add: quantize_def qcoeff_def Let_def)

lemma qcoeff_ge: "of_int k * 10 powi e \<le> dval d \<Longrightarrow> k \<le> qcoeff e d"
proof (cases "e \<le> expo d")
  case True
  assume "of_int k * 10 powi e \<le> dval d"
  then show ?thesis using True by (simp add: qcoeff_def dval_rescaled grid_le_iff)
next
  case False
  assume "of_int k * 10 powi e \<le> dval d"
  then have "k * 10 ^ nat (e - expo d) \<le> coeff d" using False by (simp add: dval_scale_up(1))
  then show ?thesis using False by (simp add: qcoeff_def rdiv_ge)
qed

lemma qcoeff_le: "dval d \<le> of_int k * 10 powi e \<Longrightarrow> qcoeff e d \<le> k"
proof (cases "e \<le> expo d")
  case True
  assume "dval d \<le> of_int k * 10 powi e"
  then show ?thesis using True by (simp add: qcoeff_def dval_rescaled grid_le_iff)
next
  case False
  assume "dval d \<le> of_int k * 10 powi e"
  then have "coeff d \<le> k * 10 ^ nat (e - expo d)" using False by (simp add: dval_scale_up(2))
  then show ?thesis using False by (simp add: qcoeff_def rdiv_le)
qed

lemma qcoeff_grid: "dval d = of_int k * 10 powi e \<Longrightarrow> qcoeff e d = k"
  by (rule order_antisym) (simp_all add: qcoeff_le qcoeff_ge)

lemma quantize_grid: "dval d = of_int k * 10 powi e \<Longrightarrow> \<bar>k\<bar> < prec_limit \<Longrightarrow> quantize e d = Some (Dec k e)"
  by (simp add: quantize_qcoeff qcoeff_grid)

lemma quantize_idem:
  assumes "quantize e d = Some q"
  shows "quantize e q = Some q"
proof -
  have q: "q = Dec (coeff q) e" "\<bar>coeff q\<bar> < prec_limit"
    using quantize_Some [OF assms] by (cases q, simp_all)
  have "dval q = of_int (coeff q) * 10 powi e" using quantize_Some(1) [OF assms] by (simp add: dval_def)
  then have "quantize e q = Some (Dec (coeff q) e)" using q(2) by (rule quantize_grid)
  with q(1) show ?thesis by simp
qed

lemma quantize_defined:
  assumes "\<bar>dval d\<bar> \<le> of_int k * 10 powi e" and "k < prec_limit"
  shows "\<exists>q. quantize e d = Some q"
proof -
  have "dval d \<le> of_int k * 10 powi e" "of_int (- k) * 10 powi e \<le> dval d"
    using assms(1) by auto
  then have "qcoeff e d \<le> k" "- k \<le> qcoeff e d" by (auto intro: qcoeff_le qcoeff_ge simp del: of_int_minus)
  then show ?thesis using assms(2) by (simp add: quantize_qcoeff)
qed

lemma quantize_ge:
  assumes "quantize e d = Some q" and "of_int k * 10 powi e \<le> dval d"
  shows "of_int k * 10 powi e \<le> dval q"
  using assms qcoeff_ge [OF assms(2)] by (auto simp: quantize_qcoeff dval_def grid_le_iff split: if_splits)

lemma quantize_le:
  assumes "quantize e d = Some q" and "dval d \<le> of_int k * 10 powi e"
  shows "dval q \<le> of_int k * 10 powi e"
  using assms qcoeff_le [OF assms(2)] by (auto simp: quantize_qcoeff dval_def grid_le_iff split: if_splits)

lemma quantize_nonneg: "quantize e d = Some q \<Longrightarrow> 0 \<le> dval d \<Longrightarrow> 0 \<le> dval q"
  using quantize_ge [of e d q 0] by simp

lemma quantize_nonpos: "quantize e d = Some q \<Longrightarrow> dval d \<le> 0 \<Longrightarrow> dval q \<le> 0"
  using quantize_le [of e d q 0] by simp

lemma qcoeff_error: "2 * \<bar>of_int (qcoeff e d) * 10 powi e - dval d\<bar> \<le> 10 powi e"
proof (cases "e \<le> expo d")
  case True
  then show ?thesis by (simp add: qcoeff_def dval_rescaled less_imp_le)
next
  case False
  define B :: int where "B = 10 ^ nat (e - expo d)"
  have p: "(10::rat) powi e = of_int B * 10 powi (expo d)"
    using False powi_split [of "expo d" e] by (simp add: B_def)
  have r: "2 * \<bar>rdiv (coeff d) B * B - coeff d\<bar> \<le> B" by (rule rdiv_error) (simp add: B_def)
  have "2 * \<bar>of_int (qcoeff e d) * 10 powi e - dval d\<bar> =
      of_int (2 * \<bar>rdiv (coeff d) B * B - coeff d\<bar>) * (10 powi (expo d) :: rat)"
    using False
    by (simp add: qcoeff_def B_def [symmetric] p dval_def abs_mult mult.assoc [symmetric]
        left_diff_distrib [symmetric])
  also have "\<dots> \<le> of_int B * 10 powi (expo d)"
    using r by (intro mult_right_mono) (simp_all only: of_int_le_iff less_imp_le [OF powi_10_pos])
  finally show ?thesis by (simp add: p)
qed

lemma quantize_error: "quantize e d = Some q \<Longrightarrow> 2 * \<bar>dval q - dval d\<bar> \<le> 10 powi e"
  using qcoeff_error [of e d] by (auto simp: quantize_qcoeff dval_def split: if_splits)

section \<open>Integers\<close>

lemma to_integral_dval: "\<exists>n. dval (to_integral d) = of_int n"
  by (cases "0 \<le> expo d") (auto simp: to_integral_def dval_def power_int_def intro: exI [of _ "coeff d * 10 ^ nat (expo d)"])

lemma dec_int_whole: "dval d = of_int n \<Longrightarrow> dec_int d = n"
proof (cases "0 \<le> expo d")
  case True
  assume v: "dval d = of_int n"
  have "dval d = of_int (coeff d * 10 ^ nat (expo d))" using True by (simp add: dval_def power_int_def)
  with v have "coeff d * 10 ^ nat (expo d) = n" by (simp only: of_int_eq_iff)
  with True show ?thesis by (simp add: dec_int_def)
next
  case False
  assume v: "dval d = of_int n"
  then have "dval d = of_int n * 10 powi 0" by simp
  then have c: "coeff d = n * 10 ^ nat (- expo d)"
    using dval_scale_up [of d 0 n] False by simp
  then have "\<bar>coeff d\<bar> = \<bar>n\<bar> * 10 ^ nat (- expo d)" by (simp add: abs_mult)
  then show ?thesis using False c by (auto simp: dec_int_def sgn_mult) (simp add: sgn_if)
qed

lemma whole_iff: "deq d (to_integral d) \<longleftrightarrow> dval d = of_int (dec_int d)"
proof
  assume "deq d (to_integral d)"
  then obtain n where "dval d = of_int n" using to_integral_dval [of d] by (auto simp: deq_iff)
  then show "dval d = of_int (dec_int d)" using dec_int_whole by simp
next
  assume v: "dval d = of_int (dec_int d)"
  show "deq d (to_integral d)"
  proof (cases "0 \<le> expo d")
    case False
    have "qcoeff 0 d = dec_int d" by (rule qcoeff_grid) (use v in simp)
    then show ?thesis using False v by (simp add: deq_iff to_integral_def qcoeff_def dval_def [of "Dec _ 0"])
  qed (simp add: deq_iff to_integral_def)
qed

lemma dec_int_bounds:
  assumes "0 \<le> dval d"
  shows "0 \<le> dec_int d" and "of_int (dec_int d) \<le> dval d"
proof -
  have c: "0 \<le> coeff d" using assms dval_neg_iff [of d] by simp
  then show "0 \<le> dec_int d" by (simp add: dec_int_def pos_imp_zdiv_nonneg_iff sgn_if)
  show "of_int (dec_int d) \<le> dval d"
  proof (cases "0 \<le> expo d")
    case True
    then show ?thesis by (simp add: dec_int_def dval_def power_int_def)
  next
    case False
    have "dec_int d = coeff d div 10 ^ nat (- expo d)" using False c by (auto simp: dec_int_def sgn_if)
    then have "dec_int d * 10 ^ nat (0 - expo d) \<le> coeff d"
      by (simp add: div_mult_mod_eq [symmetric] minus_mod_eq_div_mult [symmetric])
    then show ?thesis using dval_scale_up(1) [of d 0 "dec_int d"] False by simp
  qed
qed

section \<open>Division\<close>

lemma dval_strip_zeros: "dval (strip_zeros ideal c e) = of_int c * 10 powi e"
proof (induction ideal c e rule: strip_zeros.induct)
  case (1 ideal c e)
  show ?case
  proof (cases "e < ideal \<and> c mod 10 = 0")
    case True
    then have "dval (strip_zeros ideal c e) = of_int (c div 10) * 10 powi (e + 1)"
      using "1.IH" by (simp add: strip_zeros.simps [of ideal c e])
    also have "\<dots> = (of_int (c div 10 * 10) :: rat) * 10 powi e"
      by (simp add: power_int_add)
    also have "c div 10 * 10 = c" using True by presburger
    finally show ?thesis .
  next
    case False
    then show ?thesis by (simp only: strip_zeros.simps [of ideal c e] if_False) (simp add: dval_def)
  qed
qed

text \<open>The quotient before rounding: exact, or within one unit of a grid on which it has at
  least 29 digits.\<close>

lemma ddiv_core_bounds:
  fixes a b ea eb :: int
  assumes a: "0 < a" and b: "0 < b"
    and v_def: "v = (of_int a * 10 powi ea) / (of_int b * 10 powi eb)"
    and z_def: "z = ddiv_core a ea b eb"
  obtains (exact) "dval z = v"
    | (sticky) q where "10 ^ 28 \<le> q" "of_int q * 10 powi (expo z) < v"
      "v < of_int (q + 1) * 10 powi (expo z)" "q \<le> coeff z" "coeff z \<le> q + 1"
proof -
  define sh where "sh = int (ndigits b) - int (ndigits a) + 29"
  define n m where "n = a * 10 ^ nat sh" and "m = b * 10 ^ nat (- sh)"
  define q e where "q = n div m" and "e = ea - eb - sh"
  have m: "0 < m" using b by (simp add: m_def)
  have zdef: "z = (if n mod m \<noteq> 0 then Dec (if q mod 5 = 0 then q + 1 else q) e
      else strip_zeros (ea - eb) q e)"
    unfolding z_def ddiv_core_def Let_def sh_def [symmetric] n_def [symmetric] m_def [symmetric]
      q_def [symmetric] e_def [symmetric] ..
  have pw: "(10::rat) ^ nat sh = 10 powi sh * 10 ^ nat (- sh)"
    by (cases "0 \<le> sh") (simp_all add: power_int_def field_simps power_inverse)
  have v: "v = (of_int n / of_int m) * 10 powi e"
    using b by (simp add: v_def n_def m_def e_def power_int_diff power_int_add pw field_simps)
  have nq: "n = q * m + n mod m" by (simp add: q_def)
  show thesis
  proof (cases "n mod m = 0")
    case True
    then have "n = q * m" using nq by simp
    then have "(of_int n :: rat) / of_int m = of_int q" using m by simp
    then show thesis using True by (intro exact) (simp add: zdef v dval_strip_zeros)
  next
    case False
    have ez: "expo z = e" and cz: "q \<le> coeff z" "coeff z \<le> q + 1" using False by (simp_all add: zdef)
    have "0 \<le> n mod m" "n mod m < m" using m by simp_all
    with False have "0 < n mod m" "n mod m < m" by linarith+
    then have "q * m < n" "n < (q + 1) * m" using nq by (simp_all add: distrib_right)
    then have "of_int q * of_int m < (of_int n :: rat)" "(of_int n :: rat) < of_int (q + 1) * of_int m"
      unfolding of_int_mult [symmetric] of_int_less_iff .
    then have "of_int q < (of_int n :: rat) / of_int m" "(of_int n :: rat) / of_int m < of_int (q + 1)"
      using m by (simp_all add: field_simps)
    then have v1: "of_int q * 10 powi e < v" "v < of_int (q + 1) * 10 powi e"
      unfolding v by (simp_all only: mult_less_cancel_right_pos [OF powi_10_pos])
    have "10 ^ 28 * m \<le> n"
    proof -
      let ?na = "ndigits a" and ?nb = "ndigits b"
      have pos: "0 < ?na" by (simp add: ndigits.simps [of a])
      have la: "10 ^ (?na - 1) \<le> a" and lb: "b \<le> 10 ^ ?nb"
        using ndigits_bounds [OF a] ndigits_bounds [OF b] by simp_all
      have "28 + (?nb + nat (- sh)) = (?na - 1) + nat sh"
        using pos by (cases "0 \<le> sh") (auto simp: sh_def)
      then have "(10::int) ^ 28 * (10 ^ ?nb * 10 ^ nat (- sh)) = 10 ^ (?na - 1) * 10 ^ nat sh"
        unfolding power_add [symmetric] by simp
      moreover have "10 ^ 28 * m \<le> 10 ^ 28 * (10 ^ ?nb * 10 ^ nat (- sh))"
        using lb by (simp add: m_def)
      moreover have "10 ^ (?na - 1) * 10 ^ nat sh \<le> n" using la by (simp add: n_def)
      ultimately show ?thesis by (metis order_trans)
    qed
    then have "10 ^ 28 \<le> q" unfolding q_def using m zdiv_mono1 [of "10 ^ 28 * m" n m] by simp
    then show thesis using sticky [of q] v1 cz ez by simp
  qed
qed

lemma dfix_ddiv_core_ge:
  assumes "0 < a" "0 < b" and v: "v = (of_int a * 10 powi ea) / (of_int b * 10 powi eb)"
    and r: "rep28 w" "w \<le> v"
  shows "w \<le> dval (dfix (ddiv_core a ea b eb))"
proof -
  let ?z = "ddiv_core a ea b eb"
  obtain k f where w: "w = of_int k * 10 powi f" "\<bar>k\<bar> < prec_limit" using r(1) by (auto simp: rep28_def)
  from assms(1,2) v refl have "w \<le> dval ?z"
  proof (cases rule: ddiv_core_bounds)
    case exact
    then show ?thesis using r by simp
  next
    case (sticky q)
    note q = sticky(1) sticky(3) sticky(4)
    show ?thesis
    proof (cases "expo ?z \<le> f")
      case True
      define K where "K = k * 10 ^ nat (f - expo ?z)"
      have K: "w = of_int K * 10 powi (expo ?z)" using powi_split [OF True] by (simp add: w K_def)
      with r(2) have "of_int K * 10 powi (expo ?z) \<le> v" by simp
      then have "of_int K * (10::rat) powi (expo ?z) < of_int (q + 1) * 10 powi (expo ?z)"
        using q(2) by (rule le_less_trans)
      then have "K < q + 1" by (simp only: mult_less_cancel_right_pos [OF powi_10_pos] of_int_less_iff)
      then have "K \<le> coeff ?z" using q(3) by simp
      then show ?thesis by (simp add: K dval_def)
    next
      case False
      have "(10::rat) powi (expo ?z) = 10 ^ nat (expo ?z - f) * 10 powi f"
        using False by (intro powi_split) simp
      then have p: "(10::rat) powi f \<le> 10 powi (expo ?z)" by simp
      have "k \<le> coeff ?z" "0 \<le> coeff ?z" using w(2) q by simp_all
      then have "(of_int k :: rat) * 10 powi f \<le> of_int (coeff ?z) * 10 powi f"
        by (intro mult_right_mono) (simp_all add: less_imp_le)
      also have "\<dots> \<le> of_int (coeff ?z) * 10 powi (expo ?z)"
        using p \<open>0 \<le> coeff ?z\<close> by (intro mult_left_mono) simp_all
      finally show ?thesis by (simp add: w dval_def)
    qed
  qed
  then show ?thesis using r(1) by (rule dfix_ge_rep [rotated])
qed

lemma dfix_ddiv_core_le:
  assumes "0 < a" "0 < b" and v: "v = (of_int a * 10 powi ea) / (of_int b * 10 powi eb)"
    and r: "rep28 w" "v \<le> w"
  shows "dval (dfix (ddiv_core a ea b eb)) \<le> w"
proof -
  let ?z = "ddiv_core a ea b eb"
  obtain k f where w: "w = of_int k * 10 powi f" "\<bar>k\<bar> < prec_limit" using r(1) by (auto simp: rep28_def)
  from assms(1,2) v refl have "dval ?z \<le> w"
  proof (cases rule: ddiv_core_bounds)
    case exact
    then show ?thesis using r by simp
  next
    case (sticky q)
    note q = sticky(1) sticky(2) sticky(5)
    show ?thesis
    proof (cases "expo ?z \<le> f")
      case True
      define K where "K = k * 10 ^ nat (f - expo ?z)"
      have K: "w = of_int K * 10 powi (expo ?z)" using powi_split [OF True] by (simp add: w K_def)
      with r(2) have "v \<le> of_int K * 10 powi (expo ?z)" by simp
      with q(2) have "of_int q * (10::rat) powi (expo ?z) < of_int K * 10 powi (expo ?z)"
        by (rule less_le_trans)
      then have "q < K" by (simp only: mult_less_cancel_right_pos [OF powi_10_pos] of_int_less_iff)
      then have "coeff ?z \<le> K" using q(3) by simp
      then show ?thesis by (simp add: K dval_def)
    next
      case False
      have "(10::rat) powi (expo ?z) = 10 ^ nat (expo ?z - f) * 10 powi f"
        using False by (intro powi_split) simp
      then have p: "(10::rat) powi f \<le> 10 powi (expo ?z)" by simp
      have "(of_int k :: rat) * 10 powi f \<le> of_int q * 10 powi f"
        using w(2) q(1) by (intro mult_right_mono) (simp_all add: less_imp_le)
      also have "\<dots> \<le> of_int q * 10 powi (expo ?z)"
        using p q(1) by (intro mult_left_mono) simp_all
      finally have "w \<le> of_int q * 10 powi (expo ?z)" by (simp only: w(1))
      with q(2) r(2) show ?thesis by (meson not_less order_trans)
    qed
  qed
  then show ?thesis using r(1) by (rule dfix_le_rep [rotated])
qed

lemma ddiv_None_iff: "ddiv x y = None \<longleftrightarrow> dval y = 0"
  by (simp add: ddiv_def Let_def dval_zero_iff)

lemma ddiv_pos_core:
  assumes "0 < dval x" "0 < dval y" "ddiv x y = Some z"
  shows "z = dfix (ddiv_core (coeff x) (expo x) (coeff y) (expo y))"
  using assms by (simp add: dval_pos_iff ddiv_def Let_def)

text \<open>Correct rounding of a quotient of positive numbers: it never crosses a representable
  number, and it is exact when the quotient is representable.\<close>

lemma ddiv_ge:
  assumes "0 < dval x" "0 < dval y" "ddiv x y = Some z" and "rep28 w" "w \<le> dval x / dval y"
  shows "w \<le> dval z"
  unfolding ddiv_pos_core [OF assms(1-3)]
  by (rule dfix_ddiv_core_ge [where v = "dval x / dval y"])
     (use assms in \<open>simp_all add: dval_pos_iff\<close>, simp add: dval_def)

lemma ddiv_le:
  assumes "0 < dval x" "0 < dval y" "ddiv x y = Some z" and "rep28 w" "dval x / dval y \<le> w"
  shows "dval z \<le> w"
  unfolding ddiv_pos_core [OF assms(1-3)]
  by (rule dfix_ddiv_core_le [where v = "dval x / dval y"])
     (use assms in \<open>simp_all add: dval_pos_iff\<close>, simp add: dval_def)

lemma ddiv_exact:
  assumes "0 < dval x" "0 < dval y" "ddiv x y = Some z" and "rep28 (dval x / dval y)"
  shows "dval z = dval x / dval y"
  using assms by (intro order_antisym ddiv_le ddiv_ge) auto

lemma ddiv_defined: "0 < dval y \<Longrightarrow> \<exists>z. ddiv x y = Some z"
  using ddiv_None_iff [of x y] by (cases "ddiv x y") auto

lemma ddiv_nonneg:
  assumes "0 \<le> dval x" "0 < dval y" "ddiv x y = Some q"
  shows "0 \<le> dval q"
proof (cases "dval x = 0")
  case True
  then show ?thesis using assms by (auto simp: ddiv_def dval_zero_iff dval_def split: if_splits)
next
  case False
  then have "0 < dval x" using assms(1) by simp
  then show ?thesis by (rule ddiv_ge [OF _ assms(2,3) rep28_0]) (use assms in simp)
qed

lemma ddiv_pos:
  assumes "0 < dval x" "0 < dval y" "ddiv x y = Some q"
  shows "0 < dval q"
proof -
  let ?z = "ddiv_core (coeff x) (expo x) (coeff y) (expo y)"
  have c: "0 < coeff x" "0 < coeff y" using assms by (simp_all add: dval_pos_iff)
  have v: "dval x / dval y = (of_int (coeff x) * 10 powi expo x) / (of_int (coeff y) * 10 powi expo y)" by (simp add: dval_def)
  from c v refl have "0 < dval ?z"
  proof (cases rule: ddiv_core_bounds)
    case exact
    then show ?thesis using assms(1,2) by simp
  qed (simp add: dval_pos_iff)
  then show ?thesis unfolding ddiv_pos_core [OF assms] by (rule dfix_pos)
qed

section \<open>The money grid\<close>

text \<open>A multiple of 0.0001, the scale of the program's \<^verbatim>\<open>Numeric(18, 4)\<close> columns, with at most
  18 digits.\<close>

definition money_grid :: "decimal \<Rightarrow> bool" where
  "money_grid d \<longleftrightarrow> (\<exists>n. \<bar>n\<bar> < 10 ^ 18 \<and> dval d = of_int n * 10 powi (-4))"

lemma money_gridE:
  assumes "money_grid d"
  obtains n where "\<bar>n\<bar> < 10 ^ 18" "dval d = of_int n * 10 powi (-4)"
  using assms by (auto simp: money_grid_def)

lemma money_grid_rep28: "money_grid d \<Longrightarrow> rep28 (dval d)"
  by (elim money_gridE) (simp only:, rule rep28_grid, simp)

lemma powi_m4: "(10::rat) powi (-4) = 1 / 10000"
  by (simp add: power_int_def power_divide)

text \<open>Products of a 32-bit quantity and a money value, and sums of two of them, are exact.\<close>

lemma money_scale_bound:
  fixes n q :: int
  assumes "\<bar>n\<bar> < 10 ^ 18" "0 \<le> q" "q \<le> 2 ^ 31"
  shows "\<bar>q * n\<bar> \<le> q * 10 ^ 18" "\<bar>q * n\<bar> < prec_limit"
proof -
  have "\<bar>q * n\<bar> = q * \<bar>n\<bar>" using assms(2) by (simp add: abs_mult)
  also have "\<dots> \<le> q * 10 ^ 18" using assms by (intro mult_left_mono) auto
  finally show "\<bar>q * n\<bar> \<le> q * 10 ^ 18" .
  also have "q * 10 ^ 18 \<le> 2 ^ 31 * 10 ^ 18" using assms(3) by (intro mult_right_mono) auto
  finally show "\<bar>q * n\<bar> < prec_limit" by simp
qed

lemma dval_quantity_times_money:
  assumes "money_grid d" "0 \<le> q" "q \<le> 2 ^ 31"
  shows "dval (dec_of_int q * d) = of_int q * dval d"
proof -
  obtain n where n: "\<bar>n\<bar> < 10 ^ 18" "dval d = of_int n * 10 powi (-4)" using assms(1) by (rule money_gridE)
  have "of_int q * dval d = of_int (q * n) * 10 powi (-4)" by (simp add: n(2))
  moreover have "rep28 (of_int (q * n) * 10 powi (-4))"
    by (rule rep28_grid) (rule money_scale_bound(2) [OF n(1) assms(2,3)])
  ultimately have "rep28 (dval (dec_of_int q) * dval d)" by (simp only: dval_dec_of_int)
  from dval_times [OF this] show ?thesis by (simp only: dval_dec_of_int)
qed

lemma dval_notional_sum:
  assumes "money_grid a" "money_grid b" "0 \<le> p" "0 \<le> q" "p + q \<le> 2 ^ 31"
  shows "dval (dec_of_int p * a + dec_of_int q * b) = of_int p * dval a + of_int q * dval b"
proof -
  obtain m n where mn: "\<bar>m\<bar> < 10 ^ 18" "dval a = of_int m * 10 powi (-4)" "\<bar>n\<bar> < 10 ^ 18" "dval b = of_int n * 10 powi (-4)"
    using assms(1,2) by (elim money_gridE) blast
  have pq: "p \<le> 2 ^ 31" "q \<le> 2 ^ 31" using assms(3-5) by simp_all
  note times = dval_quantity_times_money [OF assms(1,3) pq(1)] dval_quantity_times_money [OF assms(2,4) pq(2)]
  have "\<bar>p * m + q * n\<bar> \<le> p * 10 ^ 18 + q * 10 ^ 18"
    using money_scale_bound(1) [OF mn(1) assms(3) pq(1)] money_scale_bound(1) [OF mn(3) assms(4) pq(2)] by linarith
  also have "\<dots> = (p + q) * 10 ^ 18" by (simp add: algebra_simps)
  also have "\<dots> \<le> 2 ^ 31 * 10 ^ 18" using assms(5) by (intro mult_right_mono) auto
  finally have "rep28 (of_int (p * m + q * n) * 10 powi (-4))" by (intro rep28_grid) simp
  moreover have "of_int p * dval a + of_int q * dval b = of_int (p * m + q * n) * 10 powi (-4)"
    by (simp add: mn algebra_simps)
  ultimately have "rep28 (dval (dec_of_int p * a) + dval (dec_of_int q * b))" by (simp only: times)
  from dval_plus [OF this] show ?thesis by (simp only: times)
qed

lemma quantize_money:
  assumes "money_grid lo" "money_grid hi" "dval lo \<le> dval d" "dval d \<le> dval hi"
  obtains r where "quantize (-4) d = Some r" "dval lo \<le> dval r" "dval r \<le> dval hi" "money_grid r"
    "2 * \<bar>dval r - dval d\<bar> \<le> 10 powi (-4)"
proof -
  obtain m n where mn: "\<bar>m\<bar> < 10 ^ 18" "dval lo = of_int m * 10 powi (-4)" "\<bar>n\<bar> < 10 ^ 18" "dval hi = of_int n * 10 powi (-4)"
    using assms(1,2) by (elim money_gridE) blast
  have c: "m \<le> qcoeff (-4) d" "qcoeff (-4) d \<le> n"
    using assms(3,4) mn by (auto intro: qcoeff_ge qcoeff_le)
  then have b: "\<bar>qcoeff (-4) d\<bar> < 10 ^ 18" using mn by linarith
  then have q: "quantize (-4) d = Some (Dec (qcoeff (-4) d) (-4))" by (simp add: quantize_qcoeff)
  have v: "dval (Dec (qcoeff (-4) d) (-4)) = of_int (qcoeff (-4) d) * 10 powi (-4)" by (simp add: dval_def)
  show thesis
    by (rule that [OF q]) (use c b quantize_error [OF q] in \<open>auto simp: v mn money_grid_def grid_le_iff simp del: power_int_minus\<close>)
qed

text \<open>Differences and sums of money values.\<close>

lemma dval_grid_plus:
  assumes "dval a = of_int m * 10 powi e" "dval b = of_int n * 10 powi e" "\<bar>m + n\<bar> < prec_limit"
  shows "dval (a + b) = of_int (m + n) * 10 powi e"
proof -
  have v: "dval a + dval b = of_int (m + n) * 10 powi e" using assms(1,2) by (simp add: algebra_simps)
  have "rep28 (dval a + dval b)" unfolding v by (rule rep28_grid [OF assms(3)])
  from dval_plus [OF this] v show ?thesis by simp
qed

lemma dval_grid_minus:
  assumes "dval a = of_int m * 10 powi e" "dval b = of_int n * 10 powi e" "\<bar>m - n\<bar> < prec_limit"
  shows "dval (a - b) = of_int (m - n) * 10 powi e"
proof -
  have v: "dval a - dval b = of_int (m - n) * 10 powi e" using assms(1,2) by (simp add: algebra_simps)
  have "rep28 (dval a - dval b)" unfolding v by (rule rep28_grid [OF assms(3)])
  from dval_minus [OF this] v show ?thesis by simp
qed

lemma dval_grid_times_int:
  assumes "dval a = of_int m * 10 powi e" "\<bar>m * q\<bar> < prec_limit"
  shows "dval (a * dec_of_int q) = of_int (m * q) * 10 powi e"
proof -
  have v: "dval a * dval (dec_of_int q) = of_int (m * q) * 10 powi e" using assms(1) by simp
  have "rep28 (dval a * dval (dec_of_int q))" unfolding v by (rule rep28_grid [OF assms(2)])
  from dval_times [OF this] v show ?thesis by simp
qed

lemma quantize_exact:
  assumes "dval d = of_int m * 10 powi e" "\<bar>m\<bar> < prec_limit"
  obtains r where "quantize e d = Some r" "dval r = dval d"
  using quantize_grid [OF assms] assms(1) by (intro that [of "Dec m e"]) (simp_all add: dval_def)

text \<open>Python's \<^verbatim>\<open>sum(values, Decimal("0"))\<close>.\<close>

definition dsum :: "decimal list \<Rightarrow> decimal" where
  "dsum = foldl (+) 0"

lemma dsum_grid_aux:
  assumes "list_all2 (\<lambda>d n. dval d = of_int n * 10 powi e) ds ns" "dval z = of_int k * 10 powi e"
    and "\<bar>k\<bar> + (\<Sum>n\<leftarrow>ns. \<bar>n\<bar>) < prec_limit"
  shows "dval (foldl (+) z ds) = of_int (k + sum_list ns) * 10 powi e"
  using assms
proof (induction ds ns arbitrary: z k rule: list_all2_induct)
  case Nil
  then show ?case by simp
next
  case (Cons d ds n ns)
  have nonneg: "0 \<le> (\<Sum>n\<leftarrow>ns. \<bar>n\<bar>)" by (intro sum_list_nonneg) auto
  have z: "dval (z + d) = of_int (k + n) * 10 powi e"
    using Cons.hyps Cons.prems nonneg by (intro dval_grid_plus) auto
  have "\<bar>k + n\<bar> + (\<Sum>n\<leftarrow>ns. \<bar>n\<bar>) < prec_limit" using Cons.prems(2) by simp
  from Cons.IH [OF z this] show ?case by (simp add: algebra_simps)
qed

lemma dsum_grid:
  assumes "list_all2 (\<lambda>d n. dval d = of_int n * 10 powi e) ds ns" "(\<Sum>n\<leftarrow>ns. \<bar>n\<bar>) < prec_limit"
  shows "dval (dsum ds) = of_int (sum_list ns) * 10 powi e"
  using dsum_grid_aux [OF assms(1), of 0 0] assms(2) by (simp add: dsum_def)

section \<open>Dynamic values and content digests\<close>

text \<open>The leaves of the program's \<^verbatim>\<open>dict[str, object]\<close> metadata and of the payloads it hashes.  A
  content hash is \<^verbatim>\<open>sha256(json.dumps(payload, sort_keys=True)).hexdigest()\<close>; the JSON text is a
  one-to-one rendering of the payload, and the hash of it is a parameter \<open>digest\<close> of the
  operations that use one.\<close>

datatype pyval = PNone | PStr string | PInt int | PUuid uuid | PTime datetime | PDec decimal

type_synonym metadata = "string \<rightharpoonup> pyval"
type_synonym payload = "(string \<times> pyval) list"
type_synonym digest = "payload \<Rightarrow> string"

definition opt_str :: "string option \<Rightarrow> pyval" where
  "opt_str s = (case s of None \<Rightarrow> PNone | Some x \<Rightarrow> PStr x)"

end
