(* ===== verification/Order_Lifecycle.thy ===== *)
theory Order_Lifecycle
  imports Py_Decimal
begin

text \<open>
  The order lifecycle of the execution engine
  (\<^verbatim>\<open>services/execution_engine/alpha_algo_execution_engine/lifecycle.py\<close>, \<^verbatim>\<open>events.py\<close>,
  \<^verbatim>\<open>submission.py\<close>) and the risk decision contract it checks
  (\<^verbatim>\<open>packages/contracts/alpha_algo_contracts/risk.py\<close>): the order state machine, the transition
  log, the fill accounting driven by broker events, and the submission guard.
  The random \<^verbatim>\<open>event_id\<close> of a transition is not represented; nothing reads it.
\<close>

section \<open>The order state machine\<close>

datatype order_state =
    INTENT_CREATED | INTERNAL_ORDER_CREATED | SUBMISSION_REQUESTED | BROKER_ACKNOWLEDGED
  | PARTIALLY_FILLED | FILLED | REJECTED | CANCEL_REQUESTED | CANCELLED | UNKNOWN
  | RECONCILIATION_REQUIRED

definition terminal_order_states :: "order_state list" where
  "terminal_order_states = [FILLED, REJECTED, CANCELLED]"

fun allowed_transitions :: "order_state \<Rightarrow> order_state list" where
  "allowed_transitions INTENT_CREATED = [INTERNAL_ORDER_CREATED]"
| "allowed_transitions INTERNAL_ORDER_CREATED = [SUBMISSION_REQUESTED, REJECTED]"
| "allowed_transitions SUBMISSION_REQUESTED =
     [BROKER_ACKNOWLEDGED, REJECTED, UNKNOWN, CANCEL_REQUESTED]"
| "allowed_transitions BROKER_ACKNOWLEDGED =
     [PARTIALLY_FILLED, FILLED, REJECTED, CANCEL_REQUESTED, UNKNOWN]"
| "allowed_transitions PARTIALLY_FILLED =
     [PARTIALLY_FILLED, FILLED, CANCEL_REQUESTED, UNKNOWN]"
| "allowed_transitions CANCEL_REQUESTED = [CANCELLED, PARTIALLY_FILLED, FILLED, UNKNOWN]"
| "allowed_transitions UNKNOWN = [RECONCILIATION_REQUIRED]"
| "allowed_transitions RECONCILIATION_REQUIRED =
     [BROKER_ACKNOWLEDGED, PARTIALLY_FILLED, FILLED, REJECTED, CANCELLED]"
| "allowed_transitions FILLED = []"
| "allowed_transitions REJECTED = []"
| "allowed_transitions CANCELLED = []"

datatype exec_error =
    InvalidOrderTransition uuid order_state order_state
  | InvalidOrderEvent string
  | ExecValueError string
  | RiskApprovalRequired string

record order_state_transition =
  ost_from_state :: order_state
  ost_to_state :: order_state
  ost_occurred_at :: datetime
  ost_reason :: string
  ost_metadata :: metadata

definition mk_transition ::
  "order_state \<Rightarrow> order_state \<Rightarrow> datetime \<Rightarrow> string \<Rightarrow> metadata
   \<Rightarrow> (exec_error, order_state_transition) result" where
  "mk_transition f t ts r m =
     (if \<not> tz_aware ts then Inl (ExecValueError ''occurred_at must be timezone-aware'')
      else if blank r then Inl (ExecValueError ''reason is required'')
      else Inr \<lparr>ost_from_state = f, ost_to_state = t, ost_occurred_at = ts, ost_reason = r,
                ost_metadata = m\<rparr>)"

record order_lifecycle =
  lc_order_id :: uuid
  lc_state :: order_state
  lc_transitions :: "order_state_transition list"

definition new_lifecycle :: "uuid \<Rightarrow> order_lifecycle" where
  "new_lifecycle oid = \<lparr>lc_order_id = oid, lc_state = INTENT_CREATED, lc_transitions = []\<rparr>"

definition transition_to ::
  "order_lifecycle \<Rightarrow> order_state \<Rightarrow> datetime \<Rightarrow> string \<Rightarrow> metadata
   \<Rightarrow> (exec_error, order_lifecycle) result" where
  "transition_to lc to_state ts r m =
     (if to_state \<notin> set (allowed_transitions (lc_state lc))
      then Inl (InvalidOrderTransition (lc_order_id lc) (lc_state lc) to_state)
      else rbind (mk_transition (lc_state lc) to_state ts r m) (\<lambda>t.
        Inr \<lparr>lc_order_id = lc_order_id lc, lc_state = to_state,
             lc_transitions = lc_transitions lc @ [t]\<rparr>))"

definition is_terminal :: "order_lifecycle \<Rightarrow> bool" where
  "is_terminal lc \<longleftrightarrow> lc_state lc \<in> set terminal_order_states"

definition requires_reconciliation :: "order_lifecycle \<Rightarrow> bool" where
  "requires_reconciliation lc \<longleftrightarrow> lc_state lc \<in> {UNKNOWN, RECONCILIATION_REQUIRED}"

section \<open>Broker events and fill accounting\<close>

datatype order_event_type =
    EV_BROKER_ACKNOWLEDGED | EV_PARTIAL_FILL | EV_FILL | EV_REJECTED | EV_CANCEL_REQUESTED
  | EV_CANCELLED | EV_UNKNOWN | EV_RECONCILIATION_REQUIRED

fun event_type_value :: "order_event_type \<Rightarrow> string" where
  "event_type_value EV_BROKER_ACKNOWLEDGED = ''BROKER_ACKNOWLEDGED''"
| "event_type_value EV_PARTIAL_FILL = ''PARTIAL_FILL''"
| "event_type_value EV_FILL = ''FILL''"
| "event_type_value EV_REJECTED = ''REJECTED''"
| "event_type_value EV_CANCEL_REQUESTED = ''CANCEL_REQUESTED''"
| "event_type_value EV_CANCELLED = ''CANCELLED''"
| "event_type_value EV_UNKNOWN = ''UNKNOWN''"
| "event_type_value EV_RECONCILIATION_REQUIRED = ''RECONCILIATION_REQUIRED''"

record broker_order_event =
  be_order_id :: uuid
  be_event_type :: order_event_type
  be_occurred_at :: datetime
  be_reason :: string
  be_broker_order_id :: "string option"
  be_fill_quantity :: decimal
  be_metadata :: metadata

definition fill_event :: "order_event_type \<Rightarrow> bool" where
  "fill_event t \<longleftrightarrow> t = EV_PARTIAL_FILL \<or> t = EV_FILL"

text \<open>\<^verbatim>\<open>BrokerOrderEvent.__post_init__\<close>\<close>

definition mk_broker_order_event :: "broker_order_event \<Rightarrow> (exec_error, broker_order_event) result" where
  "mk_broker_order_event ev =
     (if \<not> tz_aware (be_occurred_at ev) then Inl (ExecValueError ''occurred_at must be timezone-aware'')
      else if blank (be_reason ev) then Inl (ExecValueError ''reason is required'')
      else if be_fill_quantity ev < 0 then Inl (ExecValueError ''fill_quantity cannot be negative'')
      else if fill_event (be_event_type ev)
           then (if be_fill_quantity ev \<le> 0
                 then Inl (ExecValueError ''fill events require positive fill_quantity'')
                 else Inr ev)
      else if \<not> deq (be_fill_quantity ev) 0
           then Inl (ExecValueError ''non-fill events cannot carry fill_quantity'')
      else Inr ev)"

record order_execution_state =
  es_lifecycle :: order_lifecycle
  es_order_quantity :: decimal
  es_filled_quantity :: decimal
  es_broker_order_id :: "string option"

text \<open>\<^verbatim>\<open>OrderExecutionState.__post_init__\<close>\<close>

definition mk_execution_state ::
  "order_lifecycle \<Rightarrow> decimal \<Rightarrow> decimal \<Rightarrow> string option
   \<Rightarrow> (exec_error, order_execution_state) result" where
  "mk_execution_state lc oq fq bid =
     (if oq \<le> 0 then Inl (ExecValueError ''order_quantity must be positive'')
      else if fq < 0 then Inl (ExecValueError ''filled_quantity cannot be negative'')
      else if oq < fq then Inl (ExecValueError ''filled_quantity cannot exceed order_quantity'')
      else Inr \<lparr>es_lifecycle = lc, es_order_quantity = oq, es_filled_quantity = fq,
                es_broker_order_id = bid\<rparr>)"

definition with_transition ::
  "order_execution_state \<Rightarrow> broker_order_event \<Rightarrow> order_state \<Rightarrow> decimal option
   \<Rightarrow> (exec_error, order_execution_state) result" where
  "with_transition st ev to_state fq =
     rbind (transition_to (es_lifecycle st) to_state (be_occurred_at ev) (be_reason ev)
              ([''broker_order_id'' \<mapsto> opt_str (be_broker_order_id ev),
                ''event_type'' \<mapsto> PStr (event_type_value (be_event_type ev))] ++ be_metadata ev))
       (\<lambda>lc. mk_execution_state lc (es_order_quantity st)
               (case fq of None \<Rightarrow> es_filled_quantity st | Some q \<Rightarrow> q)
               (str_or (be_broker_order_id ev) (es_broker_order_id st)))"

definition apply_partial_fill ::
  "order_execution_state \<Rightarrow> broker_order_event \<Rightarrow> (exec_error, order_execution_state) result" where
  "apply_partial_fill st ev =
     (let next_filled = es_filled_quantity st + be_fill_quantity ev in
      if es_order_quantity st \<le> next_filled
      then Inl (InvalidOrderEvent ''partial fill cannot complete or overfill the order'')
      else with_transition st ev PARTIALLY_FILLED (Some next_filled))"

definition apply_complete_fill ::
  "order_execution_state \<Rightarrow> broker_order_event \<Rightarrow> (exec_error, order_execution_state) result" where
  "apply_complete_fill st ev =
     (let next_filled = es_filled_quantity st + be_fill_quantity ev in
      if \<not> deq next_filled (es_order_quantity st)
      then Inl (InvalidOrderEvent ''fill event must complete the order quantity exactly'')
      else with_transition st ev FILLED (Some next_filled))"

definition apply_event ::
  "order_execution_state \<Rightarrow> broker_order_event \<Rightarrow> (exec_error, order_execution_state) result" where
  "apply_event st ev =
     (if be_order_id ev \<noteq> lc_order_id (es_lifecycle st)
      then Inl (InvalidOrderEvent ''event order_id does not match lifecycle'')
      else case be_event_type ev of
        EV_BROKER_ACKNOWLEDGED \<Rightarrow> with_transition st ev BROKER_ACKNOWLEDGED None
      | EV_PARTIAL_FILL \<Rightarrow> apply_partial_fill st ev
      | EV_FILL \<Rightarrow> apply_complete_fill st ev
      | EV_REJECTED \<Rightarrow> with_transition st ev REJECTED None
      | EV_CANCEL_REQUESTED \<Rightarrow> with_transition st ev CANCEL_REQUESTED None
      | EV_CANCELLED \<Rightarrow> with_transition st ev CANCELLED None
      | EV_UNKNOWN \<Rightarrow> with_transition st ev UNKNOWN None
      | EV_RECONCILIATION_REQUIRED \<Rightarrow> with_transition st ev RECONCILIATION_REQUIRED None)"

section \<open>Risk decisions and the submission guard\<close>

datatype risk_decision_result = APPROVED | RISK_REJECTED

record risk_decision =
  rd_decision_id :: uuid
  rd_request_id :: uuid
  rd_signal_id :: uuid
  rd_strategy_id :: uuid
  rd_instrument_id :: uuid
  rd_decision :: risk_decision_result
  rd_reason_code :: string
  rd_reason :: string
  rd_rule_id :: string
  rd_evaluated_at :: datetime
  rd_approval_id :: "uuid option"
  rd_expires_at :: "datetime option"
  rd_binding_hash :: "string option"
  rd_snapshot_id :: "uuid option"

text \<open>The validators of the pydantic model \<^verbatim>\<open>RiskDecision\<close>.\<close>

definition risk_decision_valid :: "risk_decision \<Rightarrow> bool" where
  "risk_decision_valid d \<longleftrightarrow>
     (\<forall>(s, n) \<in> set [(rd_reason_code d, 100), (rd_reason d, 500), (rd_rule_id d, 100)].
        1 \<le> length s \<and> length s \<le> n \<and> \<not> blank s) \<and>
     tz_aware (rd_evaluated_at d) \<and>
     (case rd_expires_at d of None \<Rightarrow> True | Some t \<Rightarrow> tz_aware t) \<and>
     (case rd_decision d of
        APPROVED \<Rightarrow> rd_approval_id d \<noteq> None \<and>
          (case rd_expires_at d of None \<Rightarrow> False | Some t \<Rightarrow> instant (rd_evaluated_at d) < instant t)
      | RISK_REJECTED \<Rightarrow> rd_approval_id d = None \<and> rd_expires_at d = None)"

definition is_valid_approval_at :: "risk_decision \<Rightarrow> datetime \<Rightarrow> (exec_error, bool) result" where
  "is_valid_approval_at d ts =
     (if \<not> tz_aware ts then Inl (ExecValueError ''value must be timezone-aware'')
      else Inr (rd_decision d = APPROVED \<and> rd_approval_id d \<noteq> None \<and>
                (case rd_expires_at d of None \<Rightarrow> False | Some t \<Rightarrow> instant ts < instant t)))"

record broker_submission_intent =
  si_order_id :: uuid
  si_signal_id :: uuid
  si_strategy_id :: uuid
  si_instrument_id :: uuid
  si_risk_approval_id :: uuid
  si_requested_at :: datetime
  si_metadata :: metadata

definition validate_risk_decision ::
  "risk_decision option \<Rightarrow> uuid \<Rightarrow> uuid \<Rightarrow> uuid \<Rightarrow> datetime \<Rightarrow> (exec_error, risk_decision) result" where
  "validate_risk_decision rd signal_id strategy_id instrument_id ts =
     (case rd of
        None \<Rightarrow> Inl (RiskApprovalRequired ''risk approval is required before broker submission'')
      | Some d \<Rightarrow>
          if rd_decision d \<noteq> APPROVED then Inl (RiskApprovalRequired ''risk decision is not approved'')
          else rbind (is_valid_approval_at d ts) (\<lambda>valid.
            if \<not> valid then Inl (RiskApprovalRequired ''risk approval is expired or invalid'')
            else if rd_signal_id d \<noteq> signal_id
            then Inl (RiskApprovalRequired ''risk approval signal_id does not match order intent'')
            else if rd_strategy_id d \<noteq> strategy_id
            then Inl (RiskApprovalRequired ''risk approval strategy_id does not match order intent'')
            else if rd_instrument_id d \<noteq> instrument_id
            then Inl (RiskApprovalRequired ''risk approval instrument_id does not match order intent'')
            else Inr d))"

definition request_submission ::
  "order_lifecycle \<Rightarrow> risk_decision option \<Rightarrow> uuid \<Rightarrow> uuid \<Rightarrow> uuid \<Rightarrow> datetime \<Rightarrow> metadata
   \<Rightarrow> (exec_error, order_lifecycle \<times> broker_submission_intent) result" where
  "request_submission lc rd signal_id strategy_id instrument_id ts m =
     (if \<not> tz_aware ts then Inl (ExecValueError ''requested_at must be timezone-aware'')
      else rbind (validate_risk_decision rd signal_id strategy_id instrument_id ts) (\<lambda>d.
        case rd_approval_id d of
          None \<Rightarrow> Inl (ExecValueError ''AssertionError'')
        | Some aid \<Rightarrow>
            rbind (transition_to lc SUBMISSION_REQUESTED ts
                     ''valid risk approval accepted for broker submission request''
                     ([''risk_decision_id'' \<mapsto> PUuid (rd_decision_id d),
                       ''risk_approval_id'' \<mapsto> PUuid aid] ++ m))
              (\<lambda>lc'. Inr (lc',
                \<lparr>si_order_id = lc_order_id lc, si_signal_id = signal_id,
                 si_strategy_id = strategy_id, si_instrument_id = instrument_id,
                 si_risk_approval_id = aid, si_requested_at = ts,
                 si_metadata = [''risk_decision_id'' \<mapsto> PUuid (rd_decision_id d)] ++ m\<rparr>))))"

section \<open>The state machine\<close>

fun order_rank :: "order_state \<Rightarrow> nat" where
  "order_rank INTENT_CREATED = 2"
| "order_rank UNKNOWN = 2"
| "order_rank FILLED = 0"
| "order_rank REJECTED = 0"
| "order_rank CANCELLED = 0"
| "order_rank _ = 1"

lemma terminal_order_iff: "s \<in> set terminal_order_states \<longleftrightarrow> allowed_transitions s = []"
  by (cases s) (simp_all add: terminal_order_states_def)

interpretation order_machine: terminating_table allowed_transitions terminal_order_states order_rank
proof
  fix s show "s \<in> set terminal_order_states \<longleftrightarrow> allowed_transitions s = []"
    by (rule terminal_order_iff)
next
  fix s assume "allowed_transitions s \<noteq> []"
  then show "\<exists>t\<in>set (allowed_transitions s). order_rank t < order_rank s"
    by (cases s) simp_all
qed

definition before_submission :: "order_state \<Rightarrow> bool" where
  "before_submission s \<longleftrightarrow> s \<in> {INTENT_CREATED, INTERNAL_ORDER_CREATED, SUBMISSION_REQUESTED, REJECTED}"

lemma entry_from_submission:
  "t \<in> set (allowed_transitions s) \<Longrightarrow> \<not> before_submission t \<Longrightarrow>
   \<not> before_submission s \<or> s = SUBMISSION_REQUESTED"
  by (cases s) (auto simp: before_submission_def)

text \<open>The lifecycles the code can build.\<close>

inductive lc_reachable :: "uuid \<Rightarrow> order_lifecycle \<Rightarrow> bool" for oid where
  new: "lc_reachable oid (new_lifecycle oid)"
| step: "lc_reachable oid lc \<Longrightarrow> transition_to lc s ts r m = Inr lc' \<Longrightarrow> lc_reachable oid lc'"

text \<open>What the transition log records of a lifecycle: a linked run of the table.\<close>

definition log_states :: "order_lifecycle \<Rightarrow> order_state list" where
  "log_states lc = map ost_to_state (lc_transitions lc)"

definition log_linked :: "order_lifecycle \<Rightarrow> bool" where
  "log_linked lc \<longleftrightarrow>
     run_ok allowed_transitions INTENT_CREATED (log_states lc) \<and>
     lc_state lc = last (INTENT_CREATED # log_states lc) \<and>
     map ost_from_state (lc_transitions lc) @ [lc_state lc] = INTENT_CREATED # log_states lc \<and>
     (\<forall>t\<in>set (lc_transitions lc). tz_aware (ost_occurred_at t) \<and> \<not> blank (ost_reason t))"

lemma transition_to_Inr_iff:
  "transition_to lc s ts r m = Inr lc' \<longleftrightarrow>
     s \<in> set (allowed_transitions (lc_state lc)) \<and> tz_aware ts \<and> \<not> blank r \<and>
     lc' = \<lparr>lc_order_id = lc_order_id lc, lc_state = s,
            lc_transitions = lc_transitions lc @
              [\<lparr>ost_from_state = lc_state lc, ost_to_state = s, ost_occurred_at = ts,
                ost_reason = r, ost_metadata = m\<rparr>]\<rparr>"
  by (auto simp: transition_to_def mk_transition_def)

lemma transition_to_log_linked:
  "log_linked lc \<Longrightarrow> transition_to lc s ts r m = Inr lc' \<Longrightarrow> log_linked lc'"
  unfolding transition_to_Inr_iff
  by (clarsimp simp: log_linked_def log_states_def run_ok_append)

lemma lc_reachable_log_linked: "lc_reachable oid lc \<Longrightarrow> log_linked lc \<and> lc_order_id lc = oid"
proof (induction rule: lc_reachable.induct)
  case new
  then show ?case by (simp add: new_lifecycle_def log_linked_def log_states_def)
next
  case (step lc s ts r m lc')
  then show ?case using transition_to_log_linked by (auto simp: transition_to_Inr_iff)
qed

text \<open>Whatever calls of \<^verbatim>\<open>transition_to\<close> built a lifecycle, an order that is acknowledged,
  partially or completely filled, being cancelled, cancelled, unknown or under reconciliation
  has a logged transition into SUBMISSION_REQUESTED: no order reaches the broker side of the
  machine without having passed the submission request.\<close>

theorem fill_requires_submission:
  assumes "lc_reachable oid lc" and "\<not> before_submission (lc_state lc)"
  shows "\<exists>t\<in>set (lc_transitions lc). ost_to_state t = SUBMISSION_REQUESTED"
proof -
  have linked: "run_ok allowed_transitions INTENT_CREATED (log_states lc)"
    "lc_state lc = last (INTENT_CREATED # log_states lc)"
    using lc_reachable_log_linked [OF assms(1)] by (simp_all add: log_linked_def)
  have "SUBMISSION_REQUESTED \<in> set (INTENT_CREATED # log_states lc)"
    by (rule order_machine.run_through_gate [where A = "{s. \<not> before_submission s}"])
       (use assms(2) linked entry_from_submission in \<open>auto simp: before_submission_def\<close>)
  then obtain t where "t \<in> set (lc_transitions lc)" "ost_to_state t = SUBMISSION_REQUESTED"
    by (auto simp: log_states_def)
  then show ?thesis by blast
qed

definition sample_filled_lifecycle :: "(exec_error, order_lifecycle) result" where
  "sample_filled_lifecycle =
     rbind (transition_to (new_lifecycle 7) INTERNAL_ORDER_CREATED (utc 1) ''created'' Map.empty) (\<lambda>a.
     rbind (transition_to a SUBMISSION_REQUESTED (utc 2) ''approved'' Map.empty) (\<lambda>b.
     rbind (transition_to b BROKER_ACKNOWLEDGED (utc 3) ''ack'' Map.empty) (\<lambda>c.
     transition_to c FILLED (utc 4) ''fill'' Map.empty)))"

lemma sample_filled_lifecycle_reachable:
  "\<exists>lc. sample_filled_lifecycle = Inr lc \<and> lc_reachable 7 lc \<and> lc_state lc = FILLED"
proof -
  obtain a where a: "transition_to (new_lifecycle 7) INTERNAL_ORDER_CREATED (utc 1) ''created'' Map.empty = Inr a"
    by (simp add: transition_to_def mk_transition_def new_lifecycle_def blank_def is_space_def)
  obtain b where b: "transition_to a SUBMISSION_REQUESTED (utc 2) ''approved'' Map.empty = Inr b"
    using a by (auto simp: transition_to_def mk_transition_def new_lifecycle_def blank_def is_space_def)
  obtain c where c: "transition_to b BROKER_ACKNOWLEDGED (utc 3) ''ack'' Map.empty = Inr c"
    using b by (auto simp: transition_to_def mk_transition_def blank_def is_space_def split: if_splits)
  obtain d where d: "transition_to c FILLED (utc 4) ''fill'' Map.empty = Inr d"
    using c by (auto simp: transition_to_def mk_transition_def blank_def is_space_def split: if_splits)
  have "lc_reachable 7 d"
    by (rule lc_reachable.step [OF lc_reachable.step [OF lc_reachable.step [OF lc_reachable.step
          [OF lc_reachable.new a] b] c] d])
  moreover have "lc_state d = FILLED" using d by (simp add: transition_to_Inr_iff)
  ultimately show ?thesis using a b c d by (simp add: sample_filled_lifecycle_def)
qed

theorem fill_requires_submission_witness:
  "\<exists>lc. sample_filled_lifecycle = Inr lc \<and> lc_state lc = FILLED \<and>
     (\<exists>t\<in>set (lc_transitions lc). ost_to_state t = SUBMISSION_REQUESTED)"
proof -
  obtain lc where lc: "sample_filled_lifecycle = Inr lc" "lc_reachable 7 lc" "lc_state lc = FILLED"
    using sample_filled_lifecycle_reachable by blast
  have "\<exists>t\<in>set (lc_transitions lc). ost_to_state t = SUBMISSION_REQUESTED"
    using fill_requires_submission [OF lc(2)] lc(3) by (simp add: before_submission_def)
  with lc show ?thesis by blast
qed

text \<open>The transition table has no dead end: a state has no successor exactly when it is one of
  the three terminal states, and from every state some run of allowed transitions ends in a
  terminal state.\<close>

theorem order_terminal_liveness:
  "(s \<in> set terminal_order_states \<longleftrightarrow> allowed_transitions s = []) \<and>
   (\<exists>ts. run_ok allowed_transitions s ts \<and> last (s # ts) \<in> set terminal_order_states)"
  using order_machine.reaches_terminal terminal_order_iff by blast

section \<open>The submission guard\<close>

lemma validate_risk_decision_Inr_iff:
  "validate_risk_decision rd sid stid iid ts = Inr d \<longleftrightarrow>
     rd = Some d \<and> rd_decision d = APPROVED \<and> tz_aware ts \<and> rd_approval_id d \<noteq> None \<and>
     (\<exists>e. rd_expires_at d = Some e \<and> instant ts < instant e) \<and>
     rd_signal_id d = sid \<and> rd_strategy_id d = stid \<and> rd_instrument_id d = iid"
  by (auto simp: validate_risk_decision_def is_valid_approval_at_def split: option.splits if_splits)

text \<open>The submission guard admits an order exactly when a risk decision is present, approved,
  carries an approval id, is unexpired at the request time and was made for this signal,
  strategy and instrument, and the order is in INTERNAL_ORDER_CREATED; the intent then carries
  that approval id and the lifecycle moves to SUBMISSION_REQUESTED.\<close>

theorem submission_guard_exact:
  "(\<exists>lc' intent. request_submission lc rd sid stid iid ts m = Inr (lc', intent) \<and>
       lc_state lc' = SUBMISSION_REQUESTED \<and> si_order_id intent = lc_order_id lc \<and>
       rd_approval_id (the rd) = Some (si_risk_approval_id intent))
   \<longleftrightarrow> tz_aware ts \<and> lc_state lc = INTERNAL_ORDER_CREATED \<and>
       (\<exists>d e. rd = Some d \<and> rd_decision d = APPROVED \<and> rd_approval_id d \<noteq> None \<and>
          rd_expires_at d = Some e \<and> instant ts < instant e \<and>
          rd_signal_id d = sid \<and> rd_strategy_id d = stid \<and> rd_instrument_id d = iid)"
  (is "?L \<longleftrightarrow> ?R")
proof
  assume ?L
  then obtain lc' intent where "request_submission lc rd sid stid iid ts m = Inr (lc', intent)" by blast
  then obtain d where "tz_aware ts" and v: "validate_risk_decision rd sid stid iid ts = Inr d"
    and t: "SUBMISSION_REQUESTED \<in> set (allowed_transitions (lc_state lc))"
    by (auto simp: request_submission_def rbind_eq_Inr transition_to_Inr_iff split: if_splits option.splits)
  from t have "lc_state lc = INTERNAL_ORDER_CREATED" by (cases "lc_state lc") simp_all
  then show ?R using v \<open>tz_aware ts\<close> by (auto simp: validate_risk_decision_Inr_iff)
next
  assume R: ?R
  then obtain d where v: "validate_risk_decision rd sid stid iid ts = Inr d" and "rd = Some d"
    by (auto simp: validate_risk_decision_Inr_iff)
  moreover have "\<not> blank ''valid risk approval accepted for broker submission request''"
    by (simp add: blank_def is_space_def)
  ultimately show ?L using R
    by (auto simp: request_submission_def transition_to_def mk_transition_def)
qed

section \<open>Fill accounting\<close>

text \<open>An engine feeds events one by one; an event that raises leaves the state as it was.\<close>

fun feed_events :: "order_execution_state \<Rightarrow> broker_order_event list \<Rightarrow> order_execution_state" where
  "feed_events st [] = st"
| "feed_events st (ev # evs) =
     feed_events (case apply_event st ev of Inl _ \<Rightarrow> st | Inr st' \<Rightarrow> st') evs"

text \<open>The events that were accepted, in order.\<close>

fun accepted_events :: "order_execution_state \<Rightarrow> broker_order_event list \<Rightarrow> broker_order_event list" where
  "accepted_events st [] = []"
| "accepted_events st (ev # evs) =
     (case apply_event st ev of
        Inl _ \<Rightarrow> accepted_events st evs
      | Inr st' \<Rightarrow> ev # accepted_events st' evs)"

definition exec_inv :: "order_execution_state \<Rightarrow> bool" where
  "exec_inv st \<longleftrightarrow>
     0 < dval (es_order_quantity st) \<and> 0 \<le> dval (es_filled_quantity st) \<and>
     dval (es_filled_quantity st) \<le> dval (es_order_quantity st) \<and>
     (lc_state (es_lifecycle st) = FILLED \<longrightarrow>
        dval (es_filled_quantity st) = dval (es_order_quantity st)) \<and>
     (lc_state (es_lifecycle st) = PARTIALLY_FILLED \<longrightarrow>
        dval (es_filled_quantity st) < dval (es_order_quantity st))"

lemma with_transition_frame:
  "with_transition st ev s fq = Inr st' \<Longrightarrow>
     lc_state (es_lifecycle st') = s \<and> es_order_quantity st' = es_order_quantity st \<and>
     es_filled_quantity st' = (case fq of None \<Rightarrow> es_filled_quantity st | Some q \<Rightarrow> q) \<and>
     0 < dval (es_order_quantity st) \<and> 0 \<le> dval (es_filled_quantity st') \<and>
     dval (es_filled_quantity st') \<le> dval (es_order_quantity st) \<and>
     s \<in> set (allowed_transitions (lc_state (es_lifecycle st))) \<and>
     lc_order_id (es_lifecycle st') = lc_order_id (es_lifecycle st)"
  by (auto simp: with_transition_def rbind_eq_Inr mk_execution_state_def transition_to_Inr_iff
      decimal_order split: if_splits)

lemmas apply_event_defs = apply_event_def apply_partial_fill_def apply_complete_fill_def Let_def

lemma apply_event_inv: "apply_event st ev = Inr st' \<Longrightarrow> exec_inv st'"
  by (cases "be_event_type ev")
     (auto simp: apply_event_defs exec_inv_def decimal_order split: if_splits dest!: with_transition_frame)

lemma apply_event_order_quantity:
  "apply_event st ev = Inr st' \<Longrightarrow>
     es_order_quantity st' = es_order_quantity st \<and>
     lc_order_id (es_lifecycle st') = lc_order_id (es_lifecycle st)"
  by (cases "be_event_type ev")
     (auto simp: apply_event_defs split: if_splits dest!: with_transition_frame)

lemma apply_event_filled:
  "apply_event st ev = Inr st' \<Longrightarrow>
     es_filled_quantity st' =
       (if fill_event (be_event_type ev) then es_filled_quantity st + be_fill_quantity ev
        else es_filled_quantity st)"
  by (cases "be_event_type ev")
     (auto simp: apply_event_defs fill_event_def split: if_splits dest!: with_transition_frame)

lemma feed_events_inv: "exec_inv st \<Longrightarrow> exec_inv (feed_events st evs)"
  by (induction evs arbitrary: st) (auto split: sum.split intro: apply_event_inv)

text \<open>With events as the constructor admits them, an order that starts unfilled is FILLED exactly when its quantity is reached, and in
  PARTIALLY_FILLED something has been filled.\<close>

definition fill_inv :: "order_execution_state \<Rightarrow> bool" where
  "fill_inv st \<longleftrightarrow> exec_inv st \<and>
     (dval (es_filled_quantity st) = dval (es_order_quantity st) \<longrightarrow> lc_state (es_lifecycle st) = FILLED) \<and>
     (lc_state (es_lifecycle st) = PARTIALLY_FILLED \<longrightarrow> 0 < dval (es_filled_quantity st))"

lemma fill_event_positive:
  "mk_broker_order_event ev = Inr ev \<Longrightarrow> be_event_type ev = EV_PARTIAL_FILL \<Longrightarrow> 0 < dval (be_fill_quantity ev)"
  by (auto simp: mk_broker_order_event_def fill_event_def decimal_order split: if_splits)

lemma apply_event_fill_inv:
  assumes "fill_inv st" "mk_broker_order_event ev = Inr ev" "apply_event st ev = Inr st'"
  shows "fill_inv st'"
proof -
  have pos: "0 < dval (es_filled_quantity st + be_fill_quantity ev)" if "be_event_type ev = EV_PARTIAL_FILL"
  proof -
    have "0 \<le> dval (es_filled_quantity st)" using assms(1) by (simp add: fill_inv_def exec_inv_def)
    then show ?thesis using plus_decimal_fix [of "es_filled_quantity st" "be_fill_quantity ev"]
        fill_event_positive [OF assms(2) that] dfix_pos by (metis add_nonneg_pos)
  qed
  show ?thesis
    using assms(1,3) apply_event_inv [OF assms(3)] pos
    by (cases "be_event_type ev")
       (auto simp: fill_inv_def apply_event_defs decimal_order split: if_splits dest!: with_transition_frame)
qed

lemma feed_events_fill_inv:
  "fill_inv st \<Longrightarrow> \<forall>ev\<in>set evs. mk_broker_order_event ev = Inr ev \<Longrightarrow> fill_inv (feed_events st evs)"
  by (induction evs arbitrary: st) (auto split: sum.split intro: apply_event_fill_inv)

lemma feed_events_order_quantity: "es_order_quantity (feed_events st evs) = es_order_quantity st"
  by (induction evs arbitrary: st) (auto split: sum.split dest: apply_event_order_quantity)

text \<open>C4.  Fill accounting cannot overfill: for an order of positive quantity with nothing filled and in neither of the two filled
  states, after any sequence of broker events that passed their constructor, accepted or refused, the filled quantity lies between
  zero and the quantity of the order, the order is in FILLED exactly when it is filled to its quantity, and in PARTIALLY_FILLED
  the filled quantity is strictly between zero and the quantity.\<close>

theorem feed_events_quantity_invariant:
  assumes "0 < dval (es_order_quantity st)" and "dval (es_filled_quantity st) = 0"
    and "lc_state (es_lifecycle st) \<notin> {PARTIALLY_FILLED, FILLED}"
    and "\<forall>ev\<in>set evs. mk_broker_order_event ev = Inr ev"
  shows "let state = lc_state (es_lifecycle (feed_events st evs)); filled = dval (es_filled_quantity (feed_events st evs));
             quantity = dval (es_order_quantity st)
         in 0 \<le> filled \<and> filled \<le> quantity \<and> (state = FILLED \<longleftrightarrow> filled = quantity) \<and>
            (state = PARTIALLY_FILLED \<longrightarrow> 0 < filled \<and> filled < quantity)"
proof -
  have "fill_inv (feed_events st evs)"
    by (rule feed_events_fill_inv) (use assms in \<open>simp_all add: fill_inv_def exec_inv_def\<close>)
  then show ?thesis by (auto simp: fill_inv_def exec_inv_def feed_events_order_quantity Let_def)
qed

definition sample_order :: order_execution_state where
  "sample_order = \<lparr>es_lifecycle = \<lparr>lc_order_id = 7, lc_state = BROKER_ACKNOWLEDGED, lc_transitions = []\<rparr>,
     es_order_quantity = Dec 10 0, es_filled_quantity = Dec 0 0, es_broker_order_id = None\<rparr>"

definition sample_fill :: "order_event_type \<Rightarrow> int \<Rightarrow> broker_order_event" where
  "sample_fill k n = \<lparr>be_order_id = 7, be_event_type = k, be_occurred_at = utc 5, be_reason = ''fill'',
     be_broker_order_id = None, be_fill_quantity = Dec n 0, be_metadata = Map.empty\<rparr>"

theorem feed_events_quantity_invariant_witness:
  "let st = feed_events sample_order [sample_fill EV_PARTIAL_FILL 4, sample_fill EV_FILL 7, sample_fill EV_FILL 6] in
   0 \<le> dval (es_filled_quantity st) \<and> dval (es_filled_quantity st) \<le> 10 \<and>
   (lc_state (es_lifecycle st) = FILLED \<longleftrightarrow> dval (es_filled_quantity st) = 10)"
proof -
  have "\<forall>ev\<in>set [sample_fill EV_PARTIAL_FILL 4, sample_fill EV_FILL 7, sample_fill EV_FILL 6]. mk_broker_order_event ev = Inr ev"
    by (simp add: mk_broker_order_event_def sample_fill_def blank_Cons is_space_def decimal_order dval_def fill_event_def zero_decimal_def)
  then show ?thesis
    using feed_events_quantity_invariant [of sample_order
        "[sample_fill EV_PARTIAL_FILL 4, sample_fill EV_FILL 7, sample_fill EV_FILL 6]"]
    by (simp add: sample_order_def dval_def Let_def)
qed

text \<open>On whole-share quantities the recorded fill is the exact sum of the accepted fills.\<close>

lemma whole_sum_bound:
  assumes "dval x = of_int a" "dval y = of_int b" "dval (x + y) \<le> of_int n" "n < prec_limit"
    "0 \<le> a" "0 \<le> b"
  shows "dval (x + y) = of_int (a + b)"
proof -
  have "a + b \<le> n"
  proof (rule ccontr)
    assume "\<not> a + b \<le> n"
    then have "(of_int (n + 1) :: rat) \<le> dval x + dval y"
      unfolding assms(1,2) of_int_add [symmetric] of_int_le_iff by simp
    obtain z where z: "x + y = dfix z" "dval z = dval x + dval y" using plus_decimal_fix by blast
    have "rep28 (of_int (n + 1))"
    proof (cases "n + 1 < prec_limit")
      case True
      moreover have "0 \<le> dval (x + y)" by (rule decimal_plus_nonneg) (simp_all add: assms)
      then have "0 \<le> n" using assms(3) by (metis dual_order.trans of_int_0_le_iff)
      ultimately show ?thesis by (intro rep28_int) simp
    next
      case False
      then have "n + 1 = 1 * 10 ^ 28" using assms(4) by simp
      then have "(of_int (n + 1) :: rat) = of_int 1 * 10 powi 28" by (simp add: power_int_def)
      then show ?thesis using rep28_grid [of 1 28] by simp
    qed
    then have "of_int (n + 1) \<le> dval (x + y)"
      unfolding z(1) by (rule dfix_ge_rep) (use \<open>of_int (n + 1) \<le> dval x + dval y\<close> z(2) in simp)
    then have "(of_int (n + 1) :: rat) \<le> of_int n" using assms(3) by (rule order_trans)
    then show False unfolding of_int_le_iff by simp
  qed
  then have "rep28 (of_int (a + b))" using assms by (intro rep28_int) simp
  then show ?thesis using dval_plus [of x y] assms by simp
qed

definition fill_total :: "broker_order_event list \<Rightarrow> rat" where
  "fill_total evs = (\<Sum>ev\<leftarrow>evs. if fill_event (be_event_type ev) then dval (be_fill_quantity ev) else 0)"

lemma feed_events_total_step:
  assumes "exec_inv st" "dval (es_filled_quantity st) = of_int a" "dval (es_order_quantity st) = of_int n"
    "n < prec_limit" "\<forall>ev\<in>set evs. \<exists>b\<ge>0. dval (be_fill_quantity ev) = of_int b"
  shows "dval (es_filled_quantity (feed_events st evs)) = of_int a + fill_total (accepted_events st evs)"
  using assms
proof (induction evs arbitrary: st a)
  case Nil
  then show ?case by (simp add: fill_total_def)
next
  case (Cons ev evs)
  show ?case
  proof (cases "apply_event st ev")
    case (Inl e)
    then show ?thesis using Cons by simp
  next
    case (Inr st')
    obtain b where b: "b \<ge> 0" "dval (be_fill_quantity ev) = of_int b" using Cons.prems(5) by auto
    have inv: "exec_inv st'" using Inr by (rule apply_event_inv)
    have oq: "dval (es_order_quantity st') = of_int n"
      using apply_event_order_quantity [OF Inr] Cons.prems(3) by simp
    have fq: "dval (es_filled_quantity st') =
        of_int (a + (if fill_event (be_event_type ev) then b else 0))"
    proof (cases "fill_event (be_event_type ev)")
      case True
      have "dval (es_filled_quantity st + be_fill_quantity ev) = of_int (a + b)"
        by (rule whole_sum_bound [where n = n])
           (use Cons.prems b inv oq apply_event_filled [OF Inr] True in \<open>auto simp: exec_inv_def\<close>)
      then show ?thesis using apply_event_filled [OF Inr] True by simp
    next
      case False
      then show ?thesis using apply_event_filled [OF Inr] Cons.prems(2) by simp
    qed
    have "dval (es_filled_quantity (feed_events st' evs)) =
        of_int (a + (if fill_event (be_event_type ev) then b else 0)) + fill_total (accepted_events st' evs)"
      by (rule Cons.IH [OF inv fq oq Cons.prems(4)]) (use Cons.prems(5) in simp)
    then show ?thesis using Inr b by (simp add: fill_total_def)
  qed
qed

text \<open>C5.  Conservation of fills: for an order of a positive whole number of shares below 10^28 with nothing filled yet and not in
  FILLED, and events whose quantities are whole numbers of shares, the filled quantity after any event sequence is exactly the sum of
  the quantities of the accepted partial and complete fills; no rounding of the decimal context intervenes.\<close>

theorem filled_quantity_is_sum_of_fills:
  assumes "dval (es_order_quantity st) = of_int n" "0 < n" "n < prec_limit"
    and "dval (es_filled_quantity st) = 0" "lc_state (es_lifecycle st) \<noteq> FILLED"
    and "\<forall>ev\<in>set evs. \<exists>b\<ge>0. dval (be_fill_quantity ev) = of_int b"
  shows "dval (es_filled_quantity (feed_events st evs)) = fill_total (accepted_events st evs)"
proof -
  have "exec_inv st" using assms by (simp add: exec_inv_def)
  then show ?thesis using feed_events_total_step [of st 0 n evs] assms by simp
qed

theorem filled_quantity_is_sum_of_fills_witness:
  "dval (es_filled_quantity (feed_events sample_order
      [sample_fill EV_PARTIAL_FILL 4, sample_fill EV_FILL 7, sample_fill EV_FILL 6])) =
   fill_total (accepted_events sample_order
      [sample_fill EV_PARTIAL_FILL 4, sample_fill EV_FILL 7, sample_fill EV_FILL 6])"
  by (rule filled_quantity_is_sum_of_fills [where n = 10])
     (auto simp: sample_order_def sample_fill_def dval_def intro: exI [of _ 4] exI [of _ 7] exI [of _ 6])

end
