(* ===== verification/Order_Store.thy ===== *)
theory Order_Store
  imports Order_Lifecycle
begin

text \<open>
  The tables \<^verbatim>\<open>orders\<close>, \<^verbatim>\<open>order_events\<close> and \<^verbatim>\<open>execution_attempts\<close>
  (\<^verbatim>\<open>packages/shared/alpha_algo_shared/db/models\<close>) with their unique constraints, and the two
  repositories over them: the one of the order management system
  (\<^verbatim>\<open>services/oms/alpha_algo_oms/repository.py\<close>) and the one of the execution engine
  (\<^verbatim>\<open>services/execution_engine/alpha_algo_execution_engine/repository.py\<close>).  A table is a list of
  rows, a committed transaction is one update of the store, and a rolled-back one leaves the
  store as it was.  References to tables outside this store are the predicate \<open>os_refs_ok\<close>.
\<close>

record order_row =
  or_id :: uuid
  or_orchestration_id :: "string option"
  or_order_identity_key :: "string option"
  or_correlation_id :: "string option"
  or_strategy_id :: "uuid option"
  or_strategy_version :: "string option"
  or_strategy_run_id :: "uuid option"
  or_risk_approval_id :: "string option"
  or_approval_expires_at :: "datetime option"
  or_signal_id :: "uuid option"
  or_instrument_id :: uuid
  or_broker_account_id :: uuid
  or_trading_mode :: string
  or_client_order_id :: string
  or_broker_order_id :: "string option"
  or_side :: string
  or_order_type :: string
  or_quantity :: int
  or_limit_price :: "decimal option"
  or_status :: order_state
  or_filled_quantity :: "int option"
  or_acknowledged_at :: "datetime option"
  or_filled_at :: "datetime option"
  or_rejected_at :: "datetime option"
  or_canceled_at :: "datetime option"

record order_event_row =
  oe_order_id :: uuid
  oe_source_event_id :: "string option"
  oe_event_type :: string
  oe_previous_status :: "string option"
  oe_new_status :: order_state
  oe_broker_order_id :: "string option"
  oe_event_timestamp :: datetime
  oe_reason :: string
  oe_content_hash :: "string option"

datatype submission_state =
    SS_SUBMISSION_REQUESTED | SS_SUBMISSION_IN_PROGRESS | SS_SUBMITTED | SS_ACKNOWLEDGED
  | SS_TIMEOUT | SS_REJECTED | SS_UNKNOWN | SS_CANCELLED

record execution_attempt =
  at_attempt_id :: string
  at_execution_id :: string
  at_order_id :: uuid
  at_attempt_number :: nat
  at_state :: submission_state
  at_broker_order_id :: "string option"
  at_submitted_at :: "datetime option"
  at_responded_at :: "datetime option"
  at_reason :: string

record order_store =
  os_orders :: "order_row list"
  os_events :: "order_event_row list"
  os_attempts :: "execution_attempt list"
  os_refs_ok :: "order_row \<Rightarrow> bool"

datatype db_error = IntegrityError | MultipleResultsFound | OrderKeyError uuid | DbValueError exec_error

section \<open>Lookups\<close>

definition find_by_id :: "order_store \<Rightarrow> uuid \<Rightarrow> order_row option" where
  "find_by_id s oid = first_row (\<lambda>row. or_id row = oid) (os_orders s)"

definition find_by_orchestration_id :: "order_store \<Rightarrow> string \<Rightarrow> order_row option" where
  "find_by_orchestration_id s orch = first_row (\<lambda>row. or_orchestration_id row = Some orch) (os_orders s)"

definition find_by_client_order_id :: "order_store \<Rightarrow> string \<Rightarrow> order_row option" where
  "find_by_client_order_id s c = first_row (\<lambda>row. or_client_order_id row = c) (os_orders s)"

definition list_orders :: "order_store \<Rightarrow> nat \<Rightarrow> order_row list" where
  "list_orders s limit = take limit (os_orders s)"

definition get_events :: "order_store \<Rightarrow> uuid \<Rightarrow> order_event_row list" where
  "get_events s oid =
     sort_key (\<lambda>e. instant (oe_event_timestamp e)) (filter (\<lambda>e. oe_order_id e = oid) (os_events s))"

section \<open>Unique constraints\<close>

definition clash :: "'k option \<Rightarrow> 'k option \<Rightarrow> bool" where
  "clash a b \<longleftrightarrow> a \<noteq> None \<and> a = b"

definition order_conflicts :: "order_row \<Rightarrow> order_row \<Rightarrow> bool" where
  "order_conflicts row p \<longleftrightarrow>
     or_id row = or_id p \<or>
     clash (or_orchestration_id row) (or_orchestration_id p) \<or>
     clash (or_order_identity_key row) (or_order_identity_key p) \<or>
     clash (or_risk_approval_id row) (or_risk_approval_id p) \<or>
     or_client_order_id row = or_client_order_id p \<or>
     clash (or_broker_order_id row) (or_broker_order_id p)"

definition event_id_taken :: "order_store \<Rightarrow> string option \<Rightarrow> bool" where
  "event_id_taken s sid \<longleftrightarrow> (\<exists>e\<in>set (os_events s). clash (oe_source_event_id e) sid)"

section \<open>The OMS repository\<close>

datatype create_outcome = OUTCOME_CREATED | OUTCOME_DUPLICATE

text \<open>\<^verbatim>\<open>OrderRepository.create_order\<close>: the order and its first event in one transaction; a unique
  constraint violation is rolled back and resolved by re-reading the orchestration id.\<close>

definition create_order_row ::
  "order_store \<Rightarrow> order_row \<Rightarrow> order_event_row \<Rightarrow> (create_outcome \<times> uuid option) \<times> order_store" where
  "create_order_row s row ev =
     (let existing = Option.bind (or_orchestration_id row) (find_by_orchestration_id s) in
      case existing of
        Some e \<Rightarrow> ((OUTCOME_DUPLICATE, Some (or_id e)), s)
      | None \<Rightarrow>
          if (\<exists>p\<in>set (os_orders s). order_conflicts row p) \<or> event_id_taken s (oe_source_event_id ev)
             \<or> \<not> os_refs_ok s row
          then ((OUTCOME_DUPLICATE, None), s)
          else ((OUTCOME_CREATED, Some (or_id row)),
                s\<lparr>os_orders := os_orders s @ [row],
                  os_events := os_events s @ [ev\<lparr>oe_order_id := or_id row\<rparr>]\<rparr>))"

definition set_order :: "order_store \<Rightarrow> uuid \<Rightarrow> (order_row \<Rightarrow> order_row) \<Rightarrow> order_store" where
  "set_order s oid f = s\<lparr>os_orders := update_rows (\<lambda>row. or_id row = oid) f (os_orders s)\<rparr>"

definition append_event ::
  "order_store \<Rightarrow> uuid \<Rightarrow> order_event_row \<Rightarrow> order_state \<Rightarrow> (db_error, order_store) result" where
  "append_event s oid ev new_status =
     (case find_by_id s oid of
        None \<Rightarrow> Inl (OrderKeyError oid)
      | Some row \<Rightarrow>
          if event_id_taken s (oe_source_event_id ev) then Inl IntegrityError
          else let s' = set_order s oid (\<lambda>r. r\<lparr>or_status := new_status\<rparr>) in
               Inr (s'\<lparr>os_events := os_events s' @ [ev\<lparr>oe_order_id := oid\<rparr>]\<rparr>))"

section \<open>The execution repository\<close>

definition compute_attempt_id :: "string \<Rightarrow> nat \<Rightarrow> string" where
  "compute_attempt_id execution_id attempt_number = execution_id @ ''-a'' @ nat_str attempt_number"

text \<open>\<^verbatim>\<open>attempt_id.rsplit("-a", 1)[0]\<close>, searched from the right end.\<close>

fun rsplit_rev :: "string \<Rightarrow> string option" where
  "rsplit_rev (c # d # cs) = (if c = CHR ''a'' \<and> d = CHR ''-'' then Some cs else rsplit_rev (d # cs))"
| "rsplit_rev _ = None"

definition execution_id_from_attempt_id :: "string \<Rightarrow> string" where
  "execution_id_from_attempt_id a = (case rsplit_rev (rev a) of None \<Rightarrow> a | Some cs \<Rightarrow> rev cs)"

definition find_attempt :: "order_store \<Rightarrow> string \<Rightarrow> nat \<Rightarrow> execution_attempt option" where
  "find_attempt s eid n =
     first_row (\<lambda>a. at_execution_id a = eid \<and> at_attempt_number a = n) (os_attempts s)"

definition save_attempt :: "order_store \<Rightarrow> execution_attempt \<Rightarrow> (db_error, order_store) result" where
  "save_attempt s a =
     (if find_attempt s (at_execution_id a) (at_attempt_number a) \<noteq> None
         \<or> find_by_id s (at_order_id a) = None
      then Inl IntegrityError
      else Inr (s\<lparr>os_attempts := os_attempts s @ [a]\<rparr>))"

text \<open>\<^verbatim>\<open>update_attempt\<close> selects by the execution id recovered from the attempt id, and reads the
  result with \<^verbatim>\<open>scalar_one_or_none\<close>, which raises when more than one row matches.\<close>

definition update_attempt ::
  "order_store \<Rightarrow> string \<Rightarrow> submission_state \<Rightarrow> string option \<Rightarrow> datetime option \<Rightarrow> string option
   \<Rightarrow> (db_error, order_store) result" where
  "update_attempt s attempt_id st bid responded reason =
     (let sel = (\<lambda>a. at_execution_id a = execution_id_from_attempt_id attempt_id) in
      case filter sel (os_attempts s) of
        [] \<Rightarrow> Inr s
      | [a] \<Rightarrow> Inr (s\<lparr>os_attempts := update_rows sel (\<lambda>r. r\<lparr>
            at_state := st,
            at_broker_order_id := (if bid \<noteq> None then bid else at_broker_order_id r),
            at_responded_at := (if responded \<noteq> None then responded else at_responded_at r),
            at_reason := (case reason of None \<Rightarrow> at_reason r | Some x \<Rightarrow> x)\<rparr>) (os_attempts s)\<rparr>)
      | _ \<Rightarrow> Inl MultipleResultsFound)"

definition event_row :: "order_store \<Rightarrow> string \<Rightarrow> order_event_row option" where
  "event_row s ident = first_row (\<lambda>e. oe_source_event_id e = Some ident) (os_events s)"

definition has_event :: "order_store \<Rightarrow> string \<Rightarrow> bool" where
  "has_event s ident \<longleftrightarrow> event_row s ident \<noteq> None"

definition get_event_hash :: "order_store \<Rightarrow> string \<Rightarrow> string option" where
  "get_event_hash s ident = Option.bind (event_row s ident) oe_content_hash"

definition apply_event_timestamp :: "broker_order_event \<Rightarrow> order_row \<Rightarrow> order_row" where
  "apply_event_timestamp ev row =
     (case be_event_type ev of
        EV_BROKER_ACKNOWLEDGED \<Rightarrow> row\<lparr>or_acknowledged_at := Some (be_occurred_at ev)\<rparr>
      | EV_FILL \<Rightarrow> row\<lparr>or_filled_at := Some (be_occurred_at ev)\<rparr>
      | EV_REJECTED \<Rightarrow> row\<lparr>or_rejected_at := Some (be_occurred_at ev)\<rparr>
      | EV_CANCELLED \<Rightarrow> row\<lparr>or_canceled_at := Some (be_occurred_at ev)\<rparr>
      | _ \<Rightarrow> row)"

definition order_after_event :: "broker_order_event \<Rightarrow> order_execution_state \<Rightarrow> order_row \<Rightarrow> order_row" where
  "order_after_event ev st row =
     apply_event_timestamp ev
       (row\<lparr>or_status := lc_state (es_lifecycle st),
          or_filled_quantity := Some (dec_int (es_filled_quantity st)),
          or_broker_order_id := (if es_broker_order_id st \<noteq> None then es_broker_order_id st
                                 else or_broker_order_id row)\<rparr>)"

definition save_event ::
  "order_store \<Rightarrow> uuid \<Rightarrow> broker_order_event \<Rightarrow> order_execution_state \<Rightarrow> string \<Rightarrow> string
   \<Rightarrow> (db_error, order_store) result" where
  "save_event s oid ev st ident content_hash =
     (case find_by_id s oid of
        None \<Rightarrow> Inl (OrderKeyError oid)
      | Some row \<Rightarrow>
          let row' = order_after_event ev st row in
          if (\<exists>p\<in>set (os_orders s). or_id p \<noteq> oid \<and> clash (or_broker_order_id row') (or_broker_order_id p))
             \<or> event_id_taken s (Some ident)
          then Inl IntegrityError
          else let s' = set_order s oid (order_after_event ev st) in
               Inr (s'\<lparr>os_events := os_events s' @
                 [\<lparr>oe_order_id = oid, oe_source_event_id = Some ident,
                   oe_event_type = event_type_value (be_event_type ev),
                   oe_previous_status = Some (event_type_value (be_event_type ev)),
                   oe_new_status = lc_state (es_lifecycle st),
                   oe_broker_order_id = be_broker_order_id ev,
                   oe_event_timestamp = be_occurred_at ev, oe_reason = be_reason ev,
                   oe_content_hash = Some content_hash\<rparr>]\<rparr>))"

definition load_execution_state ::
  "order_store \<Rightarrow> uuid \<Rightarrow> (db_error, order_execution_state option) result" where
  "load_execution_state s oid =
     (case find_by_id s oid of
        None \<Rightarrow> Inr None
      | Some row \<Rightarrow>
          (case mk_execution_state
                  \<lparr>lc_order_id = or_id row, lc_state = or_status row, lc_transitions = []\<rparr>
                  (dec_of_int (or_quantity row))
                  (dec_of_int (case or_filled_quantity row of None \<Rightarrow> 0 | Some q \<Rightarrow> q))
                  (or_broker_order_id row) of
             Inl e \<Rightarrow> Inl (DbValueError e)
           | Inr st \<Rightarrow> Inr (Some st)))"

section \<open>Lemmas\<close>

lemma rsplit_rev_digits:
  "\<forall>c\<in>set ds. is_digit c \<Longrightarrow> rsplit_rev (ds @ CHR ''a'' # CHR ''-'' # cs) = Some cs"
proof (induction ds)
  case Nil
  then show ?case by simp
next
  case (Cons c ds)
  have c: "c \<noteq> CHR ''a''" using Cons.prems by (auto simp: is_digit_def)
  obtain d ds' where "ds @ CHR ''a'' # CHR ''-'' # cs = d # ds'" by (cases ds) auto
  then show ?case using c Cons by simp
qed

text \<open>C8.  The execution id is recovered from every attempt id built from it, whatever characters the
  execution id has (also when it contains the separator itself).\<close>

theorem attempt_id_roundtrip:
  "execution_id_from_attempt_id (compute_attempt_id eid n) = eid"
proof -
  have "rev (compute_attempt_id eid n) = rev (nat_str n) @ CHR ''a'' # CHR ''-'' # rev eid"
    by (simp add: compute_attempt_id_def)
  moreover have "\<forall>c\<in>set (rev (nat_str n)). is_digit c" using nat_str_digits by simp
  ultimately show ?thesis
    by (simp add: execution_id_from_attempt_id_def rsplit_rev_digits)
qed

lemma find_by_id_set_order:
  assumes "\<And>r. or_id (f r) = or_id r"
  shows "find_by_id (set_order s oid f) p =
     (if p = oid then map_option f (find_by_id s oid) else find_by_id s p)"
proof (cases "p = oid")
  case True
  then show ?thesis using assms by (simp add: find_by_id_def set_order_def first_row_update_rows)
next
  case False
  have "first_row (\<lambda>row. or_id row = p) (update_rows (\<lambda>row. or_id row = oid) f (os_orders s)) =
      first_row (\<lambda>row. or_id row = p) (os_orders s)"
    by (rule first_row_update_rows_other) (use assms False in auto)
  then show ?thesis using False by (simp add: find_by_id_def set_order_def)
qed

lemma or_id_order_after_event [simp]: "or_id (order_after_event ev st row) = or_id row"
  by (simp add: order_after_event_def apply_event_timestamp_def split: order_event_type.split)

lemma or_status_order_after_event [simp]:
  "or_status (order_after_event ev st row) = lc_state (es_lifecycle st)"
  by (simp add: order_after_event_def apply_event_timestamp_def split: order_event_type.split)

lemma or_filled_order_after_event [simp]:
  "or_filled_quantity (order_after_event ev st row) = Some (dec_int (es_filled_quantity st))"
  by (simp add: order_after_event_def apply_event_timestamp_def split: order_event_type.split)

lemma set_order_simps [simp]:
  "os_events (set_order s oid f) = os_events s" "os_attempts (set_order s oid f) = os_attempts s"
  "os_refs_ok (set_order s oid f) = os_refs_ok s"
  by (simp_all add: set_order_def)

lemma find_by_id_events_update [simp]: "find_by_id (s\<lparr>os_events := es\<rparr>) oid = find_by_id s oid"
  and find_by_id_attempts_update [simp]: "find_by_id (s\<lparr>os_attempts := as\<rparr>) oid = find_by_id s oid"
  by (simp_all add: find_by_id_def)

lemma save_event_Inr:
  assumes "save_event s oid ev st ident h = Inr s'"
  shows "event_row s' ident \<noteq> None" "get_event_hash s' ident = Some h"
    "find_by_id s' oid = map_option (order_after_event ev st) (find_by_id s oid)"
    "os_attempts s' = os_attempts s"
proof -
  from assms have fresh: "first_row (\<lambda>e. oe_source_event_id e = Some ident) (os_events s) = None"
    by (auto simp: save_event_def Let_def event_id_taken_def clash_def first_row_None_iff
        split: option.splits if_splits)
  from assms show "event_row s' ident \<noteq> None" "get_event_hash s' ident = Some h"
    using fresh
    by (auto simp: save_event_def Let_def event_row_def get_event_hash_def first_row_append
        split: option.splits if_splits)
  from assms show "find_by_id s' oid = map_option (order_after_event ev st) (find_by_id s oid)"
    "os_attempts s' = os_attempts s"
    by (auto simp: save_event_def Let_def find_by_id_set_order split: option.splits if_splits)
qed

end
