(* ===== verification/Order_Log.thy ===== *)
theory Order_Log
  imports Order_Store
begin

text \<open>
  The invariant that ties the two tables \<^verbatim>\<open>orders\<close> and \<^verbatim>\<open>order_events\<close> together, and the proof that
  every repository operation keeps it: the event log of an order, read in the order of its
  insertions, is a run of the order state machine from INTENT_CREATED to the status of the order
  row.  The OMS and the execution engine write the two tables independently; both keep it.
\<close>

definition order_log :: "order_store \<Rightarrow> uuid \<Rightarrow> order_state list" where
  "order_log s oid = map oe_new_status (filter (\<lambda>e. oe_order_id e = oid) (os_events s))"

definition log_run :: "order_state list \<Rightarrow> order_state \<Rightarrow> bool" where
  "log_run hist st \<longleftrightarrow>
     hist \<noteq> [] \<and> hd hist = INTENT_CREATED \<and> run_ok allowed_transitions INTENT_CREATED (tl hist) \<and> last hist = st"

definition log_ok :: "order_store \<Rightarrow> bool" where
  "log_ok s \<longleftrightarrow>
     (\<forall>e\<in>set (os_events s). find_by_id s (oe_order_id e) \<noteq> None) \<and>
     (\<forall>oid row. find_by_id s oid = Some row \<longrightarrow> log_run (order_log s oid) (or_status row))"

lemma log_run_single [simp]: "log_run [INTENT_CREATED] INTENT_CREATED"
  by (simp add: log_run_def)

lemma log_run_snoc:
  assumes "log_run hist st" "new \<in> set (allowed_transitions st)"
  shows "log_run (hist @ [new]) new"
proof -
  obtain ts where "hist = INTENT_CREATED # ts" using assms(1) by (cases hist) (auto simp: log_run_def)
  with assms show ?thesis by (auto simp: log_run_def run_ok_append)
qed

lemma order_log_snoc:
  "os_events s' = os_events s @ [e] \<Longrightarrow>
   order_log s' oid = order_log s oid @ (if oe_order_id e = oid then [oe_new_status e] else [])"
  by (simp add: order_log_def)

lemma log_ok_step:
  assumes ok: "log_ok s" and row: "find_by_id s oid = Some row"
    and new: "new \<in> set (allowed_transitions (or_status row))"
    and orders: "\<And>p. find_by_id s' p = (if p = oid then Some row' else find_by_id s p)"
    and row': "or_status row' = new"
    and events: "os_events s' = os_events s @ [e]" "oe_order_id e = oid" "oe_new_status e = new"
  shows "log_ok s'"
proof -
  have "log_run (order_log s oid @ [new]) new"
    using ok row new by (intro log_run_snoc [of _ "or_status row"]) (auto simp: log_ok_def)
  then show ?thesis using ok events row'
    by (auto simp: log_ok_def orders order_log_snoc [OF events(1)])
qed

lemma log_ok_create:
  assumes ok: "log_ok s" and new: "or_status row = INTENT_CREATED" "oe_new_status ev = INTENT_CREATED"
  shows "log_ok (snd (create_order_row s row ev))"
proof (cases "snd (create_order_row s row ev) = s")
  case True
  then show ?thesis using ok by simp
next
  case False
  let ?s' = "snd (create_order_row s row ev)"
  from False have none: "find_by_id s (or_id row) = None"
    and s': "?s' = s\<lparr>os_orders := os_orders s @ [row], os_events := os_events s @ [ev\<lparr>oe_order_id := or_id row\<rparr>]\<rparr>"
    by (auto simp: create_order_row_def Let_def order_conflicts_def find_by_id_def first_row_None_iff
        split: option.splits if_splits)
  have orders: "find_by_id ?s' p = (if p = or_id row then Some row else find_by_id s p)" for p
    using none by (auto simp: s' find_by_id_def first_row_append split: option.splits)
  have "order_log s (or_id row) = []"
    using ok none by (auto simp: order_log_def log_ok_def filter_empty_conv)
  moreover have log: "order_log ?s' p = order_log s p @ (if p = or_id row then [INTENT_CREATED] else [])" for p
    using new(2) by (auto simp: order_log_def s')
  moreover have "oe_order_id e = or_id row \<or> find_by_id s (oe_order_id e) \<noteq> None" if "e \<in> set (os_events ?s')" for e
    using that ok by (auto simp: s' log_ok_def)
  ultimately show ?thesis using ok new(1) by (fastforce simp: log_ok_def orders)
qed

lemma log_ok_append:
  assumes ok: "log_ok s" and res: "append_event s oid ev new = Inr s'" and ev: "oe_new_status ev = new"
    and row: "find_by_id s oid = Some row" "new \<in> set (allowed_transitions (or_status row))"
  shows "log_ok s'"
proof -
  have s': "s' = (set_order s oid (\<lambda>r. r\<lparr>or_status := new\<rparr>))\<lparr>os_events := os_events s @ [ev\<lparr>oe_order_id := oid\<rparr>]\<rparr>"
    using res row(1) by (auto simp: append_event_def Let_def split: if_splits)
  show ?thesis
    by (rule log_ok_step [OF ok row, where row' = "row\<lparr>or_status := new\<rparr>" and e = "ev\<lparr>oe_order_id := oid\<rparr>"])
       (simp_all add: s' find_by_id_set_order row ev)
qed

lemma log_ok_save_event:
  assumes ok: "log_ok s" and res: "save_event s oid ev st ident h = Inr s'"
    and row: "find_by_id s oid = Some row" "lc_state (es_lifecycle st) \<in> set (allowed_transitions (or_status row))"
  shows "log_ok s'"
proof -
  obtain e where ev: "os_events s' = os_events s @ [e]" "oe_order_id e = oid" "oe_new_status e = lc_state (es_lifecycle st)"
    and s': "find_by_id s' p = find_by_id (set_order s oid (order_after_event ev st)) p" for p
    using res row(1) by (auto simp: save_event_def Let_def split: if_splits)
  show ?thesis
    by (rule log_ok_step [OF ok row, where row' = "order_after_event ev st row" and e = e])
       (simp_all add: s' ev find_by_id_set_order row)
qed

lemma log_ok_attempts [simp]: "log_ok (s\<lparr>os_attempts := as\<rparr>) = log_ok s"
  by (simp add: log_ok_def order_log_def)

lemma log_ok_save_attempt: "save_attempt s a = Inr s' \<Longrightarrow> log_ok s' = log_ok s"
  by (auto simp: save_attempt_def split: if_splits)

lemma log_ok_update_attempt: "update_attempt s a st b t r = Inr s' \<Longrightarrow> log_ok s' = log_ok s"
  by (auto simp: update_attempt_def Let_def split: list.splits)

lemma apply_event_allowed:
  assumes "apply_event st ev = Inr st'"
  shows "lc_state (es_lifecycle st') \<in> set (allowed_transitions (lc_state (es_lifecycle st)))"
  using assms
  by (auto simp: apply_event_def apply_partial_fill_def apply_complete_fill_def with_transition_def
      transition_to_def rbind_eq_Inr mk_transition_def mk_execution_state_def Let_def
      split: order_event_type.splits if_splits)

lemma load_execution_state_status:
  assumes "load_execution_state s oid = Inr (Some st)"
  obtains row where "find_by_id s oid = Some row" "lc_state (es_lifecycle st) = or_status row"
  using assms by (auto simp: load_execution_state_def mk_execution_state_def
      split: option.splits sum.splits if_splits)

section \<open>Keys of the orders\<close>

text \<open>No repository operation changes the key columns of an existing order: the table of keys only
  grows at the end, and it stays free of duplicates.\<close>

type_synonym order_key = "uuid \<times> string option \<times> string option \<times> string"

definition order_keys :: "order_row \<Rightarrow> order_key" where
  "order_keys row = (or_id row, or_orchestration_id row, or_risk_approval_id row, or_client_order_id row)"

fun keys_apart :: "order_key \<Rightarrow> order_key \<Rightarrow> bool" where
  "keys_apart (i, q, r, c) (i', q', r', c') \<longleftrightarrow> i \<noteq> i' \<and> \<not> clash q q' \<and> \<not> clash r r' \<and> c \<noteq> c'"

definition keys_unique :: "order_store \<Rightarrow> bool" where
  "keys_unique s \<longleftrightarrow> sorted_wrt keys_apart (map order_keys (os_orders s))"

definition store_extends :: "order_store \<Rightarrow> order_store \<Rightarrow> bool" where
  "store_extends s s' \<longleftrightarrow> (\<exists>ks. map order_keys (os_orders s') = map order_keys (os_orders s) @ ks)"

lemma store_extends_refl [simp, intro]: "store_extends s s"
  by (simp add: store_extends_def)

lemma store_extends_trans: "store_extends s s' \<Longrightarrow> store_extends s' s'' \<Longrightarrow> store_extends s s''"
  by (auto simp: store_extends_def)

lemma find_by_id_keys:
  "map_option order_keys (find_by_id s oid) = List.find (\<lambda>k. fst k = oid) (map order_keys (os_orders s))"
proof -
  have "map_option order_keys (List.find (\<lambda>row. or_id row = oid) rows) =
      List.find (\<lambda>k. fst k = oid) (map order_keys rows)" for rows
    by (induction rows) (simp_all add: order_keys_def)
  then show ?thesis by (simp add: find_by_id_def first_row_def)
qed

lemma store_extends_find:
  assumes "store_extends s s'" "find_by_id s oid = Some row"
  obtains row' where "find_by_id s' oid = Some row'" "order_keys row' = order_keys row"
proof -
  have app: "List.find P (xs @ ys) = (case List.find P xs of None \<Rightarrow> List.find P ys | Some x \<Rightarrow> Some x)"
    for P :: "order_key \<Rightarrow> bool" and xs ys by (induction xs) simp_all
  from find_by_id_keys [of s oid] assms(2)
  have "List.find (\<lambda>k. fst k = oid) (map order_keys (os_orders s)) = Some (order_keys row)" by simp
  then have "map_option order_keys (find_by_id s' oid) = Some (order_keys row)"
    using assms(1) by (auto simp: find_by_id_keys store_extends_def app)
  then show thesis using that by auto
qed

lemma same_keys:
  assumes "map order_keys (os_orders s') = map order_keys (os_orders s)"
  shows "store_extends s s'" "keys_unique s' = keys_unique s"
  using assms by (simp_all add: store_extends_def keys_unique_def)

lemma keys_set_order:
  "(\<And>r. order_keys (f r) = order_keys r) \<Longrightarrow>
   map order_keys (os_orders (set_order s oid f)) = map order_keys (os_orders s)"
  by (simp add: set_order_def map_update_rows)

lemma keys_append_event:
  "append_event s oid ev new = Inr s' \<Longrightarrow> map order_keys (os_orders s') = map order_keys (os_orders s)"
  by (auto simp: append_event_def Let_def keys_set_order order_keys_def split: option.splits if_splits)

lemma keys_save_event:
  assumes "save_event s oid ev st ident h = Inr s'"
  shows "map order_keys (os_orders s') = map order_keys (os_orders s)"
proof -
  have "order_keys (order_after_event ev st r) = order_keys r" for r
    by (simp add: order_keys_def order_after_event_def apply_event_timestamp_def split: order_event_type.split)
  then have "map order_keys (os_orders (set_order s oid (order_after_event ev st))) = map order_keys (os_orders s)"
    by (rule keys_set_order)
  then show ?thesis using assms
    by (auto simp: save_event_def Let_def split: option.splits if_splits)
qed

lemma append_event_row:
  assumes "append_event s oid ev new = Inr s'"
  obtains row where "find_by_id s oid = Some row" "find_by_id s' oid = Some (row\<lparr>or_status := new\<rparr>)"
  using assms by (auto simp: append_event_def Let_def find_by_id_set_order split: option.splits if_splits)

lemma create_order_row_cases:
  assumes "create_order_row s row ev = ((oc, i), s')"
  obtains (duplicate) "oc = OUTCOME_DUPLICATE" "s' = s"
  | (created) "oc = OUTCOME_CREATED" "i = Some (or_id row)" "find_by_id s (or_id row) = None"
      "find_by_id s' (or_id row) = Some row"
      "map order_keys (os_orders s') = map order_keys (os_orders s) @ [order_keys row]"
      "keys_unique s \<Longrightarrow> keys_unique s'"
proof -
  have key: "keys_apart (order_keys p) (order_keys row)" if "\<not> order_conflicts row p" for p
    using that by (auto simp: order_conflicts_def order_keys_def clash_def)
  show thesis
  proof (cases oc)
    case OUTCOME_DUPLICATE
    then show ?thesis using assms
      by (intro duplicate) (auto simp: create_order_row_def Let_def split: option.splits if_splits)
  next
    case OUTCOME_CREATED
    then have s': "s' = s\<lparr>os_orders := os_orders s @ [row], os_events := os_events s @ [ev\<lparr>oe_order_id := or_id row\<rparr>]\<rparr>"
      and i: "i = Some (or_id row)" and nc: "\<forall>p\<in>set (os_orders s). \<not> order_conflicts row p"
      using assms by (auto simp: create_order_row_def Let_def split: option.splits if_splits)
    have none: "find_by_id s (or_id row) = None"
      using nc by (auto simp: find_by_id_def first_row_None_iff order_conflicts_def)
    show ?thesis
    proof (rule created [OF OUTCOME_CREATED i none])
      show "find_by_id s' (or_id row) = Some row"
        using none by (simp add: s' find_by_id_def first_row_append)
      show "map order_keys (os_orders s') = map order_keys (os_orders s) @ [order_keys row]"
        by (simp add: s')
      show "keys_unique s'" if "keys_unique s"
        using that nc key by (auto simp: keys_unique_def s' sorted_wrt_append)
    qed
  qed
qed

lemma keys_unique_approval:
  assumes "keys_unique s" "find_by_id s i = Some row" "find_by_id s j = Some row'" "i \<noteq> j"
    and "or_risk_approval_id row = Some a"
  shows "or_risk_approval_id row' \<noteq> Some a"
proof -
  have apart: "k = k' \<or> keys_apart k k' \<or> keys_apart k' k"
    if "sorted_wrt keys_apart ks" "k \<in> set ks" "k' \<in> set ks" for ks k k'
    using that by (induction ks) auto
  have "row \<in> set (os_orders s)" "or_id row = i" "row' \<in> set (os_orders s)" "or_id row' = j"
    using assms(2,3) by (auto simp: find_by_id_def dest: first_row_SomeD)
  then have "keys_apart (order_keys row) (order_keys row') \<or> keys_apart (order_keys row') (order_keys row)"
    using apart [of "map order_keys (os_orders s)" "order_keys row" "order_keys row'"] assms(1,4)
    by (auto simp: keys_unique_def order_keys_def)
  then show ?thesis using assms(5) by (auto simp: order_keys_def clash_def)
qed

section \<open>What any operation may do to the tables\<close>

text \<open>Rows are never deleted, events are only appended, and a row changes only with an event of its order.\<close>

definition rows_kept :: "order_store \<Rightarrow> order_store \<Rightarrow> bool" where
  "rows_kept s s' \<longleftrightarrow> (\<forall>oid row. find_by_id s oid = Some row \<longrightarrow> order_log s' oid = order_log s oid \<longrightarrow> find_by_id s' oid = Some row)"

definition store_grown :: "order_store \<Rightarrow> order_store \<Rightarrow> bool" where
  "store_grown s s' \<longleftrightarrow> store_extends s s' \<and> (\<exists>es. os_events s' = os_events s @ es) \<and> rows_kept s s'"

lemma store_grown_refl [simp, intro]: "store_grown s s"
  by (simp add: store_grown_def rows_kept_def)

lemma order_log_grown: "os_events s' = os_events s @ es \<Longrightarrow> \<exists>ts. order_log s' oid = order_log s oid @ ts"
  by (simp add: order_log_def)

lemma store_grown_trans:
  assumes "store_grown a b" "store_grown b c"
  shows "store_grown a c"
proof -
  obtain es fs where ab: "os_events b = os_events a @ es" and bc: "os_events c = os_events b @ fs" using assms by (auto simp: store_grown_def)
  have "order_log b oid = order_log a oid \<and> order_log c oid = order_log b oid" if eq: "order_log c oid = order_log a oid" for oid
  proof -
    obtain ts us where "order_log b oid = order_log a oid @ ts" "order_log c oid = order_log b oid @ us"
      using order_log_grown [OF ab, of oid] order_log_grown [OF bc, of oid] by blast
    then show ?thesis using eq by simp
  qed
  then have "rows_kept a c" using assms unfolding store_grown_def rows_kept_def by blast
  then show ?thesis using assms store_extends_trans [of a b c] by (auto simp: store_grown_def)
qed

lemma rows_kept_set_order:
  assumes "os_events s' = os_events s @ [e]" "oe_order_id e = oid" "\<And>p. p \<noteq> oid \<Longrightarrow> find_by_id s' p = find_by_id s p"
  shows "rows_kept s s'"
  unfolding rows_kept_def
proof (intro allI impI)
  fix p row assume p: "find_by_id s p = Some row" "order_log s' p = order_log s p"
  then have "p \<noteq> oid" using assms(1,2) by (auto simp: order_log_def)
  then show "find_by_id s' p = Some row" using p assms(3) by simp
qed

definition store_step :: "order_store \<Rightarrow> order_store \<Rightarrow> bool" where
  "store_step s s' \<longleftrightarrow>
     (log_ok s \<longrightarrow> log_ok s') \<and> (keys_unique s \<longrightarrow> keys_unique s') \<and> store_grown s s'"

lemma store_step_refl [simp, intro]: "store_step s s"
  by (simp add: store_step_def)

lemma store_step_trans: "store_step a b \<Longrightarrow> store_step b c \<Longrightarrow> store_step a c"
  unfolding store_step_def using store_grown_trans [of a b c] by auto

lemma store_step_append_event:
  assumes "append_event s oid ev new = Inr s'" "oe_new_status ev = new"
    and "find_by_id s oid = Some row" "new \<in> set (allowed_transitions (or_status row))"
  shows "store_step s s'"
proof -
  have s': "s' = (set_order s oid (\<lambda>r. r\<lparr>or_status := new\<rparr>))\<lparr>os_events := os_events s @ [ev\<lparr>oe_order_id := oid\<rparr>]\<rparr>"
    using assms(1,3) by (auto simp: append_event_def Let_def split: if_splits)
  have "rows_kept s s'"
    by (rule rows_kept_set_order [where e = "ev\<lparr>oe_order_id := oid\<rparr>" and oid = oid]) (simp_all add: s' find_by_id_set_order)
  then show ?thesis using same_keys [OF keys_append_event [OF assms(1)]] log_ok_append [OF _ assms] s'
    by (auto simp: store_step_def store_grown_def)
qed

lemma store_step_save_event:
  assumes "save_event s oid ev st ident h = Inr s'"
    and "find_by_id s oid = Some row" "lc_state (es_lifecycle st) \<in> set (allowed_transitions (or_status row))"
  shows "store_step s s'"
proof -
  obtain e where ev: "os_events s' = os_events s @ [e]" "oe_order_id e = oid"
    and s': "find_by_id s' p = find_by_id (set_order s oid (order_after_event ev st)) p" for p
    using assms(1,2) by (auto simp: save_event_def Let_def split: if_splits)
  have "rows_kept s s'" by (rule rows_kept_set_order [OF ev]) (simp add: s' find_by_id_set_order)
  then show ?thesis using same_keys [OF keys_save_event [OF assms(1)]] log_ok_save_event [OF _ assms] ev
    by (auto simp: store_step_def store_grown_def)
qed

lemma store_step_attempts [simp]: "store_step s (s\<lparr>os_attempts := as\<rparr>)"
  by (simp add: store_step_def store_grown_def store_extends_def keys_unique_def rows_kept_def find_by_id_def)

lemma store_step_save_attempt: "save_attempt s a = Inr s' \<Longrightarrow> store_step s s'"
  by (auto simp: save_attempt_def split: if_splits)

lemma store_step_update_attempt: "update_attempt s a st b t r = Inr s' \<Longrightarrow> store_step s s'"
  by (auto simp: update_attempt_def Let_def split: list.splits)

text \<open>A terminal order is frozen: later steps append nothing to its log and keep its row.\<close>

lemma terminal_order_frozen:
  assumes grown: "store_grown s s'" and ok: "log_ok s" "log_ok s'"
    and row: "find_by_id s oid = Some row" "or_status row \<in> set terminal_order_states"
  shows "order_log s' oid = order_log s oid \<and> find_by_id s' oid = Some row"
proof -
  obtain row' where row': "find_by_id s' oid = Some row'"
    using grown row(1) store_extends_find [of s s' oid row] by (auto simp: store_grown_def)
  have "log_run (order_log s oid) (or_status row)" using ok(1) row(1) by (simp add: log_ok_def)
  then obtain ts where ts: "order_log s oid = INTENT_CREATED # ts" "run_ok allowed_transitions INTENT_CREATED ts"
      "last (INTENT_CREATED # ts) = or_status row"
    by (cases "order_log s oid") (auto simp: log_run_def)
  obtain es where es: "order_log s' oid = order_log s oid @ es"
    using grown by (auto simp: store_grown_def order_log_def)
  have "log_run (order_log s' oid) (or_status row')" using ok(2) row' by (simp add: log_ok_def)
  then have run: "run_ok allowed_transitions INTENT_CREATED (ts @ es)" "last (INTENT_CREATED # ts @ es) = or_status row'"
    by (auto simp: log_run_def es ts(1))
  then have "run_ok allowed_transitions (or_status row) es" using ts(3) by (auto simp: run_ok_append)
  then have "es = []" using order_machine.terminal_run [OF row(2)] by simp
  then show ?thesis using es grown row(1) by (auto simp: store_grown_def rows_kept_def)
qed

end
