(* ===== verification/Execution_Engine.thy ===== *)
theory Execution_Engine
  imports Order_Log
begin

text \<open>
  The execution engine
  (\<^verbatim>\<open>services/execution_engine/alpha_algo_execution_engine/engine.py\<close>, \<^verbatim>\<open>adapter.py\<close>, \<^verbatim>\<open>identity.py\<close>,
  \<^verbatim>\<open>errors.py\<close>, \<^verbatim>\<open>metrics.py\<close>): validation, idempotent submission with bounded retry, timeout
  handling, cancellation and event application.

  The broker adapter is a parameter: its answer to the \<open>n\<close>-th call is an arbitrary function of
  \<open>n\<close> and of the request, and the calls made are logged in the engine state.  The halt
  provider and the clock are sampled once per engine call, and the clock is timezone-aware, as the expiry of a request is.
\<close>

section \<open>Requests, responses, errors\<close>

datatype failure_class =
    VALIDATION_FAILURE | AUTH_FAILURE | TRANSIENT_FAILURE | TIMEOUT_FAILURE | PROVIDER_REJECTION
  | UNKNOWN_EXTERNAL_STATE | INTERNAL_FAILURE

text \<open>What an adapter call can raise: the two classes the engine treats by type, any other
  \<^verbatim>\<open>ExecutionError\<close> with its failure class, or an exception the engine does not catch.\<close>

datatype adapter_exc =
    ExecutionTransientError string
  | ExecutionTimeoutError string
  | OtherExecutionError failure_class string
  | ForeignException string

record execution_request =
  rq_order_id :: uuid
  rq_client_order_id :: string
  rq_execution_id :: string
  rq_correlation_id :: "string option"
  rq_account_id :: uuid
  rq_instrument_id :: uuid
  rq_signal_id :: uuid
  rq_strategy_id :: uuid
  rq_strategy_version :: string
  rq_side :: string
  rq_quantity :: int
  rq_order_type :: string
  rq_limit_price :: "decimal option"
  rq_trading_mode :: string
  rq_risk_approval_id :: string
  rq_approval_expires_at :: datetime
  rq_binding_hash :: string
  rq_orchestration_id :: string

text \<open>\<^verbatim>\<open>ExecutionRequest.__post_init__\<close>\<close>

definition request_wf :: "execution_request \<Rightarrow> bool" where
  "request_wf r \<longleftrightarrow> tz_aware (rq_approval_expires_at r) \<and> 0 < rq_quantity r \<and>
     \<not> blank (rq_client_order_id r) \<and> \<not> blank (rq_execution_id r)"

record execution_response =
  rs_status :: submission_state
  rs_reason :: string
  rs_occurred_at :: datetime
  rs_broker_order_id :: "string option"
  rs_failure_class :: "failure_class option"

definition response_wf :: "execution_response \<Rightarrow> bool" where
  "response_wf r \<longleftrightarrow> tz_aware (rs_occurred_at r)"

record execution_outcome =
  oc_order_id :: uuid
  oc_execution_id :: string
  oc_attempt_id :: string
  oc_submission_state :: submission_state
  oc_order_state :: "order_state option"
  oc_broker_order_id :: "string option"
  oc_reason :: string
  oc_duplicate :: bool

datatype engine_error =
    ExecutionValidationError string
  | EngineDbError db_error
  | EngineOrderError exec_error
  | AdapterRaised string

record execution_metrics =
  em_requests :: nat
  em_submissions :: nat
  em_acknowledgments :: nat
  em_rejects :: nat
  em_timeouts :: nat
  em_retries :: nat
  em_cancellations :: nat
  em_fills :: nat
  em_partial_fills :: nat
  em_duplicate_events :: nat
  em_duplicate_requests :: nat
  em_unknown_states :: nat
  em_failures :: nat
  em_validation_rejections :: nat

record exec_engine =
  en_repo :: "order_store option"
  en_metrics :: execution_metrics
  en_submitted :: "execution_request list"
  en_cancelled :: "uuid list"

record exec_env =
  ev_submit :: "nat \<Rightarrow> execution_request \<Rightarrow> (adapter_exc, execution_response) result"
  ev_cancel :: "nat \<Rightarrow> uuid \<Rightarrow> (adapter_exc, execution_response) result"
  ev_supports_cancellation :: bool
  ev_max_retries :: int
  ev_halt :: bool
  ev_now :: datetime
  ev_digest :: digest
  ev_str :: "pyval \<Rightarrow> string"

abbreviation bump_metrics :: "(execution_metrics \<Rightarrow> execution_metrics) \<Rightarrow> exec_engine \<Rightarrow> exec_engine" where
  "bump_metrics f e \<equiv> e\<lparr>en_metrics := f (en_metrics e)\<rparr>"

abbreviation record_request :: "exec_engine \<Rightarrow> exec_engine" where
  "record_request \<equiv> bump_metrics (\<lambda>m. m\<lparr>em_requests := em_requests m + 1\<rparr>)"
abbreviation record_submission :: "exec_engine \<Rightarrow> exec_engine" where
  "record_submission \<equiv> bump_metrics (\<lambda>m. m\<lparr>em_submissions := em_submissions m + 1\<rparr>)"
abbreviation record_acknowledgment :: "exec_engine \<Rightarrow> exec_engine" where
  "record_acknowledgment \<equiv> bump_metrics (\<lambda>m. m\<lparr>em_acknowledgments := em_acknowledgments m + 1\<rparr>)"
abbreviation record_reject :: "exec_engine \<Rightarrow> exec_engine" where
  "record_reject \<equiv> bump_metrics (\<lambda>m. m\<lparr>em_rejects := em_rejects m + 1\<rparr>)"
abbreviation record_timeout :: "exec_engine \<Rightarrow> exec_engine" where
  "record_timeout \<equiv> bump_metrics (\<lambda>m. m\<lparr>em_timeouts := em_timeouts m + 1\<rparr>)"
abbreviation record_retry :: "exec_engine \<Rightarrow> exec_engine" where
  "record_retry \<equiv> bump_metrics (\<lambda>m. m\<lparr>em_retries := em_retries m + 1\<rparr>)"
abbreviation record_cancellation :: "exec_engine \<Rightarrow> exec_engine" where
  "record_cancellation \<equiv> bump_metrics (\<lambda>m. m\<lparr>em_cancellations := em_cancellations m + 1\<rparr>)"
abbreviation record_fill :: "exec_engine \<Rightarrow> exec_engine" where
  "record_fill \<equiv> bump_metrics (\<lambda>m. m\<lparr>em_fills := em_fills m + 1\<rparr>)"
abbreviation record_partial_fill :: "exec_engine \<Rightarrow> exec_engine" where
  "record_partial_fill \<equiv> bump_metrics (\<lambda>m. m\<lparr>em_partial_fills := em_partial_fills m + 1\<rparr>)"
abbreviation record_duplicate_event :: "exec_engine \<Rightarrow> exec_engine" where
  "record_duplicate_event \<equiv> bump_metrics (\<lambda>m. m\<lparr>em_duplicate_events := em_duplicate_events m + 1\<rparr>)"
abbreviation record_duplicate_request :: "exec_engine \<Rightarrow> exec_engine" where
  "record_duplicate_request \<equiv> bump_metrics (\<lambda>m. m\<lparr>em_duplicate_requests := em_duplicate_requests m + 1\<rparr>)"
abbreviation record_unknown :: "exec_engine \<Rightarrow> exec_engine" where
  "record_unknown \<equiv> bump_metrics (\<lambda>m. m\<lparr>em_unknown_states := em_unknown_states m + 1\<rparr>)"
abbreviation record_failure :: "exec_engine \<Rightarrow> exec_engine" where
  "record_failure \<equiv> bump_metrics (\<lambda>m. m\<lparr>em_failures := em_failures m + 1\<rparr>)"
abbreviation record_validation_rejection :: "exec_engine \<Rightarrow> exec_engine" where
  "record_validation_rejection \<equiv>
     bump_metrics (\<lambda>m. m\<lparr>em_validation_rejections := em_validation_rejections m + 1\<rparr>)"

section \<open>Identity\<close>

definition compute_execution_id :: "digest \<Rightarrow> uuid \<Rightarrow> string option \<Rightarrow> string" where
  "compute_execution_id dig oid key =
     dig [(''order_id'', PUuid oid), (''key'', PStr (case key of None \<Rightarrow> [] | Some k \<Rightarrow> k))]"

text \<open>Truthiness of a metadata value.\<close>

definition truthy :: "pyval \<Rightarrow> bool" where
  "truthy v = (case v of PNone \<Rightarrow> False | PStr s \<Rightarrow> s \<noteq> [] | PInt n \<Rightarrow> n \<noteq> 0
     | PUuid _ \<Rightarrow> True | PTime _ \<Rightarrow> True | PDec d \<Rightarrow> \<not> deq d 0)"

definition source_id :: "metadata \<Rightarrow> pyval option" where
  "source_id m =
     (case m ''source_event_id'' of
        Some v \<Rightarrow> if truthy v then Some v else m ''broker_event_id''
      | None \<Rightarrow> m ''broker_event_id'')"

definition event_fields :: "broker_order_event \<Rightarrow> payload" where
  "event_fields ev =
     [(''order_id'', PUuid (be_order_id ev)),
      (''type'', PStr (event_type_value (be_event_type ev))),
      (''broker_order_id'', opt_str (be_broker_order_id ev)),
      (''fill_quantity'', PDec (be_fill_quantity ev))]"

definition compute_event_identity :: "exec_env \<Rightarrow> broker_order_event \<Rightarrow> string" where
  "compute_event_identity env ev =
     (case source_id (be_metadata ev) of
        Some v \<Rightarrow> if truthy v then ev_str env (PUuid (be_order_id ev)) @ '':'' @ ev_str env v
                  else ev_digest env (event_fields ev)
      | None \<Rightarrow> ev_digest env (event_fields ev))"

definition event_content_hash :: "exec_env \<Rightarrow> broker_order_event \<Rightarrow> string" where
  "event_content_hash env ev =
     ev_digest env [(''type'', PStr (event_type_value (be_event_type ev))),
       (''broker_order_id'', opt_str (be_broker_order_id ev)),
       (''fill_quantity'', PDec (be_fill_quantity ev)),
       (''reason'', PStr (be_reason ev))]"

section \<open>Event application\<close>

definition engine_apply_event ::
  "exec_env \<Rightarrow> exec_engine \<Rightarrow> broker_order_event
   \<Rightarrow> (engine_error, order_execution_state) result \<times> exec_engine" where
  "engine_apply_event env en ev =
     (case en_repo en of
        None \<Rightarrow> (Inl (ExecutionValidationError ''no execution repository configured''), en)
      | Some s \<Rightarrow>
          let ident = compute_event_identity env ev in
          if has_event s ident then
            (if (case get_event_hash s ident of None \<Rightarrow> False | Some h \<Rightarrow> h \<noteq> event_content_hash env ev)
             then (Inl (ExecutionValidationError ''event identity conflict: same identity, different payload''), en)
             else let en' = record_duplicate_event en in
                  (case load_execution_state s (be_order_id ev) of
                     Inl e \<Rightarrow> (Inl (EngineDbError e), en')
                   | Inr None \<Rightarrow> (Inl (ExecutionValidationError ''order not found''), en')
                   | Inr (Some st) \<Rightarrow> (Inr st, en')))
          else
            (case load_execution_state s (be_order_id ev) of
               Inl e \<Rightarrow> (Inl (EngineDbError e), en)
             | Inr None \<Rightarrow> (Inl (ExecutionValidationError ''order not found''), en)
             | Inr (Some st) \<Rightarrow>
                 (case apply_event st ev of
                    Inl e \<Rightarrow> (Inl (EngineOrderError e), en)
                  | Inr st' \<Rightarrow>
                      let en' = (case be_event_type ev of
                                   EV_PARTIAL_FILL \<Rightarrow> record_partial_fill en
                                 | EV_FILL \<Rightarrow> record_fill en
                                 | _ \<Rightarrow> en) in
                      (case save_event s (be_order_id ev) ev st' ident (event_content_hash env ev) of
                         Inl e \<Rightarrow> (Inl (EngineDbError e), en')
                       | Inr s' \<Rightarrow> (Inr st', en'\<lparr>en_repo := Some s'\<rparr>)))))"

text \<open>\<^verbatim>\<open>_apply_order_event\<close> swallows every exception of \<^verbatim>\<open>apply_event\<close>.\<close>

definition apply_order_event :: "exec_env \<Rightarrow> exec_engine \<Rightarrow> broker_order_event \<Rightarrow> exec_engine" where
  "apply_order_event env en ev = snd (engine_apply_event env en ev)"

section \<open>Submission\<close>

definition allowed_modes :: "string list" where
  "allowed_modes = [''BACKTEST'', ''PAPER'']"

definition validate_request ::
  "exec_env \<Rightarrow> execution_request \<Rightarrow> (engine_error, unit) result" where
  "validate_request env r =
     (let mode = upper (rq_trading_mode r) in
      if mode = ''LIVE'' then Inl (ExecutionValidationError ''LIVE trading is disabled (fail-closed)'')
      else if mode \<notin> set allowed_modes then Inl (ExecutionValidationError ''unknown trading mode'')
      else if ev_halt env
        then Inl (ExecutionValidationError ''global trading halt is active; submission refused'')
      else if instant (rq_approval_expires_at r) \<le> instant (ev_now env)
        then Inl (ExecutionValidationError ''risk approval is expired'')
      else if blank (rq_risk_approval_id r)
        then Inl (ExecutionValidationError ''risk approval id is missing'')
      else Inr ())"

definition find_existing :: "exec_engine \<Rightarrow> execution_request \<Rightarrow> execution_attempt option" where
  "find_existing en r = Option.bind (en_repo en) (\<lambda>s. find_attempt s (rq_execution_id r) 0)"

definition new_attempt :: "exec_env \<Rightarrow> execution_request \<Rightarrow> nat \<Rightarrow> execution_attempt" where
  "new_attempt env r n =
     \<lparr>at_attempt_id = compute_attempt_id (rq_execution_id r) n, at_execution_id = rq_execution_id r,
      at_order_id = rq_order_id r, at_attempt_number = n, at_state = SS_SUBMISSION_IN_PROGRESS,
      at_broker_order_id = None, at_submitted_at = Some (ev_now env), at_responded_at = None,
      at_reason = []\<rparr>"

definition persist_attempt :: "exec_engine \<Rightarrow> execution_attempt \<Rightarrow> (db_error, exec_engine) result" where
  "persist_attempt en a =
     (case en_repo en of
        None \<Rightarrow> Inr en
      | Some s \<Rightarrow> rbind (save_attempt s a) (\<lambda>s'. Inr (en\<lparr>en_repo := Some s'\<rparr>)))"

definition existing_outcome :: "execution_attempt \<Rightarrow> execution_request \<Rightarrow> execution_outcome" where
  "existing_outcome a r =
     \<lparr>oc_order_id = rq_order_id r, oc_execution_id = rq_execution_id r,
      oc_attempt_id = at_attempt_id a, oc_submission_state = at_state a, oc_order_state = None,
      oc_broker_order_id = at_broker_order_id a, oc_reason = at_reason a, oc_duplicate = True\<rparr>"

definition finalize ::
  "exec_env \<Rightarrow> exec_engine \<Rightarrow> execution_attempt \<Rightarrow> submission_state \<Rightarrow> string option \<Rightarrow> string
   \<Rightarrow> execution_request \<Rightarrow> order_state option
   \<Rightarrow> (engine_error, execution_outcome) result \<times> exec_engine" where
  "finalize env en a st bid reason r ostate =
     (let out = \<lparr>oc_order_id = rq_order_id r, oc_execution_id = rq_execution_id r,
           oc_attempt_id = at_attempt_id a, oc_submission_state = st, oc_order_state = ostate,
           oc_broker_order_id = bid, oc_reason = reason, oc_duplicate = False\<rparr> in
      case en_repo en of
        None \<Rightarrow> (Inr out, en)
      | Some s \<Rightarrow>
          (case update_attempt s (at_attempt_id a) st bid (Some (ev_now env)) (Some reason) of
             Inl e \<Rightarrow> (Inl (EngineDbError e), en)
           | Inr s' \<Rightarrow> (Inr out, en\<lparr>en_repo := Some s'\<rparr>)))"

text \<open>The broker event an answer gives rise to; its constructor validates, so a blank reason
  raises before the attempt is finalised.\<close>

definition order_event ::
  "execution_request \<Rightarrow> order_event_type \<Rightarrow> datetime \<Rightarrow> string \<Rightarrow> string option
   \<Rightarrow> (exec_error, broker_order_event) result" where
  "order_event r k ts reason bid =
     mk_broker_order_event \<lparr>be_order_id = rq_order_id r, be_event_type = k, be_occurred_at = ts,
       be_reason = reason, be_broker_order_id = bid, be_fill_quantity = 0, be_metadata = Map.empty\<rparr>"

definition answer_with_event ::
  "exec_env \<Rightarrow> exec_engine \<Rightarrow> execution_attempt \<Rightarrow> execution_response \<Rightarrow> execution_request
   \<Rightarrow> order_event_type \<Rightarrow> submission_state \<Rightarrow> order_state
   \<Rightarrow> (engine_error, execution_outcome) result \<times> exec_engine" where
  "answer_with_event env en a rs r k st ostate =
     (case order_event r k (rs_occurred_at rs) (rs_reason rs) (rs_broker_order_id rs) of
        Inl e \<Rightarrow> (Inl (EngineOrderError e), en)
      | Inr ev \<Rightarrow> finalize env (apply_order_event env en ev) a st (rs_broker_order_id rs)
                   (rs_reason rs) r (Some ostate))"

definition process_response ::
  "exec_env \<Rightarrow> exec_engine \<Rightarrow> execution_attempt \<Rightarrow> execution_response \<Rightarrow> execution_request
   \<Rightarrow> (engine_error, execution_outcome) result \<times> exec_engine" where
  "process_response env en a rs r =
     (case rs_status rs of
        SS_ACKNOWLEDGED \<Rightarrow>
          answer_with_event env (record_acknowledgment en) a rs r EV_BROKER_ACKNOWLEDGED
            SS_ACKNOWLEDGED BROKER_ACKNOWLEDGED
      | SS_SUBMITTED \<Rightarrow>
          finalize env en a SS_SUBMITTED (rs_broker_order_id rs) (rs_reason rs) r
            (Some SUBMISSION_REQUESTED)
      | SS_REJECTED \<Rightarrow>
          answer_with_event env (record_reject en) a rs r EV_REJECTED SS_REJECTED REJECTED
      | SS_TIMEOUT \<Rightarrow>
          answer_with_event env (record_unknown en) a rs r EV_UNKNOWN SS_TIMEOUT UNKNOWN
      | SS_UNKNOWN \<Rightarrow>
          answer_with_event env (record_unknown en) a rs r EV_UNKNOWN SS_UNKNOWN UNKNOWN
      | _ \<Rightarrow>
          finalize env (record_failure en) a SS_UNKNOWN (rs_broker_order_id rs) (rs_reason rs) r
            (Some UNKNOWN))"

definition finalize_timeout ::
  "exec_env \<Rightarrow> exec_engine \<Rightarrow> execution_attempt \<Rightarrow> string \<Rightarrow> execution_request
   \<Rightarrow> (engine_error, execution_outcome) result \<times> exec_engine" where
  "finalize_timeout env en a reason r =
     (let en1 = record_unknown en in
      case order_event r EV_UNKNOWN (ev_now env) reason None of
        Inl e \<Rightarrow> (Inl (EngineOrderError e), en1)
      | Inr ev \<Rightarrow> finalize env (apply_order_event env en1 ev) a SS_TIMEOUT None reason r (Some UNKNOWN))"

definition dispatch :: "exec_engine \<Rightarrow> execution_request \<Rightarrow> exec_engine" where
  "dispatch en r = (record_submission en)\<lparr>en_submitted := en_submitted en @ [r]\<rparr>"

function submit_loop ::
  "exec_env \<Rightarrow> exec_engine \<Rightarrow> execution_request \<Rightarrow> nat
   \<Rightarrow> (engine_error, execution_outcome) result \<times> exec_engine" where
  "submit_loop env en r n =
     (let a = new_attempt env r n in
      case persist_attempt en a of
        Inl e \<Rightarrow>
          (case find_existing en r of
             Some x \<Rightarrow> (Inr (existing_outcome x r), record_duplicate_request en)
           | None \<Rightarrow> (Inl (EngineDbError e), en))
      | Inr en1 \<Rightarrow>
          let en2 = dispatch en1 r in
          case ev_submit env (length (en_submitted en1)) r of
            Inr rs \<Rightarrow> process_response env en2 a rs r
          | Inl (ExecutionTransientError msg) \<Rightarrow>
              if int n < ev_max_retries env then submit_loop env (record_retry en2) r (Suc n)
              else finalize env (record_failure en2) a SS_REJECTED None msg r None
          | Inl (ExecutionTimeoutError msg) \<Rightarrow> finalize_timeout env (record_timeout en2) a msg r
          | Inl (OtherExecutionError fc msg) \<Rightarrow>
              finalize env (record_failure en2) a
                (if fc = UNKNOWN_EXTERNAL_STATE then SS_UNKNOWN else SS_REJECTED) None msg r None
          | Inl (ForeignException msg) \<Rightarrow> (Inl (AdapterRaised msg), en2))"
  by pat_completeness auto
termination
  by (relation "measure (\<lambda>(env, en, r, n). nat (ev_max_retries env) - n)") auto

declare submit_loop.simps [simp del]

definition engine_submit ::
  "exec_env \<Rightarrow> exec_engine \<Rightarrow> execution_request
   \<Rightarrow> (engine_error, execution_outcome) result \<times> exec_engine" where
  "engine_submit env en r =
     (let en1 = record_request en in
      case validate_request env r of
        Inl e \<Rightarrow> (Inl e, record_validation_rejection en1)
      | Inr _ \<Rightarrow>
          (case find_existing en1 r of
             Some x \<Rightarrow> (Inr (existing_outcome x r), record_duplicate_request en1)
           | None \<Rightarrow> submit_loop env en1 r 0))"

section \<open>Cancellation\<close>

definition engine_cancel ::
  "exec_env \<Rightarrow> exec_engine \<Rightarrow> uuid \<Rightarrow> (engine_error, execution_outcome) result \<times> exec_engine" where
  "engine_cancel env en oid =
     (if \<not> ev_supports_cancellation env
      then (Inr \<lparr>oc_order_id = oid, oc_execution_id = [], oc_attempt_id = [],
                 oc_submission_state = SS_REJECTED, oc_order_state = None, oc_broker_order_id = None,
                 oc_reason = ''cancellation not supported by adapter'', oc_duplicate = False\<rparr>, en)
      else
        let en1 = (record_cancellation en)\<lparr>en_cancelled := en_cancelled en @ [oid]\<rparr> in
        case ev_cancel env (length (en_cancelled en)) oid of
          Inl _ \<Rightarrow> (Inl (AdapterRaised ''cancel''), en1)
        | Inr rs \<Rightarrow>
            let out = (\<lambda>ostate. \<lparr>oc_order_id = oid, oc_execution_id = [], oc_attempt_id = [],
                  oc_submission_state = rs_status rs, oc_order_state = Some ostate,
                  oc_broker_order_id = rs_broker_order_id rs, oc_reason = rs_reason rs,
                  oc_duplicate = False\<rparr>) in
            case rs_status rs of
              SS_CANCELLED \<Rightarrow>
                (case mk_broker_order_event \<lparr>be_order_id = oid, be_event_type = EV_CANCELLED,
                        be_occurred_at = rs_occurred_at rs, be_reason = rs_reason rs,
                        be_broker_order_id = rs_broker_order_id rs, be_fill_quantity = 0,
                        be_metadata = Map.empty\<rparr> of
                   Inl e \<Rightarrow> (Inl (EngineOrderError e), en1)
                 | Inr ev \<Rightarrow> (Inr (out CANCELLED), apply_order_event env en1 ev))
            | SS_REJECTED \<Rightarrow> (Inr (out CANCEL_REQUESTED), en1)
            | _ \<Rightarrow> (Inr (out UNKNOWN), record_unknown en1))"

section \<open>At most one submission per execution id\<close>

definition attempt_keys :: "exec_engine \<Rightarrow> (string \<times> nat) set" where
  "attempt_keys en = (case en_repo en of None \<Rightarrow> {}
     | Some s \<Rightarrow> (\<lambda>a. (at_execution_id a, at_attempt_number a)) ` set (os_attempts s))"

lemma attempt_keys_Some:
  "en_repo en = Some s \<Longrightarrow> attempt_keys en = set (map (\<lambda>a. (at_execution_id a, at_attempt_number a)) (os_attempts s))"
  by (simp add: attempt_keys_def)

lemma find_existing_iff: "find_existing en r \<noteq> None \<longleftrightarrow> (rq_execution_id r, 0) \<in> attempt_keys en"
  by (cases "en_repo en")
     (force simp: find_existing_def attempt_keys_def find_attempt_def first_row_None_iff)+

lemma attempt_keys_metrics [simp]: "attempt_keys (en\<lparr>en_metrics := m\<rparr>) = attempt_keys en"
  and attempt_keys_submitted [simp]: "attempt_keys (en\<lparr>en_submitted := rs\<rparr>) = attempt_keys en"
  by (simp_all add: attempt_keys_def)

text \<open>The parts of the engine state that answering an attempt leaves alone: the repository stays
  configured, the set of attempts and the adapter's call log are unchanged.\<close>

definition same_attempts :: "exec_engine \<Rightarrow> exec_engine \<Rightarrow> bool" where
  "same_attempts en en' \<longleftrightarrow> attempt_keys en' = attempt_keys en \<and> en_submitted en' = en_submitted en \<and>
     (en_repo en' = None \<longleftrightarrow> en_repo en = None)"

lemma same_attempts_refl [simp]: "same_attempts en en"
  by (simp add: same_attempts_def)

lemma same_attempts_trans: "same_attempts a b \<Longrightarrow> same_attempts b c \<Longrightarrow> same_attempts a c"
  by (simp add: same_attempts_def)

lemma same_attempts_metrics [simp]: "same_attempts en (en'\<lparr>en_metrics := m\<rparr>) = same_attempts en en'"
  by (simp add: same_attempts_def)

lemma same_attempts_metrics_left [simp]: "same_attempts (en\<lparr>en_metrics := m\<rparr>) en' = same_attempts en en'"
  by (simp add: same_attempts_def)

lemma engine_apply_event_same: "same_attempts en (snd (engine_apply_event env en ev))"
proof (cases "en_repo en")
  case None
  then show ?thesis by (simp add: engine_apply_event_def)
next
  case (Some s)
  have k: "same_attempts en (en'\<lparr>en_repo := Some s'\<rparr>)"
    if "save_event s oid e st i h = Inr s'" "same_attempts en en'" for oid e st i h s' and en' :: exec_engine
    using that(2) save_event_Inr(4) [OF that(1)] Some by (simp add: same_attempts_def attempt_keys_def)
  show ?thesis
    using Some
    by (auto simp: engine_apply_event_def Let_def split: sum.split option.split order_event_type.split
        intro: k)
qed

lemma apply_order_event_same: "same_attempts en (apply_order_event env en ev)"
  by (simp add: apply_order_event_def engine_apply_event_same)

lemma update_attempt_keys:
  "update_attempt s aid st b t re = Inr s' \<Longrightarrow>
   map (\<lambda>a. (at_execution_id a, at_attempt_number a)) (os_attempts s') =
   map (\<lambda>a. (at_execution_id a, at_attempt_number a)) (os_attempts s)"
  by (auto simp: update_attempt_def Let_def map_update_rows split: list.splits)

lemma finalize_same: "same_attempts en (snd (finalize env en a st b re r os))"
proof (cases "en_repo en")
  case None
  then show ?thesis by (simp add: finalize_def)
next
  case (Some s)
  show ?thesis
  proof (cases "update_attempt s (at_attempt_id a) st b (Some (ev_now env)) (Some re)")
    case (Inl e)
    then show ?thesis using Some by (simp add: finalize_def Let_def)
  next
    case (Inr s')
    then show ?thesis using Some update_attempt_keys [OF Inr]
      by (simp add: finalize_def Let_def same_attempts_def attempt_keys_Some del: set_map)
  qed
qed

lemma answer_with_event_same: "same_attempts en (snd (answer_with_event env en a rs r k st os))"
  by (auto simp: answer_with_event_def split: sum.split
      intro: same_attempts_trans [OF apply_order_event_same finalize_same])

lemma process_response_same: "same_attempts en (snd (process_response env en a rs r))"
  using answer_with_event_same [of "en\<lparr>en_metrics := m\<rparr>" for m] finalize_same [of "en\<lparr>en_metrics := m\<rparr>" for m]
    finalize_same [of en]
  by (auto simp: process_response_def split: submission_state.split)

lemma finalize_timeout_same: "same_attempts en (snd (finalize_timeout env en a msg r))"
  using same_attempts_trans [OF apply_order_event_same finalize_same, of "en\<lparr>en_metrics := m\<rparr>" for m]
  by (auto simp: finalize_timeout_def Let_def split: sum.split)

lemma persist_attempt_Inr:
  assumes "persist_attempt en a = Inr en'" "en_repo en \<noteq> None"
  shows "attempt_keys en' = insert (at_execution_id a, at_attempt_number a) (attempt_keys en)"
    "en_submitted en' = en_submitted en" "en_repo en' \<noteq> None"
  using assms by (auto simp: persist_attempt_def save_attempt_def attempt_keys_def rbind_eq_Inr split: if_splits)

definition count_for :: "string \<Rightarrow> exec_engine \<Rightarrow> nat" where
  "count_for eid en = length (filter (\<lambda>r. rq_execution_id r = eid) (en_submitted en))"

lemma count_for_same: "same_attempts en en' \<Longrightarrow> count_for eid en' = count_for eid en"
  by (simp add: same_attempts_def count_for_def)

lemma attempt_keys_dispatch [simp]: "attempt_keys (dispatch en r) = attempt_keys en"
  and repo_dispatch [simp]: "en_repo (dispatch en r) = en_repo en"
  by (simp_all add: dispatch_def attempt_keys_def)

lemma count_for_dispatch:
  "count_for eid (dispatch en r) = count_for eid en + (if rq_execution_id r = eid then 1 else 0)"
  by (simp add: count_for_def dispatch_def)

text \<open>What one submission loop can do from attempt number \<open>n\<close> on: it never forgets an attempt, it
  calls the adapter only for its own request and at most once per remaining attempt, and any
  call is preceded by the attempt row.\<close>

definition loop_post :: "execution_request \<Rightarrow> nat \<Rightarrow> nat \<Rightarrow> exec_engine \<Rightarrow> exec_engine \<Rightarrow> bool" where
  "loop_post r n budget en en' \<longleftrightarrow>
     en_repo en' \<noteq> None \<and> attempt_keys en \<subseteq> attempt_keys en' \<and>
     (\<forall>eid. rq_execution_id r \<noteq> eid \<longrightarrow> count_for eid en' = count_for eid en) \<and>
     count_for (rq_execution_id r) en' \<le> count_for (rq_execution_id r) en + budget \<and>
     (count_for (rq_execution_id r) en < count_for (rq_execution_id r) en' \<longrightarrow>
        (rq_execution_id r, n) \<in> attempt_keys en')"

lemma loop_post_answer:
  assumes p: "persist_attempt en (new_attempt env r n) = Inr en1" and "en_repo en \<noteq> None"
    and "same_attempts (dispatch en1 r) en'" and "0 < budget"
  shows "loop_post r n budget en en'"
proof -
  have k: "attempt_keys en1 = insert (rq_execution_id r, n) (attempt_keys en)"
    "en_submitted en1 = en_submitted en" "en_repo en1 \<noteq> None"
    using persist_attempt_Inr [OF p assms(2)] by (simp_all add: new_attempt_def)
  have c: "count_for eid en' = count_for eid en + (if rq_execution_id r = eid then 1 else 0)" for eid
    using count_for_same [OF assms(3)] k(2) by (simp add: count_for_def dispatch_def)
  show ?thesis using assms(3,4) k by (auto simp: loop_post_def c same_attempts_def)
qed

lemma submit_loop_post:
  "en_repo en \<noteq> None \<Longrightarrow>
   loop_post r n (Suc (nat (ev_max_retries env) - n)) en (snd (submit_loop env en r n))"
proof (induction env en r n rule: submit_loop.induct)
  case (1 env en r n)
  let ?a = "new_attempt env r n" and ?B = "Suc (nat (ev_max_retries env) - n)"
  show ?case
  proof (cases "persist_attempt en ?a")
    case (Inl e)
    then have "same_attempts en (snd (submit_loop env en r n))"
      by (simp add: submit_loop.simps [of env en r n] Let_def split: option.split)
    then show ?thesis using "1.prems"
      by (auto simp: loop_post_def same_attempts_def count_for_def)
  next
    case (Inr en1)
    note post = loop_post_answer [OF Inr "1.prems"]
    let ?en2 = "dispatch en1 r"
    show ?thesis
    proof (cases "ev_submit env (length (en_submitted en1)) r")
      case rs: (Inr rs)
      then have "same_attempts ?en2 (snd (submit_loop env en r n))"
        using Inr by (simp add: submit_loop.simps [of env en r n] Let_def process_response_same)
      then show ?thesis by (rule post) simp
    next
      case exc: (Inl exc)
      show ?thesis
      proof (cases "\<exists>msg. exc = ExecutionTransientError msg \<and> int n < ev_max_retries env")
        case True
        then obtain msg where m: "exc = ExecutionTransientError msg" "int n < ev_max_retries env" by blast
        define en3 where "en3 = record_retry ?en2"
        have eq: "submit_loop env en r n = submit_loop env en3 r (Suc n)"
          using Inr exc m by (simp add: submit_loop.simps [of env en r n] Let_def en3_def)
        have k: "attempt_keys en1 = insert (rq_execution_id r, n) (attempt_keys en)"
          "en_submitted en1 = en_submitted en" "en_repo en1 \<noteq> None"
          using persist_attempt_Inr [OF Inr "1.prems"] by (simp_all add: new_attempt_def)
        have r3: "en_repo en3 \<noteq> None" using k by (simp add: en3_def)
        have IH: "loop_post r (Suc n) (Suc (nat (ev_max_retries env) - Suc n)) en3
            (snd (submit_loop env en3 r (Suc n)))"
          using "1.IH" [OF refl Inr refl exc m] r3 by (simp add: en3_def)
        have c: "count_for eid en3 = count_for eid en + (if rq_execution_id r = eid then 1 else 0)" for eid
          using k(2) by (simp add: en3_def count_for_def dispatch_def)
        have k3: "attempt_keys en3 = insert (rq_execution_id r, n) (attempt_keys en)"
          using k(1) by (simp add: en3_def)
        have "Suc (Suc (nat (ev_max_retries env) - Suc n)) = ?B" using m(2) by simp
        then show ?thesis unfolding eq using IH by (auto simp: loop_post_def c k3)
      next
        case False
        then have "same_attempts ?en2 (snd (submit_loop env en r n))"
          using Inr exc finalize_same [of "?en2\<lparr>en_metrics := m\<rparr>" for m]
            finalize_timeout_same [of "?en2\<lparr>en_metrics := m\<rparr>" for m]
          by (cases exc) (auto simp: submit_loop.simps [of env en r n] Let_def)
        then show ?thesis by (rule post) simp
      qed
    qed
  qed
qed

fun run_submits :: "exec_engine \<Rightarrow> (exec_env \<times> execution_request) list \<Rightarrow> exec_engine" where
  "run_submits en [] = en"
| "run_submits en ((env, r) # calls) = run_submits (snd (engine_submit env en r)) calls"

definition once_inv :: "nat \<Rightarrow> string \<Rightarrow> exec_engine \<Rightarrow> bool" where
  "once_inv R eid en \<longleftrightarrow> en_repo en \<noteq> None \<and> count_for eid en \<le> Suc R \<and>
     (0 < count_for eid en \<longrightarrow> (eid, 0) \<in> attempt_keys en)"

lemma engine_submit_once_inv:
  assumes inv: "once_inv R eid en" and R: "ev_max_retries env \<le> int R"
  shows "once_inv R eid (snd (engine_submit env en r))"
proof (cases "validate_request env r")
  case (Inl e)
  then show ?thesis using inv by (simp add: engine_submit_def Let_def once_inv_def count_for_def)
next
  case (Inr u)
  define en1 where "en1 = record_request en"
  show ?thesis
  proof (cases "find_existing en1 r")
    case (Some x)
    then show ?thesis using inv Inr by (simp add: engine_submit_def Let_def once_inv_def count_for_def en1_def)
  next
    case None
    have eq: "snd (engine_submit env en r) = snd (submit_loop env en1 r 0)"
      using Inr None by (simp add: engine_submit_def Let_def en1_def)
    have inv1: "once_inv R eid en1" using inv by (simp add: en1_def once_inv_def count_for_def)
    have new: "(rq_execution_id r, 0) \<notin> attempt_keys en1" using None find_existing_iff by blast
    have "en_repo en1 \<noteq> None" using inv1 by (simp add: once_inv_def)
    then have post: "loop_post r 0 (Suc (nat (ev_max_retries env))) en1 (snd (submit_loop env en1 r 0))"
      using submit_loop_post [of en1 r 0 env] by simp
    have B: "nat (ev_max_retries env) \<le> R" using R by simp
    show ?thesis
    proof (cases "rq_execution_id r = eid")
      case True
      have "count_for eid en1 = 0" using inv1 new True by (auto simp: once_inv_def)
      then show ?thesis using post B True unfolding eq once_inv_def loop_post_def by simp
    next
      case False
      then show ?thesis using post inv1 unfolding eq by (auto simp: once_inv_def loop_post_def)
    qed
  qed
qed

lemma engine_submit_calls:
  assumes "en_repo en \<noteq> None" "count_for eid en < count_for eid (snd (engine_submit env en r))"
  shows "eid = rq_execution_id r \<and> (eid, 0) \<notin> attempt_keys en \<and> (eid, 0) \<in> attempt_keys (snd (engine_submit env en r))"
proof -
  define en1 where "en1 = record_request en"
  have same: "attempt_keys en1 = attempt_keys en" "en_repo en1 = en_repo en" "count_for x en1 = count_for x en" for x
    by (simp_all add: en1_def attempt_keys_def count_for_def)
  have run: "validate_request env r = Inr ()" "find_existing en1 r = None"
    using assms(2) by (auto simp: engine_submit_def Let_def en1_def count_for_def split: sum.splits option.splits)
  then have eq: "snd (engine_submit env en r) = snd (submit_loop env en1 r 0)" by (simp add: engine_submit_def Let_def en1_def)
  have "loop_post r 0 (Suc (nat (ev_max_retries env))) en1 (snd (submit_loop env en1 r 0))"
    using submit_loop_post [of en1 r 0 env] assms(1) same by simp
  moreover have "(rq_execution_id r, 0) \<notin> attempt_keys en1" using run(2) find_existing_iff by blast
  ultimately show ?thesis using assms(2) unfolding eq loop_post_def same by (metis less_irrefl)
qed

text \<open>C2.  Idempotent submission: with a repository configured, over any sequence of submit calls of an engine that has called its
  adapter for nothing yet, with any adapter behaviour, clock and halt state at each call, (1) the broker adapter is called for one
  execution id at most once plus the largest number of retries configured, and (2) a submit call calls the adapter only for the
  execution id of its own request, only when no first attempt row of that id is stored, and has stored that row when it ends.\<close>

theorem submission_at_most_once:
  assumes "en_repo en \<noteq> None" and "en_submitted en = []"
    and "\<forall>(env, r) \<in> set calls. ev_max_retries env \<le> int R"
  shows "length (filter (\<lambda>r. rq_execution_id r = eid) (en_submitted (run_submits en calls))) \<le> Suc R \<and>
    (\<forall>pre env r post. calls = pre @ (env, r) # post \<longrightarrow>
       (let before = run_submits en pre; after = snd (engine_submit env before r) in
        count_for eid before < count_for eid after \<longrightarrow>
          eid = rq_execution_id r \<and> (eid, 0) \<notin> attempt_keys before \<and> (eid, 0) \<in> attempt_keys after))"
proof -
  have run: "once_inv R eid (run_submits e cs)" if "once_inv R eid e" "set cs \<subseteq> set calls" for e cs
    using that
  proof (induction cs arbitrary: e)
    case (Cons c cs)
    obtain env r where c: "c = (env, r)" by (cases c)
    have "once_inv R eid (snd (engine_submit env e r))"
      by (rule engine_submit_once_inv) (use Cons.prems c assms(3) in auto)
    then show ?case using Cons c by simp
  qed simp
  have start: "once_inv R eid en" using assms by (simp add: once_inv_def count_for_def)
  have "once_inv R eid (run_submits en calls)" using run [OF start] by simp
  then have count: "length (filter (\<lambda>r. rq_execution_id r = eid) (en_submitted (run_submits en calls))) \<le> Suc R"
    by (simp add: once_inv_def count_for_def)
  have "eid = rq_execution_id r \<and> (eid, 0) \<notin> attempt_keys (run_submits en pre) \<and>
      (eid, 0) \<in> attempt_keys (snd (engine_submit env (run_submits en pre) r))"
    if "calls = pre @ (env, r) # post" "count_for eid (run_submits en pre) < count_for eid (snd (engine_submit env (run_submits en pre) r))"
    for pre env r post
  proof (rule engine_submit_calls [OF _ that(2)])
    have "set pre \<subseteq> set calls" using that(1) by auto
    then show "en_repo (run_submits en pre) \<noteq> None" using run [OF start, of pre] by (simp add: once_inv_def)
  qed
  then show ?thesis using count unfolding Let_def by blast
qed

text \<open>A concrete engine for the witnesses: one order awaiting submission.\<close>

definition no_metrics :: execution_metrics where
  "no_metrics = \<lparr>em_requests = 0, em_submissions = 0, em_acknowledgments = 0, em_rejects = 0,
     em_timeouts = 0, em_retries = 0, em_cancellations = 0, em_fills = 0, em_partial_fills = 0,
     em_duplicate_events = 0, em_duplicate_requests = 0, em_unknown_states = 0, em_failures = 0,
     em_validation_rejections = 0\<rparr>"

definition sample_row :: "order_state \<Rightarrow> order_row" where
  "sample_row st = \<lparr>or_id = 7, or_orchestration_id = Some ''o1'', or_order_identity_key = Some ''k1'',
     or_correlation_id = None, or_strategy_id = Some 3, or_strategy_version = Some ''v1'',
     or_strategy_run_id = None, or_risk_approval_id = Some ''appr'', or_approval_expires_at = None,
     or_signal_id = Some 4, or_instrument_id = 5, or_broker_account_id = 6, or_trading_mode = ''PAPER'',
     or_client_order_id = ''ord-o1'', or_broker_order_id = None, or_side = ''BUY'',
     or_order_type = ''MARKET'', or_quantity = 10, or_limit_price = None, or_status = st,
     or_filled_quantity = None, or_acknowledged_at = None, or_filled_at = None, or_rejected_at = None,
     or_canceled_at = None\<rparr>"

definition sample_store :: "order_state \<Rightarrow> order_store" where
  "sample_store st = \<lparr>os_orders = [sample_row st], os_events = [], os_attempts = [],
     os_refs_ok = (\<lambda>_. True)\<rparr>"

definition sample_engine :: "order_state \<Rightarrow> exec_engine" where
  "sample_engine st = \<lparr>en_repo = Some (sample_store st), en_metrics = no_metrics, en_submitted = [],
     en_cancelled = []\<rparr>"

definition sample_request :: execution_request where
  "sample_request = \<lparr>rq_order_id = 7, rq_client_order_id = ''ord-o1'', rq_execution_id = ''e1'',
     rq_correlation_id = None, rq_account_id = 6, rq_instrument_id = 5, rq_signal_id = 4,
     rq_strategy_id = 3, rq_strategy_version = ''v1'', rq_side = ''BUY'', rq_quantity = 10,
     rq_order_type = ''MARKET'', rq_limit_price = None, rq_trading_mode = ''paper'',
     rq_risk_approval_id = ''appr'', rq_approval_expires_at = utc 1000, rq_binding_hash = ''b'',
     rq_orchestration_id = ''o1''\<rparr>"

definition sample_ack :: "submission_state \<Rightarrow> execution_response" where
  "sample_ack st = \<lparr>rs_status = st, rs_reason = ''ok'', rs_occurred_at = utc 10,
     rs_broker_order_id = Some ''B1'', rs_failure_class = None\<rparr>"

text \<open>The adapter fails transiently once and then acknowledges.\<close>

definition sample_env :: "int \<Rightarrow> exec_env" where
  "sample_env retries = \<lparr>
     ev_submit = (\<lambda>n _. if n = 0 then Inl (ExecutionTransientError ''busy'') else Inr (sample_ack SS_ACKNOWLEDGED)),
     ev_cancel = (\<lambda>_ _. Inr (sample_ack SS_CANCELLED)), ev_supports_cancellation = True,
     ev_max_retries = retries, ev_halt = False, ev_now = utc 1, ev_digest = (\<lambda>_. ''h''),
     ev_str = (\<lambda>_. ''s'')\<rparr>"

theorem submission_at_most_once_witness:
  "length (filter (\<lambda>r. rq_execution_id r = ''e1'') (en_submitted (run_submits
     (sample_engine SUBMISSION_REQUESTED)
     [(sample_env 1, sample_request), (sample_env 1, sample_request)]))) \<le> Suc 1"
  by (rule submission_at_most_once [THEN conjunct1]) (simp_all add: sample_engine_def sample_env_def)

section \<open>Fail-closed validation\<close>

text \<open>C7.  A submission in LIVE or any other mode than BACKTEST and PAPER (compared without case),
  under a global halt, with an expired approval or without an approval id is refused with a
  validation error: the adapter is not called and the repository is not touched.\<close>

theorem submission_fail_closed:
  assumes "upper (rq_trading_mode r) \<notin> {''BACKTEST'', ''PAPER''} \<or> ev_halt env
    \<or> instant (rq_approval_expires_at r) \<le> instant (ev_now env) \<or> blank (rq_risk_approval_id r)"
  shows "(\<exists>msg. fst (engine_submit env en r) = Inl (ExecutionValidationError msg)) \<and>
    en_submitted (snd (engine_submit env en r)) = en_submitted en \<and>
    en_repo (snd (engine_submit env en r)) = en_repo en"
proof -
  have "\<exists>msg. validate_request env r = Inl (ExecutionValidationError msg)"
    using assms by (auto simp: validate_request_def Let_def allowed_modes_def)
  then show ?thesis by (auto simp: engine_submit_def Let_def)
qed

theorem submission_fail_closed_witness:
  "\<exists>msg. fst (engine_submit (sample_env 0) (sample_engine SUBMISSION_REQUESTED)
     (sample_request\<lparr>rq_trading_mode := ''Live''\<rparr>)) = Inl (ExecutionValidationError msg)"
  by (rule submission_fail_closed [THEN conjunct1]) (simp add: sample_request_def upper_def upper_char_def)

section \<open>Replay of events\<close>

lemma load_execution_state_Some:
  assumes "load_execution_state s oid = Inr (Some st)"
  obtains row where "find_by_id s oid = Some row" "lc_state (es_lifecycle st) = or_status row"
    "es_order_quantity st = dec_of_int (or_quantity row)"
    "es_filled_quantity st = dec_of_int (case or_filled_quantity row of None \<Rightarrow> 0 | Some q \<Rightarrow> q)"
    "0 < or_quantity row"
  using assms
  by (auto simp: load_execution_state_def mk_execution_state_def decimal_order split: option.splits sum.splits if_splits)

lemma load_after_save:
  assumes l: "load_execution_state s oid = Inr (Some st)" and a: "apply_event st ev = Inr st'"
    and s: "save_event s oid ev st' ident h = Inr s'"
  shows "\<exists>st2. load_execution_state s' oid = Inr (Some st2) \<and>
     lc_state (es_lifecycle st2) = lc_state (es_lifecycle st') \<and>
     es_filled_quantity st2 = dec_of_int (dec_int (es_filled_quantity st'))"
proof -
  obtain row where row: "find_by_id s oid = Some row" "es_order_quantity st = dec_of_int (or_quantity row)"
    "0 < or_quantity row" using l by (rule load_execution_state_Some)
  define row' where "row' = order_after_event ev st' row"
  have f: "find_by_id s' oid = Some row'" using save_event_Inr(3) [OF s] row(1) by (simp add: row'_def)
  have q: "or_quantity row' = or_quantity row"
    by (simp add: row'_def order_after_event_def apply_event_timestamp_def split: order_event_type.split)
  have inv: "exec_inv st'" using a by (rule apply_event_inv)
  have oq: "dval (es_order_quantity st') = of_int (or_quantity row)"
    using apply_event_order_quantity [OF a] row(2) by simp
  let ?k = "dec_int (es_filled_quantity st')"
  have "0 \<le> ?k" "of_int ?k \<le> dval (es_filled_quantity st')"
    using dec_int_bounds inv by (auto simp: exec_inv_def)
  then have k: "0 \<le> ?k" "(of_int ?k :: rat) \<le> of_int (or_quantity row)"
    using inv oq by (auto simp: exec_inv_def)
  show ?thesis using f q row(3) k
    by (auto simp: load_execution_state_def mk_execution_state_def decimal_order row'_def)
qed

lemma engine_replay:
  assumes first: "engine_apply_event env en ev = (Inr st', en')"
    and new: "\<not> has_event s (compute_event_identity env ev)" and repo: "en_repo en = Some s"
    and ident: "compute_event_identity env ev2 = compute_event_identity env ev"
      "event_content_hash env ev2 = event_content_hash env ev" "be_order_id ev2 = be_order_id ev"
  obtains st2 where "engine_apply_event env en' ev2 = (Inr st2, record_duplicate_event en')"
    "lc_state (es_lifecycle st2) = lc_state (es_lifecycle st')"
    "es_filled_quantity st2 = dec_of_int (dec_int (es_filled_quantity st'))"
proof -
  obtain st s' where l: "load_execution_state s (be_order_id ev) = Inr (Some st)"
    and a: "apply_event st ev = Inr st'"
    and sv: "save_event s (be_order_id ev) ev st' (compute_event_identity env ev) (event_content_hash env ev) = Inr s'"
    and r': "en_repo en' = Some s'"
    using first new repo
    by (auto simp: engine_apply_event_def Let_def split: sum.splits option.splits)
  obtain st2 where st2: "load_execution_state s' (be_order_id ev) = Inr (Some st2)"
      "lc_state (es_lifecycle st2) = lc_state (es_lifecycle st')"
      "es_filled_quantity st2 = dec_of_int (dec_int (es_filled_quantity st'))"
    using load_after_save [OF l a sv] by blast
  have h: "has_event s' (compute_event_identity env ev)"
    "get_event_hash s' (compute_event_identity env ev) = Some (event_content_hash env ev)"
    using save_event_Inr(1,2) [OF sv] by (simp_all add: has_event_def)
  have "engine_apply_event env en' ev2 = (Inr st2, record_duplicate_event en')"
    using r' h st2(1) ident by (simp add: engine_apply_event_def Let_def)
  then show thesis using st2(2,3) by (rule that)
qed

text \<open>Event deduplication: when an event was applied and stored, any event with the same identity
  and content hash leaves the stored orders, events and attempts exactly as they are, and
  returns the stored order in the state the first application reached.\<close>

theorem event_replay_idempotent:
  assumes "engine_apply_event env en ev = (Inr st', en')"
    and "\<not> has_event s (compute_event_identity env ev)" "en_repo en = Some s"
    and "compute_event_identity env ev2 = compute_event_identity env ev"
      "event_content_hash env ev2 = event_content_hash env ev" "be_order_id ev2 = be_order_id ev"
  shows "(\<exists>st2. fst (engine_apply_event env en' ev2) = Inr st2 \<and>
      lc_state (es_lifecycle st2) = lc_state (es_lifecycle st') \<and>
      es_filled_quantity st2 = dec_of_int (dec_int (es_filled_quantity st'))) \<and>
    en_repo (snd (engine_apply_event env en' ev2)) = en_repo en'"
  using assms by (rule engine_replay) auto

definition sample_ack_event :: "int \<Rightarrow> broker_order_event" where
  "sample_ack_event t = \<lparr>be_order_id = 7, be_event_type = EV_BROKER_ACKNOWLEDGED, be_occurred_at = utc t,
     be_reason = ''ok'', be_broker_order_id = Some ''B1'', be_fill_quantity = 0, be_metadata = Map.empty\<rparr>"

lemmas sample_defs = sample_engine_def sample_store_def sample_row_def sample_env_def sample_request_def
  sample_ack_def sample_ack_event_def

lemmas engine_eval = engine_apply_event_def Let_def compute_event_identity_def source_id_def has_event_def
  event_row_def get_event_hash_def load_execution_state_def find_by_id_def mk_execution_state_def
  apply_event_def with_transition_def transition_to_def mk_transition_def save_event_def
  event_id_taken_def blank_def is_space_def clash_def less_decimal_def less_eq_decimal_def dle_def
  rescaled_def zero_decimal_def dec_of_int_def

theorem event_replay_idempotent_witness:
  "\<exists>st' en'. engine_apply_event (sample_env 0) (sample_engine SUBMISSION_REQUESTED) (sample_ack_event 1) = (Inr st', en') \<and>
     lc_state (es_lifecycle st') = BROKER_ACKNOWLEDGED \<and>
     en_repo (snd (engine_apply_event (sample_env 0) en' (sample_ack_event 2))) = en_repo en'"
proof -
  let ?env = "sample_env 0" and ?en = "sample_engine SUBMISSION_REQUESTED"
  obtain st' en' where f: "engine_apply_event ?env ?en (sample_ack_event 1) = (Inr st', en')"
      and st: "lc_state (es_lifecycle st') = BROKER_ACKNOWLEDGED"
    by (simp add: engine_eval sample_defs)
  have "en_repo (snd (engine_apply_event ?env en' (sample_ack_event 2))) = en_repo en'"
    by (rule event_replay_idempotent [THEN conjunct2, OF f, of "sample_store SUBMISSION_REQUESTED"])
       (simp_all add: has_event_def event_row_def event_content_hash_def compute_event_identity_def
          source_id_def sample_defs)
  with f st show ?thesis by blast
qed

text \<open>The event feed is a receiver in the sense of \<open>at_least_once\<close>: the repository is what is
  durable, and an event is seen when its identity has a row.\<close>

definition event_seen :: "exec_env \<Rightarrow> order_store option \<Rightarrow> broker_order_event \<Rightarrow> bool" where
  "event_seen env repo ev = (case repo of None \<Rightarrow> False | Some s \<Rightarrow> has_event s (compute_event_identity env ev))"

lemma has_event_save: "has_event s k \<Longrightarrow> save_event s oid ev st ident h = Inr s' \<Longrightarrow> has_event s' k"
  by (auto simp: has_event_def event_row_def save_event_def Let_def first_row_append
      split: option.splits if_splits)

lemma engine_apply_event_repo:
  obtains (same) "en_repo (snd (engine_apply_event env en ev)) = en_repo en"
    "is_ok (fst (engine_apply_event env en ev)) \<Longrightarrow> event_seen env (en_repo en) ev"
  | (saved) s st st' s' where "en_repo en = Some s" "en_repo (snd (engine_apply_event env en ev)) = Some s'"
    "\<not> event_seen env (en_repo en) ev"
    "load_execution_state s (be_order_id ev) = Inr (Some st)" "apply_event st ev = Inr st'"
    "save_event s (be_order_id ev) ev st' (compute_event_identity env ev) (event_content_hash env ev) = Inr s'"
proof (cases "en_repo en")
  case None
  then show thesis using same by (simp add: engine_apply_event_def)
next
  case (Some s)
  let ?i = "compute_event_identity env ev" and ?h = "event_content_hash env ev"
  show thesis
  proof (cases "has_event s ?i")
    case True
    then show thesis using Some same
      by (auto simp: engine_apply_event_def event_seen_def Let_def split: option.splits sum.splits if_splits)
  next
    case False
    show thesis
    proof (cases "\<exists>st st' s'. load_execution_state s (be_order_id ev) = Inr (Some st) \<and> apply_event st ev = Inr st' \<and>
        save_event s (be_order_id ev) ev st' ?i ?h = Inr s'")
      case True
      then obtain st st' s' where *: "load_execution_state s (be_order_id ev) = Inr (Some st)"
        "apply_event st ev = Inr st'" "save_event s (be_order_id ev) ev st' ?i ?h = Inr s'" by blast
      have "en_repo (snd (engine_apply_event env en ev)) = Some s'"
        using * False Some by (simp add: engine_apply_event_def Let_def)
      then show thesis using saved [OF Some _ _ *] False Some by (simp add: event_seen_def)
    next
      case no: False
      have "en_repo (snd (engine_apply_event env en ev)) = en_repo en \<and> \<not> is_ok (fst (engine_apply_event env en ev))"
        using Some False no
        by (auto simp: engine_apply_event_def Let_def split: option.split sum.split order_event_type.split)
      then show thesis using same by blast
    qed
  qed
qed

lemma engine_apply_event_seen:
  assumes "event_seen env (en_repo en) ev'"
  shows "event_seen env (en_repo (snd (engine_apply_event env en ev))) ev'"
proof (cases rule: engine_apply_event_repo [where env = env and en = en and ev = ev])
  case same
  then show ?thesis using assms by simp
next
  case (saved s st st' s')
  then show ?thesis using assms has_event_save [OF _ saved(6)] by (simp add: event_seen_def)
qed

lemma engine_apply_event_cong:
  "en_repo en = en_repo en2 \<Longrightarrow>
   en_repo (snd (engine_apply_event env en ev)) = en_repo (snd (engine_apply_event env en2 ev))"
  by (auto simp: engine_apply_event_def Let_def split: option.split sum.split order_event_type.split)

interpretation event_feed: at_least_once "engine_apply_event env" en_repo "event_seen env" for env
proof
  fix st st' and m
  show "en_repo st = en_repo st' \<Longrightarrow>
      en_repo (snd (engine_apply_event env st m)) = en_repo (snd (engine_apply_event env st' m))"
    by (rule engine_apply_event_cong)
  show "event_seen env (en_repo st) m \<Longrightarrow> en_repo (snd (engine_apply_event env st m)) = en_repo st"
    by (cases rule: engine_apply_event_repo [where env = env and en = st and ev = m]) auto
  show "event_seen env (en_repo (snd (engine_apply_event env st m))) m" if "is_ok (fst (engine_apply_event env st m))"
  proof (cases rule: engine_apply_event_repo [where env = env and en = st and ev = m])
    case same
    then show ?thesis using that by simp
  next
    case (saved s x x' s')
    then show ?thesis using save_event_Inr(1) [OF saved(6)] by (simp add: event_seen_def has_event_def)
  qed
  show "event_seen env (en_repo st) m \<Longrightarrow> event_seen env (en_repo (snd (engine_apply_event env st m'))) m" for m'
    by (rule engine_apply_event_seen)
qed

text \<open>C6.  Exactly-once effect over an at-least-once feed: once a broker event has been accepted,
  delivering it again after any further traffic (accepted, refused or conflicting events) leaves
  the stored orders, events and attempts exactly as they would be without the redelivery.\<close>

theorem broker_event_exactly_once:
  assumes "is_ok (fst (engine_apply_event env en ev))"
  shows "en_repo (foldl (\<lambda>e v. snd (engine_apply_event env e v)) en (ev # evs @ [ev])) =
         en_repo (foldl (\<lambda>e v. snd (engine_apply_event env e v)) en (ev # evs))"
  using event_feed.accepted_then_redelivered [OF assms, of evs] by (simp add: event_feed.deliver_all_def)

theorem broker_event_exactly_once_witness:
  "en_repo (foldl (\<lambda>e v. snd (engine_apply_event (sample_env 0) e v)) (sample_engine SUBMISSION_REQUESTED)
      (sample_ack_event 1 # [sample_ack_event 2] @ [sample_ack_event 1])) =
   en_repo (foldl (\<lambda>e v. snd (engine_apply_event (sample_env 0) e v)) (sample_engine SUBMISSION_REQUESTED)
      (sample_ack_event 1 # [sample_ack_event 2]))"
  by (rule broker_event_exactly_once) (simp add: engine_eval sample_defs)

text \<open>The fallback event identity hashes only the order, the event type, the broker order id and
  the quantity.  Two partial fills of one order with equal quantity and reason that carry no
  source id, however far apart in time, are one event to the engine: after the first has been
  applied, the second changes nothing that is stored, so its shares are lost.\<close>

theorem equal_partial_fills_collapse:
  assumes "engine_apply_event env en ev = (Inr st', en')" "en_repo en = Some s"
    and "\<not> has_event s (compute_event_identity env ev)"
    and "be_event_type ev = EV_PARTIAL_FILL" "source_id (be_metadata ev) = None"
  shows "en_repo (snd (engine_apply_event env en' (ev\<lparr>be_occurred_at := t2\<rparr>))) = en_repo en'"
proof -
  have same: "compute_event_identity env (ev\<lparr>be_occurred_at := t2\<rparr>) = compute_event_identity env ev"
    "event_content_hash env (ev\<lparr>be_occurred_at := t2\<rparr>) = event_content_hash env ev"
    "be_order_id (ev\<lparr>be_occurred_at := t2\<rparr>) = be_order_id ev"
    using assms(5) by (simp_all add: compute_event_identity_def event_content_hash_def event_fields_def)
  show ?thesis by (rule engine_replay [OF assms(1,3,2) same]) simp
qed

definition sample_partial :: "int \<Rightarrow> broker_order_event" where
  "sample_partial t = \<lparr>be_order_id = 7, be_event_type = EV_PARTIAL_FILL, be_occurred_at = utc t,
     be_reason = ''fill'', be_broker_order_id = Some ''B1'', be_fill_quantity = Dec 3 0, be_metadata = Map.empty\<rparr>"

theorem equal_partial_fills_collapse_witness:
  "\<exists>st' en'. engine_apply_event (sample_env 0) (sample_engine BROKER_ACKNOWLEDGED) (sample_partial 1) = (Inr st', en') \<and>
     en_repo (snd (engine_apply_event (sample_env 0) en' (sample_partial 2))) = en_repo en'"
proof -
  let ?env = "sample_env 0" and ?en = "sample_engine BROKER_ACKNOWLEDGED"
  obtain st' en' where f: "engine_apply_event ?env ?en (sample_partial 1) = (Inr st', en')"
    by (simp add: engine_eval apply_partial_fill_def plus_decimal_def dadd_def sample_defs sample_partial_def)
  have e: "sample_partial 2 = (sample_partial 1)\<lparr>be_occurred_at := utc 2\<rparr>" by (simp add: sample_partial_def)
  have "en_repo (snd (engine_apply_event ?env en' ((sample_partial 1)\<lparr>be_occurred_at := utc 2\<rparr>))) = en_repo en'"
    by (rule equal_partial_fills_collapse [OF f, of "sample_store BROKER_ACKNOWLEDGED"])
       (simp_all add: has_event_def event_row_def source_id_def sample_defs sample_partial_def)
  with f e show ?thesis by auto
qed

section \<open>Retried submissions and cancellation\<close>

lemma engine_apply_event_attempts:
  "map_option os_attempts (en_repo (snd (engine_apply_event env en ev))) = map_option os_attempts (en_repo en)"
  by (cases "en_repo en")
     (auto simp: engine_apply_event_def Let_def save_event_Inr(4)
       split: sum.split option.split order_event_type.split)

lemma apply_order_event_repo:
  assumes "en_repo en = Some s"
  obtains s' where "en_repo (apply_order_event env en ev) = Some s'" "os_attempts s' = os_attempts s"
  using engine_apply_event_attempts [of env en ev] assms by (auto simp: apply_order_event_def)

lemma persist_new_attempt:
  assumes "en_repo en = Some s" "find_attempt s (rq_execution_id r) n = None" "find_by_id s (rq_order_id r) \<noteq> None"
  shows "persist_attempt en (new_attempt env r n) =
     Inr (en\<lparr>en_repo := Some (s\<lparr>os_attempts := os_attempts s @ [new_attempt env r n]\<rparr>)\<rparr>)"
  using assms by (simp add: persist_attempt_def save_attempt_def new_attempt_def)

lemma update_attempt_multiple:
  assumes "os_attempts s = as @ [new_attempt env r m, new_attempt env r n]"
    and "\<forall>a\<in>set as. at_execution_id a \<noteq> rq_execution_id r"
  shows "update_attempt s (at_attempt_id (new_attempt env r k)) st b t re = Inl MultipleResultsFound"
proof -
  have "execution_id_from_attempt_id (at_attempt_id (new_attempt env r k)) = rq_execution_id r"
    by (simp add: new_attempt_def execution_id_from_attempt_id_def compute_attempt_id_def
        rsplit_rev_digits nat_str_digits)
  moreover have "filter (\<lambda>a. at_execution_id a = rq_execution_id r) as = []"
    using assms(2) by (simp add: filter_empty_conv)
  ultimately show ?thesis using assms(1) by (simp add: update_attempt_def new_attempt_def)
qed

text \<open>Finalising a retried submission fails: when the first call for a fresh execution id fails
  transiently and the retry is acknowledged by the broker, \<^verbatim>\<open>update_attempt\<close> finds the two attempt
  rows of that execution id and raises, so \<^verbatim>\<open>submit\<close> raises although the broker holds the order,
  and both attempt rows keep the state SUBMISSION_IN_PROGRESS.\<close>

theorem retried_submission_not_finalized:
  assumes v: "validate_request env r = Inr ()" and repo: "en_repo en = Some s"
    and fresh: "\<forall>a\<in>set (os_attempts s). at_execution_id a \<noteq> rq_execution_id r"
    and order: "find_by_id s (rq_order_id r) \<noteq> None" and retries: "1 \<le> ev_max_retries env"
    and first: "ev_submit env (length (en_submitted en)) r = Inl (ExecutionTransientError msg)"
    and second: "ev_submit env (Suc (length (en_submitted en))) r = Inr rs"
    and ack: "rs_status rs = SS_ACKNOWLEDGED" "tz_aware (rs_occurred_at rs)" "\<not> blank (rs_reason rs)"
  shows "fst (engine_submit env en r) = Inl (EngineDbError MultipleResultsFound) \<and>
    en_submitted (snd (engine_submit env en r)) = en_submitted en @ [r, r] \<and>
    (\<exists>s'. en_repo (snd (engine_submit env en r)) = Some s' \<and>
       map at_state (filter (\<lambda>a. at_execution_id a = rq_execution_id r) (os_attempts s')) =
         [SS_SUBMISSION_IN_PROGRESS, SS_SUBMISSION_IN_PROGRESS])"
proof -
  have none: "find_attempt s (rq_execution_id r) n = None" for n
    using fresh by (simp add: find_attempt_def first_row_None_iff)
  define en0 where "en0 = record_request en"
  define s1 where "s1 = s\<lparr>os_attempts := os_attempts s @ [new_attempt env r 0]\<rparr>"
  define s2 where "s2 = s1\<lparr>os_attempts := os_attempts s @ [new_attempt env r 0, new_attempt env r 1]\<rparr>"
  define en1 where "en1 = record_retry (dispatch (en0\<lparr>en_repo := Some s1\<rparr>) r)"
  define en2 where "en2 = dispatch (en1\<lparr>en_repo := Some s2\<rparr>) r"
  have p0: "persist_attempt en0 (new_attempt env r 0) = Inr (en0\<lparr>en_repo := Some s1\<rparr>)"
    unfolding s1_def by (rule persist_new_attempt) (simp_all add: en0_def repo none order [simplified])
  have p1: "persist_attempt en1 (new_attempt env r 1) = Inr (en1\<lparr>en_repo := Some s2\<rparr>)"
  proof -
    have "find_attempt s1 (rq_execution_id r) 1 = None"
      using fresh by (auto simp: find_attempt_def s1_def first_row_None_iff new_attempt_def)
    then show ?thesis using persist_new_attempt [of en1 s1 r 1 env] order
      by (simp add: en1_def s1_def s2_def)
  qed
  have l0: "submit_loop env en0 r 0 = submit_loop env en1 r 1"
    using p0 first retries by (simp add: submit_loop.simps [of env en0 r 0] Let_def en1_def) (simp add: en0_def)
  have l1: "submit_loop env en1 r 1 = process_response env en2 (new_attempt env r 1) rs r"
  proof -
    have "length (en_submitted (en1\<lparr>en_repo := Some s2\<rparr>)) = Suc (length (en_submitted en))"
      by (simp add: en1_def en0_def dispatch_def)
    then show ?thesis using p1 second by (simp add: submit_loop.simps [of env en1 r 1] en2_def del: One_nat_def)
  qed
  obtain ev where ev: "order_event r EV_BROKER_ACKNOWLEDGED (rs_occurred_at rs) (rs_reason rs) (rs_broker_order_id rs) = Inr ev"
    using ack by (simp add: order_event_def mk_broker_order_event_def fill_event_def decimal_order)
  define en3 where "en3 = apply_order_event env (record_acknowledgment en2) ev"
  obtain s3 where s3: "en_repo en3 = Some s3" "os_attempts s3 = os_attempts s2"
    using apply_order_event_repo [of "record_acknowledgment en2" s2 env ev]
    by (auto simp: en3_def en2_def)
  have "same_attempts (record_acknowledgment en2) en3" unfolding en3_def by (rule apply_order_event_same)
  then have sub: "en_submitted en3 = en_submitted en @ [r, r]"
    by (simp add: same_attempts_def en2_def en1_def en0_def dispatch_def)
  have att: "os_attempts s3 = os_attempts s @ [new_attempt env r 0, new_attempt env r 1]"
    using s3(2) by (simp add: s2_def)
  have u: "update_attempt s3 (at_attempt_id (new_attempt env r 1)) SS_ACKNOWLEDGED (rs_broker_order_id rs)
      (Some (ev_now env)) (Some (rs_reason rs)) = Inl MultipleResultsFound"
    using att fresh by (rule update_attempt_multiple)
  have res: "engine_submit env en r = (Inl (EngineDbError MultipleResultsFound), en3)"
  proof -
    have "find_existing en0 r = None" using repo none by (simp add: en0_def find_existing_def)
    then have "engine_submit env en r = process_response env en2 (new_attempt env r 1) rs r"
      using v l0 l1 unfolding engine_submit_def Let_def en0_def [symmetric] by (simp del: One_nat_def)
    also have "\<dots> = finalize env en3 (new_attempt env r 1) SS_ACKNOWLEDGED (rs_broker_order_id rs)
        (rs_reason rs) r (Some BROKER_ACKNOWLEDGED)"
      using ack ev by (simp add: process_response_def answer_with_event_def en3_def)
    also have "\<dots> = (Inl (EngineDbError MultipleResultsFound), en3)"
      using s3(1) u by (simp add: finalize_def)
    finally show ?thesis .
  qed
  have "filter (\<lambda>a. at_execution_id a = rq_execution_id r) (os_attempts s) = []"
    using fresh by (simp add: filter_empty_conv)
  then show ?thesis using sub s3(1) att by (simp add: res new_attempt_def)
qed

theorem retried_submission_not_finalized_witness:
  "fst (engine_submit (sample_env 1) (sample_engine SUBMISSION_REQUESTED) sample_request) =
     Inl (EngineDbError MultipleResultsFound)"
  by (rule retried_submission_not_finalized [THEN conjunct1,
        of "sample_env 1" sample_request _ "sample_store SUBMISSION_REQUESTED" "''busy''" "sample_ack SS_ACKNOWLEDGED"])
     (simp_all add: validate_request_def Let_def upper_def upper_char_def allowed_modes_def blank_def
        is_space_def find_by_id_def sample_defs, code_simp)

text \<open>The engine reports a cancellation that it has not recorded: from SUBMISSION_REQUESTED,
  BROKER_ACKNOWLEDGED or PARTIALLY_FILLED the transition table has no edge to CANCELLED, so when
  the adapter confirms the cancellation the event is refused and the refusal swallowed; \<^verbatim>\<open>cancel\<close>
  returns the order state CANCELLED while the stored order keeps its status.\<close>

theorem cancel_outcome_not_persisted:
  assumes repo: "en_repo en = Some s" and row: "find_by_id s oid = Some row"
    and st: "or_status row \<in> {SUBMISSION_REQUESTED, BROKER_ACKNOWLEDGED, PARTIALLY_FILLED}"
    and c: "ev_supports_cancellation env" "ev_cancel env (length (en_cancelled en)) oid = Inr rs"
      "rs_status rs = SS_CANCELLED" "tz_aware (rs_occurred_at rs)" "\<not> blank (rs_reason rs)"
  shows "(\<exists>out. fst (engine_cancel env en oid) = Inr out \<and> oc_order_state out = Some CANCELLED) \<and>
    en_repo (snd (engine_cancel env en oid)) = Some s"
proof -
  have refused: "en_repo (apply_order_event env e ev) = Some s"
    if "en_repo e = Some s" "be_order_id ev = oid" "be_event_type ev = EV_CANCELLED" for e ev
  proof -
    have "apply_event x ev \<noteq> Inr y" if "load_execution_state s oid = Inr (Some x)" for x y
      using that row st \<open>be_event_type ev = EV_CANCELLED\<close>
      by (auto elim!: load_execution_state_Some simp: apply_event_def dest!: with_transition_frame)
    then show ?thesis using that
      by (auto simp: apply_order_event_def engine_apply_event_def Let_def split: sum.split option.split)
  qed
  show ?thesis using c repo
    by (auto simp: engine_cancel_def Let_def mk_broker_order_event_def fill_event_def decimal_order
        intro!: refused)
qed

theorem cancel_outcome_not_persisted_witness:
  "(\<exists>out. fst (engine_cancel (sample_env 0) (sample_engine BROKER_ACKNOWLEDGED) 7) = Inr out \<and>
      oc_order_state out = Some CANCELLED) \<and>
   en_repo (snd (engine_cancel (sample_env 0) (sample_engine BROKER_ACKNOWLEDGED) 7)) =
     Some (sample_store BROKER_ACKNOWLEDGED)"
  by (rule cancel_outcome_not_persisted [where row = "sample_row BROKER_ACKNOWLEDGED"
        and rs = "sample_ack SS_CANCELLED"])
     (simp_all add: find_by_id_def blank_def is_space_def sample_defs)

section \<open>What the engine may do to the tables\<close>

definition repo_step :: "exec_engine \<Rightarrow> exec_engine \<Rightarrow> bool" where
  "repo_step en en' \<longleftrightarrow> rel_option store_step (en_repo en) (en_repo en')"

lemma repo_step_same [simp]: "en_repo en' = en_repo en \<Longrightarrow> repo_step en en'"
  by (cases "en_repo en") (simp_all add: repo_step_def)

lemma repo_step_trans: "repo_step a b \<Longrightarrow> repo_step b c \<Longrightarrow> repo_step a c"
  by (cases "en_repo a"; cases "en_repo b"; cases "en_repo c") (auto simp: repo_step_def intro: store_step_trans)

lemma repo_step_metrics [simp]:
  "repo_step (en\<lparr>en_metrics := m\<rparr>) en' = repo_step en en'" "repo_step en (en'\<lparr>en_metrics := m\<rparr>) = repo_step en en'"
  by (simp_all add: repo_step_def)

lemma engine_apply_event_step: "repo_step en (snd (engine_apply_event env en ev))"
proof (cases rule: engine_apply_event_repo [where env = env and en = en and ev = ev])
  case same
  then show ?thesis by simp
next
  case (saved s st st' s')
  from load_execution_state_status [OF saved(4)] obtain row
    where "find_by_id s (be_order_id ev) = Some row" "lc_state (es_lifecycle st) = or_status row" .
  then have "store_step s s'"
    using store_step_save_event [OF saved(6)] apply_event_allowed [OF saved(5)] by simp
  then show ?thesis using saved by (simp add: repo_step_def)
qed

lemma apply_order_event_step: "repo_step en (apply_order_event env en ev)"
  by (simp add: apply_order_event_def engine_apply_event_step)

lemma finalize_step: "repo_step en (snd (finalize env en a st b re r os))"
  by (cases "en_repo en")
     (auto simp: finalize_def Let_def repo_step_def store_step_update_attempt split: sum.split)

lemma event_finalize_step: "repo_step en (snd (finalize env (apply_order_event env en ev) a st b re r os))"
  by (rule repo_step_trans [OF apply_order_event_step finalize_step])

lemma answer_with_event_step: "repo_step en (snd (answer_with_event env en a rs r k st os))"
  by (auto simp: answer_with_event_def event_finalize_step split: sum.split)

lemma process_response_step: "repo_step en (snd (process_response env en a rs r))"
  using answer_with_event_step [of "en\<lparr>en_metrics := m\<rparr>" for m] finalize_step [of "en\<lparr>en_metrics := m\<rparr>" for m]
    finalize_step [of en]
  by (auto simp: process_response_def split: submission_state.split)

lemma finalize_timeout_step: "repo_step en (snd (finalize_timeout env en a msg r))"
  using event_finalize_step [of "en\<lparr>en_metrics := m\<rparr>" for m]
  by (auto simp: finalize_timeout_def Let_def split: sum.split)

lemma persist_attempt_step: "persist_attempt en a = Inr en' \<Longrightarrow> repo_step en en'"
  by (cases "en_repo en") (auto simp: persist_attempt_def rbind_eq_Inr repo_step_def store_step_save_attempt)

lemma submit_loop_step: "repo_step en (snd (submit_loop env en r n))"
proof (induction env en r n rule: submit_loop.induct)
  case (1 env en r n)
  show ?case
  proof (cases "persist_attempt en (new_attempt env r n)")
    case (Inl e)
    then show ?thesis by (simp add: submit_loop.simps [of env en r n] Let_def split: option.split)
  next
    case (Inr en1)
    let ?en2 = "dispatch en1 r"
    have start: "repo_step en ?en2"
      using persist_attempt_step [OF Inr] by (rule repo_step_trans) simp
    have fin: "repo_step en (snd (finalize env (?en2\<lparr>en_metrics := m\<rparr>) a st b re r os))" for m a st b re os
      using start finalize_step [of "?en2\<lparr>en_metrics := m\<rparr>"] by (auto intro: repo_step_trans)
    have tmo: "repo_step en (snd (finalize_timeout env (?en2\<lparr>en_metrics := m\<rparr>) a msg r))" for m a msg
      using start finalize_timeout_step [of "?en2\<lparr>en_metrics := m\<rparr>"] by (auto intro: repo_step_trans)
    have rsp: "repo_step en (snd (process_response env ?en2 a rs r))" for a rs
      using start process_response_step by (rule repo_step_trans)
    have rec: "repo_step en (snd (submit_loop env (record_retry ?en2) r (Suc n)))"
      if "ev_submit env (length (en_submitted en1)) r = Inl (ExecutionTransientError msg)" "int n < ev_max_retries env" for msg
      using start "1.IH" [OF refl Inr refl that(1) refl that(2)] by (auto intro: repo_step_trans)
    show ?thesis using Inr start fin tmo rsp rec
      by (auto simp: submit_loop.simps [of env en r n] Let_def split: sum.split adapter_exc.split)
  qed
qed

lemma engine_submit_step: "repo_step en (snd (engine_submit env en r))"
  using submit_loop_step [of "en\<lparr>en_metrics := m\<rparr>" for m]
  by (auto simp: engine_submit_def Let_def split: sum.split option.split)

lemma engine_cancel_step: "repo_step en (snd (engine_cancel env en oid))"
  using repo_step_trans [OF _ apply_order_event_step]
  by (auto simp: engine_cancel_def Let_def split: sum.split submission_state.split)

end
