(* ===== verification/Oms.thy ===== *)
theory Oms
  imports Order_Log
begin

text \<open>
  The order management system, \<^verbatim>\<open>services/oms/alpha_algo_oms\<close>: validation of a trading intent
  (\<^verbatim>\<open>validation.py\<close>), the order identity (\<^verbatim>\<open>identity.py\<close>), the execution boundary
  (\<^verbatim>\<open>boundary.py\<close>) and the service that creates an order, advances it to SUBMISSION_REQUESTED
  and requests cancellations (\<^verbatim>\<open>service.py\<close>), over the order tables of \<open>Order_Store\<close>.

  One call of the service runs in an environment: the successive readings of its clock, the
  fresh id it draws, the halt flag, the content hash, which of its write transactions fail in
  the database, and whether the execution port raises.
\<close>

section \<open>Errors, intents, orders\<close>

datatype oms_error =
    OrderValidationError string
  | TradingModeError string
  | IntentConflictError string
  | RiskApprovalError string
  | OrderNotFoundError string
  | InvalidStateTransitionError string
  | PersistenceError string
  | OmsTypeError
  | OmsLifecycleError exec_error
  | PortRaised string

record trading_intent =
  ti_correlation_id :: uuid
  ti_orchestration_id :: string
  ti_account_id :: "uuid option"
  ti_strategy_id :: "uuid option"
  ti_strategy_version :: string
  ti_strategy_config_hash :: string
  ti_strategy_run_id :: "uuid option"
  ti_signal_id :: "uuid option"
  ti_signal_identity_key :: string
  ti_instrument_id :: "uuid option"
  ti_action :: string
  ti_quantity :: decimal
  ti_order_type :: string
  ti_limit_price :: "decimal option"
  ti_trading_mode :: string
  ti_risk_decision_id :: uuid
  ti_approval_id :: "uuid option"
  ti_approval_expires_at :: datetime
  ti_binding_hash :: string
  ti_metadata :: metadata

record order_spec =
  sp_orchestration_id :: string
  sp_correlation_id :: string
  sp_signal_id :: uuid
  sp_strategy_id :: uuid
  sp_strategy_version :: string
  sp_strategy_run_id :: "uuid option"
  sp_account_id :: uuid
  sp_instrument_id :: uuid
  sp_side :: string
  sp_quantity :: int
  sp_order_type :: string
  sp_limit_price :: "decimal option"
  sp_trading_mode :: string
  sp_risk_decision_id :: uuid
  sp_risk_approval_id :: string
  sp_approval_expires_at :: datetime
  sp_binding_hash :: string
  sp_metadata :: metadata

record order_identity =
  id_internal_order_id :: uuid
  id_client_order_id :: string
  id_correlation_id :: string
  id_order_identity_key :: string

record submission_handoff =
  ho_order_id :: uuid
  ho_intent :: broker_submission_intent

record order_result =
  res_order_id :: uuid
  res_client_order_id :: string
  res_orchestration_id :: string
  res_status :: order_state
  res_duplicate :: bool
  res_created :: bool
  res_reason :: string

record oms_metrics =
  om_orders_created :: nat
  om_duplicate_intents :: nat
  om_duplicate_orders :: nat
  om_conflicts :: nat
  om_rejections :: nat
  om_state_transitions :: nat
  om_cancellation_requests :: nat
  om_persistence_failures :: nat

record oms =
  om_repository :: "order_store option"
  om_metrics :: oms_metrics
  om_handoffs :: "submission_handoff list"

record oms_env =
  ov_clock :: "nat \<Rightarrow> datetime"
  ov_halt :: bool
  ov_uuid4 :: uuid
  ov_digest :: digest
  ov_db_fail :: "nat \<Rightarrow> bool"
  ov_port :: "submission_handoff \<Rightarrow> string option"

section \<open>Validation\<close>

definition ALLOWED_MODES :: "string list" where
  "ALLOWED_MODES = [''BACKTEST'', ''PAPER'']"

definition ALLOWED_ACTIONS :: "string list" where
  "ALLOWED_ACTIONS = [''BUY'', ''SELL'', ''EXIT'']"

definition ALLOWED_ORDER_TYPES :: "string list" where
  "ALLOWED_ORDER_TYPES = [''MARKET'', ''LIMIT'', ''STOP'', ''STOP_LIMIT'']"

definition to_quantity :: "decimal \<Rightarrow> (oms_error, int) result" where
  "to_quantity v =
     (if v \<le> 0 then Inl (OrderValidationError ''quantity must be positive'')
      else if \<not> deq v (to_integral v) then Inl (OrderValidationError ''quantity must be a whole number'')
      else Inr (dec_int v))"

text \<open>The identity fields, checked in the order of the code.\<close>

definition require_identity ::
  "trading_intent \<Rightarrow> (oms_error, uuid \<times> uuid \<times> uuid \<times> uuid \<times> uuid) result" where
  "require_identity i =
     rbind (of_opt (OrderValidationError ''signal_id is required'') (ti_signal_id i)) (\<lambda>sg.
     rbind (of_opt (OrderValidationError ''strategy_id is required'') (ti_strategy_id i)) (\<lambda>st.
     rbind (of_opt (OrderValidationError ''instrument_id is required'') (ti_instrument_id i)) (\<lambda>ins.
     rbind (of_opt (OrderValidationError ''approval_id is required'') (ti_approval_id i)) (\<lambda>ap.
     rbind (of_opt (OrderValidationError ''account_id is required'') (ti_account_id i)) (\<lambda>ac.
     Inr (sg, st, ins, ap, ac))))))"

definition validate_intent ::
  "trading_intent option \<Rightarrow> datetime \<Rightarrow> bool \<Rightarrow> (oms_error, order_spec) result" where
  "validate_intent intent now halt =
     (case intent of
        None \<Rightarrow> Inl (OrderValidationError ''intent is required'')
      | Some i \<Rightarrow>
          let mode = upper (ti_trading_mode i);
              action = upper (ti_action i);
              order_type = upper (ti_order_type i) in
          rbind (guard (\<not> blank (ti_orchestration_id i)) (OrderValidationError ''orchestration_id is required'')) (\<lambda>_.
          rbind (guard (mode \<noteq> ''LIVE'') (TradingModeError ''LIVE trading is disabled (fail-closed)'')) (\<lambda>_.
          rbind (guard (mode \<in> set ALLOWED_MODES)
                   (TradingModeError (''unknown trading mode: '' @ ti_trading_mode i))) (\<lambda>_.
          rbind (guard (\<not> halt) (OrderValidationError ''global trading halt is active; order creation refused'')) (\<lambda>_.
          rbind (guard (action \<in> set ALLOWED_ACTIONS)
                   (OrderValidationError (''unsupported action: '' @ ti_action i))) (\<lambda>_.
          rbind (guard (order_type \<in> set ALLOWED_ORDER_TYPES)
                   (OrderValidationError (''unsupported order type: '' @ ti_order_type i))) (\<lambda>_.
          rbind (to_quantity (ti_quantity i)) (\<lambda>quantity.
          rbind (guard (tz_aware (ti_approval_expires_at i))
                   (OrderValidationError ''approval_expires_at must be timezone-aware'')) (\<lambda>_.
          rbind (guard (tz_aware now) OmsTypeError) (\<lambda>_.
          rbind (guard (instant now < instant (ti_approval_expires_at i))
                   (OrderValidationError ''risk approval is expired'')) (\<lambda>_.
          rbind (require_identity i) (\<lambda>(sg, st, ins, ap, ac).
          Inr \<lparr>sp_orchestration_id = ti_orchestration_id i,
               sp_correlation_id = uuid_str (ti_correlation_id i),
               sp_signal_id = sg, sp_strategy_id = st, sp_strategy_version = ti_strategy_version i,
               sp_strategy_run_id = ti_strategy_run_id i, sp_account_id = ac,
               sp_instrument_id = ins, sp_side = action, sp_quantity = quantity,
               sp_order_type = order_type, sp_limit_price = ti_limit_price i,
               sp_trading_mode = mode, sp_risk_decision_id = ti_risk_decision_id i,
               sp_risk_approval_id = uuid_str ap,
               sp_approval_expires_at = ti_approval_expires_at i,
               sp_binding_hash = ti_binding_hash i, sp_metadata = ti_metadata i\<rparr>))))))))))))"

section \<open>Identity and rows\<close>

definition opt_uuid :: "uuid option \<Rightarrow> pyval" where
  "opt_uuid u = (case u of None \<Rightarrow> PNone | Some x \<Rightarrow> PStr (uuid_str x))"

definition str_opt_uuid :: "uuid option \<Rightarrow> string" where
  "str_opt_uuid u = (case u of None \<Rightarrow> ''None'' | Some x \<Rightarrow> uuid_str x)"

definition compute_order_identity_key ::
  "digest \<Rightarrow> string \<Rightarrow> uuid option \<Rightarrow> uuid option \<Rightarrow> uuid option \<Rightarrow> uuid option \<Rightarrow> string \<Rightarrow> int
   \<Rightarrow> string \<Rightarrow> string \<Rightarrow> string \<Rightarrow> string" where
  "compute_order_identity_key dig orchestration_id signal_id strategy_id account_id instrument_id
     side quantity order_type trading_mode risk_approval_id =
     dig [(''orchestration_id'', PStr orchestration_id),
          (''signal_id'', PStr (str_opt_uuid signal_id)),
          (''strategy_id'', PStr (str_opt_uuid strategy_id)),
          (''account_id'', opt_uuid account_id),
          (''instrument_id'', PStr (str_opt_uuid instrument_id)),
          (''side'', PStr (upper side)),
          (''quantity'', PInt quantity),
          (''order_type'', PStr (upper order_type)),
          (''trading_mode'', PStr (upper trading_mode)),
          (''risk_approval_id'', PStr risk_approval_id)]"

definition make_client_order_id :: "string \<Rightarrow> string" where
  "make_client_order_id orchestration_id = ''ord-'' @ orchestration_id"

definition build_order_identity ::
  "digest \<Rightarrow> trading_intent \<Rightarrow> uuid \<Rightarrow> int \<Rightarrow> order_identity" where
  "build_order_identity dig i internal_order_id quantity =
     \<lparr>id_internal_order_id = internal_order_id,
      id_client_order_id = make_client_order_id (ti_orchestration_id i),
      id_correlation_id = uuid_str (ti_correlation_id i),
      id_order_identity_key =
        compute_order_identity_key dig (ti_orchestration_id i) (ti_signal_id i) (ti_strategy_id i)
          (ti_account_id i) (ti_instrument_id i) (ti_action i) quantity (ti_order_type i)
          (ti_trading_mode i) (str_opt_uuid (ti_approval_id i))\<rparr>"

definition to_orm_order :: "order_spec \<Rightarrow> order_identity \<Rightarrow> order_row" where
  "to_orm_order sp ident =
     \<lparr>or_id = id_internal_order_id ident, or_orchestration_id = Some (sp_orchestration_id sp),
      or_order_identity_key = Some (id_order_identity_key ident),
      or_correlation_id = Some (id_correlation_id ident), or_strategy_id = Some (sp_strategy_id sp),
      or_strategy_version = Some (sp_strategy_version sp), or_strategy_run_id = sp_strategy_run_id sp,
      or_risk_approval_id = Some (sp_risk_approval_id sp),
      or_approval_expires_at = Some (sp_approval_expires_at sp), or_signal_id = Some (sp_signal_id sp),
      or_instrument_id = sp_instrument_id sp, or_broker_account_id = sp_account_id sp,
      or_trading_mode = sp_trading_mode sp, or_client_order_id = id_client_order_id ident,
      or_broker_order_id = None, or_side = sp_side sp, or_order_type = sp_order_type sp,
      or_quantity = sp_quantity sp, or_limit_price = sp_limit_price sp, or_status = INTENT_CREATED,
      or_filled_quantity = None, or_acknowledged_at = None, or_filled_at = None,
      or_rejected_at = None, or_canceled_at = None\<rparr>"

fun order_state_value :: "order_state \<Rightarrow> string" where
  "order_state_value INTENT_CREATED = ''INTENT_CREATED''"
| "order_state_value INTERNAL_ORDER_CREATED = ''INTERNAL_ORDER_CREATED''"
| "order_state_value SUBMISSION_REQUESTED = ''SUBMISSION_REQUESTED''"
| "order_state_value BROKER_ACKNOWLEDGED = ''BROKER_ACKNOWLEDGED''"
| "order_state_value PARTIALLY_FILLED = ''PARTIALLY_FILLED''"
| "order_state_value FILLED = ''FILLED''"
| "order_state_value REJECTED = ''REJECTED''"
| "order_state_value CANCEL_REQUESTED = ''CANCEL_REQUESTED''"
| "order_state_value CANCELLED = ''CANCELLED''"
| "order_state_value UNKNOWN = ''UNKNOWN''"
| "order_state_value RECONCILIATION_REQUIRED = ''RECONCILIATION_REQUIRED''"

definition to_orm_event ::
  "uuid \<Rightarrow> string \<Rightarrow> order_state option \<Rightarrow> order_state \<Rightarrow> datetime \<Rightarrow> string \<Rightarrow> string \<Rightarrow> order_event_row" where
  "to_orm_event oid event_type previous new ts reason source_event_id =
     \<lparr>oe_order_id = oid, oe_source_event_id = Some source_event_id, oe_event_type = event_type,
      oe_previous_status = map_option order_state_value previous, oe_new_status = new,
      oe_broker_order_id = None, oe_event_timestamp = ts, oe_reason = reason, oe_content_hash = None\<rparr>"


section \<open>The service\<close>

abbreviation bump_oms :: "(oms_metrics \<Rightarrow> oms_metrics) \<Rightarrow> oms \<Rightarrow> oms" where
  "bump_oms f st \<equiv> st\<lparr>om_metrics := f (om_metrics st)\<rparr>"

definition record_created :: "oms \<Rightarrow> oms" where
  "record_created = bump_oms (\<lambda>m. m\<lparr>om_orders_created := om_orders_created m + 1\<rparr>)"
definition record_duplicate_intent :: "oms \<Rightarrow> oms" where
  "record_duplicate_intent = bump_oms (\<lambda>m. m\<lparr>om_duplicate_intents := om_duplicate_intents m + 1\<rparr>)"
definition record_duplicate_order :: "oms \<Rightarrow> oms" where
  "record_duplicate_order = bump_oms (\<lambda>m. m\<lparr>om_duplicate_orders := om_duplicate_orders m + 1\<rparr>)"
definition record_conflict :: "oms \<Rightarrow> oms" where
  "record_conflict = bump_oms (\<lambda>m. m\<lparr>om_conflicts := om_conflicts m + 1\<rparr>)"
definition record_rejection :: "oms \<Rightarrow> oms" where
  "record_rejection = bump_oms (\<lambda>m. m\<lparr>om_rejections := om_rejections m + 1\<rparr>)"
definition record_transition :: "oms \<Rightarrow> oms" where
  "record_transition = bump_oms (\<lambda>m. m\<lparr>om_state_transitions := om_state_transitions m + 1\<rparr>)"
definition record_cancellation_request :: "oms \<Rightarrow> oms" where
  "record_cancellation_request =
     bump_oms (\<lambda>m. m\<lparr>om_cancellation_requests := om_cancellation_requests m + 1\<rparr>)"
definition record_persistence_failure :: "oms \<Rightarrow> oms" where
  "record_persistence_failure =
     bump_oms (\<lambda>m. m\<lparr>om_persistence_failures := om_persistence_failures m + 1\<rparr>)"

lemmas oms_metrics_defs = record_created_def record_duplicate_intent_def record_duplicate_order_def
  record_conflict_def record_rejection_def record_transition_def record_cancellation_request_def
  record_persistence_failure_def

text \<open>The re-validation of the approval and the step to SUBMISSION_REQUESTED; \<open>k\<close> is the number of
  clock readings the call has made before.\<close>

definition service_request_submission ::
  "oms_env \<Rightarrow> nat \<Rightarrow> oms \<Rightarrow> order_lifecycle \<Rightarrow> order_spec \<Rightarrow> (oms_error, order_lifecycle) result \<times> oms" where
  "service_request_submission env k st lc sp =
     (if \<not> tz_aware (ov_clock env k) then (Inl OmsTypeError, st)
      else if instant (sp_approval_expires_at sp) \<le> instant (ov_clock env k)
      then (Inl (RiskApprovalError ''risk approval is expired''), record_rejection st)
      else if blank (sp_risk_approval_id sp)
      then (Inl (RiskApprovalError ''risk approval id is missing''), st)
      else case transition_to lc SUBMISSION_REQUESTED (ov_clock env (k + 1))
                  ''risk approval re-validated; submission requested''
                  [''risk_approval_id'' \<mapsto> PStr (sp_risk_approval_id sp)] of
             Inl _ \<Rightarrow> (Inl (InvalidStateTransitionError ''submission''), st)
           | Inr lc' \<Rightarrow> (Inr lc', st))"

definition append_transition ::
  "bool \<Rightarrow> oms \<Rightarrow> order_store \<Rightarrow> uuid \<Rightarrow> string \<Rightarrow> order_state \<Rightarrow> order_state \<Rightarrow> string \<Rightarrow> string \<Rightarrow> datetime
   \<Rightarrow> (oms_error, order_store) result \<times> oms" where
  "append_transition db_fails st s oid event_type previous new reason source_event_id ts =
     (case (if db_fails then Inl (OrderKeyError oid)
            else append_event s oid
                   (to_orm_event oid event_type (Some previous) new ts reason source_event_id) new) of
        Inl _ \<Rightarrow> (Inl (PersistenceError (''failed to persist '' @ event_type)), record_persistence_failure st)
      | Inr s' \<Rightarrow> (Inr s', record_transition (st\<lparr>om_repository := Some s'\<rparr>)))"

text \<open>\<^verbatim>\<open>ExecutionBoundary.submit\<close>: the handoff reaches the port, which may raise.\<close>

definition boundary_submit :: "oms_env \<Rightarrow> oms \<Rightarrow> submission_handoff \<Rightarrow> (oms_error, unit) result \<times> oms" where
  "boundary_submit env st h =
     ((case ov_port env h of None \<Rightarrow> Inr () | Some msg \<Rightarrow> Inl (PortRaised msg)),
      st\<lparr>om_handoffs := om_handoffs st @ [h]\<rparr>)"

definition mk_handoff :: "uuid \<Rightarrow> order_spec \<Rightarrow> datetime \<Rightarrow> (oms_error, submission_handoff) result" where
  "mk_handoff oid sp ts =
     (case uuid_parse (sp_risk_approval_id sp) of
        None \<Rightarrow> Inl (OmsLifecycleError (ExecValueError ''badly formed hexadecimal UUID string''))
      | Some ap \<Rightarrow>
          if \<not> tz_aware ts
          then Inl (OmsLifecycleError (ExecValueError ''requested_at must be timezone-aware''))
          else Inr \<lparr>ho_order_id = oid, ho_intent =
                 \<lparr>si_order_id = oid, si_signal_id = sp_signal_id sp, si_strategy_id = sp_strategy_id sp,
                  si_instrument_id = sp_instrument_id sp, si_risk_approval_id = ap,
                  si_requested_at = ts,
                  si_metadata = [''orchestration_id'' \<mapsto> PStr (sp_orchestration_id sp)]\<rparr>\<rparr>)"

definition created_result :: "uuid \<Rightarrow> order_identity \<Rightarrow> order_spec \<Rightarrow> order_state \<Rightarrow> order_result" where
  "created_result oid ident sp status =
     \<lparr>res_order_id = oid, res_client_order_id = id_client_order_id ident,
      res_orchestration_id = sp_orchestration_id sp, res_status = status, res_duplicate = False,
      res_created = True, res_reason = []\<rparr>"

text \<open>The second half of \<^verbatim>\<open>_advance_to_submission\<close>: from INTERNAL_ORDER_CREATED to
  SUBMISSION_REQUESTED and across the execution boundary.\<close>

definition submit_internal_order ::
  "oms_env \<Rightarrow> oms \<Rightarrow> order_store \<Rightarrow> uuid \<Rightarrow> order_identity \<Rightarrow> order_spec \<Rightarrow> order_lifecycle
   \<Rightarrow> (oms_error, order_result) result \<times> oms" where
  "submit_internal_order env st s oid ident sp lc =
     (case service_request_submission env 3 st lc sp of
        (Inl e, st1) \<Rightarrow> (Inl e, st1)
      | (Inr lc', st1) \<Rightarrow>
     (case append_transition (ov_db_fail env 2) st1 s oid ''SUBMISSION_REQUESTED''
             INTERNAL_ORDER_CREATED SUBMISSION_REQUESTED
             ''risk approval re-validated; submission requested''
             (sp_orchestration_id sp @ ''-submission'') (ov_clock env 5) of
        (Inl e, st2) \<Rightarrow> (Inl e, st2)
      | (Inr _, st2) \<Rightarrow>
     (case mk_handoff oid sp (ov_clock env 6) of
        Inl e \<Rightarrow> (Inl e, st2)
      | Inr h \<Rightarrow>
     (case boundary_submit env st2 h of
        (Inl e, st3) \<Rightarrow> (Inl e, st3)
      | (Inr _, st3) \<Rightarrow> (Inr (created_result oid ident sp (lc_state lc')), st3)))))"

definition advance_to_submission ::
  "oms_env \<Rightarrow> oms \<Rightarrow> order_store \<Rightarrow> uuid \<Rightarrow> order_identity \<Rightarrow> order_spec
   \<Rightarrow> (oms_error, order_result) result \<times> oms" where
  "advance_to_submission env st s oid ident sp =
     (case transition_to (new_lifecycle oid) INTERNAL_ORDER_CREATED (ov_clock env 2)
             ''internal order identity established'' Map.empty of
        Inl e \<Rightarrow> (Inl (OmsLifecycleError e), st)
      | Inr lc \<Rightarrow>
     (case append_transition (ov_db_fail env 1) st s oid ''INTERNAL_ORDER_CREATED'' INTENT_CREATED
             INTERNAL_ORDER_CREATED ''internal order created''
             (sp_orchestration_id sp @ ''-internal'') (ov_clock env 2) of
        (Inl e, st1) \<Rightarrow> (Inl e, st1)
      | (Inr s1, st1) \<Rightarrow> submit_internal_order env st1 s1 oid ident sp lc))"

definition resolve_existing ::
  "oms \<Rightarrow> order_row option \<Rightarrow> order_identity \<Rightarrow> (oms_error, order_result) result \<times> oms" where
  "resolve_existing st existing ident =
     (case existing of
        None \<Rightarrow> (Inl (OrderValidationError ''order not found during duplicate resolution''), st)
      | Some row \<Rightarrow>
          if or_order_identity_key row = Some (id_order_identity_key ident)
          then (Inr \<lparr>res_order_id = or_id row, res_client_order_id = or_client_order_id row,
                     res_orchestration_id = (case or_orchestration_id row of None \<Rightarrow> [] | Some x \<Rightarrow> x),
                     res_status = or_status row, res_duplicate = True, res_created = False,
                     res_reason = []\<rparr>, record_duplicate_intent st)
          else (Inl (IntentConflictError ''same orchestration_id with a different immutable payload''),
                record_conflict st))"

definition create_with_persistence ::
  "oms_env \<Rightarrow> oms \<Rightarrow> order_store \<Rightarrow> order_spec \<Rightarrow> order_identity
   \<Rightarrow> (oms_error, order_result) result \<times> oms" where
  "create_with_persistence env st s sp ident =
     (case find_by_orchestration_id s (sp_orchestration_id sp) of
        Some row \<Rightarrow> resolve_existing st (Some row) ident
      | None \<Rightarrow>
          let row = to_orm_order sp ident;
              ev = to_orm_event (id_internal_order_id ident) ''ORDER_CREATED'' None INTENT_CREATED
                     (ov_clock env 1) ''internal order created from validated intent''
                     (''create-'' @ sp_orchestration_id sp) in
          if ov_db_fail env 0
          then (Inl (PersistenceError ''order creation failed''), record_persistence_failure st)
          else case create_order_row s row ev of
                 ((OUTCOME_DUPLICATE, oid), s') \<Rightarrow>
                   resolve_existing (record_duplicate_order st) (Option.bind oid (find_by_id s')) ident
               | ((OUTCOME_CREATED, _), s') \<Rightarrow>
                   advance_to_submission env (record_created (st\<lparr>om_repository := Some s'\<rparr>)) s'
                     (or_id row) ident sp)"

definition create_in_memory ::
  "oms_env \<Rightarrow> oms \<Rightarrow> order_spec \<Rightarrow> order_identity \<Rightarrow> (oms_error, order_result) result \<times> oms" where
  "create_in_memory env st sp ident =
     (let st1 = record_created st in
      case transition_to (new_lifecycle (id_internal_order_id ident)) INTERNAL_ORDER_CREATED
             (ov_clock env 1) ''internal order created'' Map.empty of
        Inl e \<Rightarrow> (Inl (OmsLifecycleError e), st1)
      | Inr lc \<Rightarrow>
          (case service_request_submission env 2 st1 lc sp of
             (Inl e, st2) \<Rightarrow> (Inl e, st2)
           | (Inr lc', st2) \<Rightarrow>
               (Inr (created_result (id_internal_order_id ident) ident sp (lc_state lc')), st2)))"

definition create_order ::
  "oms_env \<Rightarrow> oms \<Rightarrow> trading_intent option \<Rightarrow> (oms_error, order_result) result \<times> oms" where
  "create_order env st intent =
     (case (intent, validate_intent intent (ov_clock env 0) (ov_halt env)) of
        (Some i, Inr sp) \<Rightarrow>
          let ident = build_order_identity (ov_digest env) i (ov_uuid4 env) (sp_quantity sp) in
          (case om_repository st of
             None \<Rightarrow> create_in_memory env st sp ident
           | Some s \<Rightarrow> create_with_persistence env st s sp ident)
      | (_, Inl e) \<Rightarrow> (Inl e, st)
      | (None, Inr _) \<Rightarrow> (Inl (OrderValidationError ''intent is required''), st))"

definition cancellable :: "order_state list" where
  "cancellable = [SUBMISSION_REQUESTED, BROKER_ACKNOWLEDGED, PARTIALLY_FILLED]"

definition request_cancellation ::
  "oms_env \<Rightarrow> oms \<Rightarrow> uuid \<Rightarrow> (oms_error, order_result) result \<times> oms" where
  "request_cancellation env st oid =
     (case om_repository st of
        None \<Rightarrow> (Inl (OrderNotFoundError ''no repository configured''), st)
      | Some s \<Rightarrow>
     (case find_by_id s oid of
        None \<Rightarrow> (Inl (OrderNotFoundError ''order not found''), st)
      | Some row \<Rightarrow>
          if or_status row \<notin> set cancellable
          then (Inl (InvalidStateTransitionError
                 (''cannot request cancellation from '' @ order_state_value (or_status row))), st)
          else
            let key = (case str_or (or_order_identity_key row) None of
                         None \<Rightarrow> uuid_str oid | Some k \<Rightarrow> k);
                ev = to_orm_event oid ''CANCEL_REQUESTED'' (Some (or_status row)) CANCEL_REQUESTED
                       (ov_clock env 0) ''cancellation requested'' (key @ ''-cancel'') in
            (case (if ov_db_fail env 0 then Inl (OrderKeyError oid)
                   else append_event s oid ev CANCEL_REQUESTED) of
               Inl _ \<Rightarrow> (Inl (PersistenceError ''failed to persist cancellation''),
                         record_persistence_failure st)
             | Inr s' \<Rightarrow>
                 (Inr \<lparr>res_order_id = oid, res_client_order_id = or_client_order_id row,
                       res_orchestration_id = (case or_orchestration_id row of None \<Rightarrow> [] | Some x \<Rightarrow> x),
                       res_status = CANCEL_REQUESTED, res_duplicate = False, res_created = False,
                       res_reason = ''cancellation requested''\<rparr>,
                  record_cancellation_request (st\<lparr>om_repository := Some s'\<rparr>)))))"

definition get_order :: "oms \<Rightarrow> uuid \<Rightarrow> order_result option" where
  "get_order st oid =
     (case om_repository st of
        None \<Rightarrow> None
      | Some s \<Rightarrow> map_option (\<lambda>row. \<lparr>res_order_id = or_id row, res_client_order_id = or_client_order_id row,
          res_orchestration_id = (case or_orchestration_id row of None \<Rightarrow> [] | Some x \<Rightarrow> x),
          res_status = or_status row, res_duplicate = False, res_created = False, res_reason = []\<rparr>)
          (find_by_id s oid))"

section \<open>Validation\<close>

definition intent_ok :: "trading_intent \<Rightarrow> datetime \<Rightarrow> bool \<Rightarrow> bool" where
  "intent_ok i now halt \<longleftrightarrow>
     \<not> blank (ti_orchestration_id i) \<and> upper (ti_trading_mode i) \<in> {''BACKTEST'', ''PAPER''} \<and> \<not> halt \<and>
     upper (ti_action i) \<in> {''BUY'', ''SELL'', ''EXIT''} \<and>
     upper (ti_order_type i) \<in> {''MARKET'', ''LIMIT'', ''STOP'', ''STOP_LIMIT''} \<and>
     0 < dval (ti_quantity i) \<and> dval (ti_quantity i) \<in> \<int> \<and>
     tz_aware (ti_approval_expires_at i) \<and> tz_aware now \<and>
     instant now < instant (ti_approval_expires_at i) \<and>
     ti_signal_id i \<noteq> None \<and> ti_strategy_id i \<noteq> None \<and> ti_instrument_id i \<noteq> None \<and>
     ti_approval_id i \<noteq> None \<and> ti_account_id i \<noteq> None"

lemma to_quantity_Inr:
  "to_quantity v = Inr q \<longleftrightarrow> 0 < dval v \<and> dval v = of_int q"
proof -
  have "dval v = of_int q \<Longrightarrow> dec_int v = q" by (rule dec_int_whole)
  then show ?thesis by (auto simp: to_quantity_def whole_iff le_decimal_iff not_le)
qed

lemma validate_intent_Inr:
  "validate_intent (Some i) now halt = Inr sp \<longleftrightarrow>
     intent_ok i now halt \<and>
     (\<exists>q sg st ins ap ac. dval (ti_quantity i) = of_int q \<and>
        ti_signal_id i = Some sg \<and> ti_strategy_id i = Some st \<and> ti_instrument_id i = Some ins \<and>
        ti_approval_id i = Some ap \<and> ti_account_id i = Some ac \<and>
        sp = \<lparr>sp_orchestration_id = ti_orchestration_id i,
               sp_correlation_id = uuid_str (ti_correlation_id i),
               sp_signal_id = sg, sp_strategy_id = st, sp_strategy_version = ti_strategy_version i,
               sp_strategy_run_id = ti_strategy_run_id i, sp_account_id = ac,
               sp_instrument_id = ins, sp_side = upper (ti_action i), sp_quantity = q,
               sp_order_type = upper (ti_order_type i), sp_limit_price = ti_limit_price i,
               sp_trading_mode = upper (ti_trading_mode i), sp_risk_decision_id = ti_risk_decision_id i,
               sp_risk_approval_id = uuid_str ap,
               sp_approval_expires_at = ti_approval_expires_at i,
               sp_binding_hash = ti_binding_hash i, sp_metadata = ti_metadata i\<rparr>)"
  unfolding validate_intent_def require_identity_def intent_ok_def
    ALLOWED_MODES_def ALLOWED_ACTIONS_def ALLOWED_ORDER_TYPES_def
  by (auto simp: Let_def result_simps to_quantity_Inr)

lemma validate_intent_ok: "is_ok (validate_intent (Some i) now halt) \<longleftrightarrow> intent_ok i now halt"
  by (auto simp: is_ok_iff validate_intent_Inr intent_ok_def elim!: Ints_cases)

text \<open>Fail-closed intake, exactly: an intent is turned into an order only when its orchestration
  id is not blank, its mode is BACKTEST or PAPER (so never LIVE), no global halt is active, its
  action and order type are supported, its quantity is a positive whole number, its approval is
  still valid and all its identity fields are there; in every other case \<^verbatim>\<open>create_order\<close> raises
  and neither the tables nor the execution boundary are touched.\<close>

theorem oms_validation_exact:
  "(is_ok (validate_intent (Some i) now halt) \<longleftrightarrow> intent_ok i now halt) \<and>
   (intent_ok i (ov_clock env 0) (ov_halt env) \<or>
      (\<exists>e. create_order env st (Some i) = (Inl e, st)))"
proof -
  have "\<exists>e. create_order env st (Some i) = (Inl e, st)" if "\<not> intent_ok i (ov_clock env 0) (ov_halt env)"
    using that validate_intent_ok [of i "ov_clock env 0" "ov_halt env"]
    by (auto simp: create_order_def is_ok_iff split: sum.split)
  then show ?thesis using validate_intent_ok by blast
qed

section \<open>The invariant of the service\<close>

text \<open>Every order handed to the execution boundary is in the table under its own risk approval, and
  no order is handed over twice.  The invariant also keeps the tables as an extension of those it
  started from.\<close>

definition handoffs_ok :: "order_store \<Rightarrow> submission_handoff list \<Rightarrow> bool" where
  "handoffs_ok s hs \<longleftrightarrow>
     distinct (map ho_order_id hs) \<and>
     (\<forall>h\<in>set hs. \<exists>row. find_by_id s (ho_order_id h) = Some row \<and>
        or_risk_approval_id row = Some (uuid_str (si_risk_approval_id (ho_intent h))))"

definition store_inv :: "order_store \<Rightarrow> order_store \<Rightarrow> submission_handoff list \<Rightarrow> bool" where
  "store_inv s0 s hs \<longleftrightarrow> log_ok s \<and> keys_unique s \<and> handoffs_ok s hs \<and> store_grown s0 s"

definition oms_inv :: "order_store \<Rightarrow> oms \<Rightarrow> bool" where
  "oms_inv s0 st \<longleftrightarrow> (\<exists>s. om_repository st = Some s \<and> store_inv s0 s (om_handoffs st))"

lemma handoffs_ok_extends:
  assumes "handoffs_ok s hs" "store_extends s s'"
  shows "handoffs_ok s' hs"
proof -
  have "\<exists>row'. find_by_id s' i = Some row' \<and> or_risk_approval_id row' = or_risk_approval_id row"
    if "find_by_id s i = Some row" for i row
    using store_extends_find [OF assms(2) that] by (force simp: order_keys_def)
  then show ?thesis using assms(1) unfolding handoffs_ok_def by fastforce
qed

lemma store_inv_append_event:
  assumes "store_inv s0 s hs" "append_event s oid ev new = Inr s'" "oe_new_status ev = new"
    and "find_by_id s oid = Some row" "new \<in> set (allowed_transitions (or_status row))"
  shows "store_inv s0 s' hs"
proof -
  have step: "store_step s s'" by (rule store_step_append_event [OF assms(2-5)])
  then have "store_grown s0 s'"
    using assms(1) by (auto simp: store_inv_def store_step_def intro: store_grown_trans)
  then show ?thesis using step assms(1) handoffs_ok_extends
    by (auto simp: store_inv_def store_step_def store_grown_def)
qed

lemma metrics_keep [simp]:
  "om_repository (record_created st) = om_repository st" "om_handoffs (record_created st) = om_handoffs st"
  "om_repository (record_duplicate_intent st) = om_repository st" "om_handoffs (record_duplicate_intent st) = om_handoffs st"
  "om_repository (record_duplicate_order st) = om_repository st" "om_handoffs (record_duplicate_order st) = om_handoffs st"
  "om_repository (record_conflict st) = om_repository st" "om_handoffs (record_conflict st) = om_handoffs st"
  "om_repository (record_rejection st) = om_repository st" "om_handoffs (record_rejection st) = om_handoffs st"
  "om_repository (record_transition st) = om_repository st" "om_handoffs (record_transition st) = om_handoffs st"
  "om_repository (record_cancellation_request st) = om_repository st"
  "om_handoffs (record_cancellation_request st) = om_handoffs st"
  "om_repository (record_persistence_failure st) = om_repository st"
  "om_handoffs (record_persistence_failure st) = om_handoffs st"
  by (simp_all add: oms_metrics_defs)

lemma oms_inv_same:
  "om_repository st' = om_repository st \<Longrightarrow> om_handoffs st' = om_handoffs st \<Longrightarrow> oms_inv s0 st' = oms_inv s0 st"
  by (simp add: oms_inv_def)

lemma resolve_existing_keeps:
  "om_repository (snd (resolve_existing st x ident)) = om_repository st"
  "om_handoffs (snd (resolve_existing st x ident)) = om_handoffs st"
  by (simp_all add: resolve_existing_def split: option.split)

lemma service_request_submission_keeps:
  "om_repository (snd (service_request_submission env k st lc sp)) = om_repository st"
  "om_handoffs (snd (service_request_submission env k st lc sp)) = om_handoffs st"
  by (simp_all add: service_request_submission_def split: sum.split)

lemma append_transition_Inr:
  assumes "append_transition f st s oid et p n re sid ts = (Inr s', st')"
  shows "append_event s oid (to_orm_event oid et (Some p) n ts re sid) n = Inr s'"
    "om_repository st' = Some s'" "om_handoffs st' = om_handoffs st"
  using assms by (auto simp: append_transition_def split: sum.splits if_splits)

lemma append_transition_Inl:
  assumes "append_transition f st s oid et p n re sid ts = (Inl e, st')"
  shows "om_repository st' = om_repository st" "om_handoffs st' = om_handoffs st"
  using assms by (auto simp: append_transition_def split: sum.splits if_splits)

lemma mk_handoff_Inr:
  assumes "mk_handoff oid sp ts = Inr h" "sp_risk_approval_id sp = uuid_str ap"
  shows "ho_order_id h = oid" "uuid_str (si_risk_approval_id (ho_intent h)) = sp_risk_approval_id sp"
  using assms uuid_str_mod by (auto simp: mk_handoff_def uuid_parse_str split: if_splits)

lemma service_request_submission_Inr:
  "service_request_submission env k st lc sp = (Inr lc', st') \<Longrightarrow> st' = st \<and> lc_state lc' = SUBMISSION_REQUESTED"
  by (auto simp: service_request_submission_def transition_to_def rbind_eq_Inr split: sum.splits if_splits)

lemma append_transition_step:
  assumes inv: "store_inv s0 s hs" and row: "find_by_id s oid = Some row" "n \<in> set (allowed_transitions (or_status row))"
    and res: "append_transition f st s oid et p n re sid ts = (Inr s', st')"
  obtains row' where "store_inv s0 s' hs" "find_by_id s' oid = Some row'" "or_status row' = n"
    "or_risk_approval_id row' = or_risk_approval_id row" "om_repository st' = Some s'" "om_handoffs st' = om_handoffs st"
proof -
  note ap = append_transition_Inr [OF res]
  have "store_inv s0 s' hs"
    by (rule store_inv_append_event [OF inv ap(1) _ row]) (simp add: to_orm_event_def)
  moreover from append_event_row [OF ap(1)] row(1) have "find_by_id s' oid = Some (row\<lparr>or_status := n\<rparr>)"
    by (metis option.inject)
  ultimately show thesis using ap(2,3) by (intro that [of "row\<lparr>or_status := n\<rparr>"]) simp_all
qed

lemma handoff_inv:
  assumes "store_inv s0 s hs" "find_by_id s oid = Some row" "or_risk_approval_id row = Some (sp_risk_approval_id sp)"
    and "sp_risk_approval_id sp = uuid_str ap" "mk_handoff oid sp ts = Inr h" "oid \<notin> ho_order_id ` set hs"
  shows "store_inv s0 s (hs @ [h])"
  using assms mk_handoff_Inr [OF assms(5,4)] by (auto simp: store_inv_def handoffs_ok_def)

lemma submit_internal_order_inv:
  assumes inv: "store_inv s0 s (om_handoffs st)" "om_repository st = Some s"
    and row: "find_by_id s oid = Some row" "or_status row = INTERNAL_ORDER_CREATED"
      "or_risk_approval_id row = Some (sp_risk_approval_id sp)" "sp_risk_approval_id sp = uuid_str ap"
    and fresh: "oid \<notin> ho_order_id ` set (om_handoffs st)"
  shows "oms_inv s0 (snd (submit_internal_order env st s oid ident sp lc))"
proof -
  obtain r1 st1 where a1: "service_request_submission env 3 st lc sp = (r1, st1)" by (metis surj_pair)
  then have keep1: "om_repository st1 = Some s" "om_handoffs st1 = om_handoffs st"
    using service_request_submission_keeps [of env 3 st lc sp] inv(2) by auto
  then have inv1: "oms_inv s0 st1" using inv(1) by (simp add: oms_inv_def)
  obtain r2 st2 where a2: "append_transition (ov_db_fail env 2) st1 s oid ''SUBMISSION_REQUESTED''
       INTERNAL_ORDER_CREATED SUBMISSION_REQUESTED ''risk approval re-validated; submission requested''
       (sp_orchestration_id sp @ ''-submission'') (ov_clock env 5) = (r2, st2)" by (metis surj_pair)
  have inv2: "oms_inv s0 st2" if "r2 = Inl e" for e
    using append_transition_Inl [OF a2 [unfolded that]] inv1 oms_inv_same by blast
  have inv3: "store_inv s0 s2 (om_handoffs st2)" "om_repository st2 = Some s2"
      "mk_handoff oid sp ts = Inr h \<Longrightarrow> store_inv s0 s2 (om_handoffs st2 @ [h])" if "r2 = Inr s2" for s2 ts h
  proof -
    have "SUBMISSION_REQUESTED \<in> set (allowed_transitions (or_status row))" by (simp add: row)
    from append_transition_step [OF inv(1) row(1) this a2 [unfolded that]] obtain row2
      where s2: "store_inv s0 s2 (om_handoffs st)" "find_by_id s2 oid = Some row2"
        "or_risk_approval_id row2 = or_risk_approval_id row" "om_repository st2 = Some s2"
        "om_handoffs st2 = om_handoffs st1" by blast
    then show "store_inv s0 s2 (om_handoffs st2)" "om_repository st2 = Some s2" using keep1(2) by simp_all
    show "store_inv s0 s2 (om_handoffs st2 @ [h])" if "mk_handoff oid sp ts = Inr h"
      using s2 keep1(2) handoff_inv [OF s2(1,2) _ row(4) that fresh] row(3) by simp
  qed
  show ?thesis using inv1 inv2 inv3
    by (auto simp: submit_internal_order_def a1 a2 boundary_submit_def oms_inv_def split: sum.split option.split)
qed

text \<open>The transitions written by \<^verbatim>\<open>_advance_to_submission\<close> are those of the state machine, because
  the order it works on has just been created.\<close>

lemma advance_to_submission_inv:
  assumes inv: "store_inv s0 s (om_handoffs st)" "om_repository st = Some s"
    and row: "find_by_id s oid = Some row" "or_status row = INTENT_CREATED"
      "or_risk_approval_id row = Some (sp_risk_approval_id sp)" "sp_risk_approval_id sp = uuid_str ap"
    and fresh: "oid \<notin> ho_order_id ` set (om_handoffs st)"
  shows "oms_inv s0 (snd (advance_to_submission env st s oid ident sp))"
proof -
  have start: "oms_inv s0 st" using inv by (simp add: oms_inv_def)
  obtain r1 st1 where a1: "append_transition (ov_db_fail env 1) st s oid ''INTERNAL_ORDER_CREATED'' INTENT_CREATED
      INTERNAL_ORDER_CREATED ''internal order created'' (sp_orchestration_id sp @ ''-internal'') (ov_clock env 2) = (r1, st1)"
    by (metis surj_pair)
  have inv1: "oms_inv s0 st1" if "r1 = Inl e" for e
    using append_transition_Inl [OF a1 [unfolded that]] start oms_inv_same by blast
  have inv2: "oms_inv s0 (snd (submit_internal_order env st1 s1 oid ident sp lc))" if "r1 = Inr s1" for s1 lc
  proof -
    have "INTERNAL_ORDER_CREATED \<in> set (allowed_transitions (or_status row))" by (simp add: row)
    from append_transition_step [OF inv(1) row(1) this a1 [unfolded that]] obtain row1
      where "store_inv s0 s1 (om_handoffs st)" "find_by_id s1 oid = Some row1" "or_status row1 = INTERNAL_ORDER_CREATED"
        "or_risk_approval_id row1 = or_risk_approval_id row" "om_repository st1 = Some s1"
        "om_handoffs st1 = om_handoffs st" by blast
    then show ?thesis using fresh row(3,4) by (intro submit_internal_order_inv [where row = row1 and ap = ap]) simp_all
  qed
  show ?thesis
  proof (cases r1)
    case (Inl e)
    then show ?thesis using start inv1 [OF Inl] a1 by (simp add: advance_to_submission_def split: sum.split)
  next
    case (Inr s1)
    then show ?thesis using start inv2 [OF Inr] a1 by (simp add: advance_to_submission_def split: sum.split)
  qed
qed

lemma to_orm_order_simps [simp]:
  "or_id (to_orm_order sp ident) = id_internal_order_id ident"
  "or_status (to_orm_order sp ident) = INTENT_CREATED"
  "or_risk_approval_id (to_orm_order sp ident) = Some (sp_risk_approval_id sp)"
  "or_orchestration_id (to_orm_order sp ident) = Some (sp_orchestration_id sp)"
  "or_order_identity_key (to_orm_order sp ident) = Some (id_order_identity_key ident)"
  by (simp_all add: to_orm_order_def)

lemma create_with_persistence_inv:
  assumes inv: "store_inv s0 s (om_handoffs st)" "om_repository st = Some s" and sp: "sp_risk_approval_id sp = uuid_str ap"
  shows "oms_inv s0 (snd (create_with_persistence env st s sp ident))"
proof -
  have start: "oms_inv s0 st" using inv by (simp add: oms_inv_def)
  let ?row = "to_orm_order sp ident"
  let ?ev = "to_orm_event (id_internal_order_id ident) ''ORDER_CREATED'' None INTENT_CREATED (ov_clock env 1)
    ''internal order created from validated intent'' (''create-'' @ sp_orchestration_id sp)"
  obtain oc oid s' where c: "create_order_row s ?row ?ev = ((oc, oid), s')" by (metis surj_pair)
  have log: "log_ok s'" using log_ok_create [of s ?row ?ev] inv(1) c by (simp add: store_inv_def to_orm_event_def)
  have adv: "oms_inv s0 (snd (advance_to_submission env (record_created (st\<lparr>om_repository := Some s'\<rparr>)) s'
      (id_internal_order_id ident) ident sp))" if "oc = OUTCOME_CREATED"
    using c
  proof (cases rule: create_order_row_cases)
    case duplicate
    then show ?thesis using that by simp
  next
    case created
    have "id_internal_order_id ident \<notin> ho_order_id ` set (om_handoffs st)"
      using created(3) inv(1) by (auto simp: store_inv_def handoffs_ok_def)
    moreover have ext: "store_extends s s'" using created(5) by (simp add: store_extends_def)
    moreover have "store_grown s0 s'"
    proof (rule store_grown_trans)
      show "store_grown s0 s" using inv(1) by (simp add: store_inv_def)
      have row: "os_events s' = os_events s @ [?ev\<lparr>oe_order_id := or_id ?row\<rparr>]" "os_orders s' = os_orders s @ [?row]"
        using c that by (auto simp: create_order_row_def Let_def split: option.splits if_splits)
      have "rows_kept s s'"
        by (rule rows_kept_set_order [OF row(1)]) (auto simp: find_by_id_def row(2) first_row_append split: option.split)
      then show "store_grown s s'" using row(1) ext by (simp add: store_grown_def)
    qed
    ultimately show ?thesis using log created(4,6) inv(1) sp handoffs_ok_extends
      by (intro advance_to_submission_inv [where row = ?row and ap = ap]) (auto simp: store_inv_def)
  qed
  have dup: "oms_inv s0 (snd (resolve_existing st' x ident))" if "om_repository st' = om_repository st"
    "om_handoffs st' = om_handoffs st" for st' x
    using oms_inv_same [of "snd (resolve_existing st' x ident)" st] start that by (simp add: resolve_existing_keeps)
  show ?thesis using start c adv dup oms_inv_same [of "record_persistence_failure st" st]
    by (cases oc) (auto simp: create_with_persistence_def Let_def split: option.split)
qed

lemma create_order_inv:
  assumes "oms_inv s0 st"
  shows "oms_inv s0 (snd (create_order env st intent))"
proof (cases "\<exists>i sp. intent = Some i \<and> validate_intent intent (ov_clock env 0) (ov_halt env) = Inr sp")
  case False
  then have "snd (create_order env st intent) = st"
    by (cases intent; cases "validate_intent intent (ov_clock env 0) (ov_halt env)") (auto simp: create_order_def)
  then show ?thesis using assms by simp
next
  case True
  then obtain i sp where i: "intent = Some i" and v: "validate_intent (Some i) (ov_clock env 0) (ov_halt env) = Inr sp"
    by blast
  from v obtain ap where ap: "sp_risk_approval_id sp = uuid_str ap" by (auto simp: validate_intent_Inr)
  obtain s where s: "om_repository st = Some s" "store_inv s0 s (om_handoffs st)" using assms by (auto simp: oms_inv_def)
  then show ?thesis using i v create_with_persistence_inv [OF s(2,1) ap]
    by (simp add: create_order_def Let_def)
qed

lemma request_cancellation_cases:
  obtains "om_repository (snd (request_cancellation env st oid)) = om_repository st"
      "om_handoffs (snd (request_cancellation env st oid)) = om_handoffs st"
  | s row ev s' where "om_repository st = Some s" "find_by_id s oid = Some row" "or_status row \<in> set cancellable"
      "append_event s oid ev CANCEL_REQUESTED = Inr s'" "oe_new_status ev = CANCEL_REQUESTED"
      "om_repository (snd (request_cancellation env st oid)) = Some s'"
      "om_handoffs (snd (request_cancellation env st oid)) = om_handoffs st"
proof (cases "om_repository st")
  case None
  then show thesis using that(1) by (simp add: request_cancellation_def)
next
  case (Some s)
  show thesis
  proof (cases "find_by_id s oid")
    case None
    then show thesis using Some that(1) by (simp add: request_cancellation_def)
  next
    case row: (Some row)
    let ?key = "case str_or (or_order_identity_key row) None of None \<Rightarrow> uuid_str oid | Some k \<Rightarrow> k"
    let ?ev = "to_orm_event oid ''CANCEL_REQUESTED'' (Some (or_status row)) CANCEL_REQUESTED
       (ov_clock env 0) ''cancellation requested'' (?key @ ''-cancel'')"
    show thesis
    proof (cases "or_status row \<in> set cancellable \<and> \<not> ov_db_fail env 0 \<and> (\<exists>s'. append_event s oid ?ev CANCEL_REQUESTED = Inr s')")
      case True
      then obtain s' where "append_event s oid ?ev CANCEL_REQUESTED = Inr s'" by blast
      then show thesis using True Some row that(2) [of s row ?ev s']
        by (simp add: request_cancellation_def Let_def) (simp add: to_orm_event_def)
    next
      case False
      then show thesis using Some row that(1)
        by (cases "append_event s oid ?ev CANCEL_REQUESTED")
           (auto simp: request_cancellation_def Let_def split: if_splits)
    qed
  qed
qed

lemma request_cancellation_inv:
  assumes "oms_inv s0 st"
  shows "oms_inv s0 (snd (request_cancellation env st oid))"
proof (cases rule: request_cancellation_cases [where env = env and st = st and oid = oid])
  case 1
  then show ?thesis using assms oms_inv_same by blast
next
  case (2 s row ev s')
  then have "CANCEL_REQUESTED \<in> set (allowed_transitions (or_status row))" by (auto simp: cancellable_def)
  then show ?thesis using 2 assms store_inv_append_event [OF _ 2(4,5,2)] by (auto simp: oms_inv_def)
qed

datatype oms_call = Call_Create oms_env "trading_intent option" | Call_Cancel oms_env uuid

fun oms_step :: "oms \<Rightarrow> oms_call \<Rightarrow> oms" where
  "oms_step st (Call_Create env intent) = snd (create_order env st intent)"
| "oms_step st (Call_Cancel env oid) = snd (request_cancellation env st oid)"

lemma oms_step_inv: "oms_inv s0 st \<Longrightarrow> oms_inv s0 (oms_step st c)"
  by (cases c) (simp_all add: create_order_inv request_cancellation_inv)

lemma oms_inv_run: "oms_inv s0 st \<Longrightarrow> oms_inv s0 (foldl oms_step st calls)"
  by (induction calls arbitrary: st) (simp_all add: oms_step_inv)

lemma store_inv_approvals:
  assumes "store_inv s0 s hs"
  shows "distinct (map (\<lambda>h. uuid_str (si_risk_approval_id (ho_intent h))) hs)"
proof -
  have "distinct hs" using assms by (auto simp: store_inv_def handoffs_ok_def distinct_map)
  moreover have "inj_on (\<lambda>h. uuid_str (si_risk_approval_id (ho_intent h))) (set hs)"
  proof (rule inj_onI)
    fix h k assume hk: "h \<in> set hs" "k \<in> set hs"
      "uuid_str (si_risk_approval_id (ho_intent h)) = uuid_str (si_risk_approval_id (ho_intent k))"
    obtain row row' where "find_by_id s (ho_order_id h) = Some row" "find_by_id s (ho_order_id k) = Some row'"
      "or_risk_approval_id row = Some (uuid_str (si_risk_approval_id (ho_intent h)))"
      "or_risk_approval_id row' = Some (uuid_str (si_risk_approval_id (ho_intent k)))"
      using assms hk(1,2) unfolding store_inv_def handoffs_ok_def by blast
    then have "ho_order_id h = ho_order_id k"
      using assms hk(3) keys_unique_approval [of s "ho_order_id h" row "ho_order_id k" row'] by (auto simp: store_inv_def)
    then show "h = k" using hk assms by (auto simp: store_inv_def handoffs_ok_def distinct_map dest: inj_onD)
  qed
  ultimately show ?thesis by (simp add: distinct_map)
qed

text \<open>C3.  A risk approval buys at most one broker submission: over any sequence of calls of the
  service, whatever intents, clocks, halts, database failures and port errors occur, the orders
  handed to the execution boundary have pairwise different ids and pairwise different risk
  approvals, each of them is stored, and the event log of every stored order is a run of the
  order state machine that ends in its status.\<close>

theorem approval_used_at_most_once:
  assumes "om_repository st = Some s" "os_orders s = []" "os_events s = []" "om_handoffs st = []"
  shows "\<exists>s'. om_repository (foldl oms_step st calls) = Some s' \<and>
    distinct (map ho_order_id (om_handoffs (foldl oms_step st calls))) \<and>
    distinct (map (\<lambda>h. uuid_str (si_risk_approval_id (ho_intent h))) (om_handoffs (foldl oms_step st calls))) \<and>
    ho_order_id ` set (om_handoffs (foldl oms_step st calls)) \<subseteq> or_id ` set (os_orders s') \<and>
    log_ok s'"
proof -
  let ?st = "foldl oms_step st calls"
  have "oms_inv s st" using assms
    by (simp add: oms_inv_def store_inv_def log_ok_def keys_unique_def handoffs_ok_def find_by_id_def)
  then have inv: "oms_inv s ?st" by (rule oms_inv_run)
  then obtain s' where s': "om_repository ?st = Some s'" "store_inv s s' (om_handoffs ?st)"
    by (auto simp: oms_inv_def)
  have "ho_order_id ` set (om_handoffs ?st) \<subseteq> or_id ` set (os_orders s')"
  proof (intro subsetI, elim imageE)
    fix i h assume "i = ho_order_id h" "h \<in> set (om_handoffs ?st)"
    with s'(2) obtain row where "find_by_id s' i = Some row" by (auto simp: store_inv_def handoffs_ok_def)
    then show "i \<in> or_id ` set (os_orders s')" by (auto simp: find_by_id_def dest!: first_row_SomeD)
  qed
  with s' store_inv_approvals [OF s'(2)] show ?thesis
    by (simp add: store_inv_def handoffs_ok_def)
qed

definition sample_intent :: trading_intent where
  "sample_intent = \<lparr>ti_correlation_id = 1, ti_orchestration_id = ''o1'', ti_account_id = Some 2,
     ti_strategy_id = Some 3, ti_strategy_version = ''v1'', ti_strategy_config_hash = ''c'',
     ti_strategy_run_id = None, ti_signal_id = Some 4, ti_signal_identity_key = ''s'',
     ti_instrument_id = Some 5, ti_action = ''BUY'', ti_quantity = Dec 10 0, ti_order_type = ''LIMIT'',
     ti_limit_price = Some (Dec 100 0), ti_trading_mode = ''PAPER'', ti_risk_decision_id = 6,
     ti_approval_id = Some 7, ti_approval_expires_at = utc 1000, ti_binding_hash = ''b'',
     ti_metadata = Map.empty\<rparr>"

definition sample_oms_env :: "uuid \<Rightarrow> int \<Rightarrow> oms_env" where
  "sample_oms_env new_id t = \<lparr>ov_clock = (\<lambda>k. utc (t + int k)), ov_halt = False, ov_uuid4 = new_id,
     ov_digest = (\<lambda>p. ''digest''), ov_db_fail = (\<lambda>_. False), ov_port = (\<lambda>_. None)\<rparr>"

definition empty_oms :: oms where
  "empty_oms = \<lparr>om_repository = Some \<lparr>os_orders = [], os_events = [], os_attempts = [], os_refs_ok = (\<lambda>_. True)\<rparr>,
     om_metrics = \<lparr>om_orders_created = 0, om_duplicate_intents = 0, om_duplicate_orders = 0, om_conflicts = 0,
       om_rejections = 0, om_state_transitions = 0, om_cancellation_requests = 0, om_persistence_failures = 0\<rparr>,
     om_handoffs = []\<rparr>"

theorem approval_used_at_most_once_witness:
  "\<exists>s'. om_repository (foldl oms_step empty_oms
       [Call_Create (sample_oms_env 11 0) (Some sample_intent), Call_Create (sample_oms_env 12 5) (Some sample_intent)]) = Some s' \<and>
     distinct (map ho_order_id (om_handoffs (foldl oms_step empty_oms
       [Call_Create (sample_oms_env 11 0) (Some sample_intent), Call_Create (sample_oms_env 12 5) (Some sample_intent)]))) \<and>
     log_ok s'"
  using approval_used_at_most_once [of empty_oms "the (om_repository empty_oms)"
      "[Call_Create (sample_oms_env 11 0) (Some sample_intent), Call_Create (sample_oms_env 12 5) (Some sample_intent)]"]
  by (simp only: empty_oms_def oms.simps order_store.simps option.sel) blast

section \<open>Replay\<close>

definition replay_key :: "order_row \<Rightarrow> uuid \<times> string option \<times> string option \<times> string" where
  "replay_key row = (or_id row, or_order_identity_key row, or_orchestration_id row, or_client_order_id row)"

lemma find_orchestration_update:
  assumes "append_event s oid ev new = Inr s'"
  shows "map_option replay_key (find_by_orchestration_id s' q) = map_option replay_key (find_by_orchestration_id s q)"
proof -
  have *: "map_option replay_key (first_row (\<lambda>row. or_orchestration_id row = Some q)
        (update_rows (\<lambda>row. or_id row = oid) (\<lambda>r. r\<lparr>or_status := new\<rparr>) rows)) =
      map_option replay_key (first_row (\<lambda>row. or_orchestration_id row = Some q) rows)" for rows
    by (induction rows) (auto simp: replay_key_def)
  show ?thesis using assms
    by (auto simp: append_event_def Let_def find_by_orchestration_id_def set_order_def * split: option.splits if_splits)
qed

lemma submit_internal_order_Inr:
  assumes "submit_internal_order env st s oid ident sp lc = (Inr res, st')"
  shows "res = created_result oid ident sp SUBMISSION_REQUESTED"
    "\<exists>s' ev. om_repository st' = Some s' \<and> append_event s oid ev SUBMISSION_REQUESTED = Inr s' \<and>
       oe_new_status ev = SUBMISSION_REQUESTED"
    "\<exists>h. om_handoffs st' = om_handoffs st @ [h] \<and> ho_order_id h = oid"
proof -
  from assms obtain lc' st1 s2 st2 h where
      a1: "service_request_submission env 3 st lc sp = (Inr lc', st1)"
    and a2: "append_transition (ov_db_fail env 2) st1 s oid ''SUBMISSION_REQUESTED'' INTERNAL_ORDER_CREATED
       SUBMISSION_REQUESTED ''risk approval re-validated; submission requested''
       (sp_orchestration_id sp @ ''-submission'') (ov_clock env 5) = (Inr s2, st2)"
    and h: "mk_handoff oid sp (ov_clock env 6) = Inr h" "ov_port env h = None"
    and r: "res = created_result oid ident sp (lc_state lc')" "st' = st2\<lparr>om_handoffs := om_handoffs st2 @ [h]\<rparr>"
    by (auto simp: submit_internal_order_def boundary_submit_def split: prod.splits sum.splits option.splits)
  note a1' = service_request_submission_Inr [OF a1] and a2' = append_transition_Inr [OF a2]
  show "res = created_result oid ident sp SUBMISSION_REQUESTED" using r a1' by simp
  show "\<exists>s' ev. om_repository st' = Some s' \<and> append_event s oid ev SUBMISSION_REQUESTED = Inr s' \<and>
       oe_new_status ev = SUBMISSION_REQUESTED"
    using a2' r by (auto simp: to_orm_event_def intro!: exI)
  have "ho_order_id h = oid" using h(1) by (auto simp: mk_handoff_def split: option.splits if_splits)
  then show "\<exists>h. om_handoffs st' = om_handoffs st @ [h] \<and> ho_order_id h = oid" using a1' a2' r by simp
qed

lemma create_order_created:
  assumes run: "create_order env st (Some i) = (Inr res, st')" and s: "om_repository st = Some s" and c: "res_created res"
  obtains q s' row where "dval (ti_quantity i) = of_int q" "om_repository st' = Some s'"
    "find_by_orchestration_id s' (ti_orchestration_id i) = Some row"
    "or_id row = res_order_id res" "res_status res = SUBMISSION_REQUESTED"
    "or_order_identity_key row = Some (id_order_identity_key (build_order_identity (ov_digest env) i (ov_uuid4 env) q))"
    "\<exists>h. om_handoffs st' = om_handoffs st @ [h] \<and> ho_order_id h = res_order_id res"
proof -
  obtain sp where v: "validate_intent (Some i) (ov_clock env 0) (ov_halt env) = Inr sp"
    using run by (auto simp: create_order_def split: sum.splits)
  then have sp: "sp_orchestration_id sp = ti_orchestration_id i" "dval (ti_quantity i) = of_int (sp_quantity sp)"
    by (auto simp: validate_intent_Inr)
  let ?id = "build_order_identity (ov_digest env) i (ov_uuid4 env) (sp_quantity sp)"
  let ?row = "to_orm_order sp ?id" and ?oid = "id_internal_order_id ?id"
  have run': "create_with_persistence env st s sp ?id = (Inr res, st')"
    using run v s by (simp add: create_order_def Let_def)
  have not_dup: "resolve_existing st'' x ?id \<noteq> (Inr res, st')" for st'' x
    using c by (auto simp: resolve_existing_def split: option.splits)
  have none: "find_by_orchestration_id s (sp_orchestration_id sp) = None"
    using run' not_dup by (auto simp: create_with_persistence_def split: option.splits)
  let ?ev = "to_orm_event ?oid ''ORDER_CREATED'' None INTENT_CREATED (ov_clock env 1)
    ''internal order created from validated intent'' (''create-'' @ sp_orchestration_id sp)"
  obtain oc j s1 where cr: "create_order_row s ?row ?ev = ((oc, j), s1)" by (metis surj_pair)
  have oc: "oc = OUTCOME_CREATED"
    and adv: "advance_to_submission env (record_created (st\<lparr>om_repository := Some s1\<rparr>)) s1 ?oid ?id sp = (Inr res, st')"
    using run' none not_dup cr
    by (cases oc; simp add: create_with_persistence_def Let_def split: if_splits)+
  have f1: "find_by_orchestration_id s1 (sp_orchestration_id sp) = Some ?row"
    using cr none oc by (auto simp: create_order_row_def find_by_orchestration_id_def first_row_append Let_def
        split: option.splits if_splits)
  from adv obtain lc s2 st2 f et re sid ts where
      ap: "append_transition f (record_created (st\<lparr>om_repository := Some s1\<rparr>)) s1 ?oid et INTENT_CREATED
         INTERNAL_ORDER_CREATED re sid ts = (Inr s2, st2)"
    and sub: "submit_internal_order env st2 s2 ?oid ?id sp lc = (Inr res, st')"
    by (auto simp: advance_to_submission_def split: sum.splits prod.splits)
  note ap' = append_transition_Inr [OF ap] and sub' = submit_internal_order_Inr [OF sub]
  obtain s3 ev3 where s3: "om_repository st' = Some s3" "append_event s2 ?oid ev3 SUBMISSION_REQUESTED = Inr s3"
    using sub'(2) by blast
  have "map_option replay_key (find_by_orchestration_id s3 (sp_orchestration_id sp)) = Some (replay_key ?row)"
    by (simp add: find_orchestration_update [OF s3(2)] find_orchestration_update [OF ap'(1)] f1)
  then obtain row where "find_by_orchestration_id s3 (ti_orchestration_id i) = Some row" "replay_key row = replay_key ?row"
    using sp(1) by auto
  then show thesis using that [of "sp_quantity sp" s3 row] sp(2) s3(1) sub'(1,3) ap'(3)
    by (simp add: replay_key_def created_result_def)
qed

lemma create_order_replay:
  assumes v: "intent_ok i (ov_clock env 0) (ov_halt env)" and s: "om_repository st = Some s"
    and q: "dval (ti_quantity i) = of_int q"
    and row: "find_by_orchestration_id s (ti_orchestration_id i) = Some row"
      "or_order_identity_key row = Some (id_order_identity_key (build_order_identity (ov_digest env) i u q))"
  shows "\<exists>res. create_order env st (Some i) = (Inr res, record_duplicate_intent st) \<and>
     res_duplicate res \<and> res_order_id res = or_id row \<and> res_status res = or_status row"
proof -
  obtain sp where sp: "validate_intent (Some i) (ov_clock env 0) (ov_halt env) = Inr sp"
    using v validate_intent_ok [of i "ov_clock env 0" "ov_halt env"] by (auto simp: is_ok_iff)
  then have "sp_orchestration_id sp = ti_orchestration_id i" "sp_quantity sp = q"
    using q by (auto simp: validate_intent_Inr)
  then show ?thesis using sp s row
    by (simp add: create_order_def create_with_persistence_def resolve_existing_def build_order_identity_def Let_def)
qed

text \<open>Creating an order is idempotent: when a call has created the order of an intent, the order
  has reached SUBMISSION_REQUESTED and been handed over once, and any later call with the same
  intent that passes validation returns the same order as a duplicate and changes neither the
  tables nor the handed-over orders.\<close>

theorem create_order_idempotent:
  assumes run: "create_order env st (Some i) = (Inr res, st')" "om_repository st = Some s" "res_created res"
    and again: "intent_ok i (ov_clock env2 0) (ov_halt env2)" "ov_digest env2 = ov_digest env"
  shows "res_status res = SUBMISSION_REQUESTED \<and>
    (\<exists>h. om_handoffs st' = om_handoffs st @ [h] \<and> ho_order_id h = res_order_id res) \<and>
    (\<exists>res2. create_order env2 st' (Some i) = (Inr res2, record_duplicate_intent st') \<and>
       res_duplicate res2 \<and> res_order_id res2 = res_order_id res)"
proof -
  obtain q s' row where c: "dval (ti_quantity i) = of_int q" "om_repository st' = Some s'"
    "find_by_orchestration_id s' (ti_orchestration_id i) = Some row"
    "or_id row = res_order_id res" "res_status res = SUBMISSION_REQUESTED"
    "or_order_identity_key row = Some (id_order_identity_key (build_order_identity (ov_digest env) i (ov_uuid4 env) q))"
    "\<exists>h. om_handoffs st' = om_handoffs st @ [h] \<and> ho_order_id h = res_order_id res"
    by (rule create_order_created [OF run])
  show ?thesis using create_order_replay [OF again(1) c(2,1,3), of "ov_uuid4 env"] c again(2) by auto
qed

text \<open>The successful evaluation of a sample intent on the empty tables.\<close>

lemma sample_intent_ok: "t < 1000 \<Longrightarrow> intent_ok sample_intent (utc t) False"
  by (simp add: intent_ok_def sample_intent_def upper_def upper_char_def Let_def blank_def is_space_def dval_def)

lemmas oms_eval = create_order_def create_with_persistence_def create_order_row_def Let_def
  find_by_orchestration_id_def event_id_taken_def advance_to_submission_def submit_internal_order_def
  append_transition_def append_event_def service_request_submission_def transition_to_def mk_transition_def
  new_lifecycle_def mk_handoff_def uuid_parse_str boundary_submit_def find_by_id_def set_order_def
  to_orm_event_def clash_def created_result_def blank_Cons is_space_def uuid_str_not_blank

lemma sample_create:
  assumes "t \<in> {0, 997}"
  obtains sp where "validate_intent (Some sample_intent) (utc t) False = Inr sp"
    "sp_orchestration_id sp = ''o1''" "sp_risk_approval_id sp = uuid_str 7" "sp_approval_expires_at sp = utc 1000"
    "sp_quantity sp = 10"
proof -
  have "intent_ok sample_intent (utc t) False" using assms by (intro sample_intent_ok) auto
  then obtain sp where sp: "validate_intent (Some sample_intent) (utc t) False = Inr sp"
    using validate_intent_ok [of sample_intent "utc t" False] by (auto simp: is_ok_iff)
  then show thesis using that by (auto simp: validate_intent_Inr sample_intent_def dval_def)
qed

lemma sample_create_run:
  obtains res st' where "create_order (sample_oms_env 11 0) empty_oms (Some sample_intent) = (Inr res, st')" "res_created res"
proof -
  obtain sp where sp: "validate_intent (Some sample_intent) (utc 0) False = Inr sp"
    "sp_orchestration_id sp = ''o1''" "sp_risk_approval_id sp = uuid_str 7" "sp_approval_expires_at sp = utc 1000"
    by (rule sample_create [of 0]) auto
  show thesis
    by (rule that, simp add: sample_oms_env_def empty_oms_def oms_eval sp, simp)
qed

theorem create_order_idempotent_witness:
  "\<exists>res st' res2. create_order (sample_oms_env 11 0) empty_oms (Some sample_intent) = (Inr res, st') \<and>
     create_order (sample_oms_env 12 5) st' (Some sample_intent) = (Inr res2, record_duplicate_intent st') \<and>
     res_duplicate res2 \<and> res_order_id res2 = res_order_id res"
proof -
  obtain res st' where r: "create_order (sample_oms_env 11 0) empty_oms (Some sample_intent) = (Inr res, st')" "res_created res"
    by (rule sample_create_run)
  have "intent_ok sample_intent (ov_clock (sample_oms_env 12 5) 0) (ov_halt (sample_oms_env 12 5))"
    using sample_intent_ok [of 5] by (simp add: sample_oms_env_def)
  from create_order_idempotent [OF r(1) _ r(2) this, of "the (om_repository empty_oms)"] r show ?thesis
    by (auto simp: empty_oms_def sample_oms_env_def)
qed

text \<open>The identity hash leaves the limit price out: an intent that repeats an orchestration id
  with another limit price is not reported as a conflict.  The call answers with the existing
  order as a duplicate and the stored limit price stays what it was.\<close>

theorem limit_price_not_in_identity:
  assumes run: "create_order env st (Some i) = (Inr res, st')" "om_repository st = Some s" "res_created res"
    and again: "intent_ok (i\<lparr>ti_limit_price := p\<rparr>) (ov_clock env2 0) (ov_halt env2)" "ov_digest env2 = ov_digest env"
  shows "\<exists>res2. create_order env2 st' (Some (i\<lparr>ti_limit_price := p\<rparr>)) = (Inr res2, record_duplicate_intent st') \<and>
       res_duplicate res2 \<and> res_order_id res2 = res_order_id res"
proof -
  obtain q s' row where c: "dval (ti_quantity i) = of_int q" "om_repository st' = Some s'"
    "find_by_orchestration_id s' (ti_orchestration_id i) = Some row" "or_id row = res_order_id res"
    "or_order_identity_key row = Some (id_order_identity_key (build_order_identity (ov_digest env) i (ov_uuid4 env) q))"
    by (rule create_order_created [OF run])
  have "build_order_identity d (i\<lparr>ti_limit_price := p\<rparr>) u q = build_order_identity d i u q" for d u
    by (simp add: build_order_identity_def)
  then show ?thesis
    using create_order_replay [OF again(1) c(2), of q row "ov_uuid4 env"] c again(2) by auto
qed

theorem limit_price_not_in_identity_witness:
  "\<exists>res st' res2. create_order (sample_oms_env 11 0) empty_oms (Some sample_intent) = (Inr res, st') \<and>
     create_order (sample_oms_env 12 5) st' (Some (sample_intent\<lparr>ti_limit_price := Some (Dec 90 0)\<rparr>)) =
       (Inr res2, record_duplicate_intent st')"
proof -
  obtain res st' where r: "create_order (sample_oms_env 11 0) empty_oms (Some sample_intent) = (Inr res, st')" "res_created res"
    by (rule sample_create_run)
  have "intent_ok (sample_intent\<lparr>ti_limit_price := p\<rparr>) (ov_clock (sample_oms_env 12 5) 0) (ov_halt (sample_oms_env 12 5))" for p
    using sample_intent_ok [of 5] by (simp add: sample_oms_env_def intent_ok_def)
  from limit_price_not_in_identity [OF r(1) _ r(2) this, of "the (om_repository empty_oms)"] r show ?thesis
    by (auto simp: empty_oms_def sample_oms_env_def)
qed

section \<open>Orders left behind\<close>

lemma stranded_by_expiry:
  assumes adv: "advance_to_submission env st s oid ident sp = (Inl (RiskApprovalError msg), st')"
    and row: "find_by_id s oid = Some row"
  obtains s' where "om_repository st' = Some s'" "find_by_id s' oid = Some (row\<lparr>or_status := INTERNAL_ORDER_CREATED\<rparr>)"
    "om_handoffs st' = om_handoffs st"
proof -
  have no: "append_transition f st1 s1 oid et p n re sid ts \<noteq> (Inl (RiskApprovalError msg), st2)" for f st1 s1 et p n re sid ts st2
    by (auto simp: append_transition_def split: sum.splits if_splits)
  from adv no obtain lc s1 st1 f et re sid ts where
      ap: "append_transition f st s oid et INTENT_CREATED INTERNAL_ORDER_CREATED re sid ts = (Inr s1, st1)"
    and sub: "submit_internal_order env st1 s1 oid ident sp lc = (Inl (RiskApprovalError msg), st')"
    by (auto simp: advance_to_submission_def split: sum.splits prod.splits)
  note ap' = append_transition_Inr [OF ap]
  have "service_request_submission env 3 st1 lc sp = (Inl (RiskApprovalError msg), st')"
    using sub no by (auto simp: submit_internal_order_def mk_handoff_def boundary_submit_def
        split: sum.splits prod.splits option.splits if_splits)
  then have "om_repository st' = Some s1" "om_handoffs st' = om_handoffs st"
    using service_request_submission_keeps [of env 3 st1 lc sp] ap'(2,3) by auto
  moreover have "find_by_id s1 oid = Some (row\<lparr>or_status := INTERNAL_ORDER_CREATED\<rparr>)"
    using append_event_row [OF ap'(1)] row by (metis option.inject)
  ultimately show thesis using that by blast
qed

text \<open>An approval that expires between the two checks of one call leaves an order behind: when
  \<^verbatim>\<open>create_order\<close> raises because the approval has expired on re-validation, the order is stored in
  INTERNAL_ORDER_CREATED, nothing has been handed over, and neither a repeated call (the row now
  answers for the orchestration id) nor a cancellation moves it on.\<close>

theorem expired_approval_strands_order:
  assumes run: "create_order env st (Some i) = (Inl (RiskApprovalError msg), st')" and s: "om_repository st = Some s"
  shows "\<exists>s' row. om_repository st' = Some s' \<and> find_by_id s' (ov_uuid4 env) = Some row \<and>
     or_orchestration_id row = Some (ti_orchestration_id i) \<and> or_status row = INTERNAL_ORDER_CREATED \<and>
     om_handoffs st' = om_handoffs st \<and>
     is_ok (fst (request_cancellation env2 st' (ov_uuid4 env))) = False"
proof -
  obtain sp where v: "validate_intent (Some i) (ov_clock env 0) (ov_halt env) = Inr sp"
    using run by (auto simp: create_order_def validate_intent_def require_identity_def to_quantity_def
        rbind_def guard_def of_opt_def Let_def split: sum.splits option.splits if_splits)
  then have sp: "sp_orchestration_id sp = ti_orchestration_id i" by (auto simp: validate_intent_Inr)
  let ?id = "build_order_identity (ov_digest env) i (ov_uuid4 env) (sp_quantity sp)"
  let ?row = "to_orm_order sp ?id"
  have oid: "id_internal_order_id ?id = ov_uuid4 env" by (simp add: build_order_identity_def)
  have run': "create_with_persistence env st s sp ?id = (Inl (RiskApprovalError msg), st')"
    using run v s by (simp add: create_order_def Let_def)
  let ?ev = "to_orm_event (ov_uuid4 env) ''ORDER_CREATED'' None INTENT_CREATED (ov_clock env 1)
    ''internal order created from validated intent'' (''create-'' @ sp_orchestration_id sp)"
  obtain oc j s1 where cr: "create_order_row s ?row ?ev = ((oc, j), s1)" by (metis surj_pair)
  have nr: "resolve_existing st'' x ?id \<noteq> (Inl (RiskApprovalError msg), st')" for st'' x
    by (auto simp: resolve_existing_def split: option.splits)
  have oc: "oc = OUTCOME_CREATED"
    and adv: "advance_to_submission env (record_created (st\<lparr>om_repository := Some s1\<rparr>)) s1 (ov_uuid4 env) ?id sp =
      (Inl (RiskApprovalError msg), st')"
    using run' nr cr oid
    by (cases oc; simp add: create_with_persistence_def Let_def split: if_splits option.splits)+
  from cr oc have f1: "find_by_id s1 (ov_uuid4 env) = Some ?row"
    by (cases rule: create_order_row_cases) (auto simp: oid)
  show ?thesis
    using stranded_by_expiry [OF adv f1] sp by (fastforce simp: request_cancellation_def cancellable_def)
qed

theorem expired_approval_strands_order_witness:
  "\<exists>st' s' row. create_order (sample_oms_env 11 997) empty_oms (Some sample_intent) =
       (Inl (RiskApprovalError ''risk approval is expired''), st') \<and>
     om_repository st' = Some s' \<and> find_by_id s' 11 = Some row \<and> or_status row = INTERNAL_ORDER_CREATED"
proof -
  obtain sp where sp: "validate_intent (Some sample_intent) (utc 997) False = Inr sp"
    "sp_orchestration_id sp = ''o1''" "sp_risk_approval_id sp = uuid_str 7" "sp_approval_expires_at sp = utc 1000"
    by (rule sample_create [of 997]) auto
  obtain st' where r: "create_order (sample_oms_env 11 997) empty_oms (Some sample_intent) =
       (Inl (RiskApprovalError ''risk approval is expired''), st')"
    by (simp add: sample_oms_env_def empty_oms_def oms_eval sp)
  from expired_approval_strands_order [OF r, of "the (om_repository empty_oms)" "sample_oms_env 1 0"] r show ?thesis
    by (auto simp: empty_oms_def sample_oms_env_def)
qed

end
