(* ===== verification/Position_Engine.thy ===== *)
theory Position_Engine
  imports Py_Decimal
begin

text \<open>
  The position engine, \<^verbatim>\<open>services/position_engine/alpha_algo_position_engine\<close>: the long-only fill
  arithmetic (\<^verbatim>\<open>arithmetic.py\<close>), the contracts (\<^verbatim>\<open>contracts.py\<close>), identities (\<^verbatim>\<open>identity.py\<close>), the
  repository over the tables \<^verbatim>\<open>positions\<close> and \<^verbatim>\<open>position_events\<close> (\<^verbatim>\<open>repository.py\<close>) and the engine that
  applies one fill (\<^verbatim>\<open>engine.py\<close>).  Money is \<open>decimal\<close>, quantities are whole numbers.  One call runs
  in an environment: the halt flag, the fresh id a new row takes, the content hash and whether the
  database fails.  The free-text \<^verbatim>\<open>reason\<close> of an event and the latency metric are dropped.
\<close>

section \<open>Contracts\<close>

datatype position_status = FLAT | OPEN | CLOSED

datatype position_event_type =
    POSITION_OPENED | POSITION_INCREASED | POSITION_DECREASED | POSITION_CLOSED | POSITION_CONFLICT

datatype position_side = LONG | SHORT

datatype position_apply_status = PA_APPLIED | PA_DUPLICATE

datatype position_error =
    PositionValidationError string
  | PositionIdentityError string
  | PositionModeError string
  | PositionConflictError string
  | PositionOverCloseError int int
  | PositionPersistenceError string
  | DuplicateApplyError
  | PositionValueError string
  | PositionInvalidOperation

record position_fill =
  pf_execution_id :: string
  pf_order_id :: uuid
  pf_account_id :: uuid
  pf_instrument_id :: uuid
  pf_strategy_run_id :: uuid
  pf_trading_mode :: string
  pf_side :: string
  pf_quantity :: decimal
  pf_price :: decimal
  pf_occurred_at :: datetime

text \<open>\<^verbatim>\<open>PositionFill.__post_init__\<close>\<close>

definition mk_position_fill :: "position_fill \<Rightarrow> (position_error, position_fill) result" where
  "mk_position_fill f =
     (if blank (pf_execution_id f) then Inl (PositionValueError ''execution_id is required'')
      else if blank (pf_trading_mode f) then Inl (PositionValueError ''trading_mode is required'')
      else if pf_side f \<notin> {''BUY'', ''SELL''} then Inl (PositionValueError ''side must be BUY or SELL'')
      else if pf_quantity f \<le> 0 then Inl (PositionValueError ''quantity must be positive'')
      else if pf_price f \<le> 0 then Inl (PositionValueError ''price must be positive'')
      else if \<not> tz_aware (pf_occurred_at f)
      then Inl (PositionValueError ''occurred_at must be timezone-aware'')
      else Inr f)"

record position_identity =
  pi_strategy_run_id :: uuid
  pi_instrument_id :: uuid
  pi_trading_mode :: string

record position_state =
  ps_position_id :: "uuid option"
  ps_strategy_run_id :: uuid
  ps_instrument_id :: uuid
  ps_trading_mode :: string
  ps_quantity :: int
  ps_average_price :: "decimal option"
  ps_status :: position_status
  ps_opened_at :: "datetime option"
  ps_closed_at :: "datetime option"
  ps_last_execution_id :: "string option"
  ps_account_id :: "uuid option"

record position_snapshot =
  sn_position_id :: "uuid option"
  sn_account_id :: "uuid option"
  sn_instrument_id :: uuid
  sn_strategy_run_id :: uuid
  sn_trading_mode :: string
  sn_side :: "position_side option"
  sn_quantity :: int
  sn_average_price :: "decimal option"
  sn_status :: position_status
  sn_opened_at :: "datetime option"
  sn_closed_at :: "datetime option"
  sn_last_execution_id :: "string option"

record position_result =
  prs_status :: position_apply_status
  prs_event_type :: "position_event_type option"
  prs_snapshot :: position_snapshot
  prs_quantity_before :: int
  prs_quantity_after :: int
  prs_duplicate :: bool

section \<open>Arithmetic\<close>

text \<open>\<^verbatim>\<open>round_price\<close>: four decimals, half to even; the quantisation raises \<^verbatim>\<open>InvalidOperation\<close> when the
  result needs more than 28 digits.\<close>

definition round_price :: "decimal \<Rightarrow> (position_error, decimal) result" where
  "round_price v = of_opt PositionInvalidOperation (quantize (-4) v)"

definition weighted_average ::
  "int \<Rightarrow> decimal option \<Rightarrow> int \<Rightarrow> decimal \<Rightarrow> (position_error, decimal) result" where
  "weighted_average prev_q previous_average fill_quantity fill_price =
     (if fill_quantity \<le> 0 then Inl (PositionValueError ''fill_quantity must be positive'')
      else case previous_average of
        None \<Rightarrow> round_price fill_price
      | Some avg \<Rightarrow>
          if prev_q = 0 then round_price fill_price
          else let total_notional = dec_of_int prev_q * avg + dec_of_int fill_quantity * fill_price in
               rbind (of_opt PositionInvalidOperation (ddiv total_notional (dec_of_int (prev_q + fill_quantity))))
                 round_price)"

record position_delta =
  dl_quantity :: int
  dl_average_price :: "decimal option"
  dl_status :: position_status
  dl_opened_at :: "datetime option"
  dl_closed_at :: "datetime option"
  dl_event_type :: position_event_type

definition apply_buy ::
  "int \<Rightarrow> decimal option \<Rightarrow> datetime option \<Rightarrow> int \<Rightarrow> decimal \<Rightarrow> datetime
   \<Rightarrow> (position_error, position_delta) result" where
  "apply_buy quantity average_price opened_at fill_quantity fill_price occurred_at =
     (if fill_quantity \<le> 0 then Inl (PositionValueError ''fill_quantity must be positive'')
      else rbind (weighted_average quantity average_price fill_quantity fill_price) (\<lambda>avg.
        Inr \<lparr>dl_quantity = quantity + fill_quantity, dl_average_price = Some avg, dl_status = OPEN,
             dl_opened_at = (if quantity = 0 then Some occurred_at else opened_at),
             dl_closed_at = None,
             dl_event_type = (if quantity = 0 then POSITION_OPENED else POSITION_INCREASED)\<rparr>))"

definition over_close_message :: string where
  "over_close_message = ''SELL fill exceeds open long quantity (over-close)''"

definition apply_sell ::
  "int \<Rightarrow> decimal option \<Rightarrow> datetime option \<Rightarrow> int \<Rightarrow> datetime \<Rightarrow> (position_error, position_delta) result" where
  "apply_sell quantity average_price opened_at fill_quantity occurred_at =
     (if fill_quantity \<le> 0 then Inl (PositionValueError ''fill_quantity must be positive'')
      else if quantity < fill_quantity then Inl (PositionValueError over_close_message)
      else if quantity - fill_quantity = 0
      then Inr \<lparr>dl_quantity = 0, dl_average_price = None, dl_status = CLOSED, dl_opened_at = opened_at,
                dl_closed_at = Some occurred_at, dl_event_type = POSITION_CLOSED\<rparr>
      else Inr \<lparr>dl_quantity = quantity - fill_quantity, dl_average_price = average_price,
                dl_status = OPEN, dl_opened_at = opened_at, dl_closed_at = None,
                dl_event_type = POSITION_DECREASED\<rparr>)"

section \<open>Identity\<close>

definition build_position_identity :: "uuid \<Rightarrow> uuid \<Rightarrow> string \<Rightarrow> position_identity" where
  "build_position_identity run ins mode =
     \<lparr>pi_strategy_run_id = run, pi_instrument_id = ins, pi_trading_mode = upper mode\<rparr>"

definition fill_identity :: "position_fill \<Rightarrow> position_identity" where
  "fill_identity f = build_position_identity (pf_strategy_run_id f) (pf_instrument_id f) (pf_trading_mode f)"

definition fill_content_hash :: "digest \<Rightarrow> position_fill \<Rightarrow> string" where
  "fill_content_hash dig f =
     dig [(''side'', PStr (upper (pf_side f))), (''quantity'', PDec (pf_quantity f)),
          (''price'', PDec (pf_price f)), (''occurred_at'', PTime (pf_occurred_at f))]"

text \<open>\<^verbatim>\<open>normalize_fill\<close>: the handoff from the execution engine; a fill whose order has no strategy run is
  refused.\<close>

definition normalize_fill ::
  "string \<Rightarrow> uuid \<Rightarrow> uuid \<Rightarrow> uuid \<Rightarrow> uuid option \<Rightarrow> string \<Rightarrow> string \<Rightarrow> decimal \<Rightarrow> decimal \<Rightarrow> datetime
   \<Rightarrow> (position_error, position_fill) result" where
  "normalize_fill eid oid acc ins run mode side q p ts =
     (case run of
        None \<Rightarrow> Inl (PositionIdentityError ''cannot attribute fill to a position: strategy_run_id is missing'')
      | Some r \<Rightarrow> mk_position_fill
          \<lparr>pf_execution_id = eid, pf_order_id = oid, pf_account_id = acc, pf_instrument_id = ins,
           pf_strategy_run_id = r, pf_trading_mode = mode, pf_side = side, pf_quantity = q,
           pf_price = p, pf_occurred_at = ts\<rparr>)"

section \<open>Tables and repository\<close>

record position_row =
  pr_id :: uuid
  pr_strategy_run_id :: uuid
  pr_broker_account_id :: "uuid option"
  pr_instrument_id :: uuid
  pr_trading_mode :: string
  pr_quantity :: int
  pr_average_price :: "decimal option"
  pr_opened_at :: "datetime option"
  pr_closed_at :: "datetime option"
  pr_status :: position_status
  pr_last_execution_id :: "string option"

record position_event_row =
  pv_position_id :: uuid
  pv_source_event_id :: string
  pv_event_type :: position_event_type
  pv_quantity_before :: int
  pv_quantity_after :: int
  pv_event_timestamp :: datetime
  pv_content_hash :: "string option"

record position_store =
  pt_positions :: "position_row list"
  pt_events :: "position_event_row list"
  pt_refs_ok :: "position_row \<Rightarrow> bool"

definition position_where :: "position_identity \<Rightarrow> position_row \<Rightarrow> bool" where
  "position_where i r \<longleftrightarrow> pr_strategy_run_id r = pi_strategy_run_id i \<and>
     pr_instrument_id r = pi_instrument_id i \<and> pr_trading_mode r = pi_trading_mode i"

definition to_state :: "position_row \<Rightarrow> position_state" where
  "to_state r =
     \<lparr>ps_position_id = Some (pr_id r), ps_strategy_run_id = pr_strategy_run_id r,
      ps_instrument_id = pr_instrument_id r, ps_trading_mode = pr_trading_mode r,
      ps_quantity = pr_quantity r, ps_average_price = pr_average_price r, ps_status = pr_status r,
      ps_opened_at = pr_opened_at r, ps_closed_at = pr_closed_at r,
      ps_last_execution_id = pr_last_execution_id r, ps_account_id = pr_broker_account_id r\<rparr>"

definition fill_event_row :: "position_store \<Rightarrow> string \<Rightarrow> position_event_row option" where
  "fill_event_row s eid = first_row (\<lambda>e. pv_source_event_id e = eid) (pt_events s)"

definition find_fill_hash :: "position_store \<Rightarrow> string \<Rightarrow> string option" where
  "find_fill_hash s eid = Option.bind (fill_event_row s eid) pv_content_hash"

definition find_position :: "position_store \<Rightarrow> position_identity \<Rightarrow> position_row option" where
  "find_position s i = first_row (position_where i) (pt_positions s)"

definition load_position :: "position_store \<Rightarrow> position_identity \<Rightarrow> position_state option" where
  "load_position s i = map_option to_state (find_position s i)"

definition load_position_by_id :: "position_store \<Rightarrow> uuid \<Rightarrow> position_state option" where
  "load_position_by_id s i = map_option to_state (first_row (\<lambda>r. pr_id r = i) (pt_positions s))"

definition list_positions :: "position_store \<Rightarrow> uuid option \<Rightarrow> string option \<Rightarrow> position_state list" where
  "list_positions s run mode =
     map to_state (filter (\<lambda>r. (case run of None \<Rightarrow> True | Some x \<Rightarrow> pr_strategy_run_id r = x) \<and>
       (case mode of None \<Rightarrow> True | Some m \<Rightarrow> pr_trading_mode r = m)) (pt_positions s))"

record position_event_data =
  ed_event_type :: position_event_type
  ed_quantity_before :: int
  ed_quantity_after :: int
  ed_execution_id :: string
  ed_content_hash :: string
  ed_occurred_at :: datetime

definition new_position_row :: "uuid \<Rightarrow> position_state \<Rightarrow> position_row" where
  "new_position_row new_id st =
     \<lparr>pr_id = (case ps_position_id st of None \<Rightarrow> new_id | Some i \<Rightarrow> i),
      pr_strategy_run_id = ps_strategy_run_id st, pr_broker_account_id = ps_account_id st,
      pr_instrument_id = ps_instrument_id st, pr_trading_mode = ps_trading_mode st,
      pr_quantity = ps_quantity st, pr_average_price = ps_average_price st,
      pr_opened_at = ps_opened_at st, pr_closed_at = ps_closed_at st, pr_status = ps_status st,
      pr_last_execution_id = ps_last_execution_id st\<rparr>"

definition apply_state :: "position_state \<Rightarrow> position_row \<Rightarrow> position_row" where
  "apply_state st r = r\<lparr>pr_broker_account_id := ps_account_id st, pr_quantity := ps_quantity st,
     pr_average_price := ps_average_price st, pr_opened_at := ps_opened_at st,
     pr_closed_at := ps_closed_at st, pr_status := ps_status st,
     pr_last_execution_id := ps_last_execution_id st\<rparr>"

definition new_event_row :: "uuid \<Rightarrow> position_event_data \<Rightarrow> position_event_row" where
  "new_event_row pid e =
     \<lparr>pv_position_id = pid, pv_source_event_id = ed_execution_id e, pv_event_type = ed_event_type e,
      pv_quantity_before = ed_quantity_before e, pv_quantity_after = ed_quantity_after e,
      pv_event_timestamp = ed_occurred_at e, pv_content_hash = Some (ed_content_hash e)\<rparr>"

text \<open>\<^verbatim>\<open>persist_apply\<close>: the position row and the event row in one transaction.  The state written was
  computed before the row was locked; it is not recomputed here.\<close>

definition persist_apply ::
  "bool \<Rightarrow> uuid \<Rightarrow> position_store \<Rightarrow> position_identity \<Rightarrow> position_state \<Rightarrow> position_event_data
   \<Rightarrow> (position_error, position_store) result" where
  "persist_apply db_fails new_id s i st ev =
     (if db_fails then Inl (PositionPersistenceError ''position apply failed'')
      else case find_position s i of
        None \<Rightarrow>
          let row = new_position_row new_id st in
          if (\<exists>r\<in>set (pt_positions s). pr_id r = pr_id row \<or>
                (pr_strategy_run_id r = pr_strategy_run_id row \<and> pr_instrument_id r = pr_instrument_id row
                 \<and> pr_trading_mode r = pr_trading_mode row))
             \<or> \<not> pt_refs_ok s row \<or> fill_event_row s (ed_execution_id ev) \<noteq> None
          then Inl DuplicateApplyError
          else Inr (s\<lparr>pt_positions := pt_positions s @ [row],
                      pt_events := pt_events s @ [new_event_row (pr_id row) ev]\<rparr>)
      | Some row \<Rightarrow>
          if \<not> pt_refs_ok s (apply_state st row) \<or> fill_event_row s (ed_execution_id ev) \<noteq> None
          then Inl DuplicateApplyError
          else Inr (s\<lparr>pt_positions := update_rows (position_where i) (apply_state st) (pt_positions s),
                      pt_events := pt_events s @ [new_event_row (pr_id row) ev]\<rparr>))"

definition record_conflict_row :: "position_store \<Rightarrow> position_fill \<Rightarrow> position_store" where
  "record_conflict_row s f =
     (let by_key = map_option pr_id (find_position s
            \<lparr>pi_strategy_run_id = pf_strategy_run_id f, pi_instrument_id = pf_instrument_id f,
             pi_trading_mode = pf_trading_mode f\<rparr>);
          pid = (case fill_event_row s (pf_execution_id f) of
                   Some e \<Rightarrow> Some (pv_position_id e) | None \<Rightarrow> by_key) in
      case pid of
        None \<Rightarrow> s
      | Some p \<Rightarrow>
          if fill_event_row s (''conflict-'' @ pf_execution_id f) \<noteq> None then s
          else s\<lparr>pt_events := pt_events s @
            [\<lparr>pv_position_id = p, pv_source_event_id = ''conflict-'' @ pf_execution_id f,
              pv_event_type = POSITION_CONFLICT, pv_quantity_before = 0, pv_quantity_after = 0,
              pv_event_timestamp = pf_occurred_at f, pv_content_hash = None\<rparr>]\<rparr>)"

section \<open>The engine\<close>

record position_metrics =
  pm_opened :: nat
  pm_increased :: nat
  pm_decreased :: nat
  pm_closed :: nat
  pm_duplicate_fills :: nat
  pm_conflicting_fills :: nat
  pm_rejected_fills :: nat

record position_engine =
  pe_repository :: "position_store option"
  pe_metrics :: position_metrics

record position_env =
  pn_halt :: bool
  pn_uuid4 :: uuid
  pn_digest :: digest
  pn_db_fail :: bool

abbreviation bump_position :: "(position_metrics \<Rightarrow> position_metrics) \<Rightarrow> position_engine \<Rightarrow> position_engine" where
  "bump_position f st \<equiv> st\<lparr>pe_metrics := f (pe_metrics st)\<rparr>"

definition pos_record_rejection :: "position_engine \<Rightarrow> position_engine" where
  "pos_record_rejection = bump_position (\<lambda>m. m\<lparr>pm_rejected_fills := pm_rejected_fills m + 1\<rparr>)"

definition pos_record_duplicate :: "position_engine \<Rightarrow> position_engine" where
  "pos_record_duplicate = bump_position (\<lambda>m. m\<lparr>pm_duplicate_fills := pm_duplicate_fills m + 1\<rparr>)"

definition pos_record_conflict :: "position_engine \<Rightarrow> position_engine" where
  "pos_record_conflict = bump_position (\<lambda>m. m\<lparr>pm_conflicting_fills := pm_conflicting_fills m + 1\<rparr>)"

definition record_event :: "position_event_type \<Rightarrow> position_engine \<Rightarrow> position_engine" where
  "record_event t = (case t of
       POSITION_OPENED \<Rightarrow> bump_position (\<lambda>m. m\<lparr>pm_opened := pm_opened m + 1\<rparr>)
     | POSITION_INCREASED \<Rightarrow> bump_position (\<lambda>m. m\<lparr>pm_increased := pm_increased m + 1\<rparr>)
     | POSITION_DECREASED \<Rightarrow> bump_position (\<lambda>m. m\<lparr>pm_decreased := pm_decreased m + 1\<rparr>)
     | POSITION_CLOSED \<Rightarrow> bump_position (\<lambda>m. m\<lparr>pm_closed := pm_closed m + 1\<rparr>)
     | POSITION_CONFLICT \<Rightarrow> id)"

definition validate_fill :: "position_env \<Rightarrow> position_fill \<Rightarrow> (position_error, unit) result" where
  "validate_fill env f =
     (let mode = upper (pf_trading_mode f) in
      if mode = ''LIVE'' then Inl (PositionModeError ''LIVE trading is disabled (fail-closed)'')
      else if mode \<notin> {''BACKTEST'', ''PAPER''}
      then Inl (PositionModeError (''unknown trading mode: '' @ pf_trading_mode f))
      else if pn_halt env
      then Inl (PositionValidationError ''global trading halt is active; position updates refused'')
      else if pf_side f \<notin> {''BUY'', ''SELL''}
      then Inl (PositionValidationError (''unsupported side: '' @ pf_side f))
      else if pf_quantity f \<le> 0 then Inl (PositionValidationError ''fill quantity must be positive'')
      else if \<not> deq (pf_quantity f) (to_integral (pf_quantity f))
      then Inl (PositionValidationError ''fill quantity must be a whole number'')
      else if pf_price f \<le> 0 then Inl (PositionValidationError ''fill price must be positive'')
      else Inr ())"

record position_apply_plan =
  pl_new_state :: position_state
  pl_event :: position_event_data

definition fill_delta :: "position_state option \<Rightarrow> position_fill \<Rightarrow> (position_error, position_delta) result" where
  "fill_delta current f =
     (let q = dec_int (pf_quantity f) in
      case current of
        None \<Rightarrow>
          if pf_side f = ''SELL'' then Inl (PositionOverCloseError 0 q)
          else apply_buy 0 None None q (pf_price f) (pf_occurred_at f)
      | Some c \<Rightarrow>
          if ps_account_id c \<noteq> None \<and> ps_account_id c \<noteq> Some (pf_account_id f)
          then Inl (PositionIdentityError ''fill account does not match existing position account'')
          else if pf_side f = ''BUY''
          then apply_buy (ps_quantity c) (ps_average_price c) (ps_opened_at c) q (pf_price f) (pf_occurred_at f)
          else case apply_sell (ps_quantity c) (ps_average_price c) (ps_opened_at c) q (pf_occurred_at f) of
                 Inl e \<Rightarrow> if e = PositionValueError over_close_message
                           then Inl (PositionOverCloseError (ps_quantity c) q) else Inl e
               | Inr d \<Rightarrow> Inr d)"

definition compute_plan ::
  "digest \<Rightarrow> position_state option \<Rightarrow> position_fill \<Rightarrow> (position_error, position_apply_plan) result" where
  "compute_plan dig current f =
     rbind (fill_delta current f) (\<lambda>d. Inr
       \<lparr>pl_new_state =
          \<lparr>ps_position_id = Option.bind current ps_position_id,
           ps_strategy_run_id = (case current of None \<Rightarrow> pf_strategy_run_id f | Some c \<Rightarrow> ps_strategy_run_id c),
           ps_instrument_id = (case current of None \<Rightarrow> pf_instrument_id f | Some c \<Rightarrow> ps_instrument_id c),
           ps_trading_mode = (case current of None \<Rightarrow> upper (pf_trading_mode f) | Some c \<Rightarrow> ps_trading_mode c),
           ps_quantity = dl_quantity d, ps_average_price = dl_average_price d, ps_status = dl_status d,
           ps_opened_at = dl_opened_at d, ps_closed_at = dl_closed_at d,
           ps_last_execution_id = Some (pf_execution_id f),
           ps_account_id = (case current of None \<Rightarrow> Some (pf_account_id f)
                            | Some c \<Rightarrow> if ps_account_id c \<noteq> None then ps_account_id c else Some (pf_account_id f))\<rparr>,
        pl_event =
          \<lparr>ed_event_type = dl_event_type d,
           ed_quantity_before = (case current of None \<Rightarrow> 0 | Some c \<Rightarrow> ps_quantity c),
           ed_quantity_after = dl_quantity d, ed_execution_id = pf_execution_id f,
           ed_content_hash = fill_content_hash dig f, ed_occurred_at = pf_occurred_at f\<rparr>\<rparr>)"

definition to_snapshot :: "position_state \<Rightarrow> position_snapshot" where
  "to_snapshot st =
     \<lparr>sn_position_id = ps_position_id st, sn_account_id = ps_account_id st,
      sn_instrument_id = ps_instrument_id st, sn_strategy_run_id = ps_strategy_run_id st,
      sn_trading_mode = ps_trading_mode st, sn_side = (if 0 < ps_quantity st then Some LONG else None),
      sn_quantity = ps_quantity st, sn_average_price = ps_average_price st, sn_status = ps_status st,
      sn_opened_at = ps_opened_at st, sn_closed_at = ps_closed_at st,
      sn_last_execution_id = ps_last_execution_id st\<rparr>"

definition flat_snapshot :: "uuid \<Rightarrow> uuid \<Rightarrow> string \<Rightarrow> position_snapshot" where
  "flat_snapshot run ins mode =
     \<lparr>sn_position_id = None, sn_account_id = None, sn_instrument_id = ins, sn_strategy_run_id = run,
      sn_trading_mode = upper mode, sn_side = None, sn_quantity = 0, sn_average_price = None,
      sn_status = FLAT, sn_opened_at = None, sn_closed_at = None, sn_last_execution_id = None\<rparr>"

definition resolve_replay ::
  "position_env \<Rightarrow> position_engine \<Rightarrow> position_store \<Rightarrow> position_fill \<Rightarrow> string option
   \<Rightarrow> (position_error, position_result) result \<times> position_engine" where
  "resolve_replay env st s f stored_hash =
     (if stored_hash = Some (fill_content_hash (pn_digest env) f)
      then let current = load_position s (fill_identity f);
               qty = (case current of None \<Rightarrow> 0 | Some c \<Rightarrow> ps_quantity c) in
           (Inr \<lparr>prs_status = PA_DUPLICATE, prs_event_type = None,
                 prs_snapshot = (case current of
                    None \<Rightarrow> flat_snapshot (pf_strategy_run_id f) (pf_instrument_id f) (pf_trading_mode f)
                  | Some c \<Rightarrow> to_snapshot c),
                 prs_quantity_before = qty, prs_quantity_after = qty, prs_duplicate = True\<rparr>,
            pos_record_duplicate st)
      else (Inl (PositionConflictError (pf_execution_id f)),
            pos_record_conflict (st\<lparr>pe_repository := Some (record_conflict_row s f)\<rparr>)))"

text \<open>The errors of \<^verbatim>\<open>_compute_plan\<close> that are counted as rejections.\<close>

definition count_plan_error :: "position_error \<Rightarrow> position_engine \<Rightarrow> position_engine" where
  "count_plan_error e st =
     (case e of PositionOverCloseError _ _ \<Rightarrow> pos_record_rejection st
      | PositionIdentityError _ \<Rightarrow> pos_record_rejection st | _ \<Rightarrow> st)"

definition apply_fill ::
  "position_env \<Rightarrow> position_engine \<Rightarrow> position_fill \<Rightarrow> (position_error, position_result) result \<times> position_engine" where
  "apply_fill env st f =
     (case validate_fill env f of
        Inl e \<Rightarrow> (Inl e, pos_record_rejection st)
      | Inr _ \<Rightarrow>
     (case pe_repository st of
        None \<Rightarrow> (Inl (PositionPersistenceError ''no position repository configured''), st)
      | Some s \<Rightarrow>
     (case find_fill_hash s (pf_execution_id f) of
        Some h \<Rightarrow> resolve_replay env st s f (Some h)
      | None \<Rightarrow>
     (case compute_plan (pn_digest env) (load_position s (fill_identity f)) f of
        Inl e \<Rightarrow> (Inl e, count_plan_error e st)
      | Inr plan \<Rightarrow>
     (case persist_apply (pn_db_fail env) (pn_uuid4 env) s (fill_identity f) (pl_new_state plan) (pl_event plan) of
        Inl DuplicateApplyError \<Rightarrow> resolve_replay env st s f (find_fill_hash s (pf_execution_id f))
      | Inl e \<Rightarrow> (Inl e, st)
      | Inr s' \<Rightarrow>
          (Inr \<lparr>prs_status = PA_APPLIED, prs_event_type = Some (ed_event_type (pl_event plan)),
                prs_snapshot = to_snapshot (pl_new_state plan),
                prs_quantity_before = ed_quantity_before (pl_event plan),
                prs_quantity_after = ed_quantity_after (pl_event plan), prs_duplicate = False\<rparr>,
           record_event (ed_event_type (pl_event plan)) (st\<lparr>pe_repository := Some s'\<rparr>)))))))"

definition get_position :: "position_engine \<Rightarrow> uuid \<Rightarrow> uuid \<Rightarrow> string \<Rightarrow> position_snapshot" where
  "get_position st run ins mode =
     (case Option.bind (pe_repository st) (\<lambda>s. load_position s (build_position_identity run ins mode)) of
        None \<Rightarrow> flat_snapshot run ins mode
      | Some c \<Rightarrow> to_snapshot c)"

section \<open>The average price\<close>

lemma weighted_average_between:
  assumes q: "0 < q" "0 < f" "q + f \<le> 2 ^ 31"
    and a: "money_grid a" "0 < dval a" and p: "money_grid p" "0 < dval p"
  obtains r where "weighted_average q (Some a) f p = Inr r" "money_grid r"
    "min (dval a) (dval p) \<le> dval r" "dval r \<le> max (dval a) (dval p)"
proof -
  define lo where "lo = (if dval a \<le> dval p then a else p)"
  define hi where "hi = (if dval a \<le> dval p then p else a)"
  have lohi: "money_grid lo" "money_grid hi" "dval lo = min (dval a) (dval p)" "dval hi = max (dval a) (dval p)"
    using a p by (auto simp: lo_def hi_def)
  let ?t = "dec_of_int q * a + dec_of_int f * p" and ?n = "dec_of_int (q + f)"
  have t: "dval ?t = of_int q * dval a + of_int f * dval p"
    using q a p by (intro dval_notional_sum) auto
  then have pos: "0 < dval ?t" "0 < dval ?n" using q a p by (auto intro: add_pos_pos)
  obtain z where z: "ddiv ?t ?n = Some z" using ddiv_defined [OF pos(2)] by blast
  have n: "dval ?n = of_int q + of_int f" by simp
  have "of_int q * dval lo + of_int f * dval lo \<le> of_int q * dval a + of_int f * dval p"
    using q lohi(3) by (intro add_mono mult_left_mono) auto
  then have "dval lo \<le> dval ?t / dval ?n" using q by (simp add: t n field_simps)
  then have zlo: "dval lo \<le> dval z" using ddiv_ge [OF pos z money_grid_rep28 [OF lohi(1)]] by simp
  have "of_int q * dval a + of_int f * dval p \<le> of_int q * dval hi + of_int f * dval hi"
    using q lohi(4) by (intro add_mono mult_left_mono) auto
  then have "dval ?t / dval ?n \<le> dval hi" using q by (simp add: t n field_simps)
  then have zhi: "dval z \<le> dval hi" using ddiv_le [OF pos z money_grid_rep28 [OF lohi(2)]] by simp
  obtain r where r: "quantize (-4) z = Some r" "dval lo \<le> dval r" "dval r \<le> dval hi" "money_grid r"
    using quantize_money [OF lohi(1,2) zlo zhi] by blast
  have "weighted_average q (Some a) f p = Inr r"
    using q z r(1) by (simp add: weighted_average_def round_price_def Let_def)
  then show thesis using that r lohi by metis
qed

section \<open>What one call does\<close>

lemma pos_metrics_keep [simp]:
  "pe_repository (pos_record_rejection st) = pe_repository st" "pe_repository (pos_record_duplicate st) = pe_repository st"
  "pe_repository (pos_record_conflict st) = pe_repository st" "pe_repository (record_event t st) = pe_repository st"
  "pe_repository (count_plan_error e st) = pe_repository st"
  by (simp_all add: pos_record_rejection_def pos_record_duplicate_def pos_record_conflict_def record_event_def
      count_plan_error_def split: position_event_type.split position_error.split)

lemma resolve_replay_repo:
  "pe_repository (snd (resolve_replay env st s f h)) =
     (if h = Some (fill_content_hash (pn_digest env) f) then pe_repository st else Some (record_conflict_row s f))"
  by (simp add: resolve_replay_def Let_def)

definition was_applied :: "(position_error, position_result) result \<Rightarrow> bool" where
  "was_applied r = (case r of Inl _ \<Rightarrow> False | Inr x \<Rightarrow> prs_status x = PA_APPLIED)"

text \<open>A call either applies the fill in one transaction, or leaves the tables alone, or adds only the
  evidence of a conflict.\<close>

lemma apply_fill_cases:
  obtains (applied) s plan s' where "validate_fill env f = Inr ()" "pe_repository st = Some s"
      "find_fill_hash s (pf_execution_id f) = None"
      "compute_plan (pn_digest env) (load_position s (fill_identity f)) f = Inr plan"
      "persist_apply (pn_db_fail env) (pn_uuid4 env) s (fill_identity f) (pl_new_state plan) (pl_event plan) = Inr s'"
      "pe_repository (snd (apply_fill env st f)) = Some s'" "was_applied (fst (apply_fill env st f))"
  | (unchanged) "pe_repository (snd (apply_fill env st f)) = pe_repository st" "\<not> was_applied (fst (apply_fill env st f))"
      "is_ok (fst (apply_fill env st f)) \<Longrightarrow>
         \<exists>s. pe_repository st = Some s \<and> find_fill_hash s (pf_execution_id f) = Some (fill_content_hash (pn_digest env) f)"
  | (conflict) s where "pe_repository st = Some s"
      "find_fill_hash s (pf_execution_id f) \<noteq> Some (fill_content_hash (pn_digest env) f)"
      "pe_repository (snd (apply_fill env st f)) = Some (record_conflict_row s f)"
      "fst (apply_fill env st f) = Inl (PositionConflictError (pf_execution_id f))"
proof -
  have replay: thesis
    if "pe_repository st = Some s" "apply_fill env st f = resolve_replay env st s f (find_fill_hash s (pf_execution_id f))" for s
  proof (cases "find_fill_hash s (pf_execution_id f) = Some (fill_content_hash (pn_digest env) f)")
    case True
    then show thesis using that by (intro unchanged) (auto simp: resolve_replay_def was_applied_def Let_def)
  next
    case False
    then show thesis using that by (intro conflict [of s]) (auto simp: resolve_replay_def Let_def)
  qed
  show thesis
  proof (cases "validate_fill env f")
    case (Inl e)
    then show thesis by (intro unchanged) (simp_all add: apply_fill_def was_applied_def)
  next
    case v: (Inr u)
    show thesis
    proof (cases "pe_repository st")
      case None
      then show thesis using v by (intro unchanged) (simp_all add: apply_fill_def was_applied_def)
    next
      case s: (Some s)
      show thesis
      proof (cases "find_fill_hash s (pf_execution_id f)")
        case (Some h)
        then show thesis using s v by (intro replay [of s]) (simp_all add: apply_fill_def)
      next
        case h: None
        show thesis
        proof (cases "compute_plan (pn_digest env) (load_position s (fill_identity f)) f")
          case (Inl e)
          then show thesis using s v h by (intro unchanged) (simp_all add: apply_fill_def was_applied_def)
        next
          case plan: (Inr plan)
          show thesis
          proof (cases "persist_apply (pn_db_fail env) (pn_uuid4 env) s (fill_identity f) (pl_new_state plan) (pl_event plan)")
            case (Inl e)
            show thesis
            proof (cases "e = DuplicateApplyError")
              case True
              then show thesis using Inl s v h plan by (intro replay [of s]) (simp_all add: apply_fill_def)
            next
              case False
              then have "apply_fill env st f = (Inl e, st)"
                using Inl s v h plan by (cases e) (simp_all add: apply_fill_def)
              then show thesis by (intro unchanged) (simp_all add: was_applied_def)
            qed
          next
            case (Inr s')
            then show thesis using s v h plan by (intro applied [of s plan s']) (simp_all add: apply_fill_def was_applied_def)
          qed
        qed
      qed
    qed
  qed
qed

lemma record_conflict_row_keeps:
  "pt_positions (record_conflict_row s f) = pt_positions s" "pt_refs_ok (record_conflict_row s f) = pt_refs_ok s"
  "\<exists>es. pt_events (record_conflict_row s f) = pt_events s @ es"
  "find_fill_hash s k = Some h \<Longrightarrow> find_fill_hash (record_conflict_row s f) k = Some h"
  by (auto simp: record_conflict_row_def Let_def find_fill_hash_def fill_event_row_def first_row_append
      split: option.splits if_splits)

lemma compute_plan_event:
  assumes "compute_plan dig c f = Inr plan"
  shows "ed_execution_id (pl_event plan) = pf_execution_id f" "ed_content_hash (pl_event plan) = fill_content_hash dig f"
    "ed_quantity_before (pl_event plan) = (case c of None \<Rightarrow> 0 | Some x \<Rightarrow> ps_quantity x)"
    "ed_quantity_after (pl_event plan) = ps_quantity (pl_new_state plan)"
  using assms by (auto simp: compute_plan_def rbind_eq_Inr)

lemma persist_apply_hash:
  assumes "persist_apply b u s i st ev = Inr s'"
  shows "find_fill_hash s' (ed_execution_id ev) = Some (ed_content_hash ev)"
    "find_fill_hash s k = Some h \<Longrightarrow> find_fill_hash s' k = Some h"
  using assms
  by (auto simp: persist_apply_def Let_def find_fill_hash_def fill_event_row_def first_row_append new_event_row_def
      bind_eq_Some_conv split: option.splits if_splits)

section \<open>Redelivered fills\<close>

definition fill_seen :: "position_store option \<Rightarrow> position_env \<times> position_fill \<Rightarrow> bool" where
  "fill_seen repo m = (case repo of None \<Rightarrow> False
     | Some s \<Rightarrow> find_fill_hash s (pf_execution_id (snd m)) = Some (fill_content_hash (pn_digest (fst m)) (snd m)))"

definition deliver_fill ::
  "position_engine \<Rightarrow> position_env \<times> position_fill \<Rightarrow> (position_error, position_result) result \<times> position_engine" where
  "deliver_fill st m = apply_fill (fst m) st (snd m)"

lemma apply_fill_keeps_hash:
  assumes "pe_repository st = Some s" "find_fill_hash s k = Some h"
  shows "\<exists>s'. pe_repository (snd (apply_fill env st f)) = Some s' \<and> find_fill_hash s' k = Some h"
proof (cases rule: apply_fill_cases [where env = env and st = st and f = f])
  case (applied s1 plan s')
  then show ?thesis using assms persist_apply_hash(2) [OF applied(5)] by auto
next
  case unchanged
  then show ?thesis using assms by simp
next
  case (conflict s1)
  then show ?thesis using assms record_conflict_row_keeps(4) by auto
qed

lemma apply_fill_cong:
  "pe_repository st = pe_repository st2 \<Longrightarrow>
   pe_repository (snd (apply_fill env st f)) = pe_repository (snd (apply_fill env st2 f))"
  by (auto simp: apply_fill_def resolve_replay_repo split: sum.split option.split position_error.split)

interpretation fill_feed: at_least_once deliver_fill pe_repository fill_seen
proof
  fix st st' :: position_engine and m m'
  show "pe_repository st = pe_repository st' \<Longrightarrow>
      pe_repository (snd (deliver_fill st m)) = pe_repository (snd (deliver_fill st' m))"
    unfolding deliver_fill_def by (rule apply_fill_cong)
  show "fill_seen (pe_repository st) m \<Longrightarrow> pe_repository (snd (deliver_fill st m)) = pe_repository st"
    unfolding deliver_fill_def
    by (cases rule: apply_fill_cases [where env = "fst m" and st = st and f = "snd m"])
       (auto simp: fill_seen_def)
  show "fill_seen (pe_repository (snd (deliver_fill st m))) m" if "is_ok (fst (deliver_fill st m))"
  proof (cases rule: apply_fill_cases [where env = "fst m" and st = st and f = "snd m"])
    case (applied s plan s')
    then show ?thesis using persist_apply_hash(1) [OF applied(5)] compute_plan_event(1,2) [OF applied(4)]
      by (simp add: fill_seen_def deliver_fill_def)
  next
    case unchanged
    then show ?thesis using that by (auto simp: fill_seen_def deliver_fill_def)
  next
    case (conflict s)
    then show ?thesis using that by (simp add: deliver_fill_def)
  qed
  show "fill_seen (pe_repository (snd (deliver_fill st m'))) m" if seen: "fill_seen (pe_repository st) m"
  proof -
    obtain s where "pe_repository st = Some s"
      "find_fill_hash s (pf_execution_id (snd m)) = Some (fill_content_hash (pn_digest (fst m)) (snd m))"
      using seen by (auto simp: fill_seen_def split: option.splits)
    from apply_fill_keeps_hash [OF this, of "fst m'" "snd m'"] show ?thesis
      by (auto simp: fill_seen_def deliver_fill_def)
  qed
qed

section \<open>The long-only invariant\<close>

definition row_ok :: "position_row \<Rightarrow> bool" where
  "row_ok r \<longleftrightarrow>
     (0 < pr_quantity r \<and> pr_status r = OPEN \<and> pr_closed_at r = None \<and>
        (\<exists>a. pr_average_price r = Some a \<and> 0 \<le> dval a)) \<or>
     (pr_quantity r = 0 \<and> pr_status r = CLOSED \<and> pr_closed_at r \<noteq> None \<and> pr_average_price r = None)"

definition position_key :: "position_row \<Rightarrow> uuid \<times> uuid \<times> string" where
  "position_key r = (pr_strategy_run_id r, pr_instrument_id r, pr_trading_mode r)"

definition event_sum :: "position_store \<Rightarrow> uuid \<Rightarrow> int" where
  "event_sum s pid = (\<Sum>e\<leftarrow>filter (\<lambda>e. pv_position_id e = pid) (pt_events s). pv_quantity_after e - pv_quantity_before e)"

definition pos_inv :: "position_store \<Rightarrow> bool" where
  "pos_inv s \<longleftrightarrow>
     distinct (map pr_id (pt_positions s)) \<and> distinct (map position_key (pt_positions s)) \<and>
     (\<forall>e\<in>set (pt_events s). pv_position_id e \<in> pr_id ` set (pt_positions s)) \<and>
     (\<forall>r\<in>set (pt_positions s). row_ok r \<and> pr_quantity r = event_sum s (pr_id r))"

lemma round_price_nonneg: "round_price v = Inr r \<Longrightarrow> 0 \<le> dval v \<Longrightarrow> 0 \<le> dval r"
  by (auto simp: round_price_def of_opt_eq_Inr intro: quantize_nonneg)

lemma weighted_average_nonneg:
  assumes "weighted_average q avg f p = Inr r" "0 \<le> q" "0 < dval p" "\<And>a. avg = Some a \<Longrightarrow> 0 \<le> dval a"
  shows "0 \<le> dval r"
proof -
  have f: "0 < f" using assms(1) by (auto simp: weighted_average_def split: if_splits)
  show ?thesis
  proof (cases "q = 0 \<or> avg = None")
    case True
    then show ?thesis using assms(1,3) round_price_nonneg [of p r]
      by (auto simp: weighted_average_def split: if_splits option.splits)
  next
    case False
    then obtain a where a: "avg = Some a" by auto
    let ?t = "dec_of_int q * a + dec_of_int f * p" and ?n = "dec_of_int (q + f)"
    obtain z where z: "ddiv ?t ?n = Some z" "round_price z = Inr r"
      using assms(1) a False f by (auto simp: weighted_average_def Let_def rbind_eq_Inr of_opt_eq_Inr)
    have m: "0 < dval (dec_of_int f * p)" "0 \<le> dval (dec_of_int q * a)"
      using f assms(2-4) a by (auto intro: decimal_times_pos decimal_times_nonneg)
    obtain w where w: "?t = dfix w" "dval w = dval (dec_of_int q * a) + dval (dec_of_int f * p)"
      using plus_decimal_fix by blast
    then have "0 < dval ?t" using m dfix_pos [of w] by simp
    then have "0 \<le> dval z" using z(1) f assms(2) by (intro ddiv_ge [of ?t ?n z 0]) auto
    then show ?thesis using z(2) by (rule round_price_nonneg [rotated])
  qed
qed

text \<open>The effect of one fill on a position that satisfies the invariant, or on none.\<close>

lemma fill_delta_ok:
  assumes d: "fill_delta c f = Inr d" and v: "validate_fill env f = Inr ()"
    and c: "\<And>x. c = Some x \<Longrightarrow> 0 \<le> ps_quantity x \<and> (\<forall>a. ps_average_price x = Some a \<longrightarrow> 0 \<le> dval a) \<and>
        (0 < ps_quantity x \<longrightarrow> ps_average_price x \<noteq> None)"
  shows "dl_quantity d = (case c of None \<Rightarrow> 0 | Some x \<Rightarrow> ps_quantity x) +
      (if pf_side f = ''BUY'' then dec_int (pf_quantity f) else - dec_int (pf_quantity f))"
    "(0 < dl_quantity d \<and> dl_status d = OPEN \<and> dl_closed_at d = None \<and> (\<exists>a. dl_average_price d = Some a \<and> 0 \<le> dval a)) \<or>
     (dl_quantity d = 0 \<and> dl_status d = CLOSED \<and> dl_closed_at d \<noteq> None \<and> dl_average_price d = None)"
proof -
  have side: "pf_side f = ''BUY'' \<or> pf_side f = ''SELL''" and p: "0 < dval (pf_price f)"
    using v by (auto simp: validate_fill_def Let_def le_decimal_iff not_le split: if_splits)
  let ?q = "dec_int (pf_quantity f)"
  have buy: "dl_quantity d = q + ?q \<and> 0 < dl_quantity d \<and> dl_status d = OPEN \<and> dl_closed_at d = None \<and>
      (\<exists>a. dl_average_price d = Some a \<and> 0 \<le> dval a)"
    if "apply_buy q avg opened ?q (pf_price f) ts = Inr d" "0 \<le> q" "\<And>a. avg = Some a \<Longrightarrow> 0 \<le> dval a" for q avg opened ts
    using that(1,2) weighted_average_nonneg [OF _ that(2) p that(3)]
    by (auto simp: apply_buy_def rbind_eq_Inr split: if_splits)
  have buy_case: "apply_buy (case c of None \<Rightarrow> 0 | Some x \<Rightarrow> ps_quantity x) (Option.bind c ps_average_price)
      (Option.bind c ps_opened_at) ?q (pf_price f) (pf_occurred_at f) = Inr d" if "pf_side f = ''BUY''"
    using d that by (auto simp: fill_delta_def Let_def split: option.splits if_splits)
  have sell_case: "\<exists>x. c = Some x \<and> apply_sell (ps_quantity x) (ps_average_price x) (ps_opened_at x) ?q (pf_occurred_at f) = Inr d"
    if "pf_side f = ''SELL''"
    using d that by (auto simp: fill_delta_def Let_def split: option.splits if_splits sum.splits)
  show "dl_quantity d = (case c of None \<Rightarrow> 0 | Some x \<Rightarrow> ps_quantity x) + (if pf_side f = ''BUY'' then ?q else - ?q)"
    using side
  proof
    assume "pf_side f = ''BUY''"
    with buy [OF buy_case] c show ?thesis by (cases c) auto
  next
    assume s: "pf_side f = ''SELL''"
    from sell_case [OF s] show ?thesis using s by (auto simp: apply_sell_def split: if_splits)
  qed
  show "(0 < dl_quantity d \<and> dl_status d = OPEN \<and> dl_closed_at d = None \<and> (\<exists>a. dl_average_price d = Some a \<and> 0 \<le> dval a)) \<or>
     (dl_quantity d = 0 \<and> dl_status d = CLOSED \<and> dl_closed_at d \<noteq> None \<and> dl_average_price d = None)"
    using side
  proof
    assume "pf_side f = ''BUY''"
    with buy [OF buy_case] c show ?thesis by (cases c) auto
  next
    assume s: "pf_side f = ''SELL''"
    from sell_case [OF s] show ?thesis using c by (fastforce simp: apply_sell_def split: if_splits)
  qed
qed

definition net_quantity :: "position_store \<Rightarrow> position_identity \<Rightarrow> int" where
  "net_quantity s i = (case find_position s i of None \<Rightarrow> 0 | Some r \<Rightarrow> pr_quantity r)"

definition signed_quantity :: "position_fill \<Rightarrow> int" where
  "signed_quantity f = (if pf_side f = ''BUY'' then dec_int (pf_quantity f) else - dec_int (pf_quantity f))"

lemma position_where_key:
  "position_where i r \<longleftrightarrow> position_key r = (pi_strategy_run_id i, pi_instrument_id i, pi_trading_mode i)"
  by (auto simp: position_where_def position_key_def)

lemma identity_eqI: "position_where i r \<Longrightarrow> position_where j r \<Longrightarrow> i = j"
  by (simp add: position_where_def)

lemma event_sum_snoc:
  "event_sum (s\<lparr>pt_positions := ps, pt_events := pt_events s @ [e]\<rparr>) p =
     event_sum s p + (if pv_position_id e = p then pv_quantity_after e - pv_quantity_before e else 0)"
  by (simp add: event_sum_def)

text \<open>What \<^verbatim>\<open>persist_apply\<close> writes for a plan computed from the current row.\<close>

lemma persist_plan_new:
  assumes p: "persist_apply b u s (fill_identity f) (pl_new_state plan) (pl_event plan) = Inr s'"
    and plan: "compute_plan dig None f = Inr plan" and none: "find_position s (fill_identity f) = None"
  obtains row where "s' = s\<lparr>pt_positions := pt_positions s @ [row], pt_events := pt_events s @ [new_event_row (pr_id row) (pl_event plan)]\<rparr>"
    "pr_id row \<notin> pr_id ` set (pt_positions s)" "position_where (fill_identity f) row" "row = new_position_row u (pl_new_state plan)"
proof -
  let ?row = "new_position_row u (pl_new_state plan)"
  have "position_where (fill_identity f) ?row"
    using plan by (auto simp: compute_plan_def rbind_eq_Inr position_where_def new_position_row_def
        fill_identity_def build_position_identity_def)
  then show thesis using p none
    by (intro that [of ?row]) (auto simp: persist_apply_def Let_def split: if_splits)
qed

lemma persist_plan_old:
  assumes "persist_apply b u s (fill_identity f) (pl_new_state plan) (pl_event plan) = Inr s'"
    and "find_position s (fill_identity f) = Some row"
  shows "s' = s\<lparr>pt_positions := update_rows (position_where (fill_identity f)) (apply_state (pl_new_state plan)) (pt_positions s),
      pt_events := pt_events s @ [new_event_row (pr_id row) (pl_event plan)]\<rparr>"
  using assms by (auto simp: persist_apply_def split: if_splits)

lemma plan_row_ok:
  assumes plan: "compute_plan dig (map_option to_state c) f = Inr plan" and v: "validate_fill env f = Inr ()"
    and c: "\<And>r. c = Some r \<Longrightarrow> row_ok r"
  shows "row_ok (apply_state (pl_new_state plan) r0)" "row_ok (new_position_row u (pl_new_state plan))"
    "ps_quantity (pl_new_state plan) = (case c of None \<Rightarrow> 0 | Some r \<Rightarrow> pr_quantity r) + signed_quantity f"
proof -
  obtain d where d: "fill_delta (map_option to_state c) f = Inr d"
    and st: "ps_quantity (pl_new_state plan) = dl_quantity d" "ps_status (pl_new_state plan) = dl_status d"
      "ps_average_price (pl_new_state plan) = dl_average_price d" "ps_closed_at (pl_new_state plan) = dl_closed_at d"
    using plan by (auto simp: compute_plan_def rbind_eq_Inr)
  have hyp: "0 \<le> ps_quantity x \<and> (\<forall>a. ps_average_price x = Some a \<longrightarrow> 0 \<le> dval a) \<and>
      (0 < ps_quantity x \<longrightarrow> ps_average_price x \<noteq> None)" if "map_option to_state c = Some x" for x
    using that c by (fastforce simp: to_state_def row_ok_def)
  note ok = fill_delta_ok [OF d v hyp]
  show "row_ok (apply_state (pl_new_state plan) r0)" "row_ok (new_position_row u (pl_new_state plan))"
    using ok(2) by (auto simp: row_ok_def apply_state_def new_position_row_def st)
  show "ps_quantity (pl_new_state plan) = (case c of None \<Rightarrow> 0 | Some r \<Rightarrow> pr_quantity r) + signed_quantity f"
    using ok(1) by (simp add: st signed_quantity_def to_state_def split: option.split)
qed

lemma pos_inv_new_row:
  assumes inv: "pos_inv s" and row: "row_ok row" "pr_id row \<notin> pr_id ` set (pt_positions s)"
    and key: "find_position s i = None" "position_where i row"
    and e: "pv_position_id e = pr_id row" "pv_quantity_after e - pv_quantity_before e = pr_quantity row"
  shows "pos_inv (s\<lparr>pt_positions := pt_positions s @ [row], pt_events := pt_events s @ [e]\<rparr>)"
proof -
  have "filter (\<lambda>e. pv_position_id e = pr_id row) (pt_events s) = []"
    using inv row(2) unfolding pos_inv_def filter_empty_conv by metis
  then have "event_sum s (pr_id row) = 0" by (simp add: event_sum_def)
  moreover have "position_key row \<notin> position_key ` set (pt_positions s)"
    using key by (auto simp: find_position_def first_row_None_iff position_where_key)
  ultimately show ?thesis using inv row e by (auto simp: pos_inv_def event_sum_snoc)
qed

lemma pos_inv_update_row:
  assumes inv: "pos_inv s" and row: "find_position s i = Some row" and ok: "row_ok (f row)"
    and keep: "\<And>r. pr_id (f r) = pr_id r" "\<And>r. position_key (f r) = position_key r"
    and e: "pv_position_id e = pr_id row" "pv_quantity_after e - pv_quantity_before e = pr_quantity (f row) - pr_quantity row"
  shows "pos_inv (s\<lparr>pt_positions := update_rows (position_where i) f (pt_positions s), pt_events := pt_events s @ [e]\<rparr>)"
proof -
  have mem: "row \<in> set (pt_positions s)" "position_where i row"
    using row by (auto simp: find_position_def dest: first_row_SomeD)
  have only: "r = row" if "r \<in> set (pt_positions s)" "position_where i r" for r
    by (rule inj_onD [of position_key "set (pt_positions s)"])
       (use that mem inv in \<open>auto simp: pos_inv_def distinct_map position_where_key\<close>)
  have others: "pr_id r \<noteq> pr_id row" if "r \<in> set (pt_positions s)" "\<not> position_where i r" for r
    using that mem inv by (auto simp: pos_inv_def distinct_map dest: inj_onD)
  have maps: "map pr_id (update_rows (position_where i) f (pt_positions s)) = map pr_id (pt_positions s)"
      "map position_key (update_rows (position_where i) f (pt_positions s)) = map position_key (pt_positions s)"
    using keep by (simp_all add: map_update_rows)
  have ids: "pr_id ` set (update_rows (position_where i) f (pt_positions s)) = pr_id ` set (pt_positions s)"
    using maps(1) by (metis list.set_map)
  have rows: "row_ok r \<and> pr_quantity r = event_sum s (pr_id r) + (if pv_position_id e = pr_id r then pv_quantity_after e - pv_quantity_before e else 0)"
    if r: "r \<in> set (update_rows (position_where i) f (pt_positions s))" for r
  proof -
    obtain r0 where r0: "r0 \<in> set (pt_positions s)" "r = (if position_where i r0 then f r0 else r0)"
      using r by (auto simp: update_rows_def)
    have "row_ok r0" "pr_quantity r0 = event_sum s (pr_id r0)" using inv r0(1) by (auto simp: pos_inv_def)
    then show ?thesis using r0 only [of r0] others [of r0] ok e keep(1) by (cases "position_where i r0") auto
  qed
  show ?thesis using inv maps ids rows e mem(1)
    unfolding pos_inv_def by (auto simp: event_sum_snoc)
qed

lemma find_position_update:
  assumes "\<And>r. position_key (f r) = position_key r"
  shows "find_position (s\<lparr>pt_positions := update_rows (position_where i) f (pt_positions s), pt_events := es\<rparr>) j =
    (if j = i then map_option f (find_position s i) else find_position s j)"
proof (cases "j = i")
  case True
  then show ?thesis using assms by (simp add: find_position_def first_row_update_rows position_where_key)
next
  case False
  have "first_row (position_where j) (update_rows (position_where i) f (pt_positions s)) = first_row (position_where j) (pt_positions s)"
    by (rule first_row_update_rows_other)
       (use False assms identity_eqI in \<open>auto simp: position_where_key position_key_def\<close>)
  then show ?thesis using False by (simp add: find_position_def)
qed

text \<open>The heart of the engine: an applied fill keeps the invariant and moves exactly the position of
  its identity by its signed quantity.\<close>

lemma apply_step:
  assumes inv: "pos_inv s" and v: "validate_fill env f = Inr ()"
    and plan: "compute_plan dig (load_position s (fill_identity f)) f = Inr plan"
    and p: "persist_apply b u s (fill_identity f) (pl_new_state plan) (pl_event plan) = Inr s'"
  shows "pos_inv s'" "net_quantity s' i = net_quantity s i + (if fill_identity f = i then signed_quantity f else 0)"
proof -
  let ?i = "fill_identity f" and ?st = "pl_new_state plan"
  have c: "row_ok r" if "find_position s ?i = Some r" for r
    using that inv by (auto simp: find_position_def pos_inv_def dest: first_row_SomeD)
  note plan' = plan [unfolded load_position_def]
  note ok = plan_row_ok [OF plan' v c] and ev = compute_plan_event [OF plan]
  have "pos_inv s' \<and> net_quantity s' i = net_quantity s i + (if ?i = i then signed_quantity f else 0)"
  proof (cases "find_position s ?i")
    case None
    then have load: "load_position s ?i = None" by (simp add: load_position_def)
    from plan load have "compute_plan dig None f = Inr plan" by simp
    from persist_plan_new [OF p this None] obtain row
      where row: "s' = s\<lparr>pt_positions := pt_positions s @ [row], pt_events := pt_events s @ [new_event_row (pr_id row) (pl_event plan)]\<rparr>"
        "pr_id row \<notin> pr_id ` set (pt_positions s)" "position_where ?i row" "row = new_position_row u ?st" by blast
    have q: "pr_quantity row = signed_quantity f" using ok(3) None row(4) by (simp add: new_position_row_def)
    have "pos_inv s'" unfolding row(1)
      by (rule pos_inv_new_row [OF inv _ row(2) None row(3)])
         (use ok(2) ev(3,4) row(4) load in \<open>simp_all add: new_event_row_def new_position_row_def\<close>)
    moreover have "find_position s' i = (if ?i = i then Some row else find_position s i)"
    proof (cases "?i = i")
      case True
      then show ?thesis using row(3) None by (simp add: row(1) find_position_def first_row_append)
    next
      case False
      then have "\<not> position_where i row" using identity_eqI [OF row(3)] by blast
      then show ?thesis using False by (simp add: row(1) find_position_def first_row_append split: option.split)
    qed
    ultimately show ?thesis using q None by (auto simp: net_quantity_def)
  next
    case (Some row)
    then have load: "load_position s ?i = Some (to_state row)" by (simp add: load_position_def)
    note s' = persist_plan_old [OF p Some]
    have keep: "pr_id (apply_state ?st r) = pr_id r" "position_key (apply_state ?st r) = position_key r" for r
      by (simp_all add: apply_state_def position_key_def)
    have q: "pr_quantity (apply_state ?st r) = pr_quantity row + signed_quantity f" for r
      using ok(3) Some by (simp add: apply_state_def)
    have "pos_inv s'" unfolding s'
      by (rule pos_inv_update_row [OF inv Some ok(1) keep])
         (use ev(3,4) load ok(3) Some in \<open>simp_all add: new_event_row_def to_state_def apply_state_def\<close>)
    moreover have "find_position s' i = (if i = ?i then Some (apply_state ?st row) else find_position s i)"
      unfolding s' using find_position_update [OF keep(2)] Some by simp
    ultimately show ?thesis using q Some by (auto simp: net_quantity_def)
  qed
  then show "pos_inv s'" "net_quantity s' i = net_quantity s i + (if ?i = i then signed_quantity f else 0)" by blast+
qed

lemma pos_inv_conflict: "pos_inv s \<Longrightarrow> pos_inv (record_conflict_row s f)"
proof -
  assume inv: "pos_inv s"
  have pid: "pv_position_id e \<in> pr_id ` set (pt_positions s)" if "fill_event_row s k = Some e" for k e
    using that inv by (auto simp: fill_event_row_def pos_inv_def dest: first_row_SomeD)
  have key: "pr_id r \<in> pr_id ` set (pt_positions s)" if "find_position s i = Some r" for i r
    using that by (auto simp: find_position_def dest: first_row_SomeD)
  show ?thesis using inv pid key
    by (auto simp: record_conflict_row_def Let_def pos_inv_def event_sum_def split: option.splits)
qed

definition repo_inv :: "position_engine \<Rightarrow> bool" where
  "repo_inv st \<longleftrightarrow> (case pe_repository st of None \<Rightarrow> True | Some s \<Rightarrow> pos_inv s)"

definition engine_net :: "position_engine \<Rightarrow> position_identity \<Rightarrow> int" where
  "engine_net st i = (case pe_repository st of None \<Rightarrow> 0 | Some s \<Rightarrow> net_quantity s i)"

lemma repo_inv_nonneg:
  assumes "repo_inv st"
  shows "0 \<le> engine_net st i"
proof (cases "pe_repository st")
  case (Some s)
  then have "0 \<le> pr_quantity r" if "find_position s i = Some r" for r
    using assms first_row_SomeD [OF that [unfolded find_position_def]] by (auto simp: repo_inv_def pos_inv_def row_ok_def)
  then show ?thesis using Some by (simp add: engine_net_def net_quantity_def split: option.split)
qed (simp add: engine_net_def)

lemma net_quantity_cong: "pt_positions s = pt_positions s' \<Longrightarrow> net_quantity s i = net_quantity s' i"
  by (simp add: net_quantity_def find_position_def)

lemma apply_fill_inv:
  assumes "repo_inv st"
  shows "repo_inv (snd (apply_fill env st f))"
    "engine_net (snd (apply_fill env st f)) i = engine_net st i +
       (if was_applied (fst (apply_fill env st f)) \<and> fill_identity f = i then signed_quantity f else 0)"
proof -
  have "repo_inv (snd (apply_fill env st f)) \<and> engine_net (snd (apply_fill env st f)) i = engine_net st i +
       (if was_applied (fst (apply_fill env st f)) \<and> fill_identity f = i then signed_quantity f else 0)"
  proof (cases rule: apply_fill_cases [where env = env and st = st and f = f])
    case (applied s plan s')
    have "pos_inv s" using assms applied(2) by (simp add: repo_inv_def)
    from apply_step [OF this applied(1,4,5)] show ?thesis using applied(2,6,7) by (simp add: repo_inv_def engine_net_def)
  next
    case unchanged
    then show ?thesis using assms by (simp add: repo_inv_def engine_net_def)
  next
    case (conflict s)
    then show ?thesis using assms pos_inv_conflict net_quantity_cong [OF record_conflict_row_keeps(1)]
      by (simp add: repo_inv_def engine_net_def was_applied_def)
  qed
  then show "repo_inv (snd (apply_fill env st f))"
    "engine_net (snd (apply_fill env st f)) i = engine_net st i +
       (if was_applied (fst (apply_fill env st f)) \<and> fill_identity f = i then signed_quantity f else 0)" by blast+
qed

text \<open>A run of the engine, with the list of the fills it applied.\<close>

fun run_fills :: "position_engine \<Rightarrow> (position_env \<times> position_fill) list \<Rightarrow> position_fill list \<times> position_engine" where
  "run_fills st [] = ([], st)"
| "run_fills st ((env, f) # ms) =
     (let (fs, st') = run_fills (snd (apply_fill env st f)) ms in
      ((if was_applied (fst (apply_fill env st f)) then f # fs else fs), st'))"

definition signed_sum :: "position_identity \<Rightarrow> position_fill list \<Rightarrow> int" where
  "signed_sum i fs = (\<Sum>f\<leftarrow>filter (\<lambda>f. fill_identity f = i) fs. signed_quantity f)"

lemma run_fills_inv:
  "repo_inv st \<Longrightarrow> repo_inv (snd (run_fills st ms)) \<and>
     engine_net (snd (run_fills st ms)) i = engine_net st i + signed_sum i (fst (run_fills st ms))"
proof (induction ms arbitrary: st)
  case Nil
  then show ?case by (simp add: signed_sum_def)
next
  case (Cons m ms)
  obtain env f where m: "m = (env, f)" by force
  note step = apply_fill_inv [OF Cons.prems, of env f]
  from Cons.IH [OF step(1)] step(2) [of i] show ?case
    by (auto simp: m signed_sum_def split: prod.split)
qed

text \<open>C9.  Conservation of shares: after any sequence of fills, with any refusals, duplicates, conflicts,
  halts and database failures in between, the stored quantity of every position is the sum of the
  signed quantities (BUY positive, SELL negative) of exactly the fills reported as applied to its
  identity, and it is never negative.\<close>

theorem position_is_net_of_fills:
  assumes "pe_repository st = Some s" "pt_positions s = []" "pt_events s = []"
  shows "engine_net (snd (run_fills st ms)) i = signed_sum i (fst (run_fills st ms)) \<and>
    0 \<le> engine_net (snd (run_fills st ms)) i"
proof -
  have inv: "repo_inv st" using assms by (simp add: repo_inv_def pos_inv_def)
  have z: "engine_net st i = 0" using assms by (simp add: engine_net_def net_quantity_def find_position_def)
  note r = run_fills_inv [OF inv, of ms i]
  then show ?thesis using z repo_inv_nonneg [of "snd (run_fills st ms)" i] by auto
qed

text \<open>The long-only invariant: in every table the engine reaches, a position is either open with a
  positive quantity, a non-negative average price and no closing time, or closed with quantity
  zero, no average price and a closing time; ids and (strategy run, instrument, mode) keys are
  unique; and the events of a position, conflicts included, add up to its quantity.\<close>

theorem positions_long_only:
  assumes "pe_repository st = Some s" "pt_positions s = []" "pt_events s = []"
    and "pe_repository (snd (run_fills st ms)) = Some s'" "r \<in> set (pt_positions s')"
  shows "row_ok r \<and> pr_quantity r = event_sum s' (pr_id r) \<and>
    distinct (map pr_id (pt_positions s')) \<and> distinct (map position_key (pt_positions s'))"
proof -
  have "repo_inv st" using assms by (simp add: repo_inv_def pos_inv_def)
  from run_fills_inv [OF this, of ms] assms(4,5) show ?thesis by (auto simp: repo_inv_def pos_inv_def)
qed

definition sample_fill_msg :: "string \<Rightarrow> string \<Rightarrow> int \<Rightarrow> int \<Rightarrow> position_fill" where
  "sample_fill_msg eid side q price =
     \<lparr>pf_execution_id = eid, pf_order_id = 1, pf_account_id = 2, pf_instrument_id = 3, pf_strategy_run_id = 4,
      pf_trading_mode = ''PAPER'', pf_side = side, pf_quantity = Dec q 0, pf_price = Dec price (-2),
      pf_occurred_at = utc 10\<rparr>"

definition sample_pos_env :: "uuid \<Rightarrow> position_env" where
  "sample_pos_env u = \<lparr>pn_halt = False, pn_uuid4 = u,
     pn_digest = (\<lambda>p. if (''quantity'', PDec (Dec 10 0)) \<in> set p then ''h10'' else ''h''),
     pn_db_fail = False\<rparr>"

definition empty_positions :: position_engine where
  "empty_positions = \<lparr>pe_repository = Some \<lparr>pt_positions = [], pt_events = [], pt_refs_ok = (\<lambda>_. True)\<rparr>,
     pe_metrics = \<lparr>pm_opened = 0, pm_increased = 0, pm_decreased = 0, pm_closed = 0, pm_duplicate_fills = 0,
       pm_conflicting_fills = 0, pm_rejected_fills = 0\<rparr>\<rparr>"

definition sample_fills :: "(position_env \<times> position_fill) list" where
  "sample_fills = [(sample_pos_env 50, sample_fill_msg ''e1'' ''BUY'' 10 10000),
     (sample_pos_env 51, sample_fill_msg ''e2'' ''BUY'' 10 10100), (sample_pos_env 52, sample_fill_msg ''e1'' ''BUY'' 10 10000),
     (sample_pos_env 53, sample_fill_msg ''e3'' ''SELL'' 30 10200), (sample_pos_env 54, sample_fill_msg ''e4'' ''SELL'' 15 10200)]"

theorem position_is_net_of_fills_witness:
  "engine_net (snd (run_fills empty_positions sample_fills)) (fill_identity (sample_fill_msg ''e1'' ''BUY'' 10 10000)) =
     signed_sum (fill_identity (sample_fill_msg ''e1'' ''BUY'' 10 10000)) (fst (run_fills empty_positions sample_fills))"
  by (rule position_is_net_of_fills [where s = "the (pe_repository empty_positions)", THEN conjunct1])
     (simp_all add: empty_positions_def)

lemmas position_eval = validate_fill_def Let_def upper_def upper_char_def find_fill_hash_def fill_event_row_def
  compute_plan_def load_position_def find_position_def fill_delta_def apply_buy_def weighted_average_def round_price_def
  quantize_def rescaled_def dec_int_def to_integral_def deq_def less_eq_decimal_def less_decimal_def dle_def zero_decimal_def
  persist_apply_def new_position_row_def new_event_row_def fill_identity_def build_position_identity_def record_event_def

lemma sample_buy:
  obtains s r where "pe_repository (snd (run_fills empty_positions [(sample_pos_env 50, sample_fill_msg ''e1'' ''BUY'' 10 10000)])) = Some s"
    "pt_positions s = [r]" "pr_quantity r = 10" "pr_average_price r = Some (Dec 1000000 (-4))"
    "find_fill_hash s ''e1'' = Some ''h10''"
  by (rule that) (simp_all add: apply_fill_def empty_positions_def sample_fill_msg_def sample_pos_env_def position_eval
      fill_content_hash_def, simp_all?, simp_all?)

theorem positions_long_only_witness:
  "\<exists>s' r. pe_repository (snd (run_fills empty_positions [(sample_pos_env 50, sample_fill_msg ''e1'' ''BUY'' 10 10000)])) = Some s' \<and>
     pt_positions s' = [r] \<and> row_ok r \<and> pr_quantity r = event_sum s' (pr_id r)"
proof -
  obtain s r where s: "pe_repository (snd (run_fills empty_positions [(sample_pos_env 50, sample_fill_msg ''e1'' ''BUY'' 10 10000)])) = Some s"
    "pt_positions s = [r]" by (rule sample_buy)
  from positions_long_only [OF _ _ _ s(1), of "the (pe_repository empty_positions)" r] s show ?thesis
    by (auto simp: empty_positions_def)
qed

text \<open>C10.  The average entry price is an average: for whole-share quantities whose sum fits the 32-bit
  column and positive prices that fit \<^verbatim>\<open>Numeric(18, 4)\<close>, \<^verbatim>\<open>weighted_average\<close> returns, and its result
  (computed with 28-digit division and rounded to four decimals) lies between the old average and
  the fill price and again fits the column.\<close>

theorem average_price_bounded:
  assumes "0 < q" "0 < f" "q + f \<le> 2 ^ 31"
    and "money_grid a" "0 < dval a" "money_grid p" "0 < dval p"
  shows "\<exists>r. weighted_average q (Some a) f p = Inr r \<and> money_grid r \<and>
    min (dval a) (dval p) \<le> dval r \<and> dval r \<le> max (dval a) (dval p)"
  using weighted_average_between [OF assms] by blast

theorem average_price_bounded_witness:
  "\<exists>r. weighted_average 10 (Some (Dec 1000000 (-4))) 5 (Dec 10100 (-2)) = Inr r \<and> money_grid r \<and> dval r \<le> 101"
proof -
  have m: "money_grid (Dec 1000000 (-4))" "money_grid (Dec 10100 (-2))"
    unfolding money_grid_def
    by (rule exI [of _ 1000000], simp add: dval_def) (rule exI [of _ 1010000], simp add: dval_def power_int_def power_divide)
  have v: "dval (Dec 1000000 (-4)) = 100" "dval (Dec 10100 (-2)) = 101"
    by (simp_all add: dval_def power_int_def power_divide)
  show ?thesis using average_price_bounded [of 10 5, OF _ _ _ m(1) _ m(2)] by (simp add: v) blast
qed

text \<open>Exactly-once effect over an at-least-once feed: when a fill has been accepted, delivering it
  again after any further traffic, from any process that computes the same content hash, leaves
  both tables exactly as they are.\<close>

theorem fill_exactly_once:
  assumes "is_ok (fst (apply_fill env st f))" "pn_digest env' = pn_digest env"
  shows "pe_repository (foldl (\<lambda>e m. snd (apply_fill (fst m) e (snd m))) st ((env, f) # ms @ [(env', f)])) =
         pe_repository (foldl (\<lambda>e m. snd (apply_fill (fst m) e (snd m))) st ((env, f) # ms))"
proof -
  have "fill_seen (pe_repository (fill_feed.deliver_all st ((env, f) # ms))) (env, f)"
    using fill_feed.kept_all [OF fill_feed.accepted, of st "(env, f)" ms] assms(1) by (simp add: deliver_fill_def)
  then have "fill_seen (pe_repository (fill_feed.deliver_all st ((env, f) # ms))) (env', f)"
    using assms(2) by (simp add: fill_seen_def split: option.splits)
  from fill_feed.redelivered [OF this] show ?thesis
    by (simp add: fill_feed.deliver_all_def deliver_fill_def)
qed

theorem fill_exactly_once_witness:
  "pe_repository (foldl (\<lambda>e m. snd (apply_fill (fst m) e (snd m))) empty_positions
     ((sample_pos_env 50, sample_fill_msg ''e1'' ''BUY'' 10 10000) # [(sample_pos_env 51, sample_fill_msg ''e2'' ''SELL'' 4 10100)] @
      [(sample_pos_env 52, sample_fill_msg ''e1'' ''BUY'' 10 10000)])) =
   pe_repository (foldl (\<lambda>e m. snd (apply_fill (fst m) e (snd m))) empty_positions
     ((sample_pos_env 50, sample_fill_msg ''e1'' ''BUY'' 10 10000) # [(sample_pos_env 51, sample_fill_msg ''e2'' ''SELL'' 4 10100)]))"
  by (rule fill_exactly_once)
     (simp_all add: apply_fill_def empty_positions_def sample_fill_msg_def sample_pos_env_def position_eval fill_content_hash_def)

text \<open>No error corrupts a position: whenever applying a fill raises, for whatever reason, the
  positions table is exactly as before, the recorded content hash of every earlier fill is kept,
  and no event is removed.\<close>

theorem position_errors_preserve:
  assumes "pe_repository st = Some s" "\<not> is_ok (fst (apply_fill env st f))"
  shows "\<exists>s'. pe_repository (snd (apply_fill env st f)) = Some s' \<and> pt_positions s' = pt_positions s \<and>
    (\<exists>es. pt_events s' = pt_events s @ es) \<and> (\<forall>k. find_fill_hash s k = None \<or> find_fill_hash s' k = find_fill_hash s k)"
proof (cases rule: apply_fill_cases [where env = env and st = st and f = f])
  case (applied s1 plan s')
  then show ?thesis using assms(2) by (auto simp: was_applied_def split: sum.splits)
next
  case unchanged
  then show ?thesis using assms(1) by simp
next
  case (conflict s1)
  then have "find_fill_hash s k = None \<or> find_fill_hash (record_conflict_row s f) k = find_fill_hash s k" for k
    using record_conflict_row_keeps(4) [of s k _ f] by (cases "find_fill_hash s k") auto
  then show ?thesis using conflict assms(1) record_conflict_row_keeps(1,3) by auto
qed

theorem position_errors_preserve_witness:
  "\<not> is_ok (fst (apply_fill (sample_pos_env 50) empty_positions (sample_fill_msg ''e1'' ''SELL'' 10 10000))) \<and>
   (\<exists>s'. pe_repository (snd (apply_fill (sample_pos_env 50) empty_positions (sample_fill_msg ''e1'' ''SELL'' 10 10000))) = Some s' \<and>
      pt_positions s' = [])"
proof -
  have e: "\<not> is_ok (fst (apply_fill (sample_pos_env 50) empty_positions (sample_fill_msg ''e1'' ''SELL'' 10 10000)))"
    by (simp add: apply_fill_def empty_positions_def sample_fill_msg_def sample_pos_env_def position_eval)
  have "pe_repository empty_positions = Some \<lparr>pt_positions = [], pt_events = [], pt_refs_ok = (\<lambda>_. True)\<rparr>"
    by (simp add: empty_positions_def)
  from position_errors_preserve [OF this e] e show ?thesis by auto
qed

section \<open>Two processes\<close>

text \<open>The row lock does not serialise the computation: when two processes have both read the same
  open position before either writes, both transactions commit, both fills are recorded as
  applied, but the stored quantity moves only by the second fill.\<close>

theorem stale_plan_loses_fill:
  assumes inv: "pos_inv s" and row: "find_position s (fill_identity f) = Some row"
    and same: "fill_identity g = fill_identity f"
    and v: "validate_fill env f = Inr ()" "validate_fill env g = Inr ()"
    and plans: "compute_plan dig (load_position s (fill_identity f)) f = Inr pf"
      "compute_plan dig (load_position s (fill_identity f)) g = Inr pg"
    and first: "persist_apply False u s (fill_identity f) (pl_new_state pf) (pl_event pf) = Inr s1"
    and second: "persist_apply False u' s1 (fill_identity f) (pl_new_state pg) (pl_event pg) = Inr s2"
  shows "net_quantity s2 (fill_identity f) = net_quantity s (fill_identity f) + signed_quantity g \<and>
    find_fill_hash s2 (pf_execution_id f) = Some (fill_content_hash dig f) \<and>
    find_fill_hash s2 (pf_execution_id g) = Some (fill_content_hash dig g)"
proof -
  let ?i = "fill_identity f"
  have keep: "position_key (apply_state x r) = position_key r" for x r
    by (simp add: apply_state_def position_key_def)
  have c: "row_ok r" if "find_position s ?i = Some r" for r
    using that inv by (auto simp: find_position_def pos_inv_def dest: first_row_SomeD)
  have r1: "find_position s1 ?i = Some (apply_state (pl_new_state pf) row)"
    unfolding persist_plan_old [OF first row] using find_position_update [OF keep] row by simp
  have r2: "find_position s2 ?i = Some (apply_state (pl_new_state pg) (apply_state (pl_new_state pf) row))"
    using persist_plan_old [OF second [folded same]] r1 find_position_update [OF keep] same by simp
  have "ps_quantity (pl_new_state pg) = pr_quantity row + signed_quantity g"
    using plan_row_ok(3) [OF plans(2) [unfolded load_position_def] v(2) c] row by simp
  then have "net_quantity s2 ?i = net_quantity s ?i + signed_quantity g"
    using r2 row by (simp add: net_quantity_def apply_state_def)
  then show ?thesis
    using persist_apply_hash [OF first] persist_apply_hash [OF second] compute_plan_event(1,2) [OF plans(1)]
      compute_plan_event(1,2) [OF plans(2)] by simp
qed

definition sample_positions :: position_store where
  "sample_positions =
     \<lparr>pt_positions = [\<lparr>pr_id = 50, pr_strategy_run_id = 4, pr_broker_account_id = Some 2, pr_instrument_id = 3,
         pr_trading_mode = ''PAPER'', pr_quantity = 10, pr_average_price = Some (Dec 1000000 (- 4)),
         pr_opened_at = Some (utc 10), pr_closed_at = None, pr_status = OPEN, pr_last_execution_id = Some ''e1''\<rparr>],
      pt_events = [\<lparr>pv_position_id = 50, pv_source_event_id = ''e1'', pv_event_type = POSITION_OPENED,
         pv_quantity_before = 0, pv_quantity_after = 10, pv_event_timestamp = utc 10, pv_content_hash = Some ''h10''\<rparr>],
      pt_refs_ok = (\<lambda>_. True)\<rparr>"

theorem stale_plan_loses_fill_witness:
  "\<exists>pf pg s1 s2.
     compute_plan (\<lambda>_. ''h'') (load_position sample_positions (fill_identity (sample_fill_msg ''e2'' ''SELL'' 3 10000)))
       (sample_fill_msg ''e2'' ''SELL'' 3 10000) = Inr pf \<and>
     compute_plan (\<lambda>_. ''h'') (load_position sample_positions (fill_identity (sample_fill_msg ''e2'' ''SELL'' 3 10000)))
       (sample_fill_msg ''e3'' ''SELL'' 4 10000) = Inr pg \<and>
     persist_apply False 60 sample_positions (fill_identity (sample_fill_msg ''e2'' ''SELL'' 3 10000)) (pl_new_state pf) (pl_event pf) = Inr s1 \<and>
     persist_apply False 61 s1 (fill_identity (sample_fill_msg ''e2'' ''SELL'' 3 10000)) (pl_new_state pg) (pl_event pg) = Inr s2 \<and>
     net_quantity s2 (fill_identity (sample_fill_msg ''e2'' ''SELL'' 3 10000)) =
       net_quantity sample_positions (fill_identity (sample_fill_msg ''e2'' ''SELL'' 3 10000)) +
       signed_quantity (sample_fill_msg ''e3'' ''SELL'' 4 10000)"
proof -
  let ?f = "sample_fill_msg ''e2'' ''SELL'' 3 10000" and ?g = "sample_fill_msg ''e3'' ''SELL'' 4 10000"
  let ?s = sample_positions
  have inv: "pos_inv ?s" by (simp add: pos_inv_def sample_positions_def row_ok_def event_sum_def dval_def)
  obtain row where row: "find_position ?s (fill_identity ?f) = Some row"
    by (simp add: sample_positions_def find_position_def position_where_def fill_identity_def build_position_identity_def
        sample_fill_msg_def upper_def upper_char_def)
  have id: "fill_identity ?g = fill_identity ?f" by (simp add: sample_fill_msg_def fill_identity_def)
  have v: "validate_fill (sample_pos_env 1) ?f = Inr ()" "validate_fill (sample_pos_env 1) ?g = Inr ()"
    by (simp_all add: sample_fill_msg_def sample_pos_env_def position_eval)
  have eval: "dec_int (Dec 3 0) = 3" "dec_int (Dec 4 0) = 4" by (simp_all add: dec_int_def)
  obtain pf where pf: "compute_plan (\<lambda>_. ''h'') (load_position ?s (fill_identity ?f)) ?f = Inr pf"
    by (simp add: compute_plan_def load_position_def fill_delta_def Let_def apply_sell_def sample_fill_msg_def eval
        sample_positions_def find_position_def position_where_def fill_identity_def build_position_identity_def
        upper_def upper_char_def to_state_def)
  obtain pg where pg: "compute_plan (\<lambda>_. ''h'') (load_position ?s (fill_identity ?f)) ?g = Inr pg"
    by (simp add: compute_plan_def load_position_def fill_delta_def Let_def apply_sell_def sample_fill_msg_def eval
        sample_positions_def find_position_def position_where_def fill_identity_def build_position_identity_def
        upper_def upper_char_def to_state_def)
  have ids: "ed_execution_id (pl_event pf) = ''e2''" "ed_execution_id (pl_event pg) = ''e3''"
    using compute_plan_event(1) [OF pf] compute_plan_event(1) [OF pg] by (simp_all add: sample_fill_msg_def)
  obtain s1 where s1: "persist_apply False 60 ?s (fill_identity ?f) (pl_new_state pf) (pl_event pf) = Inr s1"
    using row by (simp add: persist_apply_def ids fill_event_row_def sample_positions_def)
  note s1' = persist_plan_old [OF s1 row]
  obtain s2 where s2: "persist_apply False 61 s1 (fill_identity ?f) (pl_new_state pg) (pl_event pg) = Inr s2"
    using row find_position_update [where f = "apply_state (pl_new_state pf)" and i = "fill_identity ?f" and s = ?s]
    by (simp add: persist_apply_def s1' ids fill_event_row_def first_row_append new_event_row_def apply_state_def position_key_def)
       (simp add: sample_positions_def)
  from stale_plan_loses_fill [OF inv row id v pf pg s1 s2] pf pg s1 s2 show ?thesis by blast
qed

end
