(* ===== verification/Pnl_Engine.thy ===== *)
theory Pnl_Engine
  imports Position_Engine "HOL-Library.Char_ord" "HOL-Library.List_Lexorder"
begin

text \<open>
  The PnL engine, \<^verbatim>\<open>services/pnl_engine/alpha_algo_pnl_engine\<close>: weighted-average-cost accounting
  (\<^verbatim>\<open>accounting.py\<close>), mark to market with price freshness (\<^verbatim>\<open>unrealized.py\<close>), aggregation
  (\<^verbatim>\<open>aggregation.py\<close>), the repository over \<^verbatim>\<open>pnl_events\<close> and \<^verbatim>\<open>pnl_snapshots\<close> (\<^verbatim>\<open>repository.py\<close>) and
  the engine (\<^verbatim>\<open>engine.py\<close>).  The fills are those of the position engine.  The calendar day of
  \<^verbatim>\<open>daily_aggregation\<close> and the latency metric are not represented.
\<close>

section \<open>Contracts\<close>

datatype pnl_status = PNL_READY | PNL_DEGRADED | PNL_UNAVAILABLE
datatype pnl_event_type = REALIZED_PNL | COST_APPLIED | PNL_CONFLICT | PNL_REJECTED
datatype pnl_apply_status = PL_APPLIED | PL_DUPLICATE | PL_CONFLICT
datatype price_state = FRESH | STALE | MISSING

datatype pnl_error =
    PnlValidationError string
  | PnlModeError string
  | PnlOverCloseError string
  | PnlDataError string
  | PnlPersistenceError string
  | DuplicateExecutionError
  | PnlValueError string
  | PnlInvalidOperation
  | PnlTypeError
  | PnlAttributeError

record cost_component =
  cc_amount :: decimal
  cc_kind :: string
  cc_source :: string

definition mk_cost_component :: "cost_component \<Rightarrow> (pnl_error, cost_component) result" where
  "mk_cost_component c =
     (if cc_amount c < 0 then Inl (PnlValueError ''cost amount must be non-negative'')
      else if blank (cc_kind c) then Inl (PnlValueError ''cost kind is required'')
      else Inr c)"

record unrealized_pnl =
  up_position_id :: "uuid option"
  up_instrument_id :: uuid
  up_quantity :: int
  up_average_cost :: "decimal option"
  up_reference_price :: "decimal option"
  up_unrealized_pnl :: "decimal option"
  up_price_state :: price_state
  up_status :: pnl_status

record position_pnl =
  pp_position_id :: "uuid option"
  pp_account_id :: "uuid option"
  pp_strategy_run_id :: uuid
  pp_instrument_id :: uuid
  pp_trading_mode :: string
  pp_quantity :: int
  pp_average_cost :: "decimal option"
  pp_reference_price :: "decimal option"
  pp_market_value :: "decimal option"
  pp_unrealized_pnl :: "decimal option"
  pp_realized_pnl :: decimal
  pp_status :: pnl_status

record pnl_event =
  ne_execution_id :: string
  ne_event_type :: pnl_event_type
  ne_account_id :: uuid
  ne_strategy_run_id :: uuid
  ne_instrument_id :: uuid
  ne_position_id :: "uuid option"
  ne_trading_mode :: string
  ne_side :: string
  ne_quantity :: int
  ne_price :: decimal
  ne_average_cost :: decimal
  ne_gross_pnl :: decimal
  ne_costs :: decimal
  ne_net_pnl :: decimal
  ne_occurred_at :: datetime
  ne_content_hash :: string

record pnl_snapshot =
  nsn_account_id :: uuid
  nsn_trading_mode :: string
  nsn_snapshot_at :: datetime
  nsn_realized_pnl :: decimal
  nsn_unrealized_pnl :: "decimal option"
  nsn_gross_pnl :: decimal
  nsn_costs :: decimal
  nsn_net_pnl :: decimal
  nsn_position_count :: int
  nsn_status :: pnl_status

record pnl_result =
  nr_status :: pnl_apply_status
  nr_event :: "pnl_event option"
  nr_conflict_original :: "pnl_event option"

record aggregated_pnl =
  ag_key :: string
  ag_realized_gross :: decimal
  ag_realized_costs :: decimal
  ag_realized_net :: decimal
  ag_unrealized_pnl :: "decimal option"
  ag_gross_pnl :: decimal
  ag_net_pnl :: decimal
  ag_trade_count :: nat

section \<open>Accounting\<close>

definition round_money :: "decimal \<Rightarrow> (pnl_error, decimal) result" where
  "round_money v = of_opt PnlInvalidOperation (quantize (-4) v)"

definition realized_pnl_long :: "decimal \<Rightarrow> decimal \<Rightarrow> int \<Rightarrow> (pnl_error, decimal) result" where
  "realized_pnl_long sell_price average_cost closed_quantity =
     (if closed_quantity \<le> 0 then Inl (PnlValueError ''closed_quantity must be positive'')
      else round_money ((sell_price - average_cost) * dec_of_int closed_quantity))"

definition net_pnl :: "decimal \<Rightarrow> decimal \<Rightarrow> (pnl_error, decimal) result" where
  "net_pnl gross costs = round_money (gross - costs)"

definition costs_total :: "cost_component list \<Rightarrow> (pnl_error, decimal) result" where
  "costs_total costs = round_money (dsum (map cc_amount costs))"

definition unrealized_pnl_long :: "decimal \<Rightarrow> decimal \<Rightarrow> int \<Rightarrow> (pnl_error, decimal) result" where
  "unrealized_pnl_long reference_price average_cost open_quantity =
     (if open_quantity \<le> 0 then Inl (PnlValueError ''open_quantity must be positive'')
      else round_money ((reference_price - average_cost) * dec_of_int open_quantity))"

section \<open>Mark to market\<close>

record reference_price =
  rp_price :: decimal
  rp_observed_at :: datetime

text \<open>Comparing or subtracting a naive and an aware \<^verbatim>\<open>datetime\<close> raises \<^verbatim>\<open>TypeError\<close>.\<close>

definition classify_price ::
  "reference_price option \<Rightarrow> datetime \<Rightarrow> int option \<Rightarrow> (pnl_error, decimal option \<times> price_state) result" where
  "classify_price price now max_age =
     (case price of
        None \<Rightarrow> Inr (None, MISSING)
      | Some p \<Rightarrow>
          if rp_price p \<le> 0 then Inr (None, MISSING)
          else case max_age of
            None \<Rightarrow> Inr (Some (rp_price p), FRESH)
          | Some age \<Rightarrow>
              if tz_aware (rp_observed_at p) \<noteq> tz_aware now then Inl PnlTypeError
              else if instant now < instant (rp_observed_at p) then Inr (Some (rp_price p), STALE)
              else if usec age < instant now - instant (rp_observed_at p) then Inr (Some (rp_price p), STALE)
              else Inr (Some (rp_price p), FRESH))"

definition mark_to_market ::
  "int \<Rightarrow> decimal option \<Rightarrow> uuid option \<Rightarrow> uuid \<Rightarrow> reference_price option \<Rightarrow> datetime \<Rightarrow> int option
   \<Rightarrow> (pnl_error, unrealized_pnl) result" where
  "mark_to_market quantity average_cost position_id instrument_id price now max_age =
     (if quantity = 0
      then Inr \<lparr>up_position_id = position_id, up_instrument_id = instrument_id, up_quantity = 0,
                up_average_cost = average_cost, up_reference_price = None, up_unrealized_pnl = Some 0,
                up_price_state = FRESH, up_status = PNL_READY\<rparr>
      else case average_cost of
        None \<Rightarrow> Inr \<lparr>up_position_id = position_id, up_instrument_id = instrument_id, up_quantity = quantity,
                up_average_cost = None, up_reference_price = None, up_unrealized_pnl = None,
                up_price_state = MISSING, up_status = PNL_UNAVAILABLE\<rparr>
      | Some avg \<Rightarrow>
          rbind (classify_price price now max_age) (\<lambda>(ref, state).
            case ref of
              None \<Rightarrow> Inr \<lparr>up_position_id = position_id, up_instrument_id = instrument_id,
                up_quantity = quantity, up_average_cost = Some avg, up_reference_price = None,
                up_unrealized_pnl = None, up_price_state = MISSING, up_status = PNL_UNAVAILABLE\<rparr>
            | Some p \<Rightarrow> rbind (unrealized_pnl_long p avg quantity) (\<lambda>u.
                Inr \<lparr>up_position_id = position_id, up_instrument_id = instrument_id,
                  up_quantity = quantity, up_average_cost = Some avg, up_reference_price = Some p,
                  up_unrealized_pnl = Some u, up_price_state = state,
                  up_status = (if state = FRESH then PNL_READY else PNL_DEGRADED)\<rparr>)))"

section \<open>Aggregation\<close>

definition realized_events :: "pnl_event list \<Rightarrow> pnl_event list" where
  "realized_events es = filter (\<lambda>e. ne_event_type e = REALIZED_PNL) es"

definition sum_realized :: "string \<Rightarrow> pnl_event list \<Rightarrow> (pnl_error, aggregated_pnl) result" where
  "sum_realized key es =
     (let rs = realized_events es in
      rbind (round_money (dsum (map ne_gross_pnl rs))) (\<lambda>g.
      rbind (round_money (dsum (map ne_costs rs))) (\<lambda>c.
      rbind (round_money (dsum (map ne_net_pnl rs))) (\<lambda>n.
      Inr \<lparr>ag_key = key, ag_realized_gross = g, ag_realized_costs = c, ag_realized_net = n,
           ag_unrealized_pnl = None, ag_gross_pnl = 0, ag_net_pnl = 0, ag_trade_count = length rs\<rparr>))))"

text \<open>The buckets are a dictionary from key to events, read in the sorted order of the keys.\<close>

definition aggregate_realized ::
  "(pnl_event \<Rightarrow> string) \<Rightarrow> pnl_event list \<Rightarrow> (pnl_error, aggregated_pnl list) result" where
  "aggregate_realized key_fn es =
     rmap (\<lambda>k. sum_realized k (filter (\<lambda>e. key_fn e = k) es)) (sort (remdups (map key_fn es)))"

definition strategy_aggregation :: "pnl_event list \<Rightarrow> (pnl_error, aggregated_pnl list) result" where
  "strategy_aggregation = aggregate_realized (\<lambda>e. uuid_str (ne_strategy_run_id e))"

definition account_aggregation :: "pnl_event list \<Rightarrow> (pnl_error, aggregated_pnl list) result" where
  "account_aggregation = aggregate_realized (\<lambda>e. uuid_str (ne_account_id e))"

text \<open>\<^verbatim>\<open>u or Decimal("0")\<close>: a zero is falsy, and then replaced by zero.\<close>

definition dec_or_zero :: "decimal option \<Rightarrow> decimal" where
  "dec_or_zero u = (case u of None \<Rightarrow> 0 | Some x \<Rightarrow> if deq x 0 then 0 else x)"

definition combine_unrealized ::
  "aggregated_pnl \<Rightarrow> decimal option \<Rightarrow> (pnl_error, aggregated_pnl) result" where
  "combine_unrealized a unrealized =
     rbind (case unrealized of None \<Rightarrow> Inr None | Some u \<Rightarrow> rbind (round_money u) (\<lambda>x. Inr (Some x))) (\<lambda>u.
     rbind (round_money (ag_realized_gross a + dec_or_zero u)) (\<lambda>g.
     rbind (round_money (ag_realized_net a + dec_or_zero u)) (\<lambda>n.
     Inr (a\<lparr>ag_unrealized_pnl := u, ag_gross_pnl := g, ag_net_pnl := n\<rparr>))))"

section \<open>Repository\<close>

record pnl_store =
  nt_events :: "pnl_event list"
  nt_snapshots :: "pnl_snapshot list"
  nt_refs_ok :: "pnl_event \<Rightarrow> bool"

definition load_event :: "pnl_store \<Rightarrow> string \<Rightarrow> pnl_event option" where
  "load_event s eid = first_row (\<lambda>e. ne_execution_id e = eid) (nt_events s)"

definition save_pnl_event :: "bool \<Rightarrow> pnl_store \<Rightarrow> pnl_event \<Rightarrow> (pnl_error, pnl_store) result" where
  "save_pnl_event db_fails s e =
     (if db_fails then Inl (PnlPersistenceError ''P&L event write failed'')
      else if load_event s (ne_execution_id e) \<noteq> None \<or> \<not> nt_refs_ok s e then Inl DuplicateExecutionError
      else Inr (s\<lparr>nt_events := nt_events s @ [e]\<rparr>))"

definition opt_eq :: "'a option \<Rightarrow> 'a \<Rightarrow> bool" where
  "opt_eq v x = (case v of None \<Rightarrow> True | Some y \<Rightarrow> y = x)"

definition list_pnl_events ::
  "pnl_store \<Rightarrow> uuid option \<Rightarrow> uuid option \<Rightarrow> uuid option \<Rightarrow> uuid option \<Rightarrow> pnl_event list" where
  "list_pnl_events s account run instr pos =
     sort_key (\<lambda>e. instant (ne_occurred_at e))
       (filter (\<lambda>e. opt_eq account (ne_account_id e) \<and> opt_eq run (ne_strategy_run_id e) \<and>
          opt_eq instr (ne_instrument_id e) \<and> (case pos of None \<Rightarrow> True | Some p \<Rightarrow> ne_position_id e = Some p))
          (nt_events s))"

text \<open>\<^verbatim>\<open>SUM(net_pnl)\<close> is computed by the database on \<^verbatim>\<open>numeric\<close> values, exactly.\<close>

definition realized_pnl_for_position :: "pnl_store \<Rightarrow> uuid \<Rightarrow> rat" where
  "realized_pnl_for_position s pid =
     (\<Sum>e\<leftarrow>filter (\<lambda>e. ne_position_id e = Some pid \<and> ne_event_type e = REALIZED_PNL) (nt_events s). dval (ne_net_pnl e))"

definition find_snapshot :: "pnl_store \<Rightarrow> uuid \<Rightarrow> string \<Rightarrow> datetime \<Rightarrow> pnl_snapshot option" where
  "find_snapshot s account mode ts =
     first_row (\<lambda>n. nsn_account_id n = account \<and> nsn_trading_mode n = mode \<and> instant (nsn_snapshot_at n) = instant ts)
       (nt_snapshots s)"

definition save_snapshot :: "bool \<Rightarrow> pnl_store \<Rightarrow> pnl_snapshot \<Rightarrow> (pnl_error, pnl_store) result" where
  "save_snapshot db_fails s n =
     (if db_fails then Inl (PnlPersistenceError ''P&L snapshot write failed'')
      else if find_snapshot s (nsn_account_id n) (nsn_trading_mode n) (nsn_snapshot_at n) \<noteq> None
      then Inl DuplicateExecutionError
      else Inr (s\<lparr>nt_snapshots := nt_snapshots s @ [n]\<rparr>))"

definition load_latest_snapshot :: "pnl_store \<Rightarrow> uuid \<Rightarrow> string \<Rightarrow> pnl_snapshot option" where
  "load_latest_snapshot s account mode =
     (case sort_key (\<lambda>n. - instant (nsn_snapshot_at n))
             (filter (\<lambda>n. nsn_account_id n = account \<and> nsn_trading_mode n = upper mode) (nt_snapshots s)) of
        [] \<Rightarrow> None | n # _ \<Rightarrow> Some n)"

section \<open>The engine\<close>

record pnl_metrics =
  nm_realized_events :: nat
  nm_unrealized_calculations :: nat
  nm_cost_applications :: nat
  nm_conflicts :: nat
  nm_duplicates :: nat
  nm_rejections :: nat
  nm_stale :: nat
  nm_unavailable :: nat
  nm_snapshot_writes :: nat

record pnl_engine =
  nn_repository :: "pnl_store option"
  nn_metrics :: pnl_metrics

record pnl_env =
  nv_halt :: bool
  nv_digest :: digest
  nv_db_fail :: bool

abbreviation bump_pnl :: "(pnl_metrics \<Rightarrow> pnl_metrics) \<Rightarrow> pnl_engine \<Rightarrow> pnl_engine" where
  "bump_pnl f st \<equiv> st\<lparr>nn_metrics := f (nn_metrics st)\<rparr>"

definition guard_mode :: "string \<Rightarrow> (pnl_error, unit) result" where
  "guard_mode trading_mode =
     (if upper trading_mode = ''LIVE'' then Inl (PnlModeError ''LIVE trading is disabled (fail-closed)'')
      else if upper trading_mode \<notin> {''BACKTEST'', ''PAPER''}
      then Inl (PnlModeError (''unknown trading mode: '' @ trading_mode))
      else Inr ())"

definition validate_pnl :: "pnl_env \<Rightarrow> position_fill \<Rightarrow> (pnl_error, unit) result" where
  "validate_pnl env f =
     rbind (guard_mode (pf_trading_mode f)) (\<lambda>_.
       guard (\<not> nv_halt env) (PnlValidationError ''global trading halt is active; P&L refused''))"

definition pnl_content_hash :: "digest \<Rightarrow> pnl_event \<Rightarrow> string \<Rightarrow> string" where
  "pnl_content_hash dig e mode =
     dig [(''execution_id'', PStr (ne_execution_id e)), (''event_type'', PStr ''REALIZED_PNL''),
          (''account_id'', PUuid (ne_account_id e)), (''strategy_run_id'', PUuid (ne_strategy_run_id e)),
          (''instrument_id'', PUuid (ne_instrument_id e)), (''trading_mode'', PStr (upper mode)),
          (''side'', PStr (ne_side e)), (''quantity'', PInt (ne_quantity e)), (''price'', PDec (ne_price e)),
          (''average_cost'', PDec (ne_average_cost e)), (''gross_pnl'', PDec (ne_gross_pnl e)),
          (''costs'', PDec (ne_costs e)), (''net_pnl'', PDec (ne_net_pnl e)),
          (''occurred_at'', PTime (ne_occurred_at e))]"

definition build_event ::
  "digest \<Rightarrow> position_fill \<Rightarrow> uuid option \<Rightarrow> int \<Rightarrow> decimal \<Rightarrow> decimal \<Rightarrow> decimal \<Rightarrow> decimal \<Rightarrow> pnl_event" where
  "build_event dig f position_id closed_qty average_cost gross costs net =
     (let e = \<lparr>ne_execution_id = pf_execution_id f, ne_event_type = REALIZED_PNL, ne_account_id = pf_account_id f,
           ne_strategy_run_id = pf_strategy_run_id f, ne_instrument_id = pf_instrument_id f,
           ne_position_id = position_id, ne_trading_mode = upper (pf_trading_mode f), ne_side = pf_side f,
           ne_quantity = closed_qty, ne_price = pf_price f, ne_average_cost = average_cost, ne_gross_pnl = gross,
           ne_costs = costs, ne_net_pnl = net, ne_occurred_at = pf_occurred_at f, ne_content_hash = []\<rparr> in
      e\<lparr>ne_content_hash := pnl_content_hash dig e (pf_trading_mode f)\<rparr>)"

text \<open>The realized event of a SELL against the position before it.\<close>

definition realize ::
  "digest \<Rightarrow> position_fill \<Rightarrow> position_state option \<Rightarrow> cost_component list \<Rightarrow> (pnl_error, pnl_event) result" where
  "realize dig f position_before costs =
     (case position_before of
        None \<Rightarrow> Inl (PnlOverCloseError ''SELL on a flat/unknown position'')
      | Some p \<Rightarrow>
          if ps_quantity p \<le> 0 then Inl (PnlOverCloseError ''SELL on a flat/unknown position'')
          else if ps_quantity p < dec_int (pf_quantity f)
          then Inl (PnlOverCloseError ''SELL exceeds open long quantity'')
          else case ps_average_price p of
            None \<Rightarrow> Inl (PnlDataError ''cannot realize P&L without a cost basis'')
          | Some avg \<Rightarrow>
              rbind (realized_pnl_long (pf_price f) avg (dec_int (pf_quantity f))) (\<lambda>gross.
              rbind (costs_total costs) (\<lambda>total.
              rbind (net_pnl gross total) (\<lambda>net.
              Inr (build_event dig f (ps_position_id p) (dec_int (pf_quantity f)) avg gross total net)))))"

text \<open>Only a \<^verbatim>\<open>PnlError\<close> is counted as a rejection; \<^verbatim>\<open>ValueError\<close>, \<^verbatim>\<open>InvalidOperation\<close> and
  \<^verbatim>\<open>AttributeError\<close> propagate uncounted.\<close>

definition is_pnl_error :: "pnl_error \<Rightarrow> bool" where
  "is_pnl_error e = (case e of PnlValueError _ \<Rightarrow> False | PnlInvalidOperation \<Rightarrow> False | PnlTypeError \<Rightarrow> False
     | PnlAttributeError \<Rightarrow> False | _ \<Rightarrow> True)"

definition raise_pnl :: "pnl_error \<Rightarrow> pnl_engine \<Rightarrow> (pnl_error, 'a) result \<times> pnl_engine" where
  "raise_pnl e st =
     (Inl e, if is_pnl_error e then bump_pnl (\<lambda>m. m\<lparr>nm_rejections := nm_rejections m + 1\<rparr>) st else st)"

definition record_fill ::
  "pnl_env \<Rightarrow> pnl_engine \<Rightarrow> position_fill \<Rightarrow> position_state option \<Rightarrow> cost_component list
   \<Rightarrow> (pnl_error, pnl_result) result \<times> pnl_engine" where
  "record_fill env st f position_before costs =
     (case validate_pnl env f of
        Inl e \<Rightarrow> (Inl e, st)
      | Inr _ \<Rightarrow>
          if pf_side f = ''BUY''
          then (Inr \<lparr>nr_status = PL_APPLIED, nr_event = None, nr_conflict_original = None\<rparr>, st)
          else case realize (nv_digest env) f position_before costs of
            Inl e \<Rightarrow> raise_pnl e st
          | Inr e \<Rightarrow>
              (case nn_repository st of
                 None \<Rightarrow> raise_pnl PnlAttributeError st
               | Some s \<Rightarrow>
                   (case save_pnl_event (nv_db_fail env) s e of
                      Inr s' \<Rightarrow>
                        (Inr \<lparr>nr_status = PL_APPLIED, nr_event = Some e, nr_conflict_original = None\<rparr>,
                         bump_pnl (\<lambda>m. m\<lparr>nm_realized_events := nm_realized_events m + 1,
                             nm_cost_applications := nm_cost_applications m + (if deq (ne_costs e) 0 then 0 else 1)\<rparr>)
                           (st\<lparr>nn_repository := Some s'\<rparr>))
                    | Inl DuplicateExecutionError \<Rightarrow>
                        (case load_event s (pf_execution_id f) of
                           None \<Rightarrow> raise_pnl (PnlPersistenceError ''duplicate but no existing event'') st
                         | Some existing \<Rightarrow>
                             if ne_content_hash existing \<noteq> ne_content_hash e
                             then (Inr \<lparr>nr_status = PL_CONFLICT, nr_event = None, nr_conflict_original = Some existing\<rparr>,
                                   bump_pnl (\<lambda>m. m\<lparr>nm_conflicts := nm_conflicts m + 1\<rparr>) st)
                             else (Inr \<lparr>nr_status = PL_DUPLICATE, nr_event = Some existing, nr_conflict_original = None\<rparr>,
                                   bump_pnl (\<lambda>m. m\<lparr>nm_duplicates := nm_duplicates m + 1\<rparr>) st))
                    | Inl x \<Rightarrow> raise_pnl x st)))"

definition engine_mark_to_market ::
  "int option \<Rightarrow> pnl_engine \<Rightarrow> position_state \<Rightarrow> reference_price option \<Rightarrow> datetime \<Rightarrow> int option
   \<Rightarrow> (pnl_error, unrealized_pnl) result \<times> pnl_engine" where
  "engine_mark_to_market default_age st p price now max_age =
     (case mark_to_market (ps_quantity p) (ps_average_price p) (ps_position_id p) (ps_instrument_id p) price now
             (case max_age of None \<Rightarrow> default_age | Some a \<Rightarrow> Some a) of
        Inl e \<Rightarrow> (Inl e, st)
      | Inr u \<Rightarrow> (Inr u, bump_pnl (\<lambda>m. m\<lparr>nm_unrealized_calculations := nm_unrealized_calculations m + 1,
            nm_stale := nm_stale m + (if up_status u = PNL_DEGRADED then 1 else 0),
            nm_unavailable := nm_unavailable m + (if up_status u = PNL_UNAVAILABLE then 1 else 0)\<rparr>) st))"

definition position_pnl_view ::
  "int option \<Rightarrow> pnl_engine \<Rightarrow> position_state \<Rightarrow> reference_price option \<Rightarrow> decimal \<Rightarrow> datetime \<Rightarrow> int option
   \<Rightarrow> (pnl_error, position_pnl) result \<times> pnl_engine" where
  "position_pnl_view default_age st p price realized now max_age =
     (case engine_mark_to_market default_age st p price now max_age of
        (Inl e, st') \<Rightarrow> (Inl e, st')
      | (Inr u, st') \<Rightarrow>
          (Inr \<lparr>pp_position_id = ps_position_id p, pp_account_id = ps_account_id p,
                pp_strategy_run_id = ps_strategy_run_id p, pp_instrument_id = ps_instrument_id p,
                pp_trading_mode = ps_trading_mode p, pp_quantity = ps_quantity p,
                pp_average_cost = ps_average_price p, pp_reference_price = up_reference_price u,
                pp_market_value = (case up_reference_price u of
                   None \<Rightarrow> None
                 | Some r \<Rightarrow> if 0 < up_quantity u then Some (r * dec_of_int (up_quantity u)) else None),
                pp_unrealized_pnl = up_unrealized_pnl u, pp_realized_pnl = realized, pp_status = up_status u\<rparr>, st'))"

definition snapshot ::
  "pnl_env \<Rightarrow> pnl_engine \<Rightarrow> uuid \<Rightarrow> string \<Rightarrow> datetime \<Rightarrow> decimal \<Rightarrow> decimal option \<Rightarrow> decimal \<Rightarrow> int \<Rightarrow> pnl_status
   \<Rightarrow> (pnl_error, pnl_snapshot) result \<times> pnl_engine" where
  "snapshot env st account mode ts realized unrealized costs count status =
     (case nn_repository st of
        None \<Rightarrow> (Inl (PnlPersistenceError ''no P&L repository configured''), st)
      | Some s \<Rightarrow>
     (case guard_mode mode of
        Inl e \<Rightarrow> (Inl e, st)
      | Inr _ \<Rightarrow>
          let snap = \<lparr>nsn_account_id = account, nsn_trading_mode = upper mode, nsn_snapshot_at = ts,
                 nsn_realized_pnl = realized, nsn_unrealized_pnl = unrealized,
                 nsn_gross_pnl = realized + dec_or_zero unrealized, nsn_costs = costs,
                 nsn_net_pnl = (realized - costs) + dec_or_zero unrealized,
                 nsn_position_count = count, nsn_status = status\<rparr> in
          (case save_snapshot (nv_db_fail env) s snap of
             Inr s' \<Rightarrow> (Inr snap, bump_pnl (\<lambda>m. m\<lparr>nm_snapshot_writes := nm_snapshot_writes m + 1\<rparr>)
                          (st\<lparr>nn_repository := Some s'\<rparr>))
           | Inl DuplicateExecutionError \<Rightarrow>
               (case find_snapshot s account (upper mode) ts of
                  None \<Rightarrow> (Inl (PnlPersistenceError ''snapshot duplicate but none found''), st)
                | Some x \<Rightarrow> (Inr x, st))
           | Inl e \<Rightarrow> (Inl e, st))))"

section \<open>Exactness of the accounting\<close>

text \<open>Prices on the money grid and 32-bit quantities make the multiplication exact, so rounding to four
  decimals loses nothing.\<close>

lemma price_gain_exact:
  assumes p: "money_grid p" and a: "money_grid a" and q: "0 < q" "q \<le> 2 ^ 31"
  obtains r m where "round_money ((p - a) * dec_of_int q) = Inr r" "dval r = (dval p - dval a) * of_int q"
    "dval r = of_int m * 10 powi (-4)" "\<bar>m\<bar> \<le> 2 ^ 32 * 10 ^ 18"
proof -
  obtain k n where kn: "\<bar>k\<bar> < 10 ^ 18" "dval p = of_int k * 10 powi (-4)" "\<bar>n\<bar> < 10 ^ 18" "dval a = of_int n * 10 powi (-4)"
    using p a by (elim money_gridE) blast
  have d: "dval (p - a) = of_int (k - n) * 10 powi (-4)"
    using kn by (intro dval_grid_minus) auto
  have b: "\<bar>(k - n) * q\<bar> \<le> 2 ^ 32 * 10 ^ 18"
  proof -
    have "\<bar>(k - n) * q\<bar> = \<bar>k - n\<bar> * q" using q by (simp add: abs_mult)
    also have "\<dots> \<le> (2 * 10 ^ 18) * 2 ^ 31" using kn q by (intro mult_mono) auto
    finally show ?thesis by simp
  qed
  then have t: "dval ((p - a) * dec_of_int q) = of_int ((k - n) * q) * 10 powi (-4)"
    by (intro dval_grid_times_int [OF d]) simp
  obtain r where r: "quantize (-4) ((p - a) * dec_of_int q) = Some r" "dval r = dval ((p - a) * dec_of_int q)"
    by (rule quantize_exact [OF t]) (use b in simp)
  have "dval r = (dval p - dval a) * of_int q" unfolding r(2) t kn(2,4)
    by (simp only: of_int_mult of_int_diff left_diff_distrib mult_ac)
  then show thesis using that [of r "(k - n) * q"] r t b by (simp add: round_money_def)
qed

lemma net_exact:
  assumes g: "dval g = of_int m * 10 powi (-4)" "\<bar>m\<bar> \<le> 2 ^ 32 * 10 ^ 18" and c: "money_grid c"
  obtains r where "net_pnl g c = Inr r" "dval r = dval g - dval c"
proof -
  obtain n where n: "\<bar>n\<bar> < 10 ^ 18" "dval c = of_int n * 10 powi (-4)" using c by (rule money_gridE)
  have d: "dval (g - c) = of_int (m - n) * 10 powi (-4)" using g n by (intro dval_grid_minus) auto
  obtain r where r: "quantize (-4) (g - c) = Some r" "dval r = dval (g - c)"
    by (rule quantize_exact [OF d]) (use g n in simp)
  then show thesis using that d g n by (simp add: net_pnl_def round_money_def algebra_simps)
qed

lemma realize_exact:
  assumes pos: "ps_average_price p = Some avg" "dec_int (pf_quantity f) \<le> ps_quantity p"
    and q: "0 < dec_int (pf_quantity f)" "dec_int (pf_quantity f) \<le> 2 ^ 31"
    and grid: "money_grid (pf_price f)" "money_grid avg"
    and costs: "costs_total costs = Inr tc" "money_grid tc"
  shows "\<exists>e. realize dig f (Some p) costs = Inr e \<and>
     dval (ne_gross_pnl e) = (dval (pf_price f) - dval avg) * of_int (dec_int (pf_quantity f)) \<and>
     dval (ne_net_pnl e) = dval (ne_gross_pnl e) - dval tc"
proof -
  obtain g m where g: "round_money ((pf_price f - avg) * dec_of_int (dec_int (pf_quantity f))) = Inr g"
    "dval g = (dval (pf_price f) - dval avg) * of_int (dec_int (pf_quantity f))"
    "dval g = of_int m * 10 powi (-4)" "\<bar>m\<bar> \<le> 2 ^ 32 * 10 ^ 18"
    by (rule price_gain_exact [OF grid q])
  obtain n where n: "net_pnl g tc = Inr n" "dval n = dval g - dval tc"
    by (rule net_exact [OF g(3,4) costs(2)])
  show ?thesis using pos q g n costs
    by (simp add: realize_def realized_pnl_long_def build_event_def Let_def)
qed

text \<open>C11.  Realised profit is exact: for a SELL of at most 2^31 shares that the position covers, at a price
  and against an average cost that fit \<^verbatim>\<open>Numeric(18, 4)\<close>, and costs whose total does, the recorded
  gross is exactly (price - average cost) times the closed quantity and the net is exactly the
  gross minus the costs: no rounding is lost although every step is rounded.\<close>

theorem realized_pnl_exact:
  assumes pos: "ps_average_price p = Some avg" "dec_int (pf_quantity f) \<le> ps_quantity p"
    and q: "0 < dec_int (pf_quantity f)" "dec_int (pf_quantity f) \<le> 2 ^ 31"
    and grid: "money_grid (pf_price f)" "money_grid avg"
    and costs: "costs_total costs = Inr tc" "money_grid tc"
  shows "\<exists>e. realize dig f (Some p) costs = Inr e \<and>
     dval (ne_gross_pnl e) = (dval (pf_price f) - dval avg) * of_int (dec_int (pf_quantity f)) \<and>
     dval (ne_net_pnl e) = dval (ne_gross_pnl e) - dval tc"
  using realize_exact [OF assms] .

definition sample_open :: position_state where
  "sample_open = \<lparr>ps_position_id = Some 50, ps_strategy_run_id = 4, ps_instrument_id = 3, ps_trading_mode = ''PAPER'',
     ps_quantity = 10, ps_average_price = Some (Dec 1000000 (-4)), ps_status = OPEN, ps_opened_at = Some (utc 10),
     ps_closed_at = None, ps_last_execution_id = Some ''e1'', ps_account_id = Some 2\<rparr>"

lemma money_grid_sample: "money_grid (Dec 1000000 (-4))" "money_grid (Dec 10250 (-2))" "money_grid (Dec 0 (-4))"
  unfolding money_grid_def
  by (rule exI [of _ 1000000], simp add: dval_def)
     (rule exI [of _ 1025000], simp add: dval_def power_int_def power_divide, rule exI [of _ 0], simp add: dval_def)

lemma realized_pnl_exact_sample:
  "\<exists>e. realize (\<lambda>_. ''h'') (sample_fill_msg ''e2'' ''SELL'' 4 10250) (Some sample_open) [] = Inr e \<and> dval (ne_gross_pnl e) = 10"
proof -
  have c: "costs_total [] = Inr (Dec 0 (-4))"
    by (simp add: costs_total_def dsum_def round_money_def quantize_def rescaled_def zero_decimal_def Let_def)
  have v: "dval (Dec 10250 (-2)) = 205 / 2" "dval (Dec 1000000 (-4)) = 100" by (simp_all add: dval_def power_int_def power_divide)
  from realize_exact [of sample_open "Dec 1000000 (-4)" "sample_fill_msg ''e2'' ''SELL'' 4 10250" "[]" "Dec 0 (-4)" "\<lambda>_. ''h''"]
    money_grid_sample c show ?thesis by (auto simp: sample_open_def sample_fill_msg_def dec_int_def v)
qed

theorem realized_pnl_exact_witness:
  "\<exists>e. realize (\<lambda>_. ''h'') (sample_fill_msg ''e2'' ''SELL'' 4 10250) (Some sample_open) [] = Inr e \<and> dval (ne_gross_pnl e) = 10"
proof -
  have c: "costs_total [] = Inr (Dec 0 (-4))"
    by (simp add: costs_total_def dsum_def round_money_def quantize_def rescaled_def zero_decimal_def Let_def)
  have v: "dval (Dec 10250 (-2)) = 205 / 2" "dval (Dec 1000000 (-4)) = 100" by (simp_all add: dval_def power_int_def power_divide)
  from realized_pnl_exact [of sample_open "Dec 1000000 (-4)" "sample_fill_msg ''e2'' ''SELL'' 4 10250" "[]" "Dec 0 (-4)" "\<lambda>_. ''h''"]
    money_grid_sample c show ?thesis by (auto simp: sample_open_def sample_fill_msg_def dec_int_def v)
qed

section \<open>Mark to market\<close>

text \<open>A profit is never shown from a price that cannot be trusted: the value is present exactly
  when a positive price exists (or the position is flat), it is then (price - cost) times the
  quantity, and the status is READY only for a flat position or a price that is not in the future
  and not older than the allowed age; every other priced result is marked DEGRADED.\<close>

theorem mark_to_market_fail_closed:
  assumes q: "0 < q" "q \<le> 2 ^ 31" and avg: "money_grid avg"
    and price: "\<And>p. price = Some p \<Longrightarrow> money_grid (rp_price p) \<and> tz_aware (rp_observed_at p)" and now: "tz_aware now"
  shows "\<exists>u. mark_to_market q (Some avg) pid ins price now (Some age) = Inr u \<and>
    (case price of
       None \<Rightarrow> up_unrealized_pnl u = None \<and> up_status u = PNL_UNAVAILABLE
     | Some p \<Rightarrow>
         if dval (rp_price p) \<le> 0 then up_unrealized_pnl u = None \<and> up_status u = PNL_UNAVAILABLE
         else (\<exists>x. up_unrealized_pnl u = Some x \<and> dval x = (dval (rp_price p) - dval avg) * of_int q) \<and>
           up_status u = (if instant (rp_observed_at p) \<le> instant now \<and>
               instant now - instant (rp_observed_at p) \<le> usec age then PNL_READY else PNL_DEGRADED))"
proof (cases price)
  case None
  then show ?thesis using q by (simp add: mark_to_market_def classify_price_def)
next
  case (Some p)
  show ?thesis
  proof (cases "dval (rp_price p) \<le> 0")
    case True
    then show ?thesis using q Some by (simp add: mark_to_market_def classify_price_def le_decimal_iff)
  next
    case False
    obtain x m where x: "round_money ((rp_price p - avg) * dec_of_int q) = Inr x"
      "dval x = (dval (rp_price p) - dval avg) * of_int q"
      using price_gain_exact [OF _ avg q] price [OF Some] by blast
    then show ?thesis using q Some False price [OF Some] now
      by (auto simp: mark_to_market_def classify_price_def le_decimal_iff unrealized_pnl_long_def)
  qed
qed

theorem mark_to_market_fail_closed_witness:
  "\<exists>u x. mark_to_market 10 (Some (Dec 1000000 (-4))) None 3 (Some \<lparr>rp_price = Dec 10250 (-2), rp_observed_at = utc 0\<rparr>)
      (utc (usec 90)) (Some 60) = Inr u \<and> up_unrealized_pnl u = Some x \<and> dval x = 25 \<and> up_status u = PNL_DEGRADED"
proof -
  have v: "dval (Dec 10250 (-2)) = 205 / 2" "dval (Dec 1000000 (-4)) = 100" by (simp_all add: dval_def power_int_def power_divide)
  from mark_to_market_fail_closed [of 10 "Dec 1000000 (-4)" "Some \<lparr>rp_price = Dec 10250 (-2), rp_observed_at = utc 0\<rparr>"
      "utc (usec 90)" None 3 60] money_grid_sample
  show ?thesis by (auto simp: v usec_def)
qed

section \<open>Redelivered fills\<close>

lemma raise_pnl_simps [simp]:
  "fst (raise_pnl e st) = Inl e" "nn_repository (snd (raise_pnl e st)) = nn_repository st"
  by (simp_all add: raise_pnl_def)

lemma realize_execution_id: "realize dig f p c = Inr e \<Longrightarrow> ne_execution_id e = pf_execution_id f"
  by (auto simp: realize_def rbind_eq_Inr build_event_def Let_def split: option.splits if_splits)

lemma record_fill_repo:
  obtains (saved) s e where "nn_repository st = Some s" "load_event s (pf_execution_id f) = None" "pf_side f \<noteq> ''BUY''"
      "realize (nv_digest env) f p c = Inr e"
      "nn_repository (snd (record_fill env st f p c)) = Some (s\<lparr>nt_events := nt_events s @ [e]\<rparr>)"
      "fst (record_fill env st f p c) = Inr \<lparr>nr_status = PL_APPLIED, nr_event = Some e, nr_conflict_original = None\<rparr>"
  | (unchanged) "nn_repository (snd (record_fill env st f p c)) = nn_repository st"
      "is_ok (fst (record_fill env st f p c)) \<Longrightarrow>
         pf_side f = ''BUY'' \<or> (\<exists>s. nn_repository st = Some s \<and> load_event s (pf_execution_id f) \<noteq> None)"
proof (cases "\<exists>e s s'. validate_pnl env f = Inr () \<and> pf_side f \<noteq> ''BUY'' \<and> realize (nv_digest env) f p c = Inr e \<and>
    nn_repository st = Some s \<and> save_pnl_event (nv_db_fail env) s e = Inr s'")
  case True
  then obtain e s s' where *: "validate_pnl env f = Inr ()" "pf_side f \<noteq> ''BUY''" "realize (nv_digest env) f p c = Inr e"
    "nn_repository st = Some s" "save_pnl_event (nv_db_fail env) s e = Inr s'" by blast
  have "load_event s (pf_execution_id f) = None" "s' = s\<lparr>nt_events := nt_events s @ [e]\<rparr>"
    using *(5) realize_execution_id [OF *(3)] by (auto simp: save_pnl_event_def split: if_splits)
  then show thesis using saved [of s e] * by (simp add: record_fill_def)
next
  case False
  have "nn_repository (snd (record_fill env st f p c)) = nn_repository st \<and>
      (is_ok (fst (record_fill env st f p c)) \<longrightarrow>
         pf_side f = ''BUY'' \<or> (\<exists>s. nn_repository st = Some s \<and> load_event s (pf_execution_id f) \<noteq> None))"
    using False
    by (auto simp: record_fill_def split: sum.split option.split pnl_error.split)
  then show thesis using unchanged by blast
qed

definition pnl_deliver ::
  "pnl_engine \<Rightarrow> pnl_env \<times> position_fill \<times> position_state option \<times> cost_component list
   \<Rightarrow> (pnl_error, pnl_result) result \<times> pnl_engine" where
  "pnl_deliver st m = (case m of (env, f, p, c) \<Rightarrow> record_fill env st f p c)"

definition pnl_seen ::
  "pnl_store option \<Rightarrow> pnl_env \<times> position_fill \<times> position_state option \<times> cost_component list \<Rightarrow> bool" where
  "pnl_seen repo m = (case m of (env, f, p, c) \<Rightarrow>
     pf_side f = ''BUY'' \<or> (\<exists>s. repo = Some s \<and> load_event s (pf_execution_id f) \<noteq> None))"

lemma record_fill_cong:
  "nn_repository st = nn_repository st2 \<Longrightarrow>
   nn_repository (snd (record_fill env st f p c)) = nn_repository (snd (record_fill env st2 f p c))"
  by (auto simp: record_fill_def split: sum.split option.split pnl_error.split)

lemma load_event_append:
  "load_event (s\<lparr>nt_events := nt_events s @ [e]\<rparr>) k =
     (case load_event s k of None \<Rightarrow> if ne_execution_id e = k then Some e else None | Some x \<Rightarrow> Some x)"
  by (simp add: load_event_def first_row_append split: option.split)

interpretation pnl_feed: at_least_once pnl_deliver nn_repository pnl_seen
proof
  fix st st' :: pnl_engine and m m' :: "pnl_env \<times> position_fill \<times> position_state option \<times> cost_component list"
  obtain env f p c where m: "m = (env, f, p, c)" by (cases m)
  obtain env' f' p' c' where m': "m' = (env', f', p', c')" by (cases m')
  show "nn_repository st = nn_repository st' \<Longrightarrow>
      nn_repository (snd (pnl_deliver st m)) = nn_repository (snd (pnl_deliver st' m))"
    unfolding m pnl_deliver_def prod.case by (rule record_fill_cong)
  show "pnl_seen (nn_repository st) m \<Longrightarrow> nn_repository (snd (pnl_deliver st m)) = nn_repository st"
    by (cases rule: record_fill_repo [where env = env and st = st and f = f and p = p and c = c])
       (auto simp: m pnl_deliver_def pnl_seen_def)
  show "is_ok (fst (pnl_deliver st m)) \<Longrightarrow> pnl_seen (nn_repository (snd (pnl_deliver st m))) m"
    by (cases rule: record_fill_repo [where env = env and st = st and f = f and p = p and c = c])
       (auto simp: m pnl_deliver_def pnl_seen_def load_event_append realize_execution_id split: option.split)
  show "pnl_seen (nn_repository st) m \<Longrightarrow> pnl_seen (nn_repository (snd (pnl_deliver st m'))) m"
    by (cases rule: record_fill_repo [where env = env' and st = st and f = f' and p = p' and c = c'])
       (auto simp: m m' pnl_deliver_def pnl_seen_def load_event_append split: option.split)
qed

text \<open>A fill is booked at most once: after a fill has been recorded, any further deliveries of the
  same fill, with whatever position and costs the caller passes then and after whatever other
  fills, leave the accounting tables as they are.\<close>

theorem pnl_booked_once:
  assumes "is_ok (fst (record_fill env st f p c))"
  shows "nn_repository (foldl (\<lambda>e m. snd (case m of (v, g, q, k) \<Rightarrow> record_fill v e g q k)) st
            ((env, f, p, c) # ms @ [(env', f, p', c')])) =
         nn_repository (foldl (\<lambda>e m. snd (case m of (v, g, q, k) \<Rightarrow> record_fill v e g q k)) st ((env, f, p, c) # ms))"
proof -
  have "pnl_seen (nn_repository (pnl_feed.deliver_all st ((env, f, p, c) # ms))) (env, f, p, c)"
    using pnl_feed.kept_all [OF pnl_feed.accepted, of st "(env, f, p, c)" ms] assms by (simp add: pnl_deliver_def)
  then have "pnl_seen (nn_repository (pnl_feed.deliver_all st ((env, f, p, c) # ms))) (env', f, p', c')"
    by (simp add: pnl_seen_def)
  from pnl_feed.redelivered [OF this] show ?thesis
    by (simp add: pnl_feed.deliver_all_def pnl_deliver_def case_prod_beta)
qed

definition sample_pnl_env :: pnl_env where
  "sample_pnl_env = \<lparr>nv_halt = False, nv_digest = (\<lambda>_. ''h''), nv_db_fail = False\<rparr>"

definition empty_pnl :: pnl_engine where
  "empty_pnl = \<lparr>nn_repository = Some \<lparr>nt_events = [], nt_snapshots = [], nt_refs_ok = (\<lambda>_. True)\<rparr>,
     nn_metrics = \<lparr>nm_realized_events = 0, nm_unrealized_calculations = 0, nm_cost_applications = 0, nm_conflicts = 0,
       nm_duplicates = 0, nm_rejections = 0, nm_stale = 0, nm_unavailable = 0, nm_snapshot_writes = 0\<rparr>\<rparr>"

theorem pnl_booked_once_witness:
  "is_ok (fst (record_fill sample_pnl_env empty_pnl (sample_fill_msg ''e2'' ''SELL'' 4 10250) (Some sample_open) [])) \<and>
   nn_repository (foldl (\<lambda>e m. snd (case m of (v, g, q, k) \<Rightarrow> record_fill v e g q k)) empty_pnl
      ((sample_pnl_env, sample_fill_msg ''e2'' ''SELL'' 4 10250, Some sample_open, []) # [] @
       [(sample_pnl_env, sample_fill_msg ''e2'' ''SELL'' 4 10250, None, [])])) =
   nn_repository (foldl (\<lambda>e m. snd (case m of (v, g, q, k) \<Rightarrow> record_fill v e g q k)) empty_pnl
      [(sample_pnl_env, sample_fill_msg ''e2'' ''SELL'' 4 10250, Some sample_open, [])])"
proof -
  obtain e where e: "realize (\<lambda>_. ''h'') (sample_fill_msg ''e2'' ''SELL'' 4 10250) (Some sample_open) [] = Inr e"
    using realized_pnl_exact_sample by blast
  have "is_ok (fst (record_fill sample_pnl_env empty_pnl (sample_fill_msg ''e2'' ''SELL'' 4 10250) (Some sample_open) []))"
    using e realize_execution_id [OF e]
    by (simp add: record_fill_def sample_pnl_env_def empty_pnl_def validate_pnl_def guard_mode_def save_pnl_event_def
        load_event_def sample_fill_msg_def upper_def upper_char_def)
  with pnl_booked_once [OF this, of "[]" sample_pnl_env None "[]"] show ?thesis by simp
qed

section \<open>Aggregation\<close>

lemma sum_buckets:
  fixes g :: "'a \<Rightarrow> nat"
  assumes "distinct ks" "key ` set es \<subseteq> set ks"
  shows "(\<Sum>k\<leftarrow>ks. length (filter P (filter (\<lambda>e. key e = k) es))) = length (filter P es)"
  using assms
proof (induction es)
  case Nil
  then show ?case by simp
next
  case (Cons e es)
  have "(\<Sum>k\<leftarrow>ks. length (filter P (filter (\<lambda>x. key x = k) (e # es)))) =
      (\<Sum>k\<leftarrow>ks. length (filter P (filter (\<lambda>x. key x = k) es)) + (if key e = k \<and> P e then 1 else 0))"
    by (rule arg_cong [of _ _ sum_list], rule map_cong) auto
  also have "\<dots> = length (filter P es) + (\<Sum>k\<leftarrow>ks. if key e = k \<and> P e then 1 else 0)"
    using Cons by (simp add: sum_list_addf)
  also have "(\<Sum>k\<leftarrow>ks. if key e = k \<and> P e then 1 else 0) = (if P e then 1 else (0::nat))"
  proof -
    have "key e \<in> set ks" using Cons.prems by auto
    with Cons.prems(1) have "(\<Sum>k\<leftarrow>ks. if key e = k then 1 else 0) = (1::nat)"
      by (induction ks) (auto simp: sum_list_0)
    then show ?thesis by (cases "P e") (simp_all add: sum_list_0)
  qed
  finally show ?case by simp
qed

text \<open>No double counting: whenever the aggregation by any key returns, its buckets have pairwise
  different keys in ascending order, and their trade counts add up to the number of realised
  events: every realised event is counted in exactly one bucket.\<close>

theorem aggregation_partitions_trades:
  assumes "aggregate_realized key es = Inr bs"
  shows "sorted (map ag_key bs) \<and> distinct (map ag_key bs) \<and>
    (\<Sum>b\<leftarrow>bs. ag_trade_count b) = length (realized_events es)"
proof -
  let ?ks = "sort (remdups (map key es))"
  have all: "list_all2 (\<lambda>k b. sum_realized k (filter (\<lambda>e. key e = k) es) = Inr b) ?ks bs"
    using assms unfolding aggregate_realized_def rmap_eq_Inr by blast
  then have "list_all2 (\<lambda>k b. ag_key b = k \<and> ag_trade_count b = length (realized_events (filter (\<lambda>e. key e = k) es))) ?ks bs"
    by (rule list_all2_mono) (auto simp: sum_realized_def Let_def rbind_eq_Inr)
  then have m: "map ag_key bs = ?ks" "map ag_trade_count bs = map (\<lambda>k. length (realized_events (filter (\<lambda>e. key e = k) es))) ?ks"
    by (induction rule: list_all2_induct) auto
  have "(\<Sum>k\<leftarrow>?ks. length (realized_events (filter (\<lambda>e. key e = k) es))) = length (realized_events es)"
    unfolding realized_events_def by (rule sum_buckets) auto
  then show ?thesis by (simp add: m)
qed

definition sample_pnl_event :: "string \<Rightarrow> uuid \<Rightarrow> pnl_event" where
  "sample_pnl_event eid run = \<lparr>ne_execution_id = eid, ne_event_type = REALIZED_PNL, ne_account_id = 2,
     ne_strategy_run_id = run, ne_instrument_id = 3, ne_position_id = None, ne_trading_mode = ''PAPER'', ne_side = ''SELL'',
     ne_quantity = 4, ne_price = Dec 10250 (-2), ne_average_cost = Dec 1000000 (-4), ne_gross_pnl = Dec 100000 (-4),
     ne_costs = Dec 0 (-4), ne_net_pnl = Dec 100000 (-4), ne_occurred_at = utc 5, ne_content_hash = ''h''\<rparr>"

theorem aggregation_partitions_trades_witness:
  "\<exists>bs. aggregate_realized ne_execution_id [sample_pnl_event ''b'' 1, sample_pnl_event ''a'' 1] = Inr bs \<and>
     (\<Sum>b\<leftarrow>bs. ag_trade_count b) = 2"
proof -
  obtain bs where bs: "aggregate_realized ne_execution_id [sample_pnl_event ''b'' 1, sample_pnl_event ''a'' 1] = Inr bs"
    by (simp add: aggregate_realized_def sample_pnl_event_def sum_realized_def realized_events_def Let_def round_money_def
        dsum_def plus_decimal_def dadd_def dfix_def zero_decimal_def rescaled_def quantize_def)
  from aggregation_partitions_trades [OF bs] bs show ?thesis by (auto simp: realized_events_def sample_pnl_event_def)
qed

end
