(* ===== verification/Decimal_Text.thy ===== *)
theory Decimal_Text
  imports Py_Decimal
begin

text \<open>
  The text of decimals: \<^verbatim>\<open>str(Decimal)\<close> and \<^verbatim>\<open>Decimal(text)\<close>.  The paper broker passes a fill price
  to the paper runtime as text inside event metadata, so its cash accounting is exact only
  because reading undoes writing.  Reading covers the grammar of finite numbers (an optional
  sign, digits with at most one point, an optional exponent); the special values, surrounding
  white space and digit separators are not represented.
\<close>

section \<open>Natural numbers\<close>

definition digit_value :: "char \<Rightarrow> nat" where
  "digit_value c = of_char c - 48"

definition nat_parse :: "string \<Rightarrow> nat" where
  "nat_parse = foldl (\<lambda>a c. 10 * a + digit_value c) 0"

lemma digit_value_char_of [simp]: "k < 10 \<Longrightarrow> digit_value (char_of (48 + k)) = k"
  by (simp add: digit_value_def of_char_of)

lemma nat_parse_snoc: "nat_parse (s @ [c]) = 10 * nat_parse s + digit_value c"
  by (simp add: nat_parse_def)

lemma nat_parse_str: "nat_parse (nat_str n) = n"
proof (induction n rule: nat_str.induct)
  case (1 n)
  show ?case
  proof (cases "n < 10")
    case True
    then show ?thesis by (simp add: nat_str.simps [of n] nat_parse_def)
  next
    case False
    then show ?thesis using "1.IH" by (simp add: nat_str.simps [of n] nat_parse_snoc)
  qed
qed

lemma nat_parse_zeros: "nat_parse (replicate k (CHR ''0'') @ s) = nat_parse s"
  by (induction k) (simp_all add: nat_parse_def digit_value_def)

lemma nat_str_not_Nil [simp]: "nat_str n \<noteq> []"
  by (simp add: nat_str.simps [of n])

lemma is_digit_0: "is_digit (CHR ''0'')" and not_digit [simp]: "\<not> is_digit (CHR ''.'')"
  "\<not> is_digit (CHR ''E'')" "\<not> is_digit (CHR ''-'')" "\<not> is_digit (CHR ''+'')"
  by (simp_all add: is_digit_def)

section \<open>Writing and reading decimals\<close>

definition exponent_str :: "int \<Rightarrow> string" where
  "exponent_str e = (if e < 0 then ''-'' else ''+'') @ nat_str (nat \<bar>e\<bar>)"

text \<open>\<^verbatim>\<open>Decimal.__str__\<close>: plain notation when the exponent is not positive and the number has at most
  six leading zeros after the point, scientific notation otherwise.\<close>

definition decimal_str :: "decimal \<Rightarrow> string" where
  "decimal_str d =
     (let digits = nat_str (nat \<bar>coeff d\<bar>);
          leftdigits = expo d + int (length digits);
          dotplace = (if expo d \<le> 0 \<and> -6 < leftdigits then leftdigits else 1);
          body = (if dotplace \<le> 0 then ''0.'' @ replicate (nat (- dotplace)) (CHR ''0'') @ digits
                  else if int (length digits) \<le> dotplace
                  then digits @ replicate (nat dotplace - length digits) (CHR ''0'')
                  else take (nat dotplace) digits @ ''.'' @ drop (nat dotplace) digits)
      in (if coeff d < 0 then ''-'' else []) @ body @
         (if leftdigits = dotplace then [] else ''E'' @ exponent_str (leftdigits - dotplace)))"

definition split_sign :: "string \<Rightarrow> bool \<times> string" where
  "split_sign s = (case s of [] \<Rightarrow> (False, []) | c # cs \<Rightarrow>
     if c = CHR ''-'' then (True, cs) else if c = CHR ''+'' then (False, cs) else (False, s))"

definition signed_parse :: "string \<Rightarrow> int option" where
  "signed_parse s = (let (neg, ds) = split_sign s in
     if ds \<noteq> [] \<and> list_all is_digit ds then Some ((if neg then -1 else 1) * int (nat_parse ds)) else None)"

definition exponent_parse :: "string \<Rightarrow> int option" where
  "exponent_parse s = (case s of [] \<Rightarrow> Some 0 | c # cs \<Rightarrow>
     if c = CHR ''E'' \<or> c = CHR ''e'' then signed_parse cs else None)"

definition fraction_parse :: "string \<Rightarrow> string \<times> string" where
  "fraction_parse s = (case s of [] \<Rightarrow> ([], []) | c # cs \<Rightarrow>
     if c = CHR ''.'' then (takeWhile is_digit cs, dropWhile is_digit cs) else ([], s))"

definition decimal_parse :: "string \<Rightarrow> decimal option" where
  "decimal_parse s =
     (let (neg, body) = split_sign s;
          intpart = takeWhile is_digit body;
          (fracpart, rest) = fraction_parse (dropWhile is_digit body)
      in if intpart @ fracpart = [] then None
         else map_option (\<lambda>e. Dec ((if neg then -1 else 1) * int (nat_parse (intpart @ fracpart))) (e - int (length fracpart)))
                (exponent_parse rest))"

section \<open>Reading undoes writing\<close>

lemma split_sign_digits:
  assumes "list_all is_digit ip" "ip \<noteq> []"
  shows "split_sign ((if neg then ''-'' else []) @ ip @ rest) = (neg, ip @ rest)"
proof -
  obtain c cs where ip: "ip = c # cs" "is_digit c" using assms by (cases ip) auto
  then have "c \<noteq> CHR ''-''" "c \<noteq> CHR ''+''" using not_digit(3,4) by auto
  then show ?thesis by (simp add: split_sign_def ip)
qed

lemma exponent_parse_str: "exponent_parse (''E'' @ exponent_str e) = Some e"
proof -
  have "split_sign (exponent_str e) = (e < 0, nat_str (nat \<bar>e\<bar>))"
    by (simp add: exponent_str_def split_sign_def)
  then show ?thesis
    using nat_str_digits [of "nat \<bar>e\<bar>"]
    by (simp add: exponent_parse_def signed_parse_def nat_parse_str list_all_iff)
qed

lemma span_digits:
  assumes "list_all is_digit ds" "rest = [] \<or> \<not> is_digit (hd rest)"
  shows "takeWhile is_digit (ds @ rest) = ds" "dropWhile is_digit (ds @ rest) = rest"
  using assms by (induction ds) (cases rest; auto)+

text \<open>The shape every written number has: digits, an optional fraction and an optional exponent.\<close>

lemma decimal_parse_shape:
  assumes digits: "list_all is_digit ip" "ip \<noteq> []" "list_all is_digit fp"
    and tail: "ex = (if e = 0 then [] else ''E'' @ exponent_str e)"
  shows "decimal_parse ((if neg then ''-'' else []) @ ip @ (if fp = [] then [] else ''.'' @ fp) @ ex) =
    Some (Dec ((if neg then -1 else 1) * int (nat_parse (ip @ fp))) (e - int (length fp)))"
proof -
  let ?mid = "(if fp = [] then [] else ''.'' @ fp) @ ex"
  have nd: "?mid = [] \<or> \<not> is_digit (hd ?mid)" "ex = [] \<or> \<not> is_digit (hd ex)" using tail by auto
  have frac: "fraction_parse ?mid = (fp, ex)"
    using span_digits [OF digits(3) nd(2)] tail by (auto simp: fraction_parse_def)
  have "exponent_parse ex = Some e"
    using tail exponent_parse_str [of e] by (auto simp: exponent_parse_def)
  then show ?thesis
    unfolding decimal_parse_def split_sign_digits [OF digits(1,2)] using digits(2) frac
    by (simp add: Let_def span_digits [OF digits(1) nd(1)])
qed

lemma decimal_parse_str: "decimal_parse (decimal_str d) = Some d"
proof -
  define digits where "digits = nat_str (nat \<bar>coeff d\<bar>)"
  define left where "left = expo d + int (length digits)"
  have dg: "list_all is_digit digits" "digits \<noteq> []" "nat_parse digits = nat \<bar>coeff d\<bar>"
    using nat_str_digits by (auto simp: digits_def list_all_iff nat_parse_str)
  have sgn: "(if coeff d < 0 then -1 else 1) * int (nat_parse digits) = coeff d" by (simp add: dg(3))
  note defs = decimal_str_def Let_def digits_def [symmetric] left_def [symmetric]
  consider (plain0) "expo d \<le> 0" "-6 < left" "left \<le> 0"
    | (plain) "expo d \<le> 0" "-6 < left" "0 < left" | (sci) "\<not> (expo d \<le> 0 \<and> -6 < left)"
    by linarith
  then show ?thesis
  proof cases
    case plain0
    let ?fp = "replicate (nat (- left)) (CHR ''0'') @ digits"
    have v: "nat_parse (''0'' @ ?fp) = nat_parse digits"
      using nat_parse_zeros [of 1 ?fp] by (simp add: nat_parse_zeros)
    have "decimal_parse ((if coeff d < 0 then ''-'' else []) @ ''0'' @ (if ?fp = [] then [] else ''.'' @ ?fp) @ []) =
        Some (Dec ((if coeff d < 0 then -1 else 1) * int (nat_parse (''0'' @ ?fp))) (0 - int (length ?fp)))"
      using dg is_digit_0 by (intro decimal_parse_shape) (auto simp: list_all_iff)
    moreover have "0 - int (length ?fp) = expo d" using plain0 by (simp add: left_def)
    ultimately show ?thesis using plain0 dg(2) sgn unfolding v defs by simp
  next
    case plain
    let ?ip = "take (nat left) digits" and ?fp = "drop (nat left) digits"
    have "decimal_parse ((if coeff d < 0 then ''-'' else []) @ ?ip @ (if ?fp = [] then [] else ''.'' @ ?fp) @ []) =
        Some (Dec ((if coeff d < 0 then -1 else 1) * int (nat_parse (?ip @ ?fp))) (0 - int (length ?fp)))"
      using dg plain by (intro decimal_parse_shape) (auto simp: list_all_iff dest: in_set_takeD in_set_dropD)
    moreover have "0 - int (length ?fp) = expo d" using plain by (simp add: left_def)
    moreover have "?fp = [] \<longleftrightarrow> int (length digits) \<le> left" using plain by auto
    moreover have "nat left - length digits = 0" using plain by (simp add: left_def)
    ultimately show ?thesis using plain sgn unfolding defs by (cases d; cases "?fp = []") (simp_all add: take_all_iff)
  next
    case sci
    let ?ip = "take 1 digits" and ?fp = "drop 1 digits"
    have "decimal_parse ((if coeff d < 0 then ''-'' else []) @ ?ip @ (if ?fp = [] then [] else ''.'' @ ?fp) @
          (if left - 1 = 0 then [] else ''E'' @ exponent_str (left - 1))) =
        Some (Dec ((if coeff d < 0 then -1 else 1) * int (nat_parse (?ip @ ?fp))) (left - 1 - int (length ?fp)))"
      using dg by (intro decimal_parse_shape) (auto simp: list_all_iff dest: in_set_takeD in_set_dropD)
    moreover have "left - 1 - int (length ?fp) = expo d" using dg(2) by (cases digits) (simp_all add: left_def)
    ultimately show ?thesis using sci sgn dg(2) unfolding defs by (cases digits) auto
  qed
qed

definition int_str :: "int \<Rightarrow> string" where
  "int_str n = (if n < 0 then ''-'' else []) @ nat_str (nat \<bar>n\<bar>)"

end
