(* ===== verification/Paper_Broker.thy ===== *)
theory Paper_Broker
  imports Order_Lifecycle Decimal_Text "HOL-Library.Char_ord" "HOL-Library.List_Lexorder"
begin

text \<open>
  The paper broker (\<^verbatim>\<open>services/paper_trading/alpha_algo_paper_trading\<close>: \<^verbatim>\<open>types.py\<close>,
  \<^verbatim>\<open>fill_policy.py\<close>, \<^verbatim>\<open>errors.py\<close>, \<^verbatim>\<open>book.py\<close>, \<^verbatim>\<open>paper_broker.py\<close>) on the broker contract
  (\<^verbatim>\<open>packages/broker_adapters/alpha_algo_broker_adapters/contracts.py\<close>): the deterministic fill
  policy, the append-only idempotent order book with its drain of events, the positions derived
  from the fill trail, and the adapter session around them.

  \<^verbatim>\<open>uuid5\<close> is a parameter (a hash).  A reading of the injected clock is a \<^verbatim>\<open>datetime\<close> or \<open>None\<close> for
  anything else the callable may return.  A dictionary that is only looked up is a map.
\<close>

section \<open>The broker contract\<close>

datatype trading_mode = BACKTEST | PAPER | LIVE
datatype order_side = BUY | SELL
datatype order_type = MARKET | LIMIT | STOP | STOP_LIMIT
datatype broker_order_status = ACCEPTED | BROKER_REJECTED | BROKER_UNKNOWN

fun order_type_value :: "order_type \<Rightarrow> string" where
  "order_type_value MARKET = ''MARKET''"
| "order_type_value LIMIT = ''LIMIT''"
| "order_type_value STOP = ''STOP''"
| "order_type_value STOP_LIMIT = ''STOP_LIMIT''"

record broker_order_request =
  bq_broker_account_id :: uuid
  bq_instrument_id :: uuid
  bq_trading_mode :: trading_mode
  bq_client_order_id :: string
  bq_side :: order_side
  bq_order_type :: order_type
  bq_quantity :: int
  bq_risk_approval_id :: string
  bq_limit_price :: "decimal option"
  bq_stop_price :: "decimal option"
  bq_metadata :: metadata

record broker_order_response =
  br_status :: broker_order_status
  br_client_order_id :: string
  br_broker_order_id :: "string option"
  br_accepted_at :: datetime
  br_reason :: "string option"
  br_raw_payload :: metadata

record broker_position_snapshot =
  bps_broker_account_id :: uuid
  bps_instrument_id :: uuid
  bps_trading_mode :: trading_mode
  bps_quantity :: decimal
  bps_average_price :: "decimal option"
  bps_captured_at :: datetime
  bps_raw_payload :: metadata

record broker_capabilities =
  bc_broker_name :: string
  bc_supports_market_data :: bool
  bc_supports_order_submission :: bool
  bc_supports_order_cancel :: bool
  bc_supports_positions :: bool
  bc_supports_live_trading :: bool

record broker_credentials_ref =
  cr_broker_name :: string
  cr_account_identifier :: string
  cr_secret_ref :: string

record broker_session_state =
  bss_broker_name :: string
  bss_account_identifier :: string
  bss_connected :: bool
  bss_authenticated :: bool
  bss_checked_at :: datetime
  bss_expires_at :: "datetime option"

section \<open>Value types and errors\<close>

datatype paper_error =
    PaperAdapterError string
  | PaperModeViolationError trading_mode
  | PaperMarketDataUnavailableError string
  | UnsupportedOrderTypeError string
  | ClientOrderIdConflictError string string
  | PaperValueError string
  | PaperInvalidOperation
  | PaperEventError exec_error

definition now_from :: "datetime option \<Rightarrow> (paper_error, datetime) result" where
  "now_from clock =
     (case clock of
        None \<Rightarrow> Inl (PaperAdapterError ''clock must return a datetime'')
      | Some t \<Rightarrow> if tz_aware t then Inr t else Inl (PaperAdapterError ''clock output must be timezone-aware''))"

record paper_reference_price =
  rp_instrument_id :: uuid
  rp_last :: decimal
  rp_bid :: "decimal option"
  rp_ask :: "decimal option"
  rp_reference_at :: datetime

text \<open>\<^verbatim>\<open>PaperReferencePrice.__post_init__\<close>\<close>

definition reference_ok :: "paper_reference_price \<Rightarrow> bool" where
  "reference_ok r \<longleftrightarrow>
     0 < rp_last r \<and>
     (case rp_bid r of None \<Rightarrow> True | Some b \<Rightarrow> 0 < b) \<and>
     (case rp_ask r of None \<Rightarrow> True | Some a \<Rightarrow> 0 < a) \<and>
     (case (rp_bid r, rp_ask r) of (Some b, Some a) \<Rightarrow> b \<le> a \<and> b \<le> rp_last r \<and> rp_last r \<le> a | _ \<Rightarrow> True) \<and>
     tz_aware (rp_reference_at r)"

record fill_decision =
  fd_fills :: bool
  fd_fill_price :: "decimal option"
  fd_fill_quantity :: decimal
  fd_reason :: "string option"

text \<open>\<^verbatim>\<open>FillDecision.__post_init__\<close>\<close>

definition mk_fill_decision :: "fill_decision \<Rightarrow> (paper_error, fill_decision) result" where
  "mk_fill_decision d =
     (if fd_fills d
      then if (case fd_fill_price d of None \<Rightarrow> True | Some p \<Rightarrow> p \<le> 0)
           then Inl (PaperValueError ''fill decisions require a positive fill_price'')
           else if fd_fill_quantity d \<le> 0
           then Inl (PaperValueError ''fill decisions require a positive fill_quantity'')
           else Inr d
      else if fd_fill_price d \<noteq> None
           then Inl (PaperValueError ''rejection decisions must carry fill_price=None'')
           else if \<not> deq (fd_fill_quantity d) 0
           then Inl (PaperValueError ''rejection decisions must carry zero fill_quantity'')
           else Inr d)"

record paper_fill_record =
  pfr_sequence :: int
  pfr_client_order_id :: string
  pfr_broker_order_id :: string
  pfr_order_id :: uuid
  pfr_side :: order_side
  pfr_instrument_id :: uuid
  pfr_broker_account_id :: uuid
  pfr_fill_quantity :: decimal
  pfr_fill_price :: decimal
  pfr_occurred_at :: datetime

text \<open>\<^verbatim>\<open>PaperFillRecord.__post_init__\<close>\<close>

definition mk_fill_record :: "paper_fill_record \<Rightarrow> (paper_error, paper_fill_record) result" where
  "mk_fill_record f =
     (if pfr_sequence f < 0 then Inl (PaperValueError ''sequence cannot be negative'')
      else if pfr_fill_quantity f \<le> 0 then Inl (PaperValueError ''fill_quantity must be positive'')
      else if pfr_fill_price f \<le> 0 then Inl (PaperValueError ''fill_price must be positive'')
      else if \<not> tz_aware (pfr_occurred_at f) then Inl (PaperValueError ''occurred_at must be timezone-aware'')
      else Inr f)"

record paper_position =
  pq_broker_account_id :: uuid
  pq_instrument_id :: uuid
  pq_trading_mode :: trading_mode
  pq_quantity :: decimal
  pq_average_price :: "decimal option"
  pq_captured_at :: datetime

text \<open>\<^verbatim>\<open>PaperPosition.__post_init__\<close>\<close>

definition mk_paper_position :: "paper_position \<Rightarrow> (paper_error, paper_position) result" where
  "mk_paper_position p =
     (if pq_trading_mode p \<noteq> PAPER then Inl (PaperValueError ''paper positions must use TradingMode.PAPER'')
      else if (case pq_average_price p of None \<Rightarrow> False | Some a \<Rightarrow> a \<le> 0)
      then Inl (PaperValueError ''average_price must be positive when present'')
      else if \<not> tz_aware (pq_captured_at p) then Inl (PaperValueError ''captured_at must be timezone-aware'')
      else Inr p)"

section \<open>The fill policy\<close>

definition full_quantity_decision :: "broker_order_request \<Rightarrow> decimal \<Rightarrow> (paper_error, fill_decision) result" where
  "full_quantity_decision r price =
     mk_fill_decision \<lparr>fd_fills = True, fd_fill_price = Some price, fd_fill_quantity = dec_of_int (bq_quantity r),
       fd_reason = None\<rparr>"

definition no_fill :: "string \<Rightarrow> (paper_error, fill_decision) result" where
  "no_fill why = mk_fill_decision \<lparr>fd_fills = False, fd_fill_price = None, fd_fill_quantity = 0, fd_reason = Some why\<rparr>"

definition decide_buy ::
  "broker_order_request \<Rightarrow> paper_reference_price \<Rightarrow> (paper_error, fill_decision) result" where
  "decide_buy r ref =
     (if bq_order_type r = MARKET then full_quantity_decision r (rp_last ref)
      else case rp_ask ref of
        None \<Rightarrow> no_fill ''no executable quote: injected reference has no ask''
      | Some ask \<Rightarrow>
          if (case bq_limit_price r of None \<Rightarrow> True | Some l \<Rightarrow> l < ask)
          then no_fill ''limit price not executable against injected ask''
          else full_quantity_decision r ask)"

definition decide_sell ::
  "broker_order_request \<Rightarrow> paper_reference_price \<Rightarrow> (paper_error, fill_decision) result" where
  "decide_sell r ref =
     (if bq_order_type r = MARKET then full_quantity_decision r (rp_last ref)
      else case rp_bid ref of
        None \<Rightarrow> no_fill ''no executable quote: injected reference has no bid''
      | Some bid \<Rightarrow>
          if (case bq_limit_price r of None \<Rightarrow> True | Some l \<Rightarrow> bid < l)
          then no_fill ''limit price not executable against injected bid''
          else full_quantity_decision r bid)"

definition decide_fill ::
  "broker_order_request \<Rightarrow> paper_reference_price \<Rightarrow> (paper_error, fill_decision) result" where
  "decide_fill r ref =
     (if bq_order_type r \<in> {STOP, STOP_LIMIT}
      then Inl (UnsupportedOrderTypeError (''unsupported order type in paper mode: '' @ order_type_value (bq_order_type r)))
      else case bq_side r of BUY \<Rightarrow> decide_buy r ref | SELL \<Rightarrow> decide_sell r ref)"

section \<open>The order book\<close>

type_synonym uuid5_fun = "uuid \<Rightarrow> string \<Rightarrow> uuid"

definition order_id_namespace :: uuid where
  "order_id_namespace = 190485133320331927421472298807458744923"

definition paper_order_id :: "uuid5_fun \<Rightarrow> uuid \<Rightarrow> string \<Rightarrow> uuid" where
  "paper_order_id uuid5 account client = uuid5 order_id_namespace (uuid_str account @ '':'' @ client)"

record submission_record =
  sr_request :: broker_order_request
  sr_response :: broker_order_response
  sr_events :: "broker_order_event list"

record paper_book =
  pb_submissions :: "uuid \<times> string \<Rightarrow> submission_record option"
  pb_events :: "broker_order_event list"
  pb_fills :: "paper_fill_record list"
  pb_pending_index :: nat
  pb_sequence :: int

definition empty_book :: paper_book where
  "empty_book = \<lparr>pb_submissions = Map.empty, pb_events = [], pb_fills = [], pb_pending_index = 0, pb_sequence = 0\<rparr>"

text \<open>\<^verbatim>\<open>UUID(str(raw))\<close>; the text of a \<^verbatim>\<open>datetime\<close> has colons and never reads as a UUID.\<close>

fun metadata_uuid :: "pyval \<Rightarrow> uuid option" where
  "metadata_uuid (PStr s) = uuid_parse s"
| "metadata_uuid (PUuid u) = uuid_parse (uuid_str u)"
| "metadata_uuid (PInt n) = uuid_parse (int_str n)"
| "metadata_uuid (PDec d) = uuid_parse (decimal_str d)"
| "metadata_uuid (PTime t) = None"
| "metadata_uuid PNone = None"

definition resolve_order_id :: "uuid5_fun \<Rightarrow> broker_order_request \<Rightarrow> (paper_error, uuid) result" where
  "resolve_order_id uuid5 r =
     (let expected = paper_order_id uuid5 (bq_broker_account_id r) (bq_client_order_id r) in
      case bq_metadata r ''order_id'' of
        None \<Rightarrow> Inl (PaperAdapterError ''metadata order_id is required'')
      | Some PNone \<Rightarrow> Inl (PaperAdapterError ''metadata order_id is required'')
      | Some raw \<Rightarrow>
          case metadata_uuid raw of
            None \<Rightarrow> Inl (PaperAdapterError ''metadata order_id must be a valid UUID string'')
          | Some provided \<Rightarrow>
              if provided \<noteq> expected
              then Inl (PaperAdapterError ''metadata order_id does not match deterministic paper order id'')
              else Inr expected)"

fun opt_deq :: "decimal option \<Rightarrow> decimal option \<Rightarrow> bool" where
  "opt_deq None None = True"
| "opt_deq (Some a) (Some b) = deq a b"
| "opt_deq _ _ = False"

text \<open>The payload fields in the order \<^verbatim>\<open>_PAYLOAD_FIELDS\<close> compares them.\<close>

definition payload_differences :: "broker_order_request \<Rightarrow> broker_order_request \<Rightarrow> string list" where
  "payload_differences prior r = map fst (filter (\<lambda>(f, same). \<not> same)
     [(''broker_account_id'', bq_broker_account_id prior = bq_broker_account_id r),
      (''instrument_id'', bq_instrument_id prior = bq_instrument_id r),
      (''trading_mode'', bq_trading_mode prior = bq_trading_mode r),
      (''side'', bq_side prior = bq_side r),
      (''order_type'', bq_order_type prior = bq_order_type r),
      (''quantity'', bq_quantity prior = bq_quantity r),
      (''risk_approval_id'', bq_risk_approval_id prior = bq_risk_approval_id r),
      (''limit_price'', opt_deq (bq_limit_price prior) (bq_limit_price r)),
      (''stop_price'', opt_deq (bq_stop_price prior) (bq_stop_price r))])"

definition assert_identical_payload ::
  "broker_order_request \<Rightarrow> broker_order_request \<Rightarrow> (paper_error, unit) result" where
  "assert_identical_payload prior r =
     (case payload_differences prior r of
        [] \<Rightarrow> Inr ()
      | f # _ \<Rightarrow> Inl (ClientOrderIdConflictError (bq_client_order_id r) f))"

definition event_metadata :: "broker_order_request \<Rightarrow> metadata" where
  "event_metadata r = [''trading_mode'' \<mapsto> PStr ''PAPER'', ''client_order_id'' \<mapsto> PStr (bq_client_order_id r),
     ''fill_source'' \<mapsto> PStr ''paper_simulator'']"

definition new_event :: "broker_order_event \<Rightarrow> (paper_error, broker_order_event) result" where
  "new_event ev = (case mk_broker_order_event ev of Inl e \<Rightarrow> Inl (PaperEventError e) | Inr ev' \<Rightarrow> Inr ev')"

definition book_key :: "broker_order_request \<Rightarrow> uuid \<times> string" where
  "book_key r = (bq_broker_account_id r, bq_client_order_id r)"

text \<open>\<^verbatim>\<open>PaperOrderBook._record\<close>\<close>

definition book_record ::
  "paper_book \<Rightarrow> broker_order_request \<Rightarrow> broker_order_response \<Rightarrow> broker_order_event list \<Rightarrow> paper_book" where
  "book_record b r resp evs =
     b\<lparr>pb_submissions := (pb_submissions b)(book_key r \<mapsto> \<lparr>sr_request = r, sr_response = resp, sr_events = evs\<rparr>),
       pb_events := pb_events b @ evs\<rparr>"

definition reject_event :: "broker_order_request \<Rightarrow> uuid \<Rightarrow> datetime \<Rightarrow> string \<Rightarrow> broker_order_event" where
  "reject_event r oid now why = \<lparr>be_order_id = oid, be_event_type = EV_REJECTED, be_occurred_at = now, be_reason = why,
     be_broker_order_id = None, be_fill_quantity = 0, be_metadata = event_metadata r\<rparr>"

definition reject_response :: "broker_order_request \<Rightarrow> datetime \<Rightarrow> string \<Rightarrow> broker_order_response" where
  "reject_response r now why = \<lparr>br_status = BROKER_REJECTED, br_client_order_id = bq_client_order_id r,
     br_broker_order_id = None, br_accepted_at = now, br_reason = Some why,
     br_raw_payload = [''source'' \<mapsto> PStr ''paper_simulator'']\<rparr>"

definition book_reject ::
  "paper_book \<Rightarrow> broker_order_request \<Rightarrow> uuid \<Rightarrow> datetime \<Rightarrow> string
   \<Rightarrow> (paper_error, broker_order_response) result \<times> paper_book" where
  "book_reject b r oid now why =
     (case new_event (reject_event r oid now why) of
        Inl e \<Rightarrow> (Inl e, b)
      | Inr ev \<Rightarrow> (Inr (reject_response r now why), book_record b r (reject_response r now why) [ev]))"

definition paper_broker_order_id :: "uuid \<Rightarrow> string" where
  "paper_broker_order_id oid = ''paper-'' @ hex_fixed 32 oid"

definition ack_event :: "broker_order_request \<Rightarrow> uuid \<Rightarrow> datetime \<Rightarrow> broker_order_event" where
  "ack_event r oid now = \<lparr>be_order_id = oid, be_event_type = EV_BROKER_ACKNOWLEDGED, be_occurred_at = now,
     be_reason = ''paper broker accepted order'', be_broker_order_id = Some (paper_broker_order_id oid),
     be_fill_quantity = 0, be_metadata = event_metadata r\<rparr>"

definition paper_fill_event :: "broker_order_request \<Rightarrow> uuid \<Rightarrow> datetime \<Rightarrow> decimal \<Rightarrow> broker_order_event" where
  "paper_fill_event r oid now price = \<lparr>be_order_id = oid, be_event_type = EV_FILL, be_occurred_at = now,
     be_reason = ''paper simulator-confirmed fill'', be_broker_order_id = Some (paper_broker_order_id oid),
     be_fill_quantity = dec_of_int (bq_quantity r),
     be_metadata = (event_metadata r)(''paper_fill_price'' \<mapsto> PStr (decimal_str price))\<rparr>"

definition paper_fill :: "int \<Rightarrow> broker_order_request \<Rightarrow> uuid \<Rightarrow> datetime \<Rightarrow> decimal \<Rightarrow> paper_fill_record" where
  "paper_fill sequence r oid now price = \<lparr>pfr_sequence = sequence, pfr_client_order_id = bq_client_order_id r,
     pfr_broker_order_id = paper_broker_order_id oid, pfr_order_id = oid, pfr_side = bq_side r,
     pfr_instrument_id = bq_instrument_id r, pfr_broker_account_id = bq_broker_account_id r,
     pfr_fill_quantity = dec_of_int (bq_quantity r), pfr_fill_price = price, pfr_occurred_at = now\<rparr>"

definition accept_response :: "broker_order_request \<Rightarrow> uuid \<Rightarrow> datetime \<Rightarrow> broker_order_response" where
  "accept_response r oid now = \<lparr>br_status = ACCEPTED, br_client_order_id = bq_client_order_id r,
     br_broker_order_id = Some (paper_broker_order_id oid), br_accepted_at = now, br_reason = None,
     br_raw_payload = [''source'' \<mapsto> PStr ''paper_simulator'']\<rparr>"

definition accept_and_fill ::
  "paper_book \<Rightarrow> broker_order_request \<Rightarrow> uuid \<Rightarrow> datetime \<Rightarrow> decimal
   \<Rightarrow> (paper_error, broker_order_response) result \<times> paper_book" where
  "accept_and_fill b r oid now price =
     (case rbind (new_event (ack_event r oid now)) (\<lambda>ack.
             rbind (new_event (paper_fill_event r oid now price)) (\<lambda>fill.
             rbind (mk_fill_record (paper_fill (pb_sequence b) r oid now price)) (\<lambda>record.
             Inr (ack, fill, record)))) of
        Inl e \<Rightarrow> (Inl e, b)
      | Inr (ack, fill, record) \<Rightarrow>
          let b' = b\<lparr>pb_sequence := pb_sequence b + 1, pb_fills := pb_fills b @ [record]\<rparr>
          in (Inr (accept_response r oid now), book_record b' r (accept_response r oid now) [ack, fill]))"

text \<open>The part of \<^verbatim>\<open>submit\<close> after the idempotency lookup missed.\<close>

definition submit_new ::
  "datetime option \<Rightarrow> paper_book \<Rightarrow> broker_order_request \<Rightarrow> uuid \<Rightarrow> paper_reference_price option
   \<Rightarrow> (paper_error, broker_order_response) result \<times> paper_book" where
  "submit_new clock b r oid reference =
     (case now_from clock of
        Inl e \<Rightarrow> (Inl e, b)
      | Inr now \<Rightarrow>
          case reference of
            None \<Rightarrow> book_reject b r oid now ''no reference price available for instrument''
          | Some ref \<Rightarrow>
              if rp_instrument_id ref \<noteq> bq_instrument_id r
              then (Inl (PaperAdapterError ''injected reference price does not match request instrument''), b)
              else case decide_fill r ref of
                Inl (UnsupportedOrderTypeError why) \<Rightarrow> book_reject b r oid now why
              | Inl e \<Rightarrow> (Inl e, b)
              | Inr d \<Rightarrow>
                  if \<not> fd_fills d
                  then book_reject b r oid now (the (str_or (fd_reason d) (Some ''order not executable'')))
                  else case fd_fill_price d of
                    None \<Rightarrow> (Inl (PaperValueError ''fill_price''), b)
                  | Some p \<Rightarrow> accept_and_fill b r oid now p)"

definition book_submit ::
  "uuid5_fun \<Rightarrow> datetime option \<Rightarrow> paper_book \<Rightarrow> broker_order_request \<Rightarrow> paper_reference_price option
   \<Rightarrow> (paper_error, broker_order_response) result \<times> paper_book" where
  "book_submit uuid5 clock b r reference =
     (if bq_trading_mode r \<noteq> PAPER then (Inl (PaperModeViolationError (bq_trading_mode r)), b)
      else if blank (bq_client_order_id r) then (Inl (PaperAdapterError ''client_order_id is required''), b)
      else if bq_quantity r \<le> 0 then (Inl (PaperAdapterError ''quantity must be positive''), b)
      else case resolve_order_id uuid5 r of
        Inl e \<Rightarrow> (Inl e, b)
      | Inr oid \<Rightarrow>
          case pb_submissions b (book_key r) of
            Some recorded \<Rightarrow>
              (rbind (assert_identical_payload (sr_request recorded) r) (\<lambda>_. Inr (sr_response recorded)), b)
          | None \<Rightarrow> submit_new clock b r oid reference)"

definition pending_events :: "paper_book \<Rightarrow> broker_order_event list \<times> paper_book" where
  "pending_events b = (drop (pb_pending_index b) (pb_events b), b\<lparr>pb_pending_index := length (pb_events b)\<rparr>)"

definition book_events_for :: "paper_book \<Rightarrow> uuid \<Rightarrow> string \<Rightarrow> broker_order_event list" where
  "book_events_for b account client =
     (case pb_submissions b (account, client) of None \<Rightarrow> [] | Some rec \<Rightarrow> sr_events rec)"

section \<open>Positions from the fill trail\<close>

definition fills_of :: "paper_book \<Rightarrow> uuid \<Rightarrow> uuid \<Rightarrow> paper_fill_record list" where
  "fills_of b account ins =
     filter (\<lambda>f. pfr_broker_account_id f = account \<and> pfr_instrument_id f = ins) (pb_fills b)"

definition signed_fill :: "paper_fill_record \<Rightarrow> decimal" where
  "signed_fill f = (case pfr_side f of BUY \<Rightarrow> pfr_fill_quantity f | SELL \<Rightarrow> - pfr_fill_quantity f)"

definition mean_fill_price :: "paper_fill_record list \<Rightarrow> (paper_error, decimal option) result" where
  "mean_fill_price fs =
     (let total_quantity = dsum (map pfr_fill_quantity fs);
          total_cost = dsum (map (\<lambda>f. pfr_fill_price f * pfr_fill_quantity f) fs)
      in if 0 < total_quantity
         then of_opt PaperInvalidOperation (map_option Some (Option.bind (ddiv total_cost total_quantity) (quantize (-8))))
         else Inr None)"

text \<open>One step of the loop over the instruments: \<open>Inr None\<close> when the position is flat and skipped.\<close>

definition instrument_position ::
  "uuid \<Rightarrow> datetime \<Rightarrow> uuid \<Rightarrow> paper_fill_record list \<Rightarrow> (paper_error, paper_position option) result" where
  "instrument_position account captured_at ins fs =
     (let signed_quantity = dsum (map signed_fill fs) in
      if deq signed_quantity 0 then Inr None
      else rbind (mean_fill_price fs) (\<lambda>average.
        rbind (mk_paper_position \<lparr>pq_broker_account_id = account, pq_instrument_id = ins, pq_trading_mode = PAPER,
            pq_quantity = signed_quantity, pq_average_price = average, pq_captured_at = captured_at\<rparr>) (\<lambda>p.
        Inr (Some p))))"

fun positions_loop ::
  "uuid \<Rightarrow> datetime \<Rightarrow> paper_book \<Rightarrow> uuid list \<Rightarrow> (paper_error, paper_position list) result" where
  "positions_loop account captured_at b [] = Inr []"
| "positions_loop account captured_at b (ins # rest) =
     rbind (instrument_position account captured_at ins (fills_of b account ins)) (\<lambda>p.
       rbind (positions_loop account captured_at b rest) (\<lambda>ps.
         Inr (case p of None \<Rightarrow> ps | Some q \<Rightarrow> q # ps)))"

definition traded_instruments :: "paper_book \<Rightarrow> uuid \<Rightarrow> uuid list" where
  "traded_instruments b account =
     sort (remdups (map pfr_instrument_id (filter (\<lambda>f. pfr_broker_account_id f = account) (pb_fills b))))"

definition book_positions :: "datetime option \<Rightarrow> paper_book \<Rightarrow> uuid \<Rightarrow> (paper_error, paper_position list) result" where
  "book_positions clock b account =
     rbind (now_from clock) (\<lambda>captured_at. positions_loop account captured_at b (traded_instruments b account))"

section \<open>The adapter session\<close>

record paper_adapter =
  pa_book :: paper_book
  pa_reference_prices :: "uuid \<Rightarrow> paper_reference_price option"
  pa_connected :: bool
  pa_account_identifier :: "string option"
  pa_account_by_client :: "string \<Rightarrow> uuid option"

definition new_adapter :: "(uuid \<Rightarrow> paper_reference_price option) \<Rightarrow> paper_adapter" where
  "new_adapter refs = \<lparr>pa_book = empty_book, pa_reference_prices = refs, pa_connected = False,
     pa_account_identifier = None, pa_account_by_client = Map.empty\<rparr>"

definition paper_capabilities :: broker_capabilities where
  "paper_capabilities = \<lparr>bc_broker_name = ''paper'', bc_supports_market_data = False,
     bc_supports_order_submission = True, bc_supports_order_cancel = False, bc_supports_positions = True,
     bc_supports_live_trading = False\<rparr>"

text \<open>The connected flag is set before the clock is read, and stays set when the reading is refused.\<close>

definition adapter_connect ::
  "datetime option \<Rightarrow> paper_adapter \<Rightarrow> broker_credentials_ref
   \<Rightarrow> (paper_error, broker_session_state) result \<times> paper_adapter" where
  "adapter_connect clock a c =
     (if cr_broker_name c \<noteq> ''paper''
      then (Inl (PaperAdapterError ''paper broker accepts only broker_name=paper''), a)
      else if blank (cr_account_identifier c)
      then (Inl (PaperAdapterError ''account_identifier is required''), a)
      else (rbind (now_from clock) (\<lambda>now.
              Inr \<lparr>bss_broker_name = ''paper'', bss_account_identifier = cr_account_identifier c, bss_connected = True,
                   bss_authenticated = False, bss_checked_at = now, bss_expires_at = None\<rparr>),
            a\<lparr>pa_connected := True, pa_account_identifier := Some (cr_account_identifier c)\<rparr>))"

definition adapter_disconnect :: "paper_adapter \<Rightarrow> paper_adapter" where
  "adapter_disconnect a = a\<lparr>pa_connected := False\<rparr>"

definition adapter_set_reference_price :: "paper_adapter \<Rightarrow> uuid \<Rightarrow> paper_reference_price \<Rightarrow> paper_adapter" where
  "adapter_set_reference_price a ins ref = a\<lparr>pa_reference_prices := (pa_reference_prices a)(ins \<mapsto> ref)\<rparr>"

definition adapter_get_quote :: "paper_adapter \<Rightarrow> uuid \<Rightarrow> (paper_error, 'q) result" where
  "adapter_get_quote a ins = Inl (PaperMarketDataUnavailableError ''market data is not supported by the paper broker'')"

definition adapter_submit_order ::
  "uuid5_fun \<Rightarrow> datetime option \<Rightarrow> paper_adapter \<Rightarrow> broker_order_request
   \<Rightarrow> (paper_error, broker_order_response) result \<times> paper_adapter" where
  "adapter_submit_order uuid5 clock a r =
     (if \<not> pa_connected a then (Inl (PaperAdapterError ''paper broker is not connected''), a)
      else case book_submit uuid5 clock (pa_book a) r (pa_reference_prices a (bq_instrument_id r)) of
        (Inl e, b) \<Rightarrow> (Inl e, a\<lparr>pa_book := b\<rparr>)
      | (Inr resp, b) \<Rightarrow>
          (Inr resp, a\<lparr>pa_book := b,
             pa_account_by_client := (pa_account_by_client a)(bq_client_order_id r \<mapsto> bq_broker_account_id r)\<rparr>))"

definition adapter_cancel_order :: "paper_adapter \<Rightarrow> string \<Rightarrow> (paper_error, broker_order_response) result" where
  "adapter_cancel_order a bid =
     Inl (PaperAdapterError ''paper v1 simulator has no working orders; cancellation unsupported'')"

definition broker_snapshot_of :: "paper_position \<Rightarrow> broker_position_snapshot" where
  "broker_snapshot_of p = \<lparr>bps_broker_account_id = pq_broker_account_id p, bps_instrument_id = pq_instrument_id p,
     bps_trading_mode = PAPER, bps_quantity = pq_quantity p, bps_average_price = pq_average_price p,
     bps_captured_at = pq_captured_at p,
     bps_raw_payload = [''fill_source'' \<mapsto> PStr ''paper_simulator'', ''average_price_convention'' \<mapsto> PStr ''mean_fill_price'']\<rparr>"

text \<open>Every account's positions read the clock once; \<open>clock i\<close> is the \<open>i\<close>-th reading.\<close>

fun accounts_loop ::
  "(nat \<Rightarrow> datetime option) \<Rightarrow> paper_book \<Rightarrow> nat \<Rightarrow> uuid list \<Rightarrow> (paper_error, broker_position_snapshot list) result" where
  "accounts_loop clock b i [] = Inr []"
| "accounts_loop clock b i (account # rest) =
     rbind (book_positions (clock i) b account) (\<lambda>ps.
       rbind (accounts_loop clock b (Suc i) rest) (\<lambda>qs. Inr (map broker_snapshot_of ps @ qs)))"

definition adapter_get_positions ::
  "(nat \<Rightarrow> datetime option) \<Rightarrow> paper_adapter \<Rightarrow> (paper_error, broker_position_snapshot list) result" where
  "adapter_get_positions clock a =
     (if \<not> pa_connected a then Inl (PaperAdapterError ''paper broker is not connected'')
      else accounts_loop clock (pa_book a) 0
             (sort_key uuid_str (remdups (map pfr_broker_account_id (pb_fills (pa_book a))))))"

definition adapter_pending_events :: "paper_adapter \<Rightarrow> broker_order_event list \<times> paper_adapter" where
  "adapter_pending_events a = (let (evs, b) = pending_events (pa_book a) in (evs, a\<lparr>pa_book := b\<rparr>))"

definition adapter_events_for :: "paper_adapter \<Rightarrow> string \<Rightarrow> broker_order_event list" where
  "adapter_events_for a client =
     (case pa_account_by_client a client of
        None \<Rightarrow> [] | Some account \<Rightarrow> book_events_for (pa_book a) account client)"

section \<open>The fill policy and the outcomes of a submission\<close>

lemma mk_fill_decision_Inr: "mk_fill_decision d = Inr d' \<longleftrightarrow> d' = d \<and>
    (if fd_fills d then (\<exists>p. fd_fill_price d = Some p \<and> 0 < dval p) \<and> 0 < dval (fd_fill_quantity d)
     else fd_fill_price d = None \<and> dval (fd_fill_quantity d) = 0)"
  by (auto simp: mk_fill_decision_def decimal_order not_le split: option.splits)

lemma full_quantity_decision_Inr:
  "full_quantity_decision r p = Inr d \<longleftrightarrow> 0 < dval p \<and> 0 < bq_quantity r \<and>
     d = \<lparr>fd_fills = True, fd_fill_price = Some p, fd_fill_quantity = dec_of_int (bq_quantity r), fd_reason = None\<rparr>"
  by (auto simp: full_quantity_decision_def mk_fill_decision_Inr)

lemma no_fill_eq: "no_fill why = Inr \<lparr>fd_fills = False, fd_fill_price = None, fd_fill_quantity = 0, fd_reason = Some why\<rparr>"
  by (simp add: no_fill_def mk_fill_decision_def decimal_order)

lemma nonblank_Cons: "\<not> is_space c \<Longrightarrow> \<not> blank (c # cs)"
  by (simp add: blank_Cons)

lemma decide_fill_decision:
  assumes "decide_fill r ref = Inr d"
  shows "if fd_fills d then \<exists>p. fd_fill_price d = Some p \<and> 0 < dval p \<and> fd_fill_quantity d = dec_of_int (bq_quantity r)
    else \<exists>why. fd_reason d = Some why \<and> \<not> blank why"
  using assms
  by (auto simp: decide_fill_def decide_buy_def decide_sell_def full_quantity_decision_Inr no_fill_eq blank_Cons is_space_def
      split: if_splits order_side.splits option.splits)

lemma decide_fill_unsupported:
  "decide_fill r ref = Inl (UnsupportedOrderTypeError why) \<Longrightarrow> \<not> blank why"
  by (auto simp: decide_fill_def decide_buy_def decide_sell_def full_quantity_decision_def mk_fill_decision_def no_fill_eq
      nonblank_Cons is_space_def split: if_splits order_side.splits option.splits)

lemma new_event_ok:
  "tz_aware now \<Longrightarrow> \<not> blank why \<Longrightarrow> new_event (reject_event r oid now why) = Inr (reject_event r oid now why)"
  "tz_aware now \<Longrightarrow> new_event (ack_event r oid now) = Inr (ack_event r oid now)"
  "tz_aware now \<Longrightarrow> 0 < bq_quantity r \<Longrightarrow> new_event (paper_fill_event r oid now p) = Inr (paper_fill_event r oid now p)"
  by (simp_all add: new_event_def mk_broker_order_event_def reject_event_def ack_event_def paper_fill_event_def
      fill_event_def decimal_order blank_Cons is_space_def)

lemma book_reject_eq:
  "tz_aware now \<Longrightarrow> \<not> blank why \<Longrightarrow> book_reject b r oid now why =
     (Inr (reject_response r now why), book_record b r (reject_response r now why) [reject_event r oid now why])"
  by (simp add: book_reject_def new_event_ok)

definition filled_book :: "paper_book \<Rightarrow> broker_order_request \<Rightarrow> uuid \<Rightarrow> datetime \<Rightarrow> decimal \<Rightarrow> paper_book" where
  "filled_book b r oid now p = book_record
     (b\<lparr>pb_sequence := pb_sequence b + 1, pb_fills := pb_fills b @ [paper_fill (pb_sequence b) r oid now p]\<rparr>)
     r (accept_response r oid now) [ack_event r oid now, paper_fill_event r oid now p]"

lemma accept_and_fill_cases:
  assumes "tz_aware now" "0 < bq_quantity r" "0 < dval p"
  shows "accept_and_fill b r oid now p =
    (if pb_sequence b < 0 then (Inl (PaperValueError ''sequence cannot be negative''), b)
     else (Inr (accept_response r oid now), filled_book b r oid now p))"
  using assms
  by (auto simp: accept_and_fill_def new_event_ok mk_fill_record_def paper_fill_def filled_book_def decimal_order Let_def)

lemma now_from_Inr: "now_from clock = Inr now \<longleftrightarrow> clock = Some now \<and> tz_aware now"
  by (auto simp: now_from_def split: option.splits)

text \<open>The checks every submission passes before the book looks it up.\<close>

definition admissible :: "uuid5_fun \<Rightarrow> broker_order_request \<Rightarrow> uuid \<Rightarrow> bool" where
  "admissible uuid5 r oid \<longleftrightarrow> bq_trading_mode r = PAPER \<and> \<not> blank (bq_client_order_id r) \<and> 0 < bq_quantity r \<and>
     resolve_order_id uuid5 r = Inr oid"

lemma decided_cases:
  assumes run: "(if \<not> fd_fills d
      then book_reject b r oid now (the (str_or (fd_reason d) (Some ''order not executable'')))
      else case fd_fill_price d of None \<Rightarrow> (Inl (PaperValueError ''fill_price''), b)
        | Some p \<Rightarrow> accept_and_fill b r oid now p) = (res, b')"
    and d: "decide_fill r ref = Inr d" and now: "tz_aware now" and q: "0 < bq_quantity r"
  obtains (error) e where "res = Inl e" "b' = b"
  | (reject) why where "book_reject b r oid now why = (res, b')" "\<not> blank why"
  | (fill) p where "fd_fill_price d = Some p" "0 < dval p" "res = Inr (accept_response r oid now)"
      "b' = filled_book b r oid now p"
proof (cases "fd_fills d")
  case False
  with decide_fill_decision [OF d] obtain why where why: "fd_reason d = Some why" "\<not> blank why" by auto
  then have "why \<noteq> []" by auto
  then show thesis using run False why by (intro reject [of why]) (simp_all add: str_or_def)
next
  case True
  with decide_fill_decision [OF d] obtain p where p: "fd_fill_price d = Some p" "0 < dval p" by auto
  then have "accept_and_fill b r oid now p = (res, b')" using run True by simp
  then show thesis using fill [OF p] error accept_and_fill_cases [OF now q p(2), of b oid]
    by (auto split: if_splits)
qed

lemma submit_new_cases:
  assumes run: "submit_new clock b r oid reference = (res, b')" and q: "0 < bq_quantity r"
  obtains (error) e where "res = Inl e" "b' = b"
  | (reject) now why where "clock = Some now" "tz_aware now" "\<not> blank why" "res = Inr (reject_response r now why)"
      "b' = book_record b r (reject_response r now why) [reject_event r oid now why]"
  | (fill) now ref d p where "clock = Some now" "tz_aware now" "reference = Some ref" "decide_fill r ref = Inr d"
      "fd_fill_price d = Some p" "0 < dval p" "res = Inr (accept_response r oid now)" "b' = filled_book b r oid now p"
proof (cases "now_from clock")
  case (Inl e)
  then show thesis using run error by (auto simp: submit_new_def)
next
  case (Inr now)
  then have now: "clock = Some now" "tz_aware now" by (simp_all add: now_from_Inr)
  note run' = run [unfolded submit_new_def Inr sum.case]
  have rej: thesis if w: "book_reject b r oid now why = (res, b')" "\<not> blank why" for why
    using reject [OF now w(2)] w now(2) by (auto simp: book_reject_eq)
  show thesis
  proof (cases reference)
    case None
    then show thesis using run' by (intro rej) (auto simp: blank_Cons is_space_def)
  next
    case (Some ref)
    note run'' = run' [unfolded Some option.case]
    show thesis
    proof (cases "decide_fill r ref")
      case (Inl e)
      then show thesis using run'' error rej decide_fill_unsupported [of r ref] by (cases e) (auto split: if_splits)
    next
      case (Inr d)
      show thesis
      proof (cases "rp_instrument_id ref = bq_instrument_id r")
        case True
        then show thesis using run'' decided_cases [OF _ Inr now(2) q, of b oid res b'] rej error
          fill [OF now Some Inr] by (simp add: Inr) blast
      qed (use run'' error in auto)
    qed
  qed
qed

lemma book_submit_cases:
  assumes "book_submit uuid5 clock b r reference = (res, b')"
  obtains
    (error) e where "res = Inl e" "b' = b"
  | (replay) oid rec where "admissible uuid5 r oid" "pb_submissions b (book_key r) = Some rec"
      "payload_differences (sr_request rec) r = []" "res = Inr (sr_response rec)" "b' = b"
  | (reject) oid now why where "admissible uuid5 r oid" "pb_submissions b (book_key r) = None" "clock = Some now" "tz_aware now"
      "\<not> blank why" "res = Inr (reject_response r now why)"
      "b' = book_record b r (reject_response r now why) [reject_event r oid now why]"
  | (fill) oid now ref d p where "admissible uuid5 r oid" "pb_submissions b (book_key r) = None" "clock = Some now"
      "tz_aware now" "reference = Some ref" "decide_fill r ref = Inr d" "fd_fill_price d = Some p" "0 < dval p"
      "res = Inr (accept_response r oid now)" "b' = filled_book b r oid now p"
proof (cases "\<exists>oid. admissible uuid5 r oid")
  case False
  then show thesis using assms error
    by (auto simp: book_submit_def admissible_def split: if_splits sum.splits)
next
  case True
  then obtain oid where oid: "admissible uuid5 r oid" by blast
  then have q: "0 < bq_quantity r" by (simp add: admissible_def)
  show thesis
  proof (cases "pb_submissions b (book_key r)")
    case (Some rec)
    then show thesis using assms oid error replay [OF oid Some]
      by (cases "payload_differences (sr_request rec) r")
         (auto simp: book_submit_def admissible_def assert_identical_payload_def)
  next
    case None
    then have "submit_new clock b r oid reference = (res, b')" using assms oid
      by (simp add: book_submit_def admissible_def)
    then show thesis
      by (cases rule: submit_new_cases [OF _ q]) (use error reject [OF oid None] fill [OF oid None] in blast)+
  qed
qed

text \<open>The quote leg a limit order executes against, and when it crosses.\<close>

definition quote_leg :: "order_side \<Rightarrow> paper_reference_price \<Rightarrow> decimal option" where
  "quote_leg side ref = (case side of BUY \<Rightarrow> rp_ask ref | SELL \<Rightarrow> rp_bid ref)"

definition no_worse :: "order_side \<Rightarrow> decimal \<Rightarrow> decimal \<Rightarrow> bool" where
  "no_worse side price limit = (case side of BUY \<Rightarrow> price \<le> limit | SELL \<Rightarrow> limit \<le> price)"

text \<open>The fill policy protects the order: against a valid reference price a market or
  limit order always gets a decision; it fills exactly when it is a market order or a limit order
  whose limit is no worse than the quote leg it needs; a fill is for the full quantity at a
  positive price, inside the bid/ask spread when both legs are present, and for a limit order
  never worse than its limit.\<close>

theorem paper_limit_protection:
  assumes "reference_ok ref" "0 < bq_quantity r" "bq_order_type r \<in> {MARKET, LIMIT}"
  shows "\<exists>d. decide_fill r ref = Inr d \<and>
    (fd_fills d \<longleftrightarrow> bq_order_type r = MARKET \<or>
      (\<exists>q l. quote_leg (bq_side r) ref = Some q \<and> bq_limit_price r = Some l \<and> no_worse (bq_side r) q l)) \<and>
    (fd_fills d \<longrightarrow> fd_fill_quantity d = dec_of_int (bq_quantity r) \<and>
      (\<exists>p. fd_fill_price d = Some p \<and> 0 < p \<and>
        (\<forall>b a. rp_bid ref = Some b \<and> rp_ask ref = Some a \<longrightarrow> b \<le> p \<and> p \<le> a) \<and>
        (bq_order_type r = LIMIT \<longrightarrow> (\<exists>l. bq_limit_price r = Some l \<and> no_worse (bq_side r) p l))))"
proof -
  have ref: "0 < dval (rp_last ref)" "\<And>a. rp_ask ref = Some a \<Longrightarrow> 0 < dval a" "\<And>b. rp_bid ref = Some b \<Longrightarrow> 0 < dval b"
    "\<And>a b. rp_ask ref = Some a \<Longrightarrow> rp_bid ref = Some b \<Longrightarrow>
       dval b \<le> dval a \<and> dval b \<le> dval (rp_last ref) \<and> dval (rp_last ref) \<le> dval a"
    using assms(1) by (simp_all add: reference_ok_def decimal_order)
  have full: "0 < dval p \<Longrightarrow> full_quantity_decision r p = Inr \<lparr>fd_fills = True, fd_fill_price = Some p,
      fd_fill_quantity = dec_of_int (bq_quantity r), fd_reason = None\<rparr>" for p
    using assms(2) by (simp add: full_quantity_decision_Inr)
  show ?thesis
  proof (cases "bq_order_type r = MARKET")
    case True
    then show ?thesis using ref(1) ref(4)
      by (cases "bq_side r") (auto simp: decide_fill_def decide_buy_def decide_sell_def full decimal_order)
  next
    case False
    then have l: "bq_order_type r = LIMIT" using assms(3) by simp
    show ?thesis
      by (cases "bq_side r"; cases "quote_leg (bq_side r) ref"; cases "bq_limit_price r")
         (use ref in \<open>auto simp: decide_fill_def decide_buy_def decide_sell_def quote_leg_def no_worse_def full no_fill_eq l
            decimal_order not_less\<close>)
  qed
qed

definition sample_reference :: paper_reference_price where
  "sample_reference = \<lparr>rp_instrument_id = 5, rp_last = Dec 1000 (-1), rp_bid = Some (Dec 999 (-1)), rp_ask = Some (Dec 1001 (-1)),
     rp_reference_at = utc 0\<rparr>"

definition sample_paper_request :: broker_order_request where
  "sample_paper_request = \<lparr>bq_broker_account_id = 6, bq_instrument_id = 5, bq_trading_mode = PAPER, bq_client_order_id = ''c1'',
     bq_side = BUY, bq_order_type = LIMIT, bq_quantity = 10, bq_risk_approval_id = ''a'', bq_limit_price = Some (Dec 101 0),
     bq_stop_price = None, bq_metadata = [''order_id'' \<mapsto> PStr (uuid_str 9)]\<rparr>"

lemma sample_reference_ok: "reference_ok sample_reference"
  by (simp add: reference_ok_def sample_reference_def less_decimal_def less_eq_decimal_def dle_def rescaled_def zero_decimal_def)

theorem paper_limit_protection_witness:
  "\<exists>d. decide_fill sample_paper_request sample_reference = Inr d \<and> fd_fills d \<and> fd_fill_price d = Some (Dec 1001 (-1))"
proof -
  have "\<exists>d. decide_fill sample_paper_request sample_reference = Inr d \<and>
     (fd_fills d \<longleftrightarrow> bq_order_type sample_paper_request = MARKET \<or>
      (\<exists>q l. quote_leg (bq_side sample_paper_request) sample_reference = Some q \<and>
         bq_limit_price sample_paper_request = Some l \<and> no_worse (bq_side sample_paper_request) q l))"
    using paper_limit_protection [OF sample_reference_ok, of sample_paper_request] by (auto simp: sample_paper_request_def)
  then obtain d where d: "decide_fill sample_paper_request sample_reference = Inr d" "fd_fills d"
    by (auto simp: sample_paper_request_def sample_reference_def quote_leg_def no_worse_def less_eq_decimal_def dle_def rescaled_def)
  then show ?thesis
    by (auto simp: decide_fill_def decide_buy_def sample_paper_request_def sample_reference_def full_quantity_decision_Inr no_fill_eq
        split: if_splits)
qed

section \<open>Idempotent submission\<close>

lemma submissions_kept:
  assumes "pb_submissions b k = Some rec"
  shows "pb_submissions (snd (book_submit uuid5 clock b r reference)) k = Some rec"
proof -
  obtain res b' where run: "book_submit uuid5 clock b r reference = (res, b')" by fastforce
  then show ?thesis by (cases rule: book_submit_cases) (use assms run in \<open>auto simp: book_record_def filled_book_def\<close>)
qed

lemma opt_deq_refl [simp]: "opt_deq x x"
  by (cases x) (simp_all add: deq_iff)

lemma submit_recorded:
  assumes "book_submit uuid5 clock b r reference = (Inr resp, b')"
  obtains oid rec where "admissible uuid5 r oid" "pb_submissions b' (book_key r) = Some rec" "sr_response rec = resp"
    "payload_differences (sr_request rec) r = []"
  using assms
proof (cases rule: book_submit_cases)
  case (error e)
  then show thesis by simp
next
  case (replay oid rec)
  then show thesis using that by auto
qed (use that in \<open>auto simp: book_record_def filled_book_def payload_differences_def\<close>)

text \<open>One delivery of an order to the book: the clock and the reference price it meets, and the request.\<close>

type_synonym paper_delivery = "datetime option \<times> paper_reference_price option \<times> broker_order_request"

definition deliver_order ::
  "uuid5_fun \<Rightarrow> paper_book \<Rightarrow> paper_delivery \<Rightarrow> (paper_error, broker_order_response) result \<times> paper_book" where
  "deliver_order uuid5 b m = (case m of (clock, reference, r) \<Rightarrow> book_submit uuid5 clock b r reference)"

definition order_recorded :: "paper_book \<Rightarrow> paper_delivery \<Rightarrow> bool" where
  "order_recorded b m = (case m of (clock, reference, r) \<Rightarrow> pb_submissions b (book_key r) \<noteq> None)"

lemma submit_known:
  assumes "pb_submissions b (book_key r) \<noteq> None"
  shows "snd (book_submit uuid5 clock b r reference) = b"
proof -
  obtain res b' where run: "book_submit uuid5 clock b r reference = (res, b')" by fastforce
  then show ?thesis by (cases rule: book_submit_cases) (use assms run in auto)
qed

interpretation paper_feed: at_least_once "deliver_order uuid5" "\<lambda>b. b" order_recorded for uuid5
proof
  fix b :: paper_book and m m' :: paper_delivery
  show "order_recorded b m \<Longrightarrow> snd (deliver_order uuid5 b m) = b"
    by (cases m) (simp add: order_recorded_def deliver_order_def submit_known)
  show "is_ok (fst (deliver_order uuid5 b m)) \<Longrightarrow> order_recorded (snd (deliver_order uuid5 b m)) m"
  proof (cases m)
    case (fields clock reference r)
    assume "is_ok (fst (deliver_order uuid5 b m))"
    then obtain resp b' where "book_submit uuid5 clock b r reference = (Inr resp, b')"
      by (cases "book_submit uuid5 clock b r reference") (auto simp: fields deliver_order_def is_ok_iff)
    then show ?thesis using submit_recorded by (fastforce simp: fields deliver_order_def order_recorded_def)
  qed
  show "order_recorded b m \<Longrightarrow> order_recorded (snd (deliver_order uuid5 b m')) m"
    by (cases m; cases m') (auto simp: order_recorded_def deliver_order_def dest: submissions_kept)
qed simp_all

lemma deliver_kept: "pb_submissions b k = Some rec \<Longrightarrow> pb_submissions (snd (deliver_order uuid5 b m)) k = Some rec"
  by (cases m) (simp add: deliver_order_def submissions_kept)

lemma deliver_all_kept:
  "pb_submissions b k = Some rec \<Longrightarrow> pb_submissions (paper_feed.deliver_all uuid5 b ms) k = Some rec"
  by (induction ms arbitrary: b) (simp_all add: deliver_kept)

lemma opt_deq_iff: "opt_deq x y \<longleftrightarrow> map_option dval x = map_option dval y"
  by (cases x; cases y) (auto simp: deq_iff)

lemma payload_differences_Nil:
  "payload_differences a b = [] \<longleftrightarrow> bq_broker_account_id a = bq_broker_account_id b \<and> bq_instrument_id a = bq_instrument_id b \<and>
     bq_trading_mode a = bq_trading_mode b \<and> bq_side a = bq_side b \<and> bq_order_type a = bq_order_type b \<and>
     bq_quantity a = bq_quantity b \<and> bq_risk_approval_id a = bq_risk_approval_id b \<and>
     map_option dval (bq_limit_price a) = map_option dval (bq_limit_price b) \<and>
     map_option dval (bq_stop_price a) = map_option dval (bq_stop_price b)"
  by (auto simp: payload_differences_def opt_deq_iff)

text \<open>Paper submission is idempotent per account and client order id: once a submission has been
  answered, then after any further deliveries, under any clock readings and reference prices,
  submitting the same request again returns the same response and leaves the book untouched (so
  it enqueues no event and no fill), while a request that reuses the account and client order id
  with a different payload is refused with an error and leaves the book untouched.\<close>

theorem paper_submission_idempotent:
  fixes ms :: "paper_delivery list"
  assumes "deliver_order uuid5 b (clock, reference, r) = (Inr resp, b1)"
  defines "later \<equiv> foldl (\<lambda>b m. snd (deliver_order uuid5 b m)) b1 ms"
  shows "deliver_order uuid5 later (clock', reference', r) = (Inr resp, later) \<and>
    (book_key r' = book_key r \<and> payload_differences r r' \<noteq> [] \<longrightarrow>
      (\<exists>e. deliver_order uuid5 later (clock', reference', r') = (Inl e, later)))"
proof -
  obtain oid rec where rec: "admissible uuid5 r oid" "pb_submissions b1 (book_key r) = Some rec" "sr_response rec = resp"
    "payload_differences (sr_request rec) r = []"
    by (rule submit_recorded [OF assms(1) [unfolded deliver_order_def prod.case]])
  have known: "pb_submissions later (book_key r) = Some rec"
    using deliver_all_kept [OF rec(2), of uuid5 ms] by (simp add: later_def paper_feed.deliver_all_def)
  have "book_submit uuid5 clock' later r reference' = (Inr resp, later)"
    using rec known by (simp add: book_submit_def admissible_def assert_identical_payload_def)
  moreover have "\<exists>e. book_submit uuid5 clock' later r' reference' = (Inl e, later)"
    if r': "book_key r' = book_key r" "payload_differences r r' \<noteq> []"
  proof -
    obtain res b' where run: "book_submit uuid5 clock' later r' reference' = (res, b')" by fastforce
    have "payload_differences (sr_request rec) r' \<noteq> []" using rec(4) r'(2) by (auto simp: payload_differences_Nil)
    with run show ?thesis using known r'(1) by (cases rule: book_submit_cases) (auto simp: run)
  qed
  ultimately show ?thesis by (simp add: deliver_order_def)
qed

text \<open>A hash for the witnesses, the identity of every order being 9.\<close>

definition sample_uuid5 :: uuid5_fun where
  "sample_uuid5 n s = 9"

lemma sample_resolve: "resolve_order_id sample_uuid5 sample_paper_request = Inr 9"
  by (simp add: resolve_order_id_def paper_order_id_def sample_uuid5_def sample_paper_request_def uuid_parse_str)

lemma sample_admissible: "admissible sample_uuid5 sample_paper_request 9"
  unfolding admissible_def sample_resolve by (simp add: sample_paper_request_def blank_Cons is_space_def)

lemma sample_decision: "decide_fill sample_paper_request sample_reference =
    Inr \<lparr>fd_fills = True, fd_fill_price = Some (Dec 1001 (-1)), fd_fill_quantity = dec_of_int 10, fd_reason = None\<rparr>"
  by (simp add: decide_fill_def decide_buy_def sample_paper_request_def sample_reference_def full_quantity_decision_def
      mk_fill_decision_def less_decimal_def less_eq_decimal_def dle_def rescaled_def zero_decimal_def dec_of_int_def)

lemma sample_submit:
  "book_submit sample_uuid5 (Some (utc 1)) empty_book sample_paper_request (Some sample_reference) =
     (Inr (accept_response sample_paper_request 9 (utc 1)), filled_book empty_book sample_paper_request 9 (utc 1) (Dec 1001 (-1)))"
proof -
  have "rp_instrument_id sample_reference = bq_instrument_id sample_paper_request" "0 < bq_quantity sample_paper_request"
    by (simp_all add: sample_reference_def sample_paper_request_def)
  moreover have "pb_submissions empty_book k = None" "\<not> pb_sequence empty_book < 0" for k by (simp_all add: empty_book_def)
  ultimately show ?thesis using sample_admissible
    by (simp add: book_submit_def admissible_def submit_new_def now_from_def sample_decision accept_and_fill_cases dval_pos_iff)
qed

theorem paper_submission_idempotent_witness:
  "\<exists>b resp. deliver_order sample_uuid5 empty_book (Some (utc 1), Some sample_reference, sample_paper_request) = (Inr resp, b) \<and>
     deliver_order sample_uuid5 (foldl (\<lambda>b m. snd (deliver_order sample_uuid5 b m)) b [(None, None, sample_paper_request)])
       (None, None, sample_paper_request) =
     (Inr resp, foldl (\<lambda>b m. snd (deliver_order sample_uuid5 b m)) b [(None, None, sample_paper_request)])"
proof -
  have "deliver_order sample_uuid5 empty_book (Some (utc 1), Some sample_reference, sample_paper_request) =
     (Inr (accept_response sample_paper_request 9 (utc 1)), filled_book empty_book sample_paper_request 9 (utc 1) (Dec 1001 (-1)))"
    by (simp add: deliver_order_def sample_submit)
  from paper_submission_idempotent [OF this, THEN conjunct1] this show ?thesis by blast
qed

section \<open>What the events of a paper order do to its lifecycle\<close>

definition record_ok :: "uuid5_fun \<Rightarrow> uuid \<times> string \<Rightarrow> submission_record \<Rightarrow> bool" where
  "record_ok uuid5 k rec \<longleftrightarrow> book_key (sr_request rec) = k \<and>
     (\<exists>oid now. admissible uuid5 (sr_request rec) oid \<and> tz_aware now \<and>
       ((\<exists>why. \<not> blank why \<and> sr_response rec = reject_response (sr_request rec) now why \<and>
           sr_events rec = [reject_event (sr_request rec) oid now why]) \<or>
        (\<exists>p. 0 < dval p \<and> sr_response rec = accept_response (sr_request rec) oid now \<and>
           sr_events rec = [ack_event (sr_request rec) oid now, paper_fill_event (sr_request rec) oid now p])))"

definition records_ok :: "uuid5_fun \<Rightarrow> paper_book \<Rightarrow> bool" where
  "records_ok uuid5 b \<longleftrightarrow> (\<forall>k rec. pb_submissions b k = Some rec \<longrightarrow> record_ok uuid5 k rec)"

lemma deliver_records_ok:
  assumes "records_ok uuid5 b"
  shows "records_ok uuid5 (snd (deliver_order uuid5 b m))"
proof (cases m)
  case (fields clock reference r)
  obtain res b' where run: "book_submit uuid5 clock b r reference = (res, b')" by fastforce
  then have "records_ok uuid5 b'"
    by (cases rule: book_submit_cases)
       (use assms in \<open>auto simp: records_ok_def record_ok_def book_record_def filled_book_def\<close>)
  then show ?thesis by (simp add: fields deliver_order_def run)
qed

lemma delivered_records_ok: "records_ok uuid5 b \<Longrightarrow> records_ok uuid5 (paper_feed.deliver_all uuid5 b ms)"
  by (induction ms arbitrary: b) (simp_all add: deliver_records_ok)

lemma empty_records_ok: "records_ok uuid5 empty_book"
  by (simp add: records_ok_def empty_book_def)

lemma admissible_order_id:
  "admissible uuid5 r oid \<Longrightarrow> oid = paper_order_id uuid5 (bq_broker_account_id r) (bq_client_order_id r)"
  by (auto simp: admissible_def resolve_order_id_def Let_def split: option.splits pyval.splits if_splits)

lemma dval_zero_plus: "rep28 (dval y) \<Longrightarrow> dval x = 0 \<Longrightarrow> dval (x + y) = dval y"
  using dval_plus [of x y] by simp

lemma acknowledged_then_filled:
  fixes p :: decimal
  assumes st: "lc_order_id (es_lifecycle st) = oid" "lc_state (es_lifecycle st) = SUBMISSION_REQUESTED"
      "dval (es_order_quantity st) = of_int (bq_quantity r)" "dval (es_filled_quantity st) = 0"
    and r: "tz_aware now" "0 < bq_quantity r" "bq_quantity r < prec_limit"
  defines "evs \<equiv> [ack_event r oid now, paper_fill_event r oid now p]"
  shows "accepted_events st evs = evs \<and> lc_state (es_lifecycle (feed_events st evs)) = FILLED \<and>
    dval (es_filled_quantity (feed_events st evs)) = of_int (bq_quantity r) \<and>
    es_broker_order_id (feed_events st evs) = Some (paper_broker_order_id oid)"
proof -
  have nb: "\<not> blank ''paper broker accepted order''" "\<not> blank ''paper simulator-confirmed fill''"
    by (simp_all add: blank_Cons is_space_def)
  have bid: "str_or (Some (paper_broker_order_id oid)) x = Some (paper_broker_order_id oid)" for x
    by (simp add: str_or_def paper_broker_order_id_def)
  have q: "rep28 (of_int (bq_quantity r))" using r(2,3) by (intro rep28_int) simp
  have sum: "dval (es_filled_quantity st + dec_of_int (bq_quantity r)) = of_int (bq_quantity r)"
    using dval_zero_plus [OF _ st(4)] q by simp
  obtain st1 where st1: "apply_event st (ack_event r oid now) = Inr st1" "lc_order_id (es_lifecycle st1) = oid"
    "lc_state (es_lifecycle st1) = BROKER_ACKNOWLEDGED" "es_order_quantity st1 = es_order_quantity st"
    "es_filled_quantity st1 = es_filled_quantity st"
    using st r nb(1) by (simp add: apply_event_def ack_event_def with_transition_def transition_to_def mk_transition_def
        mk_execution_state_def decimal_order)
  obtain st2 where "apply_event st1 (paper_fill_event r oid now p) = Inr st2" "lc_state (es_lifecycle st2) = FILLED"
    "dval (es_filled_quantity st2) = of_int (bq_quantity r)" "es_broker_order_id st2 = Some (paper_broker_order_id oid)"
    using st1(2-) st(3) sum r nb(2)
    by (simp add: apply_event_def paper_fill_event_def apply_complete_fill_def with_transition_def transition_to_def
        mk_transition_def mk_execution_state_def decimal_order bid Let_def)
  then show ?thesis by (simp add: evs_def st1(1))
qed

lemma rejected_order:
  fixes r :: broker_order_request
  assumes "lc_order_id (es_lifecycle st) = oid" "lc_state (es_lifecycle st) = SUBMISSION_REQUESTED"
      "0 < dval (es_order_quantity st)" "dval (es_filled_quantity st) = 0" "tz_aware now" "\<not> blank why"
  defines "evs \<equiv> [reject_event r oid now why]"
  shows "accepted_events st evs = evs \<and> lc_state (es_lifecycle (feed_events st evs)) = REJECTED \<and>
    dval (es_filled_quantity (feed_events st evs)) = 0"
proof -
  obtain st1 where "apply_event st (reject_event r oid now why) = Inr st1" "lc_state (es_lifecycle st1) = REJECTED"
    "dval (es_filled_quantity st1) = 0"
    using assms(1-6) by (simp add: apply_event_def reject_event_def with_transition_def transition_to_def mk_transition_def
        mk_execution_state_def decimal_order)
  then show ?thesis by (simp add: evs_def)
qed

text \<open>C12.  The paper broker finishes every order it answers: after any deliveries to an empty book and
  one more submission that is answered, the events the book keeps for that order are all accepted
  by the execution engine's order lifecycle of the same order (same deterministic id and quantity,
  submission requested, nothing filled), which they take to FILLED, with the whole quantity filled
  and the broker order id set, when the answer was ACCEPTED, and to REJECTED with nothing filled
  otherwise.  No paper order is left working.\<close>

theorem paper_events_finish_order:
  fixes ms :: "paper_delivery list"
  assumes "deliver_order uuid5 (foldl (\<lambda>b m. snd (deliver_order uuid5 b m)) empty_book ms) (clock, reference, r) = (Inr resp, b)"
    and "lc_order_id (es_lifecycle st) = paper_order_id uuid5 (bq_broker_account_id r) (bq_client_order_id r)"
    and "lc_state (es_lifecycle st) = SUBMISSION_REQUESTED"
    and "deq (es_order_quantity st) (dec_of_int (bq_quantity r))" "deq (es_filled_quantity st) 0"
    and "bq_quantity r < prec_limit"
  defines "evs \<equiv> book_events_for b (bq_broker_account_id r) (bq_client_order_id r)"
  defines "st' \<equiv> feed_events st evs"
  shows "accepted_events st evs = evs \<and>
    (if br_status resp = ACCEPTED
     then lc_state (es_lifecycle st') = FILLED \<and> deq (es_filled_quantity st') (es_order_quantity st) \<and>
       es_broker_order_id st' = br_broker_order_id resp
     else lc_state (es_lifecycle st') = REJECTED \<and> deq (es_filled_quantity st') 0)"
proof -
  have "records_ok uuid5 b"
    using deliver_records_ok [OF delivered_records_ok [OF empty_records_ok, of uuid5 ms], of "(clock, reference, r)"] assms(1)
    by (simp add: paper_feed.deliver_all_def)
  moreover obtain oid rec where rec: "admissible uuid5 r oid" "pb_submissions b (book_key r) = Some rec" "sr_response rec = resp"
    "payload_differences (sr_request rec) r = []"
    by (rule submit_recorded [OF assms(1) [unfolded deliver_order_def prod.case]])
  ultimately have "record_ok uuid5 (book_key r) rec" unfolding records_ok_def by blast
  then obtain oid' now where ok: "admissible uuid5 (sr_request rec) oid'" "tz_aware now"
    "book_key (sr_request rec) = book_key r"
    "(\<exists>why. \<not> blank why \<and> resp = reject_response (sr_request rec) now why \<and>
        sr_events rec = [reject_event (sr_request rec) oid' now why]) \<or>
     (\<exists>p. 0 < dval p \<and> resp = accept_response (sr_request rec) oid' now \<and>
        sr_events rec = [ack_event (sr_request rec) oid' now, paper_fill_event (sr_request rec) oid' now p])"
    unfolding record_ok_def rec(3) by blast
  have oid: "lc_order_id (es_lifecycle st) = oid'" and q: "bq_quantity (sr_request rec) = bq_quantity r" "0 < bq_quantity r"
    using assms(2) ok(1,3) rec(1,4) admissible_order_id [OF ok(1)]
    by (auto simp: book_key_def payload_differences_Nil admissible_def)
  have evs: "evs = sr_events rec" using rec(2) by (simp add: evs_def book_events_for_def book_key_def)
  have st: "dval (es_order_quantity st) = of_int (bq_quantity r)" "dval (es_filled_quantity st) = 0"
    using assms(4,5) by (simp_all add: deq_iff)
  from ok(4) show ?thesis
  proof (elim disjE exE conjE)
    fix why
    assume "\<not> blank why" "resp = reject_response (sr_request rec) now why" "sr_events rec = [reject_event (sr_request rec) oid' now why]"
    then show ?thesis using rejected_order [OF oid assms(3) _ st(2) ok(2)] st q
      by (simp add: evs st'_def deq_iff reject_response_def)
  next
    fix p
    assume "resp = accept_response (sr_request rec) oid' now"
      "sr_events rec = [ack_event (sr_request rec) oid' now, paper_fill_event (sr_request rec) oid' now p]"
    then show ?thesis using acknowledged_then_filled [OF oid assms(3) _ st(2) ok(2), of "sr_request rec"] st q assms(6)
      by (simp add: evs st'_def deq_iff accept_response_def)
  qed
qed

theorem paper_events_finish_order_witness:
  "\<exists>resp b. deliver_order sample_uuid5 empty_book (Some (utc 1), Some sample_reference, sample_paper_request) = (Inr resp, b) \<and>
     lc_state (es_lifecycle (feed_events
       \<lparr>es_lifecycle = \<lparr>lc_order_id = 9, lc_state = SUBMISSION_REQUESTED, lc_transitions = []\<rparr>,
        es_order_quantity = Dec 10 0, es_filled_quantity = 0, es_broker_order_id = None\<rparr> (book_events_for b 6 ''c1''))) = FILLED"
proof -
  let ?st = "\<lparr>es_lifecycle = \<lparr>lc_order_id = 9, lc_state = SUBMISSION_REQUESTED, lc_transitions = []\<rparr>,
        es_order_quantity = Dec 10 0, es_filled_quantity = 0, es_broker_order_id = None\<rparr>"
  have run: "deliver_order sample_uuid5 (foldl (\<lambda>b m. snd (deliver_order sample_uuid5 b m)) empty_book [])
       (Some (utc 1), Some sample_reference, sample_paper_request) =
     (Inr (accept_response sample_paper_request 9 (utc 1)), filled_book empty_book sample_paper_request 9 (utc 1) (Dec 1001 (-1)))"
    by (simp add: deliver_order_def sample_submit)
  from paper_events_finish_order [OF run, of ?st] run show ?thesis
    by (auto simp: sample_paper_request_def paper_order_id_def sample_uuid5_def dec_of_int_def deq_iff accept_response_def)
qed

section \<open>Draining the event log\<close>

text \<open>The broker's clients submit orders and drain events in any interleaving; a run returns the drained
  batches in order and the book.\<close>

datatype book_call = Book_Submit paper_delivery | Book_Drain

fun book_run :: "uuid5_fun \<Rightarrow> paper_book \<Rightarrow> book_call list \<Rightarrow> broker_order_event list list \<times> paper_book" where
  "book_run uuid5 b [] = ([], b)"
| "book_run uuid5 b (Book_Submit m # cs) = book_run uuid5 (snd (deliver_order uuid5 b m)) cs"
| "book_run uuid5 b (Book_Drain # cs) =
     (let (evs, b') = pending_events b; (batches, b'') = book_run uuid5 b' cs in (evs # batches, b''))"

text \<open>The log is the concatenation of the recorded submissions' events, in the order in which their keys
  were first submitted.\<close>

definition log_of_keys :: "paper_book \<Rightarrow> (uuid \<times> string) list \<Rightarrow> broker_order_event list" where
  "log_of_keys b ks = concat (map (\<lambda>(account, client). book_events_for b account client) ks)"

definition keys_log :: "paper_book \<Rightarrow> (uuid \<times> string) list \<Rightarrow> bool" where
  "keys_log b ks \<longleftrightarrow> distinct ks \<and> set ks = dom (pb_submissions b) \<and> pb_events b = log_of_keys b ks"

lemma book_events_for_record:
  "book_events_for (book_record b r resp evs) account client =
     (if (account, client) = book_key r then evs else book_events_for b account client)"
  by (simp add: book_events_for_def book_record_def)

lemma keys_log_record:
  assumes "keys_log b ks" "pb_submissions b (book_key r) = None"
  shows "keys_log (book_record b r resp evs) (ks @ [book_key r])"
proof -
  have new: "book_key r \<notin> set ks" using assms by (auto simp: keys_log_def)
  then have "log_of_keys (book_record b r resp evs) ks = log_of_keys b ks"
    unfolding log_of_keys_def by (intro arg_cong [where f = concat] map_cong) (auto simp: book_events_for_record)
  moreover have "log_of_keys (book_record b r resp evs) [book_key r] = evs"
    by (cases "book_key r") (simp add: log_of_keys_def book_events_for_record)
  ultimately have "log_of_keys (book_record b r resp evs) (ks @ [book_key r]) = pb_events b @ evs"
    using assms(1) by (simp add: keys_log_def log_of_keys_def)
  then show ?thesis using assms(1) new by (auto simp: keys_log_def book_record_def)
qed

lemma keys_log_fields:
  "keys_log (b\<lparr>pb_sequence := n, pb_fills := fs\<rparr>) ks = keys_log b ks" "keys_log (b\<lparr>pb_pending_index := i\<rparr>) ks = keys_log b ks"
  by (simp_all add: keys_log_def log_of_keys_def book_events_for_def)

lemma deliver_keys_log:
  assumes "keys_log b ks"
  shows "\<exists>ks'. keys_log (snd (deliver_order uuid5 b m)) ks'"
proof (cases m)
  case (fields clock reference r)
  obtain res b' where run: "book_submit uuid5 clock b r reference = (res, b')" by fastforce
  then have "\<exists>ks'. keys_log b' ks'"
  proof (cases rule: book_submit_cases)
    case (reject oid now why)
    then show ?thesis using keys_log_record [OF assms] by blast
  next
    case (fill oid now ref d p)
    then show ?thesis using keys_log_record [of "b\<lparr>pb_sequence := pb_sequence b + 1, pb_fills := _\<rparr>" ks r] assms
      by (auto simp: filled_book_def keys_log_fields)
  qed (use assms in auto)
  then show ?thesis by (simp add: fields deliver_order_def run)
qed

lemma deliver_log_grows:
  "\<exists>evs. pb_events (snd (deliver_order uuid5 b m)) = pb_events b @ evs \<and>
     pb_pending_index (snd (deliver_order uuid5 b m)) = pb_pending_index b"
proof (cases m)
  case (fields clock reference r)
  obtain res b' where run: "book_submit uuid5 clock b r reference = (res, b')" by fastforce
  then have "\<exists>evs. pb_events b' = pb_events b @ evs \<and> pb_pending_index b' = pb_pending_index b"
    by (cases rule: book_submit_cases) (auto simp: book_record_def filled_book_def)
  then show ?thesis by (simp add: fields deliver_order_def run)
qed

lemma book_run_log:
  assumes "book_run uuid5 b cs = (batches, b')" "keys_log b ks" "pb_pending_index b \<le> length (pb_events b)"
  shows "(\<exists>ks'. keys_log b' ks') \<and>
    take (pb_pending_index b) (pb_events b) @ concat batches @ fst (pending_events b') = pb_events b'"
  using assms
proof (induction cs arbitrary: b ks batches)
  case Nil
  then show ?case by (auto simp: pending_events_def)
next
  case (Cons c cs)
  show ?case
  proof (cases c)
    case (Book_Submit m)
    let ?b = "snd (deliver_order uuid5 b m)"
    obtain evs where evs: "pb_events ?b = pb_events b @ evs" "pb_pending_index ?b = pb_pending_index b"
      using deliver_log_grows by blast
    obtain ks' where "keys_log ?b ks'" using deliver_keys_log [OF Cons.prems(2)] by blast
    from Cons.IH [OF _ this] show ?thesis using Cons.prems(1,3) evs by (simp add: Book_Submit)
  next
    case Book_Drain
    let ?b = "b\<lparr>pb_pending_index := length (pb_events b)\<rparr>"
    obtain rest where rest: "book_run uuid5 ?b cs = (rest, b')" "batches = drop (pb_pending_index b) (pb_events b) # rest"
      using Cons.prems(1) by (auto simp: Book_Drain pending_events_def split: prod.splits)
    have "keys_log ?b ks" using Cons.prems(2) by (simp add: keys_log_fields)
    from Cons.IH [OF rest(1) this] have "\<exists>ks'. keys_log b' ks'"
      "pb_events b @ concat rest @ fst (pending_events b') = pb_events b'" by simp_all
    then show ?thesis by (simp add: rest(2)) (metis append_assoc append_take_drop_id)
  qed
qed

text \<open>Every simulator event is handed out exactly once and in order: in any interleaving of
  submissions (answered, repeated or refused) and drains from an empty book, the drained batches followed by
  what is still pending are exactly the event log, and the log is the events of each recorded
  order, one order after another, each order once.\<close>

theorem paper_events_drained_once:
  assumes "book_run uuid5 empty_book cs = (batches, b)"
  shows "concat batches @ fst (pending_events b) = pb_events b \<and>
    (\<exists>ks. distinct ks \<and> set ks = dom (pb_submissions b) \<and>
       pb_events b = concat (map (\<lambda>(account, client). book_events_for b account client) ks))"
proof -
  have "keys_log empty_book []" by (simp add: keys_log_def log_of_keys_def empty_book_def)
  from book_run_log [OF assms this] show ?thesis by (simp add: keys_log_def log_of_keys_def empty_book_def)
qed

theorem paper_events_drained_once_witness:
  "\<exists>batches b. book_run sample_uuid5 empty_book
       [Book_Submit (Some (utc 1), Some sample_reference, sample_paper_request), Book_Drain,
        Book_Submit (Some (utc 2), Some sample_reference, sample_paper_request), Book_Drain] = (batches, b) \<and>
     concat batches @ fst (pending_events b) = pb_events b \<and> length (pb_events b) = 2"
proof -
  let ?cs = "[Book_Submit (Some (utc 1), Some sample_reference, sample_paper_request), Book_Drain,
        Book_Submit (Some (utc 2), Some sample_reference, sample_paper_request), Book_Drain]"
  let ?b = "filled_book empty_book sample_paper_request 9 (utc 1) (Dec 1001 (-1))"
  obtain batches b where run: "book_run sample_uuid5 empty_book ?cs = (batches, b)" by fastforce
  have known: "deliver_order sample_uuid5 (?b\<lparr>pb_pending_index := i\<rparr>) (Some (utc 2), Some sample_reference, sample_paper_request) =
      (fst (deliver_order sample_uuid5 (?b\<lparr>pb_pending_index := i\<rparr>) (Some (utc 2), Some sample_reference, sample_paper_request)),
       ?b\<lparr>pb_pending_index := i\<rparr>)" for i
    by (rule prod_eqI) (simp_all add: deliver_order_def submit_known filled_book_def book_record_def)
  have "pb_events b = pb_events ?b"
    using run by (simp add: deliver_order_def [of _ empty_book] sample_submit pending_events_def)
       (subst (asm) known, auto)
  then have "length (pb_events b) = 2" by (simp add: filled_book_def book_record_def empty_book_def)
  then show ?thesis using run paper_events_drained_once [OF run, THEN conjunct1] by blast
qed

section \<open>Positions are the net of the fill trail\<close>

text \<open>A fill's quantity in shares and its price in units of the average-price quantum 0.00000001.\<close>

definition fill_units :: "paper_fill_record \<Rightarrow> int" where
  "fill_units f = dec_int (pfr_fill_quantity f)"

definition price_units :: "paper_fill_record \<Rightarrow> int" where
  "price_units f = qcoeff (-8) (pfr_fill_price f)"

definition on_price_grid :: "paper_fill_record \<Rightarrow> bool" where
  "on_price_grid f \<longleftrightarrow> dval (pfr_fill_price f) = of_int (price_units f) * 10 powi (-8)"

definition signed_units :: "paper_fill_record \<Rightarrow> int" where
  "signed_units f = (case pfr_side f of BUY \<Rightarrow> fill_units f | SELL \<Rightarrow> - fill_units f)"

definition net_units :: "paper_book \<Rightarrow> uuid \<Rightarrow> uuid \<Rightarrow> int" where
  "net_units b account ins = (\<Sum>f\<leftarrow>fills_of b account ins. signed_units f)"

definition trail_ok :: "paper_fill_record list \<Rightarrow> bool" where
  "trail_ok fs \<longleftrightarrow> (\<forall>f\<in>set fs. pfr_fill_quantity f = dec_of_int (fill_units f) \<and> 0 < fill_units f \<and> 0 < dval (pfr_fill_price f))"

lemma fill_units_whole [simp]: "dec_int (dec_of_int n) = n"
  by (rule dec_int_whole) simp

lemma deliver_trail_ok:
  assumes "trail_ok (pb_fills b)"
  shows "trail_ok (pb_fills (snd (deliver_order uuid5 b m)))"
proof (cases m)
  case (fields clock reference r)
  obtain res b' where run: "book_submit uuid5 clock b r reference = (res, b')" by fastforce
  then have "trail_ok (pb_fills b')"
    by (cases rule: book_submit_cases)
       (use assms in \<open>auto simp: trail_ok_def book_record_def filled_book_def paper_fill_def fill_units_def admissible_def\<close>)
  then show ?thesis by (simp add: fields deliver_order_def run)
qed

lemma delivered_trail_ok: "trail_ok (pb_fills b) \<Longrightarrow> trail_ok (pb_fills (paper_feed.deliver_all uuid5 b ms))"
  by (induction ms arbitrary: b) (simp_all add: deliver_trail_ok)

definition cost_units :: "paper_fill_record \<Rightarrow> int" where
  "cost_units f = price_units f * fill_units f"

text \<open>A trail whose prices lie on the grid and whose total cost has at most 28 digits of it: every sum
  and product over it is exact.\<close>

definition trail_exact :: "paper_fill_record list \<Rightarrow> bool" where
  "trail_exact fs \<longleftrightarrow> trail_ok fs \<and> (\<forall>f\<in>set fs. on_price_grid f) \<and> (\<Sum>f\<leftarrow>fs. cost_units f) < prec_limit"

lemma price_units_pos: "on_price_grid f \<Longrightarrow> 0 < dval (pfr_fill_price f) \<Longrightarrow> 1 \<le> price_units f"
  by (simp add: on_price_grid_def zero_less_mult_iff)

lemma trail_exact_Cons:
  "trail_exact (f # fs) \<Longrightarrow> trail_exact fs \<and> 1 \<le> price_units f \<and> 0 < fill_units f \<and> fill_units f \<le> cost_units f"
proof -
  assume t: "trail_exact (f # fs)"
  then have f: "1 \<le> price_units f" "0 < fill_units f"
    by (auto simp: trail_exact_def trail_ok_def intro: price_units_pos)
  then have "1 * fill_units f \<le> cost_units f" unfolding cost_units_def by (intro mult_right_mono) auto
  with t f show ?thesis by (simp add: trail_exact_def trail_ok_def)
qed

lemma trail_filter_cost: "trail_exact fs \<Longrightarrow> (\<Sum>f\<leftarrow>filter P fs. cost_units f) \<le> (\<Sum>f\<leftarrow>fs. cost_units f)"
proof (induction fs)
  case (Cons f fs)
  then show ?case using trail_exact_Cons [OF Cons.prems] by simp
qed simp

lemma trail_exact_filter: "trail_exact fs \<Longrightarrow> trail_exact (filter P fs)"
  using trail_filter_cost [of fs P] by (auto simp: trail_exact_def trail_ok_def)

lemma trail_units_bound:
  "trail_exact fs \<Longrightarrow> 0 \<le> (\<Sum>f\<leftarrow>fs. fill_units f) \<and> (\<Sum>f\<leftarrow>fs. fill_units f) \<le> (\<Sum>f\<leftarrow>fs. cost_units f)"
proof (induction fs)
  case (Cons f fs)
  then show ?case using trail_exact_Cons [OF Cons.prems] by simp
qed simp

lemma list_all2_map_same: "list_all2 P (map f xs) (map g xs) \<longleftrightarrow> (\<forall>x\<in>set xs. P (f x) (g x))"
  by (induction xs) auto

lemma trail_member:
  assumes "trail_exact fs" "f \<in> set fs"
  shows "pfr_fill_quantity f = dec_of_int (fill_units f)" "0 < fill_units f" "1 \<le> price_units f" "on_price_grid f"
    "\<bar>fill_units f\<bar> = fill_units f" "\<bar>signed_units f\<bar> = fill_units f" "\<bar>cost_units f\<bar> = cost_units f"
    "fill_units f < prec_limit" "cost_units f < prec_limit"
proof -
  show f: "pfr_fill_quantity f = dec_of_int (fill_units f)" "0 < fill_units f" "1 \<le> price_units f" "on_price_grid f"
    using assms by (auto simp: trail_exact_def trail_ok_def intro: price_units_pos)
  show "\<bar>fill_units f\<bar> = fill_units f" "\<bar>signed_units f\<bar> = fill_units f" "\<bar>cost_units f\<bar> = cost_units f"
    using f(2,3) by (simp_all add: signed_units_def cost_units_def abs_mult split: order_side.split)
  have le: "fill_units g \<le> cost_units g \<and> 0 \<le> cost_units g" if "g \<in> set fs" for g
    using assms(1) that by (induction fs) (use trail_exact_Cons in force)+
  then have "cost_units f \<le> (\<Sum>f\<leftarrow>fs. cost_units f)" using assms(2) by (intro member_le_sum_list) auto
  then show "cost_units f < prec_limit" using assms(1) by (simp add: trail_exact_def)
  then show "fill_units f < prec_limit" using le [OF assms(2)] by linarith
qed

lemma trail_quantity:
  assumes "trail_exact fs"
  shows "dval (dsum (map pfr_fill_quantity fs)) = of_int (\<Sum>f\<leftarrow>fs. fill_units f)"
    and "dval (dsum (map signed_fill fs)) = of_int (\<Sum>f\<leftarrow>fs. signed_units f)"
    and "dval (dsum (map (\<lambda>f. pfr_fill_price f * pfr_fill_quantity f) fs)) = of_int (\<Sum>f\<leftarrow>fs. cost_units f) * 10 powi (-8)"
proof -
  note mem = trail_member [OF assms]
  have abs: "(\<Sum>f\<leftarrow>fs. \<bar>fill_units f\<bar>) = (\<Sum>f\<leftarrow>fs. fill_units f)" "(\<Sum>f\<leftarrow>fs. \<bar>signed_units f\<bar>) = (\<Sum>f\<leftarrow>fs. fill_units f)"
    "(\<Sum>f\<leftarrow>fs. \<bar>cost_units f\<bar>) = (\<Sum>f\<leftarrow>fs. cost_units f)"
    by (simp_all add: mem cong: map_cong)
  have cost: "(\<Sum>f\<leftarrow>fs. cost_units f) < prec_limit" using assms by (simp add: trail_exact_def)
  then have total: "(\<Sum>f\<leftarrow>fs. fill_units f) < prec_limit" using trail_units_bound [OF assms] by linarith
  have signed: "dval (signed_fill f) = of_int (signed_units f)" if "f \<in> set fs" for f
    using mem(1,5,8) [OF that]
    by (simp add: signed_fill_def signed_units_def uminus_decimal_def dneg_def dec_of_int_def dval_def split: order_side.split)
  have prod: "dval (pfr_fill_price f * pfr_fill_quantity f) = of_int (cost_units f) * 10 powi (-8)"
    if f: "f \<in> set fs" for f
    using dval_grid_times_int [of "pfr_fill_price f" "price_units f" "-8" "fill_units f"] mem(1,4,7,9) [OF f]
    by (simp add: on_price_grid_def cost_units_def del: power_int_minus)
  show "dval (dsum (map pfr_fill_quantity fs)) = of_int (\<Sum>f\<leftarrow>fs. fill_units f)"
    using dsum_grid [of 0 "map pfr_fill_quantity fs" "map fill_units fs"] total
    by (simp add: list_all2_map_same comp_def abs mem(1))
  show "dval (dsum (map signed_fill fs)) = of_int (\<Sum>f\<leftarrow>fs. signed_units f)"
    using dsum_grid [of 0 "map signed_fill fs" "map signed_units fs"] signed total
    by (simp add: list_all2_map_same comp_def abs)
  show "dval (dsum (map (\<lambda>f. pfr_fill_price f * pfr_fill_quantity f) fs)) = of_int (\<Sum>f\<leftarrow>fs. cost_units f) * 10 powi (-8)"
    using dsum_grid [of "-8" "map (\<lambda>f. pfr_fill_price f * pfr_fill_quantity f) fs" "map cost_units fs"] prod cost
    by (simp add: list_all2_map_same comp_def abs del: power_int_minus of_int_mult)
qed

lemma trail_weighted:
  assumes "trail_exact fs" "\<forall>f\<in>set fs. lo \<le> price_units f \<and> price_units f \<le> hi"
  shows "lo * (\<Sum>f\<leftarrow>fs. fill_units f) \<le> (\<Sum>f\<leftarrow>fs. cost_units f)" "(\<Sum>f\<leftarrow>fs. cost_units f) \<le> hi * (\<Sum>f\<leftarrow>fs. fill_units f)"
proof -
  have "lo * fill_units f \<le> cost_units f \<and> cost_units f \<le> hi * fill_units f" if "f \<in> set fs" for f
    using assms(2) trail_member(2) [OF assms(1)] that by (auto simp: cost_units_def intro!: mult_right_mono less_imp_le)
  then show "lo * (\<Sum>f\<leftarrow>fs. fill_units f) \<le> (\<Sum>f\<leftarrow>fs. cost_units f)" "(\<Sum>f\<leftarrow>fs. cost_units f) \<le> hi * (\<Sum>f\<leftarrow>fs. fill_units f)"
    by (auto simp: sum_list_const_mult [symmetric] intro!: sum_list_mono)
qed

lemma mean_fill_price_bounded:
  assumes "trail_exact fs" "fs \<noteq> []" "\<forall>f\<in>set fs. lo \<le> price_units f \<and> price_units f \<le> hi" "1 \<le> lo" "hi < prec_limit"
  obtains a where "mean_fill_price fs = Inr (Some a)" "of_int lo * 10 powi (-8) \<le> dval a" "dval a \<le> of_int hi * 10 powi (-8)"
proof -
  let ?q = "dsum (map pfr_fill_quantity fs)" and ?c = "dsum (map (\<lambda>f. pfr_fill_price f * pfr_fill_quantity f) fs)"
  let ?Q = "\<Sum>f\<leftarrow>fs. fill_units f" and ?C = "\<Sum>f\<leftarrow>fs. cost_units f"
  have Q: "0 < ?Q" using assms(1,2)
  proof (cases fs)
    case (Cons f gs)
    then show ?thesis using trail_exact_Cons [of f gs] trail_units_bound [of gs] assms(1) by simp
  qed simp
  note w = trail_weighted [OF assms(1,3)]
  have lohi: "lo \<le> hi" using assms(2,3) by (cases fs) auto
  have "1 * ?Q \<le> lo * ?Q" using assms(4) Q by (intro mult_right_mono) auto
  then have C: "0 < ?C" using Q w(1) by linarith
  have q: "0 < dval ?q" and c: "0 < dval ?c" using Q C trail_quantity(1,3) [OF assms(1)] by simp_all
  obtain z where z: "ddiv ?c ?q = Some z" using ddiv_defined [OF q] by blast
  have quot: "dval ?c / dval ?q = of_int ?C / of_int ?Q * 10 powi (-8)"
    unfolding trail_quantity(1,3) [OF assms(1)] by (simp del: power_int_minus)
  have "(of_int (lo * ?Q) :: rat) \<le> of_int ?C" "(of_int ?C :: rat) \<le> of_int (hi * ?Q)" using w by (simp_all only: of_int_le_iff)
  then have b: "of_int lo * 10 powi (-8) \<le> dval ?c / dval ?q" "dval ?c / dval ?q \<le> of_int hi * 10 powi (-8)"
    unfolding quot using Q by (simp_all add: pos_le_divide_eq pos_divide_le_eq del: power_int_minus)
  have zb: "of_int lo * 10 powi (-8) \<le> dval z" "dval z \<le> of_int hi * 10 powi (-8)"
    by (rule ddiv_ge [OF c q z _ b(1)], rule rep28_grid) (use lohi assms(4,5) in linarith,
        rule ddiv_le [OF c q z _ b(2)], rule rep28_grid, use lohi assms(4,5) in linarith)
  have "lo \<le> qcoeff (-8) z" "qcoeff (-8) z \<le> hi" using zb by (auto intro: qcoeff_ge qcoeff_le)
  then obtain a where a: "quantize (-8) z = Some a" using assms(4,5) by (simp add: quantize_qcoeff)
  show thesis
    by (rule that [of a]) (use a z q quantize_ge [OF a zb(1)] quantize_le [OF a zb(2)] in
        \<open>simp_all add: mean_fill_price_def Let_def decimal_order del: power_int_minus\<close>)
qed

text \<open>What a reported position says about the fills it is derived from.\<close>

definition position_reflects :: "paper_fill_record list \<Rightarrow> paper_position \<Rightarrow> bool" where
  "position_reflects fs p \<longleftrightarrow> pq_trading_mode p = PAPER \<and> dval (pq_quantity p) = of_int (\<Sum>f\<leftarrow>fs. signed_units f) \<and>
     (\<exists>a. pq_average_price p = Some a \<and> (\<exists>f\<in>set fs. pfr_fill_price f \<le> a) \<and> (\<exists>f\<in>set fs. a \<le> pfr_fill_price f))"

lemma instrument_position_reflects:
  assumes "trail_exact fs" "fs \<noteq> []" "tz_aware t"
  obtains (flat) "(\<Sum>f\<leftarrow>fs. signed_units f) = 0" "instrument_position account t ins fs = Inr None"
  | (open_position) p where "(\<Sum>f\<leftarrow>fs. signed_units f) \<noteq> 0" "instrument_position account t ins fs = Inr (Some p)"
      "pq_instrument_id p = ins" "pq_broker_account_id p = account" "position_reflects fs p"
proof (cases "(\<Sum>f\<leftarrow>fs. signed_units f) = 0")
  case True
  then show thesis using flat trail_quantity(2) [OF assms(1)] by (simp add: instrument_position_def deq_iff)
next
  case False
  let ?us = "set (map price_units fs)"
  obtain f g where f: "f \<in> set fs" "price_units f = Min ?us" and g: "g \<in> set fs" "price_units g = Max ?us"
    using assms(2) Min_in [of ?us] Max_in [of ?us] by (auto simp del: Min_in Max_in)
  have all: "\<forall>h\<in>set fs. price_units f \<le> price_units h \<and> price_units h \<le> price_units g" using f(2) g(2) by simp
  have "price_units g * 1 \<le> price_units g * fill_units g"
    using trail_member(2,3) [OF assms(1) g(1)] by (intro mult_left_mono) auto
  then have "price_units g < prec_limit" using trail_member(9) [OF assms(1) g(1)] by (simp add: cost_units_def)
  from mean_fill_price_bounded [OF assms(1,2) all trail_member(3) [OF assms(1) f(1)] this]
  obtain a where a: "mean_fill_price fs = Inr (Some a)" "dval (pfr_fill_price f) \<le> dval a" "dval a \<le> dval (pfr_fill_price g)"
    using trail_member(4) [OF assms(1) f(1)] trail_member(4) [OF assms(1) g(1)] unfolding on_price_grid_def by metis
  have "0 < dval (pfr_fill_price f)" using assms(1) f(1) by (auto simp: trail_exact_def trail_ok_def)
  then have pos: "\<not> a \<le> 0" using a(2) by (simp add: decimal_order)
  let ?p = "\<lparr>pq_broker_account_id = account, pq_instrument_id = ins, pq_trading_mode = PAPER,
      pq_quantity = dsum (map signed_fill fs), pq_average_price = Some a, pq_captured_at = t\<rparr>"
  have "instrument_position account t ins fs = Inr (Some ?p)"
    using False a(1) pos assms(3) trail_quantity(2) [OF assms(1)]
    by (simp add: instrument_position_def deq_iff mk_paper_position_def Let_def)
  moreover have "position_reflects fs ?p"
    using a f(1) g(1) trail_quantity(2) [OF assms(1)] by (auto simp: position_reflects_def decimal_order)
  ultimately show thesis using open_position [OF False] by simp
qed

lemma positions_loop_reflects:
  assumes "\<forall>ins\<in>set inss. trail_exact (fills_of b account ins) \<and> fills_of b account ins \<noteq> []" "tz_aware t"
  shows "\<exists>ps. positions_loop account t b inss = Inr ps \<and>
    map pq_instrument_id ps = filter (\<lambda>ins. net_units b account ins \<noteq> 0) inss \<and>
    (\<forall>p\<in>set ps. pq_broker_account_id p = account \<and> position_reflects (fills_of b account (pq_instrument_id p)) p)"
  using assms(1)
proof (induction inss)
  case (Cons ins inss)
  then obtain ps where ps: "positions_loop account t b inss = Inr ps"
    "map pq_instrument_id ps = filter (\<lambda>ins. net_units b account ins \<noteq> 0) inss"
    "\<forall>p\<in>set ps. pq_broker_account_id p = account \<and> position_reflects (fills_of b account (pq_instrument_id p)) p" by auto
  have ins: "trail_exact (fills_of b account ins)" "fills_of b account ins \<noteq> []" using Cons.prems by auto
  show ?case
    by (cases rule: instrument_position_reflects [OF ins assms(2), of account ins])
       (use ps in \<open>auto simp: net_units_def\<close>)
qed simp

lemma traded_instruments_fills:
  "ins \<in> set (traded_instruments b account) \<longleftrightarrow> fills_of b account ins \<noteq> []"
  by (auto simp: traded_instruments_def fills_of_def filter_empty_conv)

text \<open>Paper positions are the net of the recorded fills: after any deliveries to an empty book, when
  the fill prices are multiples of 0.00000001 and the total cost stays within 28 digits of it, asking for
  an account's positions succeeds and returns, sorted by instrument and without duplicates, exactly the
  instruments whose signed fills do not cancel out, each labelled PAPER with the exact net quantity
  and an average price between its cheapest and its dearest fill.\<close>

theorem paper_positions_net:
  fixes ms :: "paper_delivery list" and uuid5 :: uuid5_fun
  defines "b \<equiv> foldl (\<lambda>b m. snd (deliver_order uuid5 b m)) empty_book ms"
  assumes "\<forall>f\<in>set (pb_fills b). on_price_grid f" "(\<Sum>f\<leftarrow>pb_fills b. price_units f * fill_units f) < prec_limit"
    and "tz_aware t"
  shows "\<exists>ps. book_positions (Some t) b account = Inr ps \<and> sorted (map pq_instrument_id ps) \<and> distinct (map pq_instrument_id ps) \<and>
    set (map pq_instrument_id ps) = {ins. net_units b account ins \<noteq> 0} \<and>
    (\<forall>p\<in>set ps. pq_broker_account_id p = account \<and> position_reflects (fills_of b account (pq_instrument_id p)) p)"
proof -
  have "trail_ok (pb_fills b)"
    using delivered_trail_ok [of empty_book uuid5 ms] by (simp add: b_def paper_feed.deliver_all_def empty_book_def trail_ok_def)
  then have "trail_exact (pb_fills b)" using assms(2,3) by (simp add: trail_exact_def cost_units_def)
  then have ex: "trail_exact (fills_of b account ins)" for ins unfolding fills_of_def by (rule trail_exact_filter)
  obtain ps where ps: "positions_loop account t b (traded_instruments b account) = Inr ps"
    "map pq_instrument_id ps = filter (\<lambda>ins. net_units b account ins \<noteq> 0) (traded_instruments b account)"
    "\<forall>p\<in>set ps. pq_broker_account_id p = account \<and> position_reflects (fills_of b account (pq_instrument_id p)) p"
    using positions_loop_reflects [OF _ assms(4), of "traded_instruments b account" b account] ex traded_instruments_fills by blast
  have "net_units b account ins \<noteq> 0 \<Longrightarrow> ins \<in> set (traded_instruments b account)" for ins
    by (auto simp: traded_instruments_fills net_units_def)
  then have "set (map pq_instrument_id ps) = {ins. net_units b account ins \<noteq> 0}" unfolding ps(2) by auto
  moreover have "sorted (map pq_instrument_id ps)" "distinct (map pq_instrument_id ps)"
    unfolding ps(2) by (simp_all add: traded_instruments_def sorted_wrt_filter)
  moreover have "book_positions (Some t) b account = Inr ps" using ps(1) assms(4) by (simp add: book_positions_def now_from_def)
  ultimately show ?thesis using ps(3) by blast
qed

theorem paper_positions_net_witness:
  "\<exists>ps. book_positions (Some (utc 3)) (foldl (\<lambda>b m. snd (deliver_order sample_uuid5 b m)) empty_book
       [(Some (utc 1), Some sample_reference, sample_paper_request)]) 6 = Inr ps \<and> set (map pq_instrument_id ps) = {5}"
proof -
  let ?b = "foldl (\<lambda>b m. snd (deliver_order sample_uuid5 b m)) empty_book [(Some (utc 1), Some sample_reference, sample_paper_request)]"
  have fills: "pb_fills ?b = [paper_fill 0 sample_paper_request 9 (utc 1) (Dec 1001 (-1))]"
    by (simp add: deliver_order_def sample_submit) (simp add: filled_book_def book_record_def empty_book_def)
  have u: "price_units (paper_fill 0 sample_paper_request 9 (utc 1) (Dec 1001 (-1))) = 10010000000"
    "fill_units (paper_fill 0 sample_paper_request 9 (utc 1) (Dec 1001 (-1))) = 10"
    by (simp_all add: price_units_def fill_units_def paper_fill_def qcoeff_def rescaled_def sample_paper_request_def)
  have "\<exists>ps. book_positions (Some (utc 3)) ?b 6 = Inr ps \<and> sorted (map pq_instrument_id ps) \<and> distinct (map pq_instrument_id ps) \<and>
    set (map pq_instrument_id ps) = {ins. net_units ?b 6 ins \<noteq> 0} \<and>
    (\<forall>p\<in>set ps. pq_broker_account_id p = 6 \<and> position_reflects (fills_of ?b 6 (pq_instrument_id p)) p)"
    by (rule paper_positions_net) (simp_all only: fills, simp_all add: u on_price_grid_def, simp add: paper_fill_def dval_def power_int_def)
  moreover have "{ins. net_units ?b 6 ins \<noteq> 0} = {5}"
    unfolding net_units_def fills_of_def fills using u(2)
    by (auto simp: signed_units_def) (simp_all add: paper_fill_def sample_paper_request_def split: if_splits)
  ultimately show ?thesis by auto
qed

end
