(* ===== verification/Service_Kit.thy ===== *)
theory Service_Kit
  imports Prelude
begin

text \<open>
  What the signal, risk and trading services share: Python's \<^verbatim>\<open>OrderedDict\<close> used as a bounded cache, the insertion of
  a row under unique constraints while other processes write the same table, comparison of
  \<^verbatim>\<open>datetime\<close> values, and the contract \<open>publish_once\<close> of a service that commits a row before it tells its
  consumers.
\<close>

section \<open>Ordered dictionaries\<close>

text \<open>An \<^verbatim>\<open>OrderedDict\<close> is its list of items, the oldest first; the keys are distinct.\<close>

type_synonym ('k, 'v) odict = "('k \<times> 'v) list"

definition od_pop :: "'k \<Rightarrow> ('k, 'v) odict \<Rightarrow> ('k, 'v) odict" where
  "od_pop k d = filter (\<lambda>e. fst e \<noteq> k) d"

definition od_set :: "'k \<Rightarrow> 'v \<Rightarrow> ('k, 'v) odict \<Rightarrow> ('k, 'v) odict" where
  "od_set k v d = (if k \<in> fst ` set d then map (\<lambda>e. if fst e = k then (k, v) else e) d else d @ [(k, v)])"

definition move_to_end :: "'k \<Rightarrow> ('k, 'v) odict \<Rightarrow> ('k, 'v) odict" where
  "move_to_end k d = (case map_of d k of None \<Rightarrow> d | Some v \<Rightarrow> od_pop k d @ [(k, v)])"

definition od_ok :: "('k, 'v) odict \<Rightarrow> bool" where
  "od_ok d \<longleftrightarrow> distinct (map fst d)"

lemma od_ok_Nil [simp]: "od_ok []"
  by (simp add: od_ok_def)

lemma map_of_od_pop [simp]: "map_of (od_pop k d) j = (if j = k then None else map_of d j)"
  by (induction d) (auto simp: od_pop_def)

lemma map_of_replace:
  "map_of (map (\<lambda>e. if fst e = k then (k, v) else e) d) j =
     (if j = k then (if k \<in> fst ` set d then Some v else None) else map_of d j)"
  by (induction d) (auto simp: rev_image_eqI)

lemma map_of_od_set [simp]: "map_of (od_set k v d) j = (if j = k then Some v else map_of d j)"
  using map_of_eq_None_iff [of d k] by (auto simp: od_set_def map_of_replace map_add_def split: option.split)

lemma map_of_move_to_end [simp]: "map_of (move_to_end k d) j = map_of d j"
proof (cases "map_of d k")
  case (Some v)
  then show ?thesis by (cases "map_of d j") (auto simp: move_to_end_def map_add_def)
qed (simp add: move_to_end_def)

lemma od_ok_pop [simp]: "od_ok d \<Longrightarrow> od_ok (od_pop k d)"
  unfolding od_ok_def od_pop_def by (induction d) auto

lemma map_fst_od_set: "map fst (od_set k v d) = (if k \<in> fst ` set d then map fst d else map fst d @ [k])"
  by (auto simp: od_set_def)

lemma od_ok_set [simp]: "od_ok d \<Longrightarrow> od_ok (od_set k v d)"
  by (auto simp: od_ok_def map_fst_od_set)

lemma od_ok_move [simp]: "od_ok d \<Longrightarrow> od_ok (move_to_end k d)"
  using od_ok_pop [of d k] unfolding od_ok_def move_to_end_def by (auto simp: od_pop_def split: option.split)

text \<open>The loop \<^verbatim>\<open>while len(d) > capacity: d.popitem(last=False)\<close>, with the keys removed from a second
  dictionary on the way.\<close>

fun evict :: "nat \<Rightarrow> ('k, 'v) odict \<Rightarrow> ('k, 'w) odict \<Rightarrow> ('k, 'v) odict \<times> ('k, 'w) odict" where
  "evict cap [] other = ([], other)"
| "evict cap (e # d) other = (if cap < Suc (length d) then evict cap d (od_pop (fst e) other) else (e # d, other))"

lemma evict_drop: "fst (evict cap d other) = drop (length d - cap) d"
  by (induction cap d other rule: evict.induct) (auto simp: Suc_diff_le)

lemma evict_bounded: "length (fst (evict cap d other)) \<le> cap"
  by (simp add: evict_drop)

lemma od_ok_drop: "od_ok d \<Longrightarrow> od_ok (drop n d)"
  by (auto simp: od_ok_def drop_map [symmetric])

lemma map_of_drop:
  assumes "od_ok d" "map_of (drop n d) k = Some v"
  shows "map_of d k = Some v"
proof -
  have "(k, v) \<in> set d" using assms(2) by (blast dest: map_of_SomeD in_set_dropD)
  then show ?thesis using assms(1) by (simp add: od_ok_def)
qed

lemma od_ok_evict: "od_ok d \<Longrightarrow> od_ok (fst (evict cap d other))"
  by (simp add: evict_drop od_ok_drop)

lemma map_of_evict: "od_ok d \<Longrightarrow> map_of (fst (evict cap d other)) k = Some v \<Longrightarrow> map_of d k = Some v"
  unfolding evict_drop by (rule map_of_drop)

section \<open>Recently seen keys\<close>

text \<open>A bounded memory of keys: a key that is known moves to the end, a new one is added and, beyond the limit, the
  oldest is dropped.\<close>

definition seen_before :: "nat option \<Rightarrow> 'k \<Rightarrow> ('k, unit) odict \<Rightarrow> bool \<times> ('k, unit) odict" where
  "seen_before maxsize k seen =
     (if map_of seen k \<noteq> None then (True, move_to_end k seen)
      else let seen' = od_set k () seen in
           (False, case maxsize of None \<Rightarrow> seen' | Some n \<Rightarrow> if n < length seen' then drop 1 seen' else seen'))"

definition keys_of :: "('k, 'v) odict \<Rightarrow> 'k set" where
  "keys_of d = fst ` set d"

lemma keys_of_iff: "k \<in> keys_of d \<longleftrightarrow> map_of d k \<noteq> None"
  by (simp add: keys_of_def map_of_eq_None_iff)

lemma keys_of_Nil [simp]: "keys_of [] = {}"
  by (simp add: keys_of_def)

lemma length_keys_of: "od_ok d \<Longrightarrow> length d = card (keys_of d)"
  using distinct_card [of "map fst d"] by (simp add: od_ok_def keys_of_def)

lemma finite_keys_of [simp]: "finite (keys_of d)"
  by (simp add: keys_of_def)

text \<open>While there is room, a key counts as seen exactly when it was, and afterwards it is known.\<close>

lemma seen_before_spec:
  assumes "od_ok seen" "seen_before maxsize k seen = (dup, seen')"
    and "dup \<or> pred_option (\<lambda>n. length seen < n) maxsize"
  shows "od_ok seen' \<and> dup = (k \<in> keys_of seen) \<and> keys_of seen' = insert k (keys_of seen)"
proof -
  have keys: "keys_of (move_to_end k seen) = keys_of seen" "keys_of (od_set k () seen) = insert k (keys_of seen)"
    by (auto simp: keys_of_iff set_eq_iff)
  have "length (od_set k () seen) \<le> Suc (length seen)"
    using length_keys_of [of "od_set k () seen"] length_keys_of [OF assms(1)] assms(1) keys(2)
    by (simp add: card_insert_if)
  then show ?thesis
    using assms keys by (auto simp: seen_before_def Let_def keys_of_iff split: if_splits option.splits)
qed

section \<open>Tables with unique constraints\<close>

text \<open>\<open>clash q r\<close> says that two rows violate a unique constraint, \<open>ok r\<close> that the row meets the
  foreign keys.  A failed insert is \<open>None\<close>.\<close>

definition insert_row :: "('r \<Rightarrow> 'r \<Rightarrow> bool) \<Rightarrow> ('r \<Rightarrow> bool) \<Rightarrow> 'r list \<Rightarrow> 'r \<Rightarrow> 'r list option" where
  "insert_row clash ok t r = (if ok r \<and> list_all (\<lambda>q. \<not> clash q r) t then Some (t @ [r]) else None)"

text \<open>A nullable unique column: two rows clash when both have the value.\<close>

definition both_have :: "'a option \<Rightarrow> 'a option \<Rightarrow> bool" where
  "both_have a b \<longleftrightarrow> a \<noteq> None \<and> a = b"

lemma both_have_simps [simp]: "both_have (Some a) b \<longleftrightarrow> b = Some a" "\<not> both_have None b" "\<not> both_have a None"
  by (auto simp: both_have_def)

text \<open>Rows that other processes commit in the meantime, each under the same constraints.\<close>

definition commit_others :: "('r \<Rightarrow> 'r \<Rightarrow> bool) \<Rightarrow> ('r \<Rightarrow> bool) \<Rightarrow> 'r list \<Rightarrow> 'r list \<Rightarrow> 'r list" where
  "commit_others clash ok = foldl (\<lambda>t r. case insert_row clash ok t r of None \<Rightarrow> t | Some t' \<Rightarrow> t')"

lemma commit_others_Nil [simp]: "commit_others clash ok t [] = t"
  by (simp add: commit_others_def)

lemma insert_row_SomeD:
  "insert_row clash ok t r = Some t' \<Longrightarrow> t' = t @ [r] \<and> ok r \<and> (\<forall>q\<in>set t. \<not> clash q r)"
  by (auto simp: insert_row_def list_all_iff split: if_splits)

lemma commit_others_grows: "\<exists>new. commit_others clash ok t rs = t @ new"
proof (induction rs arbitrary: t)
  case (Cons r rs)
  then obtain new where new: "commit_others clash ok (t @ [r]) rs = (t @ [r]) @ new" by blast
  show ?case using Cons [of t] new by (cases "insert_row clash ok t r") (auto simp: commit_others_def dest: insert_row_SomeD)
qed (simp add: commit_others_def)

lemma commit_others_subset: "set t \<subseteq> set (commit_others clash ok t rs)"
  using commit_others_grows [of clash ok t rs] by auto

lemma insert_row_distinct:
  assumes "insert_row clash ok t r = Some t'" "distinct (map key t)" "\<And>q. key q = key r \<Longrightarrow> clash q r"
  shows "distinct (map key t')"
  using insert_row_SomeD [OF assms(1)] assms(2,3) by fastforce

lemma commit_others_distinct:
  assumes "distinct (map key t)" "\<And>q r. key q = key r \<Longrightarrow> clash q r"
  shows "distinct (map key (commit_others clash ok t rs))"
  using assms(1)
proof (induction rs arbitrary: t)
  case (Cons r rs)
  then show ?case using insert_row_distinct [OF _ Cons.prems assms(2)]
    by (cases "insert_row clash ok t r") (auto simp: commit_others_def)
qed (simp add: commit_others_def)

text \<open>With distinct keys the lookup by key finds the row.\<close>

lemma first_row_key:
  assumes "distinct (map key t)" "r \<in> set t"
  shows "first_row (\<lambda>q. key q = key r) t = Some r"
  using assms by (induction t) (auto simp: image_iff)

text \<open>The repositories' \<^verbatim>\<open>persist\<close>: look the key up, then insert and commit.  Access 0 of the database is the lookup,
  access 1 the commit.  \<open>None\<close> when it raises, otherwise whether the row was inserted, and the id of the stored row.\<close>

definition find_or_insert ::
  "('r \<Rightarrow> 'r \<Rightarrow> bool) \<Rightarrow> ('r \<Rightarrow> bool) \<Rightarrow> ('r \<Rightarrow> 'k) \<Rightarrow> ('r \<Rightarrow> uuid) \<Rightarrow> (nat \<Rightarrow> bool) \<Rightarrow> 'r list \<Rightarrow> 'r list \<Rightarrow> 'r
   \<Rightarrow> (bool \<times> uuid) option \<times> 'r list" where
  "find_or_insert clash ok key row_id fail others t r =
     (if fail 0 then (None, t)
      else case first_row (\<lambda>q. key q = key r) t of
        Some q \<Rightarrow> (Some (False, row_id q), t)
      | None \<Rightarrow>
          let t' = commit_others clash ok t others in
          if fail 1 then (None, t')
          else case insert_row clash ok t' r of
            None \<Rightarrow> (None, t')
          | Some t'' \<Rightarrow> (Some (True, row_id r), t''))"

lemma find_or_insert_grows:
  obtains new where "snd (find_or_insert clash ok key row_id fail others t r) = t @ new"
    "\<And>i. fst (find_or_insert clash ok key row_id fail others t r) = Some (True, i) \<Longrightarrow>
      r \<in> set new \<and> key r \<notin> set (map key t) \<and> (\<forall>q\<in>set t. \<not> clash q r)"
proof -
  obtain more where more: "commit_others clash ok t others = t @ more" using commit_others_grows by blast
  show thesis
  proof (cases "fail 0 \<or> first_row (\<lambda>q. key q = key r) t \<noteq> None")
    case True
    then show thesis by (intro that [of "[]"]) (auto simp: find_or_insert_def split: if_splits)
  next
    case looked: False
    show thesis
    proof (cases "fail 1 \<or> insert_row clash ok (t @ more) r = None")
      case True
      then show thesis using looked by (intro that [of more]) (auto simp: find_or_insert_def more Let_def split: if_splits)
    next
      case False
      then obtain t'' where t'': "insert_row clash ok (t @ more) r = Some t''" by auto
      have "key r \<notin> set (map key t)" using looked by (auto simp: first_row_None_iff)
      then show thesis using looked False t'' insert_row_SomeD [OF t'']
        by (intro that [of "more @ [r]"]) (simp_all add: find_or_insert_def more)
    qed
  qed
qed

section \<open>Instants\<close>

text \<open>\<^verbatim>\<open>a > b\<close> and \<^verbatim>\<open>a - b\<close> raise \<^verbatim>\<open>TypeError\<close> when one value is naive and the other aware.\<close>

definition datetime_gt :: "datetime \<Rightarrow> datetime \<Rightarrow> bool option" where
  "datetime_gt a b = (if tz_aware a = tz_aware b then Some (instant b < instant a) else None)"

definition datetime_diff :: "datetime \<Rightarrow> datetime \<Rightarrow> int option" where
  "datetime_diff a b = (if tz_aware a = tz_aware b then Some (instant a - instant b) else None)"

definition plus_delta :: "datetime \<Rightarrow> int \<Rightarrow> datetime" where
  "plus_delta d n = Datetime (instant d + n) (utcoffset d)"

lemma plus_delta_simps [simp]: "instant (plus_delta d n) = instant d + n" "tz_aware (plus_delta d n) = tz_aware d"
  by (simp_all add: plus_delta_def tz_aware_def)

section \<open>Commit before publication\<close>

text \<open>The contract of a service that stores a row and only then publishes: \<open>keys\<close> are the keys of the durable
  rows and \<open>sent\<close> the publications so far.  A call publishes at most one item, only when its key
  was not stored before the call, and the key is stored after it; keys are never forgotten.\<close>

locale publish_once =
  fixes step :: "'st \<Rightarrow> 'c \<Rightarrow> 'st"
    and keys :: "'st \<Rightarrow> 'k set"
    and sent :: "'st \<Rightarrow> 'p list"
    and key_of :: "'p \<Rightarrow> 'k"
    and ready :: "'st \<Rightarrow> bool"
  assumes keys_kept: "ready st \<Longrightarrow> keys st \<subseteq> keys (step st c)"
    and publishes: "ready st \<Longrightarrow> sent (step st c) = sent st \<or>
      (\<exists>p. sent (step st c) = sent st @ [p] \<and> key_of p \<notin> keys st \<and> key_of p \<in> keys (step st c))"
    and ready_kept: "ready st \<Longrightarrow> ready (step st c)"
begin

definition published_ok :: "'st \<Rightarrow> bool" where
  "published_ok st \<longleftrightarrow> distinct (map key_of (sent st)) \<and> key_of ` set (sent st) \<subseteq> keys st"

lemma published_step: "ready st \<Longrightarrow> published_ok st \<Longrightarrow> published_ok (step st c)"
  using publishes [of st c] keys_kept [of st c] unfolding published_ok_def by fastforce

lemma ready_run: "ready st \<Longrightarrow> ready (foldl step st cs)"
  by (induction cs arbitrary: st) (simp_all add: ready_kept)

lemma published_run: "ready st \<Longrightarrow> published_ok st \<Longrightarrow> published_ok (foldl step st cs)"
  by (induction cs arbitrary: st) (simp_all add: published_step ready_kept)

lemma published_from_start:
  assumes "ready st" "sent st = []"
  shows "distinct (map key_of (sent (foldl step st cs))) \<and> key_of ` set (sent (foldl step st cs)) \<subseteq> keys (foldl step st cs)"
  using published_run [OF assms(1), of cs] assms(2) by (simp add: published_ok_def)

lemma keys_kept_run: "ready st \<Longrightarrow> keys st \<subseteq> keys (foldl step st cs)"
proof (induction cs arbitrary: st)
  case (Cons c cs)
  then show ?case using keys_kept [of st c] ready_kept [of st c] by fastforce
qed simp

end

end
