(* ===== verification/Signal_Contract.thy ===== *)
theory Signal_Contract
  imports Decimal_Text Service_Kit
begin

text \<open>
  The signal contract (\<^verbatim>\<open>packages/contracts/alpha_algo_contracts/signals.py\<close>) and the deterministic identity of
  a signal (\<^verbatim>\<open>services/signal_engine/alpha_algo_signal_engine/identity.py\<close>), which the signal, risk and trading
  engines share.

  The text a hash is taken over is built as the code builds it, with \<^verbatim>\<open>isoformat\<close>, \<^verbatim>\<open>str\<close> and \<^verbatim>\<open>repr\<close> modelled below.
  SHA-256, the JSON text of free-form metadata and \<^verbatim>\<open>datetime.fromisoformat\<close> are the parameters of
  \<open>py_env\<close>.
\<close>

section \<open>Python text\<close>

definition zero_pad :: "nat \<Rightarrow> int \<Rightarrow> string" where
  "zero_pad k n = (let s = nat_str (nat n) in replicate (k - length s) (CHR ''0'') @ s)"

text \<open>The calendar date of a day counted from 1970-01-01, in the proleptic Gregorian calendar.\<close>

definition civil_date :: "int \<Rightarrow> int \<times> int \<times> int" where
  "civil_date days =
     (let z = days + 719468; era = z div 146097; doe = z mod 146097;
          yoe = (doe - doe div 1460 + doe div 36524 - doe div 146096) div 365;
          doy = doe - (365 * yoe + yoe div 4 - yoe div 100);
          mp = (5 * doy + 2) div 153;
          d = doy - (153 * mp + 2) div 5 + 1;
          m = (if mp < 10 then mp + 3 else mp - 9) in
      (yoe + era * 400 + (if m \<le> 2 then 1 else 0), m, d))"

definition offset_text :: "int option \<Rightarrow> string" where
  "offset_text off = (case off of None \<Rightarrow> [] | Some m \<Rightarrow>
     (if m < 0 then ''-'' else ''+'') @ zero_pad 2 (\<bar>m\<bar> div 60) @ '':'' @ zero_pad 2 (\<bar>m\<bar> mod 60))"

definition isoformat_sep :: "string \<Rightarrow> datetime \<Rightarrow> string" where
  "isoformat_sep sep t =
     (let local = instant t + (case utcoffset t of None \<Rightarrow> 0 | Some m \<Rightarrow> m * 60000000);
          us = local mod 1000000; s = local div 1000000 mod 86400;
          (y, m, d) = civil_date (local div 86400000000) in
      zero_pad 4 y @ ''-'' @ zero_pad 2 m @ ''-'' @ zero_pad 2 d @ sep @
      zero_pad 2 (s div 3600) @ '':'' @ zero_pad 2 (s div 60 mod 60) @ '':'' @ zero_pad 2 (s mod 60) @
      (if us = 0 then [] else ''.'' @ zero_pad 6 us) @ offset_text (utcoffset t))"

definition isoformat :: "datetime \<Rightarrow> string" where
  "isoformat = isoformat_sep ''T''"

text \<open>\<^verbatim>\<open>str(value)\<close> of the values metadata holds.\<close>

fun py_str :: "pyval \<Rightarrow> string" where
  "py_str PNone = ''None''"
| "py_str (PStr s) = s"
| "py_str (PInt n) = int_str n"
| "py_str (PUuid u) = uuid_str u"
| "py_str (PTime t) = isoformat_sep '' '' t"
| "py_str (PDec d) = decimal_str d"

text \<open>\<^verbatim>\<open>repr\<close> of a string of characters below 256.\<close>

definition repr_char :: "char \<Rightarrow> char \<Rightarrow> string" where
  "repr_char quote c =
     (let n = of_char c :: nat in
      if c = quote \<or> c = CHR 0x5C then [CHR 0x5C, c]
      else if n = 9 then [CHR 0x5C, CHR ''t''] else if n = 10 then [CHR 0x5C, CHR ''n''] else if n = 13 then [CHR 0x5C, CHR ''r'']
      else if n < 32 \<or> 127 \<le> n \<and> n \<le> 160 \<or> n = 173 then [CHR 0x5C, CHR ''x''] @ hex_fixed 2 n
      else [c])"

definition py_repr :: "string \<Rightarrow> string" where
  "py_repr s =
     (let quote = (if CHR 0x27 \<in> set s \<and> CHR 0x22 \<notin> set s then CHR 0x22 else CHR 0x27) in
      quote # concat (map (repr_char quote) s) @ [quote])"

record py_env =
  py_sha256 :: "string \<Rightarrow> string"
  py_digest :: digest
  py_fromisoformat :: "string \<Rightarrow> datetime option"
  py_json :: "metadata \<Rightarrow> string"

section \<open>Signals\<close>

datatype signal_action = ACT_BUY | ACT_SELL | ACT_EXIT | ACT_HOLD

fun action_value :: "signal_action \<Rightarrow> string" where
  "action_value ACT_BUY = ''BUY''"
| "action_value ACT_SELL = ''SELL''"
| "action_value ACT_EXIT = ''EXIT''"
| "action_value ACT_HOLD = ''HOLD''"

record strategy_signal =
  ss_signal_id :: uuid
  ss_strategy_id :: uuid
  ss_strategy_version :: string
  ss_strategy_config_hash :: string
  ss_instrument_id :: uuid
  ss_action :: signal_action
  ss_timestamp :: datetime
  ss_confidence :: decimal
  ss_reason :: string
  ss_metadata :: metadata

text \<open>The field constraints and validators of the pydantic model \<^verbatim>\<open>StrategySignal\<close>.\<close>

definition text_field :: "nat \<Rightarrow> string \<Rightarrow> bool" where
  "text_field n t \<longleftrightarrow> 1 \<le> length t \<and> length t \<le> n \<and> \<not> blank t"

definition signal_valid :: "strategy_signal \<Rightarrow> bool" where
  "signal_valid s \<longleftrightarrow>
     text_field 64 (ss_strategy_version s) \<and> text_field 128 (ss_strategy_config_hash s) \<and> text_field 500 (ss_reason s) \<and>
     0 \<le> ss_confidence s \<and> ss_confidence s \<le> 1 \<and> tz_aware (ss_timestamp s)"

definition audit_key :: "strategy_signal \<Rightarrow> string" where
  "audit_key s = join '':'' [uuid_str (ss_strategy_id s), ss_strategy_version s, ss_strategy_config_hash s, uuid_str (ss_signal_id s)]"

record strategy_version =
  sr_strategy_id :: uuid
  sr_version :: string
  sr_config_hash :: string
  sr_code_hash :: "string option"
  sr_created_at :: datetime

definition strategy_version_valid :: "strategy_version \<Rightarrow> bool" where
  "strategy_version_valid v \<longleftrightarrow>
     text_field 64 (sr_version v) \<and> text_field 128 (sr_config_hash v) \<and>
     (case sr_code_hash v of None \<Rightarrow> True | Some h \<Rightarrow> text_field 128 h) \<and> tz_aware (sr_created_at v)"

section \<open>Signal identity\<close>

text \<open>\<^verbatim>\<open>event_timestamp\<close> raises \<^verbatim>\<open>ValueError\<close>, here \<open>None\<close>, on text that is no ISO date.\<close>

definition event_timestamp :: "py_env \<Rightarrow> strategy_signal \<Rightarrow> datetime option" where
  "event_timestamp env s =
     (case ss_metadata s ''event_timestamp'' of
        None \<Rightarrow> Some (ss_timestamp s)
      | Some PNone \<Rightarrow> Some (ss_timestamp s)
      | Some (PTime t) \<Rightarrow> Some t
      | Some v \<Rightarrow> py_fromisoformat env (py_str v))"

definition signal_identity_text :: "strategy_signal \<Rightarrow> datetime \<Rightarrow> string" where
  "signal_identity_text s t =
     join ''|'' [uuid_str (ss_strategy_id s), ss_strategy_version s, ss_strategy_config_hash s,
       uuid_str (ss_instrument_id s), action_value (ss_action s), isoformat t]"

definition compute_signal_identity_key :: "py_env \<Rightarrow> strategy_signal \<Rightarrow> string option" where
  "compute_signal_identity_key env s =
     map_option (\<lambda>t. py_sha256 env (signal_identity_text s t)) (event_timestamp env s)"

definition compute_signal_content_hash :: "py_env \<Rightarrow> strategy_signal \<Rightarrow> string option" where
  "compute_signal_content_hash env s =
     map_option (\<lambda>t. py_digest env
       [(''confidence'', PStr (decimal_str (ss_confidence s))), (''reason'', PStr (ss_reason s)),
        (''timestamp'', PStr (isoformat t)), (''metadata'', PStr (py_json env (ss_metadata s)))]) (event_timestamp env s)"

definition metadata_text :: "string \<Rightarrow> strategy_signal \<Rightarrow> string option" where
  "metadata_text k s = (case ss_metadata s k of None \<Rightarrow> None | Some PNone \<Rightarrow> None | Some v \<Rightarrow> Some (py_str v))"

definition code_hash_from :: "strategy_signal \<Rightarrow> string option" where
  "code_hash_from = metadata_text ''strategy_code_hash''"

definition run_id_from :: "strategy_signal \<Rightarrow> string option" where
  "run_id_from = metadata_text ''strategy_run_id''"

definition parse_run_id :: "strategy_signal \<Rightarrow> uuid option" where
  "parse_run_id s = (case run_id_from s of None \<Rightarrow> None | Some t \<Rightarrow> uuid_parse t)"

lemma identity_key_Some_iff: "(\<exists>k. compute_signal_identity_key env s = Some k) \<longleftrightarrow> event_timestamp env s \<noteq> None"
  "(\<exists>h. compute_signal_content_hash env s = Some h) \<longleftrightarrow> event_timestamp env s \<noteq> None"
  by (auto simp: compute_signal_identity_key_def compute_signal_content_hash_def)

lemma upper_PAPER [simp]: "upper ''PAPER'' = ''PAPER''" and upper_paper [simp]: "upper ''paper'' = ''PAPER''"
  by code_simp+

definition sample_signal :: strategy_signal where
  "sample_signal = \<lparr>ss_signal_id = 21, ss_strategy_id = 22, ss_strategy_version = ''1'', ss_strategy_config_hash = ''cfg'',
     ss_instrument_id = 5, ss_action = ACT_BUY, ss_timestamp = utc 0, ss_confidence = Dec 5 (-1), ss_reason = ''cross'',
     ss_metadata = Map.empty\<rparr>"

lemma sample_signal_simps [simp]:
  "ss_signal_id sample_signal = 21" "ss_strategy_id sample_signal = 22" "ss_strategy_version sample_signal = ''1''"
  "ss_strategy_config_hash sample_signal = ''cfg''" "ss_instrument_id sample_signal = 5" "ss_action sample_signal = ACT_BUY"
  "ss_timestamp sample_signal = utc 0" "ss_confidence sample_signal = Dec 5 (-1)" "ss_metadata sample_signal = Map.empty"
  by (simp_all add: sample_signal_def)

text \<open>The identity joins its fields with a separator that the version and the configuration hash may contain, so two
  different strategy versions can have signals with the same identity.\<close>

theorem signal_identity_ambiguous:
  "\<exists>s s'. signal_valid s \<and> signal_valid s' \<and> ss_strategy_version s \<noteq> ss_strategy_version s' \<and>
     compute_signal_identity_key env s = compute_signal_identity_key env s'"
proof -
  define s where "s = sample_signal\<lparr>ss_strategy_version := ''1'', ss_strategy_config_hash := ''a|b''\<rparr>"
  define s' where "s' = sample_signal\<lparr>ss_strategy_version := ''1|a'', ss_strategy_config_hash := ''b''\<rparr>"
  have "event_timestamp env s = event_timestamp env s'" "\<And>t. signal_identity_text s t = signal_identity_text s' t"
    by (simp_all add: event_timestamp_def signal_identity_text_def s_def s'_def sample_signal_def)
  then have "compute_signal_identity_key env s = compute_signal_identity_key env s'"
    by (simp add: compute_signal_identity_key_def)
  moreover have "signal_valid s" "signal_valid s'" "ss_strategy_version s \<noteq> ss_strategy_version s'"
    by (simp_all add: s_def s'_def sample_signal_def signal_valid_def text_field_def blank_def is_space_def decimal_order dval_def
        zero_decimal_def one_decimal_def)
  ultimately show ?thesis by blast
qed

end
