(* ===== verification/Paper_Runtime.thy ===== *)
theory Paper_Runtime
  imports Paper_Broker Signal_Contract
begin

text \<open>
  The paper trading runtime (\<^verbatim>\<open>services/paper_trading/alpha_algo_paper_runtime\<close>): the cost model
  (\<^verbatim>\<open>costs.py\<close>), the account (\<^verbatim>\<open>account.py\<close>), the cash ledger (\<^verbatim>\<open>funds.py\<close>), the routing of trading modes
  (\<^verbatim>\<open>routing.py\<close>), run identity (\<^verbatim>\<open>run.py\<close>), the tables (\<^verbatim>\<open>repository.py\<close> over
  \<^verbatim>\<open>db/models/paper.py\<close>) and the service that drives the paper broker (\<^verbatim>\<open>service.py\<close>).

  \<^verbatim>\<open>uuid5\<close>, \<^verbatim>\<open>uuid4\<close> and SHA-256 are parameters.  So is what a \<^verbatim>\<open>Numeric(20, 4)\<close> column reads back for a value
  written to it: \<open>None\<close> is a write that the database refuses, an outage included.  The clock of the
  service is the sequence of its readings during one call.
\<close>

section \<open>The cost model\<close>

datatype runtime_error =
    FromBroker paper_error
  | RtValueError string
  | RtInvalidOperation
  | DatabaseError
  | UnknownTradingModeError "string option"
  | LiveTradingDisabledError
  | TradingHaltedError

datatype slippage_model = ZERO_SLIPPAGE | FIXED_BPS
datatype commission_model = ZERO_COMMISSION | FIXED_PER_TRADE

record paper_cost_model =
  cm_slippage :: slippage_model
  cm_slippage_bps :: decimal
  cm_commission :: commission_model
  cm_commission_per_trade :: decimal

text \<open>\<^verbatim>\<open>PaperCostModel.__post_init__\<close>\<close>

definition mk_cost_model :: "paper_cost_model \<Rightarrow> (runtime_error, paper_cost_model) result" where
  "mk_cost_model m =
     (if cm_slippage_bps m < 0 then Inl (RtValueError ''slippage_bps cannot be negative'')
      else if cm_commission_per_trade m < 0 then Inl (RtValueError ''commission_per_trade cannot be negative'')
      else if cm_slippage m = ZERO_SLIPPAGE \<and> \<not> deq (cm_slippage_bps m) 0
      then Inl (RtValueError ''ZERO slippage model cannot carry a non-zero bps'')
      else if cm_commission m = ZERO_COMMISSION \<and> \<not> deq (cm_commission_per_trade m) 0
      then Inl (RtValueError ''ZERO commission model cannot carry a non-zero per-trade fee'')
      else Inr m)"

definition default_cost_model :: paper_cost_model where
  "default_cost_model = \<lparr>cm_slippage = ZERO_SLIPPAGE, cm_slippage_bps = 0, cm_commission = ZERO_COMMISSION,
     cm_commission_per_trade = 0\<rparr>"

fun slippage_value :: "slippage_model \<Rightarrow> string" where
  "slippage_value ZERO_SLIPPAGE = ''ZERO''"
| "slippage_value FIXED_BPS = ''FIXED_BPS''"

fun commission_value :: "commission_model \<Rightarrow> string" where
  "commission_value ZERO_COMMISSION = ''ZERO''"
| "commission_value FIXED_PER_TRADE = ''FIXED_PER_TRADE''"

definition as_config :: "paper_cost_model \<Rightarrow> (string, string) odict" where
  "as_config m = [(''slippage'', slippage_value (cm_slippage m)), (''slippage_bps'', decimal_str (cm_slippage_bps m)),
     (''commission'', commission_value (cm_commission m)),
     (''commission_per_trade'', decimal_str (cm_commission_per_trade m))]"

definition apply_slippage :: "decimal \<Rightarrow> order_side \<Rightarrow> paper_cost_model \<Rightarrow> (runtime_error, decimal) result" where
  "apply_slippage price side m =
     (if cm_slippage m = ZERO_SLIPPAGE then Inr price
      else rbind (of_opt RtInvalidOperation (ddiv (cm_slippage_bps m) (Dec 10000 0))) (\<lambda>share.
        let factor = (case side of BUY \<Rightarrow> 1 + share | SELL \<Rightarrow> 1 - share)
        in of_opt RtInvalidOperation (quantize (-4) (price * factor))))"

definition commission_amount :: "decimal \<Rightarrow> paper_cost_model \<Rightarrow> (runtime_error, decimal) result" where
  "commission_amount notional m =
     (if cm_commission m = ZERO_COMMISSION then Inr 0
      else of_opt RtInvalidOperation (quantize (-2) (cm_commission_per_trade m)))"

section \<open>The account, the run and the routing of modes\<close>

datatype paper_account_status = PA_ACTIVE | PA_SUSPENDED | PA_RESET
datatype paper_run_status = PR_ACTIVE | PR_COMPLETED | PR_RESET

record paper_account =
  pac_account_id :: uuid
  pac_paper_run_id :: uuid
  pac_trading_mode :: trading_mode
  pac_starting_capital :: decimal
  pac_status :: paper_account_status
  pac_created_at :: datetime
  pac_reset_at :: "datetime option"

text \<open>\<^verbatim>\<open>PaperAccount.__post_init__\<close>\<close>

definition mk_account :: "paper_account \<Rightarrow> (runtime_error, paper_account) result" where
  "mk_account a =
     (if pac_trading_mode a \<noteq> PAPER then Inl (RtValueError ''paper accounts must use TradingMode.PAPER'')
      else if pac_starting_capital a \<le> 0 then Inl (RtValueError ''starting_capital must be positive'')
      else if \<not> tz_aware (pac_created_at a) then Inl (RtValueError ''created_at must be timezone-aware'')
      else if (case pac_reset_at a of None \<Rightarrow> False | Some t \<Rightarrow> \<not> tz_aware t)
      then Inl (RtValueError ''reset_at must be timezone-aware'')
      else Inr a)"

record paper_run =
  prn_paper_run_id :: uuid
  prn_status :: paper_run_status
  prn_config_hash :: string
  prn_created_at :: datetime
  prn_completed_at :: "datetime option"

text \<open>\<^verbatim>\<open>PaperRun.__post_init__\<close>\<close>

definition mk_run :: "paper_run \<Rightarrow> (runtime_error, paper_run) result" where
  "mk_run r =
     (if blank (prn_config_hash r) then Inl (RtValueError ''config_hash is required'')
      else if \<not> tz_aware (prn_created_at r) then Inl (RtValueError ''created_at must be timezone-aware'')
      else if (case prn_completed_at r of None \<Rightarrow> False | Some t \<Rightarrow> \<not> tz_aware t)
      then Inl (RtValueError ''completed_at must be timezone-aware'')
      else Inr r)"

definition paper_run_namespace :: uuid where
  "paper_run_namespace = 166315357799229117589264242700017421405"

definition new_paper_run_id :: "uuid5_fun \<Rightarrow> uuid \<Rightarrow> string option \<Rightarrow> uuid" where
  "new_paper_run_id uuid5 uuid4 seed = (case seed of None \<Rightarrow> uuid4 | Some s \<Rightarrow> uuid5 paper_run_namespace s)"

text \<open>The text under \<^verbatim>\<open>compute_config_hash\<close>; a dictionary is the list of its items.\<close>

definition canonical_config :: "(string, string) odict \<Rightarrow> string" where
  "canonical_config parts = join ''&'' (map (\<lambda>k. k @ ''='' @ the (map_of parts k)) (sort (map fst parts)))"

definition compute_config_hash :: "(string \<Rightarrow> string) \<Rightarrow> (string, string) odict option \<Rightarrow> string" where
  "compute_config_hash sha256 parts = sha256 (canonical_config (case parts of None \<Rightarrow> [] | Some p \<Rightarrow> p))"

datatype execution_provider = PROVIDER_BACKTEST | PROVIDER_PAPER | PROVIDER_LIVE

definition resolve_provider :: "string option \<Rightarrow> (runtime_error, execution_provider) result" where
  "resolve_provider trading_mode =
     (let mode = upper (case trading_mode of None \<Rightarrow> [] | Some m \<Rightarrow> m)
      in if mode = ''LIVE'' then Inl LiveTradingDisabledError
         else if mode = ''PAPER'' then Inr PROVIDER_PAPER
         else if mode = ''BACKTEST'' then Inr PROVIDER_BACKTEST
         else Inl (UnknownTradingModeError trading_mode))"

text \<open>\<^verbatim>\<open>TradingModeRouter\<close>: an absent hook is \<open>None\<close>, a hook is what it answers at the call.\<close>

record mode_router =
  mr_live_enabled :: "bool option"
  mr_halt_active :: "bool option"

definition router_resolve :: "mode_router \<Rightarrow> string option \<Rightarrow> (runtime_error, execution_provider) result" where
  "router_resolve r trading_mode =
     (if (case mr_halt_active r of None \<Rightarrow> True | Some b \<Rightarrow> b) then Inl TradingHaltedError
      else if (case mr_live_enabled r of None \<Rightarrow> False | Some b \<Rightarrow> b) then Inl LiveTradingDisabledError
      else resolve_provider trading_mode)"

section \<open>The cash ledger\<close>

record paper_funds =
  pfu_account_id :: uuid
  pfu_available_cash :: decimal
  pfu_reserved_cash :: decimal
  pfu_currency :: string

text \<open>\<^verbatim>\<open>PaperFunds.__post_init__\<close>\<close>

definition mk_funds :: "paper_funds \<Rightarrow> (runtime_error, paper_funds) result" where
  "mk_funds f =
     (if pfu_available_cash f < 0 then Inl (RtValueError ''available_cash cannot be negative'')
      else if pfu_reserved_cash f < 0 then Inl (RtValueError ''reserved_cash cannot be negative'')
      else Inr f)"

definition total_cash :: "paper_funds \<Rightarrow> decimal" where
  "total_cash f = pfu_available_cash f + pfu_reserved_cash f"

definition reserve :: "paper_funds \<Rightarrow> decimal \<Rightarrow> (runtime_error, paper_funds) result" where
  "reserve f amount =
     (if amount \<le> 0 then Inl (RtValueError ''reserve amount must be positive'')
      else if pfu_available_cash f < amount then Inl (RtValueError ''insufficient available cash to reserve'')
      else mk_funds (f\<lparr>pfu_available_cash := pfu_available_cash f - amount,
                       pfu_reserved_cash := pfu_reserved_cash f + amount\<rparr>))"

definition release :: "paper_funds \<Rightarrow> decimal \<Rightarrow> (runtime_error, paper_funds) result" where
  "release f amount =
     (if amount \<le> 0 then Inl (RtValueError ''release amount must be positive'')
      else if pfu_reserved_cash f < amount then Inl (RtValueError ''release exceeds reserved cash'')
      else mk_funds (f\<lparr>pfu_available_cash := pfu_available_cash f + amount,
                       pfu_reserved_cash := pfu_reserved_cash f - amount\<rparr>))"

definition settle_buy :: "paper_funds \<Rightarrow> decimal \<Rightarrow> (runtime_error, paper_funds) result" where
  "settle_buy f amount =
     (if amount \<le> 0 then Inl (RtValueError ''buy settlement amount must be positive'')
      else if pfu_reserved_cash f < amount then Inl (RtValueError ''buy settlement exceeds reserved cash'')
      else mk_funds (f\<lparr>pfu_reserved_cash := pfu_reserved_cash f - amount\<rparr>))"

definition credit_sell :: "paper_funds \<Rightarrow> decimal \<Rightarrow> (runtime_error, paper_funds) result" where
  "credit_sell f amount =
     (if amount \<le> 0 then Inl (RtValueError ''sell proceeds must be positive'')
      else mk_funds (f\<lparr>pfu_available_cash := pfu_available_cash f + amount\<rparr>))"

section \<open>The tables\<close>

fun run_status_value :: "paper_run_status \<Rightarrow> string" where
  "run_status_value PR_ACTIVE = ''ACTIVE''"
| "run_status_value PR_COMPLETED = ''COMPLETED''"
| "run_status_value PR_RESET = ''RESET''"

fun account_status_value :: "paper_account_status \<Rightarrow> string" where
  "account_status_value PA_ACTIVE = ''ACTIVE''"
| "account_status_value PA_SUSPENDED = ''SUSPENDED''"
| "account_status_value PA_RESET = ''RESET''"

fun trading_mode_value :: "trading_mode \<Rightarrow> string" where
  "trading_mode_value BACKTEST = ''BACKTEST''"
| "trading_mode_value PAPER = ''PAPER''"
| "trading_mode_value LIVE = ''LIVE''"

text \<open>\<^verbatim>\<open>Enum(value)\<close>: the member with that value, or a \<^verbatim>\<open>ValueError\<close>.\<close>

definition enum_of :: "('e \<Rightarrow> string) \<Rightarrow> 'e list \<Rightarrow> string \<Rightarrow> (runtime_error, 'e) result" where
  "enum_of value members s = of_opt (RtValueError s) (find (\<lambda>e. value e = s) members)"

record paper_run_row =
  prr_id :: uuid
  prr_config_hash :: string
  prr_status :: string
  prr_started_at :: datetime
  prr_completed_at :: "datetime option"

record paper_account_row =
  par_id :: uuid
  par_paper_run_id :: uuid
  par_trading_mode :: string
  par_starting_capital :: decimal
  par_status :: string
  par_reset_at :: "datetime option"
  par_created_at :: datetime

record paper_funds_row =
  pfw_account_id :: uuid
  pfw_available_cash :: decimal
  pfw_reserved_cash :: decimal
  pfw_currency :: string

record paper_tables =
  pt_runs :: "paper_run_row list"
  pt_accounts :: "paper_account_row list"
  pt_funds :: "paper_funds_row list"

type_synonym numeric_column = "decimal \<Rightarrow> decimal option"

definition save_run :: "paper_tables \<Rightarrow> paper_run \<Rightarrow> (runtime_error, paper_tables) result" where
  "save_run t r =
     (if first_row (\<lambda>row. prr_id row = prn_paper_run_id r) (pt_runs t) \<noteq> None then Inl DatabaseError
      else Inr (t\<lparr>pt_runs := pt_runs t @ [\<lparr>prr_id = prn_paper_run_id r, prr_config_hash = prn_config_hash r,
        prr_status = run_status_value (prn_status r), prr_started_at = prn_created_at r,
        prr_completed_at = prn_completed_at r\<rparr>]\<rparr>))"

definition load_run :: "paper_tables \<Rightarrow> uuid \<Rightarrow> (runtime_error, paper_run option) result" where
  "load_run t rid =
     (case first_row (\<lambda>row. prr_id row = rid) (pt_runs t) of
        None \<Rightarrow> Inr None
      | Some row \<Rightarrow>
          rbind (enum_of run_status_value [PR_ACTIVE, PR_COMPLETED, PR_RESET] (prr_status row)) (\<lambda>status.
          rbind (mk_run \<lparr>prn_paper_run_id = prr_id row, prn_status = status, prn_config_hash = prr_config_hash row,
            prn_created_at = prr_started_at row, prn_completed_at = prr_completed_at row\<rparr>) (\<lambda>r. Inr (Some r))))"

text \<open>The row of an account is stamped with the time of the database; the account's own \<^verbatim>\<open>created_at\<close> is not
  written.  The foreign key to \<^verbatim>\<open>paper_runs\<close> and the primary key refuse other rows.\<close>

definition save_account ::
  "numeric_column \<Rightarrow> datetime \<Rightarrow> paper_tables \<Rightarrow> paper_account \<Rightarrow> (runtime_error, paper_tables) result" where
  "save_account numeric db_now t a =
     (if first_row (\<lambda>row. par_id row = pac_account_id a) (pt_accounts t) \<noteq> None \<or>
         first_row (\<lambda>row. prr_id row = pac_paper_run_id a) (pt_runs t) = None then Inl DatabaseError
      else case numeric (pac_starting_capital a) of
        None \<Rightarrow> Inl DatabaseError
      | Some capital \<Rightarrow> Inr (t\<lparr>pt_accounts := pt_accounts t @ [\<lparr>par_id = pac_account_id a,
          par_paper_run_id = pac_paper_run_id a, par_trading_mode = trading_mode_value (pac_trading_mode a),
          par_starting_capital = capital, par_status = account_status_value (pac_status a),
          par_reset_at = pac_reset_at a, par_created_at = db_now\<rparr>]\<rparr>))"

definition load_account :: "paper_tables \<Rightarrow> uuid \<Rightarrow> (runtime_error, paper_account option) result" where
  "load_account t aid =
     (case first_row (\<lambda>row. par_id row = aid) (pt_accounts t) of
        None \<Rightarrow> Inr None
      | Some row \<Rightarrow>
          rbind (enum_of trading_mode_value [BACKTEST, PAPER, LIVE] (par_trading_mode row)) (\<lambda>mode.
          rbind (enum_of account_status_value [PA_ACTIVE, PA_SUSPENDED, PA_RESET] (par_status row)) (\<lambda>status.
          rbind (mk_account \<lparr>pac_account_id = par_id row, pac_paper_run_id = par_paper_run_id row, pac_trading_mode = mode,
            pac_starting_capital = par_starting_capital row, pac_status = status, pac_created_at = par_created_at row,
            pac_reset_at = par_reset_at row\<rparr>) (\<lambda>a. Inr (Some a)))))"

definition save_funds :: "numeric_column \<Rightarrow> paper_tables \<Rightarrow> paper_funds \<Rightarrow> (runtime_error, paper_tables) result" where
  "save_funds numeric t f =
     (case (numeric (pfu_available_cash f), numeric (pfu_reserved_cash f)) of
        (Some available, Some reserved) \<Rightarrow>
          let row = \<lparr>pfw_account_id = pfu_account_id f, pfw_available_cash = available, pfw_reserved_cash = reserved,
                     pfw_currency = pfu_currency f\<rparr>
          in (case first_row (\<lambda>r. pfw_account_id r = pfu_account_id f) (pt_funds t) of
                Some _ \<Rightarrow> Inr (t\<lparr>pt_funds := update_rows (\<lambda>r. pfw_account_id r = pfu_account_id f) (\<lambda>_. row) (pt_funds t)\<rparr>)
              | None \<Rightarrow>
                  if first_row (\<lambda>a. par_id a = pfu_account_id f) (pt_accounts t) = None then Inl DatabaseError
                  else Inr (t\<lparr>pt_funds := pt_funds t @ [row]\<rparr>))
      | _ \<Rightarrow> Inl DatabaseError)"

definition load_funds :: "paper_tables \<Rightarrow> uuid \<Rightarrow> (runtime_error, paper_funds option) result" where
  "load_funds t aid =
     (case first_row (\<lambda>r. pfw_account_id r = aid) (pt_funds t) of
        None \<Rightarrow> Inr None
      | Some row \<Rightarrow> rbind (mk_funds \<lparr>pfu_account_id = pfw_account_id row, pfu_available_cash = pfw_available_cash row,
          pfu_reserved_cash = pfw_reserved_cash row, pfu_currency = pfw_currency row\<rparr>) (\<lambda>f. Inr (Some f)))"

section \<open>The service\<close>

record paper_fill_outcome =
  po_client_order_id :: string
  po_order_id :: uuid
  po_side :: order_side
  po_instrument_id :: uuid
  po_quantity :: int
  po_fill_price :: "decimal option"
  po_effective_price :: "decimal option"
  po_commission :: decimal
  po_net_cash :: decimal
  po_accepted :: bool
  po_reason :: "string option"
  po_occurred_at :: datetime

definition positive_price :: "decimal option \<Rightarrow> bool" where
  "positive_price p = (case p of None \<Rightarrow> False | Some v \<Rightarrow> \<not> v \<le> 0)"

text \<open>\<^verbatim>\<open>PaperFillOutcome.__post_init__\<close>\<close>

definition mk_outcome :: "paper_fill_outcome \<Rightarrow> (runtime_error, paper_fill_outcome) result" where
  "mk_outcome oc =
     (if \<not> tz_aware (po_occurred_at oc) then Inl (RtValueError ''occurred_at must be timezone-aware'')
      else if po_accepted oc \<and> \<not> positive_price (po_fill_price oc)
      then Inl (RtValueError ''accepted outcome requires a positive fill_price'')
      else if po_accepted oc \<and> \<not> positive_price (po_effective_price oc)
      then Inl (RtValueError ''accepted outcome requires a positive effective_price'')
      else Inr oc)"

record paper_service =
  ps_account :: paper_account
  ps_broker :: paper_adapter
  ps_reference_prices :: "uuid \<Rightarrow> paper_reference_price option"
  ps_cost_model :: paper_cost_model
  ps_repository :: "paper_tables option"
  ps_funds :: paper_funds
  ps_outcomes :: "paper_fill_outcome list"
  ps_sequence :: int

definition new_service ::
  "paper_account \<Rightarrow> paper_adapter \<Rightarrow> (uuid \<Rightarrow> paper_reference_price option) \<Rightarrow> paper_cost_model option
   \<Rightarrow> paper_tables option \<Rightarrow> (runtime_error, paper_service) result" where
  "new_service account broker refs cost repository =
     (if pac_trading_mode account \<noteq> PAPER
      then Inl (FromBroker (PaperAdapterError ''PaperTradingService requires a PAPER account''))
      else rbind (case repository of None \<Rightarrow> Inr None | Some t \<Rightarrow> load_funds t (pac_account_id account)) (\<lambda>restored.
        rbind (case restored of
                 Some f \<Rightarrow> Inr f
               | None \<Rightarrow> mk_funds \<lparr>pfu_account_id = pac_account_id account,
                   pfu_available_cash = pac_starting_capital account, pfu_reserved_cash = 0, pfu_currency = ''INR''\<rparr>) (\<lambda>funds.
        Inr \<lparr>ps_account = account, ps_broker = broker, ps_reference_prices = refs,
             ps_cost_model = (case cost of None \<Rightarrow> default_cost_model | Some m \<Rightarrow> m), ps_repository = repository,
             ps_funds = funds, ps_outcomes = [], ps_sequence = 0\<rparr>)))"

definition set_reference_price :: "paper_service \<Rightarrow> uuid \<Rightarrow> paper_reference_price \<Rightarrow> paper_service" where
  "set_reference_price s ins ref =
     s\<lparr>ps_reference_prices := (ps_reference_prices s)(ins \<mapsto> ref),
       ps_broker := adapter_set_reference_price (ps_broker s) ins ref\<rparr>"

record submit_args =
  sa_instrument_id :: uuid
  sa_side :: order_side
  sa_quantity :: int
  sa_order_type :: order_type
  sa_limit_price :: "decimal option"
  sa_client_order_id :: "string option"

definition next_client_order_id :: "paper_service \<Rightarrow> string \<times> paper_service" where
  "next_client_order_id s =
     (let n = ps_sequence s + 1
      in (''paper-'' @ uuid_str (pac_account_id (ps_account s)) @ ''-'' @ int_str n, s\<lparr>ps_sequence := n\<rparr>))"

text \<open>\<^verbatim>\<open>client_order_id or self._next_client_order_id()\<close>: the empty string counts as absent.\<close>

definition client_id_or_next :: "paper_service \<Rightarrow> string option \<Rightarrow> string \<times> paper_service" where
  "client_id_or_next s cid =
     (case cid of
        None \<Rightarrow> next_client_order_id s
      | Some c \<Rightarrow> if c = [] then next_client_order_id s else (c, s))"

definition record_outcome ::
  "paper_service \<Rightarrow> paper_fill_outcome \<Rightarrow> (runtime_error, paper_fill_outcome) result \<times> paper_service" where
  "record_outcome s oc =
     (case mk_outcome oc of Inl e \<Rightarrow> (Inl e, s) | Inr oc' \<Rightarrow> (Inr oc', s\<lparr>ps_outcomes := ps_outcomes s @ [oc']\<rparr>))"

definition rejected_outcome ::
  "uuid5_fun \<Rightarrow> paper_service \<Rightarrow> submit_args \<Rightarrow> string \<Rightarrow> string \<Rightarrow> datetime \<Rightarrow> paper_fill_outcome" where
  "rejected_outcome uuid5 s a client why now =
     \<lparr>po_client_order_id = client, po_order_id = paper_order_id uuid5 (pac_account_id (ps_account s)) client,
      po_side = sa_side a, po_instrument_id = sa_instrument_id a, po_quantity = sa_quantity a, po_fill_price = None,
      po_effective_price = None, po_commission = 0, po_net_cash = 0, po_accepted = False, po_reason = Some why,
      po_occurred_at = now\<rparr>"

definition reject_without_fill ::
  "uuid5_fun \<Rightarrow> datetime \<Rightarrow> paper_service \<Rightarrow> submit_args \<Rightarrow> string option \<Rightarrow> string
   \<Rightarrow> (runtime_error, paper_fill_outcome) result \<times> paper_service" where
  "reject_without_fill uuid5 now s a cid why =
     (let (client, s') = client_id_or_next s cid
      in record_outcome s' (rejected_outcome uuid5 s' a client why now))"

definition guard_account :: "paper_service \<Rightarrow> (runtime_error, unit) result" where
  "guard_account s = guard (pac_status (ps_account s) = PA_ACTIVE) (FromBroker (PaperAdapterError ''paper account is not active''))"

definition service_request :: "uuid5_fun \<Rightarrow> paper_service \<Rightarrow> submit_args \<Rightarrow> string \<Rightarrow> broker_order_request" where
  "service_request uuid5 s a client =
     \<lparr>bq_broker_account_id = pac_account_id (ps_account s), bq_instrument_id = sa_instrument_id a, bq_trading_mode = PAPER,
      bq_client_order_id = client, bq_side = sa_side a, bq_order_type = sa_order_type a, bq_quantity = sa_quantity a,
      bq_risk_approval_id = ''paper-'' @ uuid_str (pac_paper_run_id (ps_account s)), bq_limit_price = sa_limit_price a,
      bq_stop_price = None,
      bq_metadata = [''order_id'' \<mapsto> PStr (uuid_str (paper_order_id uuid5 (pac_account_id (ps_account s)) client))]\<rparr>"

text \<open>Price, notional and commission of a fill: the common part of \<^verbatim>\<open>submit\<close> and \<^verbatim>\<open>_can_afford\<close>.\<close>

definition cost_of ::
  "paper_cost_model \<Rightarrow> decimal \<Rightarrow> order_side \<Rightarrow> int \<Rightarrow> (runtime_error, decimal \<times> decimal \<times> decimal) result" where
  "cost_of m price side quantity =
     rbind (apply_slippage price side m) (\<lambda>effective.
       let notional = effective * dec_of_int quantity
       in rbind (commission_amount notional m) (\<lambda>commission. Inr (effective, notional, commission)))"

text \<open>The subclasses of \<^verbatim>\<open>PaperAdapterError\<close>.\<close>

fun is_adapter_error :: "paper_error \<Rightarrow> bool" where
  "is_adapter_error (PaperAdapterError _) = True"
| "is_adapter_error (PaperModeViolationError _) = True"
| "is_adapter_error (PaperMarketDataUnavailableError _) = True"
| "is_adapter_error (UnsupportedOrderTypeError _) = True"
| "is_adapter_error (ClientOrderIdConflictError _ _) = True"
| "is_adapter_error _ = False"

definition can_afford ::
  "paper_service \<Rightarrow> broker_order_request \<Rightarrow> paper_reference_price \<Rightarrow> int \<Rightarrow> (runtime_error, bool) result" where
  "can_afford s r ref quantity =
     (case decide_fill r ref of
        Inl e \<Rightarrow> if is_adapter_error e then Inr True else Inl (FromBroker e)
      | Inr d \<Rightarrow>
          case fd_fill_price d of
            None \<Rightarrow> Inr True
          | Some p \<Rightarrow>
              if \<not> fd_fills d then Inr True
              else rbind (cost_of (ps_cost_model s) p BUY quantity) (\<lambda>(effective, notional, commission).
                Inr (notional + commission \<le> pfu_available_cash (ps_funds s))))"

text \<open>\<^verbatim>\<open>Decimal(str(raw))\<close>\<close>

fun metadata_decimal :: "pyval \<Rightarrow> decimal option" where
  "metadata_decimal (PStr s) = decimal_parse s"
| "metadata_decimal (PInt n) = Some (dec_of_int n)"
| "metadata_decimal (PDec d) = Some d"
| "metadata_decimal _ = None"

type_synonym collected = "decimal option \<times> string option \<times> datetime"

text \<open>One turn of the loop over the drained events.\<close>

definition collect_event :: "(runtime_error, collected) result \<Rightarrow> broker_order_event \<Rightarrow> (runtime_error, collected) result" where
  "collect_event acc ev =
     rbind acc (\<lambda>(fill_price, reason, _).
       if be_event_type ev = EV_FILL
       then case be_metadata ev ''paper_fill_price'' of
              None \<Rightarrow> Inr (fill_price, reason, be_occurred_at ev)
            | Some PNone \<Rightarrow> Inr (fill_price, reason, be_occurred_at ev)
            | Some raw \<Rightarrow> rbind (of_opt RtInvalidOperation (metadata_decimal raw)) (\<lambda>p.
                Inr (Some p, reason, be_occurred_at ev))
       else if be_event_type ev = EV_REJECTED then Inr (fill_price, Some (be_reason ev), be_occurred_at ev)
       else Inr (fill_price, reason, be_occurred_at ev))"

definition submit_and_collect ::
  "uuid5_fun \<Rightarrow> datetime option \<Rightarrow> datetime \<Rightarrow> paper_adapter \<Rightarrow> broker_order_request
   \<Rightarrow> (runtime_error, collected) result \<times> paper_adapter" where
  "submit_and_collect uuid5 bclock now b r =
     (case adapter_submit_order uuid5 bclock b r of
        (Inl e, b1) \<Rightarrow> (Inl (FromBroker e), b1)
      | (Inr response, b1) \<Rightarrow>
          let (events, b2) = adapter_pending_events b1
          in (rbind (foldl collect_event (Inr (None, None, now)) events) (\<lambda>(fill_price, reason, occurred_at).
                Inr (fill_price,
                     if fill_price = None \<and> reason = None then str_or (br_reason response) (Some ''order rejected'') else reason,
                     occurred_at)),
              b2))"

definition persist_funds :: "numeric_column \<Rightarrow> paper_service \<Rightarrow> (runtime_error, unit) result \<times> paper_service" where
  "persist_funds numeric s =
     (case ps_repository s of
        None \<Rightarrow> (Inr (), s)
      | Some t \<Rightarrow>
          case save_funds numeric t (ps_funds s) of
            Inl e \<Rightarrow> (Inl e, s)
          | Inr t' \<Rightarrow> (Inr (), s\<lparr>ps_repository := Some t'\<rparr>))"

definition accepted_outcome ::
  "uuid5_fun \<Rightarrow> paper_service \<Rightarrow> submit_args \<Rightarrow> string \<Rightarrow> decimal \<Rightarrow> decimal \<Rightarrow> decimal \<Rightarrow> decimal \<Rightarrow> datetime
   \<Rightarrow> paper_fill_outcome" where
  "accepted_outcome uuid5 s a client price effective commission net_cash now =
     \<lparr>po_client_order_id = client, po_order_id = paper_order_id uuid5 (pac_account_id (ps_account s)) client,
      po_side = sa_side a, po_instrument_id = sa_instrument_id a, po_quantity = sa_quantity a, po_fill_price = Some price,
      po_effective_price = Some effective, po_commission = commission, po_net_cash = net_cash, po_accepted = True,
      po_reason = None, po_occurred_at = now\<rparr>"

text \<open>Persisting and recording, after the ledger of the state has been set.\<close>

definition finish_fill ::
  "numeric_column \<Rightarrow> paper_service \<Rightarrow> paper_fill_outcome \<Rightarrow> (runtime_error, paper_fill_outcome) result \<times> paper_service" where
  "finish_fill numeric s oc =
     (case persist_funds numeric s of (Inl e, s') \<Rightarrow> (Inl e, s') | (Inr _, s') \<Rightarrow> record_outcome s' oc)"

text \<open>The part of \<^verbatim>\<open>submit\<close> after the broker reported a fill; \<open>late\<close> is the reading of the clock of a rejection
  at this point.  \<^verbatim>\<open>except ValueError\<close> catches every error of \<^verbatim>\<open>reserve\<close> and \<^verbatim>\<open>settle_buy\<close>.\<close>

definition settle_fill ::
  "uuid5_fun \<Rightarrow> numeric_column \<Rightarrow> datetime \<Rightarrow> paper_service \<Rightarrow> submit_args \<Rightarrow> string \<Rightarrow> decimal \<Rightarrow> datetime
   \<Rightarrow> (runtime_error, paper_fill_outcome) result \<times> paper_service" where
  "settle_fill uuid5 numeric late s a client price occurred_at =
     (case cost_of (ps_cost_model s) price (sa_side a) (sa_quantity a) of
        Inl e \<Rightarrow> (Inl e, s)
      | Inr (effective, notional, commission) \<Rightarrow>
          case sa_side a of
            BUY \<Rightarrow>
              let total_debit = notional + commission
              in (case rbind (reserve (ps_funds s) total_debit) (\<lambda>f. settle_buy f total_debit) of
                    Inl (RtValueError why) \<Rightarrow> reject_without_fill uuid5 late s a (Some client) why
                  | Inl e \<Rightarrow> (Inl e, s)
                  | Inr f \<Rightarrow> finish_fill numeric (s\<lparr>ps_funds := f\<rparr>)
                      (accepted_outcome uuid5 s a client price effective commission (- total_debit) occurred_at))
          | SELL \<Rightarrow>
              let net_cash = notional - commission
              in (case credit_sell (ps_funds s) net_cash of
                    Inl e \<Rightarrow> (Inl e, s)
                  | Inr f \<Rightarrow> finish_fill numeric (s\<lparr>ps_funds := f\<rparr>)
                      (accepted_outcome uuid5 s a client price effective commission net_cash occurred_at)))"

definition place_order ::
  "uuid5_fun \<Rightarrow> numeric_column \<Rightarrow> datetime option \<Rightarrow> (nat \<Rightarrow> datetime) \<Rightarrow> paper_service \<Rightarrow> submit_args \<Rightarrow> string
   \<Rightarrow> (runtime_error, paper_fill_outcome) result \<times> paper_service" where
  "place_order uuid5 numeric bclock clock s a client =
     (case submit_and_collect uuid5 bclock (clock 0) (ps_broker s) (service_request uuid5 s a client) of
        (Inl e, b) \<Rightarrow> (Inl e, s\<lparr>ps_broker := b\<rparr>)
      | (Inr (fill_price, reason, occurred_at), b) \<Rightarrow>
          case fill_price of
            None \<Rightarrow> record_outcome (s\<lparr>ps_broker := b\<rparr>) (rejected_outcome uuid5 s a client
              (the (str_or reason (Some ''order rejected by paper broker''))) occurred_at)
          | Some price \<Rightarrow> settle_fill uuid5 numeric (clock 1) (s\<lparr>ps_broker := b\<rparr>) a client price occurred_at)"

definition affordable :: "uuid5_fun \<Rightarrow> paper_service \<Rightarrow> submit_args \<Rightarrow> string \<Rightarrow> (runtime_error, bool) result" where
  "affordable uuid5 s a client =
     (case (sa_side a, ps_reference_prices s (sa_instrument_id a)) of
        (BUY, Some ref) \<Rightarrow> can_afford s (service_request uuid5 s a client) ref (sa_quantity a)
      | _ \<Rightarrow> Inr True)"

definition service_submit ::
  "uuid5_fun \<Rightarrow> numeric_column \<Rightarrow> datetime option \<Rightarrow> (nat \<Rightarrow> datetime) \<Rightarrow> paper_service \<Rightarrow> submit_args
   \<Rightarrow> (runtime_error, paper_fill_outcome) result \<times> paper_service" where
  "service_submit uuid5 numeric bclock clock s a =
     (case guard_account s of
        Inl e \<Rightarrow> (Inl e, s)
      | Inr _ \<Rightarrow>
          if sa_quantity a \<le> 0
          then reject_without_fill uuid5 (clock 0) s a (sa_client_order_id a) ''quantity must be positive''
          else let (client, s1) = client_id_or_next s (sa_client_order_id a)
               in (case affordable uuid5 s1 a client of
                     Inl e \<Rightarrow> (Inl e, s1)
                   | Inr False \<Rightarrow> reject_without_fill uuid5 (clock 0) s1 a (Some client) ''insufficient available funds''
                   | Inr True \<Rightarrow> place_order uuid5 numeric bclock clock s1 a client))"

definition service_positions ::
  "(nat \<Rightarrow> datetime option) \<Rightarrow> paper_service \<Rightarrow> (paper_error, broker_position_snapshot list) result" where
  "service_positions clock s = adapter_get_positions clock (ps_broker s)"

section \<open>The ledger never goes negative\<close>

definition funds_ok :: "paper_funds \<Rightarrow> bool" where
  "funds_ok f \<longleftrightarrow> 0 \<le> dval (pfu_available_cash f) \<and> dval (pfu_reserved_cash f) = 0"

definition debited :: "paper_funds \<Rightarrow> decimal \<Rightarrow> paper_funds" where
  "debited f d = f\<lparr>pfu_available_cash := pfu_available_cash f - d, pfu_reserved_cash := pfu_reserved_cash f + d - d\<rparr>"

definition credited :: "paper_funds \<Rightarrow> decimal \<Rightarrow> paper_funds" where
  "credited f d = f\<lparr>pfu_available_cash := pfu_available_cash f + d\<rparr>"

lemma rep28_plus: "rep28 (dval (x + y :: decimal))" and rep28_minus: "rep28 (dval (x - y :: decimal))"
  unfolding plus_decimal_def dadd_def minus_decimal_def dsub_def Let_def by (rule rep28_dfix)+

lemma reserved_round_trip:
  assumes "dval r = 0" "rep28 (dval d)"
  shows "dval (r + d) = dval d" "dval (r + d - d) = 0"
proof -
  show s: "dval (r + d) = dval d" using assms by (simp add: dval_plus)
  show "dval (r + d - d) = 0" using s by (simp add: dval_minus)
qed

lemma buy_settles:
  assumes "funds_ok f" "rep28 (dval d)"
  shows "rbind (reserve f d) (\<lambda>g. settle_buy g d) =
    (if d \<le> 0 then Inl (RtValueError ''reserve amount must be positive'')
     else if pfu_available_cash f < d then Inl (RtValueError ''insufficient available cash to reserve'')
     else Inr (debited f d))"
  using assms reserved_round_trip [of "pfu_reserved_cash f" d] decimal_minus_nonneg [of d "pfu_available_cash f"]
  by (auto simp: reserve_def settle_buy_def mk_funds_def debited_def funds_ok_def decimal_order not_less)

lemma sell_credits:
  assumes "funds_ok f"
  shows "credit_sell f d = (if d \<le> 0 then Inl (RtValueError ''sell proceeds must be positive'') else Inr (credited f d))"
  using assms decimal_plus_nonneg [of "pfu_available_cash f" d]
  by (cases "dval d \<le> 0") (auto simp: credit_sell_def mk_funds_def credited_def funds_ok_def decimal_order not_less)

lemma funds_ok_debited: "funds_ok f \<Longrightarrow> rep28 (dval d) \<Longrightarrow> d \<le> pfu_available_cash f \<Longrightarrow> funds_ok (debited f d)"
  using reserved_round_trip [of "pfu_reserved_cash f" d] decimal_minus_nonneg [of d "pfu_available_cash f"]
  by (simp add: funds_ok_def debited_def decimal_order)

lemma funds_ok_credited: "funds_ok f \<Longrightarrow> 0 \<le> dval d \<Longrightarrow> funds_ok (credited f d)"
  by (simp add: funds_ok_def credited_def decimal_plus_nonneg)

lemma available_debited: "pfu_available_cash (debited f (x + y)) = pfu_available_cash f + - (x + y)"
  and available_credited: "pfu_available_cash (credited f d) = pfu_available_cash f + d"
  by (simp_all add: debited_def credited_def minus_is_plus_uminus [OF coeff_plus])

lemma record_outcome_keeps [simp]:
  "ps_funds (snd (record_outcome s oc)) = ps_funds s" "ps_broker (snd (record_outcome s oc)) = ps_broker s"
  by (simp_all add: record_outcome_def split: sum.split)

lemma client_id_or_next_keeps [simp]:
  "ps_funds (snd (client_id_or_next s cid)) = ps_funds s" "ps_broker (snd (client_id_or_next s cid)) = ps_broker s"
  "ps_outcomes (snd (client_id_or_next s cid)) = ps_outcomes s"
  "ps_reference_prices (snd (client_id_or_next s cid)) = ps_reference_prices s"
  "ps_cost_model (snd (client_id_or_next s cid)) = ps_cost_model s"
  "ps_account (snd (client_id_or_next s cid)) = ps_account s"
  by (simp_all add: client_id_or_next_def next_client_order_id_def Let_def split: option.split)

lemma reject_keeps [simp]:
  "ps_funds (snd (reject_without_fill uuid5 now s a cid why)) = ps_funds s"
  "ps_broker (snd (reject_without_fill uuid5 now s a cid why)) = ps_broker s"
  by (simp_all add: reject_without_fill_def case_prod_beta)

lemma finish_fill_keeps [simp]: "ps_funds (snd (finish_fill numeric s oc)) = ps_funds s"
  "ps_broker (snd (finish_fill numeric s oc)) = ps_broker s"
  by (simp_all add: finish_fill_def persist_funds_def split: option.split sum.split)

lemma settle_fill_funds_ok:
  assumes "funds_ok (ps_funds s)"
  shows "funds_ok (ps_funds (snd (settle_fill uuid5 numeric late s a client price t)))"
  using assms
  by (auto simp: settle_fill_def buy_settles sell_credits rep28_plus Let_def decimal_order not_le not_less
      intro: funds_ok_debited funds_ok_credited split: sum.split order_side.split)

lemma service_submit_funds_ok:
  assumes "funds_ok (ps_funds s)"
  shows "funds_ok (ps_funds (snd (service_submit uuid5 numeric bclock clock s a)))"
proof -
  have place: "funds_ok (ps_funds (snd (place_order uuid5 numeric bclock clock s1 a client)))"
    if "funds_ok (ps_funds s1)" for s1 client
    using that by (simp add: place_order_def settle_fill_funds_ok split: sum.split prod.split option.split)
  show ?thesis using assms
    by (simp add: service_submit_def case_prod_beta place split: sum.split bool.split)
qed

section \<open>The ledger and the fills of the broker\<close>

text \<open>One call of the owner of the service; a submission carries the readings of the two clocks and the column the
  ledger is stored in at that moment.\<close>

datatype service_call =
    SubmitOrder "datetime option" "nat \<Rightarrow> datetime" numeric_column submit_args
  | SetReference uuid paper_reference_price

definition service_step :: "uuid5_fun \<Rightarrow> paper_service \<Rightarrow> service_call \<Rightarrow> (runtime_error, unit) result \<times> paper_service" where
  "service_step uuid5 s c =
     (case c of
        SubmitOrder bclock clock numeric a \<Rightarrow>
          (case service_submit uuid5 numeric bclock clock s a of (Inl e, s') \<Rightarrow> (Inl e, s') | (Inr _, s') \<Rightarrow> (Inr (), s'))
      | SetReference ins ref \<Rightarrow> (Inr (), set_reference_price s ins ref))"

text \<open>A run of calls in which none raises.\<close>

fun service_run :: "uuid5_fun \<Rightarrow> paper_service \<Rightarrow> service_call list \<Rightarrow> (runtime_error, paper_service) result" where
  "service_run uuid5 s [] = Inr s"
| "service_run uuid5 s (c # cs) =
     (case service_step uuid5 s c of (Inl e, _) \<Rightarrow> Inl e | (Inr _, s') \<Rightarrow> service_run uuid5 s' cs)"

definition tick_priced :: "paper_reference_price \<Rightarrow> bool" where
  "tick_priced ref \<longleftrightarrow> Dec 1 (-4) \<le> rp_last ref \<and> (case rp_bid ref of None \<Rightarrow> True | Some b \<Rightarrow> Dec 1 (-4) \<le> b) \<and>
     (case rp_ask ref of None \<Rightarrow> True | Some a \<Rightarrow> Dec 1 (-4) \<le> a)"

definition call_tick_priced :: "service_call \<Rightarrow> bool" where
  "call_tick_priced c = (case c of SubmitOrder _ _ _ _ \<Rightarrow> True | SetReference _ ref \<Rightarrow> tick_priced ref)"

lemma tick_value: "dval (Dec 1 (-4)) = 1 / 10000"
  by (simp add: dval_def powi_m4)

lemma decide_fill_price:
  assumes "decide_fill r ref = Inr d" "fd_fill_price d = Some p"
  shows "fd_fills d" "p \<in> {rp_last ref} \<union> set_option (rp_bid ref) \<union> set_option (rp_ask ref)"
  using assms
  by (auto simp: decide_fill_def decide_buy_def decide_sell_def full_quantity_decision_Inr no_fill_eq
      split: if_splits order_side.splits option.splits)

lemma tick_priced_fill:
  assumes "tick_priced ref" "decide_fill r ref = Inr d" "fd_fill_price d = Some p"
  shows "1 / 10000 \<le> dval p"
  using decide_fill_price(2) [OF assms(2,3)] assms(1)
  by (auto simp: tick_priced_def le_decimal_iff tick_value)

lemma buy_slippage_tick:
  assumes "0 \<le> dval (cm_slippage_bps m)" "1 / 10000 \<le> dval p" "apply_slippage p BUY m = Inr e"
  shows "1 / 10000 \<le> dval e"
proof (cases "cm_slippage m = ZERO_SLIPPAGE")
  case False
  obtain share where share: "ddiv (cm_slippage_bps m) (Dec 10000 0) = Some share"
    and q: "quantize (-4) (p * (1 + share)) = Some e"
    using assms(3) False by (auto simp: apply_slippage_def Let_def result_simps)
  have "0 \<le> dval share" by (rule ddiv_nonneg [OF assms(1) _ share]) (simp add: dval_def)
  then have f: "1 \<le> dval (1 + share)"
    using plus_decimal_fix [of 1 share] dfix_ge_rep [of 1] rep28_int [of 1] by fastforce
  then have "1 / 10000 \<le> dval p * dval (1 + share)" using assms(2) mult_mono [of "1/10000" "dval p" 1] by simp
  then have "1 / 10000 \<le> dval (p * (1 + share))"
    using times_decimal_fix [of p "1 + share"] dfix_ge_rep [of "1/10000"] rep28_grid [of 1 "-4"] by (force simp: powi_m4)
  then show ?thesis using quantize_ge [OF q, of 1] by (simp add: powi_m4)
qed (use assms in \<open>simp add: apply_slippage_def\<close>)

lemma commission_nonneg:
  assumes "0 \<le> dval (cm_commission_per_trade m)" "commission_amount n m = Inr c"
  shows "0 \<le> dval c"
  using assms by (auto simp: commission_amount_def result_simps intro: quantize_nonneg split: if_splits)

definition drained :: "paper_adapter \<Rightarrow> bool" where
  "drained b \<longleftrightarrow> pb_pending_index (pa_book b) = length (pb_events (pa_book b))"

lemma collect_fill_events:
  "foldl collect_event (Inr (None, None, now)) [ack_event r oid t, paper_fill_event r oid t p] = Inr (Some p, None, t)"
  by (simp add: collect_event_def ack_event_def paper_fill_event_def decimal_parse_str)

lemma collect_reject_event: "foldl collect_event (Inr (None, None, now)) [reject_event r oid t why] = Inr (None, Some why, t)"
  by (simp add: collect_event_def reject_event_def)

lemma submit_and_collect_cases:
  assumes run: "submit_and_collect uuid5 bclock now b r = (Inr (fp, reason, occurred), b')" and drained: "drained b"
  obtains (no_fill) "fp = None" "pb_fills (pa_book b') = pb_fills (pa_book b)" "drained b'"
      "pa_reference_prices b' = pa_reference_prices b"
  | (fill) ref d p where "fp = Some p" "pa_reference_prices b (bq_instrument_id r) = Some ref" "decide_fill r ref = Inr d"
      "fd_fill_price d = Some p" "0 < dval p" "tz_aware occurred" "drained b'"
      "pb_fills (pa_book b') = pb_fills (pa_book b) @ [paper_fill (pb_sequence (pa_book b)) r
         (paper_order_id uuid5 (bq_broker_account_id r) (bq_client_order_id r)) occurred p]"
      "pa_reference_prices b' = pa_reference_prices b"
proof -
  obtain res bk where bs: "book_submit uuid5 bclock (pa_book b) r (pa_reference_prices b (bq_instrument_id r)) = (res, bk)"
    by fastforce
  have conn: "pa_connected b" using run by (auto simp: submit_and_collect_def adapter_submit_order_def split: if_splits)
  note defs = submit_and_collect_def adapter_submit_order_def adapter_pending_events_def pending_events_def Let_def
  from bs show thesis
  proof (cases rule: book_submit_cases)
    case (error e)
    then show thesis using run conn by (simp add: defs bs)
  next
    case (replay oid rec)
    then show thesis using run conn bs drained by (intro no_fill) (auto simp: defs drained_def)
  next
    case (reject oid t why)
    then show thesis using run conn bs drained
      by (intro no_fill) (auto simp: defs drained_def book_record_def collect_reject_event [simplified])
  next
    case (fill oid t ref d p)
    have oid: "oid = paper_order_id uuid5 (bq_broker_account_id r) (bq_client_order_id r)"
      using fill(1) by (rule admissible_order_id)
    show thesis using run conn bs drained fill
      by (intro that(2) [of p ref d])
         (auto simp: defs drained_def book_record_def filled_book_def collect_fill_events [simplified] oid [symmetric])
  qed
qed

text \<open>What an accepted outcome says about the fill, what the fill record of the broker says, and the price of the
  outcome under the cost model.\<close>

type_synonym fill_entry = "string \<times> uuid \<times> order_side \<times> uuid \<times> decimal \<times> decimal option"

definition outcome_entry :: "paper_fill_outcome \<Rightarrow> fill_entry" where
  "outcome_entry oc = (po_client_order_id oc, po_order_id oc, po_side oc, po_instrument_id oc,
     dec_of_int (po_quantity oc), po_fill_price oc)"

definition record_entry :: "paper_fill_record \<Rightarrow> fill_entry" where
  "record_entry f = (pfr_client_order_id f, pfr_order_id f, pfr_side f, pfr_instrument_id f, pfr_fill_quantity f,
     Some (pfr_fill_price f))"

definition priced :: "paper_cost_model \<Rightarrow> paper_fill_outcome \<Rightarrow> bool" where
  "priced m oc \<longleftrightarrow> (\<exists>p e n. po_fill_price oc = Some p \<and> po_effective_price oc = Some e \<and>
     cost_of m p (po_side oc) (po_quantity oc) = Inr (e, n, po_commission oc) \<and>
     po_net_cash oc = (case po_side oc of BUY \<Rightarrow> - (n + po_commission oc) | SELL \<Rightarrow> n - po_commission oc))"

abbreviation accepted_of :: "paper_service \<Rightarrow> paper_fill_outcome list" where
  "accepted_of s \<equiv> filter po_accepted (ps_outcomes s)"

abbreviation service_fills :: "paper_service \<Rightarrow> paper_fill_record list" where
  "service_fills s \<equiv> pb_fills (pa_book (ps_broker s))"

text \<open>The state between two calls: the broker drained, both price tables equal and above the tick, a valid cost model.\<close>

definition service_ready :: "paper_service \<Rightarrow> bool" where
  "service_ready s \<longleftrightarrow> drained (ps_broker s) \<and> pa_reference_prices (ps_broker s) = ps_reference_prices s \<and>
     (\<forall>ins ref. ps_reference_prices s ins = Some ref \<longrightarrow> tick_priced ref) \<and>
     0 \<le> dval (cm_slippage_bps (ps_cost_model s)) \<and> 0 \<le> dval (cm_commission_per_trade (ps_cost_model s))"

text \<open>One call adds the same entry to the fills and to the accepted outcomes, and its cash to the ledger.\<close>

definition step_matches :: "paper_service \<Rightarrow> paper_service \<Rightarrow> bool" where
  "step_matches s s' \<longleftrightarrow> service_ready s' \<and> funds_ok (ps_funds s') \<and> ps_cost_model s' = ps_cost_model s \<and>
     (\<exists>fs ocs. service_fills s' = service_fills s @ fs \<and> accepted_of s' = accepted_of s @ ocs \<and>
        map record_entry fs = map outcome_entry ocs \<and> list_all (priced (ps_cost_model s)) ocs \<and>
        pfu_available_cash (ps_funds s') = foldl (+) (pfu_available_cash (ps_funds s)) (map po_net_cash ocs))"

lemma step_matches_same:
  assumes "service_ready s" "funds_ok (ps_funds s)"
    and "ps_broker s' = ps_broker s \<or> drained (ps_broker s') \<and> service_fills s' = service_fills s \<and>
      pa_reference_prices (ps_broker s') = pa_reference_prices (ps_broker s)"
    and "ps_reference_prices s' = ps_reference_prices s" "ps_cost_model s' = ps_cost_model s" "ps_funds s' = ps_funds s"
      "accepted_of s' = accepted_of s"
  shows "step_matches s s'"
proof -
  have "service_ready s'" using assms by (auto simp: service_ready_def)
  then show ?thesis using assms by (auto simp: step_matches_def intro!: exI [of _ "[]"])
qed

lemma record_rejected:
  assumes "record_outcome s (rejected_outcome uuid5 s1 a client why now) = (Inr oc, s')"
  shows "s' = s\<lparr>ps_outcomes := ps_outcomes s @ [oc]\<rparr>" "\<not> po_accepted oc"
  using assms by (auto simp: record_outcome_def rejected_outcome_def mk_outcome_def split: if_splits)

lemma reject_matches:
  assumes "reject_without_fill uuid5 now s a cid why = (Inr oc, s')" "service_ready s" "funds_ok (ps_funds s)"
  shows "step_matches s s'"
proof -
  have s': "s' = (snd (client_id_or_next s cid))\<lparr>ps_outcomes := ps_outcomes s @ [oc]\<rparr>" "\<not> po_accepted oc"
    using assms(1) record_rejected by (fastforce simp: reject_without_fill_def case_prod_beta)+
  then show ?thesis using assms(2,3) by (intro step_matches_same) simp_all
qed

lemma finish_fill_Inr:
  assumes "finish_fill numeric s oc = (Inr oc', s')"
  shows "oc' = oc" "ps_outcomes s' = ps_outcomes s @ [oc]" "ps_reference_prices s' = ps_reference_prices s"
    "ps_cost_model s' = ps_cost_model s" "ps_funds s' = ps_funds s" "ps_broker s' = ps_broker s"
  using assms
  by (auto simp: finish_fill_def persist_funds_def record_outcome_def mk_outcome_def split: option.splits sum.splits if_splits)

lemma finish_matches:
  assumes fin: "finish_fill numeric (s1\<lparr>ps_funds := f\<rparr>) oc = (Inr oc', s')"
    and s1: "s1 = s\<lparr>ps_broker := b\<rparr>" "service_ready s" "drained b"
      "pa_reference_prices b = pa_reference_prices (ps_broker s)"
      "pb_fills (pa_book b) = service_fills s @ [fr]"
    and oc: "po_accepted oc" "record_entry fr = outcome_entry oc" "priced (ps_cost_model s) oc"
    and f: "funds_ok f" "pfu_available_cash f = pfu_available_cash (ps_funds s) + po_net_cash oc"
  shows "step_matches s s'"
proof -
  note n = finish_fill_Inr [OF fin]
  have "service_ready s'" using n s1 by (auto simp: service_ready_def)
  then show ?thesis using n s1 oc f unfolding step_matches_def
    by (intro conjI exI [of _ "[fr]"] exI [of _ "[oc]"]) simp_all
qed

lemma debit_positive:
  assumes "service_ready s" "ps_reference_prices s ins = Some ref" "decide_fill r ref = Inr d" "fd_fill_price d = Some p"
    "cost_of (ps_cost_model s) p BUY q = Inr (e, n, c)" "0 < q"
  shows "0 < dval (n + c)"
proof -
  have t: "tick_priced ref" "0 \<le> dval (cm_slippage_bps (ps_cost_model s))"
    "0 \<le> dval (cm_commission_per_trade (ps_cost_model s))" using assms(1,2) by (auto simp: service_ready_def)
  have e: "apply_slippage p BUY (ps_cost_model s) = Inr e" and n: "n = e * dec_of_int q"
    and c: "commission_amount n (ps_cost_model s) = Inr c"
    using assms(5) by (auto simp: cost_of_def result_simps Let_def)
  have "0 < dval e" using buy_slippage_tick [OF t(2) tick_priced_fill [OF t(1) assms(3,4)] e] by simp
  then have "0 < dval n" using assms(6) unfolding n by (intro decimal_times_pos) simp_all
  then show ?thesis using commission_nonneg [OF t(3) c] by (rule decimal_plus_pos)
qed

lemma settle_matches:
  assumes run: "settle_fill uuid5 numeric late (s\<lparr>ps_broker := b\<rparr>) a client p t = (Inr oc', s')"
    and s: "service_ready s" "funds_ok (ps_funds s)" "0 < sa_quantity a"
    and b: "drained b" "pa_reference_prices b = pa_reference_prices (ps_broker s)"
      "pb_fills (pa_book b) = service_fills s @ [paper_fill k (service_request uuid5 s a client)
         (paper_order_id uuid5 (pac_account_id (ps_account s)) client) t p]"
    and d: "ps_reference_prices s (sa_instrument_id a) = Some ref"
      "decide_fill (service_request uuid5 s a client) ref = Inr d" "fd_fill_price d = Some p"
    and afford: "affordable uuid5 s a client = Inr True"
  shows "step_matches s s'"
proof -
  let ?s1 = "s\<lparr>ps_broker := b\<rparr>"
  obtain e n c where cost: "cost_of (ps_cost_model s) p (sa_side a) (sa_quantity a) = Inr (e, n, c)"
    using run by (auto simp: settle_fill_def split: sum.splits)
  have entry: "record_entry (paper_fill k (service_request uuid5 s a client)
      (paper_order_id uuid5 (pac_account_id (ps_account s)) client) t p) =
      outcome_entry (accepted_outcome uuid5 ?s1 a client p e c v t)" for v
    by (simp add: record_entry_def outcome_entry_def paper_fill_def accepted_outcome_def service_request_def)
  show ?thesis
  proof (cases "sa_side a")
    case BUY
    note pos = debit_positive [OF s(1) d cost [unfolded BUY] s(3)]
    have le: "n + c \<le> pfu_available_cash (ps_funds s)"
      using afford cost decide_fill_price(1) [OF d(2,3)] d BUY by (simp add: affordable_def can_afford_def)
    have fin: "finish_fill numeric (?s1\<lparr>ps_funds := debited (ps_funds s) (n + c)\<rparr>)
        (accepted_outcome uuid5 ?s1 a client p e c (- (n + c)) t) = (Inr oc', s')"
      using run cost BUY s(2) pos le
      by (simp add: settle_fill_def Let_def buy_settles rep28_plus decimal_order not_le not_less)
    show ?thesis
      by (rule finish_matches [OF fin refl s(1) b _ entry])
         (use s(2) cost BUY le in \<open>auto simp: accepted_outcome_def priced_def funds_ok_debited rep28_plus available_debited\<close>)
  next
    case SELL
    have fin: "0 < dval (n - c)" "finish_fill numeric (?s1\<lparr>ps_funds := credited (ps_funds s) (n - c)\<rparr>)
        (accepted_outcome uuid5 ?s1 a client p e c (n - c) t) = (Inr oc', s')"
      using run cost SELL s(2) by (auto simp: settle_fill_def Let_def sell_credits decimal_order not_le split: if_splits)
    show ?thesis
      by (rule finish_matches [OF fin(2) refl s(1) b _ entry])
         (use s(2) cost SELL fin(1) in \<open>auto simp: accepted_outcome_def priced_def funds_ok_credited available_credited\<close>)
  qed
qed

lemma place_matches:
  assumes run: "place_order uuid5 numeric bclock clock s a client = (Inr oc, s')"
    and s: "service_ready s" "funds_ok (ps_funds s)" "0 < sa_quantity a"
    and afford: "affordable uuid5 s a client = Inr True"
  shows "step_matches s s'"
proof -
  let ?r = "service_request uuid5 s a client"
  have dr: "drained (ps_broker s)" using s(1) by (simp add: service_ready_def)
  obtain fp reason t b where col: "submit_and_collect uuid5 bclock (clock 0) (ps_broker s) ?r = (Inr (fp, reason, t), b)"
    using run by (auto simp: place_order_def split: prod.splits sum.splits)
  from col dr show ?thesis
  proof (cases rule: submit_and_collect_cases)
    case no_fill
    then have "s' = s\<lparr>ps_broker := b, ps_outcomes := ps_outcomes s @ [oc]\<rparr>" "\<not> po_accepted oc"
      using run col record_rejected by (fastforce simp: place_order_def)+
    then show ?thesis using s no_fill by (intro step_matches_same) simp_all
  next
    case (fill ref d p)
    show ?thesis
    proof (rule settle_matches [OF _ s _ _ _ _ fill(3,4) afford])
      show "settle_fill uuid5 numeric (clock 1) (s\<lparr>ps_broker := b\<rparr>) a client p t = (Inr oc, s')"
        using run col fill(1) by (simp add: place_order_def)
    qed (use fill s(1) in \<open>simp_all add: service_ready_def service_request_def\<close>)
  qed
qed

lemma step_matches_from:
  assumes "step_matches s1 s'" "ps_broker s1 = ps_broker s" "ps_outcomes s1 = ps_outcomes s" "ps_funds s1 = ps_funds s"
    "ps_cost_model s1 = ps_cost_model s"
  shows "step_matches s s'"
  using assms by (simp add: step_matches_def)

lemma submit_matches:
  assumes run: "service_submit uuid5 numeric bclock clock s a = (Inr oc, s')"
    and s: "service_ready s" "funds_ok (ps_funds s)"
  shows "step_matches s s'"
proof (cases "sa_quantity a \<le> 0")
  case True
  then show ?thesis using run s reject_matches by (auto simp: service_submit_def split: sum.splits)
next
  case False
  obtain client s1 where c: "client_id_or_next s (sa_client_order_id a) = (client, s1)" by fastforce
  note keeps = client_id_or_next_keeps [of s "sa_client_order_id a", unfolded c snd_conv]
  have s1: "service_ready s1" "funds_ok (ps_funds s1)" using s keeps by (simp_all add: service_ready_def)
  have "step_matches s1 s'"
    using run False c reject_matches [OF _ s1] place_matches [OF _ s1]
    by (auto simp: service_submit_def split: sum.splits bool.splits)
  then show ?thesis by (rule step_matches_from) (simp_all add: keeps)
qed

lemma step_matches_trans:
  assumes "step_matches s s1" "step_matches s1 s2"
  shows "step_matches s s2"
proof -
  from assms obtain fs ocs fs' ocs' where
    "service_fills s1 = service_fills s @ fs" "accepted_of s1 = accepted_of s @ ocs"
    "map record_entry fs = map outcome_entry ocs" "list_all (priced (ps_cost_model s)) ocs"
    "pfu_available_cash (ps_funds s1) = foldl (+) (pfu_available_cash (ps_funds s)) (map po_net_cash ocs)"
    "service_fills s2 = service_fills s1 @ fs'" "accepted_of s2 = accepted_of s1 @ ocs'"
    "map record_entry fs' = map outcome_entry ocs'" "list_all (priced (ps_cost_model s1)) ocs'"
    "pfu_available_cash (ps_funds s2) = foldl (+) (pfu_available_cash (ps_funds s1)) (map po_net_cash ocs')"
    unfolding step_matches_def by blast
  then show ?thesis using assms unfolding step_matches_def
    by (intro conjI exI [of _ "fs @ fs'"] exI [of _ "ocs @ ocs'"]) auto
qed

lemma run_matches:
  assumes "service_run uuid5 s calls = Inr s'" "service_ready s" "funds_ok (ps_funds s)" "list_all call_tick_priced calls"
  shows "step_matches s s'"
  using assms
proof (induction calls arbitrary: s)
  case Nil
  then show ?case by (intro step_matches_same) simp_all
next
  case (Cons c cs)
  obtain s1 where step: "service_step uuid5 s c = (Inr (), s1)" and rest: "service_run uuid5 s1 cs = Inr s'"
    using Cons.prems(1) by (auto split: prod.splits sum.splits)
  have "step_matches s s1"
  proof (cases c)
    case (SubmitOrder bclock clock numeric a)
    then show ?thesis using step submit_matches [OF _ Cons.prems(2,3)]
      by (auto simp: service_step_def split: prod.splits sum.splits)
  next
    case (SetReference ins ref)
    then have s1: "s1 = set_reference_price s ins ref" and t: "tick_priced ref"
      using step Cons.prems(4) by (simp_all add: service_step_def call_tick_priced_def)
    then have "service_ready s1" using Cons.prems(2)
      by (auto simp: service_ready_def set_reference_price_def adapter_set_reference_price_def drained_def)
    then show ?thesis using s1 Cons.prems(3) unfolding step_matches_def
      by (intro conjI exI [of _ "[]"]) (simp_all add: set_reference_price_def adapter_set_reference_price_def)
  qed
  moreover from this have "step_matches s1 s'" using Cons.IH [OF rest] Cons.prems(4) by (simp add: step_matches_def)
  ultimately show ?case by (rule step_matches_trans)
qed

section \<open>A fresh executable order\<close>

lemma decimal_minus_pos: "dval y < dval x \<Longrightarrow> 0 < dval (x - y)"
  using minus_decimal_fix [of x y] dfix_pos by (metis diff_gt_0_iff_gt)

lemma service_request_admissible:
  assumes "\<not> blank client" "0 < sa_quantity a" "paper_order_id uuid5 (pac_account_id (ps_account s)) client < 16 ^ 32"
  shows "admissible uuid5 (service_request uuid5 s a client) (paper_order_id uuid5 (pac_account_id (ps_account s)) client)"
  using assms by (simp add: admissible_def service_request_def resolve_order_id_def Let_def uuid_parse_str)

definition filled_adapter ::
  "paper_adapter \<Rightarrow> broker_order_request \<Rightarrow> uuid \<Rightarrow> datetime \<Rightarrow> decimal \<Rightarrow> paper_adapter" where
  "filled_adapter b r oid t p = b\<lparr>pa_book := snd (pending_events (filled_book (pa_book b) r oid t p)),
     pa_account_by_client := (pa_account_by_client b)(bq_client_order_id r \<mapsto> bq_broker_account_id r)\<rparr>"

lemma broker_fills:
  assumes "pa_connected b" "drained b" "0 \<le> pb_sequence (pa_book b)" "pb_submissions (pa_book b) (book_key r) = None"
    and "admissible uuid5 r oid" "pa_reference_prices b (bq_instrument_id r) = Some ref" "rp_instrument_id ref = bq_instrument_id r"
    and "decide_fill r ref = Inr d" "fd_fill_price d = Some p" "0 < dval p" "tz_aware t"
  shows "submit_and_collect uuid5 (Some t) now b r = (Inr (Some p, None, t), filled_adapter b r oid t p)"
proof -
  have q: "0 < bq_quantity r" using assms(5) by (simp add: admissible_def)
  have "book_submit uuid5 (Some t) (pa_book b) r (Some ref) = (Inr (accept_response r oid t), filled_book (pa_book b) r oid t p)"
    using assms decide_fill_price(1) [OF assms(8,9)]
    by (simp add: book_submit_def admissible_def submit_new_def now_from_def accept_and_fill_cases [OF assms(11) q assms(10)])
  then show ?thesis using assms(1,2,6)
    by (simp add: submit_and_collect_def adapter_submit_order_def adapter_pending_events_def pending_events_def Let_def
        filled_adapter_def drained_def filled_book_def book_record_def collect_fill_events [simplified])
qed

text \<open>An order that nobody placed before, for which the policy has a price and, for a BUY, the ledger has the cash, is
  filled: with a client order id of its own and an active account the service answers with an accepted outcome
  at the price the policy decided, the broker records exactly this fill, and the ledger moves by the net cash of the
  outcome.\<close>

lemma fresh_order_fills:
  assumes ready: "service_ready s" "funds_ok (ps_funds s)" "pa_connected (ps_broker s)" "0 \<le> pb_sequence (pa_book (ps_broker s))"
      "pac_status (ps_account s) = PA_ACTIVE" "ps_repository s = None"
    and a: "sa_client_order_id a = Some client" "\<not> blank client" "0 < sa_quantity a"
      "pb_submissions (pa_book (ps_broker s)) (pac_account_id (ps_account s), client) = None"
    and uuid5: "\<forall>n x. uuid5 n x < 16 ^ 32"
    and ref: "ps_reference_prices s (sa_instrument_id a) = Some ref" "rp_instrument_id ref = sa_instrument_id a"
    and d: "decide_fill (service_request uuid5 s a client) ref = Inr d" "fd_fill_price d = Some p" "tz_aware t"
    and cost: "cost_of (ps_cost_model s) p (sa_side a) (sa_quantity a) = Inr (e, n, c)" "0 < e"
      "case sa_side a of BUY \<Rightarrow> n + c \<le> pfu_available_cash (ps_funds s) | SELL \<Rightarrow> c < n"
  shows "\<exists>oc s'. service_submit uuid5 numeric (Some t) clock s a = (Inr oc, s') \<and> po_accepted oc \<and> po_fill_price oc = Some p \<and>
    po_quantity oc = sa_quantity a \<and> ps_outcomes s' = ps_outcomes s @ [oc] \<and>
    (\<exists>f. pb_fills (pa_book (ps_broker s')) = pb_fills (pa_book (ps_broker s)) @ [f] \<and> record_entry f = outcome_entry oc) \<and>
    pfu_available_cash (ps_funds s') = pfu_available_cash (ps_funds s) + po_net_cash oc"
proof -
  let ?r = "service_request uuid5 s a client" and ?oid = "paper_order_id uuid5 (pac_account_id (ps_account s)) client"
  let ?b = "filled_adapter (ps_broker s) ?r ?oid t p"
  let ?f = "case sa_side a of BUY \<Rightarrow> debited (ps_funds s) (n + c) | SELL \<Rightarrow> credited (ps_funds s) (n - c)"
  let ?oc = "accepted_outcome uuid5 s a client p e c (case sa_side a of BUY \<Rightarrow> - (n + c) | SELL \<Rightarrow> n - c) t"
  have p: "0 < dval p" using decide_fill_decision [OF d(1)] decide_fill_price(1) [OF d(1,2)] d(2) by auto
  have col: "submit_and_collect uuid5 (Some t) (clock 0) (ps_broker s) ?r = (Inr (Some p, None, t), ?b)"
    by (rule broker_fills [OF _ _ _ _ service_request_admissible _ _ d(1,2) p d(3)])
       (use ready a ref uuid5 in \<open>simp_all add: service_ready_def service_request_def book_key_def paper_order_id_def\<close>)
  have afford: "affordable uuid5 s a client = Inr True"
    using cost ref d decide_fill_price(1) [OF d(1,2)]
    by (cases "sa_side a") (simp_all add: affordable_def can_afford_def)
  have "service_submit uuid5 numeric (Some t) clock s a = settle_fill uuid5 numeric (clock 1) (s\<lparr>ps_broker := ?b\<rparr>) a client p t"
    using ready(5) a afford col
    by (auto simp: service_submit_def guard_account_def client_id_or_next_def place_order_def)
  also have "\<dots> = (Inr ?oc, s\<lparr>ps_broker := ?b, ps_funds := ?f, ps_outcomes := ps_outcomes s @ [?oc]\<rparr>)"
    using ready(2,6) cost d(3) p debit_positive [OF ready(1) ref(1) d(1,2) _ a(3)] decimal_minus_pos [of c n]
    by (cases "sa_side a")
       (auto simp: settle_fill_def Let_def buy_settles sell_credits rep28_plus decimal_order finish_fill_def persist_funds_def
         record_outcome_def mk_outcome_def accepted_outcome_def positive_price_def not_le not_less)
  finally have run: "service_submit uuid5 numeric (Some t) clock s a =
    (Inr ?oc, s\<lparr>ps_broker := ?b, ps_funds := ?f, ps_outcomes := ps_outcomes s @ [?oc]\<rparr>)" .
  have entry: "record_entry (paper_fill (pb_sequence (pa_book (ps_broker s))) ?r ?oid t p) = outcome_entry ?oc"
    by (simp add: record_entry_def outcome_entry_def paper_fill_def accepted_outcome_def service_request_def)
  have fills: "pb_fills (pa_book ?b) = service_fills s @ [paper_fill (pb_sequence (pa_book (ps_broker s))) ?r ?oid t p]"
    by (simp add: filled_adapter_def pending_events_def filled_book_def book_record_def)
  have cash: "pfu_available_cash ?f = pfu_available_cash (ps_funds s) + po_net_cash ?oc"
    by (simp add: accepted_outcome_def available_debited available_credited split: order_side.split)
  have fields: "po_accepted ?oc" "po_fill_price ?oc = Some p" "po_quantity ?oc = sa_quantity a"
    by (simp_all add: accepted_outcome_def)
  have "service_submit uuid5 numeric (Some t) clock s a = (Inr oc, s\<lparr>ps_broker := b, ps_funds := f, ps_outcomes := ps_outcomes s @ [oc]\<rparr>) \<Longrightarrow>
      po_accepted oc \<Longrightarrow> po_fill_price oc = Some p \<Longrightarrow> po_quantity oc = sa_quantity a \<Longrightarrow> record_entry fr = outcome_entry oc \<Longrightarrow>
      pb_fills (pa_book b) = service_fills s @ [fr] \<Longrightarrow> pfu_available_cash f = pfu_available_cash (ps_funds s) + po_net_cash oc \<Longrightarrow>
      ?thesis" for oc b f fr
    by auto
  from this [OF run fields entry fills cash] show ?thesis .
qed

section \<open>The theorems\<close>

text \<open>C21.  The cash ledger and the fill trail of the broker agree.  A service starts over a broker without undelivered events
  and with the same reference prices, all of them at least one tick (0.0001), under a valid cost model, and
  makes any sequence of submissions and price changes in which no call raises, repeated client order ids, rejected and
  unaffordable orders included.  Then the accepted outcomes are exactly the fills the broker recorded, in order and with
  the same ids, sides, quantities and prices; every outcome is priced by the cost model; and the available cash is the
  starting cash plus, in order, the net cash of the accepted outcomes.\<close>

theorem paper_ledger_matches_fills:
  assumes "new_service account broker (pa_reference_prices broker) cost repository = Inr s0"
    and "drained broker" "\<forall>ins ref. pa_reference_prices broker ins = Some ref \<longrightarrow> tick_priced ref"
    and "is_ok (mk_cost_model (ps_cost_model s0))" "pfu_reserved_cash (ps_funds s0) = 0"
    and "\<forall>c\<in>set calls. call_tick_priced c" "service_run uuid5 s0 calls = Inr s"
  shows "\<exists>fs. pb_fills (pa_book (ps_broker s)) = pb_fills (pa_book broker) @ fs \<and>
      map record_entry fs = map outcome_entry (filter po_accepted (ps_outcomes s)) \<and>
      (\<forall>oc\<in>set (ps_outcomes s). po_accepted oc \<longrightarrow> priced (ps_cost_model s0) oc) \<and>
      pfu_available_cash (ps_funds s) =
        foldl (+) (pfu_available_cash (ps_funds s0)) (map po_net_cash (filter po_accepted (ps_outcomes s)))"
proof -
  have s0: "ps_broker s0 = broker" "ps_reference_prices s0 = pa_reference_prices broker" "ps_outcomes s0 = []"
    "0 \<le> dval (pfu_available_cash (ps_funds s0))"
    using assms(1)
    by (auto simp: new_service_def load_funds_def mk_funds_def result_simps decimal_order not_less split: if_splits option.splits)
  have "service_ready s0" using s0 assms(2-4)
    by (auto simp: service_ready_def mk_cost_model_def is_ok_iff decimal_order not_less split: if_splits)
  then have "step_matches s0 s" using run_matches [OF assms(7)] s0(4) assms(5,6)
    by (auto simp: funds_ok_def list_all_iff)
  then show ?thesis using s0 by (auto simp: step_matches_def list_all_iff)
qed

definition sample_account :: paper_account where
  "sample_account = \<lparr>pac_account_id = 6, pac_paper_run_id = 2, pac_trading_mode = PAPER, pac_starting_capital = Dec 100000 0,
     pac_status = PA_ACTIVE, pac_created_at = utc 0, pac_reset_at = None\<rparr>"

definition sample_adapter :: paper_adapter where
  "sample_adapter = (new_adapter [5 \<mapsto> sample_reference])\<lparr>pa_connected := True\<rparr>"

definition sample_costs :: paper_cost_model where
  "sample_costs = \<lparr>cm_slippage = FIXED_BPS, cm_slippage_bps = Dec 5 0, cm_commission = FIXED_PER_TRADE,
     cm_commission_per_trade = Dec 20 0\<rparr>"

definition sample_service :: paper_service where
  "sample_service = \<lparr>ps_account = sample_account, ps_broker = sample_adapter, ps_reference_prices = [5 \<mapsto> sample_reference],
     ps_cost_model = sample_costs, ps_repository = None,
     ps_funds = \<lparr>pfu_account_id = 6, pfu_available_cash = Dec 100000 0, pfu_reserved_cash = 0, pfu_currency = ''INR''\<rparr>,
     ps_outcomes = [], ps_sequence = 0\<rparr>"

definition sample_buy :: submit_args where
  "sample_buy = \<lparr>sa_instrument_id = 5, sa_side = BUY, sa_quantity = 10, sa_order_type = MARKET, sa_limit_price = None,
     sa_client_order_id = Some ''c1''\<rparr>"

lemma sample_new_service:
  "new_service sample_account sample_adapter (pa_reference_prices sample_adapter) (Some sample_costs) None = Inr sample_service"
  by (simp add: new_service_def sample_account_def sample_adapter_def sample_service_def new_adapter_def mk_funds_def
      less_decimal_def dle_def rescaled_def zero_decimal_def)

lemma sample_service_ready:
  "service_ready sample_service" "funds_ok (ps_funds sample_service)" "drained sample_adapter"
  "\<forall>ins ref. pa_reference_prices sample_adapter ins = Some ref \<longrightarrow> tick_priced ref"
proof -
  show t: "\<forall>ins ref. pa_reference_prices sample_adapter ins = Some ref \<longrightarrow> tick_priced ref"
    by (simp add: sample_adapter_def new_adapter_def sample_reference_def tick_priced_def less_eq_decimal_def dle_def rescaled_def)
  show d: "drained sample_adapter" by (simp add: drained_def sample_adapter_def new_adapter_def empty_book_def)
  show "service_ready sample_service" using t d
    by (simp add: service_ready_def sample_service_def sample_adapter_def new_adapter_def sample_costs_def dval_def)
  show "funds_ok (ps_funds sample_service)" by (simp add: funds_ok_def sample_service_def dval_def zero_decimal_def)
qed

lemma sample_cost: "cost_of sample_costs (Dec 1000 (-1)) BUY 10 = Inr (Dec 1000500 (-4), Dec 10005000 (-4), Dec 2000 (-2))"
  by code_simp

lemma sample_service_decision:
  "decide_fill (service_request sample_uuid5 sample_service sample_buy ''c1'') sample_reference =
     Inr \<lparr>fd_fills = True, fd_fill_price = Some (Dec 1000 (-1)), fd_fill_quantity = dec_of_int 10, fd_reason = None\<rparr>"
  by (simp add: decide_fill_def decide_buy_def service_request_def sample_buy_def sample_reference_def full_quantity_decision_Inr
      dval_def)

lemma sample_fill:
  "\<exists>oc s'. service_submit sample_uuid5 numeric (Some (utc 1)) clock sample_service sample_buy = (Inr oc, s') \<and> po_accepted oc \<and>
     po_fill_price oc = Some (Dec 1000 (-1)) \<and> ps_outcomes s' = [oc]"
proof -
  have "\<exists>oc s'. service_submit sample_uuid5 numeric (Some (utc 1)) clock sample_service sample_buy = (Inr oc, s') \<and> po_accepted oc \<and>
    po_fill_price oc = Some (Dec 1000 (-1)) \<and> po_quantity oc = sa_quantity sample_buy \<and> ps_outcomes s' = ps_outcomes sample_service @ [oc] \<and>
    (\<exists>f. pb_fills (pa_book (ps_broker s')) = pb_fills (pa_book (ps_broker sample_service)) @ [f] \<and> record_entry f = outcome_entry oc) \<and>
    pfu_available_cash (ps_funds s') = pfu_available_cash (ps_funds sample_service) + po_net_cash oc"
    by (rule fresh_order_fills [OF sample_service_ready(1,2) _ _ _ _ _ _ _ _ _ _ _ sample_service_decision,
          where e = "Dec 1000500 (-4)" and n = "Dec 10005000 (-4)" and c = "Dec 2000 (-2)"])
       (simp_all add: sample_service_def sample_adapter_def new_adapter_def empty_book_def sample_account_def sample_buy_def
         sample_uuid5_def sample_reference_def sample_cost blank_Cons is_space_def decimal_order dval_def powi_m4
         plus_decimal_def dadd_def rescaled_def power_int_minus zero_decimal_def)
  then show ?thesis by (auto simp: sample_service_def)
qed

theorem paper_ledger_matches_fills_witness:
  "\<exists>s fs. service_run sample_uuid5 sample_service [SubmitOrder (Some (utc 1)) (\<lambda>_. utc 2) Some sample_buy] = Inr s \<and>
     pb_fills (pa_book (ps_broker s)) = fs \<and> map record_entry fs = map outcome_entry (ps_outcomes s) \<and> length fs = 1 \<and>
     pfu_available_cash (ps_funds s) = foldl (+) (Dec 100000 0) (map po_net_cash (ps_outcomes s))"
proof -
  let ?calls = "[SubmitOrder (Some (utc 1)) (\<lambda>_. utc 2) Some sample_buy]"
  obtain oc s where run: "service_run sample_uuid5 sample_service ?calls = Inr s" and oc: "po_accepted oc" "ps_outcomes s = [oc]"
    using sample_fill [of Some "\<lambda>_. utc 2"] by (auto simp: service_step_def)
  have "is_ok (mk_cost_model (ps_cost_model sample_service))" "pfu_reserved_cash (ps_funds sample_service) = 0"
    by (simp_all add: sample_service_def mk_cost_model_def sample_costs_def less_decimal_def dle_def rescaled_def zero_decimal_def)
  moreover have "\<forall>c\<in>set ?calls. call_tick_priced c" by (simp add: call_tick_priced_def)
  ultimately obtain fs where "pb_fills (pa_book (ps_broker s)) = pb_fills (pa_book sample_adapter) @ fs"
    "map record_entry fs = map outcome_entry (filter po_accepted (ps_outcomes s))"
    "pfu_available_cash (ps_funds s) =
        foldl (+) (pfu_available_cash (ps_funds sample_service)) (map po_net_cash (filter po_accepted (ps_outcomes s)))"
    using paper_ledger_matches_fills [OF sample_new_service sample_service_ready(3,4) _ _ _ run] by blast
  then show ?thesis using run oc
    by (auto simp: sample_service_def sample_adapter_def new_adapter_def empty_book_def dest: map_eq_imp_length_eq)
qed

text \<open>Every call of a run, the raising ones included, leaves a ledger without negative cash and without a stranded
  reserve.\<close>

lemma service_step_simps [simp]:
  "snd (service_step uuid5 s (SubmitOrder bclock clock numeric a)) = snd (service_submit uuid5 numeric bclock clock s a)"
  "snd (service_step uuid5 s (SetReference ins ref)) = set_reference_price s ins ref"
  by (simp_all add: service_step_def split: prod.split sum.split)

lemma service_step_funds_ok: "funds_ok (ps_funds s) \<Longrightarrow> funds_ok (ps_funds (snd (service_step uuid5 s c)))"
  by (cases c) (simp_all add: service_submit_funds_ok set_reference_price_def)

lemma paper_cash_never_negative:
  assumes "funds_ok (ps_funds s)"
  shows "funds_ok (ps_funds (foldl (\<lambda>s c. snd (service_step uuid5 s c)) s calls))"
  using assms by (induction calls arbitrary: s) (simp_all add: service_step_funds_ok)

section \<open>A client order id is charged once\<close>

lemma adapter_submit_keeps:
  assumes "drained b"
  shows "drained (snd (submit_and_collect uuid5 bclock now b r))"
    and "pb_submissions (pa_book b) k = Some rec \<Longrightarrow>
      pb_submissions (pa_book (snd (submit_and_collect uuid5 bclock now b r))) k = Some rec"
proof -
  obtain res bk where bs: "book_submit uuid5 bclock (pa_book b) r (pa_reference_prices b (bq_instrument_id r)) = (res, bk)"
    by fastforce
  note defs = submit_and_collect_def adapter_submit_order_def adapter_pending_events_def pending_events_def drained_def
  have err: "res = Inl e \<Longrightarrow> bk = pa_book b" for e using bs by (cases rule: book_submit_cases) auto
  show "drained (snd (submit_and_collect uuid5 bclock now b r))"
    using assms err by (auto simp: defs bs split: sum.split)
  show "pb_submissions (pa_book b) k = Some rec \<Longrightarrow>
      pb_submissions (pa_book (snd (submit_and_collect uuid5 bclock now b r))) k = Some rec"
    using submissions_kept [of "pa_book b" k rec uuid5 bclock r "pa_reference_prices b (bq_instrument_id r)"]
    by (auto simp: defs bs split: sum.split)
qed

lemma settle_fill_broker [simp]: "ps_broker (snd (settle_fill uuid5 numeric late s a client p t)) = ps_broker s"
  by (simp add: settle_fill_def Let_def split: sum.split prod.split order_side.split runtime_error.split)

lemma place_order_broker:
  "ps_broker (snd (place_order uuid5 numeric bclock clock s a client)) =
     snd (submit_and_collect uuid5 bclock (clock 0) (ps_broker s) (service_request uuid5 s a client))"
  by (cases "submit_and_collect uuid5 bclock (clock 0) (ps_broker s) (service_request uuid5 s a client)")
     (simp add: place_order_def split: sum.split prod.split option.split)

text \<open>The broker after a call is the broker before it, or the broker after one collected submission.\<close>

lemma service_submit_broker:
  "ps_broker (snd (service_submit uuid5 numeric bclock clock s a)) = ps_broker s \<or>
   (\<exists>r. ps_broker (snd (service_submit uuid5 numeric bclock clock s a)) =
      snd (submit_and_collect uuid5 bclock (clock 0) (ps_broker s) r))"
  by (auto simp: service_submit_def case_prod_beta place_order_broker split: sum.split bool.split)

definition order_known :: "paper_service \<Rightarrow> uuid \<times> string \<Rightarrow> bool" where
  "order_known s k \<longleftrightarrow> drained (ps_broker s) \<and> pb_submissions (pa_book (ps_broker s)) k \<noteq> None"

lemma service_step_known: "order_known s k \<Longrightarrow> order_known (snd (service_step uuid5 s c)) k"
proof (cases c)
  case (SubmitOrder bclock clock numeric a)
  assume known: "order_known s k"
  have "drained b' \<and> pb_submissions (pa_book b') k \<noteq> None"
    if "b' = snd (submit_and_collect uuid5 bclock (clock 0) (ps_broker s) r)" for b' r
    using known adapter_submit_keeps(1) [of "ps_broker s" uuid5 bclock "clock 0" r]
      adapter_submit_keeps(2) [of "ps_broker s" k _ uuid5 bclock "clock 0" r] unfolding that order_known_def by auto
  then show ?thesis using service_submit_broker [of uuid5 numeric bclock clock s a] known
    unfolding order_known_def SubmitOrder service_step_simps by metis
qed (auto simp: set_reference_price_def adapter_set_reference_price_def order_known_def drained_def)

lemma service_run_known:
  "order_known s k \<Longrightarrow> order_known (foldl (\<lambda>s c. snd (service_step uuid5 s c)) s calls) k"
  by (induction calls arbitrary: s) (simp_all add: service_step_known)

lemma known_order_not_filled:
  assumes "drained b" "pb_submissions (pa_book b) (book_key r) \<noteq> None"
    and "submit_and_collect uuid5 bclock now b r = (res, b')"
  shows "pb_fills (pa_book b') = pb_fills (pa_book b)" "res = Inr (fp, reason, t) \<Longrightarrow> fp = None"
proof -
  obtain rs bk where bs: "book_submit uuid5 bclock (pa_book b) r (pa_reference_prices b (bq_instrument_id r)) = (rs, bk)"
    by fastforce
  have bk: "bk = pa_book b" using submit_known [OF assms(2)] bs by (metis snd_conv)
  note defs = submit_and_collect_def adapter_submit_order_def adapter_pending_events_def pending_events_def
  show "pb_fills (pa_book b') = pb_fills (pa_book b)" "res = Inr (fp, reason, t) \<Longrightarrow> fp = None"
    using assms(1,3) bk by (auto simp: defs bs drained_def split: if_splits sum.splits)
qed

lemma record_outcome_account [simp]: "ps_account (snd (record_outcome s oc)) = ps_account s"
  by (simp add: record_outcome_def split: sum.split)

lemma reject_account [simp]: "ps_account (snd (reject_without_fill uuid5 now s a cid why)) = ps_account s"
  by (simp add: reject_without_fill_def case_prod_beta)

lemma settle_fill_account [simp]: "ps_account (snd (settle_fill uuid5 numeric late s a client p t)) = ps_account s"
  by (simp add: settle_fill_def Let_def finish_fill_def persist_funds_def
      split: sum.split prod.split order_side.split runtime_error.split option.split)

lemma service_step_account: "ps_account (snd (service_step uuid5 s c)) = ps_account s"
proof -
  have "ps_account (snd (place_order uuid5 numeric bclock clock s1 a client)) = ps_account s1" for numeric bclock clock s1 a client
    by (simp add: place_order_def split: sum.split prod.split option.split)
  then have "ps_account (snd (service_submit uuid5 numeric bclock clock s a)) = ps_account s" for numeric bclock clock a
    by (simp add: service_submit_def case_prod_beta split: sum.split bool.split)
  then show ?thesis by (cases c) (simp_all add: set_reference_price_def)
qed

lemma service_run_account: "ps_account (foldl (\<lambda>s c. snd (service_step uuid5 s c)) s calls) = ps_account s"
  by (induction calls arbitrary: s) (simp_all add: service_step_account)

lemma reject_not_accepted:
  assumes "reject_without_fill uuid5 now s a cid why = (Inr oc, s')"
  shows "\<not> po_accepted oc" "po_net_cash oc = 0"
  using assms by (auto simp: reject_without_fill_def case_prod_beta record_outcome_def mk_outcome_def rejected_outcome_def
      split: if_splits)

lemma service_submit_named:
  assumes "sa_client_order_id a = Some c" "c \<noteq> []"
  obtains (raise) e where "service_submit uuid5 numeric bclock clock s a = (Inl e, s)"
  | (reject) why where "service_submit uuid5 numeric bclock clock s a = reject_without_fill uuid5 (clock 0) s a (Some c) why"
  | (place) "service_submit uuid5 numeric bclock clock s a = place_order uuid5 numeric bclock clock s a c"
proof -
  have "client_id_or_next s (sa_client_order_id a) = (c, s)" using assms by (simp add: client_id_or_next_def)
  then have eq: "service_submit uuid5 numeric bclock clock s a =
     (case guard_account s of
        Inl e \<Rightarrow> (Inl e, s)
      | Inr _ \<Rightarrow>
          if sa_quantity a \<le> 0
          then reject_without_fill uuid5 (clock 0) s a (Some c) ''quantity must be positive''
          else (case affordable uuid5 s a c of
                     Inl e \<Rightarrow> (Inl e, s)
                   | Inr False \<Rightarrow> reject_without_fill uuid5 (clock 0) s a (Some c) ''insufficient available funds''
                   | Inr True \<Rightarrow> place_order uuid5 numeric bclock clock s a c))"
    using assms(1) by (cases "guard_account s") (simp_all add: service_submit_def)
  show thesis
  proof (cases "guard_account s")
    case (Inr u)
    show thesis
    proof (cases "affordable uuid5 s a c")
      case (Inr b)
      then show thesis using \<open>guard_account s = Inr u\<close> eq that(2,3) by (cases "sa_quantity a \<le> 0"; cases b) simp_all
    qed (use eq Inr that(1,2) in \<open>cases "sa_quantity a \<le> 0", simp_all\<close>)
  qed (use eq that(1) in simp)
qed

lemma accepted_order_known:
  assumes "service_submit uuid5 numeric bclock clock s a = (Inr oc, s')" "po_accepted oc"
    and "sa_client_order_id a = Some c" "c \<noteq> []" "drained (ps_broker s)"
  shows "order_known s' (pac_account_id (ps_account s), c)"
  using assms(3,4)
proof (cases rule: service_submit_named [where ?uuid5.0 = uuid5 and numeric = numeric and bclock = bclock and clock = clock and s = s])
  case place
  let ?r = "service_request uuid5 s a c"
  have place: "place_order uuid5 numeric bclock clock s a c = (Inr oc, s')" using assms(1) place by simp
  obtain col b where col: "submit_and_collect uuid5 bclock (clock 0) (ps_broker s) ?r = (Inr col, b)"
    using place by (auto simp: place_order_def split: prod.splits sum.splits)
  have b: "ps_broker s' = b"
    using place_order_broker [of uuid5 numeric bclock clock s a c] by (simp add: place col)
  obtain resp bk where "book_submit uuid5 bclock (pa_book (ps_broker s)) ?r (pa_reference_prices (ps_broker s) (bq_instrument_id ?r)) = (Inr resp, bk)"
      and bk: "pb_submissions (pa_book b) = pb_submissions bk"
    using col by (auto simp: submit_and_collect_def adapter_submit_order_def adapter_pending_events_def pending_events_def
        split: if_splits prod.splits sum.splits)
  then obtain rec where "pb_submissions bk (book_key ?r) = Some rec" by (metis submit_recorded)
  then show ?thesis using adapter_submit_keeps(1) [OF assms(5), of uuid5 bclock "clock 0" ?r] b bk col
    by (simp add: order_known_def book_key_def service_request_def)
qed (use assms(1,2) in \<open>auto dest: reject_not_accepted sym\<close>)

text \<open>A client order id is charged at most once.  Once an order has been accepted, then after any further calls, raising
  ones included, a submission that uses its client order id again, with whatever contents, moves no cash and adds no
  fill; if it returns, it returns a rejected outcome.  (So a client that retries an accepted order after a lost
  answer is told that the order was rejected.)\<close>

theorem paper_order_charged_once:
  fixes calls :: "service_call list"
  assumes "service_submit uuid5 numeric bclock clock s a = (Inr oc, s1)" "po_accepted oc" "drained (ps_broker s)"
    and "sa_client_order_id a = Some c" "c \<noteq> []" "sa_client_order_id a' = Some c"
  defines "later \<equiv> foldl (\<lambda>s c. snd (service_step uuid5 s c)) s1 calls"
  shows "\<exists>res s2. service_submit uuid5 numeric' bclock' clock' later a' = (res, s2) \<and> ps_funds s2 = ps_funds later \<and>
    pb_fills (pa_book (ps_broker s2)) = pb_fills (pa_book (ps_broker later)) \<and>
    (\<forall>oc'. res = Inr oc' \<longrightarrow> \<not> po_accepted oc' \<and> po_net_cash oc' = 0)"
proof -
  have acc: "ps_account later = ps_account s"
    using service_run_account service_step_account [of uuid5 s "SubmitOrder bclock clock numeric a"] assms(1)
    by (simp add: later_def service_step_def)
  have known: "order_known later (pac_account_id (ps_account later), c)"
    unfolding acc unfolding later_def by (rule service_run_known [OF accepted_order_known [OF assms(1,2,4,5,3)]])
  obtain res s2 where run: "service_submit uuid5 numeric' bclock' clock' later a' = (res, s2)" by fastforce
  from assms(6,5) have "ps_funds s2 = ps_funds later \<and> pb_fills (pa_book (ps_broker s2)) = pb_fills (pa_book (ps_broker later)) \<and>
    (\<forall>oc'. res = Inr oc' \<longrightarrow> \<not> po_accepted oc' \<and> po_net_cash oc' = 0)"
  proof (cases rule: service_submit_named [where ?uuid5.0 = uuid5 and numeric = numeric' and bclock = bclock' and clock = clock' and s = later])
    case (reject why)
    then show ?thesis using run reject_not_accepted reject_keeps [of uuid5 "clock' 0" later a' "Some c" why]
      by (metis snd_conv)
  next
    case place
    obtain cres b where col: "submit_and_collect uuid5 bclock' (clock' 0) (ps_broker later) (service_request uuid5 later a' c) = (cres, b)"
      by fastforce
    have k: "drained (ps_broker later)" "pb_submissions (pa_book (ps_broker later)) (book_key (service_request uuid5 later a' c)) \<noteq> None"
      using known by (simp_all add: order_known_def book_key_def service_request_def)
    note nf = known_order_not_filled [OF k col]
    show ?thesis
    proof (cases cres)
      case (Inl e)
      then show ?thesis using run place col nf(1) by (auto simp: place_order_def)
    next
      case (Inr x)
      then obtain reason t where x: "cres = Inr (None, reason, t)" using nf(2) by (cases x) auto
      then have "record_outcome (later\<lparr>ps_broker := b\<rparr>) (rejected_outcome uuid5 later a' c
          (the (str_or reason (Some ''order rejected by paper broker''))) t) = (res, s2)"
        using run place col by (simp add: place_order_def)
      then show ?thesis using nf(1)
        by (auto simp: record_outcome_def mk_outcome_def rejected_outcome_def split: if_splits)
    qed
  qed (use run in auto)
  then show ?thesis using run by blast
qed

theorem paper_order_charged_once_witness:
  "\<exists>oc s1 s2 res. service_submit sample_uuid5 Some (Some (utc 1)) (\<lambda>_. utc 2) sample_service sample_buy = (Inr oc, s1) \<and> po_accepted oc \<and>
     service_submit sample_uuid5 Some (Some (utc 3)) (\<lambda>_. utc 4) s1 sample_buy = (res, s2) \<and> ps_funds s2 = ps_funds s1"
proof -
  obtain oc s1 where first: "service_submit sample_uuid5 Some (Some (utc 1)) (\<lambda>_. utc 2) sample_service sample_buy = (Inr oc, s1)"
    "po_accepted oc"
    using sample_fill [of Some "\<lambda>_. utc 2"] by auto
  have "drained (ps_broker sample_service)" "sa_client_order_id sample_buy = Some ''c1''" "''c1'' \<noteq> ([] :: string)"
    using sample_service_ready(3) by (simp_all add: sample_service_def sample_buy_def)
  from paper_order_charged_once [OF first this this(2), of Some "Some (utc 3)" "\<lambda>_. utc 4" "[]"] first show ?thesis by auto
qed

section \<open>Routing, persistence and restart\<close>

text \<open>The router is fail-closed: it resolves a mode exactly when a halt hook is present and answers no, no LIVE hook
  answers yes, and the mode is PAPER or BACKTEST in any case; the provider is then the one of that mode, and never LIVE.\<close>

theorem router_exact:
  "router_resolve r mode = Inr p \<longleftrightarrow>
     mr_halt_active r = Some False \<and> mr_live_enabled r \<noteq> Some True \<and>
     (\<exists>m. mode = Some m \<and> (upper m = ''PAPER'' \<and> p = PROVIDER_PAPER \<or> upper m = ''BACKTEST'' \<and> p = PROVIDER_BACKTEST))"
  by (cases mode) (auto simp: router_resolve_def resolve_provider_def Let_def upper_def split: option.splits)

lemma run_round_trip:
  assumes "save_run t r = Inr t'" "mk_run r = Inr r"
  shows "load_run t' (prn_paper_run_id r) = Inr (Some r)"
proof -
  have "enum_of run_status_value [PR_ACTIVE, PR_COMPLETED, PR_RESET] (run_status_value (prn_status r)) = Inr (prn_status r)"
    by (cases "prn_status r") (simp_all add: enum_of_def)
  then show ?thesis using assms by (cases r) (auto simp: save_run_def load_run_def first_row_append split: if_splits)
qed

text \<open>An account read back is the account saved but for its creation time, which the database replaces.\<close>

lemma account_round_trip:
  assumes "save_account numeric db_now t a = Inr t'" "mk_account a = Inr a" "numeric (pac_starting_capital a) = Some (pac_starting_capital a)"
    and "tz_aware db_now"
  shows "load_account t' (pac_account_id a) = Inr (Some (a\<lparr>pac_created_at := db_now\<rparr>))"
proof -
  have "enum_of account_status_value [PA_ACTIVE, PA_SUSPENDED, PA_RESET] (account_status_value (pac_status a)) = Inr (pac_status a)"
    "enum_of trading_mode_value [BACKTEST, PAPER, LIVE] (trading_mode_value (pac_trading_mode a)) = Inr (pac_trading_mode a)"
    by (cases "pac_status a"; simp add: enum_of_def) (cases "pac_trading_mode a"; simp add: enum_of_def)
  then show ?thesis using assms
    by (cases a) (auto simp: save_account_def load_account_def first_row_append mk_account_def split: if_splits option.splits)
qed

lemma funds_round_trip:
  assumes "save_funds numeric t f = Inr t'" "mk_funds f = Inr f"
    and "numeric (pfu_available_cash f) = Some (pfu_available_cash f)" "numeric (pfu_reserved_cash f) = Some (pfu_reserved_cash f)"
  shows "load_funds t' (pfu_account_id f) = Inr (Some f)"
proof -
  have upd: "first_row P (update_rows P (\<lambda>_. row) rows) = Some row" if "first_row P rows \<noteq> None" "P row" for P row and rows :: "paper_funds_row list"
    using that by (induction rows) auto
  show ?thesis using assms
    by (cases f) (auto simp: save_funds_def load_funds_def first_row_append upd Let_def split: option.splits if_splits)
qed

text \<open>A SELL whose commission is at least its proceeds raises after the broker has filled it: the fill is in the trail of
  the broker, but no outcome is recorded and no cash moves.\<close>

lemma sell_fee_raises_after_fill:
  assumes "submit_and_collect uuid5 bclock (clock 0) (ps_broker s) (service_request uuid5 s a c) = (Inr (Some p, reason, t), b)"
    and "pac_status (ps_account s) = PA_ACTIVE" "0 < sa_quantity a" "sa_client_order_id a = Some c" "c \<noteq> []" "sa_side a = SELL"
    and "cost_of (ps_cost_model s) p SELL (sa_quantity a) = Inr (e, n, f)" "n \<le> f"
  shows "service_submit uuid5 numeric bclock clock s a = (Inl (RtValueError ''sell proceeds must be positive''), s\<lparr>ps_broker := b\<rparr>)"
  using assms decimal_minus_nonpos [of n f]
  by (simp add: service_submit_def guard_account_def client_id_or_next_def affordable_def place_order_def settle_fill_def
      credit_sell_def decimal_order Let_def)

text \<open>The counter of generated client order ids starts at zero again in every new service, so a service rebuilt over a
  live broker generates the ids of its predecessor.\<close>

lemma restart_reuses_client_order_ids:
  assumes "new_service account broker refs cost repository = Inr s" "new_service account broker' refs' cost' repository' = Inr s'"
  shows "fst (next_client_order_id s) = fst (next_client_order_id s')"
  using assms by (auto simp: new_service_def next_client_order_id_def Let_def result_simps split: if_splits)

section \<open>The configuration fingerprint\<close>

text \<open>The fingerprint does not depend on the order of the items.\<close>

lemma config_hash_order_free:
  assumes "od_ok parts" "od_ok parts'" "set parts = set parts'"
  shows "compute_config_hash sha256 (Some parts) = compute_config_hash sha256 (Some parts')"
proof -
  have "map_of parts k = Some v \<longleftrightarrow> map_of parts' k = Some v" for k v
    using assms by (simp add: od_ok_def map_of_eq_Some_iff)
  then have "map_of parts k = map_of parts' k" for k by (metis option.exhaust)
  moreover have "sort (map fst parts) = sort (map fst parts')"
    using assms by (intro sorted_distinct_set_unique) (simp_all add: od_ok_def)
  ultimately show ?thesis by (simp add: compute_config_hash_def canonical_config_def)
qed

text \<open>Keys and values are joined without escaping, so two different configurations can share a fingerprint.\<close>

lemma config_hash_ambiguous:
  "compute_config_hash sha256 (Some [(''a'', ''1&b=2'')]) = compute_config_hash sha256 (Some [(''a'', ''1''), (''b'', ''2'')])"
  by (simp add: compute_config_hash_def canonical_config_def)

end
