(* ===== verification/Recon_Matching.thy ===== *)
theory Recon_Matching
  imports Position_Engine Paper_Broker Signal_Contract
begin

text \<open>
  Reconciliation matching (\<^verbatim>\<open>services/reconciliation_engine/alpha_algo_reconciliation_engine\<close>): the contracts
  (\<^verbatim>\<open>contracts.py\<close>), tolerances (\<^verbatim>\<open>tolerance.py\<close>), identity (\<^verbatim>\<open>identity.py\<close>), the observations of positions
  (\<^verbatim>\<open>adapters.py\<close>) and the comparison of orders, executions, positions and funds (\<^verbatim>\<open>matching.py\<close>).

  The two SHA-256 digests over JSON text are parameters.  A dictionary is the list of its items in insertion order.
  \<^verbatim>\<open>reconcile_orders\<close> and \<^verbatim>\<open>reconcile_executions\<close> are the same three loops over different observations: the loops are
  defined once, over what the two functions put into them.
\<close>

section \<open>Contracts\<close>

datatype recon_run_status = RUN_PENDING | RUN_RUNNING | RUN_COMPLETED | RUN_PARTIAL | RUN_FAILED
datatype severity = SEV_INFO | SEV_WARNING | SEV_HIGH | SEV_CRITICAL
datatype resolution_status = RES_DETECTED | RES_CLASSIFIED | RES_OPEN | RES_INVESTIGATING | RES_RESOLVED | RES_ACKNOWLEDGED | RES_ESCALATED
datatype entity_type = ORDER_ENTITY | EXECUTION_ENTITY | POSITION_ENTITY | FUNDS_ENTITY

datatype discrepancy_kind =
    K_MATCH | K_INTERNAL_ONLY | K_BROKER_ONLY | K_STATUS_MISMATCH | K_QUANTITY_MISMATCH | K_PRICE_MISMATCH | K_FEE_MISMATCH
  | K_AVERAGE_PRICE_MISMATCH | K_SIDE_MISMATCH | K_ORDER_TYPE_MISMATCH | K_ACCOUNT_MISMATCH | K_INSTRUMENT_MISMATCH
  | K_CASH_MISMATCH | K_MARGIN_MISMATCH | K_ORDER_LINK_MISMATCH | K_DUPLICATE_EXECUTION | K_ROUNDING_DIFFERENCE | K_CONFLICT
  | K_UNKNOWN | K_STALE

fun entity_type_value :: "entity_type \<Rightarrow> string" where
  "entity_type_value ORDER_ENTITY = ''ORDER''"
| "entity_type_value EXECUTION_ENTITY = ''EXECUTION''"
| "entity_type_value POSITION_ENTITY = ''POSITION''"
| "entity_type_value FUNDS_ENTITY = ''FUNDS''"

fun kind_value :: "discrepancy_kind \<Rightarrow> string" where
  "kind_value K_MATCH = ''MATCH''"
| "kind_value K_INTERNAL_ONLY = ''INTERNAL_ONLY''"
| "kind_value K_BROKER_ONLY = ''BROKER_ONLY''"
| "kind_value K_STATUS_MISMATCH = ''STATUS_MISMATCH''"
| "kind_value K_QUANTITY_MISMATCH = ''QUANTITY_MISMATCH''"
| "kind_value K_PRICE_MISMATCH = ''PRICE_MISMATCH''"
| "kind_value K_FEE_MISMATCH = ''FEE_MISMATCH''"
| "kind_value K_AVERAGE_PRICE_MISMATCH = ''AVERAGE_PRICE_MISMATCH''"
| "kind_value K_SIDE_MISMATCH = ''SIDE_MISMATCH''"
| "kind_value K_ORDER_TYPE_MISMATCH = ''ORDER_TYPE_MISMATCH''"
| "kind_value K_ACCOUNT_MISMATCH = ''ACCOUNT_MISMATCH''"
| "kind_value K_INSTRUMENT_MISMATCH = ''INSTRUMENT_MISMATCH''"
| "kind_value K_CASH_MISMATCH = ''CASH_MISMATCH''"
| "kind_value K_MARGIN_MISMATCH = ''MARGIN_MISMATCH''"
| "kind_value K_ORDER_LINK_MISMATCH = ''ORDER_LINK_MISMATCH''"
| "kind_value K_DUPLICATE_EXECUTION = ''DUPLICATE_EXECUTION''"
| "kind_value K_ROUNDING_DIFFERENCE = ''ROUNDING_DIFFERENCE''"
| "kind_value K_CONFLICT = ''CONFLICT''"
| "kind_value K_UNKNOWN = ''UNKNOWN''"
| "kind_value K_STALE = ''STALE''"

record order_observation =
  oo_source :: string
  oo_broker_order_id :: "string option"
  oo_client_order_id :: "string option"
  oo_account_id :: "uuid option"
  oo_instrument_id :: "uuid option"
  oo_side :: "string option"
  oo_quantity :: "int option"
  oo_order_type :: "string option"
  oo_status :: "string option"
  oo_observed_at :: "datetime option"

record execution_observation =
  eo_source :: string
  eo_broker_execution_id :: "string option"
  eo_execution_id :: "string option"
  eo_order_id :: "uuid option"
  eo_broker_order_id :: "string option"
  eo_account_id :: "uuid option"
  eo_instrument_id :: "uuid option"
  eo_side :: "string option"
  eo_quantity :: "decimal option"
  eo_price :: "decimal option"
  eo_fees :: "decimal option"
  eo_status :: "string option"
  eo_observed_at :: "datetime option"

record position_observation =
  qo_source :: string
  qo_account_id :: "uuid option"
  qo_instrument_id :: "uuid option"
  qo_quantity :: int
  qo_side :: string
  qo_average_price :: "decimal option"
  qo_observed_at :: "datetime option"

record funds_observation =
  fo_source :: string
  fo_account_id :: "uuid option"
  fo_available_cash :: "decimal option"
  fo_available_margin :: "decimal option"
  fo_used_margin :: "decimal option"
  fo_currency :: string
  fo_observed_at :: "datetime option"

record discrepancy =
  dc_id :: "uuid option"
  dc_key :: string
  dc_run_id :: uuid
  dc_account_id :: uuid
  dc_broker :: string
  dc_trading_mode :: string
  dc_entity_type :: entity_type
  dc_entity_id :: string
  dc_kind :: discrepancy_kind
  dc_severity :: severity
  dc_internal_state :: payload
  dc_broker_state :: payload
  dc_resolution_status :: resolution_status
  dc_content_hash :: string
  dc_observed_at :: "datetime option"

datatype recon_error =
    ReconciliationModeError string
  | ReconciliationValidationError string
  | ReconciliationPersistenceError string
  | ReconciliationDataError string
  | DuplicateDiscrepancyError string
  | ReconTypeError

section \<open>Tolerances\<close>

record tolerance =
  tol_price_epsilon :: decimal
  tol_fee_epsilon :: decimal
  tol_funds_epsilon :: decimal

definition default_tolerance :: tolerance where
  "default_tolerance = \<lparr>tol_price_epsilon = Dec 1 (-4), tol_fee_epsilon = Dec 1 (-2), tol_funds_epsilon = Dec 1 (-2)\<rparr>"

definition within_eps :: "decimal option \<Rightarrow> decimal option \<Rightarrow> decimal \<Rightarrow> bool" where
  "within_eps a b eps =
     (case (a, b) of (Some x, Some y) \<Rightarrow> dabs (x - y) \<le> eps | (None, None) \<Rightarrow> True | _ \<Rightarrow> False)"

section \<open>Identity and evidence\<close>

record recon_hash =
  rh_key :: digest
  rh_content :: "payload \<Rightarrow> payload \<Rightarrow> string option \<Rightarrow> string"

record match_context =
  mc_run_id :: uuid
  mc_account_id :: uuid
  mc_broker :: string
  mc_trading_mode :: string

definition compute_discrepancy_key :: "recon_hash \<Rightarrow> uuid \<Rightarrow> string \<Rightarrow> string \<Rightarrow> string \<Rightarrow> string" where
  "compute_discrepancy_key h account entity_type entity_id kind =
     rh_key h [(''account_id'', PStr (uuid_str account)), (''entity_type'', PStr entity_type), (''entity_id'', PStr entity_id),
       (''kind'', PStr kind)]"

definition discrepancy_content_hash :: "recon_hash \<Rightarrow> payload \<Rightarrow> payload \<Rightarrow> datetime option \<Rightarrow> string" where
  "discrepancy_content_hash h internal_state broker_state observed_at =
     rh_content h internal_state broker_state (map_option isoformat observed_at)"

definition severity_of :: "discrepancy_kind \<Rightarrow> entity_type \<Rightarrow> severity" where
  "severity_of kind et =
     (if kind = K_ROUNDING_DIFFERENCE then SEV_INFO
      else if kind \<in> {K_UNKNOWN, K_STALE} then SEV_WARNING
      else if kind = K_INTERNAL_ONLY then SEV_WARNING
      else if kind = K_BROKER_ONLY \<and> et = EXECUTION_ENTITY then SEV_CRITICAL
      else if kind = K_BROKER_ONLY then SEV_WARNING
      else if kind = K_DUPLICATE_EXECUTION then SEV_HIGH
      else if kind = K_CONFLICT then SEV_HIGH
      else if kind \<in> {K_CASH_MISMATCH, K_MARGIN_MISMATCH} then SEV_WARNING
      else SEV_HIGH)"

definition new_discrepancy ::
  "recon_hash \<Rightarrow> match_context \<Rightarrow> entity_type \<Rightarrow> string \<Rightarrow> discrepancy_kind \<Rightarrow> payload \<Rightarrow> payload \<Rightarrow> datetime option
   \<Rightarrow> discrepancy" where
  "new_discrepancy h ctx et eid kind internal_state broker_state observed_at =
     \<lparr>dc_id = None, dc_key = compute_discrepancy_key h (mc_account_id ctx) (entity_type_value et) eid (kind_value kind),
      dc_run_id = mc_run_id ctx, dc_account_id = mc_account_id ctx, dc_broker = mc_broker ctx,
      dc_trading_mode = mc_trading_mode ctx, dc_entity_type = et, dc_entity_id = eid, dc_kind = kind,
      dc_severity = severity_of kind et, dc_internal_state = internal_state, dc_broker_state = broker_state,
      dc_resolution_status = RES_OPEN, dc_content_hash = discrepancy_content_hash h internal_state broker_state observed_at,
      dc_observed_at = observed_at\<rparr>"

record comparison =
  cp_discrepancies :: "discrepancy list"
  cp_matched :: nat
  cp_internal_only :: nat
  cp_broker_only :: nat
  cp_unknown :: nat
  cp_unavailable :: nat

definition no_comparison :: comparison where
  "no_comparison = \<lparr>cp_discrepancies = [], cp_matched = 0, cp_internal_only = 0, cp_broker_only = 0, cp_unknown = 0,
     cp_unavailable = 0\<rparr>"

section \<open>Keyed comparison\<close>

text \<open>\<^verbatim>\<open>broker_index.setdefault(key, []).append(o)\<close>\<close>

definition index_add :: "('o \<Rightarrow> string option) \<Rightarrow> (string, 'o list) odict \<Rightarrow> 'o \<Rightarrow> (string, 'o list) odict" where
  "index_add key idx obs =
     (case key obs of
        None \<Rightarrow> idx
      | Some k \<Rightarrow> od_set k ((case map_of idx k of None \<Rightarrow> [] | Some g \<Rightarrow> g) @ [obs]) idx)"

definition broker_index_of :: "('o \<Rightarrow> string option) \<Rightarrow> 'o list \<Rightarrow> (string, 'o list) odict" where
  "broker_index_of key obs = foldl (index_add key) [] obs"

text \<open>The first entry of a group whose position is not consumed.  The set of consumed positions is shared by all groups,
  as in the source.\<close>

fun first_free :: "nat set \<Rightarrow> nat \<Rightarrow> 'o list \<Rightarrow> (nat \<times> 'o) option" where
  "first_free consumed j [] = None"
| "first_free consumed j (x # xs) = (if j \<in> consumed then first_free consumed (Suc j) xs else Some (j, x))"

text \<open>What \<^verbatim>\<open>reconcile_orders\<close> and \<^verbatim>\<open>reconcile_executions\<close> put into the loops.\<close>

record 'o keyed =
  kd_entity :: entity_type
  kd_key :: "'o \<Rightarrow> string option"
  kd_compare :: "'o \<Rightarrow> 'o \<Rightarrow> discrepancy_kind list"
  kd_state :: "'o \<Rightarrow> payload"
  kd_observed :: "'o \<Rightarrow> datetime option"
  kd_duplicate :: discrepancy_kind
  kd_broker_entity :: "string \<Rightarrow> 'o \<Rightarrow> string"

definition duplicate_groups :: "recon_hash \<Rightarrow> match_context \<Rightarrow> 'o keyed \<Rightarrow> (string, 'o list) odict \<Rightarrow> discrepancy list" where
  "duplicate_groups h ctx kd idx =
     map (\<lambda>(key, g). new_discrepancy h ctx (kd_entity kd) key (kd_duplicate kd) [] [(''duplicate_count'', PInt (int (length g)))]
            (kd_observed kd (hd g)))
       (filter (\<lambda>(key, g). 1 < length g) idx)"

text \<open>\<^verbatim>\<open>key or str(i)\<close>\<close>

definition entity_or_index :: "string option \<Rightarrow> nat \<Rightarrow> string" where
  "entity_or_index key i = the (str_or key (Some (nat_str i)))"

fun match_loop ::
  "recon_hash \<Rightarrow> match_context \<Rightarrow> 'o keyed \<Rightarrow> (string, 'o list) odict \<Rightarrow> nat \<Rightarrow> nat set \<Rightarrow> comparison \<Rightarrow> 'o list
   \<Rightarrow> nat set \<times> comparison" where
  "match_loop h ctx kd idx i consumed cp [] = (consumed, cp)"
| "match_loop h ctx kd idx i consumed cp (obs # rest) =
     (let key = kd_key kd obs; eid = entity_or_index key i in
      case (case key of None \<Rightarrow> None | Some k \<Rightarrow>
              (case map_of idx k of None \<Rightarrow> None | Some g \<Rightarrow> first_free consumed 0 g)) of
        None \<Rightarrow>
          match_loop h ctx kd idx (Suc i) consumed
            (cp\<lparr>cp_internal_only := cp_internal_only cp + 1,
                cp_discrepancies := cp_discrepancies cp @
                  [new_discrepancy h ctx (kd_entity kd) eid K_INTERNAL_ONLY (kd_state kd obs) [] (kd_observed kd obs)]\<rparr>) rest
      | Some (j, bo) \<Rightarrow>
          let kinds = kd_compare kd obs bo in
          match_loop h ctx kd idx (Suc i) (insert j consumed)
            (if kinds = [] then cp\<lparr>cp_matched := cp_matched cp + 1\<rparr>
             else cp\<lparr>cp_discrepancies := cp_discrepancies cp @
                   map (\<lambda>kind. new_discrepancy h ctx (kd_entity kd) eid kind (kd_state kd obs) (kd_state kd bo) (kd_observed kd bo))
                     kinds\<rparr>) rest)"

definition unconsumed :: "nat set \<Rightarrow> (string, 'o list) odict \<Rightarrow> (string \<times> 'o) list" where
  "unconsumed consumed idx =
     concat (map (\<lambda>(key, g). map (\<lambda>(j, bo). (key, bo)) (filter (\<lambda>(j, bo). j \<notin> consumed) (enumerate 0 g))) idx)"

definition broker_only_loop ::
  "recon_hash \<Rightarrow> match_context \<Rightarrow> 'o keyed \<Rightarrow> (string, 'o list) odict \<Rightarrow> nat set \<times> comparison \<Rightarrow> comparison" where
  "broker_only_loop h ctx kd idx r =
     (let (consumed, cp) = r; free = unconsumed consumed idx in
      cp\<lparr>cp_broker_only := cp_broker_only cp + length free,
         cp_discrepancies := cp_discrepancies cp @
           map (\<lambda>(key, bo). new_discrepancy h ctx (kd_entity kd) (kd_broker_entity kd key bo) K_BROKER_ONLY [] (kd_state kd bo)
                  (kd_observed kd bo)) free\<rparr>)"

definition reconcile_keyed :: "recon_hash \<Rightarrow> match_context \<Rightarrow> 'o keyed \<Rightarrow> 'o list \<Rightarrow> 'o list \<Rightarrow> comparison" where
  "reconcile_keyed h ctx kd internal broker =
     (let idx = broker_index_of (kd_key kd) broker in
      broker_only_loop h ctx kd idx
        (match_loop h ctx kd idx 0 {} (no_comparison\<lparr>cp_discrepancies := duplicate_groups h ctx kd idx\<rparr>) internal))"

section \<open>Orders\<close>

definition order_match_key :: "order_observation \<Rightarrow> string option" where
  "order_match_key obs = str_or (oo_broker_order_id obs) (oo_client_order_id obs)"

text \<open>Both present and different.\<close>

definition both_differ :: "'a option \<Rightarrow> 'a option \<Rightarrow> bool" where
  "both_differ a b = (case (a, b) of (Some x, Some y) \<Rightarrow> x \<noteq> y | _ \<Rightarrow> False)"

definition when_kind :: "bool \<Rightarrow> discrepancy_kind \<Rightarrow> discrepancy_kind list" where
  "when_kind b k = (if b then [k] else [])"

definition compare_order_fields :: "order_observation \<Rightarrow> order_observation \<Rightarrow> discrepancy_kind list" where
  "compare_order_fields internal broker =
     when_kind (both_differ (oo_status internal) (oo_status broker)) K_STATUS_MISMATCH @
     when_kind (both_differ (oo_quantity internal) (oo_quantity broker)) K_QUANTITY_MISMATCH @
     when_kind (both_differ (oo_side internal) (oo_side broker)) K_SIDE_MISMATCH @
     when_kind (both_differ (oo_order_type internal) (oo_order_type broker)) K_ORDER_TYPE_MISMATCH @
     when_kind (both_differ (oo_instrument_id internal) (oo_instrument_id broker)) K_INSTRUMENT_MISMATCH @
     when_kind (both_differ (oo_account_id internal) (oo_account_id broker)) K_ACCOUNT_MISMATCH"

definition opt_val :: "('a \<Rightarrow> pyval) \<Rightarrow> 'a option \<Rightarrow> pyval" where
  "opt_val f v = (case v of None \<Rightarrow> PNone | Some x \<Rightarrow> f x)"

abbreviation uuid_text :: "uuid option \<Rightarrow> pyval" where
  "uuid_text \<equiv> opt_val (\<lambda>u. PStr (uuid_str u))"

abbreviation decimal_text :: "decimal option \<Rightarrow> pyval" where
  "decimal_text \<equiv> opt_val (\<lambda>d. PStr (decimal_str d))"

definition order_observed_state :: "order_observation \<Rightarrow> payload" where
  "order_observed_state obs = [(''broker_order_id'', opt_str (oo_broker_order_id obs)), (''client_order_id'', opt_str (oo_client_order_id obs)),
     (''status'', opt_str (oo_status obs)), (''quantity'', opt_val PInt (oo_quantity obs)), (''side'', opt_str (oo_side obs)),
     (''order_type'', opt_str (oo_order_type obs)), (''instrument_id'', uuid_text (oo_instrument_id obs)),
     (''account_id'', uuid_text (oo_account_id obs))]"

definition order_keyed :: "order_observation keyed" where
  "order_keyed = \<lparr>kd_entity = ORDER_ENTITY, kd_key = order_match_key, kd_compare = compare_order_fields, kd_state = order_observed_state,
     kd_observed = oo_observed_at, kd_duplicate = K_CONFLICT,
     kd_broker_entity = (\<lambda>key bo. the (str_or (Some key) (str_or (oo_client_order_id bo) (Some ''''))))\<rparr>"

definition reconcile_orders ::
  "recon_hash \<Rightarrow> match_context \<Rightarrow> order_observation list \<Rightarrow> order_observation list \<Rightarrow> comparison" where
  "reconcile_orders h ctx internal broker = reconcile_keyed h ctx order_keyed internal broker"

section \<open>Executions\<close>

definition execution_match_key :: "execution_observation \<Rightarrow> string option" where
  "execution_match_key obs = str_or (eo_broker_execution_id obs) (str_or (eo_execution_id obs) (eo_broker_order_id obs))"

definition both_apart :: "decimal option \<Rightarrow> decimal option \<Rightarrow> decimal \<Rightarrow> bool" where
  "both_apart a b eps = (a \<noteq> None \<and> b \<noteq> None \<and> \<not> within_eps a b eps)"

definition compare_execution_fields ::
  "tolerance \<Rightarrow> execution_observation \<Rightarrow> execution_observation \<Rightarrow> discrepancy_kind list" where
  "compare_execution_fields tol internal broker =
     when_kind (case (eo_quantity internal, eo_quantity broker) of (Some x, Some y) \<Rightarrow> \<not> deq x y | _ \<Rightarrow> False) K_QUANTITY_MISMATCH @
     when_kind (both_apart (eo_price internal) (eo_price broker) (tol_price_epsilon tol)) K_PRICE_MISMATCH @
     when_kind (both_apart (eo_fees internal) (eo_fees broker) (tol_fee_epsilon tol)) K_FEE_MISMATCH @
     when_kind (both_differ (eo_order_id internal) (eo_order_id broker)) K_ORDER_LINK_MISMATCH @
     when_kind (both_differ (eo_side internal) (eo_side broker)) K_SIDE_MISMATCH"

definition exec_state :: "execution_observation \<Rightarrow> payload" where
  "exec_state obs = [(''broker_execution_id'', opt_str (eo_broker_execution_id obs)), (''execution_id'', opt_str (eo_execution_id obs)),
     (''order_id'', uuid_text (eo_order_id obs)), (''quantity'', decimal_text (eo_quantity obs)),
     (''price'', decimal_text (eo_price obs)), (''fees'', decimal_text (eo_fees obs)), (''side'', opt_str (eo_side obs)),
     (''status'', opt_str (eo_status obs))]"

definition execution_keyed :: "tolerance \<Rightarrow> execution_observation keyed" where
  "execution_keyed tol = \<lparr>kd_entity = EXECUTION_ENTITY, kd_key = execution_match_key, kd_compare = compare_execution_fields tol,
     kd_state = exec_state, kd_observed = eo_observed_at, kd_duplicate = K_DUPLICATE_EXECUTION,
     kd_broker_entity = (\<lambda>key be. key)\<rparr>"

definition reconcile_executions ::
  "recon_hash \<Rightarrow> match_context \<Rightarrow> tolerance \<Rightarrow> execution_observation list \<Rightarrow> execution_observation list \<Rightarrow> comparison" where
  "reconcile_executions h ctx tol internal broker = reconcile_keyed h ctx (execution_keyed tol) internal broker"

section \<open>Positions\<close>

definition opt_uuid_str :: "uuid option \<Rightarrow> string" where
  "opt_uuid_str u = (case u of None \<Rightarrow> ''None'' | Some x \<Rightarrow> uuid_str x)"

definition position_match_key :: "position_observation \<Rightarrow> string" where
  "position_match_key obs = opt_uuid_str (qo_account_id obs) @ '':'' @ opt_uuid_str (qo_instrument_id obs)"

definition compare_position_fields ::
  "tolerance \<Rightarrow> position_observation \<Rightarrow> position_observation \<Rightarrow> discrepancy_kind list" where
  "compare_position_fields tol internal broker =
     when_kind (qo_quantity internal \<noteq> qo_quantity broker) K_QUANTITY_MISMATCH @
     when_kind (qo_side internal \<noteq> qo_side broker) K_SIDE_MISMATCH @
     when_kind (both_apart (qo_average_price internal) (qo_average_price broker) (tol_price_epsilon tol)) K_AVERAGE_PRICE_MISMATCH"

definition position_observed_state :: "position_observation \<Rightarrow> payload" where
  "position_observed_state obs = [(''account_id'', uuid_text (qo_account_id obs)), (''instrument_id'', uuid_text (qo_instrument_id obs)),
     (''quantity'', PInt (qo_quantity obs)), (''side'', PStr (qo_side obs)), (''average_price'', decimal_text (qo_average_price obs))]"

text \<open>\<^verbatim>\<open>(now - observed_at).total_seconds() > stale_seconds\<close>, and not stale when one of the three is absent.\<close>

definition observation_stale ::
  "datetime option \<Rightarrow> int option \<Rightarrow> datetime option \<Rightarrow> (recon_error, bool) result" where
  "observation_stale now stale_seconds observed_at =
     (case (observed_at, now, stale_seconds) of
        (Some t, Some n, Some s) \<Rightarrow>
          (case datetime_diff n t of None \<Rightarrow> Inl ReconTypeError | Some us \<Rightarrow> Inr (s * 1000000 < us))
      | _ \<Rightarrow> Inr False)"

definition position_index :: "position_observation list \<Rightarrow> (string, position_observation) odict" where
  "position_index broker = foldl (\<lambda>d o'. od_set (position_match_key o') o' d) [] broker"

fun position_loop ::
  "recon_hash \<Rightarrow> match_context \<Rightarrow> tolerance \<Rightarrow> int option \<Rightarrow> datetime option \<Rightarrow> (string, position_observation) odict
   \<Rightarrow> string set \<Rightarrow> comparison \<Rightarrow> position_observation list \<Rightarrow> (recon_error, string set \<times> comparison) result" where
  "position_loop h ctx tol stale now idx consumed cp [] = Inr (consumed, cp)"
| "position_loop h ctx tol stale now idx consumed cp (obs # rest) =
     (let key = position_match_key obs in
      case map_of idx key of
        None \<Rightarrow> position_loop h ctx tol stale now idx consumed
          (cp\<lparr>cp_internal_only := cp_internal_only cp + 1,
              cp_discrepancies := cp_discrepancies cp @
                [new_discrepancy h ctx POSITION_ENTITY key K_INTERNAL_ONLY (position_observed_state obs) [] (qo_observed_at obs)]\<rparr>) rest
      | Some bo \<Rightarrow>
          rbind (observation_stale now stale (qo_observed_at bo)) (\<lambda>is_stale.
            let dis = (\<lambda>kind. new_discrepancy h ctx POSITION_ENTITY key kind (position_observed_state obs)
                         (position_observed_state bo) (qo_observed_at bo));
                kinds = compare_position_fields tol obs bo in
            position_loop h ctx tol stale now idx (insert key consumed)
              (if is_stale
               then cp\<lparr>cp_unknown := cp_unknown cp + 1, cp_discrepancies := cp_discrepancies cp @ [dis K_STALE]\<rparr>
               else if kinds = [] then cp\<lparr>cp_matched := cp_matched cp + 1\<rparr>
               else cp\<lparr>cp_discrepancies := cp_discrepancies cp @ map dis kinds\<rparr>) rest))"

definition reconcile_positions ::
  "recon_hash \<Rightarrow> match_context \<Rightarrow> tolerance \<Rightarrow> int option \<Rightarrow> datetime option \<Rightarrow> position_observation list
   \<Rightarrow> position_observation list \<Rightarrow> (recon_error, comparison) result" where
  "reconcile_positions h ctx tol stale now internal broker =
     (let idx = position_index broker in
      rbind (position_loop h ctx tol stale now idx {} no_comparison internal) (\<lambda>(consumed, cp).
        let free = filter (\<lambda>(key, bo). key \<notin> consumed) idx in
        Inr (cp\<lparr>cp_broker_only := cp_broker_only cp + length free,
                cp_discrepancies := cp_discrepancies cp @
                  map (\<lambda>(key, bo). new_discrepancy h ctx POSITION_ENTITY key K_BROKER_ONLY [] (position_observed_state bo)
                         (qo_observed_at bo)) free\<rparr>)))"

section \<open>Funds\<close>

definition funds_state :: "funds_observation \<Rightarrow> payload" where
  "funds_state obs = [(''account_id'', uuid_text (fo_account_id obs)), (''available_cash'', decimal_text (fo_available_cash obs)),
     (''available_margin'', decimal_text (fo_available_margin obs)), (''used_margin'', decimal_text (fo_used_margin obs)),
     (''currency'', PStr (fo_currency obs))]"

definition compare_funds :: "tolerance \<Rightarrow> funds_observation \<Rightarrow> funds_observation \<Rightarrow> discrepancy_kind list" where
  "compare_funds tol internal broker =
     when_kind (\<not> within_eps (fo_available_cash internal) (fo_available_cash broker) (tol_funds_epsilon tol)) K_CASH_MISMATCH @
     when_kind (\<not> within_eps (fo_available_margin internal) (fo_available_margin broker) (tol_funds_epsilon tol)) K_MARGIN_MISMATCH @
     when_kind (\<not> within_eps (fo_used_margin internal) (fo_used_margin broker) (tol_funds_epsilon tol)) K_MARGIN_MISMATCH"

definition reconcile_funds ::
  "recon_hash \<Rightarrow> match_context \<Rightarrow> tolerance \<Rightarrow> int option \<Rightarrow> datetime option \<Rightarrow> funds_observation option
   \<Rightarrow> funds_observation option \<Rightarrow> (recon_error, comparison) result" where
  "reconcile_funds h ctx tol stale now internal broker =
     (let dis = new_discrepancy h ctx FUNDS_ENTITY (uuid_str (mc_account_id ctx)) in
      case broker of
        None \<Rightarrow> Inr (no_comparison\<lparr>cp_unavailable := 1,
          cp_discrepancies := [dis K_UNKNOWN (case internal of None \<Rightarrow> [] | Some i \<Rightarrow> funds_state i) [] None]\<rparr>)
      | Some b \<Rightarrow>
          case internal of
            None \<Rightarrow> Inr (no_comparison\<lparr>cp_unknown := 1, cp_discrepancies := [dis K_UNKNOWN [] (funds_state b) (fo_observed_at b)]\<rparr>)
          | Some i \<Rightarrow>
              rbind (observation_stale now stale (fo_observed_at b)) (\<lambda>is_stale.
                let kinds = compare_funds tol i b in
                Inr (if is_stale
                     then no_comparison\<lparr>cp_unknown := 1,
                            cp_discrepancies := [dis K_STALE (funds_state i) (funds_state b) (fo_observed_at b)]\<rparr>
                     else if kinds = [] then no_comparison\<lparr>cp_matched := 1\<rparr>
                     else no_comparison\<lparr>cp_discrepancies :=
                            map (\<lambda>kind. dis kind (funds_state i) (funds_state b) (fo_observed_at b)) kinds\<rparr>)))"

section \<open>Observations of positions\<close>

fun position_side_value :: "position_side \<Rightarrow> string" where
  "position_side_value LONG = ''LONG''"
| "position_side_value SHORT = ''SHORT''"

definition position_observation_from_internal :: "position_snapshot \<Rightarrow> position_observation" where
  "position_observation_from_internal snap =
     \<lparr>qo_source = ''internal'', qo_account_id = sn_account_id snap, qo_instrument_id = Some (sn_instrument_id snap),
      qo_quantity = sn_quantity snap,
      qo_side = (case sn_side snap of None \<Rightarrow> ''LONG'' | Some s \<Rightarrow> position_side_value s),
      qo_average_price = sn_average_price snap, qo_observed_at = None\<rparr>"

definition position_observation_from_broker :: "broker_position_snapshot \<Rightarrow> position_observation" where
  "position_observation_from_broker snap =
     (let qty = dec_int (bps_quantity snap) in
      \<lparr>qo_source = ''broker'', qo_account_id = Some (bps_broker_account_id snap), qo_instrument_id = Some (bps_instrument_id snap),
       qo_quantity = qty, qo_side = (if 0 \<le> qty then ''LONG'' else ''SHORT''),
       qo_average_price = bps_average_price snap, qo_observed_at = Some (bps_captured_at snap)\<rparr>)"

section \<open>What the keyed comparison reports\<close>

text \<open>With distinct broker keys every group has one entry.\<close>

lemma broker_index_distinct:
  assumes "distinct (map key obs)" "\<forall>x\<in>set obs. key x \<noteq> None"
  shows "broker_index_of key obs = map (\<lambda>x. (the (key x), [x])) obs"
proof -
  have "foldl (index_add key) idx obs = idx @ map (\<lambda>x. (the (key x), [x])) obs"
    if "distinct (map key obs)" "\<forall>x\<in>set obs. key x \<noteq> None \<and> the (key x) \<notin> fst ` set idx" for idx
    using that
  proof (induction obs arbitrary: idx)
    case (Cons x obs)
    then obtain k where k: "key x = Some k" "k \<notin> fst ` set idx" by auto
    then have "map_of idx k = None" by (simp add: map_of_eq_None_iff)
    then have "index_add key idx x = idx @ [(k, [x])]" using k by (simp add: index_add_def od_set_def)
    moreover have "\<forall>y\<in>set obs. key y \<noteq> None \<and> the (key y) \<notin> fst ` set (idx @ [(k, [x])])"
    proof
      fix y assume y: "y \<in> set obs"
      then have "key y \<noteq> key x" using Cons.prems(1) by (metis distinct.simps(2) image_eqI list.simps(9) set_map)
      then show "key y \<noteq> None \<and> the (key y) \<notin> fst ` set (idx @ [(k, [x])])" using y Cons.prems(2) k by auto
    qed
    ultimately show ?case using Cons.IH [of "idx @ [(k, [x])]"] Cons.prems k by simp
  qed simp
  then show ?thesis using assms by (simp add: broker_index_of_def)
qed

lemma map_of_singletons:
  "\<forall>x\<in>set obs. key x \<noteq> None \<Longrightarrow>
   map_of (map (\<lambda>x. (the (key x), [x])) obs) k = map_option (\<lambda>x. [x]) (find (\<lambda>x. key x = Some k) obs)"
  by (induction obs) auto

definition has_counterpart :: "('o \<Rightarrow> string option) \<Rightarrow> 'o list \<Rightarrow> 'o \<Rightarrow> bool" where
  "has_counterpart key broker x \<longleftrightarrow> (\<exists>k. key x = Some k \<and> Some k \<in> key ` set broker)"

lemma find_counterpart: "find (\<lambda>x. key x = Some k) broker = None \<longleftrightarrow> Some k \<notin> key ` set broker"
  by (force simp: find_None_iff image_iff)

text \<open>Once a counterpart has been consumed, every further observation counts as internal only.\<close>

lemma match_loop_exhausted:
  assumes "\<forall>k g. map_of idx k = Some g \<longrightarrow> length g = 1" "0 \<in> consumed"
  shows "fst (match_loop h ctx kd idx i consumed cp obs) = consumed \<and>
    cp_internal_only (snd (match_loop h ctx kd idx i consumed cp obs)) = cp_internal_only cp + length obs \<and>
    cp_matched (snd (match_loop h ctx kd idx i consumed cp obs)) = cp_matched cp \<and>
    cp_broker_only (snd (match_loop h ctx kd idx i consumed cp obs)) = cp_broker_only cp"
  using assms(2)
proof (induction obs arbitrary: i cp)
  case (Cons x obs)
  have "(case kd_key kd x of None \<Rightarrow> None | Some k \<Rightarrow>
      (case map_of idx k of None \<Rightarrow> None | Some g \<Rightarrow> first_free consumed 0 g)) = None"
    using assms(1) Cons.prems by (fastforce simp: length_Suc_conv split: option.split)
  then show ?case using Cons by (simp add: Let_def)
qed simp

lemma match_loop_singletons:
  fixes kd :: "'o keyed" and broker :: "'o list"
  assumes "\<forall>x\<in>set broker. kd_key kd x \<noteq> None"
  defines "idx \<equiv> map (\<lambda>x. (the (kd_key kd x), [x])) broker"
  shows "fst (match_loop h ctx kd idx i {} cp obs) = (if \<exists>x\<in>set obs. has_counterpart (kd_key kd) broker x then {0} else {}) \<and>
    cp_internal_only (snd (match_loop h ctx kd idx i {} cp obs)) =
      cp_internal_only cp + length obs - (if \<exists>x\<in>set obs. has_counterpart (kd_key kd) broker x then 1 else 0) \<and>
    cp_matched (snd (match_loop h ctx kd idx i {} cp obs)) \<le> cp_matched cp + 1 \<and>
    cp_broker_only (snd (match_loop h ctx kd idx i {} cp obs)) = cp_broker_only cp"
proof (induction obs arbitrary: i cp)
  case (Cons x obs)
  have one: "\<forall>k g. map_of idx k = Some g \<longrightarrow> length g = 1"
    using assms(1) by (auto simp: idx_def map_of_singletons)
  have sel: "(case kd_key kd x of None \<Rightarrow> None | Some k \<Rightarrow>
      (case map_of idx k of None \<Rightarrow> None | Some g \<Rightarrow> first_free {} 0 g)) =
      (if has_counterpart (kd_key kd) broker x
       then Some (0, the (find (\<lambda>y. kd_key kd y = kd_key kd x) broker)) else None)"
    using assms(1) find_counterpart [of "kd_key kd" _ broker]
    by (cases "kd_key kd x") (auto simp: idx_def map_of_singletons has_counterpart_def simp flip: find_counterpart split: option.split)
  show ?case
  proof (cases "has_counterpart (kd_key kd) broker x")
    case True
    then show ?thesis using sel
      by (simp add: Let_def match_loop_exhausted [OF one])
  next
    case False
    define cp' where "cp' = cp\<lparr>cp_internal_only := cp_internal_only cp + 1, cp_discrepancies := cp_discrepancies cp @
      [new_discrepancy h ctx (kd_entity kd) (entity_or_index (kd_key kd x) i) K_INTERNAL_ONLY (kd_state kd x) [] (kd_observed kd x)]\<rparr>"
    have "match_loop h ctx kd idx i {} cp (x # obs) = match_loop h ctx kd idx (Suc i) {} cp' obs"
      using sel False by (simp add: Let_def cp'_def)
    then show ?thesis using Cons.IH [of "Suc i" cp'] False by (simp add: cp'_def)
  qed
qed simp

lemma unconsumed_singletons:
  "length (unconsumed {} (map (\<lambda>x. (k x, [x])) broker)) = length broker"
  "unconsumed (insert 0 C) (map (\<lambda>x. (k x, [x])) broker) = []"
  by (induction broker) (simp_all add: unconsumed_def)

lemma reconcile_keyed_counts:
  fixes h ctx internal
  assumes "distinct (map (kd_key kd) broker)" "\<forall>x\<in>set broker. kd_key kd x \<noteq> None"
  defines "cp \<equiv> reconcile_keyed h ctx kd internal broker"
  shows "cp_internal_only cp = length internal - (if \<exists>x\<in>set internal. has_counterpart (kd_key kd) broker x then 1 else 0) \<and>
    cp_matched cp \<le> 1 \<and>
    cp_broker_only cp = (if \<exists>x\<in>set internal. has_counterpart (kd_key kd) broker x then 0 else length broker)"
proof -
  note idx = broker_index_distinct [OF assms(1,2)]
  show ?thesis
    using match_loop_singletons [OF assms(2), of h ctx 0
        "no_comparison\<lparr>cp_discrepancies := duplicate_groups h ctx kd (map (\<lambda>x. (the (kd_key kd x), [x])) broker)\<rparr>" internal]
    by (auto simp: cp_def reconcile_keyed_def idx Let_def broker_only_loop_def case_prod_beta no_comparison_def
        unconsumed_singletons)
qed

text \<open>The positions a match consumes are positions inside one group of the index, but the set of consumed positions is
  shared by all groups.  So with distinct keys on the broker side, the normal case, at most one order and one
  execution of a run is ever compared: the first internal observation that has a counterpart consumes position 0 of every
  group.  All other internal observations, however exactly the broker agrees with them, are reported INTERNAL_ONLY, and no
  broker observation is reported BROKER_ONLY, an unexpected broker fill (severity CRITICAL) included.  In particular, of
  \<open>n\<close> orders on which both sides agree, \<open>n - 1\<close> are reported missing at the broker.\<close>

theorem matching_compares_at_most_one:
  assumes "distinct (map order_match_key orders)" "\<forall>x\<in>set orders. order_match_key x \<noteq> None"
    and "distinct (map execution_match_key fills)" "\<forall>x\<in>set fills. execution_match_key x \<noteq> None"
    and "\<exists>x\<in>set internal_orders. has_counterpart order_match_key orders x"
    and "\<exists>x\<in>set internal_fills. has_counterpart execution_match_key fills x"
  shows "(let cp = reconcile_orders h ctx internal_orders orders in
      cp_internal_only cp = length internal_orders - 1 \<and> cp_matched cp \<le> 1 \<and> cp_broker_only cp = 0) \<and>
    (let cp = reconcile_executions h ctx tol internal_fills fills in
      cp_internal_only cp = length internal_fills - 1 \<and> cp_matched cp \<le> 1 \<and> cp_broker_only cp = 0)"
  using reconcile_keyed_counts [of order_keyed orders h ctx internal_orders] assms
    reconcile_keyed_counts [of "execution_keyed tol" fills h ctx internal_fills]
  by (simp add: reconcile_orders_def reconcile_executions_def order_keyed_def execution_keyed_def)

definition sample_order_seen :: "string \<Rightarrow> order_observation" where
  "sample_order_seen bid = \<lparr>oo_source = ''broker'', oo_broker_order_id = Some bid, oo_client_order_id = None, oo_account_id = Some 6,
     oo_instrument_id = Some 5, oo_side = Some ''BUY'', oo_quantity = Some 10, oo_order_type = Some ''MARKET'',
     oo_status = Some ''FILLED'', oo_observed_at = None\<rparr>"

definition sample_fill_seen :: "string \<Rightarrow> execution_observation" where
  "sample_fill_seen xid = \<lparr>eo_source = ''broker'', eo_broker_execution_id = Some xid, eo_execution_id = None, eo_order_id = None,
     eo_broker_order_id = None, eo_account_id = Some 6, eo_instrument_id = Some 5, eo_side = Some ''BUY'',
     eo_quantity = Some (Dec 10 0), eo_price = Some (Dec 100 0), eo_fees = None, eo_status = None, eo_observed_at = None\<rparr>"

definition sample_hash :: recon_hash where
  "sample_hash = \<lparr>rh_key = (\<lambda>p. ''k''), rh_content = (\<lambda>i b t. ''c'')\<rparr>"

definition sample_recon_context :: match_context where
  "sample_recon_context = \<lparr>mc_run_id = 1, mc_account_id = 6, mc_broker = ''paper'', mc_trading_mode = ''PAPER''\<rparr>"

theorem matching_compares_at_most_one_witness:
  "cp_internal_only (reconcile_orders sample_hash sample_recon_context (map sample_order_seen [''a'', ''b'', ''c'']) (map sample_order_seen [''a'', ''b'', ''c''])) = 2 \<and>
   cp_broker_only (reconcile_executions sample_hash sample_recon_context default_tolerance [sample_fill_seen ''a''] (map sample_fill_seen [''a'', ''unexpected''])) = 0"
  using matching_compares_at_most_one [of "map sample_order_seen [''a'', ''b'', ''c'']" "map sample_fill_seen [''a'', ''unexpected'']"
      "map sample_order_seen [''a'', ''b'', ''c'']" "[sample_fill_seen ''a'']" sample_hash sample_recon_context default_tolerance]
  by (simp add: order_match_key_def execution_match_key_def sample_order_seen_def sample_fill_seen_def str_or_def
      has_counterpart_def Let_def)

section \<open>What the comparison of positions reports\<close>

text \<open>The reference: the last broker observation of a key is the one that counts, and what is found for a key is decided
  from the two observations alone.\<close>

definition latest_of :: "position_observation list \<Rightarrow> string \<Rightarrow> position_observation option" where
  "latest_of obs k = find (\<lambda>x. position_match_key x = k) (rev obs)"

definition position_finding ::
  "tolerance \<Rightarrow> int option \<Rightarrow> datetime option \<Rightarrow> position_observation option \<Rightarrow> position_observation option
   \<Rightarrow> discrepancy_kind \<Rightarrow> bool" where
  "position_finding tol stale now internal broker kind =
     (case (internal, broker) of
        (Some i, Some b) \<Rightarrow>
          if observation_stale now stale (qo_observed_at b) = Inr True then kind = K_STALE
          else kind \<in> set (compare_position_fields tol i b)
      | (Some i, None) \<Rightarrow> kind = K_INTERNAL_ONLY
      | (None, Some b) \<Rightarrow> kind = K_BROKER_ONLY
      | (None, None) \<Rightarrow> False)"

lemma position_index_snoc: "position_index (obs @ [x]) = od_set (position_match_key x) x (position_index obs)"
  by (simp add: position_index_def)

lemma position_index_lookup: "map_of (position_index obs) k = latest_of obs k"
  by (induction obs rule: rev_induct) (simp_all add: position_index_snoc latest_of_def, simp add: position_index_def)

lemma position_index_ok: "od_ok (position_index obs)"
  by (induction obs rule: rev_induct) (simp_all add: position_index_snoc, simp add: position_index_def)

lemma latest_of_SomeD: "latest_of obs k = Some x \<Longrightarrow> x \<in> set obs \<and> position_match_key x = k"
  unfolding latest_of_def find_Some_iff by (metis length_rev nth_mem set_rev)

lemma latest_of_distinct:
  assumes "distinct (map position_match_key obs)" "x \<in> set obs"
  shows "latest_of obs (position_match_key x) = Some x"
proof -
  obtain y where y: "latest_of obs (position_match_key x) = Some y"
    using assms(2) by (cases "latest_of obs (position_match_key x)") (auto simp: latest_of_def find_None_iff)
  then have "y \<in> set obs" "position_match_key y = position_match_key x" by (simp_all add: latest_of_SomeD)
  then show ?thesis using y assms by (metis distinct_map inj_onD)
qed

lemma latest_of_None: "latest_of obs k = None \<longleftrightarrow> k \<notin> position_match_key ` set obs"
  by (force simp: latest_of_def find_None_iff)

definition entries :: "discrepancy list \<Rightarrow> (string \<times> discrepancy_kind) set" where
  "entries ds = (\<lambda>d. (dc_entity_id d, dc_kind d)) ` set ds"

lemma entries_simps [simp]:
  "entries [] = {}" "entries (ds @ es) = entries ds \<union> entries es"
  "entries [new_discrepancy h ctx et eid kind i b t] = {(eid, kind)}"
  "entries (map (\<lambda>kind. new_discrepancy h ctx et eid kind i b t) kinds) = {eid} \<times> set kinds"
  by (auto simp: entries_def new_discrepancy_def image_image)

definition position_matches ::
  "tolerance \<Rightarrow> int option \<Rightarrow> datetime option \<Rightarrow> position_observation option \<Rightarrow> position_observation option \<Rightarrow> bool" where
  "position_matches tol stale now internal broker \<longleftrightarrow>
     internal \<noteq> None \<and> broker \<noteq> None \<and> (\<forall>kind. \<not> position_finding tol stale now internal broker kind)"

lemma position_loop_exact:
  assumes "\<forall>b\<in>set broker. is_ok (observation_stale now stale (qo_observed_at b))"
  shows "\<exists>cp'. position_loop h ctx tol stale now (position_index broker) consumed cp obs =
      Inr (consumed \<union> {k \<in> position_match_key ` set obs. latest_of broker k \<noteq> None}, cp') \<and>
    entries (cp_discrepancies cp') = entries (cp_discrepancies cp) \<union>
      (\<Union>x\<in>set obs. {position_match_key x} \<times> Collect (position_finding tol stale now (Some x) (latest_of broker (position_match_key x)))) \<and>
    cp_matched cp' = cp_matched cp +
      length (filter (\<lambda>x. position_matches tol stale now (Some x) (latest_of broker (position_match_key x))) obs) \<and>
    cp_broker_only cp' = cp_broker_only cp"
proof (induction obs arbitrary: consumed cp)
  case (Cons x obs)
  let ?k = "position_match_key x"
  show ?case
  proof (cases "latest_of broker ?k")
    case None
    define cp1 where "cp1 = cp\<lparr>cp_internal_only := cp_internal_only cp + 1, cp_discrepancies := cp_discrepancies cp @
      [new_discrepancy h ctx POSITION_ENTITY ?k K_INTERNAL_ONLY (position_observed_state x) [] (qo_observed_at x)]\<rparr>"
    have "position_loop h ctx tol stale now (position_index broker) consumed cp (x # obs) =
        position_loop h ctx tol stale now (position_index broker) consumed cp1 obs"
      using None by (simp add: Let_def position_index_lookup cp1_def)
    moreover have "{?k} \<times> Collect (position_finding tol stale now (Some x) None) = {(?k, K_INTERNAL_ONLY)}"
      "\<not> position_matches tol stale now (Some x) None" by (auto simp: position_finding_def position_matches_def)
    ultimately show ?thesis using Cons.IH [of consumed cp1] None by (auto simp: cp1_def)
  next
    case (Some b)
    have "b \<in> set broker" using Some by (simp add: latest_of_SomeD)
    then obtain st where st: "observation_stale now stale (qo_observed_at b) = Inr st" using assms by (auto simp: is_ok_iff)
    let ?dis = "\<lambda>kind. new_discrepancy h ctx POSITION_ENTITY ?k kind (position_observed_state x) (position_observed_state b) (qo_observed_at b)"
    let ?kinds = "compare_position_fields tol x b"
    define cp1 where "cp1 = (if st then cp\<lparr>cp_unknown := cp_unknown cp + 1, cp_discrepancies := cp_discrepancies cp @ [?dis K_STALE]\<rparr>
      else if ?kinds = [] then cp\<lparr>cp_matched := cp_matched cp + 1\<rparr>
      else cp\<lparr>cp_discrepancies := cp_discrepancies cp @ map ?dis ?kinds\<rparr>)"
    have "position_loop h ctx tol stale now (position_index broker) consumed cp (x # obs) =
        position_loop h ctx tol stale now (position_index broker) (insert ?k consumed) cp1 obs"
      using Some st by (simp add: Let_def position_index_lookup cp1_def)
    moreover have "entries (cp_discrepancies cp1) = entries (cp_discrepancies cp) \<union>
        {?k} \<times> Collect (position_finding tol stale now (Some x) (Some b))"
      using st by (auto simp: cp1_def position_finding_def)
    moreover have "cp_matched cp1 = cp_matched cp + (if position_matches tol stale now (Some x) (Some b) then 1 else 0)"
      using st by (auto simp: cp1_def position_finding_def position_matches_def)
    moreover have "cp_broker_only cp1 = cp_broker_only cp" by (simp add: cp1_def)
    ultimately show ?thesis using Cons.IH [of "insert ?k consumed" cp1] Some by auto
  qed
qed simp

text \<open>C22.  The comparison of positions is exact.  With one internal position per key, and broker timestamps that can be compared
  with the clock, it returns, and the (key, kind) pairs it reports are exactly those of the reference: a key on one
  side only is INTERNAL_ONLY or BROKER_ONLY, a stale broker observation is STALE and nothing else, and otherwise the fields
  that differ are reported; the number of matches is the number of positions for which nothing is found.\<close>

theorem position_reconciliation_exact:
  assumes "distinct (map position_match_key internal)"
    and "\<forall>b\<in>set broker. is_ok (observation_stale now stale (qo_observed_at b))"
  shows "\<exists>cp. reconcile_positions h ctx tol stale now internal broker = Inr cp \<and>
    (\<forall>k kind. (k, kind) \<in> entries (cp_discrepancies cp) \<longleftrightarrow>
       position_finding tol stale now (latest_of internal k) (latest_of broker k) kind) \<and>
    cp_matched cp = length (filter (\<lambda>x. position_matches tol stale now (Some x) (latest_of broker (position_match_key x))) internal)"
proof -
  obtain cp' where loop: "position_loop h ctx tol stale now (position_index broker) {} no_comparison internal =
      Inr ({k \<in> position_match_key ` set internal. latest_of broker k \<noteq> None}, cp')"
    and found: "entries (cp_discrepancies cp') =
      (\<Union>x\<in>set internal. {position_match_key x} \<times> Collect (position_finding tol stale now (Some x) (latest_of broker (position_match_key x))))"
    and matched: "cp_matched cp' = length (filter (\<lambda>x. position_matches tol stale now (Some x) (latest_of broker (position_match_key x))) internal)"
    using position_loop_exact [OF assms(2), of h ctx tol "{}" no_comparison internal] by (auto simp: no_comparison_def)
  let ?free = "filter (\<lambda>(key, bo). key \<notin> {k \<in> position_match_key ` set internal. latest_of broker k \<noteq> None}) (position_index broker)"
  have dom: "k \<in> fst ` set (position_index broker) \<longleftrightarrow> latest_of broker k \<noteq> None" for k
    using position_index_lookup [of broker k] by (metis map_of_eq_None_iff)
  have free: "entries (map (\<lambda>(key, bo). new_discrepancy h ctx POSITION_ENTITY key K_BROKER_ONLY [] (position_observed_state bo) (qo_observed_at bo)) ?free) =
      {k. latest_of internal k = None \<and> latest_of broker k \<noteq> None} \<times> {K_BROKER_ONLY}"
  proof -
    have "entries (map (\<lambda>(key, bo). new_discrepancy h ctx POSITION_ENTITY key K_BROKER_ONLY [] (position_observed_state bo) (qo_observed_at bo)) xs) =
        fst ` set xs \<times> {K_BROKER_ONLY}" for xs
      by (induction xs) (auto simp: entries_def new_discrepancy_def)
    moreover have "fst ` set ?free = {k \<in> fst ` set (position_index broker). k \<notin> {k \<in> position_match_key ` set internal. latest_of broker k \<noteq> None}}"
      by force
    moreover have "\<dots> = {k. latest_of internal k = None \<and> latest_of broker k \<noteq> None}" using dom by (auto simp: latest_of_None)
    ultimately show ?thesis by simp
  qed
  have "(k, kind) \<in> entries (cp_discrepancies cp') \<union> {k. latest_of internal k = None \<and> latest_of broker k \<noteq> None} \<times> {K_BROKER_ONLY} \<longleftrightarrow>
      position_finding tol stale now (latest_of internal k) (latest_of broker k) kind" for k kind
  proof (cases "latest_of internal k")
    case None
    then have "k \<notin> position_match_key ` set internal" by (simp add: latest_of_None)
    then have "(k, kind) \<notin> entries (cp_discrepancies cp')" unfolding found by blast
    then show ?thesis using None by (cases "latest_of broker k") (simp_all add: position_finding_def)
  next
    case (Some i)
    then have i: "i \<in> set internal" "position_match_key i = k" by (simp_all add: latest_of_SomeD)
    have only: "x = i" if "x \<in> set internal" "position_match_key x = k" for x
      using latest_of_distinct [OF assms(1) that(1)] that(2) Some by simp
    have "(k, kind) \<in> entries (cp_discrepancies cp') \<longleftrightarrow> position_finding tol stale now (Some i) (latest_of broker k) kind"
      unfolding found using i only by blast
    then show ?thesis using Some by simp
  qed
  then show ?thesis using loop matched free by (simp add: reconcile_positions_def Let_def)
qed

definition sample_position_seen :: "int \<Rightarrow> position_observation" where
  "sample_position_seen q = \<lparr>qo_source = ''broker'', qo_account_id = Some 6, qo_instrument_id = Some 5, qo_quantity = q, qo_side = ''LONG'',
     qo_average_price = None, qo_observed_at = None\<rparr>"

theorem position_reconciliation_exact_witness:
  "\<exists>cp. reconcile_positions sample_hash sample_recon_context default_tolerance (Some 60) (Some (utc 0)) [sample_position_seen 10] [sample_position_seen 12] = Inr cp \<and>
     (position_match_key (sample_position_seen 10), K_QUANTITY_MISMATCH) \<in> entries (cp_discrepancies cp) \<and> cp_matched cp = 0"
proof -
  have key: "position_match_key (sample_position_seen q) = position_match_key (sample_position_seen 0)" for q
    by (simp add: position_match_key_def sample_position_seen_def)
  have found: "position_finding default_tolerance (Some 60) (Some (utc 0)) (Some (sample_position_seen 10)) (Some (sample_position_seen 12)) kind
      \<longleftrightarrow> kind = K_QUANTITY_MISMATCH" for kind
    by (simp add: position_finding_def observation_stale_def compare_position_fields_def when_kind_def both_apart_def sample_position_seen_def)
  obtain cp where cp: "reconcile_positions sample_hash sample_recon_context default_tolerance (Some 60) (Some (utc 0))
      [sample_position_seen 10] [sample_position_seen 12] = Inr cp"
    "\<forall>k kind. (k, kind) \<in> entries (cp_discrepancies cp) \<longleftrightarrow> position_finding default_tolerance (Some 60) (Some (utc 0))
      (latest_of [sample_position_seen 10] k) (latest_of [sample_position_seen 12] k) kind"
    "cp_matched cp = length (filter (\<lambda>x. position_matches default_tolerance (Some 60) (Some (utc 0)) (Some x)
      (latest_of [sample_position_seen 12] (position_match_key x))) [sample_position_seen 10])"
    using position_reconciliation_exact [of "[sample_position_seen 10]" "[sample_position_seen 12]" "Some (utc 0)" "Some 60"
        sample_hash sample_recon_context default_tolerance]
    by (auto simp: observation_stale_def sample_position_seen_def)
  then show ?thesis using found by (auto simp: latest_of_def key [of 10] key [of 12] position_matches_def)
qed

end
