(* ===== verification/Recon_Engine.thy ===== *)
theory Recon_Engine
  imports Recon_Matching
begin

text \<open>
  The reconciliation engine (\<^verbatim>\<open>services/reconciliation_engine/alpha_algo_reconciliation_engine\<close>: \<^verbatim>\<open>engine.py\<close>,
  \<^verbatim>\<open>repository.py\<close>, \<^verbatim>\<open>metrics.py\<close>) over the tables of \<^verbatim>\<open>db/models/reconciliation.py\<close>.

  A stored row is the read model the repository returns for it: enumeration values and JSON states are written and read
  back unchanged.  \<^verbatim>\<open>uuid4\<close>, the clock and the failures of the database are parameters of a call: \<open>rv_accepts\<close> is whether
  the database takes a row apart from its constraints, \<open>rv_foreign_keys\<close> whether it enforces foreign keys (PostgreSQL
  does, SQLite does not by default).
\<close>

section \<open>State\<close>

record recon_run =
  rn_run_id :: uuid
  rn_account_id :: uuid
  rn_broker :: string
  rn_trading_mode :: string
  rn_scope :: string
  rn_status :: recon_run_status
  rn_started_at :: datetime
  rn_completed_at :: "datetime option"
  rn_matched :: nat
  rn_mismatched :: nat
  rn_internal_only :: nat
  rn_broker_only :: nat
  rn_unknown :: nat
  rn_unavailable :: nat
  rn_skipped :: nat
  rn_conflicts :: nat

record recovery_action =
  ra_discrepancy_id :: "uuid option"
  ra_action_type :: string
  ra_target_boundary :: string
  ra_normalized_fill :: "payload option"
  ra_note :: string

record recon_result =
  rr_status :: recon_run_status
  rr_run :: recon_run
  rr_discrepancies :: "discrepancy list"
  rr_recovery_actions :: "recovery_action list"

record recon_scope =
  sc_account_id :: "uuid option"
  sc_broker :: string
  sc_trading_mode :: string
  sc_domains :: "string list"

record recon_inputs =
  ri_orders_internal :: "order_observation list"
  ri_orders_broker :: "order_observation list"
  ri_executions_internal :: "execution_observation list"
  ri_executions_broker :: "execution_observation list"
  ri_positions_internal :: "position_observation list"
  ri_positions_broker :: "position_observation list"
  ri_funds_internal :: "funds_observation option"
  ri_funds_broker :: "funds_observation option"

record recon_metrics =
  rm_runs :: nat
  rm_completed_runs :: nat
  rm_partial_runs :: nat
  rm_failed_runs :: nat
  rm_conflicts :: nat

definition metrics_record_run :: "recon_run_status \<Rightarrow> recon_metrics \<Rightarrow> recon_metrics" where
  "metrics_record_run status m =
     (let m = m\<lparr>rm_runs := rm_runs m + 1\<rparr> in
      case status of
        RUN_COMPLETED \<Rightarrow> m\<lparr>rm_completed_runs := rm_completed_runs m + 1\<rparr>
      | RUN_PARTIAL \<Rightarrow> m\<lparr>rm_partial_runs := rm_partial_runs m + 1\<rparr>
      | RUN_FAILED \<Rightarrow> m\<lparr>rm_failed_runs := rm_failed_runs m + 1\<rparr>
      | _ \<Rightarrow> m)"

record recon_tables =
  rt_runs :: "recon_run list"
  rt_discrepancies :: "discrepancy list"

record recon_engine =
  re_tables :: "recon_tables option"
  re_metrics :: recon_metrics
  re_tolerance :: tolerance

record recon_env =
  rv_hash :: recon_hash
  rv_run_id :: uuid
  rv_row_id :: "nat \<Rightarrow> uuid"
  rv_halt :: bool
  rv_now :: datetime
  rv_foreign_keys :: bool
  rv_accepts :: "discrepancy \<Rightarrow> bool"
  rv_accepts_run :: "recon_run \<Rightarrow> bool"

section \<open>The repository\<close>

definition save_recon_run :: "recon_env \<Rightarrow> recon_tables \<Rightarrow> recon_run \<Rightarrow> (recon_error, recon_run \<times> recon_tables) result" where
  "save_recon_run env t run =
     (if \<not> rv_accepts_run env run \<or> first_row (\<lambda>r. rn_run_id r = rn_run_id run) (rt_runs t) \<noteq> None
      then Inl (ReconciliationPersistenceError ''reconciliation run write failed'')
      else Inr (run, t\<lparr>rt_runs := rt_runs t @ [run]\<rparr>))"

definition load_recon_run :: "recon_tables \<Rightarrow> uuid \<Rightarrow> recon_run option" where
  "load_recon_run t rid = first_row (\<lambda>r. rn_run_id r = rid) (rt_runs t)"

definition load_discrepancy :: "recon_tables \<Rightarrow> string \<Rightarrow> discrepancy option" where
  "load_discrepancy t key = first_row (\<lambda>r. dc_key r = key) (rt_discrepancies t)"

text \<open>Every \<^verbatim>\<open>IntegrityError\<close>, of the unique key or of the foreign key to the run, becomes
  \<^verbatim>\<open>DuplicateDiscrepancyError\<close>.\<close>

definition save_discrepancy ::
  "recon_env \<Rightarrow> recon_tables \<Rightarrow> discrepancy \<Rightarrow> (recon_error, discrepancy \<times> recon_tables) result" where
  "save_discrepancy env t d =
     (if \<not> rv_accepts env d then Inl (ReconciliationPersistenceError ''discrepancy write failed'')
      else if load_discrepancy t (dc_key d) \<noteq> None \<or> rv_foreign_keys env \<and> load_recon_run t (dc_run_id d) = None
      then Inl (DuplicateDiscrepancyError (dc_key d))
      else let row = d\<lparr>dc_id := Some (rv_row_id env (length (rt_discrepancies t)))\<rparr>
           in Inr (row, t\<lparr>rt_discrepancies := rt_discrepancies t @ [row]\<rparr>))"

text \<open>The filter of \<^verbatim>\<open>list_discrepancies\<close>; rows are kept in the order of their creation.\<close>

definition list_discrepancies :: "recon_tables \<Rightarrow> uuid option \<Rightarrow> uuid option \<Rightarrow> discrepancy list" where
  "list_discrepancies t run_id account_id =
     filter (\<lambda>d. (case run_id of None \<Rightarrow> True | Some r \<Rightarrow> dc_run_id d = r) \<and>
                 (case account_id of None \<Rightarrow> True | Some a \<Rightarrow> dc_account_id d = a)) (rt_discrepancies t)"

section \<open>The engine\<close>

definition recon_allowed_modes :: "string list" where
  "recon_allowed_modes = [''BACKTEST'', ''PAPER'']"

definition recon_guard :: "recon_env \<Rightarrow> recon_scope \<Rightarrow> (recon_error, uuid) result" where
  "recon_guard env scope =
     (let mode = upper (sc_trading_mode scope) in
      if mode = ''LIVE'' then Inl (ReconciliationModeError ''LIVE reconciliation is disabled (fail-closed)'')
      else if mode \<notin> set recon_allowed_modes then Inl (ReconciliationModeError ''unknown trading mode'')
      else if rv_halt env then Inl (ReconciliationValidationError ''global trading halt is active; reconciliation refused'')
      else of_opt (ReconciliationDataError ''reconciliation scope requires an account_id'') (sc_account_id scope))"

definition conflict_discrepancy :: "recon_env \<Rightarrow> discrepancy \<Rightarrow> discrepancy option \<Rightarrow> discrepancy" where
  "conflict_discrepancy env original existing =
     \<lparr>dc_id = None,
      dc_key = compute_discrepancy_key (rv_hash env) (dc_account_id original) (entity_type_value (dc_entity_type original))
        (dc_entity_id original) (kind_value K_CONFLICT),
      dc_run_id = dc_run_id original, dc_account_id = dc_account_id original, dc_broker = dc_broker original,
      dc_trading_mode = dc_trading_mode original, dc_entity_type = dc_entity_type original,
      dc_entity_id = dc_entity_id original, dc_kind = K_CONFLICT, dc_severity = SEV_HIGH,
      dc_internal_state = [(''original_discrepancy_key'', PStr (dc_key original)),
        (''original_content_hash'', opt_str (map_option dc_content_hash existing))],
      dc_broker_state = [(''new_content_hash'', PStr (dc_content_hash original))], dc_resolution_status = RES_OPEN,
      dc_content_hash = dc_content_hash original, dc_observed_at = dc_observed_at original\<rparr>"

text \<open>One turn of the loop: the error that ends it, the rows written and the conflicts counted.\<close>

type_synonym persisted = "recon_error option \<times> discrepancy list \<times> nat \<times> recon_tables"

definition persist_one :: "recon_env \<Rightarrow> recon_tables \<Rightarrow> discrepancy \<Rightarrow> persisted" where
  "persist_one env t d =
     (case save_discrepancy env t d of
        Inr (row, t') \<Rightarrow> (None, [row], 0, t')
      | Inl (DuplicateDiscrepancyError _) \<Rightarrow>
          let existing = load_discrepancy t (dc_key d) in
          if (case existing of None \<Rightarrow> False | Some x \<Rightarrow> dc_content_hash x = dc_content_hash d) then (None, [], 0, t)
          else (case save_discrepancy env t (conflict_discrepancy env d existing) of
                  Inr (row, t') \<Rightarrow> (None, [row], 1, t')
                | Inl (DuplicateDiscrepancyError _) \<Rightarrow> (None, [], 1, t)
                | Inl e \<Rightarrow> (Some e, [], 1, t))
      | Inl e \<Rightarrow> (Some e, [], 0, t))"

fun persist_discrepancies :: "recon_env \<Rightarrow> recon_tables \<Rightarrow> discrepancy list \<Rightarrow> persisted" where
  "persist_discrepancies env t [] = (None, [], 0, t)"
| "persist_discrepancies env t (d # ds) =
     (case persist_one env t d of
        (Some e, rows, n, t') \<Rightarrow> (Some e, rows, n, t')
      | (None, rows, n, t') \<Rightarrow>
          (case persist_discrepancies env t' ds of (e, rows', n', t'') \<Rightarrow> (e, rows @ rows', n + n', t'')))"

definition payload_get :: "payload \<Rightarrow> string \<Rightarrow> pyval" where
  "payload_get p k = (case map_of p k of None \<Rightarrow> PNone | Some v \<Rightarrow> v)"

definition recovery_for :: "discrepancy \<Rightarrow> recovery_action list" where
  "recovery_for d =
     (if dc_entity_type d = EXECUTION_ENTITY \<and> dc_kind d = K_BROKER_ONLY
      then [\<lparr>ra_discrepancy_id = dc_id d, ra_action_type = ''ROUTE_BROKER_FILL'', ra_target_boundary = ''execution_engine'',
             ra_normalized_fill = Some (map (\<lambda>f. (f, payload_get (dc_broker_state d) f))
               [''broker_execution_id'', ''quantity'', ''price'', ''side'', ''order_id'']),
             ra_note = ''route via trusted execution boundary; do not mutate positions/pnl/portfolio directly''\<rparr>]
      else if dc_kind d \<notin> {K_STALE, K_UNKNOWN, K_ROUNDING_DIFFERENCE}
      then [\<lparr>ra_discrepancy_id = dc_id d, ra_action_type = ''ESCALATE'', ra_target_boundary = ''none'', ra_normalized_fill = None,
             ra_note = ''manual review required; no automatic correction''\<rparr>]
      else [])"

definition recovery_actions :: "discrepancy list \<Rightarrow> recovery_action list" where
  "recovery_actions ds = concat (map recovery_for ds)"

definition add_comparison :: "comparison \<Rightarrow> comparison \<Rightarrow> comparison" where
  "add_comparison a b =
     \<lparr>cp_discrepancies = cp_discrepancies a @ cp_discrepancies b, cp_matched = cp_matched a + cp_matched b,
      cp_internal_only = cp_internal_only a + cp_internal_only b, cp_broker_only = cp_broker_only a + cp_broker_only b,
      cp_unknown = cp_unknown a + cp_unknown b, cp_unavailable = cp_unavailable a + cp_unavailable b\<rparr>"

definition compare_all ::
  "recon_hash \<Rightarrow> match_context \<Rightarrow> tolerance \<Rightarrow> int option \<Rightarrow> datetime \<Rightarrow> string list \<Rightarrow> recon_inputs
   \<Rightarrow> (recon_error, comparison) result" where
  "compare_all h ctx tol stale now domains inp =
     (let c1 = (if ''ORDERS'' \<in> set domains then reconcile_orders h ctx (ri_orders_internal inp) (ri_orders_broker inp)
                else no_comparison);
          c2 = (if ''EXECUTIONS'' \<in> set domains
                then reconcile_executions h ctx tol (ri_executions_internal inp) (ri_executions_broker inp) else no_comparison)
      in rbind (if ''POSITIONS'' \<in> set domains
                then reconcile_positions h ctx tol stale (Some now) (ri_positions_internal inp) (ri_positions_broker inp)
                else Inr no_comparison) (\<lambda>c3.
         rbind (if ''FUNDS'' \<in> set domains
                then reconcile_funds h ctx tol stale (Some now) (ri_funds_internal inp) (ri_funds_broker inp)
                else Inr no_comparison) (\<lambda>c4.
         Inr (add_comparison (add_comparison (add_comparison c1 c2) c3) c4))))"

definition finished_run ::
  "recon_scope \<Rightarrow> match_context \<Rightarrow> datetime \<Rightarrow> comparison \<Rightarrow> nat \<Rightarrow> recon_run" where
  "finished_run scope ctx now cp conflicts =
     \<lparr>rn_run_id = mc_run_id ctx, rn_account_id = mc_account_id ctx, rn_broker = sc_broker scope,
      rn_trading_mode = upper (sc_trading_mode scope), rn_scope = join '','' (sort (sc_domains scope)),
      rn_status = (if 0 < cp_unavailable cp \<or> 0 < cp_unknown cp then RUN_PARTIAL else RUN_COMPLETED),
      rn_started_at = now, rn_completed_at = Some now, rn_matched = cp_matched cp,
      rn_mismatched = length (filter (\<lambda>d. dc_kind d \<notin> {K_STALE, K_UNKNOWN}) (cp_discrepancies cp)),
      rn_internal_only = cp_internal_only cp, rn_broker_only = cp_broker_only cp, rn_unknown = cp_unknown cp,
      rn_unavailable = cp_unavailable cp, rn_skipped = conflicts, rn_conflicts = conflicts\<rparr>"

definition scope_context :: "recon_env \<Rightarrow> recon_scope \<Rightarrow> uuid \<Rightarrow> match_context" where
  "scope_context env scope account =
     \<lparr>mc_run_id = rv_run_id env, mc_account_id = account, mc_broker = sc_broker scope,
      mc_trading_mode = upper (sc_trading_mode scope)\<rparr>"

definition recon_run_engine ::
  "recon_env \<Rightarrow> recon_engine \<Rightarrow> recon_scope \<Rightarrow> recon_inputs \<Rightarrow> tolerance option \<Rightarrow> int option \<Rightarrow> datetime option
   \<Rightarrow> (recon_error, recon_result) result \<times> recon_engine" where
  "recon_run_engine env en scope inp tolerance stale now_arg =
     (case re_tables en of
        None \<Rightarrow> (Inl (ReconciliationPersistenceError ''no reconciliation repository configured''), en)
      | Some t \<Rightarrow>
          case recon_guard env scope of
            Inl e \<Rightarrow> (Inl e, en)
          | Inr account \<Rightarrow>
              let now = (case now_arg of None \<Rightarrow> rv_now env | Some n \<Rightarrow> n);
                  tol = (case tolerance of None \<Rightarrow> re_tolerance en | Some x \<Rightarrow> x);
                  ctx = scope_context env scope account
              in (case compare_all (rv_hash env) ctx tol stale now (sc_domains scope) inp of
                    Inl e \<Rightarrow> (Inl e, en)
                  | Inr cp \<Rightarrow>
                      let (failed, persisted, conflicts, t') = persist_discrepancies env t (cp_discrepancies cp);
                          en' = en\<lparr>re_tables := Some t',
                            re_metrics := (re_metrics en)\<lparr>rm_conflicts := rm_conflicts (re_metrics en) + conflicts\<rparr>\<rparr>
                      in (case failed of
                            Some e \<Rightarrow> (Inl e, en')
                          | None \<Rightarrow>
                              let run = finished_run scope ctx now cp conflicts
                              in (case save_recon_run env t' run of
                                    Inl e \<Rightarrow> (Inl e, en')
                                  | Inr (saved, t'') \<Rightarrow>
                                      (Inr \<lparr>rr_status = rn_status run, rr_run = saved, rr_discrepancies = persisted,
                                            rr_recovery_actions = recovery_actions persisted\<rparr>,
                                       en'\<lparr>re_tables := Some t'',
                                           re_metrics := metrics_record_run (rn_status run) (re_metrics en')\<rparr>)))))"

section \<open>Every returning run\<close>

lemma recon_run_Inr:
  assumes "recon_run_engine env en scope inp tolerance stale now_arg = (Inr r, en')"
  obtains t account cp n t' where "re_tables en = Some t" "recon_guard env scope = Inr account"
    "compare_all (rv_hash env) (scope_context env scope account) (case tolerance of None \<Rightarrow> re_tolerance en | Some x \<Rightarrow> x) stale
       (case now_arg of None \<Rightarrow> rv_now env | Some n \<Rightarrow> n) (sc_domains scope) inp = Inr cp"
    "persist_discrepancies env t (cp_discrepancies cp) = (None, rr_discrepancies r, n, t')"
    "re_tables en' = Some (t'\<lparr>rt_runs := rt_runs t' @ [rr_run r]\<rparr>)" "rr_recovery_actions r = recovery_actions (rr_discrepancies r)"
    "re_tolerance en' = re_tolerance en"
proof -
  obtain t where t: "re_tables en = Some t" using assms by (auto simp: recon_run_engine_def split: option.splits)
  obtain account where g: "recon_guard env scope = Inr account"
    using assms t by (auto simp: recon_run_engine_def split: sum.splits)
  let ?ctx = "scope_context env scope account" and ?tol = "case tolerance of None \<Rightarrow> re_tolerance en | Some x \<Rightarrow> x"
    and ?now = "case now_arg of None \<Rightarrow> rv_now env | Some n \<Rightarrow> n"
  obtain cp where cp: "compare_all (rv_hash env) ?ctx ?tol stale ?now (sc_domains scope) inp = Inr cp"
    using assms t g by (auto simp: recon_run_engine_def Let_def split: sum.splits)
  obtain failed rows n t' where p: "persist_discrepancies env t (cp_discrepancies cp) = (failed, rows, n, t')"
    by (metis prod_cases4)
  show thesis
    using assms t g cp p that
    by (auto simp: recon_run_engine_def Let_def save_recon_run_def split: option.splits if_splits)
qed

section \<open>The evidence does not depend on the run\<close>

definition with_run :: "uuid \<Rightarrow> comparison \<Rightarrow> comparison" where
  "with_run x cp = cp\<lparr>cp_discrepancies := map (\<lambda>d. d\<lparr>dc_run_id := x\<rparr>) (cp_discrepancies cp)\<rparr>"

abbreviation in_run :: "uuid \<Rightarrow> match_context \<Rightarrow> match_context" where
  "in_run x ctx \<equiv> ctx\<lparr>mc_run_id := x\<rparr>"

lemma new_discrepancy_run:
  "new_discrepancy h (in_run x ctx) et eid kind i b t = (new_discrepancy h ctx et eid kind i b t)\<lparr>dc_run_id := x\<rparr>"
  by (simp add: new_discrepancy_def)

lemma with_run_fields [simp]:
  "cp_matched (with_run x cp) = cp_matched cp" "cp_internal_only (with_run x cp) = cp_internal_only cp"
  "cp_broker_only (with_run x cp) = cp_broker_only cp" "cp_unknown (with_run x cp) = cp_unknown cp"
  "cp_unavailable (with_run x cp) = cp_unavailable cp"
  "cp_discrepancies (with_run x cp) = map (\<lambda>d. d\<lparr>dc_run_id := x\<rparr>) (cp_discrepancies cp)"
  by (simp_all add: with_run_def)

lemma comparison_eqI:
  fixes a b :: comparison
  assumes "cp_discrepancies a = cp_discrepancies b" "cp_matched a = cp_matched b" "cp_internal_only a = cp_internal_only b"
    "cp_broker_only a = cp_broker_only b" "cp_unknown a = cp_unknown b" "cp_unavailable a = cp_unavailable b"
  shows "a = b"
  using assms by (cases a; cases b) simp

lemma no_comparison_run [simp]: "with_run x no_comparison = no_comparison"
  by (simp add: with_run_def no_comparison_def)

lemma match_loop_run:
  "match_loop h (in_run x ctx) kd idx i consumed (with_run x cp) obs =
     map_prod (\<lambda>c. c) (with_run x) (match_loop h ctx kd idx i consumed cp obs)"
proof (induction obs arbitrary: i consumed cp)
  case (Cons o' obs)
  let ?sel = "case kd_key kd o' of None \<Rightarrow> None | Some k \<Rightarrow> (case map_of idx k of None \<Rightarrow> None | Some g \<Rightarrow> first_free consumed 0 g)"
  let ?eid = "entity_or_index (kd_key kd o') i"
  show ?case
  proof (cases ?sel)
    case None
    define nxt where "nxt = (\<lambda>ctx (cp :: comparison). cp\<lparr>cp_internal_only := cp_internal_only cp + 1, cp_discrepancies := cp_discrepancies cp @
      [new_discrepancy h ctx (kd_entity kd) ?eid K_INTERNAL_ONLY (kd_state kd o') [] (kd_observed kd o')]\<rparr>)"
    have nxt: "nxt (in_run x ctx) (with_run x cp) = with_run x (nxt ctx cp)"
      by (rule comparison_eqI) (simp_all add: nxt_def new_discrepancy_run)
    have step: "match_loop h c kd idx i consumed cq (o' # obs) = match_loop h c kd idx (Suc i) consumed (nxt c cq) obs" for c cq
      using None by (simp add: Let_def nxt_def)
    show ?thesis unfolding step nxt by (rule Cons.IH)
  next
    case (Some jb)
    obtain j bo where jb: "jb = (j, bo)" by fastforce
    define nxt where "nxt = (\<lambda>ctx (cp :: comparison). if kd_compare kd o' bo = [] then cp\<lparr>cp_matched := cp_matched cp + 1\<rparr>
      else cp\<lparr>cp_discrepancies := cp_discrepancies cp @ map (\<lambda>kind. new_discrepancy h ctx (kd_entity kd)
        ?eid kind (kd_state kd o') (kd_state kd bo) (kd_observed kd bo)) (kd_compare kd o' bo)\<rparr>)"
    have nxt: "nxt (in_run x ctx) (with_run x cp) = with_run x (nxt ctx cp)"
      by (rule comparison_eqI) (simp_all add: nxt_def new_discrepancy_run)
    have step: "match_loop h c kd idx i consumed cq (o' # obs) = match_loop h c kd idx (Suc i) (insert j consumed) (nxt c cq) obs" for c cq
      using Some by (simp add: Let_def nxt_def jb)
    show ?thesis unfolding step nxt by (rule Cons.IH)
  qed
qed simp

lemma duplicate_groups_run: "duplicate_groups h (in_run x ctx) kd idx = map (\<lambda>d. d\<lparr>dc_run_id := x\<rparr>) (duplicate_groups h ctx kd idx)"
  by (simp add: duplicate_groups_def new_discrepancy_run case_prod_beta o_def)

lemma reconcile_keyed_run: "reconcile_keyed h (in_run x ctx) kd internal broker = with_run x (reconcile_keyed h ctx kd internal broker)"
proof -
  let ?idx = "broker_index_of (kd_key kd) broker"
  let ?start = "no_comparison\<lparr>cp_discrepancies := duplicate_groups h ctx kd ?idx\<rparr>"
  have "no_comparison\<lparr>cp_discrepancies := duplicate_groups h (in_run x ctx) kd ?idx\<rparr> = with_run x ?start"
    by (simp add: with_run_def no_comparison_def duplicate_groups_run)
  moreover have "broker_only_loop h (in_run x ctx) kd ?idx (map_prod (\<lambda>c. c) (with_run x) r) = with_run x (broker_only_loop h ctx kd ?idx r)" for r
    by (cases r) (rule comparison_eqI; simp add: broker_only_loop_def Let_def new_discrepancy_run case_prod_beta o_def)
  ultimately show ?thesis by (simp add: reconcile_keyed_def Let_def match_loop_run)
qed

lemma position_loop_run:
  "position_loop h (in_run x ctx) tol stale now idx consumed (with_run x cp) obs =
     map_sum (\<lambda>e. e) (map_prod (\<lambda>c. c) (with_run x)) (position_loop h ctx tol stale now idx consumed cp obs)"
proof (induction obs arbitrary: consumed cp)
  case (Cons o' obs)
  let ?k = "position_match_key o'"
  show ?case
  proof (cases "map_of idx ?k")
    case None
    define nxt where "nxt = (\<lambda>ctx (cp :: comparison). cp\<lparr>cp_internal_only := cp_internal_only cp + 1, cp_discrepancies := cp_discrepancies cp @
      [new_discrepancy h ctx POSITION_ENTITY ?k K_INTERNAL_ONLY (position_observed_state o') [] (qo_observed_at o')]\<rparr>)"
    have nxt: "nxt (in_run x ctx) (with_run x cp) = with_run x (nxt ctx cp)"
      by (rule comparison_eqI) (simp_all add: nxt_def new_discrepancy_run)
    have step: "position_loop h c tol stale now idx consumed cq (o' # obs) = position_loop h c tol stale now idx consumed (nxt c cq) obs" for c cq
      using None by (simp add: Let_def nxt_def)
    show ?thesis unfolding step nxt by (rule Cons.IH)
  next
    case (Some bo)
    let ?dis = "\<lambda>ctx kind. new_discrepancy h ctx POSITION_ENTITY ?k kind (position_observed_state o') (position_observed_state bo) (qo_observed_at bo)"
    let ?kinds = "compare_position_fields tol o' bo"
    define nxt where "nxt = (\<lambda>ctx (cp :: comparison) st. if st then cp\<lparr>cp_unknown := cp_unknown cp + 1, cp_discrepancies := cp_discrepancies cp @ [?dis ctx K_STALE]\<rparr>
      else if ?kinds = [] then cp\<lparr>cp_matched := cp_matched cp + 1\<rparr>
      else cp\<lparr>cp_discrepancies := cp_discrepancies cp @ map (?dis ctx) ?kinds\<rparr>)"
    have nxt: "nxt (in_run x ctx) (with_run x cp) st = with_run x (nxt ctx cp st)" for st
      by (rule comparison_eqI) (simp_all add: nxt_def new_discrepancy_run)
    have step: "position_loop h c tol stale now idx consumed cq (o' # obs) =
        rbind (observation_stale now stale (qo_observed_at bo)) (\<lambda>st.
          position_loop h c tol stale now idx (insert ?k consumed) (nxt c cq st) obs)" for c cq
      using Some by (simp add: Let_def nxt_def)
    show ?thesis unfolding step nxt
      by (cases "observation_stale now stale (qo_observed_at bo)") (simp_all add: Cons.IH)
  qed
qed simp

lemma reconcile_positions_run:
  "reconcile_positions h (in_run x ctx) tol stale now internal broker =
     map_sum (\<lambda>e. e) (with_run x) (reconcile_positions h ctx tol stale now internal broker)"
proof -
  let ?idx = "position_index broker"
  have "position_loop h (in_run x ctx) tol stale now ?idx {} no_comparison internal =
      map_sum (\<lambda>e. e) (map_prod (\<lambda>c. c) (with_run x)) (position_loop h ctx tol stale now ?idx {} no_comparison internal)"
    using position_loop_run [of h x ctx tol stale now ?idx "{}" no_comparison internal] by simp
  then show ?thesis
    by (cases "position_loop h ctx tol stale now ?idx {} no_comparison internal")
       (auto simp: reconcile_positions_def Let_def new_discrepancy_run case_prod_beta o_def with_run_def)
qed

lemma reconcile_funds_run:
  "reconcile_funds h (in_run x ctx) tol stale now internal broker =
     map_sum (\<lambda>e. e) (with_run x) (reconcile_funds h ctx tol stale now internal broker)"
  by (cases broker; cases internal)
     (auto simp: reconcile_funds_def Let_def new_discrepancy_run with_run_def no_comparison_def rbind_def o_def split: sum.split)

lemma add_comparison_run: "add_comparison (with_run x a) (with_run x b) = with_run x (add_comparison a b)"
  by (simp add: add_comparison_def with_run_def)

lemma compare_all_run:
  "compare_all h (in_run x ctx) tol stale now domains inp = map_sum (\<lambda>e. e) (with_run x) (compare_all h ctx tol stale now domains inp)"
proof -
  have bind: "rbind (map_sum (\<lambda>e. e) f r) g = rbind r (\<lambda>a. g (f a))" and map: "map_sum (\<lambda>e. e) k (rbind r g) = rbind r (\<lambda>a. map_sum (\<lambda>e. e) k (g a))"
    for f g k and r :: "(recon_error, comparison) result"
    by (simp_all add: rbind_def split: sum.split)
  have none: "Inr no_comparison = map_sum (\<lambda>e. e) (with_run x) (Inr no_comparison :: (recon_error, comparison) result)" by simp
  show ?thesis
    unfolding compare_all_def Let_def reconcile_orders_def reconcile_executions_def reconcile_keyed_run reconcile_positions_run reconcile_funds_run
    by (simp add: add_comparison_run [symmetric] bind map rbind_def split: sum.split)
qed

lemma compare_all_run_id:
  assumes "compare_all h ctx tol stale now domains inp = Inr cp" "d \<in> set (cp_discrepancies cp)"
  shows "dc_run_id d = mc_run_id ctx"
proof -
  have "cp = with_run (mc_run_id ctx) cp"
    using compare_all_run [of h "mc_run_id ctx" ctx tol stale now domains inp] assms(1) by simp
  then have "d \<in> (\<lambda>d. d\<lparr>dc_run_id := mc_run_id ctx\<rparr>) ` set (cp_discrepancies cp)"
    using assms(2) by (metis set_map with_run_fields(6))
  then show ?thesis by auto
qed

section \<open>Evidence is refused under foreign keys\<close>

lemma save_without_run:
  "rv_foreign_keys env \<Longrightarrow> load_recon_run t (dc_run_id d) = None \<Longrightarrow> save_discrepancy env t d \<noteq> Inr r"
  by (simp add: save_discrepancy_def)

lemma persist_without_run:
  assumes "rv_foreign_keys env" "\<forall>d\<in>set ds. load_recon_run t (dc_run_id d) = None"
    and "persist_discrepancies env t ds = (None, rows, n, t')"
  shows "rows = [] \<and> t' = t"
  using assms(2,3)
proof (induction ds arbitrary: rows n t')
  case (Cons d ds)
  have none: "load_recon_run t (dc_run_id (conflict_discrepancy env d x)) = None" for x
    using Cons.prems(1) by (simp add: conflict_discrepancy_def)
  obtain m where one: "persist_one env t d = (None, [], m, t)"
    using Cons.prems save_without_run [OF assms(1), of t d] save_without_run [OF assms(1) none]
    by (auto simp: persist_one_def Let_def split: sum.splits recon_error.splits if_splits option.splits)
  then show ?case using Cons by (auto split: prod.splits)
qed simp

text \<open>C23.  Discrepancies are written before the run they refer to.  On a database that enforces foreign keys every one of these
  writes fails, and the failure is taken for a duplicate.  So, whatever the observations, a reconciliation run that
  returns has stored no discrepancy, reports none and proposes no recovery action: an unexpected broker fill leaves
  no trace but the counters of the run.\<close>

theorem recon_evidence_refused:
  assumes "recon_run_engine env en scope inp tolerance stale now_arg = (Inr r, en')"
    and "rv_foreign_keys env" "re_tables en = Some t" "load_recon_run t (rv_run_id env) = None"
  shows "rr_discrepancies r = [] \<and> rr_recovery_actions r = [] \<and>
    (\<exists>t'. re_tables en' = Some t' \<and> rt_discrepancies t' = rt_discrepancies t)"
proof -
  obtain t0 account cp n t' where t0: "re_tables en = Some t0" and run: "compare_all (rv_hash env) (scope_context env scope account)
       (case tolerance of None \<Rightarrow> re_tolerance en | Some x \<Rightarrow> x) stale
       (case now_arg of None \<Rightarrow> rv_now env | Some n \<Rightarrow> n) (sc_domains scope) inp = Inr cp"
    "persist_discrepancies env t0 (cp_discrepancies cp) = (None, rr_discrepancies r, n, t')"
    "re_tables en' = Some (t'\<lparr>rt_runs := rt_runs t' @ [rr_run r]\<rparr>)" "rr_recovery_actions r = recovery_actions (rr_discrepancies r)"
    by (rule recon_run_Inr [OF assms(1)])
  have "t0 = t" using t0 assms(3) by simp
  note run = run [unfolded this]
  have "\<forall>d\<in>set (cp_discrepancies cp). load_recon_run t (dc_run_id d) = None"
    using compare_all_run_id [OF run(1)] assms(4) by (simp add: scope_context_def)
  from persist_without_run [OF assms(2) this run(2)] run(3,4) show ?thesis by (simp add: recovery_actions_def)
qed

section \<open>A repeated run adds no evidence\<close>

definition conflict_key :: "recon_hash \<Rightarrow> discrepancy \<Rightarrow> string" where
  "conflict_key h d = compute_discrepancy_key h (dc_account_id d) (entity_type_value (dc_entity_type d)) (dc_entity_id d) (kind_value K_CONFLICT)"

text \<open>The evidence of \<open>d\<close> is in the table: under its key, or, when that key holds other evidence, under the key of the
  conflict.\<close>

definition settled :: "recon_hash \<Rightarrow> recon_tables \<Rightarrow> discrepancy \<Rightarrow> bool" where
  "settled h t d \<longleftrightarrow> (\<exists>x. load_discrepancy t (dc_key d) = Some x \<and>
     (dc_content_hash x = dc_content_hash d \<or> load_discrepancy t (conflict_key h d) \<noteq> None))"

lemma load_appended:
  "load_discrepancy t k = Some x \<Longrightarrow> load_discrepancy (t\<lparr>rt_discrepancies := rt_discrepancies t @ rows\<rparr>) k = Some x"
  by (simp add: load_discrepancy_def first_row_append)

lemma save_discrepancy_Inr:
  assumes "save_discrepancy env t d = Inr (row, t')"
  shows "t' = t\<lparr>rt_discrepancies := rt_discrepancies t @ [row]\<rparr>" "dc_key row = dc_key d" "dc_content_hash row = dc_content_hash d"
    "load_discrepancy t (dc_key d) = None" "load_discrepancy t' (dc_key d) = Some row"
  using assms by (auto simp: save_discrepancy_def Let_def load_discrepancy_def first_row_append split: if_splits)

lemma save_discrepancy_known:
  assumes "load_discrepancy t (dc_key d) \<noteq> None"
  shows "save_discrepancy env t d = Inl (if rv_accepts env d then DuplicateDiscrepancyError (dc_key d)
    else ReconciliationPersistenceError ''discrepancy write failed'')"
  using assms by (simp add: save_discrepancy_def)

lemma persist_one_settles:
  assumes "persist_one env t d = (None, rows, n, t')" "\<not> rv_foreign_keys env"
  shows "settled (rv_hash env) t' d" "\<exists>new. t' = t\<lparr>rt_discrepancies := rt_discrepancies t @ new\<rparr>"
proof -
  have same: "\<exists>new. t = t\<lparr>rt_discrepancies := rt_discrepancies t @ new\<rparr>" by (rule exI [of _ "[]"]) simp
  have ck: "dc_key (conflict_discrepancy env d x) = conflict_key (rv_hash env) d" for x
    by (simp add: conflict_discrepancy_def conflict_key_def)
  have "settled (rv_hash env) t' d \<and> (\<exists>new. t' = t\<lparr>rt_discrepancies := rt_discrepancies t @ new\<rparr>)"
  proof (cases "save_discrepancy env t d")
    case (Inr p)
    then obtain row where "save_discrepancy env t d = Inr (row, t')" using assms(1) by (cases p) (auto simp: persist_one_def)
    from save_discrepancy_Inr [OF this] show ?thesis by (auto simp: settled_def)
  next
    case (Inl e)
    then have e: "e = DuplicateDiscrepancyError (dc_key d)" and known: "load_discrepancy t (dc_key d) \<noteq> None"
      using assms by (auto simp: persist_one_def save_discrepancy_def Let_def split: if_splits)
    then obtain x where x: "load_discrepancy t (dc_key d) = Some x" by blast
    show ?thesis
    proof (cases "dc_content_hash x = dc_content_hash d")
      case True
      then show ?thesis using assms(1) Inl e x same by (auto simp: persist_one_def Let_def settled_def)
    next
      case False
      let ?c = "conflict_discrepancy env d (Some x)"
      show ?thesis
      proof (cases "save_discrepancy env t ?c")
        case (Inr p)
        then obtain row where "save_discrepancy env t ?c = Inr (row, t')"
          using assms(1) Inl e x False by (cases p) (auto simp: persist_one_def Let_def)
        from save_discrepancy_Inr [OF this] show ?thesis using x load_appended [OF x] by (auto simp: settled_def ck)
      next
        case (Inl e')
        then have "load_discrepancy t (conflict_key (rv_hash env) d) \<noteq> None" "t' = t"
          using assms \<open>save_discrepancy env t d = Inl e\<close> e x False ck [of "Some x"]
          by (auto simp: persist_one_def Let_def save_discrepancy_def split: if_splits)
        then show ?thesis using x same by (simp add: settled_def)
      qed
    qed
  qed
  then show "settled (rv_hash env) t' d" "\<exists>new. t' = t\<lparr>rt_discrepancies := rt_discrepancies t @ new\<rparr>" by simp_all
qed

lemma settled_appended: "settled h t d \<Longrightarrow> settled h (t\<lparr>rt_discrepancies := rt_discrepancies t @ new\<rparr>) d"
  by (auto simp: settled_def load_appended)

lemma persist_settles:
  assumes "persist_discrepancies env t ds = (None, rows, n, t')" "\<not> rv_foreign_keys env"
  shows "(\<forall>d\<in>set ds. settled (rv_hash env) t' d) \<and> (\<exists>new. t' = t\<lparr>rt_discrepancies := rt_discrepancies t @ new\<rparr>)"
  using assms(1)
proof (induction ds arbitrary: t rows n)
  case Nil
  then show ?case by (auto intro: exI [of _ "[]"])
next
  case (Cons d ds)
  obtain rows1 n1 t1 rows2 n2 where one: "persist_one env t d = (None, rows1, n1, t1)"
    and rest: "persist_discrepancies env t1 ds = (None, rows2, n2, t')"
    using Cons.prems by (auto split: prod.splits option.splits)
  note s1 = persist_one_settles [OF one assms(2)]
  from Cons.IH [OF rest] obtain new where new: "t' = t1\<lparr>rt_discrepancies := rt_discrepancies t1 @ new\<rparr>" by blast
  from s1(2) obtain new1 where "t1 = t\<lparr>rt_discrepancies := rt_discrepancies t @ new1\<rparr>" by blast
  then have "\<exists>new. t' = t\<lparr>rt_discrepancies := rt_discrepancies t @ new\<rparr>" using new by (intro exI [of _ "new1 @ new"]) simp
  then show ?case using settled_appended [OF s1(1), of new] new Cons.IH [OF rest] by simp
qed

lemma persist_settled:
  assumes "\<forall>d\<in>set ds. settled (rv_hash env) t d" "persist_discrepancies env t ds = (None, rows, n, t')"
  shows "rows = [] \<and> t' = t"
  using assms
proof (induction ds arbitrary: rows n t')
  case (Cons d ds)
  have "load_discrepancy t (dc_key d) \<noteq> None" using Cons.prems(1) by (auto simp: settled_def)
  note known = save_discrepancy_known [OF this]
  have "\<exists>m. persist_one env t d = (None, [], m, t) \<or> (\<exists>e rows. persist_one env t d = (Some e, rows, m, t))"
    using Cons.prems(1) known save_discrepancy_known [of t "conflict_discrepancy env d (load_discrepancy t (dc_key d))" env]
    by (auto simp: persist_one_def Let_def settled_def conflict_key_def conflict_discrepancy_def)
  then obtain m where "persist_one env t d = (None, [], m, t)" using Cons.prems(2) by fastforce
  then show ?case using Cons by (auto split: prod.splits)
qed simp

lemma settled_run [simp]: "settled h t (d\<lparr>dc_run_id := x\<rparr>) = settled h t d"
  by (simp add: settled_def conflict_key_def)

text \<open>Evidence is stored once.  Where the store takes the rows, a run repeated on the same observations, under another run
  id, with the same tolerance and time, returns without discrepancies and recovery actions and leaves the stored evidence
  as it was, conflicting evidence included.\<close>

theorem recon_rerun_adds_nothing:
  assumes first: "recon_run_engine env en scope inp tolerance stale (Some now) = (Inr r1, en1)" "\<not> rv_foreign_keys env"
    and again: "recon_run_engine env2 en1 scope inp tolerance stale (Some now) = (Inr r2, en2)" "rv_hash env2 = rv_hash env"
  shows "rr_discrepancies r2 = [] \<and> rr_recovery_actions r2 = [] \<and>
    map_option rt_discrepancies (re_tables en2) = map_option rt_discrepancies (re_tables en1)"
proof -
  let ?tol = "case tolerance of None \<Rightarrow> re_tolerance en | Some x \<Rightarrow> x"
  obtain t account cp n t' where r1: "recon_guard env scope = Inr account"
    "compare_all (rv_hash env) (scope_context env scope account) ?tol stale now (sc_domains scope) inp = Inr cp"
    "persist_discrepancies env t (cp_discrepancies cp) = (None, rr_discrepancies r1, n, t')"
    "re_tables en1 = Some (t'\<lparr>rt_runs := rt_runs t' @ [rr_run r1]\<rparr>)" "re_tolerance en1 = re_tolerance en"
    by (rule recon_run_Inr [OF first(1)]) (simp only: option.case)
  obtain t2 account2 cp2 n2 t2' where r2: "re_tables en1 = Some t2" "recon_guard env2 scope = Inr account2"
    "compare_all (rv_hash env2) (scope_context env2 scope account2) ?tol stale now (sc_domains scope) inp = Inr cp2"
    "persist_discrepancies env2 t2 (cp_discrepancies cp2) = (None, rr_discrepancies r2, n2, t2')"
    "re_tables en2 = Some (t2'\<lparr>rt_runs := rt_runs t2' @ [rr_run r2]\<rparr>)" "rr_recovery_actions r2 = recovery_actions (rr_discrepancies r2)"
    by (rule recon_run_Inr [OF again(1)]) (simp only: option.case r1(5))
  have acc: "account2 = account" using r1(1) r2(2) by (auto simp: recon_guard_def Let_def of_opt_eq_Inr split: if_splits)
  have "scope_context env2 scope account = in_run (rv_run_id env2) (scope_context env scope account)" by (simp add: scope_context_def)
  then have cp2: "cp2 = with_run (rv_run_id env2) cp"
    using r1(2) r2(3) compare_all_run [of "rv_hash env" "rv_run_id env2" "scope_context env scope account" ?tol stale now "sc_domains scope" inp]
    by (simp add: acc again(2))
  have t2: "t2 = t'\<lparr>rt_runs := rt_runs t' @ [rr_run r1]\<rparr>" using r1(4) r2(1) by simp
  have "settled (rv_hash env) t2 d = settled (rv_hash env) t' d" for d by (simp add: t2 settled_def load_discrepancy_def)
  then have "\<forall>d\<in>set (cp_discrepancies cp2). settled (rv_hash env2) t2 d"
    using persist_settles [OF r1(3) first(2)] by (auto simp: cp2 again(2))
  from persist_settled [OF this r2(4)] r2(5,6) r1(4) t2 show ?thesis by (simp add: recovery_actions_def)
qed

section \<open>Witnesses\<close>

definition sample_recon_env :: "bool \<Rightarrow> uuid \<Rightarrow> recon_env" where
  "sample_recon_env fk rid = \<lparr>rv_hash = sample_hash, rv_run_id = rid, rv_row_id = (\<lambda>n. n), rv_halt = False, rv_now = utc 0,
     rv_foreign_keys = fk, rv_accepts = (\<lambda>_. True), rv_accepts_run = (\<lambda>_. True)\<rparr>"

definition sample_recon_engine :: recon_engine where
  "sample_recon_engine = \<lparr>re_tables = Some \<lparr>rt_runs = [], rt_discrepancies = []\<rparr>,
     re_metrics = \<lparr>rm_runs = 0, rm_completed_runs = 0, rm_partial_runs = 0, rm_failed_runs = 0, rm_conflicts = 0\<rparr>,
     re_tolerance = default_tolerance\<rparr>"

definition sample_scope :: recon_scope where
  "sample_scope = \<lparr>sc_account_id = Some 6, sc_broker = ''paper'', sc_trading_mode = ''PAPER'', sc_domains = [''EXECUTIONS'']\<rparr>"

text \<open>One fill at the broker that the platform does not know.\<close>

definition sample_inputs :: recon_inputs where
  "sample_inputs = \<lparr>ri_orders_internal = [], ri_orders_broker = [], ri_executions_internal = [],
     ri_executions_broker = [sample_fill_seen ''unexpected''], ri_positions_internal = [], ri_positions_broker = [],
     ri_funds_internal = None, ri_funds_broker = None\<rparr>"

definition sample_found :: "uuid \<Rightarrow> comparison" where
  "sample_found rid = no_comparison\<lparr>cp_broker_only := 1, cp_discrepancies := [new_discrepancy sample_hash
     \<lparr>mc_run_id = rid, mc_account_id = 6, mc_broker = ''paper'', mc_trading_mode = ''PAPER''\<rparr> EXECUTION_ENTITY ''unexpected'' K_BROKER_ONLY []
     (exec_state (sample_fill_seen ''unexpected'')) None]\<rparr>"

lemma sample_hash_simps: "rh_key sample_hash p = ''k''" "rh_content sample_hash i b t = ''c''"
  by (simp_all add: sample_hash_def)

lemma sample_compare:
  "compare_all sample_hash \<lparr>mc_run_id = rid, mc_account_id = 6, mc_broker = ''paper'', mc_trading_mode = ''PAPER''\<rparr> tol stale now
     [''EXECUTIONS''] sample_inputs = Inr (sample_found rid)"
  by (simp add: compare_all_def sample_inputs_def reconcile_executions_def reconcile_keyed_def broker_index_of_def index_add_def
      execution_keyed_def execution_match_key_def sample_fill_seen_def str_or_def duplicate_groups_def broker_only_loop_def
      unconsumed_def od_set_def add_comparison_def no_comparison_def sample_found_def)

definition returns :: "('e, 'a) result \<times> 's \<Rightarrow> ('a \<Rightarrow> 's \<Rightarrow> bool) \<Rightarrow> bool" where
  "returns r P = (case r of (Inl e, s) \<Rightarrow> False | (Inr a, s) \<Rightarrow> P a s)"

lemma returnsE: "returns r P \<Longrightarrow> (\<And>a s. r = (Inr a, s) \<Longrightarrow> P a s \<Longrightarrow> thesis) \<Longrightarrow> thesis"
  by (auto simp: returns_def split: prod.splits sum.splits)

lemma sample_recon_refused:
  "returns (recon_run_engine (sample_recon_env True 1) sample_recon_engine sample_scope sample_inputs None None None)
     (\<lambda>r en. rn_broker_only (rr_run r) = 1)"
  by (simp add: returns_def recon_run_engine_def sample_recon_engine_def sample_scope_def recon_guard_def upper_PAPER recon_allowed_modes_def
      sample_compare persist_one_def save_discrepancy_def load_discrepancy_def load_recon_run_def conflict_discrepancy_def
      save_recon_run_def finished_run_def scope_context_def sample_recon_env_def Let_def sample_found_def recovery_actions_def recovery_for_def
      sample_hash_simps compute_discrepancy_key_def discrepancy_content_hash_def new_discrepancy_def metrics_record_run_def)

theorem recon_evidence_refused_witness:
  "\<exists>r en. recon_run_engine (sample_recon_env True 1) sample_recon_engine sample_scope sample_inputs None None None = (Inr r, en) \<and>
     rn_broker_only (rr_run r) = 1 \<and> rr_discrepancies r = [] \<and> rr_recovery_actions r = []"
proof -
  obtain r en where run: "recon_run_engine (sample_recon_env True 1) sample_recon_engine sample_scope sample_inputs None None None = (Inr r, en)"
    "rn_broker_only (rr_run r) = 1" using sample_recon_refused by (rule returnsE)
  have "rv_foreign_keys (sample_recon_env True 1)" "re_tables sample_recon_engine = Some \<lparr>rt_runs = [], rt_discrepancies = []\<rparr>"
    "load_recon_run \<lparr>rt_runs = [], rt_discrepancies = []\<rparr> (rv_run_id (sample_recon_env True 1)) = None"
    by (simp_all add: sample_recon_env_def sample_recon_engine_def load_recon_run_def)
  from recon_evidence_refused [OF run(1) this] run show ?thesis by blast
qed

lemma sample_recon_twice:
  "returns (recon_run_engine (sample_recon_env False 1) sample_recon_engine sample_scope sample_inputs None None (Some (utc 0)))
     (\<lambda>r en. length (rr_recovery_actions r) = 1 \<and>
        returns (recon_run_engine (sample_recon_env False 2) en sample_scope sample_inputs None None (Some (utc 0))) (\<lambda>r2 en2. True))"
  by (simp add: returns_def recon_run_engine_def sample_recon_engine_def sample_scope_def recon_guard_def upper_PAPER recon_allowed_modes_def
      sample_compare persist_one_def save_discrepancy_def load_discrepancy_def load_recon_run_def conflict_discrepancy_def
      save_recon_run_def finished_run_def scope_context_def sample_recon_env_def Let_def sample_found_def recovery_actions_def recovery_for_def
      sample_hash_simps compute_discrepancy_key_def discrepancy_content_hash_def new_discrepancy_def metrics_record_run_def)

theorem recon_rerun_adds_nothing_witness:
  "\<exists>r1 en1 r2 en2. recon_run_engine (sample_recon_env False 1) sample_recon_engine sample_scope sample_inputs None None (Some (utc 0)) = (Inr r1, en1) \<and>
     length (rr_recovery_actions r1) = 1 \<and>
     recon_run_engine (sample_recon_env False 2) en1 sample_scope sample_inputs None None (Some (utc 0)) = (Inr r2, en2) \<and>
     rr_discrepancies r2 = [] \<and> rr_recovery_actions r2 = []"
proof -
  obtain r1 en1 where r1: "recon_run_engine (sample_recon_env False 1) sample_recon_engine sample_scope sample_inputs None None (Some (utc 0)) = (Inr r1, en1)"
    and more: "length (rr_recovery_actions r1) = 1 \<and>
      returns (recon_run_engine (sample_recon_env False 2) en1 sample_scope sample_inputs None None (Some (utc 0))) (\<lambda>r2 en2. True)"
    using sample_recon_twice by (rule returnsE)
  then obtain r2 en2 where r2: "recon_run_engine (sample_recon_env False 2) en1 sample_scope sample_inputs None None (Some (utc 0)) = (Inr r2, en2)"
    using returnsE [of "recon_run_engine (sample_recon_env False 2) en1 sample_scope sample_inputs None None (Some (utc 0))" "\<lambda>r2 en2. True"] by metis
  have "\<not> rv_foreign_keys (sample_recon_env False 1)" "rv_hash (sample_recon_env False 2) = rv_hash (sample_recon_env False 1)"
    by (simp_all add: sample_recon_env_def)
  from recon_rerun_adds_nothing [OF r1 this(1) r2 this(2)] r1 r2 more show ?thesis by blast
qed

end
