(* ===== verification/Risk_Rules.thy ===== *)
theory Risk_Rules
  imports Order_Lifecycle Signal_Contract
begin

text \<open>
  The assessment request (\<^verbatim>\<open>packages/contracts/alpha_algo_contracts/risk.py\<close>) and the risk rule
  engine (\<^verbatim>\<open>services/risk_engine/alpha_algo_risk_engine/engine.py\<close>): the twenty built-in rules, their order,
  the normalisation that keeps the global halt first, and the evaluation that stops at the first
  failing rule.

  A rule that a caller injects is an arbitrary function that may raise.  The free-form metadata of
  evaluations, decisions and contexts, which nothing reads, is dropped, and so is the unread
  \<^verbatim>\<open>order_window_seconds\<close>.  The two identifiers a decision takes from the id factory are a parameter.
\<close>

section \<open>Assessment requests\<close>

record risk_assessment_request =
  ra_request_id :: uuid
  ra_signal :: strategy_signal
  ra_requested_at :: datetime

section \<open>The evaluation context\<close>

datatype risk_trading_mode = RISK_BACKTEST | RISK_PAPER | RISK_LIVE

record risk_evaluation_context =
  rc_trading_mode :: risk_trading_mode
  rc_live_trading_enabled :: bool
  rc_global_halt_active :: bool
  rc_broker_connected :: bool
  rc_market_data_fresh :: bool
  rc_market_session_open :: bool
  rc_instrument_allowed :: bool
  rc_duplicate_signal :: bool
  rc_order_quantity :: "decimal option"
  rc_max_order_quantity :: "decimal option"
  rc_projected_position_quantity :: "decimal option"
  rc_max_position_quantity :: "decimal option"
  rc_projected_exposure :: "decimal option"
  rc_max_exposure :: "decimal option"
  rc_daily_realized_pnl :: "decimal option"
  rc_max_daily_loss :: "decimal option"
  rc_strategy_realized_pnl :: "decimal option"
  rc_max_strategy_loss :: "decimal option"
  rc_required_margin :: "decimal option"
  rc_available_margin :: "decimal option"
  rc_open_positions_count :: "int option"
  rc_max_open_positions :: "int option"
  rc_equity_value :: "decimal option"
  rc_high_water_mark :: "decimal option"
  rc_current_drawdown :: "decimal option"
  rc_max_drawdown :: "decimal option"
  rc_reference_price :: "decimal option"
  rc_current_price :: "decimal option"
  rc_max_price_deviation :: "decimal option"
  rc_recent_order_count :: "int option"
  rc_max_orders_per_window :: "int option"
  rc_account_max_order_quantity :: "decimal option"
  rc_account_max_positions :: "int option"
  rc_account_max_exposure :: "decimal option"
  rc_account_max_loss :: "decimal option"
  rc_account_max_order_rate :: "int option"
  rc_account_daily_realized_pnl :: "decimal option"
  rc_pending_execution_count :: "int option"
  rc_max_unresolved_executions :: "int option"
  rc_retry_count :: "int option"
  rc_max_retries_per_signal :: "int option"
  rc_reserved_quantity :: "decimal option"
  rc_open_order_quantity :: "decimal option"

section \<open>The rules\<close>

record rule_evaluation =
  ru_passed :: bool
  ru_rule_id :: string
  ru_reason_code :: string
  ru_reason :: string

definition rule_pass :: "string \<Rightarrow> rule_evaluation" where
  "rule_pass rid = \<lparr>ru_passed = True, ru_rule_id = rid, ru_reason_code = ''PASSED'', ru_reason = ''rule passed''\<rparr>"

definition rule_reject :: "string \<Rightarrow> string \<Rightarrow> string \<Rightarrow> rule_evaluation" where
  "rule_reject rid code why = \<lparr>ru_passed = False, ru_rule_id = rid, ru_reason_code = code, ru_reason = why\<rparr>"

definition require_positive_pair ::
  "string \<Rightarrow> decimal option \<Rightarrow> decimal option \<Rightarrow> string \<Rightarrow> string \<Rightarrow> rule_evaluation option" where
  "require_positive_pair rid current limit current_name limit_name =
     (case (current, limit) of
        (Some c, Some l) \<Rightarrow>
          if c < 0 \<or> l \<le> 0
          then Some (rule_reject rid ''RISK_CONTEXT_INVALID''
                 (current_name @ '' must be non-negative and '' @ limit_name @ '' must be positive''))
          else None
      | _ \<Rightarrow> Some (rule_reject rid ''RISK_CONTEXT_MISSING'' (current_name @ '' and '' @ limit_name @ '' are required'')))"

definition global_halt_rule :: "risk_evaluation_context \<Rightarrow> rule_evaluation" where
  "global_halt_rule c =
     (if rc_global_halt_active c
      then rule_reject ''core.global-halt'' ''GLOBAL_HALT_ACTIVE'' ''global trading halt is active''
      else rule_pass ''core.global-halt'')"

definition live_mode_rule :: "risk_evaluation_context \<Rightarrow> rule_evaluation" where
  "live_mode_rule c =
     (if rc_trading_mode c = RISK_LIVE \<and> \<not> rc_live_trading_enabled c
      then rule_reject ''core.live-mode-gate'' ''LIVE_MODE_DISABLED'' ''LIVE trading is not explicitly enabled''
      else rule_pass ''core.live-mode-gate'')"

definition broker_health_rule :: "risk_evaluation_context \<Rightarrow> rule_evaluation" where
  "broker_health_rule c =
     (if \<not> rc_broker_connected c
      then rule_reject ''core.broker-health'' ''BROKER_DISCONNECTED'' ''broker connection is not healthy''
      else rule_pass ''core.broker-health'')"

definition market_data_freshness_rule :: "risk_evaluation_context \<Rightarrow> rule_evaluation" where
  "market_data_freshness_rule c =
     (if \<not> rc_market_data_fresh c
      then rule_reject ''core.market-data-freshness'' ''STALE_MARKET_DATA'' ''market data is stale or unavailable''
      else rule_pass ''core.market-data-freshness'')"

definition market_session_rule :: "risk_evaluation_context \<Rightarrow> rule_evaluation" where
  "market_session_rule c =
     (if \<not> rc_market_session_open c
      then rule_reject ''core.market-session'' ''MARKET_SESSION_CLOSED'' ''market session is closed''
      else rule_pass ''core.market-session'')"

definition instrument_restriction_rule :: "risk_evaluation_context \<Rightarrow> rule_evaluation" where
  "instrument_restriction_rule c =
     (if \<not> rc_instrument_allowed c
      then rule_reject ''core.instrument-restriction'' ''INSTRUMENT_BLOCKED'' ''instrument is not allowed''
      else rule_pass ''core.instrument-restriction'')"

definition quantity_limit_rule :: "risk_evaluation_context \<Rightarrow> rule_evaluation" where
  "quantity_limit_rule c =
     (let rid = ''core.quantity-limit'' in
      case require_positive_pair rid (rc_order_quantity c) (rc_max_order_quantity c) ''order_quantity'' ''max_order_quantity'' of
        Some missing \<Rightarrow> missing
      | None \<Rightarrow>
          if deq (the (rc_order_quantity c)) 0
          then rule_reject rid ''ZERO_QUANTITY'' ''order quantity must be positive''
          else if the (rc_max_order_quantity c) < the (rc_order_quantity c)
          then rule_reject rid ''QUANTITY_LIMIT_EXCEEDED'' ''order quantity exceeds limit''
          else rule_pass rid)"

definition position_limit_rule :: "risk_evaluation_context \<Rightarrow> rule_evaluation" where
  "position_limit_rule c =
     (let rid = ''core.position-limit''; projected = map_option dabs (rc_projected_position_quantity c) in
      case require_positive_pair rid projected (rc_max_position_quantity c) ''projected_position_quantity'' ''max_position_quantity'' of
        Some missing \<Rightarrow> missing
      | None \<Rightarrow>
          if the (rc_max_position_quantity c) < the projected
          then rule_reject rid ''POSITION_LIMIT_EXCEEDED'' ''projected position exceeds limit''
          else rule_pass rid)"

definition exposure_limit_rule :: "risk_evaluation_context \<Rightarrow> rule_evaluation" where
  "exposure_limit_rule c =
     (let rid = ''core.exposure-limit'' in
      case require_positive_pair rid (rc_projected_exposure c) (rc_max_exposure c) ''projected_exposure'' ''max_exposure'' of
        Some missing \<Rightarrow> missing
      | None \<Rightarrow>
          if the (rc_max_exposure c) < the (rc_projected_exposure c)
          then rule_reject rid ''EXPOSURE_LIMIT_EXCEEDED'' ''projected exposure exceeds limit''
          else rule_pass rid)"

definition daily_loss_limit_rule :: "risk_evaluation_context \<Rightarrow> rule_evaluation" where
  "daily_loss_limit_rule c =
     (let rid = ''core.daily-loss-limit'' in
      case (rc_daily_realized_pnl c, rc_max_daily_loss c) of
        (Some pnl, Some loss) \<Rightarrow>
          if loss \<le> 0 then rule_reject rid ''RISK_CONTEXT_INVALID'' ''max_daily_loss must be positive''
          else if pnl \<le> - loss then rule_reject rid ''DAILY_LOSS_LIMIT_EXCEEDED'' ''daily loss limit reached''
          else rule_pass rid
      | _ \<Rightarrow> rule_reject rid ''RISK_CONTEXT_MISSING'' ''daily_realized_pnl and max_daily_loss are required'')"

definition strategy_loss_limit_rule :: "risk_evaluation_context \<Rightarrow> rule_evaluation" where
  "strategy_loss_limit_rule c =
     (let rid = ''core.strategy-loss-limit'' in
      case (rc_strategy_realized_pnl c, rc_max_strategy_loss c) of
        (Some pnl, Some loss) \<Rightarrow>
          if loss \<le> 0 then rule_reject rid ''RISK_CONTEXT_INVALID'' ''max_strategy_loss must be positive''
          else if pnl \<le> - loss then rule_reject rid ''STRATEGY_LOSS_LIMIT_EXCEEDED'' ''strategy loss limit reached''
          else rule_pass rid
      | _ \<Rightarrow> rule_reject rid ''RISK_CONTEXT_MISSING'' ''strategy_realized_pnl and max_strategy_loss are required'')"

definition margin_availability_rule :: "risk_evaluation_context \<Rightarrow> rule_evaluation" where
  "margin_availability_rule c =
     (let rid = ''core.margin-availability'' in
      case require_positive_pair rid (rc_required_margin c) (rc_available_margin c) ''required_margin'' ''available_margin'' of
        Some missing \<Rightarrow> missing
      | None \<Rightarrow>
          if the (rc_available_margin c) < the (rc_required_margin c)
          then rule_reject rid ''MARGIN_UNAVAILABLE'' ''required margin exceeds availability''
          else rule_pass rid)"

definition duplicate_order_protection_rule :: "risk_evaluation_context \<Rightarrow> rule_evaluation" where
  "duplicate_order_protection_rule c =
     (if rc_duplicate_signal c
      then rule_reject ''core.duplicate-order-protection'' ''DUPLICATE_SIGNAL'' ''duplicate signal detected''
      else rule_pass ''core.duplicate-order-protection'')"

definition maximum_open_positions_rule :: "risk_evaluation_context \<Rightarrow> rule_evaluation" where
  "maximum_open_positions_rule c =
     (let rid = ''core.maximum-open-positions'' in
      case (rc_open_positions_count c, rc_max_open_positions c) of
        (Some n, Some m) \<Rightarrow>
          if n < 0 \<or> m < 0 then rule_reject rid ''RISK_CONTEXT_INVALID'' ''open position counts must be non-negative''
          else if m \<le> n then rule_reject rid ''MAX_OPEN_POSITIONS_REACHED'' ''maximum simultaneous positions reached''
          else rule_pass rid
      | _ \<Rightarrow> rule_reject rid ''RISK_CONTEXT_MISSING'' ''open_positions_count and max_open_positions are required'')"

text \<open>The five account checks run in this order; each is skipped when its limit is not configured.\<close>

fun account_check :: "'l option \<Rightarrow> 'v option \<Rightarrow> ('v \<Rightarrow> 'l \<Rightarrow> bool) \<Rightarrow> string \<Rightarrow> string \<Rightarrow> string \<Rightarrow> rule_evaluation option" where
  "account_check None value exceeded missing code why = None"
| "account_check (Some limit) None exceeded missing code why = Some (rule_reject ''core.account-limits'' ''RISK_CONTEXT_MISSING'' missing)"
| "account_check (Some limit) (Some v) exceeded missing code why =
     (if exceeded v limit then Some (rule_reject ''core.account-limits'' code why) else None)"

definition first_rejection :: "rule_evaluation option list \<Rightarrow> rule_evaluation \<Rightarrow> rule_evaluation" where
  "first_rejection checks ok = (case List.find (\<lambda>c. c \<noteq> None) checks of Some (Some r) \<Rightarrow> r | _ \<Rightarrow> ok)"

definition account_limit_rule :: "risk_evaluation_context \<Rightarrow> rule_evaluation" where
  "account_limit_rule c = first_rejection
     [account_check (rc_account_max_order_quantity c) (rc_order_quantity c) (\<lambda>v l. l < v)
        ''order_quantity is required for the account quantity limit''
        ''ACCOUNT_ORDER_QUANTITY_LIMIT_EXCEEDED'' ''account order-quantity limit exceeded'',
      account_check (rc_account_max_positions c) (rc_open_positions_count c) (\<lambda>v l. l \<le> v)
        ''open_positions_count is required for the account position limit''
        ''ACCOUNT_POSITIONS_LIMIT_EXCEEDED'' ''account position limit reached'',
      account_check (rc_account_max_exposure c) (rc_projected_exposure c) (\<lambda>v l. l < v)
        ''projected_exposure is required for the account exposure limit''
        ''ACCOUNT_EXPOSURE_LIMIT_EXCEEDED'' ''account exposure limit exceeded'',
      account_check (rc_account_max_loss c) (rc_account_daily_realized_pnl c) (\<lambda>v l. v \<le> - l)
        ''account_daily_realized_pnl is required for the account loss limit''
        ''ACCOUNT_LOSS_LIMIT_EXCEEDED'' ''account loss limit reached'',
      account_check (rc_account_max_order_rate c) (rc_recent_order_count c) (\<lambda>v l. l \<le> v)
        ''recent_order_count is required for the account order-rate limit''
        ''ACCOUNT_ORDER_RATE_EXCEEDED'' ''account order-rate limit exceeded'']
     (rule_pass ''core.account-limits'')"

definition maximum_drawdown_rule :: "risk_evaluation_context \<Rightarrow> rule_evaluation" where
  "maximum_drawdown_rule c =
     (let rid = ''core.maximum-drawdown'' in
      case rc_max_drawdown c of
        None \<Rightarrow> rule_pass rid
      | Some limit \<Rightarrow>
          case rc_current_drawdown c of
            None \<Rightarrow> rule_reject rid ''RISK_CONTEXT_MISSING'' ''current_drawdown is required when a drawdown limit is configured''
          | Some d \<Rightarrow>
              if limit < 0 \<or> d < 0 then rule_reject rid ''RISK_CONTEXT_INVALID'' ''drawdown values must be non-negative''
              else if limit < d then rule_reject rid ''DRAWDOWN_LIMIT_EXCEEDED'' ''drawdown limit exceeded''
              else rule_pass rid)"

text \<open>The reference price is positive where it divides, so the quotient is always defined.\<close>

definition price_deviation_rule :: "risk_evaluation_context \<Rightarrow> rule_evaluation" where
  "price_deviation_rule c =
     (let rid = ''core.price-deviation'' in
      case rc_max_price_deviation c of
        None \<Rightarrow> rule_pass rid
      | Some limit \<Rightarrow>
          case (rc_reference_price c, rc_current_price c) of
            (Some reference, Some current) \<Rightarrow>
              if reference \<le> 0 then rule_reject rid ''RISK_CONTEXT_INVALID'' ''reference_price must be positive''
              else if current \<le> 0 then rule_reject rid ''PRICE_INVALID'' ''current price must be positive''
              else if limit < 0 then rule_reject rid ''RISK_CONTEXT_INVALID'' ''max_price_deviation must be non-negative''
              else (case ddiv (dabs (current - reference)) reference of
                  None \<Rightarrow> rule_reject rid ''RISK_RULE_ERROR'' ''division by zero''
                | Some deviation \<Rightarrow>
                    if limit < deviation
                    then rule_reject rid ''PRICE_DEVIATION_EXCEEDED'' ''price deviation from reference exceeds threshold''
                    else rule_pass rid)
          | _ \<Rightarrow> rule_reject rid ''RISK_CONTEXT_MISSING''
                   ''reference_price and current_price are required when a price-deviation limit is configured'')"

text \<open>The shape the three counting rules share: a configured limit, a measured count, a comparison.\<close>

definition count_rule ::
  "string \<Rightarrow> int option \<Rightarrow> int option \<Rightarrow> (int \<Rightarrow> int \<Rightarrow> bool) \<Rightarrow> string \<Rightarrow> string \<Rightarrow> string \<Rightarrow> string \<Rightarrow> rule_evaluation" where
  "count_rule rid limit count exceeded missing invalid code why =
     (case limit of
        None \<Rightarrow> rule_pass rid
      | Some m \<Rightarrow>
          case count of
            None \<Rightarrow> rule_reject rid ''RISK_CONTEXT_MISSING'' missing
          | Some n \<Rightarrow>
              if n < 0 \<or> m < 0 then rule_reject rid ''RISK_CONTEXT_INVALID'' invalid
              else if exceeded n m then rule_reject rid code why
              else rule_pass rid)"

definition order_frequency_rule :: "risk_evaluation_context \<Rightarrow> rule_evaluation" where
  "order_frequency_rule c = count_rule ''core.order-frequency'' (rc_max_orders_per_window c) (rc_recent_order_count c)
     (\<lambda>n m. m \<le> n) ''recent_order_count is required when an order-frequency limit is configured''
     ''order counts must be non-negative'' ''ORDER_FREQUENCY_LIMIT_EXCEEDED'' ''order frequency limit reached''"

definition execution_timeout_rule :: "risk_evaluation_context \<Rightarrow> rule_evaluation" where
  "execution_timeout_rule c = count_rule ''core.execution-timeout'' (rc_max_unresolved_executions c) (rc_pending_execution_count c)
     (\<lambda>n m. m \<le> n) ''pending_execution_count is required when an execution-timeout limit is configured''
     ''execution counts must be non-negative'' ''UNRESOLVED_EXECUTIONS_LIMIT_EXCEEDED'' ''too many unresolved executions''"

definition retry_safety_rule :: "risk_evaluation_context \<Rightarrow> rule_evaluation" where
  "retry_safety_rule c = count_rule ''core.retry-safety'' (rc_max_retries_per_signal c) (rc_retry_count c)
     (\<lambda>n m. m < n) ''retry_count is required when a retry limit is configured''
     ''retry counts must be non-negative'' ''MAX_RETRIES_EXCEEDED'' ''signal retry limit exceeded''"

section \<open>The rule engine\<close>

text \<open>A rule object: a built-in one, or an injected one with its id and what its \<^verbatim>\<open>evaluate\<close> returns,
  \<open>None\<close> when it raises.\<close>

datatype risk_rule =
    GlobalHaltRule | LiveModeRule | BrokerHealthRule | MarketDataFreshnessRule | MarketSessionRule
  | InstrumentRestrictionRule | AccountLimitRule | QuantityLimitRule | PositionLimitRule | ExposureLimitRule
  | DailyLossLimitRule | StrategyLossLimitRule | MarginAvailabilityRule | MaximumDrawdownRule
  | PriceDeviationRule | OrderFrequencyRule | DuplicateOrderProtectionRule | MaximumOpenPositionsRule
  | ExecutionTimeoutRule | RetrySafetyRule
  | InjectedRule string "risk_assessment_request \<Rightarrow> risk_evaluation_context \<Rightarrow> rule_evaluation option"

fun evaluate_rule ::
  "risk_rule \<Rightarrow> risk_assessment_request \<Rightarrow> risk_evaluation_context \<Rightarrow> rule_evaluation option" where
  "evaluate_rule GlobalHaltRule q c = Some (global_halt_rule c)"
| "evaluate_rule LiveModeRule q c = Some (live_mode_rule c)"
| "evaluate_rule BrokerHealthRule q c = Some (broker_health_rule c)"
| "evaluate_rule MarketDataFreshnessRule q c = Some (market_data_freshness_rule c)"
| "evaluate_rule MarketSessionRule q c = Some (market_session_rule c)"
| "evaluate_rule InstrumentRestrictionRule q c = Some (instrument_restriction_rule c)"
| "evaluate_rule AccountLimitRule q c = Some (account_limit_rule c)"
| "evaluate_rule QuantityLimitRule q c = Some (quantity_limit_rule c)"
| "evaluate_rule PositionLimitRule q c = Some (position_limit_rule c)"
| "evaluate_rule ExposureLimitRule q c = Some (exposure_limit_rule c)"
| "evaluate_rule DailyLossLimitRule q c = Some (daily_loss_limit_rule c)"
| "evaluate_rule StrategyLossLimitRule q c = Some (strategy_loss_limit_rule c)"
| "evaluate_rule MarginAvailabilityRule q c = Some (margin_availability_rule c)"
| "evaluate_rule MaximumDrawdownRule q c = Some (maximum_drawdown_rule c)"
| "evaluate_rule PriceDeviationRule q c = Some (price_deviation_rule c)"
| "evaluate_rule OrderFrequencyRule q c = Some (order_frequency_rule c)"
| "evaluate_rule DuplicateOrderProtectionRule q c = Some (duplicate_order_protection_rule c)"
| "evaluate_rule MaximumOpenPositionsRule q c = Some (maximum_open_positions_rule c)"
| "evaluate_rule ExecutionTimeoutRule q c = Some (execution_timeout_rule c)"
| "evaluate_rule RetrySafetyRule q c = Some (retry_safety_rule c)"
| "evaluate_rule (InjectedRule rid f) q c = f q c"

fun rule_id :: "risk_rule \<Rightarrow> string" where
  "rule_id GlobalHaltRule = ''core.global-halt''"
| "rule_id LiveModeRule = ''core.live-mode-gate''"
| "rule_id BrokerHealthRule = ''core.broker-health''"
| "rule_id MarketDataFreshnessRule = ''core.market-data-freshness''"
| "rule_id MarketSessionRule = ''core.market-session''"
| "rule_id InstrumentRestrictionRule = ''core.instrument-restriction''"
| "rule_id AccountLimitRule = ''core.account-limits''"
| "rule_id QuantityLimitRule = ''core.quantity-limit''"
| "rule_id PositionLimitRule = ''core.position-limit''"
| "rule_id ExposureLimitRule = ''core.exposure-limit''"
| "rule_id DailyLossLimitRule = ''core.daily-loss-limit''"
| "rule_id StrategyLossLimitRule = ''core.strategy-loss-limit''"
| "rule_id MarginAvailabilityRule = ''core.margin-availability''"
| "rule_id MaximumDrawdownRule = ''core.maximum-drawdown''"
| "rule_id PriceDeviationRule = ''core.price-deviation''"
| "rule_id OrderFrequencyRule = ''core.order-frequency''"
| "rule_id DuplicateOrderProtectionRule = ''core.duplicate-order-protection''"
| "rule_id MaximumOpenPositionsRule = ''core.maximum-open-positions''"
| "rule_id ExecutionTimeoutRule = ''core.execution-timeout''"
| "rule_id RetrySafetyRule = ''core.retry-safety''"
| "rule_id (InjectedRule rid f) = rid"

definition default_risk_rules :: "risk_rule list" where
  "default_risk_rules =
     [GlobalHaltRule, LiveModeRule, BrokerHealthRule, MarketDataFreshnessRule, MarketSessionRule,
      InstrumentRestrictionRule, AccountLimitRule, QuantityLimitRule, PositionLimitRule, ExposureLimitRule,
      DailyLossLimitRule, StrategyLossLimitRule, MarginAvailabilityRule, MaximumDrawdownRule, PriceDeviationRule,
      OrderFrequencyRule, DuplicateOrderProtectionRule, MaximumOpenPositionsRule, ExecutionTimeoutRule, RetrySafetyRule]"

fun is_halt_rule :: "risk_rule \<Rightarrow> bool" where
  "is_halt_rule GlobalHaltRule = True"
| "is_halt_rule _ = False"

definition with_global_halt_first :: "risk_rule list option \<Rightarrow> risk_rule list" where
  "with_global_halt_first rules =
     (case rules of
        None \<Rightarrow> default_risk_rules
      | Some [] \<Rightarrow> []
      | Some (r # rs) \<Rightarrow>
          if is_halt_rule r then r # rs else GlobalHaltRule # filter (\<lambda>x. \<not> is_halt_rule x) (r # rs))"

record risk_rule_engine =
  re_rules :: "risk_rule list"
  re_approval_ttl :: int

datatype risk_error = RiskValueError string | RiskValidationError | RiskContextUnavailable string | RiskOtherError string

definition mk_rule_engine :: "risk_rule list option \<Rightarrow> int \<Rightarrow> (risk_error, risk_rule_engine) result" where
  "mk_rule_engine rules ttl =
     (if ttl \<le> 0 then Inl (RiskValueError ''approval_ttl must be positive'')
      else Inr \<lparr>re_rules = with_global_halt_first rules, re_approval_ttl = ttl\<rparr>)"

text \<open>Constructing a \<^verbatim>\<open>RiskDecision\<close> runs its validators.\<close>

definition mk_risk_decision :: "risk_decision \<Rightarrow> (risk_error, risk_decision) result" where
  "mk_risk_decision d = (if risk_decision_valid d then Inr d else Inl RiskValidationError)"

definition reject_decision ::
  "risk_assessment_request \<Rightarrow> uuid \<Rightarrow> datetime \<Rightarrow> string \<Rightarrow> string \<Rightarrow> string \<Rightarrow> risk_decision" where
  "reject_decision q did now rid code why =
     \<lparr>rd_decision_id = did, rd_request_id = ra_request_id q, rd_signal_id = ss_signal_id (ra_signal q),
      rd_strategy_id = ss_strategy_id (ra_signal q), rd_instrument_id = ss_instrument_id (ra_signal q),
      rd_decision = RISK_REJECTED, rd_reason_code = code, rd_reason = why, rd_rule_id = rid, rd_evaluated_at = now,
      rd_approval_id = None, rd_expires_at = None, rd_binding_hash = None, rd_snapshot_id = None\<rparr>"

definition approve_decision ::
  "risk_assessment_request \<Rightarrow> uuid \<Rightarrow> uuid \<Rightarrow> datetime \<Rightarrow> int \<Rightarrow> risk_decision" where
  "approve_decision q did aid now ttl =
     \<lparr>rd_decision_id = did, rd_request_id = ra_request_id q, rd_signal_id = ss_signal_id (ra_signal q),
      rd_strategy_id = ss_strategy_id (ra_signal q), rd_instrument_id = ss_instrument_id (ra_signal q),
      rd_decision = APPROVED, rd_reason_code = ''ALL_RULES_PASSED'', rd_reason = ''all configured risk rules passed'',
      rd_rule_id = ''core.risk-rule-engine'', rd_evaluated_at = now, rd_approval_id = Some aid,
      rd_expires_at = Some (Datetime (instant now + ttl) (utcoffset now)), rd_binding_hash = None, rd_snapshot_id = None\<rparr>"

text \<open>The loop over the rules: the first rule that raises or does not pass decides.\<close>

fun rules_loop ::
  "risk_assessment_request \<Rightarrow> risk_evaluation_context \<Rightarrow> risk_rule list \<Rightarrow> (string \<times> string \<times> string) option" where
  "rules_loop q c [] = None"
| "rules_loop q c (r # rs) =
     (case evaluate_rule r q c of
        None \<Rightarrow> Some (rule_id r, ''RISK_RULE_ERROR'', ''risk rule raised an exception'')
      | Some e \<Rightarrow>
          if \<not> ru_passed e then Some (ru_rule_id e, ru_reason_code e, ru_reason e) else rules_loop q c rs)"

definition engine_evaluate ::
  "risk_rule_engine \<Rightarrow> datetime \<Rightarrow> uuid \<Rightarrow> uuid \<Rightarrow> risk_assessment_request \<Rightarrow> risk_evaluation_context
   \<Rightarrow> (risk_error, risk_decision) result" where
  "engine_evaluate e now did aid q c =
     (if \<not> tz_aware now then Inl (RiskValueError ''clock must return a timezone-aware datetime'')
      else if re_rules e = []
      then mk_risk_decision (reject_decision q did now ''core.fail-safe'' ''NO_RISK_RULES_CONFIGURED''
             ''risk engine has no configured rules'')
      else case rules_loop q c (re_rules e) of
        Some (rid, code, why) \<Rightarrow> mk_risk_decision (reject_decision q did now rid code why)
      | None \<Rightarrow> mk_risk_decision (approve_decision q did aid now (re_approval_ttl e)))"

section \<open>When a rule passes\<close>

named_theorems rule_passes \<open>when each built-in rule passes\<close>

lemma ru_passed_simps [simp]: "ru_passed (rule_pass rid)" "\<not> ru_passed (rule_reject rid code why)"
  by (simp_all add: rule_pass_def rule_reject_def)

text \<open>A measured value that must be present, not negative and at most a positive limit.\<close>

definition in_limit :: "decimal option \<Rightarrow> decimal option \<Rightarrow> bool" where
  "in_limit value limit \<longleftrightarrow> (\<exists>v l. value = Some v \<and> limit = Some l \<and> 0 \<le> dval v \<and> 0 < dval l \<and> dval v \<le> dval l)"

lemma in_limit_Some [simp]: "in_limit (Some v) (Some l) \<longleftrightarrow> 0 \<le> dval v \<and> 0 < dval l \<and> dval v \<le> dval l"
  and in_limit_None [simp]: "\<not> in_limit None y" "\<not> in_limit x None"
  by (auto simp: in_limit_def)

text \<open>A loss that must stay strictly above the negated positive limit.\<close>

definition loss_above :: "decimal option \<Rightarrow> decimal option \<Rightarrow> bool" where
  "loss_above pnl limit \<longleftrightarrow> (\<exists>p l. pnl = Some p \<and> limit = Some l \<and> 0 < dval l \<and> - dval l < dval p)"

definition configured :: "'l option \<Rightarrow> ('l \<Rightarrow> bool) \<Rightarrow> bool" where
  "configured limit P \<longleftrightarrow> (case limit of None \<Rightarrow> True | Some l \<Rightarrow> P l)"

definition present :: "'v option \<Rightarrow> ('v \<Rightarrow> bool) \<Rightarrow> bool" where
  "present value P \<longleftrightarrow> (case value of None \<Rightarrow> False | Some v \<Rightarrow> P v)"

lemma configured_simps [simp]: "configured None P" "configured (Some l) P = P l"
  "\<not> present None P'" "present (Some v) P' = P' v"
  by (simp_all add: configured_def present_def)

lemma dval_dabs: "rep28 (dval d) \<Longrightarrow> dval (dabs d) = \<bar>dval d\<bar>"
proof -
  assume r: "rep28 (dval d)"
  show ?thesis
  proof (cases "coeff d < 0")
    case True
    have "dval (dfix (Dec (- coeff d) (expo d))) = - dval (dfix (Dec (coeff d) (expo d)))" by (rule dfix_neg)
    also have "\<dots> = - dval d" using dval_dfix_rep [OF r] by simp
    finally show ?thesis using True dval_neg_iff [of d] by (simp add: dabs_def dneg_def)
  next
    case False
    then have "0 \<le> dval d" using dval_neg_iff [of d] by linarith
    with False show ?thesis using dval_dfix_rep [OF r] by (simp add: dabs_def)
  qed
qed

lemma dval_uminus: "rep28 (dval d) \<Longrightarrow> dval (- d) = - dval d"
  using dfix_neg [of "coeff d" "expo d"] dval_dfix_rep [of d] by (simp add: uminus_decimal_def dneg_def)

lemma simple_rule_passes [rule_passes]:
  "ru_passed (global_halt_rule c) \<longleftrightarrow> \<not> rc_global_halt_active c"
  "ru_passed (live_mode_rule c) \<longleftrightarrow> (rc_trading_mode c = RISK_LIVE \<longrightarrow> rc_live_trading_enabled c)"
  "ru_passed (broker_health_rule c) \<longleftrightarrow> rc_broker_connected c"
  "ru_passed (market_data_freshness_rule c) \<longleftrightarrow> rc_market_data_fresh c"
  "ru_passed (market_session_rule c) \<longleftrightarrow> rc_market_session_open c"
  "ru_passed (instrument_restriction_rule c) \<longleftrightarrow> rc_instrument_allowed c"
  "ru_passed (duplicate_order_protection_rule c) \<longleftrightarrow> \<not> rc_duplicate_signal c"
  by (auto simp: global_halt_rule_def live_mode_rule_def broker_health_rule_def market_data_freshness_rule_def
      market_session_rule_def instrument_restriction_rule_def duplicate_order_protection_rule_def)

lemma limit_rule_passes [rule_passes]:
  "ru_passed (quantity_limit_rule c) \<longleftrightarrow>
     in_limit (rc_order_quantity c) (rc_max_order_quantity c) \<and> present (rc_order_quantity c) (\<lambda>q. 0 < dval q)"
  "ru_passed (exposure_limit_rule c) \<longleftrightarrow> in_limit (rc_projected_exposure c) (rc_max_exposure c)"
  "ru_passed (margin_availability_rule c) \<longleftrightarrow> in_limit (rc_required_margin c) (rc_available_margin c)"
  "ru_passed (position_limit_rule c) \<longleftrightarrow> in_limit (map_option dabs (rc_projected_position_quantity c)) (rc_max_position_quantity c)"
  unfolding quantity_limit_rule_def exposure_limit_rule_def margin_availability_rule_def position_limit_rule_def
  by (auto simp: Let_def in_limit_def decimal_order not_less require_positive_pair_def split: option.splits)

lemma loss_rule_passes:
  assumes "\<And>l. rc_max_daily_loss c = Some l \<Longrightarrow> rep28 (dval l)" "\<And>l. rc_max_strategy_loss c = Some l \<Longrightarrow> rep28 (dval l)"
  shows "ru_passed (daily_loss_limit_rule c) \<longleftrightarrow> loss_above (rc_daily_realized_pnl c) (rc_max_daily_loss c)"
    and "ru_passed (strategy_loss_limit_rule c) \<longleftrightarrow> loss_above (rc_strategy_realized_pnl c) (rc_max_strategy_loss c)"
  using assms by (auto simp: daily_loss_limit_rule_def strategy_loss_limit_rule_def loss_above_def Let_def decimal_order
      dval_uminus not_le split: option.splits)

lemma count_rule_passes [rule_passes]:
  "ru_passed (order_frequency_rule c) \<longleftrightarrow> configured (rc_max_orders_per_window c) (\<lambda>m. present (rc_recent_order_count c) (\<lambda>n. 0 \<le> n \<and> n < m))"
  "ru_passed (execution_timeout_rule c) \<longleftrightarrow>
     configured (rc_max_unresolved_executions c) (\<lambda>m. present (rc_pending_execution_count c) (\<lambda>n. 0 \<le> n \<and> n < m))"
  "ru_passed (retry_safety_rule c) \<longleftrightarrow>
     configured (rc_max_retries_per_signal c) (\<lambda>m. present (rc_retry_count c) (\<lambda>n. 0 \<le> n \<and> n \<le> m))"
  "ru_passed (maximum_open_positions_rule c) \<longleftrightarrow>
     present (rc_max_open_positions c) (\<lambda>m. present (rc_open_positions_count c) (\<lambda>n. 0 \<le> n \<and> n < m))"
  by (auto simp: order_frequency_rule_def execution_timeout_rule_def retry_safety_rule_def count_rule_def
      maximum_open_positions_rule_def configured_def present_def Let_def not_less split: option.splits)

lemma drawdown_rule_passes [rule_passes]:
  "ru_passed (maximum_drawdown_rule c) \<longleftrightarrow>
     configured (rc_max_drawdown c) (\<lambda>m. present (rc_current_drawdown c) (\<lambda>d. 0 \<le> dval d \<and> dval d \<le> dval m))"
  by (auto simp: maximum_drawdown_rule_def configured_def present_def Let_def decimal_order not_less split: option.splits)

lemma price_deviation_rule_passes [rule_passes]:
  "ru_passed (price_deviation_rule c) \<longleftrightarrow>
     configured (rc_max_price_deviation c) (\<lambda>m. 0 \<le> dval m \<and>
       present (rc_reference_price c) (\<lambda>r. 0 < dval r \<and> present (rc_current_price c) (\<lambda>p. 0 < dval p \<and>
         present (ddiv (dabs (p - r)) r) (\<lambda>dev. dval dev \<le> dval m))))"
  by (auto simp: price_deviation_rule_def configured_def present_def Let_def decimal_order not_less not_le split: option.splits)

lemma account_check_None:
  "account_check l v ex missing code why = None \<longleftrightarrow> configured l (\<lambda>m. present v (\<lambda>x. \<not> ex x m))"
  by (cases l; cases v) simp_all

lemma account_check_Some: "account_check l v ex missing code why = Some e \<Longrightarrow> \<not> ru_passed e"
  by (cases l; cases v) (auto split: if_splits)

lemma first_rejection_passes:
  assumes "\<And>e. Some e \<in> set checks \<Longrightarrow> \<not> ru_passed e" "ru_passed ok"
  shows "ru_passed (first_rejection checks ok) \<longleftrightarrow> (\<forall>x\<in>set checks. x = None)"
  using assms by (induction checks) (auto simp: first_rejection_def split: option.splits)

lemma account_rule_passes:
  assumes "\<And>l. rc_account_max_loss c = Some l \<Longrightarrow> rep28 (dval l)"
  shows "ru_passed (account_limit_rule c) \<longleftrightarrow>
     configured (rc_account_max_order_quantity c) (\<lambda>m. present (rc_order_quantity c) (\<lambda>q. dval q \<le> dval m)) \<and>
     configured (rc_account_max_positions c) (\<lambda>m. present (rc_open_positions_count c) (\<lambda>n. n < m)) \<and>
     configured (rc_account_max_exposure c) (\<lambda>m. present (rc_projected_exposure c) (\<lambda>x. dval x \<le> dval m)) \<and>
     configured (rc_account_max_loss c) (\<lambda>m. present (rc_account_daily_realized_pnl c) (\<lambda>p. - dval m < dval p)) \<and>
     configured (rc_account_max_order_rate c) (\<lambda>m. present (rc_recent_order_count c) (\<lambda>n. n < m))"
proof -
  have loss: "configured (rc_account_max_loss c) (\<lambda>m. present v (\<lambda>x. dval (- m) < dval x)) \<longleftrightarrow>
      configured (rc_account_max_loss c) (\<lambda>m. present v (\<lambda>p. - dval m < dval p))" for v
    using assms by (auto simp: configured_def present_def decimal_order dval_uminus not_le split: option.splits)
  show ?thesis unfolding account_limit_rule_def
    by (subst first_rejection_passes) (auto dest: sym account_check_Some simp: account_check_None loss decimal_order not_less not_le)
qed

section \<open>What the engine decides\<close>

text \<open>The texts of an evaluation fit the fields of a \<^verbatim>\<open>RiskDecision\<close>.\<close>

definition short_text :: "nat \<Rightarrow> string \<Rightarrow> bool" where
  "short_text n s \<longleftrightarrow> 1 \<le> length s \<and> length s \<le> n \<and> \<not> blank s"

definition texts_ok :: "rule_evaluation \<Rightarrow> bool" where
  "texts_ok e \<longleftrightarrow> short_text 100 (ru_rule_id e) \<and> short_text 100 (ru_reason_code e) \<and> short_text 500 (ru_reason e)"

lemma short_text_Cons: "\<not> is_space x \<Longrightarrow> short_text n (x # xs) \<longleftrightarrow> length xs < n"
  by (auto simp: short_text_def blank_Cons)

lemma texts_ok_simps [simp]:
  "texts_ok (rule_pass rid) \<longleftrightarrow> short_text 100 rid"
  "texts_ok (rule_reject rid code why) \<longleftrightarrow> short_text 100 rid \<and> short_text 100 code \<and> short_text 500 why"
  by (simp_all add: texts_ok_def rule_pass_def rule_reject_def short_text_Cons is_space_def)

fun built_in :: "risk_rule \<Rightarrow> bool" where
  "built_in (InjectedRule rid f) = False"
| "built_in _ = True"

lemma first_rejection_ok: "P ok \<Longrightarrow> (\<And>e. Some e \<in> set checks \<Longrightarrow> P e) \<Longrightarrow> P (first_rejection checks ok)"
  by (induction checks) (auto simp: first_rejection_def split: option.splits)

lemma account_check_ok:
  "account_check l v ex missing code why = Some e \<Longrightarrow> short_text 500 missing \<Longrightarrow> short_text 100 code \<Longrightarrow> short_text 500 why \<Longrightarrow> texts_ok e"
  by (cases l; cases v) (auto simp: short_text_Cons is_space_def split: if_splits)

lemma account_rule_texts: "texts_ok (account_limit_rule c)"
  unfolding account_limit_rule_def
  by (rule first_rejection_ok) (auto dest!: sym [of "Some _"] account_check_ok simp: short_text_Cons is_space_def)

lemma evaluate_rule_texts: "built_in r \<Longrightarrow> \<exists>e. evaluate_rule r q c = Some e \<and> texts_ok e"
  by (cases r)
     (simp_all add: account_rule_texts global_halt_rule_def live_mode_rule_def broker_health_rule_def market_data_freshness_rule_def
        market_session_rule_def instrument_restriction_rule_def duplicate_order_protection_rule_def
        quantity_limit_rule_def position_limit_rule_def exposure_limit_rule_def margin_availability_rule_def
        require_positive_pair_def daily_loss_limit_rule_def strategy_loss_limit_rule_def maximum_open_positions_rule_def
        maximum_drawdown_rule_def price_deviation_rule_def order_frequency_rule_def execution_timeout_rule_def
        retry_safety_rule_def count_rule_def Let_def short_text_Cons is_space_def split: option.split)

lemma rules_loop_None:
  "rules_loop q c rs = None \<longleftrightarrow> (\<forall>r\<in>set rs. \<exists>e. evaluate_rule r q c = Some e \<and> ru_passed e)"
  by (induction rs) (auto split: option.splits)

lemma rules_loop_texts:
  "\<forall>r\<in>set rs. built_in r \<Longrightarrow> rules_loop q c rs = Some (rid, code, why) \<Longrightarrow>
     short_text 100 rid \<and> short_text 100 code \<and> short_text 500 why"
proof (induction rs)
  case (Cons r rs)
  obtain e where "evaluate_rule r q c = Some e" "texts_ok e" using evaluate_rule_texts [of r q c] Cons.prems(1) by auto
  then show ?case using Cons by (auto simp: texts_ok_def split: if_splits)
qed simp

lemma reject_decision_valid:
  "tz_aware now \<Longrightarrow> short_text 100 rid \<Longrightarrow> short_text 100 code \<Longrightarrow> short_text 500 why \<Longrightarrow>
     risk_decision_valid (reject_decision q did now rid code why)"
  by (simp add: risk_decision_valid_def reject_decision_def short_text_def)

lemma approve_decision_valid:
  "tz_aware now \<Longrightarrow> 0 < ttl \<Longrightarrow> risk_decision_valid (approve_decision q did aid now ttl)"
  by (simp add: risk_decision_valid_def approve_decision_def blank_Cons is_space_def tz_aware_def)

lemma default_rules_built_in: "\<forall>r\<in>set default_risk_rules. built_in r" and default_rules_not_Nil: "default_risk_rules \<noteq> []"
  by (simp_all add: default_risk_rules_def)

text \<open>The reference definition: what the configured limits demand of a context.\<close>

definition risk_acceptable :: "risk_evaluation_context \<Rightarrow> bool" where
  "risk_acceptable c \<longleftrightarrow>
     \<not> rc_global_halt_active c \<and> (rc_trading_mode c = RISK_LIVE \<longrightarrow> rc_live_trading_enabled c) \<and>
     rc_broker_connected c \<and> rc_market_data_fresh c \<and> rc_market_session_open c \<and> rc_instrument_allowed c \<and>
     \<not> rc_duplicate_signal c \<and>
     in_limit (rc_order_quantity c) (rc_max_order_quantity c) \<and> present (rc_order_quantity c) (\<lambda>q. 0 < dval q) \<and>
     present (rc_projected_position_quantity c) (\<lambda>p. present (rc_max_position_quantity c) (\<lambda>m. 0 < dval m \<and> \<bar>dval p\<bar> \<le> dval m)) \<and>
     in_limit (rc_projected_exposure c) (rc_max_exposure c) \<and>
     in_limit (rc_required_margin c) (rc_available_margin c) \<and>
     loss_above (rc_daily_realized_pnl c) (rc_max_daily_loss c) \<and>
     loss_above (rc_strategy_realized_pnl c) (rc_max_strategy_loss c) \<and>
     present (rc_max_open_positions c) (\<lambda>m. present (rc_open_positions_count c) (\<lambda>n. 0 \<le> n \<and> n < m)) \<and>
     configured (rc_account_max_order_quantity c) (\<lambda>m. present (rc_order_quantity c) (\<lambda>q. dval q \<le> dval m)) \<and>
     configured (rc_account_max_positions c) (\<lambda>m. present (rc_open_positions_count c) (\<lambda>n. n < m)) \<and>
     configured (rc_account_max_exposure c) (\<lambda>m. present (rc_projected_exposure c) (\<lambda>x. dval x \<le> dval m)) \<and>
     configured (rc_account_max_loss c) (\<lambda>m. present (rc_account_daily_realized_pnl c) (\<lambda>p. - dval m < dval p)) \<and>
     configured (rc_account_max_order_rate c) (\<lambda>m. present (rc_recent_order_count c) (\<lambda>n. n < m)) \<and>
     configured (rc_max_drawdown c) (\<lambda>m. present (rc_current_drawdown c) (\<lambda>d. 0 \<le> dval d \<and> dval d \<le> dval m)) \<and>
     configured (rc_max_price_deviation c) (\<lambda>m. 0 \<le> dval m \<and>
       present (rc_reference_price c) (\<lambda>r. 0 < dval r \<and> present (rc_current_price c) (\<lambda>p. 0 < dval p \<and>
         present (ddiv (dabs (p - r)) r) (\<lambda>dev. dval dev \<le> dval m)))) \<and>
     configured (rc_max_orders_per_window c) (\<lambda>m. present (rc_recent_order_count c) (\<lambda>n. 0 \<le> n \<and> n < m)) \<and>
     configured (rc_max_unresolved_executions c) (\<lambda>m. present (rc_pending_execution_count c) (\<lambda>n. 0 \<le> n \<and> n < m)) \<and>
     configured (rc_max_retries_per_signal c) (\<lambda>m. present (rc_retry_count c) (\<lambda>n. 0 \<le> n \<and> n \<le> m))"

definition context_exact :: "risk_evaluation_context \<Rightarrow> bool" where
  "context_exact c \<longleftrightarrow> (\<forall>d \<in> set [rc_projected_position_quantity c, rc_max_daily_loss c, rc_max_strategy_loss c, rc_account_max_loss c].
     configured d (\<lambda>x. rep28 (dval x)))"

lemma default_rules_pass_iff:
  assumes "context_exact c"
  shows "rules_loop q c default_risk_rules = None \<longleftrightarrow> risk_acceptable c"
proof -
  have loss: "\<And>l. rc_max_daily_loss c = Some l \<Longrightarrow> rep28 (dval l)" "\<And>l. rc_max_strategy_loss c = Some l \<Longrightarrow> rep28 (dval l)"
    "\<And>l. rc_account_max_loss c = Some l \<Longrightarrow> rep28 (dval l)"
    "\<And>p. rc_projected_position_quantity c = Some p \<Longrightarrow> rep28 (dval p)"
    using assms by (simp_all add: context_exact_def)
  have pos: "in_limit (map_option dabs (rc_projected_position_quantity c)) (rc_max_position_quantity c) \<longleftrightarrow>
      present (rc_projected_position_quantity c) (\<lambda>p. present (rc_max_position_quantity c) (\<lambda>m. 0 < dval m \<and> \<bar>dval p\<bar> \<le> dval m))"
    using loss(4) by (cases "rc_projected_position_quantity c"; cases "rc_max_position_quantity c") (auto simp: dval_dabs)
  show ?thesis
    unfolding rules_loop_None default_risk_rules_def risk_acceptable_def
    by (simp add: rule_passes loss_rule_passes [OF loss(1,2)] account_rule_passes [OF loss(3)] pos) blast
qed

text \<open>C13.  The default rule engine approves exactly the acceptable requests: for a time-zone aware clock, a
  positive approval lifetime and a context whose position and loss values have at most 28 digits, it
  always returns a valid decision, which is an approval exactly when the context meets the reference
  definition: no halt, no unrequested LIVE mode, healthy broker, fresh data, open session, allowed instrument, no duplicate,
  every mandatory value present and within its limit, every configured optional limit met.  An
  approval carries a fresh approval id and expires one lifetime after the evaluation; a rejection
  carries neither.\<close>

theorem risk_approval_exact:
  assumes "mk_rule_engine None ttl = Inr e" "tz_aware now" "context_exact c"
  shows "\<exists>d. engine_evaluate e now did aid q c = Inr d \<and> risk_decision_valid d \<and>
    (rd_decision d = APPROVED \<longleftrightarrow> risk_acceptable c) \<and>
    (if risk_acceptable c then rd_approval_id d = Some aid \<and> map_option instant (rd_expires_at d) = Some (instant now + ttl)
     else rd_approval_id d = None \<and> rd_expires_at d = None)"
proof -
  have e: "re_rules e = default_risk_rules" "re_approval_ttl e = ttl" "0 < ttl"
    using assms(1) by (auto simp: mk_rule_engine_def with_global_halt_first_def split: if_splits)
  show ?thesis
  proof (cases "rules_loop q c default_risk_rules")
    case None
    then show ?thesis using e assms(2) default_rules_not_Nil default_rules_pass_iff [OF assms(3), of q]
      by (simp add: engine_evaluate_def mk_risk_decision_def approve_decision_valid) (simp add: approve_decision_def)
  next
    case (Some v)
    obtain rid code why where v: "v = (rid, code, why)" by (cases v) auto
    have "risk_decision_valid (reject_decision q did now rid code why)"
      using rules_loop_texts [OF default_rules_built_in] Some v assms(2) by (intro reject_decision_valid) blast+
    then show ?thesis using e assms(2) default_rules_not_Nil default_rules_pass_iff [OF assms(3), of q] Some v
      by (simp add: engine_evaluate_def mk_risk_decision_def) (simp add: reject_decision_def)
  qed
qed

definition sample_assessment :: risk_assessment_request where
  "sample_assessment = \<lparr>ra_request_id = 31, ra_signal = sample_signal, ra_requested_at = utc 0\<rparr>"

definition sample_context :: risk_evaluation_context where
  "sample_context = \<lparr>rc_trading_mode = RISK_PAPER, rc_live_trading_enabled = False, rc_global_halt_active = False,
     rc_broker_connected = True, rc_market_data_fresh = True, rc_market_session_open = True, rc_instrument_allowed = True,
     rc_duplicate_signal = False, rc_order_quantity = Some (Dec 10 0), rc_max_order_quantity = Some (Dec 100 0),
     rc_projected_position_quantity = Some (Dec 10 0), rc_max_position_quantity = Some (Dec 100 0),
     rc_projected_exposure = Some (Dec 1000 0), rc_max_exposure = Some (Dec 5000 0),
     rc_daily_realized_pnl = Some (Dec (-10) 0), rc_max_daily_loss = Some (Dec 50 0),
     rc_strategy_realized_pnl = Some (Dec 0 0), rc_max_strategy_loss = Some (Dec 50 0),
     rc_required_margin = Some (Dec 1000 0), rc_available_margin = Some (Dec 5000 0),
     rc_open_positions_count = Some 0, rc_max_open_positions = Some 5, rc_equity_value = None, rc_high_water_mark = None,
     rc_current_drawdown = None, rc_max_drawdown = None, rc_reference_price = None, rc_current_price = Some (Dec 100 0),
     rc_max_price_deviation = None, rc_recent_order_count = Some 1, rc_max_orders_per_window = Some 10,
     rc_account_max_order_quantity = None, rc_account_max_positions = None, rc_account_max_exposure = None,
     rc_account_max_loss = Some (Dec 60 0), rc_account_max_order_rate = None, rc_account_daily_realized_pnl = Some (Dec (-10) 0),
     rc_pending_execution_count = None, rc_max_unresolved_executions = None, rc_retry_count = Some 0,
     rc_max_retries_per_signal = None, rc_reserved_quantity = None, rc_open_order_quantity = None\<rparr>"

lemma dval_small: "dval (Dec n 0) = of_int n"
  by (simp add: dval_def)

lemma sample_context_ok: "risk_acceptable sample_context" "context_exact sample_context"
  using rep28_int [of 10] rep28_int [of 50] rep28_int [of 60]
  by (simp_all add: sample_context_def risk_acceptable_def context_exact_def loss_above_def dval_small)

theorem risk_approval_exact_witness:
  "\<exists>e d. mk_rule_engine None (usec 30) = Inr e \<and> engine_evaluate e (utc 7) 41 42 sample_assessment sample_context = Inr d \<and>
     rd_decision d = APPROVED \<and> rd_approval_id d = Some 42"
proof -
  have "mk_rule_engine None (usec 30) = Inr \<lparr>re_rules = default_risk_rules, re_approval_ttl = usec 30\<rparr>"
    by (simp add: mk_rule_engine_def with_global_halt_first_def usec_def)
  from risk_approval_exact [OF this _ sample_context_ok(2), of "utc 7" 41 42 sample_assessment] this show ?thesis
    using sample_context_ok(1) by auto
qed

lemma halt_first: "with_global_halt_first rules = [] \<or> (\<exists>rs. with_global_halt_first rules = GlobalHaltRule # rs)"
  by (auto simp: with_global_halt_first_def default_risk_rules_def split: option.split list.split elim: is_halt_rule.elims)

text \<open>The global halt cannot be configured away: whatever rules a caller injects (none, any number, with or
  without a halt rule, rules that raise), a rule engine that was constructed rejects every request while
  the halt is active, and the rejection names the halt rule, or the missing rules when the caller configured
  an empty set.\<close>

theorem halt_cannot_be_overridden:
  assumes "mk_rule_engine rules ttl = Inr e" "tz_aware now" "rc_global_halt_active c"
  shows "\<exists>d. engine_evaluate e now did aid q c = Inr d \<and> rd_decision d = RISK_REJECTED \<and>
    rd_rule_id d = (if rules = Some [] then ''core.fail-safe'' else ''core.global-halt'')"
proof -
  have e: "re_rules e = with_global_halt_first rules" using assms(1) by (auto simp: mk_rule_engine_def split: if_splits)
  show ?thesis
  proof (cases "rules = Some []")
    case True
    have "risk_decision_valid (reject_decision q did now ''core.fail-safe'' ''NO_RISK_RULES_CONFIGURED'' ''risk engine has no configured rules'')"
      using assms(2) by (intro reject_decision_valid) (simp_all add: short_text_Cons is_space_def)
    then show ?thesis using True e assms(2)
      by (simp add: engine_evaluate_def with_global_halt_first_def mk_risk_decision_def) (simp add: reject_decision_def)
  next
    case False
    then obtain rs where rs: "re_rules e = GlobalHaltRule # rs"
      using halt_first [of rules] e by (auto simp: with_global_halt_first_def default_risk_rules_def split: option.splits list.splits if_splits)
    have loop: "rules_loop q c (re_rules e) = Some (''core.global-halt'', ''GLOBAL_HALT_ACTIVE'', ''global trading halt is active'')"
      using assms(3) by (simp add: rs global_halt_rule_def rule_reject_def)
    have "risk_decision_valid (reject_decision q did now ''core.global-halt'' ''GLOBAL_HALT_ACTIVE'' ''global trading halt is active'')"
      using assms(2) by (intro reject_decision_valid) (simp_all add: short_text_Cons is_space_def)
    then show ?thesis using False assms(2) loop rs
      by (simp add: engine_evaluate_def mk_risk_decision_def) (simp add: reject_decision_def)
  qed
qed

theorem halt_cannot_be_overridden_witness:
  "\<exists>e d. mk_rule_engine (Some [InjectedRule ''x'' (\<lambda>q c. Some (rule_pass ''x''))]) 5 = Inr e \<and>
     engine_evaluate e (utc 7) 41 42 sample_assessment (sample_context\<lparr>rc_global_halt_active := True\<rparr>) = Inr d \<and>
     rd_decision d = RISK_REJECTED"
proof -
  obtain e where e: "mk_rule_engine (Some [InjectedRule ''x'' (\<lambda>q c. Some (rule_pass ''x''))]) 5 = Inr e"
    by (simp add: mk_rule_engine_def)
  from halt_cannot_be_overridden [OF e, of "utc 7" "sample_context\<lparr>rc_global_halt_active := True\<rparr>" 41 42 sample_assessment] e
  show ?thesis by auto
qed

end
