(* ===== verification/Risk_Controls.thy ===== *)
theory Risk_Controls
  imports Py_Decimal
begin

text \<open>
  The safety controls of the risk engine (\<^verbatim>\<open>services/risk_engine/alpha_algo_risk_engine\<close>:
  \<^verbatim>\<open>circuit_breaker.py\<close> and \<^verbatim>\<open>gates.py\<close>): the scoped circuit breaker, the global halt (kill switch), the LIVE
  safety gates and the controlled release stages.

  An aware \<^verbatim>\<open>datetime\<close> of the breaker is its instant in microseconds, since the breaker only compares
  and subtracts.  Every call takes the reading of the clock it makes.  Locks make a call atomic, except
  where the code evaluates outside its lock; that operation is split into its two steps.
\<close>

section \<open>The circuit breaker\<close>

datatype circuit_state = CB_CLOSED | CB_OPEN | CB_HALF_OPEN

record circuit_breaker_config =
  cc_failure_threshold :: int
  cc_window :: int
  cc_reset_after :: int
  cc_half_open_probe_limit :: int

text \<open>\<^verbatim>\<open>CircuitBreakerConfig.__post_init__\<close>\<close>

definition breaker_config_ok :: "circuit_breaker_config \<Rightarrow> bool" where
  "breaker_config_ok c \<longleftrightarrow> 0 < cc_failure_threshold c \<and> 0 < cc_window c \<and> 0 < cc_reset_after c \<and> 0 < cc_half_open_probe_limit c"

record circuit_breaker =
  cb_state :: circuit_state
  cb_failures :: "int list"
  cb_opened_at :: "int option"
  cb_half_open_probes :: int

definition new_breaker :: circuit_breaker where
  "new_breaker = \<lparr>cb_state = CB_CLOSED, cb_failures = [], cb_opened_at = None, cb_half_open_probes = 0\<rparr>"

definition breaker_prune :: "circuit_breaker_config \<Rightarrow> int \<Rightarrow> circuit_breaker \<Rightarrow> circuit_breaker" where
  "breaker_prune cfg now b = b\<lparr>cb_failures := filter (\<lambda>t. now - cc_window cfg < t) (cb_failures b)\<rparr>"

definition breaker_allows :: "circuit_breaker_config \<Rightarrow> int \<Rightarrow> circuit_breaker \<Rightarrow> bool \<times> circuit_breaker" where
  "breaker_allows cfg now b0 =
     (let b = breaker_prune cfg now b0 in
      case cb_state b of
        CB_CLOSED \<Rightarrow> (True, b)
      | CB_OPEN \<Rightarrow>
          (case cb_opened_at b of
             Some t \<Rightarrow> if cc_reset_after cfg \<le> now - t
                       then (True, b\<lparr>cb_state := CB_HALF_OPEN, cb_half_open_probes := 0\<rparr>) else (False, b)
           | None \<Rightarrow> (False, b))
      | CB_HALF_OPEN \<Rightarrow> (cb_half_open_probes b < cc_half_open_probe_limit cfg, b))"

definition breaker_record_failure :: "circuit_breaker_config \<Rightarrow> int \<Rightarrow> circuit_breaker \<Rightarrow> circuit_breaker" where
  "breaker_record_failure cfg now b0 =
     (let b1 = breaker_prune cfg now b0; b = b1\<lparr>cb_failures := cb_failures b1 @ [now]\<rparr> in
      if cb_state b = CB_HALF_OPEN
      then b\<lparr>cb_state := CB_OPEN, cb_opened_at := Some now, cb_half_open_probes := 0\<rparr>
      else if cb_state b = CB_CLOSED \<and> cc_failure_threshold cfg \<le> int (length (cb_failures b))
      then b\<lparr>cb_state := CB_OPEN, cb_opened_at := Some now\<rparr>
      else b)"

definition breaker_record_success :: "circuit_breaker_config \<Rightarrow> int \<Rightarrow> circuit_breaker \<Rightarrow> circuit_breaker" where
  "breaker_record_success cfg now b0 =
     (let b = breaker_prune cfg now b0 in
      case cb_state b of
        CB_HALF_OPEN \<Rightarrow>
          (let b' = b\<lparr>cb_half_open_probes := cb_half_open_probes b + 1\<rparr> in
           if cc_half_open_probe_limit cfg \<le> cb_half_open_probes b'
           then b'\<lparr>cb_state := CB_CLOSED, cb_failures := [], cb_opened_at := None\<rparr> else b')
      | CB_CLOSED \<Rightarrow> b\<lparr>cb_failures := []\<rparr>
      | CB_OPEN \<Rightarrow> b)"

text \<open>\<^verbatim>\<open>CircuitBreakerRegistry\<close>: one breaker per scope, created on first use.\<close>

type_synonym breaker_registry = "string \<Rightarrow> circuit_breaker option"

definition scope_breaker :: "breaker_registry \<Rightarrow> string \<Rightarrow> circuit_breaker" where
  "scope_breaker reg scope = (case reg scope of None \<Rightarrow> new_breaker | Some b \<Rightarrow> b)"

definition registry_allows ::
  "circuit_breaker_config \<Rightarrow> int \<Rightarrow> breaker_registry \<Rightarrow> string \<Rightarrow> bool \<times> breaker_registry" where
  "registry_allows cfg now reg scope =
     (let (ok, b) = breaker_allows cfg now (scope_breaker reg scope) in (ok, reg(scope \<mapsto> b)))"

definition registry_record_failure :: "circuit_breaker_config \<Rightarrow> int \<Rightarrow> string \<Rightarrow> breaker_registry \<Rightarrow> breaker_registry" where
  "registry_record_failure cfg now scope reg = reg(scope \<mapsto> breaker_record_failure cfg now (scope_breaker reg scope))"

definition registry_record_success :: "circuit_breaker_config \<Rightarrow> int \<Rightarrow> string \<Rightarrow> breaker_registry \<Rightarrow> breaker_registry" where
  "registry_record_success cfg now scope reg = reg(scope \<mapsto> breaker_record_success cfg now (scope_breaker reg scope))"

section \<open>Runs of a breaker\<close>

datatype breaker_call = Allows int | Failure int | Success int

fun call_time :: "breaker_call \<Rightarrow> int" where
  "call_time (Allows t) = t"
| "call_time (Failure t) = t"
| "call_time (Success t) = t"

fun breaker_step :: "circuit_breaker_config \<Rightarrow> circuit_breaker \<Rightarrow> breaker_call \<Rightarrow> circuit_breaker" where
  "breaker_step cfg b (Allows t) = snd (breaker_allows cfg t b)"
| "breaker_step cfg b (Failure t) = breaker_record_failure cfg t b"
| "breaker_step cfg b (Success t) = breaker_record_success cfg t b"

text \<open>The answers to the \<^verbatim>\<open>allows\<close> calls of a run.\<close>

fun breaker_answers :: "circuit_breaker_config \<Rightarrow> circuit_breaker \<Rightarrow> breaker_call list \<Rightarrow> bool list" where
  "breaker_answers cfg b [] = []"
| "breaker_answers cfg b (c # cs) =
     (case c of Allows t \<Rightarrow> [fst (breaker_allows cfg t b)] | _ \<Rightarrow> []) @ breaker_answers cfg (breaker_step cfg b c) cs"

definition breaker_inv :: "circuit_breaker_config \<Rightarrow> circuit_breaker \<Rightarrow> bool" where
  "breaker_inv cfg b \<longleftrightarrow>
     (case cb_state b of
        CB_CLOSED \<Rightarrow> int (length (cb_failures b)) < cc_failure_threshold cfg
      | CB_OPEN \<Rightarrow> cb_opened_at b \<noteq> None
      | CB_HALF_OPEN \<Rightarrow> 0 \<le> cb_half_open_probes b \<and> cb_half_open_probes b < cc_half_open_probe_limit cfg)"

lemma prune_fields [simp]:
  "cb_state (breaker_prune cfg now b) = cb_state b" "cb_opened_at (breaker_prune cfg now b) = cb_opened_at b"
  "cb_half_open_probes (breaker_prune cfg now b) = cb_half_open_probes b"
  "cb_failures (breaker_prune cfg now b) = filter (\<lambda>t. now - cc_window cfg < t) (cb_failures b)"
  by (simp_all add: breaker_prune_def)

lemma filter_length_less: "int (length xs) < n \<Longrightarrow> int (length (filter P xs)) < n"
  using length_filter_le [of P xs] by linarith

lemma breaker_step_inv: "breaker_config_ok cfg \<Longrightarrow> breaker_inv cfg b \<Longrightarrow> breaker_inv cfg (breaker_step cfg b c)"
  by (cases c; cases "cb_state b")
     (auto simp: breaker_inv_def breaker_config_ok_def breaker_allows_def breaker_record_failure_def breaker_record_success_def
        Let_def filter_length_less split: option.splits)

lemma breaker_run_inv: "breaker_config_ok cfg \<Longrightarrow> breaker_inv cfg b \<Longrightarrow> breaker_inv cfg (foldl (breaker_step cfg) b cs)"
  by (induction cs arbitrary: b) (simp_all add: breaker_step_inv)

lemma new_breaker_inv: "breaker_config_ok cfg \<Longrightarrow> breaker_inv cfg new_breaker"
  by (simp add: breaker_inv_def new_breaker_def breaker_config_ok_def)

lemma open_step:
  assumes "cb_state b = CB_OPEN" "cb_opened_at b = Some t" "call_time c < t + cc_reset_after cfg"
  shows "cb_state (breaker_step cfg b c) = CB_OPEN" "cb_opened_at (breaker_step cfg b c) = Some t"
    "c = Allows u \<Longrightarrow> \<not> fst (breaker_allows cfg u b)"
  using assms by (cases c; auto simp: breaker_allows_def breaker_record_failure_def breaker_record_success_def Let_def)+

lemma open_run:
  assumes "cb_state b = CB_OPEN" "cb_opened_at b = Some t" "\<forall>c\<in>set cs. call_time c < t + cc_reset_after cfg"
  shows "cb_state (foldl (breaker_step cfg) b cs) = CB_OPEN \<and> True \<notin> set (breaker_answers cfg b cs)"
  using assms
proof (induction cs arbitrary: b)
  case (Cons c cs)
  note step = open_step [OF Cons.prems(1,2), of c cfg]
  have "cb_state (foldl (breaker_step cfg) (breaker_step cfg b c) cs) = CB_OPEN \<and>
      True \<notin> set (breaker_answers cfg (breaker_step cfg b c) cs)"
    using Cons.prems(3) step(1,2) by (intro Cons.IH) auto
  then show ?case using Cons.prems(3) step(3) by (auto split: breaker_call.split)
qed simp

text \<open>Failures that stay within one window are all kept.\<close>

lemma window_keeps: "\<forall>t\<in>set xs. u - t < w \<Longrightarrow> filter (\<lambda>t. u - w < t) xs = (xs :: int list)"
  by (induction xs) auto

lemma closed_failures:
  assumes "cb_state b = CB_CLOSED" "\<forall>t\<in>set (cb_failures b @ ts). \<forall>u\<in>set ts. u - t < cc_window cfg"
    "int (length (cb_failures b @ ts)) < cc_failure_threshold cfg"
  shows "cb_state (foldl (breaker_step cfg) b (map Failure ts)) = CB_CLOSED \<and>
    cb_failures (foldl (breaker_step cfg) b (map Failure ts)) = cb_failures b @ ts"
  using assms
proof (induction ts arbitrary: b)
  case (Cons u ts)
  have keep: "filter (\<lambda>t. u - cc_window cfg < t) (cb_failures b) = cb_failures b"
    using Cons.prems(2) by (intro window_keeps) simp
  let ?b = "breaker_record_failure cfg u b"
  have "cb_state ?b = CB_CLOSED" "cb_failures ?b = cb_failures b @ [u]"
    using Cons.prems(1,3) by (auto simp: breaker_record_failure_def Let_def keep)
  then show ?case using Cons.IH [of ?b] Cons.prems by simp
qed simp

text \<open>The circuit breaker is fail-closed: a new breaker that sees its threshold of failures, all within
  one window of each other, is open, and from then on every call to \<^verbatim>\<open>allows\<close> before the reset time
  after the last failure is refused and the breaker stays open, whatever failures and successes are
  recorded in between, in any order and with any clock readings before that time.\<close>

theorem circuit_breaker_trips:
  assumes "breaker_config_ok cfg" "int (length fails) = cc_failure_threshold cfg"
    and "\<forall>t\<in>set fails. \<forall>u\<in>set fails. u - t < cc_window cfg"
    and "\<forall>c\<in>set cs. call_time c < last fails + cc_reset_after cfg"
  shows "cb_state (foldl (breaker_step cfg) new_breaker (map Failure fails @ cs)) = CB_OPEN \<and>
    True \<notin> set (breaker_answers cfg (foldl (breaker_step cfg) new_breaker (map Failure fails)) cs)"
proof -
  obtain ts u where fails: "fails = ts @ [u]" using assms(1,2) by (cases fails rule: rev_cases) (auto simp: breaker_config_ok_def)
  let ?b = "foldl (breaker_step cfg) new_breaker (map Failure ts)"
  have b: "cb_state ?b = CB_CLOSED \<and> cb_failures ?b = cb_failures new_breaker @ ts"
    using assms(2,3) by (intro closed_failures) (auto simp: fails new_breaker_def)
  then have b: "cb_state ?b = CB_CLOSED" "cb_failures ?b = ts" by (simp_all add: new_breaker_def)
  have "filter (\<lambda>t. u - cc_window cfg < t) ts = ts" using assms(3) by (intro window_keeps) (simp add: fails)
  then have "cb_state (breaker_record_failure cfg u ?b) = CB_OPEN" "cb_opened_at (breaker_record_failure cfg u ?b) = Some u"
    using b assms(2) by (auto simp: breaker_record_failure_def Let_def fails)
  from open_run [OF this, of cs cfg] assms(4) show ?thesis by (simp add: fails)
qed

definition sample_breaker_config :: circuit_breaker_config where
  "sample_breaker_config = \<lparr>cc_failure_threshold = 2, cc_window = 60, cc_reset_after = 30, cc_half_open_probe_limit = 1\<rparr>"

theorem circuit_breaker_trips_witness:
  "cb_state (foldl (breaker_step sample_breaker_config) new_breaker (map Failure [5, 10] @ [Success 20, Allows 39])) = CB_OPEN \<and>
   True \<notin> set (breaker_answers sample_breaker_config
     (foldl (breaker_step sample_breaker_config) new_breaker (map Failure [5, 10])) [Success 20, Allows 39])"
  by (rule circuit_breaker_trips) (simp_all add: sample_breaker_config_def breaker_config_ok_def)

lemma half_open_allows:
  assumes "breaker_inv cfg b" "cb_state b = CB_HALF_OPEN"
  shows "breaker_allows cfg now b = (True, breaker_prune cfg now b)"
  using assms by (simp add: breaker_allows_def breaker_inv_def Let_def)

lemma half_open_probes_run:
  assumes "breaker_inv cfg b" "cb_state b = CB_HALF_OPEN"
  shows "breaker_answers cfg b (map Allows ts) = replicate (length ts) True"
  using assms
proof (induction ts arbitrary: b)
  case (Cons t ts)
  have "breaker_inv cfg (breaker_prune cfg t b)" "cb_state (breaker_prune cfg t b) = CB_HALF_OPEN"
    using Cons.prems by (simp_all add: breaker_inv_def)
  then show ?case using Cons half_open_allows [OF Cons.prems] by simp
qed simp

text \<open>The half-open breaker does not bound its probes: from a new breaker, after any calls that leave it
  half open, every one of any number of further \<^verbatim>\<open>allows\<close> calls is answered with true, although the
  documented behaviour is a bounded number of probe evaluations.  (The probe count only grows when a
  success is recorded, and the success that reaches the limit closes the breaker.)\<close>

theorem half_open_probes_unbounded:
  assumes "breaker_config_ok cfg" "cb_state (foldl (breaker_step cfg) new_breaker cs) = CB_HALF_OPEN"
  shows "breaker_answers cfg (foldl (breaker_step cfg) new_breaker cs) (map Allows ts) = replicate (length ts) True"
  using half_open_probes_run [OF breaker_run_inv [OF assms(1) new_breaker_inv [OF assms(1)]] assms(2)] .

theorem half_open_probes_unbounded_witness:
  "breaker_answers sample_breaker_config
     (foldl (breaker_step sample_breaker_config) new_breaker [Failure 1, Failure 2, Allows 50]) (map Allows [51, 52, 53]) =
   [True, True, True]"
  using half_open_probes_unbounded [of sample_breaker_config "[Failure 1, Failure 2, Allows 50]" "[51, 52, 53]"]
  by (simp add: sample_breaker_config_def breaker_config_ok_def new_breaker_def breaker_record_failure_def
      breaker_allows_def breaker_prune_def)

section \<open>Safety gates and the kill switch\<close>

datatype live_safety_gate =
    MARKET_DATA_STABLE | BROKER_CONNECTION_STABLE | STRATEGY_TESTS_PASSING | RISK_TESTS_PASSING
  | EXECUTION_TESTS_PASSING | RECONCILIATION_WORKING | PAPER_TRADING_VERIFIED | EMERGENCY_STOP_VERIFIED
  | CIRCUIT_BREAKERS_VERIFIED | POSITION_CALCULATIONS_VERIFIED | PNL_VERIFIED
  | DUPLICATE_ORDER_PROTECTION_VERIFIED | BROKER_FAILURE_HANDLING_VERIFIED | DATABASE_PERSISTENCE_VERIFIED
  | AUDIT_LOGGING_VERIFIED | MONITORING_VERIFIED | SECURITY_CHECKS_PASSED

definition all_live_gates :: "live_safety_gate list" where
  "all_live_gates =
     [MARKET_DATA_STABLE, BROKER_CONNECTION_STABLE, STRATEGY_TESTS_PASSING, RISK_TESTS_PASSING, EXECUTION_TESTS_PASSING,
      RECONCILIATION_WORKING, PAPER_TRADING_VERIFIED, EMERGENCY_STOP_VERIFIED, CIRCUIT_BREAKERS_VERIFIED,
      POSITION_CALCULATIONS_VERIFIED, PNL_VERIFIED, DUPLICATE_ORDER_PROTECTION_VERIFIED, BROKER_FAILURE_HANDLING_VERIFIED,
      DATABASE_PERSISTENCE_VERIFIED, AUDIT_LOGGING_VERIFIED, MONITORING_VERIFIED, SECURITY_CHECKS_PASSED]"

text \<open>\<^verbatim>\<open>LiveSafetyGateSnapshot\<close>: the field named by a gate, as \<^verbatim>\<open>getattr(self, gate.value)\<close> reads it.\<close>

record live_safety_gate_snapshot =
  lg_passed :: "live_safety_gate \<Rightarrow> bool"
  lg_evaluated_source :: string

definition failed_gates :: "live_safety_gate_snapshot \<Rightarrow> live_safety_gate list" where
  "failed_gates s = filter (\<lambda>g. \<not> lg_passed s g) all_live_gates"

definition all_gates_passed :: "live_safety_gate_snapshot \<Rightarrow> bool" where
  "all_gates_passed s \<longleftrightarrow> failed_gates s = []"

record global_halt_state =
  gh_active :: bool
  gh_reason :: string
  gh_updated_at :: datetime
  gh_updated_by :: string

datatype gate_error = GateValueError string

text \<open>\<^verbatim>\<open>GlobalHaltState.__post_init__\<close>\<close>

definition mk_halt_state :: "global_halt_state \<Rightarrow> (gate_error, global_halt_state) result" where
  "mk_halt_state h =
     (if \<not> tz_aware (gh_updated_at h) then Inl (GateValueError ''updated_at must be timezone-aware'')
      else if gh_active h \<and> blank (gh_reason h) then Inl (GateValueError ''active global halt requires reason'')
      else if blank (gh_updated_by h) then Inl (GateValueError ''updated_by is required'')
      else Inr h)"

definition require_reason_and_actor :: "string \<Rightarrow> string \<Rightarrow> (gate_error, unit) result" where
  "require_reason_and_actor reason actor =
     (if blank reason then Inl (GateValueError ''reason is required'')
      else if blank actor then Inl (GateValueError ''actor is required'') else Inr ())"

definition new_halt_controller :: "datetime \<Rightarrow> bool \<Rightarrow> string \<Rightarrow> (gate_error, global_halt_state) result" where
  "new_halt_controller now initial_active initial_reason =
     mk_halt_state \<lparr>gh_active = initial_active, gh_reason = (if initial_active then initial_reason else []),
       gh_updated_at = now, gh_updated_by = ''system''\<rparr>"

text \<open>\<^verbatim>\<open>GlobalHaltController.activate\<close> and \<^verbatim>\<open>deactivate\<close>: the result and the state held afterwards.\<close>

definition halt_activate ::
  "datetime \<Rightarrow> global_halt_state \<Rightarrow> string \<Rightarrow> string \<Rightarrow> (gate_error, global_halt_state) result \<times> global_halt_state" where
  "halt_activate now h reason actor =
     (case rbind (require_reason_and_actor reason actor) (\<lambda>_. mk_halt_state
        \<lparr>gh_active = True, gh_reason = reason, gh_updated_at = now, gh_updated_by = actor\<rparr>) of
        Inl e \<Rightarrow> (Inl e, h) | Inr h' \<Rightarrow> (Inr h', h'))"

definition halt_deactivate ::
  "datetime \<Rightarrow> global_halt_state \<Rightarrow> string \<Rightarrow> string \<Rightarrow> (gate_error, global_halt_state) result \<times> global_halt_state" where
  "halt_deactivate now h reason actor =
     (case rbind (require_reason_and_actor reason actor) (\<lambda>_. mk_halt_state
        \<lparr>gh_active = False, gh_reason = [], gh_updated_at = now, gh_updated_by = actor\<rparr>) of
        Inl e \<Rightarrow> (Inl e, h) | Inr h' \<Rightarrow> (Inr h', h'))"

record live_safety_gate_decision =
  ld_can_enable_live :: bool
  ld_reason_code :: string
  ld_reason :: string
  ld_evaluated_at :: datetime
  ld_failed_gates :: "live_safety_gate list"
  ld_global_halt_active :: bool

text \<open>\<^verbatim>\<open>LiveSafetyGateDecision.__post_init__\<close>\<close>

definition mk_gate_decision :: "live_safety_gate_decision \<Rightarrow> (gate_error, live_safety_gate_decision) result" where
  "mk_gate_decision d =
     (if \<not> tz_aware (ld_evaluated_at d) then Inl (GateValueError ''evaluated_at must be timezone-aware'')
      else if ld_can_enable_live d \<and> (ld_failed_gates d \<noteq> [] \<or> ld_global_halt_active d)
      then Inl (GateValueError ''LIVE cannot be enabled with failed gates or active global halt'')
      else Inr d)"

text \<open>The halt state assumed when none is given: the default of \<^verbatim>\<open>GlobalHaltState\<close>.\<close>

definition default_halt :: "datetime \<Rightarrow> global_halt_state" where
  "default_halt now = \<lparr>gh_active = True, gh_reason = ''default safety halt'', gh_updated_at = now, gh_updated_by = ''system''\<rparr>"

definition gates_evaluate ::
  "datetime \<Rightarrow> live_safety_gate_snapshot \<Rightarrow> global_halt_state option \<Rightarrow> (gate_error, live_safety_gate_decision) result" where
  "gates_evaluate now s halt_state =
     (if \<not> tz_aware now then Inl (GateValueError ''clock must return a timezone-aware datetime'')
      else let halt = (case halt_state of None \<Rightarrow> default_halt now | Some h \<Rightarrow> h) in
        if gh_active halt
        then mk_gate_decision \<lparr>ld_can_enable_live = False, ld_reason_code = ''GLOBAL_HALT_ACTIVE'', ld_reason = gh_reason halt,
               ld_evaluated_at = now, ld_failed_gates = failed_gates s, ld_global_halt_active = True\<rparr>
        else if failed_gates s \<noteq> []
        then mk_gate_decision \<lparr>ld_can_enable_live = False, ld_reason_code = ''LIVE_SAFETY_GATES_FAILED'',
               ld_reason = ''one or more LIVE safety gates are incomplete'', ld_evaluated_at = now,
               ld_failed_gates = failed_gates s, ld_global_halt_active = False\<rparr>
        else mk_gate_decision \<lparr>ld_can_enable_live = True, ld_reason_code = ''LIVE_SAFETY_GATES_PASSED'',
               ld_reason = ''all LIVE safety gates passed and global halt is inactive'', ld_evaluated_at = now,
               ld_failed_gates = [], ld_global_halt_active = False\<rparr>)"

section \<open>Controlled release\<close>

datatype live_release_stage = STAGE_DISABLED | STAGE_SHADOW | STAGE_FULL

record live_release_decision =
  lr_stage :: live_release_stage
  lr_approved :: bool
  lr_reason_code :: string
  lr_reason :: string
  lr_evaluated_at :: datetime
  lr_failed_gates :: "live_safety_gate list"
  lr_global_halt_active :: bool
  lr_circuit_breaker_open :: bool

text \<open>\<^verbatim>\<open>LiveReleaseDecision.__post_init__\<close>\<close>

definition mk_release_decision :: "live_release_decision \<Rightarrow> (gate_error, live_release_decision) result" where
  "mk_release_decision d =
     (if \<not> tz_aware (lr_evaluated_at d) then Inl (GateValueError ''evaluated_at must be timezone-aware'')
      else if lr_approved d \<and> (lr_failed_gates d \<noteq> [] \<or> lr_global_halt_active d \<or> lr_circuit_breaker_open d)
      then Inl (GateValueError ''release cannot be approved with failed gates, an active global halt, or an open circuit breaker'')
      else Inr d)"

record release_controller =
  rl_stage :: live_release_stage
  rl_halt :: global_halt_state
  rl_breakers :: breaker_registry
  rl_breaker_config :: circuit_breaker_config

definition breaker_open :: "datetime \<Rightarrow> release_controller \<Rightarrow> bool \<times> release_controller" where
  "breaker_open now c =
     (let (ok, reg) = registry_allows (rl_breaker_config c) (instant now) (rl_breakers c) ''global''
      in (\<not> ok, c\<lparr>rl_breakers := reg\<rparr>))"

definition release_current ::
  "datetime \<Rightarrow> release_controller \<Rightarrow> live_release_stage \<Rightarrow> string \<Rightarrow> string
   \<Rightarrow> (gate_error, live_release_decision) result \<times> release_controller" where
  "release_current now c stage code why =
     (let (open_now, c') = breaker_open now c in
      (mk_release_decision \<lparr>lr_stage = stage, lr_approved = False, lr_reason_code = code, lr_reason = why, lr_evaluated_at = now,
         lr_failed_gates = [], lr_global_halt_active = gh_active (rl_halt c), lr_circuit_breaker_open = open_now\<rparr>, c'))"

fun stage_value :: "live_release_stage \<Rightarrow> string" where
  "stage_value STAGE_DISABLED = ''DISABLED''"
| "stage_value STAGE_SHADOW = ''SHADOW''"
| "stage_value STAGE_FULL = ''FULL''"

definition release_evaluate ::
  "datetime \<Rightarrow> release_controller \<Rightarrow> live_release_stage \<Rightarrow> live_safety_gate_snapshot
   \<Rightarrow> (gate_error, live_release_decision) result \<times> release_controller" where
  "release_evaluate now c target s =
     (let failed = failed_gates s; (open_now, c') = breaker_open now c;
          decide = (\<lambda>ok code why gates halted broken. mk_release_decision \<lparr>lr_stage = target, lr_approved = ok, lr_reason_code = code,
             lr_reason = why, lr_evaluated_at = now, lr_failed_gates = gates, lr_global_halt_active = halted,
             lr_circuit_breaker_open = broken\<rparr>)
      in (if gh_active (rl_halt c) then decide False ''GLOBAL_HALT_ACTIVE'' (gh_reason (rl_halt c)) failed True open_now
          else if failed \<noteq> []
          then decide False ''LIVE_SAFETY_GATES_FAILED'' ''one or more LIVE safety gates are incomplete'' failed False open_now
          else if open_now then decide False ''CIRCUIT_BREAKER_OPEN'' ''circuit breaker is open'' [] False True
          else decide True ''RELEASE_APPROVED'' (''progression to '' @ stage_value target @ '' approved'') [] False False, c'))"

text \<open>The second critical section of an advance: the stage is set when the decision approved it.\<close>

definition release_commit ::
  "live_release_stage \<Rightarrow> (gate_error, live_release_decision) result \<Rightarrow> release_controller \<Rightarrow> release_controller" where
  "release_commit target d c = (case d of Inr x \<Rightarrow> if lr_approved x then c\<lparr>rl_stage := target\<rparr> else c | Inl _ \<Rightarrow> c)"

text \<open>The first part of an advance, up to and including the evaluation; \<open>True\<close> when the commit follows.\<close>

definition shadow_begin ::
  "datetime \<Rightarrow> release_controller \<Rightarrow> string \<Rightarrow> string \<Rightarrow> live_safety_gate_snapshot
   \<Rightarrow> bool \<times> (gate_error, live_release_decision) result \<times> release_controller" where
  "shadow_begin now c actor reason s =
     (case require_reason_and_actor reason actor of
        Inl e \<Rightarrow> (False, Inl e, c)
      | Inr _ \<Rightarrow>
          case rl_stage c of
            STAGE_SHADOW \<Rightarrow> (False, release_current now c STAGE_SHADOW ''ALREADY_SHADOW'' ''already in SHADOW stage'')
          | STAGE_FULL \<Rightarrow> (False, release_current now c STAGE_FULL ''ALREADY_FULL'' ''already in FULL stage; disable() to pull back'')
          | STAGE_DISABLED \<Rightarrow> (True, release_evaluate now c STAGE_SHADOW s))"

definition full_begin ::
  "datetime \<Rightarrow> release_controller \<Rightarrow> string \<Rightarrow> string \<Rightarrow> live_safety_gate_snapshot
   \<Rightarrow> bool \<times> (gate_error, live_release_decision) result \<times> release_controller" where
  "full_begin now c actor reason s =
     (case require_reason_and_actor reason actor of
        Inl e \<Rightarrow> (False, Inl e, c)
      | Inr _ \<Rightarrow>
          case rl_stage c of
            STAGE_DISABLED \<Rightarrow> (False, release_current now c STAGE_DISABLED ''NOT_IN_SHADOW'' ''must advance to SHADOW before FULL'')
          | STAGE_FULL \<Rightarrow> (False, release_current now c STAGE_FULL ''ALREADY_FULL'' ''already in FULL stage'')
          | STAGE_SHADOW \<Rightarrow> (True, release_evaluate now c STAGE_FULL s))"

definition advance_to_shadow ::
  "datetime \<Rightarrow> release_controller \<Rightarrow> string \<Rightarrow> string \<Rightarrow> live_safety_gate_snapshot
   \<Rightarrow> (gate_error, live_release_decision) result \<times> release_controller" where
  "advance_to_shadow now c actor reason s =
     (let (go, d, c') = shadow_begin now c actor reason s in (d, if go then release_commit STAGE_SHADOW d c' else c'))"

definition advance_to_full ::
  "datetime \<Rightarrow> release_controller \<Rightarrow> string \<Rightarrow> string \<Rightarrow> live_safety_gate_snapshot
   \<Rightarrow> (gate_error, live_release_decision) result \<times> release_controller" where
  "advance_to_full now c actor reason s =
     (let (go, d, c') = full_begin now c actor reason s in (d, if go then release_commit STAGE_FULL d c' else c'))"

definition release_disable :: "release_controller \<Rightarrow> string \<Rightarrow> string \<Rightarrow> (gate_error, unit) result \<times> release_controller" where
  "release_disable c actor reason =
     (case require_reason_and_actor reason actor of
        Inl e \<Rightarrow> (Inl e, c) | Inr _ \<Rightarrow> (Inr (), c\<lparr>rl_stage := STAGE_DISABLED\<rparr>))"

text \<open>\<^verbatim>\<open>can_submit_live\<close> consults the breaker only when the other conditions hold.\<close>

definition can_submit_live :: "datetime \<Rightarrow> release_controller \<Rightarrow> bool \<Rightarrow> bool \<times> release_controller" where
  "can_submit_live now c live_trading_enabled =
     (if rl_stage c \<noteq> STAGE_FULL then (False, c)
      else if \<not> live_trading_enabled \<or> gh_active (rl_halt c) then (False, c)
      else let (open_now, c') = breaker_open now c in (\<not> open_now, c'))"

section \<open>Reaching the FULL stage\<close>

datatype release_call =
    Advance_Shadow datetime string string live_safety_gate_snapshot
  | Advance_Full datetime string string live_safety_gate_snapshot
  | Disable string string
  | Halt_On datetime string string
  | Halt_Off datetime string string
  | Breaker_Failure datetime
  | Breaker_Success datetime
  | Query_Live datetime bool

fun release_step :: "release_controller \<Rightarrow> release_call \<Rightarrow> release_controller" where
  "release_step c (Advance_Shadow now actor reason s) = snd (advance_to_shadow now c actor reason s)"
| "release_step c (Advance_Full now actor reason s) = snd (advance_to_full now c actor reason s)"
| "release_step c (Disable actor reason) = snd (release_disable c actor reason)"
| "release_step c (Halt_On now actor reason) = c\<lparr>rl_halt := snd (halt_activate now (rl_halt c) reason actor)\<rparr>"
| "release_step c (Halt_Off now actor reason) = c\<lparr>rl_halt := snd (halt_deactivate now (rl_halt c) reason actor)\<rparr>"
| "release_step c (Breaker_Failure now) =
     c\<lparr>rl_breakers := registry_record_failure (rl_breaker_config c) (instant now) ''global'' (rl_breakers c)\<rparr>"
| "release_step c (Breaker_Success now) =
     c\<lparr>rl_breakers := registry_record_success (rl_breaker_config c) (instant now) ''global'' (rl_breakers c)\<rparr>"
| "release_step c (Query_Live now enabled) = snd (can_submit_live now c enabled)"

abbreviation release_run :: "release_controller \<Rightarrow> release_call list \<Rightarrow> release_controller" where
  "release_run \<equiv> foldl release_step"

fun disables :: "release_call \<Rightarrow> bool" where
  "disables (Disable actor reason) \<longleftrightarrow> \<not> blank actor \<and> \<not> blank reason"
| "disables _ \<longleftrightarrow> False"

text \<open>What an approved advance saw: every gate passed, no halt, the global breaker not open.\<close>

definition release_clear :: "release_controller \<Rightarrow> datetime \<Rightarrow> live_safety_gate_snapshot \<Rightarrow> bool" where
  "release_clear c now s \<longleftrightarrow> (\<forall>g. lg_passed s g) \<and> \<not> gh_active (rl_halt c) \<and>
     fst (registry_allows (rl_breaker_config c) (instant now) (rl_breakers c) ''global'')"

lemma failed_gates_Nil: "failed_gates s = [] \<longleftrightarrow> (\<forall>g. lg_passed s g)"
proof -
  have "g \<in> set all_live_gates" for g by (cases g) (simp_all add: all_live_gates_def)
  then show ?thesis by (auto simp: failed_gates_def filter_empty_conv)
qed

lemma breaker_open_fields:
  "rl_stage (snd (breaker_open now c)) = rl_stage c" "rl_halt (snd (breaker_open now c)) = rl_halt c"
  "fst (breaker_open now c) \<longleftrightarrow> \<not> fst (registry_allows (rl_breaker_config c) (instant now) (rl_breakers c) ''global'')"
  by (simp_all add: breaker_open_def split: prod.split)

lemma release_evaluate_stage:
  "rl_stage (snd (release_evaluate now c target s)) = rl_stage c"
  "fst (release_evaluate now c target s) = Inr d \<Longrightarrow> lr_approved d \<Longrightarrow> release_clear c now s"
  using breaker_open_fields [of now c]
  by (auto simp: release_evaluate_def mk_release_decision_def release_clear_def failed_gates_Nil Let_def
      split: prod.splits if_splits)

lemma release_current_stage: "rl_stage (snd (release_current now c stage code why)) = rl_stage c"
  using breaker_open_fields(1) [of now c] by (auto simp: release_current_def split: prod.splits)

lemma release_disable_stage:
  "rl_stage (snd (release_disable c actor reason)) = (if blank actor \<or> blank reason then rl_stage c else STAGE_DISABLED)"
  by (simp add: release_disable_def require_reason_and_actor_def)

lemma release_commit_stage:
  "rl_stage (release_commit target d c) = (case d of Inr x \<Rightarrow> if lr_approved x then target else rl_stage c | Inl _ \<Rightarrow> rl_stage c)"
  by (auto simp: release_commit_def split: sum.split)

lemma advance_stage:
  "rl_stage (snd (advance_to_shadow now c actor reason s)) = rl_stage c \<or>
     rl_stage c = STAGE_DISABLED \<and> release_clear c now s \<and> rl_stage (snd (advance_to_shadow now c actor reason s)) = STAGE_SHADOW"
  "rl_stage (snd (advance_to_full now c actor reason s)) = rl_stage c \<or>
     rl_stage c = STAGE_SHADOW \<and> release_clear c now s \<and> rl_stage (snd (advance_to_full now c actor reason s)) = STAGE_FULL"
  using release_evaluate_stage [of now c STAGE_SHADOW s] release_evaluate_stage [of now c STAGE_FULL s] release_current_stage [of now c]
  by (auto simp: advance_to_shadow_def advance_to_full_def shadow_begin_def full_begin_def release_commit_stage split_beta
      split: live_release_stage.splits sum.splits if_splits)

lemma release_step_stage:
  obtains (same) "rl_stage (release_step c call) = rl_stage c" "\<not> disables call"
  | (disabled) "rl_stage (release_step c call) = STAGE_DISABLED"
  | (shadow) now actor reason s where "call = Advance_Shadow now actor reason s" "rl_stage c = STAGE_DISABLED"
      "release_clear c now s" "rl_stage (release_step c call) = STAGE_SHADOW"
  | (full) now actor reason s where "call = Advance_Full now actor reason s" "rl_stage c = STAGE_SHADOW"
      "release_clear c now s" "rl_stage (release_step c call) = STAGE_FULL"
proof (cases call)
  case (Advance_Shadow now actor reason s)
  then show thesis using advance_stage(1) [of now c actor reason s] same shadow by auto
next
  case (Advance_Full now actor reason s)
  then show thesis using advance_stage(2) [of now c actor reason s] same full by auto
next
  case (Disable actor reason)
  then show thesis using same disabled by (cases "blank actor \<or> blank reason") (simp_all add: release_disable_stage)
next
  case (Query_Live now enabled)
  then have "rl_stage (release_step c call) = rl_stage c"
    using breaker_open_fields(1) [of now c] by (auto simp: can_submit_live_def split: prod.splits)
  then show thesis using same Query_Live by simp
qed (use same in simp_all)

text \<open>The history behind the stages.\<close>

definition shadow_history :: "release_controller \<Rightarrow> release_call list \<Rightarrow> bool" where
  "shadow_history c0 calls \<longleftrightarrow> (\<exists>pre n a r s post. calls = pre @ Advance_Shadow n a r s # post \<and>
     release_clear (release_run c0 pre) n s \<and> (\<forall>x\<in>set post. \<not> disables x))"

definition full_history :: "release_controller \<Rightarrow> release_call list \<Rightarrow> bool" where
  "full_history c0 calls \<longleftrightarrow> (\<exists>pre n a r s post. calls = pre @ Advance_Full n a r s # post \<and>
     shadow_history c0 pre \<and> release_clear (release_run c0 pre) n s \<and> (\<forall>x\<in>set post. \<not> disables x))"

lemma history_snoc:
  "\<not> disables x \<Longrightarrow> shadow_history c0 calls \<Longrightarrow> shadow_history c0 (calls @ [x])"
  "\<not> disables x \<Longrightarrow> full_history c0 calls \<Longrightarrow> full_history c0 (calls @ [x])"
proof -
  assume x: "\<not> disables x"
  show "shadow_history c0 calls \<Longrightarrow> shadow_history c0 (calls @ [x])" unfolding shadow_history_def
  proof (elim exE conjE)
    fix pre n a r s post
    assume h: "calls = pre @ Advance_Shadow n a r s # post" "release_clear (release_run c0 pre) n s" "\<forall>x\<in>set post. \<not> disables x"
    then have "calls @ [x] = pre @ Advance_Shadow n a r s # (post @ [x])" "\<forall>x\<in>set (post @ [x]). \<not> disables x" using x by simp_all
    with h(2) show "\<exists>pre n a r s post. calls @ [x] = pre @ Advance_Shadow n a r s # post \<and>
      release_clear (release_run c0 pre) n s \<and> (\<forall>x\<in>set post. \<not> disables x)" by blast
  qed
  show "full_history c0 calls \<Longrightarrow> full_history c0 (calls @ [x])" unfolding full_history_def
  proof (elim exE conjE)
    fix pre n a r s post
    assume h: "calls = pre @ Advance_Full n a r s # post" "shadow_history c0 pre" "release_clear (release_run c0 pre) n s"
      "\<forall>x\<in>set post. \<not> disables x"
    then have "calls @ [x] = pre @ Advance_Full n a r s # (post @ [x])" "\<forall>x\<in>set (post @ [x]). \<not> disables x" using x by simp_all
    with h(2,3) show "\<exists>pre n a r s post. calls @ [x] = pre @ Advance_Full n a r s # post \<and>
      shadow_history c0 pre \<and> release_clear (release_run c0 pre) n s \<and> (\<forall>x\<in>set post. \<not> disables x)" by blast
  qed
qed

lemma stage_history:
  assumes "rl_stage c0 = STAGE_DISABLED"
  shows "(rl_stage (release_run c0 calls) = STAGE_SHADOW \<longrightarrow> shadow_history c0 calls) \<and>
    (rl_stage (release_run c0 calls) = STAGE_FULL \<longrightarrow> full_history c0 calls)"
proof (induction calls rule: rev_induct)
  case Nil
  then show ?case using assms by simp
next
  case (snoc x calls)
  show ?case
  proof (cases rule: release_step_stage [of "release_run c0 calls" x])
    case same
    then show ?thesis using snoc history_snoc by auto
  next
    case (shadow now actor reason s)
    then have "shadow_history c0 (calls @ [x])" unfolding shadow_history_def by (intro exI [of _ calls] exI [of _ "[]"]) auto
    then show ?thesis using shadow by simp
  next
    case (full now actor reason s)
    then have "full_history c0 (calls @ [x])" using snoc unfolding full_history_def by (intro exI [of _ calls] exI [of _ "[]"]) auto
    then show ?thesis using full by simp
  qed auto
qed

text \<open>C14.  LIVE readiness is never signalled without the full progression: for a controller that starts in
  DISABLED, after any sequence of advances, disables, halts, lifted halts, breaker outcomes and
  queries, with any clocks and gate snapshots, a positive answer of \<^verbatim>\<open>can_submit_live\<close> means that LIVE trading is enabled, the
  kill switch is off now, and the history contains an advance to SHADOW and after it an advance to
  FULL, each made when all seventeen gates passed, the kill switch was off and the global breaker
  not open, with no disable after the advance to FULL, nor between the two.\<close>

theorem live_release_guarded:
  assumes "rl_stage c0 = STAGE_DISABLED" "fst (can_submit_live now (release_run c0 calls) enabled)"
  shows "enabled \<and> \<not> gh_active (rl_halt (release_run c0 calls)) \<and>
    (\<exists>pre n1 a1 r1 s1 mid n2 a2 r2 s2 post.
       calls = pre @ Advance_Shadow n1 a1 r1 s1 # mid @ Advance_Full n2 a2 r2 s2 # post \<and>
       release_clear (release_run c0 pre) n1 s1 \<and>
       release_clear (release_run c0 (pre @ Advance_Shadow n1 a1 r1 s1 # mid)) n2 s2 \<and>
       (\<forall>x\<in>set mid \<union> set post. \<not> disables x))"
proof -
  have "full_history c0 calls" and now: "enabled" "\<not> gh_active (rl_halt (release_run c0 calls))"
    using assms(2) stage_history [OF assms(1), of calls] by (auto simp: can_submit_live_def split: if_splits)
  then obtain pre2 n2 a2 r2 s2 post where f: "calls = pre2 @ Advance_Full n2 a2 r2 s2 # post" "shadow_history c0 pre2"
    "release_clear (release_run c0 pre2) n2 s2" "\<forall>x\<in>set post. \<not> disables x" unfolding full_history_def by blast
  then obtain pre n1 a1 r1 s1 mid where s: "pre2 = pre @ Advance_Shadow n1 a1 r1 s1 # mid"
    "release_clear (release_run c0 pre) n1 s1" "\<forall>x\<in>set mid. \<not> disables x" unfolding shadow_history_def by blast
  have c: "calls = pre @ Advance_Shadow n1 a1 r1 s1 # mid @ Advance_Full n2 a2 r2 s2 # post" using f(1) s(1) by simp
  have d: "\<forall>x\<in>set mid \<union> set post. \<not> disables x" using f(4) s(3) by auto
  show ?thesis by (intro conjI now exI) (rule c, rule s(2), rule f(3) [unfolded s(1)], rule d)
qed

definition sample_release :: release_controller where
  "sample_release = \<lparr>rl_stage = STAGE_DISABLED,
     rl_halt = \<lparr>gh_active = False, gh_reason = [], gh_updated_at = utc 0, gh_updated_by = ''ops''\<rparr>,
     rl_breakers = Map.empty, rl_breaker_config = sample_breaker_config\<rparr>"

definition sample_gates :: live_safety_gate_snapshot where
  "sample_gates = \<lparr>lg_passed = (\<lambda>_. True), lg_evaluated_source = ''manual''\<rparr>"

lemmas release_eval = advance_to_shadow_def advance_to_full_def shadow_begin_def full_begin_def release_commit_def
  release_evaluate_def mk_release_decision_def breaker_open_def registry_allows_def breaker_allows_def breaker_prune_def
  scope_breaker_def new_breaker_def can_submit_live_def require_reason_and_actor_def release_disable_def

lemma sample_failed: "failed_gates sample_gates = []"
  by (simp add: failed_gates_Nil sample_gates_def)

theorem live_release_guarded_witness:
  "fst (can_submit_live (utc 5) (release_run sample_release
      [Advance_Shadow (utc 1) ''ops'' ''go'' sample_gates, Advance_Full (utc 2) ''ops'' ''go'' sample_gates]) True) \<and>
   (\<exists>pre n1 a1 r1 s1 mid n2 a2 r2 s2 post.
     [Advance_Shadow (utc 1) ''ops'' ''go'' sample_gates, Advance_Full (utc 2) ''ops'' ''go'' sample_gates] =
     pre @ Advance_Shadow n1 a1 r1 s1 # mid @ Advance_Full n2 a2 r2 s2 # post)"
proof -
  have stage: "rl_stage sample_release = STAGE_DISABLED" by (simp add: sample_release_def)
  have live: "fst (can_submit_live (utc 5) (release_run sample_release
      [Advance_Shadow (utc 1) ''ops'' ''go'' sample_gates, Advance_Full (utc 2) ''ops'' ''go'' sample_gates]) True)"
    by (simp add: release_eval sample_release_def sample_failed sample_breaker_config_def blank_Cons is_space_def)
  from live_release_guarded [OF stage live] live show ?thesis by blast
qed

text \<open>An advance evaluates outside its lock.  When another thread disables the controller between the
  evaluation and the commit, the disable is undone and the stage is FULL.\<close>

theorem disable_lost_in_advance:
  assumes "full_begin now c actor reason s = (True, Inr d, c')" "lr_approved d"
  shows "rl_stage (release_commit STAGE_FULL (Inr d) (snd (release_disable c' actor2 reason2))) = STAGE_FULL"
  using assms(2) by (simp add: release_commit_stage)

end
