(* ===== verification/Risk_Service.thy ===== *)
theory Risk_Service
  imports Risk_Rules Risk_Controls
begin

text \<open>
  The risk service (\<^verbatim>\<open>services/risk_engine/alpha_algo_risk_engine\<close>: \<^verbatim>\<open>snapshot.py\<close>, \<^verbatim>\<open>context.py\<close>, \<^verbatim>\<open>approval.py\<close>,
  \<^verbatim>\<open>repository.py\<close>, \<^verbatim>\<open>state.py\<close>, \<^verbatim>\<open>service.py\<close>): the snapshot of the account and the market, the context built from it,
  the binding of an approval to its request, the \<^verbatim>\<open>risk_events\<close> table, and the service that evaluates a signal at most
  once, stores the decision and publishes a durable approval.

  A call takes its surroundings as \<open>risk_env\<close>: clock readings in the order of the calls, fresh identifiers, the
  state provider, database failures and concurrent writers.  Calls are serialised by the lock of the service.  Free-form
  metadata and latencies are dropped; a capacity is a natural number.
\<close>

section \<open>Snapshots\<close>

record account_snapshot =
  acs_account_id :: "uuid option"
  acs_available_funds :: "decimal option"
  acs_equity :: "decimal option"
  acs_high_water_mark :: "decimal option"
  acs_realized_pnl :: "decimal option"
  acs_unrealized_pnl :: "decimal option"
  acs_daily_realized_pnl :: "decimal option"
  acs_strategy_realized_pnl :: "decimal option"
  acs_current_drawdown :: "decimal option"
  acs_available_margin :: "decimal option"
  acs_used_margin :: "decimal option"

record market_snapshot =
  mks_instrument_id :: "uuid option"
  mks_reference_price :: "decimal option"
  mks_current_price :: "decimal option"
  mks_market_data_fresh :: bool
  mks_broker_connected :: bool
  mks_market_session_open :: bool
  mks_instrument_allowed :: bool
  mks_last_update_at :: "datetime option"

record risk_position_snapshot =
  pss_open_positions_count :: "int option"
  pss_position_quantity :: "decimal option"
  pss_projected_position_quantity :: "decimal option"
  pss_exposure :: "decimal option"
  pss_reserved_quantity :: "decimal option"
  pss_pending_order_count :: "int option"

record limits_snapshot =
  lms_max_order_quantity :: "decimal option"
  lms_max_position_quantity :: "decimal option"
  lms_max_exposure :: "decimal option"
  lms_max_daily_loss :: "decimal option"
  lms_max_strategy_loss :: "decimal option"
  lms_max_open_positions :: "int option"
  lms_max_drawdown :: "decimal option"
  lms_max_price_deviation :: "decimal option"
  lms_max_orders_per_window :: "int option"
  lms_account_max_order_quantity :: "decimal option"
  lms_account_max_positions :: "int option"
  lms_account_max_exposure :: "decimal option"
  lms_account_max_loss :: "decimal option"
  lms_account_max_order_rate :: "int option"
  lms_max_unresolved_executions :: "int option"
  lms_max_retries_per_signal :: "int option"

record risk_snapshot =
  rsn_snapshot_id :: uuid
  rsn_taken_at :: datetime
  rsn_state_available :: bool
  rsn_max_age :: "int option"
  rsn_global_halt_active :: bool
  rsn_trading_mode :: string
  rsn_live_trading_enabled :: bool
  rsn_duplicate_signal :: bool
  rsn_account :: account_snapshot
  rsn_market :: market_snapshot
  rsn_positions :: risk_position_snapshot
  rsn_limits :: limits_snapshot
  rsn_recent_order_count :: "int option"

text \<open>Construction refuses a naive \<^verbatim>\<open>taken_at\<close>.\<close>

definition snapshot_wf :: "risk_snapshot \<Rightarrow> bool" where
  "snapshot_wf s \<longleftrightarrow> tz_aware (rsn_taken_at s)"

text \<open>The default values: no measured value, no limit, the halt active and no state.\<close>

definition no_account :: account_snapshot where
  "no_account = \<lparr>acs_account_id = None, acs_available_funds = None, acs_equity = None, acs_high_water_mark = None,
     acs_realized_pnl = None, acs_unrealized_pnl = None, acs_daily_realized_pnl = None, acs_strategy_realized_pnl = None,
     acs_current_drawdown = None, acs_available_margin = None, acs_used_margin = None\<rparr>"

definition no_market :: market_snapshot where
  "no_market = \<lparr>mks_instrument_id = None, mks_reference_price = None, mks_current_price = None, mks_market_data_fresh = False,
     mks_broker_connected = False, mks_market_session_open = False, mks_instrument_allowed = False, mks_last_update_at = None\<rparr>"

definition no_positions :: risk_position_snapshot where
  "no_positions = \<lparr>pss_open_positions_count = None, pss_position_quantity = None, pss_projected_position_quantity = None,
     pss_exposure = None, pss_reserved_quantity = None, pss_pending_order_count = None\<rparr>"

definition no_limits :: limits_snapshot where
  "no_limits = \<lparr>lms_max_order_quantity = None, lms_max_position_quantity = None, lms_max_exposure = None, lms_max_daily_loss = None,
     lms_max_strategy_loss = None, lms_max_open_positions = None, lms_max_drawdown = None, lms_max_price_deviation = None,
     lms_max_orders_per_window = None, lms_account_max_order_quantity = None, lms_account_max_positions = None,
     lms_account_max_exposure = None, lms_account_max_loss = None, lms_account_max_order_rate = None,
     lms_max_unresolved_executions = None, lms_max_retries_per_signal = None\<rparr>"

definition unavailable_snapshot :: "uuid \<Rightarrow> datetime \<Rightarrow> risk_snapshot" where
  "unavailable_snapshot sid now =
     \<lparr>rsn_snapshot_id = sid, rsn_taken_at = now, rsn_state_available = False, rsn_max_age = None, rsn_global_halt_active = True,
      rsn_trading_mode = ''PAPER'', rsn_live_trading_enabled = False, rsn_duplicate_signal = False, rsn_account = no_account,
      rsn_market = no_market, rsn_positions = no_positions, rsn_limits = no_limits, rsn_recent_order_count = None\<rparr>"

definition is_stale :: "risk_snapshot \<Rightarrow> datetime \<Rightarrow> (risk_error, bool) result" where
  "is_stale s now =
     (if \<not> tz_aware now then Inl (RiskValueError ''datetime must be timezone-aware'')
      else Inr (case rsn_max_age s of
                  None \<Rightarrow> False
                | Some max_age \<Rightarrow> let age = instant now - instant (rsn_taken_at s) in max_age < age \<or> age < 0))"

section \<open>The context\<close>

record risk_order_intent =
  rio_quantity :: "decimal option"
  rio_account_id :: "uuid option"
  rio_order_type :: string
  rio_metadata :: metadata

definition risk_mode :: "string \<Rightarrow> risk_trading_mode" where
  "risk_mode value =
     (if upper value = ''BACKTEST'' then RISK_BACKTEST else if upper value = ''PAPER'' then RISK_PAPER else RISK_LIVE)"

fun action_sign :: "signal_action \<Rightarrow> decimal" where
  "action_sign ACT_BUY = Dec 1 0"
| "action_sign ACT_SELL = Dec (- 1) 0"
| "action_sign ACT_EXIT = Dec (- 1) 0"
| "action_sign ACT_HOLD = Dec 0 0"

definition order_quantity :: "strategy_signal \<Rightarrow> risk_order_intent option \<Rightarrow> decimal option" where
  "order_quantity s intent = (if ss_action s = ACT_HOLD then None else Option.bind intent rio_quantity)"

definition base_position :: "risk_position_snapshot \<Rightarrow> decimal option" where
  "base_position pos =
     (case pss_projected_position_quantity pos of
        Some p \<Rightarrow> Some p
      | None \<Rightarrow> map_option (\<lambda>p. p + (case pss_reserved_quantity pos of None \<Rightarrow> Dec 0 0 | Some r \<Rightarrow> if r \<le> 0 \<and> 0 \<le> r then Dec 0 0 else r))
                  (pss_position_quantity pos))"

definition projected_position :: "strategy_signal \<Rightarrow> decimal option \<Rightarrow> risk_position_snapshot \<Rightarrow> decimal option" where
  "projected_position s q pos =
     map_option (\<lambda>b. b + (case q of None \<Rightarrow> Dec 0 0 | Some x \<Rightarrow> action_sign (ss_action s) * x)) (base_position pos)"

definition projected_exposure :: "decimal option \<Rightarrow> market_snapshot \<Rightarrow> risk_position_snapshot \<Rightarrow> decimal option" where
  "projected_exposure q mkt pos =
     Option.bind (pss_exposure pos) (\<lambda>x.
       case q of
         None \<Rightarrow> Some x
       | Some n \<Rightarrow> map_option (\<lambda>p. x + dabs n * p) (mks_current_price mkt))"

definition required_margin :: "decimal option \<Rightarrow> market_snapshot \<Rightarrow> decimal option" where
  "required_margin q mkt = Option.bind q (\<lambda>n. map_option (\<lambda>p. dabs n * p) (mks_current_price mkt))"

definition derived_drawdown :: "account_snapshot \<Rightarrow> decimal option" where
  "derived_drawdown acc =
     (case (acs_current_drawdown acc, acs_equity acc, acs_high_water_mark acc) of
        (Some d, _, _) \<Rightarrow> Some d
      | (None, Some e, Some h) \<Rightarrow>
          if 0 < h then map_option (\<lambda>d. if 0 < d then d else Dec 0 0) (ddiv (h - e) h) else None
      | _ \<Rightarrow> None)"

definition build_context ::
  "datetime \<Rightarrow> strategy_signal \<Rightarrow> risk_order_intent option \<Rightarrow> risk_snapshot \<Rightarrow> string \<Rightarrow> int
   \<Rightarrow> (risk_error, risk_evaluation_context) result" where
  "build_context now s intent snap trading_mode retries =
     rbind (guard (rsn_state_available snap) (RiskContextUnavailable ''authoritative risk state is unavailable'')) (\<lambda>_.
     rbind (is_stale snap now) (\<lambda>stale.
     rbind (guard (\<not> stale) (RiskContextUnavailable ''risk snapshot is stale'')) (\<lambda>_.
     rbind (guard (risk_mode (rsn_trading_mode snap) = risk_mode trading_mode)
              (RiskContextUnavailable (''snapshot trading mode '' @ py_repr (rsn_trading_mode snap) @
                '' does not match requested mode '' @ py_repr trading_mode))) (\<lambda>_.
     let acc = rsn_account snap; mkt = rsn_market snap; pos = rsn_positions snap; lim = rsn_limits snap; q = order_quantity s intent in
     rbind (guard (case (Option.bind intent rio_account_id, acs_account_id acc) of (Some a, Some b) \<Rightarrow> a = b | _ \<Rightarrow> True)
              (RiskContextUnavailable ''snapshot account does not match intent account'')) (\<lambda>_.
     rbind (guard (case mks_instrument_id mkt of None \<Rightarrow> True | Some i \<Rightarrow> i = ss_instrument_id s)
              (RiskContextUnavailable ''snapshot instrument does not match signal instrument'')) (\<lambda>_.
     Inr \<lparr>rc_trading_mode = risk_mode trading_mode, rc_live_trading_enabled = rsn_live_trading_enabled snap,
       rc_global_halt_active = rsn_global_halt_active snap, rc_broker_connected = mks_broker_connected mkt,
       rc_market_data_fresh = mks_market_data_fresh mkt, rc_market_session_open = mks_market_session_open mkt,
       rc_instrument_allowed = mks_instrument_allowed mkt, rc_duplicate_signal = rsn_duplicate_signal snap,
       rc_order_quantity = q, rc_max_order_quantity = lms_max_order_quantity lim,
       rc_projected_position_quantity = projected_position s q pos, rc_max_position_quantity = lms_max_position_quantity lim,
       rc_projected_exposure = projected_exposure q mkt pos, rc_max_exposure = lms_max_exposure lim,
       rc_daily_realized_pnl = acs_daily_realized_pnl acc, rc_max_daily_loss = lms_max_daily_loss lim,
       rc_strategy_realized_pnl = acs_strategy_realized_pnl acc, rc_max_strategy_loss = lms_max_strategy_loss lim,
       rc_required_margin = required_margin q mkt, rc_available_margin = acs_available_margin acc,
       rc_open_positions_count = pss_open_positions_count pos, rc_max_open_positions = lms_max_open_positions lim,
       rc_equity_value = acs_equity acc, rc_high_water_mark = acs_high_water_mark acc,
       rc_current_drawdown = derived_drawdown acc, rc_max_drawdown = lms_max_drawdown lim,
       rc_reference_price = mks_reference_price mkt, rc_current_price = mks_current_price mkt,
       rc_max_price_deviation = lms_max_price_deviation lim, rc_recent_order_count = rsn_recent_order_count snap,
       rc_max_orders_per_window = lms_max_orders_per_window lim, rc_account_max_order_quantity = lms_account_max_order_quantity lim,
       rc_account_max_positions = lms_account_max_positions lim, rc_account_max_exposure = lms_account_max_exposure lim,
       rc_account_max_loss = lms_account_max_loss lim, rc_account_max_order_rate = lms_account_max_order_rate lim,
       rc_account_daily_realized_pnl = acs_daily_realized_pnl acc, rc_pending_execution_count = pss_pending_order_count pos,
       rc_max_unresolved_executions = lms_max_unresolved_executions lim, rc_retry_count = Some retries,
       rc_max_retries_per_signal = lms_max_retries_per_signal lim, rc_reserved_quantity = pss_reserved_quantity pos,
       rc_open_order_quantity = pss_reserved_quantity pos\<rparr>))))))"

definition negative :: "decimal option \<Rightarrow> bool" where
  "negative v = (case v of None \<Rightarrow> False | Some d \<Rightarrow> d < 0)"

definition context_problems :: "risk_evaluation_context \<Rightarrow> string list" where
  "context_problems c =
     map (\<lambda>(name, v). name @ '' must be non-negative'')
       (filter (\<lambda>(name, v). negative v)
         [(''equity_value'', rc_equity_value c), (''high_water_mark'', rc_high_water_mark c),
          (''current_price'', rc_current_price c), (''reference_price'', rc_reference_price c),
          (''order_quantity'', rc_order_quantity c), (''reserved_quantity'', rc_reserved_quantity c),
          (''open_order_quantity'', rc_open_order_quantity c)])"

section \<open>Approvals\<close>

definition risk_identity_payload :: "string \<Rightarrow> risk_order_intent option \<Rightarrow> string \<Rightarrow> payload" where
  "risk_identity_payload key intent trading_mode =
     [(''signal_identity'', PStr key),
      (''quantity'', opt_str (map_option decimal_str (Option.bind intent rio_quantity))),
      (''account_id'', opt_str (map_option uuid_str (Option.bind intent rio_account_id))),
      (''order_type'', opt_str (map_option rio_order_type intent)),
      (''trading_mode'', PStr (upper trading_mode))]"

definition compute_risk_identity_key :: "py_env \<Rightarrow> strategy_signal \<Rightarrow> risk_order_intent option \<Rightarrow> string \<Rightarrow> string option" where
  "compute_risk_identity_key env s intent trading_mode =
     map_option (\<lambda>key. py_digest env (risk_identity_payload key intent trading_mode)) (compute_signal_identity_key env s)"

text \<open>\<open>None\<close> when the reading of the clock is naive and the decision an approval.\<close>

definition approval_is_usable :: "risk_decision \<Rightarrow> datetime \<Rightarrow> string option \<Rightarrow> bool option" where
  "approval_is_usable d now binding =
     (if rd_decision d \<noteq> APPROVED then Some False
      else case is_valid_approval_at d now of
        Inl _ \<Rightarrow> None
      | Inr ok \<Rightarrow> Some (ok \<and> rd_binding_hash d \<noteq> None \<and> binding \<noteq> None \<and> rd_binding_hash d = binding))"

section \<open>The risk event table\<close>

record risk_event_row =
  rw_id :: uuid
  rw_decision_id :: uuid
  rw_strategy_id :: uuid
  rw_signal_id :: uuid
  rw_instrument_id :: uuid
  rw_account_id :: "uuid option"
  rw_decision :: risk_decision_result
  rw_reason_code :: string
  rw_reason :: string
  rw_approval_id :: "string option"
  rw_expires_at :: "datetime option"
  rw_evaluated_at :: datetime
  rw_trading_mode :: string
  rw_rule_id :: string
  rw_binding_hash :: "string option"
  rw_identity_key :: string
  rw_snapshot_id :: "uuid option"

definition risk_clash :: "risk_event_row \<Rightarrow> risk_event_row \<Rightarrow> bool" where
  "risk_clash q r \<longleftrightarrow> rw_id q = rw_id r \<or> rw_decision_id q = rw_decision_id r \<or> both_have (rw_approval_id q) (rw_approval_id r) \<or>
     rw_identity_key q = rw_identity_key r"

definition to_orm_risk_event ::
  "uuid \<Rightarrow> risk_decision \<Rightarrow> uuid option \<Rightarrow> string \<Rightarrow> uuid option \<Rightarrow> string \<Rightarrow> risk_event_row" where
  "to_orm_risk_event rid d account mode snapshot_id key =
     \<lparr>rw_id = rid, rw_decision_id = rd_decision_id d, rw_strategy_id = rd_strategy_id d, rw_signal_id = rd_signal_id d,
      rw_instrument_id = rd_instrument_id d, rw_account_id = account, rw_decision = rd_decision d,
      rw_reason_code = rd_reason_code d, rw_reason = rd_reason d, rw_approval_id = map_option uuid_str (rd_approval_id d),
      rw_expires_at = rd_expires_at d, rw_evaluated_at = rd_evaluated_at d, rw_trading_mode = mode, rw_rule_id = rd_rule_id d,
      rw_binding_hash = rd_binding_hash d, rw_identity_key = key, rw_snapshot_id = snapshot_id\<rparr>"

record risk_env =
  rv_py :: py_env
  rv_clock :: "nat \<Rightarrow> datetime"
  rv_request_id :: uuid
  rv_decision_id :: uuid
  rv_approval_id :: uuid
  rv_record_id :: uuid
  rv_provider :: "uuid option \<Rightarrow> uuid \<Rightarrow> uuid \<Rightarrow> (risk_error, risk_snapshot) result"
  rv_refs_ok :: "risk_event_row \<Rightarrow> bool"
  rv_db_fail :: "nat \<Rightarrow> bool"
  rv_race :: "risk_event_row list"

definition persist_risk_event ::
  "risk_env \<Rightarrow> risk_event_row list \<Rightarrow> risk_event_row \<Rightarrow> (bool \<times> uuid) option \<times> risk_event_row list" where
  "persist_risk_event env = find_or_insert risk_clash (rv_refs_ok env) rw_identity_key rw_id (rv_db_fail env) (rv_race env)"

section \<open>The service\<close>

record risk_metrics =
  rx_evaluations :: int
  rx_approvals :: int
  rx_rejections :: int
  rx_duplicates :: int
  rx_persistence_failures :: int
  rx_stale_data_rejections :: int
  rx_circuit_breaker_trips :: int
  rx_global_halt_rejections :: int
  rx_context_unavailable :: int
  rx_errors :: int
  rx_by_rule :: "string \<Rightarrow> int"

datatype outcome_status = OUT_APPROVED | OUT_REJECTED | OUT_DUPLICATE

record risk_evaluation_outcome =
  ro_decision :: risk_decision
  ro_status :: outcome_status
  ro_persisted :: bool
  ro_record_id :: "uuid option"
  ro_snapshot_id :: "uuid option"
  ro_prior_decision_id :: "uuid option"

record risk_service =
  rs_engine :: risk_rule_engine
  rs_breaker_config :: circuit_breaker_config
  rs_breakers :: breaker_registry
  rs_decisions :: "(string, risk_decision) odict"
  rs_retries :: "(string, int) odict"
  rs_capacity :: nat
  rs_repository :: "risk_event_row list option"
  rs_metrics :: risk_metrics
  rs_published :: "risk_decision list"

abbreviation bump_risk :: "(risk_metrics \<Rightarrow> risk_metrics) \<Rightarrow> risk_service \<Rightarrow> risk_service" where
  "bump_risk f st \<equiv> st\<lparr>rs_metrics := f (rs_metrics st)\<rparr>"

definition inc_rule :: "string \<Rightarrow> risk_metrics \<Rightarrow> risk_metrics" where
  "inc_rule rule m = m\<lparr>rx_by_rule := (rx_by_rule m)(rule := rx_by_rule m rule + 1)\<rparr>"

definition count_rejection :: "string \<Rightarrow> risk_metrics \<Rightarrow> risk_metrics" where
  "count_rejection rule m = inc_rule rule (m\<lparr>rx_rejections := rx_rejections m + 1\<rparr>)"

definition risk_allowed_modes :: "string list" where
  "risk_allowed_modes = [''BACKTEST'', ''PAPER'']"

definition record_seen :: "string \<Rightarrow> risk_decision \<Rightarrow> risk_service \<Rightarrow> risk_service" where
  "record_seen key d st =
     (let (ds, rs) = evict (rs_capacity st) (move_to_end key (od_set key d (rs_decisions st))) (rs_retries st) in
      st\<lparr>rs_decisions := ds, rs_retries := rs\<rparr>)"

definition risk_persist ::
  "risk_env \<Rightarrow> risk_service \<Rightarrow> risk_decision \<Rightarrow> risk_order_intent option \<Rightarrow> string \<Rightarrow> uuid option \<Rightarrow> string
   \<Rightarrow> (bool \<times> uuid option) \<times> risk_service" where
  "risk_persist env st d intent mode snapshot_id key =
     (case rs_repository st of
        None \<Rightarrow> ((False, None), st)
      | Some t \<Rightarrow>
          case persist_risk_event env t
                 (to_orm_risk_event (rv_record_id env) d (Option.bind intent rio_account_id) mode snapshot_id key) of
            (None, t') \<Rightarrow>
              ((False, None), bump_risk (\<lambda>m. m\<lparr>rx_persistence_failures := rx_persistence_failures m + 1\<rparr>)
                 (st\<lparr>rs_repository := Some t'\<rparr>))
          | (Some (inserted, rid), t') \<Rightarrow> ((inserted, Some rid), st\<lparr>rs_repository := Some t'\<rparr>))"

definition finish_reject ::
  "risk_env \<Rightarrow> risk_service \<Rightarrow> risk_decision \<Rightarrow> risk_order_intent option \<Rightarrow> string \<Rightarrow> string
   \<Rightarrow> (risk_error, risk_evaluation_outcome) result \<times> risk_service" where
  "finish_reject env st d intent mode key =
     (let ((persisted, rid), st') = risk_persist env (record_seen key d st) d intent mode None key in
      (Inr \<lparr>ro_decision = d, ro_status = OUT_REJECTED, ro_persisted = persisted, ro_record_id = rid, ro_snapshot_id = None,
            ro_prior_decision_id = None\<rparr>, st'))"

text \<open>The rejections before the rule engine: make the decision, count it, record, persist.\<close>

definition reject_early ::
  "risk_env \<Rightarrow> risk_service \<Rightarrow> risk_assessment_request \<Rightarrow> risk_order_intent option \<Rightarrow> string \<Rightarrow> string \<Rightarrow> datetime
   \<Rightarrow> string \<Rightarrow> string \<Rightarrow> string \<Rightarrow> (risk_error, risk_evaluation_outcome) result \<times> risk_service" where
  "reject_early env st q intent mode key now rule code why =
     (case mk_risk_decision (reject_decision q (rv_decision_id env) now rule code why) of
        Inl err \<Rightarrow> (Inl err, st)
      | Inr d \<Rightarrow> finish_reject env (bump_risk (count_rejection rule) st) d intent mode key)"

definition risk_scopes :: "strategy_signal \<Rightarrow> string list" where
  "risk_scopes s = [''global'', ''strategy:'' @ uuid_str (ss_strategy_id s), ''instrument:'' @ uuid_str (ss_instrument_id s)]"

text \<open>The pre-check over the scopes: the first scope whose breaker refuses.\<close>

fun scopes_check :: "circuit_breaker_config \<Rightarrow> int \<Rightarrow> breaker_registry \<Rightarrow> string list \<Rightarrow> string option \<times> breaker_registry" where
  "scopes_check cfg now reg [] = (None, reg)"
| "scopes_check cfg now reg (scope # scopes) =
     (let (ok, reg') = registry_allows cfg now reg scope in
      if ok then scopes_check cfg now reg' scopes else (Some scope, reg'))"

fun error_type_name :: "risk_error \<Rightarrow> string" where
  "error_type_name (RiskValueError _) = ''ValueError''"
| "error_type_name RiskValidationError = ''ValidationError''"
| "error_type_name (RiskContextUnavailable _) = ''RiskContextUnavailable''"
| "error_type_name (RiskOtherError name) = name"

definition count_decision :: "risk_decision \<Rightarrow> risk_metrics \<Rightarrow> risk_metrics" where
  "count_decision d m =
     (if rd_decision d = APPROVED then m\<lparr>rx_approvals := rx_approvals m + 1\<rparr>
      else let m1 = count_rejection (rd_rule_id d) m;
               m2 = (if rd_rule_id d = ''core.global-halt'' then m1\<lparr>rx_global_halt_rejections := rx_global_halt_rejections m1 + 1\<rparr> else m1) in
           if rd_reason_code d = ''STALE_MARKET_DATA'' then m2\<lparr>rx_stale_data_rejections := rx_stale_data_rejections m2 + 1\<rparr> else m2)"

definition record_outcomes :: "risk_decision \<Rightarrow> int \<Rightarrow> string list \<Rightarrow> risk_service \<Rightarrow> risk_service" where
  "record_outcomes d now scopes st =
     st\<lparr>rs_breakers := fold (if rd_decision d = APPROVED then registry_record_success (rs_breaker_config st) now
                              else registry_record_failure (rs_breaker_config st) now) scopes (rs_breakers st)\<rparr>"

definition count_retry :: "string \<Rightarrow> risk_service \<Rightarrow> risk_service" where
  "count_retry key st =
     st\<lparr>rs_retries := move_to_end key (od_set key ((case map_of (rs_retries st) key of None \<Rightarrow> 0 | Some n \<Rightarrow> n) + 1) (rs_retries st))\<rparr>"

definition bind_approval :: "string \<Rightarrow> uuid \<Rightarrow> risk_decision \<Rightarrow> risk_decision" where
  "bind_approval key sid d =
     (if rd_decision d = APPROVED then d\<lparr>rd_binding_hash := Some key, rd_snapshot_id := Some sid\<rparr> else d)"

text \<open>Steps 7 to 10: bind the approval, record outcomes, persist, and publish a durable approval.\<close>

definition finish_decision ::
  "risk_env \<Rightarrow> risk_service \<Rightarrow> strategy_signal \<Rightarrow> risk_order_intent option \<Rightarrow> string \<Rightarrow> string \<Rightarrow> datetime \<Rightarrow> uuid \<Rightarrow> risk_decision
   \<Rightarrow> (risk_error, risk_evaluation_outcome) result \<times> risk_service" where
  "finish_decision env st s intent mode key now sid d0 =
     (let d = bind_approval key sid d0;
          st1 = count_retry key (bump_risk (count_decision d) (record_outcomes d (instant now) (risk_scopes s) st));
          ((persisted, rid), st2) = risk_persist env st1 d intent mode (Some sid) key;
          st3 = (if rd_decision d = APPROVED
                 then if persisted \<or> rs_repository st2 = None
                      then (let st' = record_seen key d st2 in st'\<lparr>rs_published := rs_published st' @ [d]\<rparr>) else st2
                 else record_seen key d st2) in
      (Inr \<lparr>ro_decision = d, ro_status = (if rd_decision d = APPROVED then OUT_APPROVED else OUT_REJECTED), ro_persisted = persisted,
            ro_record_id = rid, ro_snapshot_id = Some sid, ro_prior_decision_id = None\<rparr>, st3))"

text \<open>Steps 4 to 6: snapshot, context, rules.\<close>

definition evaluate_context ::
  "risk_env \<Rightarrow> risk_service \<Rightarrow> risk_assessment_request \<Rightarrow> strategy_signal \<Rightarrow> risk_order_intent option \<Rightarrow> string \<Rightarrow> string \<Rightarrow> datetime
   \<Rightarrow> (risk_error, risk_evaluation_outcome) result \<times> risk_service" where
  "evaluate_context env st q s intent mode key now =
     (case rbind (rv_provider env (Option.bind intent rio_account_id) (ss_instrument_id s) (ss_strategy_id s)) (\<lambda>snap.
             rbind (build_context (rv_clock env 1) s intent snap mode
                      (case map_of (rs_retries st) key of None \<Rightarrow> 0 | Some n \<Rightarrow> n)) (\<lambda>c. Inr (snap, c))) of
        Inl (RiskContextUnavailable why) \<Rightarrow>
          reject_early env (bump_risk (\<lambda>m. m\<lparr>rx_context_unavailable := rx_context_unavailable m + 1\<rparr>) st) q intent mode key now
            ''core.risk-context'' ''RISK_STATE_UNAVAILABLE'' why
      | Inl err \<Rightarrow>
          reject_early env (bump_risk (\<lambda>m. m\<lparr>rx_errors := rx_errors m + 1\<rparr>) st) q intent mode key now
            ''core.risk-context'' ''RISK_CONTEXT_ERROR'' (''context construction failed: '' @ error_type_name err)
      | Inr (snap, c) \<Rightarrow>
          if context_problems c \<noteq> []
          then reject_early env st q intent mode key now ''core.risk-context'' ''RISK_CONTEXT_INVALID'' (join ''; '' (context_problems c))
          else case engine_evaluate (rs_engine st) (rv_clock env 2) (rv_decision_id env) (rv_approval_id env) q c of
                 Inl err \<Rightarrow> (Inl err, st)
               | Inr d \<Rightarrow> finish_decision env st s intent mode key now (rsn_snapshot_id snap) d)"

definition evaluate_locked ::
  "risk_env \<Rightarrow> risk_service \<Rightarrow> risk_assessment_request \<Rightarrow> strategy_signal \<Rightarrow> risk_order_intent option \<Rightarrow> string \<Rightarrow> string \<Rightarrow> datetime
   \<Rightarrow> (risk_error, risk_evaluation_outcome) result \<times> risk_service" where
  "evaluate_locked env st q s intent mode key now =
     (if mode \<notin> set risk_allowed_modes
      then reject_early env st q intent mode key now ''core.live-mode-gate'' ''LIVE_MODE_BLOCKED'' (''trading mode not allowed: '' @ mode)
      else case map_of (rs_decisions st) key of
        Some prior \<Rightarrow>
          (let st' = bump_risk (\<lambda>m. m\<lparr>rx_duplicates := rx_duplicates m + 1\<rparr>) st in
           if rd_decision prior = APPROVED \<and> approval_is_usable prior now (Some key) \<noteq> Some True
           then reject_early env st' q intent mode key now ''core.duplicate-order-protection'' ''PRIOR_APPROVAL_INVALID''
                  ''prior approval expired or unbound on replay''
           else (Inr \<lparr>ro_decision = prior, ro_status = OUT_DUPLICATE, ro_persisted = False, ro_record_id = None, ro_snapshot_id = None,
                      ro_prior_decision_id = Some (rd_decision_id prior)\<rparr>, st'))
      | None \<Rightarrow>
          let (refused, reg) = scopes_check (rs_breaker_config st) (instant now) (rs_breakers st) (risk_scopes s);
              st' = st\<lparr>rs_breakers := reg\<rparr> in
          case refused of
            Some scope \<Rightarrow>
              reject_early env (bump_risk (\<lambda>m. m\<lparr>rx_circuit_breaker_trips := rx_circuit_breaker_trips m + 1\<rparr>) st') q intent mode key now
                ''core.circuit-breaker'' ''CIRCUIT_BREAKER_OPEN'' (''circuit breaker open: '' @ scope)
          | None \<Rightarrow> evaluate_context env st' q s intent mode key now)"

definition risk_evaluate ::
  "risk_env \<Rightarrow> risk_service \<Rightarrow> strategy_signal \<Rightarrow> risk_order_intent option \<Rightarrow> string
   \<Rightarrow> (risk_error, risk_evaluation_outcome) result \<times> risk_service" where
  "risk_evaluate env st0 s intent trading_mode =
     (let st = bump_risk (\<lambda>m. m\<lparr>rx_evaluations := rx_evaluations m + 1\<rparr>) st0; mode = upper trading_mode; now = rv_clock env 0 in
      case compute_risk_identity_key (rv_py env) s intent mode of
        None \<Rightarrow> (Inl (RiskValueError ''Invalid isoformat string''), st)
      | Some key \<Rightarrow>
          if \<not> tz_aware now then (Inl RiskValidationError, st)
          else evaluate_locked env st \<lparr>ra_request_id = rv_request_id env, ra_signal = s, ra_requested_at = now\<rparr> s intent mode key now)"

section \<open>What a call does to the table and the publications\<close>

abbreviation risk_keys :: "risk_event_row list \<Rightarrow> string list" where
  "risk_keys t \<equiv> map rw_identity_key t"

text \<open>No publication, and the table at most grows; or one publication of a decision whose row is new.\<close>

definition risk_quiet :: "risk_service \<Rightarrow> risk_service \<Rightarrow> bool" where
  "risk_quiet st st' \<longleftrightarrow> rs_published st' = rs_published st \<and>
     (case rs_repository st of None \<Rightarrow> rs_repository st' = None | Some t \<Rightarrow> \<exists>new. rs_repository st' = Some (t @ new))"

definition durable_approval :: "string \<Rightarrow> string \<Rightarrow> risk_decision \<Rightarrow> risk_event_row \<Rightarrow> bool" where
  "durable_approval mode key d r \<longleftrightarrow>
     rd_decision d = APPROVED \<and> rd_binding_hash d = Some key \<and> rw_identity_key r = key \<and> rw_decision r = APPROVED \<and>
     rw_trading_mode r = mode \<and> rw_decision_id r = rd_decision_id d \<and> rw_approval_id r = map_option uuid_str (rd_approval_id d)"

definition publishes_approval :: "string \<Rightarrow> string \<Rightarrow> risk_service \<Rightarrow> risk_service \<Rightarrow> bool" where
  "publishes_approval mode key st st' \<longleftrightarrow> (\<exists>t new d r.
     rs_repository st = Some t \<and> rs_repository st' = Some (t @ new) \<and> rs_published st' = rs_published st @ [d] \<and>
     key \<notin> set (risk_keys t) \<and> r \<in> set new \<and> durable_approval mode key d r)"

lemma risk_quiet_same: "rs_published st' = rs_published st \<Longrightarrow> rs_repository st' = rs_repository st \<Longrightarrow> risk_quiet st st'"
  by (simp add: risk_quiet_def split: option.split)

lemma risk_quiet_trans: "risk_quiet a b \<Longrightarrow> risk_quiet b c \<Longrightarrow> risk_quiet a c"
  by (auto simp: risk_quiet_def split: option.splits)

lemma record_seen_durable [simp]:
  "rs_published (record_seen key d st) = rs_published st" "rs_repository (record_seen key d st) = rs_repository st"
  "rs_engine (record_seen key d st) = rs_engine st"
  by (simp_all add: record_seen_def split: prod.split)

lemma risk_persist_effect:
  assumes "risk_persist env st d intent mode sid key = ((persisted, rid), st')"
  shows "risk_quiet st st' \<and> rs_engine st' = rs_engine st \<and> (rs_repository st = None \<longrightarrow> \<not> persisted) \<and>
    (persisted \<longrightarrow> (\<exists>t new. rs_repository st = Some t \<and> rs_repository st' = Some (t @ new) \<and> key \<notin> set (risk_keys t) \<and>
       to_orm_risk_event (rv_record_id env) d (Option.bind intent rio_account_id) mode sid key \<in> set new))"
proof (cases "rs_repository st")
  case None
  with assms show ?thesis by (auto simp: risk_persist_def risk_quiet_def)
next
  case (Some t)
  let ?r = "to_orm_risk_event (rv_record_id env) d (Option.bind intent rio_account_id) mode sid key"
  have k: "rw_identity_key ?r = key" by (simp add: to_orm_risk_event_def)
  obtain new where new: "snd (persist_risk_event env t ?r) = t @ new"
    "\<And>rid. fst (persist_risk_event env t ?r) = Some (True, rid) \<Longrightarrow> ?r \<in> set new \<and> key \<notin> set (risk_keys t)"
    using find_or_insert_grows [of risk_clash "rv_refs_ok env" rw_identity_key rw_id "rv_db_fail env" "rv_race env" t ?r] k
    unfolding persist_risk_event_def by metis
  obtain res t' where p: "persist_risk_event env t ?r = (res, t')" by fastforce
  with new have t': "t' = t @ new" by simp
  show ?thesis using assms Some p new(2) t'
    by (cases res) (auto simp: risk_persist_def risk_quiet_def split: prod.splits)
qed

lemma finish_reject_quiet: "risk_quiet st (snd (finish_reject env st d intent mode key))"
proof -
  obtain persisted rid st' where p: "risk_persist env (record_seen key d st) d intent mode None key = ((persisted, rid), st')"
    by (metis prod.exhaust)
  then have "risk_quiet (record_seen key d st) st'" using risk_persist_effect by blast
  then show ?thesis by (simp add: finish_reject_def p risk_quiet_def)
qed

lemma reject_early_quiet: "risk_quiet st (snd (reject_early env st q intent mode key now rule code why))"
proof (cases "mk_risk_decision (reject_decision q (rv_decision_id env) now rule code why)")
  case (Inr d)
  have "risk_quiet st (bump_risk (count_rejection rule) st)" by (simp add: risk_quiet_same)
  from risk_quiet_trans [OF this finish_reject_quiet] Inr show ?thesis by (simp add: reject_early_def)
qed (simp add: reject_early_def risk_quiet_same)

lemma finish_decision_effect:
  "risk_quiet st (snd (finish_decision env st s intent mode key now sid d0)) \<or>
   publishes_approval mode key st (snd (finish_decision env st s intent mode key now sid d0)) \<or> rs_repository st = None"
proof -
  let ?d = "bind_approval key sid d0"
  let ?st1 = "count_retry key (bump_risk (count_decision ?d) (record_outcomes ?d (instant now) (risk_scopes s) st))"
  have st1: "rs_repository ?st1 = rs_repository st" "rs_published ?st1 = rs_published st"
    by (simp_all add: count_retry_def record_outcomes_def)
  obtain persisted rid st2 where p: "risk_persist env ?st1 ?d intent mode (Some sid) key = ((persisted, rid), st2)" by (metis prod.exhaust)
  note eff = risk_persist_effect [OF p, unfolded st1]
  have quiet: "risk_quiet st st2" using eff st1 by (simp add: risk_quiet_def)
  show ?thesis
  proof (cases "rd_decision ?d = APPROVED \<and> (persisted \<or> rs_repository st2 = None)")
    case False
    then show ?thesis using quiet by (auto simp: finish_decision_def Let_def p risk_quiet_def)
  next
    case True
    show ?thesis
    proof (cases "rs_repository st")
      case (Some t)
      with True quiet have "persisted" by (auto simp: risk_quiet_def)
      with eff Some obtain new where new: "rs_repository st2 = Some (t @ new)" "key \<notin> set (risk_keys t)"
        "to_orm_risk_event (rv_record_id env) ?d (Option.bind intent rio_account_id) mode (Some sid) key \<in> set new" by auto
      have "durable_approval mode key ?d (to_orm_risk_event (rv_record_id env) ?d (Option.bind intent rio_account_id) mode (Some sid) key)"
        using True by (auto simp: durable_approval_def to_orm_risk_event_def bind_approval_def)
      then have "publishes_approval mode key st (snd (finish_decision env st s intent mode key now sid d0))"
        using True \<open>persisted\<close> quiet new Some by (auto simp: publishes_approval_def finish_decision_def Let_def p risk_quiet_def)
      then show ?thesis by simp
    qed simp
  qed
qed

lemma evaluate_context_effect:
  "risk_quiet st (snd (evaluate_context env st q s intent mode key now)) \<or>
   publishes_approval mode key st (snd (evaluate_context env st q s intent mode key now)) \<or> rs_repository st = None"
proof -
  have bumped: "risk_quiet (bump_risk f st) st' \<Longrightarrow> risk_quiet st st'" for f st' by (simp add: risk_quiet_def)
  show ?thesis
  proof (cases "rbind (rv_provider env (Option.bind intent rio_account_id) (ss_instrument_id s) (ss_strategy_id s)) (\<lambda>snap.
      rbind (build_context (rv_clock env 1) s intent snap mode (case map_of (rs_retries st) key of None \<Rightarrow> 0 | Some n \<Rightarrow> n)) (\<lambda>c. Inr (snap, c)))")
    case (Inl err)
    then show ?thesis using bumped [OF reject_early_quiet] by (cases err) (simp_all add: evaluate_context_def)
  next
    case (Inr sc)
    obtain snap c where sc: "sc = (snap, c)" by fastforce
    show ?thesis
    proof (cases "context_problems c = []")
      case False
      then show ?thesis using Inr sc reject_early_quiet by (simp add: evaluate_context_def)
    next
      case True
      then show ?thesis using Inr sc finish_decision_effect
        by (cases "engine_evaluate (rs_engine st) (rv_clock env 2) (rv_decision_id env) (rv_approval_id env) q c")
           (simp_all add: evaluate_context_def risk_quiet_same)
    qed
  qed
qed

lemma evaluate_locked_effect:
  "risk_quiet st (snd (evaluate_locked env st q s intent mode key now)) \<or>
   mode \<in> set risk_allowed_modes \<and> publishes_approval mode key st (snd (evaluate_locked env st q s intent mode key now)) \<or>
   rs_repository st = None"
proof -
  have bumped: "risk_quiet (st\<lparr>rs_metrics := m\<rparr>) st' \<Longrightarrow> risk_quiet st st'"
    "risk_quiet (st\<lparr>rs_breakers := b\<rparr>) st' \<Longrightarrow> risk_quiet st st'" "risk_quiet (st\<lparr>rs_breakers := b, rs_metrics := m\<rparr>) st' \<Longrightarrow> risk_quiet st st'"
    "publishes_approval mode key (st\<lparr>rs_breakers := b\<rparr>) st' \<Longrightarrow> publishes_approval mode key st st'" for m b st'
    by (simp_all add: risk_quiet_def publishes_approval_def)
  consider "mode \<notin> set risk_allowed_modes" | prior where "mode \<in> set risk_allowed_modes" "map_of (rs_decisions st) key = Some prior"
    | "mode \<in> set risk_allowed_modes" "map_of (rs_decisions st) key = None" by fastforce
  then show ?thesis
  proof cases
    case 1
    then show ?thesis using reject_early_quiet by (simp add: evaluate_locked_def)
  next
    case 2
    then show ?thesis using bumped(1) [OF reject_early_quiet] by (auto simp: evaluate_locked_def Let_def risk_quiet_same)
  next
    case 3
    obtain refused reg where r: "scopes_check (rs_breaker_config st) (instant now) (rs_breakers st) (risk_scopes s) = (refused, reg)" by fastforce
    show ?thesis
    proof (cases refused)
      case None
      then show ?thesis using 3 r bumped(2,4) [of reg] evaluate_context_effect [of "st\<lparr>rs_breakers := reg\<rparr>" env q s intent mode key now]
        by (auto simp: evaluate_locked_def)
    next
      case (Some scope)
      then show ?thesis using 3 r bumped(3) [OF reject_early_quiet] by (simp add: evaluate_locked_def)
    qed
  qed
qed

lemma risk_evaluate_effect:
  assumes "rs_repository st \<noteq> None"
  shows "risk_quiet st (snd (risk_evaluate env st s intent mode)) \<or>
    (\<exists>key. compute_risk_identity_key (rv_py env) s intent (upper mode) = Some key \<and> upper mode \<in> set risk_allowed_modes \<and>
       publishes_approval (upper mode) key st (snd (risk_evaluate env st s intent mode)))"
proof -
  let ?st = "bump_risk (\<lambda>m. m\<lparr>rx_evaluations := rx_evaluations m + 1\<rparr>) st"
  have same: "risk_quiet ?st st' \<longleftrightarrow> risk_quiet st st'" "publishes_approval m key ?st st' \<longleftrightarrow> publishes_approval m key st st'" for m key st'
    by (simp_all add: risk_quiet_def publishes_approval_def)
  show ?thesis
  proof (cases "compute_risk_identity_key (rv_py env) s intent (upper mode)")
    case (Some key)
    then show ?thesis
      using evaluate_locked_effect [of ?st env "\<lparr>ra_request_id = rv_request_id env, ra_signal = s, ra_requested_at = rv_clock env 0\<rparr>" s intent
          "upper mode" key "rv_clock env 0"] assms
      by (cases "tz_aware (rv_clock env 0)") (simp_all add: risk_evaluate_def Let_def same risk_quiet_same)
  qed (simp add: risk_evaluate_def Let_def risk_quiet_same)
qed

section \<open>Publication\<close>

definition risk_table :: "risk_service \<Rightarrow> risk_event_row list" where
  "risk_table st = (case rs_repository st of None \<Rightarrow> [] | Some t \<Rightarrow> t)"

text \<open>A run: evaluations, and restarts, which lose everything but the table and the log of publications.\<close>

datatype risk_call =
    Risk_Evaluate risk_env strategy_signal "risk_order_intent option" string
  | Risk_Restart

fun risk_step :: "risk_service \<Rightarrow> risk_call \<Rightarrow> risk_service" where
  "risk_step st (Risk_Evaluate env s intent mode) = snd (risk_evaluate env st s intent mode)"
| "risk_step st Risk_Restart = st\<lparr>rs_decisions := [], rs_retries := [], rs_breakers := Map.empty\<rparr>"

definition wired :: "risk_service \<Rightarrow> bool" where
  "wired st \<longleftrightarrow> rs_repository st \<noteq> None"

text \<open>The call a publication comes from, and its row.\<close>

definition approval_of_call :: "risk_decision \<Rightarrow> risk_event_row \<Rightarrow> risk_call \<Rightarrow> bool" where
  "approval_of_call d r c \<longleftrightarrow> (\<exists>env s intent mode key. c = Risk_Evaluate env s intent mode \<and>
     compute_risk_identity_key (rv_py env) s intent (upper mode) = Some key \<and> upper mode \<in> {''BACKTEST'', ''PAPER''} \<and>
     durable_approval (upper mode) key d r)"

lemma risk_step_cases:
  assumes "wired st"
  obtains (quiet) new where "rs_published (risk_step st c) = rs_published st" "rs_repository (risk_step st c) = Some (risk_table st @ new)"
  | (published) new d r where "rs_published (risk_step st c) = rs_published st @ [d]" "rs_repository (risk_step st c) = Some (risk_table st @ new)"
      "r \<in> set new" "approval_of_call d r c" "rd_binding_hash d \<notin> Some ` set (risk_keys (risk_table st))" "rd_binding_hash d = Some (rw_identity_key r)"
proof (cases c)
  case (Risk_Evaluate env s intent mode)
  obtain t where t: "rs_repository st = Some t" using assms by (auto simp: wired_def)
  from risk_evaluate_effect [of st env s intent mode] t
  consider "risk_quiet st (risk_step st c)"
    | key where "compute_risk_identity_key (rv_py env) s intent (upper mode) = Some key" "upper mode \<in> set risk_allowed_modes"
        "publishes_approval (upper mode) key st (risk_step st c)" unfolding Risk_Evaluate risk_step.simps by blast
  then show thesis
  proof cases
    case 1
    then show thesis using t quiet by (auto simp: risk_quiet_def risk_table_def)
  next
    case 2
    from 2(3) obtain new d r where p: "rs_repository (risk_step st c) = Some (t @ new)" "rs_published (risk_step st c) = rs_published st @ [d]"
      "key \<notin> set (risk_keys t)" "r \<in> set new" "durable_approval (upper mode) key d r"
      unfolding publishes_approval_def using t by auto
    have "approval_of_call d r c" using 2(1,2) p(5) Risk_Evaluate by (auto simp: approval_of_call_def risk_allowed_modes_def)
    then show thesis using p t by (intro published [of d new r]) (auto simp: risk_table_def durable_approval_def)
  qed
next
  case Risk_Restart
  then show thesis using assms quiet [of "[]"] by (auto simp: wired_def risk_table_def)
qed

interpretation risk_feed: publish_once risk_step "\<lambda>st. Some ` set (risk_keys (risk_table st))" rs_published rd_binding_hash wired
proof unfold_locales
  fix st c assume w: "wired st"
  show "Some ` set (risk_keys (risk_table st)) \<subseteq> Some ` set (risk_keys (risk_table (risk_step st c)))"
    by (cases rule: risk_step_cases [OF w, of c]) (auto simp: risk_table_def)
  show "rs_published (risk_step st c) = rs_published st \<or> (\<exists>d. rs_published (risk_step st c) = rs_published st @ [d] \<and>
      rd_binding_hash d \<notin> Some ` set (risk_keys (risk_table st)) \<and> rd_binding_hash d \<in> Some ` set (risk_keys (risk_table (risk_step st c))))"
    by (cases rule: risk_step_cases [OF w, of c]) (auto simp: risk_table_def)
  show "wired (risk_step st c)"
    by (cases rule: risk_step_cases [OF w, of c]) (auto simp: wired_def)
qed

lemma risk_run_approvals:
  assumes "wired st" "rs_published st = []"
  shows "\<forall>d\<in>set (rs_published (foldl risk_step st cs)). \<exists>c\<in>set cs. \<exists>r\<in>set (risk_table (foldl risk_step st cs)). approval_of_call d r c"
proof (induction cs rule: rev_induct)
  case (snoc c cs)
  let ?st = "foldl risk_step st cs"
  have "wired ?st" by (rule risk_feed.ready_run [OF assms(1)])
  then show ?case
  proof (cases rule: risk_step_cases [of _ c])
    case (quiet new)
    then show ?thesis using snoc by (fastforce simp: risk_table_def)
  next
    case (published new d r)
    then have "risk_table (risk_step ?st c) = risk_table ?st @ new" by (simp add: risk_table_def)
    then show ?thesis using snoc published by (simp, blast)
  qed
qed (simp add: assms)

text \<open>An approval is published at most once and only when it is durable: from a service with a repository, over
  any sequence of evaluations and restarts, with any clocks, providers, database failures and concurrent writers,
  the published decisions are bound to pairwise different risk identities; each is the approval of an evaluation
  of that identity in BACKTEST or PAPER mode, and its row (same decision, same approval id, same identity) is in the
  table.\<close>

theorem risk_approval_published_once:
  assumes "rs_repository st = Some t" "rs_published st = []"
  shows "distinct (map rd_binding_hash (rs_published (foldl risk_step st calls))) \<and>
    (\<forall>d\<in>set (rs_published (foldl risk_step st calls)).
       \<exists>c\<in>set calls. \<exists>r\<in>set (risk_table (foldl risk_step st calls)). approval_of_call d r c)"
proof -
  have w: "wired st" using assms(1) by (simp add: wired_def)
  show ?thesis using risk_feed.published_from_start [OF w assms(2), of calls] risk_run_approvals [OF w assms(2), of calls] by blast
qed

section \<open>Fail-closed evaluation\<close>

lemma reject_early_out:
  assumes "reject_early env st q intent mode key now rule code why = (Inr out, st')"
  shows "ro_status out = OUT_REJECTED \<and> rd_decision (ro_decision out) = RISK_REJECTED"
  using assms by (auto simp: reject_early_def finish_reject_def mk_risk_decision_def reject_decision_def split: sum.splits prod.splits if_splits)

text \<open>What a returned outcome says about the way it was reached.\<close>

lemma evaluate_context_cases:
  assumes "evaluate_context env st q s intent mode key now = (Inr out, st')"
  obtains (rejected) rule code why f where "reject_early env (bump_risk f st) q intent mode key now rule code why = (Inr out, st')"
  | (decided) snap c d where "rv_provider env (Option.bind intent rio_account_id) (ss_instrument_id s) (ss_strategy_id s) = Inr snap"
      "build_context (rv_clock env 1) s intent snap mode (case map_of (rs_retries st) key of None \<Rightarrow> 0 | Some n \<Rightarrow> n) = Inr c"
      "context_problems c = []" "engine_evaluate (rs_engine st) (rv_clock env 2) (rv_decision_id env) (rv_approval_id env) q c = Inr d"
      "finish_decision env st s intent mode key now (rsn_snapshot_id snap) d = (Inr out, st')"
proof -
  have id: "bump_risk (\<lambda>m. m) st = st" by simp
  let ?r = "rbind (rv_provider env (Option.bind intent rio_account_id) (ss_instrument_id s) (ss_strategy_id s)) (\<lambda>snap.
      rbind (build_context (rv_clock env 1) s intent snap mode (case map_of (rs_retries st) key of None \<Rightarrow> 0 | Some n \<Rightarrow> n)) (\<lambda>c. Inr (snap, c)))"
  show thesis
  proof (cases ?r)
    case (Inl err)
    then show thesis using assms by (cases err) (auto simp: evaluate_context_def intro: rejected)
  next
    case (Inr sc)
    obtain snap c where sc: "sc = (snap, c)" by fastforce
    with Inr have b: "rv_provider env (Option.bind intent rio_account_id) (ss_instrument_id s) (ss_strategy_id s) = Inr snap"
      "build_context (rv_clock env 1) s intent snap mode (case map_of (rs_retries st) key of None \<Rightarrow> 0 | Some n \<Rightarrow> n) = Inr c"
      by (auto simp: result_simps)
    show thesis
    proof (cases "context_problems c = []")
      case False
      then show thesis using assms Inr sc rejected [of "\<lambda>m. m", unfolded id] by (simp add: evaluate_context_def)
    next
      case True
      then show thesis using assms Inr sc b decided
        by (cases "engine_evaluate (rs_engine st) (rv_clock env 2) (rv_decision_id env) (rv_approval_id env) q c")
           (auto simp: evaluate_context_def)
    qed
  qed
qed

abbreviation risk_request :: "risk_env \<Rightarrow> strategy_signal \<Rightarrow> risk_assessment_request" where
  "risk_request env s \<equiv> \<lparr>ra_request_id = rv_request_id env, ra_signal = s, ra_requested_at = rv_clock env 0\<rparr>"

lemma risk_evaluate_cases:
  assumes "risk_evaluate env st s intent m = (Inr out, st')"
  obtains (rejected) key st0 rule code why where "compute_risk_identity_key (rv_py env) s intent (upper m) = Some key" "rs_capacity st0 = rs_capacity st"
      "reject_early env st0 (risk_request env s) intent (upper m) key (rv_clock env 0) rule code why = (Inr out, st')"
  | (duplicate) key prior where "compute_risk_identity_key (rv_py env) s intent (upper m) = Some key" "map_of (rs_decisions st) key = Some prior"
      "ro_status out = OUT_DUPLICATE" "ro_decision out = prior"
  | (decided) key st0 snap c d where "compute_risk_identity_key (rv_py env) s intent (upper m) = Some key" "upper m \<in> {''BACKTEST'', ''PAPER''}"
      "map_of (rs_decisions st) key = None"
      "fst (scopes_check (rs_breaker_config st) (instant (rv_clock env 0)) (rs_breakers st) (risk_scopes s)) = None"
      "rs_capacity st0 = rs_capacity st" "rs_repository st0 = rs_repository st"
      "rv_provider env (Option.bind intent rio_account_id) (ss_instrument_id s) (ss_strategy_id s) = Inr snap"
      "build_context (rv_clock env 1) s intent snap (upper m) (case map_of (rs_retries st) key of None \<Rightarrow> 0 | Some n \<Rightarrow> n) = Inr c"
      "context_problems c = []" "engine_evaluate (rs_engine st) (rv_clock env 2) (rv_decision_id env) (rv_approval_id env) (risk_request env s) c = Inr d"
      "finish_decision env st0 s intent (upper m) key (rv_clock env 0) (rsn_snapshot_id snap) d = (Inr out, st')"
proof -
  let ?st = "bump_risk (\<lambda>m. m\<lparr>rx_evaluations := rx_evaluations m + 1\<rparr>) st" and ?now = "rv_clock env 0"
  from assms obtain key where k: "compute_risk_identity_key (rv_py env) s intent (upper m) = Some key"
    and run: "evaluate_locked env ?st (risk_request env s) s intent (upper m) key ?now = (Inr out, st')"
    by (auto simp: risk_evaluate_def Let_def split: option.splits if_splits)
  show thesis
  proof (cases "upper m \<in> set risk_allowed_modes")
    case False
    then show thesis using run by (intro rejected [OF k, of ?st]) (auto simp: evaluate_locked_def)
  next
    case mode: True
    show thesis
    proof (cases "map_of (rs_decisions st) key")
      case (Some prior)
      let ?st1 = "bump_risk (\<lambda>m. m\<lparr>rx_duplicates := rx_duplicates m + 1\<rparr>) ?st"
      show thesis
      proof (cases "rd_decision prior = APPROVED \<and> approval_is_usable prior ?now (Some key) \<noteq> Some True")
        case True
        then show thesis using run mode Some by (intro rejected [OF k, of ?st1]) (auto simp: evaluate_locked_def Let_def)
      next
        case False
        then show thesis using run mode Some by (intro duplicate [OF k Some]) (auto simp: evaluate_locked_def Let_def)
      qed
    next
      case None
      obtain refused reg where r: "scopes_check (rs_breaker_config st) (instant ?now) (rs_breakers st) (risk_scopes s) = (refused, reg)" by fastforce
      show thesis
      proof (cases refused)
        case (Some scope)
        then show thesis using run mode None r
          by (intro rejected [OF k, of "bump_risk (\<lambda>m. m\<lparr>rx_circuit_breaker_trips := rx_circuit_breaker_trips m + 1\<rparr>) (?st\<lparr>rs_breakers := reg\<rparr>)"])
             (auto simp: evaluate_locked_def)
      next
        case ok: None
        let ?st2 = "?st\<lparr>rs_breakers := reg\<rparr>"
        have "evaluate_context env ?st2 (risk_request env s) s intent (upper m) key ?now = (Inr out, st')"
          using run mode None r ok by (simp add: evaluate_locked_def)
        then show thesis
        proof (cases rule: evaluate_context_cases)
          case (rejected rule code why f)
          then show thesis by (intro that(1) [OF k _ rejected]) simp
        next
          case (decided snap c d)
          then show thesis using that(3) [OF k _ None, of ?st2] mode r ok by (simp add: risk_allowed_modes_def)
        qed
      qed
    qed
  qed
qed

lemma engine_evaluate_approved:
  assumes "engine_evaluate e now did aid q c = Inr d" "rd_decision d = APPROVED"
  shows "rules_loop q c (re_rules e) = None \<and> re_rules e \<noteq> [] \<and> d = approve_decision q did aid now (re_approval_ttl e) \<and> risk_decision_valid d"
  using assms
  by (auto simp: engine_evaluate_def mk_risk_decision_def reject_decision_def split: if_splits option.splits)

lemma finish_decision_out:
  assumes "finish_decision env st s intent mode key now sid d = (Inr out, st')"
  shows "ro_decision out = bind_approval key sid d" "ro_status out = (if rd_decision d = APPROVED then OUT_APPROVED else OUT_REJECTED)"
  using assms by (auto simp: finish_decision_def Let_def bind_approval_def split: prod.splits)

lemma finish_decision_returns: "\<exists>out st'. finish_decision env st s intent mode key now sid d = (Inr out, st')"
  by (simp add: finish_decision_def Let_def split_beta)

lemma built_context:
  assumes "build_context now s intent snap mode n = Inr c"
  shows "rsn_state_available snap \<and> is_stale snap now = Inr False \<and> risk_mode (rsn_trading_mode snap) = risk_mode mode \<and>
    rc_global_halt_active c = rsn_global_halt_active snap \<and> rc_trading_mode c = risk_mode mode \<and>
    (\<forall>i. mks_instrument_id (rsn_market snap) = Some i \<longrightarrow> i = ss_instrument_id s)"
  using assms by (auto simp: build_context_def Let_def result_simps split: option.splits)

lemma rule_engine_ttl: "mk_rule_engine rules ttl = Inr e \<Longrightarrow> re_approval_ttl e = ttl"
  by (auto simp: mk_rule_engine_def split: if_splits)

lemma halt_rule_blocks:
  assumes "mk_rule_engine rules ttl = Inr e" "rules_loop q c (re_rules e) = None" "re_rules e \<noteq> []"
  shows "\<not> rc_global_halt_active c"
proof -
  have "re_rules e = with_global_halt_first rules" using assms(1) by (auto simp: mk_rule_engine_def split: if_splits)
  then obtain rs where "re_rules e = GlobalHaltRule # rs" using halt_first [of rules] assms(3) by auto
  then show ?thesis using assms(2) by (auto simp: global_halt_rule_def split: if_splits)
qed

text \<open>C17.  The service is fail-closed: when a service whose engine was built from any rules answers APPROVED, the
  mode is BACKTEST or PAPER, no decision for the request is in the memory of the service (which a restart empties and whose oldest entries are
  evicted; the table is not consulted before the decision), no breaker refused, the provider returned an available and
  fresh snapshot with no halt, the context built from it is consistent and passes every
  rule, and the decision is an approval bound to this request and this snapshot that expires one lifetime after the
  evaluation.\<close>

theorem risk_approval_fail_closed:
  assumes "mk_rule_engine rules ttl = Inr (rs_engine st)"
    and "risk_evaluate env st s intent m = (Inr out, st')" "ro_status out = OUT_APPROVED"
  shows "upper m \<in> {''BACKTEST'', ''PAPER''} \<and>
    fst (scopes_check (rs_breaker_config st) (instant (rv_clock env 0)) (rs_breakers st) (risk_scopes s)) = None \<and>
    (\<exists>key snap c. compute_risk_identity_key (rv_py env) s intent (upper m) = Some key \<and> map_of (rs_decisions st) key = None \<and>
       rv_provider env (Option.bind intent rio_account_id) (ss_instrument_id s) (ss_strategy_id s) = Inr snap \<and>
       rsn_state_available snap \<and> is_stale snap (rv_clock env 1) = Inr False \<and> \<not> rsn_global_halt_active snap \<and>
       build_context (rv_clock env 1) s intent snap (upper m) (case map_of (rs_retries st) key of None \<Rightarrow> 0 | Some n \<Rightarrow> n) = Inr c \<and>
       context_problems c = [] \<and> rules_loop (risk_request env s) c (re_rules (rs_engine st)) = None \<and>
       rd_decision (ro_decision out) = APPROVED \<and> rd_binding_hash (ro_decision out) = Some key \<and>
       rd_snapshot_id (ro_decision out) = Some (rsn_snapshot_id snap) \<and>
       map_option instant (rd_expires_at (ro_decision out)) = Some (instant (rv_clock env 2) + ttl))"
  using assms(2)
proof (cases rule: risk_evaluate_cases)
  case (rejected key st0 rule code why)
  then show ?thesis using reject_early_out assms(3) by fastforce
next
  case (duplicate key prior)
  then show ?thesis using assms(3) by simp
next
  case (decided key st0 snap c d)
  note out = finish_decision_out [OF decided(11)]
  have d: "rd_decision d = APPROVED" using out(2) assms(3) by (auto split: if_splits)
  note e = engine_evaluate_approved [OF decided(10) d]
  note ttl = rule_engine_ttl [OF assms(1)]
  have "\<not> rsn_global_halt_active snap" using halt_rule_blocks [OF assms(1), of "risk_request env s" c] e built_context [OF decided(8)] by simp
  moreover have "rd_decision (ro_decision out) = APPROVED \<and> rd_binding_hash (ro_decision out) = Some key \<and>
      rd_snapshot_id (ro_decision out) = Some (rsn_snapshot_id snap) \<and>
      map_option instant (rd_expires_at (ro_decision out)) = Some (instant (rv_clock env 2) + ttl)"
    using out(1) d e ttl by (auto simp: bind_approval_def approve_decision_def)
  ultimately show ?thesis using decided(1-4,7-9) e built_context [OF decided(8)] by blast
qed

section \<open>Replay\<close>

lemma map_of_record_seen:
  assumes "0 < rs_capacity st"
  shows "map_of (rs_decisions (record_seen key d st)) key = Some d"
proof -
  let ?d = "move_to_end key (od_set key d (rs_decisions st))"
  obtain pre where pre: "?d = pre @ [(key, d)]" "key \<notin> fst ` set pre"
    by (auto simp: move_to_end_def od_pop_def)
  have "drop (length ?d - rs_capacity st) ?d = drop (length ?d - rs_capacity st) pre @ [(key, d)]"
    using assms by (auto simp: pre(1))
  moreover have "map_of (drop n pre) key = None" for n
    using pre(2) by (auto simp: map_of_eq_None_iff dest: in_set_dropD)
  ultimately show ?thesis
    by (simp add: record_seen_def split_beta evict_drop map_add_def)
qed

lemma risk_persist_decisions:
  "rs_decisions (snd (risk_persist env st d intent mode sid key)) = rs_decisions st"
  "rs_capacity (snd (risk_persist env st d intent mode sid key)) = rs_capacity st"
  by (auto simp: risk_persist_def split: option.split prod.split)

lemma reject_early_recorded:
  assumes "reject_early env st q intent mode key now rule code why = (Inr out, st')" "0 < rs_capacity st"
  shows "map_of (rs_decisions st') key = Some (ro_decision out)"
proof -
  obtain d where d: "finish_reject env (bump_risk (count_rejection rule) st) d intent mode key = (Inr out, st')"
    using assms(1) by (auto simp: reject_early_def split: sum.splits)
  then have "ro_decision out = d" "st' = snd (risk_persist env (record_seen key d (bump_risk (count_rejection rule) st)) d intent mode None key)"
    by (auto simp: finish_reject_def split: prod.splits)
  then show ?thesis using map_of_record_seen [of "bump_risk (count_rejection rule) st" key d] assms(2)
    by (simp add: risk_persist_decisions)
qed

lemma finish_decision_recorded:
  assumes "finish_decision env st s intent mode key now sid d = (Inr out, st')" "0 < rs_capacity st"
    and "ro_status out = OUT_APPROVED \<Longrightarrow> ro_persisted out \<or> rs_repository st = None"
  shows "map_of (rs_decisions st') key = Some (ro_decision out)"
proof -
  let ?d = "bind_approval key sid d"
  let ?st1 = "count_retry key (bump_risk (count_decision ?d) (record_outcomes ?d (instant now) (risk_scopes s) st))"
  obtain persisted rid st2 where p: "risk_persist env ?st1 ?d intent mode (Some sid) key = ((persisted, rid), st2)" by (metis prod.exhaust)
  have st1: "rs_capacity ?st1 = rs_capacity st" "rs_repository ?st1 = rs_repository st" by (simp_all add: count_retry_def record_outcomes_def)
  have none: "rs_repository st = None \<Longrightarrow> rs_repository st2 = None" using risk_persist_effect [OF p] st1 by (auto simp: risk_quiet_def)
  have cap: "0 < rs_capacity st2" using risk_persist_decisions(2) [of env ?st1 ?d intent mode "Some sid" key] assms(2) by (simp add: p st1)
  show ?thesis using assms(1,3) none map_of_record_seen [OF cap, of key ?d]
    by (auto simp: finish_decision_def Let_def p split: if_splits)
qed

lemma evaluated_usable:
  assumes "engine_evaluate e now0 did aid q c = Inr d" "rd_decision d = APPROVED" "tz_aware now"
    and "map_option instant (rd_expires_at d) = Some x" "instant now < x"
  shows "approval_is_usable (bind_approval key sid d) now (Some key) = Some True"
  using engine_evaluate_approved [OF assms(1,2)] assms(2-)
  by (auto simp: approval_is_usable_def bind_approval_def is_valid_approval_at_def approve_decision_def)

lemma rejected_or_usable_replays:
  assumes "compute_risk_identity_key (rv_py env) s intent (upper m) = Some key" "tz_aware (rv_clock env 0)" "upper m \<in> {''BACKTEST'', ''PAPER''}"
    and "map_of (rs_decisions st) key = Some prior"
    and "rd_decision prior = APPROVED \<Longrightarrow> approval_is_usable prior (rv_clock env 0) (Some key) = Some True"
  shows "\<exists>out st'. risk_evaluate env st s intent m = (Inr out, st') \<and> ro_status out = OUT_DUPLICATE \<and> ro_decision out = prior \<and>
    rs_published st' = rs_published st \<and> rs_repository st' = rs_repository st"
  using assms by (auto simp: risk_evaluate_def evaluate_locked_def Let_def risk_allowed_modes_def)

text \<open>A replay returns the first decision: when an evaluation was decided (and an approval could be committed, or no
  repository is wired), evaluating the same signal, intent and mode again, before the approval expires when it is one, answers
  DUPLICATE with the very same decision, and neither writes a row nor publishes anything.\<close>

theorem risk_replay_returns_prior:
  assumes "risk_evaluate env st s intent m = (Inr out, st1)" "0 < rs_capacity st" "ro_status out \<noteq> OUT_DUPLICATE"
    and "ro_status out = OUT_APPROVED \<longrightarrow> ro_persisted out \<or> rs_repository st = None"
    and "upper m \<in> {''BACKTEST'', ''PAPER''}" "rv_py env2 = rv_py env" "tz_aware (rv_clock env2 0)"
    and "\<forall>t. rd_expires_at (ro_decision out) = Some t \<longrightarrow> instant (rv_clock env2 0) < instant t"
  shows "\<exists>out2 st2. risk_evaluate env2 st1 s intent m = (Inr out2, st2) \<and> ro_status out2 = OUT_DUPLICATE \<and>
    ro_decision out2 = ro_decision out \<and> rs_published st2 = rs_published st1 \<and> rs_repository st2 = rs_repository st1"
  using assms(1)
proof (cases rule: risk_evaluate_cases)
  case (rejected key st0 rule code why)
  then show ?thesis using reject_early_out [OF rejected(3)] reject_early_recorded [OF rejected(3)] assms(2,5-7)
    by (intro rejected_or_usable_replays [of env2 s intent m key]) auto
next
  case (duplicate key prior)
  then show ?thesis using assms(3) by simp
next
  case (decided key st0 snap c d)
  note out = finish_decision_out [OF decided(11)]
  have rec: "map_of (rs_decisions st1) key = Some (ro_decision out)"
    using finish_decision_recorded [OF decided(11)] decided(5,6) assms(2,4) by simp
  have "approval_is_usable (ro_decision out) (rv_clock env2 0) (Some key) = Some True" if a: "rd_decision (ro_decision out) = APPROVED"
  proof -
    have d: "rd_decision d = APPROVED" using a out(1) by (auto simp: bind_approval_def split: if_splits)
    obtain t where t: "rd_expires_at d = Some t"
      using engine_evaluate_approved [OF decided(10) d] by (simp add: approve_decision_def)
    show ?thesis using evaluated_usable [OF decided(10) d assms(7), of "instant t"] t assms(8) d by (simp add: out(1) bind_approval_def)
  qed
  then show ?thesis using rec decided(1) assms(5-7) by (intro rejected_or_usable_replays [of env2 s intent m key]) auto
qed

section \<open>Sample run\<close>

definition sample_risk_py :: py_env where
  "sample_risk_py = \<lparr>py_sha256 = (\<lambda>_. ''k''), py_digest = (\<lambda>_. ''risk''), py_fromisoformat = (\<lambda>_. None), py_json = (\<lambda>_. [])\<rparr>"

definition sample_snapshot :: risk_snapshot where
  "sample_snapshot = (unavailable_snapshot 51 (utc 9))\<lparr>rsn_state_available := True, rsn_global_halt_active := False\<rparr>"

definition sample_risk_intent :: risk_order_intent where
  "sample_risk_intent = \<lparr>rio_quantity = Some (Dec 10 0), rio_account_id = Some 3, rio_order_type = ''MARKET'', rio_metadata = Map.empty\<rparr>"

definition sample_risk_env :: "uuid \<Rightarrow> risk_env" where
  "sample_risk_env u = \<lparr>rv_py = sample_risk_py, rv_clock = (\<lambda>_. utc 10), rv_request_id = u, rv_decision_id = u, rv_approval_id = u, rv_record_id = u,
     rv_provider = (\<lambda>_ _ _. Inr sample_snapshot), rv_refs_ok = (\<lambda>_. True), rv_db_fail = (\<lambda>_. False), rv_race = []\<rparr>"

definition sample_risk :: risk_service where
  "sample_risk = \<lparr>rs_engine = \<lparr>re_rules = [GlobalHaltRule], re_approval_ttl = usec 30\<rparr>, rs_breaker_config = sample_breaker_config,
     rs_breakers = Map.empty, rs_decisions = [], rs_retries = [], rs_capacity = 8, rs_repository = Some [],
     rs_metrics = \<lparr>rx_evaluations = 0, rx_approvals = 0, rx_rejections = 0, rx_duplicates = 0, rx_persistence_failures = 0,
       rx_stale_data_rejections = 0, rx_circuit_breaker_trips = 0, rx_global_halt_rejections = 0, rx_context_unavailable = 0,
       rx_errors = 0, rx_by_rule = (\<lambda>_. 0)\<rparr>,
     rs_published = []\<rparr>"

lemma sample_risk_env_simps [simp]:
  "rv_py (sample_risk_env u) = sample_risk_py" "rv_clock (sample_risk_env u) = (\<lambda>_. utc 10)" "rv_request_id (sample_risk_env u) = u"
  "rv_decision_id (sample_risk_env u) = u" "rv_approval_id (sample_risk_env u) = u" "rv_record_id (sample_risk_env u) = u"
  "rv_provider (sample_risk_env u) = (\<lambda>_ _ _. Inr sample_snapshot)" "rv_refs_ok (sample_risk_env u) = (\<lambda>_. True)"
  "rv_db_fail (sample_risk_env u) = (\<lambda>_. False)" "rv_race (sample_risk_env u) = []"
  by (simp_all add: sample_risk_env_def)

lemma sample_risk_key [simp]: "compute_risk_identity_key sample_risk_py sample_signal intent m = Some ''risk''"
  by (simp add: compute_risk_identity_key_def compute_signal_identity_key_def event_timestamp_def sample_risk_py_def)

lemma sample_build:
  obtains c where "build_context (utc 10) sample_signal (Some sample_risk_intent) sample_snapshot ''PAPER'' n = Inr c" "context_problems c = []"
    "\<not> rc_global_halt_active c"
proof -
  obtain c where c: "build_context (utc 10) sample_signal (Some sample_risk_intent) sample_snapshot ''PAPER'' n = Inr c"
    "rc_order_quantity c = Some (Dec 10 0)" "rc_equity_value c = None" "rc_high_water_mark c = None" "rc_current_price c = None"
    "rc_reference_price c = None" "rc_reserved_quantity c = None" "rc_open_order_quantity c = None" "\<not> rc_global_halt_active c"
    by (simp add: build_context_def sample_snapshot_def unavailable_snapshot_def is_stale_def no_account_def no_market_def no_positions_def
        order_quantity_def sample_risk_intent_def Let_def)
  then have "context_problems c = []"
    by (simp add: context_problems_def negative_def decimal_order dval_small zero_decimal_def)
  with c that show thesis by blast
qed

lemma sample_engine_approves:
  assumes "\<not> rc_global_halt_active c" "re_rules e = [GlobalHaltRule]" "re_approval_ttl e = usec 30"
  shows "engine_evaluate e (utc 10) did aid q c = Inr (approve_decision q did aid (utc 10) (usec 30))"
proof -
  have "risk_decision_valid (approve_decision q did aid (utc 10) (usec 30))"
    by (simp add: risk_decision_valid_def approve_decision_def blank_Cons is_space_def usec_def utc_def tz_aware_def)
  then show ?thesis using assms by (simp add: engine_evaluate_def global_halt_rule_def mk_risk_decision_def)
qed

lemma sample_scopes: "fst (scopes_check cfg now Map.empty (risk_scopes s)) = None"
  by (simp add: risk_scopes_def registry_allows_def scope_breaker_def breaker_allows_def breaker_prune_def new_breaker_def Let_def)

text \<open>With the sample engine, snapshot and request the evaluation reaches the decision step, whatever the database does.\<close>

lemma sample_decides:
  assumes "rs_engine st = rs_engine sample_risk" "rs_breakers st = Map.empty" "rs_decisions st = []"
    and env: "rv_py env = sample_risk_py" "rv_clock env = (\<lambda>_. utc 10)" "rv_provider env = (\<lambda>_ _ _. Inr sample_snapshot)"
  obtains st0 d where "risk_evaluate env st sample_signal (Some sample_risk_intent) ''PAPER'' =
      finish_decision env st0 sample_signal (Some sample_risk_intent) ''PAPER'' ''risk'' (utc 10) (rsn_snapshot_id sample_snapshot) d"
    "rd_decision d = APPROVED" "rd_expires_at d = Some (utc (10 + usec 30))" "rd_approval_id d = Some (rv_approval_id env)"
    "rs_repository st0 = rs_repository st" "rs_published st0 = rs_published st"
proof -
  let ?q = "risk_request env sample_signal"
  obtain c where c: "build_context (utc 10) sample_signal (Some sample_risk_intent) sample_snapshot ''PAPER''
      (case map_of (rs_retries st) ''risk'' of None \<Rightarrow> 0 | Some n \<Rightarrow> n) = Inr c" "context_problems c = []" "\<not> rc_global_halt_active c"
    by (rule sample_build)
  define d where "d = approve_decision ?q (rv_decision_id env) (rv_approval_id env) (utc 10) (usec 30)"
  have e: "engine_evaluate (rs_engine st) (utc 10) (rv_decision_id env) (rv_approval_id env) ?q c = Inr d"
    using sample_engine_approves [OF c(3), of "rs_engine st"] assms(1) by (simp add: d_def sample_risk_def)
  obtain reg where reg: "scopes_check (rs_breaker_config st) 10 (rs_breakers st) (risk_scopes sample_signal) = (None, reg)"
    using sample_scopes [of "rs_breaker_config st" 10 sample_signal] assms(2)
    by (cases "scopes_check (rs_breaker_config st) 10 (rs_breakers st) (risk_scopes sample_signal)") simp
  define st0 where "st0 = (bump_risk (\<lambda>m. m\<lparr>rx_evaluations := rx_evaluations m + 1\<rparr>) st)\<lparr>rs_breakers := reg\<rparr>"
  show thesis
  proof (rule that [of st0 d])
    show "risk_evaluate env st sample_signal (Some sample_risk_intent) ''PAPER'' =
        finish_decision env st0 sample_signal (Some sample_risk_intent) ''PAPER'' ''risk'' (utc 10) (rsn_snapshot_id sample_snapshot) d"
      using c e reg assms(3)
      by (simp add: risk_evaluate_def evaluate_locked_def evaluate_context_def risk_allowed_modes_def st0_def Let_def env)
  qed (simp_all add: d_def approve_decision_def utc_def st0_def)
qed

lemma sample_step:
  assumes "rs_engine st = rs_engine sample_risk" "rs_breakers st = Map.empty" "rs_decisions st = []" "rs_repository st = Some []"
  obtains out st' where "risk_evaluate (sample_risk_env u) st sample_signal (Some sample_risk_intent) ''PAPER'' = (Inr out, st')"
    "ro_status out = OUT_APPROVED" "ro_persisted out" "rd_expires_at (ro_decision out) = Some (utc (10 + usec 30))"
    "rd_decision (ro_decision out) = APPROVED" "rd_approval_id (ro_decision out) = Some u"
    "rs_published st' = rs_published st @ [ro_decision out]" "rd_binding_hash (ro_decision out) = Some ''risk''"
proof -
  obtain st0 d where run: "risk_evaluate (sample_risk_env u) st sample_signal (Some sample_risk_intent) ''PAPER'' =
      finish_decision (sample_risk_env u) st0 sample_signal (Some sample_risk_intent) ''PAPER'' ''risk'' (utc 10) (rsn_snapshot_id sample_snapshot) d"
    and d: "rd_decision d = APPROVED" "rd_expires_at d = Some (utc (10 + usec 30))" "rd_approval_id d = Some u"
      "rs_repository st0 = rs_repository st" "rs_published st0 = rs_published st"
    by (rule sample_decides [OF assms(1-3), of "sample_risk_env u"]) simp_all
  obtain out st' where fin: "finish_decision (sample_risk_env u) st0 sample_signal (Some sample_risk_intent) ''PAPER'' ''risk'' (utc 10)
      (rsn_snapshot_id sample_snapshot) d = (Inr out, st')" using finish_decision_returns by blast
  have "ro_persisted out \<and> rs_published st' = rs_published st @ [ro_decision out]"
    using fin assms(4) d
    by (auto simp: finish_decision_def Let_def bind_approval_def risk_persist_def count_retry_def record_outcomes_def persist_risk_event_def
        find_or_insert_def insert_row_def split: prod.splits)
  then show thesis using finish_decision_out [OF fin] d by (intro that [OF trans [OF run fin]]) (auto simp: bind_approval_def)
qed

lemma sample_risk_simps [simp]:
  "rs_breakers sample_risk = Map.empty" "rs_decisions sample_risk = []" "rs_capacity sample_risk = 8" "rs_repository sample_risk = Some []"
  "rs_published sample_risk = []"
  by (simp_all add: sample_risk_def)

theorem risk_approval_published_once_witness:
  "\<exists>d. rs_published (foldl risk_step sample_risk [Risk_Evaluate (sample_risk_env 1) sample_signal (Some sample_risk_intent) ''PAPER'']) = [d] \<and>
    (\<exists>r\<in>set (risk_table (foldl risk_step sample_risk [Risk_Evaluate (sample_risk_env 1) sample_signal (Some sample_risk_intent) ''PAPER''])).
       rw_approval_id r = map_option uuid_str (rd_approval_id d))"
proof -
  let ?calls = "[Risk_Evaluate (sample_risk_env 1) sample_signal (Some sample_risk_intent) ''PAPER'']"
  obtain out st' where run: "risk_evaluate (sample_risk_env 1) sample_risk sample_signal (Some sample_risk_intent) ''PAPER'' = (Inr out, st')"
    "rs_published st' = [ro_decision out]" by (rule sample_step [of sample_risk 1]) auto
  then have one: "rs_published (foldl risk_step sample_risk ?calls) = [ro_decision out]" by simp
  then obtain r c where "r \<in> set (risk_table (foldl risk_step sample_risk ?calls))" "approval_of_call (ro_decision out) r c"
    using risk_approval_published_once [of sample_risk "[]" ?calls] by auto
  then show ?thesis using one by (auto simp: approval_of_call_def durable_approval_def)
qed

theorem risk_approval_fail_closed_witness:
  "\<exists>out st'. risk_evaluate (sample_risk_env 1) sample_risk sample_signal (Some sample_risk_intent) ''PAPER'' = (Inr out, st') \<and>
     rd_binding_hash (ro_decision out) = Some ''risk''"
proof -
  obtain out st' where run: "risk_evaluate (sample_risk_env 1) sample_risk sample_signal (Some sample_risk_intent) ''PAPER'' = (Inr out, st')"
    "ro_status out = OUT_APPROVED" by (rule sample_step [of sample_risk 1]) auto
  have "mk_rule_engine (Some [GlobalHaltRule]) (usec 30) = Inr (rs_engine sample_risk)"
    by (simp add: mk_rule_engine_def with_global_halt_first_def usec_def sample_risk_def)
  from risk_approval_fail_closed [OF this run] run show ?thesis by auto
qed

theorem risk_replay_returns_prior_witness:
  "\<exists>out st1 out2 st2. risk_evaluate (sample_risk_env 1) sample_risk sample_signal (Some sample_risk_intent) ''PAPER'' = (Inr out, st1) \<and>
     risk_evaluate (sample_risk_env 2) st1 sample_signal (Some sample_risk_intent) ''PAPER'' = (Inr out2, st2) \<and>
     ro_status out2 = OUT_DUPLICATE \<and> ro_decision out2 = ro_decision out"
proof -
  obtain out st1 where run: "risk_evaluate (sample_risk_env 1) sample_risk sample_signal (Some sample_risk_intent) ''PAPER'' = (Inr out, st1)"
    "ro_status out = OUT_APPROVED" "ro_persisted out" "rd_expires_at (ro_decision out) = Some (utc (10 + usec 30))"
    by (rule sample_step [of sample_risk 1]) auto
  then have "\<exists>out2 st2. risk_evaluate (sample_risk_env 2) st1 sample_signal (Some sample_risk_intent) ''PAPER'' = (Inr out2, st2) \<and>
      ro_status out2 = OUT_DUPLICATE \<and> ro_decision out2 = ro_decision out \<and> rs_published st2 = rs_published st1 \<and> rs_repository st2 = rs_repository st1"
    by (intro risk_replay_returns_prior [OF run(1)]) (simp_all add: usec_def)
  with run(1) show ?thesis by blast
qed

end
