(* ===== verification/Signal_Engine.thy ===== *)
theory Signal_Engine
  imports Signal_Contract
begin

text \<open>
  The signal engine (\<^verbatim>\<open>services/signal_engine/alpha_algo_signal_engine\<close>): the signal state machine, ingestion
  validation against the strategy directory, the in-memory idempotency cache, transactional persistence under the unique
  constraints of the \<^verbatim>\<open>signals\<close> table, and the engine that composes them and publishes accepted signals.

  A call takes its surroundings as \<open>signal_env\<close>: the successive clock readings, the fresh row id, which of the
  three database accesses fail, and the rows that other processes commit between the lookup and the
  insert.  Consumer faults are isolated by the code, so publication is the log of records handed to
  \<^verbatim>\<open>_fan_out\<close>.  Latencies are dropped.
\<close>

section \<open>The state machine\<close>

datatype signal_state =
    SIG_RECEIVED | SIG_VALIDATED | SIG_ACCEPTED | SIG_PERSISTED | SIG_REJECTED | SIG_DUPLICATE | SIG_CONFLICT | SIG_EXPIRED

fun signal_state_value :: "signal_state \<Rightarrow> string" where
  "signal_state_value SIG_RECEIVED = ''received''"
| "signal_state_value SIG_VALIDATED = ''validated''"
| "signal_state_value SIG_ACCEPTED = ''accepted''"
| "signal_state_value SIG_PERSISTED = ''persisted''"
| "signal_state_value SIG_REJECTED = ''rejected''"
| "signal_state_value SIG_DUPLICATE = ''duplicate''"
| "signal_state_value SIG_CONFLICT = ''conflict''"
| "signal_state_value SIG_EXPIRED = ''expired''"

fun signal_transitions :: "signal_state \<Rightarrow> signal_state list" where
  "signal_transitions SIG_RECEIVED = [SIG_VALIDATED, SIG_REJECTED, SIG_EXPIRED]"
| "signal_transitions SIG_VALIDATED = [SIG_ACCEPTED, SIG_REJECTED, SIG_DUPLICATE, SIG_CONFLICT, SIG_EXPIRED]"
| "signal_transitions SIG_ACCEPTED = [SIG_PERSISTED, SIG_DUPLICATE, SIG_CONFLICT]"
| "signal_transitions _ = []"

definition terminal_signal_states :: "signal_state list" where
  "terminal_signal_states = [SIG_PERSISTED, SIG_REJECTED, SIG_DUPLICATE, SIG_CONFLICT, SIG_EXPIRED]"

datatype signal_error =
    SignalTradingModeError string
  | SignalRejectedError string
  | SignalRuntimeError string
  | SignalFault

definition signal_transition :: "signal_state \<Rightarrow> signal_state \<Rightarrow> (signal_error, signal_state) result" where
  "signal_transition m new =
     (if new \<in> set (signal_transitions m) then Inr new
      else Inl (SignalRuntimeError (''illegal signal transition: '' @ signal_state_value m @ '' -> '' @ signal_state_value new)))"

fun signal_rank :: "signal_state \<Rightarrow> nat" where
  "signal_rank SIG_RECEIVED = 3"
| "signal_rank SIG_VALIDATED = 2"
| "signal_rank SIG_ACCEPTED = 1"
| "signal_rank _ = 0"

interpretation signal_machine: terminating_table signal_transitions terminal_signal_states signal_rank
proof unfold_locales
  fix s :: signal_state
  show "s \<in> set terminal_signal_states \<longleftrightarrow> signal_transitions s = []"
    by (cases s) (simp_all add: terminal_signal_states_def)
  show "signal_transitions s \<noteq> [] \<Longrightarrow> \<exists>t\<in>set (signal_transitions s). signal_rank t < signal_rank s"
    by (cases s) simp_all
qed

section \<open>Validation\<close>

record strategy_record =
  sd_strategy_id :: uuid
  sd_version :: string
  sd_config_hash :: string
  sd_code_hash :: "string option"
  sd_enabled :: bool
  sd_instruments :: "uuid list option"

type_synonym strategy_directory = "uuid \<Rightarrow> strategy_record option"

record signal_validator =
  vd_directory :: strategy_directory
  vd_allowed_modes :: "string list"
  vd_future_skew :: int

definition new_validator :: "strategy_directory \<Rightarrow> signal_validator" where
  "new_validator d = \<lparr>vd_directory = d, vd_allowed_modes = [''BACKTEST'', ''PAPER''], vd_future_skew = usec 5\<rparr>"

text \<open>The two checks against the future; each reads the clock, and a naive value compared with an aware one is a fault.\<close>

definition not_future :: "datetime \<Rightarrow> datetime \<Rightarrow> int \<Rightarrow> (signal_error, unit) result" where
  "not_future t now skew =
     (case datetime_gt t (plus_delta now skew) of
        None \<Rightarrow> Inl SignalFault
      | Some future \<Rightarrow> guard (\<not> future) (SignalRejectedError ''future_timestamp''))"

definition validate_signal ::
  "py_env \<Rightarrow> (nat \<Rightarrow> datetime) \<Rightarrow> signal_validator \<Rightarrow> strategy_signal \<Rightarrow> string \<Rightarrow> (signal_error, string option) result" where
  "validate_signal py clock v s trading_mode =
     rbind (guard (upper trading_mode \<in> set (vd_allowed_modes v))
              (SignalTradingModeError (''trading mode not allowed: '' @ upper trading_mode))) (\<lambda>_.
     rbind (of_opt (SignalRejectedError ''unknown_strategy'') (vd_directory v (ss_strategy_id s))) (\<lambda>r.
     rbind (guard (sd_enabled r) (SignalRejectedError ''disabled_strategy'')) (\<lambda>_.
     rbind (guard (ss_strategy_version s = sd_version r) (SignalRejectedError ''strategy_version_mismatch'')) (\<lambda>_.
     rbind (guard (ss_strategy_config_hash s = sd_config_hash r) (SignalRejectedError ''config_hash_mismatch'')) (\<lambda>_.
     rbind (guard (ss_metadata s ''event_timestamp'' \<noteq> None) (SignalRejectedError ''missing_traceability'')) (\<lambda>_.
     rbind (guard (sd_code_hash r = None \<or> code_hash_from s = sd_code_hash r)
              (SignalRejectedError ''code_hash_mismatch'')) (\<lambda>_.
     rbind (guard (case sd_instruments r of None \<Rightarrow> True | Some is \<Rightarrow> ss_instrument_id s \<in> set is)
              (SignalRejectedError ''invalid_instrument'')) (\<lambda>_.
     rbind (guard (0 \<le> ss_confidence s \<and> ss_confidence s \<le> 1) (SignalRejectedError ''invalid_confidence'')) (\<lambda>_.
     rbind (guard (tz_aware (ss_timestamp s)) (SignalRejectedError ''invalid_timestamp'')) (\<lambda>_.
     rbind (not_future (ss_timestamp s) (clock 0) (vd_future_skew v)) (\<lambda>_.
     rbind (of_opt SignalFault (event_timestamp py s)) (\<lambda>t.
     rbind (not_future t (clock 1) (vd_future_skew v)) (\<lambda>_.
     Inr (code_hash_from s))))))))))))))"

section \<open>The idempotency cache\<close>

datatype signal_outcome = SIG_NEW | SIG_SAME | SIG_DIFFERENT

record signal_idempotency =
  sc_maxsize :: nat
  sc_seen :: "(string, string) odict"

definition new_idempotency :: "nat \<Rightarrow> (signal_error, signal_idempotency) result" where
  "new_idempotency maxsize = (if maxsize < 1 then Inl SignalFault else Inr \<lparr>sc_maxsize = maxsize, sc_seen = []\<rparr>)"

definition cache_check :: "signal_idempotency \<Rightarrow> string \<Rightarrow> string \<Rightarrow> signal_outcome \<times> signal_idempotency" where
  "cache_check c k h =
     (case map_of (sc_seen c) k of
        None \<Rightarrow> (SIG_NEW, c)
      | Some existing \<Rightarrow>
          (if existing = h then SIG_SAME else SIG_DIFFERENT, c\<lparr>sc_seen := move_to_end k (sc_seen c)\<rparr>))"

definition cache_record :: "signal_idempotency \<Rightarrow> string \<Rightarrow> string \<Rightarrow> signal_idempotency" where
  "cache_record c k h =
     (let d = move_to_end k (od_set k h (sc_seen c)) in
      c\<lparr>sc_seen := if sc_maxsize c < length d then tl d else d\<rparr>)"

section \<open>Persistence\<close>

record signal_row =
  sw_id :: uuid
  sw_signal_id :: uuid
  sw_identity_key :: string
  sw_content_hash :: string
  sw_strategy_id :: uuid
  sw_strategy_version :: string
  sw_config_hash :: string
  sw_code_hash :: "string option"
  sw_run_id :: "uuid option"
  sw_instrument_id :: uuid
  sw_signal_timestamp :: datetime
  sw_action :: string
  sw_confidence :: decimal
  sw_reason :: string
  sw_metadata :: metadata
  sw_state :: string
  sw_processed_at :: datetime

text \<open>The primary key and the two unique constraints of the table.\<close>

definition signal_clash :: "signal_row \<Rightarrow> signal_row \<Rightarrow> bool" where
  "signal_clash q r \<longleftrightarrow> sw_id q = sw_id r \<or> sw_signal_id q = sw_signal_id r \<or> sw_identity_key q = sw_identity_key r"

definition to_orm_signal :: "uuid \<Rightarrow> strategy_signal \<Rightarrow> string \<Rightarrow> string \<Rightarrow> string \<Rightarrow> datetime \<Rightarrow> signal_row" where
  "to_orm_signal rid s key content state processed_at =
     \<lparr>sw_id = rid, sw_signal_id = ss_signal_id s, sw_identity_key = key, sw_content_hash = content,
      sw_strategy_id = ss_strategy_id s, sw_strategy_version = ss_strategy_version s,
      sw_config_hash = ss_strategy_config_hash s, sw_code_hash = code_hash_from s, sw_run_id = parse_run_id s,
      sw_instrument_id = ss_instrument_id s, sw_signal_timestamp = ss_timestamp s, sw_action = action_value (ss_action s),
      sw_confidence = ss_confidence s, sw_reason = ss_reason s, sw_metadata = ss_metadata s, sw_state = state,
      sw_processed_at = processed_at\<rparr>"

definition find_by_identity :: "signal_row list \<Rightarrow> string \<Rightarrow> signal_row option" where
  "find_by_identity t k = first_row (\<lambda>r. sw_identity_key r = k) t"

datatype persist_outcome = SIG_INSERTED | SIG_STORED_SAME | SIG_STORED_DIFFERENT

record signal_env =
  sv_py :: py_env
  sv_clock :: "nat \<Rightarrow> datetime"
  sv_uuid4 :: uuid
  sv_refs_ok :: "signal_row \<Rightarrow> bool"
  sv_db_fail :: "nat \<Rightarrow> bool"
  sv_race :: "signal_row list"

definition compare_stored :: "signal_row \<Rightarrow> signal_row \<Rightarrow> persist_outcome" where
  "compare_stored existing r = (if sw_content_hash existing = sw_content_hash r then SIG_STORED_SAME else SIG_STORED_DIFFERENT)"

definition persist_signal ::
  "signal_env \<Rightarrow> signal_row list \<Rightarrow> signal_row \<Rightarrow> (signal_error, persist_outcome) result \<times> signal_row list" where
  "persist_signal env t r =
     (if sv_db_fail env 0 then (Inl SignalFault, t)
      else case find_by_identity t (sw_identity_key r) of
        Some existing \<Rightarrow> (Inr (compare_stored existing r), t)
      | None \<Rightarrow>
          let t' = commit_others signal_clash (sv_refs_ok env) t (sv_race env) in
          if sv_db_fail env 1 then (Inl SignalFault, t')
          else case insert_row signal_clash (sv_refs_ok env) t' r of
            Some t'' \<Rightarrow> (Inr SIG_INSERTED, t'')
          | None \<Rightarrow>
              if sv_db_fail env 2 then (Inl SignalFault, t')
              else case find_by_identity t' (sw_identity_key r) of
                None \<Rightarrow> (Inl SignalFault, t')
              | Some existing \<Rightarrow> (Inr (compare_stored existing r), t'))"

section \<open>The engine\<close>

record signal_metrics =
  sx_received :: int
  sx_accepted :: int
  sx_rejected :: int
  sx_duplicate :: int
  sx_conflict :: int
  sx_expired :: int
  sx_persisted :: int
  sx_persistence_failures :: int
  sx_per_strategy :: "string \<Rightarrow> int"
  sx_per_instrument :: "string \<Rightarrow> int"

record signal_record =
  sq_signal :: strategy_signal
  sq_record_id :: uuid
  sq_identity_key :: string
  sq_state :: signal_state

record signal_ingest_result =
  sgr_state :: signal_state
  sgr_persisted :: bool
  sgr_reason :: string
  sgr_signal_id :: "uuid option"
  sgr_identity_key :: "string option"
  sgr_record_id :: "uuid option"

record signal_engine =
  sg_validator :: signal_validator
  sg_idempotency :: signal_idempotency
  sg_max_signal_age :: "int option"
  sg_metrics :: signal_metrics
  sg_table :: "signal_row list"
  sg_published :: "signal_record list"

definition set_directory :: "strategy_directory \<Rightarrow> signal_engine \<Rightarrow> signal_engine" where
  "set_directory d e = e\<lparr>sg_validator := new_validator d\<rparr>"

abbreviation bump_signal :: "(signal_metrics \<Rightarrow> signal_metrics) \<Rightarrow> signal_engine \<Rightarrow> signal_engine" where
  "bump_signal f e \<equiv> e\<lparr>sg_metrics := f (sg_metrics e)\<rparr>"

definition count_received :: "strategy_signal \<Rightarrow> signal_metrics \<Rightarrow> signal_metrics" where
  "count_received s m =
     m\<lparr>sx_received := sx_received m + 1,
       sx_per_strategy := (sx_per_strategy m)(uuid_str (ss_strategy_id s) := sx_per_strategy m (uuid_str (ss_strategy_id s)) + 1),
       sx_per_instrument := (sx_per_instrument m)(uuid_str (ss_instrument_id s) := sx_per_instrument m (uuid_str (ss_instrument_id s)) + 1)\<rparr>"

definition ingest_result :: "signal_state \<Rightarrow> string \<Rightarrow> strategy_signal \<Rightarrow> string option \<Rightarrow> signal_ingest_result" where
  "ingest_result st why s key =
     \<lparr>sgr_state = st, sgr_persisted = False, sgr_reason = why, sgr_signal_id = Some (ss_signal_id s), sgr_identity_key = key,
      sgr_record_id = None\<rparr>"

text \<open>A transition of the per-call machine, which raises out of \<^verbatim>\<open>ingest\<close> when it is illegal.\<close>

definition moving ::
  "signal_state \<Rightarrow> signal_state \<Rightarrow> signal_engine \<Rightarrow> ((signal_error, 'a) result \<times> signal_engine)
   \<Rightarrow> (signal_error, 'a) result \<times> signal_engine" where
  "moving m new e next = (case signal_transition m new of Inl err \<Rightarrow> (Inl err, e) | Inr _ \<Rightarrow> next)"

text \<open>Step 4: insert, then record the identity and publish.\<close>

definition ingest_persist ::
  "signal_env \<Rightarrow> signal_engine \<Rightarrow> strategy_signal \<Rightarrow> string \<Rightarrow> string
   \<Rightarrow> (signal_error, signal_ingest_result) result \<times> signal_engine" where
  "ingest_persist env e s key content =
     (let r = to_orm_signal (sv_uuid4 env) s key content (signal_state_value SIG_PERSISTED) (sv_clock env 3) in
      case persist_signal env (sg_table e) r of
        (Inl _, t) \<Rightarrow>
          (Inr (ingest_result SIG_ACCEPTED ''persistence_failure'' s (Some key)),
           bump_signal (\<lambda>m. m\<lparr>sx_persistence_failures := sx_persistence_failures m + 1\<rparr>) (e\<lparr>sg_table := t\<rparr>))
      | (Inr SIG_INSERTED, t) \<Rightarrow>
          moving SIG_ACCEPTED SIG_PERSISTED (e\<lparr>sg_table := t\<rparr>)
            (Inr ((ingest_result SIG_PERSISTED [] s (Some key))\<lparr>sgr_persisted := True, sgr_record_id := Some (sv_uuid4 env)\<rparr>),
             bump_signal (\<lambda>m. m\<lparr>sx_persisted := sx_persisted m + 1, sx_accepted := sx_accepted m + 1\<rparr>)
               (e\<lparr>sg_table := t, sg_idempotency := cache_record (sg_idempotency e) key content,
                  sg_published := sg_published e @
                    [\<lparr>sq_signal = s, sq_record_id = sv_uuid4 env, sq_identity_key = key, sq_state = SIG_PERSISTED\<rparr>]\<rparr>))
      | (Inr SIG_STORED_SAME, t) \<Rightarrow>
          moving SIG_ACCEPTED SIG_DUPLICATE (e\<lparr>sg_table := t\<rparr>)
            (Inr (ingest_result SIG_DUPLICATE ''duplicate'' s (Some key)),
             bump_signal (\<lambda>m. m\<lparr>sx_duplicate := sx_duplicate m + 1\<rparr>)
               (e\<lparr>sg_table := t, sg_idempotency := cache_record (sg_idempotency e) key content\<rparr>))
      | (Inr SIG_STORED_DIFFERENT, t) \<Rightarrow>
          moving SIG_ACCEPTED SIG_CONFLICT (e\<lparr>sg_table := t\<rparr>)
            (Inr (ingest_result SIG_CONFLICT ''conflict'' s (Some key)),
             bump_signal (\<lambda>m. m\<lparr>sx_conflict := sx_conflict m + 1\<rparr>) (e\<lparr>sg_table := t\<rparr>)))"

text \<open>Step 3: the cache in front of the table.\<close>

definition ingest_check ::
  "signal_env \<Rightarrow> signal_engine \<Rightarrow> strategy_signal \<Rightarrow> string \<Rightarrow> string
   \<Rightarrow> (signal_error, signal_ingest_result) result \<times> signal_engine" where
  "ingest_check env e s key content =
     (let (seen, c) = cache_check (sg_idempotency e) key content; e' = e\<lparr>sg_idempotency := c\<rparr> in
      case seen of
        SIG_SAME \<Rightarrow>
          moving SIG_VALIDATED SIG_DUPLICATE e'
            (Inr (ingest_result SIG_DUPLICATE ''duplicate'' s (Some key)),
             bump_signal (\<lambda>m. m\<lparr>sx_duplicate := sx_duplicate m + 1\<rparr>) e')
      | SIG_DIFFERENT \<Rightarrow>
          moving SIG_VALIDATED SIG_CONFLICT e'
            (Inr (ingest_result SIG_CONFLICT ''conflict'' s (Some key)),
             bump_signal (\<lambda>m. m\<lparr>sx_conflict := sx_conflict m + 1\<rparr>) e')
      | SIG_NEW \<Rightarrow> moving SIG_VALIDATED SIG_ACCEPTED e' (ingest_persist env e' s key content))"

definition too_old :: "signal_env \<Rightarrow> signal_engine \<Rightarrow> datetime \<Rightarrow> bool option" where
  "too_old env e t =
     (case sg_max_signal_age e of
        None \<Rightarrow> Some False
      | Some age \<Rightarrow> map_option (\<lambda>d. age < d) (datetime_diff (sv_clock env 2) t))"

definition ingest :: "signal_env \<Rightarrow> signal_engine \<Rightarrow> strategy_signal \<Rightarrow> string
   \<Rightarrow> (signal_error, signal_ingest_result) result \<times> signal_engine" where
  "ingest env e0 s trading_mode =
     (let e = bump_signal (count_received s) e0 in
      case validate_signal (sv_py env) (sv_clock env) (sg_validator e) s trading_mode of
        Inl (SignalRejectedError why) \<Rightarrow>
          moving SIG_RECEIVED SIG_REJECTED e
            (Inr (ingest_result SIG_REJECTED why s None),
             bump_signal (\<lambda>m. m\<lparr>sx_rejected := sx_rejected m + 1\<rparr>) e)
      | Inl err \<Rightarrow> (Inl err, e)
      | Inr _ \<Rightarrow>
          moving SIG_RECEIVED SIG_VALIDATED e
            (case (event_timestamp (sv_py env) s, compute_signal_identity_key (sv_py env) s, compute_signal_content_hash (sv_py env) s) of
               (Some t, Some key, Some content) \<Rightarrow>
                 (case too_old env e t of
                    None \<Rightarrow> (Inl SignalFault, e)
                  | Some True \<Rightarrow>
                      moving SIG_VALIDATED SIG_EXPIRED e
                        (Inr (ingest_result SIG_EXPIRED ''expired'' s (Some key)),
                         bump_signal (\<lambda>m. m\<lparr>sx_expired := sx_expired m + 1\<rparr>) e)
                  | Some False \<Rightarrow> ingest_check env e s key content)
             | _ \<Rightarrow> (Inl SignalFault, e)))"

definition ingest_isolated :: "signal_env \<Rightarrow> signal_engine \<Rightarrow> strategy_signal \<Rightarrow> string
   \<Rightarrow> (signal_error, signal_ingest_result) result \<times> signal_engine" where
  "ingest_isolated env e s trading_mode =
     (case ingest env e s trading_mode of
        (Inl (SignalTradingModeError msg), e') \<Rightarrow> (Inl (SignalTradingModeError msg), e')
      | (Inl _, e') \<Rightarrow>
          (Inr (ingest_result SIG_REJECTED ''unexpected_error'' s None),
           bump_signal (\<lambda>m. m\<lparr>sx_rejected := sx_rejected m + 1\<rparr>) e')
      | (Inr r, e') \<Rightarrow> (Inr r, e'))"

text \<open>A batch stops at the first refused trading mode, whose exception propagates.\<close>

fun ingest_many :: "(nat \<Rightarrow> signal_env) \<Rightarrow> signal_engine \<Rightarrow> strategy_signal list \<Rightarrow> string
   \<Rightarrow> (signal_error, signal_ingest_result list) result \<times> signal_engine" where
  "ingest_many env e [] trading_mode = (Inr [], e)"
| "ingest_many env e (s # ss) trading_mode =
     (case ingest_isolated (env (length ss)) e s trading_mode of
        (Inl err, e') \<Rightarrow> (Inl err, e')
      | (Inr r, e') \<Rightarrow>
          (case ingest_many env e' ss trading_mode of
             (Inl err, e'') \<Rightarrow> (Inl err, e'')
           | (Inr rs, e'') \<Rightarrow> (Inr (r # rs), e'')))"

section \<open>What a call does to the table, the cache and the log\<close>

lemma moving_legal [simp]: "new \<in> set (signal_transitions m) \<Longrightarrow> moving m new e next = next"
  by (simp add: moving_def signal_transition_def)

abbreviation row_keys :: "signal_row list \<Rightarrow> string list" where
  "row_keys t \<equiv> map sw_identity_key t"

lemma clash_key: "sw_identity_key q = sw_identity_key r \<Longrightarrow> signal_clash q r"
  by (simp add: signal_clash_def)

lemma find_by_identity_Some: "find_by_identity t k = Some r \<Longrightarrow> r \<in> set t \<and> sw_identity_key r = k"
  unfolding find_by_identity_def by (blast dest: first_row_SomeD)

lemma find_by_identity_None: "find_by_identity t k = None \<longleftrightarrow> k \<notin> set (row_keys t)"
  by (auto simp: find_by_identity_def first_row_None_iff)

lemma persist_signal_cases:
  obtains (failed) err new where "persist_signal env t r = (Inl err, t @ new)" "distinct (row_keys t) \<Longrightarrow> distinct (row_keys (t @ new))"
  | (stored) q new where "persist_signal env t r = (Inr (compare_stored q r), t @ new)" "q \<in> set (t @ new)"
      "sw_identity_key q = sw_identity_key r" "distinct (row_keys t) \<Longrightarrow> distinct (row_keys (t @ new))"
  | (inserted) new where "persist_signal env t r = (Inr SIG_INSERTED, t @ new)" "r \<in> set new" "sw_identity_key r \<notin> set (row_keys t)"
      "distinct (row_keys t) \<Longrightarrow> distinct (row_keys (t @ new))"
proof -
  obtain new where new: "commit_others signal_clash (sv_refs_ok env) t (sv_race env) = t @ new"
    using commit_others_grows by blast
  have d: "distinct (row_keys (t @ new))" if "distinct (row_keys t)"
    using commit_others_distinct [OF that, of signal_clash "sv_refs_ok env" "sv_race env"] clash_key new by simp
  show thesis
  proof (cases "find_by_identity t (sw_identity_key r)")
    case (Some q)
    then show ?thesis using stored [of q "[]"] failed [of SignalFault "[]"] find_by_identity_Some [OF Some]
      by (cases "sv_db_fail env 0") (simp_all add: persist_signal_def)
  next
    case None
    show ?thesis
    proof (cases "insert_row signal_clash (sv_refs_ok env) (t @ new) r")
      case (Some t'')
      then have t'': "t'' = t @ (new @ [r])" by (auto dest: insert_row_SomeD)
      have "distinct (row_keys (t @ new @ [r]))" if "distinct (row_keys t)"
        using insert_row_distinct [OF Some d [OF that] clash_key] t'' by simp
      then show ?thesis using inserted [of "new @ [r]"] failed [of SignalFault "[]"] failed [of SignalFault new] None Some d
        by (cases "sv_db_fail env 0"; cases "sv_db_fail env 1") (simp_all add: persist_signal_def new t'' find_by_identity_None)
    next
      case no: None
      show ?thesis using stored [of _ new] failed [of SignalFault "[]"] failed [of SignalFault new] None no d find_by_identity_Some [of "t @ new"]
        by (cases "sv_db_fail env 0"; cases "sv_db_fail env 1"; cases "sv_db_fail env 2"; cases "find_by_identity (t @ new) (sw_identity_key r)")
           (simp_all add: persist_signal_def new)
    qed
  qed
qed

text \<open>The cache agrees with the table: what it remembers is stored.\<close>

definition cache_coherent :: "(string, string) odict \<Rightarrow> signal_row list \<Rightarrow> bool" where
  "cache_coherent d t \<longleftrightarrow>
     od_ok d \<and> (\<forall>k h. map_of d k = Some h \<longrightarrow> (\<exists>r\<in>set t. sw_identity_key r = k \<and> sw_content_hash r = h))"

definition signal_inv :: "signal_engine \<Rightarrow> bool" where
  "signal_inv e \<longleftrightarrow> distinct (row_keys (sg_table e)) \<and> cache_coherent (sc_seen (sg_idempotency e)) (sg_table e)"

lemma cache_coherent_grow: "cache_coherent d t \<Longrightarrow> cache_coherent d (t @ new)"
  unfolding cache_coherent_def by (metis Un_iff set_append)

lemma cache_check_coherent:
  "cache_coherent (sc_seen c) t \<Longrightarrow> cache_coherent (sc_seen (snd (cache_check c k h))) t"
  by (simp add: cache_check_def cache_coherent_def split: option.split)

lemma cache_record_coherent:
  assumes "cache_coherent (sc_seen c) t" "r \<in> set t" "sw_identity_key r = k" "sw_content_hash r = h"
  shows "cache_coherent (sc_seen (cache_record c k h)) t"
proof -
  let ?d = "move_to_end k (od_set k h (sc_seen c))"
  have d: "cache_coherent ?d t" using assms by (auto simp: cache_coherent_def)
  have "cache_coherent (tl d') t" if "cache_coherent d' t" for d'
    using that od_ok_drop [of d' 1] map_of_drop [of d' 1] by (auto simp: cache_coherent_def drop_Suc)
  with d show ?thesis by (simp add: cache_record_def Let_def)
qed

text \<open>What \<^verbatim>\<open>ingest\<close> may do: nothing durable, or, for a signal that passed validation, grow the table and publish
  exactly when it inserted its own row.\<close>

definition quiet :: "signal_engine \<Rightarrow> signal_engine \<Rightarrow> bool" where
  "quiet e e' \<longleftrightarrow> sg_published e' = sg_published e \<and> sg_validator e' = sg_validator e \<and> (\<exists>new. sg_table e' = sg_table e @ new)"

definition publishes_row :: "signal_env \<Rightarrow> signal_engine \<Rightarrow> strategy_signal \<Rightarrow> signal_engine \<Rightarrow> bool" where
  "publishes_row env e s e' \<longleftrightarrow> (\<exists>key content new p.
     compute_signal_identity_key (sv_py env) s = Some key \<and> compute_signal_content_hash (sv_py env) s = Some content \<and>
     sg_validator e' = sg_validator e \<and> sg_table e' = sg_table e @ new \<and> key \<notin> set (row_keys (sg_table e)) \<and>
     to_orm_signal (sv_uuid4 env) s key content ''persisted'' (sv_clock env 3) \<in> set new \<and>
     sg_published e' = sg_published e @ [p] \<and> sq_signal p = s \<and> sq_identity_key p = key \<and> sq_record_id p = sv_uuid4 env \<and>
     sq_state p = SIG_PERSISTED)"

lemma to_orm_signal_simps [simp]:
  "sw_identity_key (to_orm_signal rid s key content st now) = key"
  "sw_content_hash (to_orm_signal rid s key content st now) = content"
  by (simp_all add: to_orm_signal_def)

lemma ingest_persist_effect:
  assumes "compute_signal_identity_key (sv_py env) s = Some key" "compute_signal_content_hash (sv_py env) s = Some content"
  shows "(quiet e (snd (ingest_persist env e s key content)) \<or> publishes_row env e s (snd (ingest_persist env e s key content))) \<and>
    (signal_inv e \<longrightarrow> signal_inv (snd (ingest_persist env e s key content)))"
proof -
  let ?r = "to_orm_signal (sv_uuid4 env) s key content ''persisted'' (sv_clock env 3)"
  show ?thesis
  proof (cases rule: persist_signal_cases [of env "sg_table e" ?r])
    case (failed err new)
    then show ?thesis by (auto simp: ingest_persist_def Let_def quiet_def signal_inv_def intro: cache_coherent_grow)
  next
    case (stored q new)
    have "signal_inv e \<Longrightarrow> cache_coherent (sc_seen (cache_record (sg_idempotency e) key content)) (sg_table e @ new)"
      if "sw_content_hash q = content"
      using stored(2,3) that by (intro cache_record_coherent) (auto simp: signal_inv_def intro: cache_coherent_grow)
    then show ?thesis using stored
      by (auto simp: ingest_persist_def Let_def quiet_def compare_stored_def signal_inv_def intro: cache_coherent_grow)
  next
    case (inserted new)
    have "cache_coherent (sc_seen (cache_record (sg_idempotency e) key content)) (sg_table e @ new)" if "signal_inv e"
      using inserted(2) that by (intro cache_record_coherent [of _ _ ?r]) (auto simp: signal_inv_def intro: cache_coherent_grow)
    then show ?thesis using inserted assms
      by (auto simp: ingest_persist_def Let_def publishes_row_def signal_inv_def)
  qed
qed

lemma publishes_rowD:
  assumes "publishes_row env e s e'"
  shows "\<exists>p. sg_published e' = sg_published e @ [p] \<and> sq_identity_key p \<notin> set (row_keys (sg_table e)) \<and>
    sq_identity_key p \<in> set (row_keys (sg_table e'))"
proof -
  obtain key content new p where p: "key \<notin> set (row_keys (sg_table e))" "sg_table e' = sg_table e @ new"
    "to_orm_signal (sv_uuid4 env) s key content ''persisted'' (sv_clock env 3) \<in> set new"
    "sg_published e' = sg_published e @ [p]" "sq_identity_key p = key" using assms unfolding publishes_row_def by blast
  have "key \<in> sw_identity_key ` set new" using p(3) by (rule rev_image_eqI) simp
  with p show ?thesis by auto
qed

lemma ingest_check_effect:
  assumes "compute_signal_identity_key (sv_py env) s = Some key" "compute_signal_content_hash (sv_py env) s = Some content"
  shows "(quiet e (snd (ingest_check env e s key content)) \<or> publishes_row env e s (snd (ingest_check env e s key content))) \<and>
    (signal_inv e \<longrightarrow> signal_inv (snd (ingest_check env e s key content)))"
proof -
  obtain out c where c: "cache_check (sg_idempotency e) key content = (out, c)" by fastforce
  let ?e = "e\<lparr>sg_idempotency := c\<rparr>"
  have inv: "signal_inv ?e" if "signal_inv e"
    using that cache_check_coherent [of "sg_idempotency e" "sg_table e" key content] by (simp add: c signal_inv_def)
  have same: "quiet ?e e' \<Longrightarrow> quiet e e'" "publishes_row env ?e s e' \<Longrightarrow> publishes_row env e s e'" for e'
    by (simp_all add: quiet_def publishes_row_def)
  show ?thesis using inv ingest_persist_effect [OF assms, of ?e] same
    by (cases out) (auto simp: ingest_check_def c quiet_def signal_inv_def)
qed

lemma validated_mode:
  "validate_signal py clock v s mode = Inr h \<Longrightarrow> upper mode \<in> set (vd_allowed_modes v)"
  by (auto simp: validate_signal_def result_simps)

lemma ingest_effect:
  "(quiet e (snd (ingest env e s mode)) \<or>
      publishes_row env e s (snd (ingest env e s mode)) \<and> upper mode \<in> set (vd_allowed_modes (sg_validator e))) \<and>
   (signal_inv e \<longrightarrow> signal_inv (snd (ingest env e s mode)))"
proof -
  let ?e = "bump_signal (count_received s) e"
  have same: "quiet ?e e' \<Longrightarrow> quiet e e'" "publishes_row env ?e s e' \<Longrightarrow> publishes_row env e s e'" "signal_inv ?e \<longleftrightarrow> signal_inv e" for e'
    by (simp_all add: quiet_def publishes_row_def signal_inv_def)
  show ?thesis
  proof (cases "validate_signal (sv_py env) (sv_clock env) (sg_validator e) s mode")
    case (Inl err)
    then show ?thesis by (cases err) (simp_all add: ingest_def Let_def quiet_def signal_inv_def)
  next
    case (Inr h)
    show ?thesis
    proof (cases "event_timestamp (sv_py env) s")
      case None
      with Inr show ?thesis by (simp add: ingest_def Let_def quiet_def signal_inv_def)
    next
      case (Some t)
      then obtain key content where k: "compute_signal_identity_key (sv_py env) s = Some key"
          "compute_signal_content_hash (sv_py env) s = Some content"
        by (auto simp: compute_signal_identity_key_def compute_signal_content_hash_def)
      consider "too_old env ?e t = None" | "too_old env ?e t = Some True" | "too_old env ?e t = Some False"
        by (cases "too_old env ?e t") auto
      then show ?thesis
      proof cases
        case 3
        then have "ingest env e s mode = ingest_check env ?e s key content" by (simp add: ingest_def Let_def Inr Some k)
        then show ?thesis using ingest_check_effect [OF k, of ?e] same validated_mode [OF Inr] by auto
      qed (simp_all add: ingest_def Let_def Inr Some k quiet_def signal_inv_def)
    qed
  qed
qed

section \<open>Runs of the engine\<close>

text \<open>A run: signals ingested, directories installed, and restarts of the process, which empty the cache
  and keep the table.  The log of publications is kept across restarts.\<close>

datatype signal_call =
    Ingest signal_env strategy_signal string
  | Set_Directory strategy_directory
  | Restart

fun signal_step :: "signal_engine \<Rightarrow> signal_call \<Rightarrow> signal_engine" where
  "signal_step e (Ingest env s mode) = snd (ingest env e s mode)"
| "signal_step e (Set_Directory d) = set_directory d e"
| "signal_step e Restart = e\<lparr>sg_idempotency := (sg_idempotency e)\<lparr>sc_seen := []\<rparr>\<rparr>"

lemma signal_step_inv: "signal_inv e \<Longrightarrow> signal_inv (signal_step e c)"
  using ingest_effect by (cases c) (auto simp: set_directory_def signal_inv_def cache_coherent_def)

lemma signal_run_inv: "signal_inv e \<Longrightarrow> signal_inv (foldl signal_step e cs)"
  by (induction cs arbitrary: e) (simp_all add: signal_step_inv)

interpretation signal_feed: publish_once signal_step "\<lambda>e. set (row_keys (sg_table e))" sg_published sq_identity_key "\<lambda>_. True"
proof unfold_locales
  fix e c
  show "set (row_keys (sg_table e)) \<subseteq> set (row_keys (sg_table (signal_step e c)))"
  proof (cases c)
    case (Ingest env s mode)
    then show ?thesis using ingest_effect [of e env s mode] by (auto simp: quiet_def publishes_row_def)
  qed (simp_all add: set_directory_def)
  show "sg_published (signal_step e c) = sg_published e \<or>
    (\<exists>p. sg_published (signal_step e c) = sg_published e @ [p] \<and> sq_identity_key p \<notin> set (row_keys (sg_table e)) \<and>
      sq_identity_key p \<in> set (row_keys (sg_table (signal_step e c))))"
  proof (cases c)
    case (Ingest env s mode)
    then show ?thesis using ingest_effect [of e env s mode] publishes_rowD [of env e s] by (auto simp: quiet_def)
  qed (simp_all add: set_directory_def)
qed simp_all

text \<open>Where a published record comes from.\<close>

definition record_of_call :: "signal_record \<Rightarrow> signal_call \<Rightarrow> bool" where
  "record_of_call p c \<longleftrightarrow> (\<exists>env mode. c = Ingest env (sq_signal p) mode \<and> upper mode \<in> {''BACKTEST'', ''PAPER''} \<and>
     compute_signal_identity_key (sv_py env) (sq_signal p) = Some (sq_identity_key p))"

definition row_of_record :: "signal_record \<Rightarrow> signal_row \<Rightarrow> bool" where
  "row_of_record p r \<longleftrightarrow> sw_id r = sq_record_id p \<and> sw_identity_key r = sq_identity_key p \<and> sw_signal_id r = ss_signal_id (sq_signal p) \<and>
     sw_state r = ''persisted''"

definition default_modes :: "signal_engine \<Rightarrow> bool" where
  "default_modes e \<longleftrightarrow> vd_allowed_modes (sg_validator e) = [''BACKTEST'', ''PAPER'']"

lemma signal_step_records:
  assumes "default_modes e" "p \<in> set (sg_published (signal_step e c))"
  shows "default_modes (signal_step e c) \<and> (p \<in> set (sg_published e) \<or>
    record_of_call p c \<and> sq_state p = SIG_PERSISTED \<and> (\<exists>r\<in>set (sg_table (signal_step e c)). row_of_record p r))"
proof (cases c)
  case (Ingest env s mode)
  from ingest_effect [of e env s mode]
  consider "quiet e (snd (ingest env e s mode))"
    | "publishes_row env e s (snd (ingest env e s mode))" "upper mode \<in> set (vd_allowed_modes (sg_validator e))" by blast
  then show ?thesis
  proof cases
    case 1
    then show ?thesis using assms Ingest by (simp add: quiet_def default_modes_def)
  next
    case 2
    then obtain key content new q where q: "compute_signal_identity_key (sv_py env) s = Some key"
      "sg_validator (snd (ingest env e s mode)) = sg_validator e" "sg_table (snd (ingest env e s mode)) = sg_table e @ new"
      "to_orm_signal (sv_uuid4 env) s key content ''persisted'' (sv_clock env 3) \<in> set new"
      "sg_published (snd (ingest env e s mode)) = sg_published e @ [q]" "sq_signal q = s" "sq_identity_key q = key"
      "sq_record_id q = sv_uuid4 env" "sq_state q = SIG_PERSISTED" by (auto simp: publishes_row_def)
    have "row_of_record q (to_orm_signal (sv_uuid4 env) s key content ''persisted'' (sv_clock env 3))"
      using q by (simp add: row_of_record_def to_orm_signal_def)
    then show ?thesis using q 2(2) assms Ingest by (auto simp: default_modes_def record_of_call_def)
  qed
qed (use assms in \<open>simp_all add: set_directory_def default_modes_def new_validator_def\<close>)

lemma signal_step_modes: "default_modes e \<Longrightarrow> default_modes (signal_step e c)"
proof (cases c)
  case (Ingest env s mode)
  assume "default_modes e"
  with Ingest show ?thesis using ingest_effect [of e env s mode] by (auto simp: quiet_def publishes_row_def default_modes_def)
qed (simp_all add: default_modes_def set_directory_def new_validator_def)

lemma signal_table_grows: "set (sg_table e) \<subseteq> set (sg_table (signal_step e c))"
proof (cases c)
  case (Ingest env s mode)
  then show ?thesis using ingest_effect [of e env s mode] by (auto simp: quiet_def publishes_row_def)
qed (simp_all add: set_directory_def)

lemma signal_run_records:
  assumes "default_modes e" "sg_published e = []"
  shows "\<forall>p\<in>set (sg_published (foldl signal_step e cs)).
    (\<exists>c\<in>set cs. record_of_call p c) \<and> sq_state p = SIG_PERSISTED \<and> (\<exists>r\<in>set (sg_table (foldl signal_step e cs)). row_of_record p r)"
proof (induction cs rule: rev_induct)
  case (snoc c cs)
  have "default_modes (foldl signal_step e cs)" using assms(1) by (induction cs arbitrary: e) (simp_all add: signal_step_modes)
  then show ?case using signal_step_records [of "foldl signal_step e cs" _ c] snoc signal_table_grows [of "foldl signal_step e cs" c]
    by simp blast
qed (simp add: assms)

text \<open>C15.  A signal is published at most once: from an engine with the default modes, over any sequence of
  ingested signals, directory changes and restarts, with any clocks, database failures and concurrent
  writers, the records handed to the consumers have pairwise different identity keys; each comes from an ingest call for that
  signal in BACKTEST or PAPER mode, carries the signal's identity and the state PERSISTED, and its row is in
  the table.\<close>

theorem signal_published_once:
  assumes "vd_allowed_modes (sg_validator e) = [''BACKTEST'', ''PAPER'']" "sg_published e = []"
  shows "distinct (map sq_identity_key (sg_published (foldl signal_step e calls))) \<and>
    (\<forall>p\<in>set (sg_published (foldl signal_step e calls)).
       sq_state p = SIG_PERSISTED \<and> (\<exists>c\<in>set calls. record_of_call p c) \<and>
       (\<exists>r\<in>set (sg_table (foldl signal_step e calls)). row_of_record p r))"
  using signal_feed.published_from_start [of e calls] signal_run_records [of e calls] assms by (auto simp: default_modes_def)

section \<open>Refinement of the table\<close>

text \<open>The specification knows no cache: a signal is compared with the stored row of its identity.\<close>

definition ingest_spec :: "(signal_row \<Rightarrow> bool) \<Rightarrow> signal_row list \<Rightarrow> signal_row \<Rightarrow> signal_state \<times> signal_row list" where
  "ingest_spec ok t r =
     (case find_by_identity t (sw_identity_key r) of
        Some q \<Rightarrow> (if sw_content_hash q = sw_content_hash r then SIG_DUPLICATE else SIG_CONFLICT, t)
      | None \<Rightarrow> (case insert_row signal_clash ok t r of Some t' \<Rightarrow> (SIG_PERSISTED, t') | None \<Rightarrow> (SIG_ACCEPTED, t)))"

lemma find_by_identity_unique:
  "distinct (row_keys t) \<Longrightarrow> r \<in> set t \<Longrightarrow> sw_identity_key r = k \<Longrightarrow> find_by_identity t k = Some r"
  using first_row_key [of sw_identity_key t r] by (auto simp: find_by_identity_def)

lemma ingest_persist_spec:
  assumes "\<forall>i. \<not> sv_db_fail env i" "sv_race env = []"
    and r: "r = to_orm_signal (sv_uuid4 env) s key content ''persisted'' (sv_clock env 3)"
  shows "\<exists>res. fst (ingest_persist env e s key content) = Inr res \<and>
    (sgr_state res, sg_table (snd (ingest_persist env e s key content))) = ingest_spec (sv_refs_ok env) (sg_table e) r"
  using assms unfolding ingest_persist_def ingest_spec_def persist_signal_def Let_def
  by (simp add: ingest_result_def compare_stored_def split: option.split)

lemma ingest_check_spec:
  assumes inv: "signal_inv e" and "\<forall>i. \<not> sv_db_fail env i" "sv_race env = []"
    and r: "r = to_orm_signal (sv_uuid4 env) s key content ''persisted'' (sv_clock env 3)"
  shows "\<exists>res. fst (ingest_check env e s key content) = Inr res \<and>
    (sgr_state res, sg_table (snd (ingest_check env e s key content))) = ingest_spec (sv_refs_ok env) (sg_table e) r"
proof (cases "map_of (sc_seen (sg_idempotency e)) key")
  case None
  then show ?thesis using ingest_persist_spec [OF assms(2-4), of e] by (simp add: ingest_check_def cache_check_def)
next
  case (Some h)
  with inv obtain q where q: "q \<in> set (sg_table e)" "sw_identity_key q = key" "sw_content_hash q = h"
    unfolding signal_inv_def cache_coherent_def by blast
  then have "find_by_identity (sg_table e) key = Some q" using inv find_by_identity_unique by (simp add: signal_inv_def)
  then show ?thesis using Some q by (simp add: ingest_check_def cache_check_def ingest_spec_def r ingest_result_def)
qed

text \<open>C16.  The cached engine implements the specification without a cache: in every state a run reaches from an
  engine with an empty cache and a consistent table, a signal that passes validation and is not too old,
  ingested without a database failure or a concurrent writer, is answered exactly as the table alone says:
  PERSISTED with its row appended when its identity is new, DUPLICATE when the stored content is the same,
  CONFLICT when it differs, and ACCEPTED (not persisted) when another constraint refuses the row.\<close>

theorem signal_ingest_refines_table:
  assumes "distinct (row_keys (sg_table e0))" "sc_seen (sg_idempotency e0) = []" "e = foldl signal_step e0 calls"
    and "validate_signal (sv_py env) (sv_clock env) (sg_validator e) s mode = Inr h"
    and "event_timestamp (sv_py env) s = Some t" "too_old env e t = Some False"
    and "\<forall>i. \<not> sv_db_fail env i" "sv_race env = []"
    and "compute_signal_identity_key (sv_py env) s = Some key" "compute_signal_content_hash (sv_py env) s = Some content"
  shows "\<exists>res. fst (ingest env e s mode) = Inr res \<and>
    (sgr_state res, sg_table (snd (ingest env e s mode))) =
      ingest_spec (sv_refs_ok env) (sg_table e) (to_orm_signal (sv_uuid4 env) s key content ''persisted'' (sv_clock env 3))"
proof -
  let ?e = "bump_signal (count_received s) e"
  have "signal_inv e0" using assms(1,2) by (simp add: signal_inv_def cache_coherent_def)
  then have inv: "signal_inv ?e" using signal_run_inv [of e0 calls] assms(3) by (simp add: signal_inv_def)
  have "too_old env ?e t = Some False" using assms(6) by (simp add: too_old_def)
  then have "ingest env e s mode = ingest_check env ?e s key content"
    by (simp add: ingest_def Let_def assms(4,5,9,10))
  then show ?thesis using ingest_check_spec [OF inv assms(7,8) refl, of s key content] by simp
qed

section \<open>Sample run\<close>

definition sample_py :: py_env where
  "sample_py = \<lparr>py_sha256 = (\<lambda>_. ''k''), py_digest = (\<lambda>_. ''h''), py_fromisoformat = (\<lambda>_. None), py_json = (\<lambda>_. [])\<rparr>"

definition sample_signal_env :: "uuid \<Rightarrow> signal_env" where
  "sample_signal_env u = \<lparr>sv_py = sample_py, sv_clock = (\<lambda>_. utc 10), sv_uuid4 = u, sv_refs_ok = (\<lambda>_. True),
     sv_db_fail = (\<lambda>_. False), sv_race = []\<rparr>"

definition sample_directory :: strategy_directory where
  "sample_directory = [22 \<mapsto> \<lparr>sd_strategy_id = 22, sd_version = ''1'', sd_config_hash = ''cfg'', sd_code_hash = None, sd_enabled = True,
     sd_instruments = None\<rparr>]"

definition sample_signal_engine :: signal_engine where
  "sample_signal_engine =
     \<lparr>sg_validator = new_validator sample_directory, sg_idempotency = \<lparr>sc_maxsize = 8, sc_seen = []\<rparr>, sg_max_signal_age = None,
      sg_metrics = \<lparr>sx_received = 0, sx_accepted = 0, sx_rejected = 0, sx_duplicate = 0, sx_conflict = 0, sx_expired = 0,
        sx_persisted = 0, sx_persistence_failures = 0, sx_per_strategy = (\<lambda>_. 0), sx_per_instrument = (\<lambda>_. 0)\<rparr>,
      sg_table = [], sg_published = []\<rparr>"

definition stamped_signal :: strategy_signal where
  "stamped_signal = sample_signal\<lparr>ss_metadata := [''event_timestamp'' \<mapsto> PTime (utc 5)]\<rparr>"

lemma stamped_signal_simps [simp]:
  "ss_signal_id stamped_signal = 21" "ss_strategy_id stamped_signal = 22" "ss_strategy_version stamped_signal = ''1''"
  "ss_strategy_config_hash stamped_signal = ''cfg''" "ss_timestamp stamped_signal = utc 0" "ss_confidence stamped_signal = Dec 5 (-1)"
  "ss_instrument_id stamped_signal = 5"
  "ss_metadata stamped_signal = [''event_timestamp'' \<mapsto> PTime (utc 5)]"
  by (simp_all add: stamped_signal_def)

lemma stamped_identity [simp]:
  "event_timestamp py stamped_signal = Some (utc 5)"
  "compute_signal_identity_key sample_py stamped_signal = Some ''k''"
  "compute_signal_content_hash sample_py stamped_signal = Some ''h''"
  by (simp_all add: event_timestamp_def compute_signal_identity_key_def compute_signal_content_hash_def sample_py_def)

lemma half_in_unit: "0 \<le> Dec 5 (-1)" "Dec 5 (-1) \<le> 1"
  by (simp_all add: decimal_order dval_def zero_decimal_def one_decimal_def)

lemma stamped_valid:
  "upper mode = ''PAPER'' \<Longrightarrow> validate_signal sample_py (\<lambda>_. utc 10) (new_validator sample_directory) stamped_signal mode = Inr None"
  by (simp add: validate_signal_def new_validator_def sample_directory_def not_future_def datetime_gt_def usec_def half_in_unit
      code_hash_from_def metadata_text_def)

lemmas sample_ingest = ingest_def ingest_check_def ingest_persist_def cache_check_def cache_record_def persist_signal_def
  insert_row_def find_by_identity_def stamped_valid too_old_def compare_stored_def move_to_end_def od_set_def od_pop_def
  sample_signal_env_def sample_signal_engine_def ingest_result_def Let_def

theorem signal_published_once_witness:
  "\<exists>p. sg_published (foldl signal_step sample_signal_engine
     [Ingest (sample_signal_env 1) stamped_signal ''PAPER'', Restart, Ingest (sample_signal_env 2) stamped_signal ''paper'']) = [p] \<and>
   sq_identity_key p = ''k'' \<and> sq_state p = SIG_PERSISTED"
proof -
  let ?calls = "[Ingest (sample_signal_env 1) stamped_signal ''PAPER'', Restart, Ingest (sample_signal_env 2) stamped_signal ''paper'']"
  have "map sq_identity_key (sg_published (foldl signal_step sample_signal_engine ?calls)) = [''k'']"
    by (simp add: sample_ingest)
  then obtain p where p: "sg_published (foldl signal_step sample_signal_engine ?calls) = [p]" "sq_identity_key p = ''k''" by blast
  have "sq_state p = SIG_PERSISTED"
    using signal_published_once [of sample_signal_engine ?calls] unfolding p(1) by (simp add: sample_signal_engine_def new_validator_def)
  with p show ?thesis by blast
qed

theorem signal_ingest_refines_table_witness:
  "\<exists>res. fst (ingest (sample_signal_env 2) (foldl signal_step sample_signal_engine [Ingest (sample_signal_env 1) stamped_signal ''PAPER''])
      stamped_signal ''PAPER'') = Inr res \<and> sgr_state res = SIG_DUPLICATE"
proof -
  define e where "e = foldl signal_step sample_signal_engine [Ingest (sample_signal_env 1) stamped_signal ''PAPER'']"
  let ?env = "sample_signal_env 2"
  have env: "sv_py ?env = sample_py" "sv_clock ?env = (\<lambda>_. utc 10)" "sv_uuid4 ?env = 2" "\<forall>i. \<not> sv_db_fail ?env i" "sv_race ?env = []"
    by (simp_all add: sample_signal_env_def)
  have v: "sg_validator e = new_validator sample_directory" "sg_max_signal_age e = None" by (simp_all add: e_def sample_ingest)
  have spec: "ingest_spec (sv_refs_ok ?env) (sg_table e) (to_orm_signal 2 stamped_signal ''k'' ''h'' ''persisted'' (utc 10)) =
      (SIG_DUPLICATE, sg_table e)" by (simp add: e_def sample_ingest ingest_spec_def)
  have "\<exists>res. fst (ingest ?env e stamped_signal ''PAPER'') = Inr res \<and>
      (sgr_state res, sg_table (snd (ingest ?env e stamped_signal ''PAPER''))) =
      ingest_spec (sv_refs_ok ?env) (sg_table e) (to_orm_signal (sv_uuid4 ?env) stamped_signal ''k'' ''h'' ''persisted'' (sv_clock ?env 3))"
    by (rule signal_ingest_refines_table [OF _ _ e_def, where h = None and t = "utc 5"])
       (simp_all add: env v stamped_valid too_old_def, simp_all add: sample_signal_engine_def)
  then show ?thesis unfolding e_def [symmetric] by (auto simp: env spec)
qed

end
