(* ===== verification/Trading_Engine.thy ===== *)
theory Trading_Engine
  imports Risk_Service Signal_Engine Oms
begin

text \<open>
  The trading orchestrator (\<^verbatim>\<open>services/trading_engine/alpha_algo_trading_engine\<close>): the orchestration state machine,
  the orchestration identity, the \<^verbatim>\<open>trading_intents\<close> table, and \<^verbatim>\<open>process_signal\<close>, which takes an accepted signal through the
  risk service to an OMS-ready intent that is stored and handed over at most once.

  The orchestrator owns its risk service, so its state contains the state of \<open>Risk_Service\<close> and a call contains the
  surroundings of the risk call.  The resolver of order intents and the OMS port are parameters that may raise.
  A limit price given as text is read with the finite-number grammar of \<open>Decimal_Text\<close>.
\<close>

section \<open>The state machine\<close>

datatype orchestration_state =
    ORC_RECEIVED | ORC_VALIDATED | ORC_RISK_EVALUATED | ORC_APPROVED | ORC_OMS_HANDOFF_READY | ORC_REJECTED | ORC_FAILED | ORC_DUPLICATE

fun orchestration_state_value :: "orchestration_state \<Rightarrow> string" where
  "orchestration_state_value ORC_RECEIVED = ''received''"
| "orchestration_state_value ORC_VALIDATED = ''validated''"
| "orchestration_state_value ORC_RISK_EVALUATED = ''risk_evaluated''"
| "orchestration_state_value ORC_APPROVED = ''approved''"
| "orchestration_state_value ORC_OMS_HANDOFF_READY = ''oms_handoff_ready''"
| "orchestration_state_value ORC_REJECTED = ''rejected''"
| "orchestration_state_value ORC_FAILED = ''failed''"
| "orchestration_state_value ORC_DUPLICATE = ''duplicate''"

fun orchestration_transitions :: "orchestration_state \<Rightarrow> orchestration_state list" where
  "orchestration_transitions ORC_RECEIVED = [ORC_VALIDATED, ORC_REJECTED]"
| "orchestration_transitions ORC_VALIDATED = [ORC_RISK_EVALUATED, ORC_REJECTED]"
| "orchestration_transitions ORC_RISK_EVALUATED = [ORC_APPROVED, ORC_REJECTED]"
| "orchestration_transitions ORC_APPROVED = [ORC_OMS_HANDOFF_READY, ORC_FAILED]"
| "orchestration_transitions _ = []"

definition terminal_orchestration_states :: "orchestration_state list" where
  "terminal_orchestration_states = [ORC_REJECTED, ORC_FAILED, ORC_DUPLICATE, ORC_OMS_HANDOFF_READY]"

fun orchestration_rank :: "orchestration_state \<Rightarrow> nat" where
  "orchestration_rank ORC_RECEIVED = 4"
| "orchestration_rank ORC_VALIDATED = 3"
| "orchestration_rank ORC_RISK_EVALUATED = 2"
| "orchestration_rank ORC_APPROVED = 1"
| "orchestration_rank _ = 0"

interpretation orchestration_machine: terminating_table orchestration_transitions terminal_orchestration_states orchestration_rank
proof unfold_locales
  fix s :: orchestration_state
  show "s \<in> set terminal_orchestration_states \<longleftrightarrow> orchestration_transitions s = []"
    by (cases s) (simp_all add: terminal_orchestration_states_def)
  show "orchestration_transitions s \<noteq> [] \<Longrightarrow> \<exists>t\<in>set (orchestration_transitions s). orchestration_rank t < orchestration_rank s"
    by (cases s) simp_all
qed

datatype trading_error =
    OrchestrationStateError string
  | OrchestrationValueError string
  | RiskFault risk_error
  | ResolverFault string
  | PortFault string

section \<open>Identity\<close>

definition orchestration_payload :: "string \<Rightarrow> strategy_signal \<Rightarrow> risk_order_intent option \<Rightarrow> string \<Rightarrow> payload" where
  "orchestration_payload key s intent trading_mode =
     [(''signal_identity'', PStr key), (''strategy_run_id'', opt_str (run_id_from s)),
      (''quantity'', opt_str (map_option decimal_str (Option.bind intent rio_quantity))),
      (''account_id'', opt_str (map_option uuid_str (Option.bind intent rio_account_id))),
      (''order_type'', opt_str (map_option rio_order_type intent)),
      (''trading_mode'', PStr (upper trading_mode))]"

definition compute_orchestration_identity_key ::
  "py_env \<Rightarrow> strategy_signal \<Rightarrow> risk_order_intent option \<Rightarrow> string \<Rightarrow> string option" where
  "compute_orchestration_identity_key env s intent trading_mode =
     map_option (\<lambda>key. py_digest env (orchestration_payload key s intent trading_mode)) (compute_signal_identity_key env s)"

section \<open>The trading intent table\<close>

record trading_intent_row =
  tw_id :: uuid
  tw_orchestration_id :: string
  tw_correlation_id :: "string option"
  tw_signal_id :: "uuid option"
  tw_strategy_id :: "uuid option"
  tw_strategy_version :: string
  tw_strategy_config_hash :: string
  tw_strategy_run_id :: "uuid option"
  tw_account_id :: "uuid option"
  tw_instrument_id :: "uuid option"
  tw_action :: string
  tw_order_type :: "string option"
  tw_quantity :: "decimal option"
  tw_limit_price :: "decimal option"
  tw_trading_mode :: string
  tw_risk_decision_id :: "uuid option"
  tw_approval_id :: "string option"
  tw_approval_expires_at :: "datetime option"
  tw_binding_hash :: "string option"
  tw_state :: string
  tw_reason_code :: "string option"
  tw_reason :: "string option"

definition intent_clash :: "trading_intent_row \<Rightarrow> trading_intent_row \<Rightarrow> bool" where
  "intent_clash q r \<longleftrightarrow> tw_id q = tw_id r \<or> tw_orchestration_id q = tw_orchestration_id r \<or> both_have (tw_approval_id q) (tw_approval_id r)"

definition to_orm_trading_intent :: "uuid \<Rightarrow> trading_intent \<Rightarrow> orchestration_state \<Rightarrow> trading_intent_row" where
  "to_orm_trading_intent rid i state =
     \<lparr>tw_id = rid, tw_orchestration_id = ti_orchestration_id i, tw_correlation_id = Some (uuid_str (ti_correlation_id i)),
      tw_signal_id = ti_signal_id i, tw_strategy_id = ti_strategy_id i, tw_strategy_version = ti_strategy_version i,
      tw_strategy_config_hash = ti_strategy_config_hash i, tw_strategy_run_id = ti_strategy_run_id i, tw_account_id = ti_account_id i,
      tw_instrument_id = ti_instrument_id i, tw_action = ti_action i, tw_order_type = Some (ti_order_type i),
      tw_quantity = Some (ti_quantity i), tw_limit_price = ti_limit_price i, tw_trading_mode = ti_trading_mode i,
      tw_risk_decision_id = Some (ti_risk_decision_id i),
      tw_approval_id = Some (case ti_approval_id i of None \<Rightarrow> ''None'' | Some a \<Rightarrow> uuid_str a),
      tw_approval_expires_at = Some (ti_approval_expires_at i), tw_binding_hash = Some (ti_binding_hash i),
      tw_state = orchestration_state_value state, tw_reason_code = None, tw_reason = None\<rparr>"

definition to_orm_rejection ::
  "uuid \<Rightarrow> strategy_signal \<Rightarrow> risk_order_intent option \<Rightarrow> string \<Rightarrow> string \<Rightarrow> string \<Rightarrow> string \<Rightarrow> risk_decision option \<Rightarrow> trading_intent_row" where
  "to_orm_rejection rid s intent mode orchestration_id code why d =
     \<lparr>tw_id = rid, tw_orchestration_id = orchestration_id, tw_correlation_id = None, tw_signal_id = Some (ss_signal_id s),
      tw_strategy_id = Some (ss_strategy_id s), tw_strategy_version = ss_strategy_version s,
      tw_strategy_config_hash = ss_strategy_config_hash s, tw_strategy_run_id = parse_run_id s,
      tw_account_id = Option.bind intent rio_account_id, tw_instrument_id = Some (ss_instrument_id s),
      tw_action = action_value (ss_action s), tw_order_type = map_option rio_order_type intent,
      tw_quantity = Option.bind intent rio_quantity, tw_limit_price = None, tw_trading_mode = mode,
      tw_risk_decision_id = map_option rd_decision_id d, tw_approval_id = None, tw_approval_expires_at = None, tw_binding_hash = None,
      tw_state = orchestration_state_value ORC_REJECTED, tw_reason_code = Some code, tw_reason = Some why\<rparr>"

record trading_env =
  tv_clock :: datetime
  tv_risk :: risk_env
  tv_resolver :: "strategy_signal \<Rightarrow> string \<Rightarrow> (trading_error, risk_order_intent option) result"
  tv_correlation_id :: uuid
  tv_record_id :: uuid
  tv_refs_ok :: "trading_intent_row \<Rightarrow> bool"
  tv_db_fail :: "nat \<Rightarrow> bool"
  tv_race :: "trading_intent_row list"
  tv_port :: "trading_intent \<Rightarrow> (trading_error, bool) result"

text \<open>The default resolver, which never invents a quantity.\<close>

definition unavailable_resolver :: "strategy_signal \<Rightarrow> string \<Rightarrow> (trading_error, risk_order_intent option) result" where
  "unavailable_resolver s mode = Inr None"

definition persist_intent :: "trading_env \<Rightarrow> trading_intent_row list \<Rightarrow> trading_intent_row \<Rightarrow> (bool \<times> uuid) option \<times> trading_intent_row list" where
  "persist_intent env = find_or_insert intent_clash (tv_refs_ok env) tw_orchestration_id tw_id (tv_db_fail env) (tv_race env)"

section \<open>The orchestrator\<close>

record orchestration_metrics =
  tx_signals_received :: int
  tx_signals_rejected :: int
  tx_risk_calls :: int
  tx_risk_approvals :: int
  tx_risk_rejections :: int
  tx_duplicates :: int
  tx_persistence_failures :: int
  tx_oms_handoff_failures :: int
  tx_errors :: int
  tx_by_state :: "string \<Rightarrow> int"

record orchestration_result =
  orr_state :: orchestration_state
  orr_intent :: "trading_intent option"
  orr_risk_decision :: "risk_decision option"
  orr_persisted :: bool
  orr_record_id :: "uuid option"
  orr_handoff_delivered :: bool
  orr_reason_code :: "string option"
  orr_reason :: string

record orchestrator =
  to_risk :: risk_service
  to_repository :: "trading_intent_row list option"
  to_handed_off :: "(string, trading_intent) odict"
  to_capacity :: nat
  to_metrics :: orchestration_metrics
  to_handoffs :: "trading_intent list"

abbreviation bump_trading :: "(orchestration_metrics \<Rightarrow> orchestration_metrics) \<Rightarrow> orchestrator \<Rightarrow> orchestrator" where
  "bump_trading f st \<equiv> st\<lparr>to_metrics := f (to_metrics st)\<rparr>"

definition record_state :: "orchestration_state \<Rightarrow> orchestration_metrics \<Rightarrow> orchestration_metrics" where
  "record_state s m =
     m\<lparr>tx_by_state := (tx_by_state m)(orchestration_state_value s := tx_by_state m (orchestration_state_value s) + 1)\<rparr>"

definition remember_handed_off :: "string \<Rightarrow> trading_intent \<Rightarrow> orchestrator \<Rightarrow> orchestrator" where
  "remember_handed_off key i st =
     st\<lparr>to_handed_off := fst (evict (to_capacity st) (od_set key i (to_handed_off st)) ([] :: (string, unit) odict))\<rparr>"

text \<open>A transition of the per-call machine, which raises when it is illegal.\<close>

definition orch_moving ::
  "orchestration_state \<Rightarrow> orchestration_state \<Rightarrow> orchestrator \<Rightarrow> ((trading_error, 'a) result \<times> orchestrator)
   \<Rightarrow> (trading_error, 'a) result \<times> orchestrator" where
  "orch_moving m new st next =
     (if new \<in> set (orchestration_transitions m) then next
      else (Inl (OrchestrationStateError (''illegal transition '' @ orchestration_state_value m @ '' -> '' @ orchestration_state_value new)), st))"

definition extract_limit_price :: "risk_order_intent \<Rightarrow> decimal option" where
  "extract_limit_price i =
     (case rio_metadata i ''limit_price'' of
        None \<Rightarrow> None
      | Some PNone \<Rightarrow> None
      | Some (PDec d) \<Rightarrow> Some d
      | Some v \<Rightarrow> decimal_parse (py_str v))"

definition build_intent ::
  "trading_env \<Rightarrow> signal_record \<Rightarrow> risk_order_intent \<Rightarrow> decimal \<Rightarrow> string \<Rightarrow> risk_decision \<Rightarrow> datetime \<Rightarrow> string \<Rightarrow> string \<Rightarrow> trading_intent" where
  "build_intent env r intent quantity mode d expires binding orchestration_id =
     (let s = sq_signal r in
      \<lparr>ti_correlation_id = tv_correlation_id env, ti_orchestration_id = orchestration_id, ti_account_id = rio_account_id intent,
       ti_strategy_id = Some (ss_strategy_id s), ti_strategy_version = ss_strategy_version s,
       ti_strategy_config_hash = ss_strategy_config_hash s, ti_strategy_run_id = parse_run_id s,
       ti_signal_id = Some (ss_signal_id s), ti_signal_identity_key = sq_identity_key r,
       ti_instrument_id = Some (ss_instrument_id s), ti_action = action_value (ss_action s), ti_quantity = quantity,
       ti_order_type = rio_order_type intent, ti_limit_price = extract_limit_price intent, ti_trading_mode = mode,
       ti_risk_decision_id = rd_decision_id d, ti_approval_id = rd_approval_id d, ti_approval_expires_at = expires,
       ti_binding_hash = binding, ti_metadata = rio_metadata intent\<rparr>)"

definition rejected_result :: "string \<Rightarrow> string \<Rightarrow> risk_decision option \<Rightarrow> bool \<Rightarrow> uuid option \<Rightarrow> orchestration_result" where
  "rejected_result code why d persisted rid =
     \<lparr>orr_state = ORC_REJECTED, orr_intent = None, orr_risk_decision = d, orr_persisted = persisted, orr_record_id = rid,
      orr_handoff_delivered = False, orr_reason_code = Some code, orr_reason = why\<rparr>"

definition orch_reject ::
  "trading_env \<Rightarrow> orchestrator \<Rightarrow> orchestration_state \<Rightarrow> strategy_signal \<Rightarrow> risk_order_intent option \<Rightarrow> string \<Rightarrow> string \<Rightarrow> string
   \<Rightarrow> bool \<Rightarrow> risk_decision option \<Rightarrow> (trading_error, orchestration_result) result \<times> orchestrator" where
  "orch_reject env st0 m s intent mode code why persist d =
     orch_moving m ORC_REJECTED st0
       (let st = bump_trading (\<lambda>x. record_state ORC_REJECTED (x\<lparr>tx_signals_rejected := tx_signals_rejected x + 1\<rparr>)) st0 in
        case (if persist then to_repository st else None) of
          None \<Rightarrow> (Inr (rejected_result code why d False None), st)
        | Some t \<Rightarrow>
            case compute_orchestration_identity_key (rv_py (tv_risk env)) s intent mode of
              None \<Rightarrow> (Inl (OrchestrationValueError ''Invalid isoformat string''), st)
            | Some oid \<Rightarrow>
                case persist_intent env t (to_orm_rejection (tv_record_id env) s intent mode oid code why d) of
                  (None, t') \<Rightarrow>
                    (Inr (rejected_result code why d False None),
                     bump_trading (\<lambda>x. x\<lparr>tx_persistence_failures := tx_persistence_failures x + 1\<rparr>) (st\<lparr>to_repository := Some t'\<rparr>))
                | (Some (inserted, rid), t') \<Rightarrow>
                    (Inr (rejected_result code why d inserted (Some rid)), st\<lparr>to_repository := Some t'\<rparr>))"

text \<open>Step 9, the critical section: whether this identity was handed over before, and if not the durable record.\<close>

datatype claim_outcome = Claim_Duplicate | Claim_New bool "uuid option" | Claim_Failed

definition claim_intent :: "trading_env \<Rightarrow> orchestrator \<Rightarrow> trading_intent \<Rightarrow> claim_outcome \<times> orchestrator" where
  "claim_intent env st i =
     (let oid = ti_orchestration_id i in
      if map_of (to_handed_off st) oid \<noteq> None then (Claim_Duplicate, st)
      else case to_repository st of
        None \<Rightarrow> (Claim_New False None, remember_handed_off oid i st)
      | Some t \<Rightarrow>
          case persist_intent env t (to_orm_trading_intent (tv_record_id env) i ORC_OMS_HANDOFF_READY) of
            (None, t') \<Rightarrow> (Claim_Failed, st\<lparr>to_repository := Some t'\<rparr>)
          | (Some (False, rid), t') \<Rightarrow> (Claim_Duplicate, st\<lparr>to_repository := Some t'\<rparr>)
          | (Some (True, rid), t') \<Rightarrow> (Claim_New True (Some rid), remember_handed_off oid i (st\<lparr>to_repository := Some t'\<rparr>)))"

definition intent_result :: "orchestration_state \<Rightarrow> trading_intent \<Rightarrow> risk_decision \<Rightarrow> orchestration_result" where
  "intent_result state i d =
     \<lparr>orr_state = state, orr_intent = Some i, orr_risk_decision = Some d, orr_persisted = False, orr_record_id = None,
      orr_handoff_delivered = False, orr_reason_code = None, orr_reason = []\<rparr>"

text \<open>Steps 9 and 10: claim, then notify the OMS.\<close>

definition hand_over ::
  "trading_env \<Rightarrow> orchestrator \<Rightarrow> trading_intent \<Rightarrow> risk_decision \<Rightarrow> (trading_error, orchestration_result) result \<times> orchestrator" where
  "hand_over env st i d =
     (case claim_intent env st i of
        (Claim_Failed, st') \<Rightarrow>
          (Inr ((intent_result ORC_FAILED i d)\<lparr>orr_reason_code := Some ''PERSISTENCE_FAILED'',
                  orr_reason := ''failed to durably persist the trading intent''\<rparr>),
           bump_trading (\<lambda>x. record_state ORC_FAILED (x\<lparr>tx_persistence_failures := tx_persistence_failures x + 1\<rparr>)) st')
      | (Claim_Duplicate, st') \<Rightarrow>
          (Inr ((intent_result ORC_DUPLICATE i d)\<lparr>orr_reason_code := Some ''DUPLICATE_ORCHESTRATION'',
                  orr_reason := ''signal already produced a trading intent''\<rparr>),
           bump_trading (\<lambda>x. record_state ORC_DUPLICATE (x\<lparr>tx_duplicates := tx_duplicates x + 1\<rparr>)) st')
      | (Claim_New persisted rid, st') \<Rightarrow>
          orch_moving ORC_APPROVED ORC_OMS_HANDOFF_READY st'
            (let st'' = st'\<lparr>to_handoffs := to_handoffs st' @ [i]\<rparr> in
             case tv_port env i of
               Inl err \<Rightarrow> (Inl err, st'')
             | Inr delivered \<Rightarrow>
                 (Inr ((intent_result ORC_OMS_HANDOFF_READY i d)\<lparr>orr_persisted := persisted, orr_record_id := rid,
                         orr_handoff_delivered := delivered\<rparr>),
                  bump_trading (\<lambda>x. record_state ORC_OMS_HANDOFF_READY
                    (if delivered then x else x\<lparr>tx_oms_handoff_failures := tx_oms_handoff_failures x + 1\<rparr>)) st'')))"

text \<open>Steps 6 to 8: risk evaluation, approval check, normalisation.\<close>

definition evaluate_intent ::
  "trading_env \<Rightarrow> orchestrator \<Rightarrow> signal_record \<Rightarrow> risk_order_intent \<Rightarrow> decimal \<Rightarrow> string
   \<Rightarrow> (trading_error, orchestration_result) result \<times> orchestrator" where
  "evaluate_intent env st0 r intent quantity mode =
     (let s = sq_signal r; py = rv_py (tv_risk env);
          st = bump_trading (\<lambda>x. x\<lparr>tx_risk_calls := tx_risk_calls x + 1\<rparr>) st0;
          (res, risk') = risk_evaluate (tv_risk env) (to_risk st) s (Some intent) mode;
          st1 = st\<lparr>to_risk := risk'\<rparr> in
      case res of
        Inl err \<Rightarrow> (Inl (RiskFault err), st1)
      | Inr outcome \<Rightarrow>
          let d = ro_decision outcome in
          orch_moving ORC_VALIDATED ORC_RISK_EVALUATED st1
            (if rd_decision d = RISK_REJECTED
             then orch_reject env (bump_trading (\<lambda>x. x\<lparr>tx_risk_rejections := tx_risk_rejections x + 1\<rparr>) st1) ORC_RISK_EVALUATED s (Some intent) mode
                    (rd_reason_code d) (rd_reason d) True (Some d)
             else
               let st2 = bump_trading (\<lambda>x. x\<lparr>tx_risk_approvals := tx_risk_approvals x + 1\<rparr>) st1 in
               case (compute_risk_identity_key py s (Some intent) mode, compute_orchestration_identity_key py s (Some intent) mode) of
                 (Some binding, Some oid) \<Rightarrow>
                   (case (approval_is_usable d (tv_clock env) (Some binding), rd_expires_at d) of
                      (Some True, Some expires) \<Rightarrow>
                        orch_moving ORC_RISK_EVALUATED ORC_APPROVED st2
                          (hand_over env st2 (build_intent env r intent quantity mode d expires binding oid) d)
                    | (None, _) \<Rightarrow> (Inl (OrchestrationValueError ''value must be timezone-aware''), st2)
                    | _ \<Rightarrow> orch_reject env st2 ORC_RISK_EVALUATED s (Some intent) mode ''PRIOR_APPROVAL_INVALID'' ''approval expired or unbound'' True (Some d))
               | _ \<Rightarrow> (Inl (OrchestrationValueError ''Invalid isoformat string''), st2)))"

text \<open>Steps 4 and 5: the action and the order intent.\<close>

definition resolve_intent ::
  "trading_env \<Rightarrow> orchestrator \<Rightarrow> signal_record \<Rightarrow> risk_order_intent option \<Rightarrow> string
   \<Rightarrow> (trading_error, orchestration_result) result \<times> orchestrator" where
  "resolve_intent env st r given mode =
     (let s = sq_signal r in
      if ss_action s \<notin> {ACT_BUY, ACT_SELL, ACT_EXIT}
      then orch_reject env st ORC_VALIDATED s given mode ''ACTION_NOT_TRADABLE''
             (''action '' @ action_value (ss_action s) @ '' does not create a trading intent'') False None
      else case (case given of Some i \<Rightarrow> Inr (Some i) | None \<Rightarrow> tv_resolver env s mode) of
        Inl err \<Rightarrow> (Inl err, st)
      | Inr found \<Rightarrow>
          case (found, Option.bind found rio_quantity) of
            (Some intent, Some quantity) \<Rightarrow>
              if quantity \<le> 0
              then orch_reject env st ORC_VALIDATED s found mode ''INTENT_UNAVAILABLE'' ''no valid order quantity resolved'' False None
              else evaluate_intent env st r intent quantity mode
          | _ \<Rightarrow> orch_reject env st ORC_VALIDATED s found mode ''INTENT_UNAVAILABLE'' ''no valid order quantity resolved'' False None)"

definition process_signal ::
  "trading_env \<Rightarrow> orchestrator \<Rightarrow> signal_record \<Rightarrow> string \<Rightarrow> risk_order_intent option
   \<Rightarrow> (trading_error, orchestration_result) result \<times> orchestrator" where
  "process_signal env st0 r trading_mode given =
     (let st = bump_trading (\<lambda>x. x\<lparr>tx_signals_received := tx_signals_received x + 1\<rparr>) st0; mode = upper trading_mode; s = sq_signal r in
      if mode \<notin> {''BACKTEST'', ''PAPER''}
      then orch_reject env st ORC_RECEIVED s given mode ''LIVE_MODE_BLOCKED'' (''trading mode not allowed: '' @ mode) False None
      else if sq_state r \<noteq> SIG_PERSISTED
      then orch_reject env st ORC_RECEIVED s given mode ''SIGNAL_NOT_ACCEPTED''
             (''signal not accepted (state='' @ signal_state_value (sq_state r) @ '')'') False None
      else case compute_signal_identity_key (rv_py (tv_risk env)) s of
        None \<Rightarrow> (Inl (OrchestrationValueError ''Invalid isoformat string''), st)
      | Some key \<Rightarrow>
          if sq_identity_key r \<noteq> key
          then orch_reject env st ORC_RECEIVED s given mode ''SIGNAL_IDENTITY_MISMATCH''
                 ''signal record identity does not match the signal'' False None
          else orch_moving ORC_RECEIVED ORC_VALIDATED st (resolve_intent env st r given mode))"

text \<open>A batch: every fault is isolated.\<close>

fun process_signal_many ::
  "(nat \<Rightarrow> trading_env) \<Rightarrow> orchestrator \<Rightarrow> signal_record list \<Rightarrow> string \<Rightarrow> orchestration_result list \<times> orchestrator" where
  "process_signal_many env st [] trading_mode = ([], st)"
| "process_signal_many env st (r # rs) trading_mode =
     (case process_signal (env (length rs)) st r trading_mode None of
        (Inr res, st1) \<Rightarrow>
          let (results, st2) = process_signal_many env st1 rs trading_mode in (res # results, st2)
      | (Inl err, st1) \<Rightarrow>
          let (results, st2) = process_signal_many env (bump_trading (\<lambda>x. x\<lparr>tx_errors := tx_errors x + 1\<rparr>) st1) rs trading_mode in
          (\<lparr>orr_state = ORC_FAILED, orr_intent = None, orr_risk_decision = None, orr_persisted = False, orr_record_id = None,
             orr_handoff_delivered = False, orr_reason_code = Some ''UNEXPECTED_ERROR'',
             orr_reason = (case err of OrchestrationStateError _ \<Rightarrow> ''OrchestrationStateError'' | OrchestrationValueError _ \<Rightarrow> ''ValueError''
               | RiskFault e \<Rightarrow> error_type_name e | ResolverFault n \<Rightarrow> n | PortFault n \<Rightarrow> n)\<rparr> # results, st2))"

section \<open>What a call does to the table and the handovers\<close>

lemma orch_moving_legal [simp]: "new \<in> set (orchestration_transitions m) \<Longrightarrow> orch_moving m new st next = next"
  by (simp add: orch_moving_def)

abbreviation intent_keys :: "trading_intent_row list \<Rightarrow> string list" where
  "intent_keys t \<equiv> map tw_orchestration_id t"

definition orch_quiet :: "orchestrator \<Rightarrow> orchestrator \<Rightarrow> bool" where
  "orch_quiet st st' \<longleftrightarrow> to_handoffs st' = to_handoffs st \<and>
     (case to_repository st of None \<Rightarrow> to_repository st' = None | Some t \<Rightarrow> \<exists>new. to_repository st' = Some (t @ new))"

definition hands_over :: "trading_env \<Rightarrow> trading_intent \<Rightarrow> orchestrator \<Rightarrow> orchestrator \<Rightarrow> bool" where
  "hands_over env i st st' \<longleftrightarrow> to_handoffs st' = to_handoffs st @ [i] \<and>
     (case to_repository st of
        None \<Rightarrow> to_repository st' = None
      | Some t \<Rightarrow> \<exists>new. to_repository st' = Some (t @ new) \<and>
          to_orm_trading_intent (tv_record_id env) i ORC_OMS_HANDOFF_READY \<in> set new \<and>
          (\<forall>q\<in>set t. \<not> intent_clash q (to_orm_trading_intent (tv_record_id env) i ORC_OMS_HANDOFF_READY)))"

lemma orch_quiet_same: "to_handoffs st' = to_handoffs st \<Longrightarrow> to_repository st' = to_repository st \<Longrightarrow> orch_quiet st st'"
  by (simp add: orch_quiet_def split: option.split)

lemma same_start:
  assumes "to_handoffs st = to_handoffs st0" "to_repository st = to_repository st0"
  shows "orch_quiet st st' \<longleftrightarrow> orch_quiet st0 st'" "hands_over env i st st' \<longleftrightarrow> hands_over env i st0 st'"
  using assms by (simp_all add: orch_quiet_def hands_over_def)

lemma remember_durable [simp]:
  "to_handoffs (remember_handed_off k i st) = to_handoffs st" "to_repository (remember_handed_off k i st) = to_repository st"
  by (simp_all add: remember_handed_off_def)

lemma persist_intent_grows:
  obtains new where "snd (persist_intent env t r) = t @ new"
    "\<And>rid. fst (persist_intent env t r) = Some (True, rid) \<Longrightarrow> r \<in> set new \<and> (\<forall>q\<in>set t. \<not> intent_clash q r)"
  using find_or_insert_grows [of intent_clash "tv_refs_ok env" tw_orchestration_id tw_id "tv_db_fail env" "tv_race env" t r]
  unfolding persist_intent_def by metis

lemma orch_reject_quiet: "orch_quiet st (snd (orch_reject env st m s intent mode code why persist d))"
proof (cases "persist \<and> to_repository st \<noteq> None")
  case False
  then show ?thesis by (auto simp: orch_reject_def orch_moving_def orch_quiet_def Let_def split: option.split)
next
  case True
  then obtain t where t: "to_repository st = Some t" "persist" by auto
  show ?thesis
  proof (cases "compute_orchestration_identity_key (rv_py (tv_risk env)) s intent mode")
    case None
    with t show ?thesis by (simp add: orch_reject_def orch_moving_def orch_quiet_def Let_def)
  next
    case (Some oid)
    let ?r = "to_orm_rejection (tv_record_id env) s intent mode oid code why d"
    obtain new where new: "snd (persist_intent env t ?r) = t @ new" by (rule persist_intent_grows)
    obtain res t' where p: "persist_intent env t ?r = (res, t')" by fastforce
    with new t Some show ?thesis
      by (cases res) (auto simp: orch_reject_def orch_moving_def orch_quiet_def Let_def)
  qed
qed

lemma reject_quiet_from [simp]:
  "to_handoffs st' = to_handoffs st \<Longrightarrow> to_repository st' = to_repository st \<Longrightarrow>
     orch_quiet st (snd (orch_reject env st' m s intent mode code why persist d))"
  using orch_reject_quiet [of st'] same_start(1) [of st' st] by simp

lemma claim_intent_effect:
  assumes "claim_intent env st i = (res, st')"
  shows "orch_quiet st st' \<and> (\<forall>b rid. res = Claim_New b rid \<longrightarrow> hands_over env i st (st'\<lparr>to_handoffs := to_handoffs st' @ [i]\<rparr>))"
proof (cases "map_of (to_handed_off st) (ti_orchestration_id i) \<noteq> None")
  case True
  with assms show ?thesis by (auto simp: claim_intent_def Let_def orch_quiet_same)
next
  case False
  show ?thesis
  proof (cases "to_repository st")
    case None
    with assms False show ?thesis by (auto simp: claim_intent_def Let_def orch_quiet_def hands_over_def)
  next
    case (Some t)
    let ?r = "to_orm_trading_intent (tv_record_id env) i ORC_OMS_HANDOFF_READY"
    obtain new where new: "snd (persist_intent env t ?r) = t @ new"
      "\<And>rid. fst (persist_intent env t ?r) = Some (True, rid) \<Longrightarrow> ?r \<in> set new \<and> (\<forall>q\<in>set t. \<not> intent_clash q ?r)"
      using persist_intent_grows [of env t ?r] by metis
    obtain out t' where p: "persist_intent env t ?r = (out, t')" by fastforce
    with new(1) have t': "t' = t @ new" by simp
    consider "out = None" | rid where "out = Some (False, rid)" | rid where "out = Some (True, rid)" by (cases out) auto
    then show ?thesis
    proof cases
      case 3
      then show ?thesis using assms False Some p t' new(2) by (auto simp: claim_intent_def Let_def orch_quiet_def hands_over_def)
    qed (use assms False Some p t' in \<open>auto simp: claim_intent_def Let_def orch_quiet_def\<close>)
  qed
qed

lemma hand_over_effect:
  "orch_quiet st (snd (hand_over env st i d)) \<or> hands_over env i st (snd (hand_over env st i d))"
proof -
  obtain res st' where c: "claim_intent env st i = (res, st')" by fastforce
  note eff = claim_intent_effect [OF c]
  show ?thesis
  proof (cases res)
    case (Claim_New persisted rid)
    then have h: "hands_over env i st (st'\<lparr>to_handoffs := to_handoffs st' @ [i]\<rparr>)" using eff by blast
    have "hands_over env i st (st'\<lparr>to_handoffs := to_handoffs st' @ [i], to_metrics := m\<rparr>)" for m
      using h by (simp add: hands_over_def split: option.splits)
    with h show ?thesis using c Claim_New by (cases "tv_port env i") (simp_all add: hand_over_def Let_def)
  qed (use eff c in \<open>auto simp: hand_over_def orch_quiet_def split: option.splits\<close>)
qed

text \<open>What is known of an intent that was handed over: the call it comes from and the checks it passed.\<close>

definition cleared_intent :: "trading_env \<Rightarrow> signal_record \<Rightarrow> risk_order_intent option \<Rightarrow> string \<Rightarrow> trading_intent \<Rightarrow> bool" where
  "cleared_intent env r given mode i \<longleftrightarrow>
     (\<exists>intent. (given = Some intent \<or> given = None \<and> tv_resolver env (sq_signal r) mode = Inr (Some intent)) \<and>
        rio_quantity intent = Some (ti_quantity i) \<and> 0 < ti_quantity i \<and>
        ti_account_id i = rio_account_id intent \<and> ti_order_type i = rio_order_type intent \<and>
        compute_risk_identity_key (rv_py (tv_risk env)) (sq_signal r) (Some intent) mode = Some (ti_binding_hash i) \<and>
        compute_orchestration_identity_key (rv_py (tv_risk env)) (sq_signal r) (Some intent) mode = Some (ti_orchestration_id i)) \<and>
     ti_trading_mode i = mode \<and> ti_action i = action_value (ss_action (sq_signal r)) \<and>
     ti_signal_id i = Some (ss_signal_id (sq_signal r)) \<and> ti_strategy_id i = Some (ss_strategy_id (sq_signal r)) \<and>
     ti_instrument_id i = Some (ss_instrument_id (sq_signal r)) \<and>
     ti_approval_id i \<noteq> None \<and> tz_aware (tv_clock env) \<and> instant (tv_clock env) < instant (ti_approval_expires_at i)"

lemma usable_approval:
  assumes "approval_is_usable d now (Some b) = Some True" "rd_expires_at d = Some t"
  shows "rd_decision d = APPROVED \<and> rd_approval_id d \<noteq> None \<and> tz_aware now \<and> instant now < instant t \<and> rd_binding_hash d = Some b"
  using assms by (auto simp: approval_is_usable_def is_valid_approval_at_def split: if_splits)

lemma evaluate_intent_effect:
  assumes "rio_quantity intent = Some quantity" "0 < quantity"
    and "given = Some intent \<or> given = None \<and> tv_resolver env (sq_signal r) mode = Inr (Some intent)"
  shows "orch_quiet st (snd (evaluate_intent env st r intent quantity mode)) \<or>
    (\<exists>i. hands_over env i st (snd (evaluate_intent env st r intent quantity mode)) \<and> cleared_intent env r given mode i)"
proof -
  let ?py = "rv_py (tv_risk env)" and ?s = "sq_signal r"
  obtain res risk' where e: "risk_evaluate (tv_risk env) (to_risk st) ?s (Some intent) mode = (res, risk')" by fastforce
  define st1 where "st1 = (bump_trading (\<lambda>x. x\<lparr>tx_risk_calls := tx_risk_calls x + 1\<rparr>) st)\<lparr>to_risk := risk'\<rparr>"
  define st2 where "st2 = bump_trading (\<lambda>x. x\<lparr>tx_risk_approvals := tx_risk_approvals x + 1\<rparr>) st1"
  have same: "to_handoffs st1 = to_handoffs st" "to_repository st1 = to_repository st"
    "to_handoffs st2 = to_handoffs st" "to_repository st2 = to_repository st" by (simp_all add: st1_def st2_def)
  show ?thesis
  proof (cases res)
    case (Inl err)
    then show ?thesis by (simp add: evaluate_intent_def e orch_quiet_same)
  next
    case (Inr outcome)
    define d where "d = ro_decision outcome"
    show ?thesis
    proof (cases "rd_decision d = RISK_REJECTED")
      case True
      then show ?thesis using Inr by (simp add: evaluate_intent_def e d_def Let_def)
    next
      case False
      let ?b = "compute_risk_identity_key ?py ?s (Some intent) mode" and ?o = "compute_orchestration_identity_key ?py ?s (Some intent) mode"
      have run: "evaluate_intent env st r intent quantity mode =
          (case (?b, ?o) of
             (Some binding, Some oid) \<Rightarrow>
               (case (approval_is_usable d (tv_clock env) (Some binding), rd_expires_at d) of
                  (Some True, Some expires) \<Rightarrow> hand_over env st2 (build_intent env r intent quantity mode d expires binding oid) d
                | (None, _) \<Rightarrow> (Inl (OrchestrationValueError ''value must be timezone-aware''), st2)
                | _ \<Rightarrow> orch_reject env st2 ORC_RISK_EVALUATED ?s (Some intent) mode ''PRIOR_APPROVAL_INVALID'' ''approval expired or unbound'' True (Some d))
           | _ \<Rightarrow> (Inl (OrchestrationValueError ''Invalid isoformat string''), st2))"
        using False Inr by (simp add: evaluate_intent_def e st1_def d_def st2_def Let_def split: option.split bool.split)
      show ?thesis
      proof (cases "\<exists>b oid t. ?b = Some b \<and> ?o = Some oid \<and> approval_is_usable d (tv_clock env) (Some b) = Some True \<and> rd_expires_at d = Some t")
        case True
        then obtain b oid t where u: "?b = Some b" "?o = Some oid" "approval_is_usable d (tv_clock env) (Some b) = Some True" "rd_expires_at d = Some t"
          by blast
        let ?i = "build_intent env r intent quantity mode d t b oid"
        have "cleared_intent env r given mode ?i"
          using assms u usable_approval [OF u(3,4)] by (auto simp: cleared_intent_def build_intent_def Let_def)
        then show ?thesis using hand_over_effect [of st2 env ?i d] same_start [of st2 st] same by (auto simp: run u)
      next
        case False
        have "orch_quiet st st2" using same by (simp add: orch_quiet_same)
        then show ?thesis unfolding run using False same by (auto split: option.split bool.split)
      qed
    qed
  qed
qed

lemma process_signal_effect:
  "orch_quiet st (snd (process_signal env st r m given)) \<or>
   (\<exists>i. hands_over env i st (snd (process_signal env st r m given)) \<and> cleared_intent env r given (upper m) i \<and>
      upper m \<in> {''BACKTEST'', ''PAPER''} \<and> sq_state r = SIG_PERSISTED \<and> ss_action (sq_signal r) \<noteq> ACT_HOLD \<and>
      compute_signal_identity_key (rv_py (tv_risk env)) (sq_signal r) = Some (sq_identity_key r))"
proof -
  define st1 where "st1 = bump_trading (\<lambda>x. x\<lparr>tx_signals_received := tx_signals_received x + 1\<rparr>) st"
  have same: "to_handoffs st1 = to_handoffs st" "to_repository st1 = to_repository st" by (simp_all add: st1_def)
  note same_st = same_start [OF same]
  show ?thesis
  proof (cases "upper m \<in> {''BACKTEST'', ''PAPER''} \<and> sq_state r = SIG_PERSISTED \<and> ss_action (sq_signal r) \<noteq> ACT_HOLD \<and>
      compute_signal_identity_key (rv_py (tv_risk env)) (sq_signal r) = Some (sq_identity_key r)")
    case False
    have "orch_quiet st (snd (process_signal env st r m given))"
    proof (cases "upper m \<in> {''BACKTEST'', ''PAPER''} \<and> sq_state r = SIG_PERSISTED \<and>
        compute_signal_identity_key (rv_py (tv_risk env)) (sq_signal r) = Some (sq_identity_key r)")
      case True
      with False show ?thesis by (auto simp: process_signal_def resolve_intent_def Let_def)
    next
      case False
      then show ?thesis by (auto simp: process_signal_def Let_def orch_quiet_same split: option.split)
    qed
    then show ?thesis ..
  next
    case ok: True
    then have act: "ss_action (sq_signal r) \<in> {ACT_BUY, ACT_SELL, ACT_EXIT}" by (cases "ss_action (sq_signal r)") auto
    have "process_signal env st r m given = resolve_intent env st1 r given (upper m)"
      using ok by (cases "upper m = ''BACKTEST''") (simp_all add: process_signal_def st1_def)
    then have run: "process_signal env st r m given =
        (case (case given of Some i \<Rightarrow> Inr (Some i) | None \<Rightarrow> tv_resolver env (sq_signal r) (upper m)) of
           Inl err \<Rightarrow> (Inl err, st1)
         | Inr found \<Rightarrow>
             (case (found, Option.bind found rio_quantity) of
                (Some intent, Some quantity) \<Rightarrow>
                  if quantity \<le> 0
                  then orch_reject env st1 ORC_VALIDATED (sq_signal r) found (upper m) ''INTENT_UNAVAILABLE'' ''no valid order quantity resolved'' False None
                  else evaluate_intent env st1 r intent quantity (upper m)
              | _ \<Rightarrow> orch_reject env st1 ORC_VALIDATED (sq_signal r) found (upper m) ''INTENT_UNAVAILABLE'' ''no valid order quantity resolved'' False None))"
      by (simp only: resolve_intent_def Let_def act not_True_eq_False if_False)
    show ?thesis
    proof (cases "\<exists>intent quantity. (given = Some intent \<or> given = None \<and> tv_resolver env (sq_signal r) (upper m) = Inr (Some intent)) \<and>
        rio_quantity intent = Some quantity \<and> 0 < quantity")
      case True
      then obtain intent quantity where i: "given = Some intent \<or> given = None \<and> tv_resolver env (sq_signal r) (upper m) = Inr (Some intent)"
        "rio_quantity intent = Some quantity" "0 < quantity" by blast
      then have "\<not> quantity \<le> 0" by (simp add: less_le_not_le)
      with i have "process_signal env st r m given = evaluate_intent env st1 r intent quantity (upper m)" by (auto simp: run)
      then show ?thesis using evaluate_intent_effect [OF i(2,3,1), of st1] ok same_st by auto
    next
      case False
      have s1: "orch_quiet st st1" using same by (simp add: orch_quiet_same)
      have "\<not> quantity \<le> 0 \<Longrightarrow> 0 < quantity" for quantity :: decimal by (simp add: decimal_order)
      then show ?thesis unfolding run using False same s1 by (auto split: option.split sum.split)
    qed
  qed
qed

section \<open>Runs of the orchestrator\<close>

definition trading_table :: "orchestrator \<Rightarrow> trading_intent_row list" where
  "trading_table st = (case to_repository st of None \<Rightarrow> [] | Some t \<Rightarrow> t)"

text \<open>A run: accepted signals processed, and restarts, which lose both in-memory caches and keep the tables.\<close>

datatype trading_call =
    Process trading_env signal_record string "risk_order_intent option"
  | Trading_Restart

fun trading_step :: "orchestrator \<Rightarrow> trading_call \<Rightarrow> orchestrator" where
  "trading_step st (Process env r m given) = snd (process_signal env st r m given)"
| "trading_step st Trading_Restart = st\<lparr>to_handed_off := [], to_risk := risk_step (to_risk st) Risk_Restart\<rparr>"

definition intent_of_call :: "trading_intent \<Rightarrow> trading_call \<Rightarrow> bool" where
  "intent_of_call i c \<longleftrightarrow> (\<exists>env r m given. c = Process env r m given \<and> cleared_intent env r given (upper m) i \<and>
     upper m \<in> {''BACKTEST'', ''PAPER''} \<and> sq_state r = SIG_PERSISTED \<and> ss_action (sq_signal r) \<noteq> ACT_HOLD \<and>
     compute_signal_identity_key (rv_py (tv_risk env)) (sq_signal r) = Some (sq_identity_key r))"

definition row_of_intent :: "trading_intent \<Rightarrow> trading_intent_row \<Rightarrow> bool" where
  "row_of_intent i q \<longleftrightarrow> tw_orchestration_id q = ti_orchestration_id i \<and> tw_approval_id q = map_option uuid_str (ti_approval_id i) \<and>
     tw_state q = ''oms_handoff_ready''"

definition stored :: "orchestrator \<Rightarrow> bool" where
  "stored st \<longleftrightarrow> to_repository st \<noteq> None"

lemma trading_step_cases:
  assumes "stored st"
  obtains (quiet) new where "to_handoffs (trading_step st c) = to_handoffs st" "to_repository (trading_step st c) = Some (trading_table st @ new)"
  | (handed) new i q where "to_handoffs (trading_step st c) = to_handoffs st @ [i]" "to_repository (trading_step st c) = Some (trading_table st @ new)"
      "q \<in> set new" "row_of_intent i q" "intent_of_call i c" "ti_approval_id i \<noteq> None" "\<forall>p\<in>set (trading_table st). \<not> intent_clash p q"
proof (cases c)
  case (Process env r m given)
  obtain t where t: "to_repository st = Some t" using assms by (auto simp: stored_def)
  from process_signal_effect [of st env r m given]
  consider "orch_quiet st (trading_step st c)"
    | i where "hands_over env i st (trading_step st c)" "intent_of_call i c"
    unfolding Process trading_step.simps intent_of_call_def by blast
  then show thesis
  proof cases
    case 1
    then show thesis using t quiet by (auto simp: orch_quiet_def trading_table_def)
  next
    case 2
    let ?q = "to_orm_trading_intent (tv_record_id env) i ORC_OMS_HANDOFF_READY"
    from 2(1) t obtain new where new: "to_handoffs (trading_step st c) = to_handoffs st @ [i]" "to_repository (trading_step st c) = Some (t @ new)"
      "?q \<in> set new" "\<forall>p\<in>set t. \<not> intent_clash p ?q" by (auto simp: hands_over_def)
    have a: "ti_approval_id i \<noteq> None" using 2(2) by (auto simp: intent_of_call_def cleared_intent_def)
    then have "row_of_intent i ?q" by (auto simp: row_of_intent_def to_orm_trading_intent_def)
    then show thesis using handed [of i new ?q] new a 2(2) t by (simp add: trading_table_def)
  qed
next
  case Trading_Restart
  then show thesis using assms quiet [of "[]"] by (auto simp: stored_def trading_table_def)
qed

lemma trading_step_stored: "stored st \<Longrightarrow> stored (trading_step st c)"
  by (cases rule: trading_step_cases [of st c]) (auto simp: stored_def)

lemma trading_step_grows: "stored st \<Longrightarrow> set (trading_table st) \<subseteq> set (trading_table (trading_step st c))"
  by (cases rule: trading_step_cases [of st c]) (auto simp: trading_table_def)

lemma trading_step_publishes:
  assumes "stored st" and "\<And>i q p. row_of_intent i q \<Longrightarrow> ti_approval_id i \<noteq> None \<Longrightarrow> key p = key_of i \<Longrightarrow> intent_clash p q"
    and "\<And>i q. row_of_intent i q \<Longrightarrow> key q = key_of i"
  shows "to_handoffs (trading_step st c) = to_handoffs st \<or> (\<exists>i. to_handoffs (trading_step st c) = to_handoffs st @ [i] \<and>
    key_of i \<notin> key ` set (trading_table st) \<and> key_of i \<in> key ` set (trading_table (trading_step st c)))"
  using assms(1)
proof (cases rule: trading_step_cases [of st c])
  case (handed new i q)
  have "key_of i \<notin> key ` set (trading_table st)" using assms(2) [OF handed(4,6)] handed(7) by fastforce
  moreover have "key_of i \<in> key ` set (trading_table (trading_step st c))"
    by (rule image_eqI [of _ _ q]) (use handed(2,3) assms(3) [OF handed(4)] in \<open>simp_all add: trading_table_def\<close>)
  ultimately show ?thesis using handed(1) by blast
qed simp

text \<open>The table is a publish-once boundary for orchestration identities, and, through its second unique column, for
  approvals.\<close>

interpretation intent_feed: publish_once trading_step "\<lambda>st. tw_orchestration_id ` set (trading_table st)" to_handoffs ti_orchestration_id stored
proof unfold_locales
  fix st c assume w: "stored st"
  show "tw_orchestration_id ` set (trading_table st) \<subseteq> tw_orchestration_id ` set (trading_table (trading_step st c))"
    using trading_step_grows [OF w] by blast
  show "to_handoffs (trading_step st c) = to_handoffs st \<or> (\<exists>i. to_handoffs (trading_step st c) = to_handoffs st @ [i] \<and>
      ti_orchestration_id i \<notin> tw_orchestration_id ` set (trading_table st) \<and>
      ti_orchestration_id i \<in> tw_orchestration_id ` set (trading_table (trading_step st c)))"
    by (rule trading_step_publishes [OF w]) (auto simp: row_of_intent_def intent_clash_def)
qed (rule trading_step_stored)

interpretation approval_feed: publish_once trading_step "\<lambda>st. tw_approval_id ` set (trading_table st)" to_handoffs
  "\<lambda>i. map_option uuid_str (ti_approval_id i)" stored
proof unfold_locales
  fix st c assume w: "stored st"
  show "tw_approval_id ` set (trading_table st) \<subseteq> tw_approval_id ` set (trading_table (trading_step st c))"
    using trading_step_grows [OF w] by blast
  show "to_handoffs (trading_step st c) = to_handoffs st \<or> (\<exists>i. to_handoffs (trading_step st c) = to_handoffs st @ [i] \<and>
      map_option uuid_str (ti_approval_id i) \<notin> tw_approval_id ` set (trading_table st) \<and>
      map_option uuid_str (ti_approval_id i) \<in> tw_approval_id ` set (trading_table (trading_step st c)))"
    by (rule trading_step_publishes [OF w]) (auto simp: row_of_intent_def intent_clash_def both_have_def)
qed (rule trading_step_stored)

lemma trading_run_intents:
  assumes "stored st" "to_handoffs st = []"
  shows "\<forall>i\<in>set (to_handoffs (foldl trading_step st cs)).
    (\<exists>c\<in>set cs. intent_of_call i c) \<and> (\<exists>q\<in>set (trading_table (foldl trading_step st cs)). row_of_intent i q)"
proof (induction cs rule: rev_induct)
  case (snoc c cs)
  let ?st = "foldl trading_step st cs"
  have w: "stored ?st" by (rule intent_feed.ready_run [OF assms(1)])
  from w show ?case
  proof (cases rule: trading_step_cases [of _ c])
    case (quiet new)
    then show ?thesis using snoc trading_step_grows [OF w, of c] by (simp, blast)
  next
    case (handed new i q)
    then have "q \<in> set (trading_table (trading_step ?st c))" by (simp add: trading_table_def)
    then show ?thesis using snoc handed trading_step_grows [OF w, of c] by (simp, blast)
  qed
qed (simp add: assms)

text \<open>C18.  The OMS is told of an intent at most once: from an orchestrator with a repository, over any
  sequence of processed signals and restarts, with any clocks, resolvers, providers, ports, database failures and
  concurrent writers, the intents handed over have pairwise different orchestration identities and pairwise different risk approvals; each
  comes from a call in BACKTEST or PAPER mode for a PERSISTED signal whose record carries its identity and
  whose action is not HOLD, has the positive quantity, account and order type of the order intent, is bound to the risk
  identity of exactly that request, carries an approval that had not expired when the call began, and is stored as
  OMS_HANDOFF_READY.\<close>

theorem intent_handed_over_once:
  assumes "to_repository st = Some t" "to_handoffs st = []"
  shows "distinct (map ti_orchestration_id (to_handoffs (foldl trading_step st calls))) \<and>
    distinct (map ti_approval_id (to_handoffs (foldl trading_step st calls))) \<and>
    (\<forall>i\<in>set (to_handoffs (foldl trading_step st calls)).
       (\<exists>c\<in>set calls. intent_of_call i c) \<and> (\<exists>q\<in>set (trading_table (foldl trading_step st calls)). row_of_intent i q))"
proof -
  let ?h = "to_handoffs (foldl trading_step st calls)"
  have w: "stored st" using assms(1) by (simp add: stored_def)
  have "distinct (map (\<lambda>i. map_option uuid_str (ti_approval_id i)) ?h)" using approval_feed.published_from_start [OF w assms(2), of calls] by blast
  then have "distinct (map (map_option uuid_str) (map ti_approval_id ?h))" by (simp add: comp_def)
  then have "distinct (map ti_approval_id ?h)" unfolding distinct_map by blast
  then show ?thesis using intent_feed.published_from_start [OF w assms(2), of calls] trading_run_intents [OF w assms(2), of calls] by blast
qed

section \<open>The OMS side\<close>

text \<open>C19.  What the OMS makes of an intent that was just handed over: it accepts it exactly when no halt is active, the
  approval has not expired, and the three fields the orchestrator does not check are right, the account being
  present, the order type one of the four known ones and the quantity a whole number (the orchestration id, a hash,
  not being blank).  The mode, the action, the sign of the quantity, the identities and the approval are never the reason for a
  refusal.\<close>

theorem handed_over_intent_accepted:
  assumes "to_handoffs (snd (process_signal env st r m given)) = to_handoffs st @ [i]"
  shows "is_ok (validate_intent (Some i) now halt) \<longleftrightarrow>
    \<not> halt \<and> tz_aware now \<and> tz_aware (ti_approval_expires_at i) \<and> instant now < instant (ti_approval_expires_at i) \<and>
    ti_account_id i \<noteq> None \<and> upper (ti_order_type i) \<in> {''MARKET'', ''LIMIT'', ''STOP'', ''STOP_LIMIT''} \<and>
    dval (ti_quantity i) \<in> \<int> \<and> \<not> blank (ti_orchestration_id i)"
proof -
  have "\<not> orch_quiet st (snd (process_signal env st r m given))" using assms by (simp add: orch_quiet_def)
  then obtain j where "hands_over env j st (snd (process_signal env st r m given))" and j: "cleared_intent env r given (upper m) j"
    "upper m \<in> {''BACKTEST'', ''PAPER''}" "ss_action (sq_signal r) \<noteq> ACT_HOLD" using process_signal_effect [of st env r m given] by blast
  then have ij: "i = j" using assms by (simp add: hands_over_def)
  have up: "upper ''BUY'' = ''BUY''" "upper ''SELL'' = ''SELL''" "upper ''EXIT'' = ''EXIT''" by code_simp+
  have "upper (ti_action i) \<in> {''BUY'', ''SELL'', ''EXIT''}"
    using j(1,3) up unfolding ij by (cases "ss_action (sq_signal r)") (auto simp: cleared_intent_def)
  moreover have "ti_trading_mode i = upper m" "0 < dval (ti_quantity i)"
    "ti_signal_id i \<noteq> None" "ti_strategy_id i \<noteq> None" "ti_instrument_id i \<noteq> None" "ti_approval_id i \<noteq> None"
    using j(1) unfolding ij by (auto simp: cleared_intent_def decimal_order)
  ultimately show ?thesis using j(2) unfolding validate_intent_ok intent_ok_def by auto
qed

section \<open>Sample run\<close>

definition sample_record :: signal_record where
  "sample_record = \<lparr>sq_signal = sample_signal, sq_record_id = 61, sq_identity_key = ''k'', sq_state = SIG_PERSISTED\<rparr>"

definition sample_trading_env :: "risk_env \<Rightarrow> trading_env" where
  "sample_trading_env renv = \<lparr>tv_clock = utc 10, tv_risk = renv, tv_resolver = (\<lambda>_ _. Inr (Some sample_risk_intent)), tv_correlation_id = 71,
     tv_record_id = 72, tv_refs_ok = (\<lambda>_. True), tv_db_fail = (\<lambda>_. False), tv_race = [], tv_port = (\<lambda>_. Inr True)\<rparr>"

definition sample_orchestrator :: orchestrator where
  "sample_orchestrator = \<lparr>to_risk = sample_risk, to_repository = Some [], to_handed_off = [], to_capacity = 8,
     to_metrics = \<lparr>tx_signals_received = 0, tx_signals_rejected = 0, tx_risk_calls = 0, tx_risk_approvals = 0, tx_risk_rejections = 0,
       tx_duplicates = 0, tx_persistence_failures = 0, tx_oms_handoff_failures = 0, tx_errors = 0, tx_by_state = (\<lambda>_. 0)\<rparr>,
     to_handoffs = []\<rparr>"

lemma sample_process:
  assumes run: "risk_evaluate renv sample_risk sample_signal (Some sample_risk_intent) ''PAPER'' = (Inr out, risk')"
    and d: "rd_decision (ro_decision out) = APPROVED" "rd_expires_at (ro_decision out) = Some (utc (10 + usec 30))"
      "rd_approval_id (ro_decision out) = Some u" "rd_binding_hash (ro_decision out) = Some ''risk''"
    and renv: "rv_py renv = sample_risk_py"
  shows "\<exists>i st'. snd (process_signal (sample_trading_env renv) sample_orchestrator sample_record ''PAPER'' None) = st' \<and>
    to_handoffs st' = [i] \<and> to_risk st' = risk' \<and> ti_approval_id i = Some u \<and> ti_account_id i = Some 3 \<and> ti_order_type i = ''MARKET'' \<and>
    ti_quantity i = Dec 10 0 \<and> ti_orchestration_id i = ''risk'' \<and> ti_approval_expires_at i = utc (10 + usec 30)"
proof -
  have usable: "approval_is_usable (ro_decision out) (utc 10) (Some ''risk'') = Some True"
    using d by (simp add: approval_is_usable_def is_valid_approval_at_def usec_def)
  have oid: "compute_orchestration_identity_key sample_risk_py sample_signal (Some sample_risk_intent) ''PAPER'' = Some ''risk''"
    "compute_signal_identity_key sample_risk_py sample_signal = Some ''k''"
    by (simp_all add: compute_orchestration_identity_key_def compute_signal_identity_key_def event_timestamp_def sample_risk_py_def)
  have quantity: "rio_quantity sample_risk_intent = Some (Dec 10 0)" "\<not> Dec 10 0 \<le> (0 :: decimal)"
    by (simp_all add: sample_risk_intent_def decimal_order dval_small zero_decimal_def)
  have intent: "rio_account_id sample_risk_intent = Some 3" "rio_order_type sample_risk_intent = ''MARKET''" by (simp_all add: sample_risk_intent_def)
  show ?thesis
    by (simp add: process_signal_def resolve_intent_def evaluate_intent_def sample_trading_env_def sample_orchestrator_def sample_record_def
        renv run d usable oid quantity intent hand_over_def claim_intent_def persist_intent_def find_or_insert_def insert_row_def
        remember_handed_off_def build_intent_def Let_def)
qed

theorem intent_handed_over_once_witness:
  "\<exists>i. to_handoffs (foldl trading_step sample_orchestrator [Process (sample_trading_env (sample_risk_env 1)) sample_record ''PAPER'' None]) = [i] \<and>
     ti_approval_id i = Some 1 \<and>
     (\<exists>q\<in>set (trading_table (foldl trading_step sample_orchestrator [Process (sample_trading_env (sample_risk_env 1)) sample_record ''PAPER'' None])).
        row_of_intent i q)"
proof -
  let ?calls = "[Process (sample_trading_env (sample_risk_env 1)) sample_record ''PAPER'' None]"
  obtain out risk' where run: "risk_evaluate (sample_risk_env 1) sample_risk sample_signal (Some sample_risk_intent) ''PAPER'' = (Inr out, risk')"
    "rd_decision (ro_decision out) = APPROVED" "rd_expires_at (ro_decision out) = Some (utc (10 + usec 30))"
    "rd_approval_id (ro_decision out) = Some 1" "rd_binding_hash (ro_decision out) = Some ''risk''" by (rule sample_step [of sample_risk 1]) auto
  obtain i where i: "to_handoffs (foldl trading_step sample_orchestrator ?calls) = [i]" "ti_approval_id i = Some 1"
    using sample_process [OF run] by auto
  then show ?thesis using intent_handed_over_once [of sample_orchestrator "[]" ?calls] by (simp add: sample_orchestrator_def)
qed

theorem handed_over_intent_accepted_witness:
  "\<exists>i. to_handoffs (snd (process_signal (sample_trading_env (sample_risk_env 1)) sample_orchestrator sample_record ''PAPER'' None)) = [i] \<and>
     is_ok (validate_intent (Some i) (utc 11) False)"
proof -
  obtain out risk' where run: "risk_evaluate (sample_risk_env 1) sample_risk sample_signal (Some sample_risk_intent) ''PAPER'' = (Inr out, risk')"
    "rd_decision (ro_decision out) = APPROVED" "rd_expires_at (ro_decision out) = Some (utc (10 + usec 30))"
    "rd_approval_id (ro_decision out) = Some 1" "rd_binding_hash (ro_decision out) = Some ''risk''" by (rule sample_step [of sample_risk 1]) auto
  obtain i where i: "to_handoffs (snd (process_signal (sample_trading_env (sample_risk_env 1)) sample_orchestrator sample_record ''PAPER'' None)) = [i]"
    "ti_account_id i = Some 3" "ti_order_type i = ''MARKET''" "ti_quantity i = Dec 10 0" "ti_orchestration_id i = ''risk''"
    "ti_approval_expires_at i = utc (10 + usec 30)" using sample_process [OF run] by auto
  have up: "upper ''MARKET'' = ''MARKET''" by code_simp
  have "to_handoffs (snd (process_signal (sample_trading_env (sample_risk_env 1)) sample_orchestrator sample_record ''PAPER'' None)) =
      to_handoffs sample_orchestrator @ [i]" using i(1) by (simp add: sample_orchestrator_def)
  from handed_over_intent_accepted [OF this, of "utc 11" False] i up show ?thesis
    by (simp add: usec_def dval_small blank_Cons is_space_def)
qed

section \<open>An approval that was not committed\<close>

abbreviation decided :: "(risk_error, risk_evaluation_outcome) result \<times> risk_service \<Rightarrow> (risk_error, risk_decision) result" where
  "decided res \<equiv> map_sum id ro_decision (fst res)"

lemma finish_reject_decided: "decided (finish_reject env st d i m k) = Inr d"
  by (simp add: finish_reject_def split: prod.split)

lemma finish_decision_decided: "decided (finish_decision env st s i m k now sid d) = Inr (bind_approval k sid d)"
  by (simp add: finish_decision_def Let_def split: prod.split)

lemma reject_early_decided:
  "decided (reject_early (env\<lparr>rv_db_fail := f\<rparr>) st q i m k now rule code why) = decided (reject_early env st q i m k now rule code why)"
  by (simp add: reject_early_def finish_reject_decided split: sum.split)

lemma evaluate_context_decided:
  "decided (evaluate_context (env\<lparr>rv_db_fail := f\<rparr>) st q s i m k now) = decided (evaluate_context env st q s i m k now)"
  by (auto simp: evaluate_context_def reject_early_decided finish_decision_decided split: sum.split risk_error.split)

lemma risk_decision_ignores_commit:
  "decided (risk_evaluate (env\<lparr>rv_db_fail := f\<rparr>) st s i m) = decided (risk_evaluate env st s i m)"
  by (auto simp: risk_evaluate_def evaluate_locked_def Let_def reject_early_decided evaluate_context_decided split: option.split prod.split)

definition uncommitted :: "risk_service \<Rightarrow> risk_service \<Rightarrow> bool" where
  "uncommitted st st' \<longleftrightarrow> rs_repository st' = rs_repository st \<and> rs_published st' = rs_published st"

lemma risk_persist_failing:
  assumes "\<forall>i. rv_db_fail env i" "rs_repository st = Some t"
  shows "\<exists>st'. risk_persist env st d i m sid k = ((False, None), st') \<and> uncommitted st st'"
  using assms by (simp add: risk_persist_def persist_risk_event_def find_or_insert_def uncommitted_def)

lemma finish_reject_failing:
  assumes "\<forall>i. rv_db_fail env i" "rs_repository st = Some t"
  shows "uncommitted st (snd (finish_reject env st d i m k))"
  using risk_persist_failing [OF assms(1), of "record_seen k d st" t d i m None k] assms(2)
  by (auto simp: finish_reject_def uncommitted_def)

lemma reject_early_failing:
  assumes "\<forall>i. rv_db_fail env i" "rs_repository st = Some t"
  shows "uncommitted st (snd (reject_early env st q i m k now rule code why))"
  using finish_reject_failing [OF assms(1), of "bump_risk (count_rejection rule) st" t] assms(2)
  by (auto simp: reject_early_def uncommitted_def split: sum.split)

lemma finish_decision_failing:
  assumes "\<forall>i. rv_db_fail env i" "rs_repository st = Some t"
  shows "uncommitted st (snd (finish_decision env st s i m k now sid d0))"
proof -
  let ?d = "bind_approval k sid d0"
  let ?st = "count_retry k (bump_risk (count_decision ?d) (record_outcomes ?d (instant now) (risk_scopes s) st))"
  have "rs_repository ?st = Some t" "uncommitted st ?st"
    using assms(2) by (simp_all add: count_retry_def record_outcomes_def uncommitted_def)
  moreover obtain st' where "risk_persist env ?st ?d i m (Some sid) k = ((False, None), st')" "uncommitted ?st st'"
    using risk_persist_failing [OF assms(1) \<open>rs_repository ?st = Some t\<close>] by blast
  ultimately show ?thesis using assms(2) by (simp add: finish_decision_def Let_def uncommitted_def)
qed

lemma risk_evaluate_failing:
  assumes "\<forall>i. rv_db_fail env i" "rs_repository st = Some t"
  shows "uncommitted st (snd (risk_evaluate env st s i m))"
proof -
  have inner: "uncommitted x (snd (evaluate_context env x q s i m' k now))" if "rs_repository x = Some t" for x q m' k now
    using reject_early_failing [OF assms(1), of "bump_risk f x" t for f] reject_early_failing [OF assms(1) that] finish_decision_failing [OF assms(1) that] that
    by (auto simp: evaluate_context_def uncommitted_def split: sum.split risk_error.split)
  have "uncommitted x (snd (evaluate_locked env x q s i m' k now))" if "rs_repository x = Some t" for x q m' k now
    using reject_early_failing [OF assms(1), of "bump_risk f (x\<lparr>rs_breakers := b\<rparr>)" t for f b] reject_early_failing [OF assms(1), of "bump_risk f x" t for f]
      reject_early_failing [OF assms(1) that] inner [of "x\<lparr>rs_breakers := b\<rparr>" for b] that
    by (auto simp: evaluate_locked_def Let_def uncommitted_def split: option.split prod.split)
  from this [of "bump_risk (\<lambda>m. m\<lparr>rx_evaluations := rx_evaluations m + 1\<rparr>) st"] assms(2)
  show ?thesis by (auto simp: risk_evaluate_def Let_def uncommitted_def split: option.split)
qed

text \<open>After the decision the orchestrator does not look at the risk service any more.\<close>

abbreviation with_risk :: "risk_service \<Rightarrow> orchestrator \<Rightarrow> orchestrator" where
  "with_risk x st \<equiv> st\<lparr>to_risk := x\<rparr>"

abbreviation with_risk_env :: "(nat \<Rightarrow> bool) \<Rightarrow> trading_env \<Rightarrow> trading_env" where
  "with_risk_env f env \<equiv> env\<lparr>tv_risk := (tv_risk env)\<lparr>rv_db_fail := f\<rparr>\<rparr>"

lemma metrics_risk: "(with_risk x st)\<lparr>to_metrics := m\<rparr> = with_risk x (st\<lparr>to_metrics := m\<rparr>)"
  by simp

lemma orch_reject_risk:
  "orch_reject (with_risk_env f env) (with_risk x st) m s i mode code why persist d =
   apsnd (with_risk x) (orch_reject env st m s i mode code why persist d)"
  by (auto simp: orch_reject_def orch_moving_def Let_def persist_intent_def split: option.split prod.split)

lemma hand_over_risk:
  "hand_over (with_risk_env f env) (with_risk x st) i d = apsnd (with_risk x) (hand_over env st i d)"
  by (auto simp: hand_over_def claim_intent_def orch_moving_def remember_handed_off_def Let_def persist_intent_def
      split: option.split prod.split claim_outcome.split sum.split bool.split)

text \<open>A step seen from outside the risk service.\<close>

abbreviation outside :: "(trading_error, orchestration_result) result \<times> orchestrator \<Rightarrow> trading_intent list \<times> trading_intent_row list option" where
  "outside res \<equiv> (to_handoffs (snd res), to_repository (snd res))"

lemma outside_apsnd [simp]: "to_handoffs (snd (apsnd (with_risk x) res)) = to_handoffs (snd res)"
  "to_repository (snd (apsnd (with_risk x) res)) = to_repository (snd res)"
  "to_risk (snd (apsnd (with_risk x) res)) = x"
  by (simp_all add: apsnd_def map_prod_def case_prod_beta)

definition after_decision ::
  "trading_env \<Rightarrow> orchestrator \<Rightarrow> signal_record \<Rightarrow> risk_order_intent \<Rightarrow> decimal \<Rightarrow> string \<Rightarrow> risk_decision
   \<Rightarrow> (trading_error, orchestration_result) result \<times> orchestrator" where
  "after_decision env st r intent quantity mode d =
     (let s = sq_signal r; py = rv_py (tv_risk env) in
      orch_moving ORC_VALIDATED ORC_RISK_EVALUATED st
            (if rd_decision d = RISK_REJECTED
             then orch_reject env (bump_trading (\<lambda>x. x\<lparr>tx_risk_rejections := tx_risk_rejections x + 1\<rparr>) st) ORC_RISK_EVALUATED s (Some intent) mode
                    (rd_reason_code d) (rd_reason d) True (Some d)
             else
               let st2 = bump_trading (\<lambda>x. x\<lparr>tx_risk_approvals := tx_risk_approvals x + 1\<rparr>) st in
               case (compute_risk_identity_key py s (Some intent) mode, compute_orchestration_identity_key py s (Some intent) mode) of
                 (Some binding, Some oid) \<Rightarrow>
                   (case (approval_is_usable d (tv_clock env) (Some binding), rd_expires_at d) of
                      (Some True, Some expires) \<Rightarrow>
                        orch_moving ORC_RISK_EVALUATED ORC_APPROVED st2
                          (hand_over env st2 (build_intent env r intent quantity mode d expires binding oid) d)
                    | (None, _) \<Rightarrow> (Inl (OrchestrationValueError ''value must be timezone-aware''), st2)
                    | _ \<Rightarrow> orch_reject env st2 ORC_RISK_EVALUATED s (Some intent) mode ''PRIOR_APPROVAL_INVALID'' ''approval expired or unbound'' True (Some d))
               | _ \<Rightarrow> (Inl (OrchestrationValueError ''Invalid isoformat string''), st2)))"

lemma evaluate_intent_after:
  "evaluate_intent env st r intent quantity mode =
     (let st1 = bump_trading (\<lambda>x. x\<lparr>tx_risk_calls := tx_risk_calls x + 1\<rparr>) st;
          (res, risk') = risk_evaluate (tv_risk env) (to_risk st) (sq_signal r) (Some intent) mode in
      case map_sum id ro_decision res of
        Inl err \<Rightarrow> (Inl (RiskFault err), with_risk risk' st1)
      | Inr d \<Rightarrow> after_decision env (with_risk risk' st1) r intent quantity mode d)"
  by (auto simp: evaluate_intent_def after_decision_def Let_def split: prod.split sum.split)

lemma build_intent_risk: "build_intent (with_risk_env f env) = build_intent env"
  by (simp add: build_intent_def fun_eq_iff)

lemma after_decision_risk:
  "after_decision (with_risk_env f env) (with_risk x st) r intent quantity mode d = apsnd (with_risk x) (after_decision env st r intent quantity mode d)"
  by (auto simp: after_decision_def orch_moving_def Let_def build_intent_risk metrics_risk orch_reject_risk hand_over_risk
      split: option.split bool.split)

lemma evaluate_intent_failing:
  assumes "rs_repository (to_risk st) = Some t"
  shows "outside (evaluate_intent (with_risk_env (\<lambda>_. True) env) st r intent quantity mode) = outside (evaluate_intent env st r intent quantity mode) \<and>
    uncommitted (to_risk st) (to_risk (snd (evaluate_intent (with_risk_env (\<lambda>_. True) env) st r intent quantity mode)))"
proof -
  let ?fenv = "(tv_risk env)\<lparr>rv_db_fail := (\<lambda>_. True)\<rparr>"
  obtain res risk where a: "risk_evaluate (tv_risk env) (to_risk st) (sq_signal r) (Some intent) mode = (res, risk)" by (rule prod.exhaust)
  obtain res' risk' where b: "risk_evaluate ?fenv (to_risk st) (sq_signal r) (Some intent) mode = (res', risk')" by (rule prod.exhaust)
  have same: "map_sum id ro_decision res' = map_sum id ro_decision res"
    using risk_decision_ignores_commit [of "\<lambda>_. True" "tv_risk env" "to_risk st" "sq_signal r" "Some intent" mode] a b by simp
  have "uncommitted (to_risk st) risk'" using risk_evaluate_failing [of ?fenv "to_risk st" t "sq_signal r" "Some intent" mode] assms b by simp
  then show ?thesis
    using after_decision_risk [of "rv_db_fail (tv_risk env)" env risk]
    by (cases "map_sum id ro_decision res") (simp_all add: evaluate_intent_after Let_def a b same after_decision_risk)
qed

lemma orch_reject_env: "orch_reject (with_risk_env f env) = orch_reject env"
  by (auto simp: orch_reject_def orch_moving_def persist_intent_def Let_def fun_eq_iff split: option.split prod.split)

lemma orch_reject_to_risk: "to_risk (snd (orch_reject env st m s i mode code why persist d)) = to_risk st"
  by (auto simp: orch_reject_def orch_moving_def Let_def split: option.split prod.split)

lemma resolve_intent_failing:
  assumes "rs_repository (to_risk st) = Some t"
  shows "outside (resolve_intent (with_risk_env (\<lambda>_. True) env) st r given mode) = outside (resolve_intent env st r given mode) \<and>
    uncommitted (to_risk st) (to_risk (snd (resolve_intent (with_risk_env (\<lambda>_. True) env) st r given mode)))"
  using evaluate_intent_failing [OF assms, of env r]
  by (auto simp: resolve_intent_def Let_def orch_reject_env orch_reject_to_risk uncommitted_def split: sum.split option.split)

text \<open>C20.  The orchestrator acts on an approval whether or not it was committed.  For every orchestrator whose risk service has a
  repository, every environment and every signal: when the risk table cannot be read or written, \<^verbatim>\<open>process_signal\<close> hands exactly the
  same intents to the OMS and stores exactly the same rows of intents as in the given environment, although no risk event is
  stored and no decision is published.\<close>

theorem uncommitted_approval_handed_over:
  assumes "rs_repository (to_risk st) = Some t"
  shows "let failing = snd (process_signal (env\<lparr>tv_risk := (tv_risk env)\<lparr>rv_db_fail := (\<lambda>_. True)\<rparr>\<rparr>) st r mode given);
             run = snd (process_signal env st r mode given)
         in to_handoffs failing = to_handoffs run \<and> to_repository failing = to_repository run \<and>
            rs_repository (to_risk failing) = Some t \<and> rs_published (to_risk failing) = rs_published (to_risk st)"
proof -
  let ?st = "bump_trading (\<lambda>x. x\<lparr>tx_signals_received := tx_signals_received x + 1\<rparr>) st"
  have "rs_repository (to_risk ?st) = Some t" using assms by simp
  note inner = resolve_intent_failing [OF this, of env r given]
  show ?thesis using inner assms
    by (auto simp: process_signal_def Let_def orch_reject_env orch_reject_to_risk uncommitted_def split: option.split)
qed

theorem uncommitted_approval_handed_over_witness:
  "\<exists>i st'. snd (process_signal (sample_trading_env ((sample_risk_env 1)\<lparr>rv_db_fail := (\<lambda>_. True)\<rparr>)) sample_orchestrator sample_record ''PAPER'' None) = st' \<and>
     to_handoffs st' = [i] \<and> ti_approval_id i = Some 1 \<and> rs_repository (to_risk st') = Some [] \<and> rs_published (to_risk st') = []"
proof -
  let ?env = "sample_trading_env (sample_risk_env 1)"
  obtain out risk' where run: "risk_evaluate (sample_risk_env 1) sample_risk sample_signal (Some sample_risk_intent) ''PAPER'' = (Inr out, risk')"
    "rd_decision (ro_decision out) = APPROVED" "rd_expires_at (ro_decision out) = Some (utc (10 + usec 30))"
    "rd_approval_id (ro_decision out) = Some 1" "rd_binding_hash (ro_decision out) = Some ''risk''" by (rule sample_step [of sample_risk 1]) auto
  obtain i where "to_handoffs (snd (process_signal ?env sample_orchestrator sample_record ''PAPER'' None)) = [i]" "ti_approval_id i = Some 1"
    using sample_process [OF run] by auto
  moreover have "?env\<lparr>tv_risk := (tv_risk ?env)\<lparr>rv_db_fail := (\<lambda>_. True)\<rparr>\<rparr> = sample_trading_env ((sample_risk_env 1)\<lparr>rv_db_fail := (\<lambda>_. True)\<rparr>)"
    by (simp add: sample_trading_env_def)
  moreover have "rs_repository (to_risk sample_orchestrator) = Some []" "rs_published (to_risk sample_orchestrator) = []"
    by (simp_all add: sample_orchestrator_def)
  ultimately show ?thesis
    using uncommitted_approval_handed_over [of sample_orchestrator "[]" ?env sample_record "''PAPER''" None] by (simp add: Let_def)
qed

end
