(* ===== verification/Py_Calendar.thy ===== *)
theory Py_Calendar
  imports Prelude
begin

text \<open>
  The calendar part of Python's \<^verbatim>\<open>datetime\<close>: the date of an ordinal in the proleptic Gregorian
  calendar (the algorithm of the standard library), the fields of a timestamp in its own time
  zone, and \<^verbatim>\<open>isoformat(timespec="microseconds")\<close>.  Instants are counted in microseconds from
  1970-01-01 00:00 UTC.  The conversion from ordinals to dates is shown to be injective through
  the inverse conversion, and from it the ISO text of an instant is shown to determine the instant.
\<close>

section \<open>Fixed-width decimal numbers\<close>

fun dec_fixed :: "nat \<Rightarrow> nat \<Rightarrow> string" where
  "dec_fixed 0 n = []"
| "dec_fixed (Suc k) n = dec_fixed k (n div 10) @ [char_of (48 + n mod 10)]"

lemma length_dec_fixed [simp]: "length (dec_fixed k n) = k"
  by (induction k arbitrary: n) simp_all

lemma dec_fixed_digits: "c \<in> set (dec_fixed k n) \<Longrightarrow> is_digit c"
  by (induction k arbitrary: n) (auto simp: is_digit_def of_char_of)

lemma dec_char_eq: "(char_of (48 + n mod 10) :: char) = char_of (48 + m mod 10) \<Longrightarrow> n mod 10 = (m mod 10 :: nat)"
proof -
  assume "(char_of (48 + n mod 10) :: char) = char_of (48 + m mod 10)"
  then have "(of_char (char_of (48 + n mod 10) :: char) :: nat) = of_char (char_of (48 + m mod 10) :: char)" by simp
  then show ?thesis by (simp add: of_char_of)
qed

lemma dec_fixed_inj: "dec_fixed k n = dec_fixed k m \<Longrightarrow> n < 10 ^ k \<Longrightarrow> m < 10 ^ k \<Longrightarrow> n = m"
proof (induction k arbitrary: n m)
  case (Suc k)
  then have "n div 10 = m div 10" by (intro Suc.IH) (auto simp: less_mult_imp_div_less)
  moreover have "n mod 10 = m mod 10" using Suc.prems(1) by (auto dest: dec_char_eq)
  ultimately show ?case by (metis div_mult_mod_eq)
qed simp

declare dec_fixed.simps [simp del]

section \<open>Dates\<close>

definition days_in_month :: "nat \<Rightarrow> int" where
  "days_in_month m = [0, 31, 28, 31, 30, 31, 30, 31, 31, 30, 31, 30, 31] ! m"

definition days_before_month_table :: "nat \<Rightarrow> int" where
  "days_before_month_table m = [0, 0, 31, 59, 90, 120, 151, 181, 212, 243, 273, 304, 334] ! m"

definition is_leap :: "int \<Rightarrow> bool" where
  "is_leap y \<longleftrightarrow> y mod 4 = 0 \<and> (y mod 100 \<noteq> 0 \<or> y mod 400 = 0)"

definition days_before_year :: "int \<Rightarrow> int" where
  "days_before_year y = (let z = y - 1 in z * 365 + z div 4 - z div 100 + z div 400)"

definition ymd2ord :: "int \<times> nat \<times> int \<Rightarrow> int" where
  "ymd2ord = (\<lambda>(y, m, d). days_before_year y + days_before_month_table m + of_bool (2 < m \<and> is_leap y) + d)"

text \<open>The month and the day for a day number \<open>n\<close> inside a year, and the date of an ordinal.\<close>

definition month_day :: "bool \<Rightarrow> int \<Rightarrow> nat \<times> int" where
  "month_day leap n =
     (let month = nat ((n + 50) div 32);
          preceding = days_before_month_table month + of_bool (2 < month \<and> leap) in
      if n < preceding
      then (month - 1, n - (preceding - (days_in_month (month - 1) + of_bool (month - 1 = 2 \<and> leap))) + 1)
      else (month, n - preceding + 1))"

definition ord2ymd :: "int \<Rightarrow> int \<times> nat \<times> int" where
  "ord2ymd ord =
     (let n = ord - 1;
          n400 = n div 146097; r400 = n mod 146097;
          n100 = r400 div 36524; r100 = r400 mod 36524;
          n4 = r100 div 1461; r4 = r100 mod 1461;
          n1 = r4 div 365; r1 = r4 mod 365;
          year = n400 * 400 + 1 + n100 * 100 + n4 * 4 + n1 in
      if n1 = 4 \<or> n100 = 4 then (year - 1, 12, 31)
      else (year, month_day (n1 = 3 \<and> (n4 \<noteq> 24 \<or> n100 = 3)) r1))"

lemma month_day_ok:
  assumes "0 \<le> n" "n < 365 + of_bool leap"
  defines "md \<equiv> month_day leap n"
  shows "days_before_month_table (fst md) + of_bool (2 < fst md \<and> leap) + snd md = n + 1"
    and "1 \<le> fst md" "fst md \<le> 12" "1 \<le> snd md" "snd md \<le> 31"
proof -
  define k where "k = (n + 50) div 32"
  have lo: "32 * k \<le> n + 50" and hi: "n + 50 < 32 * k + 32" unfolding k_def by presburger+
  have nat: "nat ((n + 50) div 32) = nat k" by (simp add: k_def)
  have "1 \<le> k" "k \<le> 12" using assms(1,2) lo hi by (cases leap; simp)+
  then have c: "k = 1 \<or> k = 2 \<or> k = 3 \<or> k = 4 \<or> k = 5 \<or> k = 6 \<or> k = 7 \<or> k = 8 \<or> k = 9 \<or> k = 10 \<or> k = 11 \<or> k = 12"
    by arith
  note defs = md_def month_day_def Let_def days_before_month_table_def days_in_month_def nat
  show "days_before_month_table (fst md) + of_bool (2 < fst md \<and> leap) + snd md = n + 1"
    using c by (elim disjE) (simp_all add: defs)
  show "1 \<le> fst md" "fst md \<le> 12" "1 \<le> snd md" "snd md \<le> 31"
    using c assms(1,2) lo hi by (elim disjE; cases leap; simp add: defs)+
qed

text \<open>The quotients and remainders of the conversion, by name.\<close>

lemma ord2ymd_parts:
  obtains a b c d u where
    "ord2ymd n = (let y = a * 400 + 1 + b * 100 + c * 4 + d in
       if d = 4 \<or> b = 4 then (y - 1, 12, 31) else (y, month_day (d = 3 \<and> (c \<noteq> 24 \<or> b = 3)) u))"
    "n - 1 = 146097 * a + 36524 * b + 1461 * c + 365 * d + u"
    "0 \<le> b" "b \<le> 4" "0 \<le> c" "c \<le> 24" "0 \<le> d" "d \<le> 4" "0 \<le> u" "u < 365"
    "b = 4 \<longrightarrow> c = 0 \<and> d = 0 \<and> u = 0" "d = 4 \<longrightarrow> u = 0"
    "c = 24 \<longrightarrow> b < 3 \<longrightarrow> d < 4"
proof -
  define a r1 where ar: "a = (n - 1) div 146097" "r1 = (n - 1) mod 146097"
  define b r2 where br: "b = r1 div 36524" "r2 = r1 mod 36524"
  define c r3 where cr: "c = r2 div 1461" "r3 = r2 mod 1461"
  define d u where du: "d = r3 div 365" "u = r3 mod 365"
  have e: "n - 1 = 146097 * a + r1" "r1 = 36524 * b + r2" "r2 = 1461 * c + r3" "r3 = 365 * d + u"
    unfolding ar br cr du by simp_all
  have l: "0 \<le> r1" "r1 < 146097" "0 \<le> r2" "r2 < 36524" "0 \<le> r3" "r3 < 1461" "0 \<le> u" "u < 365"
    unfolding ar br cr du by simp_all
  have b: "0 \<le> b" "b \<le> 4" using e(2) l by linarith+
  have c: "0 \<le> c" "c \<le> 24" using e(3) l by linarith+
  have d: "0 \<le> d" "d \<le> 4" using e(4) l by linarith+
  show thesis
  proof (rule that [of a b c d u])
    show "ord2ymd n = (let y = a * 400 + 1 + b * 100 + c * 4 + d in
       if d = 4 \<or> b = 4 then (y - 1, 12, 31) else (y, month_day (d = 3 \<and> (c \<noteq> 24 \<or> b = 3)) u))"
      unfolding ord2ymd_def Let_def ar br cr du ..
    show "n - 1 = 146097 * a + 36524 * b + 1461 * c + 365 * d + u" using e by linarith
    show "b = 4 \<longrightarrow> c = 0 \<and> d = 0 \<and> u = 0" using e l b c d by auto
    show "d = 4 \<longrightarrow> u = 0" using e l by auto
    show "c = 24 \<longrightarrow> b < 3 \<longrightarrow> d < 4" using e l by auto
  qed (use b c d l in auto)
qed

lemma ord2ymd_bounds:
  assumes "ord2ymd n = (y, m, d)"
  shows "1 \<le> m \<and> m \<le> 12 \<and> 1 \<le> d \<and> d \<le> 31"
proof (rule ord2ymd_parts [of n])
  fix a b c k u
  assume n: "ord2ymd n = (let y = a * 400 + 1 + b * 100 + c * 4 + k in
       if k = 4 \<or> b = 4 then (y - 1, 12, 31) else (y, month_day (k = 3 \<and> (c \<noteq> 24 \<or> b = 3)) u))"
    and u: "0 \<le> u" "u < 365"
  have "u < 365 + of_bool leap" for leap using u by (cases leap) simp_all
  note ok = month_day_ok(2-5) [OF u(1) this]
  obtain m' d' where md: "month_day (k = 3 \<and> (c \<noteq> 24 \<or> b = 3)) u = (m', d')" by (rule prod.exhaust)
  from n assms ok [of "k = 3 \<and> (c \<noteq> 24 \<or> b = 3)"] show ?thesis
    unfolding md by (auto simp: Let_def split: if_splits)
qed

lemma mod_top: "0 < (x::int) \<Longrightarrow> x \<le> k \<Longrightarrow> x mod k = 0 \<longleftrightarrow> x = k"
  by (cases "x = k") auto

lemma is_leap_parts:
  fixes a b c d :: int
  assumes "0 \<le> b" "b \<le> 3" "0 \<le> c" "c \<le> 24" "0 \<le> d" "d \<le> 3"
  shows "is_leap (a * 400 + 1 + b * 100 + c * 4 + d) \<longleftrightarrow> d = 3 \<and> (c \<noteq> 24 \<or> b = 3)"
proof -
  define y where "y = a * 400 + 1 + b * 100 + c * 4 + d"
  have "y = (1 + d) + (100 * a + 25 * b + c) * 4" by (simp add: y_def)
  then have y4: "y mod 4 = (1 + d) mod 4" by (simp only: mod_mult_self1)
  have "y = (1 + c * 4 + d) + (4 * a + b) * 100" by (simp add: y_def)
  then have y100: "y mod 100 = (1 + c * 4 + d) mod 100" by (simp only: mod_mult_self1)
  have "y = (1 + b * 100 + c * 4 + d) + a * 400" by (simp add: y_def)
  then have y400: "y mod 400 = (1 + b * 100 + c * 4 + d) mod 400" by (simp only: mod_mult_self1)
  have "1 + d = 4 \<longleftrightarrow> d = 3" "1 + c * 4 + d = 100 \<longleftrightarrow> c = 24 \<and> d = 3"
    "1 + b * 100 + c * 4 + d = 400 \<longleftrightarrow> b = 3 \<and> c = 24 \<and> d = 3" using assms by linarith+
  note eqs = this
  have m4: "y mod 4 = 0 \<longleftrightarrow> d = 3" unfolding y4 eqs(1) [symmetric] using assms by (intro mod_top) auto
  have m100: "y mod 100 = 0 \<longleftrightarrow> c = 24 \<and> d = 3"
    unfolding y100 eqs(2) [symmetric] using assms by (intro mod_top) auto
  have m400: "y mod 400 = 0 \<longleftrightarrow> b = 3 \<and> c = 24 \<and> d = 3"
    unfolding y400 eqs(3) [symmetric] using assms by (intro mod_top) auto
  show ?thesis unfolding is_leap_def m4 m100 m400 y_def [symmetric] by auto
qed

lemma days_before_year_parts:
  assumes "0 \<le> b" "b \<le> 3" "0 \<le> c" "c \<le> 24" "0 \<le> d" "d \<le> 3"
  shows "days_before_year (a * 400 + 1 + b * 100 + c * 4 + d) = 146097 * a + 36524 * b + 1461 * c + 365 * d"
proof -
  define z where "z = a * 400 + b * 100 + c * 4 + d"
  define q4 q100 q400 where q: "q4 = z div 4" "q100 = z div 100" "q400 = z div 400"
  have "z = d + (100 * a + 25 * b + c) * 4" by (simp add: z_def)
  then have "z div 4 = d div 4 + (100 * a + 25 * b + c)" by (simp only: div_mult_self1)
  then have q4: "q4 = 100 * a + 25 * b + c" unfolding q using assms by simp
  have "z = (c * 4 + d) + (4 * a + b) * 100" by (simp add: z_def)
  then have "z div 100 = (c * 4 + d) div 100 + (4 * a + b)" by (simp only: div_mult_self1)
  then have q100: "q100 = 4 * a + b" unfolding q using assms by simp
  have "z = (b * 100 + c * 4 + d) + a * 400" by (simp add: z_def)
  then have "z div 400 = (b * 100 + c * 4 + d) div 400 + a" by (simp only: div_mult_self1)
  then have q400: "q400 = a" unfolding q using assms by simp
  have "a * 400 + 1 + b * 100 + c * 4 + d - 1 = z" by (simp add: z_def)
  then show ?thesis unfolding days_before_year_def Let_def q [symmetric]
    by (simp only: q [symmetric]) (simp add: q4 q100 q400 z_def)
qed

theorem ymd2ord_ord2ymd: "ymd2ord (ord2ymd n) = n"
proof (rule ord2ymd_parts [of n])
  fix a b c d u :: int
  let ?y = "a * 400 + 1 + b * 100 + c * 4 + d"
  assume o: "ord2ymd n = (let y = ?y in
       if d = 4 \<or> b = 4 then (y - 1, 12, 31) else (y, month_day (d = 3 \<and> (c \<noteq> 24 \<or> b = 3)) u))"
    and n: "n - 1 = 146097 * a + 36524 * b + 1461 * c + 365 * d + u"
    and b: "0 \<le> b" "b \<le> 4" "0 \<le> c" "c \<le> 24" "0 \<le> d" "d \<le> 4" "0 \<le> u" "u < 365"
    and z: "b = 4 \<longrightarrow> c = 0 \<and> d = 0 \<and> u = 0" "d = 4 \<longrightarrow> u = 0" "c = 24 \<longrightarrow> b < 3 \<longrightarrow> d < 4"
  have last: "ymd2ord (y, 12, 31) = days_before_year y + 365 + of_bool (is_leap y)" for y
    by (simp add: ymd2ord_def days_before_month_table_def)
  consider (regular) "b \<le> 3" "d \<le> 3" | (b4) "b = 4" | (d4) "b \<le> 3" "d = 4" using b by linarith
  then show ?thesis
  proof cases
    case regular
    define leap where "leap \<longleftrightarrow> d = 3 \<and> (c \<noteq> 24 \<or> b = 3)"
    have leap: "is_leap ?y = leap" unfolding leap_def using b regular by (intro is_leap_parts) auto
    have "u < 365 + of_bool leap" using b by (cases leap) simp_all
    then have "days_before_month_table (fst (month_day leap u)) + of_bool (2 < fst (month_day leap u) \<and> leap)
        + snd (month_day leap u) = u + 1" by (rule month_day_ok(1) [OF b(7)])
    moreover have "days_before_year ?y = 146097 * a + 36524 * b + 1461 * c + 365 * d"
      using b regular by (intro days_before_year_parts) auto
    moreover have "ord2ymd n = (?y, month_day leap u)" using o regular by (simp add: leap_def Let_def)
    ultimately show ?thesis using n by (simp add: ymd2ord_def leap split_def)
  next
    case b4
    then have y: "ord2ymd n = (a * 400 + 1 + 3 * 100 + 24 * 4 + 3, 12, 31)" using o z by (simp add: Let_def)
    have "is_leap (a * 400 + 1 + 3 * 100 + 24 * 4 + 3)" by (subst is_leap_parts) simp_all
    moreover have "days_before_year (a * 400 + 1 + 3 * 100 + 24 * 4 + 3) = 146097 * a + 36524 * 3 + 1461 * 24 + 365 * 3"
      by (rule days_before_year_parts) simp_all
    ultimately show ?thesis unfolding y last using n z b4 by simp
  next
    case d4
    then have y: "ord2ymd n = (a * 400 + 1 + b * 100 + c * 4 + 3, 12, 31)" using o by (simp add: Let_def)
    have "is_leap (a * 400 + 1 + b * 100 + c * 4 + 3)" using b d4 z(3) by (subst is_leap_parts) auto
    moreover have "days_before_year (a * 400 + 1 + b * 100 + c * 4 + 3) = 146097 * a + 36524 * b + 1461 * c + 365 * 3"
      using b d4 by (intro days_before_year_parts) auto
    ultimately show ?thesis unfolding y last using n z d4 by simp
  qed
qed

section \<open>Timestamps\<close>

text \<open>Wall-clock microseconds of a timestamp in its own time zone, its date, and the ISO text of an instant in UTC.\<close>

definition wall_usec :: "datetime \<Rightarrow> int" where
  "wall_usec d = instant d + (case utcoffset d of None \<Rightarrow> 0 | Some m \<Rightarrow> m * 60000000)"

definition date_of_usec :: "int \<Rightarrow> int \<times> nat \<times> int" where
  "date_of_usec t = ord2ymd (t div 86400000000 + 719163)"

definition dt_date :: "datetime \<Rightarrow> int \<times> nat \<times> int" where
  "dt_date d = date_of_usec (wall_usec d)"

definition date_str :: "int \<times> nat \<times> int \<Rightarrow> string" where
  "date_str = (\<lambda>(y, m, d). dec_fixed 4 (nat y) @ ''-'' @ dec_fixed 2 m @ ''-'' @ dec_fixed 2 (nat d))"

definition time_str :: "int \<Rightarrow> string" where
  "time_str u =
     (let sec = u div 1000000 in
      dec_fixed 2 (nat (sec div 3600)) @ '':'' @ dec_fixed 2 (nat (sec div 60 mod 60)) @ '':''
        @ dec_fixed 2 (nat (sec mod 60)) @ ''.'' @ dec_fixed 6 (nat (u mod 1000000)))"

definition iso_utc :: "datetime \<Rightarrow> string" where
  "iso_utc d = date_str (date_of_usec (instant d)) @ ''T'' @ time_str (instant d mod 86400000000) @ ''+00:00''"

text \<open>\<^verbatim>\<open>datetime\<close> holds years 1 to 9999.\<close>

definition in_datetime_range :: "datetime \<Rightarrow> bool" where
  "in_datetime_range d \<longleftrightarrow> (let y = fst (date_of_usec (instant d)) in 1 \<le> y \<and> y \<le> 9999)"

lemma nat_mod_eq: "nat (a mod k) = nat (b mod k) \<Longrightarrow> 0 < k \<Longrightarrow> a mod k = b mod k" for a b k :: int
  by (metis nat_0_le pos_mod_sign)

lemma ord2ymd_inj: "ord2ymd n = ord2ymd m \<Longrightarrow> n = m"
  by (metis ymd2ord_ord2ymd)

lemma div_mod_eq: "a div k = b div k \<Longrightarrow> a mod k = b mod k \<Longrightarrow> a = b" for a b k :: int
  by (metis div_mult_mod_eq)

lemma date_str_inj:
  assumes "date_str (ord2ymd n) = date_str (ord2ymd m)"
    and "1 \<le> fst (ord2ymd n)" "fst (ord2ymd n) \<le> 9999" "1 \<le> fst (ord2ymd m)" "fst (ord2ymd m) \<le> 9999"
  shows "n = m"
proof -
  obtain y1 m1 d1 y2 m2 d2 where o: "ord2ymd n = (y1, m1, d1)" "ord2ymd m = (y2, m2, d2)"
    by (metis prod.exhaust)
  note b = ord2ymd_bounds [OF o(1)] ord2ymd_bounds [OF o(2)]
  have e: "dec_fixed 4 (nat y1) = dec_fixed 4 (nat y2)" "dec_fixed 2 m1 = dec_fixed 2 m2"
    "dec_fixed 2 (nat d1) = dec_fixed 2 (nat d2)"
    using assms(1) by (auto simp: o date_str_def append_eq_append_conv)
  have "nat y1 = nat y2" using assms o by (intro dec_fixed_inj [OF e(1)]) auto
  moreover have "m1 = m2" using b by (intro dec_fixed_inj [OF e(2)]) auto
  moreover have "nat d1 = nat d2" using b by (intro dec_fixed_inj [OF e(3)]) auto
  ultimately have "ord2ymd n = ord2ymd m" using assms b by (auto simp: o)
  then show ?thesis by (rule ord2ymd_inj)
qed

lemma length_date_str: "length (date_str t) = 10"
  by (cases t) (simp add: date_str_def)

lemma length_time_str: "length (time_str u) = 15"
  by (simp add: time_str_def Let_def)

lemma time_str_inj:
  assumes "time_str u = time_str v" "0 \<le> u" "u < 86400000000" "0 \<le> v" "v < 86400000000"
  shows "u = v"
proof -
  define s t where st: "s = u div 1000000" "t = v div 1000000"
  have r: "0 \<le> s" "s < 86400" "0 \<le> t" "t < 86400" using assms unfolding st by auto
  have e: "dec_fixed 2 (nat (s div 3600)) = dec_fixed 2 (nat (t div 3600))"
    "dec_fixed 2 (nat (s div 60 mod 60)) = dec_fixed 2 (nat (t div 60 mod 60))"
    "dec_fixed 2 (nat (s mod 60)) = dec_fixed 2 (nat (t mod 60))"
    "dec_fixed 6 (nat (u mod 1000000)) = dec_fixed 6 (nat (v mod 1000000))"
    using assms(1) by (auto simp: time_str_def Let_def st append_eq_append_conv)
  have "nat (s div 3600) = nat (t div 3600)" by (rule dec_fixed_inj [OF e(1)]) (use r in auto)
  then have h: "s div 3600 = t div 3600" using r by (simp add: pos_imp_zdiv_nonneg_iff)
  have "nat (s div 60 mod 60) = nat (t div 60 mod 60)"
    by (rule dec_fixed_inj [OF e(2)]) (simp_all add: nat_less_iff less_trans [of _ 60])
  then have m: "s div 60 mod 60 = t div 60 mod 60" by (rule nat_mod_eq) simp
  have "nat (s mod 60) = nat (t mod 60)"
    by (rule dec_fixed_inj [OF e(3)]) (simp_all add: nat_less_iff less_trans [of _ 60])
  then have sec: "s mod 60 = t mod 60" by (rule nat_mod_eq) simp
  have "nat (u mod 1000000) = nat (v mod 1000000)"
    by (rule dec_fixed_inj [OF e(4)]) (simp_all add: nat_less_iff)
  then have us: "u mod 1000000 = v mod 1000000" by (rule nat_mod_eq) simp
  have "s div 60 div 60 = t div 60 div 60" using h by (simp add: zdiv_zmult2_eq [symmetric])
  with m have "s div 60 = t div 60" by (metis div_mult_mod_eq)
  with sec have "s = t" by (metis div_mult_mod_eq)
  with us show ?thesis unfolding st by (metis div_mult_mod_eq)
qed

lemma iso_utc_inj:
  assumes "iso_utc x = iso_utc y" "in_datetime_range x" "in_datetime_range y"
  shows "instant x = instant y"
proof -
  have e: "date_str (date_of_usec (instant x)) = date_str (date_of_usec (instant y))"
    "time_str (instant x mod 86400000000) = time_str (instant y mod 86400000000)"
    using assms(1) by (auto simp: iso_utc_def append_eq_append_conv length_date_str length_time_str)
  have "instant x div 86400000000 + 719163 = instant y div 86400000000 + 719163"
    using e(1) assms(2,3) unfolding date_of_usec_def in_datetime_range_def Let_def by (intro date_str_inj) auto
  then have "instant x div 86400000000 = instant y div 86400000000" by (rule add_right_imp_eq)
  moreover have "instant x mod 86400000000 = instant y mod 86400000000"
    by (rule time_str_inj [OF e(2)]) auto
  ultimately show ?thesis by (rule div_mod_eq)
qed

lemma date_str_chars: "c \<in> set (date_str t) \<Longrightarrow> is_digit c \<or> c = CHR ''-''"
  by (cases t) (auto simp: date_str_def dest: dec_fixed_digits)

lemma time_str_chars: "c \<in> set (time_str u) \<Longrightarrow> is_digit c \<or> c = CHR '':'' \<or> c = CHR ''.''"
  unfolding time_str_def Let_def by (auto dest: dec_fixed_digits simp del: of_char_of)

lemma iso_utc_chars: "c \<in> set (iso_utc d) \<Longrightarrow> is_digit c \<or> c \<in> set ''-T:.+''"
proof -
  define a b where "a = date_str (date_of_usec (instant d))" "b = time_str (instant d mod 86400000000)"
  then have ab: "c \<in> set a \<Longrightarrow> is_digit c \<or> c = CHR ''-''"
      "c \<in> set b \<Longrightarrow> is_digit c \<or> c = CHR '':'' \<or> c = CHR ''.''"
    and iso: "iso_utc d = a @ ''T'' @ b @ ''+00:00''"
    using date_str_chars time_str_chars by (auto simp only: iso_utc_def)
  have "is_digit (CHR ''0'')" by (simp add: is_digit_def)
  moreover assume "c \<in> set (iso_utc d)"
  ultimately show ?thesis unfolding iso using ab by auto
qed

end
