(* ===== verification/Market_Data.thy ===== *)
theory Market_Data
  imports Py_Calendar Decimal_Text Service_Kit "HOL-Library.Char_ord" "HOL-Library.List_Lexorder"
begin

text \<open>
  The market data contract and the foundation of the backtesting packages:
  \<^verbatim>\<open>packages/contracts/alpha_algo_contracts/market_data.py\<close> (ticks and candles), and
  \<^verbatim>\<open>backtesting/alpha_algo_backtesting\<close> (the validated input, the simulation clock, the replay
  cursor, the canonical serialisation and its digest, the session) with
  \<^verbatim>\<open>backtesting/alpha_algo_backtest_quality\<close> (the data quality classifier).

  A Python type check is the type of the model; decimals are finite.  SHA-256 is an argument.  The
  main results: an input is accepted exactly when its records are one coherent, strictly ascending
  series; a dataset the classifier calls ready is accepted; the clock's two conversions are inverse;
  the cursor returns every record once and in order; and for records whose texts avoid the
  separators the serialisation identifies the history.
\<close>

section \<open>Market data contract\<close>

datatype candle_timeframe = ONE_MINUTE | FIVE_MINUTES | FIFTEEN_MINUTES | ONE_HOUR | ONE_DAY

fun timeframe_value :: "candle_timeframe \<Rightarrow> string" where
  "timeframe_value ONE_MINUTE = ''1m''"
| "timeframe_value FIVE_MINUTES = ''5m''"
| "timeframe_value FIFTEEN_MINUTES = ''15m''"
| "timeframe_value ONE_HOUR = ''1h''"
| "timeframe_value ONE_DAY = ''1d''"

record market_tick =
  tk_instrument_id :: uuid
  tk_exchange :: string
  tk_symbol :: string
  tk_timestamp :: datetime
  tk_ltp :: decimal
  tk_volume :: "int option"
  tk_bid :: "decimal option"
  tk_ask :: "decimal option"
  tk_bid_quantity :: "int option"
  tk_ask_quantity :: "int option"
  tk_source_broker :: string
  tk_source_sequence :: string
  tk_received_at :: datetime

record market_candle =
  cd_instrument_id :: uuid
  cd_exchange :: string
  cd_symbol :: string
  cd_timeframe :: candle_timeframe
  cd_candle_start :: datetime
  cd_open_price :: decimal
  cd_high_price :: decimal
  cd_low_price :: decimal
  cd_close_price :: decimal
  cd_volume :: "int option"
  cd_source_broker :: string
  cd_generated_at :: datetime

text \<open>The field constraints and validators of the two models; a violation is a \<^verbatim>\<open>ValidationError\<close>.\<close>

definition sized :: "nat \<Rightarrow> string \<Rightarrow> bool" where
  "sized k s \<longleftrightarrow> 1 \<le> length s \<and> length s \<le> k"

definition tick_valid :: "market_tick \<Rightarrow> bool" where
  "tick_valid t \<longleftrightarrow> sized 32 (tk_exchange t) \<and> sized 100 (tk_symbol t) \<and> tz_aware (tk_timestamp t)
     \<and> 0 < tk_ltp t \<and> pred_option (\<lambda>v. 0 \<le> v) (tk_volume t) \<and> pred_option (\<lambda>p. 0 < p) (tk_bid t)
     \<and> pred_option (\<lambda>p. 0 < p) (tk_ask t) \<and> pred_option (\<lambda>v. 0 \<le> v) (tk_bid_quantity t)
     \<and> pred_option (\<lambda>v. 0 \<le> v) (tk_ask_quantity t) \<and> sized 50 (tk_source_broker t)
     \<and> sized 150 (tk_source_sequence t) \<and> tz_aware (tk_received_at t)"

definition candle_valid :: "market_candle \<Rightarrow> bool" where
  "candle_valid c \<longleftrightarrow> sized 32 (cd_exchange c) \<and> sized 100 (cd_symbol c) \<and> tz_aware (cd_candle_start c)
     \<and> 0 < cd_open_price c \<and> 0 < cd_high_price c \<and> 0 < cd_low_price c \<and> 0 < cd_close_price c
     \<and> pred_option (\<lambda>v. 0 \<le> v) (cd_volume c) \<and> sized 50 (cd_source_broker c) \<and> tz_aware (cd_generated_at c)
     \<and> \<not> cd_high_price c < cd_low_price c
     \<and> (cd_low_price c \<le> cd_open_price c \<and> cd_open_price c \<le> cd_high_price c)
     \<and> (cd_low_price c \<le> cd_close_price c \<and> cd_close_price c \<le> cd_high_price c)"

datatype market_record = Candle market_candle | Tick market_tick

fun record_valid :: "market_record \<Rightarrow> bool" where
  "record_valid (Candle c) = candle_valid c"
| "record_valid (Tick t) = tick_valid t"

fun is_candle :: "market_record \<Rightarrow> bool" where
  "is_candle (Candle _) = True"
| "is_candle (Tick _) = False"

fun record_timestamp :: "market_record \<Rightarrow> datetime" where
  "record_timestamp (Candle c) = cd_candle_start c"
| "record_timestamp (Tick t) = tk_timestamp t"

fun rec_instrument_id :: "market_record \<Rightarrow> uuid" where
  "rec_instrument_id (Candle c) = cd_instrument_id c"
| "rec_instrument_id (Tick t) = tk_instrument_id t"

fun rec_exchange :: "market_record \<Rightarrow> string" where
  "rec_exchange (Candle c) = cd_exchange c"
| "rec_exchange (Tick t) = tk_exchange t"

fun rec_symbol :: "market_record \<Rightarrow> string" where
  "rec_symbol (Candle c) = cd_symbol c"
| "rec_symbol (Tick t) = tk_symbol t"

fun rec_timeframe :: "market_record \<Rightarrow> candle_timeframe option" where
  "rec_timeframe (Candle c) = Some (cd_timeframe c)"
| "rec_timeframe (Tick _) = None"

text \<open>The time of a record as a number; timestamps of aware records compare by it.\<close>

abbreviation rec_time :: "market_record \<Rightarrow> int" where
  "rec_time r \<equiv> instant (record_timestamp r)"

fun crossed :: "market_record \<Rightarrow> bool" where
  "crossed (Candle _) = False"
| "crossed (Tick t) = (case (tk_bid t, tk_ask t) of (Some b, Some a) \<Rightarrow> a < b | _ \<Rightarrow> False)"

datatype backtest_error =
    ValueError string
  | TypeError string
  | BacktestEngineError string
  | BacktestMetricsError string
  | BacktestReportError string
  | BacktestReportMetricsError string
  | DataQualityError string
  | LatencyError string
  | PortfolioBacktestError string
  | WalkForwardError string
  | RiskMeasureError string
  | ExcursionError string
  | AnnualizationError string
  | OptimizationError string
  | PersistenceError string
  | DecimalError

section \<open>Validated input\<close>

record backtest_input =
  bi_dataset_id :: string
  bi_source :: string
  bi_records :: "market_record list"
  bi_metadata :: metadata

text \<open>One pass over the records with the first record, the index and the previous record.\<close>

fun check_records ::
  "market_record \<Rightarrow> nat \<Rightarrow> market_record option \<Rightarrow> market_record list \<Rightarrow> (backtest_error, unit) result" where
  "check_records first i prev [] = Inr ()"
| "check_records first i prev (r # rs) =
     rbind (guard (is_candle r = is_candle first)
       (ValueError ''records must all be the same kind (all candles or all ticks)'')) (\<lambda>_.
     rbind (guard (tz_aware (record_timestamp r)) (ValueError ''record timestamps must be timezone-aware'')) (\<lambda>_.
     rbind (guard (rec_instrument_id r = rec_instrument_id first) (ValueError ''records must share a single instrument'')) (\<lambda>_.
     rbind (guard (rec_exchange r = rec_exchange first) (ValueError ''records must share a single exchange'')) (\<lambda>_.
     rbind (guard (rec_symbol r = rec_symbol first) (ValueError ''records must share a single symbol'')) (\<lambda>_.
     rbind (guard (is_candle first \<longrightarrow> rec_timeframe r = rec_timeframe first)
       (ValueError ''candles must share a single timeframe'')) (\<lambda>_.
     rbind (case prev of None \<Rightarrow> Inr () | Some p \<Rightarrow>
         rbind (guard (rec_time p \<le> rec_time r)
           (ValueError (''records must be sorted ascending by timestamp (index '' @ nat_str i @ '')''))) (\<lambda>_.
         guard (rec_time r \<noteq> rec_time p)
           (ValueError (''duplicate record timestamp at index '' @ nat_str i)))) (\<lambda>_.
     rbind (guard (\<not> crossed r) (ValueError (''tick bid cannot exceed ask (index '' @ nat_str i @ '')''))) (\<lambda>_.
     check_records first (Suc i) (Some r) rs))))))))"

definition mk_backtest_input :: "backtest_input \<Rightarrow> (backtest_error, backtest_input) result" where
  "mk_backtest_input b =
     rbind (guard (\<not> blank (bi_dataset_id b)) (ValueError ''dataset_id is required'')) (\<lambda>_.
     rbind (guard (\<not> blank (bi_source b)) (ValueError ''source is required'')) (\<lambda>_.
     case bi_records b of
       [] \<Rightarrow> Inl (ValueError ''backtest requires at least one data record'')
     | first # rest \<Rightarrow> rbind (check_records first 0 None (first # rest)) (\<lambda>_. Inr b)))"

definition record_count :: "backtest_input \<Rightarrow> nat" where
  "record_count b = length (bi_records b)"

definition first_timestamp :: "backtest_input \<Rightarrow> datetime" where
  "first_timestamp b = record_timestamp (hd (bi_records b))"

definition last_timestamp :: "backtest_input \<Rightarrow> datetime" where
  "last_timestamp b = record_timestamp (last (bi_records b))"

definition records_kind :: "backtest_input \<Rightarrow> string" where
  "records_kind b = (if is_candle (hd (bi_records b)) then ''candles'' else ''ticks'')"

text \<open>\<^verbatim>\<open>counts[s] = counts.get(s, 0) + 1\<close> on a dict in insertion order; the items are sorted by their
  distinct keys.\<close>

definition count_symbol :: "(string, nat) odict \<Rightarrow> market_record \<Rightarrow> (string, nat) odict" where
  "count_symbol counts r =
     (let s = rec_symbol r in
      case map_of counts s of
        None \<Rightarrow> counts @ [(s, 1)]
      | Some n \<Rightarrow> map (\<lambda>(k, v). if k = s then (k, n + 1) else (k, v)) counts)"

definition symbol_counts :: "backtest_input \<Rightarrow> (string \<times> nat) list" where
  "symbol_counts b = sort_key fst (foldl count_symbol [] (bi_records b))"

section \<open>Canonical serialisation\<close>

definition opt_text :: "('a \<Rightarrow> string) \<Rightarrow> 'a option \<Rightarrow> string" where
  "opt_text f v = (case v of None \<Rightarrow> ''None'' | Some x \<Rightarrow> f x)"

definition candle_fields :: "market_candle \<Rightarrow> string list" where
  "candle_fields c =
     [uuid_str (cd_instrument_id c), cd_exchange c, cd_symbol c, timeframe_value (cd_timeframe c),
      iso_utc (cd_candle_start c), decimal_str (cd_open_price c), decimal_str (cd_high_price c),
      decimal_str (cd_low_price c), decimal_str (cd_close_price c), opt_text int_str (cd_volume c),
      cd_source_broker c, iso_utc (cd_generated_at c)]"

definition tick_fields :: "market_tick \<Rightarrow> string list" where
  "tick_fields t =
     [uuid_str (tk_instrument_id t), tk_exchange t, tk_symbol t, iso_utc (tk_timestamp t),
      decimal_str (tk_ltp t), opt_text int_str (tk_volume t), opt_text decimal_str (tk_bid t),
      opt_text decimal_str (tk_ask t), opt_text int_str (tk_bid_quantity t), opt_text int_str (tk_ask_quantity t),
      tk_source_broker t, tk_source_sequence t, iso_utc (tk_received_at t)]"

fun record_fields :: "market_record \<Rightarrow> string list" where
  "record_fields (Candle c) = candle_fields c"
| "record_fields (Tick t) = tick_fields t"

definition canonical_serialize :: "market_record \<Rightarrow> string" where
  "canonical_serialize r = join ''|'' (record_fields r)"

definition canonical_bytes :: "market_record list \<Rightarrow> string" where
  "canonical_bytes rs = join [CHR 0x0A] (map canonical_serialize rs)"

definition content_sha256 :: "(string \<Rightarrow> string) \<Rightarrow> market_record list \<Rightarrow> string" where
  "content_sha256 sha rs = sha (canonical_bytes rs)"

section \<open>Simulation clock\<close>

record simulation_clock =
  sk_current :: datetime
  sk_step :: int

definition mk_clock :: "datetime \<Rightarrow> int \<Rightarrow> (backtest_error, simulation_clock) result" where
  "mk_clock t step =
     rbind (guard (tz_aware t) (ValueError ''current must be timezone-aware'')) (\<lambda>_.
     rbind (guard (0 < step) (ValueError ''step must be positive'')) (\<lambda>_.
     Inr \<lparr>sk_current = t, sk_step = step\<rparr>))"

definition clock_advance :: "simulation_clock \<Rightarrow> int \<Rightarrow> (backtest_error, simulation_clock) result" where
  "clock_advance c n =
     rbind (guard (1 \<le> n) (ValueError ''times must be a positive integer'')) (\<lambda>_.
     mk_clock (plus_delta (sk_current c) (sk_step c * n)) (sk_step c))"

definition steps_until :: "simulation_clock \<Rightarrow> datetime \<Rightarrow> (backtest_error, int) result" where
  "steps_until c target =
     rbind (guard (tz_aware target) (ValueError ''target must be timezone-aware'')) (\<lambda>_.
     rbind (guard (instant (sk_current c) \<le> instant target) (ValueError ''target must not be before current'')) (\<lambda>_.
     let delta = instant target - instant (sk_current c) in
     rbind (guard (delta mod sk_step c = 0) (ValueError ''target must be aligned to the step grid'')) (\<lambda>_.
     Inr (delta div sk_step c))))"

section \<open>Replay cursor\<close>

record replay_cursor =
  rp_records :: "market_record list"
  rp_index :: nat

definition new_cursor :: "market_record list \<Rightarrow> (backtest_error, replay_cursor) result" where
  "new_cursor rs =
     rbind (guard (rs \<noteq> []) (ValueError ''replay requires at least one record'')) (\<lambda>_.
     Inr \<lparr>rp_records = rs, rp_index = 0\<rparr>)"

definition cursor_exhausted :: "replay_cursor \<Rightarrow> bool" where
  "cursor_exhausted c \<longleftrightarrow> length (rp_records c) \<le> rp_index c"

definition cursor_peek :: "replay_cursor \<Rightarrow> market_record option" where
  "cursor_peek c = (if length (rp_records c) \<le> rp_index c then None else Some (rp_records c ! rp_index c))"

definition cursor_next :: "replay_cursor \<Rightarrow> market_record option \<times> replay_cursor" where
  "cursor_next c =
     (if length (rp_records c) \<le> rp_index c then (None, c)
      else (Some (rp_records c ! rp_index c), c\<lparr>rp_index := rp_index c + 1\<rparr>))"

text \<open>A client that reads until the cursor is exhausted, for at most \<open>n\<close> reads.\<close>

fun read_records :: "nat \<Rightarrow> replay_cursor \<Rightarrow> market_record list \<times> replay_cursor" where
  "read_records 0 c = ([], c)"
| "read_records (Suc n) c =
     (case cursor_next c of
        (None, c') \<Rightarrow> ([], c')
      | (Some r, c') \<Rightarrow> (case read_records n c' of (rs, c'') \<Rightarrow> (r # rs, c'')))"

section \<open>Session\<close>

record input_manifest =
  im_schema_version :: string
  im_serializer_version :: string
  im_dataset_id :: string
  im_source :: string
  im_record_count :: nat
  im_records_kind :: string
  im_first_timestamp :: datetime
  im_last_timestamp :: datetime
  im_content_sha256 :: string
  im_per_symbol_counts :: "(string \<times> nat) list"

definition mk_manifest :: "input_manifest \<Rightarrow> (backtest_error, input_manifest) result" where
  "mk_manifest m =
     rbind (guard (tz_aware (im_first_timestamp m)) (ValueError ''first_timestamp must be timezone-aware'')) (\<lambda>_.
     rbind (guard (tz_aware (im_last_timestamp m)) (ValueError ''last_timestamp must be timezone-aware'')) (\<lambda>_.
     Inr m))"

datatype backtest_trading_mode = BACKTEST_MODE

record audit_record =
  au_run_id :: uuid
  au_created_at :: datetime
  au_mode :: backtest_trading_mode
  au_input_manifest :: input_manifest
  au_start_at :: datetime
  au_end_at :: datetime
  au_step :: int
  au_caller_metadata :: metadata

definition mk_audit :: "audit_record \<Rightarrow> (backtest_error, audit_record) result" where
  "mk_audit a =
     rbind (guard (tz_aware (au_created_at a)) (ValueError ''created_at must be timezone-aware'')) (\<lambda>_.
     rbind (guard (tz_aware (au_start_at a)) (ValueError ''start_at must be timezone-aware'')) (\<lambda>_.
     rbind (guard (tz_aware (au_end_at a)) (ValueError ''end_at must be timezone-aware'')) (\<lambda>_.
     Inr a)))"

record backtest_session =
  bs_inputs :: backtest_input
  bs_clock :: simulation_clock
  bs_cursor :: replay_cursor
  bs_manifest :: input_manifest
  bs_audit :: audit_record

definition input_manifest_of :: "(string \<Rightarrow> string) \<Rightarrow> backtest_input \<Rightarrow> input_manifest" where
  "input_manifest_of sha b =
     \<lparr>im_schema_version = ''1'', im_serializer_version = ''1'', im_dataset_id = bi_dataset_id b,
      im_source = bi_source b, im_record_count = record_count b, im_records_kind = records_kind b,
      im_first_timestamp = first_timestamp b, im_last_timestamp = last_timestamp b,
      im_content_sha256 = content_sha256 sha (bi_records b), im_per_symbol_counts = symbol_counts b\<rparr>"

text \<open>\<open>created_at\<close> is what the audit clock returned and \<open>fresh\<close> what \<^verbatim>\<open>uuid4()\<close> would give.\<close>

definition new_session ::
  "(string \<Rightarrow> string) \<Rightarrow> backtest_input \<Rightarrow> int \<Rightarrow> uuid option \<Rightarrow> uuid \<Rightarrow> datetime \<Rightarrow> (backtest_error, backtest_session) result" where
  "new_session sha b step run_id fresh created_at =
     rbind (guard (0 < step) (ValueError ''step must be positive'')) (\<lambda>_.
     rbind (guard (tz_aware created_at) (ValueError ''audit clock must return a timezone-aware datetime'')) (\<lambda>_.
     rbind (mk_clock (first_timestamp b) step) (\<lambda>clock.
     rbind (new_cursor (bi_records b)) (\<lambda>cursor.
     rbind (mk_manifest (input_manifest_of sha b)) (\<lambda>m.
     rbind (mk_audit \<lparr>au_run_id = (case run_id of Some u \<Rightarrow> u | None \<Rightarrow> fresh), au_created_at = created_at,
         au_mode = BACKTEST_MODE, au_input_manifest = m, au_start_at = first_timestamp b,
         au_end_at = last_timestamp b, au_step = step, au_caller_metadata = bi_metadata b\<rparr>) (\<lambda>a.
     Inr \<lparr>bs_inputs = b, bs_clock = clock, bs_cursor = cursor, bs_manifest = m, bs_audit = a\<rparr>))))))"

definition session_advance :: "backtest_session \<Rightarrow> int \<Rightarrow> (backtest_error, backtest_session) result" where
  "session_advance s n = rbind (clock_advance (bs_clock s) n) (\<lambda>c. Inr (s\<lparr>bs_clock := c\<rparr>))"

definition session_next_record :: "backtest_session \<Rightarrow> market_record option \<times> backtest_session" where
  "session_next_record s = (case cursor_next (bs_cursor s) of (r, c) \<Rightarrow> (r, s\<lparr>bs_cursor := c\<rparr>))"

section \<open>Data quality\<close>

datatype quality_class = VALID | QUARANTINED | REJECTED

record quality_finding =
  qf_index :: nat
  qf_class :: quality_class
  qf_reason :: string

record quality_report =
  qr_total_records :: nat
  qr_valid_count :: nat
  qr_quarantined_count :: nat
  qr_rejected_count :: nat
  qr_findings :: "quality_finding list"
  qr_dataset_classification :: quality_class

definition mk_quality_report :: "quality_report \<Rightarrow> (backtest_error, quality_report) result" where
  "mk_quality_report q =
     rbind (guard (qr_valid_count q + qr_quarantined_count q + qr_rejected_count q = qr_total_records q)
       (DataQualityError ''record classification counts must sum to total_records'')) (\<lambda>_. Inr q)"

definition is_simulation_ready :: "quality_report \<Rightarrow> bool" where
  "is_simulation_ready q \<longleftrightarrow> qr_rejected_count q = 0 \<and> qr_quarantined_count q = 0"

definition finding_if :: "bool \<Rightarrow> nat \<Rightarrow> quality_class \<Rightarrow> string \<Rightarrow> quality_finding list" where
  "finding_if c i k reason = (if c then [\<lparr>qf_index = i, qf_class = k, qf_reason = reason\<rparr>] else [])"

definition price_finding :: "nat \<Rightarrow> string \<Rightarrow> decimal \<Rightarrow> quality_finding list" where
  "price_finding i name v = finding_if (v \<le> 0) i REJECTED (''invalid candle '' @ name @ ''_price'')"

text \<open>The findings of the checks on one record; the record is rejected when there is one.\<close>

fun classify_record :: "nat \<Rightarrow> market_record \<Rightarrow> quality_finding list" where
  "classify_record i (Candle c) =
     finding_if (\<not> tz_aware (cd_candle_start c)) i REJECTED ''naive timestamp''
     @ price_finding i ''open'' (cd_open_price c) @ price_finding i ''high'' (cd_high_price c)
     @ price_finding i ''low'' (cd_low_price c) @ price_finding i ''close'' (cd_close_price c)
     @ finding_if (cd_high_price c < cd_low_price c) i REJECTED ''candle low exceeds high''
     @ finding_if (\<not> (cd_low_price c \<le> cd_open_price c \<and> cd_open_price c \<le> cd_high_price c)) i REJECTED ''candle open outside range''
     @ finding_if (\<not> (cd_low_price c \<le> cd_close_price c \<and> cd_close_price c \<le> cd_high_price c)) i REJECTED ''candle close outside range''"
| "classify_record i (Tick t) =
     finding_if (\<not> tz_aware (tk_timestamp t)) i REJECTED ''naive timestamp''
     @ finding_if (tk_ltp t \<le> 0) i REJECTED ''invalid tick ltp''
     @ finding_if (crossed (Tick t)) i REJECTED ''tick bid exceeds ask''"

definition identity_findings :: "nat \<Rightarrow> market_record \<Rightarrow> market_record \<Rightarrow> quality_finding list" where
  "identity_findings i first r =
     finding_if ((rec_instrument_id r, rec_exchange r, rec_symbol r) \<noteq> (rec_instrument_id first, rec_exchange first, rec_symbol first))
       i REJECTED ''symbol/exchange/instrument identity drift''
     @ finding_if (is_candle first \<noteq> is_candle r) i REJECTED ''mixed candle/tick kinds''
     @ finding_if (is_candle first \<and> is_candle r \<and> rec_timeframe r \<noteq> rec_timeframe first) i REJECTED ''candle timeframe drift''"

text \<open>Order, duplicates and gaps against the previous record; comparing a naive with an aware timestamp
  raises \<^verbatim>\<open>TypeError\<close>.\<close>

definition order_findings ::
  "nat \<Rightarrow> int option \<Rightarrow> int \<Rightarrow> datetime option \<Rightarrow> datetime \<Rightarrow> (backtest_error, quality_finding list) result" where
  "order_findings i expected_step gap_multiple prev ts =
     (case prev of
        None \<Rightarrow> Inr []
      | Some p \<Rightarrow>
          (case datetime_gt p ts of
             None \<Rightarrow> Inl (TypeError ''can't compare offset-naive and offset-aware datetimes'')
           | Some earlier \<Rightarrow> Inr
               (if earlier then finding_if True i REJECTED ''out-of-order timestamp''
                else if instant ts = instant p then finding_if True i QUARANTINED ''duplicate timestamp''
                else (case expected_step of None \<Rightarrow> []
                      | Some st \<Rightarrow> finding_if (st * gap_multiple < instant ts - instant p) i QUARANTINED ''gap larger than expected step''))))"

definition future_findings ::
  "nat \<Rightarrow> datetime option \<Rightarrow> datetime \<Rightarrow> (backtest_error, quality_finding list) result" where
  "future_findings i reference_time ts =
     (case reference_time of
        None \<Rightarrow> Inr []
      | Some rt \<Rightarrow>
          (case datetime_gt ts rt of
             None \<Rightarrow> Inl (TypeError ''can't compare offset-naive and offset-aware datetimes'')
           | Some later \<Rightarrow> Inr (finding_if later i QUARANTINED ''future-dated record'')))"

definition record_class :: "nat \<Rightarrow> quality_finding list \<Rightarrow> bool \<Rightarrow> quality_class" where
  "record_class i fs rejected =
     (if rejected \<or> list_ex (\<lambda>f. qf_index f = i \<and> qf_class f = REJECTED) fs then REJECTED
      else if list_ex (\<lambda>f. qf_index f = i \<and> qf_class f = QUARANTINED) fs then QUARANTINED else VALID)"

fun quality_loop ::
  "market_record \<Rightarrow> datetime option \<Rightarrow> int option \<Rightarrow> int \<Rightarrow> nat \<Rightarrow> datetime option \<Rightarrow> quality_finding list
   \<Rightarrow> quality_class list \<Rightarrow> market_record list \<Rightarrow> (backtest_error, quality_finding list \<times> quality_class list) result" where
  "quality_loop first rt st g i prev fs cs [] = Inr (fs, cs)"
| "quality_loop first rt st g i prev fs cs (r # rs) =
     (let own = classify_record i r; ts = record_timestamp r in
      rbind (order_findings i st g prev ts) (\<lambda>ord.
      rbind (future_findings i rt ts) (\<lambda>fut.
      let fs' = fs @ own @ identity_findings i first r @ ord @ fut in
      quality_loop first rt st g (Suc i) (Some ts) fs' (cs @ [record_class i fs' (own \<noteq> [])]) rs)))"

definition count_class :: "quality_class \<Rightarrow> quality_class list \<Rightarrow> nat" where
  "count_class k cs = length (filter (\<lambda>c. c = k) cs)"

definition quality_summary :: "quality_finding list \<Rightarrow> quality_class list \<Rightarrow> market_record list \<Rightarrow> quality_report" where
  "quality_summary fs cs rs =
     \<lparr>qr_total_records = length rs, qr_valid_count = count_class VALID cs,
      qr_quarantined_count = count_class QUARANTINED cs, qr_rejected_count = count_class REJECTED cs,
      qr_findings = fs,
      qr_dataset_classification =
        (if 0 < count_class REJECTED cs then REJECTED else if 0 < count_class QUARANTINED cs then QUARANTINED else VALID)\<rparr>"

definition validate_dataset ::
  "market_record list \<Rightarrow> datetime option \<Rightarrow> int option \<Rightarrow> int \<Rightarrow> (backtest_error, quality_report) result" where
  "validate_dataset rs reference_time expected_step gap_multiple =
     rbind (guard (pred_option tz_aware reference_time) (DataQualityError ''reference_time must be timezone-aware or None'')) (\<lambda>_.
     rbind (guard (pred_option (\<lambda>s. 0 < s) expected_step) (DataQualityError ''expected_step must be a positive timedelta or None'')) (\<lambda>_.
     rbind (guard (1 \<le> gap_multiple) (DataQualityError ''gap_multiple must be a positive int'')) (\<lambda>_.
     case rs of
       [] \<Rightarrow> mk_quality_report (quality_summary [] [] [])
     | first # _ \<Rightarrow> rbind (quality_loop first reference_time expected_step gap_multiple 0 None [] [] rs) (\<lambda>(fs, cs).
         mk_quality_report (quality_summary fs cs rs)))))"

section \<open>Acceptance of an input\<close>

text \<open>What the constructor demands of a record beside the first one.\<close>

definition coherent :: "market_record \<Rightarrow> market_record \<Rightarrow> bool" where
  "coherent first r \<longleftrightarrow> is_candle r = is_candle first \<and> tz_aware (record_timestamp r)
     \<and> rec_instrument_id r = rec_instrument_id first \<and> rec_exchange r = rec_exchange first
     \<and> rec_symbol r = rec_symbol first \<and> rec_timeframe r = rec_timeframe first \<and> \<not> crossed r"

definition series_ok :: "market_record list \<Rightarrow> bool" where
  "series_ok rs \<longleftrightarrow> list_all (coherent (hd rs)) rs \<and> sorted_wrt (\<lambda>a b. rec_time a < rec_time b) rs"

lemma timeframe_tick: "is_candle r = is_candle f \<Longrightarrow> \<not> is_candle f \<Longrightarrow> rec_timeframe r = rec_timeframe f"
  by (cases r; cases f) simp_all

lemma check_records_ok:
  "check_records f i prev rs = Inr () \<longleftrightarrow>
     list_all (coherent f) rs \<and> successively (\<lambda>a b. rec_time a < rec_time b) ((case prev of None \<Rightarrow> [] | Some p \<Rightarrow> [p]) @ rs)"
proof (induction f i prev rs rule: check_records.induct)
  case (2 f i prev r rs)
  have "check_records f i prev (r # rs) = Inr () \<longleftrightarrow>
     coherent f r \<and> (case prev of None \<Rightarrow> True | Some p \<Rightarrow> rec_time p < rec_time r) \<and> check_records f (Suc i) (Some r) rs = Inr ()"
    using timeframe_tick [of r f] by (auto simp: result_simps coherent_def split: option.splits)
  with "2.IH" show ?case by (cases prev) (auto simp: successively_Cons)
qed (auto split: option.splits)

lemma strictly_ascending: "successively (\<lambda>a b. rec_time a < rec_time b) rs = sorted_wrt (\<lambda>a b. rec_time a < rec_time b) rs"
  by (rule successively_conv_sorted_wrt) (auto intro: transpI)

text \<open>An input is accepted exactly when its texts are not blank and its records are a non-empty series of one
  kind, instrument, exchange, symbol and timeframe, with aware and strictly ascending timestamps and
  no crossed quote; and it is returned as it was given, never repaired.\<close>

theorem backtest_input_exact:
  "mk_backtest_input b = Inr b' \<longleftrightarrow>
     b' = b \<and> \<not> blank (bi_dataset_id b) \<and> \<not> blank (bi_source b) \<and> bi_records b \<noteq> [] \<and> series_ok (bi_records b)"
  by (cases "bi_records b")
    (auto simp: mk_backtest_input_def result_simps check_records_ok [of _ 0 None "_ # _"] series_ok_def strictly_ascending
      simp del: check_records.simps)

section \<open>A ready dataset is accepted\<close>

lemma finding_if_Nil [simp]: "finding_if c i k w = [] \<longleftrightarrow> \<not> c"
  by (simp add: finding_if_def)

lemma classify_record_Nil:
  "classify_record i r = [] \<Longrightarrow> tz_aware (record_timestamp r) \<and> \<not> crossed r"
  by (cases r) (auto simp: price_finding_def)

lemma finding_if_index: "f \<in> set (finding_if c i k w) \<Longrightarrow> qf_index f = i \<and> qf_class f = k"
  by (auto simp: finding_if_def split: if_splits)

lemma order_findings_index: "order_findings i st g p ts = Inr fs \<Longrightarrow> f \<in> set fs \<Longrightarrow> qf_index f = i \<and> qf_class f \<noteq> VALID"
  by (auto simp: order_findings_def split: option.splits if_splits dest!: finding_if_index)

lemma future_findings_index: "future_findings i rt ts = Inr fs \<Longrightarrow> f \<in> set fs \<Longrightarrow> qf_index f = i \<and> qf_class f \<noteq> VALID"
  by (auto simp: future_findings_def split: option.splits if_splits dest!: finding_if_index)

lemma identity_findings_index: "f \<in> set (identity_findings i a r) \<Longrightarrow> qf_index f = i \<and> qf_class f \<noteq> VALID"
  by (auto simp: identity_findings_def dest!: finding_if_index)

lemma record_class_VALID:
  assumes "record_class i fs rejected = VALID" "f \<in> set fs" "qf_index f = i" "qf_class f \<noteq> VALID"
  shows False
  using assms by (cases "qf_class f") (auto simp: record_class_def list_ex_iff split: if_splits)

text \<open>A record the loop classifies as valid has no finding of its own.\<close>

lemma valid_record_clean:
  assumes "record_class i (fs @ classify_record i r @ identity_findings i first r @ ord @ fut) (classify_record i r \<noteq> []) = VALID"
    and "order_findings i st g prev ts = Inr ord" "future_findings i rt ts = Inr fut"
  shows "classify_record i r = []" "identity_findings i first r = []" "ord = []"
proof -
  show "classify_record i r = []" using assms(1) by (auto simp: record_class_def split: if_splits)
  show "identity_findings i first r = []"
    using record_class_VALID [OF assms(1)] identity_findings_index by (metis Un_iff list.set_intros(1) neq_Nil_conv set_append)
  show "ord = []"
    using record_class_VALID [OF assms(1)] order_findings_index [OF assms(2)] by (metis Un_iff list.set_intros(1) neq_Nil_conv set_append)
qed

lemma order_findings_ascending:
  "order_findings i st g prev ts = Inr [] \<Longrightarrow> (case prev of None \<Rightarrow> True | Some p \<Rightarrow> instant p < instant ts)"
  by (auto simp: order_findings_def datetime_gt_def split: option.splits if_splits)

lemma identity_findings_coherent:
  "classify_record i r = [] \<Longrightarrow> identity_findings i f r = [] \<Longrightarrow> coherent f r"
  using classify_record_Nil [of i r] timeframe_tick [of r f]
  by (auto simp: identity_findings_def coherent_def)

lemma quality_loop_prefix: "quality_loop f rt st g i prev fs cs rs = Inr (fs', cs') \<Longrightarrow> \<exists>zs. cs' = cs @ zs"
  by (induction f rt st g i prev fs cs rs arbitrary: fs' cs' rule: quality_loop.induct)
    (fastforce simp: result_simps Let_def)+

lemma quality_loop_ready:
  assumes "quality_loop f rt st g i prev fs cs rs = Inr (fs', cs')" "list_all (\<lambda>c. c = VALID) cs'"
  shows "list_all (coherent f) rs \<and> successively (<) ((case prev of None \<Rightarrow> [] | Some p \<Rightarrow> [instant p]) @ map rec_time rs)"
  using assms
proof (induction f rt st g i prev fs cs rs rule: quality_loop.induct)
  case (2 f rt st g i prev fs cs r rs)
  from "2.prems"(1) obtain ord fut where
    o: "order_findings i st g prev (record_timestamp r) = Inr ord"
    and u: "future_findings i rt (record_timestamp r) = Inr fut"
    and l: "quality_loop f rt st g (Suc i) (Some (record_timestamp r))
        (fs @ classify_record i r @ identity_findings i f r @ ord @ fut)
        (cs @ [record_class i (fs @ classify_record i r @ identity_findings i f r @ ord @ fut) (classify_record i r \<noteq> [])]) rs = Inr (fs', cs')"
    by (auto simp: result_simps Let_def)
  have v: "record_class i (fs @ classify_record i r @ identity_findings i f r @ ord @ fut) (classify_record i r \<noteq> []) = VALID"
    using quality_loop_prefix [OF l] "2.prems"(2) by auto
  note clean = valid_record_clean [OF v o u]
  have "coherent f r" using clean by (intro identity_findings_coherent)
  moreover have "case prev of None \<Rightarrow> True | Some p \<Rightarrow> instant p < rec_time r"
    using o clean(3) by (intro order_findings_ascending) simp
  moreover note "2.IH" [OF refl refl refl l "2.prems"(2)]
  ultimately show ?case by (cases prev) (auto simp: successively_Cons)
qed (auto split: option.splits)

lemma all_valid: "count_class REJECTED cs = 0 \<Longrightarrow> count_class QUARANTINED cs = 0 \<Longrightarrow> list_all (\<lambda>c. c = VALID) cs"
  by (auto simp: count_class_def list_all_iff filter_empty_conv) (metis quality_class.exhaust)

text \<open>A dataset the quality classifier reports as ready for simulation is accepted as a backtest input: no check
  of the constructor is missing from the classifier.\<close>

theorem ready_dataset_accepted:
  assumes "validate_dataset (bi_records b) rt st g = Inr q" "is_simulation_ready q"
    and "bi_records b \<noteq> []" "\<not> blank (bi_dataset_id b)" "\<not> blank (bi_source b)"
  shows "mk_backtest_input b = Inr b"
proof -
  from assms(3) obtain f rs where rs: "bi_records b = f # rs" by (cases "bi_records b") auto
  from assms(1) obtain fs cs where l: "quality_loop f rt st g 0 None [] [] (f # rs) = Inr (fs, cs)"
    and q: "q = quality_summary fs cs (f # rs)"
    by (auto simp: validate_dataset_def rs result_simps mk_quality_report_def simp del: quality_loop.simps)
  have "list_all (\<lambda>c. c = VALID) cs"
    using assms(2) by (intro all_valid) (simp_all add: q is_simulation_ready_def quality_summary_def)
  note ready = quality_loop_ready [OF l this]
  then have "successively (<) (map rec_time (f # rs))" by simp
  with ready have "series_ok (f # rs)"
    unfolding series_ok_def strictly_ascending [symmetric] successively_map by simp
  then show ?thesis using assms by (auto simp: backtest_input_exact rs)
qed

section \<open>Clock and cursor\<close>

text \<open>Advancing the clock and counting steps are inverse: after \<open>n\<close> steps the count is \<open>n\<close>, and a target the count
  accepts is reached by that many steps.\<close>

theorem clock_round_trip:
  assumes "mk_clock t step = Inr c" "clock_advance c n = Inr c'"
  shows "steps_until c (sk_current c') = Inr n"
    and "steps_until c u = Inr k \<Longrightarrow> 1 \<le> k \<Longrightarrow> \<exists>d. clock_advance c k = Inr d \<and> instant (sk_current d) = instant u"
proof -
  have c: "tz_aware (sk_current c)" "0 < sk_step c" using assms(1) by (auto simp: mk_clock_def result_simps)
  from assms(2) have n: "1 \<le> n" "sk_current c' = plus_delta (sk_current c) (sk_step c * n)"
    by (auto simp: clock_advance_def mk_clock_def result_simps)
  then show "steps_until c (sk_current c') = Inr n"
    using c by (simp add: steps_until_def Let_def zero_le_mult_iff)
  assume u: "steps_until c u = Inr k" "1 \<le> k"
  then have "(instant u - instant (sk_current c)) mod sk_step c = 0" "k = (instant u - instant (sk_current c)) div sk_step c"
    by (auto simp: steps_until_def Let_def result_simps)
  then have "sk_step c * k = instant u - instant (sk_current c)" by (metis add.right_neutral mult_div_mod_eq)
  then show "\<exists>d. clock_advance c k = Inr d \<and> instant (sk_current d) = instant u"
    using c u(2) by (simp add: clock_advance_def mk_clock_def)
qed

lemma read_records_from:
  "rp_index c \<le> length (rp_records c) \<Longrightarrow> length (rp_records c) - rp_index c \<le> n \<Longrightarrow>
     read_records n c = (drop (rp_index c) (rp_records c), c\<lparr>rp_index := length (rp_records c)\<rparr>)"
proof (induction n arbitrary: c)
  case (Suc n)
  show ?case
  proof (cases "rp_index c = length (rp_records c)")
    case False
    with Suc.prems have l: "rp_index c < length (rp_records c)" by simp
    then have "read_records n (c\<lparr>rp_index := rp_index c + 1\<rparr>) =
        (drop (rp_index c + 1) (rp_records c), c\<lparr>rp_index := length (rp_records c)\<rparr>)"
      using Suc.IH [of "c\<lparr>rp_index := rp_index c + 1\<rparr>"] Suc.prems by simp
    then show ?thesis using l by (simp add: cursor_next_def Cons_nth_drop_Suc)
  qed (simp add: cursor_next_def)
qed simp

text \<open>Reading a new cursor to its end returns every record once and in order, and leaves it exhausted; the bound on
  the number of reads is the number of records, and further reads return nothing.\<close>

theorem replay_complete:
  assumes "new_cursor rs = Inr c" "length rs \<le> n"
  shows "fst (read_records n c) = rs" "cursor_exhausted (snd (read_records n c))"
    "cursor_next (snd (read_records n c)) = (None, snd (read_records n c))"
  using assms read_records_from [of c n] by (auto simp: new_cursor_def result_simps cursor_exhausted_def cursor_next_def)

section \<open>Content identity\<close>

definition sep_free :: "string \<Rightarrow> bool" where
  "sep_free s \<longleftrightarrow> CHR ''|'' \<notin> set s \<and> CHR 0x0A \<notin> set s"

text \<open>A record as the serialisation sees it: timestamps in UTC, the instrument as 128 bits.\<close>

fun utc_record :: "market_record \<Rightarrow> market_record" where
  "utc_record (Candle c) = Candle (c\<lparr>cd_instrument_id := cd_instrument_id c mod 16 ^ 32,
     cd_candle_start := utc (instant (cd_candle_start c)), cd_generated_at := utc (instant (cd_generated_at c))\<rparr>)"
| "utc_record (Tick t) = Tick (t\<lparr>tk_instrument_id := tk_instrument_id t mod 16 ^ 32,
     tk_timestamp := utc (instant (tk_timestamp t)), tk_received_at := utc (instant (tk_received_at t))\<rparr>)"

text \<open>The texts a caller chooses have no separator, and the timestamps are datetimes of Python.\<close>

fun plain_record :: "market_record \<Rightarrow> bool" where
  "plain_record (Candle c) \<longleftrightarrow> sep_free (cd_exchange c) \<and> sep_free (cd_symbol c) \<and> sep_free (cd_source_broker c)
     \<and> in_datetime_range (cd_candle_start c) \<and> in_datetime_range (cd_generated_at c)"
| "plain_record (Tick t) \<longleftrightarrow> sep_free (tk_exchange t) \<and> sep_free (tk_symbol t) \<and> sep_free (tk_source_broker t)
     \<and> sep_free (tk_source_sequence t) \<and> in_datetime_range (tk_timestamp t) \<and> in_datetime_range (tk_received_at t)"

lemma is_digit_sep: "is_digit c \<Longrightarrow> c \<noteq> CHR ''|'' \<and> c \<noteq> CHR 0x0A"
  by (auto simp: is_digit_def)

lemma sep_free_simps [simp]:
  "sep_free []" "sep_free (c # s) \<longleftrightarrow> c \<noteq> CHR ''|'' \<and> c \<noteq> CHR 0x0A \<and> sep_free s"
  "sep_free (s @ t) \<longleftrightarrow> sep_free s \<and> sep_free t" "c \<noteq> CHR ''|'' \<Longrightarrow> c \<noteq> CHR 0x0A \<Longrightarrow> sep_free (replicate n c)"
  by (auto simp: sep_free_def)

lemma sep_free_digits: "(\<And>c. c \<in> set s \<Longrightarrow> is_digit c) \<Longrightarrow> sep_free s"
  by (auto simp: sep_free_def dest: is_digit_sep)

lemma sep_free_nat_str [simp]: "sep_free (nat_str n)"
  using nat_str_digits by (intro sep_free_digits) blast

lemma sep_free_int_str [simp]: "sep_free (int_str n)"
  by (simp add: int_str_def)

lemma sep_free_iso [simp]: "sep_free (iso_utc d)"
  unfolding sep_free_def using iso_utc_chars [of _ d] is_digit_sep by fastforce

lemma hex_digit_sep: "d < 16 \<Longrightarrow> hex_digit d \<noteq> CHR ''|'' \<and> hex_digit d \<noteq> CHR 0x0A"
  using hex_value_digit [of d] by (auto simp: hex_value_def)

lemma sep_free_hex: "sep_free (hex_fixed k n)"
  by (induction k arbitrary: n) (simp_all add: hex_digit_sep)

lemma sep_free_sub: "sep_free s \<Longrightarrow> set t \<subseteq> set s \<Longrightarrow> sep_free t"
  by (auto simp: sep_free_def)

lemma sep_free_uuid [simp]: "sep_free (uuid_str u)"
proof -
  have "sep_free (take i (drop j (hex_fixed 32 u)))" "sep_free (drop j (hex_fixed 32 u))" for i j
    by (rule sep_free_sub [OF sep_free_hex [of 32 u]]; auto dest: in_set_takeD in_set_dropD)+
  note h = this(1) [of 8 0] this
  show ?thesis unfolding uuid_str_def Let_def using h by simp
qed

lemma sep_free_decimal [simp]: "sep_free (decimal_str d)"
proof -
  have t: "sep_free (take k (nat_str n))" "sep_free (drop k (nat_str n))" for k n
    by (rule sep_free_sub [OF sep_free_nat_str [of n]]; auto dest: in_set_takeD in_set_dropD)+
  show ?thesis
    unfolding decimal_str_def exponent_str_def Let_def
    by (intro sep_free_simps(3) [THEN iffD2] conjI; simp add: t)
qed

lemma nat_str_inj: "nat_str a = nat_str b \<Longrightarrow> a = b"
  by (metis nat_parse_str)

lemma int_str_inj: "int_str a = int_str b \<Longrightarrow> a = b"
proof -
  assume e: "int_str a = int_str b"
  have h: "nat_str n \<noteq> CHR ''-'' # s" for n s using nat_str_digits [of n] by (auto simp: is_digit_def)
  from e have "(a < 0) = (b < 0)" using h by (auto simp: int_str_def split: if_splits) metis+
  then show ?thesis using e by (auto simp: int_str_def dest!: nat_str_inj split: if_splits)
qed

lemma decimal_str_inj: "decimal_str a = decimal_str b \<Longrightarrow> a = b"
  by (metis decimal_parse_str option.inject)

lemma decimal_str_eq [simp]: "decimal_str a = decimal_str b \<longleftrightarrow> a = b"
  using decimal_str_inj by blast

lemma None_not_digits: "''None'' \<noteq> int_str n"
proof
  assume "''None'' = int_str n"
  then have "CHR ''N'' \<in> set (int_str n)" by (metis list.set_intros(1))
  then show False using nat_str_digits [of "nat \<bar>n\<bar>"] by (auto simp: int_str_def is_digit_def)
qed

lemma None_not_decimal: "''None'' \<noteq> decimal_str d"
proof
  assume "''None'' = decimal_str d"
  then have "decimal_parse ''None'' = Some d" using decimal_parse_str [of d] by simp
  then show False by (simp add: decimal_parse_def split_sign_def fraction_parse_def is_digit_def)
qed

lemma opt_text_inj:
  assumes "opt_text f a = opt_text f b" "\<And>x. ''None'' \<noteq> f x" "\<And>x y. f x = f y \<Longrightarrow> x = y"
  shows "a = b"
proof (cases a; cases b)
  fix x y
  assume "a = Some x" "b = Some y"
  then show ?thesis using assms(1,3) by (simp add: opt_text_def)
next
  fix x
  assume "a = None" "b = Some x"
  then show ?thesis using assms(1) assms(2) [of x] by (simp add: opt_text_def)
next
  fix x
  assume "a = Some x" "b = None"
  then show ?thesis using assms(1) assms(2) [of x] by (simp add: opt_text_def eq_commute)
qed simp

lemmas opt_int_inj = opt_text_inj [of int_str, OF _ None_not_digits int_str_inj]
lemmas opt_decimal_inj = opt_text_inj [of decimal_str, OF _ None_not_decimal decimal_str_inj]

lemma timeframe_value_inj: "timeframe_value a = timeframe_value b \<Longrightarrow> a = b"
  by (cases a; cases b) simp_all

lemma sep_free_timeframe [simp]: "sep_free (timeframe_value t)"
  by (cases t) simp_all

lemma sep_free_opt [simp]: "(\<And>x. sep_free (f x)) \<Longrightarrow> sep_free (opt_text f v)"
  by (cases v) (simp_all add: opt_text_def)

lemma record_fields_sep_free: "plain_record r \<Longrightarrow> list_all sep_free (record_fields r)"
  by (cases r) (simp_all add: candle_fields_def tick_fields_def)

lemma utc_eq_iff [simp]: "utc a = utc b \<longleftrightarrow> a = b"
  by (simp add: utc_def)

lemma record_fields_inj:
  assumes e: "record_fields r = record_fields s" and p: "plain_record r" "plain_record s"
  shows "utc_record r = utc_record s"
proof (cases r; cases s)
  fix c d assume rs: "r = Candle c" "s = Candle d"
  from e have f: "candle_fields c = candle_fields d" by (simp add: rs)
  have "instant (cd_candle_start c) = instant (cd_candle_start d)" "instant (cd_generated_at c) = instant (cd_generated_at d)"
    using f p by (auto simp: rs candle_fields_def intro: iso_utc_inj)
  moreover have "cd_timeframe c = cd_timeframe d" "cd_volume c = cd_volume d"
    using f by (auto simp: candle_fields_def intro: timeframe_value_inj opt_int_inj)
  ultimately show ?thesis using f
    by (auto simp: rs candle_fields_def uuid_str_eq_iff intro!: market_candle.equality)
next
  fix c d assume rs: "r = Tick c" "s = Tick d"
  from e have f: "tick_fields c = tick_fields d" by (simp add: rs)
  have "instant (tk_timestamp c) = instant (tk_timestamp d)" "instant (tk_received_at c) = instant (tk_received_at d)"
    using f p by (auto simp: rs tick_fields_def intro: iso_utc_inj)
  moreover have "tk_volume c = tk_volume d" "tk_bid_quantity c = tk_bid_quantity d" "tk_ask_quantity c = tk_ask_quantity d"
    using f by (auto simp: tick_fields_def intro: opt_int_inj)
  moreover have "tk_bid c = tk_bid d" "tk_ask c = tk_ask d"
    using f by (auto simp: tick_fields_def intro: opt_decimal_inj)
  ultimately show ?thesis using f
    by (auto simp: rs tick_fields_def uuid_str_eq_iff intro!: market_tick.equality)
qed (use e in \<open>auto simp: candle_fields_def tick_fields_def\<close>)

lemma utc_record_fields: "record_fields (utc_record r) = record_fields r"
  by (cases r) (simp_all add: candle_fields_def tick_fields_def iso_utc_def uuid_str_mod [simplified])

lemma canonical_serialize_inj:
  assumes "canonical_serialize r = canonical_serialize s" "plain_record r" "plain_record s"
  shows "utc_record r = utc_record s"
proof -
  have ne: "record_fields x \<noteq> []" for x by (cases x) (simp_all add: candle_fields_def tick_fields_def)
  have "record_fields r = record_fields s"
    using assms(1) ne record_fields_sep_free [OF assms(2)] record_fields_sep_free [OF assms(3)]
    unfolding canonical_serialize_def by (intro join_inj [of "CHR ''|''"]) (auto simp: sep_free_def list_all_iff)
  then show ?thesis using assms(2,3) by (rule record_fields_inj)
qed

lemma canonical_serialize_lines: "plain_record r \<Longrightarrow> CHR 0x0A \<notin> set (canonical_serialize r)"
  unfolding canonical_serialize_def using record_fields_sep_free [of r]
  by (auto simp: list_all_iff sep_free_def dest!: join_chars)

definition sample_candle :: "string \<Rightarrow> string \<Rightarrow> market_candle" where
  "sample_candle exchange symbol =
     \<lparr>cd_instrument_id = 7, cd_exchange = exchange, cd_symbol = symbol, cd_timeframe = ONE_DAY, cd_candle_start = utc 0,
      cd_open_price = Dec 10 0, cd_high_price = Dec 12 0, cd_low_price = Dec 9 0, cd_close_price = Dec 11 0,
      cd_volume = None, cd_source_broker = ''sim'', cd_generated_at = utc 0\<rparr>"

text \<open>C40.  For records whose texts contain no separator, two non-empty histories have the same canonical bytes, and so the
  same digest input, exactly when they are the same records up to the time zone in which their
  instants are written.\<close>

theorem content_identity_exact:
  assumes "rs \<noteq> []" "ss \<noteq> []" "list_all plain_record rs" "list_all plain_record ss"
  shows "canonical_bytes rs = canonical_bytes ss \<longleftrightarrow> map utc_record rs = map utc_record ss"
proof
  assume e: "canonical_bytes rs = canonical_bytes ss"
  have "map canonical_serialize rs = map canonical_serialize ss"
    using e assms unfolding canonical_bytes_def
    by (intro join_inj [of "CHR 0x0A"]) (auto simp: list_all_iff canonical_serialize_lines)
  then have "list_all2 (\<lambda>r s. utc_record r = utc_record s) rs ss"
    using assms(3,4) by (induction rs arbitrary: ss) (auto simp: Cons_eq_map_conv intro: canonical_serialize_inj)
  then show "map utc_record rs = map utc_record ss"
    by (simp add: list.rel_eq [symmetric] list.rel_map)
next
  assume "map utc_record rs = map utc_record ss"
  then have "map (record_fields \<circ> utc_record) rs = map (record_fields \<circ> utc_record) ss"
    unfolding list.map_comp [symmetric] by simp
  then have "map (join ''|'' \<circ> record_fields) rs = map (join ''|'' \<circ> record_fields) ss"
    unfolding list.map_comp [symmetric] by (simp add: utc_record_fields comp_def)
  moreover have "join ''|'' \<circ> record_fields = canonical_serialize" by (auto simp: canonical_serialize_def)
  ultimately show "canonical_bytes rs = canonical_bytes ss" by (simp add: canonical_bytes_def)
qed

theorem content_identity_exact_witness:
  "canonical_bytes [Candle (sample_candle ''NSE'' ''A'')] =
     canonical_bytes [Candle ((sample_candle ''NSE'' ''A'')\<lparr>cd_candle_start := Datetime 0 (Some 330)\<rparr>)]"
proof -
  have "in_datetime_range (Datetime 0 z)" for z
    by (simp add: in_datetime_range_def date_of_usec_def ord2ymd_def Let_def)
  then show ?thesis
    by (subst content_identity_exact) (simp_all add: sample_candle_def utc_def)
qed

text \<open>The separators are not escaped: two valid candles of different instruments can have the same canonical text.\<close>

lemma serialization_ambiguous:
  "candle_valid (sample_candle ''NSE'' ''A|B'')" "candle_valid (sample_candle ''NSE|A'' ''B'')"
  "content_sha256 sha [Candle (sample_candle ''NSE'' ''A|B'')] = content_sha256 sha [Candle (sample_candle ''NSE|A'' ''B'')]"
  by (simp_all add: sample_candle_def candle_valid_def sized_def decimal_order dval_def zero_decimal_def content_sha256_def
      canonical_bytes_def canonical_serialize_def candle_fields_def)

end
