(* ===== verification/Backtest_Engine.thy ===== *)
theory Backtest_Engine
  imports Market_Data
begin

text \<open>
  The backtest simulation engine, \<^verbatim>\<open>backtesting/alpha_algo_backtest_engine\<close>: order intents, the cost
  model, the fill decision, the FIFO ledger and \<^verbatim>\<open>run_backtest\<close>, with the latency model of
  \<^verbatim>\<open>backtesting/alpha_algo_backtest_latency\<close>.  The engine is a pure function, so the run is a value;
  every raise is an error value.

  The main results: the nested loops over records and anchored intents are one pass over the intents in
  order; an intent can only fill at the first record strictly after its decision; cash and position
  never become negative, at any prefix of the fills; the past of a run does not depend on later
  records; and with quantities on a common grid a run over valid data always returns, because the
  lots of the ledger always add up to the position.
\<close>

section \<open>Intents\<close>

datatype intent_side = IBUY | ISELL
datatype intent_type = IMARKET | ILIMIT

record order_intent =
  oi_side :: intent_side
  oi_order_type :: intent_type
  oi_quantity :: decimal
  oi_decided_at :: datetime
  oi_limit_price :: "decimal option"
  oi_label :: "string option"

definition mk_intent :: "order_intent \<Rightarrow> (backtest_error, order_intent) result" where
  "mk_intent i =
     rbind (guard (0 < oi_quantity i) (BacktestEngineError ''quantity must be positive'')) (\<lambda>_.
     rbind (guard (tz_aware (oi_decided_at i)) (BacktestEngineError ''decided_at must be timezone-aware'')) (\<lambda>_.
     case oi_order_type i of
       ILIMIT \<Rightarrow>
         (case oi_limit_price i of
            None \<Rightarrow> Inl (BacktestEngineError ''limit orders require a positive limit_price'')
          | Some p \<Rightarrow> rbind (guard (0 < p) (BacktestEngineError ''limit_price must be positive'')) (\<lambda>_. Inr i))
     | IMARKET \<Rightarrow>
         rbind (guard (oi_limit_price i = None) (BacktestEngineError ''market orders must not carry a limit_price'')) (\<lambda>_. Inr i)))"

section \<open>Costs\<close>

record cost_model =
  fc_commission_per_fill :: decimal
  fc_slippage_bps :: decimal

definition mk_fill_costs :: "cost_model \<Rightarrow> (backtest_error, cost_model) result" where
  "mk_fill_costs m =
     rbind (guard (0 \<le> fc_commission_per_fill m) (BacktestEngineError ''commission_per_fill must be non-negative'')) (\<lambda>_.
     rbind (guard (0 \<le> fc_slippage_bps m) (BacktestEngineError ''slippage_bps must be non-negative'')) (\<lambda>_.
     rbind (guard (fc_slippage_bps m < Dec 10000 0)
       (BacktestEngineError ''slippage_bps must be below 10000 (a 100%+ sell slippage would produce a non-positive fill price)'')) (\<lambda>_.
     Inr m)))"

definition slipped_price :: "decimal \<Rightarrow> intent_side \<Rightarrow> decimal \<Rightarrow> (backtest_error, decimal) result" where
  "slipped_price anchor side bps =
     rbind (guard (0 < anchor) (BacktestEngineError ''anchor_price must be positive'')) (\<lambda>_.
     rbind (guard (0 \<le> bps \<and> bps < Dec 10000 0) (BacktestEngineError ''slippage_bps must be in [0, 10000)'')) (\<lambda>_.
     if deq bps 0 then Inr anchor
     else rbind (of_opt DecimalError (ddiv bps (Dec 10000 0))) (\<lambda>q.
       let factor = (case side of IBUY \<Rightarrow> 1 + q | ISELL \<Rightarrow> 1 - q) in
       Inr (anchor * factor))))"

definition commission_for :: "decimal \<Rightarrow> (backtest_error, decimal) result" where
  "commission_for c = rbind (guard (0 \<le> c) (BacktestEngineError ''commission_per_fill must be non-negative'')) (\<lambda>_. Inr c)"

section \<open>Fills\<close>

datatype unfilled_reason =
    NO_RECORD_AFTER_DECISION | INSUFFICIENT_CASH | INSUFFICIENT_POSITION
  | LIMIT_NOT_EXECUTABLE | NO_EXECUTABLE_ASK | NO_EXECUTABLE_BID

fun reason_value :: "unfilled_reason \<Rightarrow> string" where
  "reason_value NO_RECORD_AFTER_DECISION = ''NO_RECORD_AFTER_DECISION''"
| "reason_value INSUFFICIENT_CASH = ''INSUFFICIENT_CASH''"
| "reason_value INSUFFICIENT_POSITION = ''INSUFFICIENT_POSITION''"
| "reason_value LIMIT_NOT_EXECUTABLE = ''LIMIT_NOT_EXECUTABLE''"
| "reason_value NO_EXECUTABLE_ASK = ''NO_EXECUTABLE_ASK''"
| "reason_value NO_EXECUTABLE_BID = ''NO_EXECUTABLE_BID''"

record fill_record =
  fr_sequence :: nat
  fr_intent_index :: nat
  fr_side :: intent_side
  fr_quantity :: decimal
  fr_anchor_price :: decimal
  fr_slippage_per_share :: decimal
  fr_fill_price :: decimal
  fr_commission_amount :: decimal
  fr_gross_value :: decimal
  fr_cash_flow :: decimal
  fr_record_index :: nat
  fr_filled_at :: datetime

record fill_outcome =
  fo_intent_index :: nat
  fo_filled :: bool
  fo_fill :: "fill_record option"
  fo_reason :: "string option"

definition mk_fill_outcome :: "fill_outcome \<Rightarrow> (backtest_error, fill_outcome) result" where
  "mk_fill_outcome f =
     (if fo_filled f
      then rbind (guard (fo_fill f \<noteq> None) (BacktestEngineError ''a filled outcome requires a fill record'')) (\<lambda>_.
           rbind (guard (fo_reason f = None) (BacktestEngineError ''a filled outcome must not carry a reason'')) (\<lambda>_. Inr f))
      else rbind (guard (fo_fill f = None) (BacktestEngineError ''an unfilled outcome must not carry a fill record'')) (\<lambda>_.
           rbind (guard (fo_reason f \<noteq> None \<and> fo_reason f \<noteq> Some []) (BacktestEngineError ''an unfilled outcome requires a reason'')) (\<lambda>_. Inr f)))"

record fill_evaluation =
  fe_outcome :: fill_outcome
  fe_fill :: "fill_record option"
  fe_cash :: decimal
  fe_position :: decimal

definition unfilled_outcome :: "nat \<Rightarrow> unfilled_reason \<Rightarrow> fill_outcome" where
  "unfilled_outcome i reason = \<lparr>fo_intent_index = i, fo_filled = False, fo_fill = None, fo_reason = Some (reason_value reason)\<rparr>"

definition unfilled :: "nat \<Rightarrow> unfilled_reason \<Rightarrow> decimal \<Rightarrow> decimal \<Rightarrow> (backtest_error, fill_evaluation) result" where
  "unfilled i reason cash position =
     rbind (mk_fill_outcome (unfilled_outcome i reason)) (\<lambda>out.
     Inr \<lparr>fe_outcome = out, fe_fill = None, fe_cash = cash, fe_position = position\<rparr>)"

text \<open>The price a record offers an intent: an unfilled reason, or the anchor.\<close>

fun fill_anchor :: "order_intent \<Rightarrow> market_record \<Rightarrow> (backtest_error, unfilled_reason + decimal) result" where
  "fill_anchor i (Candle c) =
     (let open_price = cd_open_price c in
      case oi_order_type i of
        IMARKET \<Rightarrow> Inr (Inr open_price)
      | ILIMIT \<Rightarrow>
          rbind (of_opt (BacktestEngineError ''limit intents require a limit_price'') (oi_limit_price i)) (\<lambda>p.
          if oi_side i = IBUY \<and> p < open_price \<or> oi_side i = ISELL \<and> open_price < p
          then Inr (Inl LIMIT_NOT_EXECUTABLE) else Inr (Inr open_price)))"
| "fill_anchor i (Tick t) =
     (case oi_order_type i of
        ILIMIT \<Rightarrow>
          (case oi_side i of
             IBUY \<Rightarrow>
               (case tk_ask t of
                  None \<Rightarrow> Inr (Inl NO_EXECUTABLE_ASK)
                | Some anchor \<Rightarrow>
                    rbind (of_opt (BacktestEngineError ''limit intents require a limit_price'') (oi_limit_price i)) (\<lambda>p.
                    if p < anchor then Inr (Inl LIMIT_NOT_EXECUTABLE) else Inr (Inr anchor)))
           | ISELL \<Rightarrow>
               (case tk_bid t of
                  None \<Rightarrow> Inr (Inl NO_EXECUTABLE_BID)
                | Some anchor \<Rightarrow>
                    rbind (of_opt (BacktestEngineError ''limit intents require a limit_price'') (oi_limit_price i)) (\<lambda>p.
                    if anchor < p then Inr (Inl LIMIT_NOT_EXECUTABLE) else Inr (Inr anchor))))
      | IMARKET \<Rightarrow>
          (case oi_side i of
             IBUY \<Rightarrow> Inr (Inr (case tk_ask t of Some a \<Rightarrow> a | None \<Rightarrow> tk_ltp t))
           | ISELL \<Rightarrow> Inr (Inr (case tk_bid t of Some b \<Rightarrow> b | None \<Rightarrow> tk_ltp t))))"

definition evaluate_fill ::
  "order_intent \<Rightarrow> market_record \<Rightarrow> nat \<Rightarrow> decimal \<Rightarrow> decimal \<Rightarrow> cost_model \<Rightarrow> nat \<Rightarrow> nat \<Rightarrow> (backtest_error, fill_evaluation) result" where
  "evaluate_fill intent r record_index cash position cm sequence intent_index =
     rbind (guard (0 \<le> position) (BacktestEngineError ''position must be non-negative'')) (\<lambda>_.
     rbind (fill_anchor intent r) (\<lambda>offer.
     case offer of
       Inl reason \<Rightarrow> unfilled intent_index reason cash position
     | Inr anchor \<Rightarrow>
     rbind (guard (0 < anchor) (BacktestEngineError (''anchor price must be strictly positive (got '' @ decimal_str anchor @ '')''))) (\<lambda>_.
     rbind (case oi_order_type intent of
         IMARKET \<Rightarrow> slipped_price anchor (oi_side intent) (fc_slippage_bps cm)
       | ILIMIT \<Rightarrow> Inr anchor) (\<lambda>fill_price.
     rbind (commission_for (fc_commission_per_fill cm)) (\<lambda>commission.
     let gross_value = oi_quantity intent * fill_price;
         cash_flow = (case oi_side intent of ISELL \<Rightarrow> gross_value - commission | IBUY \<Rightarrow> - (gross_value + commission)) in
     if oi_side intent = ISELL \<and> position < oi_quantity intent
     then unfilled intent_index INSUFFICIENT_POSITION cash position
     else if cash + cash_flow < 0 then unfilled intent_index INSUFFICIENT_CASH cash position
     else
       let fill = \<lparr>fr_sequence = sequence, fr_intent_index = intent_index, fr_side = oi_side intent,
             fr_quantity = oi_quantity intent, fr_anchor_price = anchor,
             fr_slippage_per_share = dabs (fill_price - anchor), fr_fill_price = fill_price,
             fr_commission_amount = commission, fr_gross_value = gross_value, fr_cash_flow = cash_flow,
             fr_record_index = record_index, fr_filled_at = record_timestamp r\<rparr> in
       rbind (mk_fill_outcome \<lparr>fo_intent_index = intent_index, fo_filled = True, fo_fill = Some fill, fo_reason = None\<rparr>) (\<lambda>out.
       Inr \<lparr>fe_outcome = out, fe_fill = Some fill, fe_cash = cash + cash_flow,
         fe_position = (case oi_side intent of ISELL \<Rightarrow> position - oi_quantity intent | IBUY \<Rightarrow> position + oi_quantity intent)\<rparr>))))))"

section \<open>FIFO ledger\<close>

record trade_record =
  tr_sequence :: nat
  tr_entry_fill_sequence :: nat
  tr_exit_fill_sequences :: "nat list"
  tr_quantity :: decimal
  tr_entry_price :: decimal
  tr_exit_price :: decimal
  tr_entry_cost :: decimal
  tr_exit_cost :: decimal
  tr_realized_pnl :: decimal

record lot =
  lo_entry_fill_sequence :: nat
  lo_entry_price :: decimal
  lo_total_quantity :: decimal
  lo_remaining_quantity :: decimal
  lo_entry_cost :: decimal
  lo_exit_fill_sequences :: "nat list"
  lo_weighted_exit_sum :: decimal
  lo_entry_cost_used :: decimal
  lo_exit_cost_used :: decimal
  lo_realized_total :: decimal

record fifo_ledger =
  fl_lots :: "lot list"
  fl_trade_sequence :: nat

definition empty_ledger :: fifo_ledger where
  "empty_ledger = \<lparr>fl_lots = [], fl_trade_sequence = 0\<rparr>"

definition lot_of_fill :: "fill_record \<Rightarrow> lot" where
  "lot_of_fill f =
     \<lparr>lo_entry_fill_sequence = fr_sequence f, lo_entry_price = fr_fill_price f, lo_total_quantity = fr_quantity f,
      lo_remaining_quantity = fr_quantity f, lo_entry_cost = fr_commission_amount f, lo_exit_fill_sequences = [],
      lo_weighted_exit_sum = 0, lo_entry_cost_used = 0, lo_exit_cost_used = 0, lo_realized_total = 0\<rparr>"

definition open_lot :: "fifo_ledger \<Rightarrow> fill_record \<Rightarrow> (backtest_error, fifo_ledger) result" where
  "open_lot led f =
     rbind (guard (fr_side f = IBUY) (BacktestEngineError ''only BUY fills open lots'')) (\<lambda>_.
     Inr (led\<lparr>fl_lots := fl_lots led @ [lot_of_fill f]\<rparr>))"

text \<open>\<^verbatim>\<open>min(a, b)\<close> keeps its first argument on a tie.\<close>

definition pmin :: "decimal \<Rightarrow> decimal \<Rightarrow> decimal" where
  "pmin a b = (if b < a then b else a)"

text \<open>One matched lot: its shares of the costs and of the profit.\<close>

definition match_lot :: "fill_record \<Rightarrow> decimal \<Rightarrow> lot \<Rightarrow> (backtest_error, decimal \<times> lot) result" where
  "match_lot f remaining l =
     (let matched = pmin remaining (lo_remaining_quantity l) in
      rbind (of_opt DecimalError (ddiv (lo_entry_cost l * matched) (lo_total_quantity l))) (\<lambda>entry_share.
      rbind (of_opt DecimalError (ddiv (fr_commission_amount f * matched) (fr_quantity f))) (\<lambda>exit_share.
      let realized_share = (fr_fill_price f - lo_entry_price l) * matched - entry_share - exit_share in
      Inr (matched, l\<lparr>lo_remaining_quantity := lo_remaining_quantity l - matched,
        lo_exit_fill_sequences := lo_exit_fill_sequences l @ [fr_sequence f],
        lo_weighted_exit_sum := lo_weighted_exit_sum l + fr_fill_price f * matched,
        lo_entry_cost_used := lo_entry_cost_used l + entry_share,
        lo_exit_cost_used := lo_exit_cost_used l + exit_share,
        lo_realized_total := lo_realized_total l + realized_share\<rparr>))))"

definition completed_trade :: "nat \<Rightarrow> lot \<Rightarrow> (backtest_error, trade_record) result" where
  "completed_trade seq l =
     rbind (of_opt DecimalError (ddiv (lo_weighted_exit_sum l) (lo_total_quantity l))) (\<lambda>exit_price.
     Inr \<lparr>tr_sequence = seq, tr_entry_fill_sequence = lo_entry_fill_sequence l,
       tr_exit_fill_sequences = lo_exit_fill_sequences l, tr_quantity = lo_total_quantity l,
       tr_entry_price = lo_entry_price l, tr_exit_price = exit_price, tr_entry_cost = lo_entry_cost_used l,
       tr_exit_cost = lo_exit_cost_used l, tr_realized_pnl = lo_realized_total l\<rparr>)"

fun close_loop ::
  "fill_record \<Rightarrow> decimal \<Rightarrow> nat \<Rightarrow> lot list \<Rightarrow> (backtest_error, lot list \<times> decimal \<times> nat \<times> trade_record list) result" where
  "close_loop f remaining seq [] = Inr ([], remaining, seq, [])"
| "close_loop f remaining seq (l # ls) =
     (if remaining \<le> 0 then Inr (l # ls, remaining, seq, [])
      else if lo_remaining_quantity l \<le> 0
      then rbind (close_loop f remaining seq ls) (\<lambda>(ls', rem, sq, ts). Inr (l # ls', rem, sq, ts))
      else rbind (match_lot f remaining l) (\<lambda>(matched, l').
        if deq (lo_remaining_quantity l') 0
        then rbind (completed_trade seq l') (\<lambda>t.
          rbind (close_loop f (remaining - matched) (Suc seq) ls) (\<lambda>(ls', rem, sq, ts). Inr (l' # ls', rem, sq, t # ts)))
        else rbind (close_loop f (remaining - matched) seq ls) (\<lambda>(ls', rem, sq, ts). Inr (l' # ls', rem, sq, ts))))"

definition close_lots :: "fifo_ledger \<Rightarrow> fill_record \<Rightarrow> (backtest_error, fifo_ledger \<times> trade_record list) result" where
  "close_lots led f =
     rbind (guard (fr_side f = ISELL) (BacktestEngineError ''only SELL fills close lots'')) (\<lambda>_.
     rbind (close_loop f (fr_quantity f) (fl_trade_sequence led) (fl_lots led)) (\<lambda>(ls, rem, seq, ts).
     rbind (guard (\<not> 0 < rem) (BacktestEngineError ''SELL fill exceeded open position (ledger invariant violated)'')) (\<lambda>_.
     Inr (\<lparr>fl_lots = filter (\<lambda>l. 0 < lo_remaining_quantity l) ls, fl_trade_sequence = seq\<rparr>, ts))))"

section \<open>The run\<close>

fun mark_price :: "market_record \<Rightarrow> (backtest_error, decimal) result" where
  "mark_price (Candle c) =
     rbind (guard (0 < cd_close_price c) (BacktestEngineError ''mark price must be a positive finite Decimal'')) (\<lambda>_. Inr (cd_close_price c))"
| "mark_price (Tick t) =
     rbind (guard (0 < tk_ltp t) (BacktestEngineError ''mark price must be a positive finite Decimal'')) (\<lambda>_. Inr (tk_ltp t))"

record equity_point =
  ep_timestamp :: datetime
  ep_equity :: decimal

record backtest_run =
  br_input_sha256 :: string
  br_dataset_id :: string
  br_source :: string
  br_initial_capital :: decimal
  br_cost_model :: cost_model
  br_intents :: "order_intent list"
  br_outcomes :: "fill_outcome list"
  br_trades :: "trade_record list"
  br_equity_curve :: "equity_point list"

definition mk_backtest_run :: "backtest_run \<Rightarrow> (backtest_error, backtest_run) result" where
  "mk_backtest_run r =
     rbind (guard (0 < br_initial_capital r) (BacktestEngineError ''initial_capital must be a positive finite Decimal'')) (\<lambda>_.
     rbind (guard (length (br_outcomes r) = length (br_intents r))
       (BacktestEngineError ''outcomes must be 1:1 with intents (nothing silently dropped)'')) (\<lambda>_.
     rbind (guard (br_equity_curve r \<noteq> []) (BacktestEngineError ''equity_curve must be a non-empty tuple of EquityPoint'')) (\<lambda>_.
     Inr r)))"

definition br_fills :: "backtest_run \<Rightarrow> fill_record list" where
  "br_fills r = List.map_filter (\<lambda>f. if fo_filled f then fo_fill f else None) (br_outcomes r)"

definition final_equity :: "backtest_run \<Rightarrow> decimal" where
  "final_equity r = ep_equity (last (br_equity_curve r))"

definition total_commission :: "backtest_run \<Rightarrow> decimal" where
  "total_commission r = dsum (map fr_commission_amount (br_fills r))"

definition total_slippage_cost :: "backtest_run \<Rightarrow> decimal" where
  "total_slippage_cost r = dsum (map (\<lambda>f. fr_slippage_per_share f * fr_quantity f) (br_fills r))"

text \<open>The cursor of the anchoring pass moves to the first record strictly after the decision.\<close>

function seek :: "market_record list \<Rightarrow> nat \<Rightarrow> int \<Rightarrow> nat" where
  "seek rs cursor t = (if cursor < length rs \<and> rec_time (rs ! cursor) \<le> t then seek rs (Suc cursor) t else cursor)"
  by pat_completeness auto
termination
  by (relation "measure (\<lambda>(rs, c, t). length rs - c)") auto

declare seek.simps [simp del]

fun anchor_loop ::
  "market_record list \<Rightarrow> nat \<Rightarrow> nat \<Rightarrow> order_intent list \<Rightarrow> nat list list \<Rightarrow> fill_outcome option list
   \<Rightarrow> nat list list \<times> fill_outcome option list" where
  "anchor_loop rs cursor index [] anchored outcomes = (anchored, outcomes)"
| "anchor_loop rs cursor index (i # is) anchored outcomes =
     (let c = seek rs cursor (instant (oi_decided_at i)) in
      if c < length rs
      then anchor_loop rs c (Suc index) is (anchored[c := anchored ! c @ [index]]) outcomes
      else anchor_loop rs c (Suc index) is anchored (outcomes[index := Some (unfilled_outcome index NO_RECORD_AFTER_DECISION)]))"

record sim_state =
  ss_cash :: decimal
  ss_position :: decimal
  ss_sequence :: nat
  ss_trades :: "trade_record list"
  ss_ledger :: fifo_ledger
  ss_outcomes :: "fill_outcome option list"

text \<open>One anchored intent at its record.\<close>

definition apply_intent ::
  "order_intent list \<Rightarrow> cost_model \<Rightarrow> market_record \<Rightarrow> nat \<Rightarrow> sim_state \<Rightarrow> nat \<Rightarrow> (backtest_error, sim_state) result" where
  "apply_intent intents cm r record_index st intent_index =
     (let intent = intents ! intent_index in
      rbind (evaluate_fill intent r record_index (ss_cash st) (ss_position st) cm (ss_sequence st) intent_index) (\<lambda>ev.
      let st1 = st\<lparr>ss_outcomes := (ss_outcomes st)[intent_index := Some (fe_outcome ev)]\<rparr> in
      rbind (case fe_fill ev of
          None \<Rightarrow> Inr st1
        | Some f \<Rightarrow>
            (let st2 = st1\<lparr>ss_sequence := Suc (ss_sequence st1)\<rparr> in
             case oi_side intent of
               IBUY \<Rightarrow> rbind (open_lot (ss_ledger st2) f) (\<lambda>led. Inr (st2\<lparr>ss_ledger := led\<rparr>))
             | ISELL \<Rightarrow> rbind (close_lots (ss_ledger st2) f) (\<lambda>(led, ts).
                 Inr (st2\<lparr>ss_ledger := led, ss_trades := ss_trades st2 @ ts\<rparr>)))) (\<lambda>st3.
      Inr (st3\<lparr>ss_cash := fe_cash ev, ss_position := fe_position ev\<rparr>))))"

fun apply_intents ::
  "order_intent list \<Rightarrow> cost_model \<Rightarrow> market_record \<Rightarrow> nat \<Rightarrow> sim_state \<Rightarrow> nat list \<Rightarrow> (backtest_error, sim_state) result" where
  "apply_intents intents cm r k st [] = Inr st"
| "apply_intents intents cm r k st (i # is) =
     rbind (apply_intent intents cm r k st i) (\<lambda>st'. apply_intents intents cm r k st' is)"

fun record_loop ::
  "order_intent list \<Rightarrow> cost_model \<Rightarrow> nat list list \<Rightarrow> nat \<Rightarrow> market_record list \<Rightarrow> sim_state \<Rightarrow> equity_point list
   \<Rightarrow> (backtest_error, sim_state \<times> equity_point list) result" where
  "record_loop intents cm anchored k [] st eq = Inr (st, eq)"
| "record_loop intents cm anchored k (r # rs) st eq =
     rbind (apply_intents intents cm r k st (anchored ! k)) (\<lambda>st'.
     rbind (mark_price r) (\<lambda>m.
     record_loop intents cm anchored (Suc k) rs st'
       (eq @ [\<lparr>ep_timestamp = record_timestamp r, ep_equity = ss_cash st' + ss_position st' * m\<rparr>])))"

fun strictly_after :: "order_intent list \<Rightarrow> bool" where
  "strictly_after (a # b # is) \<longleftrightarrow> instant (oi_decided_at a) < instant (oi_decided_at b) \<and> strictly_after (b # is)"
| "strictly_after _ \<longleftrightarrow> True"

definition start_state :: "decimal \<Rightarrow> fill_outcome option list \<Rightarrow> sim_state" where
  "start_state capital outcomes =
     \<lparr>ss_cash = capital, ss_position = 0, ss_sequence = 0, ss_trades = [], ss_ledger = empty_ledger, ss_outcomes = outcomes\<rparr>"

definition run_backtest ::
  "(string \<Rightarrow> string) \<Rightarrow> backtest_input \<Rightarrow> order_intent list \<Rightarrow> cost_model \<Rightarrow> decimal \<Rightarrow> (backtest_error, backtest_run) result" where
  "run_backtest sha inputs intents cm initial_capital =
     rbind (guard (0 < initial_capital) (BacktestEngineError ''initial_capital must be a positive finite Decimal'')) (\<lambda>_.
     rbind (guard (strictly_after intents)
       (BacktestEngineError ''intents must be sorted by strictly ascending decided_at (ties rejected; never reordered)'')) (\<lambda>_.
     let rs = bi_records inputs;
         (anchored, outcomes) = anchor_loop rs 0 0 intents (replicate (length rs) []) (replicate (length intents) None) in
     rbind (record_loop intents cm anchored 0 rs (start_state initial_capital outcomes) []) (\<lambda>(st, equity).
     rbind (guard (list_all (\<lambda>f. f \<noteq> None) (ss_outcomes st))
       (BacktestEngineError ''internal error: every intent must have exactly one outcome'')) (\<lambda>_.
     mk_backtest_run \<lparr>br_input_sha256 = content_sha256 sha rs, br_dataset_id = bi_dataset_id inputs,
       br_source = bi_source inputs, br_initial_capital = initial_capital, br_cost_model = cm, br_intents = intents,
       br_outcomes = map the (ss_outcomes st), br_trades = ss_trades st, br_equity_curve = equity\<rparr>))))"

section \<open>Latency\<close>

record latency_model =
  lm_signal_latency :: int
  lm_decision_latency :: int
  lm_submission_latency :: int
  lm_fill_latency :: int

definition mk_latency_model :: "latency_model \<Rightarrow> (backtest_error, latency_model) result" where
  "mk_latency_model m =
     rbind (guard (0 \<le> lm_signal_latency m) (LatencyError ''signal_latency must be non-negative'')) (\<lambda>_.
     rbind (guard (0 \<le> lm_decision_latency m) (LatencyError ''decision_latency must be non-negative'')) (\<lambda>_.
     rbind (guard (0 \<le> lm_submission_latency m) (LatencyError ''submission_latency must be non-negative'')) (\<lambda>_.
     rbind (guard (0 \<le> lm_fill_latency m) (LatencyError ''fill_latency must be non-negative'')) (\<lambda>_.
     Inr m))))"

definition total_latency :: "latency_model \<Rightarrow> int" where
  "total_latency m = lm_signal_latency m + lm_decision_latency m + lm_submission_latency m + lm_fill_latency m"

text \<open>\<^verbatim>\<open>replace\<close> builds a new intent through its constructor.\<close>

definition apply_latency_to_intent :: "order_intent \<Rightarrow> latency_model \<Rightarrow> (backtest_error, order_intent) result" where
  "apply_latency_to_intent i m = mk_intent (i\<lparr>oi_decided_at := plus_delta (oi_decided_at i) (total_latency m)\<rparr>)"

fun apply_latency :: "order_intent list \<Rightarrow> latency_model \<Rightarrow> (backtest_error, order_intent list) result" where
  "apply_latency [] m = Inr []"
| "apply_latency (i # is) m =
     rbind (apply_latency_to_intent i m) (\<lambda>j. rbind (apply_latency is m) (\<lambda>js. Inr (j # js)))"

section \<open>Anchoring\<close>

text \<open>The position of the first record strictly after a time, and the anchor of an intent.\<close>

definition first_after :: "market_record list \<Rightarrow> int \<Rightarrow> nat" where
  "first_after rs t = length (takeWhile (\<lambda>r. rec_time r \<le> t) rs)"

definition anchor_of :: "market_record list \<Rightarrow> order_intent \<Rightarrow> nat" where
  "anchor_of rs i = first_after rs (instant (oi_decided_at i))"

lemma first_after_le: "first_after rs t \<le> length rs"
  by (simp add: first_after_def length_takeWhile_le)

lemma first_after_before: "k < first_after rs t \<Longrightarrow> rec_time (rs ! k) \<le> t"
  unfolding first_after_def by (metis nth_mem set_takeWhileD takeWhile_nth)

lemma first_after_after: "first_after rs t < length rs \<Longrightarrow> t < rec_time (rs ! first_after rs t)"
  using nth_length_takeWhile [of "\<lambda>r. rec_time r \<le> t" rs] by (simp add: first_after_def)

lemma first_after_mono: "t \<le> u \<Longrightarrow> first_after rs t \<le> first_after rs u"
  unfolding first_after_def by (induction rs) auto

lemma seek_first_after: "c \<le> first_after rs t \<Longrightarrow> seek rs c t = first_after rs t"
proof (induction rs c t rule: seek.induct)
  case (1 rs c t)
  show ?case
  proof (cases "c < first_after rs t")
    case True
    then have "c < length rs" "rec_time (rs ! c) \<le> t"
      using first_after_before [OF True] first_after_le [of rs t] by auto
    then show ?thesis using 1 True by (subst seek.simps) simp
  next
    case False
    with "1.prems" have "c = first_after rs t" by simp
    then show ?thesis using first_after_after [of rs t] by (subst seek.simps) auto
  qed
qed

lemma strictly_after_sorted: "strictly_after is \<longleftrightarrow> sorted_wrt (\<lambda>a b. instant (oi_decided_at a) < instant (oi_decided_at b)) is"
proof -
  have "strictly_after is = successively (\<lambda>a b. instant (oi_decided_at a) < instant (oi_decided_at b)) is"
    by (induction "is" rule: strictly_after.induct) simp_all
  then show ?thesis by (simp add: successively_conv_sorted_wrt transp_def)
qed

lemma anchor_mono:
  assumes "strictly_after is" "i \<le> j" "j < length is"
  shows "anchor_of rs (is ! i) \<le> anchor_of rs (is ! j)"
proof (cases "i = j")
  case False
  then have "instant (oi_decided_at (is ! i)) < instant (oi_decided_at (is ! j))"
    using assms sorted_wrt_nth_less [of _ "is" i j] by (simp add: strictly_after_sorted)
  then show ?thesis by (simp add: anchor_of_def first_after_mono)
qed simp

text \<open>The intents anchored at a record, in order.\<close>

definition anchored_at :: "market_record list \<Rightarrow> order_intent list \<Rightarrow> nat \<Rightarrow> nat \<Rightarrow> nat list" where
  "anchored_at rs is m k = filter (\<lambda>j. anchor_of rs (is ! j) = k) [m..<length is]"

lemma anchored_at_Cons:
  "m < length is \<Longrightarrow> anchored_at rs is m k = (if anchor_of rs (is ! m) = k then [m] else []) @ anchored_at rs is (Suc m) k"
  by (simp add: anchored_at_def upt_conv_Cons)

lemma anchor_loop_spec:
  assumes "strictly_after is" "m \<le> length is" "m < length is \<longrightarrow> c \<le> anchor_of rs (is ! m)"
    and "length anch = length rs" "length outs = length is"
    and "anchor_loop rs c m (drop m is) anch outs = (anch', outs')"
  shows "length anch' = length rs \<and> (\<forall>k<length rs. anch' ! k = anch ! k @ anchored_at rs is m k) \<and> length outs' = length is \<and>
    (\<forall>j<length is. outs' ! j = (if m \<le> j \<and> anchor_of rs (is ! j) = length rs
       then Some (unfilled_outcome j NO_RECORD_AFTER_DECISION) else outs ! j))"
  using assms(2-)
proof (induction "length is - m" arbitrary: m c anch outs)
  case 0
  then show ?case by (simp add: anchored_at_def)
next
  case (Suc n)
  then have m: "m < length is" by simp
  then have d: "drop m is = is ! m # drop (Suc m) is" by (simp add: Cons_nth_drop_Suc)
  let ?a = "anchor_of rs (is ! m)"
  have sk: "seek rs c (instant (oi_decided_at (is ! m))) = ?a"
    using Suc.prems(2) m by (simp add: anchor_of_def seek_first_after)
  have nxt: "Suc m < length is \<longrightarrow> ?a \<le> anchor_of rs (is ! Suc m)" using assms(1) anchor_mono by simp
  have al: "?a \<le> length rs" by (simp add: anchor_of_def first_after_le)
  show ?case
  proof (cases "?a < length rs")
    case True
    then have "anchor_loop rs ?a (Suc m) (drop (Suc m) is) (anch[?a := anch ! ?a @ [m]]) outs = (anch', outs')"
      using Suc.prems(5) sk by (simp add: d Let_def)
    from Suc.hyps(1) [OF _ _ nxt _ _ this] Suc.hyps(2) Suc.prems
    have IH: "length anch' = length rs" "length outs' = length is"
      "\<And>k. k < length rs \<Longrightarrow> anch' ! k = anch[?a := anch ! ?a @ [m]] ! k @ anchored_at rs is (Suc m) k"
      "\<And>j. j < length is \<Longrightarrow> outs' ! j = (if Suc m \<le> j \<and> anchor_of rs (is ! j) = length rs
         then Some (unfilled_outcome j NO_RECORD_AFTER_DECISION) else outs ! j)" by auto
    have "anch' ! k = anch ! k @ anchored_at rs is m k" if "k < length rs" for k
      using IH(3) [OF that] that Suc.prems(3) by (cases "k = ?a") (simp_all add: anchored_at_Cons [OF m])
    moreover have "outs' ! j = (if m \<le> j \<and> anchor_of rs (is ! j) = length rs
         then Some (unfilled_outcome j NO_RECORD_AFTER_DECISION) else outs ! j)" if "j < length is" for j
      using IH(4) [OF that] True by (cases "j = m") simp_all
    ultimately show ?thesis using IH(1,2) by simp
  next
    case False
    then have e: "?a = length rs" using al by simp
    then have "anchor_loop rs ?a (Suc m) (drop (Suc m) is) anch (outs[m := Some (unfilled_outcome m NO_RECORD_AFTER_DECISION)]) = (anch', outs')"
      using Suc.prems(5) sk by (simp add: d Let_def)
    from Suc.hyps(1) [OF _ _ nxt _ _ this] Suc.hyps(2) Suc.prems
    have IH: "length anch' = length rs" "length outs' = length is"
      "\<And>k. k < length rs \<Longrightarrow> anch' ! k = anch ! k @ anchored_at rs is (Suc m) k"
      "\<And>j. j < length is \<Longrightarrow> outs' ! j = (if Suc m \<le> j \<and> anchor_of rs (is ! j) = length rs
         then Some (unfilled_outcome j NO_RECORD_AFTER_DECISION)
         else outs[m := Some (unfilled_outcome m NO_RECORD_AFTER_DECISION)] ! j)" by auto
    have "anch' ! k = anch ! k @ anchored_at rs is m k" if "k < length rs" for k
      using IH(3) [OF that] that e by (simp add: anchored_at_Cons [OF m])
    moreover have "outs' ! j = (if m \<le> j \<and> anchor_of rs (is ! j) = length rs
         then Some (unfilled_outcome j NO_RECORD_AFTER_DECISION) else outs ! j)" if "j < length is" for j
      using IH(4) [OF that] e m Suc.prems(4) by (cases "j = m") simp_all
    ultimately show ?thesis using IH(1,2) by simp
  qed
qed

lemma anchoring:
  assumes "strictly_after is"
    "anchor_loop rs 0 0 is (replicate (length rs) []) (replicate (length is) None) = (anch, outs)"
  shows "anch = map (anchored_at rs is 0) [0..<length rs]"
    and "outs = map (\<lambda>j. if anchor_of rs (is ! j) = length rs then Some (unfilled_outcome j NO_RECORD_AFTER_DECISION) else None) [0..<length is]"
  using anchor_loop_spec [of "is" 0 0 rs "replicate (length rs) []" "replicate (length is) None" anch outs] assms
  by (auto intro!: nth_equalityI)

section \<open>One pass over the intents\<close>

text \<open>The intents in their own order, each at its anchor.\<close>

definition pass_step ::
  "market_record list \<Rightarrow> order_intent list \<Rightarrow> cost_model \<Rightarrow> sim_state \<Rightarrow> nat \<Rightarrow> (backtest_error, sim_state) result" where
  "pass_step rs is cm st j = (let k = anchor_of rs (is ! j) in apply_intent is cm (rs ! k) k st j)"

fun intent_pass ::
  "market_record list \<Rightarrow> order_intent list \<Rightarrow> cost_model \<Rightarrow> sim_state \<Rightarrow> nat list \<Rightarrow> (backtest_error, sim_state) result" where
  "intent_pass rs is cm st [] = Inr st"
| "intent_pass rs is cm st (j # js) = rbind (pass_step rs is cm st j) (\<lambda>st'. intent_pass rs is cm st' js)"

lemma intent_pass_append:
  "intent_pass rs is cm st (js @ ls) = rbind (intent_pass rs is cm st js) (\<lambda>st'. intent_pass rs is cm st' ls)"
proof (induction js arbitrary: st)
  case (Cons j js)
  then show ?case by (cases "pass_step rs is cm st j") simp_all
qed simp

lemma apply_intents_pass:
  "(\<And>j. j \<in> set js \<Longrightarrow> anchor_of rs (is ! j) = k) \<Longrightarrow> apply_intents is cm (rs ! k) k st js = intent_pass rs is cm st js"
  by (induction js arbitrary: st) (simp_all add: pass_step_def)

lemma record_loop_pass:
  assumes "record_loop is cm anch k (drop k rs) st eq = Inr (st', eq')" "k \<le> length rs"
    and "anch = map (anchored_at rs is 0) [0..<length rs]"
  shows "intent_pass rs is cm st (concat (drop k anch)) = Inr st'"
  using assms(1,2)
proof (induction "length rs - k" arbitrary: k st eq)
  case 0
  then show ?case by (simp add: assms(3))
next
  case (Suc n)
  then have k: "k < length rs" by simp
  then have d: "drop k rs = rs ! k # drop (Suc k) rs" and a: "drop k anch = anchored_at rs is 0 k # drop (Suc k) anch"
    by (simp_all add: Cons_nth_drop_Suc assms(3) drop_map upt_conv_Cons)
  have ak: "anch ! k = anchored_at rs is 0 k" using k by (simp add: assms(3))
  from Suc.prems(1) obtain st1 eq1 where
    s1: "apply_intents is cm (rs ! k) k st (anchored_at rs is 0 k) = Inr st1"
    and l: "record_loop is cm anch (Suc k) (drop (Suc k) rs) st1 eq1 = Inr (st', eq')"
    by (auto simp: d ak result_simps)
  have "intent_pass rs is cm st (anchored_at rs is 0 k) = Inr st1"
    using s1 apply_intents_pass [of "anchored_at rs is 0 k" rs "is" k cm st] by (simp add: anchored_at_def)
  moreover have "intent_pass rs is cm st1 (concat (drop (Suc k) anch)) = Inr st'"
    using Suc.hyps(1) [OF _ l] Suc.hyps(2) k by simp
  ultimately show ?case by (simp add: a intent_pass_append)
qed

lemma concat_classes:
  fixes f :: "nat \<Rightarrow> nat"
  assumes "\<And>i j. i \<le> j \<Longrightarrow> j < n \<Longrightarrow> f i \<le> f j"
  shows "concat (map (\<lambda>k. filter (\<lambda>j. f j = k) [0..<n]) [0..<N]) = filter (\<lambda>j. f j < N) [0..<n]"
proof (induction N)
  case (Suc N)
  have "filter (\<lambda>j. f j < N) [0..<m] @ filter (\<lambda>j. f j = N) [0..<m] = filter (\<lambda>j. f j < Suc N) [0..<m]" if "m \<le> n" for m
    using that
  proof (induction m)
    case (Suc m)
    have "f j \<le> f m" if "j < m" for j using assms [of j m] that Suc.prems by simp
    then have "f m < N \<Longrightarrow> filter (\<lambda>j. f j = N) [0..<m] = []" by (fastforce simp: filter_empty_conv)
    then show ?case using Suc by (auto simp: less_Suc_eq)
  qed simp
  then show ?case using Suc by simp
qed simp

definition live_intents :: "market_record list \<Rightarrow> order_intent list \<Rightarrow> nat list" where
  "live_intents rs is = filter (\<lambda>j. anchor_of rs (is ! j) < length rs) [0..<length is]"

lemma anchored_in_order:
  "strictly_after is \<Longrightarrow> concat (map (anchored_at rs is 0) [0..<length rs]) = live_intents rs is"
  unfolding anchored_at_def live_intents_def by (rule concat_classes) (rule anchor_mono)

section \<open>What one intent does\<close>

definition filled_outcome :: "fill_record \<Rightarrow> fill_outcome" where
  "filled_outcome f = \<lparr>fo_intent_index = fr_intent_index f, fo_filled = True, fo_fill = Some f, fo_reason = None\<rparr>"

lemma mk_unfilled [simp]: "mk_fill_outcome (unfilled_outcome i reason) = Inr (unfilled_outcome i reason)"
  by (cases reason) (simp_all add: mk_fill_outcome_def unfilled_outcome_def)

lemma unfilled_eq: "unfilled i reason cash position =
    Inr \<lparr>fe_outcome = unfilled_outcome i reason, fe_fill = None, fe_cash = cash, fe_position = position\<rparr>"
  by (simp add: unfilled_def)

definition signed_position :: "decimal \<Rightarrow> fill_record \<Rightarrow> decimal" where
  "signed_position position f = (case fr_side f of IBUY \<Rightarrow> position + fr_quantity f | ISELL \<Rightarrow> position - fr_quantity f)"

lemma evaluate_fill_cases:
  assumes "evaluate_fill i r k cash position cm seq idx = Inr ev"
  obtains (unfilled) reason where "ev = \<lparr>fe_outcome = unfilled_outcome idx reason, fe_fill = None, fe_cash = cash, fe_position = position\<rparr>"
  | (filled) f where "ev = \<lparr>fe_outcome = filled_outcome f, fe_fill = Some f, fe_cash = cash + fr_cash_flow f, fe_position = signed_position position f\<rparr>"
      "\<not> cash + fr_cash_flow f < 0" "fr_side f = ISELL \<Longrightarrow> \<not> position < fr_quantity f"
      "fr_sequence f = seq" "fr_intent_index f = idx" "fr_side f = oi_side i" "fr_quantity f = oi_quantity i"
      "fr_record_index f = k" "fr_filled_at f = record_timestamp r" "0 \<le> position"
proof -
  from assms obtain offer where p: "0 \<le> position" and a: "fill_anchor i r = Inr offer"
    by (auto simp: evaluate_fill_def result_simps)
  show thesis
  proof (cases offer)
    case (Inl reason)
    then show ?thesis using assms p a by (intro unfilled [of reason]) (simp add: evaluate_fill_def unfilled_eq)
  next
    case (Inr anchor)
    with assms p a obtain price commission where
      ev: "(let gross_value = oi_quantity i * price;
         cash_flow = (case oi_side i of ISELL \<Rightarrow> gross_value - commission | IBUY \<Rightarrow> - (gross_value + commission)) in
     if oi_side i = ISELL \<and> position < oi_quantity i
     then unfilled idx INSUFFICIENT_POSITION cash position
     else if cash + cash_flow < 0 then unfilled idx INSUFFICIENT_CASH cash position
     else
       let fill = \<lparr>fr_sequence = seq, fr_intent_index = idx, fr_side = oi_side i,
             fr_quantity = oi_quantity i, fr_anchor_price = anchor,
             fr_slippage_per_share = dabs (price - anchor), fr_fill_price = price,
             fr_commission_amount = commission, fr_gross_value = gross_value, fr_cash_flow = cash_flow,
             fr_record_index = k, fr_filled_at = record_timestamp r\<rparr> in
       rbind (mk_fill_outcome \<lparr>fo_intent_index = idx, fo_filled = True, fo_fill = Some fill, fo_reason = None\<rparr>) (\<lambda>out.
       Inr \<lparr>fe_outcome = out, fe_fill = Some fill, fe_cash = cash + cash_flow,
         fe_position = (case oi_side i of ISELL \<Rightarrow> position - oi_quantity i | IBUY \<Rightarrow> position + oi_quantity i)\<rparr>)) = Inr ev"
      by (auto simp: evaluate_fill_def rbind_eq_Inr)
    show ?thesis
    proof (cases "fe_fill ev")
      case None
      with ev unfilled show ?thesis by (auto simp: Let_def unfilled_eq mk_fill_outcome_def split: if_splits)
    next
      case (Some f)
      show ?thesis
        using ev Some p
        by (intro filled [of f])
          (auto simp: Let_def unfilled_eq mk_fill_outcome_def filled_outcome_def signed_position_def split: if_splits intent_side.splits)
    qed
  qed
qed

lemma apply_intent_cases:
  assumes "apply_intent is cm r k st j = Inr st'"
  obtains (unfilled) reason where "st' = st\<lparr>ss_outcomes := (ss_outcomes st)[j := Some (unfilled_outcome j reason)]\<rparr>"
  | (filled) f led ts where
      "st' = st\<lparr>ss_outcomes := (ss_outcomes st)[j := Some (filled_outcome f)], ss_sequence := Suc (ss_sequence st), ss_ledger := led,
         ss_trades := ss_trades st @ ts, ss_cash := ss_cash st + fr_cash_flow f, ss_position := signed_position (ss_position st) f\<rparr>"
      "\<not> ss_cash st + fr_cash_flow f < 0" "fr_side f = ISELL \<Longrightarrow> \<not> ss_position st < fr_quantity f"
      "fr_sequence f = ss_sequence st" "fr_intent_index f = j" "fr_side f = oi_side (is ! j)" "fr_quantity f = oi_quantity (is ! j)"
      "fr_record_index f = k" "fr_filled_at f = record_timestamp r" "0 \<le> ss_position st"
      "case fr_side f of IBUY \<Rightarrow> open_lot (ss_ledger st) f = Inr led \<and> ts = [] | ISELL \<Rightarrow> close_lots (ss_ledger st) f = Inr (led, ts)"
proof -
  from assms obtain ev where ev: "evaluate_fill (is ! j) r k (ss_cash st) (ss_position st) cm (ss_sequence st) j = Inr ev"
    by (auto simp: apply_intent_def Let_def rbind_eq_Inr)
  from ev show thesis
  proof (cases rule: evaluate_fill_cases)
    case (unfilled reason)
    show ?thesis using assms ev by (intro that(1) [of reason]) (simp add: apply_intent_def unfilled)
  next
    case (filled f)
    show ?thesis
    proof (cases "fr_side f")
      case IBUY
      with assms ev filled obtain led where "open_lot (ss_ledger st) f = Inr led"
        and st': "st' = st\<lparr>ss_outcomes := (ss_outcomes st)[j := Some (filled_outcome f)], ss_sequence := Suc (ss_sequence st), ss_ledger := led,
          ss_cash := ss_cash st + fr_cash_flow f, ss_position := signed_position (ss_position st) f\<rparr>"
        by (auto simp: apply_intent_def Let_def rbind_eq_Inr)
      then show ?thesis using filled IBUY by (intro that(2) [where f = f and led = led and ts = "[]"]) auto
    next
      case ISELL
      with assms ev filled obtain led ts where "close_lots (ss_ledger st) f = Inr (led, ts)"
        and "st' = st\<lparr>ss_outcomes := (ss_outcomes st)[j := Some (filled_outcome f)], ss_sequence := Suc (ss_sequence st), ss_ledger := led,
          ss_trades := ss_trades st @ ts, ss_cash := ss_cash st + fr_cash_flow f, ss_position := signed_position (ss_position st) f\<rparr>"
        by (auto simp: apply_intent_def Let_def rbind_eq_Inr)
      then show ?thesis using filled ISELL by (intro that(2) [where f = f and led = led and ts = ts]) auto
    qed
  qed
qed

section \<open>Timing of the fills\<close>

text \<open>The outcome of an intent names the intent, and a fill is at the anchor.\<close>

definition timed :: "market_record list \<Rightarrow> order_intent list \<Rightarrow> nat \<Rightarrow> fill_outcome \<Rightarrow> bool" where
  "timed rs is j out \<longleftrightarrow> fo_intent_index out = j \<and>
     (if fo_filled out
      then \<exists>f. out = filled_outcome f \<and> fr_intent_index f = j \<and> fr_side f = oi_side (is ! j) \<and> fr_quantity f = oi_quantity (is ! j)
        \<and> fr_record_index f = anchor_of rs (is ! j) \<and> fr_record_index f < length rs
        \<and> fr_filled_at f = record_timestamp (rs ! fr_record_index f)
      else fo_fill out = None \<and> fo_reason out \<noteq> None)"

lemma timed_unfilled [simp]: "timed rs is j (unfilled_outcome j reason)"
  by (simp add: timed_def unfilled_outcome_def)

lemma pass_step_outcomes:
  assumes "pass_step rs is cm st j = Inr st'" "anchor_of rs (is ! j) < length rs"
  shows "\<exists>out. ss_outcomes st' = (ss_outcomes st)[j := Some out] \<and> timed rs is j out"
  using assms(1) unfolding pass_step_def Let_def
proof (cases rule: apply_intent_cases)
  case (unfilled reason)
  then show ?thesis by (intro exI [of _ "unfilled_outcome j reason"]) simp
next
  case (filled f led ts)
  then have "timed rs is j (filled_outcome f)" using assms(2) by (simp add: timed_def filled_outcome_def)
  then show ?thesis using filled(1) by auto
qed

lemma intent_pass_outcomes:
  assumes "intent_pass rs is cm st js = Inr st'" "\<And>j. j \<in> set js \<Longrightarrow> anchor_of rs (is ! j) < length rs \<and> j < length (ss_outcomes st)"
  shows "length (ss_outcomes st') = length (ss_outcomes st) \<and>
    (\<forall>j<length (ss_outcomes st). if j \<in> set js then \<exists>out. ss_outcomes st' ! j = Some out \<and> timed rs is j out
       else ss_outcomes st' ! j = ss_outcomes st ! j)"
  using assms
proof (induction js arbitrary: st)
  case (Cons j js)
  then obtain st1 where s: "pass_step rs is cm st j = Inr st1" and p: "intent_pass rs is cm st1 js = Inr st'"
    by (auto simp: rbind_eq_Inr)
  from pass_step_outcomes [OF s] Cons.prems(2) [of j] obtain out where
    o: "ss_outcomes st1 = (ss_outcomes st)[j := Some out]" "timed rs is j out" by auto
  have IH: "length (ss_outcomes st') = length (ss_outcomes st1)"
    "\<And>i. i < length (ss_outcomes st1) \<Longrightarrow> if i \<in> set js then \<exists>out. ss_outcomes st' ! i = Some out \<and> timed rs is i out
       else ss_outcomes st' ! i = ss_outcomes st1 ! i"
    using Cons.IH [OF p] Cons.prems(2) o by auto
  show ?case using IH(1) IH(2) o Cons.prems(2) [of j] by (fastforce simp: nth_list_update split: if_splits)
qed simp

text \<open>The parts of a successful run.\<close>

lemma run_backtest_parts:
  assumes "run_backtest sha inputs is cm capital = Inr R"
  defines "rs \<equiv> bi_records inputs"
  defines "outs \<equiv> map (\<lambda>j. if anchor_of rs (is ! j) = length rs then Some (unfilled_outcome j NO_RECORD_AFTER_DECISION) else None) [0..<length is]"
  obtains st equity where
    "0 < capital" "strictly_after is"
    "record_loop is cm (map (anchored_at rs is 0) [0..<length rs]) 0 rs (start_state capital outs) [] = Inr (st, equity)"
    "intent_pass rs is cm (start_state capital outs) (live_intents rs is) = Inr st"
    "R = \<lparr>br_input_sha256 = content_sha256 sha rs, br_dataset_id = bi_dataset_id inputs,
       br_source = bi_source inputs, br_initial_capital = capital, br_cost_model = cm, br_intents = is,
       br_outcomes = map the (ss_outcomes st), br_trades = ss_trades st, br_equity_curve = equity\<rparr>"
    "list_all (\<lambda>f. f \<noteq> None) (ss_outcomes st)"
proof -
  obtain anch outs' where al: "anchor_loop rs 0 0 is (replicate (length rs) []) (replicate (length is) None) = (anch, outs')"
    by (rule prod.exhaust)
  from assms(1) al obtain st equity where 1: "0 < capital" "strictly_after is"
    "record_loop is cm anch 0 rs (start_state capital outs') [] = Inr (st, equity)"
    "list_all (\<lambda>f. f \<noteq> None) (ss_outcomes st)"
    "mk_backtest_run \<lparr>br_input_sha256 = content_sha256 sha rs, br_dataset_id = bi_dataset_id inputs,
       br_source = bi_source inputs, br_initial_capital = capital, br_cost_model = cm, br_intents = is,
       br_outcomes = map the (ss_outcomes st), br_trades = ss_trades st, br_equity_curve = equity\<rparr> = Inr R"
    by (auto simp: run_backtest_def rs_def [symmetric] result_simps Let_def)
  note an = anchoring [OF 1(2) al]
  have "intent_pass rs is cm (start_state capital outs) (live_intents rs is) = Inr st"
    using record_loop_pass [of "is" cm anch 0 rs "start_state capital outs" "[]" st equity] 1(3)
      anchored_in_order [OF 1(2), of rs] an by (simp add: outs_def)
  then show thesis using that 1 an by (auto simp: mk_backtest_run_def result_simps outs_def)
qed

lemma fill_timing_parts:
  assumes "run_backtest sha inputs is cm capital = Inr R" "j < length is"
  defines "rs \<equiv> bi_records inputs" and "out \<equiv> br_outcomes R ! j"
  shows "length (br_outcomes R) = length is" and "fo_intent_index out = j"
    and "\<not> fo_filled out \<Longrightarrow> fo_fill out = None \<and> fo_reason out \<noteq> None"
    and "fo_filled out \<Longrightarrow> \<exists>f. fo_fill out = Some f \<and> fr_side f = oi_side (is ! j) \<and> fr_quantity f = oi_quantity (is ! j)
      \<and> fr_record_index f < length rs \<and> fr_filled_at f = record_timestamp (rs ! fr_record_index f)
      \<and> instant (oi_decided_at (is ! j)) < instant (fr_filled_at f)
      \<and> list_all (\<lambda>r. rec_time r \<le> instant (oi_decided_at (is ! j))) (take (fr_record_index f) rs)"
proof -
  from assms(1) obtain st equity where
    pass: "intent_pass rs is cm (start_state capital (map (\<lambda>j. if anchor_of rs (is ! j) = length rs then Some (unfilled_outcome j NO_RECORD_AFTER_DECISION) else None) [0..<length is]))
      (live_intents rs is) = Inr st"
    and R: "br_outcomes R = map the (ss_outcomes st)"
    unfolding rs_def by (rule run_backtest_parts) simp
  have al: "anchor_of rs i \<le> length rs" for i by (simp add: anchor_of_def first_after_le)
  have live: "j \<in> set (live_intents rs is) \<longleftrightarrow> j < length is \<and> anchor_of rs (is ! j) < length rs" for j
    by (auto simp: live_intents_def)
  have outs: "length (ss_outcomes st) = length is"
    "if j \<in> set (live_intents rs is) then \<exists>out. ss_outcomes st ! j = Some out \<and> timed rs is j out
     else ss_outcomes st ! j = (if anchor_of rs (is ! j) = length rs then Some (unfilled_outcome j NO_RECORD_AFTER_DECISION) else None)"
    using intent_pass_outcomes [OF pass] assms(2) by (auto simp: live start_state_def)
  have len: "length (ss_outcomes st) = length is" by (rule outs(1))
  then show l: "length (br_outcomes R) = length is" by (simp add: R)
  have t: "timed rs is j out"
  proof (cases "anchor_of rs (is ! j) < length rs")
    case True
    then show ?thesis using outs(2) assms(2) len by (auto simp: live out_def R)
  next
    case False
    then have "anchor_of rs (is ! j) = length rs" using al [of "is ! j"] by simp
    then have "out = unfilled_outcome j NO_RECORD_AFTER_DECISION"
      using outs(2) assms(2) len by (simp add: live out_def R)
    then show ?thesis by simp
  qed
  then show "fo_intent_index out = j" "\<not> fo_filled out \<Longrightarrow> fo_fill out = None \<and> fo_reason out \<noteq> None"
    by (auto simp: timed_def)
  assume "fo_filled out"
  with t obtain f where f: "out = filled_outcome f" "fr_side f = oi_side (is ! j)" "fr_quantity f = oi_quantity (is ! j)"
      "fr_record_index f = anchor_of rs (is ! j)" "fr_record_index f < length rs"
      "fr_filled_at f = record_timestamp (rs ! fr_record_index f)"
    by (auto simp: timed_def)
  moreover have "instant (oi_decided_at (is ! j)) < rec_time (rs ! fr_record_index f)"
    using f(4,5) first_after_after [of rs "instant (oi_decided_at (is ! j))"] by (simp add: anchor_of_def)
  moreover have "list_all (\<lambda>r. rec_time r \<le> instant (oi_decided_at (is ! j))) (take (fr_record_index f) rs)"
    unfolding f(4) using first_after_before [of _ rs "instant (oi_decided_at (is ! j))"] al [of "is ! j"]
    by (auto simp: list_all_length anchor_of_def)
  ultimately show "\<exists>f. fo_fill out = Some f \<and> fr_side f = oi_side (is ! j) \<and> fr_quantity f = oi_quantity (is ! j)
      \<and> fr_record_index f < length rs \<and> fr_filled_at f = record_timestamp (rs ! fr_record_index f)
      \<and> instant (oi_decided_at (is ! j)) < instant (fr_filled_at f)
      \<and> list_all (\<lambda>r. rec_time r \<le> instant (oi_decided_at (is ! j))) (take (fr_record_index f) rs)"
    by (intro exI [of _ f]) (simp add: filled_outcome_def)
qed

text \<open>Every intent has exactly one outcome, at its own position.  A filled intent was filled at the first record whose
  time is strictly after the decision, with the side and the quantity of the intent: earlier records
  are not later than the decision, and an intent decided after the last record is never filled.\<close>

theorem fill_timing:
  assumes "run_backtest sha inputs is cm capital = Inr R"
  defines "rs \<equiv> bi_records inputs"
  shows "length (br_outcomes R) = length is \<and> (\<forall>j < length is. let out = br_outcomes R ! j; i = is ! j in
    fo_intent_index out = j \<and>
    (if fo_filled out
     then \<exists>f. fo_fill out = Some f \<and> fr_side f = oi_side i \<and> fr_quantity f = oi_quantity i
       \<and> fr_record_index f < length rs \<and> fr_filled_at f = record_timestamp (rs ! fr_record_index f)
       \<and> instant (oi_decided_at i) < instant (fr_filled_at f)
       \<and> list_all (\<lambda>r. rec_time r \<le> instant (oi_decided_at i)) (take (fr_record_index f) rs)
     else fo_fill out = None \<and> fo_reason out \<noteq> None))"
proof -
  obtain r where r: "mk_backtest_run r = Inr R" "br_intents r = is"
    using assms(1) by (auto simp: run_backtest_def rbind_eq_Inr Let_def split: prod.splits)
  then have "length (br_outcomes R) = length is" by (auto simp: mk_backtest_run_def rbind_eq_Inr guard_eq_Inr)
  then show ?thesis using fill_timing_parts(2-4) [OF assms(1)] unfolding rs_def Let_def by (simp split: if_split)
qed

section \<open>The cash account\<close>

fun account_ok :: "decimal \<Rightarrow> decimal \<Rightarrow> fill_record list \<Rightarrow> bool" where
  "account_ok cash position [] \<longleftrightarrow> 0 \<le> cash \<and> 0 \<le> position"
| "account_ok cash position (f # fs) \<longleftrightarrow> 0 \<le> cash \<and> 0 \<le> position \<and> account_ok (cash + fr_cash_flow f) (signed_position position f) fs"

definition cash_after :: "decimal \<Rightarrow> fill_record list \<Rightarrow> decimal" where
  "cash_after = foldl (\<lambda>cash f. cash + fr_cash_flow f)"

definition position_after :: "decimal \<Rightarrow> fill_record list \<Rightarrow> decimal" where
  "position_after = foldl signed_position"

lemma account_ok_prefix:
  "account_ok cash position fs \<Longrightarrow> 0 \<le> cash_after cash (take k fs) \<and> 0 \<le> position_after position (take k fs)"
proof (induction fs arbitrary: cash position k)
  case (Cons f fs)
  show ?case
  proof (cases k)
    case (Suc n)
    then show ?thesis using Cons.IH [of "cash + fr_cash_flow f" "signed_position position f" n] Cons.prems
      by (simp add: cash_after_def position_after_def)
  qed (use Cons.prems in \<open>simp add: cash_after_def position_after_def\<close>)
qed (simp add: cash_after_def position_after_def)

definition fill_at :: "fill_outcome option list \<Rightarrow> nat \<Rightarrow> fill_record option" where
  "fill_at outs j = (case outs ! j of None \<Rightarrow> None | Some out \<Rightarrow> if fo_filled out then fo_fill out else None)"

definition order_intent_ok :: "order_intent \<Rightarrow> bool" where
  "order_intent_ok i \<longleftrightarrow> mk_intent i = Inr i"

lemma intent_ok_quantity: "order_intent_ok i \<Longrightarrow> 0 < oi_quantity i"
  by (auto simp: order_intent_ok_def mk_intent_def result_simps)

lemma intent_ok_dval: "order_intent_ok i \<Longrightarrow> 0 \<le> dval (oi_quantity i)"
  using intent_ok_quantity [of i] by (simp add: decimal_order)

lemma intent_ok_limit: "order_intent_ok i \<Longrightarrow> oi_order_type i = ILIMIT \<Longrightarrow> \<exists>p. oi_limit_price i = Some p \<and> 0 < p"
  by (auto simp: order_intent_ok_def mk_intent_def result_simps split: option.splits)

lemma fill_at_unfilled [simp]: "outs ! j = Some (unfilled_outcome i reason) \<Longrightarrow> fill_at outs j = None"
  by (simp add: fill_at_def unfilled_outcome_def)

lemma fill_at_filled [simp]: "outs ! j = Some (filled_outcome f) \<Longrightarrow> fill_at outs j = Some f"
  by (simp add: fill_at_def filled_outcome_def)

lemma signed_position_nonneg:
  assumes "0 \<le> position" "0 \<le> fr_quantity f" "fr_side f = ISELL \<Longrightarrow> \<not> position < fr_quantity f"
  shows "0 \<le> signed_position position f"
  using assms by (cases "fr_side f")
    (simp_all add: signed_position_def decimal_order decimal_plus_nonneg decimal_minus_nonneg)

lemma upt_front: "[m..<Suc (m + n)] = m # [Suc m..<Suc (m + n)]"
  by (simp add: upt_conv_Cons)

lemma map_filter_restrict: "(\<And>x. x \<in> set xs \<Longrightarrow> \<not> P x \<Longrightarrow> f x = None) \<Longrightarrow> List.map_filter f (filter P xs) = List.map_filter f xs"
  by (induction xs) (auto simp: map_filter_simps split: option.splits)

lemma map_filter_same: "(\<And>x. x \<in> set xs \<Longrightarrow> f x = g x) \<Longrightarrow> List.map_filter f xs = List.map_filter g xs"
  by (induction xs) (auto simp: map_filter_simps split: option.splits)

lemma map_filter_map: "List.map_filter f (map g xs) = List.map_filter (\<lambda>x. f (g x)) xs"
  by (induction xs) (auto simp: map_filter_simps split: option.splits)

lemma map_filter_nth: "List.map_filter f xs = List.map_filter (\<lambda>j. f (xs ! j)) [0..<length xs]"
  using map_filter_map [of f "(!) xs" "[0..<length xs]"] by (simp add: map_nth)

text \<open>What a pass does to the account: the fills of the visited intents, in order, are the fills between the two
  states, numbered from the sequence of the first.\<close>

lemma intent_pass_account:
  assumes "intent_pass rs is cm st js = Inr st'" "distinct js"
    "\<And>j. j \<in> set js \<Longrightarrow> anchor_of rs (is ! j) < length rs \<and> j < length (ss_outcomes st) \<and> order_intent_ok (is ! j)"
    and "0 \<le> ss_cash st" "0 \<le> ss_position st"
  defines "fs \<equiv> List.map_filter (fill_at (ss_outcomes st')) js"
  shows "account_ok (ss_cash st) (ss_position st) fs \<and> ss_cash st' = cash_after (ss_cash st) fs \<and>
    ss_position st' = position_after (ss_position st) fs \<and> map fr_sequence fs = [ss_sequence st..<ss_sequence st + length fs] \<and>
    ss_sequence st' = ss_sequence st + length fs"
  using assms(1-5) unfolding fs_def
proof (induction js arbitrary: st)
  case Nil
  then show ?case by (simp add: cash_after_def position_after_def map_filter_simps)
next
  case (Cons j js)
  then obtain st1 where s: "pass_step rs is cm st j = Inr st1" and p: "intent_pass rs is cm st1 js = Inr st'"
    by (auto simp: rbind_eq_Inr)
  let ?fs = "List.map_filter (fill_at (ss_outcomes st')) js"
  from pass_step_outcomes [OF s] Cons.prems(3) [of j] obtain out where
    o: "ss_outcomes st1 = (ss_outcomes st)[j := Some out]" by auto
  have keep: "ss_outcomes st' ! j = Some out"
    using intent_pass_outcomes [OF p] Cons.prems(2,3) o by auto
  have IH: "0 \<le> ss_cash st1 \<Longrightarrow> 0 \<le> ss_position st1 \<Longrightarrow> account_ok (ss_cash st1) (ss_position st1) ?fs \<and>
    ss_cash st' = cash_after (ss_cash st1) ?fs \<and> ss_position st' = position_after (ss_position st1) ?fs \<and>
    map fr_sequence ?fs = [ss_sequence st1..<ss_sequence st1 + length ?fs] \<and> ss_sequence st' = ss_sequence st1 + length ?fs"
    by (rule Cons.IH [OF p]) (use Cons.prems(2,3) o in auto)
  from s show ?case unfolding pass_step_def Let_def
  proof (cases rule: apply_intent_cases)
    case (unfilled reason)
    then have "out = unfilled_outcome j reason"
      using o Cons.prems(3) [of j] by (auto dest!: arg_cong [where f = "\<lambda>xs. xs ! j"])
    then have "fill_at (ss_outcomes st') j = None" using keep by simp
    then show ?thesis using IH unfilled Cons.prems(4,5) by (simp add: map_filter_simps)
  next
    case (filled f led ts)
    then have "out = filled_outcome f"
      using o Cons.prems(3) [of j] by (auto dest!: arg_cong [where f = "\<lambda>xs. xs ! j"])
    then have f: "fill_at (ss_outcomes st') j = Some f" using keep by simp
    have q: "0 \<le> fr_quantity f"
      using intent_ok_quantity [of "is ! j"] Cons.prems(3) [of j] filled(7) by (auto simp: decimal_order)
    have "0 \<le> signed_position (ss_position st) f"
      by (rule signed_position_nonneg [OF Cons.prems(5) q filled(3)])
    moreover have "0 \<le> ss_cash st + fr_cash_flow f" using filled(2) by (simp add: decimal_order)
    ultimately show ?thesis
      using IH f filled(1,4) Cons.prems(4,5)
      by (simp add: map_filter_simps cash_after_def position_after_def upt_front del: upt_Suc)
  qed
qed

lemma run_pass:
  assumes "run_backtest sha inputs is cm capital = Inr R"
  defines "rs \<equiv> bi_records inputs"
  obtains st outs where "0 < capital" "length outs = length is"
    "intent_pass rs is cm (start_state capital outs) (live_intents rs is) = Inr st"
    "br_fills R = List.map_filter (fill_at (ss_outcomes st)) (live_intents rs is)" "br_trades R = ss_trades st"
proof -
  define outs where "outs = map (\<lambda>j. if anchor_of rs (is ! j) = length rs then Some (unfilled_outcome j NO_RECORD_AFTER_DECISION) else None) [0..<length is]"
  from assms(1) obtain st where c: "0 < capital"
    and pass: "intent_pass rs is cm (start_state capital outs) (live_intents rs is) = Inr st"
    and R: "br_outcomes R = map the (ss_outcomes st)" "br_trades R = ss_trades st" and n: "list_all (\<lambda>f. f \<noteq> None) (ss_outcomes st)"
    unfolding rs_def outs_def by (rule run_backtest_parts) simp
  have live: "j \<in> set (live_intents rs is) \<longleftrightarrow> j < length is \<and> anchor_of rs (is ! j) < length rs" for j
    by (auto simp: live_intents_def)
  have al: "anchor_of rs i \<le> length rs" for i by (simp add: anchor_of_def first_after_le)
  have l: "length outs = length is" by (simp add: outs_def)
  have po: "length (ss_outcomes st) = length is"
    "\<And>j. j < length is \<Longrightarrow> j \<notin> set (live_intents rs is) \<Longrightarrow> ss_outcomes st ! j = outs ! j"
    using intent_pass_outcomes [OF pass] by (auto simp: live start_state_def l)
  have none: "fill_at (ss_outcomes st) j = None" if "j < length is" "\<not> anchor_of rs (is ! j) < length rs" for j
    using that po(2) [of j] al [of "is ! j"] by (simp add: live outs_def)
  have "br_fills R = List.map_filter (\<lambda>x. if fo_filled (the x) then fo_fill (the x) else None) (ss_outcomes st)"
    by (simp add: br_fills_def R map_filter_map)
  also have "\<dots> = List.map_filter (fill_at (ss_outcomes st)) [0..<length is]"
    unfolding map_filter_nth [of _ "ss_outcomes st"] po(1) using n
    by (intro map_filter_same) (auto simp: fill_at_def list_all_length po(1))
  also have "\<dots> = List.map_filter (fill_at (ss_outcomes st)) (live_intents rs is)"
    unfolding live_intents_def by (rule map_filter_restrict [symmetric]) (use none in auto)
  finally show thesis using that c l pass R(2) by blast
qed

lemma backtest_fills_numbered:
  assumes "run_backtest sha inputs is cm capital = Inr R" "list_all order_intent_ok is"
  shows "account_ok capital 0 (br_fills R) \<and> map fr_sequence (br_fills R) = [0..<length (br_fills R)]"
proof -
  define rs where "rs = bi_records inputs"
  obtain st outs where c: "0 < capital" and l: "length outs = length is"
    and pass: "intent_pass rs is cm (start_state capital outs) (live_intents rs is) = Inr st"
    and br: "br_fills R = List.map_filter (fill_at (ss_outcomes st)) (live_intents rs is)"
    unfolding rs_def using run_pass [OF assms(1)] by metis
  have "distinct (live_intents rs is)" by (simp add: live_intents_def)
  moreover have "anchor_of rs (is ! j) < length rs \<and> j < length (ss_outcomes (start_state capital outs)) \<and> order_intent_ok (is ! j)"
    if "j \<in> set (live_intents rs is)" for j
    using that assms(2) by (auto simp: live_intents_def l start_state_def list_all_length)
  moreover have "0 \<le> ss_cash (start_state capital outs)" "0 \<le> ss_position (start_state capital outs)"
    using c by (simp_all add: start_state_def decimal_order)
  ultimately show ?thesis
    using intent_pass_account [OF pass] unfolding br by (simp add: start_state_def)
qed

text \<open>C33.  No margin and no short position: after every prefix of the fills, in the order in which they are applied, the
  cash is not negative and the position is not negative.\<close>

theorem cash_and_position_never_negative:
  assumes "run_backtest sha inputs is cm capital = Inr R" "list_all order_intent_ok is"
  shows "0 \<le> cash_after capital (take k (br_fills R)) \<and> 0 \<le> position_after 0 (take k (br_fills R))"
  using backtest_fills_numbered [OF assms] account_ok_prefix by blast

section \<open>The past does not depend on the future\<close>

text \<open>The equity mark of a record is taken in the state after the intents anchored up to it.\<close>

definition mark_point :: "market_record \<Rightarrow> sim_state \<Rightarrow> decimal \<Rightarrow> equity_point" where
  "mark_point r st m = \<lparr>ep_timestamp = record_timestamp r, ep_equity = ss_cash st + ss_position st * m\<rparr>"

definition live_upto :: "market_record list \<Rightarrow> order_intent list \<Rightarrow> nat \<Rightarrow> nat list" where
  "live_upto rs is k = filter (\<lambda>j. anchor_of rs (is ! j) < k) [0..<length is]"

lemma live_upto_anchored:
  "strictly_after is \<Longrightarrow> concat (map (anchored_at rs is 0) [0..<k]) = live_upto rs is k"
  unfolding anchored_at_def live_upto_def by (rule concat_classes) (rule anchor_mono)

lemma record_loop_points:
  assumes "record_loop is cm anch k (drop k rs) st eq = Inr (st', eq')" "k \<le> length rs"
    and anch: "anch = map (anchored_at rs is 0) [0..<length rs]"
    and "strictly_after is" "intent_pass rs is cm st0 (live_upto rs is k) = Inr st" "length eq = k"
  shows "length eq' = length rs \<and> take k eq' = eq \<and> (\<forall>m. k \<le> m \<longrightarrow> m < length rs \<longrightarrow>
    (\<exists>sm p. intent_pass rs is cm st0 (live_upto rs is (Suc m)) = Inr sm \<and> mark_price (rs ! m) = Inr p \<and> eq' ! m = mark_point (rs ! m) sm p))"
  using assms(1,2,5,6)
proof (induction "length rs - k" arbitrary: k st eq)
  case (Suc n)
  then have k: "k < length rs" by simp
  then have d: "drop k rs = rs ! k # drop (Suc k) rs" by (simp add: Cons_nth_drop_Suc)
  have ak: "anch ! k = anchored_at rs is 0 k" using k by (simp add: anch)
  from Suc.prems(1) obtain st1 p where
    s1: "apply_intents is cm (rs ! k) k st (anchored_at rs is 0 k) = Inr st1" and p: "mark_price (rs ! k) = Inr p"
    and l: "record_loop is cm anch (Suc k) (drop (Suc k) rs) st1 (eq @ [mark_point (rs ! k) st1 p]) = Inr (st', eq')"
    by (auto simp: d ak result_simps mark_point_def)
  have pass: "intent_pass rs is cm st (anchored_at rs is 0 k) = Inr st1"
    using s1 apply_intents_pass [of "anchored_at rs is 0 k" rs "is" k cm st] by (simp add: anchored_at_def)
  have split: "live_upto rs is (Suc k) = live_upto rs is k @ anchored_at rs is 0 k"
    using live_upto_anchored [OF assms(4), of rs "Suc k"] live_upto_anchored [OF assms(4), of rs k] by simp
  have st1: "intent_pass rs is cm st0 (live_upto rs is (Suc k)) = Inr st1"
    using Suc.prems(3) pass by (simp add: split intent_pass_append)
  have IH: "length eq' = length rs" "take (Suc k) eq' = eq @ [mark_point (rs ! k) st1 p]"
    "\<And>m. Suc k \<le> m \<Longrightarrow> m < length rs \<Longrightarrow> \<exists>sm p. intent_pass rs is cm st0 (live_upto rs is (Suc m)) = Inr sm \<and>
       mark_price (rs ! m) = Inr p \<and> eq' ! m = mark_point (rs ! m) sm p"
    using Suc.hyps(1) [OF _ l _ st1] Suc.hyps(2) Suc.prems(4) k by auto
  have "take k eq' = eq" "eq' ! k = mark_point (rs ! k) st1 p"
    using IH(1,2) k Suc.prems(4) by (simp_all add: take_Suc_conv_app_nth)
  then show ?case using IH st1 p by (metis le_eq_less_or_eq Suc_leI)
qed simp

lemma equity_points:
  assumes "run_backtest sha inputs is cm capital = Inr R"
  defines "rs \<equiv> bi_records inputs"
  defines "outs \<equiv> map (\<lambda>j. if anchor_of rs (is ! j) = length rs then Some (unfilled_outcome j NO_RECORD_AFTER_DECISION) else None) [0..<length is]"
  shows "length (br_equity_curve R) = length rs"
    and "m < length rs \<Longrightarrow> \<exists>sm p. intent_pass rs is cm (start_state capital outs) (live_upto rs is (Suc m)) = Inr sm \<and>
       mark_price (rs ! m) = Inr p \<and> br_equity_curve R ! m = mark_point (rs ! m) sm p"
proof -
  from assms(1) obtain st equity where "strictly_after is" "br_equity_curve R = equity"
    "record_loop is cm (map (anchored_at rs is 0) [0..<length rs]) 0 rs (start_state capital outs) [] = Inr (st, equity)"
    unfolding rs_def outs_def by (rule run_backtest_parts) simp
  moreover have "live_upto rs is 0 = []" by (simp add: live_upto_def)
  ultimately show "length (br_equity_curve R) = length rs"
    and "m < length rs \<Longrightarrow> \<exists>sm p. intent_pass rs is cm (start_state capital outs) (live_upto rs is (Suc m)) = Inr sm \<and>
       mark_price (rs ! m) = Inr p \<and> br_equity_curve R ! m = mark_point (rs ! m) sm p"
    using record_loop_points [of "is" cm _ 0 rs "start_state capital outs" "[]" st equity "start_state capital outs"] by auto
qed

text \<open>Two states that differ at most in the outcomes outside a set of intents.\<close>

definition same_past :: "nat set \<Rightarrow> sim_state \<Rightarrow> sim_state \<Rightarrow> bool" where
  "same_past D a b \<longleftrightarrow> b = a\<lparr>ss_outcomes := ss_outcomes b\<rparr> \<and> length (ss_outcomes a) = length (ss_outcomes b) \<and>
     (\<forall>j\<in>D. ss_outcomes a ! j = ss_outcomes b ! j)"

lemma same_past_account:
  assumes "same_past D a b"
  shows "ss_cash b = ss_cash a" "ss_position b = ss_position a"
proof -
  from assms obtain outs where "b = a\<lparr>ss_outcomes := outs\<rparr>" unfolding same_past_def by blast
  then show "ss_cash b = ss_cash a" "ss_position b = ss_position a" by simp_all
qed

lemma apply_intent_outcomes_blind:
  "apply_intent is cm r k (st\<lparr>ss_outcomes := outs\<rparr>) j = rbind (apply_intent is cm r k (st\<lparr>ss_outcomes := []\<rparr>) j)
     (\<lambda>st'. rbind (evaluate_fill (is ! j) r k (ss_cash st) (ss_position st) cm (ss_sequence st) j) (\<lambda>ev.
        Inr (st'\<lparr>ss_outcomes := outs[j := Some (fe_outcome ev)]\<rparr>)))"
  by (auto simp: apply_intent_def Let_def rbind_def open_lot_def guard_def
      split: sum.splits option.splits intent_side.splits prod.splits)

lemma apply_intent_same_past:
  assumes "same_past D a b" "apply_intent is cm r k a j = Inr a'" "apply_intent is cm r k b j = Inr b'" "j < length (ss_outcomes a)"
  shows "same_past (insert j D) a' b'"
proof -
  have b: "b = a\<lparr>ss_outcomes := ss_outcomes b\<rparr>" and l: "length (ss_outcomes a) = length (ss_outcomes b)"
    and D: "\<And>i. i \<in> D \<Longrightarrow> ss_outcomes a ! i = ss_outcomes b ! i" using assms(1) unfolding same_past_def by auto
  have a: "a = a\<lparr>ss_outcomes := ss_outcomes a\<rparr>" by simp
  note eqa = apply_intent_outcomes_blind [of "is" cm r k "ss_outcomes a" a j, folded a]
  note eqb = apply_intent_outcomes_blind [of "is" cm r k "ss_outcomes b" a j, folded b]
  from assms(2) obtain st' ev where s: "apply_intent is cm r k (a\<lparr>ss_outcomes := []\<rparr>) j = Inr st'"
      "evaluate_fill (is ! j) r k (ss_cash a) (ss_position a) cm (ss_sequence a) j = Inr ev"
    and a': "a' = st'\<lparr>ss_outcomes := (ss_outcomes a)[j := Some (fe_outcome ev)]\<rparr>"
    unfolding eqa by (auto simp: rbind_eq_Inr)
  from assms(3) s have b': "b' = st'\<lparr>ss_outcomes := (ss_outcomes b)[j := Some (fe_outcome ev)]\<rparr>"
    unfolding eqb by simp
  show ?thesis unfolding same_past_def a' b' using l D assms(4) by (auto simp: nth_list_update)
qed

lemma pass_step_length: "pass_step rs is cm st j = Inr st' \<Longrightarrow> length (ss_outcomes st') = length (ss_outcomes st)"
  unfolding pass_step_def Let_def by (erule apply_intent_cases) simp_all

lemma intent_pass_same_past:
  assumes "same_past D a b" "intent_pass rs is cm a js = Inr a'" "intent_pass rs' is cm b js = Inr b'"
    and "\<And>j. j \<in> set js \<Longrightarrow> j < length (ss_outcomes a) \<and> anchor_of rs' (is ! j) = anchor_of rs (is ! j) \<and>
      rs' ! anchor_of rs (is ! j) = rs ! anchor_of rs (is ! j)"
  shows "same_past (D \<union> set js) a' b'"
  using assms
proof (induction js arbitrary: a b D)
  case (Cons j js)
  then obtain a1 b1 where s: "pass_step rs is cm a j = Inr a1" "pass_step rs' is cm b j = Inr b1"
    and p: "intent_pass rs is cm a1 js = Inr a'" "intent_pass rs' is cm b1 js = Inr b'"
    by (auto simp: rbind_eq_Inr)
  have "same_past (insert j D) a1 b1"
    using apply_intent_same_past [OF Cons.prems(1)] s Cons.prems(4) [of j] by (simp add: pass_step_def Let_def)
  from Cons.IH [OF this p] Cons.prems(4) pass_step_length [OF s(1)] show ?case by simp
qed simp

lemma first_after_take: "k \<le> length rs \<Longrightarrow> first_after (take k rs) t = min k (first_after rs t)"
  unfolding first_after_def by (induction rs arbitrary: k) (auto simp: take_Cons' split: nat.splits)

lemma anchor_of_agree:
  assumes "take k rs = take k rs'" "k \<le> length rs" "k \<le> length rs'"
  shows "min k (anchor_of rs i) = min k (anchor_of rs' i)"
  using first_after_take [OF assms(2)] first_after_take [OF assms(3)] assms(1) by (simp add: anchor_of_def)

lemma anchor_less_agree:
  assumes "take k rs = take k rs'" "k \<le> length rs" "k \<le> length rs'" "m \<le> k"
  shows "anchor_of rs' i < m \<longleftrightarrow> anchor_of rs i < m"
proof -
  have "x < m \<longleftrightarrow> min k x < m" for x using assms(4) by auto
  then show ?thesis using anchor_of_agree [OF assms(1-3), of i] by metis
qed

lemma live_upto_agree:
  assumes "take k rs = take k rs'" "k \<le> length rs" "k \<le> length rs'" "m \<le> k"
  shows "live_upto rs' is m = live_upto rs is m"
  unfolding live_upto_def by (intro filter_cong refl) (rule anchor_less_agree [OF assms])

lemma past_states_agree:
  assumes agree: "take k rs = take k rs'" "k \<le> length rs" "k \<le> length rs'" "m \<le> k"
    and "same_past {} a b" "length (ss_outcomes a) = length is"
    and "intent_pass rs is cm a (live_upto rs is m) = Inr a'" "intent_pass rs' is cm b (live_upto rs' is m) = Inr b'"
  shows "same_past (set (live_upto rs is m)) a' b'"
proof -
  have "same_past ({} \<union> set (live_upto rs is m)) a' b'"
    using assms(8) unfolding live_upto_agree [OF agree]
  proof (rule intent_pass_same_past [OF assms(5,7)])
    fix j
    assume "j \<in> set (live_upto rs is m)"
    then have j: "j < length is" "anchor_of rs (is ! j) < m" by (auto simp: live_upto_def)
    then have "anchor_of rs' (is ! j) < m" using anchor_less_agree [OF agree] by simp
    then have eq: "anchor_of rs' (is ! j) = anchor_of rs (is ! j)"
      using anchor_of_agree [OF agree(1-3), of "is ! j"] j agree(4) by (simp add: min_def split: if_splits)
    have "rs' ! i = rs ! i" if "i < k" for i using agree(1) that by (metis nth_take)
    then show "j < length (ss_outcomes a) \<and> anchor_of rs' (is ! j) = anchor_of rs (is ! j) \<and>
        rs' ! anchor_of rs (is ! j) = rs ! anchor_of rs (is ! j)" using j eq agree(4) assms(6) by simp
  qed
  then show ?thesis by simp
qed

lemma live_split:
  assumes "strictly_after is" "k \<le> length rs"
  obtains js where "live_intents rs is = live_upto rs is k @ js" "\<And>j. j \<in> set js \<Longrightarrow> k \<le> anchor_of rs (is ! j) \<and> anchor_of rs (is ! j) < length rs \<and> j < length is"
proof -
  have "[0..<length rs] = [0..<k] @ [k..<length rs]" using assms(2) upt_add_eq_append [of 0 k "length rs - k"] by simp
  then have "live_intents rs is = live_upto rs is k @ concat (map (anchored_at rs is 0) [k..<length rs])"
    unfolding anchored_in_order [OF assms(1), symmetric] live_upto_anchored [OF assms(1), symmetric] by simp
  then show thesis by (rule that) (auto simp: anchored_at_def)
qed

text \<open>The outcome of an intent is settled at its anchor.\<close>

lemma outcome_settled:
  assumes "run_backtest sha inputs is cm capital = Inr R"
  defines "rs \<equiv> bi_records inputs"
  defines "outs \<equiv> map (\<lambda>j. if anchor_of rs (is ! j) = length rs then Some (unfilled_outcome j NO_RECORD_AFTER_DECISION) else None) [0..<length is]"
  assumes "k \<le> length rs"
  obtains sk where "intent_pass rs is cm (start_state capital outs) (live_upto rs is k) = Inr sk"
    "\<And>j. j \<in> set (live_upto rs is k) \<Longrightarrow> br_outcomes R ! j = the (ss_outcomes sk ! j)"
proof -
  from assms(1) obtain st where sa: "strictly_after is" and R: "br_outcomes R = map the (ss_outcomes st)"
    and pass: "intent_pass rs is cm (start_state capital outs) (live_intents rs is) = Inr st"
    unfolding rs_def outs_def by (rule run_backtest_parts) simp
  obtain js where js: "live_intents rs is = live_upto rs is k @ js"
    "\<And>j. j \<in> set js \<Longrightarrow> k \<le> anchor_of rs (is ! j) \<and> anchor_of rs (is ! j) < length rs \<and> j < length is"
    using live_split [OF sa assms(4)] by blast
  from pass obtain sk where sk: "intent_pass rs is cm (start_state capital outs) (live_upto rs is k) = Inr sk"
    and rest: "intent_pass rs is cm sk js = Inr st" by (auto simp: js(1) intent_pass_append rbind_eq_Inr)
  have l: "length (ss_outcomes sk) = length is"
    using intent_pass_outcomes [OF sk] assms(4) by (auto simp: live_upto_def start_state_def outs_def)
  show thesis
  proof (rule that [OF sk])
    fix j
    assume "j \<in> set (live_upto rs is k)"
    then have j: "j < length is" "anchor_of rs (is ! j) < k" by (auto simp: live_upto_def)
    then have "j \<notin> set js" using js(2) [of j] by auto
    then show "br_outcomes R ! j = the (ss_outcomes sk ! j)"
      using intent_pass_outcomes [OF rest] js(2) j l by (auto simp: R)
  qed
qed

lemma past_agrees:
  assumes run: "run_backtest sha b is cm capital = Inr R" "run_backtest sha b' is cm capital = Inr R'"
    and agree: "take k (bi_records b) = take k (bi_records b')" "k \<le> length (bi_records b)" "k \<le> length (bi_records b')"
  shows "take k (br_equity_curve R) = take k (br_equity_curve R')"
    and "j < length is \<Longrightarrow> anchor_of (bi_records b) (is ! j) < k \<Longrightarrow> br_outcomes R ! j = br_outcomes R' ! j"
proof -
  define outs where "outs rs = map (\<lambda>j. if anchor_of rs (is ! j) = length rs then Some (unfilled_outcome j NO_RECORD_AFTER_DECISION) else None) [0..<length is]"
    for rs
  let ?rs = "bi_records b" and ?rs' = "bi_records b'"
  let ?a = "start_state capital (outs ?rs)" and ?b = "start_state capital (outs ?rs')"
  have start: "same_past {} ?a ?b" "length (ss_outcomes ?a) = length is"
    by (simp_all add: same_past_def start_state_def outs_def)
  have states: "same_past (set (live_upto ?rs is m)) a' b'"
    if "m \<le> k" "intent_pass ?rs is cm ?a (live_upto ?rs is m) = Inr a'" "intent_pass ?rs' is cm ?b (live_upto ?rs' is m) = Inr b'" for m a' b'
    using past_states_agree [OF agree that(1) start that(2,3)] .
  have len: "length (br_equity_curve R) = length ?rs" "length (br_equity_curve R') = length ?rs'"
    using equity_points(1) run by blast+
  show "take k (br_equity_curve R) = take k (br_equity_curve R')"
  proof (rule nth_equalityI)
    fix m
    assume "m < length (take k (br_equity_curve R))"
    then have m: "m < k" by simp
    with agree have ml: "m < length ?rs" "m < length ?rs'" by simp_all
    have r: "?rs' ! m = ?rs ! m" using agree(1) m by (metis nth_take)
    obtain sm p where 1: "intent_pass ?rs is cm ?a (live_upto ?rs is (Suc m)) = Inr sm" "mark_price (?rs ! m) = Inr p"
        "br_equity_curve R ! m = mark_point (?rs ! m) sm p"
      using equity_points(2) [OF run(1) ml(1)] by (auto simp: outs_def)
    obtain sm' p' where 2: "intent_pass ?rs' is cm ?b (live_upto ?rs' is (Suc m)) = Inr sm'" "mark_price (?rs' ! m) = Inr p'"
        "br_equity_curve R' ! m = mark_point (?rs' ! m) sm' p'"
      using equity_points(2) [OF run(2) ml(2)] by (auto simp: outs_def)
    have "same_past (set (live_upto ?rs is (Suc m))) sm sm'" using states [OF _ 1(1) 2(1)] m by simp
    then have "ss_cash sm' = ss_cash sm" "ss_position sm' = ss_position sm" by (rule same_past_account)+
    then have "mark_point (?rs ! m) sm p = mark_point (?rs' ! m) sm' p'"
      using 1(2) 2(2) by (simp add: mark_point_def r)
    then show "take k (br_equity_curve R) ! m = take k (br_equity_curve R') ! m" using 1 2 m by simp
  qed (use len agree in simp)
  assume j: "j < length is" "anchor_of ?rs (is ! j) < k"
  then have live: "j \<in> set (live_upto ?rs is k)" "j \<in> set (live_upto ?rs' is k)"
    using live_upto_agree [OF agree, of k "is"] by (auto simp: live_upto_def)
  obtain sk where 1: "intent_pass ?rs is cm ?a (live_upto ?rs is k) = Inr sk"
    "\<And>j. j \<in> set (live_upto ?rs is k) \<Longrightarrow> br_outcomes R ! j = the (ss_outcomes sk ! j)"
    unfolding outs_def by (rule outcome_settled [OF run(1) agree(2)]) blast
  obtain sk' where 2: "intent_pass ?rs' is cm ?b (live_upto ?rs' is k) = Inr sk'"
    "\<And>j. j \<in> set (live_upto ?rs' is k) \<Longrightarrow> br_outcomes R' ! j = the (ss_outcomes sk' ! j)"
    unfolding outs_def by (rule outcome_settled [OF run(2) agree(3)]) blast
  have "same_past (set (live_upto ?rs is k)) sk sk'" using states [OF _ 1(1) 2(1)] by simp
  then show "br_outcomes R ! j = br_outcomes R' ! j"
    using 1(2) 2(2) live by (simp add: same_past_def)
qed

text \<open>C32.  No look-ahead: two runs of the same intents over histories that agree on their first \<open>k\<close> records have the same first
  \<open>k\<close> equity marks, and the same outcome for every intent whose anchor is among these records.  What
  happens later in the data cannot change a decision, a fill or a mark of the past.\<close>

theorem no_look_ahead:
  assumes "run_backtest sha b is cm capital = Inr R" "run_backtest sha b' is cm capital = Inr R'"
    and "take k (bi_records b) = take k (bi_records b')" "k \<le> length (bi_records b)" "k \<le> length (bi_records b')"
  shows "take k (br_equity_curve R) = take k (br_equity_curve R') \<and>
    (\<forall>j < length is. anchor_of (bi_records b) (is ! j) < k \<longrightarrow> br_outcomes R ! j = br_outcomes R' ! j)"
  using past_agrees [OF assms] by blast

section \<open>Lots and position\<close>

text \<open>Quantities that are multiples of one power of ten with at most 28 digits; sums and differences of them are exact.\<close>

definition on_grid :: "int \<Rightarrow> decimal \<Rightarrow> bool" where
  "on_grid e d \<longleftrightarrow> (\<exists>n. 0 \<le> n \<and> n < prec_limit \<and> dval d = of_int n * 10 powi e)"

definition grid_limit :: "int \<Rightarrow> rat" where
  "grid_limit e = of_int prec_limit * 10 powi e"

lemma on_grid_zero [simp]: "on_grid e 0"
  unfolding on_grid_def by (intro exI [of _ 0]) simp

lemma on_grid_nonneg: "on_grid e d \<Longrightarrow> 0 \<le> dval d"
  by (auto simp: on_grid_def zero_le_mult_iff less_imp_le)

lemma on_grid_minus:
  assumes "on_grid e a" "on_grid e b" "dval b \<le> dval a"
  shows "dval (a - b) = dval a - dval b" "on_grid e (a - b)"
proof -
  from assms obtain m n where mn: "0 \<le> m" "m < prec_limit" "0 \<le> n" "n < prec_limit"
    "dval a = of_int m * 10 powi e" "dval b = of_int n * 10 powi e" by (auto simp: on_grid_def)
  then have "n \<le> m" using assms(3) by (simp add: mult_le_cancel_right)
  then have v: "dval (a - b) = of_int (m - n) * 10 powi e" using mn by (intro dval_grid_minus) auto
  then show "dval (a - b) = dval a - dval b" using mn by (simp add: algebra_simps)
  show "on_grid e (a - b)" unfolding on_grid_def using v mn \<open>n \<le> m\<close> by (intro exI [of _ "m - n"]) auto
qed

lemma on_grid_plus:
  assumes "on_grid e a" "on_grid e b" "dval a + dval b < grid_limit e"
  shows "dval (a + b) = dval a + dval b" "on_grid e (a + b)"
proof -
  from assms obtain m n where mn: "0 \<le> m" "m < prec_limit" "0 \<le> n" "n < prec_limit"
    "dval a = of_int m * 10 powi e" "dval b = of_int n * 10 powi e" by (auto simp: on_grid_def)
  then have "of_int (m + n) * (10::rat) powi e < of_int prec_limit * 10 powi e"
    using assms(3) by (simp add: grid_limit_def algebra_simps)
  then have "(of_int (m + n) :: rat) < of_int prec_limit" by (simp only: mult_less_cancel_right) simp
  then have l: "m + n < prec_limit" by (simp only: of_int_less_iff)
  then have v: "dval (a + b) = of_int (m + n) * 10 powi e" using mn by (intro dval_grid_plus) auto
  then show "dval (a + b) = dval a + dval b" using mn by (simp add: algebra_simps)
  show "on_grid e (a + b)" unfolding on_grid_def using v mn l by (intro exI [of _ "m + n"]) auto
qed

text \<open>The invariant of an open lot, and the quantity a list of lots holds.\<close>

definition lot_ok :: "int \<Rightarrow> lot \<Rightarrow> bool" where
  "lot_ok e l \<longleftrightarrow> 0 < dval (lo_total_quantity l) \<and> on_grid e (lo_remaining_quantity l)"

definition open_quantity :: "lot list \<Rightarrow> rat" where
  "open_quantity ls = sum_list (map (\<lambda>l. dval (lo_remaining_quantity l)) ls)"

lemma open_quantity_simps [simp]:
  "open_quantity [] = 0" "open_quantity (l # ls) = dval (lo_remaining_quantity l) + open_quantity ls"
  "open_quantity (ls @ ms) = open_quantity ls + open_quantity ms"
  by (simp_all add: open_quantity_def)

lemma open_quantity_nonneg: "list_all (lot_ok e) ls \<Longrightarrow> 0 \<le> open_quantity ls"
  by (induction ls) (auto simp: lot_ok_def dest: on_grid_nonneg)

lemma open_quantity_filter:
  "list_all (lot_ok e) ls \<Longrightarrow> open_quantity (filter (\<lambda>l. 0 < lo_remaining_quantity l) ls) = open_quantity ls"
proof (induction ls)
  case (Cons l ls)
  then have "0 \<le> dval (lo_remaining_quantity l)" by (auto simp: lot_ok_def dest: on_grid_nonneg)
  then have "\<not> 0 < lo_remaining_quantity l \<Longrightarrow> dval (lo_remaining_quantity l) = 0" by (auto simp: decimal_order)
  then show ?case using Cons by simp
qed simp

lemma match_lot_ok:
  assumes "lot_ok e l" "on_grid e rem" "0 < dval rem" "0 < dval (fr_quantity f)" "0 < dval (lo_remaining_quantity l)"
  obtains q l' where "match_lot f rem l = Inr (q, l')" "lot_ok e l'" "dval q = min (dval rem) (dval (lo_remaining_quantity l))"
    "dval (lo_remaining_quantity l') = dval (lo_remaining_quantity l) - dval q"
    "dval (rem - q) = dval rem - dval q" "on_grid e (rem - q)"
proof -
  define q where "q = pmin rem (lo_remaining_quantity l)"
  have q: "dval q = min (dval rem) (dval (lo_remaining_quantity l))" "on_grid e q"
    using assms by (auto simp: q_def pmin_def decimal_order lot_ok_def min_def)
  have t: "0 < dval (lo_total_quantity l)" and g: "on_grid e (lo_remaining_quantity l)" using assms(1) by (auto simp: lot_ok_def)
  obtain es xs where d: "ddiv (lo_entry_cost l * q) (lo_total_quantity l) = Some es" "ddiv (fr_commission_amount f * q) (fr_quantity f) = Some xs"
    using ddiv_defined [OF t] ddiv_defined [OF assms(4)] by blast
  note m = on_grid_minus [OF g q(2)] on_grid_minus [OF assms(2) q(2)]
  show thesis
    by (rule that [of q]) (use d m q t in \<open>auto simp: match_lot_def Let_def q_def [symmetric] lot_ok_def\<close>)
qed

text \<open>With enough open quantity a SELL is matched completely.\<close>

lemma close_loop_ok:
  assumes "list_all (lot_ok e) ls" "on_grid e rem" "0 < dval (fr_quantity f)" "dval rem \<le> open_quantity ls"
  obtains ls' rem' seq' ts where "close_loop f rem seq ls = Inr (ls', rem', seq', ts)" "dval rem' = 0"
    "list_all (lot_ok e) ls'" "open_quantity ls' = open_quantity ls - dval rem"
proof -
  have "\<exists>ls' rem' seq' ts. close_loop f rem seq ls = Inr (ls', rem', seq', ts) \<and> dval rem' = 0 \<and>
    list_all (lot_ok e) ls' \<and> open_quantity ls' = open_quantity ls - dval rem"
    using assms
  proof (induction ls arbitrary: rem seq)
    case Nil
    then have "dval rem = 0" using on_grid_nonneg [OF Nil(2)] by simp
    then show ?case by simp
  next
    case (Cons l ls)
    then have l: "lot_ok e l" "list_all (lot_ok e) ls" and r0: "0 \<le> dval rem"
      using on_grid_nonneg by auto
    show ?case
    proof (cases "dval rem = 0")
      case True
      then show ?thesis using Cons.prems(1) by (simp add: decimal_order)
    next
      case False
      with r0 have rp: "0 < dval rem" "\<not> rem \<le> 0" by (auto simp: decimal_order)
      show ?thesis
      proof (cases "0 < dval (lo_remaining_quantity l)")
        case False
        then have z: "dval (lo_remaining_quantity l) = 0" using l(1) by (auto simp: lot_ok_def dest: on_grid_nonneg)
        from Cons.IH [OF l(2) Cons.prems(2,3), of seq] Cons.prems(4) z obtain ls' rem' seq' ts where
          "close_loop f rem seq ls = Inr (ls', rem', seq', ts)" "dval rem' = 0" "list_all (lot_ok e) ls'"
          "open_quantity ls' = open_quantity ls - dval rem" by auto
        then show ?thesis using rp z l by (simp add: decimal_order)
      next
        case True
        obtain q l' where m: "match_lot f rem l = Inr (q, l')" "lot_ok e l'" "dval q = min (dval rem) (dval (lo_remaining_quantity l))"
          "dval (lo_remaining_quantity l') = dval (lo_remaining_quantity l) - dval q"
          "dval (rem - q) = dval rem - dval q" "on_grid e (rem - q)"
          by (rule match_lot_ok [OF l(1) Cons.prems(2) rp(1) Cons.prems(3) True])
        have le: "dval (rem - q) \<le> open_quantity ls"
          using Cons.prems(4) m(3,5) open_quantity_nonneg [OF l(2)] by (auto simp: min_def split: if_splits)
        obtain t where t: "completed_trade seq l' = Inr t"
          using m(2) ddiv_defined [of "lo_total_quantity l'" "lo_weighted_exit_sum l'"] by (auto simp: completed_trade_def lot_ok_def)
        have nz: "\<not> lo_remaining_quantity l \<le> 0" using True by (simp add: decimal_order)
        show ?thesis
        proof (cases "deq (lo_remaining_quantity l') 0")
          case True
          from Cons.IH [OF l(2) m(6) Cons.prems(3) le, of "Suc seq"] show ?thesis
            using m t rp(2) nz True by auto
        next
          case False
          from Cons.IH [OF l(2) m(6) Cons.prems(3) le, of seq] show ?thesis
            using m rp(2) nz False by auto
        qed
      qed
    qed
  qed
  then show thesis using that by blast
qed

text \<open>The ledger holds exactly the position.\<close>

definition ledger_holds :: "int \<Rightarrow> fifo_ledger \<Rightarrow> decimal \<Rightarrow> bool" where
  "ledger_holds e led position \<longleftrightarrow> list_all (lot_ok e) (fl_lots led) \<and> open_quantity (fl_lots led) = dval position \<and> on_grid e position"

lemma open_lot_holds:
  assumes "ledger_holds e led position" "on_grid e (fr_quantity f)" "0 < dval (fr_quantity f)" "fr_side f = IBUY"
    "dval position + dval (fr_quantity f) < grid_limit e"
  obtains led' where "open_lot led f = Inr led'" "ledger_holds e led' (signed_position position f)"
proof -
  note p = on_grid_plus [of e position "fr_quantity f"]
  show thesis
    by (rule that) (use assms p in \<open>auto simp: open_lot_def ledger_holds_def lot_of_fill_def lot_ok_def signed_position_def\<close>)
qed

lemma close_lots_holds:
  assumes "ledger_holds e led position" "on_grid e (fr_quantity f)" "0 < dval (fr_quantity f)" "fr_side f = ISELL"
    "\<not> position < fr_quantity f"
  obtains led' ts where "close_lots led f = Inr (led', ts)" "ledger_holds e led' (signed_position position f)"
proof -
  have h: "list_all (lot_ok e) (fl_lots led)" "open_quantity (fl_lots led) = dval position" "on_grid e position"
    and le: "dval (fr_quantity f) \<le> dval position" using assms by (auto simp: ledger_holds_def decimal_order)
  then have "dval (fr_quantity f) \<le> open_quantity (fl_lots led)" by simp
  from close_loop_ok [OF h(1) assms(2,3) this, of "fl_trade_sequence led"] obtain ls' rem' seq' ts where
    c: "close_loop f (fr_quantity f) (fl_trade_sequence led) (fl_lots led) = Inr (ls', rem', seq', ts)" "dval rem' = 0"
    "list_all (lot_ok e) ls'" "open_quantity ls' = open_quantity (fl_lots led) - dval (fr_quantity f)" by metis
  note m = on_grid_minus [OF h(3) assms(2) le]
  show thesis
  proof (rule that)
    show "close_lots led f = Inr (\<lparr>fl_lots = filter (\<lambda>l. 0 < lo_remaining_quantity l) ls', fl_trade_sequence = seq'\<rparr>, ts)"
      using c assms(4) by (simp add: close_lots_def decimal_order)
    show "ledger_holds e \<lparr>fl_lots = filter (\<lambda>l. 0 < lo_remaining_quantity l) ls', fl_trade_sequence = seq'\<rparr> (signed_position position f)"
      using c m h assms(4) open_quantity_filter [OF c(3)]
      by (auto simp: ledger_holds_def signed_position_def list_all_iff)
  qed
qed

section \<open>A run over valid data returns\<close>

lemma mk_fill_costs_ok: "mk_fill_costs cm = Inr cm' \<Longrightarrow> 0 \<le> fc_commission_per_fill cm \<and> 0 \<le> fc_slippage_bps cm \<and> fc_slippage_bps cm < Dec 10000 0"
  by (auto simp: mk_fill_costs_def result_simps)

lemma slipped_price_returns:
  "0 < anchor \<Longrightarrow> 0 \<le> bps \<Longrightarrow> bps < Dec 10000 0 \<Longrightarrow> \<exists>p. slipped_price anchor side bps = Inr p"
  using ddiv_defined [of "Dec 10000 0" bps] by (auto simp: slipped_price_def dval_def Let_def)

lemma fill_anchor_returns:
  assumes "order_intent_ok i" "record_valid r"
  shows "\<exists>offer. fill_anchor i r = Inr offer \<and> (\<forall>a. offer = Inr a \<longrightarrow> 0 < a)"
proof -
  have limit: "\<exists>p. oi_limit_price i = Some p" if "oi_order_type i = ILIMIT"
    using intent_ok_limit [OF assms(1) that] by blast
  show ?thesis
  proof (cases r)
    case (Candle c)
    then have "0 < cd_open_price c" using assms(2) by (simp add: candle_valid_def)
    then show ?thesis using Candle limit by (cases "oi_order_type i") (auto simp: Let_def)
  next
    case (Tick t)
    then have v: "0 < tk_ltp t" "pred_option (\<lambda>p. 0 < p) (tk_bid t)" "pred_option (\<lambda>p. 0 < p) (tk_ask t)"
      using assms(2) by (auto simp: tick_valid_def)
    then show ?thesis using Tick limit
      by (cases "oi_order_type i"; cases "oi_side i") (auto split: option.splits)
  qed
qed

lemma evaluate_fill_returns:
  assumes "order_intent_ok i" "record_valid r" "mk_fill_costs cm = Inr cm" "0 \<le> position"
  obtains ev where "evaluate_fill i r k cash position cm seq idx = Inr ev"
proof -
  obtain offer where o: "fill_anchor i r = Inr offer" "\<And>a. offer = Inr a \<Longrightarrow> 0 < a"
    using fill_anchor_returns [OF assms(1,2)] by blast
  note cm = mk_fill_costs_ok [OF assms(3)]
  have "\<exists>ev. evaluate_fill i r k cash position cm seq idx = Inr ev"
  proof (cases offer)
    case (Inl reason)
    then show ?thesis using o(1) assms(4) by (simp add: evaluate_fill_def unfilled_eq)
  next
    case (Inr a)
    then have a: "0 < a" by (rule o(2))
    obtain price where "(case oi_order_type i of IMARKET \<Rightarrow> slipped_price a (oi_side i) (fc_slippage_bps cm) | ILIMIT \<Rightarrow> Inr a) = Inr price"
      using slipped_price_returns [of a "fc_slippage_bps cm" "oi_side i"] a cm by (cases "oi_order_type i") auto
    then show ?thesis using o(1) Inr a cm assms(4)
      by (auto simp: evaluate_fill_def commission_for_def Let_def unfilled_eq mk_fill_outcome_def)
  qed
  then show thesis using that by blast
qed

definition quantities :: "order_intent list \<Rightarrow> nat list \<Rightarrow> rat" where
  "quantities is js = sum_list (map (\<lambda>j. dval (oi_quantity (is ! j))) js)"

definition sim_ok :: "int \<Rightarrow> order_intent list \<Rightarrow> nat list \<Rightarrow> sim_state \<Rightarrow> bool" where
  "sim_ok e is js st \<longleftrightarrow> ledger_holds e (ss_ledger st) (ss_position st) \<and> dval (ss_position st) + quantities is js < grid_limit e"

lemma quantities_nonneg: "(\<And>j. j \<in> set js \<Longrightarrow> order_intent_ok (is ! j)) \<Longrightarrow> 0 \<le> quantities is js"
  unfolding quantities_def by (intro sum_list_nonneg) (auto intro: intent_ok_dval)

lemma apply_intent_returns:
  assumes "sim_ok e is (j # js) st" "record_valid r" "mk_fill_costs cm = Inr cm"
    and ok: "\<And>i. i \<in> set (j # js) \<Longrightarrow> order_intent_ok (is ! i) \<and> on_grid e (oi_quantity (is ! i))"
  obtains st' where "apply_intent is cm r k st j = Inr st'" "sim_ok e is js st'"
proof -
  have h: "ledger_holds e (ss_ledger st) (ss_position st)"
    and b: "dval (ss_position st) + dval (oi_quantity (is ! j)) + quantities is js < grid_limit e"
    using assms(1) by (simp_all add: sim_ok_def quantities_def add.assoc)
  have q: "0 < dval (oi_quantity (is ! j))" "on_grid e (oi_quantity (is ! j))"
    using ok [of j] intent_ok_quantity [of "is ! j"] by (auto simp: decimal_order)
  have rest: "0 \<le> quantities is js" using ok by (intro quantities_nonneg) auto
  have g: "on_grid e (ss_position st)" using h by (simp add: ledger_holds_def)
  have "0 \<le> ss_position st" using on_grid_nonneg [OF g] by (simp add: decimal_order)
  then obtain ev where ev: "evaluate_fill (is ! j) r k (ss_cash st) (ss_position st) cm (ss_sequence st) j = Inr ev"
    using evaluate_fill_returns [of "is ! j" r cm "ss_position st"] assms(2,3) ok by (metis list.set_intros(1))
  from ev show thesis
  proof (cases rule: evaluate_fill_cases)
    case (unfilled reason)
    then show ?thesis using ev h b q
      by (intro that [of "st\<lparr>ss_outcomes := (ss_outcomes st)[j := Some (unfilled_outcome j reason)]\<rparr>"])
        (simp_all add: apply_intent_def sim_ok_def)
  next
    case (filled f)
    have fq: "0 < dval (fr_quantity f)" "on_grid e (fr_quantity f)" using q filled by simp_all
    show ?thesis
    proof (cases "fr_side f")
      case IBUY
      have lt: "dval (ss_position st) + dval (fr_quantity f) < grid_limit e" using b rest filled by simp
      obtain led where led: "open_lot (ss_ledger st) f = Inr led" "ledger_holds e led (signed_position (ss_position st) f)"
        by (rule open_lot_holds [OF h fq(2,1) IBUY lt])
      have "dval (signed_position (ss_position st) f) = dval (ss_position st) + dval (fr_quantity f)"
        using on_grid_plus(1) [OF g fq(2) lt] IBUY by (simp add: signed_position_def)
      then show ?thesis using ev led filled IBUY b that by (auto simp: apply_intent_def Let_def sim_ok_def)
    next
      case ISELL
      then have ns: "\<not> ss_position st < fr_quantity f" using filled by simp
      obtain led ts where led: "close_lots (ss_ledger st) f = Inr (led, ts)" "ledger_holds e led (signed_position (ss_position st) f)"
        by (rule close_lots_holds [OF h fq(2,1) ISELL ns])
      have "dval (signed_position (ss_position st) f) = dval (ss_position st) - dval (fr_quantity f)"
        using on_grid_minus(1) [OF g fq(2)] ns ISELL by (simp add: signed_position_def decimal_order)
      then show ?thesis using ev led filled ISELL b fq that by (auto simp: apply_intent_def Let_def sim_ok_def)
    qed
  qed
qed

lemma apply_intents_returns:
  assumes "sim_ok e is (js @ ls) st" "record_valid r" "mk_fill_costs cm = Inr cm"
    and "\<And>i. i \<in> set (js @ ls) \<Longrightarrow> order_intent_ok (is ! i) \<and> on_grid e (oi_quantity (is ! i))"
  obtains st' where "apply_intents is cm r k st js = Inr st'" "sim_ok e is ls st'"
proof -
  have "\<exists>st'. apply_intents is cm r k st js = Inr st' \<and> sim_ok e is ls st'" using assms(1,4)
  proof (induction js arbitrary: st)
    case (Cons j js)
    obtain st1 where "apply_intent is cm r k st j = Inr st1" "sim_ok e is (js @ ls) st1"
      using apply_intent_returns [of e "is" j "js @ ls" st r cm] Cons.prems assms(2,3) by (metis append_Cons)
    then show ?case using Cons.IH [of st1] Cons.prems(2) by auto
  qed simp
  then show thesis using that by blast
qed

lemma mark_price_returns: "record_valid r \<Longrightarrow> \<exists>m. mark_price r = Inr m"
  by (cases r) (auto simp: candle_valid_def tick_valid_def)

lemma record_loop_returns:
  assumes "sim_ok e is (concat (drop k anch)) st" "length anch = k + length rs" "list_all record_valid rs" "mk_fill_costs cm = Inr cm"
    and "\<And>i. i \<in> set (concat anch) \<Longrightarrow> order_intent_ok (is ! i) \<and> on_grid e (oi_quantity (is ! i))"
  shows "\<exists>st' eq'. record_loop is cm anch k rs st eq = Inr (st', eq') \<and> length eq' = length eq + length rs"
  using assms(1-3)
proof (induction rs arbitrary: k st eq)
  case (Cons r rs)
  then have a: "drop k anch = anch ! k # drop (Suc k) anch" by (simp add: Cons_nth_drop_Suc)
  have "i \<in> set (anch ! k @ concat (drop (Suc k) anch)) \<Longrightarrow> order_intent_ok (is ! i) \<and> on_grid e (oi_quantity (is ! i))" for i
    using assms(5) [of i] in_set_dropD [of _ k anch] by (auto simp: a)
  then obtain st1 where "apply_intents is cm r k st (anch ! k) = Inr st1" "sim_ok e is (concat (drop (Suc k) anch)) st1"
    using apply_intents_returns [of e "is" "anch ! k" "concat (drop (Suc k) anch)" st r cm k] Cons.prems assms(4) by (auto simp: a)
  moreover obtain m where "mark_price r = Inr m" using mark_price_returns Cons.prems(3) by auto
  ultimately show ?case
    using Cons.IH [of "Suc k" st1 "eq @ [\<lparr>ep_timestamp = record_timestamp r, ep_equity = ss_cash st1 + ss_position st1 * m\<rparr>]"] Cons.prems
    by auto
qed simp

lemma quantities_mono:
  assumes "list_all order_intent_ok is"
  shows "quantities is (filter P [0..<length is]) \<le> sum_list (map (\<lambda>i. dval (oi_quantity i)) is)"
proof -
  have nn: "0 \<le> dval (oi_quantity (is ! j))" if "j < length is" for j
    using assms that intent_ok_quantity [of "is ! j"] by (auto simp: list_all_length decimal_order)
  have "sum_list (map f (filter P xs)) \<le> sum_list (map f xs)" if "\<And>x. x \<in> set xs \<Longrightarrow> 0 \<le> f x" for f :: "nat \<Rightarrow> rat" and xs
    using that by (induction xs) (auto intro: add_increasing)
  from this [of "[0..<length is]" "\<lambda>j. dval (oi_quantity (is ! j))"] nn
  have "quantities is (filter P [0..<length is]) \<le> sum_list (map (\<lambda>j. dval (oi_quantity (is ! j))) [0..<length is])"
    by (simp add: quantities_def)
  also have "map (\<lambda>j. dval (oi_quantity (is ! j))) [0..<length is] = map (\<lambda>i. dval (oi_quantity i)) is"
    by (rule nth_equalityI) simp_all
  finally show ?thesis .
qed

text \<open>C34.  A run always returns on an accepted input of valid records, with valid intents in strictly ascending order and a
  valid cost model, when the quantities are multiples of one power of ten whose total fits the
  precision: no fill is refused by the ledger, no division fails and no intent stays without outcome.\<close>

theorem backtest_returns:
  assumes "mk_backtest_input b = Inr b" "list_all record_valid (bi_records b)"
    and "list_all order_intent_ok is" "strictly_after is" "mk_fill_costs cm = Inr cm" "0 < capital"
    and "list_all (\<lambda>i. on_grid e (oi_quantity i)) is" "sum_list (map (\<lambda>i. dval (oi_quantity i)) is) < grid_limit e"
  shows "\<exists>R. run_backtest sha b is cm capital = Inr R"
proof -
  let ?rs = "bi_records b"
  have ne: "?rs \<noteq> []" using assms(1) by (simp add: backtest_input_exact)
  obtain anch outs where al: "anchor_loop ?rs 0 0 is (replicate (length ?rs) []) (replicate (length is) None) = (anch, outs)"
    by (rule prod.exhaust)
  note an = anchoring [OF assms(4) al]
  have conc: "concat anch = live_intents ?rs is" unfolding an(1) by (rule anchored_in_order [OF assms(4)])
  have "sim_ok e is (concat (drop 0 anch)) (start_state capital outs)"
    using quantities_mono [OF assms(3), of "\<lambda>j. anchor_of ?rs (is ! j) < length ?rs"] assms(8)
    by (simp add: sim_ok_def start_state_def ledger_holds_def empty_ledger_def conc live_intents_def)
  moreover have "order_intent_ok (is ! i) \<and> on_grid e (oi_quantity (is ! i))" if "i \<in> set (concat anch)" for i
    using that assms(3,7) by (auto simp: conc live_intents_def list_all_length)
  ultimately obtain st eq where loop: "record_loop is cm anch 0 ?rs (start_state capital outs) [] = Inr (st, eq)" "length eq = length ?rs"
    using record_loop_returns [of e "is" 0 anch "start_state capital outs" ?rs cm "[]"] assms(2,5) an(1) by auto
  have "intent_pass ?rs is cm (start_state capital outs) (live_intents ?rs is) = Inr st"
    using record_loop_pass [of "is" cm anch 0 ?rs "start_state capital outs" "[]" st eq] loop(1) an(1) conc by simp
  from intent_pass_outcomes [OF this]
  have P: "length (ss_outcomes st) = length outs \<and> (\<forall>j<length outs. if j \<in> set (live_intents ?rs is)
     then \<exists>out. ss_outcomes st ! j = Some out \<and> timed ?rs is j out else ss_outcomes st ! j = outs ! j)"
    by (auto simp: start_state_def an(2) live_intents_def)
  have outs: "length (ss_outcomes st) = length is"
    "\<And>j. j < length is \<Longrightarrow> j \<notin> set (live_intents ?rs is) \<Longrightarrow> ss_outcomes st ! j = outs ! j"
    "\<And>j. j < length is \<Longrightarrow> j \<in> set (live_intents ?rs is) \<Longrightarrow> ss_outcomes st ! j \<noteq> None"
    using P an(2) by fastforce+
  have "ss_outcomes st ! j \<noteq> None" if "j < length is" for j
    using outs(2,3) [of j] that first_after_le [of ?rs "instant (oi_decided_at (is ! j))"]
    by (cases "j \<in> set (live_intents ?rs is)") (auto simp: an(2) live_intents_def anchor_of_def)
  then have "list_all (\<lambda>f. f \<noteq> None) (ss_outcomes st)" by (simp add: list_all_length outs(1))
  moreover have "eq \<noteq> []" using loop(2) ne by auto
  ultimately show ?thesis using assms(4,6) al loop outs(1)
    by (auto simp: run_backtest_def mk_backtest_run_def)
qed

section \<open>A sample run\<close>

definition sample_bar :: "int \<Rightarrow> int \<Rightarrow> market_record" where
  "sample_bar t close =
     Candle ((sample_candle ''NSE'' ''A'')\<lparr>cd_candle_start := utc t, cd_close_price := Dec close 0\<rparr>)"

definition sample_input :: "int \<Rightarrow> backtest_input" where
  "sample_input close = \<lparr>bi_dataset_id = ''d'', bi_source = ''s'', bi_records = [sample_bar 0 11, sample_bar 60 close],
     bi_metadata = (\<lambda>_. None)\<rparr>"

definition backtest_intent :: order_intent where
  "backtest_intent = \<lparr>oi_side = IBUY, oi_order_type = IMARKET, oi_quantity = Dec 2 0, oi_decided_at = utc (-1),
     oi_limit_price = None, oi_label = None\<rparr>"

definition backtest_costs :: cost_model where
  "backtest_costs = \<lparr>fc_commission_per_fill = Dec 1 0, fc_slippage_bps = Dec 0 0\<rparr>"

lemma seek_stop: "\<not> (c < length rs \<and> rec_time (rs ! c) \<le> t) \<Longrightarrow> seek rs c t = c"
  by (subst seek.simps) auto

lemmas backtest_sample_defs = sample_bar_def sample_input_def backtest_intent_def backtest_costs_def sample_candle_def

lemma sample_anchor:
  "anchor_loop [sample_bar 0 11, sample_bar 60 close] 0 0 [backtest_intent] [[], []] [None] = ([[0], []], [None])"
  by (simp add: backtest_sample_defs seek_stop)

definition backtest_fill :: fill_record where
  "backtest_fill = \<lparr>fr_sequence = 0, fr_intent_index = 0, fr_side = IBUY, fr_quantity = Dec 2 0, fr_anchor_price = Dec 10 0,
     fr_slippage_per_share = Dec 0 0, fr_fill_price = Dec 10 0, fr_commission_amount = Dec 1 0, fr_gross_value = Dec 20 0,
     fr_cash_flow = Dec (-21) 0, fr_record_index = 0, fr_filled_at = utc 0\<rparr>"

lemmas decimal_eval = times_decimal_def plus_decimal_def minus_decimal_def uminus_decimal_def dadd_def dsub_def dmul_def
  dneg_def dabs_def rescaled_def

lemma sample_evaluation:
  "evaluate_fill backtest_intent (sample_bar 0 11) 0 (Dec 100 0) 0 backtest_costs 0 0 =
     Inr \<lparr>fe_outcome = filled_outcome backtest_fill, fe_fill = Some backtest_fill, fe_cash = Dec 79 0, fe_position = Dec 2 0\<rparr>"
proof -
  have "0 \<le> (0::decimal)" "0 < Dec 10 0" "\<not> Dec 79 0 < 0" "0 \<le> Dec 1 0" "0 \<le> Dec 0 0" "Dec 0 0 < Dec 10000 0" "deq (Dec 0 0) 0"
    by (simp_all add: decimal_order dval_def zero_decimal_def)
  moreover have "Dec 2 0 * Dec 10 0 = Dec 20 0" "Dec 20 0 + Dec 1 0 = Dec 21 0" "- Dec 21 0 = Dec (-21) 0" "Dec 100 0 + Dec (-21) 0 = Dec 79 0"
    "dabs (Dec 10 0 - Dec 10 0) = Dec 0 0" "0 + Dec 2 0 = Dec 2 0"
    by (simp_all add: decimal_eval zero_decimal_def)
  ultimately show ?thesis
    by (simp add: evaluate_fill_def backtest_sample_defs slipped_price_def commission_for_def mk_fill_outcome_def filled_outcome_def backtest_fill_def Let_def)
qed

definition sample_result :: "(string \<Rightarrow> string) \<Rightarrow> int \<Rightarrow> backtest_run" where
  "sample_result sha close =
     \<lparr>br_input_sha256 = content_sha256 sha (bi_records (sample_input close)), br_dataset_id = ''d'', br_source = ''s'',
      br_initial_capital = Dec 100 0, br_cost_model = backtest_costs, br_intents = [backtest_intent],
      br_outcomes = [filled_outcome backtest_fill], br_trades = [],
      br_equity_curve = [\<lparr>ep_timestamp = utc 0, ep_equity = Dec 101 0\<rparr>, \<lparr>ep_timestamp = utc 60, ep_equity = Dec 79 0 + Dec 2 0 * Dec close 0\<rparr>]\<rparr>"

lemma sample_run:
  assumes "0 < close"
  shows "run_backtest sha (sample_input close) [backtest_intent] backtest_costs (Dec 100 0) = Inr (sample_result sha close)"
proof -
  have pos: "0 < Dec 100 0" "0 < Dec 11 0" "0 < Dec close 0" using assms by (simp_all add: decimal_order dval_def zero_decimal_def)
  have eq: "Dec 79 0 + Dec 2 0 * Dec 11 0 = Dec 101 0" by (simp add: decimal_eval)
  have step: "apply_intents [backtest_intent] backtest_costs (sample_bar 0 11) 0 (start_state (Dec 100 0) [None]) [0] =
      Inr \<lparr>ss_cash = Dec 79 0, ss_position = Dec 2 0, ss_sequence = 1, ss_trades = [],
        ss_ledger = \<lparr>fl_lots = [lot_of_fill backtest_fill], fl_trade_sequence = 0\<rparr>, ss_outcomes = [Some (filled_outcome backtest_fill)]\<rparr>"
  proof -
    have "oi_side backtest_intent = IBUY" "fr_side backtest_fill = IBUY" by (simp_all add: backtest_intent_def backtest_fill_def)
    then show ?thesis using sample_evaluation
      by (simp add: apply_intent_def start_state_def open_lot_def empty_ledger_def Let_def)
  qed
  have marks: "mark_price (sample_bar 0 11) = Inr (Dec 11 0)" "mark_price (sample_bar 60 close) = Inr (Dec close 0)"
    "record_timestamp (sample_bar t c) = utc t" for t c
    using pos by (simp_all add: sample_bar_def sample_candle_def)
  have recs: "bi_records (sample_input close) = [sample_bar 0 11, sample_bar 60 close]"
    "bi_dataset_id (sample_input close) = ''d''" "bi_source (sample_input close) = ''s''" by (simp_all add: sample_input_def)
  show ?thesis
    using step marks pos eq
    by (simp add: run_backtest_def recs mk_backtest_run_def sample_result_def sample_anchor Let_def del: anchor_loop.simps apply_intents.simps(2))
qed


lemma backtest_intent_ok: "list_all order_intent_ok [backtest_intent]"
  by (simp add: order_intent_ok_def mk_intent_def backtest_intent_def decimal_order dval_def zero_decimal_def)

theorem fill_timing_witness:
  "fo_intent_index (br_outcomes (sample_result id 9) ! 0) = 0 \<and>
   (\<exists>f. fo_fill (br_outcomes (sample_result id 9) ! 0) = Some f \<and> instant (oi_decided_at backtest_intent) < instant (fr_filled_at f))"
proof -
  have r: "run_backtest id (sample_input 9) [backtest_intent] backtest_costs (Dec 100 0) = Inr (sample_result id 9)"
    by (rule sample_run) simp
  have "fo_filled (br_outcomes (sample_result id 9) ! 0)" by (simp add: sample_result_def filled_outcome_def)
  then show ?thesis using fill_timing [OF r] by (auto simp: Let_def)
qed

theorem cash_and_position_never_negative_witness:
  "0 \<le> cash_after (Dec 100 0) (take 1 (br_fills (sample_result id 9))) \<and> 0 \<le> position_after 0 (take 1 (br_fills (sample_result id 9)))"
proof -
  have r: "run_backtest id (sample_input 9) [backtest_intent] backtest_costs (Dec 100 0) = Inr (sample_result id 9)"
    by (rule sample_run) simp
  show ?thesis using cash_and_position_never_negative [OF r backtest_intent_ok, of 1] by simp
qed

theorem no_look_ahead_witness:
  "take 1 (br_equity_curve (sample_result id 9)) = take 1 (br_equity_curve (sample_result id 12)) \<and>
   br_outcomes (sample_result id 9) ! 0 = br_outcomes (sample_result id 12) ! 0"
proof -
  have r: "run_backtest id (sample_input 9) [backtest_intent] backtest_costs (Dec 100 0) = Inr (sample_result id 9)"
    "run_backtest id (sample_input 12) [backtest_intent] backtest_costs (Dec 100 0) = Inr (sample_result id 12)"
    by (rule sample_run; simp)+
  have "anchor_of (bi_records (sample_input 9)) backtest_intent = 0"
    by (simp add: anchor_of_def first_after_def backtest_sample_defs)
  then show ?thesis using no_look_ahead [OF r, of 1]
    by (simp add: sample_input_def)
qed

theorem backtest_returns_witness:
  "\<exists>R. run_backtest id (sample_input 12) [backtest_intent] backtest_costs (Dec 100 0) = Inr R"
proof (rule backtest_returns [where e = 0])
  show "mk_backtest_input (sample_input 12) = Inr (sample_input 12)"
    by (simp add: backtest_input_exact series_ok_def coherent_def backtest_sample_defs blank_def is_space_def)
  show "list_all record_valid (bi_records (sample_input 12))"
    by (simp add: backtest_sample_defs candle_valid_def sized_def decimal_order dval_def zero_decimal_def)
  show "list_all (\<lambda>i. on_grid 0 (oi_quantity i)) [backtest_intent]"
    by (simp add: backtest_intent_def on_grid_def dval_def)
  show "list_all order_intent_ok [backtest_intent]" by (rule backtest_intent_ok)
qed (simp_all add: mk_fill_costs_def backtest_sample_defs decimal_order dval_def zero_decimal_def grid_limit_def)

section \<open>Latency only delays\<close>

lemma apply_latency_nth:
  "apply_latency is m = Inr js \<Longrightarrow> length js = length is \<and>
     (\<forall>j<length is. js ! j = (is ! j)\<lparr>oi_decided_at := plus_delta (oi_decided_at (is ! j)) (total_latency m)\<rparr>)"
proof (induction "is" arbitrary: js)
  case (Cons i "is")
  then obtain ks where "js = i\<lparr>oi_decided_at := plus_delta (oi_decided_at i) (total_latency m)\<rparr> # ks" "apply_latency is m = Inr ks"
    by (auto simp: result_simps apply_latency_to_intent_def mk_intent_def split: intent_type.splits option.splits)
  then show ?case using Cons.IH [of ks] by (auto simp: nth_Cons split: nat.splits)
qed simp

text \<open>Latency keeps the intents in strictly ascending order and never moves an anchor to an earlier record.\<close>

theorem latency_only_delays:
  assumes "mk_latency_model m = Inr m" "apply_latency is m = Inr js"
  shows "strictly_after js \<longleftrightarrow> strictly_after is"
    and "j < length is \<Longrightarrow> anchor_of rs (is ! j) \<le> anchor_of rs (js ! j)"
proof -
  note n = apply_latency_nth [OF assms(2)]
  have "map (\<lambda>i. instant (oi_decided_at i)) js = map (\<lambda>i. instant (oi_decided_at i) + total_latency m) is"
    using n by (intro nth_equalityI) simp_all
  then have "sorted_wrt (<) (map (\<lambda>i. instant (oi_decided_at i)) js) = sorted_wrt (<) (map (\<lambda>i. instant (oi_decided_at i) + total_latency m) is)"
    by simp
  then show "strictly_after js \<longleftrightarrow> strictly_after is" by (simp add: strictly_after_sorted sorted_wrt_map)
  have "0 \<le> total_latency m" using assms(1) by (auto simp: mk_latency_model_def total_latency_def result_simps)
  then show "j < length is \<Longrightarrow> anchor_of rs (is ! j) \<le> anchor_of rs (js ! j)"
    using n by (simp add: anchor_of_def first_after_mono)
qed

end
