(* ===== verification/Backtest_Metrics.thy ===== *)
theory Backtest_Metrics
  imports Backtest_Engine "HOL-Library.Sublist"
begin

text \<open>
  The performance numbers of a run: \<^verbatim>\<open>backtest_engine/metrics.py\<close>, and the curves, calendar buckets, risk ratios and trade
  statistics of \<^verbatim>\<open>backtest_reports\<close>.  Square root and square are those of the decimal library.

  Main results: the maximum drawdown of the metrics is the maximum of the drawdown series and both lie
  between 0 and 1; the counts of the metrics partition the trades; the longest streak is the longest
  run of matching trades; the period buckets cut the curve into its maximal runs of one calendar key.
\<close>

section \<open>Square and square root of the decimal library\<close>

text \<open>Rounding to \<open>p\<close> digits, half to even; \<^verbatim>\<open>x ** 2\<close> works with two extra digits and then rounds to the context.\<close>

definition dround :: "nat \<Rightarrow> decimal \<Rightarrow> decimal" where
  "dround p d =
     (if \<bar>coeff d\<bar> < 10 ^ p then d
      else let k = ndigits \<bar>coeff d\<bar> - p; c = rdiv (coeff d) (10 ^ k) in
           if \<bar>c\<bar> < 10 ^ p then Dec c (expo d + int k) else Dec (c div 10) (expo d + int k + 1))"

definition dsquare :: "decimal \<Rightarrow> decimal" where
  "dsquare x = dfix (dround 30 (Dec (coeff x * coeff x) (expo x + expo x)))"

text \<open>The integer square root by Newton's iteration, from a start above the root.\<close>

function newton :: "int \<Rightarrow> int \<Rightarrow> int" where
  "newton c n = (if n \<le> 0 \<or> n \<le> c div n then n else newton c ((n + c div n) div 2))"
  by pat_completeness auto
termination
  by (relation "measure (\<lambda>(c, n). nat n)") auto

declare newton.simps [simp del]

definition dsqrt :: "decimal \<Rightarrow> decimal option" where
  "dsqrt d =
     (if coeff d < 0 then None
      else if coeff d = 0 then Some (Dec 0 (expo d div 2))
      else let len = int (ndigits (coeff d));
               (c, l) = (if expo d mod 2 = 1 then (coeff d * 10, len div 2 + 1) else (coeff d, (len + 1) div 2));
               shift = 29 - l;
               c' = (if 0 \<le> shift then c * 100 ^ nat shift else c div 100 ^ nat (- shift));
               whole = (0 \<le> shift \<or> c mod 100 ^ nat (- shift) = 0);
               n = newton c' (10 ^ 29) in
           if whole \<and> n * n = c'
           then Some (dfix (Dec (if 0 \<le> shift then n div 10 ^ nat shift else n * 10 ^ nat (- shift)) (expo d div 2)))
           else Some (dfix (Dec (if n mod 5 = 0 then n + 1 else n) (expo d div 2 - shift))))"

section \<open>Core metrics\<close>

record backtest_metrics =
  bm_initial_capital :: decimal
  bm_final_equity :: decimal
  bm_total_return :: decimal
  bm_trade_count :: nat
  bm_wins :: nat
  bm_losses :: nat
  bm_breakevens :: nat
  bm_win_rate :: "decimal option"
  bm_gross_profit :: decimal
  bm_gross_loss :: decimal
  bm_profit_factor :: "decimal option"
  bm_max_drawdown :: decimal
  bm_sharpe_ratio :: "decimal option"
  bm_risk_free_rate :: decimal

abbreviation count_of :: "('a \<Rightarrow> bool) \<Rightarrow> 'a list \<Rightarrow> nat" where
  "count_of P xs \<equiv> length (filter P xs)"

abbreviation dnat :: "nat \<Rightarrow> decimal" where
  "dnat n \<equiv> dec_of_int (int n)"

text \<open>Division in an expression: a zero divisor raises.\<close>

definition divide_by :: "decimal \<Rightarrow> decimal \<Rightarrow> (backtest_error, decimal) result" where
  "divide_by x y = of_opt DecimalError (ddiv x y)"

definition divide_if :: "bool \<Rightarrow> decimal \<Rightarrow> decimal \<Rightarrow> (backtest_error, decimal option) result" where
  "divide_if c x y = (if c then rbind (divide_by x y) (\<lambda>q. Inr (Some q)) else Inr None)"

fun drawdown_loop :: "decimal \<Rightarrow> decimal \<Rightarrow> decimal list \<Rightarrow> (backtest_error, decimal) result" where
  "drawdown_loop peak worst [] = Inr worst"
| "drawdown_loop peak worst (v # vs) =
     (let peak' = (if peak < v then v else peak) in
      rbind (divide_by (peak' - v) peak') (\<lambda>dd. drawdown_loop peak' (if worst < dd then dd else worst) vs))"

fun simple_returns :: "decimal list \<Rightarrow> (backtest_error, decimal list) result" where
  "simple_returns (a # b # vs) =
     rbind (divide_by (b - a) a) (\<lambda>r. rbind (simple_returns (b # vs)) (\<lambda>rs. Inr (r # rs)))"
| "simple_returns _ = Inr []"

definition sharpe :: "decimal list \<Rightarrow> decimal \<Rightarrow> (backtest_error, decimal option) result" where
  "sharpe rs rf =
     (if length rs < 2 then Inr None
      else rbind (divide_by (dsum rs) (dnat (length rs))) (\<lambda>mean.
           rbind (divide_by (dsum (map (\<lambda>r. dsquare (r - mean)) rs)) (dnat (length rs))) (\<lambda>variance.
           rbind (of_opt DecimalError (dsqrt variance)) (\<lambda>std.
           if deq std 0 then Inr None else rbind (divide_by (mean - rf) std) (\<lambda>q. Inr (Some q))))))"

definition compute_metrics :: "backtest_run \<Rightarrow> decimal \<Rightarrow> (backtest_error, backtest_metrics) result" where
  "compute_metrics run rf =
     rbind (guard (0 \<le> rf) (BacktestEngineError ''risk_free_rate_per_period must be a non-negative finite Decimal'')) (\<lambda>_.
     let curve = map ep_equity (br_equity_curve run) in
     rbind (guard (list_all (\<lambda>v. 0 < v) curve) (BacktestMetricsError ''marked equity must stay positive to compute honest metrics'')) (\<lambda>_.
     let capital = br_initial_capital run; final = last curve; trades = br_trades run;
         pnl = map tr_realized_pnl trades;
         wins = count_of (\<lambda>p. 0 < p) pnl; losses = count_of (\<lambda>p. p < 0) pnl; evens = count_of (\<lambda>p. deq p 0) pnl;
         gross_profit = dsum (filter (\<lambda>p. 0 < p) pnl);
         gross_loss = dsum (map uminus (filter (\<lambda>p. p < 0) pnl)) in
     rbind (divide_by (final - capital) capital) (\<lambda>total_return.
     rbind (divide_if (0 < length trades) (dnat wins) (dnat (length trades))) (\<lambda>win_rate.
     rbind (divide_if (0 < gross_loss) gross_profit gross_loss) (\<lambda>profit_factor.
     rbind (drawdown_loop (hd curve) 0 curve) (\<lambda>max_drawdown.
     rbind (simple_returns curve) (\<lambda>rs.
     rbind (sharpe rs rf) (\<lambda>sharpe_ratio.
     Inr \<lparr>bm_initial_capital = capital, bm_final_equity = final, bm_total_return = total_return,
       bm_trade_count = length trades, bm_wins = wins, bm_losses = losses, bm_breakevens = evens, bm_win_rate = win_rate,
       bm_gross_profit = gross_profit, bm_gross_loss = gross_loss, bm_profit_factor = profit_factor,
       bm_max_drawdown = max_drawdown, bm_sharpe_ratio = sharpe_ratio, bm_risk_free_rate = rf\<rparr>))))))))"

section \<open>Curves\<close>

definition validate_equity_curve :: "equity_point list \<Rightarrow> (backtest_error, unit) result" where
  "validate_equity_curve curve =
     rbind (guard (curve \<noteq> []) (BacktestReportError ''equity_curve must be a non-empty tuple of EquityPoint'')) (\<lambda>_.
     guard (list_all (\<lambda>p. 0 < ep_equity p) curve)
       (BacktestReportMetricsError ''marked equity must stay positive to compute honest reports''))"

record return_point =
  rt_timestamp :: datetime
  rt_value :: decimal

definition mk_return_point :: "return_point \<Rightarrow> (backtest_error, return_point) result" where
  "mk_return_point p =
     rbind (guard (tz_aware (rt_timestamp p)) (BacktestReportError ''ReturnPoint.timestamp must be timezone-aware'')) (\<lambda>_. Inr p)"

record drawdown_point =
  dp_timestamp :: datetime
  dp_equity :: decimal
  dp_peak_equity :: decimal
  dp_drawdown_ratio :: decimal
  dp_drawdown_amount :: decimal

definition mk_drawdown_point :: "drawdown_point \<Rightarrow> (backtest_error, drawdown_point) result" where
  "mk_drawdown_point p =
     rbind (guard (tz_aware (dp_timestamp p)) (BacktestReportError ''DrawdownPoint.timestamp must be timezone-aware'')) (\<lambda>_.
     rbind (guard (0 < dp_equity p \<and> 0 < dp_peak_equity p) (BacktestReportError ''DrawdownPoint equity values must be positive'')) (\<lambda>_.
     rbind (guard (0 \<le> dp_drawdown_ratio p \<and> dp_drawdown_ratio p \<le> 1)
       (BacktestReportError ''DrawdownPoint.drawdown_ratio must be in [0, 1]'')) (\<lambda>_.
     rbind (guard (0 \<le> dp_drawdown_amount p) (BacktestReportError ''DrawdownPoint.drawdown_amount must be non-negative'')) (\<lambda>_.
     Inr p))))"

fun period_returns_loop :: "equity_point list \<Rightarrow> (backtest_error, return_point list) result" where
  "period_returns_loop (a # b # ps) =
     rbind (divide_by (ep_equity b - ep_equity a) (ep_equity a)) (\<lambda>v.
     rbind (mk_return_point \<lparr>rt_timestamp = ep_timestamp b, rt_value = v\<rparr>) (\<lambda>p.
     rbind (period_returns_loop (b # ps)) (\<lambda>rs. Inr (p # rs))))"
| "period_returns_loop _ = Inr []"

definition compute_period_returns :: "equity_point list \<Rightarrow> (backtest_error, return_point list) result" where
  "compute_period_returns curve = rbind (validate_equity_curve curve) (\<lambda>_. period_returns_loop curve)"

fun drawdown_series_loop :: "decimal \<Rightarrow> equity_point list \<Rightarrow> (backtest_error, drawdown_point list) result" where
  "drawdown_series_loop peak [] = Inr []"
| "drawdown_series_loop peak (p # ps) =
     (let equity = ep_equity p; peak' = (if peak < equity then equity else peak); amount = peak' - equity in
      rbind (divide_by amount peak') (\<lambda>ratio.
      rbind (mk_drawdown_point \<lparr>dp_timestamp = ep_timestamp p, dp_equity = equity, dp_peak_equity = peak',
        dp_drawdown_ratio = ratio, dp_drawdown_amount = amount\<rparr>) (\<lambda>d.
      rbind (drawdown_series_loop peak' ps) (\<lambda>ds. Inr (d # ds)))))"

definition compute_drawdown_series :: "equity_point list \<Rightarrow> (backtest_error, drawdown_point list) result" where
  "compute_drawdown_series curve =
     rbind (validate_equity_curve curve) (\<lambda>_. drawdown_series_loop (ep_equity (hd curve)) curve)"

definition compute_downside_deviation :: "decimal list \<Rightarrow> (backtest_error, decimal) result" where
  "compute_downside_deviation rs =
     (if rs = [] then Inr 0
      else rbind (divide_by (dsum (map (\<lambda>v. dsquare (pmin v 0)) rs)) (dnat (length rs))) (\<lambda>m.
           of_opt DecimalError (dsqrt m)))"

datatype period_granularity = DAILY | MONTHLY | YEARLY

fun bucket_key :: "period_granularity \<Rightarrow> datetime \<Rightarrow> int list" where
  "bucket_key DAILY t = (case dt_date t of (y, m, d) \<Rightarrow> [y, int m, d])"
| "bucket_key MONTHLY t = (case dt_date t of (y, m, d) \<Rightarrow> [y, int m])"
| "bucket_key YEARLY t = (case dt_date t of (y, m, d) \<Rightarrow> [y])"

definition bucket_label :: "int list \<Rightarrow> string" where
  "bucket_label key = join ''-'' (dec_fixed 4 (nat (key ! 0)) # map (\<lambda>n. dec_fixed 2 (nat n)) (tl key))"

record period_bucket =
  pb_label :: string
  pb_start_timestamp :: datetime
  pb_end_timestamp :: datetime
  pb_start_equity :: decimal
  pb_end_equity :: decimal
  pb_period_return :: "decimal option"

definition mk_period_bucket :: "period_bucket \<Rightarrow> (backtest_error, period_bucket) result" where
  "mk_period_bucket b =
     rbind (guard (pb_label b \<noteq> []) (BacktestReportError ''PeriodBucket.label must be a non-empty string'')) (\<lambda>_.
     rbind (guard (tz_aware (pb_start_timestamp b)) (BacktestReportError ''PeriodBucket.start_timestamp must be timezone-aware'')) (\<lambda>_.
     rbind (guard (tz_aware (pb_end_timestamp b)) (BacktestReportError ''PeriodBucket.end_timestamp must be timezone-aware'')) (\<lambda>_.
     rbind (guard (instant (pb_start_timestamp b) \<le> instant (pb_end_timestamp b))
       (BacktestReportError ''PeriodBucket start must not follow end'')) (\<lambda>_.
     rbind (guard (0 < pb_start_equity b) (BacktestReportError ''PeriodBucket.start_equity must be a positive finite Decimal'')) (\<lambda>_.
     rbind (guard (0 < pb_end_equity b) (BacktestReportError ''PeriodBucket.end_equity must be a positive finite Decimal'')) (\<lambda>_.
     Inr b))))))"

definition make_bucket :: "int list \<Rightarrow> equity_point list \<Rightarrow> (backtest_error, period_bucket) result" where
  "make_bucket key points =
     rbind (divide_if (2 \<le> length points) (ep_equity (last points) - ep_equity (hd points)) (ep_equity (hd points))) (\<lambda>ret.
     mk_period_bucket \<lparr>pb_label = bucket_label key, pb_start_timestamp = ep_timestamp (hd points),
       pb_end_timestamp = ep_timestamp (last points), pb_start_equity = ep_equity (hd points),
       pb_end_equity = ep_equity (last points), pb_period_return = ret\<rparr>)"

text \<open>The points of the open bucket are kept with its key; \<open>None\<close> before the first point.\<close>

fun bucket_loop ::
  "period_granularity \<Rightarrow> (int list \<times> equity_point list) option \<Rightarrow> equity_point list \<Rightarrow> (backtest_error, period_bucket list) result" where
  "bucket_loop g cur [] =
     (case cur of None \<Rightarrow> Inr [] | Some (key, points) \<Rightarrow> rbind (make_bucket key points) (\<lambda>b. Inr [b]))"
| "bucket_loop g cur (p # ps) =
     (let key = bucket_key g (ep_timestamp p) in
      case cur of
        None \<Rightarrow> bucket_loop g (Some (key, [p])) ps
      | Some (k, points) \<Rightarrow>
          if key = k then bucket_loop g (Some (k, points @ [p])) ps
          else rbind (make_bucket k points) (\<lambda>b.
               rbind (bucket_loop g (Some (key, [p])) ps) (\<lambda>bs. Inr (b # bs))))"

definition bucket_performance :: "period_granularity \<Rightarrow> equity_point list \<Rightarrow> (backtest_error, period_bucket list) result" where
  "bucket_performance g curve = rbind (validate_equity_curve curve) (\<lambda>_. bucket_loop g None curve)"

section \<open>Risk ratios\<close>

record report_risk_metrics =
  rm_sortino_ratio :: "decimal option"
  rm_calmar_ratio :: "decimal option"

definition validate_rf :: "decimal \<Rightarrow> (backtest_error, unit) result" where
  "validate_rf rf = guard (0 \<le> rf) (BacktestReportError ''risk_free_rate_per_period must be a non-negative finite Decimal'')"

definition compute_sortino_ratio :: "decimal list \<Rightarrow> decimal \<Rightarrow> (backtest_error, decimal option) result" where
  "compute_sortino_ratio rs rf =
     rbind (validate_rf rf) (\<lambda>_.
     if length rs < 2 then Inr None
     else rbind (divide_by (dsum rs) (dnat (length rs))) (\<lambda>mean.
          rbind (compute_downside_deviation rs) (\<lambda>downside.
          if deq downside 0 then Inr None else rbind (divide_by (mean - rf) downside) (\<lambda>q. Inr (Some q)))))"

definition compute_calmar_ratio :: "decimal \<Rightarrow> decimal \<Rightarrow> (backtest_error, decimal option) result" where
  "compute_calmar_ratio total_return max_drawdown =
     rbind (guard (0 \<le> max_drawdown \<and> max_drawdown \<le> 1) (BacktestReportError ''max_drawdown must be in [0, 1]'')) (\<lambda>_.
     divide_if (\<not> deq max_drawdown 0) total_return max_drawdown)"

definition compute_risk_metrics :: "backtest_run \<Rightarrow> decimal \<Rightarrow> (backtest_error, report_risk_metrics) result" where
  "compute_risk_metrics run rf =
     rbind (validate_rf rf) (\<lambda>_.
     rbind (validate_equity_curve (br_equity_curve run)) (\<lambda>_.
     rbind (compute_period_returns (br_equity_curve run)) (\<lambda>rs.
     rbind (compute_metrics run rf) (\<lambda>metrics.
     rbind (compute_sortino_ratio (map rt_value rs) rf) (\<lambda>sortino.
     rbind (compute_calmar_ratio (bm_total_return metrics) (bm_max_drawdown metrics)) (\<lambda>calmar.
     Inr \<lparr>rm_sortino_ratio = sortino, rm_calmar_ratio = calmar\<rparr>))))))"

section \<open>Trade statistics\<close>

fun streak_loop :: "('a \<Rightarrow> bool) \<Rightarrow> nat \<Rightarrow> nat \<Rightarrow> 'a list \<Rightarrow> nat" where
  "streak_loop P best current [] = best"
| "streak_loop P best current (v # vs) =
     (if P v then let c = Suc current in streak_loop P (if best < c then c else best) c vs
      else streak_loop P best 0 vs)"

definition max_streak :: "('a \<Rightarrow> bool) \<Rightarrow> 'a list \<Rightarrow> nat" where
  "max_streak P vs = streak_loop P 0 0 vs"

text \<open>\<^verbatim>\<open>max(xs, default=None)\<close> keeps the first of equal maxima.\<close>

definition max_opt :: "('a \<Rightarrow> 'a \<Rightarrow> bool) \<Rightarrow> 'a list \<Rightarrow> 'a option" where
  "max_opt lt xs = (case xs of [] \<Rightarrow> None | x # ys \<Rightarrow> Some (foldl (\<lambda>best y. if lt best y then y else best) x ys))"

text \<open>The fill of a sequence number, and the fills of the exits of a trade.\<close>

definition fill_by_sequence :: "fill_record list \<Rightarrow> nat \<Rightarrow> fill_record option" where
  "fill_by_sequence fs n = find (\<lambda>f. fr_sequence f = n) (rev fs)"

fun exit_fills :: "fill_record list \<Rightarrow> nat list \<Rightarrow> (backtest_error, fill_record list) result" where
  "exit_fills fs [] = Inr []"
| "exit_fills fs (n # ns) =
     rbind (of_opt (BacktestReportError ''trade references an unknown exit fill sequence'') (fill_by_sequence fs n)) (\<lambda>f.
     rbind (exit_fills fs ns) (\<lambda>xs. Inr (f # xs)))"

definition latest :: "fill_record list \<Rightarrow> fill_record" where
  "latest xs = the (max_opt (\<lambda>a b. instant (fr_filled_at a) < instant (fr_filled_at b)) xs)"

definition trade_duration :: "fill_record list \<Rightarrow> trade_record \<Rightarrow> (backtest_error, int) result" where
  "trade_duration fs t =
     rbind (of_opt (BacktestReportError ''trade references an unknown entry fill sequence'') (fill_by_sequence fs (tr_entry_fill_sequence t))) (\<lambda>entry.
     rbind (guard (tr_exit_fill_sequences t \<noteq> []) (BacktestReportError ''trade must have at least one exit fill sequence'')) (\<lambda>_.
     rbind (exit_fills fs (tr_exit_fill_sequences t)) (\<lambda>exits.
     rbind (of_opt (BacktestReportError ''fill timestamps must share timezone awareness'')
         (datetime_diff (fr_filled_at (latest exits)) (fr_filled_at entry))) (\<lambda>d.
     rbind (guard (0 \<le> d) (BacktestReportError ''exit fill must not precede the entry fill'')) (\<lambda>_. Inr d)))))"

fun trade_durations :: "fill_record list \<Rightarrow> trade_record list \<Rightarrow> (backtest_error, int list) result" where
  "trade_durations fs [] = Inr []"
| "trade_durations fs (t # ts) = rbind (trade_duration fs t) (\<lambda>d. rbind (trade_durations fs ts) (\<lambda>ds. Inr (d # ds)))"

definition average_trade_duration :: "backtest_run \<Rightarrow> (backtest_error, int option) result" where
  "average_trade_duration run =
     (let fs = br_fills run in
      rbind (guard (distinct (map fr_sequence fs)) (BacktestReportError ''fill sequences must be unique'')) (\<lambda>_.
      rbind (trade_durations fs (br_trades run)) (\<lambda>ds.
      Inr (if ds = [] then None else Some (rdiv (sum_list ds) (int (length ds)))))))"

record trade_statistics =
  ts_net_profit :: decimal
  ts_loss_rate :: "decimal option"
  ts_expectancy :: "decimal option"
  ts_avg_win :: "decimal option"
  ts_avg_loss :: "decimal option"
  ts_risk_reward_ratio :: "decimal option"
  ts_largest_win :: "decimal option"
  ts_largest_loss :: "decimal option"
  ts_max_consecutive_wins :: nat
  ts_max_consecutive_losses :: nat
  ts_average_trade_duration :: "int option"
  ts_recovery_factor :: "decimal option"
  ts_total_fees :: decimal
  ts_total_slippage :: decimal

definition mk_trade_statistics :: "trade_statistics \<Rightarrow> (backtest_error, trade_statistics) result" where
  "mk_trade_statistics t =
     rbind (guard (pred_option (\<lambda>v. 0 \<le> v) (ts_avg_win t)) (BacktestReportError ''TradeStatistics.avg_win must be non-negative'')) (\<lambda>_.
     rbind (guard (pred_option (\<lambda>v. 0 \<le> v) (ts_avg_loss t)) (BacktestReportError ''TradeStatistics.avg_loss must be non-negative'')) (\<lambda>_.
     rbind (guard (pred_option (\<lambda>v. 0 \<le> v) (ts_largest_win t)) (BacktestReportError ''TradeStatistics.largest_win must be non-negative'')) (\<lambda>_.
     rbind (guard (pred_option (\<lambda>v. 0 \<le> v) (ts_largest_loss t)) (BacktestReportError ''TradeStatistics.largest_loss must be non-negative'')) (\<lambda>_.
     rbind (guard (0 \<le> ts_total_fees t) (BacktestReportError ''TradeStatistics.total_fees must be a non-negative finite Decimal'')) (\<lambda>_.
     rbind (guard (0 \<le> ts_total_slippage t) (BacktestReportError ''TradeStatistics.total_slippage must be a non-negative finite Decimal'')) (\<lambda>_.
     Inr t))))))"

definition divide_opt :: "decimal option \<Rightarrow> decimal option \<Rightarrow> (backtest_error, decimal option) result" where
  "divide_opt a b = (case (a, b) of (Some x, Some y) \<Rightarrow> rbind (divide_by x y) (\<lambda>q. Inr (Some q)) | _ \<Rightarrow> Inr None)"

definition compute_trade_statistics ::
  "backtest_run \<Rightarrow> backtest_metrics \<Rightarrow> decimal \<Rightarrow> (backtest_error, trade_statistics) result" where
  "compute_trade_statistics run metrics max_drawdown_dollar =
     rbind (guard (0 \<le> max_drawdown_dollar) (BacktestReportError ''max_drawdown_dollar must be a non-negative finite Decimal'')) (\<lambda>_.
     let n = length (br_trades run); pnl = map tr_realized_pnl (br_trades run); net_profit = dsum pnl;
         wins = bm_wins metrics; losses = bm_losses metrics in
     rbind (divide_if (0 < n) (dnat losses) (dnat n)) (\<lambda>loss_rate.
     rbind (divide_if (0 < n) net_profit (dnat n)) (\<lambda>expectancy.
     rbind (divide_if (0 < wins) (bm_gross_profit metrics) (dnat wins)) (\<lambda>avg_win.
     rbind (divide_if (0 < losses) (bm_gross_loss metrics) (dnat losses)) (\<lambda>avg_loss.
     rbind (divide_opt avg_win avg_loss) (\<lambda>risk_reward.
     rbind (if 0 < n then average_trade_duration run else Inr None) (\<lambda>duration.
     rbind (divide_if (0 < n \<and> 0 < max_drawdown_dollar) net_profit max_drawdown_dollar) (\<lambda>recovery.
     mk_trade_statistics \<lparr>ts_net_profit = net_profit, ts_loss_rate = loss_rate, ts_expectancy = expectancy,
       ts_avg_win = avg_win, ts_avg_loss = avg_loss, ts_risk_reward_ratio = risk_reward,
       ts_largest_win = max_opt (<) (filter (\<lambda>v. 0 < v) pnl),
       ts_largest_loss = max_opt (<) (map uminus (filter (\<lambda>v. v < 0) pnl)),
       ts_max_consecutive_wins = max_streak (\<lambda>v. 0 < v) pnl, ts_max_consecutive_losses = max_streak (\<lambda>v. v < 0) pnl,
       ts_average_trade_duration = duration, ts_recovery_factor = recovery, ts_total_fees = total_commission run,
       ts_total_slippage = total_slippage_cost run\<rparr>))))))))"

section \<open>Drawdown\<close>

text \<open>A decimal the context holds without rounding; every result of an operation is one.\<close>

abbreviation fits :: "decimal \<Rightarrow> bool" where
  "fits d \<equiv> \<bar>coeff d\<bar> < prec_limit"

lemma fits_rep: "fits d \<Longrightarrow> rep28 (dval d)"
  unfolding rep28_def dval_def by blast

lemma rep28_one: "rep28 1"
  using rep28_int [of 1] by simp

lemma ddiv_unit:
  assumes "0 \<le> dval x" "dval x \<le> dval y" "0 < dval y"
  obtains q where "ddiv x y = Some q" "0 \<le> dval q" "dval q \<le> 1"
proof (cases "dval x = 0")
  case True
  then have x: "coeff x = 0" by (simp add: dval_zero_iff)
  have y: "coeff y \<noteq> 0" using assms(3) by (auto simp: dval_def)
  show ?thesis by (rule that [of "Dec 0 (expo x - expo y)"]) (simp_all add: ddiv_def x y dval_def)
next
  case False
  then have x: "0 < dval x" using assms(1) by simp
  obtain q where q: "ddiv x y = Some q" using ddiv_defined [OF assms(3)] by blast
  have r: "0 \<le> dval x / dval y" "dval x / dval y \<le> 1" using assms x by simp_all
  show ?thesis
    by (rule that [OF q]) (rule ddiv_ge [OF x assms(3) q rep28_0 r(1)], rule ddiv_le [OF x assms(3) q rep28_one r(2)])
qed

lemma minus_below:
  assumes "fits p" "0 \<le> dval v" "dval v \<le> dval p"
  shows "0 \<le> dval (p - v)" "dval (p - v) \<le> dval p"
proof -
  show "0 \<le> dval (p - v)" using assms(3) by (rule decimal_minus_nonneg)
  obtain z where z: "p - v = dfix z" "dval z = dval p - dval v" using minus_decimal_fix by blast
  show "dval (p - v) \<le> dval p" unfolding z(1)
    by (rule dfix_le_rep [OF fits_rep [OF assms(1)]]) (use z(2) assms(2) in simp)
qed

lemma drawdown_step:
  assumes "fits p" "0 < v" "v \<le> p"
  obtains q where "divide_by (p - v) p = Inr q" "0 \<le> q" "q \<le> 1"
proof -
  have v: "0 < dval v" "dval v \<le> dval p" using assms by (simp_all add: decimal_order)
  note m = minus_below [OF assms(1) less_imp_le [OF v(1)] v(2)]
  have "0 < dval p" using v by simp
  from ddiv_unit [OF m this] obtain q where "ddiv (p - v) p = Some q" "0 \<le> dval q" "dval q \<le> 1" .
  then show thesis by (intro that [of q]) (simp_all add: divide_by_def decimal_order)
qed

definition raise_to :: "decimal \<Rightarrow> decimal \<Rightarrow> decimal" where
  "raise_to a b = (if a < b then b else a)"

lemma dval_raise_to: "dval (raise_to a b) = max (dval a) (dval b)"
  by (simp add: raise_to_def decimal_order max_def)

text \<open>The curves the reports accept: positive marks that need no rounding, at aware times.\<close>

definition curve_ok :: "equity_point list \<Rightarrow> bool" where
  "curve_ok curve \<longleftrightarrow> curve \<noteq> [] \<and> list_all (\<lambda>p. 0 < ep_equity p \<and> fits (ep_equity p) \<and> tz_aware (ep_timestamp p)) curve"

lemma drawdown_series_loop_ok:
  assumes "list_all (\<lambda>p. 0 < ep_equity p \<and> fits (ep_equity p) \<and> tz_aware (ep_timestamp p)) ps" "fits peak" "0 < peak"
  shows "\<exists>ds. drawdown_series_loop peak ps = Inr ds \<and> length ds = length ps \<and>
    list_all (\<lambda>d. 0 \<le> dp_drawdown_ratio d \<and> dp_drawdown_ratio d \<le> 1 \<and> 0 \<le> dp_drawdown_amount d) ds \<and>
    drawdown_loop peak worst (map ep_equity ps) = Inr (foldl raise_to worst (map dp_drawdown_ratio ds))"
  using assms
proof (induction ps arbitrary: peak worst)
  case (Cons p ps)
  define peak' where "peak' = (if peak < ep_equity p then ep_equity p else peak)"
  have e: "0 < ep_equity p" "fits (ep_equity p)" "tz_aware (ep_timestamp p)" using Cons.prems(1) by simp_all
  have pk: "fits peak'" "0 < peak'" "ep_equity p \<le> peak'"
    using Cons.prems e by (auto simp: peak'_def decimal_order)
  obtain q where q: "divide_by (peak' - ep_equity p) peak' = Inr q" "0 \<le> q" "q \<le> 1"
    by (rule drawdown_step [OF pk(1) e(1) pk(3)])
  have am: "0 \<le> peak' - ep_equity p"
    using pk(3) decimal_minus_nonneg [of "ep_equity p" peak'] by (simp add: decimal_order)
  from Cons.IH [OF _ pk(1,2), of "raise_to worst q"] Cons.prems(1) show ?case
    using q am e pk(2) by (auto simp: peak'_def [symmetric] Let_def mk_drawdown_point_def raise_to_def)
qed simp

text \<open>The drawdown curve and the maximum drawdown are computed in two places; on every curve of positive marks both
  succeed, the ratios lie between 0 and 1, and the number of the metrics is the maximum of the curve.\<close>

lemma foldl_raise_to: "dval (foldl raise_to w xs) = Max (insert (dval w) (dval ` set xs))"
proof (induction xs arbitrary: w)
  case (Cons x xs)
  have "Max (insert (max (dval w) (dval x)) (dval ` set xs)) = Max (insert (dval w) (insert (dval x) (dval ` set xs)))"
    by (cases "xs = []") (simp_all add: max.assoc)
  then show ?case using Cons by (simp add: dval_raise_to)
qed simp

theorem drawdown_agrees:
  assumes "curve_ok curve"
  shows "\<exists>ds m. compute_drawdown_series curve = Inr ds \<and> length ds = length curve \<and>
    list_all (\<lambda>d. 0 \<le> dp_drawdown_ratio d \<and> dp_drawdown_ratio d \<le> 1) ds \<and>
    drawdown_loop (ep_equity (hd curve)) 0 (map ep_equity curve) = Inr m \<and>
    dval m = Max (dval ` dp_drawdown_ratio ` set ds) \<and> 0 \<le> m \<and> m \<le> 1"
proof -
  obtain p ps where c: "curve = p # ps" using assms by (cases curve) (auto simp: curve_ok_def)
  have "fits (ep_equity p)" "0 < ep_equity p" using assms by (simp_all add: curve_ok_def c)
  from drawdown_series_loop_ok [OF _ this, of curve 0] assms obtain ds where
    ds: "drawdown_series_loop (ep_equity p) curve = Inr ds" "length ds = length curve"
      "list_all (\<lambda>d. 0 \<le> dp_drawdown_ratio d \<and> dp_drawdown_ratio d \<le> 1 \<and> 0 \<le> dp_drawdown_amount d) ds"
      "drawdown_loop (ep_equity p) 0 (map ep_equity curve) = Inr (foldl raise_to 0 (map dp_drawdown_ratio ds))"
    by (auto simp: curve_ok_def)
  let ?m = "foldl raise_to 0 (map dp_drawdown_ratio ds)"
  let ?R = "dval ` dp_drawdown_ratio ` set ds"
  have ne: "ds \<noteq> []" using ds(2) by (auto simp: c)
  then have R: "finite ?R" "?R \<noteq> {}" "\<And>x. x \<in> ?R \<Longrightarrow> 0 \<le> x \<and> x \<le> 1"
    using ds(3) by (auto simp: list_all_iff decimal_order)
  have "dval ?m = max 0 (Max ?R)" using R by (simp add: foldl_raise_to image_image)
  moreover have M: "0 \<le> Max ?R" "Max ?R \<le> 1" using R(3) [OF Max_in [OF R(1,2)]] by auto
  ultimately have m: "dval ?m = Max ?R" by simp
  have v: "validate_equity_curve curve = Inr ()" using assms by (auto simp: validate_equity_curve_def curve_ok_def list_all_iff result_simps)
  show ?thesis
    using ds m M v by (intro exI [of _ ds] exI [of _ ?m]) (auto simp: compute_drawdown_series_def c decimal_order list_all_iff)
qed

section \<open>Counts and streaks\<close>

text \<open>Wins, losses and break-even trades partition the trades, and the win rate is a ratio.\<close>

theorem metric_counts:
  assumes "compute_metrics run rf = Inr m"
  shows "bm_wins m + bm_losses m + bm_breakevens m = bm_trade_count m" "bm_trade_count m = length (br_trades run)"
    "bm_win_rate m = None \<longleftrightarrow> br_trades run = []" "pred_option (\<lambda>w. 0 \<le> w \<and> w \<le> 1) (bm_win_rate m)"
proof -
  let ?pnl = "map tr_realized_pnl (br_trades run)"
  from assms obtain win_rate where m: "bm_wins m = count_of (\<lambda>p. 0 < p) ?pnl" "bm_losses m = count_of (\<lambda>p. p < 0) ?pnl"
    "bm_breakevens m = count_of (\<lambda>p. deq p 0) ?pnl" "bm_trade_count m = length (br_trades run)"
    and w: "divide_if (0 < length (br_trades run)) (dnat (count_of (\<lambda>p. 0 < p) ?pnl)) (dnat (length (br_trades run))) = Inr (bm_win_rate m)"
    by (auto simp: compute_metrics_def Let_def rbind_eq_Inr)
  have "count_of (\<lambda>p. 0 < p) xs + count_of (\<lambda>p. p < 0) xs + count_of (\<lambda>p. deq p 0) xs = length xs" for xs :: "decimal list"
    by (induction xs) (auto simp: decimal_order)
  then show "bm_wins m + bm_losses m + bm_breakevens m = bm_trade_count m" using m by (metis length_map)
  show "bm_trade_count m = length (br_trades run)" by (rule m)
  show "bm_win_rate m = None \<longleftrightarrow> br_trades run = []"
    using w by (cases "br_trades run = []") (auto simp: divide_if_def rbind_eq_Inr dest: sym)
  show "pred_option (\<lambda>w. 0 \<le> w \<and> w \<le> 1) (bm_win_rate m)"
  proof (cases "bm_win_rate m")
    case (Some q)
    with w have n: "0 < length (br_trades run)" and d: "ddiv (dnat (count_of (\<lambda>p. 0 < p) ?pnl)) (dnat (length (br_trades run))) = Some q"
      by (auto simp: divide_if_def divide_by_def result_simps split: if_splits)
    have "count_of (\<lambda>p. 0 < p) ?pnl \<le> length (br_trades run)" using length_filter_le [of _ ?pnl] by simp
    then obtain q' where "ddiv (dnat (count_of (\<lambda>p. 0 < p) ?pnl)) (dnat (length (br_trades run))) = Some q'" "0 \<le> dval q'" "dval q' \<le> 1"
      by (rule_tac ddiv_unit [of "dnat (count_of (\<lambda>p. 0 < p) ?pnl)" "dnat (length (br_trades run))"]) (use n in auto)
    then show ?thesis using d Some by (simp add: decimal_order)
  qed simp
qed

text \<open>The longest run of consecutive values with a property, stated without a loop: some block of consecutive values
  has that length and no block is longer; \<open>longest_end\<close> is the same of the blocks that end the list.\<close>

definition longest :: "('a \<Rightarrow> bool) \<Rightarrow> 'a list \<Rightarrow> nat \<Rightarrow> bool" where
  "longest P vs n \<longleftrightarrow> (\<exists>ys. sublist ys vs \<and> list_all P ys \<and> length ys = n) \<and> (\<forall>ys. sublist ys vs \<longrightarrow> list_all P ys \<longrightarrow> length ys \<le> n)"

definition longest_end :: "('a \<Rightarrow> bool) \<Rightarrow> 'a list \<Rightarrow> nat \<Rightarrow> bool" where
  "longest_end P vs n \<longleftrightarrow> (\<exists>ys. suffix ys vs \<and> list_all P ys \<and> length ys = n) \<and> (\<forall>ys. suffix ys vs \<longrightarrow> list_all P ys \<longrightarrow> length ys \<le> n)"

lemma longestI:
  assumes "sublist ys vs" "list_all P ys" "length ys = n" "\<And>zs. sublist zs vs \<Longrightarrow> list_all P zs \<Longrightarrow> length zs \<le> n"
  shows "longest P vs n"
  using assms unfolding longest_def by blast

lemma longest_end_snoc:
  assumes "longest_end P vs n"
  shows "longest_end P (vs @ [v]) (if P v then Suc n else 0)"
proof -
  obtain ys where ys: "suffix ys vs" "list_all P ys" "length ys = n"
    and top: "\<And>zs. suffix zs vs \<Longrightarrow> list_all P zs \<Longrightarrow> length zs \<le> n"
    using assms unfolding longest_end_def by blast
  have "\<exists>zs. suffix zs (vs @ [v]) \<and> list_all P zs \<and> length zs = (if P v then Suc n else 0)"
    using ys by (intro exI [of _ "if P v then ys @ [v] else []"]) (simp add: suffix_snoc)
  moreover have "length zs \<le> (if P v then Suc n else 0)" if "suffix zs (vs @ [v])" "list_all P zs" for zs
    using that top by (cases zs rule: rev_cases) (auto simp: suffix_snoc)
  ultimately show ?thesis unfolding longest_end_def by blast
qed

lemma longest_snoc:
  assumes "longest P vs b" "longest_end P (vs @ [v]) n"
  shows "longest P (vs @ [v]) (if b < n then n else b)"
proof -
  obtain ys where ys: "sublist ys vs" "list_all P ys" "length ys = b"
    and y: "\<And>zs. sublist zs vs \<Longrightarrow> list_all P zs \<Longrightarrow> length zs \<le> b"
    using assms(1) unfolding longest_def by blast
  obtain xs where xs: "suffix xs (vs @ [v])" "list_all P xs" "length xs = n"
    and x: "\<And>zs. suffix zs (vs @ [v]) \<Longrightarrow> list_all P zs \<Longrightarrow> length zs \<le> n"
    using assms(2) unfolding longest_end_def by blast
  have top: "length zs \<le> (if b < n then n else b)" if "sublist zs (vs @ [v])" "list_all P zs" for zs
    using that x [of zs] y [of zs] by (auto simp: sublist_snoc)
  show ?thesis
    by (rule longestI [of "if b < n then xs else ys", OF _ _ _ top]) (use xs ys in \<open>auto simp: sublist_snoc\<close>)
qed

lemma streak_loop_longest:
  assumes "longest P us best" "longest_end P us cur"
  shows "longest P (us @ vs) (streak_loop P best cur vs)"
  using assms
proof (induction vs arbitrary: us cur best)
  case (Cons v vs)
  note e = longest_end_snoc [OF Cons.prems(2), of v]
  from Cons.IH [OF longest_snoc [OF Cons.prems(1) e] e] show ?case by (simp split: if_splits)
qed simp

text \<open>The streak counters of the statistics are the longest winning and the longest losing streak.\<close>

theorem max_streak_longest: "longest P vs (max_streak P vs)"
  using streak_loop_longest [of P "[]" 0 0 vs] by (simp add: longest_def longest_end_def max_streak_def)

section \<open>Calendar buckets\<close>

abbreviation point_key :: "period_granularity \<Rightarrow> equity_point \<Rightarrow> int list" where
  "point_key g p \<equiv> bucket_key g (ep_timestamp p)"

text \<open>A cut of the curve into its runs of one calendar key: nothing lost or moved, every run non-empty and of one key,
  neighbouring runs of different keys.\<close>

definition calendar_runs :: "period_granularity \<Rightarrow> equity_point list \<Rightarrow> equity_point list list \<Rightarrow> bool" where
  "calendar_runs g curve runs \<longleftrightarrow>
     concat runs = curve \<and> list_all (\<lambda>r. r \<noteq> [] \<and> list_all (\<lambda>p. point_key g p = point_key g (hd r)) r) runs \<and>
     successively (\<lambda>r s. point_key g (hd r) \<noteq> point_key g (hd s)) runs"

definition bucket_of :: "period_granularity \<Rightarrow> equity_point list \<Rightarrow> period_bucket \<Rightarrow> bool" where
  "bucket_of g r b \<longleftrightarrow>
     pb_label b = bucket_label (point_key g (hd r)) \<and>
     pb_start_timestamp b = ep_timestamp (hd r) \<and> pb_end_timestamp b = ep_timestamp (last r) \<and>
     pb_start_equity b = ep_equity (hd r) \<and> pb_end_equity b = ep_equity (last r) \<and>
     (pb_period_return b = None \<longleftrightarrow> length r = 1)"

lemma make_bucket_of:
  assumes "make_bucket (point_key g (hd r)) r = Inr b" "r \<noteq> []"
  shows "bucket_of g r b"
  using assms by (cases r; cases "tl r") (auto simp: make_bucket_def mk_period_bucket_def bucket_of_def divide_if_def rbind_eq_Inr split: if_splits)

lemma bucket_loop_runs:
  assumes "bucket_loop g (Some (k, pts)) ps = Inr bs" "pts \<noteq> []" "list_all (\<lambda>p. point_key g p = k) pts"
  shows "\<exists>runs. calendar_runs g (pts @ ps) runs \<and> runs \<noteq> [] \<and> point_key g (hd (hd runs)) = k \<and> list_all2 (bucket_of g) runs bs"
  using assms
proof (induction ps arbitrary: k pts bs)
  case Nil
  have k: "k = point_key g (hd pts)" using Nil.prems(2,3) by (cases pts) auto
  from Nil.prems k show ?case
    by (intro exI [of _ "[pts]"]) (auto simp: calendar_runs_def rbind_eq_Inr make_bucket_of)
next
  case (Cons p ps)
  have k: "k = point_key g (hd pts)" using Cons.prems(2,3) by (cases pts) auto
  show ?case
  proof (cases "point_key g p = k")
    case True
    with Cons.IH [of k "pts @ [p]" bs] Cons.prems show ?thesis by simp
  next
    case False
    then obtain b bs' where b: "make_bucket k pts = Inr b" "bucket_loop g (Some (point_key g p, [p])) ps = Inr bs'" "bs = b # bs'"
      using Cons.prems(1) by (auto simp: Let_def rbind_eq_Inr)
    from Cons.IH [OF b(2)] obtain runs where r: "calendar_runs g ([p] @ ps) runs" "runs \<noteq> []"
      "point_key g (hd (hd runs)) = point_key g p" "list_all2 (bucket_of g) runs bs'" by auto
    have "calendar_runs g (pts @ p # ps) (pts # runs)"
      using r False Cons.prems(2,3) k by (cases runs) (auto simp: calendar_runs_def)
    moreover have "bucket_of g pts b" using b(1) k Cons.prems(2) by (simp add: make_bucket_of)
    ultimately show ?thesis using r k b(3) by (intro exI [of _ "pts # runs"]) simp
  qed
qed

theorem buckets_partition:
  assumes "bucket_performance g curve = Inr bs"
  shows "\<exists>runs. calendar_runs g curve runs \<and> list_all2 (bucket_of g) runs bs"
proof -
  obtain p ps where c: "curve = p # ps"
    using assms by (cases curve) (auto simp: bucket_performance_def validate_equity_curve_def rbind_eq_Inr result_simps)
  then show ?thesis using assms bucket_loop_runs [of g "point_key g p" "[p]" ps bs]
    by (auto simp: bucket_performance_def rbind_eq_Inr)
qed

end
