(* ===== verification/Backtest_Report.thy ===== *)
theory Backtest_Report
  imports Backtest_Metrics
begin

text \<open>
  The report of a run, \<^verbatim>\<open>backtesting/alpha_algo_backtest_reports/report.py\<close>: the reconstruction of the completed
  trades from the fills, and \<^verbatim>\<open>build_report\<close>, which composes the metrics, the curves, the ratios, the
  statistics and the buckets.

  The main results: every completed trade of a run joins to fills of the run (its entry to a BUY, its
  exits to later SELLs, in order), and therefore the report of a run whose marks are positive is
  always built.
\<close>

section \<open>Trade reconstruction\<close>

record trade_reconstruction =
  rc_trade_id :: nat
  rc_side :: string
  rc_symbol :: "string option"
  rc_timeframe :: "string option"
  rc_entry_timestamp :: datetime
  rc_entry_price :: decimal
  rc_exit_timestamp :: datetime
  rc_exit_price :: decimal
  rc_quantity :: decimal
  rc_entry_label :: "string option"
  rc_exit_label :: "string option"
  rc_entry_reason :: "string option"
  rc_exit_reason :: "string option"
  rc_stop_loss :: "decimal option"
  rc_target :: "decimal option"
  rc_gross_pnl :: decimal
  rc_net_pnl :: decimal
  rc_fees :: decimal
  rc_entry_slippage :: decimal
  rc_exit_slippage :: "decimal option"
  rc_slippage :: "decimal option"
  rc_mfe :: "decimal option"
  rc_mae :: "decimal option"

abbreviation report_guard :: "bool \<Rightarrow> string \<Rightarrow> (backtest_error, unit) result" where
  "report_guard c msg \<equiv> guard c (BacktestReportError msg)"

definition mk_reconstruction :: "trade_reconstruction \<Rightarrow> (backtest_error, trade_reconstruction) result" where
  "mk_reconstruction r =
     rbind (report_guard (rc_side r \<noteq> []) ''TradeReconstruction.side must be a non-empty string'') (\<lambda>_.
     rbind (report_guard (tz_aware (rc_entry_timestamp r)) ''TradeReconstruction.entry_timestamp must be timezone-aware'') (\<lambda>_.
     rbind (report_guard (tz_aware (rc_exit_timestamp r)) ''TradeReconstruction.exit_timestamp must be timezone-aware'') (\<lambda>_.
     rbind (report_guard (instant (rc_entry_timestamp r) \<le> instant (rc_exit_timestamp r)) ''TradeReconstruction entry must not follow exit'') (\<lambda>_.
     rbind (report_guard (0 < rc_entry_price r) ''TradeReconstruction.entry_price must be a positive finite Decimal'') (\<lambda>_.
     rbind (report_guard (0 < rc_exit_price r) ''TradeReconstruction.exit_price must be a positive finite Decimal'') (\<lambda>_.
     rbind (report_guard (0 < rc_quantity r) ''TradeReconstruction.quantity must be a positive finite Decimal'') (\<lambda>_.
     rbind (report_guard (pred_option (\<lambda>v. 0 < v) (rc_stop_loss r)) ''TradeReconstruction.stop_loss must be a positive finite Decimal or None'') (\<lambda>_.
     rbind (report_guard (pred_option (\<lambda>v. 0 < v) (rc_target r)) ''TradeReconstruction.target must be a positive finite Decimal or None'') (\<lambda>_.
     rbind (report_guard (0 \<le> rc_fees r) ''TradeReconstruction.fees must be a non-negative finite Decimal'') (\<lambda>_.
     rbind (report_guard (0 \<le> rc_entry_slippage r) ''TradeReconstruction.entry_slippage must be a non-negative finite Decimal'') (\<lambda>_.
     rbind (report_guard (pred_option (\<lambda>v. 0 \<le> v) (rc_exit_slippage r)) ''TradeReconstruction.exit_slippage must be a non-negative finite Decimal or None'') (\<lambda>_.
     rbind (report_guard (pred_option (\<lambda>v. 0 \<le> v) (rc_slippage r)) ''TradeReconstruction.slippage must be a non-negative finite Decimal or None'') (\<lambda>_.
     rbind (report_guard ((rc_exit_slippage r = None) = (rc_slippage r = None)) ''TradeReconstruction exit_slippage and slippage must be None together'') (\<lambda>_.
     rbind (report_guard (pred_option (\<lambda>v. 0 \<le> v) (rc_mfe r)) ''TradeReconstruction.mfe must be a non-negative finite Decimal or None'') (\<lambda>_.
     rbind (report_guard (pred_option (\<lambda>v. v \<le> 0) (rc_mae r)) ''TradeReconstruction.mae must be a non-positive finite Decimal or None'') (\<lambda>_.
     Inr r))))))))))))))))"

text \<open>How often a fill sequence is used as an exit, over all trades.\<close>

definition exit_usage :: "trade_record list \<Rightarrow> nat \<Rightarrow> nat" where
  "exit_usage ts s = count_list (concat (map tr_exit_fill_sequences ts)) s"

definition intent_label :: "order_intent list \<Rightarrow> nat \<Rightarrow> string option" where
  "intent_label is i = (if i < length is then oi_label (is ! i) else None)"

definition reconstruct_trade ::
  "backtest_run \<Rightarrow> string option \<Rightarrow> string option \<Rightarrow> trade_record \<Rightarrow> (backtest_error, trade_reconstruction) result" where
  "reconstruct_trade run symbol timeframe t =
     (let fs = br_fills run in
      rbind (of_opt (BacktestReportError ''trade references an unknown entry fill sequence'') (fill_by_sequence fs (tr_entry_fill_sequence t))) (\<lambda>entry.
      rbind (exit_fills fs (tr_exit_fill_sequences t)) (\<lambda>exits.
      rbind (report_guard (exits \<noteq> []) ''trade must have at least one exit fill sequence'') (\<lambda>_.
      let last_exit = latest exits;
          fees = tr_entry_cost t + tr_exit_cost t;
          net_pnl = tr_realized_pnl t;
          entry_slippage = fr_slippage_per_share entry * tr_quantity t;
          shared = list_ex (\<lambda>s. 1 < exit_usage (br_trades run) s) (tr_exit_fill_sequences t);
          exit_slippage = dsum (map (\<lambda>f. fr_slippage_per_share f * fr_quantity f) exits) in
      mk_reconstruction
        \<lparr>rc_trade_id = tr_sequence t, rc_side = ''long'', rc_symbol = symbol, rc_timeframe = timeframe,
         rc_entry_timestamp = fr_filled_at entry, rc_entry_price = tr_entry_price t,
         rc_exit_timestamp = fr_filled_at last_exit, rc_exit_price = tr_exit_price t, rc_quantity = tr_quantity t,
         rc_entry_label = intent_label (br_intents run) (fr_intent_index entry),
         rc_exit_label = intent_label (br_intents run) (fr_intent_index last_exit),
         rc_entry_reason = None, rc_exit_reason = None, rc_stop_loss = None, rc_target = None,
         rc_gross_pnl = net_pnl + fees, rc_net_pnl = net_pnl, rc_fees = fees, rc_entry_slippage = entry_slippage,
         rc_exit_slippage = (if shared then None else Some exit_slippage),
         rc_slippage = (if shared then None else Some (entry_slippage + exit_slippage)), rc_mfe = None, rc_mae = None\<rparr>))))"

fun reconstruct_trades ::
  "backtest_run \<Rightarrow> string option \<Rightarrow> string option \<Rightarrow> trade_record list \<Rightarrow> (backtest_error, trade_reconstruction list) result" where
  "reconstruct_trades run symbol timeframe [] = Inr []"
| "reconstruct_trades run symbol timeframe (t # ts) =
     rbind (reconstruct_trade run symbol timeframe t) (\<lambda>r.
     rbind (reconstruct_trades run symbol timeframe ts) (\<lambda>rs. Inr (r # rs)))"

definition build_trade_reconstructions ::
  "backtest_run \<Rightarrow> string option \<Rightarrow> string option \<Rightarrow> (backtest_error, trade_reconstruction list) result" where
  "build_trade_reconstructions run symbol timeframe =
     rbind (report_guard (distinct (map fr_sequence (br_fills run))) ''fill sequences must be unique'') (\<lambda>_.
     reconstruct_trades run symbol timeframe (br_trades run))"

section \<open>The report\<close>

definition REPORT_LIMITATIONS :: "string list" where
  "REPORT_LIMITATIONS =
     [''single-instrument (P7-001 enforces one symbol/kind; the run carries dataset_id/source, not a symbol)'',
      ''long-only (the engine is BUY-opens / SELL-closes with a single non-negative position)'',
      ''non-annualized (Sharpe/Sortino/Calmar are per-record; no calendar model exists)'',
      ''no regime breakdown (regime is not modeled by the engine)'',
      ''MFE/MAE, entry/exit reason, stop loss, and target are None (not recorded by the engine)'']"

record backtest_report =
  bp_input_sha256 :: string
  bp_dataset_id :: string
  bp_source :: string
  bp_symbol :: "string option"
  bp_timeframe :: "string option"
  bp_initial_capital :: decimal
  bp_cost_model :: cost_model
  bp_risk_free_rate_per_period :: decimal
  bp_metrics :: backtest_metrics
  bp_statistics :: trade_statistics
  bp_risk :: report_risk_metrics
  bp_trades :: "trade_reconstruction list"
  bp_equity_curve :: "equity_point list"
  bp_returns :: "return_point list"
  bp_drawdowns :: "drawdown_point list"
  bp_daily_buckets :: "period_bucket list"
  bp_monthly_buckets :: "period_bucket list"
  bp_yearly_buckets :: "period_bucket list"
  bp_limitations :: "string list"

definition mk_backtest_report :: "backtest_report \<Rightarrow> (backtest_error, backtest_report) result" where
  "mk_backtest_report r =
     rbind (report_guard (bp_input_sha256 r \<noteq> []) ''BacktestReport.input_sha256 must be a non-empty string'') (\<lambda>_.
     rbind (report_guard (bp_dataset_id r \<noteq> []) ''BacktestReport.dataset_id must be a non-empty string'') (\<lambda>_.
     rbind (report_guard (bp_source r \<noteq> []) ''BacktestReport.source must be a non-empty string'') (\<lambda>_.
     rbind (report_guard (0 < bp_initial_capital r) ''BacktestReport.initial_capital must be a positive finite Decimal'') (\<lambda>_.
     rbind (report_guard (0 \<le> bp_risk_free_rate_per_period r)
       ''BacktestReport.risk_free_rate_per_period must be a non-negative finite Decimal'') (\<lambda>_.
     rbind (report_guard (bp_equity_curve r \<noteq> []) ''BacktestReport.equity_curve must be a non-empty tuple of EquityPoint'') (\<lambda>_.
     Inr r))))))"

definition build_report ::
  "backtest_run \<Rightarrow> decimal \<Rightarrow> string option \<Rightarrow> string option \<Rightarrow> (backtest_error, backtest_report) result" where
  "build_report run rf symbol timeframe =
     rbind (validate_rf rf) (\<lambda>_.
     rbind (validate_equity_curve (br_equity_curve run)) (\<lambda>_.
     rbind (compute_metrics run rf) (\<lambda>metrics.
     rbind (compute_period_returns (br_equity_curve run)) (\<lambda>returns.
     rbind (compute_drawdown_series (br_equity_curve run)) (\<lambda>drawdowns.
     let max_drawdown_dollar = (case max_opt (<) (map dp_drawdown_amount drawdowns) of None \<Rightarrow> 0 | Some d \<Rightarrow> d) in
     rbind (compute_trade_statistics run metrics max_drawdown_dollar) (\<lambda>statistics.
     rbind (compute_sortino_ratio (map rt_value returns) rf) (\<lambda>sortino.
     rbind (compute_calmar_ratio (bm_total_return metrics) (bm_max_drawdown metrics)) (\<lambda>calmar.
     rbind (build_trade_reconstructions run symbol timeframe) (\<lambda>trades.
     rbind (bucket_performance DAILY (br_equity_curve run)) (\<lambda>daily.
     rbind (bucket_performance MONTHLY (br_equity_curve run)) (\<lambda>monthly.
     rbind (bucket_performance YEARLY (br_equity_curve run)) (\<lambda>yearly.
     mk_backtest_report
       \<lparr>bp_input_sha256 = br_input_sha256 run, bp_dataset_id = br_dataset_id run, bp_source = br_source run,
        bp_symbol = symbol, bp_timeframe = timeframe, bp_initial_capital = br_initial_capital run,
        bp_cost_model = br_cost_model run, bp_risk_free_rate_per_period = rf, bp_metrics = metrics,
        bp_statistics = statistics, bp_risk = \<lparr>rm_sortino_ratio = sortino, rm_calmar_ratio = calmar\<rparr>,
        bp_trades = trades, bp_equity_curve = br_equity_curve run, bp_returns = returns, bp_drawdowns = drawdowns,
        bp_daily_buckets = daily, bp_monthly_buckets = monthly, bp_yearly_buckets = yearly,
        bp_limitations = REPORT_LIMITATIONS\<rparr>))))))))))))"

section \<open>Trades join to fills\<close>

text \<open>The numbers of a fill, and what a lot and a completed trade say about the fills \<open>fs\<close>: the entry is a BUY
  with its price and quantity, the exits are later SELLs in ascending order.\<close>

definition fill_money :: "fill_record \<Rightarrow> bool" where
  "fill_money f \<longleftrightarrow> 0 < dval (fr_quantity f) \<and> 0 < dval (fr_fill_price f) \<and> 0 \<le> dval (fr_commission_amount f)
     \<and> 0 \<le> dval (fr_slippage_per_share f)"

definition joined :: "fill_record list \<Rightarrow> nat \<Rightarrow> nat list \<Rightarrow> decimal \<Rightarrow> decimal \<Rightarrow> bool" where
  "joined fs entry exits price quantity \<longleftrightarrow>
     entry < length fs \<and> fr_side (fs ! entry) = IBUY \<and> price = fr_fill_price (fs ! entry) \<and> quantity = fr_quantity (fs ! entry)
     \<and> sorted_wrt (<) (entry # exits) \<and> list_all (\<lambda>s. s < length fs \<and> fr_side (fs ! s) = ISELL) exits"

definition lot_inv :: "fill_record list \<Rightarrow> lot \<Rightarrow> bool" where
  "lot_inv fs l \<longleftrightarrow>
     joined fs (lo_entry_fill_sequence l) (lo_exit_fill_sequences l) (lo_entry_price l) (lo_total_quantity l)
     \<and> 0 \<le> dval (lo_entry_cost l) \<and> 0 \<le> dval (lo_entry_cost_used l) \<and> 0 \<le> dval (lo_exit_cost_used l)
     \<and> 0 \<le> dval (lo_weighted_exit_sum l) \<and> (lo_exit_fill_sequences l \<noteq> [] \<longrightarrow> 0 < dval (lo_weighted_exit_sum l))"

definition trade_inv :: "fill_record list \<Rightarrow> trade_record \<Rightarrow> bool" where
  "trade_inv fs t \<longleftrightarrow>
     joined fs (tr_entry_fill_sequence t) (tr_exit_fill_sequences t) (tr_entry_price t) (tr_quantity t)
     \<and> tr_exit_fill_sequences t \<noteq> [] \<and> 0 < dval (tr_exit_price t) \<and> 0 \<le> dval (tr_entry_cost t) \<and> 0 \<le> dval (tr_exit_cost t)"

lemma fill_slippage_cost: "fill_money f \<Longrightarrow> 0 \<le> dval (fr_slippage_per_share f * fr_quantity f)"
  by (simp add: fill_money_def decimal_times_nonneg)

lemma joined_more: "joined fs e xs p q \<Longrightarrow> joined (fs @ [f]) e xs p q"
  by (auto simp: joined_def nth_append list_all_iff)

lemma lot_inv_more: "lot_inv fs l \<Longrightarrow> lot_inv (fs @ [f]) l"
  by (simp add: lot_inv_def joined_more)

lemma trade_inv_more: "trade_inv fs t \<Longrightarrow> trade_inv (fs @ [f]) t"
  by (simp add: trade_inv_def joined_more)

lemma joined_exit:
  "joined fs e xs p q \<Longrightarrow> fr_side f = ISELL \<Longrightarrow> joined (fs @ [f]) e (xs @ [length fs]) p q"
  by (auto simp: joined_def nth_append list_all_iff sorted_wrt_append)

lemma joined_quantity: "joined fs e xs p q \<Longrightarrow> list_all fill_money fs \<Longrightarrow> 0 < dval q \<and> 0 < dval p"
  by (auto simp: joined_def list_all_length fill_money_def)

lemma match_lot_inv:
  assumes "match_lot f rem l = Inr (q, l')" "lot_inv fs l" "list_all fill_money fs" "fill_money f" "fr_side f = ISELL"
    "fr_sequence f = length fs" "0 < rem" "0 < lo_remaining_quantity l"
  shows "lot_inv (fs @ [f]) l'" "lo_exit_fill_sequences l' \<noteq> []"
proof -
  have q: "q = pmin rem (lo_remaining_quantity l)" using assms(1) by (auto simp: match_lot_def Let_def rbind_eq_Inr)
  obtain es xs where d: "ddiv (lo_entry_cost l * q) (lo_total_quantity l) = Some es" "ddiv (fr_commission_amount f * q) (fr_quantity f) = Some xs"
    and l': "lo_entry_fill_sequence l' = lo_entry_fill_sequence l" "lo_exit_fill_sequences l' = lo_exit_fill_sequences l @ [fr_sequence f]"
      "lo_entry_price l' = lo_entry_price l" "lo_total_quantity l' = lo_total_quantity l" "lo_entry_cost l' = lo_entry_cost l"
      "lo_entry_cost_used l' = lo_entry_cost_used l + es" "lo_exit_cost_used l' = lo_exit_cost_used l + xs"
      "lo_weighted_exit_sum l' = lo_weighted_exit_sum l + fr_fill_price f * q"
    using assms(1) by (auto simp: match_lot_def Let_def result_simps q)
  have qp: "0 < dval q" using assms(7,8) by (simp add: q pmin_def decimal_order)
  have l: "joined fs (lo_entry_fill_sequence l) (lo_exit_fill_sequences l) (lo_entry_price l) (lo_total_quantity l)"
    "0 \<le> dval (lo_entry_cost l)" "0 \<le> dval (lo_entry_cost_used l)" "0 \<le> dval (lo_exit_cost_used l)" "0 \<le> dval (lo_weighted_exit_sum l)"
    using assms(2) by (simp_all add: lot_inv_def)
  have f: "0 < dval (fr_quantity f)" "0 < dval (fr_fill_price f)" "0 \<le> dval (fr_commission_amount f)"
    using assms(4) by (simp_all add: fill_money_def)
  have "0 \<le> dval es" by (rule ddiv_nonneg [OF decimal_times_nonneg [OF l(2)] _ d(1)]) (use qp joined_quantity [OF l(1) assms(3)] in simp_all)
  moreover have "0 \<le> dval xs" by (rule ddiv_nonneg [OF decimal_times_nonneg [OF f(3)] _ d(2)]) (use qp f in simp_all)
  moreover have "0 < dval (lo_weighted_exit_sum l')"
    using l(5) decimal_plus_pos [OF decimal_times_pos [OF f(2) qp] l(5)] by (simp add: l'(8) plus_decimal_def dadd_def add.commute min.commute)
  ultimately show "lot_inv (fs @ [f]) l'"
    unfolding lot_inv_def l'(1-7) using l joined_exit [OF l(1) assms(5)] by (simp add: assms(6) decimal_plus_nonneg)
  show "lo_exit_fill_sequences l' \<noteq> []" by (simp add: l'(2))
qed

lemma completed_trade_inv:
  assumes "completed_trade seq l = Inr t" "lot_inv fs l" "lo_exit_fill_sequences l \<noteq> []" "list_all fill_money fs"
  shows "trade_inv fs t \<and> tr_sequence t = seq"
proof -
  obtain p where p: "ddiv (lo_weighted_exit_sum l) (lo_total_quantity l) = Some p" and t: "tr_exit_price t = p"
    "tr_sequence t = seq" "tr_entry_fill_sequence t = lo_entry_fill_sequence l" "tr_exit_fill_sequences t = lo_exit_fill_sequences l"
    "tr_quantity t = lo_total_quantity l" "tr_entry_price t = lo_entry_price l" "tr_entry_cost t = lo_entry_cost_used l"
    "tr_exit_cost t = lo_exit_cost_used l"
    using assms(1) by (auto simp: completed_trade_def result_simps)
  have "0 < dval (lo_total_quantity l)" "0 < dval (lo_weighted_exit_sum l)"
    using assms(2,3) joined_quantity [OF _ assms(4)] by (auto simp: lot_inv_def)
  then have "0 < dval p" using ddiv_pos [OF _ _ p] by simp
  then show ?thesis using assms(2,3) by (simp add: trade_inv_def lot_inv_def t)
qed

lemma close_loop_inv:
  assumes "close_loop f rem seq ls = Inr (ls', rem', seq', ts)" "list_all (lot_inv fs) ls" "list_all fill_money fs"
    "fill_money f" "fr_side f = ISELL" "fr_sequence f = length fs"
  shows "list_all (lot_inv (fs @ [f])) ls' \<and> list_all (trade_inv (fs @ [f])) ts \<and> map tr_sequence ts = [seq..<seq'] \<and> seq \<le> seq'"
  using assms(1,2)
proof (induction ls arbitrary: rem seq ls' rem' seq' ts)
  case (Cons l ls)
  have l: "lot_inv fs l" "list_all (lot_inv fs) ls" using Cons.prems(2) by simp_all
  have money: "list_all fill_money (fs @ [f])" using assms(3,4) by simp
  show ?case
  proof (cases "rem \<le> 0")
    case True
    then show ?thesis using Cons.prems by (auto simp: list_all_iff lot_inv_more)
  next
    case rem: False
    show ?thesis
    proof (cases "lo_remaining_quantity l \<le> 0")
      case True
      with Cons.prems(1) rem obtain ks where "close_loop f rem seq ls = Inr (ks, rem', seq', ts)" "ls' = l # ks"
        by (auto simp: rbind_eq_Inr)
      then show ?thesis using Cons.IH l by (fastforce intro: lot_inv_more)
    next
      case False
      with Cons.prems(1) rem obtain q l1 where m: "match_lot f rem l = Inr (q, l1)" by (auto simp: rbind_eq_Inr)
      have pos: "0 < rem" "0 < lo_remaining_quantity l" using rem False by (simp_all add: decimal_not_le)
      note inv = match_lot_inv [OF m l(1) assms(3,4,5,6) pos]
      show ?thesis
      proof (cases "deq (lo_remaining_quantity l1) 0")
        case True
        with Cons.prems(1) rem False m obtain t ks us where c: "completed_trade seq l1 = Inr t"
          "close_loop f (rem - q) (Suc seq) ls = Inr (ks, rem', seq', us)" "ls' = l1 # ks" "ts = t # us"
          by (auto simp: rbind_eq_Inr)
        show ?thesis
          using Cons.IH [OF c(2) l(2)] completed_trade_inv [OF c(1) inv money] inv(1) c(3,4) by (auto simp: upt_conv_Cons)
      next
        case nz: False
        with Cons.prems(1) rem False m obtain ks where c: "close_loop f (rem - q) seq ls = Inr (ks, rem', seq', ts)" "ls' = l1 # ks"
          by (auto simp: rbind_eq_Inr)
        show ?thesis using Cons.IH [OF c(1) l(2)] inv(1) c(2) by simp
      qed
    qed
  qed
qed simp

text \<open>The state of the simulation after the fills \<open>fs\<close>.\<close>

definition linked :: "fill_record list \<Rightarrow> sim_state \<Rightarrow> bool" where
  "linked fs st \<longleftrightarrow>
     list_all fill_money fs \<and> map fr_sequence fs = [0..<length fs] \<and> ss_sequence st = length fs
     \<and> list_all (lot_inv fs) (fl_lots (ss_ledger st)) \<and> list_all (trade_inv fs) (ss_trades st)
     \<and> map tr_sequence (ss_trades st) = [0..<fl_trade_sequence (ss_ledger st)]"

lemma linked_buy:
  assumes "linked fs st" "open_lot (ss_ledger st) f = Inr led" "fill_money f" "fr_sequence f = ss_sequence st" "fr_side f = IBUY"
    "ss_sequence st' = Suc (ss_sequence st)" "ss_ledger st' = led" "ss_trades st' = ss_trades st"
  shows "linked (fs @ [f]) st'"
proof -
  have "lot_inv (fs @ [f]) (lot_of_fill f)"
    using assms(1,3,4,5) by (simp add: linked_def lot_inv_def joined_def lot_of_fill_def nth_append fill_money_def)
  then show ?thesis using assms by (auto simp: linked_def open_lot_def list_all_iff lot_inv_more trade_inv_more)
qed

lemma linked_sell:
  assumes "linked fs st" "close_lots (ss_ledger st) f = Inr (led, ts)" "fill_money f" "fr_sequence f = ss_sequence st" "fr_side f = ISELL"
    "ss_sequence st' = Suc (ss_sequence st)" "ss_ledger st' = led" "ss_trades st' = ss_trades st @ ts"
  shows "linked (fs @ [f]) st'"
proof -
  obtain ls rem seq where c: "close_loop f (fr_quantity f) (fl_trade_sequence (ss_ledger st)) (fl_lots (ss_ledger st)) = Inr (ls, rem, seq, ts)"
    and led: "fl_lots led = filter (\<lambda>l. 0 < lo_remaining_quantity l) ls" "fl_trade_sequence led = seq"
    using assms(2) by (auto simp: close_lots_def rbind_eq_Inr)
  from assms(1,4) have l: "list_all fill_money fs" "list_all (lot_inv fs) (fl_lots (ss_ledger st))" "fr_sequence f = length fs"
    by (simp_all add: linked_def)
  note inv = close_loop_inv [OF c l(2,1) assms(3,5) l(3)]
  have "[0..<fl_trade_sequence (ss_ledger st)] @ [fl_trade_sequence (ss_ledger st)..<seq] = [0..<seq]"
    using inv upt_add_eq_append [of 0 "fl_trade_sequence (ss_ledger st)" "seq - fl_trade_sequence (ss_ledger st)"] by simp
  then show ?thesis using assms inv led l by (auto simp: linked_def list_all_iff trade_inv_more)
qed

text \<open>Slippage below 100% keeps the price positive, when the configured rate has at most 28 digits.\<close>

lemma slipped_price_pos:
  assumes "slipped_price anchor side bps = Inr p" "fits bps"
  shows "0 < dval p"
proof (cases "deq bps 0")
  case True
  then show ?thesis using assms(1) by (auto simp: slipped_price_def result_simps decimal_order)
next
  case False
  obtain q where a: "0 < dval anchor" and b: "0 \<le> dval bps" "dval bps < 10000" and q: "ddiv bps (Dec 10000 0) = Some q"
    and p: "p = anchor * (case side of IBUY \<Rightarrow> 1 + q | ISELL \<Rightarrow> 1 - q)"
    using assms(1) False by (auto simp: slipped_price_def result_simps Let_def decimal_order dval_def [of "Dec 10000 0"])
  have t: "dval (Dec 10000 0) = 10000" by (simp add: dval_def)
  have bp: "0 < dval bps" using b False by (auto simp: decimal_order)
  have "dval bps / 10000 = of_int (coeff bps) * 10 powi (expo bps - 4)"
    by (simp add: dval_def power_int_diff)
  then have "rep28 (dval bps / dval (Dec 10000 0))" using assms(2) rep28_grid by (simp add: t)
  then have v: "dval q = dval bps / 10000" using ddiv_exact [OF bp _ q] by (simp add: t)
  have "0 < dval (1 + q)" using decimal_plus_pos [of 1 q] bp by (simp add: v)
  moreover have "0 < dval (1 - q)"
    using minus_decimal_fix [of 1 q] dfix_pos b by (force simp: v)
  ultimately show ?thesis using a by (cases side) (simp_all add: p decimal_times_pos)
qed

lemma dval_dabs_nonneg: "0 \<le> dval (dabs d)"
  using dval_neg_iff [of "Dec (- coeff d) (expo d)"] dval_neg_iff [of d]
  by (auto simp: dabs_def dneg_def intro!: dfix_nonneg)

lemma evaluate_fill_money:
  assumes "evaluate_fill i r k cash position cm seq idx = Inr ev" "fe_fill ev = Some f" "order_intent_ok i" "fits (fc_slippage_bps cm)"
  shows "fill_money f"
proof -
  obtain offer where o: "fill_anchor i r = Inr offer" and p: "0 \<le> position" using assms(1) by (auto simp: evaluate_fill_def result_simps)
  obtain anchor where an: "offer = Inr anchor" using assms(1,2) o p by (cases offer) (auto simp: evaluate_fill_def unfilled_eq)
  obtain price where a: "0 < dval anchor" and c: "0 \<le> dval (fc_commission_per_fill cm)"
    and pr: "(case oi_order_type i of IMARKET \<Rightarrow> slipped_price anchor (oi_side i) (fc_slippage_bps cm) | ILIMIT \<Rightarrow> Inr anchor) = Inr price"
    and f: "fr_quantity f = oi_quantity i" "fr_fill_price f = price" "fr_commission_amount f = fc_commission_per_fill cm"
      "fr_slippage_per_share f = dabs (price - anchor)"
    using assms(1,2) o p an
    by (auto simp: evaluate_fill_def result_simps commission_for_def unfilled_eq Let_def mk_fill_outcome_def decimal_order split: if_splits)
  have "0 < dval price" using pr a slipped_price_pos [OF _ assms(4)] by (auto split: intent_type.splits)
  moreover have "0 \<le> dval (dabs (price - anchor))"
    by (rule dval_dabs_nonneg)
  ultimately show ?thesis using intent_ok_quantity [OF assms(3)] c f by (simp add: fill_money_def decimal_order)
qed

text \<open>An invariant that relates the state to the fills made so far holds of the fills of the run.\<close>

definition new_fill :: "sim_state \<Rightarrow> nat \<Rightarrow> fill_record list" where
  "new_fill st j = (case fill_at (ss_outcomes st) j of None \<Rightarrow> [] | Some f \<Rightarrow> [f])"

lemma intent_pass_trace:
  assumes "intent_pass rs is cm st js = Inr st'" "distinct js"
    "\<And>j. j \<in> set js \<Longrightarrow> anchor_of rs (is ! j) < length rs \<and> j < length (ss_outcomes st)" and "Q fs st"
    and step: "\<And>fs st st' j. Q fs st \<Longrightarrow> j \<in> set js \<Longrightarrow> j < length (ss_outcomes st) \<Longrightarrow> pass_step rs is cm st j = Inr st' \<Longrightarrow> Q (fs @ new_fill st' j) st'"
  shows "Q (fs @ List.map_filter (fill_at (ss_outcomes st')) js) st'"
  using assms
proof (induction js arbitrary: fs st)
  case (Cons j js)
  then obtain st1 where s: "pass_step rs is cm st j = Inr st1" and p: "intent_pass rs is cm st1 js = Inr st'"
    by (auto simp: rbind_eq_Inr)
  from pass_step_outcomes [OF s] Cons.prems(3) [of j] obtain out where
    o: "ss_outcomes st1 = (ss_outcomes st)[j := Some out]" by auto
  have keep: "ss_outcomes st' ! j = ss_outcomes st1 ! j"
    using intent_pass_outcomes [OF p] Cons.prems(2,3) o by auto
  have "Q (fs @ new_fill st1 j) st1" by (rule Cons.prems(5) [OF Cons.prems(4) _ _ s]) (use Cons.prems(3) in auto)
  from Cons.IH [OF p _ _ this] have "Q ((fs @ new_fill st1 j) @ List.map_filter (fill_at (ss_outcomes st')) js) st'"
    using Cons.prems(2,3,5) o by simp
  moreover have "fill_at (ss_outcomes st') j = fill_at (ss_outcomes st1) j" by (simp add: fill_at_def keep)
  ultimately show ?case by (cases "fill_at (ss_outcomes st1) j") (simp_all add: new_fill_def map_filter_simps)
qed (simp add: map_filter_simps)

lemma pass_step_linked:
  assumes "linked fs st" "pass_step rs is cm st j = Inr st'" "order_intent_ok (is ! j)" "fits (fc_slippage_bps cm)" "j < length (ss_outcomes st)"
  shows "linked (fs @ new_fill st' j) st'"
proof -
  obtain ev where ev: "evaluate_fill (is ! j) (rs ! anchor_of rs (is ! j)) (anchor_of rs (is ! j)) (ss_cash st) (ss_position st) cm (ss_sequence st) j = Inr ev"
    using assms(2) by (auto simp: pass_step_def apply_intent_def Let_def rbind_eq_Inr)
  note money = evaluate_fill_money [OF ev _ assms(3,4)]
  from ev show ?thesis
  proof (cases rule: evaluate_fill_cases)
    case (unfilled reason)
    then have "st' = st\<lparr>ss_outcomes := (ss_outcomes st)[j := Some (unfilled_outcome j reason)]\<rparr>"
      using assms(2) ev by (simp add: pass_step_def apply_intent_def Let_def)
    then show ?thesis using assms(1,5) by (simp add: new_fill_def linked_def)
  next
    case (filled f)
    show ?thesis
    proof (cases "fr_side f")
      case IBUY
      with assms(2) ev filled obtain led where "open_lot (ss_ledger st) f = Inr led"
        and st': "ss_outcomes st' = (ss_outcomes st)[j := Some (filled_outcome f)]" "ss_sequence st' = Suc (ss_sequence st)"
          "ss_ledger st' = led" "ss_trades st' = ss_trades st"
        by (auto simp: pass_step_def apply_intent_def Let_def rbind_eq_Inr)
      then have "linked (fs @ [f]) st'" using linked_buy [OF assms(1), of f led st'] money [of f] filled IBUY by simp
      then show ?thesis using assms(5) st'(1) by (simp add: new_fill_def)
    next
      case ISELL
      with assms(2) ev filled obtain led ts where "close_lots (ss_ledger st) f = Inr (led, ts)"
        and st': "ss_outcomes st' = (ss_outcomes st)[j := Some (filled_outcome f)]" "ss_sequence st' = Suc (ss_sequence st)"
          "ss_ledger st' = led" "ss_trades st' = ss_trades st @ ts"
        by (auto simp: pass_step_def apply_intent_def Let_def rbind_eq_Inr)
      then have "linked (fs @ [f]) st'" using linked_sell [OF assms(1), of f led ts st'] money [of f] filled ISELL by simp
      then show ?thesis using assms(5) st'(1) by (simp add: new_fill_def)
    qed
  qed
qed

text \<open>The times of the fills never go back.\<close>

definition in_order :: "market_record list \<Rightarrow> order_intent list \<Rightarrow> fill_record list \<Rightarrow> bool" where
  "in_order rs is fs \<longleftrightarrow>
     list_all (\<lambda>f. fr_intent_index f < length is \<and> fr_record_index f = anchor_of rs (is ! fr_intent_index f)
       \<and> fr_record_index f < length rs \<and> fr_filled_at f = record_timestamp (rs ! fr_record_index f)) fs
     \<and> sorted_wrt (\<lambda>f g. fr_intent_index f < fr_intent_index g) fs"

lemma fill_at_timed: "timed rs is j out \<Longrightarrow> outs ! j = Some out \<Longrightarrow> fill_at outs j = Some f \<Longrightarrow>
    fr_intent_index f = j \<and> fr_record_index f = anchor_of rs (is ! j) \<and> fr_record_index f < length rs
    \<and> fr_filled_at f = record_timestamp (rs ! fr_record_index f)"
  by (auto simp: timed_def fill_at_def filled_outcome_def split: if_splits)

lemma sorted_map_filter:
  assumes "sorted_wrt (<) (js :: nat list)" "\<And>j f. j \<in> set js \<Longrightarrow> g j = Some f \<Longrightarrow> ix f = j"
  shows "sorted_wrt (\<lambda>a b. ix a < ix b) (List.map_filter g js)"
  using assms
proof (induction js)
  case (Cons j js)
  have "j < ix f" if "f \<in> set (List.map_filter g js)" for f
  proof -
    obtain x where "x \<in> set js" "g x = Some f" using \<open>f \<in> set (List.map_filter g js)\<close> by (auto simp: map_filter_def)
    then show ?thesis using Cons.prems(1) Cons.prems(2) [of x f] by simp
  qed
  then show ?case using Cons by (cases "g j") (auto simp: map_filter_simps)
qed (simp add: map_filter_simps)

lemma run_in_order:
  assumes "run_backtest sha inputs is cm capital = Inr R"
  shows "in_order (bi_records inputs) is (br_fills R)"
proof -
  obtain st outs where pass: "intent_pass (bi_records inputs) is cm (start_state capital outs) (live_intents (bi_records inputs) is) = Inr st"
    and l: "length outs = length is" and br: "br_fills R = List.map_filter (fill_at (ss_outcomes st)) (live_intents (bi_records inputs) is)"
    using run_pass [OF assms] by metis
  have fa: "fr_intent_index f = j \<and> j < length is \<and> fr_record_index f = anchor_of (bi_records inputs) (is ! j) \<and> fr_record_index f < length (bi_records inputs)
    \<and> fr_filled_at f = record_timestamp (bi_records inputs ! fr_record_index f)"
    if j: "j \<in> set (live_intents (bi_records inputs) is)" and f: "fill_at (ss_outcomes st) j = Some f" for j f
  proof -
    have "j < length is" using j by (simp add: live_intents_def)
    moreover obtain out where "ss_outcomes st ! j = Some out" "timed (bi_records inputs) is j out"
      using intent_pass_outcomes [OF pass] j by (force simp: live_intents_def start_state_def l)
    ultimately show ?thesis using fill_at_timed f by blast
  qed
  have "sorted_wrt (<) (live_intents (bi_records inputs) is)" by (simp add: live_intents_def sorted_wrt_filter)
  from sorted_map_filter [OF this, of "fill_at (ss_outcomes st)" fr_intent_index] fa show ?thesis
    unfolding in_order_def br by (fastforce simp: list_all_iff map_filter_def)
qed

lemma run_linked:
  assumes "run_backtest sha inputs is cm capital = Inr R" "list_all order_intent_ok is" "fits (fc_slippage_bps cm)"
  shows "list_all fill_money (br_fills R) \<and> map fr_sequence (br_fills R) = [0..<length (br_fills R)] \<and>
    list_all (trade_inv (br_fills R)) (br_trades R) \<and> map tr_sequence (br_trades R) = [0..<length (br_trades R)]"
proof -
  obtain st outs where pass: "intent_pass (bi_records inputs) is cm (start_state capital outs) (live_intents (bi_records inputs) is) = Inr st"
    and l: "length outs = length is" and br: "br_fills R = List.map_filter (fill_at (ss_outcomes st)) (live_intents (bi_records inputs) is)"
    and tr: "br_trades R = ss_trades st"
    using run_pass [OF assms(1)] by metis
  have "linked [] (start_state capital outs)" by (simp add: linked_def start_state_def empty_ledger_def)
  note start = this
  have "linked ([] @ br_fills R) st" unfolding br
  proof (rule intent_pass_trace [where Q = linked, OF pass _ _ start pass_step_linked])
    show "distinct (live_intents (bi_records inputs) is)" by (simp add: live_intents_def)
    fix j assume "j \<in> set (live_intents (bi_records inputs) is)"
    then show "anchor_of (bi_records inputs) (is ! j) < length (bi_records inputs) \<and> j < length (ss_outcomes (start_state capital outs))"
      "order_intent_ok (is ! j)"
      using assms(2) by (auto simp: live_intents_def l start_state_def list_all_length)
  qed (use assms(3) in auto)
  then show ?thesis by (auto simp: linked_def tr dest: arg_cong [where f = length])
qed

section \<open>The numbers of a run are defined\<close>

lemma divide_by_defined: "dval y \<noteq> 0 \<Longrightarrow> \<exists>q. divide_by x y = Inr q"
  using ddiv_None_iff [of x y] by (cases "ddiv x y") (auto simp: divide_by_def)

lemma divide_by_pos: "0 < dval y \<Longrightarrow> 0 \<le> dval x \<Longrightarrow> \<exists>q. divide_by x y = Inr q \<and> 0 \<le> dval q"
  using ddiv_defined [of y x] ddiv_nonneg [of x y] by (auto simp: divide_by_def)

lemma divide_if_defined: "(c \<Longrightarrow> dval y \<noteq> 0) \<Longrightarrow> \<exists>q. divide_if c x y = Inr q"
  using divide_by_defined [of y x] by (auto simp: divide_if_def)

lemma dsum_nonneg: "(\<And>d. d \<in> set ds \<Longrightarrow> 0 \<le> dval d) \<Longrightarrow> 0 \<le> dval (dsum ds)"
proof -
  have "0 \<le> dval a \<Longrightarrow> (\<And>d. d \<in> set ds \<Longrightarrow> 0 \<le> dval d) \<Longrightarrow> 0 \<le> dval (foldl (+) a ds)" for a
    by (induction ds arbitrary: a) (simp_all add: decimal_plus_nonneg)
  then show "(\<And>d. d \<in> set ds \<Longrightarrow> 0 \<le> dval d) \<Longrightarrow> 0 \<le> dval (dsum ds)" by (simp add: dsum_def)
qed

lemma dsum_pos: "ds \<noteq> [] \<Longrightarrow> (\<And>d. d \<in> set ds \<Longrightarrow> 0 < dval d) \<Longrightarrow> 0 < dval (dsum ds)"
proof -
  have *: "0 < dval a \<Longrightarrow> (\<And>d. d \<in> set ds \<Longrightarrow> 0 < dval d) \<Longrightarrow> 0 < dval (foldl (+) a ds)" for a ds
    by (induction ds arbitrary: a) (simp_all add: decimal_plus_pos less_imp_le)
  assume ne: "ds \<noteq> []" and pos: "\<And>d. d \<in> set ds \<Longrightarrow> 0 < dval d"
  obtain d es where ds: "ds = d # es" using ne by (cases ds) auto
  have "0 < dval (0 + d)" using plus_decimal_fix [of 0 d] dfix_pos pos by (force simp: ds)
  then show "0 < dval (dsum ds)" using * pos by (simp add: dsum_def ds)
qed

lemma coeff_nonneg_iff: "0 \<le> dval d \<longleftrightarrow> 0 \<le> coeff d"
  using dval_neg_iff [of d] by linarith

lemma dround_nonneg: "0 \<le> coeff d \<Longrightarrow> 0 \<le> coeff (dround p d)"
proof -
  assume d: "0 \<le> coeff d"
  have "0 \<le> rdiv (coeff d) (10 ^ k)" for k using rdiv_ge [of "10 ^ k" 0 "coeff d"] d by simp
  then show ?thesis using d by (simp add: dround_def Let_def pos_imp_zdiv_nonneg_iff)
qed

lemma dsquare_nonneg: "0 \<le> dval (dsquare x)"
  unfolding dsquare_def by (intro dfix_nonneg) (simp only: coeff_nonneg_iff dround_nonneg decimal.sel zero_le_square)

lemma dsqrt_defined: "0 \<le> dval d \<Longrightarrow> \<exists>q. dsqrt d = Some q"
proof -
  have "dsqrt d = None \<Longrightarrow> coeff d < 0"
    unfolding dsqrt_def Let_def by (simp only: option.distinct split: if_split_asm prod.split_asm)
  then show "0 \<le> dval d \<Longrightarrow> \<exists>q. dsqrt d = Some q" by (cases "dsqrt d") (auto simp: coeff_nonneg_iff)
qed

lemma root_mean_square:
  assumes "2 \<le> length rs"
  obtains m r where "divide_by (dsum (map (\<lambda>x. dsquare (f x)) rs)) (dnat (length rs)) = Inr m" "dsqrt m = Some r"
proof -
  have n: "0 < dval (dnat (length rs))" using assms by auto
  have "0 \<le> dval (dsum (map (\<lambda>x. dsquare (f x)) rs))" by (rule dsum_nonneg) (auto simp: dsquare_nonneg)
  from divide_by_pos [OF n this] show thesis using that dsqrt_defined by blast
qed

lemma simple_returns_defined: "(\<And>v. v \<in> set vs \<Longrightarrow> 0 < v) \<Longrightarrow> \<exists>rs. simple_returns vs = Inr rs"
proof (induction vs rule: simple_returns.induct)
  case (1 a b vs)
  then show ?case using divide_by_defined [of a "b - a"] by (force simp: decimal_order)
qed auto

lemma sharpe_defined: "\<exists>q. sharpe rs rf = Inr q"
proof (cases "length rs < 2")
  case False
  then have n: "dval (dnat (length rs)) \<noteq> 0" by auto
  obtain mean where mean: "divide_by (dsum rs) (dnat (length rs)) = Inr mean" using divide_by_defined [OF n] by blast
  obtain m r where "divide_by (dsum (map (\<lambda>r. dsquare (r - mean)) rs)) (dnat (length rs)) = Inr m" "dsqrt m = Some r"
    using root_mean_square [of rs] False by (metis linorder_not_less)
  then show ?thesis using False mean divide_by_defined [of r "mean - rf"] by (auto simp: sharpe_def decimal_order)
qed (simp add: sharpe_def)

lemma sortino_defined: "0 \<le> rf \<Longrightarrow> \<exists>q. compute_sortino_ratio rs rf = Inr q"
proof (cases "length rs < 2")
  case False
  assume rf: "0 \<le> rf"
  have n: "dval (dnat (length rs)) \<noteq> 0" using False by auto
  obtain mean where mean: "divide_by (dsum rs) (dnat (length rs)) = Inr mean" using divide_by_defined [OF n] by blast
  obtain m r where "divide_by (dsum (map (\<lambda>v. dsquare (pmin v 0)) rs)) (dnat (length rs)) = Inr m" "dsqrt m = Some r"
    using root_mean_square [of rs] False by (metis linorder_not_less)
  then show ?thesis using False rf mean divide_by_defined [of r "mean - rf"]
    by (auto simp: compute_sortino_ratio_def validate_rf_def compute_downside_deviation_def decimal_order)
qed (simp add: compute_sortino_ratio_def validate_rf_def)

lemma calmar_defined: "0 \<le> d \<Longrightarrow> d \<le> 1 \<Longrightarrow> \<exists>q. compute_calmar_ratio r d = Inr q"
  using divide_if_defined [of "\<not> deq d 0" d r] by (auto simp: compute_calmar_ratio_def decimal_order)

lemma curve_ok_hd: "curve_ok curve \<Longrightarrow> fits (ep_equity (hd curve)) \<and> 0 < ep_equity (hd curve)"
  by (cases curve) (auto simp: curve_ok_def)

lemma series_defined:
  assumes "curve_ok curve"
  obtains ds m where "compute_drawdown_series curve = Inr ds" "list_all (\<lambda>d. 0 \<le> dp_drawdown_amount d) ds"
    "drawdown_loop (ep_equity (hd curve)) 0 (map ep_equity curve) = Inr m" "0 \<le> m" "m \<le> 1"
proof -
  have l: "list_all (\<lambda>p. 0 < ep_equity p \<and> fits (ep_equity p) \<and> tz_aware (ep_timestamp p)) curve" and ne: "curve \<noteq> []"
    using assms by (simp_all add: curve_ok_def)
  from drawdown_series_loop_ok [OF l, of "ep_equity (hd curve)" 0] curve_ok_hd [OF assms] obtain ds where
    ds: "drawdown_series_loop (ep_equity (hd curve)) curve = Inr ds"
      "list_all (\<lambda>d. 0 \<le> dp_drawdown_ratio d \<and> dp_drawdown_ratio d \<le> 1 \<and> 0 \<le> dp_drawdown_amount d) ds"
      "drawdown_loop (ep_equity (hd curve)) 0 (map ep_equity curve) = Inr (foldl raise_to 0 (map dp_drawdown_ratio ds))" by auto
  have "Max (insert 0 (dval ` set (map dp_drawdown_ratio ds))) \<le> 1"
    using ds(2) by (subst Max_le_iff) (auto simp: list_all_iff decimal_order)
  moreover have "0 \<le> Max (insert 0 (dval ` set (map dp_drawdown_ratio ds)))" by (rule Max_ge) simp_all
  ultimately have "0 \<le> foldl raise_to 0 (map dp_drawdown_ratio ds)" "foldl raise_to 0 (map dp_drawdown_ratio ds) \<le> 1"
    by (simp_all only: decimal_order foldl_raise_to dval_zero dval_one)
  moreover have "compute_drawdown_series curve = Inr ds"
    using ds(1) l ne by (auto simp: compute_drawdown_series_def validate_equity_curve_def list_all_iff)
  ultimately show thesis using that [of ds] ds(2,3) by (auto simp: list_all_iff)
qed

lemma metrics_defined:
  assumes "curve_ok (br_equity_curve run)" "0 < br_initial_capital run" "0 \<le> rf"
  obtains m where "compute_metrics run rf = Inr m" "0 \<le> bm_max_drawdown m" "bm_max_drawdown m \<le> 1"
proof -
  let ?c = "br_equity_curve run"
  let ?pnl = "map tr_realized_pnl (br_trades run)"
  have ne: "?c \<noteq> []" and pos: "list_all (\<lambda>v. 0 < v) (map ep_equity ?c)" using assms(1) by (auto simp: curve_ok_def list_all_iff)
  obtain ds md where md: "drawdown_loop (ep_equity (hd ?c)) 0 (map ep_equity ?c) = Inr md" "0 \<le> md" "md \<le> 1"
    by (rule series_defined [OF assms(1)])
  obtain tr where "divide_by (last (map ep_equity ?c) - br_initial_capital run) (br_initial_capital run) = Inr tr"
    using divide_by_defined assms(2) by (metis decimal_order(1) dval_zero less_irrefl)
  moreover obtain wr where "divide_if (0 < length (br_trades run)) (dnat (count_of (\<lambda>p. 0 < p) ?pnl)) (dnat (length (br_trades run))) = Inr wr"
    using divide_if_defined [of "0 < length (br_trades run)"] by fastforce
  moreover obtain pf where "divide_if (0 < dsum (map uminus (filter (\<lambda>p. p < 0) ?pnl))) (dsum (filter (\<lambda>p. 0 < p) ?pnl)) (dsum (map uminus (filter (\<lambda>p. p < 0) ?pnl))) = Inr pf"
    using divide_if_defined by (metis decimal_order(1) dval_zero less_irrefl)
  moreover obtain rs where "simple_returns (map ep_equity ?c) = Inr rs"
    using simple_returns_defined [of "map ep_equity ?c"] pos unfolding list_all_iff by blast
  moreover obtain sr where "sharpe rs rf = Inr sr" using sharpe_defined by blast
  ultimately have "\<exists>m. compute_metrics run rf = Inr m \<and> bm_max_drawdown m = md"
    using md(1) pos ne assms(3) by (simp add: compute_metrics_def Let_def hd_map)
  then show thesis using that md(2,3) by metis
qed

lemma period_returns_defined:
  assumes "curve_ok curve"
  shows "\<exists>rs. compute_period_returns curve = Inr rs"
proof -
  have "list_all (\<lambda>p. 0 < ep_equity p \<and> tz_aware (ep_timestamp p)) ps \<Longrightarrow> \<exists>rs. period_returns_loop ps = Inr rs" for ps
  proof (induction ps rule: period_returns_loop.induct)
    case (1 a b ps)
    then show ?case using divide_by_defined [of "ep_equity a" "ep_equity b - ep_equity a"]
      by (force simp: mk_return_point_def decimal_order)
  qed auto
  moreover have "validate_equity_curve curve = Inr ()" using assms by (auto simp: validate_equity_curve_def curve_ok_def list_all_iff result_simps)
  ultimately show ?thesis using assms by (simp add: compute_period_returns_def curve_ok_def list_all_iff)
qed

lemma make_bucket_defined:
  assumes "points \<noteq> []" "list_all (\<lambda>p. 0 < ep_equity p \<and> tz_aware (ep_timestamp p)) points"
    "sorted_wrt (\<lambda>a b. instant (ep_timestamp a) \<le> instant (ep_timestamp b)) points"
  shows "\<exists>b. make_bucket key points = Inr b"
proof -
  have h: "hd points \<in> set points" "last points \<in> set points" using assms(1) by simp_all
  then have e: "0 < ep_equity (hd points)" "0 < ep_equity (last points)" "tz_aware (ep_timestamp (hd points))" "tz_aware (ep_timestamp (last points))"
    using assms(2) by (auto simp: list_all_iff)
  have o: "instant (ep_timestamp (hd points)) \<le> instant (ep_timestamp (last points))"
    using assms(1,3) by (cases points) auto
  have "dec_fixed 4 n \<noteq> []" for n using length_dec_fixed [of 4 n] by fastforce
  then have lab: "bucket_label key \<noteq> []" by (cases "tl key") (simp_all add: bucket_label_def)
  obtain ret where "divide_if (2 \<le> length points) (ep_equity (last points) - ep_equity (hd points)) (ep_equity (hd points)) = Inr ret"
    using divide_if_defined e(1) by (metis decimal_order(1) dval_zero less_irrefl)
  then show ?thesis using e o lab by (simp add: make_bucket_def mk_period_bucket_def)
qed

lemma bucket_loop_defined:
  assumes "list_all (\<lambda>p. 0 < ep_equity p \<and> tz_aware (ep_timestamp p)) (pts @ ps)"
    "sorted_wrt (\<lambda>a b. instant (ep_timestamp a) \<le> instant (ep_timestamp b)) (pts @ ps)" "pts \<noteq> []"
  shows "\<exists>bs. bucket_loop g (Some (k, pts)) ps = Inr bs"
  using assms
proof (induction ps arbitrary: k pts)
  case Nil
  then show ?case using make_bucket_defined [of pts k] by auto
next
  case (Cons p ps)
  show ?case
  proof (cases "point_key g p = k")
    case True
    then show ?thesis using Cons.IH [of "pts @ [p]" k] Cons.prems by simp
  next
    case False
    obtain b where "make_bucket k pts = Inr b" using make_bucket_defined [of pts k] Cons.prems by (auto simp: sorted_wrt_append)
    moreover obtain bs where "bucket_loop g (Some (point_key g p, [p])) ps = Inr bs"
      using Cons.IH [of "[p]" "point_key g p"] Cons.prems by (auto simp: sorted_wrt_append)
    ultimately show ?thesis using False by (simp add: Let_def)
  qed
qed

lemma buckets_defined:
  assumes "curve_ok curve" "sorted_wrt (\<lambda>a b. instant (ep_timestamp a) \<le> instant (ep_timestamp b)) curve"
  shows "\<exists>bs. bucket_performance g curve = Inr bs"
proof -
  obtain p ps where c: "curve = p # ps" using assms(1) by (cases curve) (auto simp: curve_ok_def)
  have "validate_equity_curve curve = Inr ()" using assms(1) by (auto simp: validate_equity_curve_def curve_ok_def list_all_iff result_simps)
  moreover have "\<exists>bs. bucket_loop g (Some (point_key g p, [p])) ps = Inr bs"
    by (rule bucket_loop_defined) (use assms c in \<open>auto simp: curve_ok_def list_all_iff\<close>)
  ultimately show ?thesis by (simp add: bucket_performance_def c)
qed

section \<open>Trades of a run in its report\<close>

text \<open>What the report needs of the trades and fills of a run.\<close>

definition trades_ok :: "backtest_run \<Rightarrow> bool" where
  "trades_ok run \<longleftrightarrow>
     list_all fill_money (br_fills run) \<and> map fr_sequence (br_fills run) = [0..<length (br_fills run)]
     \<and> list_all (trade_inv (br_fills run)) (br_trades run) \<and> list_all (\<lambda>f. tz_aware (fr_filled_at f)) (br_fills run)
     \<and> sorted_wrt (\<lambda>a b. instant (fr_filled_at a) \<le> instant (fr_filled_at b)) (br_fills run)"

lemma fill_by_sequence_nth:
  assumes "map fr_sequence fs = [0..<length fs]" "n < length fs"
  shows "fill_by_sequence fs n = Some (fs ! n)"
proof -
  have sq: "fr_sequence (fs ! i) = i" if "i < length fs" for i using assms(1) that by (metis add_0 nth_map nth_upt)
  have "fs ! n \<in> set (rev fs)" "fr_sequence (fs ! n) = n" using assms(2) sq by simp_all
  then have "find (\<lambda>f. fr_sequence f = n) (rev fs) \<noteq> None" unfolding find_None_iff by blast
  then obtain f where f: "find (\<lambda>f. fr_sequence f = n) (rev fs) = Some f" by blast
  then obtain i where "i < length fs" "f = rev fs ! i" "fr_sequence f = n" by (auto simp: find_Some_iff)
  then show ?thesis using f sq [of "length fs - Suc i"] by (simp add: fill_by_sequence_def rev_nth)
qed

lemma exit_fills_nth:
  assumes "map fr_sequence fs = [0..<length fs]" "list_all (\<lambda>n. n < length fs) ns"
  shows "exit_fills fs ns = Inr (map ((!) fs) ns)"
  using assms(2) by (induction ns) (simp_all add: fill_by_sequence_nth [OF assms(1)])

lemma max_opt_in: "max_opt lt xs = Some x \<Longrightarrow> x \<in> set xs"
proof -
  have "foldl (\<lambda>best y. if lt best y then y else best) x ys \<in> set (x # ys)" for x ys
    by (induction ys arbitrary: x) (simp_all, meson)
  then show "max_opt lt xs = Some x \<Longrightarrow> x \<in> set xs" by (cases xs) (auto simp: max_opt_def)
qed

lemma latest_in: "xs \<noteq> [] \<Longrightarrow> latest xs \<in> set xs"
  using max_opt_in [of "\<lambda>a b. instant (fr_filled_at a) < instant (fr_filled_at b)" xs] by (cases xs) (auto simp: latest_def max_opt_def)

lemma trade_times:
  assumes "trades_ok run" "t \<in> set (br_trades run)"
  obtains entry exits where "fill_by_sequence (br_fills run) (tr_entry_fill_sequence t) = Some entry"
    "exit_fills (br_fills run) (tr_exit_fill_sequences t) = Inr exits" "exits \<noteq> []" "tr_exit_fill_sequences t \<noteq> []"
    "entry \<in> set (br_fills run)" "set exits \<subseteq> set (br_fills run)"
    "tz_aware (fr_filled_at entry)" "tz_aware (fr_filled_at (latest exits))" "instant (fr_filled_at entry) \<le> instant (fr_filled_at (latest exits))"
proof -
  let ?fs = "br_fills run"
  have sq: "map fr_sequence ?fs = [0..<length ?fs]" and aw: "list_all (\<lambda>f. tz_aware (fr_filled_at f)) ?fs"
    and so: "sorted_wrt (\<lambda>a b. instant (fr_filled_at a) \<le> instant (fr_filled_at b)) ?fs" and ti: "trade_inv ?fs t"
    using assms by (auto simp: trades_ok_def list_all_iff)
  define e xs where "e = tr_entry_fill_sequence t" and "xs = tr_exit_fill_sequences t"
  have e: "e < length ?fs" and x: "list_all (\<lambda>n. n < length ?fs) xs" "xs \<noteq> []" "\<And>n. n \<in> set xs \<Longrightarrow> e < n"
    using ti by (auto simp: trade_inv_def joined_def list_all_iff e_def xs_def)
  have ex: "set (map ((!) ?fs) xs) \<subseteq> set ?fs" using x(1) by (auto simp: list_all_iff)
  have "latest (map ((!) ?fs) xs) \<in> set (map ((!) ?fs) xs)" by (rule latest_in) (simp add: x(2))
  then obtain n where n: "n \<in> set xs" "latest (map ((!) ?fs) xs) = ?fs ! n" by auto
  then have "n < length ?fs" "e < n" using x by (auto simp: list_all_iff)
  then have "instant (fr_filled_at (?fs ! e)) \<le> instant (fr_filled_at (?fs ! n))" "tz_aware (fr_filled_at (?fs ! n))" "tz_aware (fr_filled_at (?fs ! e))"
    using so aw e by (auto simp: sorted_wrt_iff_nth_less list_all_length)
  then show thesis
    using fill_by_sequence_nth [OF sq e] exit_fills_nth [OF sq x(1)] x(2) e ex n(2)
    by (intro that [of "?fs ! e" "map ((!) ?fs) xs"]) (simp_all add: e_def xs_def)
qed

lemma trade_durations_defined: "trades_ok run \<Longrightarrow> set ts \<subseteq> set (br_trades run) \<Longrightarrow> \<exists>ds. trade_durations (br_fills run) ts = Inr ds"
proof (induction ts)
  case (Cons t ts)
  then have "t \<in> set (br_trades run)" by simp
  from trade_times [OF Cons.prems(1) this] obtain entry exits where
    "fill_by_sequence (br_fills run) (tr_entry_fill_sequence t) = Some entry"
    "exit_fills (br_fills run) (tr_exit_fill_sequences t) = Inr exits" "tr_exit_fill_sequences t \<noteq> []"
    "tz_aware (fr_filled_at entry)" "tz_aware (fr_filled_at (latest exits))" "instant (fr_filled_at entry) \<le> instant (fr_filled_at (latest exits))" .
  then have "\<exists>d. trade_duration (br_fills run) t = Inr d" by (simp add: trade_duration_def datetime_diff_def)
  then show ?case using Cons by auto
qed simp

lemma reconstruct_trade_defined:
  assumes "trades_ok run" "t \<in> set (br_trades run)"
  shows "\<exists>r. reconstruct_trade run symbol timeframe t = Inr r"
proof -
  from trade_times [OF assms] obtain entry exits where
    r: "fill_by_sequence (br_fills run) (tr_entry_fill_sequence t) = Some entry"
    "exit_fills (br_fills run) (tr_exit_fill_sequences t) = Inr exits" "exits \<noteq> []"
    "entry \<in> set (br_fills run)" "set exits \<subseteq> set (br_fills run)"
    "tz_aware (fr_filled_at entry)" "tz_aware (fr_filled_at (latest exits))" "instant (fr_filled_at entry) \<le> instant (fr_filled_at (latest exits))" .
  have money: "\<And>f. f \<in> set (br_fills run) \<Longrightarrow> fill_money f" and ti: "trade_inv (br_fills run) t"
    using assms by (auto simp: trades_ok_def list_all_iff)
  have j: "0 < dval (tr_quantity t)" "0 < dval (tr_entry_price t)"
    using ti joined_quantity [of "br_fills run"] assms(1) by (auto simp: trade_inv_def trades_ok_def)
  have t: "0 < dval (tr_exit_price t)" "0 \<le> dval (tr_entry_cost t + tr_exit_cost t)" using ti by (auto simp: trade_inv_def decimal_plus_nonneg)
  have s1: "0 \<le> dval (fr_slippage_per_share entry * tr_quantity t)"
    using money [OF r(4)] j by (simp add: fill_money_def decimal_times_nonneg)
  have s2: "0 \<le> dval (dsum (map (\<lambda>f. fr_slippage_per_share f * fr_quantity f) exits))"
    using money r(5) by (intro dsum_nonneg) (auto intro: fill_slippage_cost)
  show ?thesis using r j t s1 s2 decimal_plus_nonneg [OF s1 s2]
    by (auto simp: reconstruct_trade_def mk_reconstruction_def Let_def decimal_order)
qed

lemma reconstructions_defined:
  assumes "trades_ok run"
  shows "\<exists>rs. build_trade_reconstructions run symbol timeframe = Inr rs"
proof -
  have "set ts \<subseteq> set (br_trades run) \<Longrightarrow> \<exists>rs. reconstruct_trades run symbol timeframe ts = Inr rs" for ts
  proof (induction ts)
    case (Cons t ts)
    then show ?case using reconstruct_trade_defined [OF assms, of t symbol timeframe] by auto
  qed simp
  moreover have "distinct (map fr_sequence (br_fills run))" using assms by (simp add: trades_ok_def)
  ultimately show ?thesis by (auto simp: build_trade_reconstructions_def)
qed

lemma positive_mean:
  assumes "\<And>d. d \<in> set ds \<Longrightarrow> 0 < dval d"
  obtains q where "divide_if (0 < length ds) (dsum ds) (dnat (length ds)) = Inr q" "pred_option (\<lambda>v. 0 < dval v) q"
proof (cases "ds = []")
  case False
  then have "0 < dval (dsum ds)" "0 < dval (dnat (length ds))" using dsum_pos [OF False assms] by auto
  moreover from this obtain q where "ddiv (dsum ds) (dnat (length ds)) = Some q" "0 < dval q"
    using ddiv_defined [of "dnat (length ds)" "dsum ds"] ddiv_pos [of "dsum ds" "dnat (length ds)"] by blast
  ultimately show thesis using that [of "Some q"] False by (simp add: divide_if_def divide_by_def)
qed (use that [of None] in \<open>simp add: divide_if_def\<close>)

lemma divide_opt_defined: "pred_option (\<lambda>v. 0 < dval v) b \<Longrightarrow> \<exists>q. divide_opt a b = Inr q"
  using divide_by_defined [of "the b" "the a"] by (cases a; cases b) (auto simp: divide_opt_def)

lemma largest_nonneg: "(\<And>d. d \<in> set ds \<Longrightarrow> 0 < dval d) \<Longrightarrow> pred_option (\<lambda>v. 0 \<le> v) (max_opt (<) ds)"
  using max_opt_in [of "(<)" ds] by (cases "max_opt (<) ds") (auto simp: decimal_order less_imp_le)

lemma uminus_pos: "dval d < 0 \<Longrightarrow> 0 < dval (- d)"
  using dfix_pos [of "Dec (- coeff d) (expo d)"] by (simp add: uminus_decimal_def dneg_def dval_pos_iff dval_neg_iff)

lemma statistics_defined:
  assumes "trades_ok run" "compute_metrics run rf = Inr m" "0 \<le> mdd"
  shows "\<exists>s. compute_trade_statistics run m mdd = Inr s"
proof -
  let ?n = "length (br_trades run)" and ?pnl = "map tr_realized_pnl (br_trades run)"
  let ?ws = "filter (\<lambda>p. 0 < p) ?pnl" and ?ls = "map uminus (filter (\<lambda>p. p < 0) ?pnl)"
  have m: "bm_wins m = length ?ws" "bm_losses m = length ?ls" "bm_gross_profit m = dsum ?ws" "bm_gross_loss m = dsum ?ls"
    using assms(2) by (auto simp: compute_metrics_def Let_def rbind_eq_Inr)
  have pos: "\<And>d. d \<in> set ?ws \<Longrightarrow> 0 < dval d" "\<And>d. d \<in> set ?ls \<Longrightarrow> 0 < dval d" by (auto simp: decimal_order uminus_pos)
  obtain aw where aw: "divide_if (0 < length ?ws) (dsum ?ws) (dnat (length ?ws)) = Inr aw" "pred_option (\<lambda>v. 0 < dval v) aw"
    by (rule positive_mean [OF pos(1)])
  obtain al where al: "divide_if (0 < length ?ls) (dsum ?ls) (dnat (length ?ls)) = Inr al" "pred_option (\<lambda>v. 0 < dval v) al"
    by (rule positive_mean [OF pos(2)])
  obtain lr ex where q: "divide_if (0 < ?n) (dnat (length ?ls)) (dnat ?n) = Inr lr" "divide_if (0 < ?n) (dsum ?pnl) (dnat ?n) = Inr ex"
    using divide_if_defined [of "0 < ?n" "dnat ?n"] by fastforce
  obtain rr where rr: "divide_opt aw al = Inr rr"
    using al(2) divide_opt_defined by blast
  obtain rf where rf: "divide_if (0 < ?n \<and> 0 < mdd) (dsum ?pnl) mdd = Inr rf"
    using divide_if_defined [of "0 < ?n \<and> 0 < mdd" mdd] by (fastforce simp: decimal_order)
  obtain du where du: "(if 0 < ?n then average_trade_duration run else Inr None) = Inr du"
    using trade_durations_defined [OF assms(1) order_refl] assms(1)
    by (fastforce simp: average_trade_duration_def trades_ok_def Let_def)
  have "0 \<le> dval (total_commission run)" "0 \<le> dval (total_slippage_cost run)"
    using assms(1) fill_slippage_cost unfolding total_commission_def total_slippage_cost_def
    by (auto intro!: dsum_nonneg simp: trades_ok_def list_all_iff fill_money_def)
  moreover have "pred_option (\<lambda>v. 0 \<le> v) (max_opt (<) ?ws)" "pred_option (\<lambda>v. 0 \<le> v) (max_opt (<) ?ls)"
    using largest_nonneg pos by blast+
  moreover have "pred_option (\<lambda>v. 0 \<le> v) aw" "pred_option (\<lambda>v. 0 \<le> v) al"
    using aw(2) al(2) by (auto simp: option.pred_set decimal_order less_imp_le)
  ultimately show ?thesis
    using aw(1) al(1) q rr rf du assms(3)
    by (simp add: compute_trade_statistics_def m Let_def mk_trade_statistics_def decimal_order)
qed

section \<open>The report of a run\<close>

lemma report_of_parts:
  assumes "curve_ok (br_equity_curve run)"
    "sorted_wrt (\<lambda>a b. instant (ep_timestamp a) \<le> instant (ep_timestamp b)) (br_equity_curve run)"
    "trades_ok run" "0 < br_initial_capital run" "0 \<le> rf"
    "br_input_sha256 run \<noteq> []" "br_dataset_id run \<noteq> []" "br_source run \<noteq> []"
  shows "\<exists>r. build_report run rf symbol timeframe = Inr r"
proof -
  let ?c = "br_equity_curve run"
  obtain m where m: "compute_metrics run rf = Inr m" "0 \<le> bm_max_drawdown m" "bm_max_drawdown m \<le> 1"
    by (rule metrics_defined [OF assms(1,4,5)])
  obtain rs where rs: "compute_period_returns ?c = Inr rs" using period_returns_defined [OF assms(1)] by blast
  obtain ds where ds: "compute_drawdown_series ?c = Inr ds" "list_all (\<lambda>d. 0 \<le> dp_drawdown_amount d) ds"
    by (rule series_defined [OF assms(1)])
  define mdd where "mdd = (case max_opt (<) (map dp_drawdown_amount ds) of None \<Rightarrow> 0 | Some d \<Rightarrow> d)"
  have mdd: "0 \<le> mdd"
    using ds(2) max_opt_in [of "(<)" "map dp_drawdown_amount ds"]
    by (auto simp: mdd_def list_all_iff decimal_order split: option.splits)
  obtain ts where ts: "compute_trade_statistics run m mdd = Inr ts" using statistics_defined [OF assms(3) m(1) mdd] by blast
  obtain so where so: "compute_sortino_ratio (map rt_value rs) rf = Inr so" using sortino_defined [OF assms(5)] by blast
  obtain ca where ca: "compute_calmar_ratio (bm_total_return m) (bm_max_drawdown m) = Inr ca" using calmar_defined [OF m(2,3)] by blast
  obtain re where re: "build_trade_reconstructions run symbol timeframe = Inr re" using reconstructions_defined [OF assms(3)] by blast
  have b: "\<exists>bs. bucket_performance g ?c = Inr bs" for g by (rule buckets_defined [OF assms(1,2)])
  obtain d1 d2 d3 where b: "bucket_performance DAILY ?c = Inr d1" "bucket_performance MONTHLY ?c = Inr d2" "bucket_performance YEARLY ?c = Inr d3"
    using b by blast
  have v: "validate_equity_curve ?c = Inr ()" "?c \<noteq> []"
    using assms(1) by (auto simp: validate_equity_curve_def curve_ok_def list_all_iff result_simps)
  show ?thesis using m(1) rs ds(1) ts so ca re b v assms(4-8)
    by (simp add: build_report_def validate_rf_def mk_backtest_report_def mdd_def Let_def)
qed

lemma fill_times_sorted:
  assumes "in_order rs is fs" "strictly_after is" "sorted_wrt (\<lambda>a b. rec_time a < rec_time b) rs"
  shows "sorted_wrt (\<lambda>a b. instant (fr_filled_at a) \<le> instant (fr_filled_at b)) fs"
proof -
  have "instant (fr_filled_at f) \<le> instant (fr_filled_at g)"
    if f: "f \<in> set fs" and g: "g \<in> set fs" and lt: "fr_intent_index f < fr_intent_index g" for f g
  proof -
    have i: "fr_record_index f = anchor_of rs (is ! fr_intent_index f)" "fr_record_index g = anchor_of rs (is ! fr_intent_index g)"
      "fr_intent_index g < length is" "fr_record_index g < length rs"
      "fr_filled_at f = record_timestamp (rs ! fr_record_index f)" "fr_filled_at g = record_timestamp (rs ! fr_record_index g)"
      using assms(1) f g by (auto simp: in_order_def list_all_iff)
    have "fr_record_index f \<le> fr_record_index g" unfolding i(1,2) using anchor_mono [OF assms(2)] lt i(3) by simp
    then have "rec_time (rs ! fr_record_index f) \<le> rec_time (rs ! fr_record_index g)"
      using sorted_wrt_nth_less [OF assms(3), of "fr_record_index f" "fr_record_index g"] i(4)
      by (cases "fr_record_index f = fr_record_index g") auto
    then show ?thesis using i(5,6) by simp
  qed
  then show ?thesis using assms(1) by (auto simp: in_order_def intro: sorted_wrt_mono_rel [rotated])
qed

lemma run_curve:
  assumes "run_backtest sha b is cm capital = Inr R" "series_ok (bi_records b)" "bi_records b \<noteq> []"
    "list_all (\<lambda>p. 0 < ep_equity p) (br_equity_curve R)"
  shows "curve_ok (br_equity_curve R)"
    "sorted_wrt (\<lambda>a b. instant (ep_timestamp a) \<le> instant (ep_timestamp b)) (br_equity_curve R)"
proof -
  let ?rs = "bi_records b"
  note pts = equity_points [OF assms(1)]
  have p: "ep_timestamp (br_equity_curve R ! m) = record_timestamp (?rs ! m)" "fits (ep_equity (br_equity_curve R ! m))" if "m < length ?rs" for m
    using pts(2) [OF that] coeff_plus by (auto simp: mark_point_def)
  have "tz_aware (record_timestamp (?rs ! m))" if "m < length ?rs" for m
    using assms(2) that by (auto simp: series_ok_def list_all_length coherent_def)
  then show "curve_ok (br_equity_curve R)"
    using p pts(1) assms(3,4) by (auto simp: curve_ok_def list_all_length)
  show "sorted_wrt (\<lambda>a b. instant (ep_timestamp a) \<le> instant (ep_timestamp b)) (br_equity_curve R)"
    using assms(2) p(1) pts(1) by (auto simp: series_ok_def sorted_wrt_iff_nth_less less_imp_le)
qed

text \<open>A report over a run of valid intents on an accepted input is built exactly when the risk-free rate is not negative
  and every equity mark is positive: every trade of the run joins to its fills, no division by zero
  and no square root of a negative number occurs, and every part passes its own validation.  The
  digest function must not return the empty text.\<close>

theorem report_built:
  assumes "run_backtest sha b is cm capital = Inr R" "mk_backtest_input b = Inr b" "list_all order_intent_ok is"
    "fits (fc_slippage_bps cm)" "\<And>s. sha s \<noteq> []"
  shows "(\<exists>r. build_report R rf symbol timeframe = Inr r) \<longleftrightarrow> 0 \<le> rf \<and> list_all (\<lambda>p. 0 < ep_equity p) (br_equity_curve R)"
proof
  assume "\<exists>r. build_report R rf symbol timeframe = Inr r"
  then show "0 \<le> rf \<and> list_all (\<lambda>p. 0 < ep_equity p) (br_equity_curve R)"
    by (auto simp: build_report_def validate_rf_def validate_equity_curve_def result_simps)
next
  assume pos: "0 \<le> rf \<and> list_all (\<lambda>p. 0 < ep_equity p) (br_equity_curve R)"
  have b: "\<not> blank (bi_dataset_id b)" "\<not> blank (bi_source b)" "bi_records b \<noteq> []" "series_ok (bi_records b)"
    using assms(2) by (simp_all add: backtest_input_exact)
  have c: "0 < capital" "strictly_after is" and R: "br_initial_capital R = capital" "br_input_sha256 R = content_sha256 sha (bi_records b)"
    "br_dataset_id R = bi_dataset_id b" "br_source R = bi_source b"
    using assms(1) by (elim run_backtest_parts; simp)+
  note curve = run_curve [OF assms(1) b(4,3)]
  have sorted: "sorted_wrt (\<lambda>a b. rec_time a < rec_time b) (bi_records b)" using b(4) by (simp add: series_ok_def)
  have "list_all (\<lambda>f. tz_aware (fr_filled_at f)) (br_fills R)"
    using run_in_order [OF assms(1)] b(4) by (auto simp: in_order_def series_ok_def coherent_def list_all_iff)
  then have "trades_ok R"
    using run_linked [OF assms(1,3,4)] fill_times_sorted [OF run_in_order [OF assms(1)] c(2) sorted] by (simp add: trades_ok_def)
  then show "\<exists>r. build_report R rf symbol timeframe = Inr r"
    using curve pos c(1) b(1,2) assms(5) by (intro report_of_parts) (auto simp: R content_sha256_def blank_def)
qed

theorem report_built_witness:
  "\<exists>r. build_report (sample_result (\<lambda>_. ''x'') 9) 0 None None = Inr r"
proof -
  have run: "run_backtest (\<lambda>_. ''x'') (sample_input 9) [backtest_intent] backtest_costs (Dec 100 0) = Inr (sample_result (\<lambda>_. ''x'') 9)"
    by (rule sample_run) simp
  have input: "mk_backtest_input (sample_input 9) = Inr (sample_input 9)"
    by (simp add: backtest_input_exact series_ok_def coherent_def backtest_sample_defs blank_def is_space_def)
  have "fits (fc_slippage_bps backtest_costs)" by (simp add: backtest_costs_def)
  from report_built [OF run input backtest_intent_ok this, of 0 None None] show ?thesis
    by (simp add: sample_result_def decimal_order dval_def decimal_eval zero_decimal_def)
qed

text \<open>Without the bound on the digits of the rate the price can become zero: a rate just below 10000 basis points is
  accepted, but the quotient rounds to 1, and a SELL at any anchor fills at price 0.\<close>

lemma slippage_rounds_to_zero:
  defines "bps \<equiv> Dec (10 ^ 32 - 1) (- 28)"
  shows "mk_fill_costs \<lparr>fc_commission_per_fill = 0, fc_slippage_bps = bps\<rparr> = Inr \<lparr>fc_commission_per_fill = 0, fc_slippage_bps = bps\<rparr>"
    "\<exists>p. slipped_price (Dec 100 0) ISELL bps = Inr p \<and> dval p = 0"
proof -
  have v: "dval bps = 10000 - 10 powi (- 28)" by (simp add: bps_def dval_def power_int_def power_divide)
  then have o: "0 \<le> bps" "bps < Dec 10000 0" "\<not> deq bps 0" "0 < Dec 100 0"
    by (simp_all add: decimal_order dval_def [of "Dec _ _"] power_int_def power_divide)
  then show "mk_fill_costs \<lparr>fc_commission_per_fill = 0, fc_slippage_bps = bps\<rparr> = Inr \<lparr>fc_commission_per_fill = 0, fc_slippage_bps = bps\<rparr>"
    by (simp add: mk_fill_costs_def decimal_order)
  have "ddiv bps (Dec 10000 0) = Some (Dec (10 ^ 27) (-27))"
    unfolding bps_def by code_simp
  then show "\<exists>p. slipped_price (Dec 100 0) ISELL bps = Inr p \<and> dval p = 0"
    using o by (simp add: slipped_price_def Let_def decimal_eval one_decimal_def dval_def)
qed

end
