(* ===== verification/Backtest_Portfolio.thy ===== *)
theory Backtest_Portfolio
  imports Backtest_Report "HOL-Library.Product_Lexorder" "HOL-Library.Multiset"
begin

text \<open>
  The multi-symbol simulator, \<^verbatim>\<open>backtesting/alpha_algo_backtest_portfolio\<close>: the capital allocation, the portfolio
  input with its order-free identity, and \<^verbatim>\<open>run_portfolio_backtest\<close>, which replays the records of all
  symbols on one timeline over a shared cash pool.

  The main results: the result does not depend on the order in which the inputs are given; the cash
  never falls below the reserved amount and no position becomes negative, after any prefix of the
  fills in the order in which they were made; and a portfolio of one symbol without reserve and
  budgets makes the same decisions as the single-symbol engine.
\<close>

section \<open>Capital allocation\<close>

record capital_allocation =
  ca_initial_capital :: decimal
  ca_reserved_cash :: decimal
  ca_per_symbol_budget :: "(string \<times> decimal) list"

abbreviation portfolio_guard :: "bool \<Rightarrow> string \<Rightarrow> (backtest_error, unit) result" where
  "portfolio_guard c msg \<equiv> guard c (PortfolioBacktestError msg)"

fun check_budgets :: "string list \<Rightarrow> (string \<times> decimal) list \<Rightarrow> (backtest_error, unit) result" where
  "check_budgets seen [] = Inr ()"
| "check_budgets seen ((symbol, budget) # ps) =
     rbind (portfolio_guard (symbol \<noteq> []) ''budget symbol must be a non-empty string'') (\<lambda>_.
     rbind (portfolio_guard (symbol \<notin> set seen) ''per_symbol_budget symbols must be unique'') (\<lambda>_.
     rbind (portfolio_guard (0 < budget) ''budget must be a positive finite Decimal'') (\<lambda>_.
     check_budgets (symbol # seen) ps)))"

definition mk_capital_allocation :: "capital_allocation \<Rightarrow> (backtest_error, capital_allocation) result" where
  "mk_capital_allocation a =
     rbind (portfolio_guard (0 < ca_initial_capital a) ''initial_capital must be a positive finite Decimal'') (\<lambda>_.
     rbind (portfolio_guard (0 \<le> ca_reserved_cash a) ''reserved_cash must be a non-negative finite Decimal'') (\<lambda>_.
     rbind (portfolio_guard (\<not> ca_initial_capital a < ca_reserved_cash a) ''reserved_cash must not exceed initial_capital'') (\<lambda>_.
     rbind (check_budgets [] (ca_per_symbol_budget a)) (\<lambda>_. Inr a))))"

definition budget_for :: "capital_allocation \<Rightarrow> string \<Rightarrow> decimal option" where
  "budget_for a symbol = map_of (ca_per_symbol_budget a) symbol"

section \<open>Portfolio input\<close>

record portfolio_input =
  pi_inputs :: "backtest_input list"

definition input_symbol :: "backtest_input \<Rightarrow> string" where
  "input_symbol b = rec_symbol (hd (bi_records b))"

definition mk_portfolio_input :: "portfolio_input \<Rightarrow> (backtest_error, portfolio_input) result" where
  "mk_portfolio_input p =
     rbind (portfolio_guard (pi_inputs p \<noteq> []) ''inputs must be a non-empty tuple of BacktestInput'') (\<lambda>_.
     rbind (portfolio_guard (distinct (map input_symbol (pi_inputs p))) ''portfolio symbols must be unique'') (\<lambda>_.
     rbind (portfolio_guard (distinct (map (\<lambda>b. rec_instrument_id (hd (bi_records b))) (pi_inputs p)))
       ''portfolio instruments must be unique'') (\<lambda>_. Inr p)))"

definition pi_symbols :: "portfolio_input \<Rightarrow> string list" where
  "pi_symbols p = sort (map input_symbol (pi_inputs p))"

text \<open>A dict built from pairs: the last entry of a key stays.\<close>

definition symbol_inputs :: "portfolio_input \<Rightarrow> string \<Rightarrow> backtest_input option" where
  "symbol_inputs p = map_of (rev (map (\<lambda>b. (input_symbol b, b)) (pi_inputs p)))"

definition pi_content_sha256 :: "(string \<Rightarrow> string) \<Rightarrow> portfolio_input \<Rightarrow> string" where
  "pi_content_sha256 sha p =
     sha (join [CHR 0x0A] (sort (map (\<lambda>b. input_symbol b @ ''='' @ content_sha256 sha (bi_records b)) (pi_inputs p))))"

definition pi_dataset_id :: "portfolio_input \<Rightarrow> string" where
  "pi_dataset_id p = ''portfolio:'' @ join '','' (sort (map bi_dataset_id (pi_inputs p)))"

definition pi_source :: "portfolio_input \<Rightarrow> string" where
  "pi_source p = ''portfolio:'' @ join '','' (sorted_list_of_set (set (map bi_source (pi_inputs p))))"

section \<open>Intents and result\<close>

record portfolio_intent =
  pn_symbol :: string
  pn_intent :: order_intent

record portfolio_trade =
  pt_symbol :: string
  pt_trade :: trade_record

record portfolio_result =
  px_input_sha256 :: string
  px_dataset_id :: string
  px_source :: string
  px_initial_capital :: decimal
  px_reserved_cash :: decimal
  px_cost_model :: cost_model
  px_symbols :: "string list"
  px_intents :: "portfolio_intent list"
  px_outcomes :: "fill_outcome list"
  px_trades :: "portfolio_trade list"
  px_equity_curve :: "equity_point list"

definition mk_portfolio_intent :: "portfolio_intent \<Rightarrow> (backtest_error, portfolio_intent) result" where
  "mk_portfolio_intent i = rbind (portfolio_guard (pn_symbol i \<noteq> []) ''symbol must be a non-empty string'') (\<lambda>_. Inr i)"

definition mk_portfolio_result :: "portfolio_result \<Rightarrow> (backtest_error, portfolio_result) result" where
  "mk_portfolio_result r =
     rbind (portfolio_guard (0 < px_initial_capital r) ''initial_capital must be a positive finite Decimal'') (\<lambda>_.
     rbind (portfolio_guard (0 \<le> px_reserved_cash r) ''reserved_cash must be a non-negative finite Decimal'') (\<lambda>_.
     rbind (portfolio_guard (px_symbols r \<noteq> []) ''symbols must be a non-empty tuple'') (\<lambda>_.
     rbind (portfolio_guard (length (px_outcomes r) = length (px_intents r)) ''outcomes must be 1:1 with intents'') (\<lambda>_.
     rbind (portfolio_guard (px_equity_curve r \<noteq> []) ''equity_curve must be a non-empty tuple of PortfolioEquityPoint'') (\<lambda>_.
     Inr r)))))"

definition px_fills :: "portfolio_result \<Rightarrow> fill_record list" where
  "px_fills r = List.map_filter (\<lambda>f. if fo_filled f then fo_fill f else None) (px_outcomes r)"

definition px_final_equity :: "portfolio_result \<Rightarrow> decimal" where
  "px_final_equity r = ep_equity (last (px_equity_curve r))"

definition px_total_commission :: "portfolio_result \<Rightarrow> decimal" where
  "px_total_commission r = dsum (map fr_commission_amount (px_fills r))"

definition px_total_slippage_cost :: "portfolio_result \<Rightarrow> decimal" where
  "px_total_slippage_cost r = dsum (map (\<lambda>f. fr_slippage_per_share f * fr_quantity f) (px_fills r))"

section \<open>The run\<close>

fun portfolio_mark :: "market_record \<Rightarrow> (backtest_error, decimal) result" where
  "portfolio_mark (Candle c) =
     rbind (portfolio_guard (0 < cd_close_price c) ''mark price must be a positive finite Decimal'') (\<lambda>_. Inr (cd_close_price c))"
| "portfolio_mark (Tick t) =
     rbind (portfolio_guard (0 < tk_ltp t) ''mark price must be a positive finite Decimal'') (\<lambda>_. Inr (tk_ltp t))"

fun known_symbols :: "(string \<Rightarrow> backtest_input option) \<Rightarrow> portfolio_intent list \<Rightarrow> (backtest_error, unit) result" where
  "known_symbols inputs [] = Inr ()"
| "known_symbols inputs (i # is) =
     (if inputs (pn_symbol i) = None
      then Inl (PortfolioBacktestError (''intent references unknown symbol '' @ pn_symbol i)) else known_symbols inputs is)"

text \<open>The intents of a symbol with their positions, in the order of their decisions.\<close>

definition symbol_group :: "portfolio_intent list \<Rightarrow> string \<Rightarrow> (nat \<times> order_intent) list" where
  "symbol_group is s =
     sort_key (\<lambda>(j, i). instant (oi_decided_at i))
       (map (\<lambda>j. (j, pn_intent (is ! j))) (filter (\<lambda>j. pn_symbol (is ! j) = s) [0..<length is]))"

fun groups_ascending :: "portfolio_intent list \<Rightarrow> string list \<Rightarrow> (backtest_error, unit) result" where
  "groups_ascending is [] = Inr ()"
| "groups_ascending is (s # ss) =
     (if strictly_after (map snd (symbol_group is s)) then groups_ascending is ss
      else Inl (PortfolioBacktestError (''intents for symbol '' @ s @ '' must be sorted by strictly ascending decided_at'')))"

text \<open>Anchoring of the intents of one symbol.\<close>

fun anchor_group ::
  "market_record list \<Rightarrow> nat \<Rightarrow> (nat \<times> order_intent) list \<Rightarrow> nat list list \<Rightarrow> fill_outcome option list
   \<Rightarrow> nat list list \<times> fill_outcome option list" where
  "anchor_group rs cursor [] anchored outcomes = (anchored, outcomes)"
| "anchor_group rs cursor ((j, i) # is) anchored outcomes =
     (let c = seek rs cursor (instant (oi_decided_at i)) in
      if c < length rs
      then anchor_group rs c is (anchored[c := anchored ! c @ [j]]) outcomes
      else anchor_group rs c is anchored (outcomes[j := Some (unfilled_outcome j NO_RECORD_AFTER_DECISION)]))"

fun anchor_symbols ::
  "(string \<Rightarrow> market_record list) \<Rightarrow> portfolio_intent list \<Rightarrow> string list \<Rightarrow> (string \<Rightarrow> nat list list) \<Rightarrow> fill_outcome option list
   \<Rightarrow> (string \<Rightarrow> nat list list) \<times> fill_outcome option list" where
  "anchor_symbols recs is [] anchored outcomes = (anchored, outcomes)"
| "anchor_symbols recs is (s # ss) anchored outcomes =
     (let (a, outs) = anchor_group (recs s) 0 (symbol_group is s) (replicate (length (recs s)) []) outcomes in
      anchor_symbols recs is ss (anchored(s := a)) outs)"

definition timeline :: "(string \<Rightarrow> market_record list) \<Rightarrow> string list \<Rightarrow> (datetime \<times> string \<times> nat \<times> market_record) list" where
  "timeline recs symbols =
     sort_key (\<lambda>(t, s, i, r). (instant t, s))
       (concat (map (\<lambda>s. map (\<lambda>i. (record_timestamp (recs s ! i), s, i, recs s ! i)) [0..<length (recs s)]) symbols))"

record portfolio_state =
  ps_cash :: decimal
  ps_position :: "string \<Rightarrow> decimal"
  ps_last_mark :: "string \<Rightarrow> decimal option"
  ps_sequence :: nat
  ps_trades :: "portfolio_trade list"
  ps_ledgers :: "string \<Rightarrow> fifo_ledger"
  ps_outcomes :: "fill_outcome option list"

definition portfolio_start :: "capital_allocation \<Rightarrow> fill_outcome option list \<Rightarrow> portfolio_state" where
  "portfolio_start a outcomes =
     \<lparr>ps_cash = ca_initial_capital a, ps_position = (\<lambda>_. 0), ps_last_mark = (\<lambda>_. None), ps_sequence = 0, ps_trades = [],
      ps_ledgers = (\<lambda>_. empty_ledger), ps_outcomes = outcomes\<rparr>"

text \<open>The allocation refuses a fill that would leave less than the reserve, and a BUY above the budget of its symbol.\<close>

definition refused :: "nat \<Rightarrow> decimal \<Rightarrow> decimal \<Rightarrow> fill_evaluation" where
  "refused j cash position =
     \<lparr>fe_outcome = unfilled_outcome j INSUFFICIENT_CASH, fe_fill = None, fe_cash = cash, fe_position = position\<rparr>"

definition reserve_check :: "capital_allocation \<Rightarrow> nat \<Rightarrow> decimal \<Rightarrow> decimal \<Rightarrow> fill_evaluation \<Rightarrow> fill_evaluation" where
  "reserve_check a j cash position ev =
     (if fe_fill ev \<noteq> None \<and> fe_cash ev < ca_reserved_cash a then refused j cash position else ev)"

definition budget_check ::
  "capital_allocation \<Rightarrow> string \<Rightarrow> nat \<Rightarrow> decimal \<Rightarrow> decimal \<Rightarrow> fill_evaluation \<Rightarrow> fill_evaluation" where
  "budget_check a s j cash position ev =
     (case (fe_fill ev, budget_for a s) of
        (Some f, Some budget) \<Rightarrow> if fr_side f = IBUY \<and> budget < fr_gross_value f then refused j cash position else ev
      | _ \<Rightarrow> ev)"

text \<open>The outcome is recorded, and a fill changes the ledger, the cash and the position.\<close>

definition settle_portfolio_fill :: "string \<Rightarrow> portfolio_state \<Rightarrow> nat \<Rightarrow> fill_evaluation \<Rightarrow> (backtest_error, portfolio_state) result" where
  "settle_portfolio_fill s st j ev =
     (let st1 = st\<lparr>ps_outcomes := (ps_outcomes st)[j := Some (fe_outcome ev)]\<rparr> in
      case fe_fill ev of
        None \<Rightarrow> Inr st1
      | Some f \<Rightarrow>
          (let st2 = st1\<lparr>ps_sequence := Suc (ps_sequence st1)\<rparr> in
           rbind (case fr_side f of
               IBUY \<Rightarrow> rbind (open_lot (ps_ledgers st2 s) f) (\<lambda>led. Inr (st2\<lparr>ps_ledgers := (ps_ledgers st2)(s := led)\<rparr>))
             | ISELL \<Rightarrow> rbind (close_lots (ps_ledgers st2 s) f) (\<lambda>(led, ts).
                 Inr (st2\<lparr>ps_ledgers := (ps_ledgers st2)(s := led),
                   ps_trades := ps_trades st2 @ map (\<lambda>t. \<lparr>pt_symbol = s, pt_trade = t\<rparr>) ts\<rparr>))) (\<lambda>st3.
           Inr (st3\<lparr>ps_cash := fe_cash ev, ps_position := (ps_position st3)(s := fe_position ev)\<rparr>))))"

definition apply_portfolio_intent ::
  "portfolio_intent list \<Rightarrow> cost_model \<Rightarrow> capital_allocation \<Rightarrow> string \<Rightarrow> market_record \<Rightarrow> nat \<Rightarrow> portfolio_state \<Rightarrow> nat
   \<Rightarrow> (backtest_error, portfolio_state) result" where
  "apply_portfolio_intent is cm a s r k st j =
     (let cash = ps_cash st; position = ps_position st s in
      rbind (evaluate_fill (pn_intent (is ! j)) r k cash position cm (ps_sequence st) j) (\<lambda>ev.
      settle_portfolio_fill s st j (budget_check a s j cash position (reserve_check a j cash position ev))))"

fun apply_portfolio_intents ::
  "portfolio_intent list \<Rightarrow> cost_model \<Rightarrow> capital_allocation \<Rightarrow> string \<Rightarrow> market_record \<Rightarrow> nat \<Rightarrow> portfolio_state \<Rightarrow> nat list
   \<Rightarrow> (backtest_error, portfolio_state) result" where
  "apply_portfolio_intents is cm a s r k st [] = Inr st"
| "apply_portfolio_intents is cm a s r k st (j # js) =
     rbind (apply_portfolio_intent is cm a s r k st j) (\<lambda>st'. apply_portfolio_intents is cm a s r k st' js)"

fun market_value :: "(string \<Rightarrow> decimal) \<Rightarrow> (string \<Rightarrow> decimal option) \<Rightarrow> decimal \<Rightarrow> string list \<Rightarrow> (backtest_error, decimal) result" where
  "market_value position marks v [] = Inr v"
| "market_value position marks v (s # ss) =
     (if deq (position s) 0 then market_value position marks v ss
      else rbind (of_opt (PortfolioBacktestError ''internal error: position without a mark'') (marks s)) (\<lambda>m.
           market_value position marks (v + position s * m) ss))"

fun timeline_loop ::
  "portfolio_intent list \<Rightarrow> cost_model \<Rightarrow> capital_allocation \<Rightarrow> string list \<Rightarrow> (string \<Rightarrow> nat list list) \<Rightarrow> nat
   \<Rightarrow> (datetime \<times> string \<times> nat \<times> market_record) list \<Rightarrow> portfolio_state \<Rightarrow> equity_point list
   \<Rightarrow> (backtest_error, portfolio_state \<times> equity_point list) result" where
  "timeline_loop is cm a symbols anchored k [] st eq = Inr (st, eq)"
| "timeline_loop is cm a symbols anchored k ((t, s, i, r) # es) st eq =
     rbind (portfolio_mark r) (\<lambda>m.
     rbind (apply_portfolio_intents is cm a s r k (st\<lparr>ps_last_mark := (ps_last_mark st)(s \<mapsto> m)\<rparr>) (anchored s ! i)) (\<lambda>st'.
     rbind (market_value (ps_position st') (ps_last_mark st') 0 symbols) (\<lambda>v.
     timeline_loop is cm a symbols anchored (Suc k) es st'
       (eq @ [\<lparr>ep_timestamp = t, ep_equity = ps_cash st' + v\<rparr>]))))"

definition run_portfolio_backtest ::
  "(string \<Rightarrow> string) \<Rightarrow> portfolio_input \<Rightarrow> portfolio_intent list \<Rightarrow> cost_model \<Rightarrow> capital_allocation
   \<Rightarrow> (backtest_error, portfolio_result) result" where
  "run_portfolio_backtest sha p is cm a =
     (let symbols = pi_symbols p; recs = (\<lambda>s. case symbol_inputs p s of None \<Rightarrow> [] | Some b \<Rightarrow> bi_records b) in
      rbind (known_symbols (symbol_inputs p) is) (\<lambda>_.
      rbind (groups_ascending is symbols) (\<lambda>_.
      let (anchored, outcomes) = anchor_symbols recs is symbols (\<lambda>_. []) (replicate (length is) None) in
      rbind (timeline_loop is cm a symbols anchored 0 (timeline recs symbols) (portfolio_start a outcomes) []) (\<lambda>(st, equity).
      rbind (portfolio_guard (list_all (\<lambda>f. f \<noteq> None) (ps_outcomes st)) ''internal error: every intent must have exactly one outcome'') (\<lambda>_.
      mk_portfolio_result \<lparr>px_input_sha256 = pi_content_sha256 sha p, px_dataset_id = pi_dataset_id p, px_source = pi_source p,
        px_initial_capital = ca_initial_capital a, px_reserved_cash = ca_reserved_cash a, px_cost_model = cm,
        px_symbols = symbols, px_intents = is, px_outcomes = map the (ps_outcomes st), px_trades = ps_trades st,
        px_equity_curve = equity\<rparr>)))))"

section \<open>The order of the inputs does not matter\<close>

lemma sort_map_mset: "mset xs = mset ys \<Longrightarrow> sort (map f xs) = sort (map f ys)"
  by (rule properties_for_sort) simp_all

lemma distinct_map_mset: "mset xs = mset ys \<Longrightarrow> distinct (map f xs) \<longleftrightarrow> distinct (map f ys)"
  by (metis mset_eq_imp_distinct_iff mset_map)

lemma map_of_mset:
  assumes "mset ps = mset qs" "distinct (map fst ps)"
  shows "map_of ps = map_of qs"
proof -
  have "distinct (map fst qs)" using assms distinct_map_mset [OF assms(1), of fst] by blast
  then show ?thesis using map_of_inject_set [OF assms(2), of qs] mset_eq_setD [OF assms(1)] by blast
qed

text \<open>The result of a run does not depend on the order of the inputs.\<close>

theorem portfolio_input_order_free:
  assumes "mk_portfolio_input p = Inr p" "mset (pi_inputs q) = mset (pi_inputs p)"
  shows "mk_portfolio_input q = Inr q \<and> run_portfolio_backtest sha q is cm a = run_portfolio_backtest sha p is cm a"
proof -
  have d: "distinct (map input_symbol (pi_inputs p))" and ok: "pi_inputs p \<noteq> []" "distinct (map (\<lambda>b. rec_instrument_id (hd (bi_records b))) (pi_inputs p))"
    using assms(1) by (auto simp: mk_portfolio_input_def result_simps)
  note q = distinct_map_mset [OF assms(2)] sort_map_mset [OF assms(2)]
  have "mset (rev (map (\<lambda>b. (input_symbol b, b)) (pi_inputs q))) = mset (rev (map (\<lambda>b. (input_symbol b, b)) (pi_inputs p)))"
    using assms(2) by simp
  moreover have "distinct (map fst (rev (map (\<lambda>b. (input_symbol b, b)) (pi_inputs q))))"
    using d q(1) [of input_symbol] by (simp add: rev_map [symmetric] comp_def)
  ultimately have "symbol_inputs q = symbol_inputs p" unfolding symbol_inputs_def by (rule map_of_mset)
  moreover have "set (pi_inputs q) = set (pi_inputs p)" using assms(2) by (rule mset_eq_setD)
  ultimately have "run_portfolio_backtest sha q is cm a = run_portfolio_backtest sha p is cm a"
    unfolding run_portfolio_backtest_def pi_symbols_def pi_content_sha256_def pi_dataset_id_def pi_source_def by (simp add: q(2))
  moreover have "pi_inputs q \<noteq> []" using ok(1) assms(2) by auto
  ultimately show ?thesis using d ok(2) q(1) [of input_symbol] q(1) [of "\<lambda>b. rec_instrument_id (hd (bi_records b))"]
    by (simp add: mk_portfolio_input_def)
qed

section \<open>One intent\<close>

lemma apply_portfolio_intent_cases:
  assumes "apply_portfolio_intent is cm a s r k st j = Inr st'"
  obtains (unfilled) out where "st' = st\<lparr>ps_outcomes := (ps_outcomes st)[j := Some out]\<rparr>" "\<not> fo_filled out"
  | (filled) f led ts where
      "st' = st\<lparr>ps_outcomes := (ps_outcomes st)[j := Some (filled_outcome f)], ps_sequence := Suc (ps_sequence st),
         ps_ledgers := (ps_ledgers st)(s := led), ps_trades := ps_trades st @ map (\<lambda>t. \<lparr>pt_symbol = s, pt_trade = t\<rparr>) ts,
         ps_cash := ps_cash st + fr_cash_flow f, ps_position := (ps_position st)(s := signed_position (ps_position st s) f)\<rparr>"
      "\<not> ps_cash st + fr_cash_flow f < ca_reserved_cash a" "fr_side f = ISELL \<Longrightarrow> \<not> ps_position st s < fr_quantity f"
      "fr_sequence f = ps_sequence st" "fr_intent_index f = j" "fr_side f = oi_side (pn_intent (is ! j))"
      "fr_quantity f = oi_quantity (pn_intent (is ! j))"
proof -
  from assms obtain ev where ev: "evaluate_fill (pn_intent (is ! j)) r k (ps_cash st) (ps_position st s) cm (ps_sequence st) j = Inr ev"
    and se: "settle_portfolio_fill s st j (budget_check a s j (ps_cash st) (ps_position st s) (reserve_check a j (ps_cash st) (ps_position st s) ev)) = Inr st'"
    by (auto simp: apply_portfolio_intent_def Let_def rbind_eq_Inr)
  define ev' where "ev' = budget_check a s j (ps_cash st) (ps_position st s) (reserve_check a j (ps_cash st) (ps_position st s) ev)"
  note st = se [folded ev'_def]
  show thesis
  proof (cases "fe_fill ev'")
    case None
    have "\<not> fo_filled (fe_outcome ev')"
      using ev None by (cases rule: evaluate_fill_cases)
        (auto simp: ev'_def budget_check_def reserve_check_def refused_def unfilled_outcome_def split: if_splits option.splits)
    then show ?thesis using st None by (intro unfilled [of "fe_outcome ev'"]) (simp_all add: settle_portfolio_fill_def)
  next
    case (Some f)
    have e: "ev' = ev" "\<not> fe_cash ev < ca_reserved_cash a"
      using Some by (auto simp: ev'_def budget_check_def reserve_check_def refused_def split: if_splits option.splits)
    from ev show ?thesis
    proof (cases rule: evaluate_fill_cases)
      case (unfilled reason)
      then show ?thesis using Some e by simp
    next
      case (filled g)
      then have g: "g = f" using Some e by simp
      note st = st [unfolded e(1) filled(1) g settle_portfolio_fill_def Let_def, simplified]
      show ?thesis
      proof (cases "fr_side f")
        case IBUY
        with st obtain led where "st' = st\<lparr>ps_outcomes := (ps_outcomes st)[j := Some (filled_outcome f)], ps_sequence := Suc (ps_sequence st),
            ps_ledgers := (ps_ledgers st)(s := led), ps_cash := ps_cash st + fr_cash_flow f,
            ps_position := (ps_position st)(s := signed_position (ps_position st s) f)\<rparr>"
          by (auto simp: rbind_eq_Inr)
        then show ?thesis using filled g e IBUY by (intro that(2) [where f = f and led = led and ts = "[]"]) auto
      next
        case ISELL
        with st obtain led ts where "st' = st\<lparr>ps_outcomes := (ps_outcomes st)[j := Some (filled_outcome f)], ps_sequence := Suc (ps_sequence st),
            ps_ledgers := (ps_ledgers st)(s := led), ps_trades := ps_trades st @ map (\<lambda>t. \<lparr>pt_symbol = s, pt_trade = t\<rparr>) ts,
            ps_cash := ps_cash st + fr_cash_flow f, ps_position := (ps_position st)(s := signed_position (ps_position st s) f)\<rparr>"
          by (auto simp: rbind_eq_Inr)
        then show ?thesis using filled g e ISELL by (intro that(2) [where f = f and led = led and ts = ts]) auto
      qed
    qed
  qed
qed

section \<open>The shared cash pool\<close>

text \<open>The fills made while the intents \<open>done\<close> were visited, in that order, and the account they lead to.\<close>

definition pool_fills :: "portfolio_state \<Rightarrow> nat list \<Rightarrow> fill_record list" where
  "pool_fills st done = List.map_filter (fill_at (ps_outcomes st)) done"

definition for_symbol :: "portfolio_intent list \<Rightarrow> string \<Rightarrow> fill_record \<Rightarrow> bool" where
  "for_symbol is s f \<longleftrightarrow> pn_symbol (is ! fr_intent_index f) = s"

definition account_floor :: "capital_allocation \<Rightarrow> portfolio_intent list \<Rightarrow> fill_record list \<Rightarrow> bool" where
  "account_floor a is fs \<longleftrightarrow>
     (\<forall>k. ca_reserved_cash a \<le> cash_after (ca_initial_capital a) (take k fs) \<and>
       (\<forall>s. 0 \<le> position_after 0 (filter (for_symbol is s) (take k fs))))"

definition pool_inv :: "capital_allocation \<Rightarrow> portfolio_intent list \<Rightarrow> nat list \<Rightarrow> portfolio_state \<Rightarrow> bool" where
  "pool_inv a is done st \<longleftrightarrow>
     (let fs = pool_fills st done in
      length (ps_outcomes st) = length is \<and> (\<forall>j < length is. j \<notin> set done \<longrightarrow> fill_at (ps_outcomes st) j = None)
      \<and> map fr_sequence fs = [0..<length fs] \<and> ps_sequence st = length fs \<and> account_floor a is fs
      \<and> cash_after (ca_initial_capital a) fs = ps_cash st
      \<and> (\<forall>s. position_after 0 (filter (for_symbol is s) fs) = ps_position st s))"

lemma fill_at_other: "i \<noteq> j \<Longrightarrow> fill_at (outs[j := x]) i = fill_at outs i"
  by (simp add: fill_at_def)

lemma pool_fills_other: "j \<notin> set done \<Longrightarrow> pool_fills (st\<lparr>ps_outcomes := (ps_outcomes st)[j := x]\<rparr>) done = pool_fills st done"
  unfolding pool_fills_def by (rule map_filter_same) (metis fill_at_other portfolio_state.select_convs(7) portfolio_state.surjective portfolio_state.update_convs(7))

lemma account_floor_snoc:
  assumes "account_floor a is fs" "ca_reserved_cash a \<le> cash_after (ca_initial_capital a) (fs @ [f])"
    "\<And>s. 0 \<le> position_after 0 (filter (for_symbol is s) (fs @ [f]))"
  shows "account_floor a is (fs @ [f])"
  unfolding account_floor_def
proof
  fix k
  show "ca_reserved_cash a \<le> cash_after (ca_initial_capital a) (take k (fs @ [f])) \<and>
      (\<forall>s. 0 \<le> position_after 0 (filter (for_symbol is s) (take k (fs @ [f]))))"
    using assms by (cases "k \<le> length fs") (simp_all add: account_floor_def)
qed

lemma pool_step:
  assumes "apply_portfolio_intent is cm a s r k st j = Inr st'" "pool_inv a is done st" "j \<notin> set done" "j < length is"
    "pn_symbol (is ! j) = s" "order_intent_ok (pn_intent (is ! j))"
  shows "pool_inv a is (done @ [j]) st'"
  using assms(1)
proof (cases rule: apply_portfolio_intent_cases)
  case (unfilled out)
  have l: "j < length (ps_outcomes st)" using assms(2,4) by (simp add: pool_inv_def Let_def)
  have "fill_at (ps_outcomes st') j = None" using unfilled l by (simp add: fill_at_def)
  moreover have "pool_fills st' done = pool_fills st done" using unfilled(1) pool_fills_other [OF assms(3)] by simp
  ultimately have "pool_fills st' (done @ [j]) = pool_fills st done" by (simp add: pool_fills_def map_filter_def)
  then show ?thesis using assms(2) unfilled(1) by (auto simp: pool_inv_def Let_def fill_at_other)
next
  case (filled f led ts)
  have l: "j < length (ps_outcomes st)" using assms(2,4) by (simp add: pool_inv_def Let_def)
  let ?fs = "pool_fills st done"
  have inv: "map fr_sequence ?fs = [0..<length ?fs]" "ps_sequence st = length ?fs" "account_floor a is ?fs"
      "cash_after (ca_initial_capital a) ?fs = ps_cash st" "\<And>s. position_after 0 (filter (for_symbol is s) ?fs) = ps_position st s"
    using assms(2) by (simp_all add: pool_inv_def Let_def)
  have "fill_at (ps_outcomes st') j = Some f" using filled(1) l by (simp add: fill_at_def filled_outcome_def)
  moreover have "pool_fills st' done = ?fs"
    using filled(1) pool_fills_other [OF assms(3), of st] by (simp add: pool_fills_def)
  ultimately have fs: "pool_fills st' (done @ [j]) = ?fs @ [f]" by (simp add: pool_fills_def map_filter_def)
  have sym: "for_symbol is t f \<longleftrightarrow> t = s" for t using filled(5) assms(5) by (auto simp: for_symbol_def)
  have cash: "cash_after (ca_initial_capital a) (?fs @ [f]) = ps_cash st'" using inv(4) filled(1) by (simp add: cash_after_def)
  have pos: "position_after 0 (filter (for_symbol is t) (?fs @ [f])) = ps_position st' t" for t
    using inv(5) [of t] filled(1) by (simp add: sym position_after_def)
  have "0 \<le> ps_position st t" for t
    using inv(3) inv(5) [of t] unfolding account_floor_def by (metis order_refl take_all)
  moreover have "0 \<le> fr_quantity f"
    using intent_ok_quantity [OF assms(6)] filled(7) by (simp add: decimal_order)
  ultimately have "0 \<le> ps_position st' t" for t
    using filled(1) signed_position_nonneg [of "ps_position st s" f] filled(3) by simp
  then have "account_floor a is (?fs @ [f])"
    using filled(1,2) by (intro account_floor_snoc [OF inv(3)]) (simp_all only: cash pos, simp_all add: decimal_not_less)
  moreover have "ps_outcomes st' = (ps_outcomes st)[j := Some (filled_outcome f)]" "ps_sequence st' = Suc (ps_sequence st)"
    using filled(1) by simp_all
  moreover have "length (ps_outcomes st) = length is" "\<And>i. i < length is \<Longrightarrow> i \<notin> set done \<Longrightarrow> fill_at (ps_outcomes st) i = None"
    using assms(2) by (simp_all add: pool_inv_def Let_def)
  ultimately show ?thesis
    unfolding pool_inv_def Let_def fs cash pos using filled(4) inv(1,2) by (simp add: fill_at_other)
qed

lemma pool_inv_mark [simp]: "pool_inv a is done (st\<lparr>ps_last_mark := m\<rparr>) = pool_inv a is done st"
  by (simp add: pool_inv_def pool_fills_def)

definition visited :: "(string \<Rightarrow> nat list list) \<Rightarrow> (datetime \<times> string \<times> nat \<times> market_record) list \<Rightarrow> nat list" where
  "visited anch es = concat (map (\<lambda>(t, s, i, r). anch s ! i) es)"

definition ready :: "portfolio_intent list \<Rightarrow> string \<Rightarrow> nat \<Rightarrow> bool" where
  "ready is s j \<longleftrightarrow> j < length is \<and> pn_symbol (is ! j) = s \<and> order_intent_ok (pn_intent (is ! j))"

lemma pool_intents:
  assumes "apply_portfolio_intents is cm a s r k st js = Inr st'" "pool_inv a is done st" "distinct (done @ js)" "list_all (ready is s) js"
  shows "pool_inv a is (done @ js) st'"
  using assms
proof (induction js arbitrary: st "done")
  case (Cons j js)
  then obtain st1 where s: "apply_portfolio_intent is cm a s r k st j = Inr st1" "apply_portfolio_intents is cm a s r k st1 js = Inr st'"
    by (auto simp: rbind_eq_Inr)
  have "pool_inv a is (done @ [j]) st1"
    using Cons.prems by (intro pool_step [OF s(1)]) (auto simp: ready_def)
  then show ?case using Cons.IH [OF s(2), of "done @ [j]"] Cons.prems by simp
qed simp

lemma pool_loop:
  assumes "timeline_loop is cm a ss anch k es st eq = Inr (st', eq')" "pool_inv a is done st"
    "distinct (done @ visited anch es)" "list_all (\<lambda>(t, s, i, r). list_all (ready is s) (anch s ! i)) es"
  shows "pool_inv a is (done @ visited anch es) st'"
  using assms
proof (induction es arbitrary: k st eq "done")
  case (Cons e es)
  obtain t s i r where e: "e = (t, s, i, r)" by (cases e)
  from Cons.prems(1) obtain m st1 eq1 where
    s1: "apply_portfolio_intents is cm a s r k (st\<lparr>ps_last_mark := (ps_last_mark st)(s \<mapsto> m)\<rparr>) (anch s ! i) = Inr st1"
    and l: "timeline_loop is cm a ss anch (Suc k) es st1 eq1 = Inr (st', eq')"
    by (auto simp: e rbind_eq_Inr)
  have "pool_inv a is (done @ anch s ! i) st1"
    by (rule pool_intents [OF s1]) (use Cons.prems in \<open>auto simp: e visited_def\<close>)
  from Cons.IH [OF l this] show ?case using Cons.prems by (simp add: e visited_def)
qed (simp add: visited_def)

section \<open>Every intent is visited at most once\<close>

lemma concat_insert:
  "c < length xs \<Longrightarrow> mset (concat (xs[c := xs ! c @ [j]])) = add_mset j (mset (concat xs))"
  by (induction xs arbitrary: c) (auto simp: less_Suc_eq_0_disj)

lemma anchor_group_visits:
  assumes "anchor_group rs c grp anch outs = (anch', outs')" "length anch = length rs"
  shows "length anch' = length rs \<and> mset (concat anch') \<subseteq># mset (concat anch) + mset (map fst grp) \<and>
    length outs' = length outs \<and> ((\<forall>j < length outs. fill_at outs j = None) \<longrightarrow> (\<forall>j < length outs. fill_at outs' j = None))"
  using assms
proof (induction rs c grp anch outs rule: anchor_group.induct)
  case (2 rs cursor j i "is" anchored outcomes)
  let ?c = "seek rs cursor (instant (oi_decided_at i))"
  show ?case
  proof (cases "?c < length rs")
    case True
    with "2.prems" have "anchor_group rs ?c is (anchored[?c := anchored ! ?c @ [j]]) outcomes = (anch', outs')"
      by (simp add: Let_def)
    from "2.IH"(1) [OF refl True this] show ?thesis using "2.prems"(2) True by (simp add: concat_insert)
  next
    case False
    with "2.prems" have "anchor_group rs ?c is anchored (outcomes[j := Some (unfilled_outcome j NO_RECORD_AFTER_DECISION)]) = (anch', outs')"
      by (simp add: Let_def)
    note IH = "2.IH"(2) [OF refl False this "2.prems"(2)]
    have "fill_at (outcomes[j := Some (unfilled_outcome j NO_RECORD_AFTER_DECISION)]) n = None" if "fill_at outcomes n = None" "n < length outcomes" for n
      using that by (cases "n = j") (simp_all add: fill_at_other)
    moreover have "mset (concat anch') \<subseteq># mset (concat anchored) + mset (map fst ((j, i) # is))"
    proof -
      have "mset (concat anch') \<subseteq># mset (concat anchored) + mset (map fst is)" using IH by simp
      also have "\<dots> \<subseteq># mset (concat anchored) + mset (map fst ((j, i) # is))" by simp
      finally show ?thesis .
    qed
    ultimately show ?thesis using IH by auto
  qed
qed auto

lemma anchor_symbols_visits:
  assumes "anchor_symbols recs is ss anch outs = (anch', outs')" "distinct ss" "\<forall>j < length outs. fill_at outs j = None"
  shows "(\<forall>s\<in>set ss. length (anch' s) = length (recs s) \<and> mset (concat (anch' s)) \<subseteq># mset (map fst (symbol_group is s))) \<and>
    (\<forall>s. s \<notin> set ss \<longrightarrow> anch' s = anch s) \<and> length outs' = length outs \<and> (\<forall>j < length outs. fill_at outs' j = None)"
  using assms
proof (induction ss arbitrary: anch outs)
  case (Cons s ss)
  obtain a outs1 where g: "anchor_group (recs s) 0 (symbol_group is s) (replicate (length (recs s)) []) outs = (a, outs1)"
    by (rule prod.exhaust)
  with Cons.prems(1) have n: "anchor_symbols recs is ss (anch(s := a)) outs1 = (anch', outs')" by simp
  have "concat (replicate n []) = []" for n by (induction n) simp_all
  with anchor_group_visits [OF g] Cons.prems(3) have a: "length a = length (recs s)" "mset (concat a) \<subseteq># mset (map fst (symbol_group is s))"
    "length outs1 = length outs" "\<forall>j < length outs1. fill_at outs1 j = None" by auto
  from Cons.IH [OF n _ a(4)] Cons.prems(2) a(1-3) show ?case by auto
qed simp

lemma symbol_group_ready:
  "distinct (map fst (symbol_group is s))" "j \<in> set (map fst (symbol_group is s)) \<Longrightarrow> j < length is \<and> pn_symbol (is ! j) = s"
proof -
  let ?l = "map (\<lambda>j. (j, pn_intent (is ! j))) (filter (\<lambda>j. pn_symbol (is ! j) = s) [0..<length is])"
  have "mset (symbol_group is s) = mset ?l" unfolding symbol_group_def by (rule mset_sort)
  then have "mset (map fst (symbol_group is s)) = mset (map fst ?l)" by (simp only: mset_map)
  moreover have l: "map fst ?l = filter (\<lambda>j. pn_symbol (is ! j) = s) [0..<length is]" by (simp add: comp_def)
  ultimately have m: "mset (map fst (symbol_group is s)) = mset (filter (\<lambda>j. pn_symbol (is ! j) = s) [0..<length is])" by (simp only:)
  then show "distinct (map fst (symbol_group is s))" using mset_eq_imp_distinct_iff [OF m] by simp
  show "j \<in> set (map fst (symbol_group is s)) \<Longrightarrow> j < length is \<and> pn_symbol (is ! j) = s"
    using mset_eq_setD [OF m] by auto
qed

lemma distinct_concat_symbols:
  assumes "distinct ss" "\<And>s. s \<in> set ss \<Longrightarrow> distinct (g s)" "\<And>s j. s \<in> set ss \<Longrightarrow> j \<in> set (g s) \<Longrightarrow> owner j = s"
  shows "distinct (concat (map g ss))"
  using assms
proof (induction ss)
  case (Cons s ss)
  have "distinct (concat (map g ss))" using Cons by simp
  moreover have "set (g s) \<inter> set (concat (map g ss)) = {}"
    using Cons.prems(1,3) by (auto simp: disjoint_iff)
  ultimately show ?case using Cons.prems(2) by simp
qed simp

lemma mset_concat_map: "mset xs = mset ys \<Longrightarrow> mset (concat (map f xs)) = mset (concat (map f ys))"
  by (metis mset_concat mset_map sum_mset_sum_list)

lemma visited_timeline:
  assumes "\<And>s. s \<in> set ss \<Longrightarrow> length (anch s) = length (recs s)"
  shows "mset (visited anch (timeline recs ss)) = mset (concat (map (\<lambda>s. concat (anch s)) ss))"
proof -
  let ?es = "concat (map (\<lambda>s. map (\<lambda>i. (record_timestamp (recs s ! i), s, i, recs s ! i)) [0..<length (recs s)]) ss)"
  have "mset (visited anch (timeline recs ss)) = mset (visited anch ?es)"
    unfolding visited_def timeline_def by (rule mset_concat_map) simp
  also have "visited anch ?es = concat (map (\<lambda>s. concat (map (\<lambda>i. anch s ! i) [0..<length (recs s)])) ss)"
    unfolding visited_def by (induction ss) (simp_all add: comp_def)
  also have "\<dots> = concat (map (\<lambda>s. concat (anch s)) ss)"
    using assms by (intro arg_cong [where f = concat] map_cong refl) (metis map_nth)
  finally show ?thesis .
qed

lemma sort_key_by_sequence:
  assumes "mset xs = mset fs" "map fr_sequence fs = [0..<length fs]"
  shows "sort_key fr_sequence xs = fs"
proof (rule sort_key_inj_key_eq)
  have "distinct (map fr_sequence fs)" using assms(2) by simp
  then show "inj_on fr_sequence (set xs)" using mset_eq_setD [OF assms(1)] by (simp add: distinct_map)
  show "sorted (map fr_sequence fs)" by (simp add: assms(2))
qed (rule assms(1))

lemma pool_fills_permuted:
  assumes "distinct js" "set js \<subseteq> {0..<n}" "\<And>j. j < n \<Longrightarrow> j \<notin> set js \<Longrightarrow> g j = None"
  shows "mset (List.map_filter g [0..<n]) = mset (List.map_filter g js)"
proof -
  have "List.map_filter g [0..<n] = List.map_filter g (filter (\<lambda>j. j \<in> set js) [0..<n])"
    by (rule map_filter_restrict [symmetric]) (use assms(3) in auto)
  moreover have "mset (filter (\<lambda>j. j \<in> set js) [0..<n]) = mset js"
    using assms(1,2) by (intro set_eq_iff_mset_eq_distinct [THEN iffD1]) auto
  then have "mset (List.map_filter g (filter (\<lambda>j. j \<in> set js) [0..<n])) = mset (List.map_filter g js)"
    unfolding map_filter_def comp_def mset_map mset_filter [symmetric] by (simp only: mset_filter)
  ultimately show ?thesis by (simp only:)
qed

lemma portfolio_run_parts:
  assumes "run_portfolio_backtest sha p is cm a = Inr R"
  defines "recs \<equiv> (\<lambda>s. case symbol_inputs p s of None \<Rightarrow> [] | Some b \<Rightarrow> bi_records b)"
  obtains anch outs st eq where "anchor_symbols recs is (pi_symbols p) (\<lambda>_. []) (replicate (length is) None) = (anch, outs)"
    "timeline_loop is cm a (pi_symbols p) anch 0 (timeline recs (pi_symbols p)) (portfolio_start a outs) [] = Inr (st, eq)"
    "px_outcomes R = map the (ps_outcomes st)" "list_all (\<lambda>f. f \<noteq> None) (ps_outcomes st)"
  using assms unfolding run_portfolio_backtest_def Let_def
  by (auto simp: rbind_eq_Inr guard_eq_Inr mk_portfolio_result_def split: prod.splits)

text \<open>C37.  The fills of a run in the order of their sequence numbers: after every prefix the cash is at least the reserve and
  the position of every symbol is not negative.\<close>

theorem portfolio_cash_floor:
  assumes "run_portfolio_backtest sha p is cm a = Inr R" "mk_capital_allocation a = Inr a" "mk_portfolio_input p = Inr p"
    "list_all (\<lambda>i. order_intent_ok (pn_intent i)) is"
  shows "ca_reserved_cash a \<le> cash_after (ca_initial_capital a) (take k (sort_key fr_sequence (px_fills R))) \<and>
    0 \<le> position_after 0 (filter (for_symbol is s) (take k (sort_key fr_sequence (px_fills R))))"
proof -
  define recs where "recs = (\<lambda>s. case symbol_inputs p s of None \<Rightarrow> [] | Some b \<Rightarrow> bi_records b)"
  let ?ss = "pi_symbols p"
  obtain anch outs st eq where an: "anchor_symbols recs is ?ss (\<lambda>_. []) (replicate (length is) None) = (anch, outs)"
    and loop: "timeline_loop is cm a ?ss anch 0 (timeline recs ?ss) (portfolio_start a outs) [] = Inr (st, eq)"
    and R: "px_outcomes R = map the (ps_outcomes st)" "list_all (\<lambda>f. f \<noteq> None) (ps_outcomes st)"
    unfolding recs_def by (rule portfolio_run_parts [OF assms(1)])
  have ss: "distinct ?ss" using assms(3) by (simp add: pi_symbols_def mk_portfolio_input_def result_simps)
  note v = anchor_symbols_visits [OF an ss]
  have none: "\<forall>j < length (replicate (length is) (None :: fill_outcome option)). fill_at (replicate (length is) None) j = None"
    by (simp add: fill_at_def)
  have len: "\<And>s. s \<in> set ?ss \<Longrightarrow> length (anch s) = length (recs s)" and sub: "\<And>s. s \<in> set ?ss \<Longrightarrow> mset (concat (anch s)) \<subseteq># mset (map fst (symbol_group is s))"
    and outs: "length outs = length is" "\<And>j. j < length is \<Longrightarrow> fill_at outs j = None"
    using v [OF none] by auto
  have js: "distinct (concat (anch s))" "\<And>j. j \<in> set (concat (anch s)) \<Longrightarrow> ready is s j" if s: "s \<in> set ?ss" for s
  proof -
    obtain M where "mset (map fst (symbol_group is s)) = mset (concat (anch s)) + M"
      using sub [OF s] by (metis subset_mset.le_iff_add)
    moreover obtain ms where "M = mset ms" using ex_mset by metis
    ultimately have m: "mset (map fst (symbol_group is s)) = mset (concat (anch s) @ ms)" by simp
    then have "distinct (concat (anch s) @ ms)" using mset_eq_imp_distinct_iff [OF m] symbol_group_ready(1) by simp
    then show "distinct (concat (anch s))" by simp
    show "ready is s j" if "j \<in> set (concat (anch s))" for j
      using symbol_group_ready(2) [of j "is" s] mset_eq_setD [OF m] that assms(4) by (auto simp: ready_def list_all_length)
  qed
  let ?vs = "visited anch (timeline recs ?ss)"
  have vs: "mset ?vs = mset (concat (map (\<lambda>s. concat (anch s)) ?ss))" by (rule visited_timeline [OF len])
  have "distinct (concat (map (\<lambda>s. concat (anch s)) ?ss))"
    by (rule distinct_concat_symbols [OF ss, where owner = "\<lambda>j. pn_symbol (is ! j)"]) (use js in \<open>auto simp: ready_def\<close>)
  then have d: "distinct ?vs" using mset_eq_imp_distinct_iff [OF vs] by simp
  have ready: "list_all (\<lambda>(t, s, i, r). list_all (ready is s) (anch s ! i)) (timeline recs ?ss)"
    using js(2) len by (fastforce simp: timeline_def list_all_iff)
  have "pool_inv a is [] (portfolio_start a outs)"
    using assms(2) outs by (auto simp: pool_inv_def Let_def pool_fills_def map_filter_simps portfolio_start_def account_floor_def
      cash_after_def position_after_def mk_capital_allocation_def result_simps decimal_not_less)
  from pool_loop [OF loop this _ ready] d have inv: "pool_inv a is ?vs st" by simp
  let ?fs = "pool_fills st ?vs"
  have i: "map fr_sequence ?fs = [0..<length ?fs]" "account_floor a is ?fs" "length (ps_outcomes st) = length is"
    "\<And>j. j < length is \<Longrightarrow> j \<notin> set ?vs \<Longrightarrow> fill_at (ps_outcomes st) j = None"
    using inv by (simp_all add: pool_inv_def Let_def)
  have "px_fills R = List.map_filter (fill_at (ps_outcomes st)) [0..<length is]"
    unfolding px_fills_def R(1) map_filter_map map_filter_nth [of _ "ps_outcomes st"] i(3) using R(2)
    by (intro map_filter_same) (auto simp: fill_at_def list_all_length i(3))
  moreover have "set ?vs \<subseteq> {0..<length is}"
    using ready by (fastforce simp: visited_def list_all_iff ready_def)
  ultimately have "mset (px_fills R) = mset ?fs" unfolding pool_fills_def using pool_fills_permuted [OF d] i(4) by metis
  then have "sort_key fr_sequence (px_fills R) = ?fs" using i(1) by (rule sort_key_by_sequence)
  then show ?thesis using i(2) by (simp add: account_floor_def)
qed

section \<open>One symbol\<close>

text \<open>The state of the single-symbol engine inside the state of the portfolio.\<close>

definition project :: "string \<Rightarrow> portfolio_state \<Rightarrow> sim_state" where
  "project s st = \<lparr>ss_cash = ps_cash st, ss_position = ps_position st s, ss_sequence = ps_sequence st,
     ss_trades = map pt_trade (ps_trades st), ss_ledger = ps_ledgers st s, ss_outcomes = ps_outcomes st\<rparr>"

definition unlimited :: "decimal \<Rightarrow> capital_allocation" where
  "unlimited capital = \<lparr>ca_initial_capital = capital, ca_reserved_cash = 0, ca_per_symbol_budget = []\<rparr>"

definition for_one :: "string \<Rightarrow> order_intent list \<Rightarrow> portfolio_intent list" where
  "for_one s is = map (\<lambda>i. \<lparr>pn_symbol = s, pn_intent = i\<rparr>) is"

lemma unlimited_checks:
  assumes "evaluate_fill i r k cash position cm seq j = Inr ev"
  shows "budget_check (unlimited c) s j cash position (reserve_check (unlimited c) j cash position ev) = ev"
  using assms by (cases rule: evaluate_fill_cases) (auto simp: budget_check_def reserve_check_def budget_for_def unlimited_def)

lemma apply_intent_single:
  assumes "apply_intent is cm r k (project s st) j = Inr st1" "j < length is"
  shows "\<exists>st'. apply_portfolio_intent (for_one s is) cm (unlimited c) s r k st j = Inr st' \<and> project s st' = st1 \<and> ps_last_mark st' = ps_last_mark st"
proof -
  have i: "pn_intent (for_one s is ! j) = is ! j" using assms(2) by (simp add: for_one_def)
  from assms obtain ev where ev: "evaluate_fill (is ! j) r k (ps_cash st) (ps_position st s) cm (ps_sequence st) j = Inr ev"
    by (auto simp: apply_intent_def Let_def rbind_eq_Inr project_def)
  have ap: "apply_portfolio_intent (for_one s is) cm (unlimited c) s r k st j = settle_portfolio_fill s st j ev"
    using ev unlimited_checks [OF ev] by (simp add: apply_portfolio_intent_def i)
  note a = assms(1) [unfolded apply_intent_def project_def Let_def, simplified, simplified ev, simplified]
  from ev show ?thesis
  proof (cases rule: evaluate_fill_cases)
    case (unfilled reason)
    then show ?thesis using a ap by (auto simp: settle_portfolio_fill_def project_def)
  next
    case (filled f)
    show ?thesis
    proof (cases "oi_side (is ! j)")
      case IBUY
      then show ?thesis using a ap filled by (auto simp: settle_portfolio_fill_def project_def rbind_eq_Inr)
    next
      case ISELL
      then show ?thesis using a ap filled by (auto simp: settle_portfolio_fill_def project_def rbind_eq_Inr comp_def)
    qed
  qed
qed

lemma apply_intents_single:
  assumes "apply_intents is cm r k (project s st) js = Inr st1" "list_all (\<lambda>j. j < length is) js"
  shows "\<exists>st'. apply_portfolio_intents (for_one s is) cm (unlimited c) s r k st js = Inr st' \<and> project s st' = st1 \<and> ps_last_mark st' = ps_last_mark st"
  using assms
proof (induction js arbitrary: st)
  case (Cons j js)
  then obtain st2 where "apply_intent is cm r k (project s st) j = Inr st2" and rest: "apply_intents is cm r k st2 js = Inr st1"
    by (auto simp: rbind_eq_Inr)
  with Cons.prems obtain st' where st': "apply_portfolio_intent (for_one s is) cm (unlimited c) s r k st j = Inr st'" "project s st' = st2"
    "ps_last_mark st' = ps_last_mark st" using apply_intent_single [of "is" cm r k s st j st2 c] by auto
  from Cons.IH [of st'] rest st' Cons.prems(2) show ?case by auto
qed simp

lemma project_mark [simp]: "project s (st\<lparr>ps_last_mark := m\<rparr>) = project s st"
  by (simp add: project_def)

lemma dval_plus_cong: "dval v = dval w \<Longrightarrow> dval (c + v) = dval (c + w)"
  using plus_decimal_fix [of c v] plus_decimal_fix [of c w] by (metis dval_dfix_cong)

lemma zero_plus: "fits x \<Longrightarrow> dval (0 + x) = dval x"
  using dval_plus [of 0 x] fits_rep [of x] by simp

lemma fits_times: "fits (x * y)"
  using times_decimal_fix [of x y] coeff_dfix by metis

lemma single_mark:
  assumes "marks s = Some m"
  shows "\<exists>v. market_value position marks 0 [s] = Inr v \<and> deq (c + v) (c + position s * m)"
proof (cases "deq (position s) 0")
  case True
  have "dval (position s) = 0" using True by (simp add: decimal_order)
  then have "dval (position s * m) = 0" using dval_times [of "position s" m] by simp
  then show ?thesis using True dval_plus_cong [of 0 "position s * m" c] by (simp add: decimal_order)
next
  case False
  then show ?thesis using assms dval_plus_cong [of "0 + position s * m" "position s * m" c] zero_plus [OF fits_times] by (simp add: decimal_order)
qed

lemma mark_price_portfolio: "mark_price r = Inr m \<Longrightarrow> portfolio_mark r = Inr m"
  by (cases r) (auto simp: result_simps)

abbreviation same_point :: "equity_point \<Rightarrow> equity_point \<Rightarrow> bool" where
  "same_point p q \<equiv> ep_timestamp p = ep_timestamp q \<and> deq (ep_equity p) (ep_equity q)"

lemma record_loop_single:
  assumes "record_loop is cm anch k (drop k rs) (project s st) eq = Inr (st1, eq1)" "k \<le> length rs"
    "list_all (list_all (\<lambda>j. j < length is)) anch" "length anch = length rs" "anchored s = anch"
  shows "\<exists>st' eq'. timeline_loop (for_one s is) cm (unlimited c) [s] anchored k
      (map (\<lambda>i. (record_timestamp (rs ! i), s, i, rs ! i)) [k..<length rs]) st acc = Inr (st', eq') \<and>
    project s st' = st1 \<and> (list_all2 same_point acc eq \<longrightarrow> list_all2 same_point eq' eq1)"
  using assms(1,2)
proof (induction "length rs - k" arbitrary: k st eq acc)
  case 0
  then show ?case by simp
next
  case (Suc n)
  then have k: "k < length rs" by simp
  then have d: "drop k rs = rs ! k # drop (Suc k) rs" "[k..<length rs] = k # [Suc k..<length rs]"
    by (simp_all add: Cons_nth_drop_Suc upt_conv_Cons)
  from Suc.prems(1) obtain st2 m where s2: "apply_intents is cm (rs ! k) k (project s st) (anch ! k) = Inr st2"
    and m: "mark_price (rs ! k) = Inr m"
    and l: "record_loop is cm anch (Suc k) (drop (Suc k) rs) st2
      (eq @ [\<lparr>ep_timestamp = record_timestamp (rs ! k), ep_equity = ss_cash st2 + ss_position st2 * m\<rparr>]) = Inr (st1, eq1)"
    by (auto simp: d rbind_eq_Inr)
  have "list_all (\<lambda>j. j < length is) (anch ! k)" using assms(3,4) k by (simp add: list_all_length)
  from apply_intents_single [OF _ this, of cm "rs ! k" k s "st\<lparr>ps_last_mark := (ps_last_mark st)(s \<mapsto> m)\<rparr>" st2 c] s2
  obtain st' where st': "apply_portfolio_intents (for_one s is) cm (unlimited c) s (rs ! k) k (st\<lparr>ps_last_mark := (ps_last_mark st)(s \<mapsto> m)\<rparr>) (anch ! k) = Inr st'"
    "project s st' = st2" "ps_last_mark st' s = Some m" by auto
  have c2: "ss_cash st2 = ps_cash st'" "ss_position st2 = ps_position st' s" using st'(2) by (auto simp: project_def)
  obtain v where v: "market_value (ps_position st') (ps_last_mark st') 0 [s] = Inr v" "deq (ps_cash st' + v) (ps_cash st' + ps_position st' s * m)"
    using single_mark [where marks = "ps_last_mark st'" and s = s, OF st'(3)] by blast
  let ?p = "\<lparr>ep_timestamp = record_timestamp (rs ! k), ep_equity = ps_cash st' + v\<rparr>"
  let ?q = "\<lparr>ep_timestamp = record_timestamp (rs ! k), ep_equity = ps_cash st' + ps_position st' s * m\<rparr>"
  have "record_loop is cm anch (Suc k) (drop (Suc k) rs) (project s st') (eq @ [?q]) = Inr (st1, eq1)"
    using l st'(2) c2 by simp
  moreover have "n = length rs - Suc k" "Suc k \<le> length rs" using Suc.hyps(2) k by simp_all
  ultimately obtain st'' eq' where
    "timeline_loop (for_one s is) cm (unlimited c) [s] anchored (Suc k)
      (map (\<lambda>i. (record_timestamp (rs ! i), s, i, rs ! i)) [Suc k..<length rs]) st' (acc @ [?p]) = Inr (st'', eq')"
    "project s st'' = st1" "list_all2 same_point (acc @ [?p]) (eq @ [?q]) \<Longrightarrow> list_all2 same_point eq' eq1"
    using Suc.hyps(1) [of "Suc k" st' "eq @ [?q]" "acc @ [?p]"] by blast
  moreover have "list_all2 same_point acc eq \<Longrightarrow> list_all2 same_point (acc @ [?p]) (eq @ [?q])"
    using v(2) by (intro list_all2_appendI) simp_all
  ultimately show ?case
    using v(1) mark_price_portfolio [OF m] st'(1) assms(5) by (simp add: d(2) del: market_value.simps)
qed

lemma anchor_group_loop: "anchor_group rs c (zip [m..<m + length is] is) anch outs = anchor_loop rs c m is anch outs"
proof (induction "is" arbitrary: c m anch outs)
  case (Cons i "is")
  have "[m..<m + length (i # is)] = m # [Suc m..<Suc m + length is]" using upt_front [of m "length is"] by simp
  then have "zip [m..<m + length (i # is)] (i # is) = (m, i) # zip [Suc m..<Suc m + length is] is" by (simp only: zip_Cons_Cons)
  then show ?case by (simp only: anchor_group.simps anchor_loop.simps Let_def Cons)
qed simp

lemma symbol_group_one:
  assumes "strictly_after is"
  shows "symbol_group (for_one s is) s = zip [0..<length is] is"
proof -
  have f: "filter (\<lambda>j. pn_symbol (for_one s is ! j) = s) [0..<length (for_one s is)] = [0..<length is]"
    by (simp add: for_one_def filter_id_conv)
  have m: "map (\<lambda>j. (j, pn_intent (for_one s is ! j))) [0..<length is] = zip [0..<length is] is"
    by (rule nth_equalityI) (simp_all add: for_one_def)
  have "sorted (map (\<lambda>(j, i). instant (oi_decided_at i)) (zip [0..<length is] is))"
  proof -
    have "map (\<lambda>(j, i). instant (oi_decided_at i)) (zip [0..<length is] is) = map (\<lambda>i. instant (oi_decided_at i)) is"
      by (rule nth_equalityI) simp_all
    moreover have "sorted_wrt (<) (map (\<lambda>i. instant (oi_decided_at i)) is)"
      using assms by (simp add: strictly_after_sorted sorted_wrt_map)
    ultimately show ?thesis using strict_sorted_imp_sorted by metis
  qed
  then show ?thesis unfolding symbol_group_def f m by (rule sort_key_id_if_sorted)
qed

lemma timeline_one:
  assumes "sorted_wrt (\<lambda>a b. rec_time a < rec_time b) (recs s)"
  shows "timeline recs [s] = map (\<lambda>i. (record_timestamp (recs s ! i), s, i, recs s ! i)) [0..<length (recs s)]"
proof -
  have "sorted (map (\<lambda>(t, s, i, r). (instant t, s)) (map (\<lambda>i. (record_timestamp (recs s ! i), s, i, recs s ! i)) [0..<length (recs s)]))"
    using assms by (auto simp: sorted_wrt_iff_nth_less less_imp_le)
  then show ?thesis by (simp add: timeline_def sort_key_id_if_sorted)
qed

lemma anchor_loop_bounded:
  assumes "anchor_loop rs c m is anch outs = (anch', outs')" "list_all (list_all (\<lambda>j. j < m + length is)) anch" "length anch = length rs"
  shows "list_all (list_all (\<lambda>j. j < m + length is)) anch' \<and> length anch' = length rs"
  using assms
proof (induction "is" arbitrary: c m anch outs)
  case (Cons i "is")
  let ?c = "seek rs c (instant (oi_decided_at i))"
  let ?a = "if ?c < length rs then anch[?c := anch ! ?c @ [m]] else anch"
  have "list_all (list_all (\<lambda>j. j < Suc m + length is)) ?a \<and> length ?a = length rs"
    using Cons.prems(2,3) by (auto simp: list_all_length nth_list_update nth_append)
  moreover obtain o' where "anchor_loop rs ?c (Suc m) is ?a o' = (anch', outs')"
    using Cons.prems(1) by (cases "?c < length rs") (auto simp: Let_def)
  ultimately show ?case using Cons.IH [of ?c "Suc m" ?a o'] by simp
qed simp

lemma single_symbol_agrees:
  assumes "run_backtest sha b is cm capital = Inr R" "mk_backtest_input b = Inr b"
  shows "\<exists>P. run_portfolio_backtest sha \<lparr>pi_inputs = [b]\<rparr> (for_one (input_symbol b) is) cm (unlimited capital) = Inr P \<and>
    px_outcomes P = br_outcomes R \<and> map pt_trade (px_trades P) = br_trades R \<and> list_all2 same_point (px_equity_curve P) (br_equity_curve R)"
proof -
  let ?s = "input_symbol b" and ?rs = "bi_records b" and ?p = "\<lparr>pi_inputs = [b]\<rparr>"
  have sorted: "sorted_wrt (\<lambda>a b. rec_time a < rec_time b) ?rs" "?rs \<noteq> []" using assms(2) by (auto simp: backtest_input_exact series_ok_def)
  obtain anch outs where al: "anchor_loop ?rs 0 0 is (replicate (length ?rs) []) (replicate (length is) None) = (anch, outs)"
    by (rule prod.exhaust)
  obtain st equity where c: "0 < capital" "strictly_after is"
    and loop: "record_loop is cm anch 0 ?rs (start_state capital outs) [] = Inr (st, equity)"
    and outs: "list_all (\<lambda>f. f \<noteq> None) (ss_outcomes st)" "length (ss_outcomes st) = length is"
    and R: "br_outcomes R = map the (ss_outcomes st)" "br_trades R = ss_trades st" "br_equity_curve R = equity" "equity \<noteq> []"
    using assms(1) by (auto simp: run_backtest_def al Let_def mk_backtest_run_def result_simps)
  have sy: "pi_symbols ?p = [?s]" "symbol_inputs ?p ?s = Some b" by (simp_all add: pi_symbols_def symbol_inputs_def)
  define recs where "recs = (\<lambda>s. case symbol_inputs ?p s of None \<Rightarrow> [] | Some b \<Rightarrow> bi_records b)"
  have rs: "recs ?s = ?rs" by (simp add: recs_def sy)
  have known: "known_symbols (symbol_inputs ?p) (for_one ?s is) = Inr ()"
    using sy(2) unfolding for_one_def by (induction "is") simp_all
  have grp: "map snd (symbol_group (for_one ?s is) ?s) = is" using symbol_group_one [OF c(2)] by simp
  have anc: "anchor_symbols recs (for_one ?s is) [?s] (\<lambda>_. []) (replicate (length (for_one ?s is)) None) = ((\<lambda>_. [])(?s := anch), outs)"
    using anchor_group_loop [of ?rs 0 0 "is"] al symbol_group_one [OF c(2), of ?s]
    by (simp add: rs) (simp add: for_one_def)
  have "list_all (list_all (\<lambda>j. j < length is)) anch \<and> length anch = length ?rs"
    using anchor_loop_bounded [OF al] by (simp add: list_all_length)
  moreover have "project ?s (portfolio_start (unlimited capital) outs) = start_state capital outs"
    by (simp add: project_def portfolio_start_def start_state_def unlimited_def)
  ultimately obtain st' eq' where l: "timeline_loop (for_one ?s is) cm (unlimited capital) [?s] ((\<lambda>_. [])(?s := anch)) 0
      (timeline recs [?s]) (portfolio_start (unlimited capital) outs) [] = Inr (st', eq')"
    and st': "project ?s st' = st" "list_all2 same_point eq' equity"
    using record_loop_single [of "is" cm anch 0 ?rs ?s "portfolio_start (unlimited capital) outs" "[]" st equity "(\<lambda>_. [])(?s := anch)" capital "[]"] loop
    by (auto simp: timeline_one [of recs ?s] rs sorted)
  have po: "ps_outcomes st' = ss_outcomes st" "map pt_trade (ps_trades st') = ss_trades st" using st'(1) by (auto simp: project_def)
  have "eq' \<noteq> []" using st'(2) R(4) by auto
  then show ?thesis
    using known l po outs R st'(2) c grp anc
    by (simp add: run_portfolio_backtest_def sy recs_def [symmetric] Let_def mk_portfolio_result_def unlimited_def [of capital] for_one_def)
qed

text \<open>C38.  A portfolio of one symbol, without reserve and budgets, makes the same decisions as the single-symbol engine: the
  same outcomes and trades, and marks of the same value at the same times.\<close>

theorem single_symbol_portfolio:
  assumes "run_backtest sha b is cm capital = Inr R" "mk_backtest_input b = Inr b"
  shows "\<exists>P. run_portfolio_backtest sha \<lparr>pi_inputs = [b]\<rparr> (for_one (input_symbol b) is) cm (unlimited capital) = Inr P \<and>
    px_outcomes P = br_outcomes R \<and> map pt_trade (px_trades P) = br_trades R \<and> list_all2 same_point (px_equity_curve P) (br_equity_curve R)"
  by (rule single_symbol_agrees [OF assms])

section \<open>Witnesses\<close>

lemma sample_input_accepted: "0 < n \<Longrightarrow> mk_backtest_input (sample_input n) = Inr (sample_input n)"
  by (simp add: backtest_input_exact series_ok_def coherent_def backtest_sample_defs blank_def is_space_def)

lemma sample_portfolio_accepted: "mk_portfolio_input \<lparr>pi_inputs = [sample_input 9]\<rparr> = Inr \<lparr>pi_inputs = [sample_input 9]\<rparr>"
  by (simp add: mk_portfolio_input_def)

theorem single_symbol_portfolio_witness:
  "\<exists>P. run_portfolio_backtest id \<lparr>pi_inputs = [sample_input 9]\<rparr> (for_one (input_symbol (sample_input 9)) [backtest_intent]) backtest_costs (unlimited (Dec 100 0)) = Inr P \<and>
    px_outcomes P = br_outcomes (sample_result id 9)"
  using single_symbol_portfolio [OF sample_run sample_input_accepted, of 9 id] by auto

theorem portfolio_cash_floor_witness:
  "\<exists>P. run_portfolio_backtest id \<lparr>pi_inputs = [sample_input 9]\<rparr> (for_one (input_symbol (sample_input 9)) [backtest_intent]) backtest_costs (unlimited (Dec 100 0)) = Inr P \<and>
    0 \<le> cash_after (Dec 100 0) (take 1 (sort_key fr_sequence (px_fills P)))"
proof -
  obtain P where P: "run_portfolio_backtest id \<lparr>pi_inputs = [sample_input 9]\<rparr> (for_one (input_symbol (sample_input 9)) [backtest_intent]) backtest_costs (unlimited (Dec 100 0)) = Inr P"
    using single_symbol_agrees [OF sample_run sample_input_accepted, of 9 id] by auto
  have a: "mk_capital_allocation (unlimited (Dec 100 0)) = Inr (unlimited (Dec 100 0))"
    by (simp add: mk_capital_allocation_def unlimited_def decimal_order dval_def zero_decimal_def)
  have ok: "list_all (\<lambda>i. order_intent_ok (pn_intent i)) (for_one (input_symbol (sample_input 9)) [backtest_intent])"
    using backtest_intent_ok by (simp add: for_one_def)
  show ?thesis
    using P portfolio_cash_floor [OF P a sample_portfolio_accepted ok, of 1] by (intro exI [of _ P]) (simp add: unlimited_def)
qed

definition second_input :: backtest_input where
  "second_input = \<lparr>bi_dataset_id = ''e'', bi_source = ''s'', bi_records = [Candle ((sample_candle ''NSE'' ''Z'')\<lparr>cd_instrument_id := 99\<rparr>)], bi_metadata = (\<lambda>_. None)\<rparr>"

theorem portfolio_input_order_free_witness:
  "run_portfolio_backtest id \<lparr>pi_inputs = [second_input, sample_input 9]\<rparr> [] backtest_costs (unlimited (Dec 100 0)) =
   run_portfolio_backtest id \<lparr>pi_inputs = [sample_input 9, second_input]\<rparr> [] backtest_costs (unlimited (Dec 100 0))"
proof -
  have "mk_portfolio_input \<lparr>pi_inputs = [sample_input 9, second_input]\<rparr> = Inr \<lparr>pi_inputs = [sample_input 9, second_input]\<rparr>"
    by (simp add: mk_portfolio_input_def input_symbol_def second_input_def sample_input_def sample_bar_def sample_candle_def)
  then show ?thesis using portfolio_input_order_free [of "\<lparr>pi_inputs = [sample_input 9, second_input]\<rparr>" "\<lparr>pi_inputs = [second_input, sample_input 9]\<rparr>"]
    by simp
qed

end
