(* ===== verification/Walk_Forward.thy ===== *)
theory Walk_Forward
  imports Backtest_Report
begin

text \<open>
  The walk-forward harness, \<^verbatim>\<open>backtesting/alpha_algo_walk_forward\<close>: the window schedule, the aggregation over the
  periods, the run and the overfitting assessment.  The runner of a window is a parameter, a function
  that may return an error; two windows are the same when they are equal as values.

  The main results: the schedule of a valid input is built completely, every window is accepted, the
  test records of a window come after its training and validation records, no record is tested
  twice and the uncovered records are counted exactly; and the assessment of an aggregated run never
  raises, with LOW risk when nothing can be assessed.
\<close>

section \<open>Windows\<close>

abbreviation wf_guard :: "bool \<Rightarrow> string \<Rightarrow> (backtest_error, unit) result" where
  "wf_guard c msg \<equiv> guard c (WalkForwardError msg)"

record walk_forward_config =
  wc_training_records :: int
  wc_validation_records :: int
  wc_test_records :: int
  wc_step_records :: int

definition mk_walk_forward_config :: "walk_forward_config \<Rightarrow> (backtest_error, walk_forward_config) result" where
  "mk_walk_forward_config c =
     rbind (wf_guard (1 \<le> wc_training_records c) ''training_records must be at least 1'') (\<lambda>_.
     rbind (wf_guard (1 \<le> wc_validation_records c) ''validation_records must be at least 1'') (\<lambda>_.
     rbind (wf_guard (1 \<le> wc_test_records c) ''test_records must be at least 1'') (\<lambda>_.
     rbind (wf_guard (1 \<le> wc_step_records c) ''step_records must be at least 1'') (\<lambda>_.
     rbind (wf_guard (wc_test_records c \<le> wc_step_records c)
       ''step_records must be >= test_records so out-of-sample windows never overlap across periods'') (\<lambda>_.
     Inr c)))))"

record window_slice =
  ws_start_index :: int
  ws_end_index :: int
  ws_start_timestamp :: datetime
  ws_end_timestamp :: datetime

definition mk_window_slice :: "window_slice \<Rightarrow> (backtest_error, window_slice) result" where
  "mk_window_slice s =
     rbind (wf_guard (0 \<le> ws_start_index s) ''start_index must be non-negative'') (\<lambda>_.
     rbind (wf_guard (ws_start_index s < ws_end_index s) ''end_index must be strictly greater than start_index (slices are never empty)'') (\<lambda>_.
     rbind (wf_guard (tz_aware (ws_start_timestamp s)) ''start_timestamp must be a timezone-aware datetime'') (\<lambda>_.
     rbind (wf_guard (tz_aware (ws_end_timestamp s)) ''end_timestamp must be a timezone-aware datetime'') (\<lambda>_.
     rbind (wf_guard (instant (ws_start_timestamp s) \<le> instant (ws_end_timestamp s)) ''start_timestamp must not be after end_timestamp'') (\<lambda>_.
     Inr s)))))"

record walk_forward_window =
  ww_index :: int
  ww_train :: window_slice
  ww_validation :: window_slice
  ww_test :: window_slice
  ww_train_input :: backtest_input
  ww_validation_input :: backtest_input
  ww_test_input :: backtest_input

text \<open>An input belongs to its slice.\<close>

definition slice_matches :: "string \<Rightarrow> backtest_input \<Rightarrow> window_slice \<Rightarrow> (backtest_error, unit) result" where
  "slice_matches name b s =
     rbind (wf_guard (int (record_count b) = ws_end_index s - ws_start_index s) (name @ '' record count does not match its slice range'')) (\<lambda>_.
     rbind (wf_guard (instant (first_timestamp b) = instant (ws_start_timestamp s)) (name @ '' first timestamp does not match its slice start'')) (\<lambda>_.
     wf_guard (instant (last_timestamp b) = instant (ws_end_timestamp s)) (name @ '' last timestamp does not match its slice end'')))"

definition mk_window :: "walk_forward_window \<Rightarrow> (backtest_error, walk_forward_window) result" where
  "mk_window w =
     rbind (wf_guard (0 \<le> ww_index w) ''index must be non-negative'') (\<lambda>_.
     rbind (wf_guard (ws_end_index (ww_train w) = ws_start_index (ww_validation w)) ''train and validation must be contiguous (no intra-window gaps)'') (\<lambda>_.
     rbind (wf_guard (ws_end_index (ww_validation w) = ws_start_index (ww_test w)) ''validation and test must be contiguous (no intra-window gaps)'') (\<lambda>_.
     rbind (wf_guard (ws_start_index (ww_train w) < ws_end_index (ww_test w))
       ''window slices must be strictly ordered (train before validation before test)'') (\<lambda>_.
     rbind (wf_guard (instant (ws_start_timestamp (ww_train w)) < instant (ws_end_timestamp (ww_validation w))
         \<and> instant (ws_end_timestamp (ww_validation w)) < instant (ws_end_timestamp (ww_test w)))
       ''window boundary timestamps must be strictly increasing'') (\<lambda>_.
     rbind (slice_matches ''train_input'' (ww_train_input w) (ww_train w)) (\<lambda>_.
     rbind (slice_matches ''validation_input'' (ww_validation_input w) (ww_validation w)) (\<lambda>_.
     rbind (slice_matches ''test_input'' (ww_test_input w) (ww_test w)) (\<lambda>_.
     Inr w))))))))"

definition in_sample :: "walk_forward_window \<Rightarrow> (backtest_error, window_slice) result" where
  "in_sample w =
     mk_window_slice \<lparr>ws_start_index = ws_start_index (ww_train w), ws_end_index = ws_end_index (ww_validation w),
       ws_start_timestamp = ws_start_timestamp (ww_train w), ws_end_timestamp = ws_end_timestamp (ww_validation w)\<rparr>"

definition in_sample_input :: "walk_forward_window \<Rightarrow> (backtest_error, backtest_input) result" where
  "in_sample_input w =
     mk_backtest_input \<lparr>bi_dataset_id = bi_dataset_id (ww_train_input w), bi_source = bi_source (ww_train_input w),
       bi_records = bi_records (ww_train_input w) @ bi_records (ww_validation_input w), bi_metadata = bi_metadata (ww_train_input w)\<rparr>"

text \<open>The records \<^verbatim>\<open>records[begin:end]\<close> as a fresh input, and as a slice.\<close>

definition cut_records :: "'a list \<Rightarrow> int \<Rightarrow> int \<Rightarrow> 'a list" where
  "cut_records xs b e = take (nat (e - b)) (drop (nat b) xs)"

definition slice_input :: "backtest_input \<Rightarrow> int \<Rightarrow> int \<Rightarrow> (backtest_error, backtest_input) result" where
  "slice_input inputs b e = mk_backtest_input (inputs\<lparr>bi_records := cut_records (bi_records inputs) b e\<rparr>)"

definition slice_of :: "backtest_input \<Rightarrow> int \<Rightarrow> int \<Rightarrow> (backtest_error, window_slice) result" where
  "slice_of inputs b e =
     mk_window_slice \<lparr>ws_start_index = b, ws_end_index = e, ws_start_timestamp = record_timestamp (bi_records inputs ! nat b),
       ws_end_timestamp = record_timestamp (bi_records inputs ! nat (e - 1))\<rparr>"

definition build_window :: "backtest_input \<Rightarrow> walk_forward_config \<Rightarrow> int \<Rightarrow> (backtest_error, walk_forward_window) result" where
  "build_window inputs config index =
     (let start = index * wc_step_records config;
          train_end = start + wc_training_records config;
          validation_end = train_end + wc_validation_records config;
          test_end = validation_end + wc_test_records config in
      rbind (slice_of inputs start train_end) (\<lambda>train.
      rbind (slice_of inputs train_end validation_end) (\<lambda>validation.
      rbind (slice_of inputs validation_end test_end) (\<lambda>test.
      rbind (slice_input inputs start train_end) (\<lambda>train_input.
      rbind (slice_input inputs train_end validation_end) (\<lambda>validation_input.
      rbind (slice_input inputs validation_end test_end) (\<lambda>test_input.
      mk_window \<lparr>ww_index = index, ww_train = train, ww_validation = validation, ww_test = test, ww_train_input = train_input,
        ww_validation_input = validation_input, ww_test_input = test_input\<rparr>)))))))"

definition wc_span :: "walk_forward_config \<Rightarrow> int" where
  "wc_span c = wc_training_records c + wc_validation_records c + wc_test_records c"

definition period_count :: "backtest_input \<Rightarrow> walk_forward_config \<Rightarrow> int" where
  "period_count inputs config = (int (record_count inputs) - wc_span config) div wc_step_records config + 1"

definition build_windows :: "backtest_input \<Rightarrow> walk_forward_config \<Rightarrow> (backtest_error, walk_forward_window list) result" where
  "build_windows inputs config =
     rbind (wf_guard (wc_span config \<le> int (record_count inputs))
       (''cannot form a single full window: '' @ nat_str (record_count inputs) @ '' records available, '' @ nat_str (nat (wc_span config)) @ '' required'')) (\<lambda>_.
     rmap (build_window inputs config) [0..period_count inputs config - 1])"

section \<open>Results of the periods\<close>

record window_result =
  wr_window :: walk_forward_window
  wr_is_metrics :: backtest_metrics
  wr_oos_metrics :: backtest_metrics
  wr_metadata :: metadata

definition validate_carried_metrics :: "backtest_metrics \<Rightarrow> string \<Rightarrow> (backtest_error, unit) result" where
  "validate_carried_metrics m label =
     rbind (wf_guard (pred_option (\<lambda>w. 0 \<le> w \<and> w \<le> 1) (bm_win_rate m))
       (''runner contract: '' @ label @ ''.win_rate must be None or a finite Decimal in [0, 1]'')) (\<lambda>_.
     rbind (wf_guard (pred_option (\<lambda>p. 0 \<le> p) (bm_profit_factor m))
       (''runner contract: '' @ label @ ''.profit_factor must be None or a finite non-negative Decimal'')) (\<lambda>_.
     wf_guard (0 \<le> bm_max_drawdown m \<and> bm_max_drawdown m \<le> 1)
       (''runner contract: '' @ label @ ''.max_drawdown must be a finite Decimal in [0, 1]'')))"

definition mk_window_result :: "window_result \<Rightarrow> (backtest_error, window_result) result" where
  "mk_window_result r =
     rbind (validate_carried_metrics (wr_is_metrics r) ''is_metrics'') (\<lambda>_.
     rbind (validate_carried_metrics (wr_oos_metrics r) ''oos_metrics'') (\<lambda>_. Inr r))"

section \<open>Aggregation\<close>

definition AGGREGATED_METRICS :: "string list" where
  "AGGREGATED_METRICS = [''total_return'', ''win_rate'', ''profit_factor'', ''max_drawdown'', ''sharpe_ratio'', ''trade_count'']"

definition DEGRADATION_METRICS :: "string list" where
  "DEGRADATION_METRICS = [''total_return'', ''win_rate'', ''profit_factor'', ''max_drawdown'', ''sharpe_ratio'']"

definition degradation_direction :: "string \<Rightarrow> int" where
  "degradation_direction metric = (if metric = ''max_drawdown'' then -1 else 1)"

text \<open>\<^verbatim>\<open>getattr(metrics, metric)\<close> for an aggregated metric, as a decimal.\<close>

definition metric_value :: "string \<Rightarrow> backtest_metrics \<Rightarrow> decimal option" where
  "metric_value metric m =
     (if metric = ''total_return'' then Some (bm_total_return m)
      else if metric = ''win_rate'' then bm_win_rate m
      else if metric = ''profit_factor'' then bm_profit_factor m
      else if metric = ''max_drawdown'' then Some (bm_max_drawdown m)
      else if metric = ''sharpe_ratio'' then bm_sharpe_ratio m
      else Some (dnat (bm_trade_count m)))"

record metric_stats =
  mt_mean :: "decimal option"
  mt_median :: "decimal option"
  mt_stdev :: "decimal option"
  mt_count :: nat

definition mk_metric_stats :: "metric_stats \<Rightarrow> (backtest_error, metric_stats) result" where
  "mk_metric_stats s =
     rbind (if mt_count s = 0
         then wf_guard (mt_mean s = None \<and> mt_median s = None \<and> mt_stdev s = None) ''count == 0 requires all stats to be None''
         else wf_guard (mt_mean s \<noteq> None \<and> mt_median s \<noteq> None) ''count > 0 requires mean and median to be defined'') (\<lambda>_.
     rbind (wf_guard (\<not> (mt_count s = 1 \<and> mt_stdev s \<noteq> None))
       ''count == 1 must report stdev as None (single-value dispersion is not assessable)'') (\<lambda>_. Inr s))"

record metric_aggregate =
  ma_metric :: string
  ma_is_stats :: metric_stats
  ma_oos_stats :: metric_stats
  ma_degradation :: "decimal option"

definition mk_metric_aggregate :: "metric_aggregate \<Rightarrow> (backtest_error, metric_aggregate) result" where
  "mk_metric_aggregate a =
     rbind (wf_guard (ma_metric a \<in> set AGGREGATED_METRICS) (''metric '' @ ma_metric a @ '' is not a member of AGGREGATED_METRICS'')) (\<lambda>_.
     rbind (wf_guard (\<not> (ma_metric a = ''trade_count'' \<and> ma_degradation a \<noteq> None))
       ''trade_count degradation is structurally undefined and must be None'') (\<lambda>_. Inr a))"

record walk_forward_aggregate =
  wa_period_count :: nat
  wa_metrics :: "metric_aggregate list"

definition mk_walk_forward_aggregate :: "walk_forward_aggregate \<Rightarrow> (backtest_error, walk_forward_aggregate) result" where
  "mk_walk_forward_aggregate a =
     rbind (wf_guard (1 \<le> wa_period_count a) ''period_count must be a positive int'') (\<lambda>_.
     rbind (wf_guard (length (wa_metrics a) = length AGGREGATED_METRICS)
       ''metrics must be a tuple of MetricAggregate with one entry per AGGREGATED_METRICS'') (\<lambda>_.
     rbind (wf_guard (map ma_metric (wa_metrics a) = AGGREGATED_METRICS) ''metrics must be in AGGREGATED_METRICS order'') (\<lambda>_. Inr a)))"

definition compute_median :: "decimal list \<Rightarrow> (backtest_error, decimal) result" where
  "compute_median values =
     (let n = length values; ordered = sort_key dval values in
      if n mod 2 = 1 then Inr (ordered ! (n div 2))
      else divide_by (ordered ! (n div 2 - 1) + ordered ! (n div 2)) (Dec 2 0))"

definition compute_metric_stats :: "decimal list \<Rightarrow> (backtest_error, metric_stats) result" where
  "compute_metric_stats values =
     (let n = length values in
      if n = 0 then mk_metric_stats \<lparr>mt_mean = None, mt_median = None, mt_stdev = None, mt_count = 0\<rparr>
      else rbind (divide_by (dsum values) (dnat n)) (\<lambda>mean.
           rbind (compute_median values) (\<lambda>median.
           rbind (if 2 \<le> n
               then rbind (divide_by (dsum (map (\<lambda>v. dsquare (v - mean)) values)) (dnat n)) (\<lambda>variance.
                    rbind (of_opt DecimalError (dsqrt variance)) (\<lambda>sd. Inr (Some sd)))
               else Inr None) (\<lambda>stdev.
           mk_metric_stats \<lparr>mt_mean = Some mean, mt_median = Some median, mt_stdev = stdev, mt_count = n\<rparr>))))"

definition compute_degradation :: "string \<Rightarrow> decimal option \<Rightarrow> decimal option \<Rightarrow> (backtest_error, decimal option) result" where
  "compute_degradation metric is_mean oos_mean =
     (case (is_mean, oos_mean) of
        (Some i, Some q) \<Rightarrow>
          divide_if (metric \<in> set DEGRADATION_METRICS \<and> \<not> deq i 0) (dec_of_int (degradation_direction metric) * (i - q)) (dabs i)
      | _ \<Rightarrow> Inr None)"

definition aggregate_metric :: "window_result list \<Rightarrow> string \<Rightarrow> (backtest_error, metric_aggregate) result" where
  "aggregate_metric periods metric =
     rbind (compute_metric_stats (List.map_filter (\<lambda>p. metric_value metric (wr_is_metrics p)) periods)) (\<lambda>is_stats.
     rbind (compute_metric_stats (List.map_filter (\<lambda>p. metric_value metric (wr_oos_metrics p)) periods)) (\<lambda>oos_stats.
     rbind (compute_degradation metric (mt_mean is_stats) (mt_mean oos_stats)) (\<lambda>degradation.
     mk_metric_aggregate \<lparr>ma_metric = metric, ma_is_stats = is_stats, ma_oos_stats = oos_stats, ma_degradation = degradation\<rparr>)))"

definition gap_free :: "window_result list \<Rightarrow> bool" where
  "gap_free periods \<longleftrightarrow> map (\<lambda>p. ww_index (wr_window p)) periods = [0..int (length periods) - 1]"

definition aggregate_periods :: "window_result list \<Rightarrow> (backtest_error, walk_forward_aggregate) result" where
  "aggregate_periods periods =
     rbind (wf_guard (periods \<noteq> []) ''periods must be a non-empty tuple of WindowBacktestResult'') (\<lambda>_.
     rbind (wf_guard (gap_free periods) ''periods must be strictly ascending and gap-free (window.index must equal the position)'') (\<lambda>_.
     rbind (rmap (aggregate_metric periods) AGGREGATED_METRICS) (\<lambda>ms.
     mk_walk_forward_aggregate \<lparr>wa_period_count = length periods, wa_metrics = ms\<rparr>)))"

section \<open>The run\<close>

record walk_forward_result =
  wf_config :: walk_forward_config
  wf_input_sha256 :: string
  wf_dataset_id :: string
  wf_source :: string
  wf_periods :: "window_result list"
  wf_aggregate :: walk_forward_aggregate
  wf_record_count :: int
  wf_covered_records :: int
  wf_uncovered_records :: int

definition mk_walk_forward_result :: "walk_forward_result \<Rightarrow> (backtest_error, walk_forward_result) result" where
  "mk_walk_forward_result r =
     rbind (wf_guard (\<not> blank (wf_input_sha256 r)) ''input_sha256 must be a non-empty string'') (\<lambda>_.
     rbind (wf_guard (\<not> blank (wf_dataset_id r)) ''dataset_id must be a non-empty string'') (\<lambda>_.
     rbind (wf_guard (\<not> blank (wf_source r)) ''source must be a non-empty string'') (\<lambda>_.
     rbind (wf_guard (wf_periods r \<noteq> []) ''periods must be a non-empty tuple of WindowBacktestResult'') (\<lambda>_.
     rbind (wf_guard (gap_free (wf_periods r)) ''periods must be strictly ascending and gap-free (window.index must equal the period position)'') (\<lambda>_.
     rbind (wf_guard (wa_period_count (wf_aggregate r) = length (wf_periods r)) ''aggregate.period_count must equal len(periods)'') (\<lambda>_.
     rbind (wf_guard (0 \<le> wf_record_count r) ''record_count must be a non-negative int'') (\<lambda>_.
     rbind (wf_guard (0 \<le> wf_covered_records r) ''covered_records must be a non-negative int'') (\<lambda>_.
     rbind (wf_guard (0 \<le> wf_uncovered_records r) ''uncovered_records must be a non-negative int'') (\<lambda>_.
     rbind (wf_guard (wf_covered_records r + wf_uncovered_records r = wf_record_count r) ''covered_records + uncovered_records must equal record_count'') (\<lambda>_.
     Inr r))))))))))"

definition run_period ::
  "(walk_forward_window \<Rightarrow> (backtest_error, window_result) result) \<Rightarrow> walk_forward_window \<Rightarrow> (backtest_error, window_result) result" where
  "run_period runner w =
     rbind (runner w) (\<lambda>r.
     rbind (wf_guard (wr_window r = w)
       (''runner contract: period '' @ nat_str (nat (ww_index w)) @ '' returned a result for a different window'')) (\<lambda>_. Inr r))"

text \<open>The byte array of covered records.\<close>

fun mark_slices :: "bool list \<Rightarrow> window_slice list \<Rightarrow> bool list" where
  "mark_slices covered [] = covered"
| "mark_slices covered (s # ss) =
     mark_slices (take (nat (ws_start_index s)) covered @ replicate (nat (ws_end_index s - ws_start_index s)) True
       @ drop (nat (ws_end_index s)) covered) ss"

definition covered_count :: "nat \<Rightarrow> walk_forward_window list \<Rightarrow> int" where
  "covered_count n ws =
     int (count_of id (mark_slices (replicate n False) (concat (map (\<lambda>w. [ww_train w, ww_validation w, ww_test w]) ws))))"

definition run_walk_forward ::
  "(string \<Rightarrow> string) \<Rightarrow> backtest_input \<Rightarrow> walk_forward_config \<Rightarrow> (walk_forward_window \<Rightarrow> (backtest_error, window_result) result)
   \<Rightarrow> (backtest_error, walk_forward_result) result" where
  "run_walk_forward sha inputs config runner =
     rbind (build_windows inputs config) (\<lambda>windows.
     rbind (rmap (run_period runner) windows) (\<lambda>periods.
     rbind (aggregate_periods periods) (\<lambda>aggregate.
     let covered = covered_count (record_count inputs) windows in
     mk_walk_forward_result
       \<lparr>wf_config = config, wf_input_sha256 = content_sha256 sha (bi_records inputs), wf_dataset_id = bi_dataset_id inputs,
        wf_source = bi_source inputs, wf_periods = periods, wf_aggregate = aggregate, wf_record_count = int (record_count inputs),
        wf_covered_records = covered, wf_uncovered_records = int (record_count inputs) - covered\<rparr>)))"

section \<open>Overfitting assessment\<close>

datatype overfitting_risk = OR_LOW | OR_MEDIUM | OR_HIGH

definition DEGRADATION_THRESHOLD :: decimal where "DEGRADATION_THRESHOLD = Dec 5 (-1)"
definition LOW_TRADE_COUNT_THRESHOLD :: nat where "LOW_TRADE_COUNT_THRESHOLD = 30"
definition MAX_RETURN_SANITY_BOUND :: decimal where "MAX_RETURN_SANITY_BOUND = Dec 100 0"
definition DEPENDENCY_CV_THRESHOLD :: decimal where "DEPENDENCY_CV_THRESHOLD = Dec 10 (-1)"
definition MIN_PERIODS_FOR_ASSESSMENT :: nat where "MIN_PERIODS_FOR_ASSESSMENT = 3"

definition OVERFITTING_FLAG_NAMES :: "string list" where
  "OVERFITTING_FLAG_NAMES =
     [''degradation_total_return'', ''degradation_win_rate'', ''degradation_profit_factor'', ''degradation_max_drawdown'',
      ''degradation_sharpe_ratio'', ''low_oos_trade_count'', ''unrealistic_oos_return'', ''high_period_dependency'']"

definition flag_severity :: "string \<Rightarrow> overfitting_risk" where
  "flag_severity name = (if name \<in> {''low_oos_trade_count'', ''high_period_dependency''} then OR_MEDIUM else OR_HIGH)"

definition severity_rank :: "overfitting_risk \<Rightarrow> nat" where
  "severity_rank r = (case r of OR_LOW \<Rightarrow> 0 | OR_MEDIUM \<Rightarrow> 1 | OR_HIGH \<Rightarrow> 2)"

definition flag_description :: "string \<Rightarrow> string" where
  "flag_description name =
     (if name = ''low_oos_trade_count'' then ''Mean OOS trade count is below the fixed minimum''
      else if name = ''unrealistic_oos_return'' then ''A single OOS window return exceeds the fixed sanity bound''
      else if name = ''high_period_dependency'' then ''OOS total_return coefficient of variation exceeds the fixed threshold''
      else ''OOS '' @ drop (length ''degradation_'') name @ '' degradation exceeds the fixed threshold'')"

record overfitting_flag =
  of_name :: string
  of_description :: string
  of_triggered :: bool
  of_severity :: overfitting_risk
  of_detail :: "string option"

definition mk_flag :: "overfitting_flag \<Rightarrow> (backtest_error, overfitting_flag) result" where
  "mk_flag f =
     rbind (wf_guard (of_name f \<in> set OVERFITTING_FLAG_NAMES) (''flag name '' @ of_name f @ '' is not a member of OVERFITTING_FLAG_NAMES'')) (\<lambda>_.
     rbind (wf_guard (\<not> blank (of_description f)) ''description must be a non-empty string'') (\<lambda>_. Inr f))"

definition flag :: "string \<Rightarrow> bool \<Rightarrow> string \<Rightarrow> (backtest_error, overfitting_flag) result" where
  "flag name triggered detail =
     mk_flag \<lparr>of_name = name, of_description = flag_description name, of_triggered = triggered, of_severity = flag_severity name,
       of_detail = (if triggered then Some detail else None)\<rparr>"

record overfitting_assessment =
  oa_overfitting_risk :: overfitting_risk
  oa_flags :: "overfitting_flag list"
  oa_reasons :: "string list"
  oa_period_count :: nat

definition mk_assessment :: "overfitting_assessment \<Rightarrow> (backtest_error, overfitting_assessment) result" where
  "mk_assessment a =
     rbind (wf_guard (length (oa_flags a) = length OVERFITTING_FLAG_NAMES) ''flags must contain exactly one OverfittingFlag per OVERFITTING_FLAG_NAMES'') (\<lambda>_.
     rbind (wf_guard (map of_name (oa_flags a) = OVERFITTING_FLAG_NAMES) ''flags must be in OVERFITTING_FLAG_NAMES order'') (\<lambda>_.
     rbind (wf_guard (oa_reasons a \<noteq> []) ''reasons must be a non-empty tuple of strings'') (\<lambda>_.
     rbind (wf_guard (list_all (\<lambda>r. \<not> blank r) (oa_reasons a)) ''reasons entries must be non-empty strings'') (\<lambda>_. Inr a))))"

text \<open>\<^verbatim>\<open>by_metric[metric]\<close>; the constructor of the aggregate has checked that every metric is present.\<close>

definition metric_entry :: "walk_forward_aggregate \<Rightarrow> string \<Rightarrow> (backtest_error, metric_aggregate) result" where
  "metric_entry a metric = of_opt (TypeError (''KeyError: '' @ metric)) (find (\<lambda>e. ma_metric e = metric) (rev (wa_metrics a)))"

definition opt_decimal_str :: "decimal option \<Rightarrow> string" where
  "opt_decimal_str d = (case d of None \<Rightarrow> ''None'' | Some x \<Rightarrow> decimal_str x)"

definition degradation_flag :: "walk_forward_aggregate \<Rightarrow> string \<Rightarrow> (backtest_error, overfitting_flag) result" where
  "degradation_flag a metric =
     rbind (metric_entry a metric) (\<lambda>e.
     flag (''degradation_'' @ metric) (case ma_degradation e of None \<Rightarrow> False | Some d \<Rightarrow> DEGRADATION_THRESHOLD < d)
       (''degradation='' @ opt_decimal_str (ma_degradation e) @ '' (> '' @ decimal_str DEGRADATION_THRESHOLD @ ''); IS mean='' @ opt_decimal_str (mt_mean (ma_is_stats e))
         @ ''; OOS mean='' @ opt_decimal_str (mt_mean (ma_oos_stats e))))"

definition dependency_cv :: "decimal option \<Rightarrow> decimal option \<Rightarrow> (backtest_error, decimal option) result" where
  "dependency_cv stdev mean =
     (case (stdev, mean) of (Some s, Some m) \<Rightarrow> divide_if (0 < m) s m | _ \<Rightarrow> Inr None)"

definition decide_risk :: "decimal option \<Rightarrow> nat \<Rightarrow> overfitting_flag list \<Rightarrow> overfitting_risk \<times> string list \<times> bool" where
  "decide_risk mean_oos_trades period_n triggered =
     (if (case mean_oos_trades of None \<Rightarrow> False | Some m \<Rightarrow> deq m 0) then (OR_LOW, [''zero OOS trades; nothing assessable''], True)
      else if period_n < MIN_PERIODS_FOR_ASSESSMENT
      then (OR_LOW, [''fewer than '' @ nat_str MIN_PERIODS_FOR_ASSESSMENT @ '' periods; cross-window statistics are degenerate''], True)
      else (case max_opt (\<lambda>f g. severity_rank (of_severity f) < severity_rank (of_severity g)) triggered of
              None \<Rightarrow> (OR_LOW, [], False) | Some f \<Rightarrow> (of_severity f, [], False)))"

definition low_trade_flag :: "decimal option \<Rightarrow> (backtest_error, overfitting_flag) result" where
  "low_trade_flag mean_oos_trades =
     flag ''low_oos_trade_count'' (case mean_oos_trades of None \<Rightarrow> False | Some m \<Rightarrow> m < dnat LOW_TRADE_COUNT_THRESHOLD)
       (''mean OOS trades='' @ opt_decimal_str mean_oos_trades @ '' (< '' @ nat_str LOW_TRADE_COUNT_THRESHOLD @ '')'')"

definition unrealistic_flag :: "window_result list \<Rightarrow> (backtest_error, overfitting_flag) result" where
  "unrealistic_flag periods =
     (let max_oos_return = the (max_opt (<) (map (\<lambda>p. bm_total_return (wr_oos_metrics p)) periods)) in
      flag ''unrealistic_oos_return'' (MAX_RETURN_SANITY_BOUND < max_oos_return)
        (''max OOS window return='' @ decimal_str max_oos_return @ '' (> '' @ decimal_str MAX_RETURN_SANITY_BOUND @ '')''))"

definition dependency_flag :: "decimal option \<Rightarrow> decimal option \<Rightarrow> (backtest_error, overfitting_flag) result" where
  "dependency_flag oos_stdev oos_mean =
     rbind (dependency_cv oos_stdev oos_mean) (\<lambda>cv.
     flag ''high_period_dependency'' (case cv of None \<Rightarrow> False | Some c \<Rightarrow> DEPENDENCY_CV_THRESHOLD < c)
       (''OOS total_return CV='' @ opt_decimal_str cv @ '' (> '' @ decimal_str DEPENDENCY_CV_THRESHOLD @ ''); stdev='' @ opt_decimal_str oos_stdev
         @ ''; mean='' @ opt_decimal_str oos_mean))"

definition assessment_reasons :: "string list \<Rightarrow> bool \<Rightarrow> metric_aggregate list \<Rightarrow> overfitting_flag list \<Rightarrow> string list" where
  "assessment_reasons first_reasons degenerate entries triggered =
     first_reasons
     @ map (\<lambda>e. ''degradation not assessable for '' @ ma_metric e @ '': IS mean is zero or undefined'') (filter (\<lambda>e. ma_degradation e = None) entries)
     @ map (\<lambda>f. case of_detail f of None \<Rightarrow> of_description f | Some d \<Rightarrow> d) triggered
     @ (if triggered = [] \<and> \<not> degenerate then [''no overfitting flags triggered''] else [])"

definition assess_overfitting :: "window_result list \<Rightarrow> walk_forward_aggregate \<Rightarrow> (backtest_error, overfitting_assessment) result" where
  "assess_overfitting periods a =
     rbind (wf_guard (periods \<noteq> []) ''periods must be a non-empty tuple of WindowBacktestResult'') (\<lambda>_.
     rbind (wf_guard (wa_period_count a = length periods) ''aggregate.period_count must equal len(periods)'') (\<lambda>_.
     rbind (rmap (degradation_flag a) DEGRADATION_METRICS) (\<lambda>degradation_flags.
     rbind (metric_entry a ''trade_count'') (\<lambda>trade_entry.
     let mean_oos_trades = mt_mean (ma_oos_stats trade_entry) in
     rbind (low_trade_flag mean_oos_trades) (\<lambda>low_trades.
     rbind (unrealistic_flag periods) (\<lambda>unrealistic.
     rbind (metric_entry a ''total_return'') (\<lambda>return_entry.
     rbind (dependency_flag (mt_stdev (ma_oos_stats return_entry)) (mt_mean (ma_oos_stats return_entry))) (\<lambda>dependency.
     let flags = degradation_flags @ [low_trades, unrealistic, dependency];
         triggered = filter of_triggered flags;
         (risk, first_reasons, degenerate) = decide_risk mean_oos_trades (length periods) triggered in
     rbind (rmap (metric_entry a) DEGRADATION_METRICS) (\<lambda>entries.
     mk_assessment
       \<lparr>oa_overfitting_risk = risk, oa_flags = flags, oa_reasons = assessment_reasons first_reasons degenerate entries triggered,
        oa_period_count = length periods\<rparr>)))))))))"

section \<open>The schedule\<close>

lemma coherent_trans: "coherent a r \<Longrightarrow> coherent a q \<Longrightarrow> coherent r q"
  by (auto simp: coherent_def)

lemma cut_nth: "0 \<le> b \<Longrightarrow> e \<le> int (length xs) \<Longrightarrow> i < nat (e - b) \<Longrightarrow> cut_records xs b e ! i = xs ! (nat b + i)"
  by (simp add: cut_records_def)

lemma length_cut: "0 \<le> b \<Longrightarrow> b \<le> e \<Longrightarrow> e \<le> int (length xs) \<Longrightarrow> length (cut_records xs b e) = nat (e - b)"
  by (simp add: cut_records_def)

lemma cut_append: "0 \<le> a \<Longrightarrow> a \<le> b \<Longrightarrow> b \<le> c \<Longrightarrow> cut_records xs a b @ cut_records xs b c = cut_records xs a c"
proof -
  assume o: "0 \<le> a" "a \<le> b" "b \<le> c"
  have "take (nat (b - a) + nat (c - b)) (drop (nat a) xs) = take (nat (b - a)) (drop (nat a) xs) @ take (nat (c - b)) (drop (nat (b - a)) (drop (nat a) xs))"
    by (rule take_add)
  moreover have "nat (b - a) + nat (c - b) = nat (c - a)" "nat (b - a) + nat a = nat b" using o by simp_all
  ultimately show ?thesis by (simp add: cut_records_def)
qed

lemma series_ok_cut: "series_ok rs \<Longrightarrow> series_ok (cut_records rs b e)"
proof -
  assume ok: "series_ok rs"
  have sub: "set (cut_records rs b e) \<subseteq> set rs" unfolding cut_records_def by (meson in_set_dropD in_set_takeD subsetI)
  have "coherent (hd (cut_records rs b e)) r" if "r \<in> set (cut_records rs b e)" for r
    using ok sub that coherent_trans [of "hd rs" "hd (cut_records rs b e)" r] hd_in_set [of "cut_records rs b e"]
    by (fastforce simp: series_ok_def list_all_iff)
  then show ?thesis using ok by (simp add: series_ok_def list_all_iff cut_records_def sorted_wrt_take sorted_wrt_drop)
qed

text \<open>The slice and the input of the records from \<open>b\<close> to \<open>e\<close>, and the window at a position of the schedule.\<close>

definition slice_at :: "backtest_input \<Rightarrow> int \<Rightarrow> int \<Rightarrow> window_slice" where
  "slice_at inputs b e =
     \<lparr>ws_start_index = b, ws_end_index = e, ws_start_timestamp = record_timestamp (bi_records inputs ! nat b),
      ws_end_timestamp = record_timestamp (bi_records inputs ! nat (e - 1))\<rparr>"

abbreviation records_at :: "backtest_input \<Rightarrow> int \<Rightarrow> int \<Rightarrow> backtest_input" where
  "records_at inputs b e \<equiv> inputs\<lparr>bi_records := cut_records (bi_records inputs) b e\<rparr>"

definition window_at :: "backtest_input \<Rightarrow> walk_forward_config \<Rightarrow> int \<Rightarrow> walk_forward_window" where
  "window_at inputs c k =
     (let a = k * wc_step_records c; b = a + wc_training_records c; d = b + wc_validation_records c; e = d + wc_test_records c in
      \<lparr>ww_index = k, ww_train = slice_at inputs a b, ww_validation = slice_at inputs b d, ww_test = slice_at inputs d e,
       ww_train_input = records_at inputs a b, ww_validation_input = records_at inputs b d, ww_test_input = records_at inputs d e\<rparr>)"

lemma config_exact:
  "mk_walk_forward_config c = Inr c' \<longleftrightarrow> c' = c \<and> 1 \<le> wc_training_records c \<and> 1 \<le> wc_validation_records c \<and> 1 \<le> wc_test_records c
     \<and> wc_test_records c \<le> wc_step_records c"
  by (auto simp: mk_walk_forward_config_def result_simps)

lemma series_less: "series_ok rs \<Longrightarrow> i < j \<Longrightarrow> j < length rs \<Longrightarrow> rec_time (rs ! i) < rec_time (rs ! j)"
  by (auto simp: series_ok_def sorted_wrt_iff_nth_less)

lemma series_aware: "series_ok rs \<Longrightarrow> i < length rs \<Longrightarrow> tz_aware (record_timestamp (rs ! i))"
  by (auto simp: series_ok_def list_all_length coherent_def)

lemma cut_ends:
  assumes "0 \<le> b" "b < e" "e \<le> int (length xs)"
  shows "cut_records xs b e \<noteq> []" "hd (cut_records xs b e) = xs ! nat b" "last (cut_records xs b e) = xs ! nat (e - 1)"
proof -
  have n: "length (cut_records xs b e) = nat (e - b)" using assms by (simp add: length_cut)
  then show ne: "cut_records xs b e \<noteq> []" using assms(2) by (cases "cut_records xs b e") auto
  show "hd (cut_records xs b e) = xs ! nat b" using cut_nth [of b e xs 0] assms by (simp add: hd_conv_nth [OF ne])
  have "nat b + (nat (e - b) - 1) = nat (e - 1)" using assms by linarith
  then show "last (cut_records xs b e) = xs ! nat (e - 1)"
    using cut_nth [of b e xs "nat (e - b) - 1"] assms by (simp add: last_conv_nth [OF ne] n)
qed

lemma slice_ok:
  assumes "mk_backtest_input inputs = Inr inputs" "0 \<le> b" "b < e" "e \<le> int (record_count inputs)"
  shows "slice_of inputs b e = Inr (slice_at inputs b e)" "slice_input inputs b e = Inr (records_at inputs b e)"
    "slice_matches name (records_at inputs b e) (slice_at inputs b e) = Inr ()"
proof -
  let ?rs = "bi_records inputs"
  have ok: "series_ok ?rs" and n: "e \<le> int (length ?rs)" using assms by (auto simp: backtest_input_exact record_count_def)
  have i: "nat b < length ?rs" "nat (e - 1) < length ?rs" "nat b \<le> nat (e - 1)" using assms n by linarith+
  then have "rec_time (?rs ! nat b) \<le> rec_time (?rs ! nat (e - 1))"
    using series_less [OF ok, OF _ i(2)] by (metis le_neq_implies_less less_imp_le order_refl)
  then show "slice_of inputs b e = Inr (slice_at inputs b e)"
    using assms series_aware [OF ok i(1)] series_aware [OF ok i(2)] by (simp add: slice_of_def slice_at_def mk_window_slice_def)
  note c = cut_ends [OF assms(2,3) n]
  show "slice_input inputs b e = Inr (records_at inputs b e)"
    using assms(1) series_ok_cut [OF ok] c(1) by (auto simp: slice_input_def backtest_input_exact)
  show "slice_matches name (records_at inputs b e) (slice_at inputs b e) = Inr ()"
    using c assms(2,3) n by (simp add: slice_matches_def slice_at_def record_count_def first_timestamp_def last_timestamp_def length_cut)
qed

lemma build_window_ok:
  assumes "mk_backtest_input inputs = Inr inputs" "mk_walk_forward_config c = Inr c" "0 \<le> k"
    and "k * wc_step_records c + wc_span c \<le> int (record_count inputs)"
  shows "build_window inputs c k = Inr (window_at inputs c k)"
proof -
  define a b d e where e: "a = k * wc_step_records c" "b = a + wc_training_records c" "d = b + wc_validation_records c" "e = d + wc_test_records c"
  have o: "0 \<le> a" "a < b" "b < d" "d < e" "e \<le> int (record_count inputs)"
    using assms by (auto simp: e config_exact wc_span_def intro: mult_nonneg_nonneg)
  have ok: "series_ok (bi_records inputs)" using assms by (auto simp: backtest_input_exact)
  have t: "rec_time (bi_records inputs ! nat a) < rec_time (bi_records inputs ! nat (d - 1))"
    "rec_time (bi_records inputs ! nat (d - 1)) < rec_time (bi_records inputs ! nat (e - 1))"
    using o by (auto intro!: series_less [OF ok] simp: record_count_def)
  have w: "window_at inputs c k = \<lparr>ww_index = k, ww_train = slice_at inputs a b, ww_validation = slice_at inputs b d, ww_test = slice_at inputs d e,
       ww_train_input = records_at inputs a b, ww_validation_input = records_at inputs b d, ww_test_input = records_at inputs d e\<rparr>"
    by (simp add: window_at_def Let_def e)
  have "mk_window (window_at inputs c k) = Inr (window_at inputs c k)"
    using o t assms(3) slice_ok(3) [OF assms(1), of a b] slice_ok(3) [OF assms(1), of b d] slice_ok(3) [OF assms(1), of d e]
    by (simp add: w mk_window_def slice_at_def)
  then show ?thesis
    using o slice_ok(1,2) [OF assms(1), of a b] slice_ok(1,2) [OF assms(1), of b d] slice_ok(1,2) [OF assms(1), of d e]
    by (simp add: build_window_def Let_def flip: e) (simp add: w)
qed

lemma period_fits:
  assumes "mk_walk_forward_config c = Inr c" "wc_span c \<le> int (record_count inputs)" "0 \<le> k" "k < period_count inputs c"
  shows "k * wc_step_records c + wc_span c \<le> int (record_count inputs)"
proof -
  have "0 < wc_step_records c" using assms(1) by (auto simp: config_exact)
  moreover have "k \<le> (int (record_count inputs) - wc_span c) div wc_step_records c" using assms(4) by (simp add: period_count_def)
  ultimately have "k * wc_step_records c \<le> int (record_count inputs) - wc_span c"
    by (metis (no_types) div_mult_mod_eq le_add_same_cancel1 mult_right_mono order.strict_implies_order order_trans pos_mod_sign)
  then show ?thesis by simp
qed

lemma build_windows_ok:
  assumes "mk_backtest_input inputs = Inr inputs" "mk_walk_forward_config c = Inr c" "wc_span c \<le> int (record_count inputs)"
  shows "build_windows inputs c = Inr (map (window_at inputs c) [0..period_count inputs c - 1])"
  using assms period_fits [OF assms(2,3)] build_window_ok [OF assms(1,2)]
  by (auto simp: build_windows_def rmap_eq_Inr list_all2_conv_all_nth)

text \<open>What a runner of window \<open>k\<close> is given: its own records, with the test strictly after the rest.\<close>

definition window_clean :: "backtest_input \<Rightarrow> walk_forward_config \<Rightarrow> nat \<Rightarrow> walk_forward_window \<Rightarrow> bool" where
  "window_clean inputs c k w \<longleftrightarrow>
     (let train = bi_records (ww_train_input w); validation = bi_records (ww_validation_input w); test = bi_records (ww_test_input w);
          start = int k * wc_step_records c in
      train @ validation @ test = cut_records (bi_records inputs) start (start + wc_span c)
      \<and> int (length train) = wc_training_records c \<and> int (length validation) = wc_validation_records c \<and> int (length test) = wc_test_records c
      \<and> list_all (\<lambda>r. list_all (\<lambda>q. rec_time r < rec_time q) test) (train @ validation))"

lemma window_at_clean:
  assumes "mk_backtest_input inputs = Inr inputs" "mk_walk_forward_config c = Inr c"
    and "int k * wc_step_records c + wc_span c \<le> int (record_count inputs)"
  shows "window_clean inputs c k (window_at inputs c (int k))"
proof -
  define a b d e where e: "a = int k * wc_step_records c" "b = a + wc_training_records c" "d = b + wc_validation_records c" "e = d + wc_test_records c"
  let ?rs = "bi_records inputs"
  have o: "0 \<le> a" "a < b" "b < d" "d < e" "e \<le> int (length ?rs)" "a + wc_span c = e"
    using assms by (auto simp: e config_exact wc_span_def record_count_def)
  have ap: "cut_records ?rs a b @ cut_records ?rs b d = cut_records ?rs a d" "cut_records ?rs a d @ cut_records ?rs d e = cut_records ?rs a e" using o by (auto intro: cut_append)
  have "series_ok (cut_records ?rs a e)" using assms(1) series_ok_cut by (auto simp: backtest_input_exact)
  then have "sorted_wrt (\<lambda>x y. rec_time x < rec_time y) (cut_records ?rs a d @ cut_records ?rs d e)" using ap(2) by (simp add: series_ok_def)
  then have "list_all (\<lambda>r. list_all (\<lambda>q. rec_time r < rec_time q) (cut_records ?rs d e)) (cut_records ?rs a b @ cut_records ?rs b d)"
    by (simp add: ap(1) sorted_wrt_append list_all_iff)
  moreover have "cut_records ?rs a b @ cut_records ?rs b d @ cut_records ?rs d e = cut_records ?rs a e" using ap by (metis append.assoc)
  moreover have "b - a = wc_training_records c" "d - b = wc_validation_records c" "e - d = wc_test_records c" by (simp_all add: e)
  ultimately show ?thesis using o by (simp add: window_clean_def window_at_def length_cut flip: e)
qed

text \<open>C39.  The schedule is complete and free of leakage.  For an accepted input and configuration the schedule is built exactly
  when one full window fits; then window \<open>k\<close> holds, cut into training, validation and test records, exactly the records from
  \<open>k\<close> steps on, and every test record is strictly later than every training and validation record of its window; the test slices
  of two windows do not overlap; and the last window leaves fewer records than one step.\<close>

theorem walk_forward_schedule:
  assumes "mk_backtest_input inputs = Inr inputs" "mk_walk_forward_config c = Inr c"
  shows "((\<exists>ws. build_windows inputs c = Inr ws) \<longleftrightarrow> wc_span c \<le> int (record_count inputs)) \<and>
    (\<forall>ws. build_windows inputs c = Inr ws \<longrightarrow>
       (\<forall>k<length ws. window_clean inputs c k (ws ! k))
       \<and> (\<forall>i j. i < j \<and> j < length ws \<longrightarrow> ws_end_index (ww_test (ws ! i)) \<le> ws_start_index (ww_test (ws ! j)))
       \<and> int (record_count inputs) < int (length ws) * wc_step_records c + wc_span c)"
proof -
  let ?n = "int (record_count inputs)" and ?P = "period_count inputs c" and ?s = "wc_step_records c"
  have c: "1 \<le> wc_test_records c" "wc_test_records c \<le> ?s" using assms(2) by (auto simp: config_exact)
  have short: "wc_span c \<le> ?n" if "build_windows inputs c = Inr ws" for ws using that by (auto simp: build_windows_def result_simps)
  have clean: "window_clean inputs c k (window_at inputs c (int k))" if "wc_span c \<le> ?n" "int k < ?P" for k
    using window_at_clean [OF assms] period_fits [OF assms(2)] that by simp
  have apart: "ws_end_index (ww_test (window_at inputs c i)) \<le> ws_start_index (ww_test (window_at inputs c j))" if "i < j" for i j
    using that c mult_right_mono [of "i + 1" j ?s] by (simp add: window_at_def slice_at_def Let_def algebra_simps)
  have remainder: "?n < ?P * ?s + wc_span c"
  proof -
    have "(?n - wc_span c) mod ?s < ?s" using c by (intro pos_mod_bound) simp
    moreover have "?P * ?s = (?n - wc_span c) div ?s * ?s + ?s" by (simp add: period_count_def algebra_simps)
    ultimately show ?thesis using div_mult_mod_eq [of "?n - wc_span c" ?s] by linarith
  qed
  have "0 \<le> ?P" if "wc_span c \<le> ?n" using that c by (simp add: period_count_def pos_imp_zdiv_nonneg_iff)
  then show ?thesis
    using short build_windows_ok [OF assms] clean apart remainder by (auto simp: nth_append)
qed

section \<open>The run\<close>

text \<open>The record positions of a window, and how many records the windows cover.\<close>

definition in_window :: "walk_forward_window \<Rightarrow> nat \<Rightarrow> bool" where
  "in_window w i \<longleftrightarrow> ws_start_index (ww_train w) \<le> int i \<and> int i < ws_end_index (ww_test w)"

lemma mark_slice_nth:
  assumes "0 \<le> b" "b \<le> e" "e \<le> int (length cov)" "i < length cov"
  shows "(take (nat b) cov @ replicate (nat (e - b)) True @ drop (nat e) cov) ! i = (cov ! i \<or> (b \<le> int i \<and> int i < e))"
    "length (take (nat b) cov @ replicate (nat (e - b)) True @ drop (nat e) cov) = length cov"
proof -
  have b: "nat b + nat (e - b) = nat e" "nat b \<le> nat e" "nat e \<le> length cov" using assms by linarith+
  then show "length (take (nat b) cov @ replicate (nat (e - b)) True @ drop (nat e) cov) = length cov" by simp
  show "(take (nat b) cov @ replicate (nat (e - b)) True @ drop (nat e) cov) ! i = (cov ! i \<or> (b \<le> int i \<and> int i < e))"
  proof (cases "i < nat e")
    case True
    then have "i - nat b < nat (e - b)" if "\<not> i < nat b" using that b(1) by linarith
    then show ?thesis using True b assms by (auto simp: nth_append)
  next
    case False
    then have "\<not> i < nat b" "\<not> i - nat b < nat (e - b)" "nat e + (i - nat b - nat (e - b)) = i" "\<not> int i < e" using b by linarith+
    then show ?thesis using False b assms by (simp add: nth_append)
  qed
qed

lemma mark_slices_nth:
  assumes "\<And>s. s \<in> set ss \<Longrightarrow> 0 \<le> ws_start_index s \<and> ws_start_index s \<le> ws_end_index s \<and> ws_end_index s \<le> int (length cov)"
  shows "length (mark_slices cov ss) = length cov \<and>
    (\<forall>i<length cov. mark_slices cov ss ! i = (cov ! i \<or> (\<exists>s\<in>set ss. ws_start_index s \<le> int i \<and> int i < ws_end_index s)))"
  using assms
proof (induction cov ss rule: mark_slices.induct)
  case (2 cov s ss)
  let ?c = "take (nat (ws_start_index s)) cov @ replicate (nat (ws_end_index s - ws_start_index s)) True @ drop (nat (ws_end_index s)) cov"
  have s: "0 \<le> ws_start_index s" "ws_start_index s \<le> ws_end_index s" "ws_end_index s \<le> int (length cov)" using "2.prems" by auto
  have len: "length ?c = length cov" using s by auto
  show ?case using "2.IH" "2.prems" mark_slice_nth(1) [OF s] unfolding len mark_slices.simps by auto
qed simp

definition window_bounds :: "int \<Rightarrow> walk_forward_window \<Rightarrow> bool" where
  "window_bounds n w \<longleftrightarrow> 0 \<le> ws_start_index (ww_train w) \<and> ws_start_index (ww_train w) < ws_end_index (ww_train w)
    \<and> ws_end_index (ww_train w) = ws_start_index (ww_validation w) \<and> ws_start_index (ww_validation w) < ws_end_index (ww_validation w)
    \<and> ws_end_index (ww_validation w) = ws_start_index (ww_test w) \<and> ws_start_index (ww_test w) < ws_end_index (ww_test w)
    \<and> ws_end_index (ww_test w) \<le> n"

lemma window_at_bounds:
  "mk_walk_forward_config c = Inr c \<Longrightarrow> 0 \<le> k \<Longrightarrow> k * wc_step_records c + wc_span c \<le> n \<Longrightarrow> window_bounds n (window_at inputs c k)"
  by (auto simp: window_bounds_def window_at_def slice_at_def Let_def config_exact wc_span_def)

lemma coverage_exact:
  assumes "mk_walk_forward_config c = Inr c" "wc_span c \<le> int (record_count inputs)"
    and "ws = map (window_at inputs c) [0..period_count inputs c - 1]"
  shows "covered_count (record_count inputs) ws = int (card {i. i < record_count inputs \<and> (\<exists>w\<in>set ws. in_window w i)})"
proof -
  let ?n = "record_count inputs" and ?ss = "concat (map (\<lambda>w. [ww_train w, ww_validation w, ww_test w]) ws)"
  have b: "window_bounds (int ?n) w" if "w \<in> set ws" for w
    using that window_at_bounds [OF assms(1) _ period_fits [OF assms(1,2)]] by (auto simp: assms(3))
  have "0 \<le> ws_start_index s \<and> ws_start_index s \<le> ws_end_index s \<and> ws_end_index s \<le> int (length (replicate ?n False))" if "s \<in> set ?ss" for s
    using that b by (fastforce simp: window_bounds_def)
  note m = mark_slices_nth [of ?ss, OF this]
  have "(\<exists>s\<in>set ?ss. ws_start_index s \<le> int i \<and> int i < ws_end_index s) \<longleftrightarrow> (\<exists>w\<in>set ws. in_window w i)" for i
  proof -
    have "(\<exists>s\<in>{ww_train w, ww_validation w, ww_test w}. ws_start_index s \<le> int i \<and> int i < ws_end_index s) \<longleftrightarrow> in_window w i" if "w \<in> set ws" for w
      using b [OF that] by (auto simp: in_window_def window_bounds_def)
    then show ?thesis by (auto simp: Bex_def)
  qed
  then have "{i. i < length (mark_slices (replicate ?n False) ?ss) \<and> mark_slices (replicate ?n False) ?ss ! i} =
      {i. i < ?n \<and> (\<exists>w\<in>set ws. in_window w i)}"
    using m by (simp only: length_replicate nth_replicate simp_thms cong: conj_cong)
  then show ?thesis by (simp add: covered_count_def length_filter_conv_card)
qed

lemma median_defined: "\<exists>m. compute_median vs = Inr m"
  using divide_by_defined [of "Dec 2 0"] by (simp add: compute_median_def Let_def dval_def)

lemma metric_stats_defined: "\<exists>s. compute_metric_stats vs = Inr s \<and> (mt_mean s = None \<longleftrightarrow> vs = [])"
proof (cases "vs = []")
  case False
  then have n: "dval (dnat (length vs)) \<noteq> 0" by simp
  obtain mean where mean: "divide_by (dsum vs) (dnat (length vs)) = Inr mean" using divide_by_defined [OF n] by blast
  obtain median where median: "compute_median vs = Inr median" using median_defined by blast
  show ?thesis
  proof (cases "2 \<le> length vs")
    case True
    then obtain m r where "divide_by (dsum (map (\<lambda>v. dsquare (v - mean)) vs)) (dnat (length vs)) = Inr m" "dsqrt m = Some r"
      by (rule root_mean_square)
    then show ?thesis using False mean median True by (simp add: compute_metric_stats_def Let_def mk_metric_stats_def)
  qed (use False mean median in \<open>simp add: compute_metric_stats_def Let_def mk_metric_stats_def\<close>)
qed (simp add: compute_metric_stats_def mk_metric_stats_def)

lemma dabs_pos: "dval i \<noteq> 0 \<Longrightarrow> 0 < dval (dabs i)"
  using dval_neg_iff [of i] dval_pos_iff [of "Dec (- coeff i) (expo i)"] by (auto simp: dabs_def dneg_def intro!: dfix_pos)

lemma degradation_defined: "\<exists>d. compute_degradation metric i q = Inr d"
proof (cases "i = None \<or> q = None")
  case False
  then obtain x y where [simp]: "i = Some x" "q = Some y" by auto
  have "\<not> deq x 0 \<Longrightarrow> dval (dabs x) \<noteq> 0" using dabs_pos [of x] by (auto simp: decimal_order)
  then show ?thesis unfolding compute_degradation_def by (simp add: divide_if_defined)
qed (auto simp: compute_degradation_def split: option.splits)

lemma trade_count_no_degradation: "''trade_count'' \<notin> set DEGRADATION_METRICS"
  by (simp add: DEGRADATION_METRICS_def)

lemma aggregate_metric_defined:
  assumes "metric \<in> set AGGREGATED_METRICS"
  shows "\<exists>a. aggregate_metric ps metric = Inr a \<and> ma_metric a = metric"
proof -
  obtain s t where st: "compute_metric_stats (List.map_filter (\<lambda>p. metric_value metric (wr_is_metrics p)) ps) = Inr s"
    "compute_metric_stats (List.map_filter (\<lambda>p. metric_value metric (wr_oos_metrics p)) ps) = Inr t"
    by (meson metric_stats_defined)
  obtain d where d: "compute_degradation metric (mt_mean s) (mt_mean t) = Inr d" using degradation_defined by blast
  have "\<not> (metric = ''trade_count'' \<and> d \<noteq> None)"
    using d trade_count_no_degradation by (auto simp: compute_degradation_def divide_if_def split: option.splits)
  then show ?thesis using assms by (simp add: aggregate_metric_def st d mk_metric_aggregate_def)
qed

lemma aggregate_defined:
  assumes "ps \<noteq> []" "gap_free ps"
  shows "\<exists>a. aggregate_periods ps = Inr a \<and> wa_period_count a = length ps \<and> map ma_metric (wa_metrics a) = AGGREGATED_METRICS"
proof -
  obtain ms where ms: "rmap (aggregate_metric ps) AGGREGATED_METRICS = Inr ms" using rmap_defined aggregate_metric_defined by metis
  then have "list_all2 (\<lambda>m a. m \<in> set AGGREGATED_METRICS \<longrightarrow> m = ma_metric a) AGGREGATED_METRICS ms"
    using aggregate_metric_defined [of _ ps] unfolding rmap_eq_Inr by (rule_tac list_all2_mono) (assumption, fastforce)
  then have "map ma_metric ms = AGGREGATED_METRICS"
    unfolding list_all2_conv_all_nth by (intro list_eq_iff_nth_eq [THEN iffD2]) (metis length_map nth_map nth_mem)
  moreover from this have "length ms = length AGGREGATED_METRICS" by (metis length_map)
  ultimately show ?thesis using assms ms by (simp add: aggregate_periods_def mk_walk_forward_aggregate_def Suc_leI)
qed


section \<open>The assessment\<close>

lemma metric_entry_defined:
  assumes "map ma_metric (wa_metrics a) = AGGREGATED_METRICS" "m \<in> set AGGREGATED_METRICS"
  shows "\<exists>e. metric_entry a m = Inr e \<and> ma_metric e = m"
proof -
  have "m \<in> ma_metric ` set (wa_metrics a)" using assms by (metis set_map)
  then obtain e where "find (\<lambda>e. ma_metric e = m) (rev (wa_metrics a)) = Some e"
    by (cases "find (\<lambda>e. ma_metric e = m) (rev (wa_metrics a))") (auto simp: find_None_iff)
  then show ?thesis by (auto simp: metric_entry_def dest: find_Some_iff [THEN iffD1])
qed

text \<open>A flag that gives a reason.\<close>

definition flag_fine :: "string \<Rightarrow> overfitting_flag \<Rightarrow> bool" where
  "flag_fine name f \<longleftrightarrow> of_name f = name \<and> \<not> blank (of_description f) \<and> pred_option (\<lambda>d. \<not> blank d) (of_detail f)"

lemma flag_defined:
  assumes "name \<in> set OVERFITTING_FLAG_NAMES" "\<not> blank d"
  shows "\<exists>f. flag name c d = Inr f \<and> flag_fine name f"
proof -
  have "\<not> blank (flag_description name)" by (simp add: flag_description_def blank_Cons is_space_def)
  then show ?thesis using assms by (simp add: flag_def mk_flag_def flag_fine_def)
qed

lemma degradation_flag_defined:
  assumes "map ma_metric (wa_metrics a) = AGGREGATED_METRICS" "m \<in> set DEGRADATION_METRICS"
  shows "\<exists>f. degradation_flag a m = Inr f \<and> flag_fine (''degradation_'' @ m) f"
proof -
  have m: "m \<in> set AGGREGATED_METRICS" "''degradation_'' @ m \<in> set OVERFITTING_FLAG_NAMES"
    using assms(2) by (auto simp: AGGREGATED_METRICS_def DEGRADATION_METRICS_def OVERFITTING_FLAG_NAMES_def)
  obtain e where e: "metric_entry a m = Inr e" using metric_entry_defined [OF assms(1) m(1)] by blast
  show ?thesis unfolding degradation_flag_def e rbind_simps by (rule flag_defined [OF m(2)]) (simp add: blank_Cons is_space_def)
qed

lemma low_trade_flag_defined: "\<exists>f. low_trade_flag m = Inr f \<and> flag_fine ''low_oos_trade_count'' f"
  unfolding low_trade_flag_def by (rule flag_defined) (simp_all add: OVERFITTING_FLAG_NAMES_def blank_Cons is_space_def)

lemma unrealistic_flag_defined: "\<exists>f. unrealistic_flag ps = Inr f \<and> flag_fine ''unrealistic_oos_return'' f"
  unfolding unrealistic_flag_def Let_def by (rule flag_defined) (simp_all add: OVERFITTING_FLAG_NAMES_def blank_Cons is_space_def)

lemma dependency_cv_defined: "\<exists>cv. dependency_cv s m = Inr cv"
  by (auto simp: dependency_cv_def decimal_order split: option.splits intro!: divide_if_defined)

lemma dependency_flag_defined: "\<exists>f. dependency_flag s m = Inr f \<and> flag_fine ''high_period_dependency'' f"
proof -
  obtain cv where cv: "dependency_cv s m = Inr cv" using dependency_cv_defined by blast
  show ?thesis unfolding dependency_flag_def cv rbind_simps by (rule flag_defined) (simp_all add: OVERFITTING_FLAG_NAMES_def blank_Cons is_space_def)
qed

lemma decide_risk_cases:
  assumes "decide_risk m n fs = (risk, reasons, degenerate)"
  shows "list_all (\<lambda>r. \<not> blank r) reasons" "degenerate \<longleftrightarrow> reasons \<noteq> []"
    "risk \<noteq> OR_LOW \<Longrightarrow> 3 \<le> n \<and> risk \<in> of_severity ` set fs" "n < 3 \<Longrightarrow> risk = OR_LOW \<and> degenerate"
  using assms max_opt_in [of _ fs]
  by (auto simp: decide_risk_def MIN_PERIODS_FOR_ASSESSMENT_def blank_Cons is_space_def split: if_splits option.splits)

text \<open>What the assessment of an aggregate in canonical order returns.\<close>

definition sound_assessment :: "nat \<Rightarrow> overfitting_assessment \<Rightarrow> bool" where
  "sound_assessment n a \<longleftrightarrow> map of_name (oa_flags a) = OVERFITTING_FLAG_NAMES \<and> oa_reasons a \<noteq> [] \<and> oa_period_count a = n
     \<and> (oa_overfitting_risk a = OR_LOW \<or> 3 \<le> n \<and> oa_overfitting_risk a \<in> of_severity ` set (filter of_triggered (oa_flags a)))"

lemma reasons_fine:
  assumes "decide_risk m n fs = (risk, reasons, degenerate)" "\<And>f. f \<in> set fs \<Longrightarrow> flag_fine (of_name f) f"
  shows "assessment_reasons reasons degenerate es fs \<noteq> [] \<and> list_all (\<lambda>r. \<not> blank r) (assessment_reasons reasons degenerate es fs)"
proof -
  have "\<not> blank (case of_detail f of None \<Rightarrow> of_description f | Some d \<Rightarrow> d)" if "f \<in> set fs" for f
    using assms(2) [OF that] by (cases "of_detail f") (simp_all add: flag_fine_def)
  then show ?thesis
    using decide_risk_cases(1,2) [OF assms(1)] by (auto simp: assessment_reasons_def list_all_iff blank_Cons is_space_def)
qed

lemma assessment_defined:
  assumes "ps \<noteq> []" "wa_period_count a = length ps" "map ma_metric (wa_metrics a) = AGGREGATED_METRICS"
  shows "\<exists>r. assess_overfitting ps a = Inr r \<and> sound_assessment (length ps) r"
proof -
  obtain ds where ds: "rmap (degradation_flag a) DEGRADATION_METRICS = Inr ds" using rmap_defined degradation_flag_defined [OF assms(3)] by metis
  have fine: "list_all2 (\<lambda>m f. flag_fine (''degradation_'' @ m) f) DEGRADATION_METRICS ds"
    using ds degradation_flag_defined [OF assms(3)] unfolding rmap_eq_Inr list_all2_conv_all_nth by (metis Inr_inject nth_mem)
  have sub: "set DEGRADATION_METRICS \<subseteq> set AGGREGATED_METRICS" "''trade_count'' \<in> set AGGREGATED_METRICS" "''total_return'' \<in> set AGGREGATED_METRICS"
    by (simp_all add: DEGRADATION_METRICS_def AGGREGATED_METRICS_def)
  obtain te re where e: "metric_entry a ''trade_count'' = Inr te" "metric_entry a ''total_return'' = Inr re"
    using metric_entry_defined [OF assms(3) sub(2)] metric_entry_defined [OF assms(3) sub(3)] by blast
  obtain es where es: "rmap (metric_entry a) DEGRADATION_METRICS = Inr es"
    using rmap_defined [of DEGRADATION_METRICS "metric_entry a"] metric_entry_defined [OF assms(3)] sub(1) by blast
  obtain lt un dp where f: "low_trade_flag (mt_mean (ma_oos_stats te)) = Inr lt" "flag_fine ''low_oos_trade_count'' lt"
    "unrealistic_flag ps = Inr un" "flag_fine ''unrealistic_oos_return'' un"
    "dependency_flag (mt_stdev (ma_oos_stats re)) (mt_mean (ma_oos_stats re)) = Inr dp" "flag_fine ''high_period_dependency'' dp"
    by (meson low_trade_flag_defined unrealistic_flag_defined dependency_flag_defined)
  define fs where fs: "fs = ds @ [lt, un, dp]"
  have names: "map of_name fs = OVERFITTING_FLAG_NAMES"
    using fine f(2,4,6) by (auto simp: fs DEGRADATION_METRICS_def OVERFITTING_FLAG_NAMES_def list_all2_Cons1 flag_fine_def)
  then have len: "length fs = length OVERFITTING_FLAG_NAMES" by (metis length_map)
  have all: "flag_fine (of_name g) g" if "g \<in> set fs" for g
    using that f(2,4,6) fine by (auto simp: fs flag_fine_def list_all2_conv_all_nth in_set_conv_nth)
  obtain risk rs dg where d: "decide_risk (mt_mean (ma_oos_stats te)) (length ps) (filter of_triggered fs) = (risk, rs, dg)" by (metis prod_cases3)
  have reasons: "assessment_reasons rs dg es (filter of_triggered fs) \<noteq> []" "list_all (\<lambda>r. \<not> blank r) (assessment_reasons rs dg es (filter of_triggered fs))"
    using reasons_fine [OF d, of es] all by auto
  have "assess_overfitting ps a = Inr \<lparr>oa_overfitting_risk = risk, oa_flags = fs,
      oa_reasons = assessment_reasons rs dg es (filter of_triggered fs), oa_period_count = length ps\<rparr>"
    using names len reasons
    unfolding assess_overfitting_def mk_assessment_def Let_def
    by (simp only: assms(1,2) ds e es f(1,3,5) fs [symmetric] d rbind_simps guard_simps prod.case simp_thms overfitting_assessment.simps)
  moreover have "risk \<noteq> OR_LOW \<Longrightarrow> 3 \<le> length ps \<and> risk \<in> of_severity ` set (filter of_triggered fs)" by (rule decide_risk_cases(3) [OF d])
  ultimately show ?thesis using names reasons(1) unfolding sound_assessment_def by fastforce
qed

text \<open>A walk-forward run over a schedule, with a runner that answers every window of it with a result for that window, always
  returns: the periods are the answers in the order of the windows, the coverage counts exactly the records of at least one
  window, and neither the aggregation nor the assessment can raise.  The assessment reports every flag in the fixed order with
  a reason, and a risk above LOW comes from a triggered flag of that severity and needs at least three periods.\<close>

theorem walk_forward_returns:
  assumes "mk_backtest_input inputs = Inr inputs" "mk_walk_forward_config c = Inr c" "build_windows inputs c = Inr ws"
    and "\<And>w. w \<in> set ws \<Longrightarrow> \<exists>r. runner w = Inr r \<and> wr_window r = w"
    and "\<not> blank (content_sha256 sha (bi_records inputs))"
  shows "\<exists>res a. run_walk_forward sha inputs c runner = Inr res \<and> map Inr (wf_periods res) = map runner ws
    \<and> wf_covered_records res = int (card {i. i < record_count inputs \<and> (\<exists>w\<in>set ws. in_window w i)})
    \<and> wf_covered_records res + wf_uncovered_records res = int (record_count inputs)
    \<and> assess_overfitting (wf_periods res) (wf_aggregate res) = Inr a \<and> sound_assessment (length ws) a"
proof -
  let ?n = "record_count inputs" and ?cov = "card {i. i < record_count inputs \<and> (\<exists>w\<in>set ws. in_window w i)}"
  have span: "wc_span c \<le> int ?n" using assms(3) by (auto simp: build_windows_def result_simps)
  have ws: "ws = map (window_at inputs c) [0..period_count inputs c - 1]" using build_windows_ok [OF assms(1,2) span] assms(3) by simp
  have "0 \<le> int ?n - wc_span c" "0 < wc_step_records c" using span assms(2) by (auto simp: config_exact)
  then have P: "1 \<le> period_count inputs c" by (simp add: period_count_def pos_imp_zdiv_nonneg_iff)
  obtain ps where ps: "rmap (run_period runner) ws = Inr ps" using rmap_defined [of ws "run_period runner"] assms(4) by (fastforce simp: run_period_def)
  then have each: "list_all2 (\<lambda>w r. runner w = Inr r \<and> wr_window r = w) ws ps"
    by (auto simp: rmap_eq_Inr run_period_def result_simps elim!: list_all2_mono)
  then have eqs: "map Inr ps = map runner ws" "map wr_window ps = ws" "length ps = length ws"
    by (auto simp: list_all2_conv_all_nth list_eq_iff_nth_eq)
  have "gap_free ps" using P unfolding gap_free_def by (simp add: eqs ws window_at_def Let_def comp_def flip: map_map [of ww_index wr_window, unfolded comp_def])
  moreover have ne: "ps \<noteq> []" using eqs(3) P by (auto simp: ws)
  ultimately obtain a where a: "aggregate_periods ps = Inr a" "wa_period_count a = length ps" "map ma_metric (wa_metrics a) = AGGREGATED_METRICS"
    using aggregate_defined by blast
  have cov: "covered_count ?n ws = int ?cov" by (rule coverage_exact [OF assms(2) span ws])
  have "?cov \<le> card {..<?n}" by (rule card_mono) auto
  then have "\<exists>res. run_walk_forward sha inputs c runner = Inr res \<and> wf_periods res = ps \<and> wf_aggregate res = a
      \<and> wf_covered_records res = int ?cov \<and> wf_uncovered_records res = int ?n - int ?cov"
    using assms(1,3,5) ps a ne \<open>gap_free ps\<close> by (auto simp: run_walk_forward_def mk_walk_forward_result_def Let_def cov backtest_input_exact)
  then show ?thesis using assessment_defined [OF ne a(2,3)] eqs by (metis add_diff_cancel_left' add.commute diff_add_cancel)
qed

section \<open>Examples\<close>

definition wf_sample :: backtest_input where
  "wf_sample = (sample_input 9)\<lparr>bi_records := [sample_bar 0 11, sample_bar 60 9, sample_bar 120 10, sample_bar 180 12]\<rparr>"

definition wf_sample_config :: walk_forward_config where
  "wf_sample_config = \<lparr>wc_training_records = 1, wc_validation_records = 1, wc_test_records = 1, wc_step_records = 1\<rparr>"

lemma wf_sample_ok:
  "mk_backtest_input wf_sample = Inr wf_sample" "mk_walk_forward_config wf_sample_config = Inr wf_sample_config"
  "wc_span wf_sample_config = 3" "record_count wf_sample = 4"
  by (simp_all add: wf_sample_def wf_sample_config_def backtest_input_exact series_ok_def coherent_def config_exact wc_span_def record_count_def
      backtest_sample_defs blank_Cons is_space_def)

lemma wf_sample_windows: obtains ws where "build_windows wf_sample wf_sample_config = Inr ws" "length ws = 2"
  using build_windows_ok [OF wf_sample_ok(1,2)] by (simp add: wf_sample_ok period_count_def) (simp add: wf_sample_config_def)

theorem walk_forward_schedule_witness:
  "\<exists>ws. build_windows wf_sample wf_sample_config = Inr ws \<and> length ws = 2 \<and> window_clean wf_sample wf_sample_config 1 (ws ! 1)
     \<and> ws_end_index (ww_test (ws ! 0)) \<le> ws_start_index (ww_test (ws ! 1))"
proof -
  obtain ws where "build_windows wf_sample wf_sample_config = Inr ws" "length ws = 2" by (rule wf_sample_windows)
  then show ?thesis using walk_forward_schedule [OF wf_sample_ok(1,2)] by fastforce
qed

definition idle_metrics :: backtest_metrics where
  "idle_metrics = \<lparr>bm_initial_capital = Dec 100 0, bm_final_equity = Dec 100 0, bm_total_return = 0, bm_trade_count = 0, bm_wins = 0, bm_losses = 0,
      bm_breakevens = 0, bm_win_rate = None, bm_gross_profit = 0, bm_gross_loss = 0, bm_profit_factor = None, bm_max_drawdown = 0,
      bm_sharpe_ratio = None, bm_risk_free_rate = 0\<rparr>"

definition idle_runner :: "walk_forward_window \<Rightarrow> (backtest_error, window_result) result" where
  "idle_runner w = mk_window_result \<lparr>wr_window = w, wr_is_metrics = idle_metrics, wr_oos_metrics = idle_metrics, wr_metadata = Map.empty\<rparr>"

theorem walk_forward_returns_witness:
  "\<exists>res a. run_walk_forward (\<lambda>_. ''h'') wf_sample wf_sample_config idle_runner = Inr res
     \<and> assess_overfitting (wf_periods res) (wf_aggregate res) = Inr a \<and> oa_overfitting_risk a = OR_LOW"
proof -
  obtain ws where ws: "build_windows wf_sample wf_sample_config = Inr ws" "length ws = 2" by (rule wf_sample_windows)
  have "\<exists>r. idle_runner w = Inr r \<and> wr_window r = w" for w
    by (simp add: idle_runner_def mk_window_result_def validate_carried_metrics_def idle_metrics_def decimal_order)
  moreover have "\<not> blank (content_sha256 (\<lambda>_. ''h'') (bi_records wf_sample))" by (simp add: content_sha256_def blank_Cons is_space_def)
  ultimately show ?thesis using walk_forward_returns [OF wf_sample_ok(1,2) ws(1), of idle_runner] ws(2) by (fastforce simp: sound_assessment_def)
qed

end
