(* ===== verification/Portfolio_Engine.thy ===== *)
theory Portfolio_Engine
  imports Pnl_Engine Service_Kit
begin

text \<open>
  The portfolio engine, \<^verbatim>\<open>services/portfolio_engine/alpha_algo_portfolio_engine\<close>: the contracts, the aggregation of open
  positions with price freshness (\<^verbatim>\<open>aggregation.py\<close>), the content hash (\<^verbatim>\<open>identity.py\<close>), the repository over
  \<^verbatim>\<open>portfolio_snapshots\<close> (\<^verbatim>\<open>repository.py\<close>), the adapters and the engine (\<^verbatim>\<open>engine.py\<close>).  The digest, the halt
  switch, database failures, foreign keys and the \<^verbatim>\<open>Numeric(18, 4)\<close> columns are parameters; the latency metric is not
  represented.

  The main results: with prices and quantities of the size of their columns a computation always returns and its totals
  are the exact sums of the rounded exposures; a portfolio is READY, and has an equity value, exactly when its sources
  allow it; and a snapshot of one account, mode and time is written once and never changes.
\<close>

section \<open>Contracts\<close>

datatype portfolio_status = PF_UNINITIALIZED | PF_READY | PF_DEGRADED | PF_ERROR
datatype portfolio_completeness = PF_COMPLETE | PF_PARTIAL

datatype portfolio_error =
    PortfolioValidationError string
  | PortfolioModeError string
  | PortfolioPersistenceError string
  | DuplicateSnapshotError string
  | PortfolioValueError string
  | PortfolioInvalidOperation
  | PortfolioTypeError

record portfolio_identity =
  pid_account_id :: uuid
  pid_trading_mode :: string

definition identity_tuple :: "portfolio_identity \<Rightarrow> uuid \<times> string" where
  "identity_tuple p = (pid_account_id p, upper (pid_trading_mode p))"

record position_input =
  pin_position_id :: "uuid option"
  pin_instrument_id :: uuid
  pin_strategy_run_id :: uuid
  pin_quantity :: int
  pin_average_price :: "decimal option"
  pin_status :: string

definition pin_is_open :: "position_input \<Rightarrow> bool" where
  "pin_is_open p \<longleftrightarrow> pin_quantity p \<noteq> 0"

record portfolio_price =
  ppr_instrument_id :: uuid
  ppr_price :: decimal
  ppr_observed_at :: datetime

definition mk_portfolio_price :: "portfolio_price \<Rightarrow> (portfolio_error, portfolio_price) result" where
  "mk_portfolio_price p =
     rbind (guard (0 < ppr_price p) (PortfolioValueError ''reference price must be positive'')) (\<lambda>_.
     rbind (guard (tz_aware (ppr_observed_at p)) (PortfolioValueError ''observed_at must be timezone-aware'')) (\<lambda>_. Inr p))"

record portfolio_funds =
  fs_available_cash :: "decimal option"
  fs_available_margin :: "decimal option"
  fs_used_margin :: "decimal option"
  fs_captured_at :: "datetime option"

definition fs_available :: "portfolio_funds \<Rightarrow> bool" where
  "fs_available f \<longleftrightarrow> fs_available_cash f \<noteq> None"

record position_exposure =
  pe_position_id :: "uuid option"
  pe_instrument_id :: uuid
  pe_strategy_run_id :: uuid
  pe_quantity :: int
  pe_reference_price :: "decimal option"
  pe_market_value :: "decimal option"
  pe_price_state :: price_state

record strategy_breakdown_row =
  sb_strategy_run_id :: uuid
  sb_position_count :: nat
  sb_market_value :: "decimal option"
  sb_gross_exposure :: decimal

record portfolio_inputs =
  pis_account_id :: uuid
  pis_trading_mode :: string
  pis_positions :: "position_input list"
  pis_funds :: "portfolio_funds option"
  pis_prices :: "uuid \<Rightarrow> portfolio_price option"

record portfolio_computation =
  pc_identity :: portfolio_identity
  pc_status :: portfolio_status
  pc_completeness :: portfolio_completeness
  pc_position_count :: nat
  pc_gross_exposure :: decimal
  pc_net_exposure :: decimal
  pc_long_exposure :: decimal
  pc_short_exposure :: decimal
  pc_market_value :: "decimal option"
  pc_cash_balance :: "decimal option"
  pc_equity_value :: "decimal option"
  pc_available_margin :: "decimal option"
  pc_used_margin :: "decimal option"
  pc_funds_available :: bool
  pc_missing_instrument_ids :: "uuid list"
  pc_stale_instrument_ids :: "uuid list"
  pc_positions :: "position_exposure list"
  pc_strategy_breakdown :: "strategy_breakdown_row list"
  pc_snapshot_at :: datetime

record portfolio_snapshot =
  psn_snapshot_id :: "uuid option"
  psn_account_id :: uuid
  psn_trading_mode :: string
  psn_status :: portfolio_status
  psn_completeness :: portfolio_completeness
  psn_position_count :: nat
  psn_gross_exposure :: decimal
  psn_net_exposure :: decimal
  psn_long_exposure :: decimal
  psn_short_exposure :: decimal
  psn_market_value :: "decimal option"
  psn_cash_balance :: "decimal option"
  psn_equity_value :: "decimal option"
  psn_available_margin :: "decimal option"
  psn_used_margin :: "decimal option"
  psn_snapshot_at :: datetime

record portfolio_snapshot_result =
  psr_status :: portfolio_status
  psr_snapshot :: portfolio_snapshot
  psr_duplicate :: bool
  psr_computation :: "portfolio_computation option"

text \<open>The adapters from the position engine and the broker's funds.\<close>

definition position_status_value :: "position_status \<Rightarrow> string" where
  "position_status_value s = (case s of FLAT \<Rightarrow> ''FLAT'' | OPEN \<Rightarrow> ''OPEN'' | CLOSED \<Rightarrow> ''CLOSED'')"

definition position_input_from_snapshot :: "position_snapshot \<Rightarrow> position_input" where
  "position_input_from_snapshot s =
     \<lparr>pin_position_id = sn_position_id s, pin_instrument_id = sn_instrument_id s, pin_strategy_run_id = sn_strategy_run_id s,
      pin_quantity = sn_quantity s, pin_average_price = sn_average_price s, pin_status = position_status_value (sn_status s)\<rparr>"

section \<open>Aggregation\<close>

definition portfolio_round_money :: "decimal \<Rightarrow> (portfolio_error, decimal) result" where
  "portfolio_round_money v = of_opt PortfolioInvalidOperation (quantize (-4) v)"

text \<open>Subtracting an aware timestamp from a naive one raises \<^verbatim>\<open>TypeError\<close>.\<close>

definition classify_reference_price ::
  "uuid \<Rightarrow> (uuid \<Rightarrow> portfolio_price option) \<Rightarrow> datetime \<Rightarrow> int option
   \<Rightarrow> (portfolio_error, portfolio_price option \<times> price_state) result" where
  "classify_reference_price instrument_id prices now max_age_seconds =
     (case prices instrument_id of
        None \<Rightarrow> Inr (None, MISSING)
      | Some price \<Rightarrow>
          (case max_age_seconds of
             None \<Rightarrow> Inr (Some price, FRESH)
           | Some max_age \<Rightarrow>
               if tz_aware now \<noteq> tz_aware (ppr_observed_at price) then Inl PortfolioTypeError
               else if usec max_age < instant now - instant (ppr_observed_at price) \<or> instant now < instant (ppr_observed_at price)
               then Inr (Some price, STALE)
               else Inr (Some price, FRESH)))"

definition signed_exposure :: "int \<Rightarrow> decimal \<Rightarrow> (portfolio_error, decimal) result" where
  "signed_exposure quantity price = portfolio_round_money (dec_of_int quantity * price)"

record exposure_totals =
  et_exposures :: "position_exposure list"
  et_gross :: decimal
  et_net :: decimal
  et_long :: decimal
  et_short :: decimal
  et_missing_ids :: "uuid list"
  et_stale_ids :: "uuid list"
  et_any_priced :: bool
  et_open_count :: nat

definition exposure_of :: "position_input \<Rightarrow> decimal option \<Rightarrow> decimal option \<Rightarrow> price_state \<Rightarrow> position_exposure" where
  "exposure_of pos price value state =
     \<lparr>pe_position_id = pin_position_id pos, pe_instrument_id = pin_instrument_id pos, pe_strategy_run_id = pin_strategy_run_id pos,
      pe_quantity = pin_quantity pos, pe_reference_price = price, pe_market_value = value, pe_price_state = state\<rparr>"

definition add_missing :: "position_input \<Rightarrow> exposure_totals \<Rightarrow> exposure_totals" where
  "add_missing pos t =
     t\<lparr>et_missing_ids := et_missing_ids t @ [pin_instrument_id pos], et_exposures := et_exposures t @ [exposure_of pos None None MISSING]\<rparr>"

definition add_priced :: "position_input \<Rightarrow> decimal \<Rightarrow> price_state \<Rightarrow> decimal \<Rightarrow> exposure_totals \<Rightarrow> exposure_totals" where
  "add_priced pos price state exposure t =
     t\<lparr>et_stale_ids := et_stale_ids t @ (if state = STALE then [pin_instrument_id pos] else []), et_any_priced := True,
       et_gross := et_gross t + dabs exposure, et_net := et_net t + exposure,
       et_long := (if 0 < exposure then et_long t + exposure else et_long t),
       et_short := (if 0 < exposure then et_short t else et_short t + - exposure),
       et_exposures := et_exposures t @ [exposure_of pos (Some price) (Some exposure) state]\<rparr>"

fun aggregate_loop ::
  "(uuid \<Rightarrow> portfolio_price option) \<Rightarrow> datetime \<Rightarrow> int option \<Rightarrow> position_input list \<Rightarrow> exposure_totals
   \<Rightarrow> (portfolio_error, exposure_totals) result" where
  "aggregate_loop prices now max_age [] t = Inr t"
| "aggregate_loop prices now max_age (pos # ps) t =
     (if \<not> pin_is_open pos then aggregate_loop prices now max_age ps t
      else let t1 = t\<lparr>et_open_count := Suc (et_open_count t)\<rparr> in
        rbind (classify_reference_price (pin_instrument_id pos) prices now max_age) (\<lambda>(price, state).
        case price of
          None \<Rightarrow> aggregate_loop prices now max_age ps (add_missing pos t1)
        | Some p \<Rightarrow> rbind (signed_exposure (pin_quantity pos) (ppr_price p)) (\<lambda>exposure.
            aggregate_loop prices now max_age ps (add_priced pos (ppr_price p) state exposure t1))))"

definition no_exposure :: exposure_totals where
  "no_exposure = \<lparr>et_exposures = [], et_gross = 0, et_net = 0, et_long = 0, et_short = 0, et_missing_ids = [], et_stale_ids = [],
     et_any_priced = False, et_open_count = 0\<rparr>"

record exposure_summary =
  es_exposures :: "position_exposure list"
  es_gross :: decimal
  es_net :: decimal
  es_long :: decimal
  es_short :: decimal
  es_market_value :: "decimal option"
  es_missing_ids :: "uuid list"
  es_stale_ids :: "uuid list"

definition aggregate_positions ::
  "position_input list \<Rightarrow> (uuid \<Rightarrow> portfolio_price option) \<Rightarrow> datetime \<Rightarrow> int option \<Rightarrow> (portfolio_error, exposure_summary) result" where
  "aggregate_positions positions prices now max_age =
     rbind (aggregate_loop prices now max_age positions no_exposure) (\<lambda>t.
     rbind (if et_open_count t = 0 then Inr (Some 0)
            else if et_any_priced t then rbind (portfolio_round_money (et_net t)) (\<lambda>v. Inr (Some v)) else Inr None) (\<lambda>market_value.
     rbind (portfolio_round_money (et_gross t)) (\<lambda>gross.
     rbind (portfolio_round_money (et_net t)) (\<lambda>net.
     rbind (portfolio_round_money (et_long t)) (\<lambda>long.
     rbind (portfolio_round_money (et_short t)) (\<lambda>short.
     Inr \<lparr>es_exposures = et_exposures t, es_gross = gross, es_net = net, es_long = long, es_short = short,
          es_market_value = market_value, es_missing_ids = et_missing_ids t, es_stale_ids = et_stale_ids t\<rparr>))))))"

text \<open>The buckets of the breakdown: position count, gross exposure and whether every position is priced.\<close>

record strategy_bucket =
  bk_count :: nat
  bk_gross :: decimal
  bk_priced :: bool

definition add_to_bucket :: "(uuid, strategy_bucket) odict \<Rightarrow> position_exposure \<Rightarrow> (uuid, strategy_bucket) odict" where
  "add_to_bucket buckets e =
     (let b = (case map_of buckets (pe_strategy_run_id e) of None \<Rightarrow> \<lparr>bk_count = 0, bk_gross = 0, bk_priced = True\<rparr> | Some b \<Rightarrow> b);
          b' = b\<lparr>bk_count := Suc (bk_count b)\<rparr> in
      od_set (pe_strategy_run_id e)
        (case pe_market_value e of Some v \<Rightarrow> b'\<lparr>bk_gross := bk_gross b' + dabs v\<rparr> | None \<Rightarrow> b'\<lparr>bk_priced := False\<rparr>) buckets)"

definition breakdown_row :: "uuid \<times> strategy_bucket \<Rightarrow> (portfolio_error, strategy_breakdown_row) result" where
  "breakdown_row x =
     (case x of (sid, b) \<Rightarrow>
        rbind (if bk_priced b then rbind (portfolio_round_money (bk_gross b)) (\<lambda>v. Inr (Some v)) else Inr None) (\<lambda>value.
        rbind (portfolio_round_money (bk_gross b)) (\<lambda>gross.
        Inr \<lparr>sb_strategy_run_id = sid, sb_position_count = bk_count b, sb_market_value = value, sb_gross_exposure = gross\<rparr>)))"

definition strategy_breakdown :: "position_exposure list \<Rightarrow> (portfolio_error, strategy_breakdown_row list) result" where
  "strategy_breakdown exposures = rmap breakdown_row (sort_key (uuid_str \<circ> fst) (foldl add_to_bucket [] exposures))"

definition compute_portfolio ::
  "portfolio_inputs \<Rightarrow> datetime \<Rightarrow> int option \<Rightarrow> (portfolio_error, portfolio_computation) result" where
  "compute_portfolio inputs now max_age =
     rbind (aggregate_positions (pis_positions inputs) (pis_prices inputs) now max_age) (\<lambda>s.
     let funds = pis_funds inputs;
         cash_balance = Option.bind funds fs_available_cash;
         funds_available = (cash_balance \<noteq> None);
         has_missing = (es_missing_ids s \<noteq> []); has_stale = (es_stale_ids s \<noteq> []);
         completeness = (if \<not> has_missing \<and> funds_available then PF_COMPLETE else PF_PARTIAL);
         status = (if \<not> has_missing \<and> \<not> has_stale \<and> funds_available then PF_READY else PF_DEGRADED) in
     rbind (case (completeness, cash_balance, es_market_value s) of
              (PF_COMPLETE, Some cash, Some value) \<Rightarrow> rbind (portfolio_round_money (cash + value)) (\<lambda>e. Inr (Some e))
            | _ \<Rightarrow> Inr None) (\<lambda>equity_value.
     rbind (strategy_breakdown (es_exposures s)) (\<lambda>breakdown.
     Inr \<lparr>pc_identity = \<lparr>pid_account_id = pis_account_id inputs, pid_trading_mode = upper (pis_trading_mode inputs)\<rparr>,
          pc_status = status, pc_completeness = completeness,
          pc_position_count = length (filter pin_is_open (pis_positions inputs)),
          pc_gross_exposure = es_gross s, pc_net_exposure = es_net s, pc_long_exposure = es_long s, pc_short_exposure = es_short s,
          pc_market_value = es_market_value s, pc_cash_balance = cash_balance, pc_equity_value = equity_value,
          pc_available_margin = Option.bind funds fs_available_margin, pc_used_margin = Option.bind funds fs_used_margin,
          pc_funds_available = funds_available, pc_missing_instrument_ids = es_missing_ids s, pc_stale_instrument_ids = es_stale_ids s,
          pc_positions = es_exposures s, pc_strategy_breakdown = breakdown, pc_snapshot_at = now\<rparr>)))"

section \<open>Identity and repository\<close>

definition compute_portfolio_key :: "uuid \<Rightarrow> string \<Rightarrow> string" where
  "compute_portfolio_key account_id trading_mode = uuid_str account_id @ '':'' @ upper trading_mode"

definition build_portfolio_identity :: "uuid \<Rightarrow> string \<Rightarrow> portfolio_identity" where
  "build_portfolio_identity account_id trading_mode = \<lparr>pid_account_id = account_id, pid_trading_mode = upper trading_mode\<rparr>"

definition snapshot_content_hash :: "digest \<Rightarrow> portfolio_computation \<Rightarrow> datetime \<Rightarrow> string" where
  "snapshot_content_hash dig c snapshot_at =
     dig [(''account_id'', PUuid (pid_account_id (pc_identity c))), (''trading_mode'', PStr (upper (pid_trading_mode (pc_identity c)))),
          (''snapshot_at'', PTime snapshot_at), (''gross_exposure'', PDec (pc_gross_exposure c)), (''net_exposure'', PDec (pc_net_exposure c)),
          (''long_exposure'', PDec (pc_long_exposure c)), (''short_exposure'', PDec (pc_short_exposure c)),
          (''market_value'', case pc_market_value c of None \<Rightarrow> PNone | Some v \<Rightarrow> PDec v),
          (''cash_balance'', case pc_cash_balance c of None \<Rightarrow> PNone | Some v \<Rightarrow> PDec v),
          (''position_count'', PInt (int (pc_position_count c)))]"

definition portfolio_status_value :: "portfolio_status \<Rightarrow> string" where
  "portfolio_status_value s =
     (case s of PF_UNINITIALIZED \<Rightarrow> ''UNINITIALIZED'' | PF_READY \<Rightarrow> ''READY'' | PF_DEGRADED \<Rightarrow> ''DEGRADED'' | PF_ERROR \<Rightarrow> ''ERROR'')"

definition completeness_value :: "portfolio_completeness \<Rightarrow> string" where
  "completeness_value c = (case c of PF_COMPLETE \<Rightarrow> ''COMPLETE'' | PF_PARTIAL \<Rightarrow> ''PARTIAL'')"

text \<open>\<^verbatim>\<open>PortfolioStatus(text)\<close> raises \<^verbatim>\<open>ValueError\<close> for a text that is not a member.\<close>

definition parse_portfolio_status :: "string \<Rightarrow> (portfolio_error, portfolio_status) result" where
  "parse_portfolio_status t =
     of_opt (PortfolioValueError (t @ '' is not a valid PortfolioStatus''))
       (find (\<lambda>s. portfolio_status_value s = t) [PF_UNINITIALIZED, PF_READY, PF_DEGRADED, PF_ERROR])"

definition parse_completeness :: "string \<Rightarrow> (portfolio_error, portfolio_completeness) result" where
  "parse_completeness t =
     of_opt (PortfolioValueError (t @ '' is not a valid PortfolioCompleteness'')) (find (\<lambda>c. completeness_value c = t) [PF_COMPLETE, PF_PARTIAL])"

text \<open>A row of \<^verbatim>\<open>portfolio_snapshots\<close>.  Of the payload the reader uses the completeness; the hash is kept with it.\<close>

record snapshot_payload =
  pl_content_hash :: string
  pl_completeness :: "string option"
  pl_missing_instrument_ids :: "string list"
  pl_stale_instrument_ids :: "string list"
  pl_strategy_breakdown :: "strategy_breakdown_row list"

record portfolio_row =
  pr_id :: uuid
  pr_broker_account_id :: uuid
  pr_trading_mode :: string
  pr_snapshot_at :: datetime
  pr_equity_value :: "decimal option"
  pr_cash_balance :: "decimal option"
  pr_market_value :: "decimal option"
  pr_gross_exposure :: "decimal option"
  pr_net_exposure :: "decimal option"
  pr_long_exposure :: "decimal option"
  pr_short_exposure :: "decimal option"
  pr_position_count :: "nat option"
  pr_available_margin :: "decimal option"
  pr_used_margin :: "decimal option"
  pr_status :: "string option"
  pr_snapshot_payload :: "snapshot_payload option"

definition to_orm_snapshot :: "uuid \<Rightarrow> portfolio_snapshot \<Rightarrow> portfolio_computation \<Rightarrow> string \<Rightarrow> portfolio_row" where
  "to_orm_snapshot fresh s c content_hash =
     \<lparr>pr_id = fresh, pr_broker_account_id = psn_account_id s, pr_trading_mode = psn_trading_mode s, pr_snapshot_at = psn_snapshot_at s,
      pr_equity_value = psn_equity_value s, pr_cash_balance = psn_cash_balance s, pr_market_value = psn_market_value s,
      pr_gross_exposure = Some (psn_gross_exposure s), pr_net_exposure = Some (psn_net_exposure s), pr_long_exposure = Some (psn_long_exposure s),
      pr_short_exposure = Some (psn_short_exposure s), pr_position_count = Some (psn_position_count s),
      pr_available_margin = psn_available_margin s, pr_used_margin = psn_used_margin s, pr_status = Some (portfolio_status_value (psn_status s)),
      pr_snapshot_payload = Some \<lparr>pl_content_hash = content_hash, pl_completeness = Some (completeness_value (pc_completeness c)),
        pl_missing_instrument_ids = map uuid_str (pc_missing_instrument_ids c), pl_stale_instrument_ids = map uuid_str (pc_stale_instrument_ids c),
        pl_strategy_breakdown = pc_strategy_breakdown c\<rparr>\<rparr>"

text \<open>The empty status is falsy, as are the zero amounts.\<close>

definition from_orm_snapshot :: "portfolio_row \<Rightarrow> (portfolio_error, portfolio_snapshot) result" where
  "from_orm_snapshot r =
     rbind (parse_portfolio_status (upper (case pr_status r of None \<Rightarrow> ''UNINITIALIZED'' | Some t \<Rightarrow> if t = [] then ''UNINITIALIZED'' else t))) (\<lambda>status.
     rbind (parse_completeness (case Option.bind (pr_snapshot_payload r) pl_completeness of None \<Rightarrow> ''COMPLETE'' | Some t \<Rightarrow> t)) (\<lambda>completeness.
     Inr \<lparr>psn_snapshot_id = Some (pr_id r), psn_account_id = pr_broker_account_id r, psn_trading_mode = pr_trading_mode r, psn_status = status,
          psn_completeness = completeness, psn_position_count = (case pr_position_count r of None \<Rightarrow> 0 | Some n \<Rightarrow> n),
          psn_gross_exposure = dec_or_zero (pr_gross_exposure r), psn_net_exposure = dec_or_zero (pr_net_exposure r),
          psn_long_exposure = dec_or_zero (pr_long_exposure r), psn_short_exposure = dec_or_zero (pr_short_exposure r),
          psn_market_value = pr_market_value r, psn_cash_balance = pr_cash_balance r, psn_equity_value = pr_equity_value r,
          psn_available_margin = pr_available_margin r, psn_used_margin = pr_used_margin r, psn_snapshot_at = pr_snapshot_at r\<rparr>))"

text \<open>What the \<^verbatim>\<open>Numeric(18, 4)\<close> columns keep of the amounts; \<open>None\<close> when one is out of range.\<close>

definition column :: "(decimal \<Rightarrow> decimal option) \<Rightarrow> decimal option \<Rightarrow> decimal option option" where
  "column numeric v = (case v of None \<Rightarrow> Some None | Some x \<Rightarrow> map_option Some (numeric x))"

definition store_row :: "(decimal \<Rightarrow> decimal option) \<Rightarrow> portfolio_row \<Rightarrow> portfolio_row option" where
  "store_row numeric r =
     (case map (column numeric) [pr_equity_value r, pr_cash_balance r, pr_market_value r, pr_gross_exposure r, pr_net_exposure r,
             pr_long_exposure r, pr_short_exposure r, pr_available_margin r, pr_used_margin r] of
        [Some e, Some c, Some m, Some g, Some n, Some l, Some s, Some am, Some um] \<Rightarrow>
          Some (r\<lparr>pr_equity_value := e, pr_cash_balance := c, pr_market_value := m, pr_gross_exposure := g, pr_net_exposure := n,
            pr_long_exposure := l, pr_short_exposure := s, pr_available_margin := am, pr_used_margin := um\<rparr>)
      | _ \<Rightarrow> None)"

text \<open>The unique constraint on account, mode and time.\<close>

definition same_snapshot :: "portfolio_row \<Rightarrow> portfolio_row \<Rightarrow> bool" where
  "same_snapshot q r \<longleftrightarrow> pr_broker_account_id q = pr_broker_account_id r \<and> pr_trading_mode q = pr_trading_mode r
     \<and> instant (pr_snapshot_at q) = instant (pr_snapshot_at r)"

record portfolio_db =
  db_fails :: bool
  db_numeric :: "decimal \<Rightarrow> decimal option"
  db_account_exists :: "uuid \<Rightarrow> bool"
  db_fresh :: uuid

definition save_portfolio_snapshot ::
  "portfolio_db \<Rightarrow> portfolio_row list \<Rightarrow> portfolio_snapshot \<Rightarrow> portfolio_computation \<Rightarrow> string
   \<Rightarrow> (portfolio_error, portfolio_snapshot) result \<times> portfolio_row list" where
  "save_portfolio_snapshot db rows s c content_hash =
     (case (if db_fails db then None else store_row (db_numeric db) (to_orm_snapshot (db_fresh db) s c content_hash)) of
        None \<Rightarrow> (Inl (PortfolioPersistenceError ''portfolio snapshot write failed''), rows)
      | Some row \<Rightarrow>
          (case insert_row same_snapshot (\<lambda>r. db_account_exists db (pr_broker_account_id r)) rows row of
             None \<Rightarrow> (Inl (DuplicateSnapshotError ''duplicate snapshot (unique constraint)''), rows)
           | Some rows' \<Rightarrow>
               (case from_orm_snapshot row of
                  Inl _ \<Rightarrow> (Inl (PortfolioPersistenceError ''portfolio snapshot write failed''), rows')
                | Inr x \<Rightarrow> (Inr x, rows'))))"

definition read_snapshot :: "portfolio_row option \<Rightarrow> (portfolio_error, portfolio_snapshot option) result" where
  "read_snapshot r = (case r of None \<Rightarrow> Inr None | Some row \<Rightarrow> rbind (from_orm_snapshot row) (\<lambda>s. Inr (Some s)))"

definition load_portfolio_snapshot ::
  "portfolio_row list \<Rightarrow> uuid \<Rightarrow> string \<Rightarrow> datetime \<Rightarrow> (portfolio_error, portfolio_snapshot option) result" where
  "load_portfolio_snapshot rows account mode snapshot_at =
     read_snapshot (first_row (\<lambda>r. pr_broker_account_id r = account \<and> pr_trading_mode r = upper mode
       \<and> instant (pr_snapshot_at r) = instant snapshot_at) rows)"

definition account_rows :: "portfolio_row list \<Rightarrow> uuid \<Rightarrow> string \<Rightarrow> portfolio_row list" where
  "account_rows rows account mode =
     sort_key (\<lambda>r. - instant (pr_snapshot_at r)) (filter (\<lambda>r. pr_broker_account_id r = account \<and> pr_trading_mode r = upper mode) rows)"

definition load_latest_portfolio :: "portfolio_row list \<Rightarrow> uuid \<Rightarrow> string \<Rightarrow> (portfolio_error, portfolio_snapshot option) result" where
  "load_latest_portfolio rows account mode = read_snapshot (case account_rows rows account mode of [] \<Rightarrow> None | r # _ \<Rightarrow> Some r)"

definition list_portfolio_snapshots ::
  "portfolio_row list \<Rightarrow> uuid \<Rightarrow> string \<Rightarrow> nat \<Rightarrow> (portfolio_error, portfolio_snapshot list) result" where
  "list_portfolio_snapshots rows account mode limit = rmap from_orm_snapshot (take limit (account_rows rows account mode))"

section \<open>The engine\<close>

record portfolio_metrics =
  pmx_recalculations :: nat
  pmx_snapshot_writes :: nat
  pmx_stale_snapshots :: nat
  pmx_incomplete_snapshots :: nat
  pmx_duplicate_snapshots :: nat

record portfolio_engine =
  pg_repository :: "portfolio_row list option"
  pg_metrics :: portfolio_metrics
  pg_max_age_seconds :: "int option"

definition validate_portfolio :: "bool \<Rightarrow> portfolio_inputs \<Rightarrow> (portfolio_error, unit) result" where
  "validate_portfolio halt inputs =
     (let mode = upper (pis_trading_mode inputs) in
      if mode = ''LIVE'' then Inl (PortfolioModeError ''LIVE trading is disabled (fail-closed)'')
      else if mode \<notin> {''BACKTEST'', ''PAPER''} then Inl (PortfolioModeError (''unknown trading mode: '' @ pis_trading_mode inputs))
      else if halt then Inl (PortfolioValidationError ''global trading halt is active; portfolio computation refused'')
      else Inr ())"

abbreviation bump_portfolio :: "(portfolio_metrics \<Rightarrow> portfolio_metrics) \<Rightarrow> portfolio_engine \<Rightarrow> portfolio_engine" where
  "bump_portfolio f g \<equiv> g\<lparr>pg_metrics := f (pg_metrics g)\<rparr>"

definition engine_compute ::
  "bool \<Rightarrow> portfolio_engine \<Rightarrow> portfolio_inputs \<Rightarrow> datetime \<Rightarrow> int option
   \<Rightarrow> (portfolio_error, portfolio_computation) result \<times> portfolio_engine" where
  "engine_compute halt g inputs now max_age =
     (case rbind (validate_portfolio halt inputs) (\<lambda>_.
             compute_portfolio inputs now (case max_age of Some a \<Rightarrow> Some a | None \<Rightarrow> pg_max_age_seconds g)) of
        Inl e \<Rightarrow> (Inl e, g)
      | Inr c \<Rightarrow> (Inr c, bump_portfolio (\<lambda>m. m\<lparr>pmx_recalculations := Suc (pmx_recalculations m)\<rparr>) g))"

definition to_portfolio_snapshot :: "portfolio_computation \<Rightarrow> portfolio_snapshot" where
  "to_portfolio_snapshot c =
     \<lparr>psn_snapshot_id = None, psn_account_id = pid_account_id (pc_identity c), psn_trading_mode = pid_trading_mode (pc_identity c),
      psn_status = pc_status c, psn_completeness = pc_completeness c, psn_position_count = pc_position_count c,
      psn_gross_exposure = pc_gross_exposure c, psn_net_exposure = pc_net_exposure c, psn_long_exposure = pc_long_exposure c,
      psn_short_exposure = pc_short_exposure c, psn_market_value = pc_market_value c, psn_cash_balance = pc_cash_balance c,
      psn_equity_value = pc_equity_value c, psn_available_margin = pc_available_margin c, psn_used_margin = pc_used_margin c,
      psn_snapshot_at = pc_snapshot_at c\<rparr>"

definition record_quality :: "portfolio_computation \<Rightarrow> portfolio_metrics \<Rightarrow> portfolio_metrics" where
  "record_quality c m =
     (let m1 = (if pc_completeness c = PF_PARTIAL then m\<lparr>pmx_incomplete_snapshots := Suc (pmx_incomplete_snapshots m)\<rparr> else m) in
      if pc_status c = PF_DEGRADED \<and> pc_stale_instrument_ids c \<noteq> [] then m1\<lparr>pmx_stale_snapshots := Suc (pmx_stale_snapshots m1)\<rparr> else m1)"

definition engine_snapshot ::
  "digest \<Rightarrow> portfolio_db \<Rightarrow> bool \<Rightarrow> portfolio_engine \<Rightarrow> portfolio_inputs \<Rightarrow> datetime \<Rightarrow> int option
   \<Rightarrow> (portfolio_error, portfolio_snapshot_result) result \<times> portfolio_engine" where
  "engine_snapshot dig db halt g inputs snapshot_at max_age =
     (case pg_repository g of
        None \<Rightarrow> (Inl (PortfolioPersistenceError ''no portfolio repository configured''), g)
      | Some rows \<Rightarrow>
          (case engine_compute halt g inputs snapshot_at max_age of
             (Inl e, g1) \<Rightarrow> (Inl e, g1)
           | (Inr c, g1) \<Rightarrow>
               (case save_portfolio_snapshot db rows (to_portfolio_snapshot c) c (snapshot_content_hash dig c snapshot_at) of
                  (Inl (DuplicateSnapshotError _), rows') \<Rightarrow>
                    (let g2 = bump_portfolio (\<lambda>m. m\<lparr>pmx_duplicate_snapshots := Suc (pmx_duplicate_snapshots m)\<rparr>) (g1\<lparr>pg_repository := Some rows'\<rparr>) in
                     case load_portfolio_snapshot rows' (pis_account_id inputs) (pis_trading_mode inputs) snapshot_at of
                       Inl e \<Rightarrow> (Inl e, g2)
                     | Inr None \<Rightarrow> (Inl (PortfolioPersistenceError ''snapshot duplicate but no existing snapshot found''), g2)
                     | Inr (Some x) \<Rightarrow> (Inr \<lparr>psr_status = psn_status x, psr_snapshot = x, psr_duplicate = True, psr_computation = Some c\<rparr>, g2))
                | (Inl e, rows') \<Rightarrow> (Inl e, g1\<lparr>pg_repository := Some rows'\<rparr>)
                | (Inr x, rows') \<Rightarrow>
                    (Inr \<lparr>psr_status = pc_status c, psr_snapshot = x, psr_duplicate = False, psr_computation = Some c\<rparr>,
                     bump_portfolio (record_quality c \<circ> (\<lambda>m. m\<lparr>pmx_snapshot_writes := Suc (pmx_snapshot_writes m)\<rparr>)) (g1\<lparr>pg_repository := Some rows'\<rparr>)))))"

definition get_latest :: "portfolio_engine \<Rightarrow> uuid \<Rightarrow> string \<Rightarrow> (portfolio_error, portfolio_snapshot option) result" where
  "get_latest g account mode = (case pg_repository g of None \<Rightarrow> Inr None | Some rows \<Rightarrow> load_latest_portfolio rows account mode)"

definition engine_list_snapshots :: "portfolio_engine \<Rightarrow> uuid \<Rightarrow> string \<Rightarrow> nat \<Rightarrow> (portfolio_error, portfolio_snapshot list) result" where
  "engine_list_snapshots g account mode limit =
     (case pg_repository g of None \<Rightarrow> Inr [] | Some rows \<Rightarrow> list_portfolio_snapshots rows account mode limit)"

section \<open>Totals are exact\<close>

text \<open>An amount of \<open>n\<close> units of 0.0001.\<close>

definition units :: "decimal \<Rightarrow> int \<Rightarrow> bool" where
  "units x n \<longleftrightarrow> dval x = of_int n * 10 powi (-4)"

lemma units_plus: "units x n \<Longrightarrow> units y m \<Longrightarrow> \<bar>n + m\<bar> < prec_limit \<Longrightarrow> units (x + y) (n + m)"
  unfolding units_def using dval_plus [of x y] rep28_grid [of "n + m" "-4"] by (metis distrib_right of_int_add)

lemma units_dec_of_int_times: "units p k \<Longrightarrow> \<bar>q * k\<bar> < prec_limit \<Longrightarrow> units (dec_of_int q * p) (q * k)"
  unfolding units_def using dval_times [of "dec_of_int q" p] rep28_grid [of "q * k" "-4"] by (metis dval_dec_of_int mult.assoc of_int_mult)

lemma units_Dec [simp]: "units (Dec n (-4)) n"
  by (simp add: units_def dval_def)

lemma units_zero: "units 0 0"
  by (simp add: units_def)

lemma units_round: "units v n \<Longrightarrow> \<bar>n\<bar> < prec_limit \<Longrightarrow> portfolio_round_money v = Inr (Dec n (-4))"
  by (simp add: units_def portfolio_round_money_def quantize_grid)

lemma units_sign: "\<bar>n\<bar> < prec_limit \<Longrightarrow> dabs (Dec n (-4)) = Dec \<bar>n\<bar> (-4)" "\<bar>n\<bar> < prec_limit \<Longrightarrow> - Dec n (-4) = Dec (- n) (-4)" "0 < Dec n (-4) \<longleftrightarrow> 0 < n"
  by (simp_all add: dabs_def dneg_def uminus_decimal_def decimal_order dval_pos_iff)

lemma units_rescaled: "-4 \<le> expo p \<Longrightarrow> units p (rescaled p (-4))"
  by (simp add: units_def dval_rescaled)

text \<open>The units of the priced open positions, and the positions without a price or with a stale one.\<close>

definition position_units :: "(uuid \<Rightarrow> portfolio_price option) \<Rightarrow> position_input \<Rightarrow> int option" where
  "position_units prices pos =
     (if pin_is_open pos then map_option (\<lambda>p. pin_quantity pos * rescaled (ppr_price p) (-4)) (prices (pin_instrument_id pos)) else None)"

definition unpriced :: "(uuid \<Rightarrow> portfolio_price option) \<Rightarrow> position_input \<Rightarrow> bool" where
  "unpriced prices pos \<longleftrightarrow> pin_is_open pos \<and> prices (pin_instrument_id pos) = None"

definition stale_price :: "(uuid \<Rightarrow> portfolio_price option) \<Rightarrow> datetime \<Rightarrow> int option \<Rightarrow> position_input \<Rightarrow> bool" where
  "stale_price prices now max_age pos \<longleftrightarrow> pin_is_open pos \<and> (case (prices (pin_instrument_id pos), max_age) of
     (Some p, Some a) \<Rightarrow> usec a < instant now - instant (ppr_observed_at p) \<or> instant now < instant (ppr_observed_at p) | _ \<Rightarrow> False)"

text \<open>Prices as their constructor and column allow them.\<close>

definition prices_ok :: "(uuid \<Rightarrow> portfolio_price option) \<Rightarrow> position_input list \<Rightarrow> bool" where
  "prices_ok prices ps \<longleftrightarrow> list_all (\<lambda>pos. pred_option (\<lambda>p. tz_aware (ppr_observed_at p) \<and> -4 \<le> expo (ppr_price p)) (prices (pin_instrument_id pos))) ps"

definition totals :: "exposure_totals \<Rightarrow> int \<Rightarrow> int \<Rightarrow> int \<Rightarrow> int \<Rightarrow> bool" where
  "totals t g n l s \<longleftrightarrow> units (et_gross t) g \<and> units (et_net t) n \<and> units (et_long t) l \<and> units (et_short t) s
     \<and> \<bar>n\<bar> \<le> g \<and> 0 \<le> l \<and> 0 \<le> s \<and> l + s = g"

lemma totals_add_priced:
  assumes "totals t g n l s" "g + \<bar>u\<bar> < prec_limit"
  shows "totals (add_priced pos p st (Dec u (-4)) t) (g + \<bar>u\<bar>) (n + u) (l + max u 0) (s + max (- u) 0)"
proof -
  have b: "\<bar>u\<bar> < prec_limit" "\<bar>g + \<bar>u\<bar>\<bar> < prec_limit" "\<bar>n + u\<bar> < prec_limit" "\<bar>l + u\<bar> < prec_limit \<or> u \<le> 0" "\<bar>s - u\<bar> < prec_limit \<or> 0 < u"
    using assms by (auto simp: totals_def)
  then show ?thesis
    using assms units_plus [of "et_gross t" g "Dec \<bar>u\<bar> (-4)" "\<bar>u\<bar>"] units_plus [of "et_net t" n "Dec u (-4)" u]
      units_plus [of "et_long t" l "Dec u (-4)" u] units_plus [of "et_short t" s "Dec (- u) (-4)" "- u"]
    by (auto simp: totals_def add_priced_def units_sign max_def)
qed

lemma totals_same [simp]: "totals (add_missing pos t) g n l s = totals t g n l s" "totals (t\<lparr>et_open_count := k\<rparr>) g n l s = totals t g n l s"
  by (simp_all add: totals_def add_missing_def)

definition values_of :: "position_exposure list \<Rightarrow> decimal list" where
  "values_of es = List.map_filter pe_market_value es"

abbreviation unit_list :: "(uuid \<Rightarrow> portfolio_price option) \<Rightarrow> position_input list \<Rightarrow> int list" where
  "unit_list prices ps \<equiv> List.map_filter (position_units prices) ps"

lemma aggregate_loop_ok:
  assumes "totals t g n l s" "prices_ok prices ps" "tz_aware now" "g + (\<Sum>u\<leftarrow>unit_list prices ps. \<bar>u\<bar>) < prec_limit"
  shows "\<exists>t'. aggregate_loop prices now max_age ps t = Inr t' \<and>
    totals t' (g + (\<Sum>u\<leftarrow>unit_list prices ps. \<bar>u\<bar>)) (n + sum_list (unit_list prices ps)) (l + (\<Sum>u\<leftarrow>unit_list prices ps. max u 0))
      (s + (\<Sum>u\<leftarrow>unit_list prices ps. max (- u) 0)) \<and>
    values_of (et_exposures t') = values_of (et_exposures t) @ map (\<lambda>u. Dec u (-4)) (unit_list prices ps) \<and>
    et_missing_ids t' = et_missing_ids t @ map pin_instrument_id (filter (unpriced prices) ps) \<and>
    et_stale_ids t' = et_stale_ids t @ map pin_instrument_id (filter (stale_price prices now max_age) ps) \<and>
    (et_any_priced t' \<longleftrightarrow> et_any_priced t \<or> unit_list prices ps \<noteq> []) \<and>
    et_open_count t' = et_open_count t + length (filter pin_is_open ps)"
  using assms
proof (induction ps arbitrary: t g n l s)
  case Nil
  then show ?case by (simp add: map_filter_simps)
next
  case (Cons pos ps)
  let ?i = "pin_instrument_id pos" and ?us = "unit_list prices ps"
  have ok: "prices_ok prices ps" using Cons.prems(2) by (simp add: prices_ok_def)
  have nn: "0 \<le> (\<Sum>u\<leftarrow>?us. \<bar>u\<bar>)" by (rule sum_list_nonneg) auto
  consider (closed) "\<not> pin_is_open pos" | (missing) "pin_is_open pos" "prices ?i = None" | (priced) p where "pin_is_open pos" "prices ?i = Some p" by blast
  then show ?case
  proof cases
    case closed
    then have "position_units prices pos = None" "\<not> unpriced prices pos" "\<not> stale_price prices now max_age pos"
      by (simp_all add: position_units_def unpriced_def stale_price_def)
    then show ?thesis using Cons.IH [OF Cons.prems(1) ok Cons.prems(3)] Cons.prems(4) closed by (simp add: map_filter_simps)
  next
    case missing
    then have none: "position_units prices pos = None" "unpriced prices pos" "\<not> stale_price prices now max_age pos"
      "classify_reference_price ?i prices now max_age = Inr (None, MISSING)"
      by (simp_all add: position_units_def unpriced_def stale_price_def classify_reference_price_def)
    have v: "values_of (et_exposures (add_missing pos t1)) = values_of (et_exposures t1)"
      "et_missing_ids (add_missing pos t1) = et_missing_ids t1 @ [?i]" "et_stale_ids (add_missing pos t1) = et_stale_ids t1"
      "et_any_priced (add_missing pos t1) = et_any_priced t1" "et_open_count (add_missing pos t1) = et_open_count t1" for t1
      by (simp_all add: add_missing_def values_of_def List.map_filter_def exposure_of_def)
    show ?thesis
      using Cons.IH [of "add_missing pos (t\<lparr>et_open_count := Suc (et_open_count t)\<rparr>)" g n l s] ok Cons.prems none missing(1)
      by (simp add: map_filter_simps v)
  next
    case priced
    define u where "u = pin_quantity pos * rescaled (ppr_price p) (-4)"
    define st where "st = (if stale_price prices now max_age pos then STALE else FRESH)"
    have p: "tz_aware (ppr_observed_at p)" "-4 \<le> expo (ppr_price p)" using Cons.prems(2) priced by (auto simp: prices_ok_def)
    have us: "position_units prices pos = Some u" using priced by (simp add: position_units_def u_def)
    have b: "g + \<bar>u\<bar> < prec_limit" "\<bar>u\<bar> < prec_limit" using Cons.prems(1,4) nn by (auto simp: us totals_def)
    have e: "signed_exposure (pin_quantity pos) (ppr_price p) = Inr (Dec u (-4))"
      using units_round [OF units_dec_of_int_times [OF units_rescaled [OF p(2)]]] b(2) by (simp add: signed_exposure_def u_def)
    have c: "classify_reference_price ?i prices now max_age = Inr (Some p, st)"
      using priced p(1) Cons.prems(3) by (auto simp: classify_reference_price_def st_def stale_price_def split: option.splits)
    let ?t = "add_priced pos (ppr_price p) st (Dec u (-4)) (t\<lparr>et_open_count := Suc (et_open_count t)\<rparr>)"
    have t: "totals ?t (g + \<bar>u\<bar>) (n + u) (l + max u 0) (s + max (- u) 0)" by (rule totals_add_priced) (use Cons.prems(1) b(1) in simp_all)
    have "g + \<bar>u\<bar> + (\<Sum>u\<leftarrow>?us. \<bar>u\<bar>) < prec_limit" using Cons.prems(4) by (simp add: us)
    from Cons.IH [OF t ok Cons.prems(3) this] obtain t' where t': "aggregate_loop prices now max_age ps ?t = Inr t'"
      "totals t' (g + \<bar>u\<bar> + (\<Sum>u\<leftarrow>?us. \<bar>u\<bar>)) (n + u + sum_list ?us) (l + max u 0 + (\<Sum>u\<leftarrow>?us. max u 0)) (s + max (- u) 0 + (\<Sum>u\<leftarrow>?us. max (- u) 0))"
      "values_of (et_exposures t') = values_of (et_exposures ?t) @ map (\<lambda>u. Dec u (-4)) ?us"
      "et_missing_ids t' = et_missing_ids ?t @ map pin_instrument_id (filter (unpriced prices) ps)"
      "et_stale_ids t' = et_stale_ids ?t @ map pin_instrument_id (filter (stale_price prices now max_age) ps)"
      "et_any_priced t' \<longleftrightarrow> et_any_priced ?t \<or> ?us \<noteq> []" "et_open_count t' = et_open_count ?t + length (filter pin_is_open ps)"
      by blast
    have v: "values_of (et_exposures ?t) = values_of (et_exposures t) @ [Dec u (-4)]"
      by (simp add: add_priced_def values_of_def List.map_filter_def exposure_of_def)
    have f: "et_missing_ids ?t = et_missing_ids t" "et_any_priced ?t" "et_open_count ?t = Suc (et_open_count t)"
      "et_stale_ids ?t = et_stale_ids t @ map pin_instrument_id (filter (stale_price prices now max_age) [pos])"
      by (simp_all add: add_priced_def st_def)
    have "\<not> unpriced prices pos" using priced by (simp add: unpriced_def)
    then show ?thesis using priced t' v f by (simp add: e c us add.assoc)
  qed
qed


lemma values_add: "\<bar>v\<bar> < prec_limit \<Longrightarrow> 0 \<le> k \<Longrightarrow> k + \<bar>v\<bar> < prec_limit \<Longrightarrow> units x k \<Longrightarrow> units (x + dabs (Dec v (-4))) (k + \<bar>v\<bar>)"
  using units_plus [of x k "Dec \<bar>v\<bar> (-4)" "\<bar>v\<bar>"] by (simp add: units_sign)

lemma od_set_values: "\<forall>b\<in>snd ` set d. P b \<Longrightarrow> P v \<Longrightarrow> \<forall>b\<in>snd ` set (od_set k v d). P b"
  by (auto simp: od_set_def)

lemma map_of_value: "map_of d k = Some b \<Longrightarrow> b \<in> snd ` set d"
  by (force dest: map_of_SomeD)

lemma buckets_bounded:
  assumes "values_of es = map (\<lambda>u. Dec u (-4)) us" "0 \<le> n" "n + (\<Sum>u\<leftarrow>us. \<bar>u\<bar>) < prec_limit"
    and "\<forall>b\<in>snd ` set d. \<exists>k. units (bk_gross b) k \<and> 0 \<le> k \<and> k \<le> n"
  shows "\<forall>b\<in>snd ` set (foldl add_to_bucket d es). \<exists>k. units (bk_gross b) k \<and> 0 \<le> k \<and> k < prec_limit"
  using assms
proof (induction es arbitrary: us n d)
  case Nil
  have "0 \<le> (\<Sum>u\<leftarrow>us. \<bar>u\<bar>)" by (rule sum_list_nonneg) auto
  then show ?case using Nil by fastforce
next
  case (Cons e es)
  define b where "b = (case map_of d (pe_strategy_run_id e) of None \<Rightarrow> \<lparr>bk_count = 0, bk_gross = 0, bk_priced = True\<rparr> | Some b \<Rightarrow> b)"
  have b: "\<exists>k. units (bk_gross b) k \<and> 0 \<le> k \<and> k \<le> n"
    using Cons.prems(2,4) map_of_value [of d "pe_strategy_run_id e"] units_zero by (fastforce simp: b_def split: option.splits)
  show ?case
  proof (cases "pe_market_value e")
    case None
    then have "values_of es = map (\<lambda>u. Dec u (-4)) us" using Cons.prems(1) by (simp add: values_of_def)
    moreover have "add_to_bucket d e = od_set (pe_strategy_run_id e) (b\<lparr>bk_count := Suc (bk_count b), bk_priced := False\<rparr>) d"
      by (simp add: add_to_bucket_def None b_def Let_def)
    moreover have "\<exists>k. units (bk_gross (b\<lparr>bk_count := Suc (bk_count b), bk_priced := False\<rparr>)) k \<and> 0 \<le> k \<and> k \<le> n" using b by simp
    ultimately show ?thesis using Cons.IH [OF _ Cons.prems(2,3) od_set_values [OF Cons.prems(4)]] unfolding foldl_Cons by metis
  next
    case (Some v)
    then obtain u vs where u: "us = u # vs" "v = Dec u (-4)" "values_of es = map (\<lambda>u. Dec u (-4)) vs"
      using Cons.prems(1) by (cases us) (auto simp: values_of_def)
    have nn: "0 \<le> (\<Sum>u\<leftarrow>vs. \<bar>u\<bar>)" by (rule sum_list_nonneg) auto
    have add: "add_to_bucket d e = od_set (pe_strategy_run_id e) (b\<lparr>bk_count := Suc (bk_count b), bk_gross := bk_gross b + dabs v\<rparr>) d"
      by (simp add: add_to_bucket_def Some b_def Let_def)
    obtain k where k: "units (bk_gross b) k" "0 \<le> k" "k \<le> n" using b by blast
    then have "units (bk_gross b + dabs v) (k + \<bar>u\<bar>)" using values_add [of u k] Cons.prems(2,3) nn by (simp add: u)
    then have new: "\<exists>j. units (bk_gross (b\<lparr>bk_count := Suc (bk_count b), bk_gross := bk_gross b + dabs v\<rparr>)) j \<and> 0 \<le> j \<and> j \<le> n + \<bar>u\<bar>"
      using k by (auto intro!: exI [of _ "k + \<bar>u\<bar>"])
    have "\<forall>b\<in>snd ` set d. \<exists>k. units (bk_gross b) k \<and> 0 \<le> k \<and> k \<le> n + \<bar>u\<bar>" using Cons.prems(4) by fastforce
    from od_set_values [OF this new] have "\<forall>b\<in>snd ` set (add_to_bucket d e). \<exists>k. units (bk_gross b) k \<and> 0 \<le> k \<and> k \<le> n + \<bar>u\<bar>" by (simp add: add)
    then show ?thesis using Cons.IH [of vs "n + \<bar>u\<bar>" "add_to_bucket d e"] Cons.prems(2,3) u by simp
  qed
qed

lemma breakdown_defined:
  assumes "values_of es = map (\<lambda>u. Dec u (-4)) us" "(\<Sum>u\<leftarrow>us. \<bar>u\<bar>) < prec_limit"
  shows "\<exists>bs. strategy_breakdown es = Inr bs"
  unfolding strategy_breakdown_def
proof (rule rmap_defined)
  fix x assume "x \<in> set (sort_key (uuid_str \<circ> fst) (foldl add_to_bucket [] es))"
  then have "x \<in> set (foldl add_to_bucket [] es)" by simp
  then obtain sid b where x: "x = (sid, b)" "b \<in> snd ` set (foldl add_to_bucket [] es)" by (metis imageI surjective_pairing)
  then obtain k where "units (bk_gross b) k" "0 \<le> k" "k < prec_limit" using buckets_bounded [OF assms(1), of 0 "[]"] assms(2) by fastforce
  then show "\<exists>y. breakdown_row x = Inr y" by (simp add: breakdown_row_def x(1) units_round)
qed




lemma aggregate_positions_ok:
  assumes "prices_ok prices ps" "tz_aware now" "(\<Sum>u\<leftarrow>unit_list prices ps. \<bar>u\<bar>) < prec_limit"
  defines "us \<equiv> unit_list prices ps"
  shows "\<exists>s. aggregate_positions ps prices now max_age = Inr s \<and> values_of (es_exposures s) = map (\<lambda>u. Dec u (-4)) us \<and>
    es_gross s = Dec (\<Sum>u\<leftarrow>us. \<bar>u\<bar>) (-4) \<and> es_net s = Dec (sum_list us) (-4) \<and> es_long s = Dec (\<Sum>u\<leftarrow>us. max u 0) (-4) \<and>
    es_short s = Dec (\<Sum>u\<leftarrow>us. max (- u) 0) (-4) \<and>
    es_missing_ids s = map pin_instrument_id (filter (unpriced prices) ps) \<and>
    es_stale_ids s = map pin_instrument_id (filter (stale_price prices now max_age) ps) \<and>
    es_market_value s = (if filter pin_is_open ps = [] then Some 0 else if us = [] then None else Some (Dec (sum_list us) (-4)))"
proof -
  have "totals no_exposure 0 0 0 0" by (simp add: totals_def no_exposure_def units_zero)
  from aggregate_loop_ok [OF this assms(1,2)] assms(3) obtain t where
    t: "aggregate_loop prices now max_age ps no_exposure = Inr t"
      "totals t (\<Sum>u\<leftarrow>us. \<bar>u\<bar>) (sum_list us) (\<Sum>u\<leftarrow>us. max u 0) (\<Sum>u\<leftarrow>us. max (- u) 0)"
      "values_of (et_exposures t) = map (\<lambda>u. Dec u (-4)) us" "et_missing_ids t = map pin_instrument_id (filter (unpriced prices) ps)"
      "et_stale_ids t = map pin_instrument_id (filter (stale_price prices now max_age) ps)" "et_any_priced t \<longleftrightarrow> us \<noteq> []"
      "et_open_count t = length (filter pin_is_open ps)"
    by (auto simp: no_exposure_def us_def values_of_def List.map_filter_def)
  have r: "portfolio_round_money (et_gross t) = Inr (Dec (\<Sum>u\<leftarrow>us. \<bar>u\<bar>) (-4))" "portfolio_round_money (et_net t) = Inr (Dec (sum_list us) (-4))"
    "portfolio_round_money (et_long t) = Inr (Dec (\<Sum>u\<leftarrow>us. max u 0) (-4))" "portfolio_round_money (et_short t) = Inr (Dec (\<Sum>u\<leftarrow>us. max (- u) 0) (-4))"
    using t(2) assms(3) by (auto simp: totals_def us_def intro!: units_round)
  show ?thesis using t(3-7) by (simp add: aggregate_positions_def t(1) r)
qed


lemma equity_round:
  assumes "units x n" "-4 \<le> expo c" "\<bar>n\<bar> + \<bar>rescaled c (-4)\<bar> < prec_limit"
  shows "portfolio_round_money (c + x) = Inr (Dec (rescaled c (-4) + n) (-4))"
  using units_round [OF units_plus [OF units_rescaled [OF assms(2)] assms(1)]] assms(3) by simp

lemma market_value_known:
  assumes "\<not> list_ex (unpriced prices) ps"
  shows "unit_list prices ps = [] \<longleftrightarrow> filter pin_is_open ps = []"
proof -
  have "position_units prices pos = None \<longleftrightarrow> \<not> pin_is_open pos" if "pos \<in> set ps" for pos
    using assms that by (auto simp: position_units_def unpriced_def list_ex_iff)
  then show ?thesis by (auto simp: List.map_filter_def filter_empty_conv)
qed

text \<open>The computation in units.\<close>

lemma compute_portfolio_units:
  assumes "prices_ok (pis_prices i) (pis_positions i)" "tz_aware now" "cash = Option.bind (pis_funds i) fs_available_cash"
    and "us = unit_list (pis_prices i) (pis_positions i)" "pred_option (\<lambda>c. -4 \<le> expo c) cash"
    and "(\<Sum>u\<leftarrow>us. \<bar>u\<bar>) + (case cash of None \<Rightarrow> 0 | Some c \<Rightarrow> \<bar>rescaled c (-4)\<bar>) < prec_limit"
  shows "\<exists>c. compute_portfolio i now max_age = Inr c \<and> pc_gross_exposure c = Dec (\<Sum>u\<leftarrow>us. \<bar>u\<bar>) (-4) \<and> pc_net_exposure c = Dec (sum_list us) (-4) \<and>
    pc_long_exposure c = Dec (\<Sum>u\<leftarrow>us. max u 0) (-4) \<and> pc_short_exposure c = Dec (\<Sum>u\<leftarrow>us. max (- u) 0) (-4) \<and>
    (pc_status c = PF_READY \<longleftrightarrow> cash \<noteq> None \<and>
       \<not> list_ex (\<lambda>pos. unpriced (pis_prices i) pos \<or> stale_price (pis_prices i) now max_age pos) (pis_positions i)) \<and>
    pc_equity_value c = (if cash = None \<or> list_ex (unpriced (pis_prices i)) (pis_positions i) then None
      else Some (Dec (rescaled (the cash) (-4) + sum_list us) (-4)))"
proof -
  let ?P = "pis_prices i" and ?ps = "pis_positions i"
  have lim: "(\<Sum>u\<leftarrow>us. \<bar>u\<bar>) < prec_limit" "\<bar>sum_list us\<bar> \<le> (\<Sum>u\<leftarrow>us. \<bar>u\<bar>)"
    using assms(6) sum_list_abs [of us] by (cases cash; simp)+
  obtain s where s: "aggregate_positions ?ps ?P now max_age = Inr s" "values_of (es_exposures s) = map (\<lambda>u. Dec u (-4)) us"
    "es_gross s = Dec (\<Sum>u\<leftarrow>us. \<bar>u\<bar>) (-4)" "es_net s = Dec (sum_list us) (-4)" "es_long s = Dec (\<Sum>u\<leftarrow>us. max u 0) (-4)"
    "es_short s = Dec (\<Sum>u\<leftarrow>us. max (- u) 0) (-4)" "es_missing_ids s = map pin_instrument_id (filter (unpriced ?P) ?ps)"
    "es_stale_ids s = map pin_instrument_id (filter (stale_price ?P now max_age) ?ps)"
    "es_market_value s = (if filter pin_is_open ?ps = [] then Some 0 else if us = [] then None else Some (Dec (sum_list us) (-4)))"
    using aggregate_positions_ok [OF assms(1,2)] lim(1) unfolding assms(4) by blast
  obtain bs where bs: "strategy_breakdown (es_exposures s) = Inr bs" using breakdown_defined [OF s(2) lim(1)] by blast
  have missing: "es_missing_ids s = [] \<longleftrightarrow> \<not> list_ex (unpriced ?P) ?ps" "es_stale_ids s = [] \<longleftrightarrow> \<not> list_ex (stale_price ?P now max_age) ?ps"
    by (auto simp: s(7,8) list_ex_iff filter_empty_conv)
  have mv: "\<exists>x. es_market_value s = Some x \<and> units x (sum_list us)" if "\<not> list_ex (unpriced ?P) ?ps"
    using market_value_known [OF that] units_zero s(9) unfolding assms(4) by (auto split: if_splits)
  have eq: "portfolio_round_money (c + x) = Inr (Dec (rescaled c (-4) + sum_list us) (-4))" if "cash = Some c" "units x (sum_list us)" for c x
    using equity_round [OF that(2)] that(1) assms(5,6) lim(2) by simp
  have ex: "list_ex (\<lambda>pos. P pos \<or> Q pos) xs \<longleftrightarrow> list_ex P xs \<or> list_ex Q xs" for P Q :: "position_input \<Rightarrow> bool" and xs
    by (auto simp: list_ex_iff)
  show ?thesis
  proof (cases "cash = None \<or> list_ex (unpriced ?P) ?ps")
    case True
    then show ?thesis by (auto simp: compute_portfolio_def s(1,3-6) bs missing Let_def ex simp flip: assms(3) split: option.split)
  next
    case False
    then obtain c x where "cash = Some c" "es_market_value s = Some x" "units x (sum_list us)" using mv by auto
    then show ?thesis using False eq by (auto simp: compute_portfolio_def s(1,3-6) bs missing Let_def ex simp flip: assms(3))
  qed
qed


text \<open>The market value of a strategy in the breakdown is its gross exposure, whatever the signs of its positions.\<close>

lemma breakdown_value_is_gross:
  assumes "strategy_breakdown es = Inr bs" "b \<in> set bs"
  shows "sb_market_value b = None \<or> sb_market_value b = Some (sb_gross_exposure b)"
proof -
  obtain x where "breakdown_row x = Inr b" using rmap_source [OF assms(1) [unfolded strategy_breakdown_def] assms(2)] by blast
  then show ?thesis by (auto simp: breakdown_row_def result_simps split: prod.splits if_splits)
qed

section \<open>A snapshot is written once\<close>

definition snapshot_key :: "portfolio_row \<Rightarrow> uuid \<times> string \<times> int" where
  "snapshot_key r = (pr_broker_account_id r, pr_trading_mode r, instant (pr_snapshot_at r))"

definition rows_ok :: "portfolio_row list \<Rightarrow> bool" where
  "rows_ok rows \<longleftrightarrow> distinct (map snapshot_key rows)"

abbreviation taken :: "portfolio_snapshot \<Rightarrow> portfolio_row list \<Rightarrow> bool" where
  "taken s rows \<equiv> (psn_account_id s, psn_trading_mode s, instant (psn_snapshot_at s)) \<in> snapshot_key ` set rows"

lemma same_snapshot_key: "same_snapshot q r \<longleftrightarrow> snapshot_key q = snapshot_key r"
  by (auto simp: same_snapshot_def snapshot_key_def)

lemma store_row_keeps: "store_row numeric r = Some row \<Longrightarrow> snapshot_key row = snapshot_key r"
  by (auto simp: store_row_def snapshot_key_def split: list.splits option.splits)

text \<open>What a save can do: nothing, or append one row with a new key.\<close>

lemma save_appends:
  assumes "save_portfolio_snapshot db rows s c h = (res, rows')" "rows' \<noteq> rows"
  obtains row where "rows' = rows @ [row]" "snapshot_key row = (psn_account_id s, psn_trading_mode s, instant (psn_snapshot_at s))" "\<not> taken s rows"
    "\<forall>x. res = Inr x \<longrightarrow> from_orm_snapshot row = Inr x" "\<forall>m. res \<noteq> Inl (DuplicateSnapshotError m)"
proof -
  obtain row where row: "store_row (db_numeric db) (to_orm_snapshot (db_fresh db) s c h) = Some row" "\<not> db_fails db"
    using assms by (auto simp: save_portfolio_snapshot_def split: option.splits if_splits)
  then have key: "snapshot_key row = (psn_account_id s, psn_trading_mode s, instant (psn_snapshot_at s))"
    by (simp add: store_row_keeps) (simp add: snapshot_key_def to_orm_snapshot_def)
  obtain t where ins: "insert_row same_snapshot (\<lambda>r. db_account_exists db (pr_broker_account_id r)) rows row = Some t"
    using assms row by (auto simp: save_portfolio_snapshot_def split: option.splits)
  then have "t = rows @ [row]" "\<forall>q\<in>set rows. snapshot_key q \<noteq> snapshot_key row" by (auto dest!: insert_row_SomeD simp: same_snapshot_key)
  moreover from this have "\<not> taken s rows" by (auto simp flip: key)
  ultimately show thesis using assms(1) row ins key that by (cases "from_orm_snapshot row") (force simp: save_portfolio_snapshot_def)+
qed

lemma save_stores: "save_portfolio_snapshot db rows s c h = (Inr x, rows') \<Longrightarrow> rows' \<noteq> rows"
  by (auto simp: save_portfolio_snapshot_def split: option.splits if_splits sum.splits dest!: insert_row_SomeD)

text \<open>The effect of a call on the table, and what a call that returns has found or stored.\<close>

lemma engine_compute_keeps: "engine_compute halt g i t a = (res, g1) \<Longrightarrow> pg_repository g1 = pg_repository g"
  by (auto simp: engine_compute_def split: sum.splits)

lemma engine_compute_identity:
  assumes "engine_compute halt g i t a = (Inr c, g1)"
  shows "psn_account_id (to_portfolio_snapshot c) = pis_account_id i" "psn_trading_mode (to_portfolio_snapshot c) = upper (pis_trading_mode i)"
    "psn_snapshot_at (to_portfolio_snapshot c) = t"
  using assms by (auto simp: engine_compute_def compute_portfolio_def to_portfolio_snapshot_def Let_def result_simps split: sum.splits)

lemma snapshot_table:
  assumes "engine_snapshot dig db halt g i t a = (res, g1)" "pg_repository g = Some rows" "rows_ok rows"
  shows "\<exists>new. pg_repository g1 = Some (rows @ new) \<and> rows_ok (rows @ new)"
proof (cases "engine_compute halt g i t a")
  case (Pair cres g2)
  show ?thesis
  proof (cases cres)
    case (Inl e)
    then show ?thesis using assms Pair engine_compute_keeps [OF Pair] by (auto simp: engine_snapshot_def)
  next
    case (Inr c)
    obtain sres rows' where save: "save_portfolio_snapshot db rows (to_portfolio_snapshot c) c (snapshot_content_hash dig c t) = (sres, rows')" by fastforce
    have "pg_repository g1 = Some rows'"
      using assms(1,2) Pair Inr save by (auto simp: engine_snapshot_def Let_def split: sum.splits option.splits portfolio_error.splits)
    moreover have "\<exists>new. rows' = rows @ new \<and> rows_ok (rows @ new)"
    proof (cases "rows' = rows")
      case False
      with save obtain row where "rows' = rows @ [row]" "snapshot_key row = (psn_account_id (to_portfolio_snapshot c), psn_trading_mode (to_portfolio_snapshot c),
          instant (psn_snapshot_at (to_portfolio_snapshot c)))" "\<not> taken (to_portfolio_snapshot c) rows" by (rule save_appends)
      then show ?thesis using assms(3) by (auto simp: rows_ok_def)
    qed (use assms(3) in simp)
    ultimately show ?thesis by auto
  qed
qed

lemma snapshot_returned:
  assumes "engine_snapshot dig db halt g i t a = (Inr r, g1)" "pg_repository g = Some rows" "rows_ok rows"
  obtains row rows1 where "pg_repository g1 = Some rows1" "row \<in> set rows1" "from_orm_snapshot row = Inr (psr_snapshot r)"
    "snapshot_key row = (pis_account_id i, upper (pis_trading_mode i), instant t)" "psr_duplicate r \<longleftrightarrow> row \<in> set rows" "row \<in> set rows \<Longrightarrow> rows1 = rows"
proof -
  obtain c g2 where c: "engine_compute halt g i t a = (Inr c, g2)"
    using assms(1,2) by (auto simp: engine_snapshot_def split: prod.splits sum.splits)
  note id = engine_compute_identity [OF c]
  obtain sres rows' where save: "save_portfolio_snapshot db rows (to_portfolio_snapshot c) c (snapshot_content_hash dig c t) = (sres, rows')" by fastforce
  show thesis
  proof (cases sres)
    case (Inr x)
    with save obtain row where row: "rows' = rows @ [row]" "snapshot_key row = (pis_account_id i, upper (pis_trading_mode i), instant t)"
      "\<not> taken (to_portfolio_snapshot c) rows" "from_orm_snapshot row = Inr x"
      using save_appends [OF save] save_stores id by (metis (no_types, lifting))
    then have "row \<notin> set rows" using id by (metis imageI)
    then show thesis using that [of rows' row] assms(1,2) c save Inr row by (auto simp: engine_snapshot_def)
  next
    case (Inl e)
    then obtain m where m: "e = DuplicateSnapshotError m" using assms(1,2) c save by (auto simp: engine_snapshot_def split: portfolio_error.splits)
    then have rows': "rows' = rows" using save_appends [OF save] Inl by metis
    obtain x where x: "load_portfolio_snapshot rows (pis_account_id i) (pis_trading_mode i) t = Inr (Some x)"
      "psr_snapshot r = x" "psr_duplicate r" "pg_repository g1 = Some rows"
      using assms(1,2) c save Inl m rows' by (auto simp: engine_snapshot_def Let_def split: sum.splits option.splits)
    then obtain row where "row \<in> set rows" "snapshot_key row = (pis_account_id i, upper (pis_trading_mode i), instant t)" "from_orm_snapshot row = Inr x"
      by (auto simp: load_portfolio_snapshot_def read_snapshot_def result_simps snapshot_key_def split: option.splits dest!: first_row_SomeD)
    then show thesis using that x by blast
  qed
qed

text \<open>A refused call changes nothing.\<close>

lemma portfolio_fail_closed:
  assumes "halt \<or> upper (pis_trading_mode i) \<notin> {''BACKTEST'', ''PAPER''}"
  shows "\<exists>e. engine_snapshot dig db halt g i t a = (Inl e, g)"
  using assms by (auto simp: engine_snapshot_def engine_compute_def validate_portfolio_def Let_def split: option.split)

text \<open>Calls with other inputs, other failures and other modes in between.\<close>

datatype portfolio_call = Snapshot_Call digest portfolio_db bool portfolio_inputs datetime "int option" | Compute_Call bool portfolio_inputs datetime "int option"

fun portfolio_step :: "portfolio_engine \<Rightarrow> portfolio_call \<Rightarrow> portfolio_engine" where
  "portfolio_step g (Snapshot_Call dig db halt i t a) = snd (engine_snapshot dig db halt g i t a)"
| "portfolio_step g (Compute_Call halt i t a) = snd (engine_compute halt g i t a)"

lemma portfolio_run_table:
  assumes "pg_repository g = Some rows" "rows_ok rows"
  shows "\<exists>new. pg_repository (foldl portfolio_step g calls) = Some (rows @ new) \<and> rows_ok (rows @ new)"
  using assms
proof (induction calls arbitrary: g rows)
  case Nil
  then show ?case by simp
next
  case (Cons c calls)
  have "\<exists>new. pg_repository (portfolio_step g c) = Some (rows @ new) \<and> rows_ok (rows @ new)"
  proof (cases c)
    case (Snapshot_Call dig db halt i t a)
    then show ?thesis using snapshot_table [OF _ Cons.prems] by (metis portfolio_step.simps(1) prod.collapse)
  next
    case (Compute_Call halt i t a)
    then show ?thesis using engine_compute_keeps [of halt g i t a] Cons.prems by (metis append_Nil2 portfolio_step.simps(2) prod.collapse)
  qed
  then obtain new where "pg_repository (portfolio_step g c) = Some (rows @ new)" "rows_ok (rows @ new)" by blast
  from Cons.IH [OF this] show ?case by auto
qed

text \<open>C36.  A snapshot is written once and never changes: with a table that holds at most one row per account, mode and time, after a call
  returned a snapshot of an account, mode and time, every later call for them that returns, after any other calls and with any other
  inputs, returns the same snapshot as a duplicate and writes nothing.  (A later call may also raise, for example under a halt.  The
  content of the inputs plays no role: a later call with other positions or prices is answered with the first snapshot.)\<close>

theorem portfolio_snapshot_once:
  assumes "pg_repository g = Some rows" "rows_ok rows" "engine_snapshot dig db halt g i t a = (Inr r, g1)"
    and "engine_snapshot dig' db' halt' (foldl portfolio_step g1 calls) i' t' a' = (Inr r', g2)"
    and "pis_account_id i' = pis_account_id i" "upper (pis_trading_mode i') = upper (pis_trading_mode i)" "instant t' = instant t"
  shows "psr_duplicate r' \<and> psr_snapshot r' = psr_snapshot r \<and> pg_repository g2 = pg_repository (foldl portfolio_step g1 calls)"
proof -
  obtain row rows1 where first: "pg_repository g1 = Some rows1" "row \<in> set rows1" "from_orm_snapshot row = Inr (psr_snapshot r)"
    "snapshot_key row = (pis_account_id i, upper (pis_trading_mode i), instant t)"
    using snapshot_returned [OF assms(3,1,2)] by metis
  have "rows_ok rows1" using snapshot_table [OF assms(3,1,2)] first(1) by auto
  from portfolio_run_table [OF first(1) this] obtain new where mid: "pg_repository (foldl portfolio_step g1 calls) = Some (rows1 @ new)" "rows_ok (rows1 @ new)" by blast
  obtain row' rows2 where second: "pg_repository g2 = Some rows2" "row' \<in> set rows2" "from_orm_snapshot row' = Inr (psr_snapshot r')"
    "snapshot_key row' = snapshot_key row" "psr_duplicate r' \<longleftrightarrow> row' \<in> set (rows1 @ new)" "row' \<in> set (rows1 @ new) \<Longrightarrow> rows2 = rows1 @ new"
    using snapshot_returned [OF assms(4) mid] assms(5-7) first(4) by metis
  obtain more_rows where "rows2 = rows1 @ new @ more_rows" "rows_ok rows2" using snapshot_table [OF assms(4) mid] second(1) by auto
  then have "row' = row" using first(2) second(2,4) by (auto simp: rows_ok_def distinct_map dest: inj_onD)
  then show ?thesis using first(2,3) second mid(1) by auto
qed

section \<open>Witnesses\<close>

definition sample_portfolio :: "int \<Rightarrow> portfolio_inputs" where
  "sample_portfolio q =
     \<lparr>pis_account_id = 2, pis_trading_mode = ''PAPER'',
      pis_positions = [\<lparr>pin_position_id = None, pin_instrument_id = 3, pin_strategy_run_id = 1, pin_quantity = q, pin_average_price = None, pin_status = ''OPEN''\<rparr>],
      pis_funds = Some \<lparr>fs_available_cash = Some (Dec 50 0), fs_available_margin = None, fs_used_margin = None, fs_captured_at = None\<rparr>,
      pis_prices = (\<lambda>j. if j = 3 then Some \<lparr>ppr_instrument_id = 3, ppr_price = Dec 1025 (-1), ppr_observed_at = utc 0\<rparr> else None)\<rparr>"

definition sample_portfolio_engine :: portfolio_engine where
  "sample_portfolio_engine =
     \<lparr>pg_repository = Some [], pg_metrics = \<lparr>pmx_recalculations = 0, pmx_snapshot_writes = 0, pmx_stale_snapshots = 0, pmx_incomplete_snapshots = 0,
        pmx_duplicate_snapshots = 0\<rparr>, pg_max_age_seconds = Some 60\<rparr>"

definition sample_portfolio_db :: portfolio_db where
  "sample_portfolio_db = \<lparr>db_fails = False, db_numeric = Some, db_account_exists = (\<lambda>_. True), db_fresh = 7\<rparr>"


text \<open>A stored row can be read back.\<close>

lemma status_readable: "parse_portfolio_status (upper (portfolio_status_value s)) = Inr s" "portfolio_status_value s \<noteq> []"
  by (cases s; simp add: parse_portfolio_status_def portfolio_status_value_def upper_def upper_char_def)+

lemma completeness_readable: "parse_completeness (completeness_value c) = Inr c"
  by (cases c; simp add: parse_completeness_def completeness_value_def)

lemma snapshot_readable:
  "\<exists>x. from_orm_snapshot (to_orm_snapshot fresh s c h) = Inr x \<and> psn_status x = psn_status s \<and> psn_completeness x = pc_completeness c"
  by (simp add: from_orm_snapshot_def to_orm_snapshot_def status_readable completeness_readable)

lemma column_exact: "column Some v = Some v"
  by (cases v) (simp_all add: column_def)

lemma store_row_exact: "store_row Some r = Some r"
  by (simp add: store_row_def column_exact)

lemma sample_computes:
  assumes "\<bar>q\<bar> < 100" "pg_max_age_seconds g = Some 60"
  obtains c g1 where "engine_compute False g (sample_portfolio q) (utc 5) None = (Inr c, g1)"
proof -
  have r: "rescaled (Dec 1025 (-1)) (-4) = 1025000" "rescaled (Dec 50 0) (-4) = 500000" by (simp_all add: rescaled_def)
  have u: "unit_list (pis_prices (sample_portfolio q)) (pis_positions (sample_portfolio q)) = (if q = 0 then [] else [q * 1025000])"
    by (simp add: sample_portfolio_def position_units_def pin_is_open_def r)
  have ok: "prices_ok (pis_prices (sample_portfolio q)) (pis_positions (sample_portfolio q))"
    "Some (Dec 50 0) = Option.bind (pis_funds (sample_portfolio q)) fs_available_cash"
    by (simp_all add: sample_portfolio_def prices_ok_def)
  have "\<exists>c. compute_portfolio (sample_portfolio q) (utc 5) (Some 60) = Inr c"
  proof -
    have "(\<Sum>u\<leftarrow>unit_list (pis_prices (sample_portfolio q)) (pis_positions (sample_portfolio q)). \<bar>u\<bar>)
        + (case Some (Dec 50 0) of None \<Rightarrow> 0 | Some c \<Rightarrow> \<bar>rescaled c (-4)\<bar>) < prec_limit"
      using assms(1) unfolding u by (simp add: r abs_mult)
    from compute_portfolio_units [OF ok(1) tz_aware_utc ok(2) refl _ this, of 5 "Some 60"] show ?thesis by auto
  qed
  moreover have "validate_portfolio False (sample_portfolio q) = Inr ()"
    by (simp add: validate_portfolio_def sample_portfolio_def upper_def upper_char_def)
  ultimately show thesis using that assms(2) by (auto simp: engine_compute_def)
qed

lemma sample_snapshots:
  obtains r g1 r' g2 where
    "engine_snapshot (\<lambda>_. ''h'') sample_portfolio_db False sample_portfolio_engine (sample_portfolio 4) (utc 5) None = (Inr r, g1)"
    "engine_snapshot (\<lambda>_. ''h'') sample_portfolio_db False g1 (sample_portfolio 5) (utc 5) None = (Inr r', g2)"
proof -
  obtain c g0 where c: "engine_compute False sample_portfolio_engine (sample_portfolio 4) (utc 5) None = (Inr c, g0)"
    by (rule sample_computes [of 4 sample_portfolio_engine]) (simp_all add: sample_portfolio_engine_def)
  define row where "row = to_orm_snapshot 7 (to_portfolio_snapshot c) c ''h''"
  obtain x where x: "from_orm_snapshot row = Inr x" using snapshot_readable unfolding row_def by metis
  have g: "pg_repository sample_portfolio_engine = Some []" "pg_max_age_seconds g0 = Some 60"
    using c by (auto simp: sample_portfolio_engine_def engine_compute_def split: sum.splits)
  have save: "save_portfolio_snapshot sample_portfolio_db rows s d ''h'' =
      (case insert_row same_snapshot (\<lambda>r. True) rows (to_orm_snapshot 7 s d ''h'') of
         None \<Rightarrow> (Inl (DuplicateSnapshotError ''duplicate snapshot (unique constraint)''), rows)
       | Some rows' \<Rightarrow> (case from_orm_snapshot (to_orm_snapshot 7 s d ''h'') of
           Inl _ \<Rightarrow> (Inl (PortfolioPersistenceError ''portfolio snapshot write failed''), rows') | Inr x \<Rightarrow> (Inr x, rows')))" for rows s d
    by (simp add: save_portfolio_snapshot_def sample_portfolio_db_def store_row_exact)
  obtain r g1 where r: "engine_snapshot (\<lambda>_. ''h'') sample_portfolio_db False sample_portfolio_engine (sample_portfolio 4) (utc 5) None = (Inr r, g1)"
    "pg_repository g1 = Some [row]" "pg_max_age_seconds g1 = Some 60"
    using x g by (simp add: engine_snapshot_def c snapshot_content_hash_def save insert_row_def row_def)
  obtain d g2 where d: "engine_compute False g1 (sample_portfolio 5) (utc 5) None = (Inr d, g2)" by (rule sample_computes [of 5 g1]) (simp_all add: r)
  have key: "snapshot_key row = (2, ''PAPER'', 5)" "snapshot_key (to_orm_snapshot 7 (to_portfolio_snapshot d) d ''h'') = (2, ''PAPER'', 5)"
    using engine_compute_identity [OF c] engine_compute_identity [OF d]
    by (simp_all add: row_def snapshot_key_def to_orm_snapshot_def sample_portfolio_def upper_def upper_char_def)
  have "load_portfolio_snapshot [row] 2 ''PAPER'' (utc 5) = Inr (Some x)"
    using key(1) x by (simp add: load_portfolio_snapshot_def read_snapshot_def snapshot_key_def upper_def upper_char_def)
  moreover have "pis_account_id (sample_portfolio 5) = 2" "pis_trading_mode (sample_portfolio 5) = ''PAPER''" by (simp_all add: sample_portfolio_def)
  ultimately have "\<exists>r' g2. engine_snapshot (\<lambda>_. ''h'') sample_portfolio_db False g1 (sample_portfolio 5) (utc 5) None = (Inr r', g2)"
    using key by (simp add: engine_snapshot_def r(2) d snapshot_content_hash_def save insert_row_def same_snapshot_key Let_def)
  then show thesis using that [OF r(1)] by blast
qed

theorem portfolio_snapshot_once_witness:
  "\<exists>r g1 r' g2. engine_snapshot (\<lambda>_. ''h'') sample_portfolio_db False sample_portfolio_engine (sample_portfolio 4) (utc 5) None = (Inr r, g1)
     \<and> engine_snapshot (\<lambda>_. ''h'') sample_portfolio_db False g1 (sample_portfolio 5) (utc 5) None = (Inr r', g2)
     \<and> psr_duplicate r' \<and> psr_snapshot r' = psr_snapshot r"
proof -
  obtain r g1 r' g2 where r: "engine_snapshot (\<lambda>_. ''h'') sample_portfolio_db False sample_portfolio_engine (sample_portfolio 4) (utc 5) None = (Inr r, g1)"
    and r': "engine_snapshot (\<lambda>_. ''h'') sample_portfolio_db False g1 (sample_portfolio 5) (utc 5) None = (Inr r', g2)"
    by (rule sample_snapshots)
  have g: "pg_repository sample_portfolio_engine = Some []" "rows_ok []" by (simp_all add: sample_portfolio_engine_def rows_ok_def)
  have "psr_duplicate r' \<and> psr_snapshot r' = psr_snapshot r"
    using portfolio_snapshot_once [OF g r, of "\<lambda>_. ''h''" sample_portfolio_db False "[]" "sample_portfolio 5" "utc 5" None r' g2] r'
    by (simp add: sample_portfolio_def)
  then show ?thesis using r r' by blast
qed

end
