(* ===== verification/Strategy_Engine.thy ===== *)
theory Strategy_Engine
  imports Signal_Engine Market_Data
begin

text \<open>
  The strategy engine, \<^verbatim>\<open>services/strategy_engine/alpha_algo_strategy_engine\<close>, with the strategy contract of
  \<^verbatim>\<open>packages/strategies/alpha_algo_strategies/lifecycle.py\<close> and the boundary to the signal engine
  (\<^verbatim>\<open>services/signal_engine/alpha_algo_signal_engine/boundary.py\<close>): the run state machine, the registry, a strategy
  instance with its signal validation and duplicate protection, the dispatcher and the runtime.

  A strategy is a parameter: a record of callbacks that take the context and may raise and change the context,
  with its private state as the type variable.  The event that a callback outlives its timeout is a parameter of a dispatch: the
  instances whose callback completed, in the order of completion, and those that completed between the
  timeout and the check of the futures; the thread pool of a fixed number of workers computes it from the durations of the callbacks.  Locks, latencies and the wall clock of the lag metric are dropped.

  The main results: every run of an instance follows the transition table and a stopped or failed instance
  stays so; no event reaches a strategy that is not running; every published signal is traceable to
  the strategy, instrument and event it came from; a redelivered event is answered without signals; a strategy that fails or
  hangs leaves the other strategies alone while the pool has idle workers; and a signal of an enabled registered strategy passes the validation of the signal engine.
\<close>

section \<open>State machine\<close>

datatype strategy_mode = MODE_BACKTEST | MODE_PAPER | MODE_LIVE

fun strategy_mode_value :: "strategy_mode \<Rightarrow> string" where
  "strategy_mode_value MODE_BACKTEST = ''BACKTEST''"
| "strategy_mode_value MODE_PAPER = ''PAPER''"
| "strategy_mode_value MODE_LIVE = ''LIVE''"

datatype run_state = RS_CREATED | RS_INITIALIZING | RS_RUNNING | RS_PAUSED | RS_STOPPING | RS_STOPPED | RS_FAILED

fun run_state_value :: "run_state \<Rightarrow> string" where
  "run_state_value RS_CREATED = ''created''"
| "run_state_value RS_INITIALIZING = ''initializing''"
| "run_state_value RS_RUNNING = ''running''"
| "run_state_value RS_PAUSED = ''paused''"
| "run_state_value RS_STOPPING = ''stopping''"
| "run_state_value RS_STOPPED = ''stopped''"
| "run_state_value RS_FAILED = ''failed''"

fun run_transitions :: "run_state \<Rightarrow> run_state list" where
  "run_transitions RS_CREATED = [RS_INITIALIZING, RS_RUNNING, RS_FAILED]"
| "run_transitions RS_INITIALIZING = [RS_CREATED, RS_FAILED]"
| "run_transitions RS_RUNNING = [RS_PAUSED, RS_STOPPING, RS_FAILED]"
| "run_transitions RS_PAUSED = [RS_RUNNING, RS_STOPPING, RS_FAILED]"
| "run_transitions RS_STOPPING = [RS_STOPPED, RS_FAILED]"
| "run_transitions RS_STOPPED = []"
| "run_transitions RS_FAILED = []"

definition terminal_run_states :: "run_state list" where
  "terminal_run_states = [RS_STOPPED, RS_FAILED]"

datatype strategy_error =
    DuplicateRegistrationError string
  | StrategyNotFoundError string
  | LifecycleError string
  | ConfigValidationError string
  | StrategyModeError string
  | RunTransitionError string
  | StrategyValueError string
  | StrategyTypeError
  | FactoryFault string

definition run_transition :: "run_state \<Rightarrow> run_state \<Rightarrow> (strategy_error, run_state) result" where
  "run_transition s new =
     (if new \<in> set (run_transitions s) then Inr new
      else Inl (RunTransitionError (''illegal state transition: '' @ run_state_value s @ '' -> '' @ run_state_value new)))"

interpretation run_machine: terminating_table run_transitions terminal_run_states
  "\<lambda>s. case s of RS_STOPPED \<Rightarrow> 0 | RS_FAILED \<Rightarrow> 0 | _ \<Rightarrow> 1"
proof unfold_locales
  fix s :: run_state
  show "s \<in> set terminal_run_states \<longleftrightarrow> run_transitions s = []"
    by (cases s) (simp_all add: terminal_run_states_def)
  show "run_transitions s \<noteq> [] \<Longrightarrow> \<exists>t\<in>set (run_transitions s). (case t of RS_STOPPED \<Rightarrow> 0 | RS_FAILED \<Rightarrow> 0 | _ \<Rightarrow> 1)
      < (case s of RS_STOPPED \<Rightarrow> 0 | RS_FAILED \<Rightarrow> 0 | _ \<Rightarrow> (1::nat))"
    by (cases s) simp_all
qed

section \<open>Contract of a strategy\<close>

record order_update =
  ou_order_id :: uuid
  ou_instrument_id :: uuid
  ou_status :: string
  ou_timestamp :: datetime

definition mk_order_update :: "order_update \<Rightarrow> (strategy_error, order_update) result" where
  "mk_order_update u =
     rbind (guard (tz_aware (ou_timestamp u)) (StrategyValueError ''timestamp must be timezone-aware'')) (\<lambda>_.
     rbind (guard (\<not> blank (ou_status u)) (StrategyValueError ''status is required'')) (\<lambda>_. Inr u))"

record position_update =
  pu_position_id :: uuid
  pu_instrument_id :: uuid
  pu_quantity :: decimal
  pu_timestamp :: datetime

definition mk_position_update :: "position_update \<Rightarrow> (strategy_error, position_update) result" where
  "mk_position_update u = rbind (guard (tz_aware (pu_timestamp u)) (StrategyValueError ''timestamp must be timezone-aware'')) (\<lambda>_. Inr u)"

record 's strategy_context =
  cx_strategy_id :: uuid
  cx_strategy_version :: string
  cx_strategy_config_hash :: string
  cx_config :: payload
  cx_state :: 's
  cx_emitted_signals :: "strategy_signal list"

definition mk_strategy_context :: "'s strategy_context \<Rightarrow> (strategy_error, 's strategy_context) result" where
  "mk_strategy_context c =
     rbind (guard (\<not> blank (cx_strategy_version c)) (StrategyValueError ''strategy_version is required'')) (\<lambda>_.
     rbind (guard (\<not> blank (cx_strategy_config_hash c)) (StrategyValueError ''strategy_config_hash is required'')) (\<lambda>_. Inr c))"

definition emit_signal :: "strategy_signal \<Rightarrow> 's strategy_context \<Rightarrow> (strategy_error, 's strategy_context) result" where
  "emit_signal s c =
     rbind (guard (ss_strategy_id s = cx_strategy_id c) (StrategyValueError ''signal strategy_id does not match context'')) (\<lambda>_.
     rbind (guard (ss_strategy_version s = cx_strategy_version c) (StrategyValueError ''signal strategy_version does not match context'')) (\<lambda>_.
     rbind (guard (ss_strategy_config_hash s = cx_strategy_config_hash c) (StrategyValueError ''signal strategy_config_hash does not match context'')) (\<lambda>_.
     Inr (c\<lparr>cx_emitted_signals := cx_emitted_signals c @ [s]\<rparr>))))"

text \<open>A callback returns the message of the exception it raised, if any, and the context it left behind.\<close>

type_synonym 's callback = "'s strategy_context \<Rightarrow> string option \<times> 's strategy_context"

datatype strategy_event = Tick_Event market_tick | Candle_Event market_candle | Order_Event order_update | Position_Event position_update

fun event_time :: "strategy_event \<Rightarrow> datetime" where
  "event_time (Tick_Event t) = tk_timestamp t"
| "event_time (Candle_Event c) = cd_candle_start c"
| "event_time (Order_Event u) = ou_timestamp u"
| "event_time (Position_Event u) = pu_timestamp u"

fun event_instrument :: "strategy_event \<Rightarrow> uuid" where
  "event_instrument (Tick_Event t) = tk_instrument_id t"
| "event_instrument (Candle_Event c) = cd_instrument_id c"
| "event_instrument (Order_Event u) = ou_instrument_id u"
| "event_instrument (Position_Event u) = pu_instrument_id u"

fun event_timeframe :: "strategy_event \<Rightarrow> candle_timeframe option" where
  "event_timeframe (Candle_Event c) = Some (cd_timeframe c)"
| "event_timeframe _ = None"

record 's strategy_impl =
  im_initialize :: "'s callback"
  im_on_start :: "'s callback"
  im_on_stop :: "'s callback"
  im_on_event :: "strategy_event \<Rightarrow> 's callback"

section \<open>Identity, configuration and registry\<close>

record strategy_identity =
  id_strategy_id :: uuid
  id_code :: string
  id_name :: string
  id_version :: string
  id_config_hash :: string
  id_code_hash :: "string option"

definition mk_strategy_identity :: "strategy_identity \<Rightarrow> (strategy_error, strategy_identity) result" where
  "mk_strategy_identity i =
     rbind (guard (\<not> blank (id_code i)) (StrategyValueError ''code cannot be blank'')) (\<lambda>_.
     rbind (guard (\<not> blank (id_name i)) (StrategyValueError ''name cannot be blank'')) (\<lambda>_.
     rbind (guard (\<not> blank (id_version i)) (StrategyValueError ''version cannot be blank'')) (\<lambda>_.
     rbind (guard (\<not> blank (id_config_hash i)) (StrategyValueError ''config_hash cannot be blank'')) (\<lambda>_.
     rbind (guard (case id_code_hash i of None \<Rightarrow> True | Some h \<Rightarrow> \<not> blank h) (StrategyValueError ''code_hash cannot be blank'')) (\<lambda>_.
     Inr i)))))"

text \<open>\<^verbatim>\<open>json.dumps\<close> without a default refuses decimals, identifiers and dates.\<close>

definition json_serializable :: "pyval \<Rightarrow> bool" where
  "json_serializable v = (case v of PNone \<Rightarrow> True | PStr _ \<Rightarrow> True | PInt _ \<Rightarrow> True | _ \<Rightarrow> False)"

definition validate_config :: "payload \<Rightarrow> (strategy_error, payload) result" where
  "validate_config values =
     (case find (\<lambda>(k, v). \<not> json_serializable v) values of
        Some (k, v) \<Rightarrow> Inl (ConfigValidationError (''config value for '' @ py_repr k @ '' is not serializable''))
      | None \<Rightarrow> Inr values)"

definition mk_strategy_config :: "payload \<Rightarrow> string \<Rightarrow> (strategy_error, payload) result" where
  "mk_strategy_config values config_hash =
     rbind (validate_config values) (\<lambda>_.
     rbind (guard (\<not> blank config_hash) (ConfigValidationError ''config_hash cannot be blank'')) (\<lambda>_. Inr values))"

record 's strategy_definition =
  df_identity :: strategy_identity
  df_factory :: "(strategy_error, 's strategy_impl \<times> 's) result"
  df_enabled :: bool
  df_instruments :: "uuid list"
  df_timeframes :: "candle_timeframe list"
  df_config :: payload

record 's strategy_registry =
  rg_by_id :: "(uuid, 's strategy_definition) odict"
  rg_by_code :: "(string, uuid) odict"

definition empty_registry :: "'s strategy_registry" where
  "empty_registry = \<lparr>rg_by_id = [], rg_by_code = []\<rparr>"

definition registry_register :: "'s strategy_registry \<Rightarrow> 's strategy_definition \<Rightarrow> (strategy_error, 's strategy_registry) result" where
  "registry_register g d =
     (let i = df_identity d in
      rbind (guard (map_of (rg_by_id g) (id_strategy_id i) = None)
        (DuplicateRegistrationError (''strategy_id already registered: '' @ uuid_str (id_strategy_id i)))) (\<lambda>_.
      rbind (guard (map_of (rg_by_code g) (id_code i) = None)
        (DuplicateRegistrationError (''strategy code already registered: '' @ py_repr (id_code i)))) (\<lambda>_.
      Inr (g\<lparr>rg_by_id := od_set (id_strategy_id i) d (rg_by_id g), rg_by_code := od_set (id_code i) (id_strategy_id i) (rg_by_code g)\<rparr>))))"

definition registry_unregister :: "'s strategy_registry \<Rightarrow> uuid \<Rightarrow> (strategy_error, 's strategy_registry) result" where
  "registry_unregister g sid =
     (case map_of (rg_by_id g) sid of
        None \<Rightarrow> Inl (StrategyNotFoundError (''strategy not registered: '' @ uuid_str sid))
      | Some d \<Rightarrow> Inr (g\<lparr>rg_by_id := od_pop sid (rg_by_id g), rg_by_code := od_pop (id_code (df_identity d)) (rg_by_code g)\<rparr>))"

definition registry_get :: "'s strategy_registry \<Rightarrow> uuid \<Rightarrow> (strategy_error, 's strategy_definition) result" where
  "registry_get g sid = of_opt (StrategyNotFoundError (''strategy not registered: '' @ uuid_str sid)) (map_of (rg_by_id g) sid)"

definition registry_get_by_code :: "'s strategy_registry \<Rightarrow> string \<Rightarrow> (strategy_error, 's strategy_definition) result" where
  "registry_get_by_code g code =
     rbind (of_opt (StrategyNotFoundError (''strategy not registered: '' @ py_repr code)) (map_of (rg_by_code g) code)) (\<lambda>sid.
     of_opt (StrategyNotFoundError (''KeyError: '' @ uuid_str sid)) (map_of (rg_by_id g) sid))"

definition registry_set_enabled :: "'s strategy_registry \<Rightarrow> uuid \<Rightarrow> bool \<Rightarrow> (strategy_error, 's strategy_registry) result" where
  "registry_set_enabled g sid enabled =
     rbind (registry_get g sid) (\<lambda>d. Inr (g\<lparr>rg_by_id := od_set sid (d\<lparr>df_enabled := enabled\<rparr>) (rg_by_id g)\<rparr>))"

text \<open>\<^verbatim>\<open>load\<close> also tests that the factory returns a strategy, which is the type of a factory here.\<close>

definition registry_load :: "'s strategy_registry \<Rightarrow> uuid \<Rightarrow> (strategy_error, 's strategy_impl \<times> 's) result" where
  "registry_load g sid = rbind (registry_get g sid) df_factory"

definition registry_all :: "'s strategy_registry \<Rightarrow> 's strategy_definition list" where
  "registry_all g = map snd (rg_by_id g)"

section \<open>Metrics\<close>

record strategy_metrics =
  smx_started :: int
  smx_stopped :: int
  smx_paused :: int
  smx_resumed :: int
  smx_failed :: int
  smx_dispatched :: int
  smx_dropped :: int
  smx_callbacks :: int
  smx_lag :: int
  smx_generated :: int
  smx_rejected :: int
  smx_duplicate :: int

definition active_strategies :: "strategy_metrics \<Rightarrow> int" where
  "active_strategies m = smx_started m - smx_stopped m"

section \<open>Duplicate protection\<close>

text \<open>The text of the key is the identity text of the signal engine, over the time of the event.\<close>

definition signal_dedup_key :: "py_env \<Rightarrow> strategy_signal \<Rightarrow> datetime \<Rightarrow> string" where
  "signal_dedup_key py s t = py_sha256 py (signal_identity_text s t)"

definition dedup_maxsize :: nat where
  "dedup_maxsize = 100000"

definition is_duplicate :: "py_env \<Rightarrow> strategy_signal \<Rightarrow> datetime \<Rightarrow> (string, unit) odict \<Rightarrow> bool \<times> (string, unit) odict" where
  "is_duplicate py s t = seen_before (Some dedup_maxsize) (signal_dedup_key py s t)"

section \<open>Signal validation\<close>

text \<open>The future skew and the maximal age that an instance uses, five seconds each.\<close>

definition signal_future_skew :: int where
  "signal_future_skew = usec 5"

definition signal_max_age :: int where
  "signal_max_age = usec 5"

text \<open>The reason of a rejection, the reason \<open>''ok''\<close> for a valid signal, or the message of the \<^verbatim>\<open>TypeError\<close> of a
  subtraction of a naive and an aware instant.\<close>

definition subtract_error :: string where
  "subtract_error = ''can't subtract offset-naive and offset-aware datetimes''"

definition validate_emitted :: "strategy_signal \<Rightarrow> strategy_identity \<Rightarrow> uuid list option \<Rightarrow> datetime \<Rightarrow> (string, string) result" where
  "validate_emitted s i allowed reference =
     (if ss_strategy_id s \<noteq> id_strategy_id i then Inr ''strategy_id_mismatch''
      else if ss_strategy_version s \<noteq> id_version i then Inr ''strategy_version_mismatch''
      else if ss_strategy_config_hash s \<noteq> id_config_hash i then Inr ''config_hash_mismatch''
      else if \<not> (0 \<le> ss_confidence s \<and> ss_confidence s \<le> 1) then Inr ''confidence_out_of_range''
      else if blank (ss_reason s) then Inr ''missing_reason''
      else if (case allowed of None \<Rightarrow> False | Some is \<Rightarrow> ss_instrument_id s \<notin> set is) then Inr ''instrument_not_subscribed''
      else
        (case datetime_diff (ss_timestamp s) reference of
           None \<Rightarrow> Inl subtract_error
         | Some ahead \<Rightarrow>
             if signal_future_skew < ahead then Inr ''future_timestamp''
             else if signal_max_age < - ahead then Inr ''stale_timestamp''
             else Inr ''ok''))"

section \<open>Strategy instance\<close>

record 's strategy_instance =
  sti_definition :: "'s strategy_definition"
  sti_strategy :: "'s strategy_impl"
  sti_state :: run_state
  sti_initialized :: bool
  sti_fail_reason :: "string option"
  sti_seen :: "(string, unit) odict"
  sti_context :: "'s strategy_context"

abbreviation sti_identity :: "'s strategy_instance \<Rightarrow> strategy_identity" where
  "sti_identity t \<equiv> df_identity (sti_definition t)"

definition allowed_instruments :: "'s strategy_definition \<Rightarrow> uuid list option" where
  "allowed_instruments d = (if df_instruments d = [] then None else Some (df_instruments d))"

definition config_hash_of :: "py_env \<Rightarrow> payload \<Rightarrow> string" where
  "config_hash_of py config = py_sha256 py (py_json py (map_of config))"

definition new_instance ::
  "py_env \<Rightarrow> 's strategy_definition \<Rightarrow> 's strategy_impl \<times> 's \<Rightarrow> payload option \<Rightarrow> (strategy_error, 's strategy_instance) result" where
  "new_instance py d impl config_values =
     (let i = df_identity d;
          values = (case config_values of None \<Rightarrow> df_config d | Some c \<Rightarrow> c);
          actual = config_hash_of py values in
      rbind (guard (actual = id_config_hash i)
        (ConfigValidationError (''config hash mismatch: '' @ actual @ '' != '' @ id_config_hash i))) (\<lambda>_.
      rbind (mk_strategy_config values (id_config_hash i)) (\<lambda>config.
      rbind (mk_strategy_context \<lparr>cx_strategy_id = id_strategy_id i, cx_strategy_version = id_version i,
        cx_strategy_config_hash = id_config_hash i, cx_config = config, cx_state = snd impl, cx_emitted_signals = []\<rparr>) (\<lambda>context.
      Inr \<lparr>sti_definition = d, sti_strategy = fst impl, sti_state = RS_CREATED, sti_initialized = False, sti_fail_reason = None,
        sti_seen = [], sti_context = context\<rparr>))))"

text \<open>Every operation of an instance takes and returns the metrics, which all instances of a runtime share.\<close>

type_synonym ('s, 'r) instance_result = "(strategy_error, 'r) result \<times> 's strategy_instance \<times> strategy_metrics"

text \<open>\<^verbatim>\<open>_fail\<close>: a terminal state stays; from any other state the transition to FAILED is in the table.\<close>

definition fail_instance :: "string \<Rightarrow> 's strategy_instance \<times> strategy_metrics \<Rightarrow> 's strategy_instance \<times> strategy_metrics" where
  "fail_instance reason = (\<lambda>(t, m).
     if sti_state t \<in> set terminal_run_states then (t, m)
     else case run_transition (sti_state t) RS_FAILED of
            Inl _ \<Rightarrow> (t, m)
          | Inr s \<Rightarrow> (t\<lparr>sti_state := s, sti_fail_reason := Some reason\<rparr>, m\<lparr>smx_failed := smx_failed m + 1\<rparr>))"

text \<open>A guarded transition, then a callback whose exception fails the instance, then the rest.\<close>

definition instance_move ::
  "run_state \<Rightarrow> 's strategy_instance \<times> strategy_metrics \<Rightarrow> ('s strategy_instance \<Rightarrow> ('s, unit) instance_result) \<Rightarrow> ('s, unit) instance_result" where
  "instance_move new tm k =
     (case run_transition (sti_state (fst tm)) new of
        Inl e \<Rightarrow> (Inl e, tm)
      | Inr s \<Rightarrow> k ((fst tm)\<lparr>sti_state := s\<rparr>))"

definition run_callback ::
  "string \<Rightarrow> 's callback \<Rightarrow> 's strategy_instance \<Rightarrow> strategy_metrics \<Rightarrow> ('s strategy_instance \<Rightarrow> ('s, unit) instance_result) \<Rightarrow> ('s, unit) instance_result" where
  "run_callback name f t m k =
     (let (raised, context) = f (sti_context t); t' = t\<lparr>sti_context := context\<rparr> in
      case raised of
        Some msg \<Rightarrow> (Inl (LifecycleError (name @ '' failed: '' @ msg)), fail_instance msg (t', m))
      | None \<Rightarrow> k t')"

definition instance_initialize :: "'s strategy_instance \<Rightarrow> strategy_metrics \<Rightarrow> ('s, unit) instance_result" where
  "instance_initialize t m =
     (if sti_initialized t then (Inl (LifecycleError ''strategy already initialized''), t, m)
      else if sti_state t \<noteq> RS_CREATED then (Inl (LifecycleError ''initialize only allowed from CREATED''), t, m)
      else
        instance_move RS_INITIALIZING (t, m) (\<lambda>t.
        run_callback ''initialize'' (im_initialize (sti_strategy t)) t m (\<lambda>t.
        instance_move RS_CREATED (t, m) (\<lambda>t. (Inr (), t\<lparr>sti_initialized := True\<rparr>, m)))))"

definition instance_start :: "'s strategy_instance \<Rightarrow> strategy_metrics \<Rightarrow> ('s, unit) instance_result" where
  "instance_start t m =
     (if \<not> sti_initialized t then (Inl (LifecycleError ''must initialize before start''), t, m)
      else if sti_state t \<noteq> RS_CREATED then (Inl (LifecycleError ''start only allowed once from CREATED''), t, m)
      else
        instance_move RS_RUNNING (t, m) (\<lambda>t.
        run_callback ''on_start'' (im_on_start (sti_strategy t)) t m (\<lambda>t.
        (Inr (), t, m\<lparr>smx_started := smx_started m + 1\<rparr>))))"

definition instance_pause :: "'s strategy_instance \<Rightarrow> strategy_metrics \<Rightarrow> ('s, unit) instance_result" where
  "instance_pause t m =
     (if sti_state t \<noteq> RS_RUNNING then (Inl (LifecycleError ''pause only allowed from RUNNING''), t, m)
      else instance_move RS_PAUSED (t, m) (\<lambda>t. (Inr (), t, m\<lparr>smx_paused := smx_paused m + 1\<rparr>)))"

definition instance_resume :: "'s strategy_instance \<Rightarrow> strategy_metrics \<Rightarrow> ('s, unit) instance_result" where
  "instance_resume t m =
     (if sti_state t \<noteq> RS_PAUSED then (Inl (LifecycleError ''resume only allowed from PAUSED''), t, m)
      else instance_move RS_RUNNING (t, m) (\<lambda>t. (Inr (), t, m\<lparr>smx_resumed := smx_resumed m + 1\<rparr>)))"

definition instance_stop :: "'s strategy_instance \<Rightarrow> strategy_metrics \<Rightarrow> ('s, unit) instance_result" where
  "instance_stop t m =
     (if sti_state t \<notin> {RS_RUNNING, RS_PAUSED} then (Inl (LifecycleError ''stop only allowed from RUNNING/PAUSED''), t, m)
      else
        instance_move RS_STOPPING (t, m) (\<lambda>t.
        run_callback ''on_stop'' (im_on_stop (sti_strategy t)) t m (\<lambda>t.
        instance_move RS_STOPPED (t, m) (\<lambda>t. (Inr (), t, m\<lparr>smx_stopped := smx_stopped m + 1\<rparr>)))))"

text \<open>The loop over the signals of one event.  It returns the message of an exception, the accepted signals, the
  keys seen and the metrics.\<close>

fun screen_signals ::
  "py_env \<Rightarrow> strategy_identity \<Rightarrow> uuid list option \<Rightarrow> datetime \<Rightarrow> strategy_signal list \<Rightarrow>
   (string, unit) odict \<Rightarrow> strategy_metrics \<Rightarrow> string option \<times> strategy_signal list \<times> (string, unit) odict \<times> strategy_metrics" where
  "screen_signals py i allowed t [] seen m = (None, [], seen, m)"
| "screen_signals py i allowed t (s # ss) seen m =
     (case validate_emitted s i allowed t of
        Inl msg \<Rightarrow> (Some msg, [], seen, m)
      | Inr reason \<Rightarrow>
          if reason \<noteq> ''ok'' then screen_signals py i allowed t ss seen (m\<lparr>smx_rejected := smx_rejected m + 1\<rparr>)
          else
            (let (dup, seen') = is_duplicate py s t seen in
             if dup then screen_signals py i allowed t ss seen' (m\<lparr>smx_duplicate := smx_duplicate m + 1\<rparr>)
             else
               (let (err, accepted, rest) = screen_signals py i allowed t ss seen' (m\<lparr>smx_generated := smx_generated m + 1\<rparr>) in
                (err, s # accepted, rest))))"

text \<open>\<^verbatim>\<open>_dispatch_locked\<close>: the left value is the message of an exception that escapes to the runtime.\<close>

definition instance_event ::
  "py_env \<Rightarrow> strategy_event \<Rightarrow> 's strategy_instance \<Rightarrow> strategy_metrics \<Rightarrow>
   (string, strategy_signal list) result \<times> 's strategy_instance \<times> strategy_metrics" where
  "instance_event py ev t m =
     (if sti_state t \<noteq> RS_RUNNING then (Inl (''callback not allowed in state '' @ run_state_value (sti_state t)), t, m)
      else
        (let before = length (cx_emitted_signals (sti_context t));
             (raised, context) = im_on_event (sti_strategy t) ev (sti_context t);
             t' = t\<lparr>sti_context := context\<rparr>;
             m' = m\<lparr>smx_callbacks := smx_callbacks m + 1\<rparr> in
         case raised of
           Some msg \<Rightarrow> (Inr [], fail_instance msg (t', m'))
         | None \<Rightarrow>
             (let (err, accepted, seen, m'') =
                 screen_signals py (sti_identity t) (allowed_instruments (sti_definition t)) (event_time ev)
                   (drop before (cx_emitted_signals context)) (sti_seen t) m' in
              case err of
                Some msg \<Rightarrow> (Inl msg, t'\<lparr>sti_seen := seen\<rparr>, m'')
              | None \<Rightarrow>
                  (Inr accepted,
                   t'\<lparr>sti_seen := seen, sti_context := context\<lparr>cx_emitted_signals := drop before (cx_emitted_signals context)\<rparr>\<rparr>, m''))))"

section \<open>Dispatcher\<close>

record 's dispatcher =
  ds_instances :: "(uuid, 's strategy_instance) odict"
  ds_definitions :: "(uuid, 's strategy_definition) odict"

definition dispatcher_register :: "'s dispatcher \<Rightarrow> 's strategy_instance \<Rightarrow> 's strategy_definition \<Rightarrow> 's dispatcher" where
  "dispatcher_register p t d =
     (let sid = id_strategy_id (df_identity d) in
      p\<lparr>ds_instances := od_set sid t (ds_instances p), ds_definitions := od_set sid d (ds_definitions p)\<rparr>)"

definition dispatcher_unregister :: "'s dispatcher \<Rightarrow> uuid \<Rightarrow> 's dispatcher" where
  "dispatcher_unregister p sid = p\<lparr>ds_instances := od_pop sid (ds_instances p), ds_definitions := od_pop sid (ds_definitions p)\<rparr>"

definition dispatcher_set_enabled :: "'s dispatcher \<Rightarrow> uuid \<Rightarrow> bool \<Rightarrow> 's dispatcher" where
  "dispatcher_set_enabled p sid enabled =
     (case map_of (ds_definitions p) sid of
        None \<Rightarrow> p
      | Some d \<Rightarrow> p\<lparr>ds_definitions := od_set sid (d\<lparr>df_enabled := enabled\<rparr>) (ds_definitions p)\<rparr>)"

definition strategy_matches :: "'s dispatcher \<Rightarrow> uuid \<Rightarrow> uuid \<Rightarrow> candle_timeframe option \<Rightarrow> bool" where
  "strategy_matches p sid instrument timeframe =
     (case (map_of (ds_definitions p) sid, map_of (ds_instances p) sid) of
        (Some d, Some t) \<Rightarrow>
          df_enabled d \<and> sti_state t = RS_RUNNING \<and>
          (df_instruments d = [] \<or> instrument \<in> set (df_instruments d)) \<and>
          (case timeframe of None \<Rightarrow> True | Some f \<Rightarrow> df_timeframes d = [] \<or> f \<in> set (df_timeframes d))
      | _ \<Rightarrow> False)"

definition match_event :: "'s dispatcher \<Rightarrow> strategy_event \<Rightarrow> uuid list" where
  "match_event p ev =
     filter (\<lambda>sid. strategy_matches p sid (event_instrument ev) (event_timeframe ev)) (map fst (ds_instances p))"

section \<open>Runtime\<close>

record run_record =
  sru_strategy_id :: uuid
  sru_version :: string
  sru_config_hash :: string
  sru_code_hash :: "string option"
  sru_trading_mode :: strategy_mode
  sru_run_id :: uuid
  sru_started_at :: "datetime option"
  sru_stopped_at :: "datetime option"
  sru_state :: run_state
  sru_reason :: "string option"

definition run_record_dict :: "run_record \<Rightarrow> payload" where
  "run_record_dict r =
     [(''run_id'', PStr (uuid_str (sru_run_id r))), (''strategy_id'', PStr (uuid_str (sru_strategy_id r))),
      (''version'', PStr (sru_version r)), (''config_hash'', PStr (sru_config_hash r)), (''code_hash'', opt_str (sru_code_hash r)),
      (''trading_mode'', PStr (strategy_mode_value (sru_trading_mode r))),
      (''started_at'', opt_str (map_option isoformat (sru_started_at r))),
      (''stopped_at'', opt_str (map_option isoformat (sru_stopped_at r))),
      (''state'', PStr (run_state_value (sru_state r))), (''reason'', opt_str (sru_reason r))]"

text \<open>The signals handed to the consumers are kept as a log of consumer and signal; an exception of a consumer is caught and has no effect.\<close>

record 's runtime =
  srt_registry :: "'s strategy_registry"
  srt_dispatcher :: "'s dispatcher"
  srt_metrics :: strategy_metrics
  srt_runs :: "(uuid, run_record) odict"
  srt_consumers :: "nat list"
  srt_delivered :: "(nat \<times> strategy_signal) list"

text \<open>The hash functions, the clock and the fresh run identifier of one call.\<close>

record strategy_env =
  sve_py :: py_env
  sve_now :: datetime
  sve_uuid4 :: uuid

definition runtime_register :: "'s runtime \<Rightarrow> 's strategy_definition \<Rightarrow> (strategy_error, unit) result \<times> 's runtime" where
  "runtime_register r d =
     (case registry_register (srt_registry r) d of Inl e \<Rightarrow> (Inl e, r) | Inr g \<Rightarrow> (Inr (), r\<lparr>srt_registry := g\<rparr>))"

definition runtime_unregister :: "'s runtime \<Rightarrow> uuid \<Rightarrow> (strategy_error, unit) result \<times> 's runtime" where
  "runtime_unregister r sid =
     (case registry_unregister (srt_registry r) sid of
        Inl e \<Rightarrow> (Inl e, r)
      | Inr g \<Rightarrow> (Inr (), r\<lparr>srt_registry := g, srt_dispatcher := dispatcher_unregister (srt_dispatcher r) sid,
          srt_runs := od_pop sid (srt_runs r)\<rparr>))"

definition add_signal_consumer :: "'s runtime \<Rightarrow> nat \<Rightarrow> 's runtime" where
  "add_signal_consumer r c = r\<lparr>srt_consumers := srt_consumers r @ [c]\<rparr>"

definition allowed_run_modes :: "strategy_mode list" where
  "allowed_run_modes = [MODE_BACKTEST, MODE_PAPER]"

definition parse_trading_mode :: "string \<Rightarrow> (strategy_error, strategy_mode) result" where
  "parse_trading_mode t =
     of_opt (StrategyValueError (py_repr t @ '' is not a valid TradingMode''))
       (find (\<lambda>m. strategy_mode_value m = t) [MODE_BACKTEST, MODE_PAPER, MODE_LIVE])"

text \<open>What precedes the lifecycle calls of \<^verbatim>\<open>start\<close>: mode, definition, factory and constructor.\<close>

definition prepare_start :: "strategy_env \<Rightarrow> 's runtime \<Rightarrow> uuid \<Rightarrow> string \<Rightarrow> payload option \<Rightarrow>
    (strategy_error, strategy_mode \<times> 's strategy_definition \<times> 's strategy_instance) result" where
  "prepare_start env r sid mode config_values =
     rbind (parse_trading_mode mode) (\<lambda>m.
     rbind (guard (m \<in> set allowed_run_modes) (StrategyModeError (''trading mode not allowed: '' @ strategy_mode_value m))) (\<lambda>_.
     rbind (registry_get (srt_registry r) sid) (\<lambda>d.
     rbind (df_factory d) (\<lambda>impl.
     rbind (new_instance (sve_py env) d impl config_values) (\<lambda>t. Inr (m, d, t))))))"

definition new_run_record :: "strategy_env \<Rightarrow> uuid \<Rightarrow> 's strategy_definition \<Rightarrow> strategy_mode \<Rightarrow> run_state \<Rightarrow> run_record" where
  "new_run_record env sid d mode state =
     \<lparr>sru_strategy_id = sid, sru_version = id_version (df_identity d), sru_config_hash = id_config_hash (df_identity d),
      sru_code_hash = id_code_hash (df_identity d), sru_trading_mode = mode, sru_run_id = sve_uuid4 env,
      sru_started_at = Some (sve_now env), sru_stopped_at = None, sru_state = state, sru_reason = None\<rparr>"

definition runtime_start :: "strategy_env \<Rightarrow> 's runtime \<Rightarrow> uuid \<Rightarrow> string \<Rightarrow> payload option \<Rightarrow> (strategy_error, uuid) result \<times> 's runtime" where
  "runtime_start env r sid mode config_values =
     (case prepare_start env r sid mode config_values of
        Inl e \<Rightarrow> (Inl e, r)
      | Inr (m, d, t0) \<Rightarrow>
          (case instance_initialize t0 (srt_metrics r) of
             (Inl e, _, mx) \<Rightarrow> (Inl e, r\<lparr>srt_metrics := mx\<rparr>)
           | (Inr _, t1, mx1) \<Rightarrow>
               (case instance_start t1 mx1 of
                  (Inl e, _, mx) \<Rightarrow> (Inl e, r\<lparr>srt_metrics := mx\<rparr>)
                | (Inr _, t, mx) \<Rightarrow>
                    (Inr (sve_uuid4 env),
                     r\<lparr>srt_metrics := mx, srt_dispatcher := dispatcher_register (srt_dispatcher r) t d,
                       srt_runs := od_set sid (new_run_record env sid d m (sti_state t)) (srt_runs r)\<rparr>))))"

definition put_instance :: "uuid \<Rightarrow> 's strategy_instance \<times> strategy_metrics \<Rightarrow> 's runtime \<Rightarrow> 's runtime" where
  "put_instance sid tm r =
     r\<lparr>srt_dispatcher := (srt_dispatcher r)\<lparr>ds_instances := od_set sid (fst tm) (ds_instances (srt_dispatcher r))\<rparr>, srt_metrics := snd tm\<rparr>"

definition require_instance :: "'s runtime \<Rightarrow> uuid \<Rightarrow> (strategy_error, 's strategy_instance) result" where
  "require_instance r sid =
     of_opt (StrategyNotFoundError (''strategy not running: '' @ uuid_str sid)) (map_of (ds_instances (srt_dispatcher r)) sid)"

definition on_instance ::
  "'s runtime \<Rightarrow> uuid \<Rightarrow> ('s strategy_instance \<Rightarrow> strategy_metrics \<Rightarrow> ('s, unit) instance_result) \<Rightarrow> (strategy_error, unit) result \<times> 's runtime" where
  "on_instance r sid f =
     (case require_instance r sid of
        Inl e \<Rightarrow> (Inl e, r)
      | Inr t \<Rightarrow> (let (res, tm) = f t (srt_metrics r) in (res, put_instance sid tm r)))"

definition update_run :: "uuid \<Rightarrow> (run_record \<Rightarrow> run_record) \<Rightarrow> 's runtime \<Rightarrow> 's runtime" where
  "update_run sid f r =
     (case map_of (srt_runs r) sid of None \<Rightarrow> r | Some x \<Rightarrow> r\<lparr>srt_runs := od_set sid (f x) (srt_runs r)\<rparr>)"

definition instance_state :: "'s runtime \<Rightarrow> uuid \<Rightarrow> run_state option" where
  "instance_state r sid = map_option sti_state (map_of (ds_instances (srt_dispatcher r)) sid)"

definition runtime_stop :: "strategy_env \<Rightarrow> 's runtime \<Rightarrow> uuid \<Rightarrow> (strategy_error, unit) result \<times> 's runtime" where
  "runtime_stop env r sid =
     (case on_instance r sid instance_stop of
        (Inl e, r') \<Rightarrow> (Inl e, r')
      | (Inr _, r') \<Rightarrow>
          (Inr (), update_run sid
             (\<lambda>x. x\<lparr>sru_state := (case instance_state r' sid of Some s \<Rightarrow> s | None \<Rightarrow> sru_state x), sru_stopped_at := Some (sve_now env)\<rparr>)
             (r'\<lparr>srt_dispatcher := dispatcher_set_enabled (srt_dispatcher r') sid False\<rparr>)))"

definition runtime_pause :: "'s runtime \<Rightarrow> uuid \<Rightarrow> (strategy_error, unit) result \<times> 's runtime" where
  "runtime_pause r sid = on_instance r sid instance_pause"

definition runtime_resume :: "'s runtime \<Rightarrow> uuid \<Rightarrow> (strategy_error, unit) result \<times> 's runtime" where
  "runtime_resume r sid = on_instance r sid instance_resume"

definition runtime_status :: "'s runtime \<Rightarrow> uuid \<Rightarrow> payload" where
  "runtime_status r sid =
     (let record = map_of (srt_runs r) sid in
      [(''strategy_id'', PStr (uuid_str sid)),
       (''state'', PStr (case instance_state r sid of Some s \<Rightarrow> run_state_value s | None \<Rightarrow> ''not_started'')),
       (''run_id'', opt_str (map_option (uuid_str \<circ> sru_run_id) record)),
       (''trading_mode'', opt_str (map_option (strategy_mode_value \<circ> sru_trading_mode) record)),
       (''reason'', opt_str (Option.bind record sru_reason))])"

section \<open>Dispatch of an event\<close>

definition record_run_failure :: "strategy_env \<Rightarrow> 's strategy_instance \<Rightarrow> 's runtime \<Rightarrow> 's runtime" where
  "record_run_failure env t =
     update_run (id_strategy_id (sti_identity t))
       (\<lambda>x. x\<lparr>sru_reason := sti_fail_reason t, sru_state := sti_state t, sru_stopped_at := Some (sve_now env)\<rparr>)"

definition enrich_signal :: "run_record option \<Rightarrow> strategy_identity \<Rightarrow> datetime \<Rightarrow> strategy_signal \<Rightarrow> strategy_signal" where
  "enrich_signal record i t s =
     s\<lparr>ss_metadata := (ss_metadata s)
        (''strategy_code_hash'' \<mapsto> opt_str (id_code_hash i),
         ''strategy_run_id'' \<mapsto> opt_str (map_option (uuid_str \<circ> sru_run_id) record),
         ''event_timestamp'' \<mapsto> PStr (isoformat t))\<rparr>"

definition fan_out :: "strategy_signal \<Rightarrow> 's runtime \<Rightarrow> 's runtime" where
  "fan_out s r = r\<lparr>srt_delivered := srt_delivered r @ map (\<lambda>c. (c, s)) (srt_consumers r)\<rparr>"

definition collect_signals :: "'s strategy_instance \<Rightarrow> datetime \<Rightarrow> strategy_signal list \<Rightarrow> strategy_signal list \<times> 's runtime \<Rightarrow> strategy_signal list \<times> 's runtime" where
  "collect_signals t at_time signals ar =
     foldl (\<lambda>(accepted, r) s.
       let e = enrich_signal (map_of (srt_runs r) (id_strategy_id (sti_identity t))) (sti_identity t) at_time s in
       (accepted @ [e], fan_out e r)) ar signals"

definition drop_event :: "strategy_env \<Rightarrow> uuid \<Rightarrow> string \<Rightarrow> 's strategy_instance \<times> strategy_metrics \<Rightarrow> 's runtime \<Rightarrow> 's runtime" where
  "drop_event env sid reason tm r =
     (let (t, m) = fail_instance reason tm in
      record_run_failure env t (put_instance sid (t, m\<lparr>smx_dropped := smx_dropped m + 1\<rparr>) r))"

text \<open>One future that \<^verbatim>\<open>as_completed\<close> yields.\<close>

definition collect_completed ::
  "strategy_env \<Rightarrow> strategy_event \<Rightarrow> strategy_signal list \<times> 's runtime \<Rightarrow> uuid \<Rightarrow> strategy_signal list \<times> 's runtime" where
  "collect_completed env ev = (\<lambda>(accepted, r) sid.
     case map_of (ds_instances (srt_dispatcher r)) sid of
       None \<Rightarrow> (accepted, r)
     | Some t \<Rightarrow>
         (case instance_event (sve_py env) ev t (srt_metrics r) of
            (Inl msg, tm) \<Rightarrow> (accepted, drop_event env sid msg tm r)
          | (Inr signals, tm) \<Rightarrow>
              (let (accepted', r') = collect_signals (fst tm) (event_time ev) signals (accepted, put_instance sid tm r) in
               (accepted', if sti_state (fst tm) = RS_FAILED then record_run_failure env (fst tm) r' else r'))))"

text \<open>A future that completes after the timeout of \<^verbatim>\<open>as_completed\<close> and before the test of \<^verbatim>\<open>done()\<close>: the
  instance has run, its result is never read.\<close>

definition finish_late :: "strategy_env \<Rightarrow> strategy_event \<Rightarrow> 's runtime \<Rightarrow> uuid \<Rightarrow> 's runtime" where
  "finish_late env ev r sid =
     (case map_of (ds_instances (srt_dispatcher r)) sid of
        None \<Rightarrow> r
      | Some t \<Rightarrow> put_instance sid (snd (instance_event (sve_py env) ev t (srt_metrics r))) r)"

definition time_out :: "strategy_env \<Rightarrow> 's runtime \<Rightarrow> uuid \<Rightarrow> 's runtime" where
  "time_out env r sid =
     (case map_of (ds_instances (srt_dispatcher r)) sid of
        None \<Rightarrow> r
      | Some t \<Rightarrow> drop_event env sid ''callback_timeout'' (t, srt_metrics r) r)"

text \<open>The outcome of the thread pool: the futures yielded in time, in the order of their completion, and those
  that completed late.  All other futures are pending at the test; what a pending callback does afterwards to its own failed instance is not followed.\<close>

record pool_outcome =
  po_completed :: "uuid list"
  po_late :: "uuid list"

definition yielded :: "pool_outcome \<Rightarrow> uuid list \<Rightarrow> uuid list" where
  "yielded p matched = filter (\<lambda>sid. sid \<in> set matched) (remdups (po_completed p))"

definition late_ones :: "pool_outcome \<Rightarrow> uuid list \<Rightarrow> uuid list" where
  "late_ones p matched = filter (\<lambda>sid. sid \<in> set (po_late p) - set (po_completed p)) matched"

definition hung_ones :: "pool_outcome \<Rightarrow> uuid list \<Rightarrow> uuid list" where
  "hung_ones p matched = filter (\<lambda>sid. sid \<notin> set (po_late p) \<union> set (po_completed p)) matched"

text \<open>How the pool comes to an outcome.  It has a fixed number of workers, which outlive a dispatch: a worker is given by the time, from
  the submission on, at which it is free, \<open>None\<close> when the callback it runs never returns.  The futures are started in the order of their
  submission, each on the worker that is free first; \<open>duration sid\<close> is how long the callback runs, \<open>None\<close> for ever.  Those that end
  by the timeout are yielded in the order of their ends, those that end by the time of the check afterwards are the late ones.\<close>

type_synonym pool_workers = "nat option list"


fun free_at :: "pool_workers \<Rightarrow> nat option" where
  "free_at [] = None"
| "free_at (None # ws) = free_at ws"
| "free_at (Some t # ws) = (case free_at ws of None \<Rightarrow> Some t | Some u \<Rightarrow> Some (min t u))"

fun occupy :: "nat \<Rightarrow> nat option \<Rightarrow> pool_workers \<Rightarrow> pool_workers" where
  "occupy t until [] = []"
| "occupy t until (w # ws) = (if w = Some t then until # ws else w # occupy t until ws)"

fun pool_ends :: "pool_workers \<Rightarrow> (uuid \<Rightarrow> nat option) \<Rightarrow> uuid list \<Rightarrow> (uuid \<times> nat option) list" where
  "pool_ends ws duration [] = []"
| "pool_ends ws duration (sid # sids) =
     (case free_at ws of
        None \<Rightarrow> (sid, None) # pool_ends ws duration sids
      | Some t \<Rightarrow>
          (let ends = map_option (\<lambda>d. t + d) (duration sid) in
           (sid, ends) # pool_ends (occupy t ends ws) duration sids))"

definition ended_by :: "nat \<Rightarrow> uuid \<times> nat option \<Rightarrow> bool" where
  "ended_by t e = (case snd e of None \<Rightarrow> False | Some u \<Rightarrow> u \<le> t)"

definition pool_run :: "nat \<Rightarrow> nat \<Rightarrow> pool_workers \<Rightarrow> (uuid \<Rightarrow> nat option) \<Rightarrow> uuid list \<Rightarrow> pool_outcome" where
  "pool_run timeout check ws duration sids =
     (let ends = pool_ends ws duration sids in
      \<lparr>po_completed = map fst (sort_key (\<lambda>e. the (snd e)) (filter (ended_by timeout) ends)),
       po_late = map fst (filter (ended_by check) ends)\<rparr>)"

definition run_futures :: "strategy_env \<Rightarrow> pool_outcome \<Rightarrow> strategy_event \<Rightarrow> uuid list \<Rightarrow> 's runtime \<Rightarrow> strategy_signal list \<times> 's runtime" where
  "run_futures env p ev matched r =
     (let (accepted, r1) = foldl (collect_completed env ev) ([], r) (yielded p matched);
          r2 = foldl (finish_late env ev) r1 (late_ones p matched) in
      (accepted, foldl (time_out env) r2 (hung_ones p matched)))"

definition runtime_event ::
  "strategy_env \<Rightarrow> pool_outcome \<Rightarrow> 's runtime \<Rightarrow> strategy_event \<Rightarrow> (strategy_error, strategy_signal list) result \<times> 's runtime" where
  "runtime_event env p r ev =
     (let matched = match_event (srt_dispatcher r) ev;
          m = srt_metrics r;
          m1 = m\<lparr>smx_dispatched := smx_dispatched m + int (length matched)\<rparr> in
      if matched = [] then (Inr [], r)
      else
        (case datetime_diff (sve_now env) (event_time ev) of
           None \<Rightarrow> (Inl StrategyTypeError, r\<lparr>srt_metrics := m1\<rparr>)
         | Some lag \<Rightarrow>
             (let (accepted, r') = run_futures env p ev matched (r\<lparr>srt_metrics := m1\<lparr>smx_lag := smx_lag m1 + max 0 lag\<rparr>\<rparr>) in
              (Inr accepted, r'))))"

definition runtime_shutdown :: "strategy_env \<Rightarrow> 's runtime \<Rightarrow> 's runtime" where
  "runtime_shutdown env r = foldl (\<lambda>r sid. snd (runtime_stop env r sid)) r (map fst (srt_runs r))"

section \<open>Boundary to the signal engine\<close>

definition runtime_directory :: "'s strategy_registry \<Rightarrow> strategy_directory" where
  "runtime_directory g sid =
     (case registry_get g sid of
        Inl _ \<Rightarrow> None
      | Inr d \<Rightarrow>
          (let i = df_identity d in
           Some \<lparr>sd_strategy_id = id_strategy_id i, sd_version = id_version i, sd_config_hash = id_config_hash i,
             sd_code_hash = id_code_hash i, sd_enabled = df_enabled d, sd_instruments = allowed_instruments d\<rparr>))"

definition run_mode :: "'s runtime \<Rightarrow> strategy_signal \<Rightarrow> string" where
  "run_mode r s = (case map_of (srt_runs r) (ss_strategy_id s) of Some x \<Rightarrow> strategy_mode_value (sru_trading_mode x) | None \<Rightarrow> ''PAPER'')"

section \<open>An instance follows its state machine\<close>

definition evolves :: "'s strategy_instance \<Rightarrow> 's strategy_instance \<Rightarrow> bool" where
  "evolves t t' \<longleftrightarrow>
     sti_definition t' = sti_definition t \<and> sti_strategy t' = sti_strategy t \<and>
     (\<exists>ts. run_ok run_transitions (sti_state t) ts \<and> last (sti_state t # ts) = sti_state t')"

lemma evolves_refl [simp, intro]: "evolves t t"
  unfolding evolves_def by (auto intro: exI [of _ "[]"])

lemma evolves_trans: "evolves t u \<Longrightarrow> evolves u v \<Longrightarrow> evolves t v"
proof -
  assume "evolves t u" "evolves u v"
  then obtain as bs where "run_ok run_transitions (sti_state t) as" "last (sti_state t # as) = sti_state u"
      "run_ok run_transitions (sti_state u) bs" "last (sti_state u # bs) = sti_state v"
    and same: "sti_definition v = sti_definition t" "sti_strategy v = sti_strategy t"
    by (auto simp: evolves_def)
  then have "run_ok run_transitions (sti_state t) (as @ bs) \<and> last (sti_state t # as @ bs) = sti_state v"
    by (cases bs) (auto simp: run_ok_append split: if_splits)
  with same show ?thesis unfolding evolves_def by blast
qed

lemma evolves_terminal:
  assumes "evolves t t'" "sti_state t \<in> set terminal_run_states"
  shows "sti_state t' = sti_state t"
  using assms run_machine.terminal_run by (auto simp: evolves_def)

lemma evolves_quiet [intro]:
  "sti_definition t' = sti_definition t \<Longrightarrow> sti_strategy t' = sti_strategy t \<Longrightarrow> sti_state t' = sti_state t \<Longrightarrow> evolves t t'"
  unfolding evolves_def by (auto intro: exI [of _ "[]"])

lemma run_transition_eq: "run_transition s new = Inr u \<longleftrightarrow> u = new \<and> new \<in> set (run_transitions s)"
  by (auto simp: run_transition_def)

lemma evolves_move:
  "run_transition (sti_state t) new = Inr u \<Longrightarrow> evolves t (t\<lparr>sti_state := u\<rparr>)"
  unfolding evolves_def run_transition_eq by (auto intro!: exI [of _ "[u]"])

lemma fail_instance_evolves: "evolves t (fst (fail_instance msg (t, m)))"
proof -
  have "evolves t (t\<lparr>sti_state := u, sti_fail_reason := Some msg\<rparr>)" if "run_transition (sti_state t) RS_FAILED = Inr u" for u
    using evolves_move [OF that] by (rule evolves_trans) auto
  then show ?thesis by (simp add: fail_instance_def split: sum.split)
qed

lemma fail_instance_terminal: "sti_state (fst (fail_instance msg (t, m))) \<in> set terminal_run_states"
  by (cases "sti_state t") (simp_all add: fail_instance_def terminal_run_states_def run_transition_def)

lemma instance_move_evolves:
  assumes "\<And>u. evolves (t\<lparr>sti_state := u\<rparr>) (fst (snd (k (t\<lparr>sti_state := u\<rparr>))))"
  shows "evolves t (fst (snd (instance_move new (t, m) k)))"
  using assms by (auto simp: instance_move_def split: sum.split intro: evolves_trans evolves_move)

lemma run_callback_evolves:
  assumes "\<And>c. evolves (t\<lparr>sti_context := c\<rparr>) (fst (snd (k (t\<lparr>sti_context := c\<rparr>))))"
  shows "evolves t (fst (snd (run_callback name f t m k)))"
proof -
  have "evolves t (t\<lparr>sti_context := c\<rparr>)" for c by auto
  then show ?thesis using assms
    by (auto simp: run_callback_def Let_def split: prod.split option.split intro: evolves_trans fail_instance_evolves)
qed

lemma instance_lifecycle_evolves:
  "evolves t (fst (snd (instance_initialize t m)))" "evolves t (fst (snd (instance_start t m)))"
  "evolves t (fst (snd (instance_pause t m)))" "evolves t (fst (snd (instance_resume t m)))"
  "evolves t (fst (snd (instance_stop t m)))"
  by (auto simp: instance_initialize_def instance_start_def instance_pause_def instance_resume_def instance_stop_def
      intro!: instance_move_evolves run_callback_evolves)

lemma instance_event_evolves: "evolves t (fst (snd (instance_event py ev t m)))"
proof -
  have "evolves t (t\<lparr>sti_context := c\<rparr>)" for c by auto
  then have "evolves t (fst (fail_instance msg (t\<lparr>sti_context := c\<rparr>, m)))" for c msg m
    using fail_instance_evolves evolves_trans by blast
  then show ?thesis
    by (auto simp: instance_event_def Let_def split: prod.splits option.splits)
qed

text \<open>Neither the result nor the instance depends on the shared metrics.\<close>

lemma fail_instance_metrics: "fst (fail_instance msg (t, m)) = fst (fail_instance msg (t, m'))"
  by (simp add: fail_instance_def split: sum.split)

definition without_metrics :: "'a \<times> 'b \<times> 'c \<times> 'm \<Rightarrow> 'a \<times> 'b \<times> 'c" where
  "without_metrics x = (fst x, fst (snd x), fst (snd (snd x)))"

lemma screen_signals_metrics:
  "without_metrics (screen_signals py i al t ss seen m) = without_metrics (screen_signals py i al t ss seen m')"
proof (induction ss arbitrary: seen m m')
  case (Cons s ss)
  show ?case
  proof (cases "validate_emitted s i al t")
    case (Inr reason)
    obtain dup seen' where "is_duplicate py s t seen = (dup, seen')" by fastforce
    then show ?thesis
      using Inr Cons [of seen "m\<lparr>smx_rejected := smx_rejected m + 1\<rparr>" "m'\<lparr>smx_rejected := smx_rejected m' + 1\<rparr>"]
        Cons [of seen' "m\<lparr>smx_duplicate := smx_duplicate m + 1\<rparr>" "m'\<lparr>smx_duplicate := smx_duplicate m' + 1\<rparr>"]
        Cons [of seen' "m\<lparr>smx_generated := smx_generated m + 1\<rparr>" "m'\<lparr>smx_generated := smx_generated m' + 1\<rparr>"]
      by (simp add: without_metrics_def case_prod_beta)
  qed (simp add: without_metrics_def)
qed (simp add: without_metrics_def)

lemma instance_event_metrics:
  "fst (instance_event py ev t m) = fst (instance_event py ev t m')"
  "fst (snd (instance_event py ev t m)) = fst (snd (instance_event py ev t m'))"
proof -
  have *: "without_metrics (screen_signals py i al x ss seen (m\<lparr>smx_callbacks := smx_callbacks m + 1\<rparr>)) =
      without_metrics (screen_signals py i al x ss seen (m'\<lparr>smx_callbacks := smx_callbacks m' + 1\<rparr>))" for i al x ss seen
    by (rule screen_signals_metrics)
  show "fst (instance_event py ev t m) = fst (instance_event py ev t m')"
    using * by (simp add: instance_event_def Let_def case_prod_beta without_metrics_def split: option.split)
  show "fst (snd (instance_event py ev t m)) = fst (snd (instance_event py ev t m'))"
    using * by (simp add: instance_event_def Let_def case_prod_beta without_metrics_def split: option.split)
      (metis fail_instance_metrics)
qed

section \<open>A dispatch treats every instance on its own\<close>

abbreviation insts :: "'s runtime \<Rightarrow> uuid \<Rightarrow> 's strategy_instance option" where
  "insts r \<equiv> map_of (ds_instances (srt_dispatcher r))"

definition zero_metrics :: strategy_metrics where
  "zero_metrics = \<lparr>smx_started = 0, smx_stopped = 0, smx_paused = 0, smx_resumed = 0, smx_failed = 0, smx_dispatched = 0,
     smx_dropped = 0, smx_callbacks = 0, smx_lag = 0, smx_generated = 0, smx_rejected = 0, smx_duplicate = 0\<rparr>"

text \<open>What becomes of one instance, by itself, when it is yielded in time, completes late, or hangs.\<close>

definition completed_instance :: "py_env \<Rightarrow> strategy_event \<Rightarrow> 's strategy_instance \<Rightarrow> 's strategy_instance" where
  "completed_instance py ev t =
     (case instance_event py ev t zero_metrics of
        (Inl msg, t', m) \<Rightarrow> fst (fail_instance msg (t', m))
      | (Inr _, t', m) \<Rightarrow> t')"

definition late_instance :: "py_env \<Rightarrow> strategy_event \<Rightarrow> 's strategy_instance \<Rightarrow> 's strategy_instance" where
  "late_instance py ev t = fst (snd (instance_event py ev t zero_metrics))"

definition hung_instance :: "'s strategy_instance \<Rightarrow> 's strategy_instance" where
  "hung_instance t = fst (fail_instance ''callback_timeout'' (t, zero_metrics))"

definition settled_instance :: "py_env \<Rightarrow> pool_outcome \<Rightarrow> strategy_event \<Rightarrow> uuid \<Rightarrow> 's strategy_instance \<Rightarrow> 's strategy_instance" where
  "settled_instance py p ev sid =
     (if sid \<in> set (po_completed p) then completed_instance py ev
      else if sid \<in> set (po_late p) then late_instance py ev else hung_instance)"

lemma update_run_same [simp]:
  "srt_registry (update_run sid f r) = srt_registry r" "srt_dispatcher (update_run sid f r) = srt_dispatcher r"
  "srt_metrics (update_run sid f r) = srt_metrics r" "srt_consumers (update_run sid f r) = srt_consumers r"
  "srt_delivered (update_run sid f r) = srt_delivered r"
  by (simp_all add: update_run_def split: option.split)

lemma record_run_failure_same [simp]:
  "srt_registry (record_run_failure env t r) = srt_registry r" "srt_dispatcher (record_run_failure env t r) = srt_dispatcher r"
  "srt_metrics (record_run_failure env t r) = srt_metrics r" "srt_consumers (record_run_failure env t r) = srt_consumers r"
  "srt_delivered (record_run_failure env t r) = srt_delivered r"
  by (simp_all add: record_run_failure_def)

lemma put_instance_same [simp]:
  "srt_registry (put_instance sid tm r) = srt_registry r" "srt_runs (put_instance sid tm r) = srt_runs r"
  "srt_metrics (put_instance sid tm r) = snd tm" "srt_consumers (put_instance sid tm r) = srt_consumers r"
  "srt_delivered (put_instance sid tm r) = srt_delivered r"
  "ds_definitions (srt_dispatcher (put_instance sid tm r)) = ds_definitions (srt_dispatcher r)"
  "ds_instances (srt_dispatcher (put_instance sid tm r)) = od_set sid (fst tm) (ds_instances (srt_dispatcher r))"
  by (simp_all add: put_instance_def)

text \<open>The signals of one instance are enriched in order, and each goes to every consumer.\<close>

lemma collect_signals_eq:
  "collect_signals t x ss (acc, r) =
     (let es = map (enrich_signal (map_of (srt_runs r) (id_strategy_id (sti_identity t))) (sti_identity t) x) ss in
      (acc @ es, r\<lparr>srt_delivered := srt_delivered r @ concat (map (\<lambda>e. map (\<lambda>c. (c, e)) (srt_consumers r)) es)\<rparr>))"
proof (induction ss arbitrary: acc r)
  case (Cons s ss)
  show ?case using Cons [of _ "fan_out _ r"] by (simp add: collect_signals_def Let_def fan_out_def)
qed (simp add: collect_signals_def)

lemma collect_completed_insts:
  "insts (snd (collect_completed env ev (acc, r) sid)) =
     (insts r)(sid := map_option (completed_instance (sve_py env) ev) (insts r sid))"
proof (cases "insts r sid")
  case (Some t)
  obtain res t' m where ie: "instance_event (sve_py env) ev t (srt_metrics r) = (res, t', m)" by (metis prod.exhaust)
  obtain m0 where ie0: "instance_event (sve_py env) ev t zero_metrics = (res, t', m0)"
    using instance_event_metrics [of "sve_py env" ev t "srt_metrics r" zero_metrics] ie
    by (metis fst_conv snd_conv prod.collapse)
  show ?thesis
  proof (cases res)
    case (Inl msg)
    have "fst (fail_instance msg (t', m)) = fst (fail_instance msg (t', m0))" by (rule fail_instance_metrics)
    then show ?thesis using Some ie ie0 Inl
      by (auto simp: collect_completed_def completed_instance_def drop_event_def fun_eq_iff split: prod.split)
  next
    case (Inr signals)
    then show ?thesis using Some ie ie0
      by (auto simp: collect_completed_def completed_instance_def collect_signals_eq Let_def fun_eq_iff)
  qed
qed (auto simp: collect_completed_def fun_eq_iff)

lemma finish_late_insts:
  "insts (finish_late env ev r sid) = (insts r)(sid := map_option (late_instance (sve_py env) ev) (insts r sid))"
  using instance_event_metrics(2) [of "sve_py env" ev _ "srt_metrics r" zero_metrics]
  by (auto simp: finish_late_def late_instance_def fun_eq_iff split: option.split)

lemma time_out_insts: "insts (time_out env r sid) = (insts r)(sid := map_option hung_instance (insts r sid))"
  using fail_instance_metrics [of "''callback_timeout''" _ "srt_metrics r" zero_metrics]
  by (auto simp: time_out_def hung_instance_def drop_event_def fun_eq_iff case_prod_beta split: option.split)

lemma foldl_pointwise:
  assumes "\<And>r x. view (f r x) = (view r)(x := g (view r x))" "distinct xs"
  shows "view (foldl f r xs) y = (if y \<in> set xs then g (view r y) else view r y)"
  using assms(2) by (induction xs arbitrary: r) (auto simp: assms(1))

lemma run_futures_insts:
  assumes "distinct matched"
  shows "insts (snd (run_futures env p ev matched (r :: 'a runtime))) sid =
    (if sid \<in> set matched then map_option (settled_instance (sve_py env) p ev sid) (insts r sid) else insts r sid)"
proof -
  let ?f = "collect_completed env ev :: _ \<Rightarrow> _ \<Rightarrow> _ \<times> 'a runtime"
  let ?r1 = "snd (foldl ?f ([], r) (yielded p matched))"
  let ?r2 = "foldl (finish_late env ev) ?r1 (late_ones p matched)"
  have dist: "distinct (yielded p matched)" "distinct (late_ones p matched)" "distinct (hung_ones p matched)"
    using assms by (simp_all add: yielded_def late_ones_def hung_ones_def)
  have step: "insts (snd (?f ar x)) = (insts (snd ar))(x := map_option (completed_instance (sve_py env) ev) (insts (snd ar) x))" for ar x
    using collect_completed_insts [of env ev "fst ar" "snd ar" x] by simp
  have 1: "insts ?r1 y = (if y \<in> set (yielded p matched) then map_option (completed_instance (sve_py env) ev) (insts r y) else insts r y)" for y
    using foldl_pointwise [of "\<lambda>ar. insts (snd ar)" ?f, OF step dist(1)] by simp
  have 2: "insts ?r2 y = (if y \<in> set (late_ones p matched) then map_option (late_instance (sve_py env) ev) (insts ?r1 y) else insts ?r1 y)" for y
    by (rule foldl_pointwise [of insts "finish_late env ev", OF finish_late_insts dist(2)])
  have 3: "insts (foldl (time_out env) ?r2 (hung_ones p matched)) y =
      (if y \<in> set (hung_ones p matched) then map_option hung_instance (insts ?r2 y) else insts ?r2 y)" for y
    by (rule foldl_pointwise [of insts "time_out env", OF time_out_insts dist(3)])
  show ?thesis
    using 1 [of sid] 2 [of sid] 3 [of sid]
    by (auto simp: run_futures_def case_prod_beta Let_def yielded_def late_ones_def hung_ones_def settled_instance_def)
qed

lemma match_event_distinct: "od_ok (ds_instances p) \<Longrightarrow> distinct (match_event p ev)"
  by (simp add: match_event_def od_ok_def)

lemma match_event_iff:
  "sid \<in> set (match_event p ev) \<longleftrightarrow> strategy_matches p sid (event_instrument ev) (event_timeframe ev)"
  by (force simp: match_event_def strategy_matches_def split: option.splits dest: map_of_SomeD)

lemma settled_evolves: "evolves t (settled_instance py p ev sid t)"
proof -
  have "evolves t (completed_instance py ev t)"
    using instance_event_evolves [of t py ev zero_metrics]
    by (auto simp: completed_instance_def split: prod.split sum.split intro: evolves_trans [OF _ fail_instance_evolves])
  then show ?thesis
    by (simp add: settled_instance_def late_instance_def hung_instance_def instance_event_evolves fail_instance_evolves)
qed

lemma runtime_event_insts:
  assumes "od_ok (ds_instances (srt_dispatcher r))"
  shows "insts (snd (runtime_event env p r ev)) sid =
    (if tz_aware (sve_now env) = tz_aware (event_time ev) \<and> sid \<in> set (match_event (srt_dispatcher r) ev)
     then map_option (settled_instance (sve_py env) p ev sid) (insts r sid) else insts r sid)"
  by (simp add: runtime_event_def Let_def case_prod_beta datetime_diff_def run_futures_insts [OF match_event_distinct [OF assms]])

section \<open>Well-formed runtimes\<close>

definition registry_ok :: "'s strategy_registry \<Rightarrow> bool" where
  "registry_ok g \<longleftrightarrow> (\<forall>sid d. map_of (rg_by_id g) sid = Some d \<longrightarrow> id_strategy_id (df_identity d) = sid)"

text \<open>The definition in the dispatcher is the one the instance was built from, up to being enabled; the run record of the strategy
  describes it, and its mode is allowed.\<close>

definition instance_ok :: "'s runtime \<Rightarrow> uuid \<Rightarrow> 's strategy_instance \<Rightarrow> bool" where
  "instance_ok r sid t \<longleftrightarrow>
     id_strategy_id (sti_identity t) = sid \<and>
     (\<exists>enabled. map_of (ds_definitions (srt_dispatcher r)) sid = Some ((sti_definition t)\<lparr>df_enabled := enabled\<rparr>)) \<and>
     (\<exists>x. map_of (srt_runs r) sid = Some x \<and> sru_strategy_id x = sid \<and> sru_version x = id_version (sti_identity t) \<and>
        sru_config_hash x = id_config_hash (sti_identity t) \<and> sru_code_hash x = id_code_hash (sti_identity t) \<and>
        sru_trading_mode x \<in> {MODE_BACKTEST, MODE_PAPER})"

definition runtime_ok :: "'s runtime \<Rightarrow> bool" where
  "runtime_ok r \<longleftrightarrow>
     registry_ok (srt_registry r) \<and> od_ok (ds_instances (srt_dispatcher r)) \<and>
     (\<forall>sid. map_of (srt_runs r) sid = None \<longleftrightarrow> insts r sid = None) \<and>
     (\<forall>sid t. insts r sid = Some t \<longrightarrow> instance_ok r sid t)"

text \<open>A call may change instances, metrics and the log, and of a run record the state, the reason and the end.\<close>

definition same_run :: "run_record \<Rightarrow> run_record \<Rightarrow> bool" where
  "same_run x y \<longleftrightarrow> sru_strategy_id y = sru_strategy_id x \<and> sru_version y = sru_version x \<and> sru_config_hash y = sru_config_hash x \<and>
     sru_code_hash y = sru_code_hash x \<and> sru_trading_mode y = sru_trading_mode x \<and> sru_run_id y = sru_run_id x"

definition redefined :: "'s strategy_definition \<Rightarrow> 's strategy_definition \<Rightarrow> bool" where
  "redefined d d' \<longleftrightarrow> d' = d\<lparr>df_enabled := df_enabled d'\<rparr>"

definition calm :: "'s runtime \<Rightarrow> 's runtime \<Rightarrow> bool" where
  "calm r r' \<longleftrightarrow>
     srt_registry r' = srt_registry r \<and> srt_consumers r' = srt_consumers r \<and>
     (od_ok (ds_instances (srt_dispatcher r)) \<longrightarrow> od_ok (ds_instances (srt_dispatcher r'))) \<and>
     (\<forall>sid. rel_option redefined
        (map_of (ds_definitions (srt_dispatcher r)) sid) (map_of (ds_definitions (srt_dispatcher r')) sid)) \<and>
     (\<forall>sid. rel_option same_run (map_of (srt_runs r) sid) (map_of (srt_runs r') sid)) \<and>
     (\<forall>sid. rel_option evolves (insts r sid) (insts r' sid))"

lemma same_run_refl [simp]: "same_run x x"
  by (simp add: same_run_def)

lemma redefined_refl [simp]: "redefined d d"
  by (simp add: redefined_def)

lemma redefined_enabled [simp]: "redefined d (d\<lparr>df_enabled := b\<rparr>)"
  by (simp add: redefined_def)

lemma rel_option_reflI [intro!, simp]: "(\<And>x. R x x) \<Longrightarrow> rel_option R v v"
  by (cases v) simp_all

lemma rel_option_None_iff: "rel_option R a b \<Longrightarrow> a = None \<longleftrightarrow> b = None"
  by (cases a; cases b) simp_all

lemma rel_option_transD: "transp R \<Longrightarrow> rel_option R a b \<Longrightarrow> rel_option R b c \<Longrightarrow> rel_option R a c"
  by (cases a; cases b; cases c) (auto dest: transpD)

lemma transp_redefined: "transp redefined"
  unfolding redefined_def by (rule transpI) (metis strategy_definition.update_convs(3) strategy_definition.surjective)

lemma transp_same_run: "transp same_run"
  by (rule transpI) (simp add: same_run_def)

lemma transp_evolves: "transp evolves"
  by (rule transpI) (rule evolves_trans)

lemma calm_refl [simp, intro]: "calm r r"
  by (simp add: calm_def)

lemma calm_trans:
  assumes "calm r r'" "calm r' r''"
  shows "calm r r''"
  unfolding calm_def
proof (intro conjI allI)
  fix sid
  show "rel_option redefined (map_of (ds_definitions (srt_dispatcher r)) sid) (map_of (ds_definitions (srt_dispatcher r'')) sid)"
    using assms unfolding calm_def by (blast intro: rel_option_transD [OF transp_redefined])
  show "rel_option same_run (map_of (srt_runs r) sid) (map_of (srt_runs r'') sid)"
    using assms unfolding calm_def by (blast intro: rel_option_transD [OF transp_same_run])
  show "rel_option evolves (insts r sid) (insts r'' sid)"
    using assms unfolding calm_def by (blast intro: rel_option_transD [OF transp_evolves])
qed (use assms in \<open>simp_all add: calm_def\<close>)

lemma calm_metrics [simp]: "calm r (r'\<lparr>srt_metrics := m\<rparr>) = calm r r'" "calm r (r'\<lparr>srt_delivered := l\<rparr>) = calm r r'"
  by (simp_all add: calm_def)

lemma calm_update_run:
  assumes "\<And>x. same_run x (f x)"
  shows "calm r (update_run sid f r)"
proof -
  have "rel_option same_run (map_of (srt_runs r) k) (map_of (srt_runs (update_run sid f r)) k)" for k
    using assms by (auto simp: update_run_def split: option.split)
  then show ?thesis by (simp add: calm_def)
qed

lemma calm_record_run_failure: "calm r (record_run_failure env t r)"
  unfolding record_run_failure_def by (rule calm_update_run) (simp add: same_run_def)

lemma calm_put_instance:
  assumes "insts r sid = Some t" "evolves t (fst tm)"
  shows "calm r (put_instance sid tm r)"
  using assms by (auto simp: calm_def)

lemma calm_drop_event:
  assumes "insts r sid = Some t" "evolves t (fst tm)"
  shows "calm r (drop_event env sid reason tm r)"
proof -
  have "evolves t (fst (fail_instance reason tm))"
    using evolves_trans [OF assms(2) fail_instance_evolves, of reason "snd tm"] by simp
  then have "calm r (put_instance sid (fst (fail_instance reason tm), m) r)" for m
    using calm_put_instance [OF assms(1)] by simp
  then show ?thesis using calm_trans calm_record_run_failure by (fastforce simp: drop_event_def split: prod.split)
qed

lemma calm_collect_completed: "calm (snd ar) (snd (collect_completed env ev ar sid))"
proof (cases "insts (snd ar) sid")
  case (Some t)
  obtain res tm where ie: "instance_event (sve_py env) ev t (srt_metrics (snd ar)) = (res, tm)" by (rule prod.exhaust)
  then have ev: "evolves t (fst tm)" using instance_event_evolves by (metis snd_conv)
  show ?thesis
  proof (cases res)
    case (Inl msg)
    then show ?thesis using calm_drop_event [OF Some ev] Some ie by (simp add: collect_completed_def case_prod_beta)
  next
    case (Inr signals)
    then show ?thesis using calm_put_instance [OF Some ev] Some ie
      by (auto simp: collect_completed_def case_prod_beta collect_signals_eq Let_def intro!: calm_trans [OF _ calm_record_run_failure])
  qed
qed (simp add: collect_completed_def case_prod_beta)

lemma calm_finish_late: "calm r (finish_late env ev r sid)"
  by (auto simp: finish_late_def split: option.split intro!: calm_put_instance instance_event_evolves)

lemma calm_time_out: "calm r (time_out env r sid)"
  by (auto simp: time_out_def split: option.split intro!: calm_drop_event)

lemma calm_foldl: "(\<And>r x. calm (h r) (h (f r x))) \<Longrightarrow> calm (h r) (h (foldl f r xs))"
  by (induction xs arbitrary: r) (auto intro: calm_trans)

lemma calm_run_futures: "calm r (snd (run_futures env p ev matched r))"
proof -
  let ?a = "foldl (collect_completed env ev) ([], r) (yielded p matched)"
  have "calm r (snd ?a)" using calm_foldl [of snd "collect_completed env ev" "([], r)", OF calm_collect_completed] by simp
  moreover have "calm (snd ?a) (foldl (finish_late env ev) (snd ?a) (late_ones p matched))"
    using calm_foldl [of id "finish_late env ev"] by (simp add: calm_finish_late)
  moreover have "calm r2 (foldl (time_out env) r2 (hung_ones p matched))" for r2 :: "'a runtime"
    using calm_foldl [of id "time_out env"] by (simp add: calm_time_out)
  ultimately show ?thesis by (auto simp: run_futures_def case_prod_beta Let_def intro: calm_trans)
qed

lemma calm_runtime_event: "calm r (snd (runtime_event env p r ev))"
proof -
  have "calm (r\<lparr>srt_metrics := m\<rparr>) (snd (run_futures env p ev ms (r\<lparr>srt_metrics := m\<rparr>)))" for m ms
    by (rule calm_run_futures)
  then have "calm r (snd (run_futures env p ev ms (r\<lparr>srt_metrics := m\<rparr>)))" for m ms
    by (simp add: calm_def)
  then show ?thesis by (simp add: runtime_event_def Let_def case_prod_beta split: option.split)
qed

lemma calm_on_instance:
  assumes "\<And>t m. evolves t (fst (snd (f t m)))"
  shows "calm r (snd (on_instance r sid f))"
  using assms
  by (auto simp: on_instance_def require_instance_def of_opt_def case_prod_beta split: option.split intro!: calm_put_instance)

lemma calm_set_enabled: "calm r (r\<lparr>srt_dispatcher := dispatcher_set_enabled (srt_dispatcher r) sid b\<rparr>)"
  by (auto simp: calm_def dispatcher_set_enabled_def split: option.split)

lemma calm_runtime_stop: "calm r (snd (runtime_stop env r sid))"
proof -
  obtain res r' where oi: "on_instance r sid instance_stop = (res, r')" by (rule prod.exhaust)
  then have "calm r r'" using calm_on_instance [of instance_stop, OF instance_lifecycle_evolves(5)] by (metis snd_conv)
  then show ?thesis using oi
    by (auto simp: runtime_stop_def same_run_def split: sum.split
        intro!: calm_trans [OF calm_trans [OF _ calm_set_enabled] calm_update_run])
qed

lemma calm_shutdown: "calm r (runtime_shutdown env r)"
  unfolding runtime_shutdown_def
  using calm_foldl [of id "\<lambda>r sid. snd (runtime_stop env r sid)" r] by (simp add: calm_runtime_stop)

lemma calm_runtime_ok:
  assumes "runtime_ok r" "calm r r'"
  shows "runtime_ok r'"
proof -
  have "instance_ok r' sid t'" if t': "insts r' sid = Some t'" for sid t'
  proof -
    have rel: "rel_option evolves (insts r sid) (insts r' sid)"
        "rel_option redefined (map_of (ds_definitions (srt_dispatcher r)) sid) (map_of (ds_definitions (srt_dispatcher r')) sid)"
        "rel_option same_run (map_of (srt_runs r) sid) (map_of (srt_runs r') sid)"
      using assms(2) by (simp_all add: calm_def)
    obtain t where t: "insts r sid = Some t" "evolves t t'" using rel(1) t' by (auto simp: option_rel_Some2)
    then have "instance_ok r sid t" using assms(1) by (simp add: runtime_ok_def)
    then obtain b x where d: "map_of (ds_definitions (srt_dispatcher r)) sid = Some ((sti_definition t)\<lparr>df_enabled := b\<rparr>)"
      and x: "map_of (srt_runs r) sid = Some x" and ok: "instance_ok r sid t"
      by (auto simp: instance_ok_def)
    obtain d' x' where d': "map_of (ds_definitions (srt_dispatcher r')) sid = Some d'" "redefined ((sti_definition t)\<lparr>df_enabled := b\<rparr>) d'"
      and x': "map_of (srt_runs r') sid = Some x'" "same_run x x'"
      using rel(2,3) d x by (auto simp: option_rel_Some1)
    have "d' = (sti_definition t)\<lparr>df_enabled := df_enabled d'\<rparr>" using d'(2) by (simp add: redefined_def)
    then show ?thesis using ok d'(1) x x' t(2) by (auto simp: instance_ok_def same_run_def evolves_def)
  qed
  moreover have "map_of (srt_runs r') sid = None \<longleftrightarrow> insts r' sid = None" for sid
  proof -
    have "rel_option same_run (map_of (srt_runs r) sid) (map_of (srt_runs r') sid)" "rel_option evolves (insts r sid) (insts r' sid)"
      using assms(2) by (simp_all add: calm_def)
    then show ?thesis using assms(1) by (simp add: runtime_ok_def rel_option_None_iff [symmetric])
  qed
  ultimately show ?thesis using assms by (simp add: runtime_ok_def calm_def)
qed

lemma new_instance_definition: "new_instance py d impl c = Inr t \<Longrightarrow> sti_definition t = d \<and> sti_state t = RS_CREATED"
  by (auto simp: new_instance_def Let_def result_simps)

lemma runtime_start_cases:
  obtains (refused) e mx where "runtime_start env r sid mode c = (Inl e, r\<lparr>srt_metrics := mx\<rparr>)"
  | (started) m d t mx where "runtime_start env r sid mode c =
        (Inr (sve_uuid4 env), r\<lparr>srt_metrics := mx, srt_dispatcher := dispatcher_register (srt_dispatcher r) t d,
           srt_runs := od_set sid (new_run_record env sid d m (sti_state t)) (srt_runs r)\<rparr>)"
      "m \<in> set allowed_run_modes" "map_of (rg_by_id (srt_registry r)) sid = Some d" "sti_definition t = d"
proof (cases "prepare_start env r sid mode c")
  case (Inl e)
  then show ?thesis using refused [of e "srt_metrics r"] by (simp add: runtime_start_def)
next
  case (Inr mdt)
  then obtain m d t0 where mdt: "prepare_start env r sid mode c = Inr (m, d, t0)" by (cases mdt) auto
  then have pre: "m \<in> set allowed_run_modes" "map_of (rg_by_id (srt_registry r)) sid = Some d" "sti_definition t0 = d"
    by (auto simp: prepare_start_def registry_get_def result_simps dest: new_instance_definition)
  obtain res1 t1 mx1 where i: "instance_initialize t0 (srt_metrics r) = (res1, t1, mx1)" by (metis prod.exhaust)
  obtain res2 t2 mx2 where j: "instance_start t1 mx1 = (res2, t2, mx2)" by (metis prod.exhaust)
  have "evolves t0 t1" "evolves t1 t2"
    using instance_lifecycle_evolves(1) [of t0 "srt_metrics r"] instance_lifecycle_evolves(2) [of t1 mx1] i j by simp_all
  then have def: "sti_definition t2 = d" using pre(3) by (simp add: evolves_def)
  show ?thesis
  proof (cases res1)
    case (Inl e)
    then show ?thesis using refused [of e mx1] mdt i by (simp add: runtime_start_def)
  next
    case (Inr u)
    then show ?thesis using refused [of _ mx2] started [where m = m and d = d and t = t2 and mx = mx2] pre def mdt i j
      by (cases res2) (simp_all add: runtime_start_def)
  qed
qed

lemma runtime_start_ok: "runtime_ok r \<Longrightarrow> runtime_ok (snd (runtime_start env r sid mode c))"
proof -
  assume ok: "runtime_ok r"
  show ?thesis
  proof (cases rule: runtime_start_cases [of env r sid mode c])
    case (refused e mx)
    then show ?thesis using calm_runtime_ok [OF ok, of "r\<lparr>srt_metrics := mx\<rparr>"] by simp
  next
    case (started m d t mx)
    have "id_strategy_id (df_identity d) = sid" using ok started(3) by (simp add: runtime_ok_def registry_ok_def)
    moreover have "\<exists>b. d = d\<lparr>df_enabled := b\<rparr>" by (rule exI [of _ "df_enabled d"]) simp
    ultimately show ?thesis using ok started
      by (auto simp: runtime_ok_def instance_ok_def dispatcher_register_def Let_def new_run_record_def allowed_run_modes_def)
  qed
qed

lemma runtime_unregister_ok: "runtime_ok r \<Longrightarrow> runtime_ok (snd (runtime_unregister r sid))"
  by (auto simp: runtime_unregister_def registry_unregister_def runtime_ok_def registry_ok_def instance_ok_def
      dispatcher_unregister_def split: option.split)

lemma runtime_ok_registry:
  "runtime_ok r \<Longrightarrow> registry_ok g \<Longrightarrow> runtime_ok (r\<lparr>srt_registry := g\<rparr>)"
  by (simp add: runtime_ok_def instance_ok_def)

lemma registry_register_ok: "registry_ok g \<Longrightarrow> registry_register g d = Inr g' \<Longrightarrow> registry_ok g'"
  by (auto simp: registry_register_def registry_ok_def Let_def result_simps split: if_splits)

lemma registry_set_enabled_ok: "registry_ok g \<Longrightarrow> registry_set_enabled g sid b = Inr g' \<Longrightarrow> registry_ok g'"
  by (auto simp: registry_set_enabled_def registry_get_def registry_ok_def result_simps split: if_splits)

text \<open>The calls of a runtime, with those of its registry.\<close>

datatype 's runtime_call =
    Call_Register "'s strategy_definition"
  | Call_Unregister uuid
  | Call_Set_Enabled uuid bool
  | Call_Add_Consumer nat
  | Call_Start strategy_env uuid string "payload option"
  | Call_Stop strategy_env uuid
  | Call_Pause uuid
  | Call_Resume uuid
  | Call_Event strategy_env pool_outcome strategy_event
  | Call_Shutdown strategy_env

fun runtime_step :: "'s runtime \<Rightarrow> 's runtime_call \<Rightarrow> 's runtime" where
  "runtime_step r (Call_Register d) = snd (runtime_register r d)"
| "runtime_step r (Call_Unregister sid) = snd (runtime_unregister r sid)"
| "runtime_step r (Call_Set_Enabled sid b) =
     (case registry_set_enabled (srt_registry r) sid b of Inl _ \<Rightarrow> r | Inr g \<Rightarrow> r\<lparr>srt_registry := g\<rparr>)"
| "runtime_step r (Call_Add_Consumer c) = add_signal_consumer r c"
| "runtime_step r (Call_Start env sid mode c) = snd (runtime_start env r sid mode c)"
| "runtime_step r (Call_Stop env sid) = snd (runtime_stop env r sid)"
| "runtime_step r (Call_Pause sid) = snd (runtime_pause r sid)"
| "runtime_step r (Call_Resume sid) = snd (runtime_resume r sid)"
| "runtime_step r (Call_Event env p ev) = snd (runtime_event env p r ev)"
| "runtime_step r (Call_Shutdown env) = runtime_shutdown env r"

definition new_runtime :: "'s runtime" where
  "new_runtime = \<lparr>srt_registry = empty_registry, srt_dispatcher = \<lparr>ds_instances = [], ds_definitions = []\<rparr>, srt_metrics = zero_metrics,
     srt_runs = [], srt_consumers = [], srt_delivered = []\<rparr>"

lemma calm_pause: "calm r (snd (runtime_pause r sid))" and calm_resume: "calm r (snd (runtime_resume r sid))"
  by (simp_all add: runtime_pause_def runtime_resume_def calm_on_instance instance_lifecycle_evolves)

lemmas calm_calls = calm_runtime_event calm_runtime_stop calm_shutdown calm_pause calm_resume

lemma runtime_step_ok: "runtime_ok r \<Longrightarrow> runtime_ok (runtime_step r c)"
proof (cases c)
  case (Call_Register d)
  assume "runtime_ok r"
  then show ?thesis using Call_Register
    by (auto simp: runtime_register_def runtime_ok_def instance_ok_def split: sum.split intro: registry_register_ok)
next
  case (Call_Set_Enabled sid b)
  assume "runtime_ok r"
  then show ?thesis using Call_Set_Enabled
    by (auto simp: runtime_ok_def instance_ok_def split: sum.split intro: registry_set_enabled_ok)
next
  case (Call_Add_Consumer k)
  assume "runtime_ok r"
  then show ?thesis using Call_Add_Consumer by (simp add: add_signal_consumer_def runtime_ok_def instance_ok_def)
qed (auto simp: runtime_unregister_ok runtime_start_ok intro: calm_runtime_ok calm_calls)

lemma runtime_run_ok: "runtime_ok r \<Longrightarrow> runtime_ok (foldl runtime_step r calls)"
  by (induction calls arbitrary: r) (simp_all add: runtime_step_ok)

lemma new_runtime_ok: "runtime_ok new_runtime"
  by (simp add: runtime_ok_def new_runtime_def empty_registry_def registry_ok_def)

section \<open>The signals of a dispatch\<close>

definition signals_of :: "strategy_env \<Rightarrow> strategy_event \<Rightarrow> 's runtime \<Rightarrow> uuid \<Rightarrow> strategy_signal list" where
  "signals_of env ev r sid =
     (case insts r sid of
        None \<Rightarrow> []
      | Some t \<Rightarrow>
          (case fst (instance_event (sve_py env) ev t zero_metrics) of
             Inl _ \<Rightarrow> []
           | Inr ss \<Rightarrow> map (enrich_signal (map_of (srt_runs r) (id_strategy_id (sti_identity t))) (sti_identity t) (event_time ev)) ss))"

definition to_consumers :: "nat list \<Rightarrow> strategy_signal list \<Rightarrow> (nat \<times> strategy_signal) list" where
  "to_consumers cs es = concat (map (\<lambda>e. map (\<lambda>c. (c, e)) cs) es)"

lemma to_consumers_append: "to_consumers cs (es @ fs) = to_consumers cs es @ to_consumers cs fs"
  by (simp add: to_consumers_def)

lemma instance_event_identity: "sti_definition (fst (snd (instance_event py ev t m))) = sti_definition t"
  using instance_event_evolves [of t py ev m] by (simp add: evolves_def)

lemma collect_completed_signals:
  "fst (collect_completed env ev (acc, r) sid) = acc @ signals_of env ev r sid \<and>
   srt_delivered (snd (collect_completed env ev (acc, r) sid)) = srt_delivered r @ to_consumers (srt_consumers r) (signals_of env ev r sid)"
proof (cases "insts r sid")
  case (Some t)
  obtain res tm where ie: "instance_event (sve_py env) ev t (srt_metrics r) = (res, tm)" by (rule prod.exhaust)
  have res: "fst (instance_event (sve_py env) ev t zero_metrics) = res"
    using instance_event_metrics(1) [of "sve_py env" ev t "srt_metrics r" zero_metrics] ie by simp
  have ident: "sti_definition (fst tm) = sti_definition t"
    using instance_event_identity [of "sve_py env" ev t "srt_metrics r"] ie by simp
  show ?thesis
    using Some ie res ident
    by (cases res) (simp_all add: collect_completed_def signals_of_def to_consumers_def collect_signals_eq Let_def drop_event_def
        case_prod_beta)
qed (simp_all add: collect_completed_def signals_of_def to_consumers_def)

lemma enrich_same_run:
  assumes "calm r r'"
  shows "enrich_signal (map_of (srt_runs r') k) i t s = enrich_signal (map_of (srt_runs r) k) i t s"
proof -
  have "rel_option same_run (map_of (srt_runs r) k) (map_of (srt_runs r') k)" using assms by (simp add: calm_def)
  then have "map_option (uuid_str \<circ> sru_run_id) (map_of (srt_runs r') k) = map_option (uuid_str \<circ> sru_run_id) (map_of (srt_runs r) k)"
    by (cases "map_of (srt_runs r) k") (auto simp: option_rel_Some1 same_run_def)
  then show ?thesis by (simp add: enrich_signal_def)
qed

lemma signals_of_kept:
  assumes "calm r r'" "insts r' sid = insts r sid"
  shows "signals_of env ev r' sid = signals_of env ev r sid"
  using assms(2) enrich_same_run [OF assms(1)] by (simp add: signals_of_def split: option.split sum.split)

lemma foldl_collect_signals:
  assumes "distinct sids"
  shows "fst (foldl (collect_completed env ev) (acc, r) sids) = acc @ concat (map (signals_of env ev r) sids) \<and>
    srt_delivered (snd (foldl (collect_completed env ev) (acc, r) sids)) =
      srt_delivered r @ to_consumers (srt_consumers r) (concat (map (signals_of env ev r) sids))"
  using assms
proof (induction sids arbitrary: acc r)
  case (Cons sid sids)
  obtain acc' r' where st: "collect_completed env ev (acc, r) sid = (acc', r')" by (rule prod.exhaust)
  have "calm r r'" using calm_collect_completed [of "(acc, r)" env ev sid] st by simp
  moreover have "insts r' k = insts r k" if "k \<in> set sids" for k
    using collect_completed_insts [of env ev acc r sid] st that Cons.prems by auto
  ultimately have "map (signals_of env ev r') sids = map (signals_of env ev r) sids" "srt_consumers r' = srt_consumers r"
    by (auto intro: signals_of_kept simp: calm_def)
  then show ?case
    using Cons st collect_completed_signals [of env ev acc r sid] by (simp add: to_consumers_append cong: map_cong)
qed (simp add: to_consumers_def)

lemma quiet_steps_delivered:
  "srt_delivered (finish_late env ev r sid) = srt_delivered r" "srt_delivered (time_out env r sid) = srt_delivered r"
  by (simp_all add: finish_late_def time_out_def drop_event_def case_prod_beta split: option.split)

lemma foldl_keeps: "(\<And>r x. h (f r x) = h r) \<Longrightarrow> h (foldl f r xs) = h r"
  by (induction xs arbitrary: r) simp_all

lemma run_futures_signals:
  "fst (run_futures env p ev matched r) = concat (map (signals_of env ev r) (yielded p matched)) \<and>
   srt_delivered (snd (run_futures env p ev matched r)) =
     srt_delivered r @ to_consumers (srt_consumers r) (fst (run_futures env p ev matched r))"
proof -
  have "distinct (yielded p matched)" by (simp add: yielded_def)
  then show ?thesis
    using foldl_collect_signals [of "yielded p matched" env ev "[]" r]
    by (simp add: run_futures_def case_prod_beta Let_def foldl_keeps [of srt_delivered] quiet_steps_delivered)
qed

text \<open>An accepted signal has passed every check.\<close>

lemma screen_signals_ok:
  "s \<in> set (fst (snd (screen_signals py i al t ss seen m))) \<Longrightarrow> s \<in> set ss \<and> validate_emitted s i al t = Inr ''ok''"
proof (induction ss arbitrary: seen m)
  case (Cons x xs)
  show ?case
    using Cons.prems Cons.IH
    by (auto simp: Let_def case_prod_beta split: sum.splits if_splits)
qed simp

lemma instance_event_signals:
  assumes "fst (instance_event py ev t m) = Inr ss" "s \<in> set ss"
  shows "sti_state t = RS_RUNNING \<and> validate_emitted s (sti_identity t) (allowed_instruments (sti_definition t)) (event_time ev) = Inr ''ok''"
proof -
  have "s \<in> set ss' \<Longrightarrow> ss' = fst (snd (screen_signals py i al x xs seen m')) \<Longrightarrow> validate_emitted s i al x = Inr ''ok''"
    for ss' i al x xs seen m' using screen_signals_ok by blast
  then show ?thesis
    using assms by (fastforce simp: instance_event_def Let_def case_prod_beta split: if_splits option.splits)
qed

lemma validate_emitted_ok:
  "validate_emitted s i al t = Inr ''ok'' \<longleftrightarrow>
     ss_strategy_id s = id_strategy_id i \<and> ss_strategy_version s = id_version i \<and> ss_strategy_config_hash s = id_config_hash i \<and>
     0 \<le> ss_confidence s \<and> ss_confidence s \<le> 1 \<and> \<not> blank (ss_reason s) \<and>
     (case al of None \<Rightarrow> True | Some is \<Rightarrow> ss_instrument_id s \<in> set is) \<and>
     tz_aware (ss_timestamp s) = tz_aware t \<and> \<bar>instant (ss_timestamp s) - instant t\<bar> \<le> usec 5"
  by (auto simp: validate_emitted_def datetime_diff_def signal_future_skew_def signal_max_age_def split: option.split)

section \<open>Main results\<close>

text \<open>C27.  A runtime that starts empty is well-formed after any sequence of calls.  Every instance belongs to the strategy it is filed
  under, the dispatcher's definition of it is the one it was built from (up to being enabled), it has a run record with the same version and
  hashes, and the mode of the run is BACKTEST or PAPER, so no strategy ever runs LIVE.\<close>

theorem runtime_well_formed: "runtime_ok (foldl runtime_step new_runtime calls)"
  by (rule runtime_run_ok [OF new_runtime_ok])

text \<open>The calls that replace or remove the instance of a strategy.\<close>

fun replaces :: "uuid \<Rightarrow> 's runtime_call \<Rightarrow> bool" where
  "replaces sid (Call_Start env k mode c) = (k = sid)"
| "replaces sid (Call_Unregister k) = (k = sid)"
| "replaces sid _ = False"

lemma start_other:
  assumes "runtime_ok r" "k \<noteq> sid"
  shows "insts (snd (runtime_start env r k mode c)) sid = insts r sid"
proof (cases rule: runtime_start_cases [of env r k mode c])
  case (started m d t mx)
  have "id_strategy_id (df_identity d) = k" using assms(1) started(3) by (simp add: runtime_ok_def registry_ok_def)
  then show ?thesis using started assms(2) by (simp add: dispatcher_register_def Let_def)
qed simp

lemma runtime_step_evolves:
  assumes "runtime_ok r" "\<not> replaces sid c" "insts r sid = Some t"
  shows "\<exists>t'. insts (runtime_step r c) sid = Some t' \<and> evolves t t'"
proof -
  consider "calm r (runtime_step r c)" | "insts (runtime_step r c) sid = insts r sid"
    using assms(1,2)
    by (cases c) (auto simp: calm_calls start_other runtime_register_def runtime_unregister_def add_signal_consumer_def
        dispatcher_unregister_def split: sum.split)
  then show ?thesis
  proof cases
    case 1
    then have "rel_option evolves (insts r sid) (insts (runtime_step r c) sid)" by (simp add: calm_def)
    then show ?thesis using assms(3) by (simp add: option_rel_Some1)
  qed (use assms(3) in auto)
qed

text \<open>As long as a strategy is neither started again nor unregistered, its instance moves only along the transition table,
  through any calls of the runtime: stopped and failed strategies stay so.\<close>

theorem strategy_follows_table:
  assumes "runtime_ok r" "insts r sid = Some t" "\<not> list_ex (replaces sid) calls"
  shows "\<exists>t'. insts (foldl runtime_step r calls) sid = Some t' \<and> evolves t t'"
  using assms
proof (induction calls arbitrary: r t)
  case (Cons c calls)
  obtain t1 where "insts (runtime_step r c) sid = Some t1" "evolves t t1"
    using runtime_step_evolves [of r sid c t] Cons.prems by auto
  then show ?case using Cons.IH [of "runtime_step r c" t1] Cons.prems by (auto intro: runtime_step_ok evolves_trans)
qed auto

lemma signals_of_elim:
  assumes "e \<in> set (signals_of env ev r sid)"
  obtains t ss s where "insts r sid = Some t" "fst (instance_event (sve_py env) ev t zero_metrics) = Inr ss" "s \<in> set ss"
    "e = enrich_signal (map_of (srt_runs r) (id_strategy_id (sti_identity t))) (sti_identity t) (event_time ev) s"
proof (cases "insts r sid")
  case (Some t)
  then show ?thesis using assms that [of t]
    by (cases "fst (instance_event (sve_py env) ev t zero_metrics)") (auto simp: signals_of_def)
qed (use assms in \<open>simp add: signals_of_def\<close>)

lemma signals_of_metrics [simp]: "signals_of env ev (r\<lparr>srt_metrics := m\<rparr>) = signals_of env ev r"
  by (auto simp: signals_of_def fun_eq_iff split: option.split sum.split)

lemma runtime_event_result:
  "runtime_event env p r ev = (Inr accepted, r') \<Longrightarrow>
   accepted = concat (map (signals_of env ev r) (yielded p (match_event (srt_dispatcher r) ev))) \<and>
   srt_delivered r' = srt_delivered r @ to_consumers (srt_consumers r) accepted"
  by (auto simp: runtime_event_def Let_def case_prod_beta yielded_def to_consumers_def run_futures_signals
      split: if_splits option.splits)

lemma runtime_event_returns:
  "tz_aware (sve_now env) = tz_aware (event_time ev) \<Longrightarrow> \<exists>accepted. fst (runtime_event env p r ev) = Inr accepted"
  by (simp add: runtime_event_def Let_def case_prod_beta datetime_diff_def)







text \<open>Without an idle worker the strategies are not independent: when callbacks that never return hold every worker, the next event
  fails every strategy it addresses, whose callback is not even started.\<close>

lemma starved_strategy_fails:
  assumes "runtime_ok r" "tz_aware (sve_now env) = tz_aware (event_time ev)" "sid \<in> set (match_event (srt_dispatcher r) ev)"
  shows "insts (snd (runtime_event env (pool_run timeout check (replicate n None) duration (match_event (srt_dispatcher r) ev)) r ev)) sid =
    map_option hung_instance (insts r sid)"
proof -
  have free: "free_at (replicate n None) = None" by (induction n) simp_all
  have "pool_ends (replicate n None) duration sids = map (\<lambda>sid. (sid, None)) sids" for sids
    by (induction sids) (simp_all add: free)
  then show ?thesis using assms
    by (simp add: runtime_event_insts runtime_ok_def settled_instance_def pool_run_def Let_def ended_by_def)
qed

text \<open>The signals a dispatch returns are those of the strategies that finished in time, in the order in which they
  finished, and every one of them goes to every consumer, in order.\<close>

theorem dispatch_signals:
  assumes "tz_aware (sve_now env) = tz_aware (event_time ev)"
  shows "\<exists>accepted. fst (runtime_event env p r ev) = Inr accepted \<and>
    accepted = concat (map (signals_of env ev r) (yielded p (match_event (srt_dispatcher r) ev))) \<and>
    srt_delivered (snd (runtime_event env p r ev)) = srt_delivered r @ to_consumers (srt_consumers r) accepted"
  using runtime_event_returns [OF assms, of p r] runtime_event_result [of env p r ev] by (metis prod.collapse)

text \<open>What the consumers of a signal may rely on.\<close>

definition traceable :: "'s runtime \<Rightarrow> strategy_event \<Rightarrow> strategy_signal \<Rightarrow> bool" where
  "traceable r ev e \<longleftrightarrow>
     (\<exists>d x. map_of (ds_definitions (srt_dispatcher r)) (ss_strategy_id e) = Some d \<and> map_of (srt_runs r) (ss_strategy_id e) = Some x \<and>
        instance_state r (ss_strategy_id e) = Some RS_RUNNING \<and> df_enabled d \<and>
        ss_strategy_version e = id_version (df_identity d) \<and> ss_strategy_config_hash e = id_config_hash (df_identity d) \<and>
        (df_instruments d = [] \<or> ss_instrument_id e \<in> set (df_instruments d)) \<and>
        \<bar>instant (ss_timestamp e) - instant (event_time ev)\<bar> \<le> usec 5 \<and>
        ss_metadata e ''strategy_code_hash'' = Some (opt_str (id_code_hash (df_identity d))) \<and>
        ss_metadata e ''strategy_run_id'' = Some (PStr (uuid_str (sru_run_id x))) \<and>
        ss_metadata e ''event_timestamp'' = Some (PStr (isoformat (event_time ev))))"

lemma runtime_event_source:
  assumes "runtime_ok r" "fst (runtime_event env p r ev) = Inr accepted" "e \<in> set accepted"
  obtains sid t x s b where "strategy_matches (srt_dispatcher r) sid (event_instrument ev) (event_timeframe ev)"
    "insts r sid = Some t" "sti_state t = RS_RUNNING" "map_of (srt_runs r) sid = Some x" "id_strategy_id (sti_identity t) = sid"
    "map_of (ds_definitions (srt_dispatcher r)) sid = Some ((sti_definition t)\<lparr>df_enabled := b\<rparr>)"
    "e = enrich_signal (Some x) (sti_identity t) (event_time ev) s"
    "validate_emitted s (sti_identity t) (allowed_instruments (sti_definition t)) (event_time ev) = Inr ''ok''"
proof -
  obtain sid where sid: "sid \<in> set (match_event (srt_dispatcher r) ev)" "e \<in> set (signals_of env ev r sid)"
    using runtime_event_result [of env p r ev accepted] assms(2,3) by (cases "runtime_event env p r ev") (auto simp: yielded_def)
  then obtain t ss s where t: "insts r sid = Some t" "fst (instance_event (sve_py env) ev t zero_metrics) = Inr ss" "s \<in> set ss"
      "e = enrich_signal (map_of (srt_runs r) (id_strategy_id (sti_identity t))) (sti_identity t) (event_time ev) s"
    by (auto elim: signals_of_elim)
  have "instance_ok r sid t" using assms(1) t(1) by (simp add: runtime_ok_def)
  then obtain x b where "map_of (srt_runs r) sid = Some x" "id_strategy_id (sti_identity t) = sid"
      "map_of (ds_definitions (srt_dispatcher r)) sid = Some ((sti_definition t)\<lparr>df_enabled := b\<rparr>)"
    by (auto simp: instance_ok_def)
  then show ?thesis
    using that [of sid t x b s] sid(1) t instance_event_signals [OF t(2,3)] by (simp add: match_event_iff)
qed

text \<open>Every signal a dispatch accepts is traceable: it carries the identity of an enabled, running strategy of the
  dispatcher, an instrument that strategy subscribed to, a time within five seconds of the event, and, whatever the
  strategy wrote there, the code hash, the run and the event time in its metadata.\<close>

theorem accepted_signals_traceable:
  assumes "runtime_ok r" "fst (runtime_event env p r ev) = Inr accepted" "e \<in> set accepted"
  shows "traceable r ev e"
proof -
  obtain sid t x s b where src: "strategy_matches (srt_dispatcher r) sid (event_instrument ev) (event_timeframe ev)"
    "insts r sid = Some t" "sti_state t = RS_RUNNING" "map_of (srt_runs r) sid = Some x" "id_strategy_id (sti_identity t) = sid"
    "map_of (ds_definitions (srt_dispatcher r)) sid = Some ((sti_definition t)\<lparr>df_enabled := b\<rparr>)"
    "e = enrich_signal (Some x) (sti_identity t) (event_time ev) s"
    "validate_emitted s (sti_identity t) (allowed_instruments (sti_definition t)) (event_time ev) = Inr ''ok''"
    using assms by (rule runtime_event_source)
  then have "b" by (simp add: strategy_matches_def)
  with src show ?thesis
    by (auto simp: traceable_def enrich_signal_def validate_emitted_ok instance_state_def allowed_instruments_def opt_str_def split: if_splits)
qed

section \<open>Duplicate protection of an instance\<close>

text \<open>While the cache is not full, a key is a duplicate exactly when it has been seen.\<close>

lemma is_duplicate_spec:
  assumes "od_ok seen" "is_duplicate py s t seen = (dup, seen')" "dup \<or> length seen < dedup_maxsize"
  shows "od_ok seen' \<and> dup = (signal_dedup_key py s t \<in> keys_of seen) \<and> keys_of seen' = insert (signal_dedup_key py s t) (keys_of seen)"
  using seen_before_spec [OF assms(1) assms(2) [unfolded is_duplicate_def]] assms(3) by simp

lemma screen_signals_keys:
  assumes "od_ok seen" "screen_signals py i al t ss seen m = (err, acc, seen', m')" "length seen + length acc \<le> dedup_maxsize"
  shows "od_ok seen' \<and> distinct (map (\<lambda>s. signal_dedup_key py s t) acc) \<and>
    keys_of seen \<inter> (\<lambda>s. signal_dedup_key py s t) ` set acc = {} \<and>
    keys_of seen' = keys_of seen \<union> (\<lambda>s. signal_dedup_key py s t) ` set acc"
  using assms
proof (induction ss arbitrary: seen m acc)
  case (Cons s ss)
  show ?case
  proof (cases "validate_emitted s i al t = Inr ''ok''")
    case True
    let ?k = "signal_dedup_key py s t"
    obtain dup seen1 where d: "is_duplicate py s t seen = (dup, seen1)" by (rule prod.exhaust)
    show ?thesis
    proof (cases dup)
      case True
      have spec: "od_ok seen1" "keys_of seen1 = keys_of seen"
        using is_duplicate_spec [OF Cons.prems(1) d] True by auto
      then have "length seen1 = length seen" using length_keys_of Cons.prems(1) by metis
      then show ?thesis
        using Cons.IH [OF spec(1), of "m\<lparr>smx_duplicate := smx_duplicate m + 1\<rparr>" acc] Cons.prems d True spec
          \<open>validate_emitted s i al t = Inr ''ok''\<close> by simp
    next
      case False
      obtain acc1 where acc: "acc = s # acc1"
          "screen_signals py i al t ss seen1 (m\<lparr>smx_generated := smx_generated m + 1\<rparr>) = (err, acc1, seen', m')"
        using Cons.prems(2) d False \<open>validate_emitted s i al t = Inr ''ok''\<close> by (auto split: prod.splits)
      have spec: "od_ok seen1" "?k \<notin> keys_of seen" "keys_of seen1 = insert ?k (keys_of seen)"
        using is_duplicate_spec [OF Cons.prems(1) d] False Cons.prems(3) acc(1) by auto
      then have "length seen1 = Suc (length seen)"
        using length_keys_of [OF spec(1)] length_keys_of [OF Cons.prems(1)] by simp
      then show ?thesis using Cons.IH [OF spec(1) acc(2)] Cons.prems(3) acc(1) spec by auto
    qed
  next
    case False
    then show ?thesis using Cons.IH [OF Cons.prems(1)] Cons.prems
      by (cases "validate_emitted s i al t") (auto split: if_splits)
  qed
qed auto

text \<open>The keys of the signals an instance accepts over a sequence of events, as the runtime delivers them.\<close>

fun accepted_keys :: "py_env \<Rightarrow> 's strategy_instance \<Rightarrow> strategy_event list \<Rightarrow> string list" where
  "accepted_keys py t [] = []"
| "accepted_keys py t (ev # evs) =
     (case fst (instance_event py ev t zero_metrics) of
        Inl _ \<Rightarrow> []
      | Inr ss \<Rightarrow> map (\<lambda>s. signal_dedup_key py s (event_time ev)) ss) @
     accepted_keys py (completed_instance py ev t) evs"

lemma completed_halts:
  "fst (instance_event py ev t zero_metrics) = Inl msg \<Longrightarrow> sti_state (completed_instance py ev t) \<in> set terminal_run_states"
  using fail_instance_terminal by (auto simp: completed_instance_def split: prod.split)

lemma completed_accepts:
  assumes "fst (instance_event py ev t zero_metrics) = Inr ss"
  obtains (raised) "ss = []" "sti_state (completed_instance py ev t) \<in> set terminal_run_states"
  | (screened) i al xs m m' where "screen_signals py i al (event_time ev) xs (sti_seen t) m = (None, ss, sti_seen (completed_instance py ev t), m')"
proof (cases "fst (im_on_event (sti_strategy t) ev (sti_context t))")
  case None
  show ?thesis
    using assms None screened
    by (auto simp: instance_event_def completed_instance_def Let_def split: if_splits prod.splits option.splits)
next
  case (Some msg)
  show ?thesis
    using assms Some raised fail_instance_terminal
    by (auto simp: instance_event_def completed_instance_def Let_def case_prod_beta split: if_splits)
qed

lemma accepted_keys_halted: "sti_state t \<noteq> RS_RUNNING \<Longrightarrow> accepted_keys py t evs = []"
proof (induction evs arbitrary: t)
  case (Cons ev evs)
  then have "fst (instance_event py ev t zero_metrics) = Inl (''callback not allowed in state '' @ run_state_value (sti_state t))"
    by (simp add: instance_event_def)
  then show ?case using completed_halts Cons.IH by (fastforce simp: terminal_run_states_def)
qed simp

lemma accepted_keys_fresh:
  assumes "od_ok (sti_seen t)" "length (sti_seen t) + length (accepted_keys py t evs) \<le> dedup_maxsize"
  shows "distinct (accepted_keys py t evs) \<and> keys_of (sti_seen t) \<inter> set (accepted_keys py t evs) = {}"
  using assms
proof (induction evs arbitrary: t)
  case (Cons ev evs)
  let ?t = "completed_instance py ev t"
  have halted: "accepted_keys py ?t evs = []" if "sti_state ?t \<in> set terminal_run_states"
    using accepted_keys_halted [of ?t] that by (auto simp: terminal_run_states_def)
  show ?case
  proof (cases "fst (instance_event py ev t zero_metrics)")
    case (Inl msg)
    then show ?thesis using halted [OF completed_halts] by simp
  next
    case (Inr ss)
    let ?ks = "map (\<lambda>s. signal_dedup_key py s (event_time ev)) ss"
    from Inr show ?thesis
    proof (cases rule: completed_accepts)
      case raised
      then show ?thesis using Inr halted by simp
    next
      case (screened i al xs m m')
      have spec: "od_ok (sti_seen ?t)" "distinct ?ks" "keys_of (sti_seen t) \<inter> set ?ks = {}" "keys_of (sti_seen ?t) = keys_of (sti_seen t) \<union> set ?ks"
        using screen_signals_keys [OF Cons.prems(1) screened] Cons.prems(2) Inr by auto
      have "length (sti_seen ?t) = length (sti_seen t) + length ss"
        using spec length_keys_of [OF spec(1)] length_keys_of [OF Cons.prems(1)] distinct_card [OF spec(2)]
        by (simp add: card_Un_disjoint)
      then show ?thesis using Cons.IH [OF spec(1)] Cons.prems(2) Inr spec by auto
    qed
  qed
qed simp

text \<open>A pause between the matching of an event and the callback is fatal: the callback refuses the state, and
  the runtime fails the instance for it.\<close>

lemma paused_event_fails: "sti_state t = RS_PAUSED \<Longrightarrow> sti_state (completed_instance py ev t) = RS_FAILED"
  by (simp add: completed_instance_def instance_event_def fail_instance_def terminal_run_states_def run_transition_def)

text \<open>C26.  An instance with an empty cache never accepts two signals with the same key (the same strategy, version,
  configuration, instrument and action, for the same event time), over any sequence of events in which it accepts at most
  100000 signals: a redelivered event brings no second signal.\<close>

theorem signals_accepted_once:
  assumes "sti_seen t = []" "length (accepted_keys py t evs) \<le> 100000"
  shows "distinct (accepted_keys py t evs)"
  using accepted_keys_fresh [of t py evs] assms by (simp add: dedup_maxsize_def)

section \<open>The signal engine accepts what the runtime publishes\<close>

lemma run_mode_allowed:
  assumes "runtime_ok r" "instance_ok r sid t" "map_of (srt_runs r) sid = Some x" "ss_strategy_id e = sid"
  shows "upper (run_mode r e) \<in> {''BACKTEST'', ''PAPER''}"
  using assms by (auto simp: instance_ok_def run_mode_def upper_def upper_char_def)

text \<open>C24.  A signal the runtime publishes passes the validation of a signal engine wired to it, in the mode of its run,
  provided the registry still has the strategy enabled as it was started, the text of an instant can be read back, and
  the event does not lie in the future of the engine's clock.\<close>

theorem published_signal_validates:
  assumes "runtime_ok r" "fst (runtime_event env p r ev) = Inr accepted" "e \<in> set accepted"
    and "map_of (rg_by_id (srt_registry r)) (ss_strategy_id e) = map_of (ds_definitions (srt_dispatcher r)) (ss_strategy_id e)"
    and "py_fromisoformat py (isoformat (event_time ev)) = Some (event_time ev)" "tz_aware (event_time ev)"
    and "tz_aware (clock 0)" "tz_aware (clock 1)" "instant (event_time ev) \<le> instant (clock 0)" "instant (event_time ev) \<le> instant (clock 1)"
  shows "\<exists>h. validate_signal py clock (new_validator (runtime_directory (srt_registry r))) e (run_mode r e) = Inr h"
proof -
  obtain sid t x s b where src: "strategy_matches (srt_dispatcher r) sid (event_instrument ev) (event_timeframe ev)"
    "insts r sid = Some t" "sti_state t = RS_RUNNING" "map_of (srt_runs r) sid = Some x" "id_strategy_id (sti_identity t) = sid"
    "map_of (ds_definitions (srt_dispatcher r)) sid = Some ((sti_definition t)\<lparr>df_enabled := b\<rparr>)"
    "e = enrich_signal (Some x) (sti_identity t) (event_time ev) s"
    "validate_emitted s (sti_identity t) (allowed_instruments (sti_definition t)) (event_time ev) = Inr ''ok''"
    using assms(1-3) by (rule runtime_event_source)
  have sid: "ss_strategy_id e = sid" using src(5,7,8) by (simp add: enrich_signal_def validate_emitted_ok)
  have ok: "instance_ok r sid t" using assms(1) src(2) by (simp add: runtime_ok_def)
  have mode: "upper (run_mode r e) \<in> {''BACKTEST'', ''PAPER''}"
    using run_mode_allowed [OF assms(1) ok src(4) sid] .
  have "b" using src by (simp add: strategy_matches_def)
  then have dir: "runtime_directory (srt_registry r) sid = Some \<lparr>sd_strategy_id = sid, sd_version = id_version (sti_identity t),
      sd_config_hash = id_config_hash (sti_identity t), sd_code_hash = id_code_hash (sti_identity t), sd_enabled = True,
      sd_instruments = allowed_instruments (sti_definition t)\<rparr>"
    using assms(4) src(5,6) sid by (simp add: runtime_directory_def registry_get_def allowed_instruments_def Let_def)
  have fields: "ss_strategy_version e = id_version (sti_identity t)" "ss_strategy_config_hash e = id_config_hash (sti_identity t)"
      "ss_confidence e = ss_confidence s" "ss_timestamp e = ss_timestamp s" "ss_instrument_id e = ss_instrument_id s"
      "ss_metadata e ''event_timestamp'' = Some (PStr (isoformat (event_time ev)))" "code_hash_from e = id_code_hash (sti_identity t)"
    using src(7,8) by (auto simp: enrich_signal_def validate_emitted_ok code_hash_from_def metadata_text_def opt_str_def split: option.split)
  have instrument: "case allowed_instruments (sti_definition t) of None \<Rightarrow> True | Some is \<Rightarrow> ss_instrument_id e \<in> set is"
    using src(8) fields(5) by (auto simp: validate_emitted_ok split: option.splits)
  have times: "\<not> instant (clock 0) + usec 5 < instant (ss_timestamp s)" "\<not> instant (clock 1) + usec 5 < instant (event_time ev)"
    using src(8) assms(9,10) by (auto simp: validate_emitted_ok usec_def)
  show ?thesis
    using mode dir fields instrument times assms(5-8) src(8) sid
    by (auto simp: validate_signal_def new_validator_def validate_emitted_ok not_future_def datetime_gt_def event_timestamp_def)
qed

section \<open>Witnesses\<close>

text \<open>A strategy that answers every event with the same signal, started in PAPER mode beside one consumer.\<close>

definition sample_strategy_py :: py_env where
  "sample_strategy_py = \<lparr>py_sha256 = (\<lambda>t. if t = [] then ''cfg'' else ''k''), py_digest = (\<lambda>_. ''h''),
     py_fromisoformat = (\<lambda>t. if t = isoformat (utc 5) then Some (utc 5) else None), py_json = (\<lambda>_. [])\<rparr>"

definition sample_strategy_env :: strategy_env where
  "sample_strategy_env = \<lparr>sve_py = sample_strategy_py, sve_now = utc 6, sve_uuid4 = 77\<rparr>"

definition sample_impl :: "unit strategy_impl" where
  "sample_impl = \<lparr>im_initialize = (\<lambda>c. (None, c)), im_on_start = (\<lambda>c. (None, c)), im_on_stop = (\<lambda>c. (None, c)),
     im_on_event = (\<lambda>ev c. case emit_signal sample_signal c of Inl _ \<Rightarrow> (Some ''refused'', c) | Inr c' \<Rightarrow> (None, c'))\<rparr>"

definition sample_strategy :: "unit strategy_definition" where
  "sample_strategy = \<lparr>df_identity = \<lparr>id_strategy_id = 22, id_code = ''c'', id_name = ''n'', id_version = ''1'', id_config_hash = ''cfg'',
       id_code_hash = None\<rparr>, df_factory = Inr (sample_impl, ()), df_enabled = True, df_instruments = [5], df_timeframes = [], df_config = []\<rparr>"

definition sample_runtime :: "unit runtime" where
  "sample_runtime = foldl runtime_step new_runtime
     [Call_Register sample_strategy, Call_Add_Consumer 1, Call_Start sample_strategy_env 22 ''PAPER'' None]"

definition sample_order_event :: strategy_event where
  "sample_order_event = Order_Event \<lparr>ou_order_id = 1, ou_instrument_id = 5, ou_status = ''FILLED'', ou_timestamp = utc 5\<rparr>"

definition sample_instance :: "unit strategy_instance" where
  "sample_instance = \<lparr>sti_definition = sample_strategy, sti_strategy = sample_impl, sti_state = RS_RUNNING, sti_initialized = True,
     sti_fail_reason = None, sti_seen = [], sti_context = \<lparr>cx_strategy_id = 22, cx_strategy_version = ''1'', cx_strategy_config_hash = ''cfg'',
       cx_config = [], cx_state = (), cx_emitted_signals = []\<rparr>\<rparr>"

definition sample_run_record :: run_record where
  "sample_run_record = new_run_record sample_strategy_env 22 sample_strategy MODE_PAPER RS_RUNNING"

lemmas sample_strategy_defs = sample_strategy_py_def sample_strategy_env_def sample_impl_def sample_strategy_def sample_instance_def

lemma sample_strategy_simps [simp]:
  "df_factory sample_strategy = Inr (sample_impl, ())" "id_strategy_id (df_identity sample_strategy) = 22" "df_enabled sample_strategy"
  "id_version (df_identity sample_strategy) = ''1''" "id_config_hash (df_identity sample_strategy) = ''cfg''" "id_code_hash (df_identity sample_strategy) = None"
  "df_instruments sample_strategy = [5]" "df_timeframes sample_strategy = []"
  "sve_py sample_strategy_env = sample_strategy_py" "sve_now sample_strategy_env = utc 6" "sve_uuid4 sample_strategy_env = 77"
  "im_initialize sample_impl c = (None, c)" "im_on_start sample_impl c = (None, c)" "im_on_stop sample_impl c = (None, c)"
  "sti_definition sample_instance = sample_strategy" "sti_strategy sample_instance = sample_impl" "sti_state sample_instance = RS_RUNNING"
  "sti_seen sample_instance = []" "event_time sample_order_event = utc 5" "event_instrument sample_order_event = 5"
  "event_timeframe sample_order_event = None"
  by (simp_all add: sample_strategy_defs sample_order_event_def)

lemma sample_runtime_eq:
  "sample_runtime = \<lparr>srt_registry = \<lparr>rg_by_id = [(22, sample_strategy)], rg_by_code = [(''c'', 22)]\<rparr>,
     srt_dispatcher = \<lparr>ds_instances = [(22, sample_instance)], ds_definitions = [(22, sample_strategy)]\<rparr>,
     srt_metrics = zero_metrics\<lparr>smx_started := 1\<rparr>, srt_runs = [(22, sample_run_record)], srt_consumers = [1], srt_delivered = []\<rparr>"
proof -
  have reg: "runtime_register new_runtime sample_strategy =
      (Inr (), new_runtime\<lparr>srt_registry := \<lparr>rg_by_id = [(22, sample_strategy)], rg_by_code = [(''c'', 22)]\<rparr>\<rparr>)"
    by (simp add: runtime_register_def registry_register_def new_runtime_def empty_registry_def sample_strategy_def od_set_def)
  have new: "new_instance sample_strategy_py sample_strategy (sample_impl, ()) None =
      Inr (sample_instance\<lparr>sti_state := RS_CREATED, sti_initialized := False\<rparr>)"
    by (simp add: new_instance_def config_hash_of_def mk_strategy_config_def validate_config_def mk_strategy_context_def
        sample_strategy_defs blank_Cons is_space_def Let_def)
  show ?thesis
    by (simp add: sample_runtime_def reg add_signal_consumer_def runtime_start_def prepare_start_def parse_trading_mode_def
        allowed_run_modes_def registry_get_def new instance_initialize_def instance_start_def instance_move_def run_callback_def
        run_transition_def sample_run_record_def dispatcher_register_def od_set_def Let_def)
      (simp add: sample_instance_def zero_metrics_def new_runtime_def)
qed

lemma sample_runtime_ok: "runtime_ok sample_runtime"
  unfolding sample_runtime_def by (rule runtime_run_ok [OF new_runtime_ok])

text \<open>The first delivery of the event brings the signal, the second brings nothing.\<close>

lemma sample_signal_ok:
  "validate_emitted sample_signal (df_identity sample_strategy) (Some [5]) (utc 5) = Inr ''ok''"
  by (simp add: validate_emitted_ok half_in_unit usec_def sample_signal_def blank_Cons is_space_def)

lemma sample_key: "signal_dedup_key sample_strategy_py sample_signal t = ''k''"
  by (simp add: signal_dedup_key_def sample_strategy_py_def signal_identity_text_def)

definition sample_after :: "(string, unit) odict \<Rightarrow> strategy_signal list \<Rightarrow> unit strategy_instance" where
  "sample_after seen emitted = sample_instance\<lparr>sti_seen := seen,
     sti_context := (sti_context sample_instance)\<lparr>cx_emitted_signals := emitted\<rparr>\<rparr>"

lemma sample_after_definition [simp]: "sti_definition (sample_after seen emitted) = sample_strategy"
  by (simp add: sample_after_def)

lemma sample_emits:
  "im_on_event sample_impl ev ((sti_context sample_instance)\<lparr>cx_emitted_signals := emitted\<rparr>) =
     (None, (sti_context sample_instance)\<lparr>cx_emitted_signals := emitted @ [sample_signal]\<rparr>)"
  by (simp add: sample_impl_def sample_instance_def emit_signal_def)

lemma sample_screen:
  "fst (screen_signals sample_strategy_py (df_identity sample_strategy) (Some [5]) (utc 5) [sample_signal] [] m) = None"
  "fst (snd (screen_signals sample_strategy_py (df_identity sample_strategy) (Some [5]) (utc 5) [sample_signal] [] m)) = [sample_signal]"
  "fst (snd (snd (screen_signals sample_strategy_py (df_identity sample_strategy) (Some [5]) (utc 5) [sample_signal] [] m))) = [(''k'', ())]"
  "fst (screen_signals sample_strategy_py (df_identity sample_strategy) (Some [5]) (utc 5) [sample_signal] [(''k'', ())] m) = None"
  "fst (snd (screen_signals sample_strategy_py (df_identity sample_strategy) (Some [5]) (utc 5) [sample_signal] [(''k'', ())] m)) = []"
  by (simp_all add: sample_signal_ok is_duplicate_def seen_before_def sample_key od_set_def dedup_maxsize_def Let_def)

lemma sample_instance_after: "sample_instance = sample_after [] []"
  by (simp add: sample_after_def sample_instance_def)

lemma sample_event_once:
  "fst (instance_event sample_strategy_py sample_order_event (sample_after [] []) zero_metrics) = Inr [sample_signal]"
  "completed_instance sample_strategy_py sample_order_event (sample_after [] []) = sample_after [(''k'', ())] [sample_signal]"
  "fst (instance_event sample_strategy_py sample_order_event (sample_after [(''k'', ())] [sample_signal]) zero_metrics) = Inr []"
  by (simp_all add: completed_instance_def instance_event_def sample_after_def Let_def case_prod_beta sample_emits allowed_instruments_def
      sample_screen del: screen_signals.simps)

definition all_done :: pool_outcome where
  "all_done = \<lparr>po_completed = [22], po_late = []\<rparr>"

lemma sample_matches: "strategy_matches (srt_dispatcher sample_runtime) 22 5 None"
  by (simp add: strategy_matches_def sample_runtime_eq)


definition sample_published :: strategy_signal where
  "sample_published = enrich_signal (Some sample_run_record) (df_identity sample_strategy) (utc 5) sample_signal"

lemma sample_dispatch:
  "fst (runtime_event sample_strategy_env all_done sample_runtime sample_order_event) = Inr [sample_published]"
proof -
  have "insts sample_runtime 22 = Some sample_instance" by (simp add: sample_runtime_eq)
  moreover have "match_event (srt_dispatcher sample_runtime) sample_order_event = [22]"
    using sample_matches by (simp add: match_event_def) (simp add: sample_runtime_eq)
  moreover obtain accepted where "fst (runtime_event sample_strategy_env all_done sample_runtime sample_order_event) = Inr accepted"
    using runtime_event_returns [of sample_strategy_env sample_order_event all_done sample_runtime] by auto
  ultimately show ?thesis
    using runtime_event_result [of sample_strategy_env all_done sample_runtime sample_order_event accepted]
    by (cases "runtime_event sample_strategy_env all_done sample_runtime sample_order_event")
      (simp add: yielded_def all_done_def signals_of_def sample_instance_after sample_event_once sample_published_def sample_runtime_eq)
qed

theorem published_signal_validates_witness:
  "\<exists>h. validate_signal sample_strategy_py (\<lambda>_. utc 6) (new_validator (runtime_directory (srt_registry sample_runtime)))
     sample_published (run_mode sample_runtime sample_published) = Inr h"
proof -
  have id: "ss_strategy_id sample_published = 22" by (simp add: sample_published_def enrich_signal_def)
  show ?thesis
    using published_signal_validates [OF sample_runtime_ok sample_dispatch, of sample_published sample_strategy_py "\<lambda>_. utc 6"] id
    by (simp add: sample_strategy_py_def sample_runtime_eq)
qed

theorem signals_accepted_once_witness:
  "distinct (accepted_keys sample_strategy_py sample_instance [sample_order_event, sample_order_event]) \<and>
   accepted_keys sample_strategy_py sample_instance [sample_order_event, sample_order_event] = [''k'']"
proof -
  have "accepted_keys sample_strategy_py sample_instance [sample_order_event, sample_order_event] = [''k'']"
    by (simp add: sample_instance_after sample_event_once sample_key)
  then show ?thesis
    using signals_accepted_once [of sample_instance sample_strategy_py "[sample_order_event, sample_order_event]"] by simp
qed

end
