(* ===== verification/Sma_Strategy.thy ===== *)
theory Sma_Strategy
  imports Strategy_Engine
begin

text \<open>
  The moving averages of \<^verbatim>\<open>packages/indicators/alpha_algo_indicators/moving_average.py\<close> and the strategy built on them,
  \<^verbatim>\<open>services/strategy_engine/alpha_algo_strategy_engine/strategies/sma_cross.py\<close>, as a strategy of the runtime.

  The private state is the list of closes under the key of the context's dictionary, if it is there.

  The main results: both averages have one value per input, undefined exactly before the first full window; and the strategy, with
  positive periods, never fails on a candle: it stays silent for the first closes and then answers every candle with
  exactly one signal, which passes the validation of its instance.
\<close>

section \<open>Moving averages\<close>

datatype indicator_error = PeriodError | AverageError

definition validate_period :: "int \<Rightarrow> (indicator_error, unit) result" where
  "validate_period period = guard (0 < period) PeriodError"

definition window_average :: "nat \<Rightarrow> decimal list \<Rightarrow> nat \<Rightarrow> (indicator_error, decimal) result" where
  "window_average period series index =
     of_opt AverageError (ddiv (dsum (take period (drop (index + 1 - period) series))) (dec_of_int (int period)))"

definition simple_moving_average :: "decimal list \<Rightarrow> int \<Rightarrow> (indicator_error, decimal option list) result" where
  "simple_moving_average series period =
     rbind (validate_period period) (\<lambda>_.
     rmap (\<lambda>index. if int index + 1 < period then Inr None else rbind (window_average (nat period) series index) (\<lambda>a. Inr (Some a)))
       [0..<length series])"

text \<open>The loop of the exponential average over the indices, with the previous value.\<close>

fun ema_loop :: "nat \<Rightarrow> decimal \<Rightarrow> decimal list \<Rightarrow> decimal option \<Rightarrow> nat list \<Rightarrow> (indicator_error, decimal option list) result" where
  "ema_loop period multiplier series previous [] = Inr []"
| "ema_loop period multiplier series previous (index # indices) =
     (if index + 1 < period then rbind (ema_loop period multiplier series previous indices) (\<lambda>rs. Inr (None # rs))
      else
        rbind (case previous of
                 None \<Rightarrow> window_average period series index
               | Some p \<Rightarrow> Inr ((series ! index - p) * multiplier + p)) (\<lambda>v.
        rbind (ema_loop period multiplier series (Some v) indices) (\<lambda>rs. Inr (Some v # rs))))"

definition exponential_moving_average :: "decimal list \<Rightarrow> int \<Rightarrow> (indicator_error, decimal option list) result" where
  "exponential_moving_average series period =
     rbind (validate_period period) (\<lambda>_.
     rbind (of_opt AverageError (ddiv (dec_of_int 2) (dec_of_int (period + 1)))) (\<lambda>multiplier.
     ema_loop (nat period) multiplier series None [0..<length series]))"

section \<open>The crossover strategy\<close>

type_synonym sma_state = "decimal list option"

text \<open>\<^verbatim>\<open>int(value)\<close> of a configuration value; \<open>None\<close> is the exception.\<close>

definition config_int :: "pyval \<Rightarrow> int option" where
  "config_int v = (case v of PInt n \<Rightarrow> Some n | PStr s \<Rightarrow> signed_parse s | PDec d \<Rightarrow> Some (dec_int d) | _ \<Rightarrow> None)"

definition config_period :: "payload \<Rightarrow> string \<Rightarrow> int \<Rightarrow> int option" where
  "config_period config key usual = (case map_of config key of None \<Rightarrow> Some usual | Some v \<Rightarrow> config_int v)"

definition last_average :: "decimal list \<Rightarrow> int \<Rightarrow> (indicator_error, decimal option) result" where
  "last_average series period = rbind (simple_moving_average series period) (\<lambda>rs. if rs = [] then Inl AverageError else Inr (last rs))"

definition crossover :: "decimal option \<Rightarrow> decimal option \<Rightarrow> decimal option \<Rightarrow> decimal option \<Rightarrow> signal_action" where
  "crossover fast_now slow_now fast_prev slow_prev =
     (case (fast_now, slow_now) of
        (Some f, Some s) \<Rightarrow>
          if s < f \<and> (case (fast_prev, slow_prev) of (Some fp, Some sp) \<Rightarrow> fp \<le> sp | _ \<Rightarrow> True) then ACT_BUY
          else if f < s \<and> (case (fast_prev, slow_prev) of (Some fp, Some sp) \<Rightarrow> sp \<le> fp | _ \<Rightarrow> True) then ACT_SELL
          else ACT_HOLD
      | _ \<Rightarrow> ACT_HOLD)"

definition sma_decision :: "decimal list \<Rightarrow> int \<Rightarrow> int \<Rightarrow> (indicator_error, signal_action) result" where
  "sma_decision closes fast slow =
     rbind (last_average closes fast) (\<lambda>fast_now.
     rbind (last_average closes slow) (\<lambda>slow_now.
     rbind (last_average (butlast closes) fast) (\<lambda>fast_prev.
     rbind (last_average (butlast closes) slow) (\<lambda>slow_prev.
     Inr (crossover fast_now slow_now fast_prev slow_prev)))))"

definition sma_signal :: "uuid \<Rightarrow> sma_state strategy_context \<Rightarrow> market_candle \<Rightarrow> signal_action \<Rightarrow> int \<Rightarrow> int \<Rightarrow> strategy_signal" where
  "sma_signal fresh_id c k action fast slow =
     \<lparr>ss_signal_id = fresh_id, ss_strategy_id = cx_strategy_id c, ss_strategy_version = cx_strategy_version c,
      ss_strategy_config_hash = cx_strategy_config_hash c, ss_instrument_id = cd_instrument_id k, ss_action = action,
      ss_timestamp = cd_candle_start k, ss_confidence = Dec 8 (-1), ss_reason = ''SMA '' @ int_str fast @ ''/'' @ int_str slow @ '' crossover'',
      ss_metadata = Map.empty\<rparr>"

fun indicator_message :: "indicator_error \<Rightarrow> string" where
  "indicator_message PeriodError = ''period must be positive''"
| "indicator_message AverageError = ''list index out of range''"

text \<open>\<open>fresh\<close> gives the random identifier of the signal of a candle.\<close>

definition sma_on_candle :: "(market_candle \<Rightarrow> uuid) \<Rightarrow> market_candle \<Rightarrow> sma_state callback" where
  "sma_on_candle fresh k c =
     (case (config_period (cx_config c) ''fast_period'' 5, config_period (cx_config c) ''slow_period'' 20) of
        (Some fast, Some slow) \<Rightarrow>
          (let closes = (case cx_state c of None \<Rightarrow> [] | Some cs \<Rightarrow> cs) @ [cd_close_price k];
               c' = c\<lparr>cx_state := Some closes\<rparr> in
           if int (length closes) < slow + 1 then (None, c')
           else
             (case sma_decision closes fast slow of
                Inl e \<Rightarrow> (Some (indicator_message e), c')
              | Inr action \<Rightarrow>
                  let s = sma_signal (fresh k) c k action fast slow in
                  if \<not> signal_valid s then (Some ''validation error'', c')
                  else
                    (case emit_signal s c' of
                       Inl (StrategyValueError msg) \<Rightarrow> (Some msg, c')
                     | Inl _ \<Rightarrow> (Some [], c')
                     | Inr c'' \<Rightarrow> (None, c''))))
      | _ \<Rightarrow> (Some ''invalid literal for int()'', c))"

definition sma_cross_strategy :: "(market_candle \<Rightarrow> uuid) \<Rightarrow> sma_state strategy_impl" where
  "sma_cross_strategy fresh =
     \<lparr>im_initialize = (\<lambda>c. (None, c\<lparr>cx_state := Some []\<rparr>)), im_on_start = (\<lambda>c. (None, c)), im_on_stop = (\<lambda>c. (None, c)),
      im_on_event = (\<lambda>ev. case ev of Candle_Event k \<Rightarrow> sma_on_candle fresh k | _ \<Rightarrow> (\<lambda>c. (None, c)))\<rparr>"

section \<open>The averages are total\<close>

lemma window_average_total: "0 < period \<Longrightarrow> \<exists>a. window_average period series index = Inr a"
  by (simp add: window_average_def ddiv_def dec_of_int_def Let_def)

text \<open>One value per input; a value is undefined exactly before the first full window, and is the average of the window that
  ends at its place.\<close>

lemma simple_moving_average_total:
  assumes "0 < period"
  obtains rs where "simple_moving_average series period = Inr rs" "length rs = length series"
    and "\<And>i. i < length series \<Longrightarrow> (rs ! i = None) = (int i + 1 < period)"
    and "\<And>i a. i < length series \<Longrightarrow> rs ! i = Some a \<Longrightarrow> window_average (nat period) series i = Inr a"
proof -
  let ?f = "\<lambda>index. if int index + 1 < period then Inr None else rbind (window_average (nat period) series index) (\<lambda>a. Inr (Some a))"
  have "\<exists>y. ?f i = Inr y" for i using window_average_total [of "nat period" series i] assms by auto
  then obtain rs where rs: "rmap ?f [0..<length series] = Inr rs" using rmap_defined [of "[0..<length series]" ?f] by blast
  then have rel: "list_all2 (\<lambda>x y. ?f x = Inr y) [0..<length series] rs" by (simp add: rmap_eq_Inr)
  then have len: "length rs = length series" using list_all2_lengthD by fastforce
  have nth: "?f i = Inr (rs ! i)" if "i < length series" for i
  proof -
    have "[0..<length series] ! i = i" using that by simp
    then show ?thesis using list_all2_nthD [OF rel, of i] that by (simp only: length_upt)
  qed
  show ?thesis
  proof (rule that)
    show "simple_moving_average series period = Inr rs" using rs assms by (simp add: simple_moving_average_def validate_period_def)
    show "length rs = length series" by (rule len)
    show "(rs ! i = None) = (int i + 1 < period)" if "i < length series" for i
      using nth [OF that] window_average_total [of "nat period" series i] assms by (auto simp: result_simps split: if_splits dest!: sym [of "Some _"])
    show "window_average (nat period) series i = Inr a" if "i < length series" "rs ! i = Some a" for i a
      using nth [OF that(1)] that(2) by (auto simp: result_simps split: if_splits)
  qed
qed

lemma last_average_total:
  assumes "0 < period" "series \<noteq> []"
  shows "\<exists>v. last_average series period = Inr v"
proof -
  obtain rs where "simple_moving_average series period = Inr rs" "length rs = length series"
    by (rule simple_moving_average_total [OF assms(1), of series])
  then show ?thesis using assms(2) by (auto simp: last_average_def)
qed

lemma sma_decision_total:
  assumes "0 < fast" "0 < slow" "slow + 1 \<le> int (length closes)"
  shows "\<exists>action. sma_decision closes fast slow = Inr action"
proof -
  have "0 < length closes" "0 < length (butlast closes)" using assms(2,3) by auto
  then have "closes \<noteq> []" "butlast closes \<noteq> []" by (simp_all only: length_greater_0_conv not_False_eq_True)
  then obtain a b c d where "last_average closes fast = Inr a" "last_average closes slow = Inr b"
      "last_average (butlast closes) fast = Inr c" "last_average (butlast closes) slow = Inr d"
    using last_average_total assms by metis
  then show ?thesis by (simp add: sma_decision_def)
qed

section \<open>The strategy in its instance\<close>

text \<open>An instance of the strategy whose context is as the runtime made it.\<close>

definition sma_instance :: "(market_candle \<Rightarrow> uuid) \<Rightarrow> int \<Rightarrow> int \<Rightarrow> sma_state strategy_instance \<Rightarrow> bool" where
  "sma_instance fresh fast slow t \<longleftrightarrow>
     sti_strategy t = sma_cross_strategy fresh \<and> sti_state t = RS_RUNNING \<and>
     cx_strategy_id (sti_context t) = id_strategy_id (sti_identity t) \<and> cx_strategy_version (sti_context t) = id_version (sti_identity t) \<and>
     cx_strategy_config_hash (sti_context t) = id_config_hash (sti_identity t) \<and>
     config_period (cx_config (sti_context t)) ''fast_period'' 5 = Some fast \<and>
     config_period (cx_config (sti_context t)) ''slow_period'' 20 = Some slow"

abbreviation sma_closes :: "sma_state strategy_instance \<Rightarrow> decimal list" where
  "sma_closes t \<equiv> (case cx_state (sti_context t) of None \<Rightarrow> [] | Some cs \<Rightarrow> cs)"

text \<open>The pydantic limits on version, hash and reason.\<close>

definition identity_fits :: "strategy_identity \<Rightarrow> int \<Rightarrow> int \<Rightarrow> bool" where
  "identity_fits i fast slow \<longleftrightarrow> text_field 64 (id_version i) \<and> text_field 128 (id_config_hash i) \<and>
     length (int_str fast) + length (int_str slow) \<le> 400"

lemma sma_signal_ok:
  assumes "sma_instance fresh fast slow t" "identity_fits (sti_identity t) fast slow" "candle_valid k"
    and "df_instruments (sti_definition t) = [] \<or> cd_instrument_id k \<in> set (df_instruments (sti_definition t))"
  shows "signal_valid (sma_signal u (sti_context t) k action fast slow)"
    and "validate_emitted (sma_signal u (sti_context t) k action fast slow) (sti_identity t) (allowed_instruments (sti_definition t))
      (cd_candle_start k) = Inr ''ok''"
proof -
  have eighty: "0 \<le> Dec 8 (-1)" "Dec 8 (-1) \<le> 1" by (simp_all add: decimal_order dval_def zero_decimal_def one_decimal_def)
  have reason: "\<not> blank (''SMA '' @ r)" "length (''SMA '' @ int_str fast @ ''/'' @ int_str slow @ '' crossover'') \<le> 500" for r
    using assms(2) by (auto simp: blank_Cons is_space_def identity_fits_def)
  show "signal_valid (sma_signal u (sti_context t) k action fast slow)"
    using assms eighty reason by (simp add: signal_valid_def sma_signal_def sma_instance_def identity_fits_def text_field_def candle_valid_def)
  show "validate_emitted (sma_signal u (sti_context t) k action fast slow) (sti_identity t) (allowed_instruments (sti_definition t))
      (cd_candle_start k) = Inr ''ok''"
    using assms eighty reason by (auto simp: validate_emitted_ok sma_signal_def sma_instance_def allowed_instruments_def usec_def)
qed

text \<open>The callback on a candle, evaluated.\<close>

lemma sma_on_candle_eq:
  assumes "sma_instance fresh fast slow t" "identity_fits (sti_identity t) fast slow" "candle_valid k" "0 < fast" "0 < slow"
    and "df_instruments (sti_definition t) = [] \<or> cd_instrument_id k \<in> set (df_instruments (sti_definition t))"
  shows "sma_on_candle fresh k (sti_context t) =
    (let closes = sma_closes t @ [cd_close_price k]; c = (sti_context t)\<lparr>cx_state := Some closes\<rparr> in
     if int (length closes) \<le> slow then (None, c)
     else case sma_decision closes fast slow of
            Inl _ \<Rightarrow> (None, c)
          | Inr action \<Rightarrow> (None, c\<lparr>cx_emitted_signals := cx_emitted_signals c @ [sma_signal (fresh k) (sti_context t) k action fast slow]\<rparr>))"
proof -
  have emit: "emit_signal (sma_signal u (sti_context t) k action fast slow) ((sti_context t)\<lparr>cx_state := st\<rparr>) =
      Inr ((sti_context t)\<lparr>cx_state := st, cx_emitted_signals := cx_emitted_signals (sti_context t) @ [sma_signal u (sti_context t) k action fast slow]\<rparr>)"
    for u action st by (simp add: emit_signal_def sma_signal_def)
  let ?closes = "sma_closes t @ [cd_close_price k]"
  have periods: "config_period (cx_config (sti_context t)) ''fast_period'' 5 = Some fast"
      "config_period (cx_config (sti_context t)) ''slow_period'' 20 = Some slow"
    using assms(1) by (simp_all add: sma_instance_def)
  show ?thesis
  proof (cases "int (length ?closes) \<le> slow")
    case True
    then show ?thesis by (simp add: sma_on_candle_def periods Let_def)
  next
    case False
    then obtain action where "sma_decision ?closes fast slow = Inr action"
      using sma_decision_total [of fast slow ?closes] assms(4,5) by auto
    then show ?thesis using False sma_signal_ok(1) [OF assms(1-3,6)] by (simp add: sma_on_candle_def periods Let_def emit)
  qed
qed

text \<open>The strategy never fails and never has a signal rejected: on a valid candle of an instrument it may trade, with positive periods, its
  instance goes on running, remembers the close, and accepts nothing before the slow window and one more close are full; from then
  on it accepts exactly the signal of the crossover of the two averages, unless a signal with the same key was accepted before.\<close>

theorem sma_strategy_runs:
  assumes "sma_instance fresh fast slow t" "identity_fits (sti_identity t) fast slow" "candle_valid k" "0 < fast" "0 < slow"
    and "df_instruments (sti_definition t) = [] \<or> cd_instrument_id k \<in> set (df_instruments (sti_definition t))"
  shows "\<exists>accepted t' m'. instance_event py (Candle_Event k) t m = (Inr accepted, t', m') \<and> sti_state t' = RS_RUNNING \<and>
    sma_closes t' = sma_closes t @ [cd_close_price k] \<and>
    (if int (length (sma_closes t')) \<le> slow then accepted = []
     else \<exists>action. sma_decision (sma_closes t') fast slow = Inr action \<and>
       (let s = sma_signal (fresh k) (sti_context t) k action fast slow in
        accepted = (if map_of (sti_seen t) (signal_dedup_key py s (cd_candle_start k)) \<noteq> None then [] else [s])))"
proof -
  let ?closes = "sma_closes t @ [cd_close_price k]"
  let ?c = "(sti_context t)\<lparr>cx_state := Some ?closes\<rparr>"
  have run: "sti_state t = RS_RUNNING" "im_on_event (sti_strategy t) (Candle_Event k) = sma_on_candle fresh k"
    using assms(1) by (simp_all add: sma_instance_def sma_cross_strategy_def)
  note call = sma_on_candle_eq [OF assms]
  show ?thesis
  proof (cases "int (length ?closes) \<le> slow")
    case True
    then show ?thesis using run call by (simp add: instance_event_def Let_def)
  next
    case False
    then obtain action where d: "sma_decision ?closes fast slow = Inr action"
      using sma_decision_total [of fast slow ?closes] assms(4,5) by auto
    let ?s = "sma_signal (fresh k) (sti_context t) k action fast slow"
    have call': "sma_on_candle fresh k (sti_context t) = (None, ?c\<lparr>cx_emitted_signals := cx_emitted_signals ?c @ [?s]\<rparr>)"
      using call False d by (simp add: Let_def)
    show ?thesis
      using run call' False d sma_signal_ok(2) [OF assms(1-3,6)]
      by (cases "is_duplicate py ?s (cd_candle_start k) (sti_seen t)")
        (auto simp: instance_event_def Let_def is_duplicate_def seen_before_def split: if_splits)
  qed
qed

section \<open>Witness\<close>

text \<open>Periods one and two on closes 3, 2, 4: the fast average crosses the slow one from below.\<close>

definition sma_definition :: "sma_state strategy_definition" where
  "sma_definition = \<lparr>df_identity = \<lparr>id_strategy_id = 22, id_code = ''c'', id_name = ''n'', id_version = ''1'', id_config_hash = ''cfg'',
       id_code_hash = None\<rparr>, df_factory = Inr (sma_cross_strategy (\<lambda>_. 9), None), df_enabled = True, df_instruments = [5], df_timeframes = [],
     df_config = [(''fast_period'', PInt 1), (''slow_period'', PInt 2)]\<rparr>"

definition sma_sample :: "sma_state strategy_instance" where
  "sma_sample = \<lparr>sti_definition = sma_definition, sti_strategy = sma_cross_strategy (\<lambda>_. 9), sti_state = RS_RUNNING, sti_initialized = True,
     sti_fail_reason = None, sti_seen = [], sti_context = \<lparr>cx_strategy_id = 22, cx_strategy_version = ''1'', cx_strategy_config_hash = ''cfg'',
       cx_config = [(''fast_period'', PInt 1), (''slow_period'', PInt 2)], cx_state = Some [Dec 3 0, Dec 2 0], cx_emitted_signals = []\<rparr>\<rparr>"

definition sma_candle :: market_candle where
  "sma_candle = \<lparr>cd_instrument_id = 5, cd_exchange = ''NSE'', cd_symbol = ''ABC'', cd_timeframe = ONE_MINUTE, cd_candle_start = utc 5,
     cd_open_price = Dec 4 0, cd_high_price = Dec 4 0, cd_low_price = Dec 4 0, cd_close_price = Dec 4 0, cd_volume = None, cd_source_broker = ''b'',
     cd_generated_at = utc 6\<rparr>"

theorem sma_strategy_runs_witness:
  "\<exists>s t' m'. instance_event sample_strategy_py (Candle_Event sma_candle) sma_sample zero_metrics = (Inr [s], t', m') \<and> sti_state t' = RS_RUNNING \<and>
     ss_action s = ACT_BUY"
proof -
  have inst: "sma_instance (\<lambda>_. 9) 1 2 sma_sample"
    by (simp add: sma_instance_def sma_sample_def sma_definition_def config_period_def config_int_def)
  have fits: "identity_fits (sti_identity sma_sample) 1 2"
    by (simp add: identity_fits_def sma_sample_def sma_definition_def text_field_def blank_Cons is_space_def int_str_def nat_str.simps)
  have valid: "candle_valid sma_candle"
    by (simp add: candle_valid_def sma_candle_def sized_def decimal_order dval_def zero_decimal_def)
  have dec: "sma_decision [Dec 3 0, Dec 2 0, Dec 4 0] 1 2 = Inr ACT_BUY"
    by code_simp
  show ?thesis
    using sma_strategy_runs [OF inst fits valid, of sample_strategy_py zero_metrics] dec
    by (auto simp: sma_sample_def sma_definition_def sma_candle_def sma_signal_def Let_def)
qed

end
