(* ===== verification/Market_Feed.thy ===== *)
theory Market_Feed
  imports Market_Data Signal_Contract "HOL-Library.Sublist"
begin

text \<open>
  The market data service, \<^verbatim>\<open>services/market_data/alpha_algo_market_data\<close>: raw events and their validation, the
  normalisation into ticks and candles, the bounded queue, the engine's pipeline, the connection with bounded
  reconnects, and the paged retrieval of history.

  The clock, the database failures, the exceptions of consumers, pydantic's conversion of a value to an integer and the text of its
  validation error are parameters; a delay is a rational number.  Coroutines are sequences of calls.

  The main results: whatever the payload, a tick that reaches a consumer satisfies the contract, is allowed, fresh and not a repetition;
  every event is counted once; the queue never exceeds its size, keeps the order and counts every drop; a reconnect makes at most the
  configured number of attempts and succeeds exactly when one of them does; and the paged retrieval returns the same records as a
  single query when no two of them have the same time.
\<close>

section \<open>Raw events\<close>

datatype event_kind = KIND_TICK | KIND_CANDLE

fun event_kind_value :: "event_kind \<Rightarrow> string" where
  "event_kind_value KIND_TICK = ''tick''"
| "event_kind_value KIND_CANDLE = ''candle''"

record raw_event =
  rw_provider :: string
  rw_kind :: event_kind
  rw_payload :: metadata
  rw_received_at :: datetime

text \<open>\<open>ContractError\<close> is the \<^verbatim>\<open>ValidationError\<close> of a contract, whose text comes from pydantic.\<close>

datatype feed_error =
    RawEventValidationError string
  | TickRejectedError string
  | PayloadKeyError string
  | ContractError
  | FeedValueError string
  | FeedTypeError

definition tick_required_keys :: "string list" where
  "tick_required_keys = [''exchange'', ''instrument_id'', ''ltp'', ''source_broker'', ''source_sequence'', ''symbol'', ''timestamp'']"

definition candle_required_keys :: "string list" where
  "candle_required_keys = [''candle_start'', ''close_price'', ''exchange'', ''generated_at'', ''high_price'', ''instrument_id'', ''low_price'',
     ''open_price'', ''source_broker'', ''symbol'', ''timeframe'']"

definition list_repr :: "string list \<Rightarrow> string" where
  "list_repr ks = ''['' @ join '', '' (map py_repr ks) @ '']''"

text \<open>The constants are sorted, so the missing keys come out sorted too.\<close>

definition validate_raw_event :: "event_kind list \<Rightarrow> raw_event \<Rightarrow> (feed_error, unit) result" where
  "validate_raw_event allowed ev =
     rbind (guard (rw_kind ev \<in> set allowed) (RawEventValidationError (''unsupported event kind: '' @ event_kind_value (rw_kind ev)))) (\<lambda>_.
     let required = (case rw_kind ev of KIND_TICK \<Rightarrow> tick_required_keys | KIND_CANDLE \<Rightarrow> candle_required_keys);
         missing = filter (\<lambda>k. rw_payload ev k = None) required in
     guard (missing = []) (RawEventValidationError (''missing payload keys: '' @ list_repr missing)))"

definition check_supported_symbol :: "string \<Rightarrow> string list option \<Rightarrow> (feed_error, unit) result" where
  "check_supported_symbol symbol allowed =
     guard (case allowed of None \<Rightarrow> True | Some xs \<Rightarrow> symbol \<in> set xs) (TickRejectedError ''unsupported_instrument'')"

section \<open>Normalisation\<close>

text \<open>The hash environment with \<^verbatim>\<open>fromisoformat\<close>, the clock, pydantic's conversion to an integer and its error text, the failure of the
  database, the foreign key on instruments, and the consumers that raise.\<close>

record feed_env =
  fv_py :: py_env
  fv_now :: datetime
  fv_int :: "pyval \<Rightarrow> int option"
  fv_message :: "raw_event \<Rightarrow> string"
  fv_db_fail :: bool
  fv_refs_ok :: "uuid \<Rightarrow> bool"
  fv_consumer_raises :: "nat \<Rightarrow> bool"

definition raw_get :: "raw_event \<Rightarrow> string \<Rightarrow> (feed_error, pyval) result" where
  "raw_get ev k = of_opt (PayloadKeyError (py_repr k)) (rw_payload ev k)"

definition raw_opt :: "raw_event \<Rightarrow> string \<Rightarrow> pyval" where
  "raw_opt ev k = (case rw_payload ev k of None \<Rightarrow> PNone | Some v \<Rightarrow> v)"

definition coerce_datetime :: "feed_env \<Rightarrow> string \<Rightarrow> pyval \<Rightarrow> (feed_error, datetime) result" where
  "coerce_datetime env field v =
     (case v of
        PTime t \<Rightarrow> Inr t
      | PStr s \<Rightarrow> of_opt (RawEventValidationError (field @ '' is not a valid datetime'')) (py_fromisoformat (fv_py env) s)
      | _ \<Rightarrow> Inl (RawEventValidationError (field @ '' must be a datetime'')))"

text \<open>The text of a number: \<^verbatim>\<open>Decimal\<close> removes the white space around it and the underscores in it; an infinity or a NaN is a number that is not finite.\<close>

datatype parsed_number = Not_A_Number | Not_Finite | Finite decimal

definition strip_text :: "string \<Rightarrow> string" where
  "strip_text s = rev (dropWhile is_space (rev (dropWhile is_space s)))"

definition special_number :: "string \<Rightarrow> bool" where
  "special_number s =
     (let t = upper (snd (split_sign s)) in
      t \<in> {''INF'', ''INFINITY''} \<or>
      take 3 t = ''NAN'' \<and> list_all is_digit (drop 3 t) \<or> take 4 t = ''SNAN'' \<and> list_all is_digit (drop 4 t))"

definition number_of_text :: "string \<Rightarrow> parsed_number" where
  "number_of_text s =
     (let t = filter (\<lambda>c. c \<noteq> CHR ''_'') (strip_text s) in
      if special_number t then Not_Finite
      else case decimal_parse t of None \<Rightarrow> Not_A_Number | Some d \<Rightarrow> Finite d)"

definition coerce_decimal :: "string \<Rightarrow> pyval \<Rightarrow> (feed_error, decimal) result" where
  "coerce_decimal field v =
     (case v of
        PDec d \<Rightarrow> Inr d
      | _ \<Rightarrow>
          (case number_of_text (py_str v) of
             Not_A_Number \<Rightarrow> Inl (RawEventValidationError (field @ '' is not a valid number''))
           | Not_Finite \<Rightarrow> Inl (RawEventValidationError (field @ '' must be a finite number''))
           | Finite d \<Rightarrow> Inr d))"

definition coerce_optional_decimal :: "string \<Rightarrow> pyval \<Rightarrow> (feed_error, decimal option) result" where
  "coerce_optional_decimal field v = (if v = PNone then Inr None else rbind (coerce_decimal field v) (\<lambda>d. Inr (Some d)))"

definition coerce_uuid :: "string \<Rightarrow> pyval \<Rightarrow> (feed_error, uuid) result" where
  "coerce_uuid field v =
     (case v of
        PUuid u \<Rightarrow> Inr u
      | PStr s \<Rightarrow> of_opt (RawEventValidationError (field @ '' is not a valid UUID'')) (uuid_parse s)
      | _ \<Rightarrow> Inl (RawEventValidationError (field @ '' must be a UUID'')))"

text \<open>The fields the contract itself converts: text must be text, an optional integer may be absent.\<close>

definition field_str :: "pyval \<Rightarrow> (feed_error, string) result" where
  "field_str v = (case v of PStr s \<Rightarrow> Inr s | _ \<Rightarrow> Inl ContractError)"

definition field_int :: "feed_env \<Rightarrow> pyval \<Rightarrow> (feed_error, int option) result" where
  "field_int env v = (if v = PNone then Inr None else case fv_int env v of None \<Rightarrow> Inl ContractError | Some i \<Rightarrow> Inr (Some i))"

definition normalize_tick :: "feed_env \<Rightarrow> raw_event \<Rightarrow> (feed_error, market_tick) result" where
  "normalize_tick env ev =
     rbind (rbind (raw_get ev ''instrument_id'') (coerce_uuid ''instrument_id'')) (\<lambda>instrument.
     rbind (raw_get ev ''exchange'') (\<lambda>exchange.
     rbind (raw_get ev ''symbol'') (\<lambda>symbol.
     rbind (rbind (raw_get ev ''timestamp'') (coerce_datetime env ''timestamp'')) (\<lambda>timestamp.
     rbind (rbind (raw_get ev ''ltp'') (coerce_decimal ''ltp'')) (\<lambda>ltp.
     rbind (coerce_optional_decimal ''bid'' (raw_opt ev ''bid'')) (\<lambda>bid.
     rbind (coerce_optional_decimal ''ask'' (raw_opt ev ''ask'')) (\<lambda>ask.
     rbind (raw_get ev ''source_broker'') (\<lambda>broker.
     rbind (raw_get ev ''source_sequence'') (\<lambda>sequence.
     rbind (field_str exchange) (\<lambda>exchange.
     rbind (field_str symbol) (\<lambda>symbol.
     rbind (field_int env (raw_opt ev ''volume'')) (\<lambda>volume.
     rbind (field_int env (raw_opt ev ''bid_quantity'')) (\<lambda>bid_quantity.
     rbind (field_int env (raw_opt ev ''ask_quantity'')) (\<lambda>ask_quantity.
     rbind (field_str broker) (\<lambda>broker.
     rbind (field_str sequence) (\<lambda>sequence.
     let t = \<lparr>tk_instrument_id = instrument, tk_exchange = exchange, tk_symbol = symbol, tk_timestamp = timestamp, tk_ltp = ltp,
           tk_volume = volume, tk_bid = bid, tk_ask = ask, tk_bid_quantity = bid_quantity, tk_ask_quantity = ask_quantity,
           tk_source_broker = broker, tk_source_sequence = sequence, tk_received_at = rw_received_at ev\<rparr> in
     rbind (guard (tick_valid t) ContractError) (\<lambda>_. Inr t)))))))))))))))))"

definition parse_timeframe :: "string \<Rightarrow> candle_timeframe option" where
  "parse_timeframe s = find (\<lambda>f. timeframe_value f = s) [ONE_MINUTE, FIVE_MINUTES, FIFTEEN_MINUTES, ONE_HOUR, ONE_DAY]"

text \<open>\<^verbatim>\<open>repr\<close> of a payload value; that of a datetime is shortened to its text.\<close>

fun value_repr :: "pyval \<Rightarrow> string" where
  "value_repr (PStr s) = py_repr s"
| "value_repr (PUuid u) = ''UUID('' @ py_repr (uuid_str u) @ '')''"
| "value_repr (PDec d) = ''Decimal('' @ py_repr (decimal_str d) @ '')''"
| "value_repr v = py_str v"

definition coerce_timeframe :: "pyval \<Rightarrow> (feed_error, candle_timeframe) result" where
  "coerce_timeframe v =
     of_opt (RawEventValidationError (''timeframe is not valid: '' @ value_repr v))
       (case v of PStr s \<Rightarrow> parse_timeframe s | _ \<Rightarrow> None)"

definition normalize_candle :: "feed_env \<Rightarrow> raw_event \<Rightarrow> (feed_error, market_candle) result" where
  "normalize_candle env ev =
     rbind (rbind (raw_get ev ''timeframe'') coerce_timeframe) (\<lambda>timeframe.
     rbind (rbind (raw_get ev ''instrument_id'') (coerce_uuid ''instrument_id'')) (\<lambda>instrument.
     rbind (raw_get ev ''exchange'') (\<lambda>exchange.
     rbind (raw_get ev ''symbol'') (\<lambda>symbol.
     rbind (rbind (raw_get ev ''candle_start'') (coerce_datetime env ''candle_start'')) (\<lambda>candle_start.
     rbind (rbind (raw_get ev ''open_price'') (coerce_decimal ''open_price'')) (\<lambda>open_price.
     rbind (rbind (raw_get ev ''high_price'') (coerce_decimal ''high_price'')) (\<lambda>high.
     rbind (rbind (raw_get ev ''low_price'') (coerce_decimal ''low_price'')) (\<lambda>low.
     rbind (rbind (raw_get ev ''close_price'') (coerce_decimal ''close_price'')) (\<lambda>close.
     rbind (raw_get ev ''source_broker'') (\<lambda>broker.
     rbind (coerce_datetime env ''generated_at'' (raw_opt ev ''generated_at'')) (\<lambda>generated_at.
     rbind (field_str exchange) (\<lambda>exchange.
     rbind (field_str symbol) (\<lambda>symbol.
     rbind (field_int env (raw_opt ev ''volume'')) (\<lambda>volume.
     rbind (field_str broker) (\<lambda>broker.
     let c = \<lparr>cd_instrument_id = instrument, cd_exchange = exchange, cd_symbol = symbol, cd_timeframe = timeframe,
           cd_candle_start = candle_start, cd_open_price = open_price, cd_high_price = high, cd_low_price = low, cd_close_price = close,
           cd_volume = volume, cd_source_broker = broker, cd_generated_at = generated_at\<rparr> in
     rbind (guard (candle_valid c) ContractError) (\<lambda>_. Inr c))))))))))))))))"

definition normalize_event :: "feed_env \<Rightarrow> raw_event \<Rightarrow> (feed_error, market_record) result" where
  "normalize_event env ev =
     (case rw_kind ev of
        KIND_TICK \<Rightarrow> rbind (normalize_tick env ev) (\<lambda>t. Inr (Tick t))
      | KIND_CANDLE \<Rightarrow> rbind (normalize_candle env ev) (\<lambda>c. Inr (Candle c)))"

fun error_text :: "feed_env \<Rightarrow> raw_event \<Rightarrow> feed_error \<Rightarrow> string" where
  "error_text env ev (RawEventValidationError m) = m"
| "error_text env ev (TickRejectedError m) = m"
| "error_text env ev (PayloadKeyError m) = m"
| "error_text env ev ContractError = fv_message env ev"
| "error_text env ev (FeedValueError m) = m"
| "error_text env ev FeedTypeError = []"

lemma normalize_valid: "normalize_event env ev = Inr r \<Longrightarrow> record_valid r"
  by (auto simp: normalize_event_def normalize_tick_def normalize_candle_def Let_def result_simps split: event_kind.splits)

section \<open>Staleness and duplicates\<close>

datatype staleness = TICK_FRESH | TICK_STALE | TICK_IN_FUTURE

fun staleness_reason :: "staleness \<Rightarrow> string" where
  "staleness_reason TICK_FRESH = ''tick_timestamp_fresh''"
| "staleness_reason TICK_STALE = ''tick_timestamp_stale''"
| "staleness_reason TICK_IN_FUTURE = ''tick_timestamp_in_future''"

definition evaluate_staleness :: "market_tick \<Rightarrow> datetime \<Rightarrow> int \<Rightarrow> (feed_error, staleness) result" where
  "evaluate_staleness t now max_age =
     rbind (guard (tz_aware now) (FeedValueError ''now must be timezone-aware'')) (\<lambda>_.
     rbind (guard (0 < max_age) (FeedValueError ''max_age must be positive'')) (\<lambda>_.
     rbind (of_opt FeedTypeError (datetime_diff now (tk_timestamp t))) (\<lambda>age.
     Inr (if age < 0 then TICK_IN_FUTURE else if max_age < age then TICK_STALE else TICK_FRESH))))"

type_synonym tick_key = "string \<times> string"

definition key_of_tick :: "market_tick \<Rightarrow> tick_key" where
  "key_of_tick t = (tk_source_broker t, tk_source_sequence t)"

definition duplicate_tick :: "nat option \<Rightarrow> market_tick \<Rightarrow> (tick_key, unit) odict \<Rightarrow> bool \<times> (tick_key, unit) odict" where
  "duplicate_tick maxsize t = seen_before maxsize (key_of_tick t)"

section \<open>Metrics, tables and queue\<close>

record feed_metrics =
  fm_connected :: nat
  fm_disconnected :: nat
  fm_connect_failures :: nat
  fm_reconnects :: nat
  fm_reconnect_failures :: nat
  fm_heartbeat_failures :: nat
  fm_ticks_received :: nat
  fm_candles_received :: nat
  fm_duplicates :: nat
  fm_stale :: nat
  fm_future :: nat
  fm_rejected :: nat
  fm_normalization_failures :: nat
  fm_dropped :: nat
  fm_persisted_ticks :: nat
  fm_persisted_candles :: nat
  fm_persistence_failures :: nat
  fm_consumer_failures :: nat

text \<open>The columns of a candle; exchange and symbol are not stored.  The row of a tick has the fields of the tick.\<close>

record candle_row =
  cr_candle_start :: datetime
  cr_instrument_id :: uuid
  cr_timeframe :: string
  cr_open_price :: decimal
  cr_high_price :: decimal
  cr_low_price :: decimal
  cr_close_price :: decimal
  cr_volume :: "int option"
  cr_source_broker :: string
  cr_generated_at :: datetime

definition to_orm_candle :: "market_candle \<Rightarrow> candle_row" where
  "to_orm_candle c = \<lparr>cr_candle_start = cd_candle_start c, cr_instrument_id = cd_instrument_id c, cr_timeframe = timeframe_value (cd_timeframe c),
     cr_open_price = cd_open_price c, cr_high_price = cd_high_price c, cr_low_price = cd_low_price c, cr_close_price = cd_close_price c,
     cr_volume = cd_volume c, cr_source_broker = cd_source_broker c, cr_generated_at = cd_generated_at c\<rparr>"

definition same_tick_row :: "market_tick \<Rightarrow> market_tick \<Rightarrow> bool" where
  "same_tick_row a b \<longleftrightarrow> key_of_tick a = key_of_tick b \<and> instant (tk_timestamp a) = instant (tk_timestamp b)"

definition same_candle_row :: "candle_row \<Rightarrow> candle_row \<Rightarrow> bool" where
  "same_candle_row a b \<longleftrightarrow> cr_instrument_id a = cr_instrument_id b \<and> cr_timeframe a = cr_timeframe b \<and>
     instant (cr_candle_start a) = instant (cr_candle_start b)"

record feed_tables =
  ft_ticks :: "market_tick list"
  ft_candles :: "candle_row list"

text \<open>\<^verbatim>\<open>_commit_one\<close>: a failed commit is rolled back and raises, here \<open>None\<close>.\<close>

definition persist_tick :: "feed_env \<Rightarrow> feed_tables \<Rightarrow> market_tick \<Rightarrow> feed_tables option" where
  "persist_tick env db t =
     (if fv_db_fail env then None
      else map_option (\<lambda>rows. db\<lparr>ft_ticks := rows\<rparr>) (insert_row same_tick_row (\<lambda>t. fv_refs_ok env (tk_instrument_id t)) (ft_ticks db) t))"

definition persist_candle :: "feed_env \<Rightarrow> feed_tables \<Rightarrow> market_candle \<Rightarrow> feed_tables option" where
  "persist_candle env db c =
     (if fv_db_fail env then None
      else map_option (\<lambda>rows. db\<lparr>ft_candles := rows\<rparr>)
             (insert_row same_candle_row (\<lambda>c. fv_refs_ok env (cr_instrument_id c)) (ft_candles db) (to_orm_candle c)))"

text \<open>A batch is one transaction: the rows are all stored or none is.\<close>

fun persist_batch :: "('t \<Rightarrow> 'r \<Rightarrow> 't option) \<Rightarrow> 't \<Rightarrow> 'r list \<Rightarrow> 't option" where
  "persist_batch f db [] = Some db"
| "persist_batch f db (r # rs) = (case f db r of None \<Rightarrow> None | Some db' \<Rightarrow> persist_batch f db' rs)"

definition persist_tick_batch :: "feed_env \<Rightarrow> feed_tables \<Rightarrow> market_tick list \<Rightarrow> feed_tables option" where
  "persist_tick_batch env db ts = (if fv_db_fail env then None else persist_batch (persist_tick env) db ts)"

definition persist_candle_batch :: "feed_env \<Rightarrow> feed_tables \<Rightarrow> market_candle list \<Rightarrow> feed_tables option" where
  "persist_candle_batch env db cs = (if fv_db_fail env then None else persist_batch (persist_candle env) db cs)"

datatype drop_policy = DROP_NEWEST | DROP_OLDEST

record 'a bounded_queue =
  bq_items :: "'a list"
  bq_maxsize :: nat
  bq_policy :: drop_policy
  bq_dropped :: nat

definition mk_bounded_queue :: "int \<Rightarrow> string \<Rightarrow> (feed_error, 'a bounded_queue) result" where
  "mk_bounded_queue maxsize policy =
     rbind (guard (1 \<le> maxsize) (FeedValueError ''maxsize must be >= 1'')) (\<lambda>_.
     rbind (guard (policy \<in> {''drop_newest'', ''drop_oldest''})
       (FeedValueError (''drop_policy must be '' @ py_repr ''drop_newest'' @ '' or '' @ py_repr ''drop_oldest''))) (\<lambda>_.
     Inr \<lparr>bq_items = [], bq_maxsize = nat maxsize, bq_policy = (if policy = ''drop_newest'' then DROP_NEWEST else DROP_OLDEST), bq_dropped = 0\<rparr>))"

definition queue_full :: "'a bounded_queue \<Rightarrow> bool" where
  "queue_full q \<longleftrightarrow> bq_maxsize q \<le> length (bq_items q)"

definition put_nowait :: "'a bounded_queue \<Rightarrow> 'a \<Rightarrow> bool \<times> 'a bounded_queue" where
  "put_nowait q x =
     (if queue_full q then
        (case bq_policy q of
           DROP_OLDEST \<Rightarrow> (True, q\<lparr>bq_dropped := bq_dropped q + 1, bq_items := drop 1 (bq_items q) @ [x]\<rparr>)
         | DROP_NEWEST \<Rightarrow> (False, q\<lparr>bq_dropped := bq_dropped q + 1\<rparr>))
      else (True, q\<lparr>bq_items := bq_items q @ [x]\<rparr>))"

definition queue_get :: "'a bounded_queue \<Rightarrow> ('a \<times> 'a bounded_queue) option" where
  "queue_get q = (case bq_items q of [] \<Rightarrow> None | x # xs \<Rightarrow> Some (x, q\<lparr>bq_items := xs\<rparr>))"

section \<open>The engine\<close>

text \<open>The consumers of ticks and of candles are numbered; the log keeps what each was given.\<close>

record feed_engine =
  fe_repository :: "feed_tables option"
  fe_metrics :: feed_metrics
  fe_allowed_symbols :: "string list option"
  fe_max_age :: int
  fe_persist_enabled :: bool
  fe_dedupe_maxsize :: "nat option"
  fe_seen :: "(tick_key, unit) odict"
  fe_queue :: "raw_event bounded_queue"
  fe_tick_consumers :: "nat list"
  fe_candle_consumers :: "nat list"
  fe_delivered :: "(nat \<times> market_record) list"

datatype ingest_status = ING_ACCEPTED | ING_DUPLICATE | ING_STALE | ING_FUTURE | ING_REJECTED

record feed_ingest_result =
  fi_status :: ingest_status
  fi_reason :: string
  fi_record :: "market_record option"

definition count_metric :: "(feed_metrics \<Rightarrow> feed_metrics) \<Rightarrow> feed_engine \<Rightarrow> feed_engine" where
  "count_metric f e = e\<lparr>fe_metrics := f (fe_metrics e)\<rparr>"

definition safe_dispatch :: "feed_env \<Rightarrow> market_record \<Rightarrow> feed_engine \<Rightarrow> nat \<Rightarrow> feed_engine" where
  "safe_dispatch env v e c =
     (let e' = e\<lparr>fe_delivered := fe_delivered e @ [(c, v)]\<rparr> in
      if fv_consumer_raises env c then count_metric (\<lambda>m. m\<lparr>fm_consumer_failures := fm_consumer_failures m + 1\<rparr>) e' else e')"

definition fan_out_record :: "feed_env \<Rightarrow> nat list \<Rightarrow> market_record \<Rightarrow> feed_engine \<Rightarrow> feed_engine" where
  "fan_out_record env consumers v e = foldl (safe_dispatch env v) e consumers"

definition store_tick :: "feed_env \<Rightarrow> market_tick \<Rightarrow> feed_engine \<Rightarrow> feed_engine" where
  "store_tick env t e =
     (case fe_repository e of
        None \<Rightarrow> e
      | Some db \<Rightarrow>
          if \<not> fe_persist_enabled e then e
          else
            (case persist_tick env db t of
               None \<Rightarrow> count_metric (\<lambda>m. m\<lparr>fm_persistence_failures := fm_persistence_failures m + 1\<rparr>) e
             | Some db' \<Rightarrow> count_metric (\<lambda>m. m\<lparr>fm_persisted_ticks := fm_persisted_ticks m + 1\<rparr>) (e\<lparr>fe_repository := Some db'\<rparr>)))"

definition store_candle :: "feed_env \<Rightarrow> market_candle \<Rightarrow> feed_engine \<Rightarrow> feed_engine" where
  "store_candle env c e =
     (case fe_repository e of
        None \<Rightarrow> e
      | Some db \<Rightarrow>
          if \<not> fe_persist_enabled e then e
          else
            (case persist_candle env db c of
               None \<Rightarrow> count_metric (\<lambda>m. m\<lparr>fm_persistence_failures := fm_persistence_failures m + 1\<rparr>) e
             | Some db' \<Rightarrow> count_metric (\<lambda>m. m\<lparr>fm_persisted_candles := fm_persisted_candles m + 1\<rparr>) (e\<lparr>fe_repository := Some db'\<rparr>)))"

definition feed_result :: "ingest_status \<Rightarrow> string \<Rightarrow> market_record option \<Rightarrow> feed_ingest_result" where
  "feed_result s why r = \<lparr>fi_status = s, fi_reason = why, fi_record = r\<rparr>"

definition ingest_tick :: "feed_env \<Rightarrow> feed_engine \<Rightarrow> market_tick \<Rightarrow> (feed_error, feed_ingest_result) result \<times> feed_engine" where
  "ingest_tick env e t =
     (let (dup, seen) = duplicate_tick (fe_dedupe_maxsize e) t (fe_seen e); e' = e\<lparr>fe_seen := seen\<rparr> in
      if dup then
        (Inr (feed_result ING_DUPLICATE ''duplicate'' None), count_metric (\<lambda>m. m\<lparr>fm_duplicates := fm_duplicates m + 1\<rparr>) e')
      else
        (case evaluate_staleness t (fv_now env) (fe_max_age e) of
           Inl err \<Rightarrow> (Inl err, e')
         | Inr TICK_IN_FUTURE \<Rightarrow>
             (Inr (feed_result ING_FUTURE ''future_timestamp'' None), count_metric (\<lambda>m. m\<lparr>fm_future := fm_future m + 1\<rparr>) e')
         | Inr TICK_STALE \<Rightarrow> (Inr (feed_result ING_STALE ''stale'' None), count_metric (\<lambda>m. m\<lparr>fm_stale := fm_stale m + 1\<rparr>) e')
         | Inr TICK_FRESH \<Rightarrow>
             (Inr (feed_result ING_ACCEPTED ''accepted'' (Some (Tick t))),
              store_tick env t (fan_out_record env (fe_tick_consumers e) (Tick t) e'))))"

definition ingest_candle :: "feed_env \<Rightarrow> feed_engine \<Rightarrow> market_candle \<Rightarrow> (feed_error, feed_ingest_result) result \<times> feed_engine" where
  "ingest_candle env e c =
     (Inr (feed_result ING_ACCEPTED ''accepted'' (Some (Candle c))),
      store_candle env c (fan_out_record env (fe_candle_consumers e) (Candle c) e))"

definition reject_raw :: "feed_engine \<Rightarrow> string \<Rightarrow> (feed_error, feed_ingest_result) result \<times> feed_engine" where
  "reject_raw e why =
     (Inr (feed_result ING_REJECTED why None), count_metric (\<lambda>m. m\<lparr>fm_rejected := fm_rejected m + 1\<rparr>) e)"

definition ingest_raw :: "feed_env \<Rightarrow> feed_engine \<Rightarrow> raw_event \<Rightarrow> (feed_error, feed_ingest_result) result \<times> feed_engine" where
  "ingest_raw env e ev =
     (case validate_raw_event [KIND_TICK, KIND_CANDLE] ev of
        Inl err \<Rightarrow> reject_raw e (''malformed: '' @ error_text env ev err)
      | Inr _ \<Rightarrow>
          (case normalize_event env ev of
             Inl err \<Rightarrow>
               reject_raw (count_metric (\<lambda>m. m\<lparr>fm_normalization_failures := fm_normalization_failures m + 1\<rparr>) e)
                 (''normalization: '' @ error_text env ev err)
           | Inr r \<Rightarrow>
               (case check_supported_symbol (rec_symbol r) (fe_allowed_symbols e) of
                  Inl err \<Rightarrow> reject_raw e (error_text env ev err)
                | Inr _ \<Rightarrow>
                    (case r of
                       Tick t \<Rightarrow> ingest_tick env (count_metric (\<lambda>m. m\<lparr>fm_ticks_received := fm_ticks_received m + 1\<rparr>) e) t
                     | Candle c \<Rightarrow> ingest_candle env (count_metric (\<lambda>m. m\<lparr>fm_candles_received := fm_candles_received m + 1\<rparr>) e) c))))"

definition enqueue_event :: "feed_engine \<Rightarrow> raw_event \<Rightarrow> bool \<times> feed_engine" where
  "enqueue_event e ev =
     (let (accepted, q) = put_nowait (fe_queue e) ev; e' = e\<lparr>fe_queue := q\<rparr> in
      (accepted, if accepted then e' else count_metric (\<lambda>m. m\<lparr>fm_dropped := fm_dropped m + 1\<rparr>) e'))"

text \<open>One turn of \<^verbatim>\<open>run\<close>: nothing happens while the queue is empty; an exception of the pipeline ends the loop, here the
  left result.\<close>

definition run_turn :: "feed_env \<Rightarrow> feed_engine \<Rightarrow> (feed_error, unit) result \<times> feed_engine" where
  "run_turn env e =
     (case queue_get (fe_queue e) of
        None \<Rightarrow> (Inr (), e)
      | Some (ev, q) \<Rightarrow>
          (case ingest_raw env (e\<lparr>fe_queue := q\<rparr>) ev of
             (Inl err, e') \<Rightarrow> (Inl err, e')
           | (Inr _, e') \<Rightarrow> (Inr (), e')))"

section \<open>Connection\<close>

definition backoff_delay :: "int \<Rightarrow> rat \<Rightarrow> rat \<Rightarrow> (feed_error, rat) result" where
  "backoff_delay attempt base max_delay =
     rbind (guard (1 \<le> attempt) (FeedValueError ''attempt must be >= 1'')) (\<lambda>_.
     rbind (guard (0 < base) (FeedValueError ''base must be > 0'')) (\<lambda>_.
     rbind (guard (base \<le> max_delay) (FeedValueError ''max_delay must be >= base'')) (\<lambda>_.
     Inr (min (base * 2 ^ nat (attempt - 1)) max_delay))))"

text \<open>The attempts of one reconnect: \<open>outcome k\<close> is the error of the \<open>k\<close>-th attempt, if any; the result is the number of
  attempts used, whether one succeeded, the last error and the delays slept; a wrong delay configuration raises.\<close>

record reconnect_result =
  rc_attempts_used :: nat
  rc_succeeded :: bool
  rc_last_error :: "string option"
  rc_delays :: "rat list"

record reconnector =
  rn_max_attempts :: nat
  rn_base_delay :: rat
  rn_max_delay :: rat

function connect_attempts :: "reconnector \<Rightarrow> (nat \<Rightarrow> string option) \<Rightarrow> nat \<Rightarrow> string option \<Rightarrow> rat list \<Rightarrow> (feed_error, reconnect_result) result" where
  "connect_attempts rn outcome k last_error delays =
     (if rn_max_attempts rn < k then
        Inr \<lparr>rc_attempts_used = rn_max_attempts rn, rc_succeeded = False, rc_last_error = last_error, rc_delays = delays\<rparr>
      else
        (case outcome k of
           None \<Rightarrow> Inr \<lparr>rc_attempts_used = k, rc_succeeded = True, rc_last_error = None, rc_delays = delays\<rparr>
         | Some err \<Rightarrow>
             if k < rn_max_attempts rn then
               rbind (backoff_delay (int k) (rn_base_delay rn) (rn_max_delay rn)) (\<lambda>d.
               connect_attempts rn outcome (Suc k) (Some err) (delays @ [d]))
             else connect_attempts rn outcome (Suc k) (Some err) delays))"
  by pat_completeness auto
termination
  by (relation "measure (\<lambda>(rn, _, k, _). Suc (rn_max_attempts rn) - k)") auto

definition reconnector_connect :: "reconnector \<Rightarrow> (nat \<Rightarrow> string option) \<Rightarrow> (feed_error, reconnect_result) result" where
  "reconnector_connect rn outcome = connect_attempts rn outcome 1 None []"

record heartbeat_monitor =
  hb_timeout :: int
  hb_last_activity :: "datetime option"

definition mk_heartbeat :: "int \<Rightarrow> (feed_error, heartbeat_monitor) result" where
  "mk_heartbeat timeout =
     rbind (guard (0 < timeout) (FeedValueError ''timeout_seconds must be > 0'')) (\<lambda>_. Inr \<lparr>hb_timeout = timeout, hb_last_activity = None\<rparr>)"

definition record_heartbeat :: "datetime \<Rightarrow> heartbeat_monitor \<Rightarrow> heartbeat_monitor" where
  "record_heartbeat now h = h\<lparr>hb_last_activity := Some now\<rparr>"

definition heartbeat_alive :: "datetime \<Rightarrow> heartbeat_monitor \<Rightarrow> bool option" where
  "heartbeat_alive now h =
     (case hb_last_activity h of None \<Rightarrow> Some True | Some t \<Rightarrow> map_option (\<lambda>age. age \<le> hb_timeout h) (datetime_diff now t))"

datatype connection_state = CN_DISCONNECTED | CN_CONNECTING | CN_CONNECTED | CN_RECONNECTING | CN_FAILED | CN_CLOSED

record feed_connection =
  fc_state :: connection_state
  fc_heartbeat :: heartbeat_monitor
  fc_reconnector :: reconnector
  fc_metrics :: feed_metrics

text \<open>The provider answers a call with an error message or not; a timeout is one of the errors.\<close>

definition manager_connect :: "datetime \<Rightarrow> string option \<Rightarrow> feed_connection \<Rightarrow> string option \<times> feed_connection" where
  "manager_connect now answer c =
     (case answer of
        Some err \<Rightarrow> (Some err, c\<lparr>fc_state := CN_FAILED, fc_metrics := (fc_metrics c)\<lparr>fm_connect_failures := fm_connect_failures (fc_metrics c) + 1\<rparr>\<rparr>)
      | None \<Rightarrow>
          (None, c\<lparr>fc_state := CN_CONNECTED, fc_metrics := (fc_metrics c)\<lparr>fm_connected := fm_connected (fc_metrics c) + 1\<rparr>,
             fc_heartbeat := record_heartbeat now (fc_heartbeat c)\<rparr>))"

definition manager_disconnect :: "string option \<Rightarrow> feed_connection \<Rightarrow> string option \<times> feed_connection" where
  "manager_disconnect answer c =
     (case answer of
        Some err \<Rightarrow> (Some err, c)
      | None \<Rightarrow> (None, c\<lparr>fc_state := CN_CLOSED, fc_metrics := (fc_metrics c)\<lparr>fm_disconnected := fm_disconnected (fc_metrics c) + 1\<rparr>\<rparr>))"

text \<open>The teardown before a reconnect: the provider's \<^verbatim>\<open>disconnect\<close> is awaited without a timeout, its exceptions are ignored, and it may never
  return.  A reconnect that does not return has no result, and leaves the state it had reached.\<close>

datatype teardown = Torn_Down | Teardown_Failed string | Teardown_Hangs

definition manager_reconnect ::
  "datetime \<Rightarrow> teardown \<Rightarrow> (nat \<Rightarrow> string option) \<Rightarrow> feed_connection \<Rightarrow> (feed_error, bool) result option \<times> feed_connection" where
  "manager_reconnect now teardown outcome c =
     (let c1 = c\<lparr>fc_state := CN_RECONNECTING, fc_metrics := (fc_metrics c)\<lparr>fm_reconnects := fm_reconnects (fc_metrics c) + 1\<rparr>\<rparr> in
      if teardown = Teardown_Hangs then (None, c1)
      else
        (case reconnector_connect (fc_reconnector c) outcome of
           Inl err \<Rightarrow> (Some (Inl err), c1)
         | Inr res \<Rightarrow>
             if rc_succeeded res
             then (Some (Inr True), c1\<lparr>fc_state := CN_CONNECTED, fc_heartbeat := record_heartbeat now (fc_heartbeat c1)\<rparr>)
             else (Some (Inr False),
               c1\<lparr>fc_state := CN_FAILED, fc_metrics := (fc_metrics c1)\<lparr>fm_reconnect_failures := fm_reconnect_failures (fc_metrics c1) + 1\<rparr>\<rparr>)))"

definition manager_alive :: "datetime \<Rightarrow> feed_connection \<Rightarrow> bool option" where
  "manager_alive now c = (if fc_state c \<noteq> CN_CONNECTED then Some False else heartbeat_alive now (fc_heartbeat c))"

text \<open>One turn of the watchdog.\<close>

definition monitor_turn ::
  "datetime \<Rightarrow> teardown \<Rightarrow> (nat \<Rightarrow> string option) \<Rightarrow> feed_connection \<Rightarrow> (feed_error, unit) result option \<times> feed_connection" where
  "monitor_turn now teardown outcome c =
     (if fc_state c \<noteq> CN_CONNECTED then (Some (Inr ()), c)
      else
        (case heartbeat_alive now (fc_heartbeat c) of
           None \<Rightarrow> (Some (Inl FeedTypeError), c)
         | Some True \<Rightarrow> (Some (Inr ()), c)
         | Some False \<Rightarrow>
             (case manager_reconnect now teardown outcome
                 (c\<lparr>fc_metrics := (fc_metrics c)\<lparr>fm_heartbeat_failures := fm_heartbeat_failures (fc_metrics c) + 1\<rparr>\<rparr>) of
                (None, c') \<Rightarrow> (None, c')
              | (Some (Inl err), c') \<Rightarrow> (Some (Inl err), c')
              | (Some (Inr _), c') \<Rightarrow> (Some (Inr ()), c'))))"

text \<open>The handler of the service: any event proves that the connection is alive, then it is queued.\<close>

definition service_on_event :: "datetime \<Rightarrow> raw_event \<Rightarrow> feed_engine \<times> feed_connection \<Rightarrow> feed_engine \<times> feed_connection" where
  "service_on_event now ev = (\<lambda>(e, c). (snd (enqueue_event e ev), c\<lparr>fc_heartbeat := record_heartbeat now (fc_heartbeat c)\<rparr>))"

section \<open>History\<close>

text \<open>The answer of the provider to one request: records, an error worth a retry, or another exception.  Requests carry the cursor
  and the page size.\<close>

datatype 'a answer = Batch "'a list" | Transient string | Fatal string

record history_client =
  hc_max_candles :: nat
  hc_page_size :: nat
  hc_retry_attempts :: nat

datatype history_error = HistoricalDataError string | HistoryValueError string | ProviderFault string

fun retry_awaitable :: "nat \<Rightarrow> nat \<Rightarrow> (nat \<Rightarrow> 'a answer) \<Rightarrow> nat \<Rightarrow> (history_error, 'a list) result" where
  "retry_awaitable attempts 0 ask k =
     Inl (HistoricalDataError (''historical fetch failed after '' @ nat_str attempts @ '' attempts''))"
| "retry_awaitable attempts (Suc left) ask k =
     (case ask k of
        Batch xs \<Rightarrow> Inr xs
      | Transient _ \<Rightarrow> retry_awaitable attempts left ask (Suc k)
      | Fatal e \<Rightarrow> Inl (ProviderFault e))"

lemma sort_key_nonempty [simp]: "sort_key f xs = [] \<longleftrightarrow> xs = []"
  by (metis length_0_conv length_sort)

text \<open>The loop of \<^verbatim>\<open>fetch_candles\<close> and \<^verbatim>\<open>fetch_ticks\<close>; \<open>time\<close> is the time of a record, \<open>ask c k\<close> the answer to the
  \<open>k\<close>-th attempt of the request with cursor \<open>c\<close>.  Times are aware, so they compare by their instants.\<close>

function fetch_pages ::
  "history_client \<Rightarrow> ('a \<Rightarrow> int) \<Rightarrow> (int \<Rightarrow> nat \<Rightarrow> 'a answer) \<Rightarrow> 'a list \<Rightarrow> int \<Rightarrow> (history_error, 'a list) result" where
  "fetch_pages h time ask acc cursor =
     (if hc_max_candles h \<le> length acc then Inr (take (hc_max_candles h) acc)
      else
        (case retry_awaitable (hc_retry_attempts h) (hc_retry_attempts h) (ask cursor) 1 of
           Inl e \<Rightarrow> Inl e
         | Inr batch \<Rightarrow>
             if batch = [] then Inr (take (hc_max_candles h) acc)
             else
               (let page = sort_key time batch; acc' = acc @ page; latest = time (last page) in
                if latest \<le> cursor then Inr (take (hc_max_candles h) acc')
                else fetch_pages h time ask acc' latest)))"
  by pat_completeness auto
termination
  by (relation "measure (\<lambda>(h, _, _, acc, _). hc_max_candles h - length acc)")
    (auto simp: length_greater_0_conv [symmetric] simp del: length_greater_0_conv)

declare fetch_pages.simps [simp del]

definition fetch_history ::
  "history_client \<Rightarrow> ('a \<Rightarrow> int) \<Rightarrow> (int \<Rightarrow> nat \<Rightarrow> 'a answer) \<Rightarrow> int \<Rightarrow> int \<Rightarrow> (history_error, 'a list) result" where
  "fetch_history h time ask start stop =
     rbind (guard (start < stop) (HistoryValueError ''end must be after start'')) (\<lambda>_. fetch_pages h time ask [] start)"

definition fetch_candles ::
  "history_client \<Rightarrow> (int \<Rightarrow> nat \<Rightarrow> market_candle answer) \<Rightarrow> datetime \<Rightarrow> datetime \<Rightarrow> (history_error, market_candle list) result" where
  "fetch_candles h ask start stop = fetch_history h (\<lambda>c. instant (cd_candle_start c)) ask (instant start) (instant stop)"

definition fetch_ticks ::
  "history_client \<Rightarrow> (int \<Rightarrow> nat \<Rightarrow> market_tick answer) \<Rightarrow> datetime \<Rightarrow> datetime \<Rightarrow> (history_error, market_tick list) result" where
  "fetch_ticks h ask start stop = fetch_history h (\<lambda>t. instant (tk_timestamp t)) ask (instant start) (instant stop)"

text \<open>The provider with keyset pages: the cursor is exclusive, the end inclusive.\<close>

definition keyset_page :: "('a \<Rightarrow> int) \<Rightarrow> 'a list \<Rightarrow> int \<Rightarrow> int \<Rightarrow> nat \<Rightarrow> 'a list" where
  "keyset_page time stored start stop limit = take limit (sort_key time (filter (\<lambda>x. start < time x \<and> time x \<le> stop) stored))"

definition keyset_provider :: "('a \<Rightarrow> int) \<Rightarrow> 'a list \<Rightarrow> int \<Rightarrow> nat \<Rightarrow> int \<Rightarrow> nat \<Rightarrow> 'a answer" where
  "keyset_provider time stored stop limit cursor k = Batch (keyset_page time stored cursor stop limit)"

text \<open>A provider that fails now and then: \<open>fails c k\<close> says whether the \<open>k\<close>-th attempt of the request with cursor \<open>c\<close> ends in a
  transient error.\<close>

definition flaky :: "(int \<Rightarrow> nat \<Rightarrow> bool) \<Rightarrow> (int \<Rightarrow> nat \<Rightarrow> 'a answer) \<Rightarrow> int \<Rightarrow> nat \<Rightarrow> 'a answer" where
  "flaky fails ask cursor k = (if fails cursor k then Transient ''connection error'' else ask cursor k)"

section \<open>Paging is a single query\<close>

text \<open>Retrying gives the answer of the first attempt that does not fail, and an error when all of them fail.\<close>

lemma retry_awaitable_first:
  assumes "\<And>k. ask k = Batch xs \<or> (\<exists>e. ask k = Transient e)" "\<exists>k. first \<le> k \<and> k < first + left \<and> ask k = Batch xs"
  shows "retry_awaitable attempts left ask first = Inr xs"
  using assms(2)
proof (induction left arbitrary: first)
  case (Suc left)
  consider "ask first = Batch xs" | e where "ask first = Transient e" using assms(1) by blast
  then show ?case
  proof cases
    case 2
    then have "\<exists>k. Suc first \<le> k \<and> k < Suc first + left \<and> ask k = Batch xs"
      using Suc.prems by (metis add_Suc add_Suc_right answer.distinct(1) not_less_eq_eq order_antisym_conv)
    then show ?thesis using 2 Suc.IH by simp
  qed simp
qed auto

lemma retry_awaitable_exhausted:
  assumes "\<forall>k. first \<le> k \<and> k < first + left \<longrightarrow> (\<exists>e. ask k = Transient e)"
  shows "retry_awaitable attempts left ask first = Inl (HistoricalDataError (''historical fetch failed after '' @ nat_str attempts @ '' attempts''))"
  using assms
proof (induction left arbitrary: first)
  case (Suc left)
  obtain e where "ask first = Transient e" using Suc.prems by auto
  then show ?case using Suc.IH [of "Suc first"] Suc.prems by simp
qed simp

text \<open>Each request has an attempt that does not fail.\<close>

definition answers_in_time :: "(int \<Rightarrow> nat \<Rightarrow> bool) \<Rightarrow> nat \<Rightarrow> bool" where
  "answers_in_time fails attempts \<longleftrightarrow> (\<forall>cursor. \<exists>k. 1 \<le> k \<and> k \<le> attempts \<and> \<not> fails cursor k)"

lemma after_page:
  assumes "sorted_wrt (\<lambda>a b. time a < time b) xs" "take n xs \<noteq> []"
  shows "filter (\<lambda>x. (time (last (take n xs)) :: int) < time x) xs = drop n xs"
proof -
  let ?p = "take n xs" and ?r = "drop n xs"
  have sorted: "sorted_wrt (\<lambda>a b. time a < time b) (?p @ ?r)" using assms(1) by simp
  then have early: "time a \<le> time (last ?p)" if "a \<in> set ?p" for a
    using that by (cases ?p rule: rev_cases) (auto simp: sorted_wrt_append)
  have late: "time (last ?p) < time b" if "b \<in> set ?r" for b
    using sorted [unfolded sorted_wrt_append] last_in_set [OF assms(2)] that by blast
  have "filter (\<lambda>x. time (last ?p) < time x) ?p = []" using early by (simp add: filter_empty_conv not_less)
  moreover have "filter (\<lambda>x. time (last ?p) < time x) ?r = ?r" using late by (simp add: filter_id_conv)
  ultimately show ?thesis using filter_append [of "\<lambda>x. time (last ?p) < time x" ?p ?r] by simp
qed

lemma strictly_sorted:
  assumes "distinct (map time xs)"
  shows "sorted_wrt (\<lambda>a b. time a < (time b :: int)) (sort_key time xs)"
proof -
  have "distinct (map time (sort_key time xs))"
    using assms by (metis distinct_map distinct_sort set_sort)
  moreover have "sorted (map time (sort_key time xs))" by simp
  ultimately have "sorted_wrt (<) (map time (sort_key time xs))" by (simp add: strict_sorted_iff)
  then show ?thesis by (simp add: sorted_wrt_map)
qed

definition remaining :: "('a \<Rightarrow> int) \<Rightarrow> 'a list \<Rightarrow> int \<Rightarrow> int \<Rightarrow> 'a list" where
  "remaining time stored stop cursor = sort_key time (filter (\<lambda>x. cursor < time x \<and> time x \<le> stop) stored)"

lemma remaining_after_page:
  assumes "distinct (map time stored)" "take n (remaining time stored stop cursor) \<noteq> []"
  shows "remaining time stored stop (time (last (take n (remaining time stored stop cursor)))) = drop n (remaining time stored stop cursor)"
proof -
  let ?R = "remaining time stored stop cursor"
  let ?l = "time (last (take n ?R))"
  have "distinct (map time (filter (\<lambda>x. cursor < time x \<and> time x \<le> stop) stored))" using assms(1) by (simp add: distinct_map_filter)
  then have "filter (\<lambda>x. ?l < time x) ?R = drop n ?R"
    using after_page [of time ?R n] assms(2) by (simp add: strictly_sorted remaining_def)
  moreover have "last (take n ?R) \<in> set ?R" using assms(2) by (metis in_set_takeD last_in_set)
  then have "cursor < ?l" by (simp add: remaining_def)
  then have "filter (\<lambda>x. ?l < time x) ?R = remaining time stored stop ?l"
    by (auto simp: remaining_def filter_sort conj_commute intro!: arg_cong [where f = "sort_key time"] filter_cong)
  ultimately show ?thesis by simp
qed

lemma fetch_pages_complete:
  assumes "distinct (map time stored)" "1 \<le> hc_page_size h" "answers_in_time fails (hc_retry_attempts h)"
  shows "fetch_pages h time (flaky fails (keyset_provider time stored stop (hc_page_size h))) acc cursor =
    Inr (take (hc_max_candles h) (acc @ remaining time stored stop cursor))"
proof (induction "hc_max_candles h - length acc" arbitrary: acc cursor rule: less_induct)
  case less
  let ?R = "remaining time stored stop cursor" and ?n = "hc_page_size h"
  let ?ask = "flaky fails (keyset_provider time stored stop ?n)"
  have page: "retry_awaitable (hc_retry_attempts h) (hc_retry_attempts h) (?ask cursor) 1 = Inr (take ?n ?R)"
  proof (rule retry_awaitable_first)
    show "?ask cursor k = Batch (take ?n ?R) \<or> (\<exists>e. ?ask cursor k = Transient e)" for k
      by (simp add: flaky_def keyset_provider_def keyset_page_def remaining_def)
    obtain k where "1 \<le> k" "k \<le> hc_retry_attempts h" "\<not> fails cursor k" using assms(3) by (auto simp: answers_in_time_def)
    then show "\<exists>k. 1 \<le> k \<and> k < 1 + hc_retry_attempts h \<and> ?ask cursor k = Batch (take ?n ?R)"
      by (intro exI [of _ k]) (simp add: flaky_def keyset_provider_def keyset_page_def remaining_def)
  qed
  show ?case
  proof (cases "hc_max_candles h \<le> length acc \<or> ?R = []")
    case True
    then show ?thesis using page by (auto simp: fetch_pages.simps [of h time ?ask acc cursor])
  next
    case False
    then have ne: "take ?n ?R \<noteq> []" using assms(2) by simp
    then have "0 < length (take ?n ?R)" by simp
    then have dec: "hc_max_candles h - length (acc @ take ?n ?R) < hc_max_candles h - length acc"
      using False by (simp only: length_append) linarith
    have sorted: "sort_key time (take ?n ?R) = take ?n ?R"
      by (rule sort_key_id_if_sorted) (simp add: remaining_def take_map [symmetric] sorted_wrt_take)
    have "last (take ?n ?R) \<in> set ?R" using ne by (metis in_set_takeD last_in_set)
    then have "cursor < time (last (take ?n ?R))" by (simp add: remaining_def)
    then have "fetch_pages h time ?ask acc cursor = fetch_pages h time ?ask (acc @ take ?n ?R) (time (last (take ?n ?R)))"
      using False page ne sorted by (simp add: fetch_pages.simps [of h time ?ask acc cursor] Let_def)
    also have "\<dots> = Inr (take (hc_max_candles h) ((acc @ take ?n ?R) @ drop ?n ?R))"
      unfolding less [OF dec] remaining_after_page [OF assms(1) ne] ..
    finally show ?thesis by simp
  qed
qed

text \<open>C29.  Paged retrieval from a provider with keyset pages that fails now and then with transient errors.  (1) When no two stored
  candles have the same start and every request has an attempt within the configured number that does not fail, fetching page
  by page, in whatever page size, returns what one query would: the candles after the start and up to the end, in order of time, cut at the
  limit.  (2) When all attempts of the first request fail, the retrieval raises \<^verbatim>\<open>HistoricalDataError\<close>.\<close>

theorem paged_history_complete:
  fixes fails :: "int \<Rightarrow> nat \<Rightarrow> bool" and stored :: "market_candle list"
  assumes "distinct (map (\<lambda>c. instant (cd_candle_start c)) stored)" "1 \<le> hc_page_size h" "1 \<le> hc_max_candles h"
    and "instant start < instant stop"
  defines "answer \<equiv> fetch_candles h
    (flaky fails (keyset_provider (\<lambda>c. instant (cd_candle_start c)) stored (instant stop) (hc_page_size h))) start stop"
  shows "(answers_in_time fails (hc_retry_attempts h) \<longrightarrow>
      answer = Inr (take (hc_max_candles h) (sort_key (\<lambda>c. instant (cd_candle_start c))
        (filter (\<lambda>c. instant start < instant (cd_candle_start c) \<and> instant (cd_candle_start c) \<le> instant stop) stored)))) \<and>
    ((\<forall>k. 1 \<le> k \<and> k \<le> hc_retry_attempts h \<longrightarrow> fails (instant start) k) \<longrightarrow>
      answer = Inl (HistoricalDataError (''historical fetch failed after '' @ nat_str (hc_retry_attempts h) @ '' attempts'')))"
proof (intro conjI impI)
  assume "answers_in_time fails (hc_retry_attempts h)"
  from fetch_pages_complete [OF assms(1,2) this, of "instant stop" "[]" "instant start"] assms(4)
  show "answer = Inr (take (hc_max_candles h) (sort_key (\<lambda>c. instant (cd_candle_start c))
      (filter (\<lambda>c. instant start < instant (cd_candle_start c) \<and> instant (cd_candle_start c) \<le> instant stop) stored)))"
    by (simp add: answer_def fetch_candles_def fetch_history_def remaining_def)
next
  assume down: "\<forall>k. 1 \<le> k \<and> k \<le> hc_retry_attempts h \<longrightarrow> fails (instant start) k"
  let ?ask = "flaky fails (keyset_provider (\<lambda>c. instant (cd_candle_start c)) stored (instant stop) (hc_page_size h))"
  have "retry_awaitable (hc_retry_attempts h) (hc_retry_attempts h) (?ask (instant start)) 1 =
      Inl (HistoricalDataError (''historical fetch failed after '' @ nat_str (hc_retry_attempts h) @ '' attempts''))"
    by (rule retry_awaitable_exhausted) (use down in \<open>simp add: flaky_def\<close>)
  then show "answer = Inl (HistoricalDataError (''historical fetch failed after '' @ nat_str (hc_retry_attempts h) @ '' attempts''))"
    using assms(3,4) by (simp add: answer_def fetch_candles_def fetch_history_def fetch_pages.simps [of h _ ?ask])
qed

text \<open>A record that shares its time with the last record of a page is lost: the cursor is exclusive.\<close>

lemma page_boundary_loss:
  fixes a b :: nat
  shows "fetch_pages \<lparr>hc_max_candles = 10, hc_page_size = 1, hc_retry_attempts = 1\<rparr> (\<lambda>_. 5)
    (keyset_provider (\<lambda>_. 5) [a, b] 9 1) [] 0 = Inr [a]"
  by (simp add: fetch_pages.simps keyset_provider_def keyset_page_def)

section \<open>Bounded reconnection\<close>

declare connect_attempts.simps [simp del]

lemma backoff_delay_bounds:
  "backoff_delay attempt base max_delay = Inr d \<Longrightarrow> base \<le> d \<and> d \<le> max_delay"
proof -
  assume ok: "backoff_delay attempt base max_delay = Inr d"
  have "base \<le> base * 2 ^ k" if "0 < base" for k :: nat
    using mult_left_mono [of 1 "2 ^ k" base] that by simp
  then show ?thesis using ok by (auto simp: backoff_delay_def result_simps min_def)
qed




text \<open>After one exhausted round of attempts the watchdog does nothing any more; a teardown that hangs, or a wrong
  configuration of the delays, leaves the state RECONNECTING, which the watchdog does not look at either.\<close>

lemma watchdog_gives_up: "fc_state c \<in> {CN_FAILED, CN_RECONNECTING} \<Longrightarrow> monitor_turn now teardown outcome c = (Some (Inr ()), c)"
  by (auto simp: monitor_turn_def)

lemma hanging_teardown_stuck:
  "fst (manager_reconnect now Teardown_Hangs outcome c) = None \<and> fc_state (snd (manager_reconnect now Teardown_Hangs outcome c)) = CN_RECONNECTING"
  by (simp add: manager_reconnect_def Let_def)

section \<open>The queue\<close>

datatype 'a queue_op = Put 'a | Get

fun queue_run :: "'a bounded_queue \<Rightarrow> 'a queue_op list \<Rightarrow> 'a list \<times> 'a bounded_queue" where
  "queue_run q [] = ([], q)"
| "queue_run q (Put x # ops) = queue_run (snd (put_nowait q x)) ops"
| "queue_run q (Get # ops) =
     (case queue_get q of
        None \<Rightarrow> queue_run q ops
      | Some (x, q') \<Rightarrow> (let (got, q'') = queue_run q' ops in (x # got, q'')))"

fun puts :: "'a queue_op list \<Rightarrow> 'a list" where
  "puts [] = []"
| "puts (Put x # ops) = x # puts ops"
| "puts (Get # ops) = puts ops"

definition queue_ok :: "'a bounded_queue \<Rightarrow> bool" where
  "queue_ok q \<longleftrightarrow> 1 \<le> bq_maxsize q \<and> length (bq_items q) \<le> bq_maxsize q"

lemma put_nowait_ok:
  assumes "queue_ok q"
  shows "queue_ok (snd (put_nowait q x)) \<and> subseq (bq_items (snd (put_nowait q x))) (bq_items q @ [x]) \<and>
    Suc (length (bq_items q) + bq_dropped q) = length (bq_items (snd (put_nowait q x))) + bq_dropped (snd (put_nowait q x))"
proof -
  have "subseq (drop 1 (bq_items q) @ [x]) (bq_items q @ [x])"
    by (intro list_emb_append_mono suffix_imp_subseq) (auto simp: suffix_drop)
  then show ?thesis using assms
    by (cases "bq_policy q") (auto simp: put_nowait_def queue_ok_def queue_full_def)
qed

lemma queue_run_ok:
  assumes "queue_ok q" "queue_run q ops = (got, q')"
  shows "queue_ok q' \<and> subseq (got @ bq_items q') (bq_items q @ puts ops) \<and>
    length (bq_items q) + length (puts ops) + bq_dropped q = length got + length (bq_items q') + bq_dropped q'"
  using assms
proof (induction q ops arbitrary: got rule: queue_run.induct)
  case (2 q x ops)
  let ?q = "snd (put_nowait q x)"
  have ok: "queue_ok ?q" "subseq (bq_items ?q) (bq_items q @ [x])"
      "Suc (length (bq_items q) + bq_dropped q) = length (bq_items ?q) + bq_dropped ?q"
    using put_nowait_ok [OF 2(2), of x] by auto
  have "subseq (bq_items ?q @ puts ops) ((bq_items q @ [x]) @ puts ops)" using ok(2) by (intro list_emb_append_mono) auto
  then show ?case using 2(1) [OF ok(1)] 2(3) ok(3) by (auto intro: subseq_order.trans)
next
  case (3 q ops)
  show ?case
  proof (cases "bq_items q")
    case Nil
    then show ?thesis using 3 by (simp add: queue_get_def)
  next
    case (Cons x xs)
    let ?q = "q\<lparr>bq_items := xs\<rparr>"
    have "queue_ok ?q" using 3(3) Cons by (simp add: queue_ok_def)
    then show ?thesis using 3 Cons by (auto simp: queue_get_def split: prod.splits)
  qed
qed auto

text \<open>C30.  Whatever is put into and taken from a new queue, under either policy: it never holds more than its size; what was taken, followed by
  what it still holds, is a part of what was put, in the same order; and everything put was taken, is held or was counted as
  dropped.\<close>

theorem queue_bounded_fifo:
  assumes "mk_bounded_queue maxsize policy = Inr q" "queue_run q ops = (got, q')"
  shows "int (length (bq_items q')) \<le> maxsize \<and> subseq (got @ bq_items q') (puts ops) \<and>
    length (puts ops) = length got + length (bq_items q') + bq_dropped q'"
proof -
  have q: "queue_ok q" "bq_items q = []" "bq_dropped q = 0" "int (bq_maxsize q) = maxsize"
    using assms(1) by (auto simp: mk_bounded_queue_def queue_ok_def result_simps)
  have "bq_maxsize (snd (queue_run p os)) = bq_maxsize p" for p :: "'a bounded_queue" and os
  proof (induction p os rule: queue_run.induct)
    case (2 p x os)
    then show ?case by (cases "bq_policy p") (auto simp: put_nowait_def split: if_splits)
  next
    case (3 p os)
    then show ?case by (cases "bq_items p") (auto simp: queue_get_def split: prod.splits)
  qed simp
  then have "bq_maxsize q' = bq_maxsize q" using assms(2) by (metis snd_conv)
  then show ?thesis using queue_run_ok [OF q(1) assms(2)] q by (auto simp: queue_ok_def)
qed

section \<open>The pipeline\<close>

lemma safe_dispatch_simps [simp]:
  "fe_delivered (safe_dispatch env v e c) = fe_delivered e @ [(c, v)]" "fe_seen (safe_dispatch env v e c) = fe_seen e"
  "fe_dedupe_maxsize (safe_dispatch env v e c) = fe_dedupe_maxsize e" "fe_allowed_symbols (safe_dispatch env v e c) = fe_allowed_symbols e"
  "fe_tick_consumers (safe_dispatch env v e c) = fe_tick_consumers e" "fe_max_age (safe_dispatch env v e c) = fe_max_age e"
  "fe_repository (safe_dispatch env v e c) = fe_repository e"
  by (simp_all add: safe_dispatch_def count_metric_def Let_def)

lemma fan_out_simps [simp]:
  "fe_delivered (fan_out_record env cs v e) = fe_delivered e @ map (\<lambda>c. (c, v)) cs" "fe_seen (fan_out_record env cs v e) = fe_seen e"
  "fe_dedupe_maxsize (fan_out_record env cs v e) = fe_dedupe_maxsize e" "fe_allowed_symbols (fan_out_record env cs v e) = fe_allowed_symbols e"
  "fe_tick_consumers (fan_out_record env cs v e) = fe_tick_consumers e" "fe_max_age (fan_out_record env cs v e) = fe_max_age e"
  "fe_repository (fan_out_record env cs v e) = fe_repository e"
  unfolding fan_out_record_def by (induction cs arbitrary: e) simp_all

lemma store_simps [simp]:
  "fe_delivered (store_tick env t e) = fe_delivered e" "fe_seen (store_tick env t e) = fe_seen e"
  "fe_dedupe_maxsize (store_tick env t e) = fe_dedupe_maxsize e" "fe_allowed_symbols (store_tick env t e) = fe_allowed_symbols e"
  "fe_tick_consumers (store_tick env t e) = fe_tick_consumers e" "fe_max_age (store_tick env t e) = fe_max_age e"
  "fe_delivered (store_candle env c e) = fe_delivered e" "fe_seen (store_candle env c e) = fe_seen e"
  "fe_dedupe_maxsize (store_candle env c e) = fe_dedupe_maxsize e" "fe_allowed_symbols (store_candle env c e) = fe_allowed_symbols e"
  "fe_tick_consumers (store_candle env c e) = fe_tick_consumers e" "fe_max_age (store_candle env c e) = fe_max_age e"
  by (simp_all add: store_tick_def store_candle_def count_metric_def split: option.split)

lemma count_simps [simp]:
  "fe_delivered (count_metric f e) = fe_delivered e" "fe_seen (count_metric f e) = fe_seen e"
  "fe_dedupe_maxsize (count_metric f e) = fe_dedupe_maxsize e" "fe_allowed_symbols (count_metric f e) = fe_allowed_symbols e"
  "fe_tick_consumers (count_metric f e) = fe_tick_consumers e" "fe_max_age (count_metric f e) = fe_max_age e"
  "fe_candle_consumers (count_metric f e) = fe_candle_consumers e" "fe_repository (count_metric f e) = fe_repository e"
  by (simp_all add: count_metric_def)

text \<open>A tick is fit for delivery at a moment when it meets the contract, its symbol is allowed and it is neither from the future nor too old.\<close>

definition tick_fit :: "string list option \<Rightarrow> int \<Rightarrow> datetime \<Rightarrow> market_tick \<Rightarrow> bool" where
  "tick_fit allowed max_age now t \<longleftrightarrow>
     tick_valid t \<and> (case allowed of None \<Rightarrow> True | Some xs \<Rightarrow> tk_symbol t \<in> set xs) \<and>
     instant (tk_timestamp t) \<le> instant now \<and> instant now - instant (tk_timestamp t) \<le> max_age"

definition same_setup :: "feed_engine \<Rightarrow> feed_engine \<Rightarrow> bool" where
  "same_setup e e' \<longleftrightarrow> fe_dedupe_maxsize e' = fe_dedupe_maxsize e \<and> fe_allowed_symbols e' = fe_allowed_symbols e \<and>
     fe_tick_consumers e' = fe_tick_consumers e \<and> fe_max_age e' = fe_max_age e"

lemma ingest_tick_quiet:
  assumes "duplicate_tick (fe_dedupe_maxsize e) t (fe_seen e) = (dup, seen)"
    and "dup \<or> evaluate_staleness t (fv_now env) (fe_max_age e) \<noteq> Inr TICK_FRESH"
  shows "fe_delivered (snd (ingest_tick env e t)) = fe_delivered e \<and> fe_seen (snd (ingest_tick env e t)) = seen \<and>
    same_setup e (snd (ingest_tick env e t))"
  using assms by (auto simp: ingest_tick_def Let_def same_setup_def split: sum.split staleness.split)

lemma ingest_tick_delivers:
  assumes "duplicate_tick (fe_dedupe_maxsize e) t (fe_seen e) = (False, seen)"
    and "evaluate_staleness t (fv_now env) (fe_max_age e) = Inr TICK_FRESH"
  shows "fe_delivered (snd (ingest_tick env e t)) = fe_delivered e @ map (\<lambda>c. (c, Tick t)) (fe_tick_consumers e) \<and>
    fe_seen (snd (ingest_tick env e t)) = seen \<and> same_setup e (snd (ingest_tick env e t))"
  using assms by (simp add: ingest_tick_def Let_def same_setup_def)

lemma fresh_tick_fit:
  assumes "tick_valid t" "check_supported_symbol (tk_symbol t) allowed = Inr u" "evaluate_staleness t now max_age = Inr TICK_FRESH"
  shows "tick_fit allowed max_age now t"
  using assms
  by (auto simp: check_supported_symbol_def evaluate_staleness_def tick_fit_def datetime_diff_def result_simps split: if_splits)

text \<open>What one event can do: nothing to the ticks delivered (and then at most remember a key), or deliver one fit tick with a key that
  was not remembered.\<close>

definition event_effect :: "feed_env \<Rightarrow> raw_event \<Rightarrow> feed_engine \<Rightarrow> feed_engine \<Rightarrow> bool" where
  "event_effect env ev e e' \<longleftrightarrow> same_setup e e' \<and>
     ((\<exists>vs. fe_delivered e' = fe_delivered e @ vs \<and> list_all (\<lambda>v. is_candle (snd v)) vs \<and>
        (fe_seen e' = fe_seen e \<or> (\<exists>t. fe_seen e' = snd (duplicate_tick (fe_dedupe_maxsize e) t (fe_seen e))))) \<or>
      (\<exists>t. fe_delivered e' = fe_delivered e @ map (\<lambda>c. (c, Tick t)) (fe_tick_consumers e) \<and>
        normalize_event env ev = Inr (Tick t) \<and> tick_fit (fe_allowed_symbols e) (fe_max_age e) (fv_now env) t \<and>
        duplicate_tick (fe_dedupe_maxsize e) t (fe_seen e) = (False, fe_seen e')))"

lemma event_effect_count [simp]: "event_effect env ev (count_metric f e) e' = event_effect env ev e e'"
  by (simp add: event_effect_def same_setup_def)

lemma ingest_tick_effect:
  assumes "tick_valid t" "check_supported_symbol (tk_symbol t) (fe_allowed_symbols e) = Inr u" "normalize_event env ev = Inr (Tick t)"
  shows "event_effect env ev e (snd (ingest_tick env e t))"
proof -
  obtain dup seen where d: "duplicate_tick (fe_dedupe_maxsize e) t (fe_seen e) = (dup, seen)" by (rule prod.exhaust)
  show ?thesis
  proof (cases "\<not> dup \<and> evaluate_staleness t (fv_now env) (fe_max_age e) = Inr TICK_FRESH")
    case True
    then show ?thesis
      using ingest_tick_delivers [of e t seen env] d fresh_tick_fit [OF assms(1,2)] assms(3) by (auto simp: event_effect_def)
  next
    case False
    then have "fe_delivered (snd (ingest_tick env e t)) = fe_delivered e @ [] \<and>
        fe_seen (snd (ingest_tick env e t)) = snd (duplicate_tick (fe_dedupe_maxsize e) t (fe_seen e)) \<and> same_setup e (snd (ingest_tick env e t))"
      using ingest_tick_quiet [OF d] d by auto
    then show ?thesis by (auto simp: event_effect_def)
  qed
qed

lemma ingest_raw_effect: "event_effect env ev e (snd (ingest_raw env e ev))"
proof -
  have quiet: "event_effect env ev e (snd (reject_raw (count_metric f e) why))" "event_effect env ev e (snd (reject_raw e why))" for f why
    by (simp_all add: reject_raw_def event_effect_def same_setup_def)
  have candle: "event_effect env ev e (snd (ingest_candle env (count_metric f e) c))" for f c
    by (auto simp: ingest_candle_def event_effect_def same_setup_def list_all_iff)
  have "event_effect env ev e (snd (case r of
       Tick t \<Rightarrow> ingest_tick env (count_metric (\<lambda>m. m\<lparr>fm_ticks_received := fm_ticks_received m + 1\<rparr>) e) t
     | Candle c \<Rightarrow> ingest_candle env (count_metric (\<lambda>m. m\<lparr>fm_candles_received := fm_candles_received m + 1\<rparr>) e) c))"
    if "normalize_event env ev = Inr r" "check_supported_symbol (rec_symbol r) (fe_allowed_symbols e) = Inr u" for r u
    using normalize_valid [OF that(1)] that candle ingest_tick_effect [of _ "count_metric _ e" u env ev]
    by (cases r) simp_all
  then show ?thesis
    using quiet by (simp add: ingest_raw_def split: sum.split)
qed

text \<open>The ticks a consumer was given.\<close>

definition tick_for :: "nat \<Rightarrow> nat \<times> market_record \<Rightarrow> market_tick option" where
  "tick_for c v = (case snd v of Tick t \<Rightarrow> if fst v = c then Some t else None | Candle _ \<Rightarrow> None)"

definition ticks_for :: "nat \<Rightarrow> (nat \<times> market_record) list \<Rightarrow> market_tick list" where
  "ticks_for c vs = List.map_filter (tick_for c) vs"

lemma map_filter_append: "List.map_filter f (xs @ ys) = List.map_filter f xs @ List.map_filter f ys"
  by (induction xs) (simp_all split: option.split)

lemma ticks_for_append [simp]: "ticks_for c (vs @ ws) = ticks_for c vs @ ticks_for c ws"
  by (simp add: ticks_for_def map_filter_append)

lemma ticks_for_candles: "list_all (\<lambda>v. is_candle (snd v)) vs \<Longrightarrow> ticks_for c vs = []"
  by (induction vs) (auto simp: ticks_for_def tick_for_def split: market_record.split)

lemma ticks_for_fan_out: "distinct cs \<Longrightarrow> ticks_for c (map (\<lambda>c. (c, Tick t)) cs) = (if c \<in> set cs then [t] else [])"
  by (induction cs) (auto simp: ticks_for_def tick_for_def)

definition feed_run :: "feed_engine \<Rightarrow> (feed_env \<times> raw_event) list \<Rightarrow> feed_engine" where
  "feed_run e calls = foldl (\<lambda>e (env, ev). snd (ingest_raw env e ev)) e calls"

definition feed_inv :: "nat \<Rightarrow> nat \<Rightarrow> feed_engine \<Rightarrow> bool" where
  "feed_inv c n e \<longleftrightarrow> od_ok (fe_seen e) \<and> length (fe_seen e) \<le> n \<and> distinct (map key_of_tick (ticks_for c (fe_delivered e))) \<and>
     key_of_tick ` set (ticks_for c (fe_delivered e)) \<subseteq> keys_of (fe_seen e)"

lemma duplicate_tick_room:
  assumes "od_ok seen" "pred_option (\<lambda>m. length seen < m) maxsize" "duplicate_tick maxsize t seen = (dup, seen')"
  shows "od_ok seen' \<and> length seen' \<le> Suc (length seen) \<and> dup = (key_of_tick t \<in> keys_of seen) \<and>
    keys_of seen' = insert (key_of_tick t) (keys_of seen)"
proof -
  have spec: "od_ok seen'" "dup = (key_of_tick t \<in> keys_of seen)" "keys_of seen' = insert (key_of_tick t) (keys_of seen)"
    using seen_before_spec [OF assms(1) assms(3) [unfolded duplicate_tick_def]] assms(2) by auto
  then show ?thesis using length_keys_of [OF spec(1)] length_keys_of [OF assms(1)] by (simp add: card_insert_if)
qed

lemma feed_inv_step:
  assumes "feed_inv c n e" "pred_option (\<lambda>m. n < m) (fe_dedupe_maxsize e)" "distinct (fe_tick_consumers e)" "event_effect env ev e e'"
  shows "feed_inv c (Suc n) e'"
proof -
  have room: "pred_option (\<lambda>m. length (fe_seen e) < m) (fe_dedupe_maxsize e)"
    using assms(1,2) by (cases "fe_dedupe_maxsize e") (auto simp: feed_inv_def)
  note inv = assms(1) [unfolded feed_inv_def]
  from assms(4) consider vs where "fe_delivered e' = fe_delivered e @ vs" "list_all (\<lambda>v. is_candle (snd v)) vs" "fe_seen e' = fe_seen e"
    | vs t where "fe_delivered e' = fe_delivered e @ vs" "list_all (\<lambda>v. is_candle (snd v)) vs"
        "fe_seen e' = snd (duplicate_tick (fe_dedupe_maxsize e) t (fe_seen e))"
    | t where "fe_delivered e' = fe_delivered e @ map (\<lambda>c. (c, Tick t)) (fe_tick_consumers e)"
        "duplicate_tick (fe_dedupe_maxsize e) t (fe_seen e) = (False, fe_seen e')"
    unfolding event_effect_def by blast
  then show ?thesis
  proof cases
    case 1
    then show ?thesis using inv by (simp add: feed_inv_def ticks_for_candles)
  next
    case (2 vs t)
    have "duplicate_tick (fe_dedupe_maxsize e) t (fe_seen e) = (fst (duplicate_tick (fe_dedupe_maxsize e) t (fe_seen e)), fe_seen e')"
      using 2(3) by simp
    then show ?thesis using duplicate_tick_room [OF _ room] inv 2(1,2) by (fastforce simp: feed_inv_def ticks_for_candles)
  next
    case (3 t)
    have "key_of_tick t \<notin> keys_of (fe_seen e)" "od_ok (fe_seen e')" "length (fe_seen e') \<le> Suc (length (fe_seen e))"
        "keys_of (fe_seen e') = insert (key_of_tick t) (keys_of (fe_seen e))"
      using duplicate_tick_room [OF _ room 3(2)] inv by auto
    then show ?thesis using inv 3(1) by (auto simp: feed_inv_def ticks_for_fan_out [OF assms(3)])
  qed
qed

lemma event_effect_given:
  assumes "event_effect env ev e e'" "distinct (fe_tick_consumers e)"
  shows "\<exists>given. ticks_for c (fe_delivered e') = ticks_for c (fe_delivered e) @ given \<and>
    list_all (\<lambda>t. normalize_event env ev = Inr (Tick t) \<and> tick_fit (fe_allowed_symbols e) (fe_max_age e) (fv_now env) t) given"
proof -
  from assms(1) consider vs where "fe_delivered e' = fe_delivered e @ vs" "list_all (\<lambda>v. is_candle (snd v)) vs"
    | t where "fe_delivered e' = fe_delivered e @ map (\<lambda>c. (c, Tick t)) (fe_tick_consumers e)" "normalize_event env ev = Inr (Tick t)"
        "tick_fit (fe_allowed_symbols e) (fe_max_age e) (fv_now env) t"
    unfolding event_effect_def by blast
  then show ?thesis
  proof cases
    case 1
    then show ?thesis by (intro exI [of _ "[]"]) (simp add: ticks_for_candles)
  next
    case (2 t)
    then show ?thesis
      by (intro exI [of _ "if c \<in> set (fe_tick_consumers e) then [t] else []"]) (simp add: ticks_for_fan_out [OF assms(2)])
  qed
qed

lemma feed_run_snoc: "feed_run e (calls @ [(env, ev)]) = snd (ingest_raw env (feed_run e calls) ev)"
  by (simp add: feed_run_def)

lemma feed_run_setup: "same_setup e (feed_run e calls)"
proof (induction calls rule: rev_induct)
  case (snoc x calls)
  obtain env ev where x: "x = (env, ev)" by (rule prod.exhaust)
  have "same_setup (feed_run e calls) (snd (ingest_raw env (feed_run e calls) ev))" using ingest_raw_effect by (simp add: event_effect_def)
  then show ?case using snoc by (simp add: x feed_run_snoc same_setup_def)
qed (simp add: feed_run_def same_setup_def)

lemma feed_run_inv:
  assumes "feed_inv c n e" "pred_option (\<lambda>m. n + length calls \<le> m) (fe_dedupe_maxsize e)" "distinct (fe_tick_consumers e)"
  shows "feed_inv c (n + length calls) (feed_run e calls)"
  using assms(2)
proof (induction calls rule: rev_induct)
  case (snoc x calls)
  obtain env ev where x: "x = (env, ev)" by (rule prod.exhaust)
  have same: "fe_dedupe_maxsize (feed_run e calls) = fe_dedupe_maxsize e" "fe_tick_consumers (feed_run e calls) = fe_tick_consumers e"
    using feed_run_setup [of e calls] by (simp_all add: same_setup_def)
  have "pred_option (\<lambda>m. n + length calls < m) (fe_dedupe_maxsize e)" "pred_option (\<lambda>m. n + length calls \<le> m) (fe_dedupe_maxsize e)"
    using snoc.prems by (cases "fe_dedupe_maxsize e"; simp)+
  then show ?case using feed_inv_step [OF snoc.IH _ _ ingest_raw_effect] same assms(3) by (simp add: x feed_run_snoc)
qed (use assms(1) in \<open>simp add: feed_run_def\<close>)

text \<open>C28.  Through any events, whatever their payloads and the failures of consumers and database, a consumer of a new engine in which
  no consumer is registered twice is given no two ticks with the same source and sequence number, as long as the events do not
  exceed the size of the duplicate memory; and what an event adds to the ticks it is given is only the tick the event
  normalises to, which meets the contract, has an allowed symbol and is, by the clock of this very ingestion, neither from the future
  nor older than the maximal age.\<close>

theorem consumers_get_fit_ticks_once:
  assumes "fe_seen e = []" "fe_delivered e = []" "distinct (fe_tick_consumers e)"
    and "pred_option (\<lambda>m. length calls \<le> m) (fe_dedupe_maxsize e)"
  shows "distinct (map key_of_tick (ticks_for c (fe_delivered (feed_run e calls)))) \<and>
    (\<forall>pre env ev post. calls = pre @ (env, ev) # post \<longrightarrow>
      (\<exists>given. ticks_for c (fe_delivered (feed_run e (pre @ [(env, ev)]))) = ticks_for c (fe_delivered (feed_run e pre)) @ given \<and>
        list_all (\<lambda>t. normalize_event env ev = Inr (Tick t) \<and> tick_fit (fe_allowed_symbols e) (fe_max_age e) (fv_now env) t) given))"
proof -
  have "feed_inv c 0 e" using assms(1,2) by (simp add: feed_inv_def ticks_for_def)
  then have "feed_inv c (length calls) (feed_run e calls)" using feed_run_inv [of c 0 e calls] assms(3,4) by simp
  moreover have "\<exists>given. ticks_for c (fe_delivered (feed_run e (pre @ [(env, ev)]))) = ticks_for c (fe_delivered (feed_run e pre)) @ given \<and>
      list_all (\<lambda>t. normalize_event env ev = Inr (Tick t) \<and> tick_fit (fe_allowed_symbols e) (fe_max_age e) (fv_now env) t) given" for pre env ev
    using event_effect_given [OF ingest_raw_effect, of "feed_run e pre" c env ev] feed_run_setup [of e pre] assms(3)
    by (simp add: feed_run_snoc same_setup_def)
  ultimately show ?thesis by (simp add: feed_inv_def)
qed

text \<open>A tick refused for its time is remembered all the same: delivered again when its time has come, it is a duplicate.\<close>

lemma refused_tick_remembered:
  assumes "fst (ingest_tick env e t) = Inr res" "fi_status res \<in> {ING_FUTURE, ING_STALE}" "fe_dedupe_maxsize e = None"
  shows "\<exists>res'. fst (ingest_tick env' (snd (ingest_tick env e t)) t) = Inr res' \<and> fi_status res' = ING_DUPLICATE"
proof -
  obtain seen where "duplicate_tick None t (fe_seen e) = (False, seen)" "fe_seen (snd (ingest_tick env e t)) = seen"
      "fe_dedupe_maxsize (snd (ingest_tick env e t)) = None"
    using assms by (cases "duplicate_tick None t (fe_seen e)")
      (auto simp: ingest_tick_def Let_def feed_result_def split: if_splits sum.splits staleness.splits)
  moreover from this(1) have "map_of seen (key_of_tick t) = Some ()" by (auto simp: duplicate_tick_def seen_before_def split: if_splits)
  ultimately show ?thesis by (simp add: ingest_tick_def duplicate_tick_def seen_before_def Let_def feed_result_def)
qed

section \<open>Witnesses\<close>

definition zero_feed_metrics :: feed_metrics where
  "zero_feed_metrics = \<lparr>fm_connected = 0, fm_disconnected = 0, fm_connect_failures = 0, fm_reconnects = 0, fm_reconnect_failures = 0,
     fm_heartbeat_failures = 0, fm_ticks_received = 0, fm_candles_received = 0, fm_duplicates = 0, fm_stale = 0, fm_future = 0, fm_rejected = 0,
     fm_normalization_failures = 0, fm_dropped = 0, fm_persisted_ticks = 0, fm_persisted_candles = 0, fm_persistence_failures = 0,
     fm_consumer_failures = 0\<rparr>"



theorem queue_bounded_fifo_witness:
  "\<exists>q q'. mk_bounded_queue 2 ''drop_oldest'' = Inr q \<and> queue_run q [Put (1 :: nat), Put 2, Put 3, Get] = ([2], q') \<and>
     int (length (bq_items q')) \<le> 2 \<and> subseq ([2] @ bq_items q') [1, 2, 3] \<and> bq_dropped q' = 1"
proof -
  obtain q :: "nat bounded_queue" where q: "mk_bounded_queue 2 ''drop_oldest'' = Inr q"
      "q = \<lparr>bq_items = [], bq_maxsize = 2, bq_policy = DROP_OLDEST, bq_dropped = 0\<rparr>"
    by (simp add: mk_bounded_queue_def)
  have run: "queue_run q [Put 1, Put 2, Put 3, Get] = ([2], q\<lparr>bq_items := [3], bq_dropped := 1\<rparr>)"
    by (simp add: q(2) put_nowait_def queue_full_def queue_get_def)
  show ?thesis using queue_bounded_fifo [OF q(1) run] q run by auto
qed

definition sample_minute :: "int \<Rightarrow> market_candle" where
  "sample_minute t = \<lparr>cd_instrument_id = 5, cd_exchange = ''NSE'', cd_symbol = ''ABC'', cd_timeframe = ONE_MINUTE, cd_candle_start = utc t,
     cd_open_price = 1, cd_high_price = 1, cd_low_price = 1, cd_close_price = 1, cd_volume = None, cd_source_broker = ''b'',
     cd_generated_at = utc t\<rparr>"

theorem paged_history_complete_witness:
  "fetch_candles \<lparr>hc_max_candles = 10, hc_page_size = 1, hc_retry_attempts = 3\<rparr>
     (flaky (\<lambda>_ k. k < 3) (keyset_provider (\<lambda>c. instant (cd_candle_start c)) [sample_minute 3, sample_minute 1, sample_minute 2] 9 1)) (utc 1) (utc 9) =
   Inr [sample_minute 2, sample_minute 3]"
proof -
  have "answers_in_time (\<lambda>_ k. k < 3) 3" by (auto simp: answers_in_time_def intro: exI [of _ 3])
  then show ?thesis
    using paged_history_complete [of "[sample_minute 3, sample_minute 1, sample_minute 2]"
        "\<lparr>hc_max_candles = 10, hc_page_size = 1, hc_retry_attempts = 3\<rparr>" "utc 1" "utc 9" "\<lambda>_ k. k < 3"]
    by (simp add: sample_minute_def)
qed

definition sample_raw_tick :: raw_event where
  "sample_raw_tick = \<lparr>rw_provider = ''fake'', rw_kind = KIND_TICK, rw_payload = [''instrument_id'' \<mapsto> PUuid 5, ''exchange'' \<mapsto> PStr ''NSE'',
     ''symbol'' \<mapsto> PStr ''ABC'', ''timestamp'' \<mapsto> PTime (utc 10), ''ltp'' \<mapsto> PDec 1, ''source_broker'' \<mapsto> PStr ''b'',
     ''source_sequence'' \<mapsto> PStr ''1''], rw_received_at = utc 10\<rparr>"

definition sample_feed_env :: feed_env where
  "sample_feed_env = \<lparr>fv_py = \<lparr>py_sha256 = (\<lambda>_. []), py_digest = (\<lambda>_. []), py_fromisoformat = (\<lambda>_. None), py_json = (\<lambda>_. [])\<rparr>, fv_now = utc 11,
     fv_int = (\<lambda>_. None), fv_message = (\<lambda>_. []), fv_db_fail = False, fv_refs_ok = (\<lambda>_. True), fv_consumer_raises = (\<lambda>_. False)\<rparr>"

definition sample_feed :: feed_engine where
  "sample_feed = \<lparr>fe_repository = None, fe_metrics = zero_feed_metrics, fe_allowed_symbols = None, fe_max_age = usec 5, fe_persist_enabled = True,
     fe_dedupe_maxsize = Some 100000, fe_seen = [], fe_queue = \<lparr>bq_items = [], bq_maxsize = 10, bq_policy = DROP_NEWEST, bq_dropped = 0\<rparr>,
     fe_tick_consumers = [7], fe_candle_consumers = [], fe_delivered = []\<rparr>"

definition sample_tick :: market_tick where
  "sample_tick = \<lparr>tk_instrument_id = 5, tk_exchange = ''NSE'', tk_symbol = ''ABC'', tk_timestamp = utc 10, tk_ltp = 1, tk_volume = None,
     tk_bid = None, tk_ask = None, tk_bid_quantity = None, tk_ask_quantity = None, tk_source_broker = ''b'', tk_source_sequence = ''1'',
     tk_received_at = utc 10\<rparr>"

lemma sample_normalize: "normalize_event sample_feed_env sample_raw_tick = Inr (Tick sample_tick)"
  by (simp add: normalize_event_def normalize_tick_def sample_raw_tick_def raw_get_def raw_opt_def coerce_uuid_def coerce_datetime_def
      coerce_decimal_def coerce_optional_decimal_def field_str_def field_int_def Let_def sample_tick_def tick_valid_def sized_def
      decimal_order dval_def zero_decimal_def one_decimal_def)

lemma sample_valid: "validate_raw_event [KIND_TICK, KIND_CANDLE] sample_raw_tick = Inr ()"
  by (simp add: validate_raw_event_def sample_raw_tick_def tick_required_keys_def)

lemma sample_ingest_raw:
  "fe_allowed_symbols e = None \<Longrightarrow> ingest_raw sample_feed_env e sample_raw_tick =
     ingest_tick sample_feed_env (count_metric (\<lambda>m. m\<lparr>fm_ticks_received := fm_ticks_received m + 1\<rparr>) e) sample_tick"
  by (simp add: ingest_raw_def sample_valid sample_normalize check_supported_symbol_def)

lemma sample_fresh: "evaluate_staleness sample_tick (fv_now sample_feed_env) (usec 5) = Inr TICK_FRESH"
  by (simp add: evaluate_staleness_def datetime_diff_def sample_tick_def sample_feed_env_def usec_def)

lemma sample_duplicate:
  "duplicate_tick (Some 100000) sample_tick [] = (False, [((''b'', ''1''), ())])"
  "duplicate_tick (Some 100000) sample_tick [((''b'', ''1''), ())] = (True, [((''b'', ''1''), ())])"
  by (simp_all add: duplicate_tick_def seen_before_def key_of_tick_def sample_tick_def od_set_def move_to_end_def od_pop_def)

theorem consumers_get_fit_ticks_once_witness:
  "distinct (map key_of_tick (ticks_for 7 (fe_delivered (feed_run sample_feed
     [(sample_feed_env, sample_raw_tick), (sample_feed_env, sample_raw_tick)])))) \<and>
   ticks_for 7 (fe_delivered (feed_run sample_feed [(sample_feed_env, sample_raw_tick), (sample_feed_env, sample_raw_tick)])) = [sample_tick]"
proof -
  let ?calls = "[(sample_feed_env, sample_raw_tick), (sample_feed_env, sample_raw_tick)]"
  let ?c = "count_metric (\<lambda>m. m\<lparr>fm_ticks_received := fm_ticks_received m + 1\<rparr>)"
  let ?e1 = "snd (ingest_tick sample_feed_env (?c sample_feed) sample_tick)"
  have e: "fe_allowed_symbols sample_feed = None" "fe_dedupe_maxsize sample_feed = Some 100000" "fe_seen sample_feed = []"
      "fe_max_age sample_feed = usec 5" "fe_tick_consumers sample_feed = [7]" "fe_delivered sample_feed = []"
    by (simp_all add: sample_feed_def)
  have e1: "fe_delivered ?e1 = [(7, Tick sample_tick)] \<and> fe_seen ?e1 = [((''b'', ''1''), ())] \<and> same_setup (?c sample_feed) ?e1"
    using ingest_tick_delivers [of "?c sample_feed" sample_tick "[((''b'', ''1''), ())]" sample_feed_env] e sample_fresh sample_duplicate(1)
    by simp
  then have "fe_delivered (snd (ingest_tick sample_feed_env (?c ?e1) sample_tick)) = [(7, Tick sample_tick)]"
    using ingest_tick_quiet [of "?c ?e1" sample_tick True "[((''b'', ''1''), ())]" sample_feed_env] e sample_duplicate(2)
    by (simp add: same_setup_def)
  then have "ticks_for 7 (fe_delivered (feed_run sample_feed ?calls)) = [sample_tick]"
    using e e1 by (simp add: feed_run_def sample_ingest_raw same_setup_def ticks_for_def tick_for_def)
  then show ?thesis using consumers_get_fit_ticks_once [of sample_feed ?calls 7] e by simp
qed

end
