(* ===== verification/Paper_Feed.thy ===== *)
theory Paper_Feed
  imports Market_Feed Paper_Broker
begin

text \<open>
  The bridge from market data to the paper broker, \<^verbatim>\<open>services/paper_trading/alpha_algo_paper_feed\<close>: the conversion of a tick into a reference price
  (\<^verbatim>\<open>mapping.py\<close>) and its provenance (\<^verbatim>\<open>provenance.py\<close>).  The checks of Python types are the types of the model, decimals are finite.

  The main results: a tick of the market data service converts exactly when its quote is coherent, to a reference price the paper broker
  accepts; and the key of the provenance is the key of the duplicate check.
\<close>

datatype paper_feed_error = PaperFeedError string | ProvenanceValueError string

definition feed_guard :: "bool \<Rightarrow> string \<Rightarrow> (paper_feed_error, unit) result" where
  "feed_guard c msg = guard c (PaperFeedError msg)"

definition leg_positive :: "decimal option \<Rightarrow> bool" where
  "leg_positive v = (case v of None \<Rightarrow> True | Some p \<Rightarrow> 0 < p)"

text \<open>The constructor of the reference price, whose own checks raise \<^verbatim>\<open>ValueError\<close>, runs last.\<close>

definition tick_to_reference :: "market_tick \<Rightarrow> (paper_feed_error, paper_reference_price) result" where
  "tick_to_reference t =
     rbind (feed_guard (0 < tk_ltp t) ''ltp must be positive'') (\<lambda>_.
     rbind (feed_guard (leg_positive (tk_bid t)) ''bid must be positive'') (\<lambda>_.
     rbind (feed_guard (leg_positive (tk_ask t)) ''ask must be positive'') (\<lambda>_.
     rbind (feed_guard (tz_aware (tk_timestamp t)) ''timestamp must be timezone-aware'') (\<lambda>_.
     rbind (feed_guard (\<not> crossed (Tick t)) ''bid cannot exceed ask'') (\<lambda>_.
     rbind (feed_guard (case (tk_bid t, tk_ask t) of (Some b, Some a) \<Rightarrow> b \<le> tk_ltp t \<and> tk_ltp t \<le> a | _ \<Rightarrow> True)
       ''last must lie within the bid/ask spread when both legs are present'') (\<lambda>_.
     let r = \<lparr>rp_instrument_id = tk_instrument_id t, rp_last = tk_ltp t, rp_bid = tk_bid t, rp_ask = tk_ask t, rp_reference_at = tk_timestamp t\<rparr> in
     rbind (guard (reference_ok r) (ProvenanceValueError ''reference price'')) (\<lambda>_. Inr r)))))))"

record tick_provenance =
  tp_instrument_id :: uuid
  tp_exchange :: string
  tp_symbol :: string
  tp_source_broker :: string
  tp_source_sequence :: string
  tp_timestamp :: datetime
  tp_received_at :: datetime

definition mk_tick_provenance :: "tick_provenance \<Rightarrow> (paper_feed_error, tick_provenance) result" where
  "mk_tick_provenance p =
     rbind (guard (\<not> blank (tp_exchange p)) (ProvenanceValueError ''exchange must be a non-empty string'')) (\<lambda>_.
     rbind (guard (\<not> blank (tp_symbol p)) (ProvenanceValueError ''symbol must be a non-empty string'')) (\<lambda>_.
     rbind (guard (\<not> blank (tp_source_broker p)) (ProvenanceValueError ''source_broker must be a non-empty string'')) (\<lambda>_.
     rbind (guard (\<not> blank (tp_source_sequence p)) (ProvenanceValueError ''source_sequence must be a non-empty string'')) (\<lambda>_.
     rbind (guard (tz_aware (tp_timestamp p)) (ProvenanceValueError ''timestamp must be timezone-aware'')) (\<lambda>_.
     rbind (guard (tz_aware (tp_received_at p)) (ProvenanceValueError ''received_at must be timezone-aware'')) (\<lambda>_. Inr p))))))"

definition provenance_of :: "market_tick \<Rightarrow> (paper_feed_error, tick_provenance) result" where
  "provenance_of t = mk_tick_provenance
     \<lparr>tp_instrument_id = tk_instrument_id t, tp_exchange = tk_exchange t, tp_symbol = tk_symbol t, tp_source_broker = tk_source_broker t,
      tp_source_sequence = tk_source_sequence t, tp_timestamp = tk_timestamp t, tp_received_at = tk_received_at t\<rparr>"

definition coherent_quote :: "market_tick \<Rightarrow> bool" where
  "coherent_quote t = (case (tk_bid t, tk_ask t) of (Some b, Some a) \<Rightarrow> b \<le> tk_ltp t \<and> tk_ltp t \<le> a | _ \<Rightarrow> True)"

text \<open>A tick that meets the contract converts into a reference price exactly when the last price lies within the spread, whenever both legs are there;
  the reference then has the tick's instrument, prices and time, and meets the conditions of the paper broker.\<close>

theorem tick_to_reference_exact:
  assumes "tick_valid t"
  shows "tick_to_reference t = Inr r \<longleftrightarrow>
    coherent_quote t \<and> reference_ok r \<and> r = \<lparr>rp_instrument_id = tk_instrument_id t, rp_last = tk_ltp t, rp_bid = tk_bid t, rp_ask = tk_ask t,
      rp_reference_at = tk_timestamp t\<rparr>"
proof -
  have order: "b \<le> a" if "b \<le> l" "l \<le> a" for a b l :: decimal using that by (rule order_trans)
  have crossed: "\<not> crossed (Tick t)" if "coherent_quote t"
    using that order by (auto simp: coherent_quote_def decimal_order split: option.splits)
  have legs: "leg_positive (tk_bid t)" "leg_positive (tk_ask t)" "0 < tk_ltp t" "tz_aware (tk_timestamp t)"
    using assms by (auto simp: tick_valid_def leg_positive_def split: option.splits)
  have quote: "coherent_quote t = (case (tk_bid t, tk_ask t) of (Some b, Some a) \<Rightarrow> b \<le> tk_ltp t \<and> tk_ltp t \<le> a | _ \<Rightarrow> True)"
    by (simp add: coherent_quote_def)
  show ?thesis
    unfolding tick_to_reference_def feed_guard_def quote [symmetric]
    using legs crossed by (auto simp: result_simps Let_def)
qed

lemma reference_of_coherent:
  assumes "tick_valid t" "coherent_quote t"
  shows "\<exists>r. tick_to_reference t = Inr r"
proof -
  let ?r = "\<lparr>rp_instrument_id = tk_instrument_id t, rp_last = tk_ltp t, rp_bid = tk_bid t, rp_ask = tk_ask t, rp_reference_at = tk_timestamp t\<rparr>"
  have "b \<le> a" if "b \<le> l" "l \<le> a" for a b l :: decimal using that by (rule order_trans)
  then have "reference_ok ?r"
    using assms by (auto simp: reference_ok_def tick_valid_def coherent_quote_def split: option.splits)
  then show ?thesis using tick_to_reference_exact [OF assms(1), of ?r] assms(2) by blast
qed

text \<open>A tick of the contract may have a source of white space only, and then has no provenance.\<close>

lemma provenance_key:
  "provenance_of t = Inr p \<Longrightarrow> (tp_source_broker p, tp_source_sequence p) = key_of_tick t"
  by (auto simp: provenance_of_def mk_tick_provenance_def key_of_tick_def result_simps)

end
