(* ===== verification/Event_Bus.thy ===== *)
theory Event_Bus
  imports Service_Kit Signal_Contract
begin

text \<open>
  The domain events of \<^verbatim>\<open>packages/contracts/alpha_algo_contracts/events.py\<close> and the in-process bus of
  \<^verbatim>\<open>packages/events/alpha_algo_event_bus/bus.py\<close>.

  A payload is a tree of dictionaries, lists and leaves.  Subscriptions are objects: the bus holds references, the store holds the
  objects with their flag, and two objects are equal when their fields are, as for a dataclass.  A handler is a parameter: for an event it
  may subscribe and unsubscribe, and it may raise; handlers that publish or reset the bus are not represented.  Lower case is that of ASCII.

  The main results: an event exists only with a payload free of sensitive keys, in every dictionary that dictionaries and lists of dictionaries lead to; a
  child event keeps correlation and trace and names its cause; publishing calls every active handler of the topic and of the wildcard once
  and in order, whichever of them raise; and a cancelled subscription is never called again.
\<close>

section \<open>Events\<close>

datatype json = J_Leaf pyval | J_List "json list" | J_Dict "(string \<times> json) list"

datatype event_error = DomainEventError string

definition lower_char :: "char \<Rightarrow> char" where
  "lower_char c = (if 65 \<le> (of_char c :: nat) \<and> of_char c \<le> (90 :: nat) then char_of ((of_char c :: nat) + 32) else c)"

definition sensitive_key_parts :: "string list" where
  "sensitive_key_parts = [''password'', ''passwd'', ''token'', ''secret'', ''api_key'', ''apikey'', ''authorization'', ''credential'',
     ''private_key'', ''refresh'', ''cookie'', ''session_id'']"

definition is_substring :: "string \<Rightarrow> string \<Rightarrow> bool" where
  "is_substring p s = list_ex (\<lambda>i. take (length p) (drop i s) = p) [0..<Suc (length s)]"

definition sensitive_key :: "string \<Rightarrow> bool" where
  "sensitive_key k = list_ex (\<lambda>p. is_substring p (map lower_char k)) sensitive_key_parts"

text \<open>The recursion into a value: a dictionary is checked, and of a list the items that are dictionaries.\<close>

fun validate_no_secrets :: "(string \<times> json) list \<Rightarrow> (event_error, unit) result"
  and validate_value :: "json \<Rightarrow> (event_error, unit) result"
  and validate_items :: "json list \<Rightarrow> (event_error, unit) result" where
  "validate_no_secrets [] = Inr ()"
| "validate_no_secrets ((k, v) # kvs) =
     rbind (guard (\<not> sensitive_key k) (DomainEventError (''payload key '' @ py_repr k @ '' is sensitive and not allowed in events''))) (\<lambda>_.
     rbind (validate_value v) (\<lambda>_. validate_no_secrets kvs))"
| "validate_value (J_Leaf _) = Inr ()"
| "validate_value (J_Dict kvs) = validate_no_secrets kvs"
| "validate_value (J_List items) = validate_items items"
| "validate_items [] = Inr ()"
| "validate_items (J_Dict kvs # items) = rbind (validate_no_secrets kvs) (\<lambda>_. validate_items items)"
| "validate_items (_ # items) = validate_items items"

text \<open>\<^verbatim>\<open>_SAFE_EVENT_TYPE.match\<close>: the dollar also matches before one final newline.\<close>

definition type_start :: "char \<Rightarrow> bool" where
  "type_start c \<longleftrightarrow> 97 \<le> (of_char c :: nat) \<and> of_char c \<le> (122 :: nat)"

definition type_char :: "char \<Rightarrow> bool" where
  "type_char c \<longleftrightarrow> type_start c \<or> is_digit c \<or> c = CHR ''_'' \<or> c = CHR ''.''"

definition plain_event_type :: "string \<Rightarrow> bool" where
  "plain_event_type s = (case s of [] \<Rightarrow> False | c # cs \<Rightarrow> type_start c \<and> length cs \<le> 127 \<and> list_all type_char cs)"

definition safe_event_type :: "string \<Rightarrow> bool" where
  "safe_event_type s \<longleftrightarrow> plain_event_type s \<or> s \<noteq> [] \<and> last s = CHR 0x0A \<and> plain_event_type (butlast s)"

record domain_event =
  de_event_type :: string
  de_occurred_at :: datetime
  de_source :: string
  de_payload :: "(string \<times> json) list"
  de_event_id :: uuid
  de_correlation_id :: "string option"
  de_causation_id :: "string option"
  de_trace_id :: "string option"
  de_domain_ids :: "(string \<times> string) list"

definition mk_domain_event :: "domain_event \<Rightarrow> (event_error, domain_event) result" where
  "mk_domain_event e =
     rbind (guard (safe_event_type (de_event_type e))
       (DomainEventError ''event_type must be a lowercase dotted string matching [a-z][a-z0-9_.]*'')) (\<lambda>_.
     rbind (guard (tz_aware (de_occurred_at e)) (DomainEventError ''occurred_at must be timezone-aware'')) (\<lambda>_.
     rbind (guard (\<not> blank (de_source e)) (DomainEventError ''source must be a non-empty string'')) (\<lambda>_.
     rbind (validate_no_secrets (de_payload e)) (\<lambda>_.
     rbind (guard (de_causation_id e \<noteq> Some (uuid_str (de_event_id e)))
       (DomainEventError ''causation_id cannot equal event_id (no self-causation)'')) (\<lambda>_. Inr e)))))"

text \<open>The keyword arguments of \<^verbatim>\<open>derive\<close>; absent ones have their defaults, which are fields of the parent, the clock and a fresh identifier.\<close>

record event_overrides =
  ov_occurred_at :: "datetime option"
  ov_source :: "string option"
  ov_correlation_id :: "string option option"
  ov_trace_id :: "string option option"
  ov_domain_ids :: "(string \<times> string) list option"
  ov_event_id :: "uuid option"

definition or_default :: "'a option \<Rightarrow> 'a \<Rightarrow> 'a" where
  "or_default v d = (case v of None \<Rightarrow> d | Some x \<Rightarrow> x)"

definition derive_event ::
  "datetime \<Rightarrow> uuid \<Rightarrow> domain_event \<Rightarrow> string \<Rightarrow> (string \<times> json) list option \<Rightarrow> event_overrides \<Rightarrow> (event_error, domain_event) result" where
  "derive_event now fresh_id e event_type payload ov = mk_domain_event
     \<lparr>de_event_type = event_type, de_occurred_at = or_default (ov_occurred_at ov) now, de_source = or_default (ov_source ov) (de_source e),
      de_payload = or_default payload [], de_event_id = or_default (ov_event_id ov) fresh_id,
      de_correlation_id = or_default (ov_correlation_id ov) (de_correlation_id e), de_causation_id = Some (uuid_str (de_event_id e)),
      de_trace_id = or_default (ov_trace_id ov) (de_trace_id e), de_domain_ids = or_default (ov_domain_ids ov) (de_domain_ids e)\<rparr>"

definition create_event ::
  "datetime \<Rightarrow> uuid \<Rightarrow> string \<Rightarrow> string \<Rightarrow> (string \<times> json) list option \<Rightarrow> string option \<Rightarrow> string option \<Rightarrow> string option \<Rightarrow>
   (string \<times> string) list option \<Rightarrow> datetime option \<Rightarrow> (event_error, domain_event) result" where
  "create_event now fresh_id event_type source payload correlation causation trace ids occurred_at = mk_domain_event
     \<lparr>de_event_type = event_type, de_occurred_at = or_default occurred_at now, de_source = source, de_payload = or_default payload [],
      de_event_id = fresh_id, de_correlation_id = correlation, de_causation_id = causation, de_trace_id = trace,
      de_domain_ids = or_default ids []\<rparr>"

section \<open>The bus\<close>

record subscription =
  sb_topic :: string
  sb_handler :: nat
  sb_cancelled :: bool

record handler_failure =
  hf_topic :: string
  hf_event_id :: string
  hf_event_type :: string
  hf_error :: string

text \<open>The registry holds references; the log of calls is the model's own.\<close>

record event_bus =
  eb_handlers :: "(string, nat list) odict"
  eb_objects :: "subscription list"
  eb_published :: nat
  eb_failures :: "handler_failure list"
  eb_calls :: "(nat \<times> domain_event) list"

datatype bus_error = BusValueError string

definition new_bus :: event_bus where
  "new_bus = \<lparr>eb_handlers = [], eb_objects = [], eb_published = 0, eb_failures = [], eb_calls = []\<rparr>"

definition topic_subs :: "event_bus \<Rightarrow> string \<Rightarrow> nat list" where
  "topic_subs b topic = (case map_of (eb_handlers b) topic of None \<Rightarrow> [] | Some rs \<Rightarrow> rs)"

definition bus_subscribe :: "event_bus \<Rightarrow> string \<Rightarrow> nat \<Rightarrow> (bus_error, nat) result \<times> event_bus" where
  "bus_subscribe b topic handler =
     (if blank topic then (Inl (BusValueError ''topic must be a non-empty string''), b)
      else
        (let r = length (eb_objects b) in
         (Inr r, b\<lparr>eb_objects := eb_objects b @ [\<lparr>sb_topic = topic, sb_handler = handler, sb_cancelled = False\<rparr>],
            eb_handlers := od_set topic (topic_subs b topic @ [r]) (eb_handlers b)\<rparr>)))"

text \<open>\<^verbatim>\<open>in\<close> and \<^verbatim>\<open>remove\<close> compare by equality and take the first match.\<close>

fun remove_equal :: "('r \<Rightarrow> bool) \<Rightarrow> 'r list \<Rightarrow> 'r list" where
  "remove_equal same [] = []"
| "remove_equal same (r # rs) = (if same r then rs else r # remove_equal same rs)"

definition bus_unsubscribe :: "event_bus \<Rightarrow> nat \<Rightarrow> event_bus" where
  "bus_unsubscribe b r =
     (if r < length (eb_objects b) then
        (let s = eb_objects b ! r; same = (\<lambda>q. q < length (eb_objects b) \<and> eb_objects b ! q = s); subs = topic_subs b (sb_topic s) in
         if list_ex same subs
         then b\<lparr>eb_handlers := od_set (sb_topic s) (remove_equal same subs) (eb_handlers b),
                eb_objects := (eb_objects b)[r := s\<lparr>sb_cancelled := True\<rparr>]\<rparr>
         else b)
      else b)"

definition wildcard :: string where
  "wildcard = ''*''"

definition matching_subs :: "event_bus \<Rightarrow> domain_event \<Rightarrow> nat list" where
  "matching_subs b e = topic_subs b (de_event_type e) @ topic_subs b wildcard"

datatype bus_op = Op_Subscribe string nat | Op_Unsubscribe nat

fun bus_apply :: "event_bus \<Rightarrow> bus_op \<Rightarrow> event_bus" where
  "bus_apply b (Op_Subscribe topic handler) = snd (bus_subscribe b topic handler)"
| "bus_apply b (Op_Unsubscribe r) = bus_unsubscribe b r"

text \<open>What a handler does with an event: the calls it makes on the bus, and the text of the exception it raises.\<close>

type_synonym handlers = "nat \<Rightarrow> domain_event \<Rightarrow> bus_op list \<times> string option"

definition call_subscription :: "handlers \<Rightarrow> domain_event \<Rightarrow> nat \<times> event_bus \<Rightarrow> nat \<Rightarrow> nat \<times> event_bus" where
  "call_subscription hs e = (\<lambda>(invoked, b) r.
     let s = eb_objects b ! r in
     if sb_cancelled s then (invoked, b)
     else
       (let (ops, raised) = hs (sb_handler s) e;
            b' = foldl bus_apply (b\<lparr>eb_calls := eb_calls b @ [(r, e)]\<rparr>) ops in
        (invoked + 1,
         case raised of
           None \<Rightarrow> b'
         | Some err \<Rightarrow> b'\<lparr>eb_failures := eb_failures b' @ [\<lparr>hf_topic = sb_topic s, hf_event_id = uuid_str (de_event_id e),
             hf_event_type = de_event_type e, hf_error = err\<rparr>]\<rparr>)))"

definition bus_publish :: "handlers \<Rightarrow> event_bus \<Rightarrow> domain_event \<Rightarrow> nat \<times> event_bus" where
  "bus_publish hs b e = foldl (call_subscription hs e) (0, b\<lparr>eb_published := eb_published b + 1\<rparr>) (matching_subs b e)"

definition bus_publish_many :: "handlers \<Rightarrow> event_bus \<Rightarrow> domain_event list \<Rightarrow> nat \<times> event_bus" where
  "bus_publish_many hs b es =
     foldl (\<lambda>(n, b) e. let (k, b') = bus_publish hs b e in (n + k, b')) (0, b) es"

definition handler_count :: "event_bus \<Rightarrow> string option \<Rightarrow> nat" where
  "handler_count b topic =
     (case topic of None \<Rightarrow> sum_list (map (\<lambda>(_, rs). length rs) (eb_handlers b)) | Some t \<Rightarrow> length (topic_subs b t))"

definition clear_failures :: "event_bus \<Rightarrow> event_bus" where
  "clear_failures b = b\<lparr>eb_failures := []\<rparr>"

definition bus_reset :: "event_bus \<Rightarrow> event_bus" where
  "bus_reset b = b\<lparr>eb_handlers := [], eb_published := 0, eb_failures := []\<rparr>"

text \<open>The bus that delivers nothing: its subscriptions are born cancelled and detached, and publishing only returns zero.\<close>

definition noop_subscribe :: "string \<Rightarrow> nat \<Rightarrow> subscription" where
  "noop_subscribe topic handler = \<lparr>sb_topic = topic, sb_handler = handler, sb_cancelled = True\<rparr>"

definition noop_publish :: "event_bus \<Rightarrow> domain_event \<Rightarrow> nat \<times> event_bus" where
  "noop_publish b e = (0, b)"

section \<open>No secrets\<close>

text \<open>The keys that must be harmless: those of the payload, of dictionaries inside it and of dictionaries that are items of lists inside it.\<close>

fun guarded_keys :: "(string \<times> json) list \<Rightarrow> string list"
  and value_keys :: "json \<Rightarrow> string list"
  and item_keys :: "json list \<Rightarrow> string list" where
  "guarded_keys [] = []"
| "guarded_keys ((k, v) # kvs) = k # value_keys v @ guarded_keys kvs"
| "value_keys (J_Leaf _) = []"
| "value_keys (J_Dict kvs) = guarded_keys kvs"
| "value_keys (J_List items) = item_keys items"
| "item_keys [] = []"
| "item_keys (J_Dict kvs # items) = guarded_keys kvs @ item_keys items"
| "item_keys (_ # items) = item_keys items"

lemma validate_no_secrets_iff:
  "validate_no_secrets kvs = Inr () \<longleftrightarrow> list_all (\<lambda>k. \<not> sensitive_key k) (guarded_keys kvs)"
  "validate_value v = Inr () \<longleftrightarrow> list_all (\<lambda>k. \<not> sensitive_key k) (value_keys v)"
  "validate_items vs = Inr () \<longleftrightarrow> list_all (\<lambda>k. \<not> sensitive_key k) (item_keys vs)"
  by (induction kvs and v and vs rule: validate_no_secrets_validate_value_validate_items.induct) (auto simp: result_simps)

text \<open>An event exists exactly with a well-formed type, an aware time, a source, a harmless payload and another cause than itself.\<close>

theorem domain_event_exact:
  "mk_domain_event e = Inr e' \<longleftrightarrow> e' = e \<and> safe_event_type (de_event_type e) \<and> tz_aware (de_occurred_at e) \<and> \<not> blank (de_source e) \<and>
     list_all (\<lambda>k. \<not> sensitive_key k) (guarded_keys (de_payload e)) \<and> de_causation_id e \<noteq> Some (uuid_str (de_event_id e))"
  by (auto simp: mk_domain_event_def result_simps validate_no_secrets_iff [symmetric])

text \<open>A dictionary inside a list inside a list is not looked at.\<close>

lemma nested_list_unchecked: "validate_no_secrets [(''rows'', J_List [J_List [J_Dict [(''password'', J_Leaf v)]]])] = Inr ()"
  by (simp add: validate_no_secrets_iff) (simp add: sensitive_key_def sensitive_key_parts_def is_substring_def lower_char_def upt_rec)

text \<open>A child event keeps correlation and trace unless they are overridden, and names its parent as the cause.\<close>

lemma derive_event_links:
  assumes "derive_event now fresh_id e ty payload ov = Inr c"
  shows "de_causation_id c = Some (uuid_str (de_event_id e)) \<and> (ov_correlation_id ov = None \<longrightarrow> de_correlation_id c = de_correlation_id e) \<and>
    (ov_trace_id ov = None \<longrightarrow> de_trace_id c = de_trace_id e) \<and> uuid_str (de_event_id c) \<noteq> uuid_str (de_event_id e)"
  using assms by (auto simp: derive_event_def domain_event_exact or_default_def)

section \<open>Delivery\<close>

text \<open>When the handlers leave the bus alone, publishing calls exactly the active subscriptions of the topic and then of the wildcard, in order,
  whichever of them raise.\<close>

definition active_subs :: "event_bus \<Rightarrow> domain_event \<Rightarrow> nat list" where
  "active_subs b e = filter (\<lambda>r. \<not> sb_cancelled (eb_objects b ! r)) (matching_subs b e)"

lemma call_subscriptions_quiet:
  assumes "\<And>h. fst (hs h e) = []"
  shows "fst (foldl (call_subscription hs e) (n, b) rs) = n + length (filter (\<lambda>r. \<not> sb_cancelled (eb_objects b ! r)) rs) \<and>
    eb_calls (snd (foldl (call_subscription hs e) (n, b) rs)) = eb_calls b @ map (\<lambda>r. (r, e)) (filter (\<lambda>r. \<not> sb_cancelled (eb_objects b ! r)) rs)"
proof (induction rs arbitrary: n b)
  case (Cons r rs)
  obtain raised where h: "hs (sb_handler (eb_objects b ! r)) e = ([], raised)" using assms by (metis prod.collapse)
  show ?case
  proof (cases "sb_cancelled (eb_objects b ! r)")
    case True
    then show ?thesis using Cons by (simp add: call_subscription_def)
  next
    case False
    then show ?thesis using Cons h by (cases raised) (simp_all add: call_subscription_def Let_def)
  qed
qed simp

theorem publish_isolated:
  assumes "\<And>h. fst (hs h e) = []"
  shows "fst (bus_publish hs b e) = length (active_subs b e) \<and>
    eb_calls (snd (bus_publish hs b e)) = eb_calls b @ map (\<lambda>r. (r, e)) (active_subs b e)"
  using call_subscriptions_quiet [of hs e 0 "b\<lparr>eb_published := eb_published b + 1\<rparr>", OF assms]
  by (simp add: bus_publish_def active_subs_def)

text \<open>A cancelled subscription stays cancelled and is never called again, whatever handlers and clients do.\<close>

definition keeps_cancelled :: "nat \<Rightarrow> event_bus \<Rightarrow> event_bus \<Rightarrow> bool" where
  "keeps_cancelled r b b' \<longleftrightarrow>
     (r < length (eb_objects b) \<and> sb_cancelled (eb_objects b ! r) \<longrightarrow>
        r < length (eb_objects b') \<and> sb_cancelled (eb_objects b' ! r) \<and>
        filter (\<lambda>(q, _). q = r) (eb_calls b') = filter (\<lambda>(q, _). q = r) (eb_calls b))"

lemma keeps_cancelled_refl [simp]: "keeps_cancelled r b b"
  by (simp add: keeps_cancelled_def)

lemma keeps_cancelled_trans: "keeps_cancelled r a b \<Longrightarrow> keeps_cancelled r b c \<Longrightarrow> keeps_cancelled r a c"
  by (auto simp: keeps_cancelled_def)

lemma bus_apply_keeps: "keeps_cancelled r b (bus_apply b op)"
proof (cases op)
  case (Op_Subscribe topic handler)
  then show ?thesis by (auto simp: keeps_cancelled_def bus_subscribe_def Let_def nth_append)
next
  case (Op_Unsubscribe q)
  then show ?thesis by (auto simp: keeps_cancelled_def bus_unsubscribe_def Let_def nth_list_update)
qed

lemma foldl_keeps_cancelled:
  "(\<And>b x. keeps_cancelled r (h b) (h (f b x))) \<Longrightarrow> keeps_cancelled r (h b) (h (foldl f b xs))"
  by (induction xs arbitrary: b) (auto intro: keeps_cancelled_trans)

lemma call_subscription_keeps: "keeps_cancelled r (snd nb) (snd (call_subscription hs e nb q))"
proof (cases "sb_cancelled (eb_objects (snd nb) ! q)")
  case False
  obtain ops raised where h: "hs (sb_handler (eb_objects (snd nb) ! q)) e = (ops, raised)" by (rule prod.exhaust)
  let ?b = "snd nb" let ?b1 = "?b\<lparr>eb_calls := eb_calls ?b @ [(q, e)]\<rparr>"
  have "keeps_cancelled r ?b1 (foldl bus_apply ?b1 ops)"
    using foldl_keeps_cancelled [of r id bus_apply] bus_apply_keeps by simp
  moreover have "keeps_cancelled r ?b ?b1" using False by (auto simp: keeps_cancelled_def)
  ultimately have "keeps_cancelled r ?b (foldl bus_apply ?b1 ops)" by (rule keeps_cancelled_trans [rotated])
  then show ?thesis using False h
    by (cases raised) (auto simp: call_subscription_def case_prod_beta Let_def keeps_cancelled_def)
qed (simp add: call_subscription_def case_prod_beta)

lemma bus_publish_keeps: "keeps_cancelled r b (snd (bus_publish hs b e))"
proof -
  let ?b = "b\<lparr>eb_published := eb_published b + 1\<rparr>"
  have "keeps_cancelled r (snd (0::nat, ?b)) (snd (foldl (call_subscription hs e) (0, ?b) (matching_subs b e)))"
    by (rule foldl_keeps_cancelled [where h = snd and f = "call_subscription hs e"]) (rule call_subscription_keeps)
  then show ?thesis by (simp add: bus_publish_def keeps_cancelled_def)
qed

datatype bus_call = Bus_Op bus_op | Bus_Publish handlers domain_event

fun bus_step :: "event_bus \<Rightarrow> bus_call \<Rightarrow> event_bus" where
  "bus_step b (Bus_Op op) = bus_apply b op"
| "bus_step b (Bus_Publish hs e) = snd (bus_publish hs b e)"

theorem cancelled_never_called: "keeps_cancelled r b (foldl bus_step b calls)"
proof -
  have "keeps_cancelled r a (bus_step a c)" for a c by (cases c) (simp_all add: bus_apply_keeps bus_publish_keeps)
  then show ?thesis using foldl_keeps_cancelled [of r id bus_step] by simp
qed

text \<open>Two subscriptions of one handler to one topic are equal: cancelling the second removes the first from the registry and marks the
  second, and after that neither is called.\<close>

lemma equal_subscriptions_lost:
  assumes "\<not> blank topic" "b = bus_unsubscribe (snd (bus_subscribe (snd (bus_subscribe new_bus topic h)) topic h)) 1"
    and "de_event_type e = topic" "topic \<noteq> wildcard"
  shows "active_subs b e = []"
  using assms
  by (simp add: bus_subscribe_def bus_unsubscribe_def new_bus_def topic_subs_def od_set_def Let_def active_subs_def matching_subs_def wildcard_def)

end
