(* ===== verification/Spec2Isabelle.thy ===== *)
theory Spec2Isabelle
  imports Execution_Engine Oms Pnl_Engine Paper_Runtime Recon_Engine Trading_Engine Backtest_Portfolio Walk_Forward
    Portfolio_Engine Sma_Strategy Paper_Feed Event_Bus
begin

text \<open>
  Verification of the trading path of the Alpha Algo trading system, from a strategy's signal to booked profit.

  \<^bold>\<open>The program.\<close>  The repository is a Python trading platform of small services over shared tables.
  The market data service (\<^verbatim>\<open>services/market_data\<close>) turns a provider's raw events into ticks and candles.
  The strategy runtime (\<^verbatim>\<open>services/strategy_engine\<close>) feeds market, order and position events to strategies and publishes
  the signals they emit; the signal engine (\<^verbatim>\<open>services/signal_engine\<close>) validates, stores and publishes it; the
  trading engine (\<^verbatim>\<open>services/trading_engine\<close>) asks the risk engine (\<^verbatim>\<open>services/risk_engine\<close>) for an approval and turns the signal
  into a \<^verbatim>\<open>TradingIntent\<close>; the OMS (\<^verbatim>\<open>services/oms\<close>) turns the approved intent into a stored order and hands it
  to the execution engine (\<^verbatim>\<open>services/execution_engine\<close>), which submits it to a broker adapter and applies the
  broker's events to the stored order.  Fills go to the position engine
  (\<^verbatim>\<open>services/position_engine\<close>) and from there to the P&L engine (\<^verbatim>\<open>services/pnl_engine\<close>).
  \<^verbatim>\<open>services/paper_trading\<close> is the simulated broker with the runtime around it, and
  \<^verbatim>\<open>services/reconciliation_engine\<close> compares the platform's state with the broker's.  The portfolio engine
  (\<^verbatim>\<open>services/portfolio_engine\<close>) derives account snapshots from positions, profit and cash.  Beside the trading path,
  \<^verbatim>\<open>backtesting/\<close> replays recorded ticks and candles through a strategy: data checks, a single-symbol engine, metrics
  and reports, a portfolio simulator over several symbols, and walk-forward analysis over sliding windows.
  LIVE trading is disabled: every component is meant to refuse it.

  \<^bold>\<open>The theories.\<close>
  \<^item> \<open>Prelude\<close>: identifiers, time, strings, UUID text, the result type, tables as lists of rows; the
    interfaces as locales: \<open>transition_table\<close> and \<open>terminating_table\<close> (a state machine given by a table),
    \<open>at_least_once\<close> (a receiver of messages that may be delivered again).
  \<^item> \<open>Py_Decimal\<close>, \<open>Decimal_Text\<close>: Python's \<^verbatim>\<open>decimal\<close> with its 28-digit context, rounding, division and
    quantisation, and its text; the exactness and bound lemmas of all money computations.
  \<^item> \<open>Order_Lifecycle\<close>: \<^verbatim>\<open>lifecycle.py\<close>, \<^verbatim>\<open>events.py\<close>, \<^verbatim>\<open>submission.py\<close> of the execution engine: the order state
    machine (interpretation \<open>order_machine\<close>), fill accounting, the submission guard.
  \<^item> \<open>Order_Store\<close>, \<open>Order_Log\<close>: the order, event and attempt tables with their unique constraints, and
    the invariant that every order's event log is a run of the state machine.
  \<^item> \<open>Execution_Engine\<close>: validation, submission with bounded retry, cancellation and event application of
    \<^verbatim>\<open>engine.py\<close> (interpretation \<open>event_feed\<close>).
  \<^item> \<open>Oms\<close>: validation, identity, persistence and the service of the OMS.
  \<^item> \<open>Position_Engine\<close>, \<open>Pnl_Engine\<close>: fill arithmetic, identity, repositories and engines
    (interpretations \<open>fill_feed\<close> and \<open>pnl_feed\<close>).
  \<^item> \<open>Paper_Broker\<close>: the fill policy, the order book, the drain of events, positions and the adapter
    session (interpretation \<open>paper_feed\<close>).
  \<^item> \<open>Paper_Runtime\<close>: the cost model, the cash ledger, mode routing, run identity, the paper tables and the service
    that submits orders to the paper broker and books their cash.
  \<^item> \<open>Recon_Matching\<close>, \<open>Recon_Engine\<close>: the comparison of internal and broker observations of orders, executions, positions
    and funds, the store of discrepancies and the reconciliation run.
  \<^item> \<open>Service_Kit\<close>: ordered dictionaries as bounded caches, inserts under unique constraints beside concurrent
    writers, and the interface \<open>publish_once\<close> of a service that commits a row before it publishes.
  \<^item> \<open>Signal_Contract\<close>, \<open>Signal_Engine\<close>: signals, their text and identity; the signal state machine
    (interpretation \<open>signal_machine\<close>), validation, cache, repository and engine (interpretation \<open>signal_feed\<close>), and the
    refinement of a specification that has no cache.
  \<^item> \<open>Risk_Rules\<close>: the twenty rules and the rule engine of the risk engine (\<^verbatim>\<open>engine.py\<close>).
  \<^item> \<open>Risk_Controls\<close>: circuit breakers, the kill switch, the LIVE safety gates and the release controller
    (\<^verbatim>\<open>circuit_breaker.py\<close>, \<^verbatim>\<open>gates.py\<close>).
  \<^item> \<open>Risk_Service\<close>: snapshots, context, approvals, the risk event table and the service (interpretation \<open>risk_feed\<close>).
  \<^item> \<open>Trading_Engine\<close>: the orchestrator over the risk service (interpretations \<open>orchestration_machine\<close>, \<open>intent_feed\<close> and
    \<open>approval_feed\<close>), and what the OMS makes of the intents it hands over.
  \<^item> \<open>Strategy_Engine\<close>: the contract of a strategy, its state machine (interpretation \<open>run_machine\<close>), registry, instance with
    signal validation and duplicate protection, dispatcher and runtime, and the adapter to the signal engine.
  \<^item> \<open>Portfolio_Engine\<close>: valuation, exposure, allocation and the snapshot store of the portfolio engine
    (\<^verbatim>\<open>services/portfolio_engine\<close>), over the positions and P&L records of the theories above.
  \<^item> \<open>Py_Calendar\<close>, \<open>Market_Data\<close>: Python's dates and days; the contract of ticks and candles
    (\<^verbatim>\<open>contracts/market_data.py\<close>), the validated backtest input, the clock, the replay cursor, the digest and the data
    quality classifier.
  \<^item> \<open>Market_Feed\<close>: the market data service: normalisation, duplicate and staleness checks, queue, pipeline, connection and paged history.
  \<^item> \<open>Paper_Feed\<close>: the conversion of ticks into the reference prices of the paper broker.
  \<^item> \<open>Sma_Strategy\<close>: the moving averages and the reference strategy built on them, run by the strategy runtime.
  \<^item> \<open>Event_Bus\<close>: the contract of domain events and the in-process bus.
  \<^item> \<open>Backtest_Engine\<close>: order intents, costs, fills, the FIFO ledger, latency and the single-symbol engine.
  \<^item> \<open>Backtest_Metrics\<close>, \<open>Backtest_Report\<close>: curves, drawdown, ratios, trade statistics, calendar buckets and the report
    built from them.
  \<^item> \<open>Backtest_Portfolio\<close>: the allocation of capital and the simulator of several symbols over one pool of cash.
  \<^item> \<open>Walk_Forward\<close>: the window schedule, the aggregation over periods and the overfitting assessment.
  \<^item> \<open>Spec2Isabelle\<close> (this theory): the OMS and the execution engine running on one database, in any
    interleaving.

  \<^bold>\<open>How the model corresponds to the code.\<close>  A class with state is a record, one definition per method,
  the state passed and returned; an exception is the left summand of the result, returned together with
  the state the code leaves behind.  A database table is the list of its rows, a unique constraint is a
  check before the insert, a failed transaction returns the old tables.  Content hashes and \<^verbatim>\<open>uuid5\<close> are
  parameters, as are the clock, the halt switch, database outages, broker adapters and every port of a
  service; a theorem that needs a property of one of them (that a hash has no collision among
  the payloads at hand) states it as a hypothesis.  Random identifiers that nothing reads are dropped.
  Metrics are kept where the code returns or tests them.

  \<^bold>\<open>What the theorems show.\<close>  The history of every order is a run of the state machine under any
  interleaving of the services and terminal orders are frozen; a signal is published, an approval is
  published, an intent is handed over and an order reaches the broker at most once each, across restarts,
  concurrent writers and database failures; an approval exists only when every rule, gate and breaker allows it; every receiver of messages (broker events, fills, P&L events, paper orders)
  tolerates redelivery; fill, position, price and profit arithmetic is exact or bounded in the
  28-digit arithmetic the code really uses; the cash of a paper account is its starting capital plus the net cash of
  exactly the fills its broker recorded; consumers of market data get only
  ticks that were valid and fresh when they were ingested, and each once; strategies are isolated from each other as long as a worker of the
  thread pool is idle for each of them, run only in BACKTEST or PAPER mode, and what they publish is accepted downstream
  when it is not dated ahead of the receiver's clock; a backtest never spends cash it does not have, and a portfolio
  of one symbol is the single-symbol engine; walk-forward windows never overlap their test data and the analysis returns
  for every admissible configuration; a portfolio snapshot is the exact sum of its positions and is stored once; the comparison of positions reports exactly the differences; every component refuses what it must refuse before it
  changes anything.  Theorems of kind error also record behaviour the code's comments exclude.

  \<^bold>\<open>Bounds and termination.\<close>  No definition uses fuel.  The retry loop recurses on the remaining attempts,
  the digit count and zero stripping of decimals on measures.  The numeric bounds (2^31 shares, 18-digit
  prices, totals below 10^28) are those of the columns and of the decimal context, and are stated in the
  theorems that need them.

  \<^bold>\<open>Not modelled.\<close>  Backtest analytics (descriptive statistics, among them decimal logarithms and exponentials), parameter search
  and Monte Carlo resampling, and the persistence of backtest results; the HTTP API, the broker clients, observability and the user interfaces; threads and
  locks beyond the explicit interleavings and the workers of the strategy pool, and SQL below the level of rows and constraints.
\<close>

section \<open>The order pipeline: OMS and execution engine on one database\<close>

text \<open>The two services write the same tables; a step is one call of either of them, in any order.\<close>

record trading_system =
  sy_oms :: oms
  sy_engine :: exec_engine

datatype system_call =
    Oms_Call oms_call
  | Engine_Submit exec_env execution_request
  | Engine_Event exec_env broker_order_event
  | Engine_Cancel exec_env uuid

definition share_store :: "trading_system \<Rightarrow> order_store option \<Rightarrow> trading_system" where
  "share_store y s = y\<lparr>sy_oms := (sy_oms y)\<lparr>om_repository := s\<rparr>, sy_engine := (sy_engine y)\<lparr>en_repo := s\<rparr>\<rparr>"

definition engine_ran :: "trading_system \<Rightarrow> exec_engine \<Rightarrow> trading_system" where
  "engine_ran y en = share_store (y\<lparr>sy_engine := en\<rparr>) (en_repo en)"

fun system_step :: "trading_system \<Rightarrow> system_call \<Rightarrow> trading_system" where
  "system_step y (Oms_Call c) =
     (let st = oms_step (sy_oms y) c in share_store (y\<lparr>sy_oms := st\<rparr>) (om_repository st))"
| "system_step y (Engine_Submit env r) = engine_ran y (snd (engine_submit env (sy_engine y) r))"
| "system_step y (Engine_Event env ev) = engine_ran y (snd (engine_apply_event env (sy_engine y) ev))"
| "system_step y (Engine_Cancel env oid) = engine_ran y (snd (engine_cancel env (sy_engine y) oid))"

definition system_inv :: "order_store \<Rightarrow> trading_system \<Rightarrow> bool" where
  "system_inv s0 y \<longleftrightarrow> oms_inv s0 (sy_oms y) \<and> en_repo (sy_engine y) = om_repository (sy_oms y)"

lemma engine_ran_inv:
  assumes "system_inv s0 y" "repo_step (sy_engine y) en"
  shows "system_inv s0 (engine_ran y en)"
proof -
  obtain s s' where s: "om_repository (sy_oms y) = Some s" "store_inv s0 s (om_handoffs (sy_oms y))"
      "en_repo en = Some s'" "store_step s s'"
    using assms by (auto simp: system_inv_def oms_inv_def repo_step_def option_rel_Some1)
  have "store_grown s0 s'" using s(2,4) by (auto simp: store_inv_def store_step_def intro: store_grown_trans)
  moreover have "handoffs_ok s' (om_handoffs (sy_oms y))"
    using s(2,4) by (auto simp: store_inv_def store_step_def store_grown_def intro: handoffs_ok_extends)
  ultimately have "store_inv s0 s' (om_handoffs (sy_oms y))"
    using s(2,4) by (auto simp: store_inv_def store_step_def)
  then show ?thesis using s by (simp add: system_inv_def oms_inv_def engine_ran_def share_store_def)
qed

lemma system_step_inv: "system_inv s0 y \<Longrightarrow> system_inv s0 (system_step y c)"
proof (cases c)
  case (Oms_Call d)
  assume "system_inv s0 y"
  then have "oms_inv s0 (oms_step (sy_oms y) d)" by (auto simp: system_inv_def intro: oms_step_inv)
  then show ?thesis using Oms_Call by (auto simp: system_inv_def oms_inv_def share_store_def Let_def)
qed (auto intro!: engine_ran_inv engine_submit_step engine_apply_event_step engine_cancel_step)

lemma system_run_inv: "system_inv s0 y \<Longrightarrow> system_inv s0 (foldl system_step y calls)"
  by (induction calls arbitrary: y) (simp_all add: system_step_inv)

definition shared_store :: "trading_system \<Rightarrow> order_store" where
  "shared_store y = (case om_repository (sy_oms y) of Some s \<Rightarrow> s | None \<Rightarrow>
     \<lparr>os_orders = [], os_events = [], os_attempts = [], os_refs_ok = (\<lambda>_. True)\<rparr>)"

lemma system_inv_store:
  "system_inv s0 y \<Longrightarrow> store_inv s0 (shared_store y) (om_handoffs (sy_oms y))"
  by (auto simp: system_inv_def oms_inv_def shared_store_def)

lemma system_inv_restart: "system_inv s0 y \<Longrightarrow> system_inv (shared_store y) y"
  by (auto simp: system_inv_def oms_inv_def shared_store_def store_inv_def)

text \<open>C1.  The order history is consistent across both services: from empty tables, after any
  interleaving of order creations, cancellation requests, broker submissions, broker events and
  adapter cancellations, with any clock, halt, database, adapter and port behaviour, (1) the event
  log of every order is a run of the state machine from INTENT_CREATED to its stored status, and
  (2) an order whose stored status is terminal has the same row and the same event log at
  every later point.\<close>

theorem pipeline_order_history:
  assumes "om_repository (sy_oms y) = Some s" "os_orders s = []" "os_events s = []"
    and "om_handoffs (sy_oms y) = []" "en_repo (sy_engine y) = Some s"
  shows "log_ok (shared_store (foldl system_step y calls)) \<and>
    (\<forall>oid row later. find_by_id (shared_store (foldl system_step y calls)) oid = Some row \<longrightarrow>
       or_status row \<in> set terminal_order_states \<longrightarrow>
       order_log (shared_store (foldl system_step y (calls @ later))) oid =
         order_log (shared_store (foldl system_step y calls)) oid \<and>
       find_by_id (shared_store (foldl system_step y (calls @ later))) oid = Some row)"
proof -
  let ?y = "foldl system_step y calls"
  have "system_inv s y" using assms
    by (simp add: system_inv_def oms_inv_def store_inv_def log_ok_def keys_unique_def handoffs_ok_def find_by_id_def)
  then have y: "system_inv (shared_store ?y) ?y" by (intro system_inv_restart [OF system_run_inv])
  then have ok: "log_ok (shared_store ?y)" using system_inv_store [OF y] by (simp add: store_inv_def)
  have "order_log (shared_store (foldl system_step y (calls @ later))) oid = order_log (shared_store ?y) oid \<and>
      find_by_id (shared_store (foldl system_step y (calls @ later))) oid = Some row"
    if row: "find_by_id (shared_store ?y) oid = Some row" "or_status row \<in> set terminal_order_states" for oid row later
  proof -
    have "system_inv (shared_store ?y) (foldl system_step y (calls @ later))" using system_run_inv [OF y, of later] by simp
    then have "log_ok (shared_store (foldl system_step y (calls @ later)))"
        "store_grown (shared_store ?y) (shared_store (foldl system_step y (calls @ later)))"
      using system_inv_store by (auto simp: store_inv_def)
    then show ?thesis using terminal_order_frozen [OF _ ok _ row] by blast
  qed
  then show ?thesis using ok by blast
qed

definition sample_system :: trading_system where
  "sample_system = \<lparr>sy_oms = empty_oms, sy_engine = (sample_engine SUBMISSION_REQUESTED)\<lparr>en_repo := om_repository empty_oms\<rparr>\<rparr>"

definition sample_reject :: broker_order_event where
  "sample_reject = \<lparr>be_order_id = 11, be_event_type = EV_REJECTED, be_occurred_at = utc 20,
     be_reason = ''no'', be_broker_order_id = None, be_fill_quantity = 0, be_metadata = Map.empty\<rparr>"

lemma sample_reject_simps [simp]:
  "be_order_id sample_reject = 11" "be_event_type sample_reject = EV_REJECTED" "be_occurred_at sample_reject = utc 20"
  "be_reason sample_reject = ''no''" "be_broker_order_id sample_reject = None"
  by (simp_all add: sample_reject_def)

lemma sample_system_created:
  obtains st s r where "snd (create_order (sample_oms_env 11 0) empty_oms (Some sample_intent)) = st"
    "om_repository st = Some s" "os_orders s = [r]" "or_id r = 11" "or_status r = SUBMISSION_REQUESTED" "or_quantity r = 10"
    "or_filled_quantity r = None" "or_broker_order_id r = None" "\<forall>e\<in>set (os_events s). oe_source_event_id e \<noteq> Some ''h''"
proof -
  obtain sp where sp: "validate_intent (Some sample_intent) (utc 0) False = Inr sp"
    "sp_orchestration_id sp = ''o1''" "sp_risk_approval_id sp = uuid_str 7" "sp_approval_expires_at sp = utc 1000"
    "sp_quantity sp = 10"
    by (rule sample_create [of 0]) auto
  show thesis
    by (rule that, rule refl)
       (simp_all add: sample_oms_env_def empty_oms_def oms_eval sp, simp_all add: to_orm_order_def build_order_identity_def sp, simp_all?)
qed

theorem pipeline_order_history_witness:
  "\<exists>row. find_by_id (shared_store (foldl system_step sample_system
        [Oms_Call (Call_Create (sample_oms_env 11 0) (Some sample_intent)), Engine_Event (sample_env 0) sample_reject])) 11 = Some row \<and>
     or_status row = order_state.REJECTED \<and>
     order_log (shared_store (foldl system_step sample_system
        ([Oms_Call (Call_Create (sample_oms_env 11 0) (Some sample_intent)), Engine_Event (sample_env 0) sample_reject] @
         [Oms_Call (Call_Cancel (sample_oms_env 13 30) 11)]))) 11 =
     order_log (shared_store (foldl system_step sample_system
        [Oms_Call (Call_Create (sample_oms_env 11 0) (Some sample_intent)), Engine_Event (sample_env 0) sample_reject])) 11"
proof -
  let ?calls = "[Oms_Call (Call_Create (sample_oms_env 11 0) (Some sample_intent)), Engine_Event (sample_env 0) sample_reject]"
  obtain st s r where c: "snd (create_order (sample_oms_env 11 0) empty_oms (Some sample_intent)) = st"
    "om_repository st = Some s" "os_orders s = [r]" "or_id r = 11" "or_status r = SUBMISSION_REQUESTED" "or_quantity r = 10"
    "or_filled_quantity r = None" "or_broker_order_id r = None" "\<forall>e\<in>set (os_events s). oe_source_event_id e \<noteq> Some ''h''"
    by (rule sample_system_created)
  have id: "compute_event_identity (sample_env 0) sample_reject = ''h''"
    by (simp add: compute_event_identity_def source_id_def sample_defs sample_reject_def)
  have none: "event_row s ''h'' = None" "\<not> event_id_taken s (Some ''h'')"
    using c(9) by (auto simp: event_row_def first_row_None_iff event_id_taken_def clash_def)
  obtain row where row: "find_by_id (shared_store (foldl system_step sample_system ?calls)) 11 = Some row" "or_status row = order_state.REJECTED"
    using c(2-8) none
    by (simp add: sample_system_def shared_store_def share_store_def engine_ran_def c(1) Let_def engine_apply_event_def id
        has_event_def load_execution_state_def find_by_id_def mk_execution_state_def apply_event_def
        with_transition_def transition_to_def mk_transition_def save_event_def order_after_event_def
        apply_event_timestamp_def set_order_def blank_Cons is_space_def decimal_order dval_dec_of_int clash_def)
  have "order_log (shared_store (foldl system_step sample_system (?calls @ [Oms_Call (Call_Cancel (sample_oms_env 13 30) 11)]))) 11 =
      order_log (shared_store (foldl system_step sample_system ?calls)) 11 \<and>
      find_by_id (shared_store (foldl system_step sample_system (?calls @ [Oms_Call (Call_Cancel (sample_oms_env 13 30) 11)]))) 11 = Some row"
    by (rule pipeline_order_history [where s = "the (om_repository empty_oms)" and y = sample_system and calls = ?calls,
          THEN conjunct2, rule_format, OF _ _ _ _ _ row(1)])
       (simp_all add: sample_system_def empty_oms_def terminal_order_states_def row(2))
  then show ?thesis using row by blast
qed

end
